(* ===== verification/Prelude.thy ===== *)
theory Prelude
  imports Complex_Main "HOL-Library.Sublist"
begin

text \<open>
  What every component shares: Python exceptions as values, sequences of guards, the string
  functions of Python that the code uses, and the loops over rows.

  A Python \<open>str\<close> is a \<open>string\<close> (code points up to 255), an \<open>int\<close> is an \<open>int\<close>, a tuple or list is
  a \<open>list\<close>.  A call that can raise has type \<open>'a res\<close>: \<open>Inl\<close> is the raised exception, \<open>Inr\<close> the
  returned value.
\<close>

section \<open>Exceptions as values\<close>

datatype py_error =
    ValueError string
  | KeyError string
  | TypeError string
  | RuntimeError string
  | PermissionError string
  | IntegrityError
  | IndexError

type_synonym 'a res = "py_error + 'a"

type_synonym clock = "nat \<Rightarrow> int"

text \<open>
  A run of an operation reads the wall clock (\<open>now_ms\<close>) several times; the readings are the
  values \<open>clk 0\<close>, \<open>clk 1\<close>, \dots of a \<open>clock\<close>, in the order of the reads.
\<close>

named_theorems guard_simps "facts that decide the guards of a constructor"
named_theorems record_defs "definitions of the dataclass checks"
named_theorems frame_simps "what an operation leaves unchanged"

subsection \<open>Guards\<close>

text \<open>A sequence of \<open>if c: raise e\<close> statements: the first that fires decides.\<close>

fun raise_first :: "(bool \<times> py_error) list \<Rightarrow> py_error option" where
  "raise_first [] = None"
| "raise_first ((c, e) # gs) = (if c then Some e else raise_first gs)"

lemma raise_first_None_iff [simp]:
  "raise_first gs = None \<longleftrightarrow> (\<forall>g \<in> set gs. \<not> fst g)"
  by (induction gs rule: raise_first.induct) auto

lemma raise_first_append:
  "raise_first (xs @ ys) = (case raise_first xs of None \<Rightarrow> raise_first ys | Some e \<Rightarrow> Some e)"
  by (induction xs rule: raise_first.induct) auto

text \<open>A constructor that runs the checks of its dataclass and returns the value.\<close>

definition validated :: "py_error option \<Rightarrow> 'a \<Rightarrow> 'a res" where
  "validated c x = (case c of None \<Rightarrow> Inr x | Some e \<Rightarrow> Inl e)"

lemma validated_simps [simp]:
  "validated None x = Inr x"
  "validated (Some e) x = Inl e"
  by (simp_all add: validated_def)

lemma validated_Inr_iff [simp]: "validated c x = Inr y \<longleftrightarrow> c = None \<and> y = x"
  by (auto simp: validated_def split: option.splits)

lemma validated_Inl_iff [simp]: "validated c x = Inl e \<longleftrightarrow> c = Some e"
  by (auto simp: validated_def split: option.splits)

definition bindE :: "'a res \<Rightarrow> ('a \<Rightarrow> 'b res) \<Rightarrow> 'b res" where
  "bindE m f = (case m of Inl e \<Rightarrow> Inl e | Inr x \<Rightarrow> f x)"

lemma bindE_simps [simp]:
  "bindE (Inl e) f = Inl e"
  "bindE (Inr x) f = f x"
  by (simp_all add: bindE_def)

lemma bindE_Inr_iff: "bindE m f = Inr y \<longleftrightarrow> (\<exists>x. m = Inr x \<and> f x = Inr y)"
  by (cases m) auto

lemma bindE_Inl_iff: "bindE m f = Inl e \<longleftrightarrow> m = Inl e \<or> (\<exists>x. m = Inr x \<and> f x = Inl e)"
  by (cases m) auto

section \<open>Strings\<close>

text \<open>\<open>str.isspace\<close> on one code point below 256.\<close>

definition py_space :: "char \<Rightarrow> bool" where
  "py_space c \<longleftrightarrow>
     (let n = of_char c :: nat in (9 \<le> n \<and> n \<le> 13) \<or> (28 \<le> n \<and> n \<le> 32) \<or> n = 133 \<or> n = 160)"

definition py_rstrip :: "string \<Rightarrow> string" where
  "py_rstrip s = rev (dropWhile py_space (rev s))"

definition py_strip :: "string \<Rightarrow> string" where
  "py_strip s = py_rstrip (dropWhile py_space s)"

text \<open>A string is blank when \<open>not value.strip()\<close>.\<close>

definition blank :: "string \<Rightarrow> bool" where
  "blank s \<longleftrightarrow> py_strip s = []"

lemma blank_iff: "blank s \<longleftrightarrow> (\<forall>c \<in> set s. py_space c)"
proof -
  have "dropWhile py_space (rev (dropWhile py_space s)) = [] \<longleftrightarrow> (\<forall>c \<in> set (dropWhile py_space s). py_space c)"
    by (simp add: dropWhile_eq_Nil_conv)
  moreover have "(\<forall>c \<in> set (dropWhile py_space s). py_space c) \<longleftrightarrow> (\<forall>c \<in> set s. py_space c)"
  proof
    assume all: "\<forall>c \<in> set (dropWhile py_space s). py_space c"
    show "\<forall>c \<in> set s. py_space c"
    proof
      fix c assume "c \<in> set s"
      then have "c \<in> set (takeWhile py_space s) \<or> c \<in> set (dropWhile py_space s)"
        by (metis Un_iff set_append takeWhile_dropWhile_id)
      with all show "py_space c" by (auto dest: set_takeWhileD)
    qed
  qed (auto dest: set_dropWhileD)
  ultimately show ?thesis by (simp add: blank_def py_strip_def py_rstrip_def)
qed

lemma blank_Nil [simp]: "blank []"
  by (simp add: blank_iff)

lemma not_blank_nonempty: "\<not> blank s \<Longrightarrow> s \<noteq> []"
  by auto

fun split_on :: "char \<Rightarrow> string \<Rightarrow> string list" where
  "split_on d [] = [[]]"
| "split_on d (c # cs) =
     (if c = d then [] # split_on d cs
      else (case split_on d cs of [] \<Rightarrow> [[c]] | p # ps \<Rightarrow> (c # p) # ps))"

fun join_with :: "'a list \<Rightarrow> 'a list list \<Rightarrow> 'a list" where
  "join_with sep [] = []"
| "join_with sep [s] = s"
| "join_with sep (s # ss) = s @ sep @ join_with sep ss"

lemma split_on_nonempty [simp]: "split_on d s \<noteq> []"
  by (induction s) (auto split: list.splits)

lemma join_split_on: "join_with [d] (split_on d s) = s"
proof (induction s)
  case (Cons c cs)
  obtain p ps where "split_on d cs = p # ps"
    using split_on_nonempty by (cases "split_on d cs") blast+
  with Cons show ?case by (cases ps) auto
qed simp

fun digits :: "nat \<Rightarrow> string" where
  "digits n = (if n < 10 then [char_of (48 + n)] else digits (n div 10) @ [char_of (48 + n mod 10)])"

declare digits.simps [simp del]

definition int_str :: "int \<Rightarrow> string" where
  "int_str i = (if i < 0 then ''-'' @ digits (nat (- i)) else digits (nat i))"

section \<open>Lists\<close>

text \<open>\<open>xs[-n:]\<close> for a positive \<open>n\<close>.\<close>

definition last_n :: "nat \<Rightarrow> 'a list \<Rightarrow> 'a list" where
  "last_n n xs = drop (length xs - n) xs"

lemma length_last_n [simp]: "length (last_n n xs) = min n (length xs)"
  by (auto simp: last_n_def)

lemma set_last_n: "set (last_n n xs) \<subseteq> set xs"
  by (auto simp: last_n_def dest: in_set_dropD)

lemma last_n_all: "length xs \<le> n \<Longrightarrow> last_n n xs = xs"
  by (simp add: last_n_def)

lemma last_n_snoc: "0 < n \<Longrightarrow> last_n n (xs @ [x]) = last_n (n - 1) xs @ [x]"
  by (cases n) (auto simp: last_n_def)

text \<open>\<open>len(values) != len(set(values))\<close>\<close>

definition has_duplicates :: "'a list \<Rightarrow> bool" where
  "has_duplicates xs \<longleftrightarrow> \<not> distinct xs"

lemma find_filter: "find P xs = (case filter P xs of [] \<Rightarrow> None | x # _ \<Rightarrow> Some x)"
  by (induction xs) auto

lemma find_SomeD: "find P xs = Some x \<Longrightarrow> P x \<and> x \<in> set xs"
  by (induction xs) (auto split: if_splits)

lemma find_append: "find P (xs @ ys) = (case find P xs of None \<Rightarrow> find P ys | Some x \<Rightarrow> Some x)"
  by (induction xs) auto

section \<open>Lifecycles\<close>

text \<open>
  Several components are governed by a transition table with final states.  What every client
  needs is the same: once a final state is reached, no sequence of permitted transitions leaves
  it.
\<close>

locale lifecycle =
  fixes permitted :: "'s \<Rightarrow> 's \<Rightarrow> bool" and final :: "'s \<Rightarrow> bool"
  assumes final_stays: "final s \<Longrightarrow> permitted s t \<Longrightarrow> t = s"
begin

lemma final_absorbing: "permitted\<^sup>*\<^sup>* s t \<Longrightarrow> final s \<Longrightarrow> t = s"
  by (induction rule: rtranclp_induct) (auto dest: final_stays)

lemma nonfinal_backwards: "permitted\<^sup>*\<^sup>* s t \<Longrightarrow> s \<noteq> t \<Longrightarrow> \<not> final s"
  using final_absorbing by blast

lemma run_final_absorbing:
  assumes "\<And>i. i < n \<Longrightarrow> permitted (h i) (h (Suc i))" and "final (h k)" and "k \<le> n"
  shows "h n = h k"
proof -
  have "permitted\<^sup>*\<^sup>* (h k) (h (k + j))" if "k + j \<le> n" for j
    using that
  proof (induction j)
    case (Suc j)
    then have "permitted\<^sup>*\<^sup>* (h k) (h (k + j))" and "permitted (h (k + j)) (h (k + Suc j))"
      using assms(1) by auto
    then show ?case by (rule rtranclp.rtrancl_into_rtrancl)
  qed simp
  from this[of "n - k"] assms(2,3) show ?thesis by (auto dest: final_absorbing)
qed

end

end
