(* ===== verification/Json.thy ===== *)
theory Json
  imports Prelude
begin

text \<open>
  JSON values as Python holds them after \<open>json.loads\<close>, with Python's \<open>==\<close> and its partial order.
  Artifact facts and milestone conditions
  (runtime/gnsis_runtime/gnsis_runtime/coordination.py) carry such values and
  \<open>_matches\<close> (supervision.py) compares them.  A float is the rational it denotes; NaN and the
  infinities, which JSON does not have, are left out.
\<close>

text \<open>The type of text is a parameter: \<open>string\<close> here, code points in the tool protocol.\<close>

datatype 's jsn =
    JNull
  | JBool bool
  | JInt int
  | JFloat rat
  | JStr 's
  | JList "'s jsn list"
  | JObj "('s \<times> 's jsn) list"

type_synonym json = "string jsn"

text \<open>\<open>True == 1 == 1.0\<close>: booleans are integers and numbers compare by value.\<close>

fun num_of :: "'s jsn \<Rightarrow> rat option" where
  "num_of (JBool b) = Some (if b then 1 else 0)"
| "num_of (JInt i) = Some (of_int i)"
| "num_of (JFloat q) = Some q"
| "num_of _ = None"

function (sequential) json_eq :: "'s jsn \<Rightarrow> 's jsn \<Rightarrow> bool" where
  "json_eq JNull JNull = True"
| "json_eq (JStr s) (JStr t) = (s = t)"
| "json_eq (JList xs) (JList ys) =
     (length xs = length ys \<and> list_all (\<lambda>(x, y). json_eq x y) (zip xs ys))"
| "json_eq (JObj xs) (JObj ys) =
     (length xs = length ys \<and>
      list_all (\<lambda>(k, x). case map_of ys k of None \<Rightarrow> False | Some y \<Rightarrow> json_eq x y) xs)"
| "json_eq x y = (num_of x \<noteq> None \<and> num_of x = num_of y)"
  by pat_completeness auto
termination
  by (relation "measure (\<lambda>(x, y). size x)")
    (auto dest!: set_zip_leftD simp: less_Suc_eq_le
      dest: size_list_estimation' [where f = size, OF _ order_refl]
        size_list_estimation' [where f = "size_prod (\<lambda>_. 0) size" and y = "Suc (size x)" for x])

text \<open>The lexicographic order of strings by code point.\<close>

fun str_less :: "string \<Rightarrow> string \<Rightarrow> bool" where
  "str_less [] t = (t \<noteq> [])"
| "str_less (a # s) [] = False"
| "str_less (a # s) (b # t) =
     ((of_char a :: nat) < of_char b \<or> a = b \<and> str_less s t)"

text \<open>\<open>x < y\<close>: \<open>None\<close> is the \<open>TypeError\<close> of values that do not compare.\<close>

function (sequential) json_less :: "json \<Rightarrow> json \<Rightarrow> bool option" where
  "json_less (JStr s) (JStr t) = Some (str_less s t)"
| "json_less (JList []) (JList ys) = Some (ys \<noteq> [])"
| "json_less (JList (x # xs)) (JList []) = Some False"
| "json_less (JList (x # xs)) (JList (y # ys)) =
     (if json_eq x y then json_less (JList xs) (JList ys) else json_less x y)"
| "json_less x y =
     (case (num_of x, num_of y) of (Some p, Some q) \<Rightarrow> Some (p < q) | _ \<Rightarrow> None)"
  by pat_completeness auto
termination
  by (relation "measure (\<lambda>(x, y). size x)") auto

text \<open>
  \<open>x >= y\<close> and \<open>x <= y\<close>.  On lists Python compares the first pair of different elements with the
  requested operator, so both are "less or equal" in the two directions.
\<close>

definition json_le :: "json \<Rightarrow> json \<Rightarrow> bool option" where
  "json_le x y = map_option (\<lambda>b. b \<or> json_eq x y) (json_less x y)"

definition json_ge :: "json \<Rightarrow> json \<Rightarrow> bool option" where
  "json_ge x y = map_option (\<lambda>b. b \<or> json_eq x y) (json_less y x)"

lemma json_le_ints [simp]: "json_le (JInt i) (JInt j) = Some (i \<le> j)"
  by (auto simp: json_le_def)

lemma json_ge_ints [simp]: "json_ge (JInt i) (JInt j) = Some (j \<le> i)"
  by (auto simp: json_ge_def)

lemma json_ge_num:
  "num_of x = Some p \<Longrightarrow> num_of y = Some q \<Longrightarrow> json_ge x y = Some (q \<le> p)"
  by (cases x; cases y) (auto simp: json_ge_def)

lemma json_le_num:
  "num_of x = Some p \<Longrightarrow> num_of y = Some q \<Longrightarrow> json_le x y = Some (p \<le> q)"
  by (cases x; cases y) (auto simp: json_le_def)

text \<open>A dict and \<open>None\<close> compare with nothing.\<close>

lemma json_less_JNull [simp]: "json_less JNull y = None" "json_less y JNull = None"
  by (cases y; simp)+

lemma json_less_JObj [simp]: "json_less (JObj o1) y = None" "json_less y (JObj o1) = None"
  by (cases y; simp)+

definition json_get :: "json \<Rightarrow> string \<Rightarrow> json option" where
  "json_get j k = (case j of JObj kvs \<Rightarrow> map_of kvs k | _ \<Rightarrow> None)"

end
