(* ===== verification/Contracts.thy ===== *)
theory Contracts
  imports Json
begin

text \<open>
  The dataclasses of runtime/gnsis_runtime/gnsis_runtime/coordination.py (and the media and
  context events of contracts.py): one record per class, with the checks of its
  \<open>__post_init__\<close> as \<open><class>_init\<close>, which returns the object or the exception it raises.

  Lifecycle states are datatypes with the source's literals as constructors (\<open>..._name\<close> is the
  literal); every other \<open>Literal\<close> field stays a string and keeps its run-time check.  The field
  names carry a prefix per class, because Isabelle record fields are global names.  \<open>_tuple\<close>, which
  coerces a sequence to a tuple, is the identity on lists.
\<close>

section \<open>Checks on strings\<close>

definition required :: "string \<Rightarrow> string \<Rightarrow> bool \<times> py_error" where
  "required value name = (blank value, ValueError (name @ '' must be a non-empty string''))"

definition key_start :: "char \<Rightarrow> bool" where
  "key_start c \<longleftrightarrow>
     (let n = of_char c :: nat in
      (65 \<le> n \<and> n \<le> 90) \<or> (97 \<le> n \<and> n \<le> 122) \<or> (48 \<le> n \<and> n \<le> 57))"

definition key_char :: "char \<Rightarrow> bool" where
  "key_char c \<longleftrightarrow> key_start c \<or> c \<in> set ''_.:-''"

definition is_stable_key :: "string \<Rightarrow> bool" where
  "is_stable_key s \<longleftrightarrow>
     (case s of [] \<Rightarrow> False | c # cs \<Rightarrow> key_start c \<and> length cs \<le> 127 \<and> list_all key_char cs)"

definition stable_key_check :: "string \<Rightarrow> string \<Rightarrow> (bool \<times> py_error) list" where
  "stable_key_check value name =
     [required value name,
      (\<not> is_stable_key value, ValueError (name @ '' must be a stable ASCII key''))]"

definition ASK_REASONS :: "string list" where
  "ASK_REASONS =
     [''critical_input.missing'', ''irreversible_ambiguity'', ''source_conflict'', ''formatting.detail'']"

definition AUTHORITY_ACTIONS :: "string list" where
  "AUTHORITY_ACTIONS =
     [''read'', ''search'', ''draft'', ''edit_draft'', ''send'', ''publish'', ''overwrite'',
      ''destructive_action'']"

definition ask_reason :: "string \<Rightarrow> string \<Rightarrow> (bool \<times> py_error) list" where
  "ask_reason value name =
     [required value name,
      (value \<notin> set ASK_REASONS, ValueError (name @
        '' must be one of ['critical_input.missing', 'formatting.detail', 'irreversible_ambiguity', 'source_conflict']''))]"

definition authority_action :: "string \<Rightarrow> string \<Rightarrow> (bool \<times> py_error) list" where
  "authority_action value name =
     [required value name,
      (value \<notin> set AUTHORITY_ACTIONS, ValueError (name @
        '' must be one of ['destructive_action', 'draft', 'edit_draft', 'overwrite', 'publish', 'read', 'search', 'send']''))]"

definition unique :: "string list \<Rightarrow> string \<Rightarrow> bool \<times> py_error" where
  "unique values name = (has_duplicates values, ValueError (name @ '' must not contain duplicates''))"

definition one_of :: "string \<Rightarrow> string list \<Rightarrow> string \<Rightarrow> bool \<times> py_error" where
  "one_of value options msg = (value \<notin> set options, ValueError msg)"

section \<open>Lifecycle states\<close>

datatype TaskStatus =
  TQueued | TRunning | TFinalizing | TCancelling | TCompleted | TPartial | TFailed | TCancelled

datatype RunStatus = RQueued | RRunning | RWaiting | RCompleted | RPartial | RFailed | RCancelled

datatype InteractionState = IPending | IResolving | IResolved | IExpired | ICancelled | IFailed

datatype DeliveryState = DPending | DClaimed | DDelivered | DFailed | DCancelled

datatype CommandState = CPending | CSending | CSent | CFailed | CCancelled

datatype JobState = JPending | JCoordinating | JCompleted | JFailed

datatype AggregateState = AOpen | AFlushed

fun task_status_name :: "TaskStatus \<Rightarrow> string" where
  "task_status_name TQueued = ''queued''"
| "task_status_name TRunning = ''running''"
| "task_status_name TFinalizing = ''finalizing''"
| "task_status_name TCancelling = ''cancelling''"
| "task_status_name TCompleted = ''completed''"
| "task_status_name TPartial = ''partial''"
| "task_status_name TFailed = ''failed''"
| "task_status_name TCancelled = ''cancelled''"

fun run_status_name :: "RunStatus \<Rightarrow> string" where
  "run_status_name RQueued = ''queued''"
| "run_status_name RRunning = ''running''"
| "run_status_name RWaiting = ''waiting''"
| "run_status_name RCompleted = ''completed''"
| "run_status_name RPartial = ''partial''"
| "run_status_name RFailed = ''failed''"
| "run_status_name RCancelled = ''cancelled''"

definition TERMINAL_TASK_STATUSES :: "TaskStatus set" where
  "TERMINAL_TASK_STATUSES = {TCompleted, TPartial, TFailed, TCancelled}"

definition coarse_task_status :: "string \<Rightarrow> string" where
  "coarse_task_status status =
     (if status \<in> {''completed'', ''partial''} then ''finished''
      else if status \<in> {''failed'', ''cancelled''} then ''failed''
      else ''running'')"

section \<open>Supervision contracts\<close>

record MilestoneCondition =
  mc_field :: string
  mc_op :: string
  mc_value :: json

definition MilestoneCondition_init :: "MilestoneCondition \<Rightarrow> MilestoneCondition res" where
  "MilestoneCondition_init c = validated (raise_first
     (stable_key_check (mc_field c) ''condition field'' @
      [one_of (mc_op c) [''eq'', ''gte'', ''lte'', ''exists'']
         (''unsupported milestone condition: '' @ mc_op c),
       (mc_op c \<noteq> ''exists'' \<and> mc_value c = JNull,
         ValueError (mc_op c @ '' requires a comparison value''))])) c"

record NotifyRule =
  nr_key :: string
  nr_label :: string
  nr_condition :: "MilestoneCondition option"
  nr_once :: bool

definition NotifyRule_init :: "NotifyRule \<Rightarrow> NotifyRule res" where
  "NotifyRule_init r = validated (raise_first
     (stable_key_check (nr_key r) ''milestone key'' @ [required (nr_label r) ''milestone label''])) r"

record NotifyPolicy =
  np_milestones :: "NotifyRule list"

definition NotifyPolicy_init :: "NotifyPolicy \<Rightarrow> NotifyPolicy res" where
  "NotifyPolicy_init p = validated (raise_first
     [unique (map nr_key (np_milestones p)) ''milestone keys'']) p"

record AskPolicy =
  ap_must_ask :: "string list"
  ap_delegate :: "string list"
  ap_when_exhausted :: string
  ap_max_clarification_rounds :: int
  ap_max_questions_per_round :: int
  ap_bundle_questions :: bool

definition AskPolicy_default :: AskPolicy where
  "AskPolicy_default = \<lparr>
     ap_must_ask = [''critical_input.missing'', ''irreversible_ambiguity''],
     ap_delegate = [''formatting.detail''],
     ap_when_exhausted = ''conservative'',
     ap_max_clarification_rounds = 1,
     ap_max_questions_per_round = 3,
     ap_bundle_questions = True\<rparr>"

definition AskPolicy_init :: "AskPolicy \<Rightarrow> AskPolicy res" where
  "AskPolicy_init p = validated (raise_first
     (unique (ap_must_ask p) ''must_ask'' #
      concat (map (\<lambda>v. ask_reason v ''must_ask reason'') (ap_must_ask p)) @
      unique (ap_delegate p) ''delegate'' #
      concat (map (\<lambda>v. ask_reason v ''delegate reason'') (ap_delegate p)) @
      [(set (ap_must_ask p) \<inter> set (ap_delegate p) \<noteq> {},
         ValueError ''must_ask and delegate must be disjoint''),
       one_of (ap_when_exhausted p) [''ask'', ''conservative'', ''fail''] ''invalid ask exhaustion policy'',
       (ap_max_clarification_rounds p < 0,
         ValueError ''max_clarification_rounds must be non-negative''),
       (ap_max_questions_per_round p < 1,
         ValueError ''max_questions_per_round must be positive'')])) p"

record AuthorityPolicy =
  au_allow :: "string list"
  au_require_permission :: "string list"
  au_deny :: "string list"

definition AuthorityPolicy_default :: AuthorityPolicy where
  "AuthorityPolicy_default = \<lparr>
     au_allow = [''read'', ''search'', ''draft'', ''edit_draft''],
     au_require_permission = [''send'', ''publish'', ''overwrite'', ''destructive_action''],
     au_deny = []\<rparr>"

definition action_list_check :: "string \<Rightarrow> string list \<Rightarrow> (bool \<times> py_error) list" where
  "action_list_check name values =
     unique values name # concat (map (\<lambda>v. authority_action v (name @ '' action'')) values)"

definition AuthorityPolicy_init :: "AuthorityPolicy \<Rightarrow> AuthorityPolicy res" where
  "AuthorityPolicy_init p = validated (raise_first
     (action_list_check ''allow'' (au_allow p) @
      action_list_check ''require_permission'' (au_require_permission p) @
      action_list_check ''deny'' (au_deny p) @
      [(set (au_allow p) \<inter> set (au_require_permission p) \<noteq> {} \<or>
        set (au_allow p) \<inter> set (au_deny p) \<noteq> {} \<or>
        set (au_require_permission p) \<inter> set (au_deny p) \<noteq> {},
         ValueError ''authority action sets must be disjoint'')])) p"

record DeliveryPolicy =
  dp_milestone :: string
  dp_interaction :: string
  dp_final :: string
  dp_aggregate :: string
  dp_high_risk :: string
  dp_aggregate_window_ms :: int

definition DELIVERY_TIMINGS :: "string list" where
  "DELIVERY_TIMINGS = [''hold'', ''safe_pause'', ''interrupt'']"

definition DeliveryPolicy_default :: DeliveryPolicy where
  "DeliveryPolicy_default = \<lparr>
     dp_milestone = ''safe_pause'', dp_interaction = ''safe_pause'', dp_final = ''safe_pause'',
     dp_aggregate = ''safe_pause'', dp_high_risk = ''interrupt'', dp_aggregate_window_ms = 0\<rparr>"

definition DeliveryPolicy_init :: "DeliveryPolicy \<Rightarrow> DeliveryPolicy res" where
  "DeliveryPolicy_init p = validated (raise_first
     [(\<not> set [dp_milestone p, dp_interaction p, dp_final p, dp_aggregate p, dp_high_risk p]
          \<subseteq> set DELIVERY_TIMINGS, ValueError ''invalid delivery timing''),
      (dp_high_risk p \<noteq> ''interrupt'', ValueError ''high-risk delivery must interrupt''),
      (dp_aggregate_window_ms p < 0, ValueError ''aggregate_window_ms must be non-negative'')]) p"

record ContractBody =
  cb_notify_policy :: NotifyPolicy
  cb_ask_policy :: AskPolicy
  cb_authority_policy :: AuthorityPolicy
  cb_delivery_policy :: DeliveryPolicy

definition ContractBody_init :: "ContractBody \<Rightarrow> ContractBody res" where
  "ContractBody_init b = validated (raise_first
     [(dp_interaction (cb_delivery_policy b) = ''hold'' \<and>
       (ap_must_ask (cb_ask_policy b) \<noteq> [] \<or>
        ap_when_exhausted (cb_ask_policy b) = ''ask'' \<or>
        au_require_permission (cb_authority_policy b) \<noteq> []),
        ValueError ''required questions and permissions cannot be held'')]) b"

definition ContractBody_default :: ContractBody where
  "ContractBody_default = \<lparr>
     cb_notify_policy = \<lparr>np_milestones =
       [\<lparr>nr_key = ''final.completed'', nr_label = ''final result completed'',
         nr_condition = None, nr_once = True\<rparr>]\<rparr>,
     cb_ask_policy = AskPolicy_default,
     cb_authority_policy = AuthorityPolicy_default,
     cb_delivery_policy = DeliveryPolicy_default\<rparr>"

record SupervisionContractRevision =
  sc_task_id :: string
  sc_revision :: int
  sc_body :: ContractBody
  sc_source_turn_ids :: "string list"
  sc_created_at_ms :: int

definition SupervisionContractRevision_init ::
  "SupervisionContractRevision \<Rightarrow> SupervisionContractRevision res" where
  "SupervisionContractRevision_init c = validated (raise_first
     [required (sc_task_id c) ''task_id'',
      (sc_revision c < 1, ValueError ''contract revision must be positive''),
      (sc_source_turn_ids c = [], ValueError ''a contract revision requires source_turn_ids'')]) c"

end
