(* ===== verification/Records.thy ===== *)
theory Records
  imports Contracts
begin

text \<open>
  The records the ledger stores (coordination.py): turns and their media and context, projects,
  tasks, runs, artifacts, interactions and deliveries, with the checks of their constructors.
\<close>

section \<open>Media, context events and turns\<close>

record MediaRef =
  m_kind :: string
  m_path :: string
  m_timestamp_ms :: "int option"
  m_mime_type :: "string option"
  m_source_path :: "string option"
  m_metadata :: "(string \<times> json) list"

record ContextEvent =
  ce_session_id :: string
  ce_seq :: int
  ce_role :: string
  ce_kind :: string
  ce_text :: string
  ce_media :: "MediaRef list"
  ce_start_ms :: "int option"
  ce_end_ms :: "int option"
  ce_timestamp_ms :: int
  ce_event_id :: string
  ce_metadata :: "(string \<times> json) list"

text \<open>
  The check of an optional media span, \<open>None\<close> for an absent bound; the comparison of the last
  guard is reached with both bounds present.
\<close>

definition span_check :: "string \<Rightarrow> int option \<Rightarrow> int option \<Rightarrow> (bool \<times> py_error) list" where
  "span_check pre s e =
     [((s = None) \<noteq> (e = None), ValueError (pre @ ''start_ms and end_ms must be provided together'')),
      (case s of None \<Rightarrow> False | Some a \<Rightarrow> a < 0, ValueError (pre @ ''start_ms must be non-negative'')),
      (case (s, e) of (Some a, Some b) \<Rightarrow> b < a | _ \<Rightarrow> False,
         ValueError (pre @ ''end_ms must not be earlier than start_ms''))]"

definition ContextEvent_init :: "ContextEvent \<Rightarrow> ContextEvent res" where
  "ContextEvent_init e = validated (raise_first (span_check [] (ce_start_ms e) (ce_end_ms e))) e"

record TurnEnvelope =
  tu_owner_id :: string
  tu_voice_session_id :: string
  tu_turn_id :: string
  tu_final_asr :: string
  tu_media_refs :: "MediaRef list"
  tu_environment_ref :: string
  tu_context_revision :: int
  tu_timezone :: string
  tu_start_ms :: "int option"
  tu_end_ms :: "int option"
  tu_timestamp_ms :: "int option"
  tu_frontbrain_action :: string
  tu_frontbrain_task_name :: string
  tu_runtime_provider_name :: string
  tu_created_at_ms :: int

definition TurnEnvelope_init :: "TurnEnvelope \<Rightarrow> TurnEnvelope res" where
  "TurnEnvelope_init t = validated (raise_first
     ([required (tu_owner_id t) ''owner_id'',
       required (tu_voice_session_id t) ''voice_session_id'',
       required (tu_turn_id t) ''turn_id'',
       required (tu_final_asr t) ''final_asr'',
       (tu_context_revision t < 0, ValueError ''context_revision must be non-negative'')] @
      span_check ''turn '' (tu_start_ms t) (tu_end_ms t) @
      [(case tu_timestamp_ms t of None \<Rightarrow> False | Some a \<Rightarrow> a < 0,
          ValueError ''turn timestamp_ms must be non-negative'')] @
      (if tu_frontbrain_action t = ''task_start''
       then [required (tu_frontbrain_task_name t) ''frontbrain_task_name'']
       else [(tu_frontbrain_task_name t \<noteq> [] \<or> tu_runtime_provider_name t \<noteq> [],
          ValueError ''frontbrain task metadata requires frontbrain_action=task_start'')]))) t"

definition receipt_key :: "TurnEnvelope \<Rightarrow> string" where
  "receipt_key t =
     tu_owner_id t @ [CHR 0x00] @ tu_voice_session_id t @ [CHR 0x00] @ tu_turn_id t @ [CHR 0x00] @ ''assist''"

section \<open>Context plans\<close>

record ContextInventoryItem =
  ci_kind :: string
  ci_count :: int

definition ContextInventoryItem_init :: "ContextInventoryItem \<Rightarrow> ContextInventoryItem res" where
  "ContextInventoryItem_init i = validated (raise_first
     [required (ci_kind i) ''context inventory kind'',
      (ci_count i < 1, ValueError ''context inventory count must be positive'')]) i"

record ContextInventory =
  cv_total :: int
  cv_items :: "ContextInventoryItem list"
  cv_media_count :: int
  cv_earliest_timestamp_ms :: "int option"
  cv_latest_timestamp_ms :: "int option"

definition ContextInventory_init :: "ContextInventory \<Rightarrow> ContextInventory res" where
  "ContextInventory_init v = validated (raise_first
     [(cv_total v < 0 \<or> cv_media_count v < 0,
        ValueError ''context inventory counts must be non-negative''),
      (sum_list (map ci_count (cv_items v)) \<noteq> cv_total v,
        ValueError ''context inventory item counts must equal total''),
      ((cv_earliest_timestamp_ms v = None) \<noteq> (cv_latest_timestamp_ms v = None),
        ValueError ''context inventory timestamps must be paired''),
      (case (cv_earliest_timestamp_ms v, cv_latest_timestamp_ms v) of
          (Some a, Some b) \<Rightarrow> b < a | _ \<Rightarrow> False,
        ValueError ''context inventory timestamp range is invalid'')]) v"

record ContextPlan =
  cp_event_refs :: "string list"
  cp_media_refs :: "string list"
  cp_artifact_refs :: "string list"
  cp_must_include_refs :: "string list"
  cp_brief :: string
  cp_inventory :: ContextInventory

definition ContextPlan_init :: "ContextPlan \<Rightarrow> ContextPlan res" where
  "ContextPlan_init p = validated (raise_first
     [unique (cp_event_refs p) ''event_refs'',
      unique (cp_media_refs p) ''media_refs'',
      unique (cp_artifact_refs p) ''artifact_refs'',
      unique (cp_must_include_refs p) ''must_include_refs'']) p"

section \<open>Projects, tasks and runs\<close>

record ProjectRecord =
  pr_project_id :: string
  pr_owner_id :: string
  pr_label :: string
  pr_provider_name :: string
  pr_environment_ref :: string
  pr_backend_session_id :: string
  pr_status :: string
  pr_created_at_ms :: int
  pr_updated_at_ms :: int

definition ProjectRecord_init :: "ProjectRecord \<Rightarrow> ProjectRecord res" where
  "ProjectRecord_init p = validated (raise_first
     [required (pr_project_id p) ''project_id'',
      required (pr_owner_id p) ''owner_id'',
      required (pr_label p) ''label'',
      required (pr_provider_name p) ''provider_name'',
      one_of (pr_status p) [''active'', ''closed''] ''invalid project status'']) p"

record TaskRecord =
  t_task_id :: string
  t_owner_id :: string
  t_source_turn_id :: string
  t_project_id :: string
  t_title :: string
  t_objective :: string
  t_instruction :: string
  t_provider_name :: string
  t_context_plan :: ContextPlan
  t_reasoning_profile :: string
  t_source_voice_session_id :: string
  t_status :: TaskStatus
  t_generation :: int
  t_contract_revision :: int
  t_active_run_id :: "string option"
  t_cancel_request_id :: "string option"
  t_blocked_actions :: "string list"
  t_blocked_branches :: "string list"
  t_run_blocked :: bool
  t_assumptions :: "string list"
  t_result :: string
  t_error :: string
  t_created_at_ms :: int
  t_updated_at_ms :: int
  t_name :: string
  t_lineage_id :: string
  t_kind :: string
  t_parent_task_id :: string
  t_parent_run_id :: string

definition TaskRecord_checks :: "TaskRecord \<Rightarrow> (bool \<times> py_error) list" where
  "TaskRecord_checks t =
     [required (t_task_id t) ''task_id'',
      required (t_lineage_id t) ''lineage_id'',
      required (t_owner_id t) ''owner_id'',
      required (t_source_turn_id t) ''source_turn_id'',
      required (t_project_id t) ''project_id'',
      required (t_title t) ''title'',
      required (t_objective t) ''objective'',
      required (t_instruction t) ''instruction'',
      required (t_provider_name t) ''provider_name'',
      unique (t_blocked_actions t) ''blocked_actions'',
      unique (t_blocked_branches t) ''blocked_branches'',
      unique (t_assumptions t) ''assumptions'',
      (t_generation t < 1 \<or> t_contract_revision t < 1,
        ValueError ''task generation and contract revision must be positive''),
      one_of (t_kind t) [''main'', ''side_query''] ''invalid task kind'',
      (t_kind t = ''side_query'' \<and> t_parent_task_id t = [],
        ValueError ''side query requires parent_task_id''),
      (t_kind t = ''main'' \<and> (t_parent_task_id t \<noteq> [] \<or> t_parent_run_id t \<noteq> []),
        ValueError ''main task must not set a parent task or run''),
      one_of (t_reasoning_profile t) [''fast'', ''balanced'', ''deep''] ''invalid task reasoning profile'']"

definition TaskRecord_init :: "TaskRecord \<Rightarrow> TaskRecord res" where
  "TaskRecord_init t0 =
     (let t = (if t_lineage_id t0 = [] then t0\<lparr>t_lineage_id := t_task_id t0\<rparr> else t0)
      in validated (raise_first (TaskRecord_checks t)) t)"

definition task_terminal :: "TaskRecord \<Rightarrow> bool" where
  "task_terminal t \<longleftrightarrow> t_status t \<in> TERMINAL_TASK_STATUSES"

record RunRecord =
  r_run_id :: string
  r_task_id :: string
  r_project_id :: string
  r_provider_name :: string
  r_generation :: int
  r_status :: RunStatus
  r_backend_session_id :: string
  r_started_at_ms :: "int option"
  r_ended_at_ms :: "int option"
  r_last_event_seq :: int
  r_error :: string

definition RunRecord_init :: "RunRecord \<Rightarrow> RunRecord res" where
  "RunRecord_init r = validated (raise_first
     [required (r_run_id r) ''run_id'',
      required (r_task_id r) ''task_id'',
      required (r_project_id r) ''project_id'',
      required (r_provider_name r) ''provider_name'',
      (r_generation r < 1 \<or> r_last_event_seq r < 0,
        ValueError ''invalid run generation or sequence'')]) r"

section \<open>Artifacts, interactions and deliveries\<close>

record ArtifactEvidence =
  a_ref :: string
  a_owner_id :: string
  a_task_id :: string
  a_facts :: "(string \<times> json) list"
  a_created_at_ms :: int

definition ArtifactEvidence_init :: "ArtifactEvidence \<Rightarrow> ArtifactEvidence res" where
  "ArtifactEvidence_init a = validated (raise_first
     [required (a_ref a) ''artifact ref'',
      required (a_owner_id a) ''artifact owner_id'',
      required (a_task_id a) ''artifact task_id'']) a"

record PendingInteraction =
  i_interaction_id :: string
  i_owner_id :: string
  i_target_id :: string
  i_task_id :: "string option"
  i_run_id :: "string option"
  i_source :: string
  i_audience :: string
  i_kind :: string
  i_prompt :: string
  i_reason_key :: string
  i_source_event_id :: "string option"
  i_action_key :: "string option"
  i_choices :: "string list"
  i_requested_scope :: string
  i_effective_scope :: string
  i_state :: InteractionState
  i_fingerprint :: string
  i_coordination_request_id :: string
  i_response :: string
  i_decision :: "string option"
  i_created_at_ms :: int
  i_expires_at_ms :: "int option"
  i_resolved_at_ms :: "int option"

definition SCOPES :: "string list" where
  "SCOPES = [''action'', ''branch'', ''run'']"

definition PendingInteraction_checks :: "PendingInteraction \<Rightarrow> (bool \<times> py_error) list" where
  "PendingInteraction_checks i =
     [required (i_interaction_id i) ''interaction_id'',
      required (i_target_id i) ''interaction target_id'',
      required (i_prompt i) ''interaction prompt''] @
     stable_key_check (i_reason_key i) ''interaction reason_key'' @
     [unique (i_choices i) ''interaction choices'',
      one_of (i_source i) [''worker'', ''coordinator''] ''invalid interaction source'',
      one_of (i_audience i) [''user'', ''coordinator''] ''invalid interaction audience'',
      one_of (i_kind i) [''question'', ''choice'', ''permission''] ''invalid interaction kind'',
      one_of (i_requested_scope i) SCOPES ''invalid requested blocking scope'',
      one_of (i_effective_scope i) SCOPES ''invalid effective blocking scope'']"

definition PendingInteraction_init :: "PendingInteraction \<Rightarrow> PendingInteraction res" where
  "PendingInteraction_init i = validated (raise_first (PendingInteraction_checks i)) i"

record DeliveryRecord =
  d_delivery_id :: string
  d_owner_id :: string
  d_task_id :: "string option"
  d_event_id :: "string option"
  d_interaction_id :: "string option"
  d_timing :: string
  d_topic :: string
  d_speech_hint :: string
  d_status :: string
  d_state :: DeliveryState
  d_claim_token :: string
  d_claim_expires_at_ms :: "int option"
  d_attempts :: int
  d_created_at_ms :: int
  d_delivered_at_ms :: "int option"

definition DeliveryRecord_checks :: "DeliveryRecord \<Rightarrow> (bool \<times> py_error) list" where
  "DeliveryRecord_checks d =
     [required (d_delivery_id d) ''delivery_id'',
      required (d_owner_id d) ''delivery owner_id'',
      one_of (d_status d) [[], ''completed'', ''partial'', ''failed'', ''cancelled'']
        ''invalid delivery status'',
      one_of (d_timing d) [''safe_pause'', ''interrupt''] ''invalid delivery timing'',
      one_of (d_topic d) [''milestone'', ''interaction'', ''final'', ''risk'', ''aggregate'']
        ''invalid delivery topic'']"

definition DeliveryRecord_init :: "DeliveryRecord \<Rightarrow> DeliveryRecord res" where
  "DeliveryRecord_init d = validated (raise_first (DeliveryRecord_checks d)) d"

record ActivityAggregate =
  g_aggregate_id :: string
  g_owner_id :: string
  g_task_id :: string
  g_contract_revision :: int
  g_event_ids :: "string list"
  g_summaries :: "string list"
  g_event_count :: int
  g_due_at_ms :: int
  g_state :: AggregateState
  g_created_at_ms :: int
  g_flushed_at_ms :: "int option"

definition ActivityAggregate_init :: "ActivityAggregate \<Rightarrow> ActivityAggregate res" where
  "ActivityAggregate_init g = validated (raise_first
     [(g_event_ids g = [] \<or> g_summaries g = [], ValueError ''activity aggregate must contain an event''),
      (length (g_event_ids g) \<noteq> length (g_summaries g),
        ValueError ''aggregate event_ids and summaries must align''),
      (g_event_count g < int (length (g_event_ids g)),
        ValueError ''aggregate event_count is inconsistent'')]) g"

end
