(* ===== verification/Worker.thy ===== *)
theory Worker
  imports Records
begin

text \<open>
  Worker events and messages, the coordinator's commands and jobs (coordination.py): the payload
  union, the records and the checks of their constructors.
\<close>

section \<open>Backend capabilities and the worker's view of a contract\<close>

definition WORKER_TOOL_NAMES :: "string list" where
  "WORKER_TOOL_NAMES = [''memory_search'', ''context_fetch'', ''share'']"

record BackendCapabilities =
  bc_steering :: string
  bc_side_queries :: string
  bc_terminal_side_queries :: string
  bc_interactions :: bool
  bc_blocking_granularity :: string
  bc_authority_enforcement :: string
  bc_structured_events :: string
  bc_trusted_risk_signals :: bool
  bc_session_resume :: bool
  bc_modalities :: "string list"
  bc_max_parallel_projects :: int
  bc_context_provisioning :: string
  bc_session :: string
  bc_worker_tools :: "string list"

definition BackendCapabilities_default :: BackendCapabilities where
  "BackendCapabilities_default = \<lparr>
     bc_steering = ''none'', bc_side_queries = ''none'', bc_terminal_side_queries = ''none'',
     bc_interactions = False, bc_blocking_granularity = ''run'', bc_authority_enforcement = ''none'',
     bc_structured_events = ''none'', bc_trusted_risk_signals = False, bc_session_resume = False,
     bc_modalities = [''text''], bc_max_parallel_projects = 1,
     bc_context_provisioning = ''push_bounded'', bc_session = ''stateful'', bc_worker_tools = []\<rparr>"

definition BackendCapabilities_init :: "BackendCapabilities \<Rightarrow> BackendCapabilities res" where
  "BackendCapabilities_init c = validated (raise_first
     [one_of (bc_steering c) [''native'', ''next_turn'', ''none''] ''invalid steering capability'',
      one_of (bc_side_queries c)
        [''native_fork'', ''independent_session'', ''native'', ''isolated_fork'', ''next_turn'', ''none'']
        ''invalid side query capability'',
      one_of (bc_terminal_side_queries c)
        [''native_fork'', ''independent_session'', ''native'', ''isolated_fork'', ''none'']
        ''invalid terminal side query capability'',
      one_of (bc_blocking_granularity c) SCOPES ''invalid blocking granularity'',
      one_of (bc_authority_enforcement c) [''gateway'', ''backend_hook'', ''sandbox'', ''none'']
        ''invalid authority enforcement'',
      one_of (bc_structured_events c) [''native'', ''injected_tool'', ''limited'', ''none'']
        ''invalid structured event capability'',
      (bc_modalities c = [], ValueError ''modalities must not be empty''),
      (bc_max_parallel_projects c < 1, ValueError ''max_parallel_projects must be positive''),
      one_of (bc_context_provisioning c) [''pull'', ''push_bounded''] ''invalid context_provisioning'',
      one_of (bc_session c) [''stateful'', ''stateless''] ''invalid session model'',
      (\<not> set (bc_worker_tools c) \<subseteq> set WORKER_TOOL_NAMES, ValueError ''unsupported worker tools''),
      (bc_context_provisioning c = ''pull'' \<and> ''context_fetch'' \<notin> set (bc_worker_tools c),
        ValueError ''pull context provisioning requires the context_fetch worker tool'')]) c"

record WorkerPolicyView =
  wp_contract_revision :: int
  wp_must_ask :: "string list"
  wp_delegated_questions :: "string list"
  wp_allowed_actions :: "string list"
  wp_permission_actions :: "string list"
  wp_denied_actions :: "string list"
  wp_subscribed_milestones :: "string list"

definition WorkerPolicyView_from_contract :: "SupervisionContractRevision \<Rightarrow> WorkerPolicyView" where
  "WorkerPolicyView_from_contract c =
     (let body = sc_body c in
      \<lparr>wp_contract_revision = sc_revision c,
       wp_must_ask = ap_must_ask (cb_ask_policy body),
       wp_delegated_questions = ap_delegate (cb_ask_policy body),
       wp_allowed_actions = au_allow (cb_authority_policy body),
       wp_permission_actions = au_require_permission (cb_authority_policy body),
       wp_denied_actions = au_deny (cb_authority_policy body),
       wp_subscribed_milestones = map nr_key (np_milestones (cb_notify_policy body))\<rparr>)"

section \<open>Payloads and events\<close>

record UpdatePayload =
  up_kind :: string
  up_summary :: string
  up_milestone :: "string option"
  up_evidence_refs :: "string list"
  up_next_step :: string
  up_severity :: string

definition UpdatePayload_init :: "UpdatePayload \<Rightarrow> UpdatePayload res" where
  "UpdatePayload_init p = validated (raise_first
     ([required (up_summary p) ''update summary'',
       one_of (up_kind p) [''activity'', ''milestone''] ''invalid update kind'',
       one_of (up_severity p) [''normal'', ''high_risk''] ''invalid update severity''] @
      (if up_kind p = ''milestone''
       then (case up_milestone p of
               None \<Rightarrow> [(True, ValueError ''milestone update requires a milestone key'')]
             | Some m \<Rightarrow> stable_key_check m ''milestone key'') @
            [(up_evidence_refs p = [], ValueError ''milestone update requires evidence_refs'')]
       else [(up_milestone p \<noteq> None, ValueError ''activity update cannot carry a milestone key'')]))) p"

record InteractionPayload =
  ip_kind :: string
  ip_prompt :: string
  ip_blocking_scope :: string
  ip_choices :: "string list"
  ip_reason_key :: string
  ip_action_key :: "string option"

definition InteractionPayload_init :: "InteractionPayload \<Rightarrow> InteractionPayload res" where
  "InteractionPayload_init p = validated (raise_first
     ([required (ip_prompt p) ''interaction prompt''] @
      ask_reason (ip_reason_key p) ''interaction reason_key'' @
      [one_of (ip_kind p) [''question'', ''choice'', ''permission''] ''invalid interaction kind'',
       one_of (ip_blocking_scope p) SCOPES ''invalid blocking scope'',
       (ip_kind p = ''choice'' \<and> length (ip_choices p) < 2,
         ValueError ''choice interaction requires at least two choices'')] @
      (if ip_kind p = ''permission''
       then (case ip_action_key p of
               None \<Rightarrow> [(True, ValueError ''permission interaction requires action_key'')]
             | Some a \<Rightarrow> authority_action a ''permission action_key'')
       else []))) p"

record DonePayload =
  do_status :: TaskStatus
  do_result :: string
  do_artifact_refs :: "string list"
  do_unresolved :: "string list"

definition DonePayload_init :: "DonePayload \<Rightarrow> DonePayload res" where
  "DonePayload_init p = validated (raise_first
     [(do_status p \<notin> TERMINAL_TASK_STATUSES, ValueError ''invalid done status'')]) p"

datatype WorkerPayload =
    PUpdate UpdatePayload
  | PInteraction InteractionPayload
  | PDone DonePayload

record WorkerEvent =
  e_event_id :: string
  e_owner_id :: string
  e_task_id :: string
  e_project_id :: string
  e_run_id :: string
  e_generation :: int
  e_seq :: int
  e_type :: string
  e_payload :: WorkerPayload
  e_created_at_ms :: int

definition payload_matches :: "string \<Rightarrow> WorkerPayload \<Rightarrow> bool" where
  "payload_matches ty p \<longleftrightarrow>
     (case p of
        PUpdate _ \<Rightarrow> ty = ''update''
      | PInteraction _ \<Rightarrow> ty = ''interaction''
      | PDone _ \<Rightarrow> ty = ''done'')"

definition WorkerEvent_init :: "WorkerEvent \<Rightarrow> WorkerEvent res" where
  "WorkerEvent_init e = validated (raise_first
     [required (e_event_id e) ''event_id'',
      required (e_owner_id e) ''owner_id'',
      required (e_task_id e) ''task_id'',
      required (e_project_id e) ''project_id'',
      required (e_run_id e) ''run_id'',
      (e_generation e < 1 \<or> e_seq e < 1, ValueError ''event generation and seq must be positive''),
      (\<not> payload_matches (e_type e) (e_payload e),
        ValueError ''worker event type does not match its payload'')]) e"

section \<open>Requests and messages to a worker\<close>

record WorkerRequest =
  wr_task_id :: string
  wr_run_id :: string
  wr_project_id :: string
  wr_owner_id :: string
  wr_generation :: int
  wr_instruction :: string
  wr_context_plan :: ContextPlan
  wr_policy :: WorkerPolicyView
  wr_reasoning_profile :: string
  wr_source_turn :: "TurnEnvelope option"
  wr_lineage_id :: string
  wr_kind :: string
  wr_parent_task_id :: string
  wr_parent_run_id :: string
  wr_parent_backend_session_id :: string
  wr_original_turn :: string
  wr_model :: string

definition WorkerRequest_init :: "WorkerRequest \<Rightarrow> WorkerRequest res" where
  "WorkerRequest_init w0 =
     (let w1 = (if wr_lineage_id w0 = [] then w0\<lparr>wr_lineage_id := wr_task_id w0\<rparr> else w0);
          w = (if wr_original_turn w1 = [] then w1\<lparr>wr_original_turn := wr_instruction w1\<rparr> else w1)
      in validated (raise_first
        [required (wr_task_id w) ''task_id'',
         required (wr_lineage_id w) ''lineage_id'',
         required (wr_run_id w) ''run_id'',
         required (wr_project_id w) ''project_id'',
         required (wr_owner_id w) ''owner_id'',
         required (wr_instruction w) ''instruction'',
         required (wr_original_turn w) ''original_turn'',
         (wr_generation w < 1, ValueError ''worker generation must be positive''),
         one_of (wr_reasoning_profile w) [''fast'', ''balanced'', ''deep'']
           ''invalid worker reasoning profile'',
         one_of (wr_kind w) [''main'', ''side_query''] ''invalid worker request kind'',
         (wr_kind w = ''side_query'' \<and> wr_parent_task_id w = [],
           ValueError ''side query request requires parent_task_id''),
         (wr_kind w = ''side_query'' \<and> wr_parent_run_id w = [],
           ValueError ''side query request requires parent_run_id''),
         (wr_kind w = ''main'' \<and>
            (wr_parent_task_id w \<noteq> [] \<or> wr_parent_run_id w \<noteq> [] \<or> wr_parent_backend_session_id w \<noteq> []),
           ValueError ''main worker request must not set parent metadata'')]) w)"

record WorkerMessage =
  wm_message_id :: string
  wm_instruction :: string
  wm_mode :: string
  wm_context_plan :: "ContextPlan option"
  wm_interaction_id :: "string option"
  wm_source_event_id :: "string option"
  wm_decision :: "string option"
  wm_policy :: "WorkerPolicyView option"
  wm_source_turn :: "TurnEnvelope option"
  wm_preempt :: bool

definition WorkerMessage_init :: "WorkerMessage \<Rightarrow> WorkerMessage res" where
  "WorkerMessage_init m = validated (raise_first
     [required (wm_message_id m) ''message_id'',
      one_of (wm_mode m) [''update'', ''query'', ''interaction_reply'', ''policy'']
        ''invalid worker message mode'',
      (wm_mode m = ''interaction_reply'' \<and>
         (case wm_interaction_id m of None \<Rightarrow> True | Some i \<Rightarrow> i = []),
        ValueError ''interaction reply requires interaction_id''),
      (wm_mode m = ''policy'' \<and> wm_policy m = None, ValueError ''policy message requires a policy'')]) m"

record ProviderCommandRecord =
  c_command_id :: string
  c_owner_id :: string
  c_task_id :: string
  c_run_id :: string
  c_message :: WorkerMessage
  c_state :: CommandState
  c_attempts :: int
  c_error :: string
  c_created_at_ms :: int
  c_sent_at_ms :: "int option"

definition ProviderCommandRecord_init :: "ProviderCommandRecord \<Rightarrow> ProviderCommandRecord res" where
  "ProviderCommandRecord_init c = validated (raise_first
     [required (c_command_id c) ''command_id'',
      required (c_owner_id c) ''owner_id'',
      required (c_task_id c) ''task_id'',
      required (c_run_id c) ''run_id'',
      (c_command_id c \<noteq> wm_message_id (c_message c),
        ValueError ''command_id must match WorkerMessage.message_id''),
      (c_attempts c < 0, ValueError ''command attempts must be non-negative'')]) c"

section \<open>Decisions, results and coordination jobs\<close>

record AuthorizationDecision =
  ad_outcome :: string
  ad_action :: string
  ad_reason :: string
  ad_interaction_id :: "string option"

record ArbitrationDecision =
  rd_timing :: string
  rd_accepted :: bool
  rd_interaction_route :: string
  rd_reason :: string

record TaskControlResult =
  tc_request_id :: string
  tc_disposition :: string
  tc_speech :: string
  tc_task_ids :: "string list"
  tc_interaction_id :: "string option"
  tc_reason_key :: string
  tc_status :: string
  tc_candidates :: "string list"

definition TaskControlResult_init :: "TaskControlResult \<Rightarrow> TaskControlResult res" where
  "TaskControlResult_init r = validated (raise_first
     [one_of (tc_status r) [''ok'', ''ambiguous'', ''no_such_task'', ''unsupported'', ''invalid_action'']
        ''invalid task-control status'',
      (tc_status r = ''ambiguous'' \<and> tc_candidates r = [],
        ValueError ''ambiguous task-control result requires candidates''),
      (tc_status r \<noteq> ''ambiguous'' \<and> tc_candidates r \<noteq> [],
        ValueError ''task-control candidates require ambiguous status'')]) r"

record CoordinationJob =
  j_owner_id :: string
  j_request_id :: string
  j_receipt_key :: string
  j_turn_id :: string
  j_voice_session_id :: string
  j_version :: int
  j_turn_receipt_keys :: "string list"
  j_state :: JobState
  j_result :: "TaskControlResult option"
  j_error :: string
  j_created_at_ms :: int
  j_updated_at_ms :: int

definition CoordinationJob_checks :: "CoordinationJob \<Rightarrow> (bool \<times> py_error) list" where
  "CoordinationJob_checks j =
     [required (j_owner_id j) ''owner_id'',
      required (j_request_id j) ''request_id'',
      required (j_receipt_key j) ''receipt_key'',
      required (j_turn_id j) ''turn_id'',
      required (j_voice_session_id j) ''voice_session_id'',
      (j_version j < 1, ValueError ''coordination job version must be positive''),
      unique (j_turn_receipt_keys j) ''coordination turn receipt keys'',
      (last (j_turn_receipt_keys j) \<noteq> j_receipt_key j,
        ValueError ''latest coordination receipt key must be last''),
      (j_state j \<in> {JCompleted, JFailed} \<and> j_result j = None,
        ValueError ''terminal coordination job requires a result''),
      (j_state j \<in> {JPending, JCoordinating} \<and> j_result j \<noteq> None,
        ValueError ''active coordination job cannot have a result'')]"

text \<open>The empty key list becomes the one-element list, so \<open>last\<close> is taken of a non-empty list.\<close>

definition CoordinationJob_init :: "CoordinationJob \<Rightarrow> CoordinationJob res" where
  "CoordinationJob_init j0 =
     (let j = (if j_turn_receipt_keys j0 = []
               then j0\<lparr>j_turn_receipt_keys := [j_receipt_key j0]\<rparr> else j0)
      in validated (raise_first (CoordinationJob_checks j)) j)"

record CoordinatorSessionRecord =
  cs_session_id :: string
  cs_owner_id :: string
  cs_provider_name :: string
  cs_backend_session_id :: string
  cs_turn_count :: int
  cs_created_at_ms :: int
  cs_updated_at_ms :: int

definition CoordinatorSessionRecord_init ::
  "CoordinatorSessionRecord \<Rightarrow> CoordinatorSessionRecord res" where
  "CoordinatorSessionRecord_init s = validated (raise_first
     [required (cs_session_id s) ''session_id'',
      required (cs_owner_id s) ''owner_id'',
      required (cs_provider_name s) ''provider_name'',
      required (cs_backend_session_id s) ''backend_session_id'',
      (cs_turn_count s < 0, ValueError ''coordinator turn_count must be non-negative'')]) s"

record QuestionProposal =
  qp_target_id :: string
  qp_reason_key :: string
  qp_questions :: "string list"
  qp_blocking_scope :: string
  qp_default_if_unanswered :: "string option"

definition QuestionProposal_init :: "QuestionProposal \<Rightarrow> QuestionProposal res" where
  "QuestionProposal_init q = validated (raise_first
     ([required (qp_target_id q) ''question target_id''] @
      ask_reason (qp_reason_key q) ''question reason_key'' @
      [(qp_questions q = [], ValueError ''questions must not be empty'')] @
      map (\<lambda>s. required s ''question'') (qp_questions q))) q"

end
