(* ===== verification/Table.thy ===== *)
theory Table
  imports Prelude
begin

text \<open>
  The \<open>entities\<close> table of the ledger (runtime/gnsis_runtime/gnsis_runtime/supervision.py,
  \<open>TaskLedger\<close>): one table of rows per entity kind, in the order of insertion.  SQLite replaces a
  row by deleting it and inserting the new one, so \<open>tbl_put\<close> moves the row to the end, while an
  SQL \<open>UPDATE\<close> keeps its place.  Rows of equal \<open>updated_at_ms\<close> are listed in table order; SQL
  leaves that order open.

  The interface \<open>entity_store\<close> states what the ledger's operations need of the table; the loops
  that rewrite a selection of rows are verified once, in the interface.
\<close>

section \<open>Rows and tables\<close>

record 'a row =
  row_id :: string
  row_owner :: string
  row_payload :: 'a
  row_updated :: int

type_synonym 'a table = "'a row list"

definition tbl_get :: "'a table \<Rightarrow> string \<Rightarrow> 'a option" where
  "tbl_get t k = map_option row_payload (find (\<lambda>r. row_id r = k) t)"

definition tbl_del :: "'a table \<Rightarrow> string \<Rightarrow> 'a table" where
  "tbl_del t k = filter (\<lambda>r. row_id r \<noteq> k) t"

definition tbl_put :: "'a table \<Rightarrow> string \<Rightarrow> string \<Rightarrow> 'a \<Rightarrow> int \<Rightarrow> 'a table" where
  "tbl_put t k own v now =
     tbl_del t k @ [\<lparr>row_id = k, row_owner = own, row_payload = v, row_updated = now\<rparr>]"

definition tbl_insert :: "'a table \<Rightarrow> string \<Rightarrow> string \<Rightarrow> 'a \<Rightarrow> int \<Rightarrow> 'a table res" where
  "tbl_insert t k own v now =
     (if tbl_get t k \<noteq> None then Inl IntegrityError
      else Inr (t @ [\<lparr>row_id = k, row_owner = own, row_payload = v, row_updated = now\<rparr>]))"

text \<open>\<open>UPDATE entities SET payload = ?, updated_at_ms = ? WHERE \<dots>\<close>, with its \<open>rowcount\<close>.\<close>

definition tbl_update ::
  "'a table \<Rightarrow> ('a row \<Rightarrow> bool) \<Rightarrow> 'a \<Rightarrow> int \<Rightarrow> 'a table \<times> nat" where
  "tbl_update t P v now =
     (map (\<lambda>r. if P r then r\<lparr>row_payload := v, row_updated := now\<rparr> else r) t,
      length (filter P t))"

definition tbl_rows :: "'a table \<Rightarrow> string option \<Rightarrow> 'a row list" where
  "tbl_rows t own =
     sort_key row_updated
       (case own of None \<Rightarrow> t | Some w \<Rightarrow> filter (\<lambda>r. row_owner r = w) t)"

definition tbl_list :: "'a table \<Rightarrow> string option \<Rightarrow> 'a list" where
  "tbl_list t own = map row_payload (tbl_rows t own)"

section \<open>What holds of a table\<close>

definition tbl_wf :: "'a table \<Rightarrow> bool" where
  "tbl_wf t \<longleftrightarrow> distinct (map row_id t)"

definition tbl_keys :: "'a table \<Rightarrow> string set" where
  "tbl_keys t = row_id ` set t"

lemma tbl_get_None_iff: "tbl_get t k = None \<longleftrightarrow> k \<notin> tbl_keys t"
  by (auto simp: tbl_get_def tbl_keys_def find_None_iff)

lemma tbl_get_SomeD: "tbl_get t k = Some v \<Longrightarrow> \<exists>r \<in> set t. row_id r = k \<and> row_payload r = v"
  by (auto simp: tbl_get_def dest: find_SomeD)

lemma tbl_get_row: "tbl_wf t \<Longrightarrow> r \<in> set t \<Longrightarrow> tbl_get t (row_id r) = Some (row_payload r)"
  by (induction t) (auto simp: tbl_get_def tbl_wf_def rev_image_eqI)

lemma tbl_get_Nil [simp]: "tbl_get [] k = None"
  by (simp add: tbl_get_def)

lemma find_filter_neq: "k \<noteq> j \<Longrightarrow> find (\<lambda>r. f r = j) (filter (\<lambda>r. f r \<noteq> k) t) = find (\<lambda>r. f r = j) t"
  by (induction t) auto

lemma tbl_get_del [simp]: "tbl_get (tbl_del t k) j = (if j = k then None else tbl_get t j)"
  by (auto simp: tbl_get_def tbl_del_def find_None_iff find_filter_neq)

lemma tbl_get_put [simp]: "tbl_get (tbl_put t k own v now) j = (if j = k then Some v else tbl_get t j)"
  using tbl_get_del [of t k j]
  by (auto simp: tbl_put_def tbl_get_def find_append split: option.splits)

lemma tbl_insert_Inr_iff:
  "tbl_insert t k own v now = Inr t' \<longleftrightarrow>
     tbl_get t k = None \<and>
     t' = t @ [\<lparr>row_id = k, row_owner = own, row_payload = v, row_updated = now\<rparr>]"
  by (auto simp: tbl_insert_def)

lemma tbl_insert_Inl_iff: "tbl_insert t k own v now = Inl e \<longleftrightarrow> tbl_get t k \<noteq> None \<and> e = IntegrityError"
  by (auto simp: tbl_insert_def)

lemma tbl_get_snoc:
  "tbl_get (t @ [\<lparr>row_id = k, row_owner = own, row_payload = v, row_updated = now\<rparr>]) j =
     (case tbl_get t j of Some x \<Rightarrow> Some x | None \<Rightarrow> if j = k then Some v else None)"
  by (auto simp: tbl_get_def find_append split: option.splits)

lemma tbl_get_insert:
  "tbl_insert t k own v now = Inr t' \<Longrightarrow> tbl_get t' j = (if j = k then Some v else tbl_get t j)"
  by (auto simp: tbl_insert_Inr_iff tbl_get_snoc split: option.splits)

lemma tbl_get_update:
  assumes "tbl_wf t"
  shows "tbl_get (fst (tbl_update t (\<lambda>r. row_id r = k \<and> Q r) v now)) j =
     (if j = k \<and> snd (tbl_update t (\<lambda>r. row_id r = k \<and> Q r) v now) = 1
      then Some v else tbl_get t j)"
  using assms
proof (induction t)
  case (Cons a t)
  have out: "length (filter (\<lambda>r. row_id r = k \<and> Q r) t) = 0"
    and same: "map (\<lambda>r. if row_id r = k \<and> Q r then r\<lparr>row_payload := v, row_updated := now\<rparr> else r) t = t"
    if "row_id a = k"
    using Cons.prems that
    by (auto simp: tbl_wf_def filter_empty_conv intro!: map_idI) (metis imageI)+
  show ?case
  proof (cases "row_id a = k")
    case True
    then show ?thesis using out same
      by (auto simp: tbl_update_def tbl_get_def)
  next
    case False
    then show ?thesis using Cons.IH Cons.prems
      by (auto simp: tbl_update_def tbl_get_def tbl_wf_def)
  qed
qed (simp add: tbl_update_def)

lemma tbl_wf_Nil [simp]: "tbl_wf []"
  by (simp add: tbl_wf_def)

lemma tbl_wf_del [simp]: "tbl_wf t \<Longrightarrow> tbl_wf (tbl_del t k)"
  unfolding tbl_wf_def tbl_del_def by (induction t) auto

lemma tbl_keys_del [simp]: "tbl_keys (tbl_del t k) = tbl_keys t - {k}"
  by (auto simp: tbl_keys_def tbl_del_def)

lemma tbl_wf_put [simp]: "tbl_wf t \<Longrightarrow> tbl_wf (tbl_put t k own v now)"
  using tbl_wf_del [of t k] by (auto simp: tbl_put_def tbl_wf_def tbl_del_def)

lemma tbl_wf_insert: "tbl_wf t \<Longrightarrow> tbl_insert t k own v now = Inr t' \<Longrightarrow> tbl_wf t'"
  by (auto simp: tbl_insert_Inr_iff tbl_wf_def tbl_get_None_iff tbl_keys_def)

lemma tbl_wf_update [simp]: "tbl_wf t \<Longrightarrow> tbl_wf (fst (tbl_update t P v now))"
proof -
  have "map row_id (fst (tbl_update t P v now)) = map row_id t"
    by (simp add: tbl_update_def comp_def if_distrib cong: if_cong)
  then show "tbl_wf t \<Longrightarrow> tbl_wf (fst (tbl_update t P v now))"
    by (simp add: tbl_wf_def)
qed

lemma set_tbl_rows: "set (tbl_rows t own) = {r \<in> set t. \<forall>w. own = Some w \<longrightarrow> row_owner r = w}"
  by (auto simp: tbl_rows_def split: option.splits)

lemma set_tbl_list:
  "set (tbl_list t own) = row_payload ` {r \<in> set t. \<forall>w. own = Some w \<longrightarrow> row_owner r = w}"
  by (simp add: tbl_list_def set_tbl_rows)

lemma sorted_tbl_rows: "sorted (map row_updated (tbl_rows t own))"
  by (simp add: tbl_rows_def)

section \<open>The store interface and its bulk loops\<close>

text \<open>
  \<open>find_row\<close> and \<open>put_row\<close> are what the ledger calls \<open>_get\<close> and \<open>_put\<close>.  Many operations read a
  selection of rows and then put a changed copy of each back under its own key; \<open>put_all\<close> is
  that loop, and \<open>find_put_all\<close> says what a lookup returns after it.
\<close>

locale entity_store =
  fixes find_row :: "'t \<Rightarrow> string \<Rightarrow> 'v option"
    and put_row :: "'t \<Rightarrow> string \<Rightarrow> string \<Rightarrow> 'v \<Rightarrow> int \<Rightarrow> 't"
  assumes find_put: "find_row (put_row t k own v now) j = (if j = k then Some v else find_row t j)"
begin

lemma find_put_same: "find_row (put_row t k own v now) k = Some v"
  by (simp add: find_put)

lemma find_put_other: "j \<noteq> k \<Longrightarrow> find_row (put_row t k own v now) j = find_row t j"
  by (simp add: find_put)

lemma find_put_invariant:
  "(\<And>k v. find_row t k = Some v \<Longrightarrow> P k v) \<Longrightarrow> P k v \<Longrightarrow>
   find_row (put_row t k own v now) j = Some w \<Longrightarrow> P j w"
  by (auto simp: find_put split: if_splits)

lemma find_put_all:
  fixes put_loop :: "('v \<Rightarrow> string) \<Rightarrow> ('v \<Rightarrow> string) \<Rightarrow> ('v \<Rightarrow> 'v) \<Rightarrow> clock \<Rightarrow> nat \<Rightarrow> 'v list \<Rightarrow> 't \<Rightarrow> 't"
  assumes loop_Nil: "\<And>t n. put_loop key own f clk n [] t = t"
    and loop_Cons: "\<And>t n v vs.
      put_loop key own f clk n (v # vs) t =
        put_loop key own f clk (Suc n) vs (put_row t (key v) (own v) (f v) (clk n))"
  shows "distinct (map key vs) \<Longrightarrow>
    find_row (put_loop key own f clk n vs t) j =
      (case find (\<lambda>v. key v = j) vs of Some v \<Rightarrow> Some (f v) | None \<Rightarrow> find_row t j)"
proof (induction vs arbitrary: n t)
  case (Cons v vs)
  then show ?case
    by (auto simp: loop_Cons find_put find_None_iff rev_image_eqI split: option.splits dest!: find_SomeD)
qed (simp add: loop_Nil)

end

interpretation entities: entity_store tbl_get tbl_put
  by unfold_locales simp

text \<open>
  The loop on the table: \<open>for v in rows: self._put(kind, key v, owner v, f v)\<close>; iteration \<open>i\<close> reads
  the clock at \<open>n + i\<close>.
\<close>

fun put_all ::
  "('a \<Rightarrow> string) \<Rightarrow> ('a \<Rightarrow> string) \<Rightarrow> ('a \<Rightarrow> 'a) \<Rightarrow> clock \<Rightarrow> nat \<Rightarrow> 'a list \<Rightarrow> 'a table \<Rightarrow> 'a table" where
  "put_all key own f clk n [] t = t"
| "put_all key own f clk n (v # vs) t =
     put_all key own f clk (Suc n) vs (tbl_put t (key v) (own v) (f v) (clk n))"

lemma tbl_get_put_all:
  "distinct (map key vs) \<Longrightarrow>
   tbl_get (put_all key own f clk n vs t) j =
     (case find (\<lambda>v. key v = j) vs of Some v \<Rightarrow> Some (f v) | None \<Rightarrow> tbl_get t j)"
  by (rule entities.find_put_all [of put_all]) simp_all

lemma tbl_wf_put_all: "tbl_wf t \<Longrightarrow> tbl_wf (put_all key own f clk n vs t)"
  by (induction vs arbitrary: n t) simp_all

text \<open>A table whose rows are stored under the key of their payload.\<close>

definition keyed :: "('a \<Rightarrow> string) \<Rightarrow> 'a table \<Rightarrow> bool" where
  "keyed key t \<longleftrightarrow> tbl_wf t \<and> (\<forall>r \<in> set t. row_id r = key (row_payload r))"

lemma keyed_Nil [simp]: "keyed key []"
  by (simp add: keyed_def)

lemma keyed_wf: "keyed key t \<Longrightarrow> tbl_wf t"
  by (simp add: keyed_def)

lemma keyed_get: "keyed key t \<Longrightarrow> tbl_get t k = Some v \<Longrightarrow> key v = k"
  by (auto simp: keyed_def dest!: tbl_get_SomeD)

lemma keyed_put: "keyed key t \<Longrightarrow> key v = k \<Longrightarrow> keyed key (tbl_put t k own v now)"
  by (auto simp: keyed_def tbl_put_def tbl_del_def tbl_wf_def distinct_map_filter)

lemma keyed_insert: "keyed key t \<Longrightarrow> key v = k \<Longrightarrow> tbl_insert t k own v now = Inr t' \<Longrightarrow> keyed key t'"
  by (auto simp: keyed_def tbl_wf_insert) (auto simp: tbl_insert_Inr_iff)

lemma keyed_del: "keyed key t \<Longrightarrow> keyed key (tbl_del t k)"
  by (auto simp: keyed_def) (auto simp: tbl_del_def)

lemma keyed_update:
  assumes "keyed key t" and "key v = k"
  shows "keyed key (fst (tbl_update t (\<lambda>r. row_id r = k \<and> Q r) v now))"
  using assms by (auto simp: keyed_def) (auto simp: tbl_update_def)

lemma keyed_put_all:
  assumes "\<And>v. v \<in> set vs \<Longrightarrow> key (f v) = key v"
  shows "keyed key t \<Longrightarrow> keyed key (put_all key own f clk n vs t)"
  using assms by (induction vs arbitrary: n t) (auto intro: keyed_put)

lemma keyed_row_get: "keyed key t \<Longrightarrow> r \<in> set t \<Longrightarrow> tbl_get t (key (row_payload r)) = Some (row_payload r)"
  by (metis keyed_def tbl_get_row)

lemma keyed_list_get: "keyed key t \<Longrightarrow> v \<in> set (tbl_list t own) \<Longrightarrow> tbl_get t (key v) = Some v"
  by (auto simp: set_tbl_list keyed_row_get)

lemma keyed_get_list: "tbl_get t k = Some v \<Longrightarrow> v \<in> set (tbl_list t None)"
  by (auto simp: set_tbl_list dest!: tbl_get_SomeD)

lemma keyed_list_distinct: "keyed key t \<Longrightarrow> distinct (map key (tbl_list t own))"
proof -
  assume k: "keyed key t"
  have "distinct (map row_id (tbl_rows t own))"
  proof -
    have "distinct (map row_id t)" using k by (simp add: keyed_def tbl_wf_def)
    then have "distinct t" and "inj_on row_id (set t)" by (simp_all add: distinct_map)
    then have "distinct (tbl_rows t own)" and "inj_on row_id (set (tbl_rows t own))"
      by (auto simp: tbl_rows_def inj_on_def split: option.splits)
    then show ?thesis by (simp add: distinct_map)
  qed
  moreover have "map key (tbl_list t own) = map row_id (tbl_rows t own)"
    using k by (auto simp: keyed_def tbl_list_def set_tbl_rows)
  ultimately show ?thesis by simp
qed

lemma distinct_map_filterI: "distinct (map f xs) \<Longrightarrow> distinct (map f (filter P xs))"
  by (simp add: distinct_map_filter)

text \<open>
  The effect of a loop over the selected rows of a table, seen through lookups: a selected
  payload is replaced by its changed copy and everything else stays.
\<close>

lemma get_put_all_selected:
  assumes "keyed key t" and "distinct (map key vs)"
    and sel: "\<And>v. v \<in> set vs \<longleftrightarrow> v \<in> set (tbl_list t None) \<and> P v"
  shows "tbl_get (put_all key own f clk n vs t) j =
    map_option (\<lambda>v. if P v then f v else v) (tbl_get t j)"
proof (cases "find (\<lambda>v. key v = j) vs")
  case (Some v)
  then have j: "key v = j" and v: "v \<in> set vs" by (auto dest: find_SomeD)
  from v sel have "v \<in> set (tbl_list t None)" and "P v" by simp_all
  then have "tbl_get t j = Some v" and "P v"
    using keyed_list_get [OF assms(1)] j by auto
  with Some assms(2) show ?thesis by (simp add: tbl_get_put_all)
next
  case None
  have "\<not> P v" if "tbl_get t j = Some v" for v
    using None that sel keyed_get[OF assms(1) that] keyed_get_list[OF that]
    by (auto simp: find_None_iff)
  with None assms(2) show ?thesis
    by (cases "tbl_get t j") (simp_all add: tbl_get_put_all)
qed

section \<open>Rows under their payload's key and owner\<close>

text \<open>
  What \<open>self._put(kind, v.id, v.owner_id, v)\<close> keeps: every row carries the key and the owner of
  its payload.
\<close>

definition own_keyed :: "('a \<Rightarrow> string) \<Rightarrow> ('a \<Rightarrow> string) \<Rightarrow> 'a table \<Rightarrow> bool" where
  "own_keyed key own t \<longleftrightarrow> keyed key t \<and> (\<forall>r \<in> set t. row_owner r = own (row_payload r))"

lemma own_keyed_Nil [simp]: "own_keyed key own []"
  by (simp add: own_keyed_def)

lemma own_keyed_keyed: "own_keyed key own t \<Longrightarrow> keyed key t"
  by (simp add: own_keyed_def)

lemma own_keyed_put: "own_keyed key own t \<Longrightarrow> key v = k \<Longrightarrow> own v = w \<Longrightarrow> own_keyed key own (tbl_put t k w v now)"
  by (auto simp: own_keyed_def keyed_put) (auto simp: tbl_put_def tbl_del_def)

lemma own_keyed_insert:
  "own_keyed key own t \<Longrightarrow> key v = k \<Longrightarrow> own v = w \<Longrightarrow> tbl_insert t k w v now = Inr t' \<Longrightarrow> own_keyed key own t'"
  by (auto simp: own_keyed_def keyed_insert) (auto simp: tbl_insert_Inr_iff)

lemma own_keyed_put_all:
  assumes "\<And>v. v \<in> set vs \<Longrightarrow> key (f v) = key v \<and> own (f v) = own v"
  shows "own_keyed key own t \<Longrightarrow> own_keyed key own (put_all key own f clk n vs t)"
  using assms by (induction vs arbitrary: n t) (auto intro: own_keyed_put)

lemma own_keyed_filter: "own_keyed key own t \<Longrightarrow> own_keyed key own (filter P t)"
  by (auto simp: own_keyed_def keyed_def tbl_wf_def distinct_map_filter)

lemma own_keyed_list_iff:
  assumes "own_keyed key own t"
  shows "v \<in> set (tbl_list t w) \<longleftrightarrow> tbl_get t (key v) = Some v \<and> (w = None \<or> w = Some (own v))"
proof
  assume "v \<in> set (tbl_list t w)"
  then show "tbl_get t (key v) = Some v \<and> (w = None \<or> w = Some (own v))"
    using assms keyed_list_get [of key t v w] by (cases w) (auto simp: own_keyed_def set_tbl_list)
next
  assume v: "tbl_get t (key v) = Some v \<and> (w = None \<or> w = Some (own v))"
  then obtain r where "r \<in> set t" "row_payload r = v" by (auto dest: tbl_get_SomeD)
  with v assms show "v \<in> set (tbl_list t w)"
    unfolding set_tbl_list by (auto simp: own_keyed_def intro!: rev_image_eqI [of r])
qed

lemma own_keyed_get_key: "own_keyed key own t \<Longrightarrow> tbl_get t k = Some v \<Longrightarrow> key v = k"
  by (rule keyed_get [OF own_keyed_keyed])

lemma put_all_selected:
  assumes s: "own_keyed key own t"
    and vs: "vs = map row_payload (filter (\<lambda>r. P (row_payload r)) t)"
  shows "tbl_get (put_all key own f clk n vs t) j =
    map_option (\<lambda>v. if P v then f v else v) (tbl_get t j)"
proof (rule get_put_all_selected [OF own_keyed_keyed [OF s]])
  have "map key vs = map row_id (filter (\<lambda>r. P (row_payload r)) t)"
    using s by (auto simp: vs own_keyed_def keyed_def)
  then show "distinct (map key vs)"
    using s by (simp add: own_keyed_def keyed_def tbl_wf_def distinct_map_filter)
  show "v \<in> set vs \<longleftrightarrow> v \<in> set (tbl_list t None) \<and> P v" for v
    by (auto simp: vs set_tbl_list)
qed

lemma put_all_list_selected:
  assumes s: "own_keyed key own t" and vs: "vs = filter P (tbl_list t None)"
  shows "tbl_get (put_all key own f clk n vs t) j =
    map_option (\<lambda>v. if P v then f v else v) (tbl_get t j)"
  by (rule get_put_all_selected [OF own_keyed_keyed [OF s]])
    (auto simp: vs intro: distinct_map_filterI keyed_list_distinct [OF own_keyed_keyed [OF s]])

section \<open>Deleting many rows\<close>

lemma find_filter_notin:
  "k \<notin> S \<Longrightarrow> find (\<lambda>r. f r = k) (filter (\<lambda>r. f r \<notin> S) t) = find (\<lambda>r. f r = k) t"
  by (induction t) auto

lemma foldl_tbl_del: "foldl tbl_del t ks = filter (\<lambda>r. row_id r \<notin> set ks) t"
proof (induction ks arbitrary: t)
  case (Cons k ks)
  have "foldl tbl_del t (k # ks) = foldl tbl_del (tbl_del t k) ks" by simp
  also have "\<dots> = filter (\<lambda>r. row_id r \<notin> set ks) (tbl_del t k)" by (rule Cons.IH)
  also have "\<dots> = filter (\<lambda>r. row_id r \<notin> set (k # ks)) t" by (auto simp: tbl_del_def intro: filter_cong)
  finally show ?case .
qed simp

lemma tbl_get_foldl_del [simp]:
  "tbl_get (foldl tbl_del t ks) k = (if k \<in> set ks then None else tbl_get t k)"
  by (auto simp: foldl_tbl_del tbl_get_def find_None_iff find_filter_notin)

lemma tbl_rows_foldl_del:
  "tbl_rows (foldl tbl_del t ks) own = filter (\<lambda>r. row_id r \<notin> set ks) (tbl_rows t own)"
  by (auto simp: tbl_rows_def foldl_tbl_del filter_sort conj_commute split: option.splits
      intro!: arg_cong [where f = "sort_key row_updated"] filter_cong)

lemma tbl_list_foldl_del:
  assumes "keyed key t"
  shows "tbl_list (foldl tbl_del t ks) own = filter (\<lambda>v. key v \<notin> set ks) (tbl_list t own)"
  using assms
  by (auto simp: tbl_list_def tbl_rows_foldl_del filter_map comp_def keyed_def set_tbl_rows
      intro!: arg_cong [where f = "map _"] filter_cong)

end
