(* ===== verification/Ledger.thy ===== *)
theory Ledger
  imports Worker Table
begin

text \<open>
  The state of \<open>TaskLedger\<close> (supervision.py) and its operations on turns, realtime context,
  coordinator sessions and projects.

  Each public method of the class is a function from the ledger to \<open>Inl\<close> of the exception it
  raises (its transaction is rolled back, so the ledger stays as it was) or \<open>Inr\<close> of the value it
  returns and the new ledger.  Methods that only read return a value.  A stored payload is the
  record itself: \<open>_dump\<close> and \<open>_decode\<close> are inverse on the values the class stores (theory
  \<open>Codec\<close>).  \<open>dataclasses.replace\<close> runs the constructor again, so every changed record goes
  through its \<open>_init\<close>.
\<close>

section \<open>State\<close>

record event_row =
  er_event :: WorkerEvent
  er_evaluated_revision :: int
  er_processed :: bool

record receipt_row =
  rc_key :: string
  rc_owner_id :: string
  rc_result :: TaskControlResult
  rc_created_at_ms :: int

record marker_row =
  mk_key :: string
  mk_value :: string
  mk_created_at_ms :: int

record entry_row =
  le_kind :: string
  le_entity_id :: string
  le_contract_revision :: int
  le_created_at_ms :: int

record TaskLedger =
  l_turns :: "TurnEnvelope table"
  l_contexts :: "ContextEvent table"
  l_jobs :: "CoordinationJob table"
  l_sessions :: "CoordinatorSessionRecord table"
  l_projects :: "ProjectRecord table"
  l_tasks :: "TaskRecord table"
  l_runs :: "RunRecord table"
  l_artifacts :: "ArtifactEvidence table"
  l_interactions :: "PendingInteraction table"
  l_deliveries :: "DeliveryRecord table"
  l_commands :: "ProviderCommandRecord table"
  l_aggregates :: "ActivityAggregate table"
  l_contracts :: "SupervisionContractRevision list"
  l_events :: "event_row list"
  l_receipts :: "receipt_row list"
  l_markers :: "marker_row list"
  l_entries :: "entry_row list"

definition empty_ledger :: TaskLedger where
  "empty_ledger = \<lparr>
     l_turns = [], l_contexts = [], l_jobs = [], l_sessions = [], l_projects = [], l_tasks = [],
     l_runs = [], l_artifacts = [], l_interactions = [], l_deliveries = [], l_commands = [],
     l_aggregates = [], l_contracts = [], l_events = [], l_receipts = [], l_markers = [],
     l_entries = []\<rparr>"

definition ledger_clear :: "TaskLedger \<Rightarrow> TaskLedger" where
  "ledger_clear L = empty_ledger"

definition marker_value :: "TaskLedger \<Rightarrow> string \<Rightarrow> string option" where
  "marker_value L k = map_option mk_value (find (\<lambda>m. mk_key m = k) (l_markers L))"

definition add_marker :: "string \<Rightarrow> string \<Rightarrow> int \<Rightarrow> TaskLedger \<Rightarrow> TaskLedger" where
  "add_marker k v now L =
     L\<lparr>l_markers := l_markers L @ [\<lparr>mk_key = k, mk_value = v, mk_created_at_ms = now\<rparr>]\<rparr>"

definition add_entry :: "string \<Rightarrow> string \<Rightarrow> int \<Rightarrow> int \<Rightarrow> TaskLedger \<Rightarrow> TaskLedger" where
  "add_entry kind eid revision now L =
     L\<lparr>l_entries := l_entries L @
         [\<lparr>le_kind = kind, le_entity_id = eid, le_contract_revision = revision, le_created_at_ms = now\<rparr>]\<rparr>"

definition get_receipt :: "TaskLedger \<Rightarrow> string \<Rightarrow> TaskControlResult option" where
  "get_receipt L k = map_option rc_result (find (\<lambda>r. rc_key r = k) (l_receipts L))"

definition add_receipt :: "string \<Rightarrow> string \<Rightarrow> TaskControlResult \<Rightarrow> int \<Rightarrow> TaskLedger \<Rightarrow> TaskLedger" where
  "add_receipt k own result now L =
     L\<lparr>l_receipts := l_receipts L @
         [\<lparr>rc_key = k, rc_owner_id = own, rc_result = result, rc_created_at_ms = now\<rparr>]\<rparr>"

lemma marker_value_add [simp]:
  "marker_value (add_marker k v now L) j =
     (case marker_value L j of Some w \<Rightarrow> Some w | None \<Rightarrow> if j = k then Some v else None)"
  by (auto simp: marker_value_def add_marker_def find_append split: option.splits)

lemma get_receipt_add [simp]:
  "get_receipt (add_receipt k own r now L) j =
     (case get_receipt L j of Some w \<Rightarrow> Some w | None \<Rightarrow> if j = k then Some r else None)"
  by (auto simp: get_receipt_def add_receipt_def find_append split: option.splits)

definition save_receipt ::
  "TaskLedger \<Rightarrow> clock \<Rightarrow> string \<Rightarrow> string \<Rightarrow> TaskControlResult \<Rightarrow> (TaskControlResult \<times> TaskLedger) res" where
  "save_receipt L clk k own result =
     (case get_receipt L k of
        None \<Rightarrow> Inr (result, add_receipt k own result (clk 0) L)
      | Some existing \<Rightarrow> Inr (existing, L))"

section \<open>Turns and realtime context\<close>

definition turn_collision :: "TurnEnvelope \<Rightarrow> py_error" where
  "turn_collision t = ValueError
     (''turn identity collision: '' @ tu_owner_id t @ ''/'' @ tu_voice_session_id t @ ''/'' @ tu_turn_id t)"

definition put_turn :: "TaskLedger \<Rightarrow> clock \<Rightarrow> TurnEnvelope \<Rightarrow> (bool \<times> TaskLedger) res" where
  "put_turn L clk turn =
     (case tbl_insert (l_turns L) (receipt_key turn) (tu_owner_id turn) turn (clk 0) of
        Inr t' \<Rightarrow> Inr (True, L\<lparr>l_turns := t'\<rparr>)
      | Inl _ \<Rightarrow>
          (if tbl_get (l_turns L) (receipt_key turn) \<noteq> Some turn then Inl (turn_collision turn)
           else Inr (False, L)))"

text \<open>\<open>ORDER BY updated_at_ms DESC LIMIT 2\<close>\<close>

definition get_turn ::
  "TaskLedger \<Rightarrow> string \<Rightarrow> string option \<Rightarrow> string option \<Rightarrow> TurnEnvelope option res" where
  "get_turn L turn_id own voice =
     (let rows = take 2 (sort_key (\<lambda>r. - row_updated r)
            (filter (\<lambda>r. tu_turn_id (row_payload r) = turn_id \<and>
               (own = None \<or> own = Some (row_owner r)) \<and>
               (voice = None \<or> voice = Some (tu_voice_session_id (row_payload r)))) (l_turns L)))
      in (case rows of
            [] \<Rightarrow> Inr None
          | r # rest \<Rightarrow>
              (if rest \<noteq> [] \<and> (own = None \<or> voice = None)
               then Inl (ValueError ''turn lookup is ambiguous'')
               else Inr (Some (row_payload r)))))"

definition get_turn_by_receipt :: "TaskLedger \<Rightarrow> string \<Rightarrow> TurnEnvelope option" where
  "get_turn_by_receipt L k = tbl_get (l_turns L) k"

definition list_turns :: "TaskLedger \<Rightarrow> string option \<Rightarrow> TurnEnvelope list" where
  "list_turns L own = tbl_list (l_turns L) own"

definition put_realtime_context ::
  "TaskLedger \<Rightarrow> clock \<Rightarrow> string \<Rightarrow> ContextEvent \<Rightarrow> (bool \<times> TaskLedger) res" where
  "put_realtime_context L clk own event =
     (case tbl_get (l_contexts L) (ce_event_id event) of
        Some existing \<Rightarrow>
          (if existing \<noteq> event
           then Inl (ValueError (''realtime context identity collision: '' @ ce_event_id event))
           else Inr (False, L))
      | None \<Rightarrow>
          (case tbl_insert (l_contexts L) (ce_event_id event) own event (clk 0) of
             Inl e \<Rightarrow> Inl e
           | Inr t' \<Rightarrow> Inr (True, L\<lparr>l_contexts := t'\<rparr>)))"

definition get_realtime_context :: "TaskLedger \<Rightarrow> string \<Rightarrow> string option \<Rightarrow> ContextEvent option" where
  "get_realtime_context L eid own =
     (case own of
        Some w \<Rightarrow> map_option row_payload
          (find (\<lambda>r. row_id r = eid \<and> row_owner r = w) (l_contexts L))
      | None \<Rightarrow> tbl_get (l_contexts L) eid)"

definition list_realtime_context :: "TaskLedger \<Rightarrow> string option \<Rightarrow> ContextEvent list" where
  "list_realtime_context L own = tbl_list (l_contexts L) own"

section \<open>Coordinator sessions and projects\<close>

definition save_coordinator_session ::
  "TaskLedger \<Rightarrow> clock \<Rightarrow> CoordinatorSessionRecord \<Rightarrow> (unit \<times> TaskLedger) res" where
  "save_coordinator_session L clk s =
     (let collides = (case tbl_get (l_sessions L) (cs_session_id s) of
            None \<Rightarrow> False
          | Some x \<Rightarrow> cs_owner_id x \<noteq> cs_owner_id s \<or> cs_provider_name x \<noteq> cs_provider_name s)
      in if collides
         then Inl (ValueError (''coordinator session identity collision: '' @ cs_session_id s))
         else Inr ((), L\<lparr>l_sessions :=
                tbl_put (l_sessions L) (cs_session_id s) (cs_owner_id s) s (clk 0)\<rparr>))"

definition get_coordinator_session ::
  "TaskLedger \<Rightarrow> string \<Rightarrow> string \<Rightarrow> CoordinatorSessionRecord option res" where
  "get_coordinator_session L own provider =
     (case filter (\<lambda>s. cs_provider_name s = provider) (tbl_list (l_sessions L) (Some own)) of
        [] \<Rightarrow> Inr None
      | [s] \<Rightarrow> Inr (Some s)
      | _ \<Rightarrow> Inl (RuntimeError ''multiple coordinator sessions exist for one owner/provider''))"

definition save_project :: "TaskLedger \<Rightarrow> clock \<Rightarrow> ProjectRecord \<Rightarrow> (unit \<times> TaskLedger) res" where
  "save_project L clk p =
     Inr ((), L\<lparr>l_projects := tbl_put (l_projects L) (pr_project_id p) (pr_owner_id p) p (clk 0)\<rparr>)"

definition get_project :: "TaskLedger \<Rightarrow> string \<Rightarrow> ProjectRecord option" where
  "get_project L k = tbl_get (l_projects L) k"

definition list_projects :: "TaskLedger \<Rightarrow> string option \<Rightarrow> ProjectRecord list" where
  "list_projects L own = tbl_list (l_projects L) own"

section \<open>Laws of turns\<close>

text \<open>A turn that was put is found again, whatever happens to its replays.\<close>

lemma put_turn_get:
  "put_turn L clk turn = Inr (b, L') \<Longrightarrow> get_turn_by_receipt L' (receipt_key turn) = Some turn"
  by (auto simp: put_turn_def get_turn_by_receipt_def tbl_insert_def tbl_get_snoc
      split: sum.splits if_splits option.splits)

lemma put_turn_replay:
  "put_turn L clk turn = Inr (b, L') \<Longrightarrow> put_turn L' clk' turn = Inr (False, L')"
  using put_turn_get [of L clk turn b L']
  by (auto simp: put_turn_def get_turn_by_receipt_def tbl_insert_def)

lemma put_turn_frame:
  "put_turn L clk turn = Inr (b, L') \<Longrightarrow> k \<noteq> receipt_key turn \<Longrightarrow>
   get_turn_by_receipt L' k = get_turn_by_receipt L k"
  by (auto simp: put_turn_def get_turn_by_receipt_def tbl_insert_def tbl_get_snoc
      split: sum.splits if_splits option.splits)

end
