(* ===== verification/LedgerJobs.thy ===== *)
theory LedgerJobs
  imports Ledger
begin

text \<open>
  The coordination jobs of \<open>TaskLedger\<close> (supervision.py): one current job per owner, stored under
  the owner's id, and the receipts that make the submission of a turn idempotent.
\<close>

section \<open>Operations\<close>

definition pending_result :: "string \<Rightarrow> TaskControlResult" where
  "pending_result request_id = \<lparr>
     tc_request_id = request_id, tc_disposition = ''accepted'', tc_speech = [], tc_task_ids = [],
     tc_interaction_id = None, tc_reason_key = ''coordination.pending'', tc_status = ''ok'',
     tc_candidates = []\<rparr>"

text \<open>The job a new turn creates: the next version, with the keys of the turns still waiting.\<close>

definition next_job :: "CoordinationJob option \<Rightarrow> TurnEnvelope \<Rightarrow> string \<Rightarrow> int \<Rightarrow> CoordinationJob" where
  "next_job current turn request_id timestamp = \<lparr>
     j_owner_id = tu_owner_id turn,
     j_request_id = request_id,
     j_receipt_key = receipt_key turn,
     j_turn_id = tu_turn_id turn,
     j_voice_session_id = tu_voice_session_id turn,
     j_version = (case current of Some c \<Rightarrow> j_version c + 1 | None \<Rightarrow> 1),
     j_turn_receipt_keys =
       (case current of
          Some c \<Rightarrow> (if j_state c \<in> {JPending, JCoordinating}
                     then j_turn_receipt_keys c @ [receipt_key turn] else [receipt_key turn])
        | None \<Rightarrow> [receipt_key turn]),
     j_state = JPending, j_result = None, j_error = [],
     j_created_at_ms = timestamp, j_updated_at_ms = timestamp\<rparr>"

definition put_job :: "CoordinationJob \<Rightarrow> string \<Rightarrow> int \<Rightarrow> TaskLedger \<Rightarrow> TaskLedger" where
  "put_job job own now L = L\<lparr>l_jobs := tbl_put (l_jobs L) own own job now\<rparr>"

text \<open>
  The part of \<open>submit_coordination\<close> after the turn is stored; \<open>n\<close> clock readings were taken
  before it.
\<close>

definition submit_job ::
  "TaskLedger \<Rightarrow> clock \<Rightarrow> nat \<Rightarrow> TurnEnvelope \<Rightarrow> string \<Rightarrow>
   ((TaskControlResult \<times> CoordinationJob option \<times> bool) \<times> TaskLedger) res" where
  "submit_job L clk n turn request_id =
     (let own = tu_owner_id turn;
          timestamp = clk n
      in (case CoordinationJob_init (next_job (tbl_get (l_jobs L) own) turn request_id timestamp) of
            Inl e \<Rightarrow> Inl e
          | Inr job \<Rightarrow>
              Inr ((pending_result request_id, Some job, True),
                add_receipt (receipt_key turn) own (pending_result request_id) timestamp
                  (put_job job own (clk (n + 1)) L))))"

definition submit_coordination ::
  "TaskLedger \<Rightarrow> clock \<Rightarrow> TurnEnvelope \<Rightarrow> string \<Rightarrow>
   ((TaskControlResult \<times> CoordinationJob option \<times> bool) \<times> TaskLedger) res" where
  "submit_coordination L clk turn request_id =
     (case get_receipt L (receipt_key turn) of
        Some existing_result \<Rightarrow>
          (if tbl_get (l_turns L) (receipt_key turn) \<noteq> Some turn then Inl (turn_collision turn)
           else Inr ((existing_result,
             (case tbl_get (l_jobs L) (tu_owner_id turn) of
                None \<Rightarrow> None
              | Some current \<Rightarrow>
                  (if j_request_id current \<noteq> tc_request_id existing_result then None else Some current)),
             False), L))
      | None \<Rightarrow>
          (case tbl_get (l_turns L) (receipt_key turn) of
             None \<Rightarrow>
               (case tbl_insert (l_turns L) (receipt_key turn) (tu_owner_id turn) turn (clk 0) of
                  Inl e \<Rightarrow> Inl e
                | Inr t' \<Rightarrow> submit_job (L\<lparr>l_turns := t'\<rparr>) clk 1 turn request_id)
           | Some stored \<Rightarrow>
               (if stored \<noteq> turn then Inl (turn_collision turn)
                else submit_job L clk 0 turn request_id)))"

definition get_coordination_job :: "TaskLedger \<Rightarrow> string \<Rightarrow> CoordinationJob option" where
  "get_coordination_job L own = tbl_get (l_jobs L) own"

definition list_coordination_jobs :: "TaskLedger \<Rightarrow> CoordinationJob list" where
  "list_coordination_jobs L = tbl_list (l_jobs L) None"

definition claim_coordination_job ::
  "TaskLedger \<Rightarrow> clock \<Rightarrow> string \<Rightarrow> (CoordinationJob option \<times> TaskLedger) res" where
  "claim_coordination_job L clk own =
     (case tbl_get (l_jobs L) own of
        None \<Rightarrow> Inr (None, L)
      | Some current \<Rightarrow>
          (if j_state current \<noteq> JPending then Inr (None, L)
           else (case CoordinationJob_init
                    (current\<lparr>j_state := JCoordinating, j_updated_at_ms := clk 0\<rparr>) of
                   Inl e \<Rightarrow> Inl e
                 | Inr claimed \<Rightarrow> Inr (Some claimed, put_job claimed own (clk 1) L))))"

text \<open>Whether the stored job is still the one a worker claimed.\<close>

definition holds_claim :: "TaskLedger \<Rightarrow> CoordinationJob \<Rightarrow> CoordinationJob \<Rightarrow> bool" where
  "holds_claim L job current \<longleftrightarrow>
     tbl_get (l_jobs L) (j_owner_id job) = Some current \<and>
     j_request_id current = j_request_id job \<and>
     j_version current = j_version job \<and>
     j_state current = JCoordinating"

definition finish_coordination_job ::
  "TaskLedger \<Rightarrow> clock \<Rightarrow> CoordinationJob \<Rightarrow> TaskControlResult \<Rightarrow> string \<Rightarrow>
   (CoordinationJob option \<times> TaskLedger) res" where
  "finish_coordination_job L clk job result err =
     (case tbl_get (l_jobs L) (j_owner_id job) of
        None \<Rightarrow> Inr (None, L)
      | Some current \<Rightarrow>
          (if \<not> holds_claim L job current then Inr (None, L)
           else (case CoordinationJob_init
                    (current\<lparr>j_state := (if err \<noteq> [] then JFailed else JCompleted),
                       j_result := Some result, j_error := err, j_updated_at_ms := clk 0\<rparr>) of
                   Inl e \<Rightarrow> Inl e
                 | Inr finished \<Rightarrow>
                     Inr (Some finished, put_job finished (j_owner_id job) (clk 1) L))))"

definition release_coordination_job ::
  "TaskLedger \<Rightarrow> clock \<Rightarrow> CoordinationJob \<Rightarrow> (bool \<times> TaskLedger) res" where
  "release_coordination_job L clk job =
     (case tbl_get (l_jobs L) (j_owner_id job) of
        None \<Rightarrow> Inr (False, L)
      | Some current \<Rightarrow>
          (if \<not> holds_claim L job current then Inr (False, L)
           else (case CoordinationJob_init (current\<lparr>j_state := JPending, j_updated_at_ms := clk 0\<rparr>) of
                   Inl e \<Rightarrow> Inl e
                 | Inr released \<Rightarrow> Inr (True, put_job released (j_owner_id job) (clk 1) L))))"

text \<open>
  The loop of \<open>recover_coordination_jobs\<close>; each replaced job reads the clock for
  \<open>updated_at_ms\<close> and again for its row.
\<close>

fun recover_jobs :: "clock \<Rightarrow> nat \<Rightarrow> CoordinationJob list \<Rightarrow> TaskLedger \<Rightarrow> TaskLedger res" where
  "recover_jobs clk n [] L = Inr L"
| "recover_jobs clk n (job # rest) L =
     (if j_state job = JCoordinating
      then (case CoordinationJob_init (job\<lparr>j_state := JPending, j_updated_at_ms := clk n\<rparr>) of
              Inl e \<Rightarrow> Inl e
            | Inr job' \<Rightarrow> recover_jobs clk (n + 2) rest (put_job job' (j_owner_id job) (clk (n + 1)) L))
      else recover_jobs clk n rest L)"

definition recover_coordination_jobs :: "TaskLedger \<Rightarrow> clock \<Rightarrow> (unit \<times> TaskLedger) res" where
  "recover_coordination_jobs L clk =
     (case recover_jobs clk 0 (tbl_list (l_jobs L) None) L of
        Inl e \<Rightarrow> Inl e | Inr L' \<Rightarrow> Inr ((), L'))"

section \<open>The jobs' invariant\<close>

definition job_ok :: "CoordinationJob \<Rightarrow> bool" where
  "job_ok j \<longleftrightarrow> CoordinationJob_init j = Inr j"

lemma job_ok_iff:
  "job_ok j \<longleftrightarrow> j_turn_receipt_keys j \<noteq> [] \<and> (\<forall>g \<in> set (CoordinationJob_checks j). \<not> fst g)"
proof (cases "j_turn_receipt_keys j = []")
  case True
  then have "CoordinationJob_init j \<noteq> Inr j"
    by (cases j) (auto simp: CoordinationJob_init_def Let_def)
  with True show ?thesis by (simp add: job_ok_def)
next
  case False
  then show ?thesis by (simp add: job_ok_def CoordinationJob_init_def Let_def)
qed

lemma job_init_ok: "CoordinationJob_init j0 = Inr j \<Longrightarrow> job_ok j"
  by (auto simp: CoordinationJob_init_def job_ok_iff Let_def split: if_splits)

lemma job_init_id: "CoordinationJob_init j0 = Inr j \<Longrightarrow> j_turn_receipt_keys j0 \<noteq> [] \<Longrightarrow> j = j0"
  by (auto simp: CoordinationJob_init_def Let_def)

lemmas job_check_simps = CoordinationJob_checks_def required_def unique_def has_duplicates_def

text \<open>The state changes of the operations never make the constructor raise on a valid job.\<close>

lemma job_ok_active:
  "job_ok j \<Longrightarrow> j_state j \<in> {JPending, JCoordinating} \<Longrightarrow> s \<in> {JPending, JCoordinating} \<Longrightarrow>
   CoordinationJob_init (j\<lparr>j_state := s, j_updated_at_ms := t\<rparr>) = Inr (j\<lparr>j_state := s, j_updated_at_ms := t\<rparr>)"
  unfolding job_ok_def [symmetric] job_ok_iff job_check_simps by auto

lemma job_ok_final:
  "job_ok j \<Longrightarrow> s \<in> {JCompleted, JFailed} \<Longrightarrow>
   CoordinationJob_init (j\<lparr>j_state := s, j_result := Some r, j_error := e, j_updated_at_ms := t\<rparr>) =
     Inr (j\<lparr>j_state := s, j_result := Some r, j_error := e, j_updated_at_ms := t\<rparr>)"
  unfolding job_ok_def [symmetric] job_ok_iff job_check_simps by auto

definition jobs_ok :: "TaskLedger \<Rightarrow> bool" where
  "jobs_ok L \<longleftrightarrow> keyed j_owner_id (l_jobs L) \<and> (\<forall>k j. tbl_get (l_jobs L) k = Some j \<longrightarrow> job_ok j)"

lemma jobs_okD: "jobs_ok L \<Longrightarrow> tbl_get (l_jobs L) k = Some j \<Longrightarrow> job_ok j \<and> j_owner_id j = k"
  by (auto simp: jobs_ok_def dest: keyed_get)

lemma jobs_ok_put: "jobs_ok L \<Longrightarrow> job_ok j \<Longrightarrow> j_owner_id j = own \<Longrightarrow> jobs_ok (put_job j own now L)"
  by (auto simp: jobs_ok_def put_job_def intro: keyed_put split: if_splits)

lemma jobs_ok_cong: "l_jobs L' = l_jobs L \<Longrightarrow> jobs_ok L \<Longrightarrow> jobs_ok L'"
  by (simp add: jobs_ok_def)

lemma put_job_frame [simp]:
  "l_turns (put_job j own now L) = l_turns L"
  "l_receipts (put_job j own now L) = l_receipts L"
  "tbl_get (l_jobs (put_job j own now L)) k = (if k = own then Some j else tbl_get (l_jobs L) k)"
  "get_receipt (put_job j own now L) = get_receipt L"
  by (auto simp: put_job_def get_receipt_def)

lemma add_receipt_frame [simp]:
  "l_turns (add_receipt k own r now L) = l_turns L"
  "l_jobs (add_receipt k own r now L) = l_jobs L"
  by (simp_all add: add_receipt_def)

lemma CoordinationJob_init_owner: "CoordinationJob_init j0 = Inr j \<Longrightarrow> j_owner_id j = j_owner_id j0"
  by (auto simp: CoordinationJob_init_def Let_def)

lemma jobs_ok_replace:
  assumes "jobs_ok L" and "tbl_get (l_jobs L) own = Some c"
    and "CoordinationJob_init c' = Inr j" and "j_owner_id c' = j_owner_id c"
  shows "jobs_ok (put_job j own now L)"
proof (rule jobs_ok_put [OF assms(1)])
  show "job_ok j" using assms(3) by (rule job_init_ok)
  show "j_owner_id j = own"
    using CoordinationJob_init_owner [OF assms(3)] assms(4) jobs_okD [OF assms(1,2)] by simp
qed

lemma claim_jobs_ok:
  "jobs_ok L \<Longrightarrow> claim_coordination_job L clk own = Inr (r, L') \<Longrightarrow> jobs_ok L'"
  by (auto simp: claim_coordination_job_def split: option.splits if_splits sum.splits
      elim: jobs_ok_replace)

lemma finish_jobs_ok:
  "jobs_ok L \<Longrightarrow> finish_coordination_job L clk job res err = Inr (r, L') \<Longrightarrow> jobs_ok L'"
  by (auto simp: finish_coordination_job_def split: option.splits if_splits sum.splits
      elim: jobs_ok_replace)

lemma release_jobs_ok:
  "jobs_ok L \<Longrightarrow> release_coordination_job L clk job = Inr (r, L') \<Longrightarrow> jobs_ok L'"
  by (auto simp: release_coordination_job_def split: option.splits if_splits sum.splits
      elim: jobs_ok_replace)

lemma submit_job_jobs_ok:
  "jobs_ok L \<Longrightarrow> submit_job L clk n turn rid = Inr (r, L') \<Longrightarrow> jobs_ok L'"
  by (auto simp: submit_job_def Let_def next_job_def split: sum.splits
      intro!: jobs_ok_cong [of "add_receipt k own r now M" M for k own r now M] jobs_ok_put
      dest: job_init_ok CoordinationJob_init_owner)

lemma submit_jobs_ok:
  assumes "jobs_ok L" and "submit_coordination L clk turn rid = Inr (r, L')"
  shows "jobs_ok L'"
proof -
  have "jobs_ok (L\<lparr>l_turns := t'\<rparr>)" for t'
    using assms(1) by (auto intro: jobs_ok_cong [of _ L])
  with assms show ?thesis
    by (auto simp: submit_coordination_def split: option.splits if_splits sum.splits
        dest: submit_job_jobs_ok)
qed

lemma recover_jobs_ok:
  "jobs_ok L \<Longrightarrow> recover_jobs clk n js L = Inr L' \<Longrightarrow> jobs_ok L'"
proof (induction clk n js L rule: recover_jobs.induct)
  case (2 clk n job rest L)
  show ?case
  proof (cases "j_state job = JCoordinating")
    case True
    with "2.prems" obtain job' where
      i: "CoordinationJob_init (job\<lparr>j_state := JPending, j_updated_at_ms := clk n\<rparr>) = Inr job'"
      and r: "recover_jobs clk (n + 2) rest (put_job job' (j_owner_id job) (clk (n + 1)) L) = Inr L'"
      by (auto split: sum.splits)
    have "jobs_ok (put_job job' (j_owner_id job) (clk (n + 1)) L)"
      using "2.prems"(1) job_init_ok [OF i] CoordinationJob_init_owner [OF i] by (simp add: jobs_ok_put)
    from "2.IH"(1) [OF True i this r] show ?thesis .
  qed (use "2" in auto)
qed simp

section \<open>What the operations promise\<close>

text \<open>A job after recovery: one that was being coordinated is pending again.\<close>

definition recovered :: "CoordinationJob \<Rightarrow> CoordinationJob \<Rightarrow> bool" where
  "recovered j j' \<longleftrightarrow>
     (if j_state j = JCoordinating
      then \<exists>t. j' = j\<lparr>j_state := JPending, j_updated_at_ms := t\<rparr> else j' = j)"

lemma recover_jobs_effect:
  assumes "distinct (map j_owner_id js)"
    and "\<And>j. j \<in> set js \<Longrightarrow> job_ok j \<and> tbl_get (l_jobs L) (j_owner_id j) = Some j"
  shows "\<exists>L'. recover_jobs clk n js L = Inr L' \<and>
    (\<forall>k. k \<notin> j_owner_id ` set js \<longrightarrow> tbl_get (l_jobs L') k = tbl_get (l_jobs L) k) \<and>
    (\<forall>j \<in> set js. \<exists>j'. tbl_get (l_jobs L') (j_owner_id j) = Some j' \<and> recovered j j')"
  using assms
proof (induction js arbitrary: L n)
  case (Cons j js)
  define j1 where "j1 = j\<lparr>j_state := JPending, j_updated_at_ms := clk n\<rparr>"
  define m M where "m = (if j_state j = JCoordinating then n + 2 else n)"
    and "M = (if j_state j = JCoordinating then put_job j1 (j_owner_id j) (clk (n + 1)) L else L)"
  have "CoordinationJob_init j1 = Inr j1" if "j_state j = JCoordinating"
    using job_ok_active [of j JPending "clk n"] Cons.prems(2) [of j] that by (simp add: j1_def)
  then have step: "recover_jobs clk n (j # js) L = recover_jobs clk m js M"
    by (auto simp: m_def M_def j1_def)
  have M: "tbl_get (l_jobs M) k = tbl_get (l_jobs L) k" if "k \<noteq> j_owner_id j" for k
    using that by (auto simp: M_def)
  have "\<exists>j'. tbl_get (l_jobs M) (j_owner_id j) = Some j' \<and> recovered j j'"
    using Cons.prems(2) [of j] by (auto simp: M_def recovered_def j1_def)
  moreover obtain L' where "recover_jobs clk m js M = Inr L'"
    and "\<And>k. k \<notin> j_owner_id ` set js \<Longrightarrow> tbl_get (l_jobs L') k = tbl_get (l_jobs M) k"
    and "\<And>i. i \<in> set js \<Longrightarrow> \<exists>j'. tbl_get (l_jobs L') (j_owner_id i) = Some j' \<and> recovered i j'"
    using Cons.IH [of M m] Cons.prems M by (auto simp: image_iff) metis
  ultimately show ?case
    using Cons.prems(1) M step by (intro exI [of _ L']) auto
qed simp

lemma get_receipt_other_tables [simp]:
  "get_receipt (L\<lparr>l_turns := t\<rparr>) = get_receipt L"
  "get_receipt (L\<lparr>l_jobs := u\<rparr>) = get_receipt L"
  by (rule ext, simp add: get_receipt_def)+

lemma submit_job_result:
  "submit_job L clk n turn rid = Inr ((r, job, b), L') \<Longrightarrow>
   get_receipt L (receipt_key turn) = None \<Longrightarrow>
   b \<and> r = pending_result rid \<and> l_turns L' = l_turns L \<and> get_receipt L' (receipt_key turn) = Some r \<and>
   (\<exists>j now t. CoordinationJob_init (next_job (tbl_get (l_jobs L) (tu_owner_id turn)) turn rid t) = Inr j \<and>
      job = Some j \<and> l_jobs L' = tbl_put (l_jobs L) (tu_owner_id turn) (tu_owner_id turn) j now)"
  by (auto simp: submit_job_def Let_def put_job_def split: sum.splits)

lemma submit_stores:
  assumes "submit_coordination L clk turn rid = Inr ((r, job, b), L')"
  shows "tbl_get (l_turns L') (receipt_key turn) = Some turn \<and>
    get_receipt L' (receipt_key turn) = Some r"
  using assms
  by (auto simp: submit_coordination_def tbl_insert_def tbl_get_snoc
      split: option.splits if_splits sum.splits dest!: submit_job_result)

lemma next_job_keys: "j_turn_receipt_keys (next_job c turn rid t) \<noteq> []"
  by (auto simp: next_job_def split: option.splits)

lemma submit_fresh:
  assumes "submit_coordination L clk turn rid = Inr ((r, job, True), L')"
  shows "get_receipt L (receipt_key turn) = None \<and> r = pending_result rid \<and>
    (\<exists>t now. job = Some (next_job (tbl_get (l_jobs L) (tu_owner_id turn)) turn rid t) \<and>
       l_jobs L' = tbl_put (l_jobs L) (tu_owner_id turn) (tu_owner_id turn)
         (next_job (tbl_get (l_jobs L) (tu_owner_id turn)) turn rid t) now)"
  using assms
  by (auto simp: submit_coordination_def
      split: option.splits if_splits sum.splits
      dest!: submit_job_result job_init_id [OF _ next_job_keys]) blast+

section \<open>Properties\<close>

text \<open>Submitting a turn is idempotent.  Once a submission has succeeded, submitting the same
  turn again, under any request id and at any later time, changes nothing in the ledger and answers
  with the receipt of the first submission.\<close>

theorem submit_coordination_idempotent:
  assumes "submit_coordination L clk turn rid = Inr ((r, job, b), L')"
  shows "\<exists>job'. submit_coordination L' clk' turn rid' = Inr ((r, job', False), L')"
  using submit_stores [OF assms] by (simp add: submit_coordination_def)

text \<open>A newer turn supersedes the claim on an older one.  After a worker claims an owner's job
  and a fresh turn of that owner is submitted, the new job has the next version and still carries
  every receipt key of the claimed job followed by its own, and the worker's late finish or release
  is dropped without touching the ledger.\<close>

theorem superseded_claim_is_dropped:
  assumes ok: "jobs_ok L"
    and claim: "claim_coordination_job L clk (tu_owner_id turn) = Inr (Some j, L1)"
    and submit: "submit_coordination L1 clk1 turn rid = Inr ((r, Some job, True), L2)"
  shows "j_version job = j_version j + 1 \<and>
    j_turn_receipt_keys job = j_turn_receipt_keys j @ [receipt_key turn] \<and>
    finish_coordination_job L2 clk2 j res err = Inr (None, L2) \<and>
    release_coordination_job L2 clk2 j = Inr (False, L2)"
proof -
  let ?own = "tu_owner_id turn"
  from claim obtain c where c: "tbl_get (l_jobs L) ?own = Some c" "j_state c = JPending"
    and "CoordinationJob_init (c\<lparr>j_state := JCoordinating, j_updated_at_ms := clk 0\<rparr>) = Inr j"
    and L1: "L1 = put_job j ?own (clk 1) L"
    by (auto simp: claim_coordination_job_def split: option.splits if_splits sum.splits)
  moreover from c ok have jc: "job_ok c" "j_owner_id c = ?own" by (auto dest: jobs_okD)
  ultimately have j: "j = c\<lparr>j_state := JCoordinating, j_updated_at_ms := clk 0\<rparr>"
    by (simp add: job_ok_active)
  from submit_fresh [OF submit] obtain t now where
      job: "job = next_job (Some j) turn rid t"
    and L2: "l_jobs L2 = tbl_put (l_jobs L1) ?own ?own job now"
    by (auto simp: L1)
  have "\<not> holds_claim L2 j x" for x
    using j jc by (auto simp: holds_claim_def L2 job next_job_def)
  moreover have "tbl_get (l_jobs L2) (j_owner_id j) = Some job"
    using j jc by (simp add: L2)
  ultimately show ?thesis
    using j by (simp add: job next_job_def finish_coordination_job_def release_coordination_job_def)
qed

text \<open>A claim on a coordination job is exclusive and ends with its own finish: while it is held
  a second claim gets nothing, and its finish stores the result in a job that no claim, finish or
  release changes any more.\<close>

theorem claim_then_finish:
  assumes ok: "jobs_ok L" and claim: "claim_coordination_job L clk own = Inr (Some j, L1)"
  shows "claim_coordination_job L1 clk1 own = Inr (None, L1) \<and>
    (\<exists>j' L2. finish_coordination_job L1 clk2 j res err = Inr (Some j', L2) \<and>
       j_result j' = Some res \<and> j_state j' = (if err = [] then JCompleted else JFailed) \<and>
       get_coordination_job L2 own = Some j' \<and>
       claim_coordination_job L2 clk3 own = Inr (None, L2) \<and>
       finish_coordination_job L2 clk3 j res2 err2 = Inr (None, L2) \<and>
       release_coordination_job L2 clk3 j = Inr (False, L2))"
proof -
  from claim obtain c where c: "tbl_get (l_jobs L) own = Some c" "j_state c = JPending"
    and "CoordinationJob_init (c\<lparr>j_state := JCoordinating, j_updated_at_ms := clk 0\<rparr>) = Inr j"
    and L1: "L1 = put_job j own (clk 1) L"
    by (auto simp: claim_coordination_job_def split: option.splits if_splits sum.splits)
  moreover from c ok have jc: "job_ok c" "j_owner_id c = own" by (auto dest: jobs_okD)
  ultimately have j: "j = c\<lparr>j_state := JCoordinating, j_updated_at_ms := clk 0\<rparr>"
    by (simp add: job_ok_active)
  have okj: "job_ok j"
    using job_ok_active [OF jc(1)] c(2) j by (simp add: job_ok_def)
  define st where "st = (if err \<noteq> [] then JFailed else JCompleted)"
  define j' where "j' = j\<lparr>j_state := st, j_result := Some res, j_error := err, j_updated_at_ms := clk2 0\<rparr>"
  have init: "CoordinationJob_init j' = Inr j'"
    unfolding j'_def by (rule job_ok_final [OF okj]) (simp add: st_def)
  define L2 where "L2 = put_job j' own (clk2 1) L1"
  have own: "j_owner_id j = own" "j_state j = JCoordinating" using jc j by simp_all
  have "finish_coordination_job L1 clk2 j res err = Inr (Some j', L2)"
    using init own
    by (simp add: finish_coordination_job_def holds_claim_def L1 L2_def j'_def st_def)
  moreover have "j_result j' = Some res" "j_state j' = (if err = [] then JCompleted else JFailed)"
    by (simp_all add: j'_def st_def)
  ultimately show ?thesis
    using own unfolding get_coordination_job_def
    by (intro conjI exI [of _ j'] exI [of _ L2])
      (auto simp: claim_coordination_job_def finish_coordination_job_def release_coordination_job_def
        holds_claim_def L1 L2_def)
qed

text \<open>Recovery after a restart succeeds on every reachable ledger, makes every job that was
  being coordinated pending again and leaves every other job as it was.\<close>

theorem recovery_requeues_claimed_jobs:
  assumes "jobs_ok L"
  shows "\<exists>L'. recover_coordination_jobs L clk = Inr ((), L') \<and>
    (\<forall>k. rel_option recovered (get_coordination_job L k) (get_coordination_job L' k))"
proof -
  let ?js = "tbl_list (l_jobs L) None"
  have k: "keyed j_owner_id (l_jobs L)" using assms by (simp add: jobs_ok_def)
  have get: "job_ok j \<and> tbl_get (l_jobs L) (j_owner_id j) = Some j" if "j \<in> set ?js" for j
    using keyed_list_get [OF k that] jobs_okD [OF assms] by blast
  obtain L' where r: "recover_jobs clk 0 ?js L = Inr L'"
    and out: "\<And>k. k \<notin> j_owner_id ` set ?js \<Longrightarrow> tbl_get (l_jobs L') k = tbl_get (l_jobs L) k"
    and in': "\<And>j. j \<in> set ?js \<Longrightarrow> \<exists>j'. tbl_get (l_jobs L') (j_owner_id j) = Some j' \<and> recovered j j'"
    using recover_jobs_effect [OF keyed_list_distinct [OF k] get, where clk = clk and n = 0] by metis
  have "rel_option recovered (tbl_get (l_jobs L) o1) (tbl_get (l_jobs L') o1)" for o1
  proof (cases "tbl_get (l_jobs L) o1")
    case None
    then have "o1 \<notin> j_owner_id ` set ?js" using get by force
    with None out show ?thesis by simp
  next
    case (Some j)
    then have "j \<in> set ?js" "j_owner_id j = o1" using keyed_get [OF k] by (auto intro: keyed_get_list)
    with Some in' show ?thesis by fastforce
  qed
  with r show ?thesis by (simp add: recover_coordination_jobs_def get_coordination_job_def)
qed

end
