(* ===== verification/LedgerDeliveries.thy ===== *)
theory LedgerDeliveries
  imports Ledger
begin

text \<open>
  Deliveries of \<open>TaskLedger\<close> (supervision.py): creation under a dedupe marker, the leased claim,
  its acknowledgement in time or after the lease has expired, and cancellation.

  \<open>replace_valid\<close> shows that the constructor accepts every changed copy these operations make of a
  valid record, so the changed record is written directly.
\<close>

section \<open>Operations\<close>

definition create_delivery_once ::
  "TaskLedger \<Rightarrow> clock \<Rightarrow> string \<Rightarrow> DeliveryRecord \<Rightarrow> (DeliveryRecord option \<times> TaskLedger) res" where
  "create_delivery_once L clk marker_key delivery =
     (case marker_value L marker_key of
        Some v \<Rightarrow> Inr (tbl_get (l_deliveries L) v, L)
      | None \<Rightarrow>
          (case tbl_insert (l_deliveries L) (d_delivery_id delivery) (d_owner_id delivery) delivery (clk 0) of
             Inl e \<Rightarrow> Inl e
           | Inr t' \<Rightarrow> Inr (Some delivery,
               add_marker marker_key (d_delivery_id delivery) (clk 1) (L\<lparr>l_deliveries := t'\<rparr>))))"

definition get_delivery :: "TaskLedger \<Rightarrow> string \<Rightarrow> DeliveryRecord option" where
  "get_delivery L k = tbl_get (l_deliveries L) k"

definition list_deliveries :: "TaskLedger \<Rightarrow> string option \<Rightarrow> DeliveryRecord list" where
  "list_deliveries L own = tbl_list (l_deliveries L) own"

definition release_claim :: "DeliveryState \<Rightarrow> DeliveryRecord \<Rightarrow> DeliveryRecord" where
  "release_claim st d = d\<lparr>d_state := st, d_claim_token := [], d_claim_expires_at_ms := None\<rparr>"

text \<open>\<open>claim_expires_at_ms <= ?\<close> is not true of a null.\<close>

definition claim_expired :: "int \<Rightarrow> DeliveryRecord \<Rightarrow> bool" where
  "claim_expired timestamp d \<longleftrightarrow>
     d_state d = DClaimed \<and>
     (case d_claim_expires_at_ms d of None \<Rightarrow> False | Some e \<Rightarrow> e \<le> timestamp)"

definition expired_claims :: "TaskLedger \<Rightarrow> int \<Rightarrow> string \<Rightarrow> DeliveryRecord list" where
  "expired_claims L timestamp own =
     map row_payload
       (filter (\<lambda>r. row_owner r = own \<and> claim_expired timestamp (row_payload r)) (l_deliveries L))"

definition requeue_expired_delivery_claims ::
  "TaskLedger \<Rightarrow> clock \<Rightarrow> string \<Rightarrow> nat \<times> TaskLedger" where
  "requeue_expired_delivery_claims L clk own =
     (let expired = expired_claims L (clk 0) own
      in (length expired,
          L\<lparr>l_deliveries := put_all d_delivery_id d_owner_id (release_claim DPending) clk 1 expired
               (l_deliveries L)\<rparr>))"

text \<open>\<open>ORDER BY CASE timing WHEN 'interrupt' THEN 0 ELSE 1 END, updated_at_ms\<close>\<close>

definition claim_order :: "DeliveryRecord row list \<Rightarrow> DeliveryRecord row list" where
  "claim_order rows =
     sort_key (\<lambda>r. if d_timing (row_payload r) = ''interrupt'' then 0 else (1 :: nat))
       (sort_key row_updated rows)"

definition claimable :: "TaskLedger \<Rightarrow> string \<Rightarrow> DeliveryRecord row list" where
  "claimable L own =
     claim_order (filter (\<lambda>r. row_owner r = own \<and> d_state (row_payload r) = DPending) (l_deliveries L))"

definition claimed_copy :: "string \<Rightarrow> int \<Rightarrow> DeliveryRecord \<Rightarrow> DeliveryRecord" where
  "claimed_copy token expires d =
     d\<lparr>d_state := DClaimed, d_claim_token := token, d_claim_expires_at_ms := Some expires,
       d_attempts := d_attempts d + 1\<rparr>"

text \<open>
  \<open>token\<close> is the \<open>new_id\<close> of the claim.  The requeue reads the clock once and once per row it puts
  back; the claim's own readings follow.
\<close>

definition claim_delivery ::
  "TaskLedger \<Rightarrow> clock \<Rightarrow> string \<Rightarrow> int \<Rightarrow> string \<Rightarrow> (DeliveryRecord option \<times> TaskLedger) res" where
  "claim_delivery L clk own lease_ms token =
     (if lease_ms < 1 then Inl (ValueError ''delivery lease must be positive'')
      else
        let (count, L1) = requeue_expired_delivery_claims L clk own;
            timestamp = clk (count + 1)
        in (case claimable L1 own of
              [] \<Rightarrow> Inr (None, L1)
            | r # _ \<Rightarrow>
                (let claimed = claimed_copy token (timestamp + lease_ms) (row_payload r);
                     (t', rowcount) = tbl_update (l_deliveries L1)
                       (\<lambda>x. row_id x = d_delivery_id claimed \<and> d_state (row_payload x) = DPending)
                       claimed (clk (count + 2))
                 in Inr (if rowcount = 1 then Some claimed else None, L1\<lparr>l_deliveries := t'\<rparr>))))"

definition finished_copy :: "bool \<Rightarrow> int \<Rightarrow> DeliveryRecord \<Rightarrow> DeliveryRecord" where
  "finished_copy delivered now d =
     (release_claim (if delivered then DDelivered else DPending) d)
       \<lparr>d_delivered_at_ms := (if delivered then Some now else None)\<rparr>"

definition put_finished ::
  "TaskLedger \<Rightarrow> clock \<Rightarrow> bool \<Rightarrow> DeliveryRecord \<Rightarrow> DeliveryRecord \<times> TaskLedger" where
  "put_finished L clk delivered current =
     (let updated = finished_copy delivered (clk 0) current
      in (updated, L\<lparr>l_deliveries := tbl_put (l_deliveries L) (d_delivery_id updated)
            (d_owner_id updated) updated (clk (if delivered then 1 else 0))\<rparr>))"

definition finish_delivery ::
  "TaskLedger \<Rightarrow> clock \<Rightarrow> string \<Rightarrow> string \<Rightarrow> bool \<Rightarrow> (DeliveryRecord \<times> TaskLedger) res" where
  "finish_delivery L clk delivery_id claim_token delivered =
     (case tbl_get (l_deliveries L) delivery_id of
        None \<Rightarrow> Inl (KeyError (''unknown delivery: '' @ delivery_id))
      | Some current \<Rightarrow>
          (if d_state current \<noteq> DClaimed \<or> d_claim_token current \<noteq> claim_token
           then Inl (ValueError ''delivery claim does not match'')
           else Inr (put_finished L clk delivered current)))"

definition finish_expired_delivery ::
  "TaskLedger \<Rightarrow> clock \<Rightarrow> string \<Rightarrow> int \<Rightarrow> bool \<Rightarrow> (DeliveryRecord \<times> TaskLedger) res" where
  "finish_expired_delivery L clk delivery_id claim_attempt delivered =
     (if claim_attempt < 1 then Inl (ValueError ''delivery claim attempt must be positive'')
      else (case tbl_get (l_deliveries L) delivery_id of
        None \<Rightarrow> Inl (KeyError (''unknown delivery: '' @ delivery_id))
      | Some current \<Rightarrow>
          (if d_state current \<noteq> DPending \<or> d_claim_token current \<noteq> [] \<or> d_attempts current \<noteq> claim_attempt
           then Inl (ValueError ''expired delivery claim does not match'')
           else Inr (put_finished L clk delivered current))))"

definition cancel_interaction_deliveries :: "TaskLedger \<Rightarrow> clock \<Rightarrow> string \<Rightarrow> TaskLedger" where
  "cancel_interaction_deliveries L clk interaction_id =
     (let sel = map row_payload (filter (\<lambda>r. d_interaction_id (row_payload r) = Some interaction_id \<and>
            d_state (row_payload r) \<in> {DPending, DClaimed}) (l_deliveries L))
      in L\<lparr>l_deliveries := put_all d_delivery_id d_owner_id (release_claim DCancelled) clk 0 sel
             (l_deliveries L)\<rparr>)"

section \<open>The delivery broker\<close>

text \<open>\<open>DeliveryBroker\<close>: the ledger with a lease length.\<close>

definition enqueue ::
  "TaskLedger \<Rightarrow> clock \<Rightarrow> string \<Rightarrow> string \<Rightarrow> string option \<Rightarrow> string option \<Rightarrow> string option \<Rightarrow>
   string \<Rightarrow> string \<Rightarrow> string \<Rightarrow> string \<Rightarrow> string \<Rightarrow> (DeliveryRecord option \<times> TaskLedger) res" where
  "enqueue L clk new_delivery_id own task_id event_id interaction_id timing topic speech_hint dedupe_key
     status =
     (if timing = ''hold'' then Inr (None, L)
      else if timing \<notin> {''safe_pause'', ''interrupt''} then Inl (ValueError ''invalid deliverable timing'')
      else bindE (DeliveryRecord_init
        \<lparr>d_delivery_id = new_delivery_id, d_owner_id = own, d_task_id = task_id, d_event_id = event_id,
         d_interaction_id = interaction_id, d_timing = timing, d_topic = topic,
         d_speech_hint = speech_hint, d_status = status, d_state = DPending, d_claim_token = [],
         d_claim_expires_at_ms = None, d_attempts = 0, d_created_at_ms = clk 0,
         d_delivered_at_ms = None\<rparr>)
        (\<lambda>delivery. create_delivery_once L (\<lambda>i. clk (i + 1)) dedupe_key delivery))"

definition acknowledge ::
  "TaskLedger \<Rightarrow> clock \<Rightarrow> string \<Rightarrow> string \<Rightarrow> bool \<Rightarrow> (DeliveryRecord \<times> TaskLedger) res" where
  "acknowledge L clk delivery_id claim_token delivered =
     finish_delivery L clk delivery_id claim_token delivered"

text \<open>Only a \<open>ValueError\<close> is caught; a failed \<open>acknowledge\<close> has read no clock.\<close>

definition acknowledge_consumed ::
  "TaskLedger \<Rightarrow> clock \<Rightarrow> string \<Rightarrow> string \<Rightarrow> int \<Rightarrow> bool \<Rightarrow> (DeliveryRecord \<times> TaskLedger) res" where
  "acknowledge_consumed L clk delivery_id claim_token claim_attempt delivered =
     (case acknowledge L clk delivery_id claim_token delivered of
        Inl (ValueError _) \<Rightarrow> finish_expired_delivery L clk delivery_id claim_attempt delivered
      | r \<Rightarrow> r)"

section \<open>Laws\<close>

lemma replace_valid:
  "DeliveryRecord_init d = Inr d \<Longrightarrow> DeliveryRecord_init (release_claim st d) = Inr (release_claim st d)"
  "DeliveryRecord_init d = Inr d \<Longrightarrow> DeliveryRecord_init (claimed_copy tk e d) = Inr (claimed_copy tk e d)"
  "DeliveryRecord_init d = Inr d \<Longrightarrow> DeliveryRecord_init (finished_copy b n d) = Inr (finished_copy b n d)"
  by (simp_all add: DeliveryRecord_init_def DeliveryRecord_checks_def release_claim_def claimed_copy_def
      finished_copy_def)

lemma release_claim_fields [simp]:
  "d_delivery_id (release_claim st d) = d_delivery_id d"
  "d_owner_id (release_claim st d) = d_owner_id d"
  "d_state (release_claim st d) = st"
  "d_attempts (release_claim st d) = d_attempts d"
  "d_claim_token (release_claim st d) = []"
  "d_claim_expires_at_ms (release_claim st d) = None"
  by (simp_all add: release_claim_def)

lemma claimed_copy_fields [simp]:
  "d_delivery_id (claimed_copy tk e d) = d_delivery_id d"
  "d_owner_id (claimed_copy tk e d) = d_owner_id d"
  "d_state (claimed_copy tk e d) = DClaimed"
  "d_claim_token (claimed_copy tk e d) = tk"
  "d_claim_expires_at_ms (claimed_copy tk e d) = Some e"
  "d_attempts (claimed_copy tk e d) = d_attempts d + 1"
  by (simp_all add: claimed_copy_def)

lemma finished_copy_fields [simp]:
  "d_delivery_id (finished_copy b n d) = d_delivery_id d"
  "d_owner_id (finished_copy b n d) = d_owner_id d"
  "d_state (finished_copy b n d) = (if b then DDelivered else DPending)"
  "d_claim_token (finished_copy b n d) = []"
  "d_claim_expires_at_ms (finished_copy b n d) = None"
  "d_attempts (finished_copy b n d) = d_attempts d"
  by (simp_all add: finished_copy_def)

text \<open>Rows are stored under their delivery's id and owner.\<close>

definition deliveries_keyed :: "TaskLedger \<Rightarrow> bool" where
  "deliveries_keyed L \<longleftrightarrow> keyed d_delivery_id (l_deliveries L) \<and>
     (\<forall>r \<in> set (l_deliveries L). row_owner r = d_owner_id (row_payload r))"

text \<open>A lookup after the requeue: an expired claim of the owner is pending again.\<close>

lemma requeue_get:
  assumes "deliveries_keyed L"
  shows "get_delivery (snd (requeue_expired_delivery_claims L clk own)) k =
    map_option (\<lambda>d. if d_owner_id d = own \<and> claim_expired (clk 0) d then release_claim DPending d else d)
      (get_delivery L k)"
proof -
  let ?t = "l_deliveries L" and ?P = "\<lambda>d. d_owner_id d = own \<and> claim_expired (clk 0) d"
  have kd: "keyed d_delivery_id ?t" and ow: "\<And>r. r \<in> set ?t \<Longrightarrow> row_owner r = d_owner_id (row_payload r)"
    using assms by (auto simp: deliveries_keyed_def)
  have ids: "map d_delivery_id (expired_claims L (clk 0) own) =
      map row_id (filter (\<lambda>r. row_owner r = own \<and> claim_expired (clk 0) (row_payload r)) ?t)"
    using kd by (auto simp: keyed_def expired_claims_def)
  have "distinct (map d_delivery_id (expired_claims L (clk 0) own))"
    unfolding ids using kd by (simp add: keyed_def tbl_wf_def distinct_map_filter)
  moreover have "v \<in> set (expired_claims L (clk 0) own) \<longleftrightarrow> v \<in> set (tbl_list ?t None) \<and> ?P v" for v
    using ow by (auto simp: expired_claims_def set_tbl_list)
  ultimately show ?thesis
    using get_put_all_selected [OF kd, where P = ?P]
    by (simp add: requeue_expired_delivery_claims_def get_delivery_def Let_def)
qed

lemma set_put_all:
  "r \<in> set (put_all key own f clk n vs t) \<Longrightarrow>
   r \<in> set t \<or> (\<exists>v \<in> set vs. row_payload r = f v \<and> row_owner r = own v \<and> row_id r = key v)"
  by (induction vs arbitrary: n t) (fastforce simp: tbl_put_def tbl_del_def)+

lemma requeue_keyed:
  "deliveries_keyed L \<Longrightarrow> deliveries_keyed (snd (requeue_expired_delivery_claims L clk own))"
  by (auto simp: deliveries_keyed_def requeue_expired_delivery_claims_def Let_def
      intro!: keyed_put_all dest: set_put_all)

lemma claimable_mem:
  "r \<in> set (claimable L own) \<longleftrightarrow>
   r \<in> set (l_deliveries L) \<and> row_owner r = own \<and> d_state (row_payload r) = DPending"
  by (auto simp: claimable_def claim_order_def)

abbreviation requeued :: "TaskLedger \<Rightarrow> clock \<Rightarrow> string \<Rightarrow> TaskLedger" where
  "requeued L clk own \<equiv> snd (requeue_expired_delivery_claims L clk own)"

text \<open>What a successful claim does, in terms of the ledger after the requeue.\<close>

lemma claim_delivery_SomeE:
  assumes "claim_delivery L clk own lease tok = Inr (Some d, L')" and ok: "deliveries_keyed L"
  obtains r e where "r \<in> set (l_deliveries (requeued L clk own))"
    and "claimable (requeued L clk own) own = r # tl (claimable (requeued L clk own) own)"
    and "d_owner_id (row_payload r) = own" and "d_state (row_payload r) = DPending"
    and "d = claimed_copy tok e (row_payload r)"
    and "\<And>k. get_delivery L' k =
      (if k = d_delivery_id d then Some d else get_delivery (requeued L clk own) k)"
    and "L' = (requeued L clk own)\<lparr>l_deliveries := l_deliveries L'\<rparr>"
proof -
  obtain count L1 where rq: "requeue_expired_delivery_claims L clk own = (count, L1)"
    by (cases "requeue_expired_delivery_claims L clk own")
  then have L1: "requeued L clk own = L1" by simp
  from assms(1) rq have lease: "1 \<le> lease"
    by (auto simp: claim_delivery_def split: if_splits)
  with assms(1) rq obtain r rest where c: "claimable L1 own = r # rest"
    by (auto simp: claim_delivery_def split: list.splits)
  define e where "e = clk (count + 1) + lease"
  define u where "u = tbl_update (l_deliveries L1)
      (\<lambda>x. row_id x = d_delivery_id (row_payload r) \<and> d_state (row_payload x) = DPending)
      (claimed_copy tok e (row_payload r)) (clk (count + 2))"
  from assms(1) rq c lease have one: "snd u = 1" and d: "d = claimed_copy tok e (row_payload r)"
    and L': "L' = L1\<lparr>l_deliveries := fst u\<rparr>"
    by (auto simp: claim_delivery_def e_def u_def Let_def split: prod.splits if_splits)
  have k1: "deliveries_keyed L1" using ok requeue_keyed [of L clk own] by (simp add: L1)
  have "r \<in> set (claimable L1 own)" by (simp add: c)
  then have r: "r \<in> set (l_deliveries L1)" "row_owner r = own" "d_state (row_payload r) = DPending"
    by (simp_all add: claimable_mem)
  with k1 have own: "d_owner_id (row_payload r) = own" by (auto simp: deliveries_keyed_def)
  have wf: "tbl_wf (l_deliveries L1)" using k1 keyed_wf by (auto simp: deliveries_keyed_def)
  have "get_delivery L' k = (if k = d_delivery_id d then Some d else get_delivery L1 k)" for k
    using tbl_get_update [OF wf] one by (simp add: get_delivery_def L' u_def d)
  moreover have "L' = L1\<lparr>l_deliveries := l_deliveries L'\<rparr>" by (simp add: L')
  ultimately show thesis
    using that [of r e, unfolded L1, OF r(1) _ own r(3) d] c by simp
qed

lemma claim_keyed:
  assumes ok: "deliveries_keyed L" and c: "claim_delivery L clk own lease tok = Inr (x, L')"
  shows "deliveries_keyed L'"
proof -
  obtain count L1 where rq: "requeue_expired_delivery_claims L clk own = (count, L1)"
    by (cases "requeue_expired_delivery_claims L clk own")
  have k1: "deliveries_keyed L1" using requeue_keyed [OF ok, of clk own] rq by simp
  show ?thesis
  proof (cases "claimable L1 own")
    case Nil
    with c rq k1 show ?thesis by (auto simp: claim_delivery_def split: if_splits)
  next
    case (Cons r rest)
    have r: "r \<in> set (l_deliveries L1)" "row_owner r = own"
      using claimable_mem [of r L1 own] Cons by simp_all
    define Q :: "DeliveryRecord row \<Rightarrow> bool" where "Q y \<longleftrightarrow> d_state (row_payload y) = DPending" for y
    define d where "d = claimed_copy tok (clk (count + 1) + lease) (row_payload r)"
    have L': "L' = L1\<lparr>l_deliveries := fst (tbl_update (l_deliveries L1)
        (\<lambda>y. row_id y = d_delivery_id d \<and> Q y) d (clk (count + 2)))\<rparr>"
      using c rq Cons by (auto simp: claim_delivery_def d_def Q_def Let_def split: prod.splits if_splits)
    have "keyed d_delivery_id (l_deliveries L')"
      using k1 by (simp add: L' deliveries_keyed_def keyed_update)
    moreover have "row_owner y = own" if "y \<in> set (l_deliveries L1)" "row_id y = d_delivery_id d" for y
    proof -
      have "row_id r = d_delivery_id d" using k1 r by (simp add: d_def deliveries_keyed_def keyed_def)
      with that r k1 have "y = r"
        unfolding deliveries_keyed_def keyed_def tbl_wf_def distinct_map inj_on_def by metis
      with r show ?thesis by simp
    qed
    moreover have "d_owner_id d = own" using k1 r by (auto simp: d_def deliveries_keyed_def)
    ultimately show ?thesis
      using k1 by (auto simp: L' deliveries_keyed_def tbl_update_def)
  qed
qed

lemma row_of_delivery:
  "deliveries_keyed L \<Longrightarrow> get_delivery L k = Some d \<Longrightarrow>
   \<exists>r \<in> set (l_deliveries L). row_payload r = d \<and> row_owner r = d_owner_id d \<and> d_delivery_id d = k"
  by (auto simp: deliveries_keyed_def get_delivery_def keyed_def dest!: tbl_get_SomeD)

lemma get_of_row:
  "deliveries_keyed L \<Longrightarrow> r \<in> set (l_deliveries L) \<Longrightarrow>
   get_delivery L (d_delivery_id (row_payload r)) = Some (row_payload r)"
  by (simp add: deliveries_keyed_def get_delivery_def keyed_row_get)

text \<open>The claim reaches a delivery exactly when one of the owner's is pending after the requeue.\<close>

lemma claim_delivery_progress:
  assumes ok: "deliveries_keyed L" and lease: "1 \<le> lease"
    and c: "claimable (snd (requeue_expired_delivery_claims L clk own)) own \<noteq> []"
  shows "\<exists>d L'. claim_delivery L clk own lease tok = Inr (Some d, L')"
proof -
  obtain count L1 where rq: "requeue_expired_delivery_claims L clk own = (count, L1)"
    by (cases "requeue_expired_delivery_claims L clk own")
  with c obtain r rest where r: "claimable L1 own = r # rest" by (cases "claimable L1 own") auto
  then have mem: "r \<in> set (l_deliveries L1)" "d_state (row_payload r) = DPending"
    using claimable_mem [of r L1 own] by simp_all
  have "deliveries_keyed L1" using requeue_keyed [OF ok, of clk own] rq by simp
  then have kd: "tbl_wf (l_deliveries L1)" "row_id r = d_delivery_id (row_payload r)"
    using mem keyed_wf by (auto simp: deliveries_keyed_def keyed_def)
  have "filter (\<lambda>x. row_id x = row_id r \<and> d_state (row_payload x) = DPending) t = [r]"
    if "tbl_wf t" "r \<in> set t" for t
    using that mem(2)
  proof (induction t)
    case (Cons a t)
    then show ?case
      by (cases "a = r") (auto simp: tbl_wf_def filter_empty_conv rev_image_eqI)
  qed simp
  from this [OF kd(1) mem(1)] kd(2) rq r lease show ?thesis
    by (simp add: claim_delivery_def Let_def tbl_update_def)
qed

section \<open>Properties\<close>

text \<open>C2: A claim is a lease.  While it has not expired, no other claim of the owner returns that
  delivery and the record with its token stays as it was; the token acknowledges it.\<close>

theorem claimed_delivery_is_exclusive:
  assumes ok: "deliveries_keyed L"
    and claim: "claim_delivery L clk own lease tok = Inr (Some d, L')"
    and alive: "\<not> claim_expired (clk' 0) d"
    and again: "claim_delivery L' clk' own lease' tok' = Inr (Some d', L'')"
  shows "d_delivery_id d' \<noteq> d_delivery_id d \<and>
    get_delivery L'' (d_delivery_id d) = Some d \<and>
    (\<exists>done L3. finish_delivery L'' clk'' (d_delivery_id d) tok True = Inr (done, L3) \<and>
       get_delivery L3 (d_delivery_id d) = Some done \<and> d_state done = DDelivered)"
proof -
  have keyed': "deliveries_keyed L'" using ok claim by (rule claim_keyed)
  obtain r :: "DeliveryRecord row" and e where d: "d = claimed_copy tok e (row_payload r)"
    and L': "\<And>k. get_delivery L' k =
      (if k = d_delivery_id d then Some d else get_delivery (requeued L clk own) k)"
    using claim_delivery_SomeE [OF claim ok] by blast
  from L' have here: "get_delivery L' (d_delivery_id d) = Some d" by simp
  define L1 where "L1 = requeued L' clk' own"
  obtain r' e' where r': "r' \<in> set (l_deliveries L1)" "d_state (row_payload r') = DPending"
    and d': "d' = claimed_copy tok' e' (row_payload r')"
    and L'': "\<And>k. get_delivery L'' k = (if k = d_delivery_id d' then Some d' else get_delivery L1 k)"
    unfolding L1_def using claim_delivery_SomeE [OF again keyed'] by blast
  have still: "get_delivery L1 (d_delivery_id d) = Some d"
    using requeue_get [OF keyed'] here alive by (simp add: L1_def)
  have "get_delivery L1 (d_delivery_id d') = Some (row_payload r')"
    using get_of_row [OF _ r'(1)] requeue_keyed [OF keyed'] d' by (simp add: L1_def)
  moreover have "d_state d = DClaimed" by (simp add: d)
  ultimately have ne: "d_delivery_id d' \<noteq> d_delivery_id d"
    using still r'(2) by auto
  with L'' still have "get_delivery L'' (d_delivery_id d) = Some d" by simp
  with ne d show ?thesis
    by (auto simp: finish_delivery_def put_finished_def get_delivery_def Let_def)
qed

text \<open>No pending delivery waits behind an idle consumer: with a positive lease a claim succeeds
  whenever the owner has a delivery that is pending or whose claim has expired, and it returns an
  \<open>interrupt\<close> delivery whenever the owner has such an \<open>interrupt\<close> delivery.\<close>

theorem claim_delivery_takes_waiting_work:
  assumes ok: "deliveries_keyed L" and lease: "1 \<le> lease"
    and w: "get_delivery L k = Some w" "d_owner_id w = own"
    and waiting: "d_state w = DPending \<or> claim_expired (clk 0) w"
  shows "\<exists>d L'. claim_delivery L clk own lease tok = Inr (Some d, L') \<and>
    d_state d = DClaimed \<and> d_owner_id d = own \<and> d_claim_token d = tok \<and>
    get_delivery L' (d_delivery_id d) = Some d \<and>
    (d_timing w = ''interrupt'' \<longrightarrow> d_timing d = ''interrupt'')"
proof -
  define L1 where "L1 = requeued L clk own"
  define w1 where "w1 = (if claim_expired (clk 0) w then release_claim DPending w else w)"
  have k1: "deliveries_keyed L1" using ok by (simp add: L1_def requeue_keyed)
  have w1: "d_state w1 = DPending" "d_owner_id w1 = own" "d_timing w1 = d_timing w"
    using w waiting by (auto simp: w1_def release_claim_def)
  have "get_delivery L1 k = Some w1"
    using requeue_get [OF ok] w by (simp add: L1_def w1_def)
  with k1 w1 obtain rw where rw: "rw \<in> set (claimable L1 own)" "row_payload rw = w1"
    by (auto simp: claimable_mem dest!: row_of_delivery)
  then have "claimable L1 own \<noteq> []" by auto
  with ok lease obtain d L' where c: "claim_delivery L clk own lease tok = Inr (Some d, L')"
    unfolding L1_def using claim_delivery_progress by blast
  obtain r e where r: "claimable L1 own = r # tl (claimable L1 own)"
    and own: "d_owner_id (row_payload r) = own"
    and d: "d = claimed_copy tok e (row_payload r)"
    and L': "\<And>k. get_delivery L' k = (if k = d_delivery_id d then Some d else get_delivery L1 k)"
    unfolding L1_def using claim_delivery_SomeE [OF c ok] by blast
  from L' have get: "get_delivery L' (d_delivery_id d) = Some d" by simp
  have "sorted (map (\<lambda>r. if d_timing (row_payload r) = ''interrupt'' then 0 else (1 :: nat)) (claimable L1 own))"
    by (simp add: claimable_def claim_order_def)
  with r have first: "(if d_timing (row_payload r) = ''interrupt'' then 0 else (1 :: nat)) \<le>
      (if d_timing (row_payload x) = ''interrupt'' then 0 else 1)" if "x \<in> set (claimable L1 own)" for x
    using that by (metis (no_types, lifting) list.simps(9) order_refl set_ConsD sorted_simps(2) image_eqI list.set_map)
  have "d_timing w1 = ''interrupt'' \<longrightarrow> d_timing (row_payload r) = ''interrupt''"
    using first [OF rw(1)] rw(2) by (auto split: if_splits)
  moreover have "d_timing d = d_timing (row_payload r)" by (simp add: d claimed_copy_def)
  ultimately show ?thesis using w1(3) d own get c by auto
qed

text \<open>An output whose lease expired while it was being spoken is still committed exactly when
  nobody claimed it again: after the requeue a late acknowledgement by attempt number delivers it,
  and after a second claim the same late acknowledgement raises and the ledger keeps the new claim.\<close>

theorem late_acknowledgement:
  assumes ok: "deliveries_keyed L"
    and d: "get_delivery L k = Some d" "d_state d = DClaimed" "d_owner_id d = own" "1 \<le> d_attempts d"
    and expired: "claim_expired (clk 0) d"
    and rq: "requeue_expired_delivery_claims L clk own = (n, L1)"
  shows "(\<exists>done L2. acknowledge_consumed L1 clk1 k (d_claim_token d) (d_attempts d) True = Inr (done, L2) \<and>
      d_state done = DDelivered \<and> get_delivery L2 k = Some done) \<and>
    (\<forall>lease tok d' L2. claim_delivery L1 clk1 own lease tok = Inr (Some d', L2) \<and>
       d_delivery_id d' = k \<and> tok \<noteq> d_claim_token d \<longrightarrow>
       (\<exists>msg. acknowledge_consumed L2 clk2 k (d_claim_token d) (d_attempts d) True = Inl (ValueError msg)))"
proof -
  have L1: "get_delivery L1 k = Some (release_claim DPending d)"
    using requeue_get [OF ok, of clk own k] rq d expired by simp
  have k: "d_delivery_id d = k"
    using row_of_delivery [OF ok d(1)] by auto
  have now: "\<exists>done L2. acknowledge_consumed L1 clk1 k (d_claim_token d) (d_attempts d) True = Inr (done, L2) \<and>
      d_state done = DDelivered \<and> get_delivery L2 k = Some done"
    using L1 d(4) k
    by (simp add: acknowledge_consumed_def acknowledge_def finish_delivery_def finish_expired_delivery_def
        put_finished_def Let_def get_delivery_def)
  have "\<exists>msg. acknowledge_consumed L2 clk2 k (d_claim_token d) (d_attempts d) True = Inl (ValueError msg)"
    if c: "claim_delivery L1 clk1 own lease tok = Inr (Some d', L2)" and k': "d_delivery_id d' = k"
      and tok: "tok \<noteq> d_claim_token d" for lease tok d' L2
  proof -
    have "deliveries_keyed L1" using requeue_keyed [OF ok, of clk own] rq by simp
    from claim_delivery_SomeE [OF c this] obtain r :: "DeliveryRecord row" and e where
        "d' = claimed_copy tok e (row_payload r)"
      and "\<And>j. get_delivery L2 j =
        (if j = d_delivery_id d' then Some d' else get_delivery (requeued L1 clk1 own) j)"
      by blast
    with k' tok show ?thesis
      by (auto simp: acknowledge_consumed_def acknowledge_def finish_delivery_def
          finish_expired_delivery_def get_delivery_def)
  qed
  with now show ?thesis by blast
qed

end
