(* ===== verification/LedgerCommands.thy ===== *)
theory LedgerCommands
  imports Ledger
begin

text \<open>
  The outbox of commands to worker providers in \<open>TaskLedger\<close> (supervision.py): a command is stored
  once under its message id, its delivery state is updated as it is sent, and commands that lost
  their run or their interaction are closed.
\<close>

section \<open>Operations\<close>

definition enqueue_provider_command ::
  "TaskLedger \<Rightarrow> clock \<Rightarrow> ProviderCommandRecord \<Rightarrow> (ProviderCommandRecord \<times> TaskLedger) res" where
  "enqueue_provider_command L clk command =
     (case tbl_get (l_commands L) (c_command_id command) of
        Some existing \<Rightarrow>
          (if c_owner_id existing \<noteq> c_owner_id command \<or> c_task_id existing \<noteq> c_task_id command \<or>
              c_run_id existing \<noteq> c_run_id command \<or> c_message existing \<noteq> c_message command
           then Inl (ValueError (''provider command collision: '' @ c_command_id command))
           else Inr (existing, L))
      | None \<Rightarrow>
          (case tbl_insert (l_commands L) (c_command_id command) (c_owner_id command) command (clk 0) of
             Inl e \<Rightarrow> Inl e
           | Inr t' \<Rightarrow> Inr (command, L\<lparr>l_commands := t'\<rparr>)))"

definition get_provider_command :: "TaskLedger \<Rightarrow> string \<Rightarrow> ProviderCommandRecord option" where
  "get_provider_command L k = tbl_get (l_commands L) k"

definition list_provider_commands ::
  "TaskLedger \<Rightarrow> string option \<Rightarrow> string option \<Rightarrow> ProviderCommandRecord list" where
  "list_provider_commands L own run_id =
     filter (\<lambda>c. run_id = None \<or> run_id = Some (c_run_id c)) (tbl_list (l_commands L) own)"

definition command_state_of :: "string \<Rightarrow> CommandState option" where
  "command_state_of s = map_of
     [(''pending'', CPending), (''sending'', CSending), (''sent'', CSent), (''failed'', CFailed),
      (''cancelled'', CCancelled)] s"

definition command_copy :: "CommandState \<Rightarrow> string \<Rightarrow> int \<Rightarrow> ProviderCommandRecord \<Rightarrow> ProviderCommandRecord" where
  "command_copy state error now c =
     c\<lparr>c_state := state,
       c_attempts := (if state = CSending then c_attempts c + 1 else c_attempts c),
       c_error := error,
       c_sent_at_ms := (if state = CSent then Some now else c_sent_at_ms c)\<rparr>"

text \<open>
  \<open>replace_command_valid\<close> shows that the constructor accepts the changed copies of a valid record,
  so they are written directly.
\<close>

definition set_provider_command_state ::
  "TaskLedger \<Rightarrow> clock \<Rightarrow> string \<Rightarrow> string \<Rightarrow> string \<Rightarrow> (ProviderCommandRecord \<times> TaskLedger) res" where
  "set_provider_command_state L clk command_id state error =
     (case command_state_of state of
        None \<Rightarrow> Inl (ValueError ''invalid provider command state'')
      | Some st \<Rightarrow>
          (case tbl_get (l_commands L) command_id of
             None \<Rightarrow> Inl (KeyError (''unknown provider command: '' @ command_id))
           | Some current \<Rightarrow>
               (let updated = command_copy st error (clk 0) current
                in Inr (updated, L\<lparr>l_commands := tbl_put (l_commands L) (c_command_id updated)
                     (c_owner_id updated) updated (clk (if st = CSent then 1 else 0))\<rparr>))))"

text \<open>The loops over \<open>self._list("provider_command")\<close>.\<close>

definition rewrite_commands ::
  "TaskLedger \<Rightarrow> clock \<Rightarrow> (ProviderCommandRecord \<Rightarrow> bool) \<Rightarrow>
   (ProviderCommandRecord \<Rightarrow> ProviderCommandRecord) \<Rightarrow> TaskLedger" where
  "rewrite_commands L clk P f =
     L\<lparr>l_commands := put_all c_command_id c_owner_id f clk 0
         (filter P (tbl_list (l_commands L) None)) (l_commands L)\<rparr>"

definition reset_sending_provider_commands :: "TaskLedger \<Rightarrow> clock \<Rightarrow> TaskLedger" where
  "reset_sending_provider_commands L clk =
     rewrite_commands L clk (\<lambda>c. c_state c = CSending) (\<lambda>c. c\<lparr>c_state := CPending\<rparr>)"

definition fail_provider_commands_for_run :: "TaskLedger \<Rightarrow> clock \<Rightarrow> string \<Rightarrow> string \<Rightarrow> TaskLedger" where
  "fail_provider_commands_for_run L clk run_id error =
     rewrite_commands L clk (\<lambda>c. c_run_id c = run_id \<and> c_state c \<in> {CPending, CSending})
       (\<lambda>c. c\<lparr>c_state := CFailed, c_error := error\<rparr>)"

definition cancel_provider_commands_for_interaction :: "TaskLedger \<Rightarrow> clock \<Rightarrow> string \<Rightarrow> TaskLedger" where
  "cancel_provider_commands_for_interaction L clk interaction_id =
     rewrite_commands L clk
       (\<lambda>c. wm_interaction_id (c_message c) = Some interaction_id \<and> c_state c \<in> {CPending, CSending})
       (\<lambda>c. c\<lparr>c_state := CCancelled, c_error := ''interaction invalidated''\<rparr>)"

section \<open>Laws\<close>

definition commands_keyed :: "TaskLedger \<Rightarrow> bool" where
  "commands_keyed L \<longleftrightarrow> own_keyed c_command_id c_owner_id (l_commands L)"

lemma replace_command_valid:
  assumes "ProviderCommandRecord_init c = Inr c"
  shows "ProviderCommandRecord_init (command_copy st err now c) = Inr (command_copy st err now c)"
    and "ProviderCommandRecord_init (c\<lparr>c_state := st\<rparr>) = Inr (c\<lparr>c_state := st\<rparr>)"
    and "ProviderCommandRecord_init (c\<lparr>c_state := st, c_error := err\<rparr>) = Inr (c\<lparr>c_state := st, c_error := err\<rparr>)"
  using assms
  by (simp_all add: ProviderCommandRecord_init_def required_def command_copy_def split: if_splits)

lemma rewrite_commands_get:
  "commands_keyed L \<Longrightarrow> get_provider_command (rewrite_commands L clk P f) k =
     map_option (\<lambda>c. if P c then f c else c) (get_provider_command L k)"
  unfolding get_provider_command_def rewrite_commands_def commands_keyed_def
  by (simp add: put_all_list_selected)

lemma rewrite_commands_keyed:
  "commands_keyed L \<Longrightarrow> (\<And>c. c_command_id (f c) = c_command_id c \<and> c_owner_id (f c) = c_owner_id c) \<Longrightarrow>
   commands_keyed (rewrite_commands L clk P f)"
  by (simp add: commands_keyed_def rewrite_commands_def own_keyed_put_all)

lemma enqueue_command_keyed:
  "commands_keyed L \<Longrightarrow> enqueue_provider_command L clk c = Inr (x, L') \<Longrightarrow> commands_keyed L'"
  by (auto simp: commands_keyed_def enqueue_provider_command_def
      dest: own_keyed_insert [OF _ refl refl] split: option.splits if_splits sum.splits)

lemma set_command_keyed:
  "commands_keyed L \<Longrightarrow> set_provider_command_state L clk k s e = Inr (x, L') \<Longrightarrow> commands_keyed L'"
  by (auto simp: commands_keyed_def set_provider_command_state_def command_copy_def Let_def
      intro!: own_keyed_put split: option.splits)

section \<open>Properties\<close>

text \<open>A provider command is stored once.  After a successful enqueue the stored command has the
  owner, task, run and message of the request, enqueueing the request again returns the stored
  command in whatever delivery state it has by then, and another message under the same id is
  refused; no other command changes.\<close>

theorem provider_command_stored_once:
  assumes ok: "commands_keyed L" and e: "enqueue_provider_command L clk c = Inr (s, L')"
    and st: "set_provider_command_state L' clk' (c_command_id c) state err = Inr (u, L2)"
  shows "get_provider_command L' (c_command_id c) = Some s \<and>
    c_owner_id s = c_owner_id c \<and> c_task_id s = c_task_id c \<and> c_run_id s = c_run_id c \<and>
    c_message s = c_message c \<and>
    enqueue_provider_command L2 clk2 c = Inr (u, L2) \<and>
    (\<forall>m. m \<noteq> c_message c \<longrightarrow> (\<exists>msg. enqueue_provider_command L2 clk2 (c\<lparr>c_message := m\<rparr>) = Inl (ValueError msg))) \<and>
    (\<forall>k. k \<noteq> c_command_id c \<longrightarrow> get_provider_command L2 k = get_provider_command L k)"
proof -
  have s: "get_provider_command L' (c_command_id c) = Some s" "c_owner_id s = c_owner_id c"
    "c_task_id s = c_task_id c" "c_run_id s = c_run_id c" "c_message s = c_message c"
    using e by (auto simp: enqueue_provider_command_def get_provider_command_def tbl_get_insert
        split: option.splits if_splits sum.splits)
  have other: "get_provider_command L' k = get_provider_command L k" if "k \<noteq> c_command_id c" for k
    using e that by (auto simp: enqueue_provider_command_def get_provider_command_def tbl_get_insert
        split: option.splits if_splits sum.splits)
  have key: "c_command_id s = c_command_id c"
    using enqueue_command_keyed [OF ok e] s(1)
    by (simp add: commands_keyed_def get_provider_command_def own_keyed_get_key)
  from st s obtain x where u: "u = command_copy x err (clk' 0) s"
    and L2: "L2 = L'\<lparr>l_commands := tbl_put (l_commands L') (c_command_id u) (c_owner_id u) u
        (clk' (if x = CSent then 1 else 0))\<rparr>"
    by (auto simp: set_provider_command_state_def get_provider_command_def Let_def split: option.splits)
  have uf: "c_command_id u = c_command_id c" "c_owner_id u = c_owner_id c" "c_task_id u = c_task_id c"
    "c_run_id u = c_run_id c" "c_message u = c_message c"
    using s key by (simp_all add: u command_copy_def)
  with s other show ?thesis
    by (simp add: L2 get_provider_command_def enqueue_provider_command_def)
qed

text \<open>Closing and resetting commands touches exactly the open ones: a failed run fails its pending
  and sending commands, an invalidated interaction cancels its own, a restart makes the sending ones
  pending again, and a command that was sent, failed or cancelled never changes.\<close>

theorem open_commands_are_closed:
  assumes ok: "commands_keyed L" and c: "get_provider_command L k = Some c"
  shows "get_provider_command (fail_provider_commands_for_run L clk rid err) k =
      Some (if c_run_id c = rid \<and> c_state c \<in> {CPending, CSending}
            then c\<lparr>c_state := CFailed, c_error := err\<rparr> else c) \<and>
    get_provider_command (cancel_provider_commands_for_interaction L clk iid) k =
      Some (if wm_interaction_id (c_message c) = Some iid \<and> c_state c \<in> {CPending, CSending}
            then c\<lparr>c_state := CCancelled, c_error := ''interaction invalidated''\<rparr> else c) \<and>
    get_provider_command (reset_sending_provider_commands L clk) k =
      Some (if c_state c = CSending then c\<lparr>c_state := CPending\<rparr> else c) \<and>
    (c_state c \<in> {CSent, CFailed, CCancelled} \<longrightarrow>
      get_provider_command (fail_provider_commands_for_run
        (cancel_provider_commands_for_interaction (reset_sending_provider_commands L clk) clk1 iid)
        clk2 rid err) k = Some c)"
proof -
  have k1: "commands_keyed (reset_sending_provider_commands L clk)"
    unfolding reset_sending_provider_commands_def by (rule rewrite_commands_keyed [OF ok]) simp
  have k2: "commands_keyed (cancel_provider_commands_for_interaction (reset_sending_provider_commands L clk) clk1 iid)"
    unfolding cancel_provider_commands_for_interaction_def by (rule rewrite_commands_keyed [OF k1]) simp
  have fail: "get_provider_command (fail_provider_commands_for_run M clk' rid err) k =
      map_option (\<lambda>c. if c_run_id c = rid \<and> c_state c \<in> {CPending, CSending}
        then c\<lparr>c_state := CFailed, c_error := err\<rparr> else c) (get_provider_command M k)"
    if "commands_keyed M" for M clk'
    unfolding fail_provider_commands_for_run_def by (rule rewrite_commands_get [OF that])
  have cancel: "get_provider_command (cancel_provider_commands_for_interaction M clk' iid) k =
      map_option (\<lambda>c. if wm_interaction_id (c_message c) = Some iid \<and> c_state c \<in> {CPending, CSending}
        then c\<lparr>c_state := CCancelled, c_error := ''interaction invalidated''\<rparr> else c) (get_provider_command M k)"
    if "commands_keyed M" for M clk'
    unfolding cancel_provider_commands_for_interaction_def by (rule rewrite_commands_get [OF that])
  have reset: "get_provider_command (reset_sending_provider_commands L clk) k =
      map_option (\<lambda>c. if c_state c = CSending then c\<lparr>c_state := CPending\<rparr> else c) (get_provider_command L k)"
    unfolding reset_sending_provider_commands_def by (rule rewrite_commands_get [OF ok])
  show ?thesis
    using c fail [OF ok] fail [OF k2] cancel [OF ok] cancel [OF k1] reset by simp
qed

end
