(* ===== verification/LedgerTasks.thy ===== *)
theory LedgerTasks
  imports Ledger
begin

text \<open>
  Tasks, runs and supervision contracts of \<open>TaskLedger\<close> (supervision.py): the transition tables,
  \<open>save_task\<close>, \<open>save_run\<close>, the pruning of finished tasks and the revisions of a contract.
\<close>

section \<open>Transitions\<close>

fun task_allowed :: "TaskStatus \<Rightarrow> TaskStatus set" where
  "task_allowed TQueued = {TQueued, TRunning, TCancelled, TFailed}"
| "task_allowed TRunning =
     {TRunning, TFinalizing, TCancelling, TCompleted, TPartial, TFailed, TCancelled}"
| "task_allowed TFinalizing = {TFinalizing, TCompleted, TPartial, TFailed, TCancelling, TCancelled}"
| "task_allowed TCancelling = {TCancelling, TCompleted, TPartial, TFailed, TCancelled}"
| "task_allowed TCompleted = {TCompleted}"
| "task_allowed TPartial = {TPartial}"
| "task_allowed TFailed = {TFailed}"
| "task_allowed TCancelled = {TCancelled}"

fun run_allowed :: "RunStatus \<Rightarrow> RunStatus set" where
  "run_allowed RQueued = {RQueued, RRunning, RFailed, RCancelled}"
| "run_allowed RRunning = {RRunning, RWaiting, RCompleted, RPartial, RFailed, RCancelled}"
| "run_allowed RWaiting = {RWaiting, RRunning, RCompleted, RPartial, RFailed, RCancelled}"
| "run_allowed RCompleted = {RCompleted}"
| "run_allowed RPartial = {RPartial}"
| "run_allowed RFailed = {RFailed}"
| "run_allowed RCancelled = {RCancelled}"

definition task_identity ::
  "TaskRecord \<Rightarrow> string \<times> string \<times> string \<times> string \<times> string \<times> string \<times> string" where
  "task_identity t =
     (t_kind t, t_parent_task_id t, t_parent_run_id t, t_lineage_id t, t_project_id t, t_owner_id t,
      t_provider_name t)"

definition validate_task_transition :: "TaskRecord \<Rightarrow> TaskRecord \<Rightarrow> py_error option" where
  "validate_task_transition current updated = raise_first
     [(t_status updated \<notin> task_allowed (t_status current),
        ValueError (''invalid task transition: '' @ task_status_name (t_status current) @ '' -> '' @
          task_status_name (t_status updated))),
      (t_generation updated < t_generation current,
        ValueError ''task generation cannot move backwards''),
      (t_generation updated > t_generation current + 1, ValueError ''task generation cannot skip''),
      (task_identity current \<noteq> task_identity updated,
        ValueError ''task identity and parent metadata are immutable''),
      (t_status updated \<in> {TQueued, TCompleted, TPartial, TFailed, TCancelled} \<and>
         t_active_run_id updated \<noteq> None,
        ValueError (task_status_name (t_status updated) @ '' task cannot have an active run'')),
      (t_status updated \<notin> {TQueued, TCompleted, TPartial, TFailed, TCancelled} \<and>
         t_active_run_id updated = None,
        ValueError (task_status_name (t_status updated) @ '' task requires an active run''))]"

definition validate_run_transition :: "RunRecord \<Rightarrow> RunRecord \<Rightarrow> py_error option" where
  "validate_run_transition current updated = raise_first
     [(r_task_id current \<noteq> r_task_id updated, ValueError ''run cannot move to another task''),
      (r_generation current \<noteq> r_generation updated, ValueError ''run generation is immutable''),
      (r_status updated \<notin> run_allowed (r_status current),
        ValueError (''invalid run transition: '' @ run_status_name (r_status current) @ '' -> '' @
          run_status_name (r_status updated))),
      (r_last_event_seq updated < r_last_event_seq current,
        ValueError ''run event sequence cannot move backwards'')]"

definition run_terminal :: "RunStatus \<Rightarrow> bool" where
  "run_terminal s \<longleftrightarrow> s \<in> {RCompleted, RPartial, RFailed, RCancelled}"

text \<open>Both tables are lifecycles: their final states have no way out.\<close>

interpretation task_life: lifecycle "\<lambda>s t. t \<in> task_allowed s" "\<lambda>s. s \<in> TERMINAL_TASK_STATUSES"
  by unfold_locales (auto simp: TERMINAL_TASK_STATUSES_def)

interpretation run_life: lifecycle "\<lambda>s t. t \<in> run_allowed s" run_terminal
  by unfold_locales (auto simp: run_terminal_def)

section \<open>Tasks\<close>

definition save_task :: "TaskLedger \<Rightarrow> clock \<Rightarrow> TaskRecord \<Rightarrow> (unit \<times> TaskLedger) res" where
  "save_task L clk task =
     (let invalid = (case tbl_get (l_tasks L) (t_task_id task) of
            None \<Rightarrow> None | Some current \<Rightarrow> validate_task_transition current task)
      in (case invalid of
            Some e \<Rightarrow> Inl e
          | None \<Rightarrow> Inr ((), L\<lparr>l_tasks :=
              tbl_put (l_tasks L) (t_task_id task) (t_owner_id task) task (clk 0)\<rparr>)))"

definition save_task_once ::
  "TaskLedger \<Rightarrow> clock \<Rightarrow> string \<Rightarrow> TaskRecord \<Rightarrow> (TaskRecord \<times> TaskLedger) res" where
  "save_task_once L clk operation_id task =
     (let marker_key = ''operation:'' @ operation_id
      in (case marker_value L marker_key of
            Some v \<Rightarrow>
              (case tbl_get (l_tasks L) v of
                 None \<Rightarrow> Inl (RuntimeError ''operation marker points to a missing task'')
               | Some existing \<Rightarrow> Inr (existing, L))
          | None \<Rightarrow>
              (case save_task L clk task of
                 Inl e \<Rightarrow> Inl e
               | Inr (_, L1) \<Rightarrow> Inr (task, add_marker marker_key (t_task_id task) (clk 1) L1))))"

definition get_task :: "TaskLedger \<Rightarrow> string \<Rightarrow> TaskRecord option" where
  "get_task L k = tbl_get (l_tasks L) k"

definition list_tasks :: "TaskLedger \<Rightarrow> string option \<Rightarrow> TaskRecord list" where
  "list_tasks L own = tbl_list (l_tasks L) own"

text \<open>The parents of the side queries that still run.\<close>

definition active_side_parents :: "TaskRecord list \<Rightarrow> string set" where
  "active_side_parents tasks =
     t_parent_task_id ` set (filter (\<lambda>t. t_kind t = ''side_query'' \<and> \<not> task_terminal t) tasks)"

text \<open>
  \<open>sort(reverse=True)\<close> is stable, so it is the stable sort by the negated key; \<open>recent[:limit]\<close>
  with a negative \<open>limit\<close> drops from the end.
\<close>

definition py_take :: "int \<Rightarrow> 'a list \<Rightarrow> 'a list" where
  "py_take n xs = (if n < 0 then take (length xs - nat (- n)) xs else take (nat n) xs)"

definition recent_terminal_tasks :: "TaskLedger \<Rightarrow> clock \<Rightarrow> string \<Rightarrow> int \<Rightarrow> int \<Rightarrow> TaskRecord list" where
  "recent_terminal_tasks L clk own within_ms limit =
     (let cutoff = clk 0 - within_ms;
          tasks = tbl_list (l_tasks L) (Some own);
          recent = filter (\<lambda>t. t_kind t = ''main'' \<and> task_terminal t \<and>
              (cutoff \<le> t_updated_at_ms t \<or> t_task_id t \<in> active_side_parents tasks)) tasks
      in py_take limit (sort_key (\<lambda>t. - t_updated_at_ms t) recent))"

text \<open>The tasks a pending or claimed delivery still names (\<open>and delivery.task_id\<close> drops the empty id).\<close>

definition pending_task_ids :: "TaskLedger \<Rightarrow> string \<Rightarrow> string set" where
  "pending_task_ids L own =
     set (List.map_filter
       (\<lambda>d. if d_state d \<in> {DPending, DClaimed} \<and> d_task_id d \<noteq> Some [] then d_task_id d else None)
       (tbl_list (l_deliveries L) (Some own)))"

text \<open>The terminal tasks that nothing retains, oldest row first.\<close>

definition prunable :: "TaskLedger \<Rightarrow> string \<Rightarrow> TaskRecord list" where
  "prunable L own =
     (let tasks = tbl_list (l_tasks L) (Some own)
      in filter (\<lambda>t. task_terminal t \<and> t_task_id t \<notin> pending_task_ids L own \<and>
           t_task_id t \<notin> active_side_parents tasks) tasks)"

definition overflow :: "int \<Rightarrow> TaskRecord list \<Rightarrow> TaskRecord list" where
  "overflow max_terminal keep = take (nat (int (length keep) - max_terminal)) keep"

text \<open>A task's kind is \<open>main\<close> or \<open>side_query\<close> by its constructor, so the two lists are all of them.\<close>

definition prune_removed ::
  "TaskLedger \<Rightarrow> int \<Rightarrow> string \<Rightarrow> int \<Rightarrow> int \<Rightarrow> string list" where
  "prune_removed L now own ttl_ms max_terminal =
     (let terminal = prunable L own;
          expired = (\<lambda>t. now - t_updated_at_ms t > ttl_ms);
          keep = (\<lambda>kind. filter (\<lambda>t. t_kind t = kind) (filter (\<lambda>t. \<not> expired t) terminal))
      in map t_task_id (filter expired terminal) @
         map t_task_id (overflow max_terminal (keep ''main'')) @
         map t_task_id (overflow max_terminal (keep ''side_query'')))"

definition prune_terminal_tasks ::
  "TaskLedger \<Rightarrow> clock \<Rightarrow> string \<Rightarrow> int \<Rightarrow> int \<Rightarrow> string list \<times> TaskLedger" where
  "prune_terminal_tasks L clk own ttl_ms max_terminal =
     (let removed = prune_removed L (clk 0) own ttl_ms max_terminal
      in (removed, L\<lparr>l_tasks := foldl tbl_del (l_tasks L) removed\<rparr>))"

section \<open>Runs\<close>

definition save_run :: "TaskLedger \<Rightarrow> clock \<Rightarrow> RunRecord \<Rightarrow> string \<Rightarrow> (unit \<times> TaskLedger) res" where
  "save_run L clk run own =
     (let invalid = (case tbl_get (l_runs L) (r_run_id run) of
            None \<Rightarrow> None | Some current \<Rightarrow> validate_run_transition current run)
      in (case invalid of
            Some e \<Rightarrow> Inl e
          | None \<Rightarrow> Inr ((), L\<lparr>l_runs := tbl_put (l_runs L) (r_run_id run) own run (clk 0)\<rparr>)))"

definition get_run :: "TaskLedger \<Rightarrow> string \<Rightarrow> RunRecord option" where
  "get_run L k = tbl_get (l_runs L) k"

definition list_runs :: "TaskLedger \<Rightarrow> string option \<Rightarrow> RunRecord list" where
  "list_runs L own = tbl_list (l_runs L) own"

section \<open>Contracts\<close>

text \<open>\<open>INSERT INTO contracts\<close> under its primary key \<open>(task_id, revision)\<close>.\<close>

definition insert_contract :: "SupervisionContractRevision \<Rightarrow> TaskLedger \<Rightarrow> TaskLedger res" where
  "insert_contract c L =
     (if \<exists>x \<in> set (l_contracts L). sc_task_id x = sc_task_id c \<and> sc_revision x = sc_revision c
      then Inl IntegrityError
      else Inr (L\<lparr>l_contracts := l_contracts L @ [c]\<rparr>))"

definition create_task ::
  "TaskLedger \<Rightarrow> clock \<Rightarrow> ProjectRecord \<Rightarrow> TaskRecord \<Rightarrow> SupervisionContractRevision \<Rightarrow>
   (unit \<times> TaskLedger) res" where
  "create_task L clk project task contract =
     (if sc_task_id contract \<noteq> t_task_id task \<or> sc_revision contract \<noteq> 1
      then Inl (ValueError ''new task must start with contract revision 1'')
      else if tbl_get (l_tasks L) (t_task_id task) \<noteq> None
      then Inl (ValueError (''task already exists: '' @ t_task_id task))
      else
        let n = (if tbl_get (l_projects L) (pr_project_id project) = None then 1 else 0 :: nat);
            with_project =
              (case tbl_get (l_projects L) (pr_project_id project) of
                 None \<Rightarrow>
                   (case tbl_insert (l_projects L) (pr_project_id project) (pr_owner_id project)
                      project (clk 0) of
                      Inl e \<Rightarrow> Inl e | Inr p' \<Rightarrow> Inr (L\<lparr>l_projects := p'\<rparr>))
               | Some existing \<Rightarrow>
                   (if pr_owner_id existing \<noteq> t_owner_id task
                    then Inl (ValueError ''project owner does not match task owner'')
                    else Inr L))
        in bindE with_project (\<lambda>L1.
           bindE (tbl_insert (l_tasks L1) (t_task_id task) (t_owner_id task) task (clk n)) (\<lambda>t'.
           bindE (insert_contract contract (L1\<lparr>l_tasks := t'\<rparr>)) (\<lambda>L2.
           Inr ((), add_entry ''contract'' (t_task_id task) (sc_revision contract)
             (sc_created_at_ms contract) L2)))))"

text \<open>Without a revision the one with the highest number is returned.\<close>

definition get_contract :: "TaskLedger \<Rightarrow> string \<Rightarrow> int option \<Rightarrow> SupervisionContractRevision option" where
  "get_contract L task_id revision =
     (case revision of
        None \<Rightarrow>
          (case sort_key (\<lambda>c. - sc_revision c) (filter (\<lambda>c. sc_task_id c = task_id) (l_contracts L)) of
             [] \<Rightarrow> None | c # _ \<Rightarrow> Some c)
      | Some n \<Rightarrow> find (\<lambda>c. sc_task_id c = task_id \<and> sc_revision c = n) (l_contracts L))"

definition list_contracts :: "TaskLedger \<Rightarrow> string list option \<Rightarrow> SupervisionContractRevision list" where
  "list_contracts L task_ids =
     (case task_ids of
        None \<Rightarrow> sort_key sc_created_at_ms (l_contracts L)
      | Some ids \<Rightarrow> sort_key sc_created_at_ms (filter (\<lambda>c. sc_task_id c \<in> set ids) (l_contracts L)))"

text \<open>The clock is read for the contract, for the task's \<open>updated_at_ms\<close> and for its row.\<close>

definition revise_contract ::
  "TaskLedger \<Rightarrow> clock \<Rightarrow> string \<Rightarrow> ContractBody \<Rightarrow> string list \<Rightarrow>
   (SupervisionContractRevision \<times> TaskLedger) res" where
  "revise_contract L clk task_id body source_turn_ids =
     (case tbl_get (l_tasks L) task_id of
        None \<Rightarrow> Inl (KeyError (''unknown task: '' @ task_id))
      | Some task \<Rightarrow>
          (let current = get_contract L task_id (Some (t_contract_revision task));
               revision = t_contract_revision task + 1;
               fresh = \<lparr>sc_task_id = task_id, sc_revision = revision, sc_body = body,
                 sc_source_turn_ids = source_turn_ids, sc_created_at_ms = clk 0\<rparr>
           in (case (case current of
                 Some c \<Rightarrow>
                   (if sc_body c = body \<and> sc_source_turn_ids c = source_turn_ids then Some c else None)
               | None \<Rightarrow> None) of
                 Some c \<Rightarrow> Inr (c, L)
               | None \<Rightarrow>
                   bindE (SupervisionContractRevision_init fresh) (\<lambda>contract.
                   bindE (insert_contract contract L) (\<lambda>L1.
                   bindE (TaskRecord_init
                     (task\<lparr>t_contract_revision := revision, t_updated_at_ms := clk 1\<rparr>)) (\<lambda>task'.
                   Inr (contract, add_entry ''contract'' task_id revision (sc_created_at_ms contract)
                     (L1\<lparr>l_tasks := tbl_put (l_tasks L1) (t_task_id task) (t_owner_id task)
                        task' (clk 2)\<rparr>))))))))"

section \<open>Laws\<close>

definition tasks_keyed :: "TaskLedger \<Rightarrow> bool" where
  "tasks_keyed L \<longleftrightarrow> own_keyed t_task_id t_owner_id (l_tasks L)"

lemma validate_task_None_iff:
  "validate_task_transition t t' = None \<longleftrightarrow>
     t_status t' \<in> task_allowed (t_status t) \<and>
     (t_generation t' = t_generation t \<or> t_generation t' = t_generation t + 1) \<and>
     task_identity t = task_identity t' \<and>
     (t_active_run_id t' = None \<longleftrightarrow> t_status t' \<in> {TQueued, TCompleted, TPartial, TFailed, TCancelled})"
  by (auto simp: validate_task_transition_def)

lemma validate_run_None_iff:
  "validate_run_transition r r' = None \<longleftrightarrow>
     r_task_id r = r_task_id r' \<and> r_generation r = r_generation r' \<and>
     r_status r' \<in> run_allowed (r_status r) \<and> r_last_event_seq r \<le> r_last_event_seq r'"
  by (auto simp: validate_run_transition_def)

lemma save_task_InrE:
  assumes "save_task L clk task = Inr (u, L')"
  obtains "L' = L\<lparr>l_tasks := tbl_put (l_tasks L) (t_task_id task) (t_owner_id task) task (clk 0)\<rparr>"
    and "\<And>old. get_task L (t_task_id task) = Some old \<Longrightarrow> validate_task_transition old task = None"
  using assms by (auto simp: save_task_def get_task_def split: option.splits)

lemma save_task_keyed: "tasks_keyed L \<Longrightarrow> save_task L clk task = Inr (u, L') \<Longrightarrow> tasks_keyed L'"
  by (erule save_task_InrE) (auto simp: tasks_keyed_def intro: own_keyed_put)

lemma prune_removed_prunable:
  "k \<in> set (prune_removed L now own ttl mx) \<Longrightarrow> \<exists>t \<in> set (prunable L own). t_task_id t = k"
  by (auto simp: prune_removed_def Let_def overflow_def dest!: in_set_takeD)

lemma prunable_mem:
  "t \<in> set (prunable L own) \<longleftrightarrow>
     t \<in> set (list_tasks L (Some own)) \<and> task_terminal t \<and> t_task_id t \<notin> pending_task_ids L own \<and>
     t_task_id t \<notin> active_side_parents (list_tasks L (Some own))"
  by (auto simp: prunable_def list_tasks_def Let_def)

lemma pending_task_ids_mem:
  "k \<in> pending_task_ids L own \<longleftrightarrow> k \<noteq> [] \<and>
     (\<exists>d \<in> set (tbl_list (l_deliveries L) (Some own)). d_state d \<in> {DPending, DClaimed} \<and> d_task_id d = Some k)"
  by (auto simp: pending_task_ids_def List.map_filter_def image_iff)

lemma active_side_parents_mem:
  "k \<in> active_side_parents ts \<longleftrightarrow>
     (\<exists>t \<in> set ts. t_kind t = ''side_query'' \<and> \<not> task_terminal t \<and> t_parent_task_id t = k)"
  by (auto simp: active_side_parents_def)

lemma prune_frame:
  "prune_terminal_tasks L clk own ttl mx = (removed, L') \<Longrightarrow>
   L' = L\<lparr>l_tasks := foldl tbl_del (l_tasks L) removed\<rparr> \<and>
   removed = prune_removed L (clk 0) own ttl mx"
  by (auto simp: prune_terminal_tasks_def Let_def)

lemma prune_keyed:
  "tasks_keyed L \<Longrightarrow> prune_terminal_tasks L clk own ttl mx = (removed, L') \<Longrightarrow> tasks_keyed L'"
  by (drule prune_frame) (auto simp: tasks_keyed_def foldl_tbl_del intro: own_keyed_filter)

text \<open>What pruning takes from the table it takes from every list, and protection is unchanged.\<close>

lemma prune_list_tasks:
  "tasks_keyed L \<Longrightarrow> prune_terminal_tasks L clk own ttl mx = (removed, L') \<Longrightarrow>
   list_tasks L' w = filter (\<lambda>t. t_task_id t \<notin> set removed) (list_tasks L w)"
  by (drule prune_frame) (simp add: list_tasks_def tasks_keyed_def tbl_list_foldl_del own_keyed_keyed)

lemma prune_prunable:
  assumes ok: "tasks_keyed L" and p: "prune_terminal_tasks L clk own ttl mx = (removed, L')"
  shows "prunable L' own = filter (\<lambda>t. t_task_id t \<notin> set removed) (prunable L own)"
proof -
  let ?ts = "list_tasks L (Some own)"
  have ts: "list_tasks L' (Some own) = filter (\<lambda>t. t_task_id t \<notin> set removed) ?ts"
    by (rule prune_list_tasks [OF ok p])
  have final: "task_terminal t" if "t \<in> set ?ts" "t_task_id t \<in> set removed" for t
  proof -
    from that(2) prune_frame [OF p] obtain t' where t': "t' \<in> set (prunable L own)" "t_task_id t' = t_task_id t"
      using prune_removed_prunable by blast
    then have "t' \<in> set ?ts" "task_terminal t'" by (simp_all add: prunable_mem)
    with that(1) ok t'(2) show ?thesis
      by (simp add: list_tasks_def tasks_keyed_def own_keyed_list_iff)
  qed
  have "active_side_parents (list_tasks L' (Some own)) = active_side_parents ?ts"
    using final by (auto simp: ts active_side_parents_def)
  moreover have "pending_task_ids L' own = pending_task_ids L own"
    using prune_frame [OF p] by (simp add: pending_task_ids_def)
  ultimately show ?thesis
    using ts by (auto simp: prunable_def list_tasks_def Let_def conj_commute intro: filter_cong)
qed

lemma distinct_prunable: "tasks_keyed L \<Longrightarrow> distinct (map t_task_id (prunable L own))"
  unfolding prunable_def Let_def tasks_keyed_def
  by (intro distinct_map_filterI keyed_list_distinct own_keyed_keyed)

lemma length_filter_mono:
  "(\<And>x. x \<in> set xs \<Longrightarrow> P x \<Longrightarrow> Q x) \<Longrightarrow> length (filter P xs) \<le> length (filter Q xs)"
  by (induction xs) auto

lemma filter_notin_take:
  assumes "distinct (map f xs)"
  shows "length (filter (\<lambda>x. f x \<notin> f ` set (take n xs)) xs) = length xs - n"
proof -
  have "distinct (map f (take n xs) @ map f (drop n xs))"
    using assms by (simp flip: map_append)
  then have d: "f ` set (take n xs) \<inter> f ` set (drop n xs) = {}" by simp
  have "filter (\<lambda>x. f x \<notin> f ` set (take n xs)) (take n xs) = []"
    by (simp add: filter_empty_conv)
  moreover have "filter (\<lambda>x. f x \<notin> f ` set (take n xs)) (drop n xs) = drop n xs"
    using d by (auto simp: filter_id_conv)
  ultimately have "filter (\<lambda>x. f x \<notin> f ` set (take n xs)) (take n xs @ drop n xs) = drop n xs"
    by (simp only: filter_append append_Nil)
  then show ?thesis by simp
qed

lemma prune_get:
  assumes ok: "tasks_keyed L" and p: "prune_terminal_tasks L clk own ttl mx = (removed, L')"
    and t: "get_task L k = Some t"
  shows "get_task L' k = (if k \<in> set removed then None else Some t)"
    and "k \<in> set removed \<Longrightarrow> t \<in> set (prunable L own) \<and> t_owner_id t = own"
proof -
  from prune_frame [OF p] have L': "L' = L\<lparr>l_tasks := foldl tbl_del (l_tasks L) removed\<rparr>"
    and removed: "removed = prune_removed L (clk 0) own ttl mx" by auto
  show "get_task L' k = (if k \<in> set removed then None else Some t)"
    using t L' by (simp add: get_task_def)
  assume "k \<in> set removed"
  with removed prune_removed_prunable obtain t' where
    t': "t' \<in> set (prunable L own)" "t_task_id t' = k" by blast
  then have "t' \<in> set (list_tasks L (Some own))" by (simp add: prunable_mem)
  with ok t t' have "t' = t" "t_owner_id t' = own"
    by (simp_all add: list_tasks_def tasks_keyed_def own_keyed_list_iff get_task_def)
  with t' show "t \<in> set (prunable L own) \<and> t_owner_id t = own" by simp
qed

section \<open>Laws of contracts and markers\<close>

lemma insert_contract_InrE:
  assumes "insert_contract c L = Inr L'"
  obtains "L' = L\<lparr>l_contracts := l_contracts L @ [c]\<rparr>"
    and "get_contract L (sc_task_id c) (Some (sc_revision c)) = None"
  using assms by (auto simp: insert_contract_def get_contract_def find_None_iff split: if_splits)

lemma get_contract_snoc:
  "get_contract (L\<lparr>l_contracts := l_contracts L @ [c]\<rparr>) j (Some n) =
     (case get_contract L j (Some n) of Some x \<Rightarrow> Some x
      | None \<Rightarrow> if sc_task_id c = j \<and> sc_revision c = n then Some c else None)"
  by (auto simp: get_contract_def find_append split: option.splits)

lemma get_contract_cong: "l_contracts L' = l_contracts L \<Longrightarrow> get_contract L' = get_contract L"
  by (intro ext) (simp add: get_contract_def cong: option.case_cong)

lemma get_contract_SomeD:
  "get_contract L j (Some n) = Some c \<Longrightarrow> sc_task_id c = j \<and> sc_revision c = n"
  by (auto simp: get_contract_def dest!: find_SomeD)

lemma TaskRecord_init_id: "TaskRecord_init t = Inr t' \<Longrightarrow> t_lineage_id t \<noteq> [] \<Longrightarrow> t' = t"
  by (auto simp: TaskRecord_init_def Let_def)

lemma TaskRecord_init_fields:
  "TaskRecord_init t = Inr t' \<Longrightarrow> t_task_id t' = t_task_id t \<and> t_contract_revision t' = t_contract_revision t \<and>
     t_owner_id t' = t_owner_id t \<and> t_status t' = t_status t \<and> t_generation t' = t_generation t \<and>
     t_active_run_id t' = t_active_run_id t \<and> t_project_id t' = t_project_id t \<and>
     (t_lineage_id t \<noteq> [] \<longrightarrow> t' = t)"
  by (auto simp: TaskRecord_init_def Let_def)

text \<open>The two ways a revision succeeds.\<close>

lemma revise_contract_InrE:
  assumes "revise_contract L clk k body src = Inr (c, L')"
  obtains (same) task where "get_task L k = Some task" "L' = L"
      "get_contract L k (Some (t_contract_revision task)) = Some c"
      "sc_body c = body" "sc_source_turn_ids c = src"
  | (fresh) task task' where "get_task L k = Some task"
      "c = \<lparr>sc_task_id = k, sc_revision = t_contract_revision task + 1, sc_body = body,
         sc_source_turn_ids = src, sc_created_at_ms = clk 0\<rparr>"
      "get_contract L k (Some (sc_revision c)) = None"
      "TaskRecord_init (task\<lparr>t_contract_revision := sc_revision c, t_updated_at_ms := clk 1\<rparr>) = Inr task'"
      "L' = add_entry ''contract'' k (sc_revision c) (clk 0)
         (L\<lparr>l_contracts := l_contracts L @ [c],
            l_tasks := tbl_put (l_tasks L) (t_task_id task) (t_owner_id task) task' (clk 2)\<rparr>)"
proof (cases "tbl_get (l_tasks L) k")
  case None
  with assms show thesis by (simp add: revise_contract_def)
next
  case (Some task)
  define cur where "cur = (case get_contract L k (Some (t_contract_revision task)) of
      Some c \<Rightarrow> if sc_body c = body \<and> sc_source_turn_ids c = src then Some c else None | None \<Rightarrow> None)"
  show thesis
  proof (cases cur)
    case None
    with assms Some show thesis
      by (auto simp: revise_contract_def Let_def cur_def [symmetric] bindE_Inr_iff get_task_def
          SupervisionContractRevision_init_def elim!: insert_contract_InrE intro!: fresh)
  next
    case (Some c')
    with assms \<open>tbl_get (l_tasks L) k = Some task\<close> have "c' = c" "L' = L"
      by (auto simp: revise_contract_def Let_def cur_def [symmetric])
    with Some \<open>tbl_get (l_tasks L) k = Some task\<close> same show thesis
      by (auto simp: cur_def get_task_def split: option.splits if_splits)
  qed
qed

lemma create_task_InrE:
  assumes "create_task L clk project task contract = Inr (u, L')"
  obtains ps ts n where
    "l_projects L' = ps" "l_contracts L' = l_contracts L @ [contract]" "l_tasks L' = ts"
    "sc_task_id contract = t_task_id task" "sc_revision contract = 1"
    "get_task L (t_task_id task) = None"
    "tbl_insert (l_tasks L) (t_task_id task) (t_owner_id task) task (clk n) = Inr ts"
    "get_contract L (t_task_id task) (Some 1) = None"
    "tbl_insert (l_projects L) (pr_project_id project) (pr_owner_id project) project (clk 0) = Inr ps \<or>
     ps = l_projects L \<and> (\<exists>p. get_project L (pr_project_id project) = Some p \<and> pr_owner_id p = t_owner_id task)"
proof -
  have cong: "get_contract (M\<lparr>l_tasks := x\<rparr>) = get_contract M" "get_contract (M\<lparr>l_projects := y\<rparr>) = get_contract M"
    for M x y by (rule get_contract_cong, simp)+
  from assms show thesis
    by (auto simp: create_task_def Let_def bindE_Inr_iff get_task_def get_project_def add_entry_def cong
        split: if_splits option.splits sum.splits elim!: insert_contract_InrE intro: that)
qed

section \<open>Properties\<close>

text \<open>Pruning is safe: it removes only terminal tasks of the owner, never a task that a pending or
  claimed delivery of the owner still names nor the parent of a side query that still runs, and it
  leaves every other task and every other table as they were.\<close>

theorem prune_terminal_tasks_safe:
  assumes ok: "tasks_keyed L" and p: "prune_terminal_tasks L clk own ttl mx = (removed, L')"
    and t: "get_task L k = Some t"
  shows "get_task L' k = (if k \<in> set removed then None else Some t) \<and>
    (k \<in> set removed \<longrightarrow> t_owner_id t = own \<and> task_terminal t \<and>
       (\<forall>d \<in> set (tbl_list (l_deliveries L) (Some own)).
          d_task_id d = Some k \<and> k \<noteq> [] \<longrightarrow> d_state d \<notin> {DPending, DClaimed}) \<and>
       (\<forall>s \<in> set (list_tasks L (Some own)).
          t_kind s = ''side_query'' \<and> t_parent_task_id s = k \<longrightarrow> task_terminal s)) \<and>
    L'\<lparr>l_tasks := l_tasks L\<rparr> = L"
proof -
  from prune_frame [OF p] have L': "L' = L\<lparr>l_tasks := foldl tbl_del (l_tasks L) removed\<rparr>" by auto
  have "t_task_id t = k"
    using ok t by (auto simp: tasks_keyed_def get_task_def own_keyed_get_key)
  with prune_get [OF ok p t] L' show ?thesis
    by (auto simp: prunable_mem pending_task_ids_mem active_side_parents_mem)
qed

text \<open>Pruning reaches its quota: afterwards none of the owner's prunable tasks is older than the
  time to live, and at most \<open>max_terminal\<close> main tasks and at most \<open>max_terminal\<close> side queries of the
  owner are prunable.\<close>

theorem prune_terminal_tasks_quota:
  assumes ok: "tasks_keyed L" and p: "prune_terminal_tasks L clk own ttl mx = (removed, L')"
    and mx: "0 \<le> mx" and kind: "kind = ''main'' \<or> kind = ''side_query''"
  shows "(\<forall>t \<in> set (prunable L' own). clk 0 - t_updated_at_ms t \<le> ttl) \<and>
    int (length (filter (\<lambda>t. t_kind t = kind) (prunable L' own))) \<le> mx"
proof -
  let ?expired = "\<lambda>t. clk 0 - t_updated_at_ms t > ttl"
  define keep where "keep = filter (\<lambda>t. t_kind t = kind) (filter (\<lambda>t. \<not> ?expired t) (prunable L own))"
  define n where "n = nat (int (length keep) - mx)"
  have removed: "removed = prune_removed L (clk 0) own ttl mx" using prune_frame [OF p] by simp
  then have exp: "t_task_id t \<in> set removed" if "t \<in> set (prunable L own)" "?expired t" for t
    using that by (auto simp: prune_removed_def Let_def)
  have take: "t_task_id ` set (take n keep) \<subseteq> set removed"
    using kind unfolding removed prune_removed_def keep_def n_def overflow_def Let_def by auto
  have "distinct (map t_task_id keep)"
    unfolding keep_def by (intro distinct_map_filterI distinct_prunable [OF ok])
  then have "length (filter (\<lambda>t. t_task_id t \<notin> t_task_id ` set (take n keep)) keep) = length keep - n"
    by (rule filter_notin_take)
  moreover have "length (filter (\<lambda>t. t_task_id t \<notin> set removed) keep) \<le>
      length (filter (\<lambda>t. t_task_id t \<notin> t_task_id ` set (take n keep)) keep)"
    using take by (intro length_filter_mono) auto
  moreover have "filter (\<lambda>t. t_kind t = kind) (prunable L' own) = filter (\<lambda>t. t_task_id t \<notin> set removed) keep"
    unfolding prune_prunable [OF ok p] keep_def filter_filter using exp by (intro filter_cong) auto
  ultimately have "length (filter (\<lambda>t. t_kind t = kind) (prunable L' own)) \<le> length keep - n" by simp
  moreover have "int (length keep - n) \<le> mx" using mx by (simp add: n_def)
  ultimately show ?thesis
    using exp unfolding prune_prunable [OF ok p] by force
qed

text \<open>A contract revision is stored once and history is kept.  After a successful revision the task
  points at the returned contract, which carries the requested body and turns, is found under its
  number and is either the task's current revision or the next one; every contract stored before is
  still found unchanged, and revising again with the same body and turns changes nothing.\<close>

theorem revise_contract_history:
  assumes ok: "tasks_keyed L" and r: "revise_contract L clk k body src = Inr (c, L')"
  shows "sc_body c = body \<and> sc_source_turn_ids c = src \<and>
    (\<exists>t t'. get_task L k = Some t \<and> get_task L' k = Some t' \<and> t_contract_revision t' = sc_revision c \<and>
       sc_revision c \<in> {t_contract_revision t, t_contract_revision t + 1}) \<and>
    get_contract L' k (Some (sc_revision c)) = Some c \<and>
    (\<forall>j n c0. get_contract L j (Some n) = Some c0 \<longrightarrow> get_contract L' j (Some n) = Some c0) \<and>
    revise_contract L' clk' k body src = Inr (c, L')"
  using r
proof (cases rule: revise_contract_InrE)
  case (same task)
  with get_contract_SomeD [OF same(3)] r show ?thesis
    by (auto simp: revise_contract_def get_task_def)
next
  case (fresh task task')
  have key: "t_task_id task = k"
    using ok fresh(1) by (auto simp: tasks_keyed_def get_task_def own_keyed_get_key)
  let ?M = "L\<lparr>l_contracts := l_contracts L @ [c]\<rparr>"
  have M: "get_contract L' = get_contract ?M"
    by (rule get_contract_cong) (simp add: fresh(5) add_entry_def)
  have rev1: "t_contract_revision task' = sc_revision c"
    using TaskRecord_init_fields [OF fresh(4)] by simp
  have t': "get_task L' k = Some task'"
    by (simp add: fresh(5) add_entry_def get_task_def key)
  have c: "get_contract L' k (Some (sc_revision c)) = Some c"
    using fresh(2,3) by (simp add: M get_contract_snoc)
  have "revise_contract L' clk' k body src = Inr (c, L')"
    using t' c rev1 fresh(2) by (simp add: revise_contract_def get_task_def)
  moreover have "get_contract L' j (Some n) = Some c0" if "get_contract L j (Some n) = Some c0" for j n c0
    using that by (simp add: M get_contract_snoc)
  ultimately show ?thesis
    using fresh(1,2) t' c rev1 by simp
qed

text \<open>Creating a task stores the task, its project and contract revision 1 together, disturbs no
  other task, and cannot be repeated: a second creation under the same task id raises.\<close>

theorem create_task_stores_all:
  assumes "create_task L clk project task contract = Inr (u, L')"
  shows "get_task L (t_task_id task) = None \<and>
    get_task L' (t_task_id task) = Some task \<and>
    (\<forall>k. k \<noteq> t_task_id task \<longrightarrow> get_task L' k = get_task L k) \<and>
    get_contract L' (t_task_id task) (Some 1) = Some contract \<and>
    (\<exists>p. get_project L' (pr_project_id project) = Some p \<and>
       (get_project L (pr_project_id project) = None \<and> p = project \<or>
        get_project L (pr_project_id project) = Some p \<and> pr_owner_id p = t_owner_id task)) \<and>
    (\<forall>task'. t_task_id task' = t_task_id task \<longrightarrow> (\<exists>e. create_task L' clk' project' task' contract' = Inl e))"
  using assms
proof (rule create_task_InrE)
  fix ps ts n
  assume L': "l_projects L' = ps" "l_contracts L' = l_contracts L @ [contract]" "l_tasks L' = ts"
    and c: "sc_task_id contract = t_task_id task" "sc_revision contract = 1"
    and none: "get_task L (t_task_id task) = None" "get_contract L (t_task_id task) (Some 1) = None"
    and ts: "tbl_insert (l_tasks L) (t_task_id task) (t_owner_id task) task (clk n) = Inr ts"
    and ps: "tbl_insert (l_projects L) (pr_project_id project) (pr_owner_id project) project (clk 0) = Inr ps \<or>
     ps = l_projects L \<and> (\<exists>p. get_project L (pr_project_id project) = Some p \<and> pr_owner_id p = t_owner_id task)"
  have tasks: "get_task L' k = (if k = t_task_id task then Some task else get_task L k)" for k
    using tbl_get_insert [OF ts] by (simp add: get_task_def L')
  have "get_contract L' = get_contract (L\<lparr>l_contracts := l_contracts L @ [contract]\<rparr>)"
    by (rule get_contract_cong) (simp add: L')
  then have "get_contract L' (t_task_id task) (Some 1) = Some contract"
    using c none by (simp add: get_contract_snoc)
  moreover have "\<exists>p. get_project L' (pr_project_id project) = Some p \<and>
       (get_project L (pr_project_id project) = None \<and> p = project \<or>
        get_project L (pr_project_id project) = Some p \<and> pr_owner_id p = t_owner_id task)"
    using ps tbl_get_insert [of "l_projects L"] by (fastforce simp: get_project_def L' tbl_insert_Inr_iff)
  moreover have "\<exists>e. create_task L' clk' project' task' contract' = Inl e" if "t_task_id task' = t_task_id task" for task'
    using tasks [of "t_task_id task"] that by (simp add: create_task_def get_task_def)
  ultimately show ?thesis using tasks none by simp
qed

text \<open>An operation id saves its task once: after a successful call every later call with the same
  operation id, whatever task it passes, returns the task stored then and changes nothing.\<close>

theorem save_task_once_replay:
  assumes ok: "tasks_keyed L" and s: "save_task_once L clk op task = Inr (t, L')"
  shows "save_task_once L' clk' op task' = Inr (t, L') \<and> get_task L' (t_task_id t) = Some t"
proof (cases "marker_value L (''operation:'' @ op)")
  case None
  with s obtain L1 where s1: "save_task L clk task = Inr ((), L1)"
    and L': "L' = add_marker (''operation:'' @ op) (t_task_id task) (clk 1) L1" and t: "t = task"
    by (auto simp: save_task_once_def split: sum.splits)
  from s1 have L1: "L1 = L\<lparr>l_tasks := tbl_put (l_tasks L) (t_task_id task) (t_owner_id task) task (clk 0)\<rparr>"
    by (rule save_task_InrE)
  have "marker_value L1 (''operation:'' @ op) = None" using None by (simp add: L1 marker_value_def)
  then show ?thesis
    by (simp add: save_task_once_def L' t get_task_def) (simp add: add_marker_def L1)
next
  case (Some v)
  with s have "L' = L" "tbl_get (l_tasks L) v = Some t"
    by (auto simp: save_task_once_def split: option.splits)
  with s Some ok show ?thesis
    by (auto simp: save_task_once_def get_task_def tasks_keyed_def own_keyed_get_key)
qed

end
