(* ===== verification/LedgerEvents.thy ===== *)
theory LedgerEvents
  imports LedgerTasks
begin

text \<open>
  Artifacts, activity aggregates and worker events of \<open>TaskLedger\<close> (supervision.py): evidence is
  immutable, activity is folded into one open aggregate per task and contract revision, and worker
  events are persisted once, in sequence and only for the live run of their task.
\<close>

section \<open>Artifacts\<close>

text \<open>\<open>facts\<close> are compared as Python compares the dicts.\<close>

definition save_artifact :: "TaskLedger \<Rightarrow> clock \<Rightarrow> ArtifactEvidence \<Rightarrow> (unit \<times> TaskLedger) res" where
  "save_artifact L clk artifact =
     (if (case get_task L (a_task_id artifact) of
            None \<Rightarrow> True | Some task \<Rightarrow> t_owner_id task \<noteq> a_owner_id artifact)
      then Inl (ValueError ''artifact does not belong to the task owner'')
      else (case tbl_get (l_artifacts L) (a_ref artifact) of
        Some existing \<Rightarrow>
          (if a_owner_id existing \<noteq> a_owner_id artifact \<or> a_task_id existing \<noteq> a_task_id artifact \<or>
              \<not> json_eq (JObj (a_facts existing)) (JObj (a_facts artifact))
           then Inl (ValueError (''artifact evidence is immutable: '' @ a_ref artifact))
           else Inr ((), L))
      | None \<Rightarrow>
          (case tbl_insert (l_artifacts L) (a_ref artifact) (a_owner_id artifact) artifact (clk 0) of
             Inl e \<Rightarrow> Inl e
           | Inr t' \<Rightarrow> Inr ((), L\<lparr>l_artifacts := t'\<rparr>))))"

definition get_artifact :: "TaskLedger \<Rightarrow> string \<Rightarrow> ArtifactEvidence option" where
  "get_artifact L r = tbl_get (l_artifacts L) r"

definition list_artifacts :: "TaskLedger \<Rightarrow> string option \<Rightarrow> ArtifactEvidence list" where
  "list_artifacts L own = tbl_list (l_artifacts L) own"

section \<open>Activity aggregates\<close>

definition open_aggregate :: "TaskLedger \<Rightarrow> string \<Rightarrow> string \<Rightarrow> int \<Rightarrow> ActivityAggregate option" where
  "open_aggregate L own task_id revision =
     (case sort_key (\<lambda>r. - row_updated r)
         (filter (\<lambda>r. row_owner r = own \<and> g_task_id (row_payload r) = task_id \<and>
            g_contract_revision (row_payload r) = revision \<and> g_state (row_payload r) = AOpen)
           (l_aggregates L)) of
        [] \<Rightarrow> None | r # _ \<Rightarrow> Some (row_payload r))"

text \<open>\<open>(current.event_ids + (event.event_id,))[-32:]\<close> and the same for the summaries.\<close>

definition aggregate_with :: "ActivityAggregate \<Rightarrow> string \<Rightarrow> string \<Rightarrow> ActivityAggregate" where
  "aggregate_with g event_id summary =
     g\<lparr>g_event_ids := last_n 32 (g_event_ids g @ [event_id]),
       g_summaries := last_n 32 (g_summaries g @ [summary]),
       g_event_count := g_event_count g + 1\<rparr>"

definition put_aggregate :: "TaskLedger \<Rightarrow> int \<Rightarrow> ActivityAggregate \<Rightarrow> TaskLedger" where
  "put_aggregate L now g =
     L\<lparr>l_aggregates := tbl_put (l_aggregates L) (g_aggregate_id g) (g_owner_id g) g now\<rparr>"

text \<open>\<open>aggregate_id\<close> is the \<open>new_id("aggregate")\<close> of the call.\<close>

definition append_activity_aggregate ::
  "TaskLedger \<Rightarrow> clock \<Rightarrow> string \<Rightarrow> WorkerEvent \<Rightarrow> int \<Rightarrow> int \<Rightarrow> (ActivityAggregate \<times> TaskLedger) res" where
  "append_activity_aggregate L clk aggregate_id event contract_revision window_ms =
     (if window_ms < 1 then Inl (ValueError ''aggregate window must be positive'')
      else (case e_payload event of
        PUpdate payload \<Rightarrow>
          (if up_kind payload \<noteq> ''activity''
           then Inl (TypeError ''only activity updates can be aggregated'')
           else (case open_aggregate L (e_owner_id event) (e_task_id event) contract_revision of
              None \<Rightarrow>
                bindE (ActivityAggregate_init
                  \<lparr>g_aggregate_id = aggregate_id, g_owner_id = e_owner_id event,
                   g_task_id = e_task_id event, g_contract_revision = contract_revision,
                   g_event_ids = [e_event_id event], g_summaries = [up_summary payload],
                   g_event_count = 1, g_due_at_ms = clk 0 + window_ms, g_state = AOpen,
                   g_created_at_ms = clk 1, g_flushed_at_ms = None\<rparr>)
                  (\<lambda>g. Inr (g, put_aggregate L (clk 2) g))
            | Some current \<Rightarrow>
                (if e_event_id event \<in> set (g_event_ids current) then Inr (current, L)
                 else bindE (ActivityAggregate_init
                     (aggregate_with current (e_event_id event) (up_summary payload)))
                   (\<lambda>g. Inr (g, put_aggregate L (clk 0) g)))))
      | _ \<Rightarrow> Inl (TypeError ''only activity updates can be aggregated'')))"

definition list_activity_aggregates ::
  "TaskLedger \<Rightarrow> string option \<Rightarrow> string option \<Rightarrow> AggregateState option \<Rightarrow> ActivityAggregate list" where
  "list_activity_aggregates L own task_id state =
     filter (\<lambda>g. (task_id = None \<or> task_id = Some (g_task_id g)) \<and> (state = None \<or> state = Some (g_state g)))
       (tbl_list (l_aggregates L) own)"

definition flush_activity_aggregate ::
  "TaskLedger \<Rightarrow> clock \<Rightarrow> string \<Rightarrow> (ActivityAggregate option \<times> TaskLedger) res" where
  "flush_activity_aggregate L clk aggregate_id =
     (case tbl_get (l_aggregates L) aggregate_id of
        None \<Rightarrow> Inl (KeyError (''unknown activity aggregate: '' @ aggregate_id))
      | Some current \<Rightarrow>
          (if g_state current \<noteq> AOpen then Inr (None, L)
           else bindE (ActivityAggregate_init
               (current\<lparr>g_state := AFlushed, g_flushed_at_ms := Some (clk 0)\<rparr>))
             (\<lambda>flushed. Inr (Some flushed, put_aggregate L (clk 1) flushed))))"

section \<open>Worker events\<close>

definition find_event :: "TaskLedger \<Rightarrow> string \<Rightarrow> event_row option" where
  "find_event L eid = find (\<lambda>r. e_event_id (er_event r) = eid) (l_events L)"

text \<open>The fence: the event belongs to the run its task is currently driving.\<close>

definition event_current :: "TaskRecord \<Rightarrow> RunRecord \<Rightarrow> WorkerEvent \<Rightarrow> bool" where
  "event_current task run event \<longleftrightarrow>
     t_owner_id task = e_owner_id event \<and> t_project_id task = e_project_id event \<and>
     t_generation task = e_generation event \<and> t_active_run_id task = Some (e_run_id event) \<and>
     r_task_id run = e_task_id event \<and> r_generation run = e_generation event"

definition sequence_taken :: "TaskLedger \<Rightarrow> WorkerEvent \<Rightarrow> bool" where
  "sequence_taken L event \<longleftrightarrow>
     (\<exists>r \<in> set (l_events L). e_run_id (er_event r) = e_run_id event \<and>
        e_generation (er_event r) = e_generation event \<and> e_seq (er_event r) = e_seq event)"

definition append_event :: "TaskLedger \<Rightarrow> clock \<Rightarrow> WorkerEvent \<Rightarrow> (bool \<times> TaskLedger) res" where
  "append_event L clk event =
     (case find_event L (e_event_id event) of
        Some existing \<Rightarrow>
          (if er_event existing \<noteq> event
           then Inl (ValueError (''event_id collision: '' @ e_event_id event))
           else Inr (False, L))
      | None \<Rightarrow>
          (case (tbl_get (l_tasks L) (e_task_id event), tbl_get (l_runs L) (e_run_id event)) of
             (Some task, Some run) \<Rightarrow>
               (if \<not> event_current task run event then Inr (False, L)
                else if e_seq event \<le> r_last_event_seq run
                then Inl (ValueError (''non-monotonic event sequence for run '' @ e_run_id event))
                else if sequence_taken L event
                then Inl (ValueError (''event sequence collision for run '' @ e_run_id event))
                else bindE (RunRecord_init (run\<lparr>r_last_event_seq := e_seq event\<rparr>)) (\<lambda>run'.
                  Inr (True, add_entry ''worker_event'' (e_event_id event) (t_contract_revision task)
                    (e_created_at_ms event)
                    (L\<lparr>l_events := l_events L @ [\<lparr>er_event = event,
                         er_evaluated_revision = t_contract_revision task, er_processed = False\<rparr>],
                       l_runs := tbl_put (l_runs L) (r_run_id run) (t_owner_id task) run' (clk 0)\<rparr>))))
           | _ \<Rightarrow> Inr (False, L)))"

definition event_contract_revision :: "TaskLedger \<Rightarrow> string \<Rightarrow> int res" where
  "event_contract_revision L eid =
     (case find_event L eid of
        None \<Rightarrow> Inl (KeyError (''unknown worker event: '' @ eid))
      | Some r \<Rightarrow> Inr (er_evaluated_revision r))"

definition mark_event_processed :: "TaskLedger \<Rightarrow> string \<Rightarrow> (unit \<times> TaskLedger) res" where
  "mark_event_processed L eid =
     (if length (filter (\<lambda>r. e_event_id (er_event r) = eid) (l_events L)) \<noteq> 1
      then Inl (KeyError (''unknown worker event: '' @ eid))
      else Inr ((), L\<lparr>l_events :=
        map (\<lambda>r. if e_event_id (er_event r) = eid then r\<lparr>er_processed := True\<rparr> else r) (l_events L)\<rparr>))"

text \<open>
  \<open>ORDER BY COALESCE(entries.seq, events.rowid)\<close>: the place of the event's ledger entry, or the
  event's own row number when it has none.
\<close>

definition entry_seq :: "TaskLedger \<Rightarrow> string \<Rightarrow> nat option" where
  "entry_seq L eid =
     map_option fst (find (\<lambda>(i, e). le_kind e = ''worker_event'' \<and> le_entity_id e = eid)
       (enumerate 1 (l_entries L)))"

definition event_rank :: "TaskLedger \<Rightarrow> nat \<times> event_row \<Rightarrow> nat" where
  "event_rank L ir =
     (case entry_seq L (e_event_id (er_event (snd ir))) of Some n \<Rightarrow> n | None \<Rightarrow> fst ir)"

definition list_events :: "TaskLedger \<Rightarrow> string option \<Rightarrow> bool option \<Rightarrow> WorkerEvent list" where
  "list_events L task_id processed =
     map (er_event \<circ> snd) (sort_key (event_rank L)
       (filter (\<lambda>(i, r). (task_id = None \<or> task_id = Some (e_task_id (er_event r))) \<and>
            (processed = None \<or> processed = Some (er_processed r)))
         (enumerate 1 (l_events L))))"

section \<open>The invariant of the event log\<close>

definition event_ids :: "TaskLedger \<Rightarrow> string list" where
  "event_ids L = map (\<lambda>r. e_event_id (er_event r)) (l_events L)"

definition entry_ids :: "entry_row list \<Rightarrow> string list" where
  "entry_ids es = map le_entity_id (filter (\<lambda>e. le_kind e = ''worker_event'') es)"

definition before_in_run :: "WorkerEvent \<Rightarrow> WorkerEvent \<Rightarrow> bool" where
  "before_in_run x y \<longleftrightarrow> (e_run_id x = e_run_id y \<longrightarrow> e_seq x < e_seq y)"

text \<open>
  Event ids are distinct, every event belongs to a stored run that has counted it, the events of
  one run are stored in strictly increasing sequence, and the ledger's entries list them in the
  same order.
\<close>

definition events_ok :: "TaskLedger \<Rightarrow> bool" where
  "events_ok L \<longleftrightarrow>
     keyed r_run_id (l_runs L) \<and>
     distinct (event_ids L) \<and>
     entry_ids (l_entries L) = event_ids L \<and>
     sorted_wrt before_in_run (map er_event (l_events L)) \<and>
     (\<forall>r \<in> set (l_events L). \<exists>run. get_run L (e_run_id (er_event r)) = Some run \<and>
        r_generation run = e_generation (er_event r) \<and> e_seq (er_event r) \<le> r_last_event_seq run)"

lemma find_event_SomeD:
  "find_event L eid = Some r \<Longrightarrow> r \<in> set (l_events L) \<and> e_event_id (er_event r) = eid"
  by (auto simp: find_event_def dest: find_SomeD)

lemma find_event_None_iff: "find_event L eid = None \<longleftrightarrow> eid \<notin> set (event_ids L)"
  by (auto simp: find_event_def event_ids_def find_None_iff)

lemma find_event_mem:
  assumes "distinct (event_ids L)" and "r \<in> set (l_events L)"
  shows "find_event L (e_event_id (er_event r)) = Some r"
proof -
  have "find (\<lambda>x. f x = f r) xs = Some r" if "distinct (map f xs)" "r \<in> set xs"
    for f :: "event_row \<Rightarrow> string" and xs
    using that by (induction xs) (auto simp: rev_image_eqI)
  with assms show ?thesis by (simp add: find_event_def event_ids_def)
qed

text \<open>A successful append, step by step.\<close>

lemma append_event_TrueE:
  assumes "append_event L clk event = Inr (True, L')"
  obtains task run run' where "find_event L (e_event_id event) = None"
    and "get_task L (e_task_id event) = Some task" and "get_run L (e_run_id event) = Some run"
    and "event_current task run event" and "r_last_event_seq run < e_seq event"
    and "\<not> sequence_taken L event" and "run' = run\<lparr>r_last_event_seq := e_seq event\<rparr>"
    and "L' = add_entry ''worker_event'' (e_event_id event) (t_contract_revision task) (e_created_at_ms event)
       (L\<lparr>l_events := l_events L @ [\<lparr>er_event = event, er_evaluated_revision = t_contract_revision task,
             er_processed = False\<rparr>],
          l_runs := tbl_put (l_runs L) (r_run_id run) (t_owner_id task) run' (clk 0)\<rparr>)"
  using assms
  by (auto simp: append_event_def bindE_Inr_iff get_task_def get_run_def RunRecord_init_def
      split: option.splits if_splits)

lemma append_event_FalseD: "append_event L clk event = Inr (False, L') \<Longrightarrow> L' = L"
  by (auto simp: append_event_def bindE_Inr_iff split: option.splits if_splits)

lemma append_event_ok:
  assumes ok: "events_ok L" and a: "append_event L clk event = Inr (b, L')"
  shows "events_ok L'"
proof (cases b)
  case False
  with a ok show ?thesis by (auto dest: append_event_FalseD)
next
  case True
  with a obtain task run run' where n: "find_event L (e_event_id event) = None"
    and run: "get_run L (e_run_id event) = Some run" and cur: "event_current task run event"
    and seq: "r_last_event_seq run < e_seq event" and run': "run' = run\<lparr>r_last_event_seq := e_seq event\<rparr>"
    and L': "L' = add_entry ''worker_event'' (e_event_id event) (t_contract_revision task) (e_created_at_ms event)
       (L\<lparr>l_events := l_events L @ [\<lparr>er_event = event, er_evaluated_revision = t_contract_revision task,
             er_processed = False\<rparr>],
          l_runs := tbl_put (l_runs L) (r_run_id run) (t_owner_id task) run' (clk 0)\<rparr>)"
    by (auto elim: append_event_TrueE)
  have key: "r_run_id run = e_run_id event"
    using ok run by (auto simp: events_ok_def get_run_def dest: keyed_get)
  have gr: "get_run L' k = (if k = e_run_id event then Some run' else get_run L k)" for k
    by (simp add: L' add_entry_def get_run_def key)
  have old: "before_in_run (er_event r) event" if "r \<in> set (l_events L)" for r
    using ok that seq run by (fastforce simp: events_ok_def before_in_run_def)
  have runs: "\<exists>x. get_run L' (e_run_id (er_event r)) = Some x \<and>
      r_generation x = e_generation (er_event r) \<and> e_seq (er_event r) \<le> r_last_event_seq x"
    if r: "r \<in> set (l_events L)" for r
  proof -
    from ok r obtain x where x: "get_run L (e_run_id (er_event r)) = Some x"
      "r_generation x = e_generation (er_event r)" "e_seq (er_event r) \<le> r_last_event_seq x"
      by (auto simp: events_ok_def)
    with run seq show ?thesis by (auto simp: gr run')
  qed
  have e: "l_events L' = l_events L @ [\<lparr>er_event = event, er_evaluated_revision = t_contract_revision task,
             er_processed = False\<rparr>]"
    and en: "l_entries L' = l_entries L @ [\<lparr>le_kind = ''worker_event'', le_entity_id = e_event_id event,
       le_contract_revision = t_contract_revision task, le_created_at_ms = e_created_at_ms event\<rparr>]"
    and rs: "keyed r_run_id (l_runs L')"
    using ok by (auto simp: L' add_entry_def events_ok_def run' intro: keyed_put)
  show ?thesis
    unfolding events_ok_def
  proof (intro conjI)
    show "distinct (event_ids L')" "entry_ids (l_entries L') = event_ids L'"
      using ok n by (auto simp: events_ok_def e en event_ids_def entry_ids_def find_event_None_iff)
    show "sorted_wrt before_in_run (map er_event (l_events L'))"
      using ok old by (auto simp: events_ok_def e sorted_wrt_append)
    show "\<forall>r \<in> set (l_events L'). \<exists>x. get_run L' (e_run_id (er_event r)) = Some x \<and>
        r_generation x = e_generation (er_event r) \<and> e_seq (er_event r) \<le> r_last_event_seq x"
      using runs cur by (auto simp: e gr run' event_current_def)
  qed (rule rs)
qed

lemma save_run_events_ok:
  assumes ok: "events_ok L" and s: "save_run L clk run own = Inr (u, L')"
  shows "events_ok L'"
proof -
  from s have L': "L' = L\<lparr>l_runs := tbl_put (l_runs L) (r_run_id run) own run (clk 0)\<rparr>"
    and v: "\<And>old. get_run L (r_run_id run) = Some old \<Longrightarrow> validate_run_transition old run = None"
    by (auto simp: save_run_def get_run_def split: option.splits)
  have "\<exists>x. get_run L' (e_run_id (er_event r)) = Some x \<and>
      r_generation x = e_generation (er_event r) \<and> e_seq (er_event r) \<le> r_last_event_seq x"
    if "r \<in> set (l_events L)" for r
    using ok that v by (fastforce simp: events_ok_def L' get_run_def validate_run_None_iff)
  then show ?thesis
    using ok by (auto simp: events_ok_def L' event_ids_def intro: keyed_put)
qed

lemma mark_event_ok:
  assumes ok: "events_ok L" and m: "mark_event_processed L eid = Inr (u, L')"
  shows "events_ok L'"
proof -
  let ?f = "\<lambda>r. if e_event_id (er_event r) = eid then r\<lparr>er_processed := True\<rparr> else r"
  have f: "er_event (?f r) = er_event r" for r by simp
  from m have L': "L' = L\<lparr>l_events := map ?f (l_events L)\<rparr>"
    by (simp add: mark_event_processed_def split: if_splits)
  have ev: "map er_event (l_events L') = map er_event (l_events L)"
    by (simp add: L' f)
  then have ids: "event_ids L' = event_ids L"
    unfolding event_ids_def by (metis (no_types, lifting) list.map_comp comp_def map_eq_conv)
  have "l_runs L' = l_runs L" "l_entries L' = l_entries L" by (simp_all add: L')
  moreover have "\<exists>x \<in> set (l_events L). er_event r = er_event x" if "r \<in> set (l_events L')" for r
    using that by (auto simp: L')
  ultimately show ?thesis
    using ok unfolding events_ok_def ev ids get_run_def by metis
qed

section \<open>The order of the log\<close>

definition entry_pos :: "nat \<Rightarrow> entry_row list \<Rightarrow> string \<Rightarrow> nat option" where
  "entry_pos n es eid =
     map_option fst (find (\<lambda>(i, e). le_kind e = ''worker_event'' \<and> le_entity_id e = eid) (enumerate n es))"

lemma entry_pos_order:
  "distinct (entry_ids es) \<Longrightarrow>
   sorted_wrt (<) (map (\<lambda>k. the (entry_pos n es k)) (entry_ids es)) \<and>
   (\<forall>k \<in> set (entry_ids es). \<exists>i \<ge> n. entry_pos n es k = Some i)"
proof (induction es arbitrary: n)
  case (Cons e es)
  have later: "entry_pos n (e # es) k = entry_pos (Suc n) es k"
    if "le_kind e \<noteq> ''worker_event'' \<or> le_entity_id e \<noteq> k" for k
    using that by (auto simp: entry_pos_def)
  show ?case
  proof (cases "le_kind e = ''worker_event''")
    case True
    then have ids: "entry_ids (e # es) = le_entity_id e # entry_ids es" by (simp add: entry_ids_def)
    with Cons.prems have d: "distinct (entry_ids es)" "le_entity_id e \<notin> set (entry_ids es)" by simp_all
    have hd: "entry_pos n (e # es) (le_entity_id e) = Some n"
      using True by (simp add: entry_pos_def)
    have eq: "entry_pos n (e # es) k = entry_pos (Suc n) es k" if "k \<in> set (entry_ids es)" for k
      using that d(2) by (intro later) auto
    show ?thesis
      using Cons.IH [OF d(1), of "Suc n"] hd eq
      by (fastforce simp: ids cong: map_cong)
  next
    case False
    then have "entry_ids (e # es) = entry_ids es" by (simp add: entry_ids_def)
    with Cons False show ?thesis
      by (auto simp: later dest: Suc_leD cong: map_cong) (metis Suc_leD)
  qed
qed (simp add: entry_ids_def)

lemma sort_key_sorted: "sorted (map f xs) \<Longrightarrow> sort_key f xs = xs"
  by (induction xs) (auto intro: insort_is_Cons)

lemma sorted_map_filter: "sorted (map f xs) \<Longrightarrow> sorted (map f (filter P xs))"
  by (induction xs) auto

lemma list_events_order:
  assumes ok: "events_ok L"
  shows "list_events L task_id processed = map er_event
    (filter (\<lambda>r. (task_id = None \<or> task_id = Some (e_task_id (er_event r))) \<and>
       (processed = None \<or> processed = Some (er_processed r))) (l_events L))"
proof -
  let ?P = "\<lambda>r. (task_id = None \<or> task_id = Some (e_task_id (er_event r))) \<and>
       (processed = None \<or> processed = Some (er_processed r))"
  have d: "distinct (entry_ids (l_entries L))" and ids: "entry_ids (l_entries L) = event_ids L"
    using ok by (simp_all add: events_ok_def)
  note order = entry_pos_order [OF d, of 1, unfolded ids]
  have "event_rank L (i, r) = the (entry_pos 1 (l_entries L) (e_event_id (er_event r)))"
    if "r \<in> set (l_events L)" for i r
    using order that by (force simp: event_rank_def entry_seq_def entry_pos_def event_ids_def)
  then have "map (event_rank L) (enumerate 1 (l_events L)) =
      map (\<lambda>k. the (entry_pos 1 (l_entries L) k)) (event_ids L)"
    by (auto simp: event_ids_def list_eq_iff_nth_eq nth_enumerate_eq)
  then have "sorted (map (event_rank L) (enumerate 1 (l_events L)))"
    using order by (simp add: strict_sorted_imp_sorted)
  then have "sort_key (event_rank L) (filter (\<lambda>(i, r). ?P r) (enumerate 1 (l_events L))) =
      filter (\<lambda>(i, r). ?P r) (enumerate 1 (l_events L))"
    by (intro sort_key_sorted sorted_map_filter)
  moreover have "map (er_event \<circ> snd) (filter (\<lambda>(i, r). ?P r) (enumerate n xs)) = map er_event (filter ?P xs)"
    for n xs by (induction xs arbitrary: n) auto
  ultimately show ?thesis
    unfolding list_events_def by simp
qed

section \<open>Properties\<close>

text \<open>C1: Worker events are fenced and persisted once.  An event is accepted only from the run that
  its task currently drives, in the task's generation and project, with a sequence number above all
  the run has counted; it is then stored unprocessed under the contract revision the task had, the
  run counts it, and replaying it is refused without changing the ledger.  A refused event changes
  nothing.\<close>

theorem append_event_fenced:
  assumes ok: "events_ok L" and a: "append_event L clk event = Inr (b, L')"
  shows "if b then
      (\<exists>task run. get_task L (e_task_id event) = Some task \<and> get_run L (e_run_id event) = Some run \<and>
         t_active_run_id task = Some (e_run_id event) \<and> t_generation task = e_generation event \<and>
         t_project_id task = e_project_id event \<and> t_owner_id task = e_owner_id event \<and>
         r_task_id run = e_task_id event \<and> r_last_event_seq run < e_seq event \<and>
         find_event L (e_event_id event) = None \<and>
         find_event L' (e_event_id event) = Some \<lparr>er_event = event,
           er_evaluated_revision = t_contract_revision task, er_processed = False\<rparr> \<and>
         get_run L' (e_run_id event) = Some (run\<lparr>r_last_event_seq := e_seq event\<rparr>)) \<and>
      append_event L' clk' event = Inr (False, L')
    else L' = L"
proof (cases b)
  case True
  with a have "append_event L clk event = Inr (True, L')" by simp
  then show ?thesis
  proof (rule append_event_TrueE)
    fix task run run'
    assume n: "find_event L (e_event_id event) = None"
      and h: "get_task L (e_task_id event) = Some task" "get_run L (e_run_id event) = Some run"
        "event_current task run event" "r_last_event_seq run < e_seq event"
      and run': "run' = run\<lparr>r_last_event_seq := e_seq event\<rparr>"
      and L': "L' = add_entry ''worker_event'' (e_event_id event) (t_contract_revision task) (e_created_at_ms event)
       (L\<lparr>l_events := l_events L @ [\<lparr>er_event = event, er_evaluated_revision = t_contract_revision task,
             er_processed = False\<rparr>],
          l_runs := tbl_put (l_runs L) (r_run_id run) (t_owner_id task) run' (clk 0)\<rparr>)"
    have key: "r_run_id run = e_run_id event"
      using ok h by (auto simp: events_ok_def get_run_def dest: keyed_get)
    have f: "find_event L' (e_event_id event) = Some \<lparr>er_event = event,
           er_evaluated_revision = t_contract_revision task, er_processed = False\<rparr>"
      using n by (simp add: find_event_def L' add_entry_def find_append)
    then have "append_event L' clk' event = Inr (False, L')" by (simp add: append_event_def)
    with True n h f key show ?thesis
      by (simp add: event_current_def L' add_entry_def get_run_def run')
  qed
qed (use a in \<open>auto dest: append_event_FalseD\<close>)

text \<open>In a ledger that satisfies its invariant no live event is lost: a valid event with a new id,
  from the run its task currently drives and above the run's counter, is always accepted, so the
  sequence-collision branch is never taken.\<close>

theorem live_event_is_accepted:
  assumes ok: "events_ok L" and n: "find_event L (e_event_id event) = None"
    and task: "get_task L (e_task_id event) = Some task"
    and run: "get_run L (e_run_id event) = Some run" "RunRecord_init run = Inr run"
    and cur: "event_current task run event" and seq: "r_last_event_seq run < e_seq event"
  shows "\<exists>L'. append_event L clk event = Inr (True, L') \<and> events_ok L'"
proof -
  have "\<not> sequence_taken L event"
    using ok run seq by (fastforce simp: sequence_taken_def events_ok_def)
  moreover have "RunRecord_init (run\<lparr>r_last_event_seq := e_seq event\<rparr>) =
      Inr (run\<lparr>r_last_event_seq := e_seq event\<rparr>)"
    using run(2) seq by (simp add: RunRecord_init_def required_def split: if_splits)
  ultimately have "\<exists>L'. append_event L clk event = Inr (True, L')"
    using n task run(1) cur seq by (simp add: append_event_def get_task_def get_run_def)
  with append_event_ok [OF ok] show ?thesis by blast
qed

text \<open>Whatever the filter, the events of one run are listed with strictly increasing sequence
  numbers and no event twice.\<close>

theorem listed_events_in_sequence:
  assumes ok: "events_ok L"
  shows "sorted_wrt (<) (map e_seq (filter (\<lambda>e. e_run_id e = rid) (list_events L task_id processed))) \<and>
    distinct (map e_event_id (list_events L task_id processed))"
proof
  let ?es = "map er_event (l_events L)"
  have "sorted_wrt before_in_run (list_events L task_id processed)"
    unfolding list_events_order [OF ok] using ok
    by (simp add: events_ok_def sorted_wrt_map sorted_wrt_filter)
  then show "sorted_wrt (<) (map e_seq (filter (\<lambda>e. e_run_id e = rid) (list_events L task_id processed)))"
    unfolding sorted_wrt_map
    by (rule sorted_wrt_mono_rel [OF _ sorted_wrt_filter, rotated]) (auto simp: before_in_run_def)
  show "distinct (map e_event_id (list_events L task_id processed))"
    unfolding list_events_order [OF ok] using ok
    by (simp add: events_ok_def event_ids_def comp_def distinct_map_filter)
qed

section \<open>The invariant of the aggregates\<close>

text \<open>The last 32 events of an aggregate are kept and all are counted.\<close>

definition aggregate_ok :: "ActivityAggregate \<Rightarrow> bool" where
  "aggregate_ok g \<longleftrightarrow> g_event_ids g \<noteq> [] \<and> distinct (g_event_ids g) \<and>
     length (g_summaries g) = length (g_event_ids g) \<and>
     int (length (g_event_ids g)) = min 32 (g_event_count g)"

definition same_window :: "ActivityAggregate \<Rightarrow> ActivityAggregate \<Rightarrow> bool" where
  "same_window g h \<longleftrightarrow> g_owner_id g = g_owner_id h \<and> g_task_id g = g_task_id h \<and>
     g_contract_revision g = g_contract_revision h"

definition get_aggregate :: "TaskLedger \<Rightarrow> string \<Rightarrow> ActivityAggregate option" where
  "get_aggregate L k = tbl_get (l_aggregates L) k"

text \<open>Aggregates are valid and a task has at most one open aggregate per contract revision.\<close>

definition aggregates_ok :: "TaskLedger \<Rightarrow> bool" where
  "aggregates_ok L \<longleftrightarrow>
     own_keyed g_aggregate_id g_owner_id (l_aggregates L) \<and>
     (\<forall>k g. get_aggregate L k = Some g \<longrightarrow> aggregate_ok g) \<and>
     (\<forall>k g j h. get_aggregate L k = Some g \<longrightarrow> get_aggregate L j = Some h \<longrightarrow>
        g_state g = AOpen \<longrightarrow> g_state h = AOpen \<longrightarrow> same_window g h \<longrightarrow> k = j)"

lemma aggregates_okD:
  assumes "aggregates_ok L"
  shows "own_keyed g_aggregate_id g_owner_id (l_aggregates L)"
    and "get_aggregate L k = Some g \<Longrightarrow> aggregate_ok g"
    and "get_aggregate L k = Some g \<Longrightarrow> get_aggregate L j = Some h \<Longrightarrow> g_state g = AOpen \<Longrightarrow>
      g_state h = AOpen \<Longrightarrow> same_window g h \<Longrightarrow> k = j"
  using assms unfolding aggregates_ok_def by blast+

lemma aggregate_ok_init: "aggregate_ok g \<Longrightarrow> ActivityAggregate_init g = Inr g"
  by (auto simp: aggregate_ok_def ActivityAggregate_init_def)

lemma last_n_snoc_ok: "0 < n \<Longrightarrow> last_n n (xs @ [x]) \<noteq> [] \<and> last (last_n n (xs @ [x])) = x"
  by (simp add: last_n_snoc)

lemma distinct_last_n: "distinct xs \<Longrightarrow> distinct (last_n n xs)"
  by (simp add: last_n_def)

lemma aggregate_with_ok:
  assumes "aggregate_ok g" and "e \<notin> set (g_event_ids g)"
  shows "aggregate_ok (aggregate_with g e s)"
  using assms last_n_snoc_ok [of 32 "g_event_ids g" e]
  by (auto simp: aggregate_ok_def aggregate_with_def intro!: distinct_last_n)

lemma aggregate_with_fields [simp]:
  "g_aggregate_id (aggregate_with g e s) = g_aggregate_id g"
  "g_owner_id (aggregate_with g e s) = g_owner_id g"
  "g_state (aggregate_with g e s) = g_state g"
  "g_event_count (aggregate_with g e s) = g_event_count g + 1"
  "same_window (aggregate_with g e s) h = same_window g h"
  "same_window h (aggregate_with g e s) = same_window h g"
  "e \<in> set (g_event_ids (aggregate_with g e s))"
  "g_contract_revision (aggregate_with g e s) = g_contract_revision g"
  "g_task_id (aggregate_with g e s) = g_task_id g"
  by (simp_all add: aggregate_with_def same_window_def last_n_snoc)

lemma sort_key_Nil_iff: "sort_key f xs = [] \<longleftrightarrow> xs = []"
  by (metis length_0_conv length_sort)

lemma open_aggregate_None_iff:
  assumes "own_keyed g_aggregate_id g_owner_id (l_aggregates L)"
  shows "open_aggregate L own tid rv = None \<longleftrightarrow>
    (\<forall>k g. get_aggregate L k = Some g \<longrightarrow>
       \<not> (g_owner_id g = own \<and> g_task_id g = tid \<and> g_contract_revision g = rv \<and> g_state g = AOpen))"
proof -
  let ?P = "\<lambda>r. row_owner r = own \<and> g_task_id (row_payload r) = tid \<and>
    g_contract_revision (row_payload r) = rv \<and> g_state (row_payload r) = AOpen"
  have "open_aggregate L own tid rv = None \<longleftrightarrow>
      sort_key (\<lambda>r. - row_updated r) (filter ?P (l_aggregates L)) = []"
    by (auto simp: open_aggregate_def split: list.splits)
  also have "\<dots> \<longleftrightarrow> (\<forall>r \<in> set (l_aggregates L). \<not> ?P r)"
    by (simp add: sort_key_Nil_iff filter_empty_conv)
  also have "\<dots> \<longleftrightarrow> (\<forall>r \<in> set (l_aggregates L). \<not> (g_owner_id (row_payload r) = own \<and>
      g_task_id (row_payload r) = tid \<and> g_contract_revision (row_payload r) = rv \<and>
      g_state (row_payload r) = AOpen))"
    using assms by (auto simp: own_keyed_def)
  also have "\<dots> \<longleftrightarrow> (\<forall>k g. get_aggregate L k = Some g \<longrightarrow>
       \<not> (g_owner_id g = own \<and> g_task_id g = tid \<and> g_contract_revision g = rv \<and> g_state g = AOpen))"
    using keyed_row_get [OF own_keyed_keyed [OF assms]]
    by (auto simp: get_aggregate_def dest!: tbl_get_SomeD)
  finally show ?thesis .
qed

lemma open_aggregate_SomeD:
  assumes "own_keyed g_aggregate_id g_owner_id (l_aggregates L)"
    and "open_aggregate L own tid rv = Some g"
  shows "get_aggregate L (g_aggregate_id g) = Some g \<and> g_owner_id g = own \<and> g_task_id g = tid \<and>
    g_contract_revision g = rv \<and> g_state g = AOpen"
proof -
  let ?P = "\<lambda>r. row_owner r = own \<and> g_task_id (row_payload r) = tid \<and>
    g_contract_revision (row_payload r) = rv \<and> g_state (row_payload r) = AOpen"
  from assms(2) obtain r rest where "sort_key (\<lambda>r. - row_updated r) (filter ?P (l_aggregates L)) = r # rest"
    and g: "g = row_payload r"
    by (auto simp: open_aggregate_def split: list.splits)
  then have "r \<in> set (sort_key (\<lambda>r. - row_updated r) (filter ?P (l_aggregates L)))" by simp
  then have r: "r \<in> set (l_aggregates L)" "?P r" by (simp_all only: set_sort set_filter mem_Collect_eq)
  with assms(1) g show ?thesis
    using keyed_row_get [OF own_keyed_keyed [OF assms(1)] r(1)]
    by (auto simp: get_aggregate_def own_keyed_def)
qed

lemma put_aggregate_ok:
  assumes ok: "aggregates_ok L" and g: "aggregate_ok g"
    and alone: "\<And>k h. get_aggregate L k = Some h \<Longrightarrow> k \<noteq> g_aggregate_id g \<Longrightarrow> g_state h = AOpen \<Longrightarrow>
      g_state g = AOpen \<Longrightarrow> \<not> same_window g h"
  shows "aggregates_ok (put_aggregate L now g)"
proof -
  have sym: "same_window a b \<Longrightarrow> same_window b a" for a b
    by (auto simp: same_window_def)
  have get: "get_aggregate (put_aggregate L now g) k =
      (if k = g_aggregate_id g then Some g else get_aggregate L k)" for k
    by (simp add: get_aggregate_def put_aggregate_def)
  have "own_keyed g_aggregate_id g_owner_id (l_aggregates (put_aggregate L now g))"
    using aggregates_okD(1) [OF ok] by (simp add: put_aggregate_def own_keyed_put)
  moreover have "aggregate_ok a" if "get_aggregate (put_aggregate L now g) k = Some a" for k a
    using that g aggregates_okD(2) [OF ok] by (auto simp: get split: if_splits)
  moreover have "k = j" if h: "get_aggregate (put_aggregate L now g) k = Some a"
    "get_aggregate (put_aggregate L now g) j = Some b" "g_state a = AOpen" "g_state b = AOpen"
    "same_window a b" for k j a b
  proof (rule ccontr)
    assume ne: "k \<noteq> j"
    have kj: "k = g_aggregate_id g \<longrightarrow> a = g" "j = g_aggregate_id g \<longrightarrow> b = g"
      using h(1,2) unfolding get by (simp_all split: if_splits)
    show False
    proof (cases "k = g_aggregate_id g")
      case True
      with ne have "get_aggregate L j = Some b" "j \<noteq> g_aggregate_id g"
        using h(2) unfolding get by (simp_all split: if_splits)
      from alone [OF this] h True kj show False by simp
    next
      case k: False
      with h(1) have ka: "get_aggregate L k = Some a" unfolding get by simp
      show False
      proof (cases "j = g_aggregate_id g")
        case True
        with alone [OF ka k] h kj sym show False by simp
      next
        case False
        with h(2) have "get_aggregate L j = Some b" unfolding get by simp
        from aggregates_okD(3) [OF ok ka this] h ne show False by simp
      qed
    qed
  qed
  ultimately show ?thesis unfolding aggregates_ok_def by blast
qed

lemma append_activity_result:
  assumes ok: "aggregates_ok L" and fresh: "get_aggregate L aid = None"
    and a: "append_activity_aggregate L clk aid event rv window = Inr (g, L')"
  shows "aggregates_ok L' \<and> get_aggregate L' (g_aggregate_id g) = Some g \<and> g_owner_id g = e_owner_id event \<and>
    g_task_id g = e_task_id event \<and> g_contract_revision g = rv \<and> g_state g = AOpen \<and> e_event_id event \<in> set (g_event_ids g) \<and>
    (case open_aggregate L (e_owner_id event) (e_task_id event) rv of
       None \<Rightarrow> g_event_count g = 1
     | Some old \<Rightarrow> g_aggregate_id g = g_aggregate_id old \<and>
         g_event_count g = g_event_count old + (if e_event_id event \<in> set (g_event_ids old) then 0 else 1))"
proof -
  let ?own = "e_owner_id event" and ?tid = "e_task_id event" and ?eid = "e_event_id event"
  have st: "own_keyed g_aggregate_id g_owner_id (l_aggregates L)" by (rule aggregates_okD(1) [OF ok])
  from a obtain p where p: "e_payload event = PUpdate p" "up_kind p = ''activity''" "1 \<le> window"
    by (auto simp: append_activity_aggregate_def split: if_splits WorkerPayload.splits)
  show ?thesis
  proof (cases "open_aggregate L ?own ?tid rv")
    case None
    define g0 where "g0 = \<lparr>g_aggregate_id = aid, g_owner_id = ?own, g_task_id = ?tid,
        g_contract_revision = rv, g_event_ids = [?eid], g_summaries = [up_summary p],
        g_event_count = 1, g_due_at_ms = clk 0 + window, g_state = AOpen,
        g_created_at_ms = clk (Suc 0), g_flushed_at_ms = None\<rparr>"
    have v: "aggregate_ok g0" by (simp add: g0_def aggregate_ok_def)
    then have r: "g = g0" "L' = put_aggregate L (clk 2) g0"
      using a None p aggregate_ok_init [OF v]
      by (auto simp: append_activity_aggregate_def g0_def [symmetric])
    have "aggregates_ok L'"
      unfolding r using None open_aggregate_None_iff [OF st]
      by (intro put_aggregate_ok [OF ok v]) (auto simp: g0_def same_window_def)
    with None show ?thesis
      by (simp add: r get_aggregate_def put_aggregate_def) (simp add: g0_def)
  next
    case (Some old)
    note old = open_aggregate_SomeD [OF st Some]
    show ?thesis
    proof (cases "?eid \<in> set (g_event_ids old)")
      case True
      with a Some p have "g = old" "L' = L" by (auto simp: append_activity_aggregate_def)
      with ok old Some True show ?thesis by simp
    next
      case False
      let ?g = "aggregate_with old ?eid (up_summary p)"
      have v: "aggregate_ok ?g"
        using aggregates_okD(2) [OF ok] old False by (blast intro: aggregate_with_ok)
      then have r: "g = ?g" "L' = put_aggregate L (clk 0) ?g"
        using a Some p False aggregate_ok_init [OF v]
        by (auto simp: append_activity_aggregate_def)
      have "aggregates_ok L'"
        unfolding r
      proof (rule put_aggregate_ok [OF ok v])
        fix k h assume "get_aggregate L k = Some h" "k \<noteq> g_aggregate_id ?g" "g_state h = AOpen"
        with aggregates_okD(3) [OF ok, of "g_aggregate_id old" old k h] old
        show "\<not> same_window ?g h" by auto
      qed
      with old Some False show ?thesis
        by (simp add: r get_aggregate_def put_aggregate_def)
    qed
  qed
qed

section \<open>Properties of evidence and activity\<close>

text \<open>Evidence is immutable: saving an artifact succeeds only for a task of its owner, leaves
  every other artifact alone, and when the reference was taken the stored artifact stays exactly as
  it was and has the same owner, task and facts.\<close>

theorem artifact_evidence_immutable:
  assumes "save_artifact L clk a = Inr (u, L')"
  shows "(\<exists>t. get_task L (a_task_id a) = Some t \<and> t_owner_id t = a_owner_id a) \<and>
    (\<forall>r. r \<noteq> a_ref a \<longrightarrow> get_artifact L' r = get_artifact L r) \<and>
    (case get_artifact L (a_ref a) of
       None \<Rightarrow> get_artifact L' (a_ref a) = Some a
     | Some old \<Rightarrow> L' = L \<and> a_owner_id old = a_owner_id a \<and> a_task_id old = a_task_id a \<and>
         json_eq (JObj (a_facts old)) (JObj (a_facts a)))"
  using assms
  by (auto simp: save_artifact_def get_artifact_def tbl_get_insert simp del: json_eq.simps
      split: option.splits if_splits sum.splits)

text \<open>Activity is folded into one bounded aggregate: after a successful call the event is in the
  task's only open aggregate for that contract revision, which counts one event more than the open
  aggregate before unless the event is one of the last 32 already there, keeps at most the last 32
  ids, and absorbs a replay without any change.\<close>

theorem activity_is_folded:
  assumes ok: "aggregates_ok L" and fresh: "get_aggregate L aid = None"
    and a: "append_activity_aggregate L clk aid event rv window = Inr (g, L')"
  shows "aggregates_ok L' \<and> get_aggregate L' (g_aggregate_id g) = Some g \<and>
    open_aggregate L' (e_owner_id event) (e_task_id event) rv = Some g \<and>
    e_event_id event \<in> set (g_event_ids g) \<and> length (g_event_ids g) \<le> 32 \<and>
    (case open_aggregate L (e_owner_id event) (e_task_id event) rv of
       None \<Rightarrow> g_event_count g = 1
     | Some old \<Rightarrow> g_aggregate_id g = g_aggregate_id old \<and>
         g_event_count g = g_event_count old + (if e_event_id event \<in> set (g_event_ids old) then 0 else 1)) \<and>
    append_activity_aggregate L' clk' aid' event rv window = Inr (g, L')"
proof -
  let ?own = "e_owner_id event" and ?tid = "e_task_id event" and ?eid = "e_event_id event"
  from a obtain p where p: "e_payload event = PUpdate p" "up_kind p = ''activity''" "1 \<le> window"
    by (auto simp: append_activity_aggregate_def split: if_splits WorkerPayload.splits)
  note result = append_activity_result [OF ok fresh a]
  then have st': "own_keyed g_aggregate_id g_owner_id (l_aggregates L')" by (blast dest: aggregates_okD(1))
  have "open_aggregate L' ?own ?tid rv \<noteq> None"
    using result open_aggregate_None_iff [OF st'] by blast
  then obtain h where h: "open_aggregate L' ?own ?tid rv = Some h" by blast
  with result open_aggregate_SomeD [OF st' h] have "g_aggregate_id h = g_aggregate_id g"
    using aggregates_okD(3) [of L' "g_aggregate_id h" h "g_aggregate_id g" g] by (simp add: same_window_def)
  with result open_aggregate_SomeD [OF st' h] have "h = g" by simp
  moreover have "length (g_event_ids g) \<le> 32"
    using result aggregates_okD(2) [of L' _ g] by (fastforce simp: aggregate_ok_def)
  ultimately show ?thesis
    using result h p by (simp add: append_activity_aggregate_def)
qed

end
