(* ===== verification/LedgerInteractions.thy ===== *)
theory LedgerInteractions
  imports Ledger
begin

text \<open>
  Interactions of \<open>TaskLedger\<close> (supervision.py): questions, choices and permissions that wait for an
  answer.  The two-phase resolution lets exactly one caller work on an answer, and an expired or
  invalidated permission is a denial.

  \<open>replace_interaction_valid\<close> shows that the constructor accepts the changed copies these operations
  make of a valid record, so the changed record is written directly.
\<close>

section \<open>Operations\<close>

definition put_interaction :: "TaskLedger \<Rightarrow> int \<Rightarrow> PendingInteraction \<Rightarrow> TaskLedger" where
  "put_interaction L now i =
     L\<lparr>l_interactions := tbl_put (l_interactions L) (i_interaction_id i) (i_owner_id i) i now\<rparr>"

definition save_interaction :: "TaskLedger \<Rightarrow> clock \<Rightarrow> PendingInteraction \<Rightarrow> TaskLedger" where
  "save_interaction L clk i = put_interaction L (clk 0) i"

definition get_interaction :: "TaskLedger \<Rightarrow> string \<Rightarrow> PendingInteraction option" where
  "get_interaction L k = tbl_get (l_interactions L) k"

definition list_interactions :: "TaskLedger \<Rightarrow> string option \<Rightarrow> PendingInteraction list" where
  "list_interactions L own = tbl_list (l_interactions L) own"

definition PERMISSION_DECISIONS :: "string list" where
  "PERMISSION_DECISIONS = [''allow'', ''allow_once'', ''allow_session'', ''approve'', ''deny'']"

text \<open>The checks of an answer, and the decision it stands for.\<close>

definition answer_checks :: "PendingInteraction \<Rightarrow> string option \<Rightarrow> py_error option" where
  "answer_checks i decision = raise_first
     [(i_kind i = ''choice'' \<and> (case decision of None \<Rightarrow> False | Some d \<Rightarrow> d \<notin> set (i_choices i)),
        ValueError ''choice decision must be one of the interaction choices''),
      (i_kind i = ''permission'' \<and> (case decision of None \<Rightarrow> True | Some d \<Rightarrow> d \<notin> set PERMISSION_DECISIONS),
        ValueError ''permission decision must explicitly allow or deny'')]"

definition normalized_decision :: "PendingInteraction \<Rightarrow> string \<Rightarrow> string option \<Rightarrow> string option" where
  "normalized_decision i response decision =
     (if i_kind i = ''choice'' \<and> decision = None \<and> response \<in> set (i_choices i)
      then Some response else decision)"

definition resolving_copy ::
  "PendingInteraction \<Rightarrow> string \<Rightarrow> string option \<Rightarrow> PendingInteraction" where
  "resolving_copy i response decision =
     i\<lparr>i_state := IResolving, i_response := response,
       i_decision := normalized_decision i response decision\<rparr>"

definition begin_interaction_resolution ::
  "TaskLedger \<Rightarrow> clock \<Rightarrow> string \<Rightarrow> string \<Rightarrow> string option \<Rightarrow>
   (PendingInteraction option \<times> TaskLedger) res" where
  "begin_interaction_resolution L clk interaction_id response decision =
     (case tbl_get (l_interactions L) interaction_id of
        None \<Rightarrow> Inl (KeyError (''unknown interaction: '' @ interaction_id))
      | Some current \<Rightarrow>
          (if i_state current \<noteq> IPending then Inr (None, L)
           else (case answer_checks current decision of
              Some e \<Rightarrow> Inl e
            | None \<Rightarrow>
                (let resolving = resolving_copy current response decision;
                     (t', rowcount) = tbl_update (l_interactions L)
                       (\<lambda>r. row_id r = interaction_id \<and> i_state (row_payload r) = IPending)
                       resolving (clk 0)
                 in Inr (if rowcount = 1 then Some resolving else None, L\<lparr>l_interactions := t'\<rparr>)))))"

definition settled_copy :: "bool \<Rightarrow> int \<Rightarrow> PendingInteraction \<Rightarrow> PendingInteraction" where
  "settled_copy success now i =
     i\<lparr>i_state := (if success then IResolved else IPending),
       i_resolved_at_ms := (if success then Some now else None),
       i_response := (if success then i_response i else []),
       i_decision := (if success then i_decision i else None)\<rparr>"

definition finish_interaction_resolution ::
  "TaskLedger \<Rightarrow> clock \<Rightarrow> string \<Rightarrow> bool \<Rightarrow> (PendingInteraction \<times> TaskLedger) res" where
  "finish_interaction_resolution L clk interaction_id success =
     (case tbl_get (l_interactions L) interaction_id of
        None \<Rightarrow> Inl (KeyError (''unknown interaction: '' @ interaction_id))
      | Some current \<Rightarrow>
          (if i_state current \<noteq> IResolving then Inl (ValueError ''interaction is not being resolved'')
           else (let updated = settled_copy success (clk 0) current
                 in Inr (updated, put_interaction L (clk (if success then 1 else 0)) updated))))"

definition find_interaction_by_fingerprint :: "TaskLedger \<Rightarrow> string \<Rightarrow> PendingInteraction option" where
  "find_interaction_by_fingerprint L fp =
     (case sort_key (\<lambda>r. - row_updated r)
         (filter (\<lambda>r. i_fingerprint (row_payload r) = fp) (l_interactions L)) of
        [] \<Rightarrow> None | r # _ \<Rightarrow> Some (row_payload r))"

definition due :: "int \<Rightarrow> PendingInteraction \<Rightarrow> bool" where
  "due timestamp i \<longleftrightarrow>
     i_state i = IPending \<and> (case i_expires_at_ms i of None \<Rightarrow> False | Some e \<Rightarrow> e \<le> timestamp)"

definition expired_copy :: "int \<Rightarrow> PendingInteraction \<Rightarrow> PendingInteraction" where
  "expired_copy timestamp i =
     i\<lparr>i_state := IExpired,
       i_decision := (if i_kind i = ''permission'' then Some ''deny'' else None),
       i_response := (if i_kind i = ''permission'' then ''Permission expired'' else i_response i),
       i_resolved_at_ms := Some timestamp\<rparr>"

definition expire_due_interactions ::
  "TaskLedger \<Rightarrow> clock \<Rightarrow> int option \<Rightarrow> PendingInteraction list \<times> TaskLedger" where
  "expire_due_interactions L clk timestamp_ms =
     (let (timestamp, n) = (case timestamp_ms of None \<Rightarrow> (clk 0, 1) | Some ts \<Rightarrow> (ts, 0));
          rows = map row_payload (filter (\<lambda>r. due timestamp (row_payload r)) (l_interactions L))
      in (map (expired_copy timestamp) rows,
          L\<lparr>l_interactions := put_all i_interaction_id i_owner_id (expired_copy timestamp) clk n rows
               (l_interactions L)\<rparr>))"

definition open_permission :: "PendingInteraction \<Rightarrow> bool" where
  "open_permission i \<longleftrightarrow> i_state i \<in> {IPending, IResolving} \<and> i_kind i = ''permission''"

definition invalidated_copy :: "int \<Rightarrow> PendingInteraction \<Rightarrow> PendingInteraction" where
  "invalidated_copy timestamp i =
     i\<lparr>i_state := IExpired, i_response := ''Permission invalidated by Gateway restart'',
       i_decision := Some ''deny'', i_resolved_at_ms := Some timestamp\<rparr>"

definition expire_pending_permissions ::
  "TaskLedger \<Rightarrow> clock \<Rightarrow> PendingInteraction list \<times> TaskLedger" where
  "expire_pending_permissions L clk =
     (let rows = map row_payload (filter (\<lambda>r. open_permission (row_payload r)) (l_interactions L))
      in (map (invalidated_copy (clk 0)) rows,
          L\<lparr>l_interactions := put_all i_interaction_id i_owner_id (invalidated_copy (clk 0)) clk 1 rows
               (l_interactions L)\<rparr>))"

section \<open>Laws\<close>

definition interactions_keyed :: "TaskLedger \<Rightarrow> bool" where
  "interactions_keyed L \<longleftrightarrow> own_keyed i_interaction_id i_owner_id (l_interactions L)"

lemma replace_interaction_valid:
  "PendingInteraction_init i = Inr i \<Longrightarrow> PendingInteraction_init (resolving_copy i r d) = Inr (resolving_copy i r d)"
  "PendingInteraction_init i = Inr i \<Longrightarrow> PendingInteraction_init (settled_copy s n i) = Inr (settled_copy s n i)"
  "PendingInteraction_init i = Inr i \<Longrightarrow> PendingInteraction_init (expired_copy n i) = Inr (expired_copy n i)"
  "PendingInteraction_init i = Inr i \<Longrightarrow> PendingInteraction_init (invalidated_copy n i) = Inr (invalidated_copy n i)"
  by (simp_all add: PendingInteraction_init_def PendingInteraction_checks_def resolving_copy_def
      settled_copy_def expired_copy_def invalidated_copy_def)

lemma copy_fields [simp]:
  "i_interaction_id (resolving_copy i r d) = i_interaction_id i"
  "i_owner_id (resolving_copy i r d) = i_owner_id i"
  "i_state (resolving_copy i r d) = IResolving"
  "i_kind (resolving_copy i r d) = i_kind i"
  "i_interaction_id (settled_copy s n i) = i_interaction_id i"
  "i_owner_id (settled_copy s n i) = i_owner_id i"
  "i_state (settled_copy s n i) = (if s then IResolved else IPending)"
  "i_interaction_id (expired_copy n i) = i_interaction_id i"
  "i_owner_id (expired_copy n i) = i_owner_id i"
  "i_state (expired_copy n i) = IExpired"
  "i_interaction_id (invalidated_copy n i) = i_interaction_id i"
  "i_owner_id (invalidated_copy n i) = i_owner_id i"
  "i_state (invalidated_copy n i) = IExpired"
  by (simp_all add: resolving_copy_def settled_copy_def expired_copy_def invalidated_copy_def)

lemma interactions_keyed_get:
  "interactions_keyed L \<Longrightarrow> get_interaction L k = Some i \<Longrightarrow> i_interaction_id i = k"
  by (simp add: interactions_keyed_def get_interaction_def own_keyed_get_key)

lemma put_interaction_get [simp]:
  "get_interaction (put_interaction L now i) k =
     (if k = i_interaction_id i then Some i else get_interaction L k)"
  by (simp add: get_interaction_def put_interaction_def)

lemma put_interaction_keyed: "interactions_keyed L \<Longrightarrow> interactions_keyed (put_interaction L now i)"
  by (simp add: interactions_keyed_def put_interaction_def own_keyed_put)

lemma update_rowcount:
  assumes "tbl_wf t" and "tbl_get t k = Some v" and "Q v"
  shows "length (filter (\<lambda>r. row_id r = k \<and> Q (row_payload r)) t) = 1"
proof -
  from assms(2) obtain r where r: "r \<in> set t" "row_id r = k" "row_payload r = v"
    by (auto dest: tbl_get_SomeD)
  have "filter (\<lambda>x. row_id x = k \<and> Q (row_payload x)) t = [r]" if "tbl_wf t" "r \<in> set t" for t
    using that r assms(3)
  proof (induction t)
    case (Cons a t)
    then show ?case
      by (cases "a = r") (auto simp: tbl_wf_def filter_empty_conv rev_image_eqI)
  qed simp
  with assms(1) r(1) show ?thesis by simp
qed

text \<open>What a successful start of a resolution does.\<close>

lemma begin_resolution_SomeD:
  assumes ok: "interactions_keyed L"
    and b: "begin_interaction_resolution L clk k response decision = Inr (Some i, L')"
  shows "\<exists>old. get_interaction L k = Some old \<and> i_state old = IPending \<and>
    answer_checks old decision = None \<and> i = resolving_copy old response decision \<and>
    get_interaction L' = (get_interaction L)(k := Some i) \<and> L' = L\<lparr>l_interactions := l_interactions L'\<rparr>"
proof -
  have wf: "tbl_wf (l_interactions L)"
    using ok by (auto simp: interactions_keyed_def intro: keyed_wf own_keyed_keyed)
  from b obtain old where old: "get_interaction L k = Some old" "i_state old = IPending"
      "answer_checks old decision = None" "i = resolving_copy old response decision"
    and one: "snd (tbl_update (l_interactions L) (\<lambda>r. row_id r = k \<and> i_state (row_payload r) = IPending) i (clk 0)) = 1"
    and L': "L' = L\<lparr>l_interactions := fst (tbl_update (l_interactions L)
      (\<lambda>r. row_id r = k \<and> i_state (row_payload r) = IPending) i (clk 0))\<rparr>"
    by (auto simp: begin_interaction_resolution_def get_interaction_def Let_def
        split: option.splits if_splits prod.splits)
  have "get_interaction L' j = ((get_interaction L)(k := Some i)) j" for j
    using tbl_get_update [OF wf, of k "\<lambda>r. i_state (row_payload r) = IPending" i "clk 0" j] one
    by (simp add: L' get_interaction_def)
  with old L' show ?thesis by (intro exI [of _ old] conjI ext) simp_all
qed

lemma begin_resolution_keyed:
  assumes ok: "interactions_keyed L"
    and b: "begin_interaction_resolution L clk k response decision = Inr (x, L')"
  shows "interactions_keyed L'"
proof (cases "L' = L")
  case False
  with b obtain old where old: "get_interaction L k = Some old"
    and L': "L' = L\<lparr>l_interactions := fst (tbl_update (l_interactions L)
      (\<lambda>r. row_id r = k \<and> i_state (row_payload r) = IPending) (resolving_copy old response decision) (clk 0))\<rparr>"
    by (auto simp: begin_interaction_resolution_def get_interaction_def Let_def
        split: option.splits if_splits prod.splits)
  have key: "i_interaction_id old = k" using ok old by (rule interactions_keyed_get)
  have own: "row_owner r = i_owner_id old" if "r \<in> set (l_interactions L)" "row_id r = k" for r
  proof -
    from ok have k: "keyed i_interaction_id (l_interactions L)"
      by (simp add: interactions_keyed_def own_keyed_keyed)
    from tbl_get_row [OF keyed_wf [OF k] that(1)] that(2) old have "row_payload r = old"
      by (simp add: get_interaction_def)
    with ok that(1) show ?thesis by (auto simp: interactions_keyed_def own_keyed_def)
  qed
  show ?thesis
    using ok key own
    by (auto simp: interactions_keyed_def own_keyed_def L' intro!: keyed_update)
      (auto simp: tbl_update_def)
qed (use ok in simp)

lemma expire_due_get:
  assumes "interactions_keyed L"
  shows "get_interaction (snd (expire_due_interactions L clk ts)) k =
    map_option (\<lambda>i. if due (case ts of None \<Rightarrow> clk 0 | Some t \<Rightarrow> t) i
      then expired_copy (case ts of None \<Rightarrow> clk 0 | Some t \<Rightarrow> t) i else i) (get_interaction L k)"
  using assms
  by (auto simp: expire_due_interactions_def get_interaction_def interactions_keyed_def
      intro!: put_all_selected split: option.splits)

lemma expire_permissions_get:
  assumes "interactions_keyed L"
  shows "get_interaction (snd (expire_pending_permissions L clk)) k =
    map_option (\<lambda>i. if open_permission i then invalidated_copy (clk 0) i else i) (get_interaction L k)"
  using assms
  by (auto simp: expire_pending_permissions_def get_interaction_def interactions_keyed_def
      intro!: put_all_selected)

lemma expire_keyed:
  "interactions_keyed L \<Longrightarrow> interactions_keyed (snd (expire_due_interactions L clk ts))"
  "interactions_keyed L \<Longrightarrow> interactions_keyed (snd (expire_pending_permissions L clk))"
  by (auto simp: interactions_keyed_def expire_due_interactions_def expire_pending_permissions_def
      Let_def intro!: own_keyed_put_all split: option.splits)

section \<open>Properties\<close>

text \<open>C19: One answer at a time.  Once a caller has begun to resolve an interaction, no second answer
  is taken until it finishes: a success stores the first answer for good, a failure gives the
  interaction back as pending without answer or decision, ready to be answered again.\<close>

theorem interaction_has_one_resolver:
  assumes ok: "interactions_keyed L"
    and b: "begin_interaction_resolution L clk k response decision = Inr (Some i, L')"
  shows "begin_interaction_resolution L' clk' k response' decision' = Inr (None, L') \<and>
    (\<exists>done L2. finish_interaction_resolution L' clk' k True = Inr (done, L2) \<and>
       get_interaction L2 k = Some done \<and> i_state done = IResolved \<and>
       i_response done = response \<and> i_decision done = i_decision i \<and>
       begin_interaction_resolution L2 clk2 k response' decision' = Inr (None, L2) \<and>
       (\<exists>e. finish_interaction_resolution L2 clk2 k success = Inl e)) \<and>
    (\<exists>open L2. finish_interaction_resolution L' clk' k False = Inr (open, L2) \<and>
       get_interaction L2 k = Some open \<and> i_state open = IPending \<and>
       i_response open = [] \<and> i_decision open = None \<and> i_resolved_at_ms open = None \<and>
       (\<exists>again L3. begin_interaction_resolution L2 clk2 k response decision = Inr (Some again, L3) \<and>
          i_response again = response \<and> i_decision again = i_decision i))"
proof -
  from begin_resolution_SomeD [OF ok b] obtain old where old: "get_interaction L k = Some old"
    and checks: "answer_checks old decision = None" and i: "i = resolving_copy old response decision"
    and L': "get_interaction L' = (get_interaction L)(k := Some i)" by blast
  from L' have here: "get_interaction L' k = Some i" by simp
  have key: "i_interaction_id i = k" using interactions_keyed_get [OF ok old] by (simp add: i)
  have st: "i_state i = IResolving" by (simp add: i)
  note fin = finish_interaction_resolution_def and beg = begin_interaction_resolution_def
  define good where "good = settled_copy True (clk' 0) i"
  define bad where "bad = settled_copy False (clk' 0) i"
  define L2 where "L2 = put_interaction L' (clk' 0) bad"
  have bad2: "get_interaction L2 k = Some bad" using key by (simp add: L2_def bad_def)
  have "interactions_keyed L2"
    unfolding L2_def by (intro put_interaction_keyed begin_resolution_keyed [OF ok b])
  then have wf: "tbl_wf (l_interactions L2)"
    by (auto simp: interactions_keyed_def intro: keyed_wf own_keyed_keyed)
  have "i_kind bad = i_kind old" "i_choices bad = i_choices old"
    by (simp_all add: bad_def i settled_copy_def resolving_copy_def)
  then have "answer_checks bad decision = answer_checks old decision"
    by (simp only: answer_checks_def)
  then have "answer_checks bad decision = None" using checks by simp
  moreover have "length (filter (\<lambda>r. row_id r = k \<and> i_state (row_payload r) = IPending) (l_interactions L2)) = 1"
    using bad2 by (intro update_rowcount [OF wf]) (auto simp: get_interaction_def bad_def)
  moreover have "i_decision (resolving_copy bad response decision) = i_decision i"
    by (simp add: bad_def i settled_copy_def resolving_copy_def normalized_decision_def)
  ultimately have "\<exists>again L3. begin_interaction_resolution L2 clk2 k response decision = Inr (Some again, L3) \<and>
      i_response again = response \<and> i_decision again = i_decision i"
    using bad2 unfolding beg
    by (simp add: get_interaction_def tbl_update_def Let_def) (simp add: bad_def resolving_copy_def)
  moreover have bad: "i_state bad = IPending" "i_response bad = []" "i_decision bad = None"
      "i_resolved_at_ms bad = None"
    by (simp_all add: bad_def settled_copy_def)
  moreover have "finish_interaction_resolution L' clk' k False = Inr (bad, L2)"
    using here st by (simp add: fin get_interaction_def bad_def L2_def Let_def)
  ultimately have "\<exists>open L2. finish_interaction_resolution L' clk' k False = Inr (open, L2) \<and>
       get_interaction L2 k = Some open \<and> i_state open = IPending \<and>
       i_response open = [] \<and> i_decision open = None \<and> i_resolved_at_ms open = None \<and>
       (\<exists>again L3. begin_interaction_resolution L2 clk2 k response decision = Inr (Some again, L3) \<and>
          i_response again = response \<and> i_decision again = i_decision i)"
    using bad2 bad by blast
  moreover
  define L4 where "L4 = put_interaction L' (clk' 1) good"
  have "finish_interaction_resolution L' clk' k True = Inr (good, L4)"
    using here st by (simp add: fin get_interaction_def good_def L4_def Let_def)
  moreover have L4: "get_interaction L4 k = Some good" "i_state good = IResolved"
    using key by (simp_all add: L4_def good_def)
  moreover have "begin_interaction_resolution L4 clk2 k response' decision' = Inr (None, L4)"
    "\<exists>e. finish_interaction_resolution L4 clk2 k success = Inl e"
    using L4 by (simp_all add: beg fin get_interaction_def)
  moreover have "i_response good = response" "i_decision good = i_decision i"
    by (simp_all add: good_def settled_copy_def i resolving_copy_def)
  moreover have "begin_interaction_resolution L' clk' k response' decision' = Inr (None, L')"
    using here st by (simp add: beg get_interaction_def)
  ultimately show ?thesis by blast
qed

text \<open>A permission is never granted by default.  It is taken into resolution only with an explicit
  decision, and when the Gateway restarts every permission still open, answered or not, is denied
  and closed: nobody can begin or finish its resolution afterwards.\<close>

theorem permission_fails_closed:
  assumes ok: "interactions_keyed L" and i: "get_interaction L k = Some i" "i_kind i = ''permission''"
    and e: "expire_pending_permissions L clk = (gone, L')"
  shows "(\<forall>clk1 response decision j L1.
      begin_interaction_resolution L clk1 k response decision = Inr (Some j, L1) \<longrightarrow>
        (\<exists>d \<in> set PERMISSION_DECISIONS. decision = Some d \<and> i_decision j = Some d)) \<and>
    (i_state i \<in> {IPending, IResolving} \<longrightarrow>
      (\<exists>j \<in> set gone. get_interaction L' k = Some j \<and> i_state j = IExpired \<and> i_decision j = Some ''deny'') \<and>
      begin_interaction_resolution L' clk2 k response decision = Inr (None, L') \<and>
      (\<exists>msg. finish_interaction_resolution L' clk2 k success = Inl (ValueError msg)))"
proof (intro conjI allI impI)
  fix clk1 response decision j L1
  assume "begin_interaction_resolution L clk1 k response decision = Inr (Some j, L1)"
  from begin_resolution_SomeD [OF ok this] i
  show "\<exists>d \<in> set PERMISSION_DECISIONS. decision = Some d \<and> i_decision j = Some d"
    by (auto simp: answer_checks_def resolving_copy_def normalized_decision_def split: option.splits if_splits)
next
  assume "i_state i \<in> {IPending, IResolving}"
  with i have op: "open_permission i" by (simp add: open_permission_def)
  let ?j = "invalidated_copy (clk 0) i"
  have L': "get_interaction L' k = Some ?j"
    using expire_permissions_get [OF ok, of clk k] op i e by simp
  from i obtain r where "r \<in> set (l_interactions L)" "row_payload r = i"
    by (auto simp: get_interaction_def dest: tbl_get_SomeD)
  with op e have "?j \<in> set gone"
    by (auto simp: expire_pending_permissions_def Let_def intro!: image_eqI [of _ _ i])
  with L' show "\<exists>j \<in> set gone. get_interaction L' k = Some j \<and> i_state j = IExpired \<and> i_decision j = Some ''deny''"
    by (intro bexI [of _ ?j]) (simp_all add: invalidated_copy_def)
  show "begin_interaction_resolution L' clk2 k response decision = Inr (None, L')"
    "\<exists>msg. finish_interaction_resolution L' clk2 k success = Inl (ValueError msg)"
    using L' by (simp_all add: begin_interaction_resolution_def finish_interaction_resolution_def get_interaction_def)
qed

text \<open>Expiry takes exactly the pending interactions whose time has come: each is stored as expired,
  a permission as denied, and is returned once; every other interaction stays as it was, and a second
  run at the same time returns nothing.\<close>

theorem expiry_is_exact:
  assumes ok: "interactions_keyed L" and e: "expire_due_interactions L clk (Some now) = (gone, L')"
  shows "(\<forall>k. get_interaction L' k = map_option (\<lambda>i. if due now i then expired_copy now i else i) (get_interaction L k)) \<and>
    (\<forall>i j. get_interaction L k = Some i \<longrightarrow> due now i \<longrightarrow> get_interaction L' k = Some j \<longrightarrow>
       j \<in> set gone \<and> i_state j = IExpired \<and> (i_kind i = ''permission'' \<longrightarrow> i_decision j = Some ''deny'')) \<and>
    fst (expire_due_interactions L' clk' (Some now)) = []"
proof -
  have L': "get_interaction L' k = map_option (\<lambda>i. if due now i then expired_copy now i else i) (get_interaction L k)" for k
    using expire_due_get [OF ok, of clk "Some now" k] e by (simp cong: if_cong)
  have ok': "interactions_keyed L'" using expire_keyed(1) [OF ok, of clk "Some now"] e by simp
  have "\<not> due now (row_payload r)" if "r \<in> set (l_interactions L')" for r
  proof -
    from ok' that have "get_interaction L' (i_interaction_id (row_payload r)) = Some (row_payload r)"
      by (auto simp: interactions_keyed_def get_interaction_def intro: keyed_row_get own_keyed_keyed)
    with L' [of "i_interaction_id (row_payload r)"] show ?thesis
      by (cases "get_interaction L (i_interaction_id (row_payload r))")
        (auto simp: due_def split: if_splits)
  qed
  then have "fst (expire_due_interactions L' clk' (Some now)) = []"
    by (auto simp: expire_due_interactions_def filter_empty_conv)
  moreover have "expired_copy now i \<in> set gone" if "get_interaction L k = Some i" "due now i" for i
    using that e by (auto simp: expire_due_interactions_def get_interaction_def Let_def
        dest!: tbl_get_SomeD intro!: image_eqI [of _ _ i])
  ultimately show ?thesis
    using L' by (auto simp: expired_copy_def)
qed

end
