(* ===== verification/Engine.thy ===== *)
theory Engine
  imports LedgerEvents LedgerInteractions
begin

text \<open>
  The deterministic policy engine and the interaction broker (supervision.py: \<open>SupervisionEngine\<close>,
  \<open>_matches\<close>, \<open>effective_scope\<close>, \<open>InteractionBroker\<close>).

  \<open>stable_key\<close> hashes its parts joined by NUL with \<open>uuid.uuid5\<close>; the hash is the parameter \<open>uuid5\<close>
  of the definitions that use it.  \<open>new_id\<close> values are arguments.
\<close>

section \<open>Authorization\<close>

definition authorize ::
  "SupervisionContractRevision \<Rightarrow> BackendCapabilities \<Rightarrow> string \<Rightarrow> bool \<Rightarrow> bool \<Rightarrow> AuthorizationDecision" where
  "authorize contract capabilities action side_effect high_risk =
     (let policy = cb_authority_policy (sc_body contract);
          decide = (\<lambda>outcome reason. \<lparr>ad_outcome = outcome, ad_action = action, ad_reason = reason,
            ad_interaction_id = None\<rparr>);
          needs_permission = action \<in> set (au_require_permission policy)
      in if action \<in> set (au_deny policy) then decide ''deny'' ''denied_by_contract''
         else if action \<in> set (au_allow policy) then decide ''allow'' ''allowed_by_contract''
         else if \<not> needs_permission \<and> (high_risk \<or> \<not> side_effect) then decide ''deny'' ''unknown_action''
         else if bc_authority_enforcement capabilities = ''none''
         then decide ''deny'' ''backend_cannot_enforce_permission''
         else decide ''require_permission''
           (if needs_permission then ''permission_required'' else ''unknown_side_effect''))"

section \<open>Milestone conditions\<close>

text \<open>The walk of \<open>_matches\<close> along \<open>condition.field.split(".")\<close>; \<open>None\<close> is its \<open>return False\<close>.\<close>

fun dig :: "json \<Rightarrow> string list \<Rightarrow> json option" where
  "dig current [] = Some current"
| "dig (JObj kvs) (part # parts) =
     (case map_of kvs part of None \<Rightarrow> None | Some v \<Rightarrow> dig v parts)"
| "dig _ (part # parts) = None"

definition matches :: "(string \<times> json) list \<Rightarrow> MilestoneCondition \<Rightarrow> bool" where
  "matches facts c =
     (case dig (JObj facts) (split_on (CHR ''.'') (mc_field c)) of
        None \<Rightarrow> False
      | Some current \<Rightarrow>
          (if mc_op c = ''exists'' then current \<noteq> JNull
           else if mc_op c = ''eq'' then json_eq current (mc_value c)
           else if mc_op c = ''gte'' then json_ge current (mc_value c) = Some True
           else if mc_op c = ''lte'' then json_le current (mc_value c) = Some True
           else False))"

section \<open>Arbitration\<close>

definition decision :: "string \<Rightarrow> bool \<Rightarrow> string \<Rightarrow> string \<Rightarrow> ArbitrationDecision" where
  "decision timing accepted route reason =
     \<lparr>rd_timing = timing, rd_accepted = accepted, rd_interaction_route = route, rd_reason = reason\<rparr>"

definition foreign_evidence :: "WorkerEvent \<Rightarrow> ArtifactEvidence option \<Rightarrow> bool" where
  "foreign_evidence event item =
     (case item of None \<Rightarrow> True
      | Some a \<Rightarrow> a_owner_id a \<noteq> e_owner_id event \<or> a_task_id a \<noteq> e_task_id event)"

definition arbitrate_update ::
  "TaskLedger \<Rightarrow> WorkerEvent \<Rightarrow> UpdatePayload \<Rightarrow> SupervisionContractRevision \<Rightarrow> BackendCapabilities \<Rightarrow>
   ArbitrationDecision" where
  "arbitrate_update L event payload contract capabilities =
     (let delivery = cb_delivery_policy (sc_body contract) in
      if up_severity payload = ''high_risk''
      then decision (if bc_trusted_risk_signals capabilities then dp_high_risk delivery else ''safe_pause'')
        True ''none''
        (if bc_trusted_risk_signals capabilities then ''verified_high_risk_update''
         else ''unverified_high_risk_update'')
      else if up_kind payload = ''activity'' then decision ''hold'' True ''none'' ''ordinary_activity''
      else (case find (\<lambda>item. Some (nr_key item) = up_milestone payload)
              (np_milestones (cb_notify_policy (sc_body contract))) of
          None \<Rightarrow> decision ''hold'' True ''none'' ''unsubscribed_milestone''
        | Some rule \<Rightarrow>
            (let evidence = map (get_artifact L) (up_evidence_refs payload) in
             if list_ex (foreign_evidence event) evidence
             then decision ''hold'' False ''none'' ''invalid_milestone_evidence''
             else if (case nr_condition rule of None \<Rightarrow> False
                      | Some c \<Rightarrow> \<not> list_ex
                          (\<lambda>item. case item of None \<Rightarrow> False | Some a \<Rightarrow> matches (a_facts a) c) evidence)
             then decision ''hold'' False ''none'' ''milestone_condition_not_met''
             else decision (dp_milestone delivery) True ''none'' (''milestone:'' @ nr_key rule))))"

definition arbitrate_interaction ::
  "InteractionPayload \<Rightarrow> SupervisionContractRevision \<Rightarrow> BackendCapabilities \<Rightarrow> ArbitrationDecision" where
  "arbitrate_interaction payload contract capabilities =
     (let delivery = cb_delivery_policy (sc_body contract);
          ask = cb_ask_policy (sc_body contract) in
      if \<not> bc_interactions capabilities
      then decision ''hold'' False ''none'' ''backend_did_not_declare_interactions''
      else if ip_kind payload = ''permission''
      then (let authorization = authorize contract capabilities
              (case ip_action_key payload of None \<Rightarrow> [] | Some a \<Rightarrow> a) True False in
            if ad_outcome authorization = ''require_permission''
            then decision (dp_interaction delivery) True ''user'' (ad_reason authorization)
            else decision ''hold'' True ''coordinator'' (ad_reason authorization))
      else (let route =
              (if ip_reason_key payload \<in> set (ap_must_ask ask) then ''user''
               else if ip_reason_key payload \<in> set (ap_delegate ask) then ''coordinator''
               else if ap_when_exhausted ask = ''ask'' then ''user''
               else ''coordinator'') in
            decision (if route = ''user'' then dp_interaction delivery else ''hold'') True route
              (''interaction_'' @ route)))"

text \<open>The payload union has no other member, so the final \<open>TypeError\<close> is unreachable.\<close>

definition arbitrate ::
  "TaskLedger \<Rightarrow> WorkerEvent \<Rightarrow> SupervisionContractRevision \<Rightarrow> BackendCapabilities \<Rightarrow> ArbitrationDecision" where
  "arbitrate L event contract capabilities =
     (case e_payload event of
        PUpdate payload \<Rightarrow> arbitrate_update L event payload contract capabilities
      | PInteraction payload \<Rightarrow> arbitrate_interaction payload contract capabilities
      | PDone payload \<Rightarrow>
          decision (dp_final (cb_delivery_policy (sc_body contract))) True ''none'' ''terminal_result'')"

section \<open>Blocking scopes\<close>

definition scope_order :: "string \<Rightarrow> nat option" where
  "scope_order = map_of [(''action'', 0), (''branch'', 1), (''run'', 2)]"

text \<open>\<open>max\<close> returns the first of two equal keys.\<close>

definition effective_scope :: "string \<Rightarrow> string \<Rightarrow> string res" where
  "effective_scope requested supported =
     (case (scope_order requested, scope_order supported) of
        (Some r, Some s) \<Rightarrow> Inr (if r < s then supported else requested)
      | _ \<Rightarrow> Inl (ValueError ''invalid blocking scope''))"

section \<open>The interaction broker\<close>

definition stable_key :: "(string \<Rightarrow> string) \<Rightarrow> string list \<Rightarrow> string" where
  "stable_key uuid5 parts = uuid5 (join_with [CHR 0x00] parts)"

definition from_worker ::
  "TaskLedger \<Rightarrow> clock \<Rightarrow> (string \<Rightarrow> string) \<Rightarrow> string \<Rightarrow> WorkerEvent \<Rightarrow> BackendCapabilities \<Rightarrow> string \<Rightarrow>
   (PendingInteraction \<times> TaskLedger) res" where
  "from_worker L clk uuid5 new_interaction_id event capabilities audience =
     (case e_payload event of
        PInteraction payload \<Rightarrow>
          (let fingerprint = stable_key uuid5 [''worker'', e_event_id event] in
           case find_interaction_by_fingerprint L fingerprint of
             Some existing \<Rightarrow> Inr (existing, L)
           | None \<Rightarrow>
               bindE (effective_scope (ip_blocking_scope payload) (bc_blocking_granularity capabilities))
                 (\<lambda>scope. bindE (PendingInteraction_init
                   \<lparr>i_interaction_id = new_interaction_id, i_owner_id = e_owner_id event,
                    i_target_id = e_task_id event, i_task_id = Some (e_task_id event),
                    i_run_id = Some (e_run_id event), i_source = ''worker'', i_audience = audience,
                    i_kind = ip_kind payload, i_prompt = ip_prompt payload,
                    i_reason_key = ip_reason_key payload, i_source_event_id = Some (e_event_id event),
                    i_action_key = ip_action_key payload, i_choices = ip_choices payload,
                    i_requested_scope = ip_blocking_scope payload, i_effective_scope = scope,
                    i_state = IPending, i_fingerprint = fingerprint, i_coordination_request_id = [],
                    i_response = [], i_decision = None, i_created_at_ms = clk 0,
                    i_expires_at_ms = None, i_resolved_at_ms = None\<rparr>)
                 (\<lambda>interaction. Inr (interaction, save_interaction L (\<lambda>i. clk (i + 1)) interaction))))
      | _ \<Rightarrow> Inl (TypeError ''worker interaction requires InteractionPayload''))"

datatype Admission = Admitted | Duplicate | Defaulted | Rejected

definition ask_policy_of :: "SupervisionContractRevision option \<Rightarrow> AskPolicy" where
  "ask_policy_of contract =
     (case contract of None \<Rightarrow> AskPolicy_default | Some c \<Rightarrow> cb_ask_policy (sc_body c))"

definition question_fingerprint ::
  "(string \<Rightarrow> string) \<Rightarrow> QuestionProposal \<Rightarrow> SupervisionContractRevision option \<Rightarrow> string" where
  "question_fingerprint uuid5 proposal contract =
     stable_key uuid5 [''coordinator'', qp_target_id proposal,
       int_str (case contract of None \<Rightarrow> 0 | Some c \<Rightarrow> sc_revision c), qp_reason_key proposal]"

definition prior_rounds :: "TaskLedger \<Rightarrow> string \<Rightarrow> string \<Rightarrow> nat" where
  "prior_rounds L own request_id =
     length (filter (\<lambda>i. i_source i = ''coordinator'' \<and> i_coordination_request_id i = request_id)
       (list_interactions L (Some own)))"

definition question_prompt :: "string list \<Rightarrow> string" where
  "question_prompt questions =
     (if length questions = 1 then hd questions
      else join_with [CHR 0x0A]
        (map (\<lambda>(index, question). digits index @ ''. '' @ question) (enumerate 1 questions)))"

definition admit_question ::
  "TaskLedger \<Rightarrow> clock \<Rightarrow> (string \<Rightarrow> string) \<Rightarrow> string \<Rightarrow> QuestionProposal \<Rightarrow> string \<Rightarrow> string \<Rightarrow>
   SupervisionContractRevision option \<Rightarrow>
   ((PendingInteraction option \<times> Admission) \<times> TaskLedger) res" where
  "admit_question L clk uuid5 new_interaction_id proposal own request_id contract =
     (let ask = ask_policy_of contract;
          fingerprint = question_fingerprint uuid5 proposal contract in
      if int (length (qp_questions proposal)) > ap_max_questions_per_round ask
      then Inl (ValueError ''Coordinator exceeded max_questions_per_round'')
      else if \<not> ap_bundle_questions ask \<and> length (qp_questions proposal) > 1
      then Inl (ValueError ''ask_policy does not allow bundled questions'')
      else (case find_interaction_by_fingerprint L fingerprint of
        Some existing \<Rightarrow>
          (if i_state existing = IPending then Inr ((Some existing, Admitted), L)
           else Inr ((None, Duplicate), L))
      | None \<Rightarrow>
          (if qp_reason_key proposal \<notin> set (ap_must_ask ask) \<and>
              int (prior_rounds L own request_id) \<ge> ap_max_clarification_rounds ask
           then (if ap_when_exhausted ask = ''conservative'' \<and> qp_default_if_unanswered proposal \<noteq> None
                 then Inr ((None, Defaulted), L) else Inr ((None, Rejected), L))
           else bindE (PendingInteraction_init
             \<lparr>i_interaction_id = new_interaction_id, i_owner_id = own,
              i_target_id = qp_target_id proposal,
              i_task_id = map_option t_task_id (get_task L (qp_target_id proposal)),
              i_run_id = (case get_task L (qp_target_id proposal) of
                 None \<Rightarrow> None | Some task \<Rightarrow> t_active_run_id task),
              i_source = ''coordinator'', i_audience = ''user'', i_kind = ''question'',
              i_prompt = question_prompt (qp_questions proposal),
              i_reason_key = qp_reason_key proposal, i_source_event_id = None, i_action_key = None,
              i_choices = [], i_requested_scope = qp_blocking_scope proposal,
              i_effective_scope = qp_blocking_scope proposal, i_state = IPending,
              i_fingerprint = fingerprint, i_coordination_request_id = request_id, i_response = [],
              i_decision = None, i_created_at_ms = clk 0, i_expires_at_ms = None,
              i_resolved_at_ms = None\<rparr>)
             (\<lambda>interaction. Inr ((Some interaction, Admitted),
                save_interaction L (\<lambda>i. clk (i + 1)) interaction)))))"

section \<open>Laws\<close>

lemma fingerprint_None_iff:
  "find_interaction_by_fingerprint L fp = None \<longleftrightarrow>
     (\<forall>r \<in> set (l_interactions L). i_fingerprint (row_payload r) \<noteq> fp)"
proof -
  let ?rows = "filter (\<lambda>r. i_fingerprint (row_payload r) = fp) (l_interactions L)"
  have "find_interaction_by_fingerprint L fp = None \<longleftrightarrow> sort_key (\<lambda>r. - row_updated r) ?rows = []"
    by (auto simp: find_interaction_by_fingerprint_def split: list.splits)
  then show ?thesis by (auto simp: sort_key_Nil_iff filter_empty_conv)
qed

text \<open>A fresh fingerprint that is saved is found again.\<close>

lemma fingerprint_saved:
  assumes "find_interaction_by_fingerprint L (i_fingerprint i) = None"
  shows "find_interaction_by_fingerprint (save_interaction L clk i) (i_fingerprint i) = Some i"
proof -
  have "filter (\<lambda>r. i_fingerprint (row_payload r) = i_fingerprint i) (l_interactions (save_interaction L clk i)) =
      [\<lparr>row_id = i_interaction_id i, row_owner = i_owner_id i, row_payload = i, row_updated = clk 0\<rparr>]"
    using assms by (auto simp: fingerprint_None_iff save_interaction_def put_interaction_def tbl_put_def
        tbl_del_def filter_empty_conv)
  then show ?thesis by (simp add: find_interaction_by_fingerprint_def)
qed

lemma effective_scope_InrE:
  assumes "effective_scope a b = Inr c"
  obtains r s where "scope_order a = Some r" "scope_order b = Some s" "c = (if r < s then b else a)"
    "scope_order c = Some (max r s)"
  using assms by (auto simp: effective_scope_def split: option.splits)

lemma from_worker_InrE:
  assumes "from_worker L clk uuid5 nid event caps audience = Inr (i, L')"
  obtains (old) p where "e_payload event = PInteraction p" "L' = L"
      "find_interaction_by_fingerprint L (stable_key uuid5 [''worker'', e_event_id event]) = Some i"
  | (new) p where "e_payload event = PInteraction p"
      "find_interaction_by_fingerprint L (stable_key uuid5 [''worker'', e_event_id event]) = None"
      "effective_scope (ip_blocking_scope p) (bc_blocking_granularity caps) = Inr (i_effective_scope i)"
      "i_requested_scope i = ip_blocking_scope p" "i_interaction_id i = nid"
      "i_owner_id i = e_owner_id event" "i_state i = IPending" "i_kind i = ip_kind p"
      "i_prompt i = ip_prompt p" "i_audience i = audience" "i_choices i = ip_choices p"
      "i_fingerprint i = stable_key uuid5 [''worker'', e_event_id event]"
      "L' = save_interaction L (\<lambda>n. clk (n + 1)) i"
  using assms
  by (auto simp: from_worker_def Let_def bindE_Inr_iff PendingInteraction_init_def
      split: WorkerPayload.splits option.splits)

lemma prior_rounds_save:
  assumes "get_interaction L (i_interaction_id i) = None"
  shows "prior_rounds (save_interaction L clk i) own rid =
    prior_rounds L own rid +
      (if i_owner_id i = own \<and> i_source i = ''coordinator'' \<and> i_coordination_request_id i = rid then 1 else 0)"
proof -
  let ?P = "\<lambda>i. i_source i = ''coordinator'' \<and> i_coordination_request_id i = rid"
  have "prior_rounds M own rid =
      length (filter (\<lambda>r. row_owner r = own \<and> ?P (row_payload r)) (l_interactions M))" for M
    by (simp add: prior_rounds_def list_interactions_def tbl_list_def tbl_rows_def filter_map comp_def
        filter_sort conj_ac)
  moreover have "tbl_del (l_interactions L) (i_interaction_id i) = l_interactions L"
    using assms by (auto simp: tbl_del_def get_interaction_def tbl_get_None_iff tbl_keys_def filter_id_conv image_iff)
  ultimately show ?thesis
    by (simp add: save_interaction_def put_interaction_def tbl_put_def)
qed

lemma admit_question_InrE:
  assumes "admit_question L clk uuid5 nid q own rid contract = Inr ((x, tag), L')"
  obtains (pending) i where "find_interaction_by_fingerprint L (question_fingerprint uuid5 q contract) = Some i"
      "i_state i = IPending" "x = Some i" "tag = Admitted" "L' = L"
  | (closed) i where "find_interaction_by_fingerprint L (question_fingerprint uuid5 q contract) = Some i"
      "i_state i \<noteq> IPending" "x = None" "tag = Duplicate" "L' = L"
  | (exhausted) "find_interaction_by_fingerprint L (question_fingerprint uuid5 q contract) = None"
      "qp_reason_key q \<notin> set (ap_must_ask (ask_policy_of contract))"
      "int (prior_rounds L own rid) \<ge> ap_max_clarification_rounds (ask_policy_of contract)"
      "x = None" "tag \<in> {Defaulted, Rejected}" "L' = L"
  | (new) i where "find_interaction_by_fingerprint L (question_fingerprint uuid5 q contract) = None"
      "qp_reason_key q \<in> set (ap_must_ask (ask_policy_of contract)) \<or>
       int (prior_rounds L own rid) < ap_max_clarification_rounds (ask_policy_of contract)"
      "x = Some i" "tag = Admitted" "i_state i = IPending" "i_fingerprint i = question_fingerprint uuid5 q contract"
      "i_interaction_id i = nid" "i_owner_id i = own" "i_source i = ''coordinator''" "i_audience i = ''user''"
      "i_coordination_request_id i = rid" "L' = save_interaction L (\<lambda>n. clk (n + 1)) i"
proof -
  note A = assms [unfolded admit_question_def Let_def]
  show thesis
  proof (cases "find_interaction_by_fingerprint L (question_fingerprint uuid5 q contract)")
    case None
    with A exhausted new show thesis
      by (auto simp: bindE_Inr_iff PendingInteraction_init_def split: if_splits)
  next
    case (Some i)
    with A pending closed show thesis by (auto split: if_splits)
  qed
qed

section \<open>Properties\<close>

text \<open>Authorization fails closed.  Under a valid authority policy the three outcomes are decided by
  the three disjoint lists: only a listed action is allowed, a denied one is always denied, an action
  that needs permission asks for it exactly when the backend can enforce the answer, and an unlisted
  action is denied unless it is an ordinary side effect that the backend can hold back.\<close>

theorem authorize_fails_closed:
  assumes "AuthorityPolicy_init (cb_authority_policy (sc_body contract)) = Inr policy"
  shows "let outcome = ad_outcome (authorize contract caps action side_effect high_risk);
             enforce = bc_authority_enforcement caps \<noteq> ''none'' in
    (outcome = ''allow'' \<longleftrightarrow> action \<in> set (au_allow policy)) \<and>
    (action \<in> set (au_deny policy) \<longrightarrow> outcome = ''deny'') \<and>
    (action \<in> set (au_require_permission policy) \<longrightarrow>
       outcome = (if enforce then ''require_permission'' else ''deny'')) \<and>
    (action \<notin> set (au_allow policy @ au_deny policy @ au_require_permission policy) \<longrightarrow>
       outcome = (if side_effect \<and> \<not> high_risk \<and> enforce then ''require_permission'' else ''deny''))"
proof -
  have p: "policy = cb_authority_policy (sc_body contract)"
    and d: "set (au_allow policy) \<inter> set (au_require_permission policy) = {}"
      "set (au_allow policy) \<inter> set (au_deny policy) = {}"
      "set (au_require_permission policy) \<inter> set (au_deny policy) = {}"
    using assms by (auto simp: AuthorityPolicy_init_def)
  show ?thesis
    using d unfolding authorize_def Let_def p [symmetric]
    by (cases "action \<in> set (au_deny policy)"; cases "action \<in> set (au_allow policy)";
        cases "action \<in> set (au_require_permission policy)") auto
qed

text \<open>A milestone is announced only on evidence.  An accepted milestone update with a timing other
  than \<open>hold\<close> is subscribed by the contract, every evidence reference names a stored artifact of the
  event's own owner and task, and when the rule has a condition some of that evidence satisfies it.\<close>

theorem milestone_needs_evidence:
  assumes e: "e_payload event = PUpdate p" "up_kind p = ''milestone''" "up_severity p = ''normal''"
    and d: "d = arbitrate L event contract caps" "rd_accepted d" "rd_timing d \<noteq> ''hold''"
  shows "\<exists>rule \<in> set (np_milestones (cb_notify_policy (sc_body contract))).
    up_milestone p = Some (nr_key rule) \<and> rd_timing d = dp_milestone (cb_delivery_policy (sc_body contract)) \<and>
    (\<forall>r \<in> set (up_evidence_refs p). \<exists>a. get_artifact L r = Some a \<and>
       a_owner_id a = e_owner_id event \<and> a_task_id a = e_task_id event) \<and>
    (\<forall>c. nr_condition rule = Some c \<longrightarrow>
       (\<exists>r \<in> set (up_evidence_refs p). \<exists>a. get_artifact L r = Some a \<and> matches (a_facts a) c))"
proof -
  let ?rules = "np_milestones (cb_notify_policy (sc_body contract))"
  let ?ev = "map (get_artifact L) (up_evidence_refs p)"
  have u: "d = arbitrate_update L event p contract caps" using d(1) e(1) by (simp add: arbitrate_def)
  then obtain rule where rule: "find (\<lambda>item. Some (nr_key item) = up_milestone p) ?rules = Some rule"
    using d(2,3) e by (auto simp: arbitrate_update_def decision_def Let_def split: option.splits if_splits)
  from find_SomeD [OF rule] have r: "rule \<in> set ?rules" "up_milestone p = Some (nr_key rule)" by auto
  have own: "\<not> list_ex (foreign_evidence event) ?ev"
    using u d(2) e rule by (auto simp: arbitrate_update_def decision_def Let_def split: if_splits)
  have cond: "case nr_condition rule of None \<Rightarrow> True
      | Some c \<Rightarrow> list_ex (\<lambda>item. case item of None \<Rightarrow> False | Some a \<Rightarrow> matches (a_facts a) c) ?ev"
    using u d(2) e rule own by (auto simp: arbitrate_update_def decision_def Let_def split: option.splits if_splits)
  have t: "rd_timing d = dp_milestone (cb_delivery_policy (sc_body contract))"
    using u d(2) e rule own by (auto simp: arbitrate_update_def decision_def Let_def split: option.splits if_splits)
  have "\<exists>a. get_artifact L x = Some a \<and> a_owner_id a = e_owner_id event \<and> a_task_id a = e_task_id event"
    if "x \<in> set (up_evidence_refs p)" for x
    using own that by (auto simp: list_ex_iff foreign_evidence_def split: option.splits)
  moreover have "\<exists>x \<in> set (up_evidence_refs p). \<exists>a. get_artifact L x = Some a \<and> matches (a_facts a) c"
    if "nr_condition rule = Some c" for c
    using cond that by (auto simp: list_ex_iff split: option.splits)
  ultimately show ?thesis using r t by blast
qed

text \<open>A question for the user is never held back, with one exception: under a contract that its
  constructor accepts, an interaction routed to the user has a timing that is delivered, unless it
  asks permission for an action that the authority policy does not list at all.\<close>

theorem user_interactions_are_delivered:
  assumes b: "ContractBody_init (sc_body contract) = Inr body" and dp: "DeliveryPolicy_init (cb_delivery_policy body) = Inr dp"
    and e: "e_payload event = PInteraction p" "InteractionPayload_init p = Inr p"
    and d: "d = arbitrate L event contract caps" "rd_interaction_route d = ''user''"
  shows "rd_timing d \<in> {''safe_pause'', ''interrupt''} \<or>
    ip_kind p = ''permission'' \<and> (\<exists>a. ip_action_key p = Some a \<and>
      a \<notin> set (au_allow (cb_authority_policy body) @ au_require_permission (cb_authority_policy body) @
        au_deny (cb_authority_policy body)))"
proof -
  have body: "body = sc_body contract" and held: "dp_interaction (cb_delivery_policy body) = ''hold'' \<longrightarrow>
      ap_must_ask (cb_ask_policy body) = [] \<and> ap_when_exhausted (cb_ask_policy body) \<noteq> ''ask'' \<and>
      au_require_permission (cb_authority_policy body) = []"
    using b by (auto simp: ContractBody_init_def split: if_splits)
  have timing: "dp_interaction (cb_delivery_policy body) \<in> {''hold'', ''safe_pause'', ''interrupt''}"
    using dp by (auto simp: DeliveryPolicy_init_def DELIVERY_TIMINGS_def split: if_splits)
  have "d = arbitrate_interaction p contract caps" using d(1) e(1) by (simp add: arbitrate_def)
  note u = this [unfolded arbitrate_interaction_def Let_def decision_def, folded body]
  have caps: "bc_interactions caps" using u d(2) by (auto split: if_splits)
  show ?thesis
  proof (cases "ip_kind p = ''permission''")
    case False
    with u d(2) caps have "rd_timing d = dp_interaction (cb_delivery_policy body)"
      "ip_reason_key p \<in> set (ap_must_ask (cb_ask_policy body)) \<or> ap_when_exhausted (cb_ask_policy body) = ''ask''"
      by (auto split: if_splits)
    with timing held show ?thesis by auto
  next
    case True
    with e(2) obtain a where a: "ip_action_key p = Some a"
      by (auto simp: InteractionPayload_init_def split: if_splits option.splits)
    with True u d(2) caps have t: "rd_timing d = dp_interaction (cb_delivery_policy body)"
      and "ad_outcome (authorize contract caps a True False) = ''require_permission''"
      by (auto split: if_splits)
    then have "a \<notin> set (au_allow (cb_authority_policy body))" "a \<notin> set (au_deny (cb_authority_policy body))"
      by (auto simp: authorize_def body Let_def split: if_splits)
    with True a t timing held show ?thesis by auto
  qed
qed

text \<open>A worker's interaction is registered once and never blocks less than asked: the effective
  scope is the wider of the requested scope and what the backend supports, and a repeated call for the
  same event returns the registered interaction and changes nothing.\<close>

theorem worker_interaction_registered_once:
  assumes fw: "from_worker L clk uuid5 nid event caps audience = Inr (i, L')"
    and new: "find_interaction_by_fingerprint L (stable_key uuid5 [''worker'', e_event_id event]) = None"
  shows "get_interaction L' nid = Some i \<and> i_state i = IPending \<and>
    (\<exists>p r s e. e_payload event = PInteraction p \<and> scope_order (ip_blocking_scope p) = Some r \<and>
       scope_order (bc_blocking_granularity caps) = Some s \<and> scope_order (i_effective_scope i) = Some e \<and>
       r \<le> e \<and> s \<le> e \<and> i_effective_scope i \<in> {ip_blocking_scope p, bc_blocking_granularity caps}) \<and>
    from_worker L' clk' uuid5 nid' event caps' audience' = Inr (i, L')"
  using fw
proof (cases rule: from_worker_InrE)
  case (new p)
  from new(3) obtain r s where "scope_order (ip_blocking_scope p) = Some r"
    "scope_order (bc_blocking_granularity caps) = Some s"
    "i_effective_scope i = (if r < s then bc_blocking_granularity caps else ip_blocking_scope p)"
    "scope_order (i_effective_scope i) = Some (max r s)"
    by (rule effective_scope_InrE)
  moreover have "find_interaction_by_fingerprint L' (stable_key uuid5 [''worker'', e_event_id event]) = Some i"
    using fingerprint_saved [of L i] new by simp
  ultimately show ?thesis
    using new by (auto simp: from_worker_def save_interaction_def)
qed (use new in simp)

text \<open>Clarification rounds are bounded.  A question about the same target, reason and contract
  revision is asked once: asking again gives the pending interaction or a refusal and changes nothing;
  a new one is stored and pending, and unless its reason must be asked the request had rounds left.\<close>

theorem clarification_rounds_bounded:
  assumes a: "admit_question L clk uuid5 nid q own rid contract = Inr ((x, tag), L')"
    and fresh: "get_interaction L nid = None"
  shows "(tag = Admitted \<longleftrightarrow> x \<noteq> None) \<and>
    (\<forall>i. x = Some i \<longrightarrow> i_state i = IPending \<and>
       find_interaction_by_fingerprint L' (question_fingerprint uuid5 q contract) = Some i) \<and>
    (tag \<noteq> Admitted \<longrightarrow> L' = L) \<and>
    (L' \<noteq> L \<longrightarrow> prior_rounds L' own rid = prior_rounds L own rid + 1 \<and>
       (qp_reason_key q \<in> set (ap_must_ask (ask_policy_of contract)) \<or>
        int (prior_rounds L' own rid) \<le> ap_max_clarification_rounds (ask_policy_of contract))) \<and>
    admit_question L' clk' uuid5 nid' q own rid contract = Inr ((x, tag), L')"
  using a
proof (cases rule: admit_question_InrE)
  case (new i)
  have f: "find_interaction_by_fingerprint L' (question_fingerprint uuid5 q contract) = Some i"
    using fingerprint_saved [of L i] new by simp
  moreover have "prior_rounds L' own rid = prior_rounds L own rid + 1"
    using prior_rounds_save [of L i "\<lambda>n. clk (n + 1)" own rid] new fresh by simp
  moreover have "admit_question L' clk' uuid5 nid' q own rid contract = Inr ((x, tag), L')"
    using a f new by (auto simp: admit_question_def Let_def split: if_splits)
  ultimately show ?thesis using new by auto
qed (use a in \<open>auto simp: admit_question_def Let_def split: if_splits\<close>)

end
