(* ===== verification/Samples.thy ===== *)
theory Samples
  imports LedgerJobs LedgerDeliveries LedgerCommands Engine
begin

text \<open>
  Concrete records and ledgers, each accepted by its constructor, on which the properties of the
  other theories are instantiated.
\<close>

section \<open>Evaluation\<close>

lemma case_InrE:
  assumes "case x of Inl e \<Rightarrow> False | Inr v \<Rightarrow> P v"
  obtains v where "x = Inr v" and "P v"
  using assms by (auto split: sum.splits)

definition tick :: clock where
  "tick n = 1000 + int n"

definition later :: clock where
  "later n = 900000 + int n"

text \<open>A stand-in for the uuid5 hash: the identity, which is injective.\<close>

definition plain_hash :: "string \<Rightarrow> string" where
  "plain_hash s = s"

section \<open>Records\<close>

definition turn1 :: TurnEnvelope where
  "turn1 = \<lparr>tu_owner_id = ''ann'', tu_voice_session_id = ''v1'', tu_turn_id = ''u1'',
     tu_final_asr = ''book a table'', tu_media_refs = [], tu_environment_ref = [],
     tu_context_revision = 0, tu_timezone = ''UTC'', tu_start_ms = None, tu_end_ms = None,
     tu_timestamp_ms = None, tu_frontbrain_action = [], tu_frontbrain_task_name = [],
     tu_runtime_provider_name = [], tu_created_at_ms = 1\<rparr>"

definition turn2 :: TurnEnvelope where
  "turn2 = turn1\<lparr>tu_turn_id := ''u2'', tu_final_asr := ''for four people''\<rparr>"

definition ok_result :: TaskControlResult where
  "ok_result = \<lparr>tc_request_id = ''q1'', tc_disposition = ''answered'', tc_speech = ''done'',
     tc_task_ids = [], tc_interaction_id = None, tc_reason_key = [], tc_status = ''ok'',
     tc_candidates = []\<rparr>"

definition plan0 :: ContextPlan where
  "plan0 = \<lparr>cp_event_refs = [], cp_media_refs = [], cp_artifact_refs = [], cp_must_include_refs = [],
     cp_brief = [], cp_inventory = \<lparr>cv_total = 0, cv_items = [], cv_media_count = 0,
       cv_earliest_timestamp_ms = None, cv_latest_timestamp_ms = None\<rparr>\<rparr>"

definition project1 :: ProjectRecord where
  "project1 = \<lparr>pr_project_id = ''p1'', pr_owner_id = ''ann'', pr_label = ''default'',
     pr_provider_name = ''codex'', pr_environment_ref = [], pr_backend_session_id = [],
     pr_status = ''active'', pr_created_at_ms = 1, pr_updated_at_ms = 1\<rparr>"

definition task1 :: TaskRecord where
  "task1 = \<lparr>t_task_id = ''t1'', t_owner_id = ''ann'', t_source_turn_id = ''u1'', t_project_id = ''p1'',
     t_title = ''table'', t_objective = ''book a table'', t_instruction = ''book'',
     t_provider_name = ''codex'', t_context_plan = plan0, t_reasoning_profile = ''fast'',
     t_source_voice_session_id = ''v1'', t_status = TQueued, t_generation = 1,
     t_contract_revision = 1, t_active_run_id = None, t_cancel_request_id = None,
     t_blocked_actions = [], t_blocked_branches = [], t_run_blocked = False, t_assumptions = [],
     t_result = [], t_error = [], t_created_at_ms = 1, t_updated_at_ms = 1, t_name = ''table'',
     t_lineage_id = ''t1'', t_kind = ''main'', t_parent_task_id = [], t_parent_run_id = []\<rparr>"

definition running1 :: TaskRecord where
  "running1 = task1\<lparr>t_status := TRunning, t_active_run_id := Some ''r1''\<rparr>"

definition finished1 :: TaskRecord where
  "finished1 = task1\<lparr>t_status := TCompleted, t_result := ''booked''\<rparr>"

definition run1 :: RunRecord where
  "run1 = \<lparr>r_run_id = ''r1'', r_task_id = ''t1'', r_project_id = ''p1'', r_provider_name = ''codex'',
     r_generation = 1, r_status = RRunning, r_backend_session_id = [], r_started_at_ms = Some 1,
     r_ended_at_ms = None, r_last_event_seq = 0, r_error = []\<rparr>"

definition contract1 :: SupervisionContractRevision where
  "contract1 = \<lparr>sc_task_id = ''t1'', sc_revision = 1, sc_body = ContractBody_default,
     sc_source_turn_ids = [''u1''], sc_created_at_ms = 1\<rparr>"

definition body2 :: ContractBody where
  "body2 = ContractBody_default\<lparr>cb_notify_policy := \<lparr>np_milestones =
     [\<lparr>nr_key = ''table.found'', nr_label = ''a table was found'',
       nr_condition = Some \<lparr>mc_field = ''table.seats'', mc_op = ''gte'', mc_value = JInt 4\<rparr>,
       nr_once = True\<rparr>]\<rparr>\<rparr>"

definition activity1 :: WorkerEvent where
  "activity1 = \<lparr>e_event_id = ''e1'', e_owner_id = ''ann'', e_task_id = ''t1'', e_project_id = ''p1'',
     e_run_id = ''r1'', e_generation = 1, e_seq = 1, e_type = ''update'',
     e_payload = PUpdate \<lparr>up_kind = ''activity'', up_summary = ''calling'', up_milestone = None,
       up_evidence_refs = [], up_next_step = [], up_severity = ''normal''\<rparr>,
     e_created_at_ms = 5\<rparr>"

definition found1 :: UpdatePayload where
  "found1 = \<lparr>up_kind = ''milestone'', up_summary = ''found one'', up_milestone = Some ''table.found'',
     up_evidence_refs = [''a1''], up_next_step = [], up_severity = ''normal''\<rparr>"

definition milestone1 :: WorkerEvent where
  "milestone1 = activity1\<lparr>e_event_id := ''e2'', e_seq := 2, e_payload := PUpdate found1\<rparr>"

definition asks1 :: InteractionPayload where
  "asks1 = \<lparr>ip_kind = ''permission'', ip_prompt = ''send the deposit?'', ip_blocking_scope = ''action'',
     ip_choices = [], ip_reason_key = ''critical_input.missing'', ip_action_key = Some ''send''\<rparr>"

definition permission1 :: WorkerEvent where
  "permission1 = activity1\<lparr>e_event_id := ''e3'', e_seq := 3, e_type := ''interaction'',
     e_payload := PInteraction asks1\<rparr>"

definition artifact1 :: ArtifactEvidence where
  "artifact1 = \<lparr>a_ref = ''a1'', a_owner_id = ''ann'', a_task_id = ''t1'',
     a_facts = [(''table'', JObj [(''seats'', JInt 6)])], a_created_at_ms = 6\<rparr>"

definition caps1 :: BackendCapabilities where
  "caps1 = \<lparr>bc_steering = ''native'', bc_side_queries = ''none'', bc_terminal_side_queries = ''none'',
     bc_interactions = True, bc_blocking_granularity = ''branch'', bc_authority_enforcement = ''gateway'',
     bc_structured_events = ''native'', bc_trusted_risk_signals = True, bc_session_resume = False,
     bc_modalities = [''text''], bc_max_parallel_projects = 1,
     bc_context_provisioning = ''push_bounded'', bc_session = ''stateful'', bc_worker_tools = []\<rparr>"

definition delivery1 :: DeliveryRecord where
  "delivery1 = \<lparr>d_delivery_id = ''d1'', d_owner_id = ''ann'', d_task_id = Some ''t1'', d_event_id = None,
     d_interaction_id = None, d_timing = ''safe_pause'', d_topic = ''final'', d_speech_hint = ''booked'',
     d_status = ''completed'', d_state = DPending, d_claim_token = [], d_claim_expires_at_ms = None,
     d_attempts = 0, d_created_at_ms = 1, d_delivered_at_ms = None\<rparr>"

definition delivery2 :: DeliveryRecord where
  "delivery2 = delivery1\<lparr>d_delivery_id := ''d2'', d_timing := ''interrupt'', d_topic := ''risk''\<rparr>"

definition permission_request :: PendingInteraction where
  "permission_request = \<lparr>i_interaction_id = ''i1'', i_owner_id = ''ann'', i_target_id = ''t1'',
     i_task_id = Some ''t1'', i_run_id = Some ''r1'', i_source = ''worker'', i_audience = ''user'',
     i_kind = ''permission'', i_prompt = ''send the deposit?'', i_reason_key = ''critical_input.missing'',
     i_source_event_id = Some ''e3'', i_action_key = Some ''send'', i_choices = [],
     i_requested_scope = ''action'', i_effective_scope = ''branch'', i_state = IPending,
     i_fingerprint = ''f1'', i_coordination_request_id = [], i_response = [], i_decision = None,
     i_created_at_ms = 1, i_expires_at_ms = Some 500, i_resolved_at_ms = None\<rparr>"

definition question1 :: QuestionProposal where
  "question1 = \<lparr>qp_target_id = ''t1'', qp_reason_key = ''source_conflict'',
     qp_questions = [''which day?''], qp_blocking_scope = ''run'', qp_default_if_unanswered = None\<rparr>"

definition message1 :: WorkerMessage where
  "message1 = \<lparr>wm_message_id = ''m1'', wm_instruction = ''go on'', wm_mode = ''update'',
     wm_context_plan = None, wm_interaction_id = None, wm_source_event_id = None, wm_decision = None,
     wm_policy = None, wm_source_turn = None, wm_preempt = False\<rparr>"

definition command1 :: ProviderCommandRecord where
  "command1 = \<lparr>c_command_id = ''m1'', c_owner_id = ''ann'', c_task_id = ''t1'', c_run_id = ''r1'',
     c_message = message1, c_state = CPending, c_attempts = 0, c_error = [], c_created_at_ms = 1,
     c_sent_at_ms = None\<rparr>"

section \<open>Ledgers\<close>

definition row_of :: "string \<Rightarrow> string \<Rightarrow> 'a \<Rightarrow> 'a row" where
  "row_of k own v = \<lparr>row_id = k, row_owner = own, row_payload = v, row_updated = 1\<rparr>"

definition task_ledger :: TaskLedger where
  "task_ledger = empty_ledger\<lparr>
     l_projects := [row_of ''p1'' ''ann'' project1],
     l_tasks := [row_of ''t1'' ''ann'' running1],
     l_runs := [row_of ''r1'' ''ann'' run1],
     l_contracts := [contract1]\<rparr>"

definition finished_ledger :: TaskLedger where
  "finished_ledger = empty_ledger\<lparr>l_tasks := [row_of ''t1'' ''ann'' finished1]\<rparr>"

definition delivery_ledger :: TaskLedger where
  "delivery_ledger = empty_ledger\<lparr>
     l_deliveries := [row_of ''d1'' ''ann'' delivery1, row_of ''d2'' ''ann'' delivery2]\<rparr>"

definition permission_ledger :: TaskLedger where
  "permission_ledger = empty_ledger\<lparr>l_interactions := [row_of ''i1'' ''ann'' permission_request]\<rparr>"

definition evidence_ledger :: TaskLedger where
  "evidence_ledger = task_ledger\<lparr>l_artifacts := [row_of ''a1'' ''ann'' artifact1]\<rparr>"

lemmas record_samples = turn1_def turn2_def ok_result_def plan0_def project1_def task1_def running1_def
  finished1_def run1_def contract1_def body2_def activity1_def found1_def milestone1_def asks1_def
  permission1_def artifact1_def caps1_def delivery1_def delivery2_def permission_request_def
  question1_def message1_def command1_def

lemmas ledger_samples = task_ledger_def finished_ledger_def delivery_ledger_def permission_ledger_def
  evidence_ledger_def empty_ledger_def row_of_def

text \<open>The samples are values the constructors accept.\<close>

lemma samples_valid:
  "TurnEnvelope_init turn1 = Inr turn1 \<and> TurnEnvelope_init turn2 = Inr turn2 \<and>
   ProjectRecord_init project1 = Inr project1 \<and> RunRecord_init run1 = Inr run1"
  "TaskRecord_init task1 = Inr task1 \<and> TaskRecord_init running1 = Inr running1 \<and>
   TaskRecord_init finished1 = Inr finished1"
  "SupervisionContractRevision_init contract1 = Inr contract1"
  "WorkerEvent_init activity1 = Inr activity1 \<and> WorkerEvent_init milestone1 = Inr milestone1 \<and>
   WorkerEvent_init permission1 = Inr permission1 \<and> InteractionPayload_init asks1 = Inr asks1"
  "ArtifactEvidence_init artifact1 = Inr artifact1 \<and> BackendCapabilities_init caps1 = Inr caps1"
  "DeliveryRecord_init delivery1 = Inr delivery1 \<and> DeliveryRecord_init delivery2 = Inr delivery2"
  "PendingInteraction_init permission_request = Inr permission_request \<and>
   QuestionProposal_init question1 = Inr question1"
  "ProviderCommandRecord_init command1 = Inr command1 \<and> WorkerMessage_init message1 = Inr message1"
  by code_simp+

end
