(* ===== verification/Witnesses.thy ===== *)
theory Witnesses
  imports Samples
begin

text \<open>
  Every property with hypotheses, applied to a concrete input on which they hold.
\<close>

section \<open>The sample ledgers satisfy the invariants\<close>

lemmas invariant_defs = jobs_ok_def deliveries_keyed_def tasks_keyed_def interactions_keyed_def
  commands_keyed_def own_keyed_def keyed_def tbl_wf_def

lemma sample_invariants:
  "jobs_ok empty_ledger"
  "tasks_keyed task_ledger" "tasks_keyed finished_ledger"
  "deliveries_keyed delivery_ledger"
  "interactions_keyed permission_ledger"
  "commands_keyed empty_ledger"
  by (simp_all add: invariant_defs ledger_samples record_samples)

lemma sample_events_ok: "events_ok task_ledger" "aggregates_ok task_ledger"
  by (simp_all add: events_ok_def aggregates_ok_def event_ids_def entry_ids_def keyed_def tbl_wf_def
      get_aggregate_def ledger_samples record_samples own_keyed_def)

section \<open>Coordination jobs\<close>

lemma submitted_turn1:
  obtains r job L' where "submit_coordination empty_ledger tick turn1 ''q1'' = Inr ((r, Some job, True), L')"
proof -
  have "case submit_coordination empty_ledger tick turn1 ''q1'' of Inl e \<Rightarrow> False
      | Inr v \<Rightarrow> fst (snd (fst v)) \<noteq> None \<and> snd (snd (fst v))" by code_simp
  then show thesis by (rule case_InrE) (auto intro: that)
qed

lemma submit_idempotent_witness:
  "\<exists>r job L' job'. submit_coordination empty_ledger tick turn1 ''q1'' = Inr ((r, Some job, True), L') \<and>
     submit_coordination L' later turn1 ''q2'' = Inr ((r, job', False), L')"
proof (rule submitted_turn1)
  fix r job L'
  assume s: "submit_coordination empty_ledger tick turn1 ''q1'' = Inr ((r, Some job, True), L')"
  show ?thesis using s submit_coordination_idempotent [OF s, of later "''q2''"] by blast
qed

lemma submitted_jobs_ok:
  "submit_coordination empty_ledger tick turn1 ''q1'' = Inr (x, L') \<Longrightarrow> jobs_ok L'"
  by (rule submit_jobs_ok [OF sample_invariants(1)]) auto

text \<open>The ledger in which the first turn is submitted, and the claim on it.\<close>

definition submitted :: TaskLedger where
  "submitted = snd (projr (submit_coordination empty_ledger tick turn1 ''q1''))"

definition claimed :: TaskLedger where
  "claimed = snd (projr (claim_coordination_job submitted tick ''ann''))"

lemma submitted_ok: "jobs_ok submitted"
  by (rule submitted_turn1) (simp add: submitted_def submitted_jobs_ok)

lemma claimed_turn1:
  obtains j where "claim_coordination_job submitted tick ''ann'' = Inr (Some j, claimed)"
proof -
  have "case claim_coordination_job submitted tick ''ann'' of Inl e \<Rightarrow> False | Inr v \<Rightarrow> fst v \<noteq> None"
    by code_simp
  then show thesis by (rule case_InrE) (auto simp: claimed_def intro: that)
qed

lemma submitted_turn2:
  obtains r job L' where "submit_coordination claimed tick turn2 ''q2'' = Inr ((r, Some job, True), L')"
proof -
  have "case submit_coordination claimed tick turn2 ''q2'' of Inl e \<Rightarrow> False
      | Inr v \<Rightarrow> fst (snd (fst v)) \<noteq> None \<and> snd (snd (fst v))" by code_simp
  then show thesis by (rule case_InrE) (auto intro: that)
qed

lemma superseded_claim_witness:
  "\<exists>j job r L'. claim_coordination_job submitted tick ''ann'' = Inr (Some j, claimed) \<and>
     submit_coordination claimed tick turn2 ''q2'' = Inr ((r, Some job, True), L') \<and>
     j_version job = j_version j + 1 \<and>
     finish_coordination_job L' later j ok_result [] = Inr (None, L')"
proof (rule claimed_turn1, rule submitted_turn2)
  fix j r job L'
  assume c: "claim_coordination_job submitted tick ''ann'' = Inr (Some j, claimed)"
    and s: "submit_coordination claimed tick turn2 ''q2'' = Inr ((r, Some job, True), L')"
  have own: "tu_owner_id turn2 = ''ann''" by (simp add: turn2_def turn1_def)
  show ?thesis
    using superseded_claim_is_dropped [OF submitted_ok c [folded own] s, of later ok_result "[]"] c s
    by blast
qed

lemma claim_then_finish_witness:
  "\<exists>j j' L'. claim_coordination_job submitted tick ''ann'' = Inr (Some j, claimed) \<and>
     claim_coordination_job claimed later ''ann'' = Inr (None, claimed) \<and>
     finish_coordination_job claimed later j ok_result [] = Inr (Some j', L') \<and> j_state j' = JCompleted"
proof (rule claimed_turn1)
  fix j assume c: "claim_coordination_job submitted tick ''ann'' = Inr (Some j, claimed)"
  show ?thesis
    using claim_then_finish [OF submitted_ok c, where ?clk1.0 = later and ?clk2.0 = later and ?clk3.0 = later and ?res2.0 = ok_result and ?err2.0 = "[]" and err = "[]" and res = ok_result] c
    by auto
qed

lemma claimed_ok: "jobs_ok claimed"
  by (rule claimed_turn1) (rule claim_jobs_ok [OF submitted_ok])

lemma recovery_witness:
  "\<exists>L' j'. recover_coordination_jobs claimed later = Inr ((), L') \<and>
     get_coordination_job L' ''ann'' = Some j' \<and> j_state j' = JPending"
proof -
  obtain L' where L': "recover_coordination_jobs claimed later = Inr ((), L')"
    and r: "\<And>k. rel_option recovered (get_coordination_job claimed k) (get_coordination_job L' k)"
    using recovery_requeues_claimed_jobs [OF claimed_ok, of later] by blast
  have "case get_coordination_job claimed ''ann'' of None \<Rightarrow> False | Some j \<Rightarrow> j_state j = JCoordinating"
    by code_simp
  with r [of "''ann''"] L' show ?thesis
    by (auto simp: option_rel_Some1 recovered_def split: option.splits)
qed

section \<open>Deliveries\<close>

definition claimed_once :: TaskLedger where
  "claimed_once = snd (projr (claim_delivery delivery_ledger tick ''ann'' 30000 ''k1''))"

lemma claimed_delivery:
  obtains d where "claim_delivery delivery_ledger tick ''ann'' 30000 ''k1'' = Inr (Some d, claimed_once)"
    and "d_delivery_id d = ''d2''" and "\<not> claim_expired (tick 0) d" and "claim_expired (later 0) d"
    and "d_state d = DClaimed" and "d_owner_id d = ''ann''" and "d_attempts d = 1" and "d_claim_token d = ''k1''"
    and "get_delivery claimed_once ''d2'' = Some d"
proof -
  have "case claim_delivery delivery_ledger tick ''ann'' 30000 ''k1'' of Inl e \<Rightarrow> False
      | Inr (x, L') \<Rightarrow> (case x of None \<Rightarrow> False
          | Some d \<Rightarrow> d_delivery_id d = ''d2'' \<and> \<not> claim_expired (tick 0) d \<and> claim_expired (later 0) d \<and>
              d_state d = DClaimed \<and> d_owner_id d = ''ann'' \<and> d_attempts d = 1 \<and> d_claim_token d = ''k1'' \<and>
              get_delivery L' ''d2'' = Some d)" by code_simp
  then show thesis by (rule case_InrE) (auto simp: claimed_once_def split: option.splits intro: that)
qed

lemma exclusive_claim_witness:
  "\<exists>d d' L' done L3. claim_delivery delivery_ledger tick ''ann'' 30000 ''k1'' = Inr (Some d, claimed_once) \<and>
     claim_delivery claimed_once tick ''ann'' 30000 ''k2'' = Inr (Some d', L') \<and>
     d_delivery_id d' \<noteq> d_delivery_id d \<and>
     finish_delivery L' later (d_delivery_id d) ''k1'' True = Inr (done, L3) \<and> d_state done = DDelivered"
proof (rule claimed_delivery)
  fix d assume c: "claim_delivery delivery_ledger tick ''ann'' 30000 ''k1'' = Inr (Some d, claimed_once)"
    and alive: "\<not> claim_expired (tick 0) d"
  have "case claim_delivery claimed_once tick ''ann'' 30000 ''k2'' of Inl e \<Rightarrow> False | Inr v \<Rightarrow> fst v \<noteq> None"
    by code_simp
  then obtain d' L' where c': "claim_delivery claimed_once tick ''ann'' 30000 ''k2'' = Inr (Some d', L')"
    by (rule case_InrE) auto
  show ?thesis
    using claimed_delivery_is_exclusive [OF sample_invariants(4) c alive c', where clk'' = later] c c' by blast
qed

lemma waiting_work_witness:
  "\<exists>d L'. claim_delivery delivery_ledger tick ''ann'' 30000 ''k1'' = Inr (Some d, L') \<and>
     d_state d = DClaimed \<and> d_timing d = ''interrupt''"
  using claim_delivery_takes_waiting_work [OF sample_invariants(4), of 30000 "''d2''" delivery2 "''ann''" tick "''k1''"]
  by (auto simp: get_delivery_def ledger_samples record_samples tbl_get_def)

lemma claimed_once_ok: "deliveries_keyed claimed_once"
  by (rule claimed_delivery) (rule claim_keyed [OF sample_invariants(4)])

lemma late_acknowledgement_witness:
  "\<exists>n L1 done L2. requeue_expired_delivery_claims claimed_once later ''ann'' = (n, L1) \<and>
     acknowledge_consumed L1 later ''d2'' ''k1'' 1 True = Inr (done, L2) \<and> d_state done = DDelivered"
proof (rule claimed_delivery)
  fix d assume d: "d_delivery_id d = ''d2''" "claim_expired (later 0) d" "d_state d = DClaimed"
    "d_owner_id d = ''ann''" "d_attempts d = 1" "d_claim_token d = ''k1''"
    "get_delivery claimed_once ''d2'' = Some d"
  obtain n L1 where rq: "requeue_expired_delivery_claims claimed_once later ''ann'' = (n, L1)" by fastforce
  show ?thesis
    using late_acknowledgement [OF claimed_once_ok d(7,3,4) _ d(2) rq, where ?clk1.0 = later and ?clk2.0 = later] d rq by auto
qed

section \<open>Tasks and contracts\<close>

lemma prune_safe_witness:
  "get_task (snd (prune_terminal_tasks task_ledger later ''ann'' 1000 0)) ''t1'' = Some running1 \<and>
   get_task (snd (prune_terminal_tasks finished_ledger later ''ann'' 1000 0)) ''t1'' = None"
proof -
  have e: "''t1'' \<notin> set (fst (prune_terminal_tasks task_ledger later ''ann'' 1000 0))"
    "''t1'' \<in> set (fst (prune_terminal_tasks finished_ledger later ''ann'' 1000 0))" by code_simp+
  have t: "get_task task_ledger ''t1'' = Some running1" "get_task finished_ledger ''t1'' = Some finished1"
    by code_simp+
  show ?thesis
    using prune_terminal_tasks_safe [OF sample_invariants(2) prod.collapse [symmetric] t(1), of later "''ann''" 1000 0]
      prune_terminal_tasks_safe [OF sample_invariants(3) prod.collapse [symmetric] t(2), of later "''ann''" 1000 0] e
    by simp
qed

lemma prune_quota_witness:
  "prunable finished_ledger ''ann'' = [finished1] \<and>
   length (filter (\<lambda>t. t_kind t = ''main'')
     (prunable (snd (prune_terminal_tasks finished_ledger tick ''ann'' 100000 0)) ''ann'')) \<le> 0"
proof -
  have "prunable finished_ledger ''ann'' = [finished1]" by code_simp
  then show ?thesis
    using prune_terminal_tasks_quota [OF sample_invariants(3) prod.collapse [symmetric], of 0 "''main''"
      tick "''ann''" 100000] by simp
qed

definition revised :: TaskLedger where
  "revised = snd (projr (revise_contract task_ledger tick ''t1'' body2 [''u2'']))"

lemma revised_contract1:
  obtains c where "revise_contract task_ledger tick ''t1'' body2 [''u2''] = Inr (c, revised)" and "sc_revision c = 2"
proof -
  have "case revise_contract task_ledger tick ''t1'' body2 [''u2''] of Inl e \<Rightarrow> False | Inr v \<Rightarrow> sc_revision (fst v) = 2"
    by code_simp
  then show thesis by (rule case_InrE) (auto simp: revised_def intro: that)
qed

lemma revise_contract_witness:
  "\<exists>c. revise_contract task_ledger tick ''t1'' body2 [''u2''] = Inr (c, revised) \<and> sc_revision c = 2 \<and>
     get_contract revised ''t1'' (Some 1) = Some contract1 \<and> get_contract revised ''t1'' (Some 2) = Some c \<and>
     revise_contract revised later ''t1'' body2 [''u2''] = Inr (c, revised)"
proof (rule revised_contract1)
  fix c assume c: "revise_contract task_ledger tick ''t1'' body2 [''u2''] = Inr (c, revised)" "sc_revision c = 2"
  have "get_contract task_ledger ''t1'' (Some 1) = Some contract1" by code_simp
  then show ?thesis using revise_contract_history [OF sample_invariants(2) c(1), of later] c by simp
qed

lemma create_task_witness:
  "\<exists>L'. create_task empty_ledger tick project1 task1 contract1 = Inr ((), L') \<and>
     get_task L' ''t1'' = Some task1 \<and> get_contract L' ''t1'' (Some 1) = Some contract1 \<and>
     get_project L' ''p1'' = Some project1"
proof -
  have "case create_task empty_ledger tick project1 task1 contract1 of Inl e \<Rightarrow> False | Inr v \<Rightarrow> True"
    by code_simp
  then obtain L' where c: "create_task empty_ledger tick project1 task1 contract1 = Inr ((), L')"
    by (rule case_InrE) auto
  have "t_task_id task1 = ''t1''" "pr_project_id project1 = ''p1''" "get_project empty_ledger ''p1'' = None"
    by code_simp+
  then show ?thesis
    using create_task_stores_all [OF c, of later project1 contract1] c by auto
qed

lemma save_task_once_witness:
  "\<exists>L'. save_task_once task_ledger tick ''op'' (task1\<lparr>t_status := TCompleted\<rparr>) =
        Inr (task1\<lparr>t_status := TCompleted\<rparr>, L') \<and>
     save_task_once L' later ''op'' task1 = Inr (task1\<lparr>t_status := TCompleted\<rparr>, L')"
proof -
  have "case save_task_once task_ledger tick ''op'' (task1\<lparr>t_status := TCompleted\<rparr>) of
      Inl e \<Rightarrow> False | Inr v \<Rightarrow> fst v = task1\<lparr>t_status := TCompleted\<rparr>" by code_simp
  then obtain L' where s: "save_task_once task_ledger tick ''op'' (task1\<lparr>t_status := TCompleted\<rparr>) =
      Inr (task1\<lparr>t_status := TCompleted\<rparr>, L')" by (rule case_InrE) auto
  show ?thesis using save_task_once_replay [OF sample_invariants(2) s, of later task1] s by blast
qed

section \<open>Events, evidence and activity\<close>

definition counted :: TaskLedger where
  "counted = snd (projr (append_event task_ledger tick activity1))"

lemma appended: "append_event task_ledger tick activity1 = Inr (True, counted)"
proof -
  have "case append_event task_ledger tick activity1 of Inl e \<Rightarrow> False | Inr v \<Rightarrow> fst v" by code_simp
  then show ?thesis by (rule case_InrE) (auto simp: counted_def)
qed

lemma append_event_witness:
  "append_event task_ledger tick activity1 = Inr (True, counted) \<and>
   find_event counted ''e1'' = Some \<lparr>er_event = activity1, er_evaluated_revision = 1, er_processed = False\<rparr> \<and>
   append_event counted later activity1 = Inr (False, counted)"
proof -
  have "get_task task_ledger (e_task_id activity1) = Some running1" "t_contract_revision running1 = 1"
    "e_event_id activity1 = ''e1''" by code_simp+
  then show ?thesis
    using append_event_fenced [OF sample_events_ok(1) appended, of later] appended by auto
qed

lemma counted_ok: "events_ok counted"
  by (rule append_event_ok [OF sample_events_ok(1) appended])

lemma live_event_witness:
  "\<exists>L'. append_event counted later milestone1 = Inr (True, L') \<and> events_ok L'"
proof (rule live_event_is_accepted [OF counted_ok])
  show "find_event counted (e_event_id milestone1) = None" by code_simp
  show "get_task counted (e_task_id milestone1) = Some running1" by code_simp
  show "get_run counted (e_run_id milestone1) = Some (run1\<lparr>r_last_event_seq := 1\<rparr>)" by code_simp
  show "RunRecord_init (run1\<lparr>r_last_event_seq := 1\<rparr>) = Inr (run1\<lparr>r_last_event_seq := 1\<rparr>)" by code_simp
  show "event_current running1 (run1\<lparr>r_last_event_seq := 1\<rparr>) milestone1" by code_simp
  show "r_last_event_seq (run1\<lparr>r_last_event_seq := 1\<rparr>) < e_seq milestone1" by code_simp
qed

lemma listed_events_witness:
  "list_events counted (Some ''t1'') None = [activity1] \<and>
   sorted_wrt (<) (map e_seq (filter (\<lambda>e. e_run_id e = ''r1'') (list_events counted (Some ''t1'') None)))"
proof -
  have "list_events counted (Some ''t1'') None = [activity1]" by code_simp
  with listed_events_in_sequence [OF counted_ok, of "''r1''" "Some ''t1''" None] show ?thesis by blast
qed

lemma artifact_witness:
  "\<exists>L'. save_artifact task_ledger tick artifact1 = Inr ((), L') \<and> get_artifact L' ''a1'' = Some artifact1"
proof -
  have "case save_artifact task_ledger tick artifact1 of Inl e \<Rightarrow> False | Inr v \<Rightarrow> True" by code_simp
  then obtain L' where s: "save_artifact task_ledger tick artifact1 = Inr ((), L')" by (rule case_InrE) auto
  have "get_artifact task_ledger (a_ref artifact1) = None" "a_ref artifact1 = ''a1''" by code_simp+
  with artifact_evidence_immutable [OF s] s show ?thesis by auto
qed

lemma activity_witness:
  "\<exists>g L'. append_activity_aggregate task_ledger tick ''g1'' activity1 1 60000 = Inr (g, L') \<and>
     g_event_count g = 1 \<and> open_aggregate L' ''ann'' ''t1'' 1 = Some g \<and>
     append_activity_aggregate L' later ''g2'' activity1 1 60000 = Inr (g, L')"
proof -
  have "case append_activity_aggregate task_ledger tick ''g1'' activity1 1 60000 of Inl e \<Rightarrow> False | Inr v \<Rightarrow> True"
    by code_simp
  then obtain g L' where a: "append_activity_aggregate task_ledger tick ''g1'' activity1 1 60000 = Inr (g, L')"
    by (rule case_InrE) auto
  have f: "get_aggregate task_ledger ''g1'' = None" "open_aggregate task_ledger ''ann'' ''t1'' 1 = None"
    "e_owner_id activity1 = ''ann''" "e_task_id activity1 = ''t1''" by code_simp+
  show ?thesis
    using activity_is_folded [OF sample_events_ok(2) f(1) a, of later "''g2''"] a f by auto
qed

section \<open>Interactions\<close>

definition answering :: TaskLedger where
  "answering = snd (projr (begin_interaction_resolution permission_ledger tick ''i1'' ''yes'' (Some ''allow'')))"

lemma answered:
  obtains i where "begin_interaction_resolution permission_ledger tick ''i1'' ''yes'' (Some ''allow'') =
    Inr (Some i, answering)" and "i_decision i = Some ''allow''"
proof -
  have "case begin_interaction_resolution permission_ledger tick ''i1'' ''yes'' (Some ''allow'') of
      Inl e \<Rightarrow> False | Inr v \<Rightarrow> map_option i_decision (fst v) = Some (Some ''allow'')" by code_simp
  then show thesis by (rule case_InrE) (auto simp: answering_def intro: that)
qed

lemma one_resolver_witness:
  "begin_interaction_resolution answering later ''i1'' ''no'' (Some ''deny'') = Inr (None, answering) \<and>
   (\<exists>done L2. finish_interaction_resolution answering later ''i1'' True = Inr (done, L2) \<and>
      i_state done = IResolved \<and> i_response done = ''yes'' \<and> i_decision done = Some ''allow'')"
proof (rule answered)
  fix i assume b: "begin_interaction_resolution permission_ledger tick ''i1'' ''yes'' (Some ''allow'') =
    Inr (Some i, answering)" and d: "i_decision i = Some ''allow''"
  show ?thesis
    using interaction_has_one_resolver [OF sample_invariants(5) b, where clk' = later and ?clk2.0 = later
        and response' = "''no''" and decision' = "Some ''deny''" and success = True] d by auto
qed

lemma permission_witness:
  "i_state permission_request = IPending \<and>
   (\<exists>gone L' j. expire_pending_permissions permission_ledger tick = (gone, L') \<and>
     get_interaction L' ''i1'' = Some j \<and> i_decision j = Some ''deny'' \<and>
     begin_interaction_resolution L' later ''i1'' ''yes'' (Some ''allow'') = Inr (None, L'))"
proof -
  have i: "get_interaction permission_ledger ''i1'' = Some permission_request"
    "i_kind permission_request = ''permission''" "i_state permission_request = IPending" by code_simp+
  obtain gone L' where e: "expire_pending_permissions permission_ledger tick = (gone, L')" by fastforce
  show ?thesis
    using permission_fails_closed [OF sample_invariants(5) i(1,2) e, of later "''yes''" "Some ''allow''" True] e i(3)
    by auto
qed

lemma expiry_witness:
  "\<exists>gone L' j. expire_due_interactions permission_ledger tick (Some 600) = (gone, L') \<and>
     get_interaction L' ''i1'' = Some j \<and> i_state j = IExpired \<and> j \<in> set gone"
proof -
  obtain gone L' where e: "expire_due_interactions permission_ledger tick (Some 600) = (gone, L')" by fastforce
  have i: "get_interaction permission_ledger ''i1'' = Some permission_request" "due 600 permission_request"
    by code_simp+
  with expiry_is_exact [OF sample_invariants(5) e, of "''i1''" later] e show ?thesis by auto
qed

section \<open>Provider commands\<close>

definition queued :: TaskLedger where
  "queued = snd (projr (enqueue_provider_command empty_ledger tick command1))"

lemma enqueued: "enqueue_provider_command empty_ledger tick command1 = Inr (command1, queued)"
proof -
  have "case enqueue_provider_command empty_ledger tick command1 of Inl e \<Rightarrow> False | Inr v \<Rightarrow> fst v = command1"
    by code_simp
  then show ?thesis by (rule case_InrE) (auto simp: queued_def)
qed

lemma command_witness:
  "\<exists>u L2. set_provider_command_state queued tick ''m1'' ''sent'' [] = Inr (u, L2) \<and> c_state u = CSent \<and>
     enqueue_provider_command L2 later command1 = Inr (u, L2)"
proof -
  have "case set_provider_command_state queued tick ''m1'' ''sent'' [] of Inl e \<Rightarrow> False | Inr v \<Rightarrow> c_state (fst v) = CSent"
    by code_simp
  then obtain u L2 where s: "set_provider_command_state queued tick ''m1'' ''sent'' [] = Inr (u, L2)" "c_state u = CSent"
    by (rule case_InrE) auto
  have "c_command_id command1 = ''m1''" by code_simp
  then show ?thesis
    using provider_command_stored_once [OF sample_invariants(6) enqueued, of tick "''sent''" "[]" u L2 later] s by simp
qed

lemma queued_ok: "commands_keyed queued"
  by (rule enqueue_command_keyed [OF sample_invariants(6) enqueued])

lemma closing_witness:
  "get_provider_command (fail_provider_commands_for_run queued later ''r1'' ''lost'') ''m1'' =
     Some (command1\<lparr>c_state := CFailed, c_error := ''lost''\<rparr>)"
proof -
  have "get_provider_command queued ''m1'' = Some command1" "c_run_id command1 = ''r1''" "c_state command1 = CPending"
    by code_simp+
  then show ?thesis using open_commands_are_closed [OF queued_ok, of "''m1''" command1 later "''r1''" "''lost''"] by simp
qed

section \<open>The policy engine\<close>

lemma authorize_witness:
  "ad_outcome (authorize contract1 caps1 ''read'' True False) = ''allow'' \<and>
   ad_outcome (authorize contract1 caps1 ''send'' True False) = ''require_permission''"
proof -
  have p: "AuthorityPolicy_init (cb_authority_policy (sc_body contract1)) = Inr AuthorityPolicy_default" by code_simp
  have "''read'' \<in> set (au_allow AuthorityPolicy_default)"
    "''send'' \<in> set (au_require_permission AuthorityPolicy_default)"
    "bc_authority_enforcement caps1 \<noteq> ''none''" by code_simp+
  then show ?thesis
    using authorize_fails_closed [OF p, of caps1 "''read''" True False]
      authorize_fails_closed [OF p, of caps1 "''send''" True False] by (simp add: Let_def)
qed

lemma milestone_witness:
  "rd_timing (arbitrate evidence_ledger milestone1 (contract1\<lparr>sc_body := body2\<rparr>) caps1) = ''safe_pause'' \<and>
   (\<exists>r a. get_artifact evidence_ledger r = Some a \<and> a_owner_id a = e_owner_id milestone1)"
proof -
  let ?d = "arbitrate evidence_ledger milestone1 (contract1\<lparr>sc_body := body2\<rparr>) caps1"
  have e: "e_payload milestone1 = PUpdate found1" "up_kind found1 = ''milestone''" "up_severity found1 = ''normal''"
    "up_evidence_refs found1 = [''a1'']" by code_simp+
  have d: "rd_accepted ?d" "rd_timing ?d = ''safe_pause''" by code_simp+
  then have "rd_timing ?d \<noteq> ''hold''" by simp
  from milestone_needs_evidence [OF e(1,2,3) refl d(1) this] e(4) d(2) show ?thesis by auto
qed

lemma user_route_witness:
  "rd_interaction_route (arbitrate empty_ledger permission1 contract1 caps1) = ''user'' \<and>
   rd_timing (arbitrate empty_ledger permission1 contract1 caps1) = ''safe_pause''"
proof -
  have h: "ContractBody_init (sc_body contract1) = Inr ContractBody_default"
    "DeliveryPolicy_init (cb_delivery_policy ContractBody_default) = Inr DeliveryPolicy_default"
    "e_payload permission1 = PInteraction asks1" "InteractionPayload_init asks1 = Inr asks1"
    "rd_interaction_route (arbitrate empty_ledger permission1 contract1 caps1) = ''user''" by code_simp+
  have "rd_timing (arbitrate empty_ledger permission1 contract1 caps1) \<noteq> ''interrupt''"
    "ip_action_key asks1 = Some ''send''"
    "''send'' \<in> set (au_require_permission (cb_authority_policy ContractBody_default))" by code_simp+
  with user_interactions_are_delivered [OF h(1-4) refl h(5)] h(5) show ?thesis by auto
qed

lemma worker_interaction_witness:
  "\<exists>i L'. from_worker empty_ledger tick plain_hash ''i9'' permission1 caps1 ''user'' = Inr (i, L') \<and>
     get_interaction L' ''i9'' = Some i \<and>
     from_worker L' later plain_hash ''i10'' permission1 caps1 ''user'' = Inr (i, L')"
proof -
  have "case from_worker empty_ledger tick plain_hash ''i9'' permission1 caps1 ''user'' of Inl e \<Rightarrow> False | Inr v \<Rightarrow> True"
    by code_simp
  then obtain i L' where f: "from_worker empty_ledger tick plain_hash ''i9'' permission1 caps1 ''user'' = Inr (i, L')"
    by (rule case_InrE) auto
  have "find_interaction_by_fingerprint empty_ledger (stable_key plain_hash [''worker'', e_event_id permission1]) = None"
    by code_simp
  with worker_interaction_registered_once [OF f this, of later "''i10''" caps1 "''user''"] f show ?thesis by blast
qed

lemma clarification_witness:
  "\<exists>i L'. admit_question task_ledger tick plain_hash ''i9'' question1 ''ann'' ''q1'' (Some contract1) =
       Inr ((Some i, Admitted), L') \<and> i_state i = IPending \<and>
     admit_question L' later plain_hash ''i10'' question1 ''ann'' ''q1'' (Some contract1) =
       Inr ((Some i, Admitted), L')"
proof -
  have "case admit_question task_ledger tick plain_hash ''i9'' question1 ''ann'' ''q1'' (Some contract1) of
      Inl e \<Rightarrow> False | Inr v \<Rightarrow> fst (fst v) \<noteq> None \<and> snd (fst v) = Admitted" by code_simp
  then obtain i L' where a: "admit_question task_ledger tick plain_hash ''i9'' question1 ''ann'' ''q1'' (Some contract1) =
      Inr ((Some i, Admitted), L')" by (rule case_InrE) auto
  have "get_interaction task_ledger ''i9'' = None" by code_simp
  with clarification_rounds_bounded [OF a this, of later "''i10''"] a show ?thesis by blast
qed

end
