(* ===== verification/LedgerSteps.thy ===== *)
theory LedgerSteps
  imports LedgerJobs LedgerDeliveries LedgerCommands LedgerEvents LedgerInteractions
begin

text \<open>
  All mutating methods of \<open>TaskLedger\<close> as step relations, one per component, and their union.  Every
  method runs in one transaction under the ledger's lock, so a run of the program is a sequence of
  steps in some order; a method that raises rolls back and is no step.  The records a caller passes
  went through their constructors, and the ids it draws with \<open>new_id\<close> are fresh where a rule says
  so.  \<open>clear\<close>, which discards the whole session, is not one of the steps: it is added to them by
  \<open>session_run\<close> (\<open>LedgerInvariant\<close>).
\<close>

section \<open>Frames\<close>

text \<open>The tables, and what it means that an operation writes only some of them.\<close>

datatype table_name =
  Turns | Contexts | Jobs | Sessions | Projects | Tasks | Runs | Artifacts | Interactions |
  Deliveries | Commands | Aggregates | Contracts | Events | Receipts | Markers | Entries

fun agrees :: "TaskLedger \<Rightarrow> TaskLedger \<Rightarrow> table_name \<Rightarrow> bool" where
  "agrees L L' Turns = (l_turns L' = l_turns L)"
| "agrees L L' Contexts = (l_contexts L' = l_contexts L)"
| "agrees L L' Jobs = (l_jobs L' = l_jobs L)"
| "agrees L L' Sessions = (l_sessions L' = l_sessions L)"
| "agrees L L' Projects = (l_projects L' = l_projects L)"
| "agrees L L' Tasks = (l_tasks L' = l_tasks L)"
| "agrees L L' Runs = (l_runs L' = l_runs L)"
| "agrees L L' Artifacts = (l_artifacts L' = l_artifacts L)"
| "agrees L L' Interactions = (l_interactions L' = l_interactions L)"
| "agrees L L' Deliveries = (l_deliveries L' = l_deliveries L)"
| "agrees L L' Commands = (l_commands L' = l_commands L)"
| "agrees L L' Aggregates = (l_aggregates L' = l_aggregates L)"
| "agrees L L' Contracts = (l_contracts L' = l_contracts L)"
| "agrees L L' Events = (l_events L' = l_events L)"
| "agrees L L' Receipts = (l_receipts L' = l_receipts L)"
| "agrees L L' Markers = (l_markers L' = l_markers L)"
| "agrees L L' Entries = (l_entries L' = l_entries L)"

definition writes_only :: "table_name set \<Rightarrow> TaskLedger \<Rightarrow> TaskLedger \<Rightarrow> bool" where
  "writes_only S L L' \<longleftrightarrow> (\<forall>n. n \<notin> S \<longrightarrow> agrees L L' n)"

lemma all_tables: "(\<forall>n. P n) \<longleftrightarrow>
  P Turns \<and> P Contexts \<and> P Jobs \<and> P Sessions \<and> P Projects \<and> P Tasks \<and> P Runs \<and> P Artifacts \<and>
  P Interactions \<and> P Deliveries \<and> P Commands \<and> P Aggregates \<and> P Contracts \<and> P Events \<and>
  P Receipts \<and> P Markers \<and> P Entries"
  (is "_ \<longleftrightarrow> ?each")
proof
  assume e: ?each
  have "P n" for n using e by (cases n) simp_all
  then show "\<forall>n. P n" by blast
qed blast

lemma writes_only_refl [simp]: "writes_only S L L"
  unfolding writes_only_def by (simp add: all_tables)

lemma writes_onlyD: "writes_only S L L' \<Longrightarrow> n \<notin> S \<Longrightarrow> agrees L L' n"
  by (simp add: writes_only_def)

lemmas writes_only_iff = writes_only_def [unfolded all_tables]

section \<open>Steps of the components\<close>

inductive turn_step :: "TaskLedger \<Rightarrow> TaskLedger \<Rightarrow> bool" where
  put_turn: "put_turn L clk turn = Inr (b, L') \<Longrightarrow> turn_step L L'"
| put_context: "put_realtime_context L clk own ev = Inr (b, L') \<Longrightarrow> turn_step L L'"
| save_session: "save_coordinator_session L clk s = Inr (u, L') \<Longrightarrow> turn_step L L'"
| save_receipt: "save_receipt L clk k own r = Inr (x, L') \<Longrightarrow> turn_step L L'"

inductive job_step :: "TaskLedger \<Rightarrow> TaskLedger \<Rightarrow> bool" where
  submit: "submit_coordination L clk turn rid = Inr (x, L') \<Longrightarrow> job_step L L'"
| claim_job: "claim_coordination_job L clk own = Inr (x, L') \<Longrightarrow> job_step L L'"
| finish_job: "finish_coordination_job L clk job r e = Inr (x, L') \<Longrightarrow> job_step L L'"
| release_job: "release_coordination_job L clk job = Inr (x, L') \<Longrightarrow> job_step L L'"
| recover_jobs: "recover_coordination_jobs L clk = Inr (x, L') \<Longrightarrow> job_step L L'"

inductive task_step :: "TaskLedger \<Rightarrow> TaskLedger \<Rightarrow> bool" where
  save_project: "save_project L clk p = Inr (u, L') \<Longrightarrow> task_step L L'"
| save_task: "save_task L clk task = Inr (u, L') \<Longrightarrow> TaskRecord_init task = Inr task \<Longrightarrow> task_step L L'"
| save_task_once: "save_task_once L clk op task = Inr (t, L') \<Longrightarrow> TaskRecord_init task = Inr task \<Longrightarrow>
    task_step L L'"
| prune: "prune_terminal_tasks L clk own ttl mx = (ids, L') \<Longrightarrow> task_step L L'"
| create_task: "create_task L clk p task c = Inr (u, L') \<Longrightarrow> TaskRecord_init task = Inr task \<Longrightarrow> task_step L L'"
| revise_contract: "revise_contract L clk k body src = Inr (c, L') \<Longrightarrow> task_step L L'"

inductive event_step :: "TaskLedger \<Rightarrow> TaskLedger \<Rightarrow> bool" where
  save_run: "save_run L clk run own = Inr (u, L') \<Longrightarrow> RunRecord_init run = Inr run \<Longrightarrow> event_step L L'"
| append_event: "append_event L clk ev = Inr (b, L') \<Longrightarrow> event_step L L'"
| mark_event: "mark_event_processed L eid = Inr (u, L') \<Longrightarrow> event_step L L'"

inductive evidence_step :: "TaskLedger \<Rightarrow> TaskLedger \<Rightarrow> bool" where
  save_artifact: "save_artifact L clk a = Inr (u, L') \<Longrightarrow> evidence_step L L'"
| append_aggregate: "append_activity_aggregate L clk aid ev rv w = Inr (g, L') \<Longrightarrow>
    get_aggregate L aid = None \<Longrightarrow> evidence_step L L'"
| flush_aggregate: "flush_activity_aggregate L clk aid = Inr (g, L') \<Longrightarrow> evidence_step L L'"

inductive interaction_step :: "TaskLedger \<Rightarrow> TaskLedger \<Rightarrow> bool" where
  save_interaction: "interaction_step L (save_interaction L clk i)"
| begin_resolution: "begin_interaction_resolution L clk k resp dec = Inr (x, L') \<Longrightarrow> interaction_step L L'"
| finish_resolution: "finish_interaction_resolution L clk k ok = Inr (x, L') \<Longrightarrow> interaction_step L L'"
| expire_due: "interaction_step L (snd (expire_due_interactions L clk ts))"
| expire_permissions: "interaction_step L (snd (expire_pending_permissions L clk))"

text \<open>The broker creates every delivery pending and unclaimed.\<close>

definition fresh_delivery :: "DeliveryRecord \<Rightarrow> bool" where
  "fresh_delivery d \<longleftrightarrow> d_state d = DPending \<and> d_claim_token d = [] \<and>
     d_claim_expires_at_ms d = None \<and> d_attempts d = 0 \<and> d_delivered_at_ms d = None"

inductive delivery_step :: "TaskLedger \<Rightarrow> TaskLedger \<Rightarrow> bool" where
  create_delivery: "create_delivery_once L clk mk d = Inr (x, L') \<Longrightarrow> fresh_delivery d \<Longrightarrow> delivery_step L L'"
| claim: "claim_delivery L clk own lease tok = Inr (x, L') \<Longrightarrow> delivery_step L L'"
| requeue: "delivery_step L (snd (requeue_expired_delivery_claims L clk own))"
| finish: "finish_delivery L clk k tok b = Inr (x, L') \<Longrightarrow> delivery_step L L'"
| finish_expired: "finish_expired_delivery L clk k n b = Inr (x, L') \<Longrightarrow> delivery_step L L'"
| cancel: "delivery_step L (cancel_interaction_deliveries L clk iid)"

inductive command_step :: "TaskLedger \<Rightarrow> TaskLedger \<Rightarrow> bool" where
  enqueue_command: "enqueue_provider_command L clk c = Inr (x, L') \<Longrightarrow> command_step L L'"
| set_command: "set_provider_command_state L clk k s e = Inr (x, L') \<Longrightarrow> command_step L L'"
| reset_commands: "command_step L (reset_sending_provider_commands L clk)"
| fail_commands: "command_step L (fail_provider_commands_for_run L clk rid e)"
| cancel_commands: "command_step L (cancel_provider_commands_for_interaction L clk iid)"

section \<open>What the components write\<close>

lemma put_job_writes: "writes_only {Jobs} L (put_job j own now L)"
  by (simp add: writes_only_iff put_job_def)

lemma recover_jobs_writes: "recover_jobs clk n js L = Inr L' \<Longrightarrow> writes_only {Jobs} L L'"
proof (induction clk n js L rule: recover_jobs.induct)
  case (2 clk n job rest L)
  then show ?case
    by (auto simp: writes_only_iff put_job_def split: if_splits sum.splits)
qed simp

lemma turn_step_writes: "turn_step L L' \<Longrightarrow> writes_only {Turns, Contexts, Sessions, Receipts} L L'"
  by (cases rule: turn_step.cases)
    (auto simp: put_turn_def put_realtime_context_def save_coordinator_session_def save_receipt_def
      add_receipt_def writes_only_iff Let_def split: sum.splits if_splits option.splits)

lemma job_step_writes: "job_step L L' \<Longrightarrow> writes_only {Turns, Jobs, Receipts} L L'"
  by (cases rule: job_step.cases)
    (auto simp: submit_coordination_def submit_job_def claim_coordination_job_def
      finish_coordination_job_def release_coordination_job_def recover_coordination_jobs_def
      put_job_def add_receipt_def writes_only_iff Let_def
      dest!: recover_jobs_writes split: sum.splits if_splits option.splits)

lemma task_step_writes: "task_step L L' \<Longrightarrow> writes_only {Projects, Tasks, Contracts, Markers, Entries} L L'"
proof (induction rule: task_step.cases)
  case (create_task L clk p task c u L')
  then show ?case
    by (auto simp: create_task_def insert_contract_def add_entry_def writes_only_iff Let_def bindE_Inr_iff
        split: sum.splits if_splits option.splits)
next
  case (revise_contract L clk k body src c L')
  from revise_contract(3) show ?case
    unfolding revise_contract(1,2)
    by (cases rule: revise_contract_InrE) (auto simp: add_entry_def writes_only_iff)
qed (auto simp: save_project_def save_task_def save_task_once_def prune_terminal_tasks_def add_marker_def
    writes_only_iff Let_def split: sum.splits if_splits option.splits)

lemma event_step_writes: "event_step L L' \<Longrightarrow> writes_only {Runs, Events, Entries} L L'"
  by (cases rule: event_step.cases)
    (auto simp: save_run_def append_event_def mark_event_processed_def add_entry_def bindE_Inr_iff
      writes_only_iff Let_def split: sum.splits if_splits option.splits)

lemma evidence_step_writes: "evidence_step L L' \<Longrightarrow> writes_only {Artifacts, Aggregates} L L'"
  by (cases rule: evidence_step.cases)
    (auto simp: save_artifact_def append_activity_aggregate_def flush_activity_aggregate_def
      put_aggregate_def bindE_Inr_iff writes_only_iff Let_def
      split: sum.splits if_splits option.splits WorkerPayload.splits)

lemma interaction_step_writes: "interaction_step L L' \<Longrightarrow> writes_only {Interactions} L L'"
  by (cases rule: interaction_step.cases)
    (auto simp: save_interaction_def begin_interaction_resolution_def finish_interaction_resolution_def
      expire_due_interactions_def expire_pending_permissions_def put_interaction_def writes_only_iff Let_def
      split: sum.splits if_splits option.splits prod.splits)

lemma delivery_step_writes: "delivery_step L L' \<Longrightarrow> writes_only {Deliveries, Markers} L L'"
  by (cases rule: delivery_step.cases)
    (auto simp: create_delivery_once_def claim_delivery_def requeue_expired_delivery_claims_def
      finish_delivery_def finish_expired_delivery_def cancel_interaction_deliveries_def put_finished_def
      add_marker_def writes_only_iff Let_def
      split: sum.splits if_splits option.splits prod.splits list.splits)

lemma command_step_writes: "command_step L L' \<Longrightarrow> writes_only {Commands} L L'"
  by (cases rule: command_step.cases)
    (auto simp: enqueue_provider_command_def set_provider_command_state_def rewrite_commands_def
      reset_sending_provider_commands_def fail_provider_commands_for_run_def
      cancel_provider_commands_for_interaction_def writes_only_iff Let_def
      split: sum.splits if_splits option.splits)

end
