(* ===== verification/LedgerInvariant.thy ===== *)
theory LedgerInvariant
  imports LedgerSteps
begin

text \<open>
  The invariant of the whole ledger and what no sequence of its methods can undo: the components'
  invariants are preserved by their own steps (shown with the component) and by the others because
  they write other tables.
\<close>

section \<open>Runs of the ledger\<close>

inductive ledger_step :: "TaskLedger \<Rightarrow> TaskLedger \<Rightarrow> bool" where
  turns: "turn_step L L' \<Longrightarrow> ledger_step L L'"
| jobs: "job_step L L' \<Longrightarrow> ledger_step L L'"
| tasks: "task_step L L' \<Longrightarrow> ledger_step L L'"
| events: "event_step L L' \<Longrightarrow> ledger_step L L'"
| evidence: "evidence_step L L' \<Longrightarrow> ledger_step L L'"
| interactions: "interaction_step L L' \<Longrightarrow> ledger_step L L'"
| deliveries: "delivery_step L L' \<Longrightarrow> ledger_step L L'"
| commands: "command_step L L' \<Longrightarrow> ledger_step L L'"

definition reachable :: "TaskLedger \<Rightarrow> bool" where
  "reachable L \<longleftrightarrow> ledger_step\<^sup>*\<^sup>* empty_ledger L"

lemmas component_writes = turn_step_writes job_step_writes task_step_writes event_step_writes
  evidence_step_writes interaction_step_writes delivery_step_writes command_step_writes

text \<open>A step either belongs to the component that writes a table or leaves the table alone.\<close>

lemma step_table:
  assumes "ledger_step L L'"
  shows "l_jobs L' = l_jobs L \<or> job_step L L'"
    and "l_tasks L' = l_tasks L \<or> task_step L L'"
    and "l_contracts L' = l_contracts L \<or> task_step L L'"
    and "l_runs L' = l_runs L \<or> event_step L L'"
    and "l_events L' = l_events L \<or> event_step L L'"
    and "l_entries L' = l_entries L \<or> event_step L L' \<or> task_step L L'"
    and "l_aggregates L' = l_aggregates L \<or> evidence_step L L'"
    and "l_artifacts L' = l_artifacts L \<or> evidence_step L L'"
    and "l_interactions L' = l_interactions L \<or> interaction_step L L'"
    and "l_deliveries L' = l_deliveries L \<or> delivery_step L L'"
    and "l_commands L' = l_commands L \<or> command_step L L'"
    and "l_turns L' = l_turns L \<or> turn_step L L' \<or> job_step L L'"
    and "l_receipts L' = l_receipts L \<or> turn_step L L' \<or> job_step L L'"
  using assms
  by (cases rule: ledger_step.cases; auto dest!: component_writes simp: writes_only_iff)+

section \<open>Preservation by the components\<close>

lemma job_step_ok: "job_step L L' \<Longrightarrow> jobs_ok L \<Longrightarrow> jobs_ok L'"
proof (induction rule: job_step.cases)
  case submit then show ?case using submit_jobs_ok by blast
next
  case claim_job then show ?case using claim_jobs_ok by blast
next
  case finish_job then show ?case using finish_jobs_ok by blast
next
  case release_job then show ?case using release_jobs_ok by blast
next
  case (recover_jobs L clk x L')
  then have "recover_jobs clk 0 (tbl_list (l_jobs L) None) L = Inr L'"
    by (simp add: recover_coordination_jobs_def split: sum.splits)
  from recover_jobs_ok [OF recover_jobs(4) [unfolded recover_jobs(1)] this]
  show ?case unfolding recover_jobs(2) .
qed

lemma task_step_keyed: "task_step L L' \<Longrightarrow> tasks_keyed L \<Longrightarrow> tasks_keyed L'"
proof (induction rule: task_step.cases)
  case (save_project L clk p u L')
  then show ?case by (auto simp: save_project_def tasks_keyed_def)
next
  case (save_task L clk task u L')
  then show ?case by (auto dest: save_task_keyed [rotated])
next
  case (save_task_once L clk op task t L')
  note ok = save_task_once(5) [unfolded save_task_once(1)]
  from save_task_once(3) consider "L' = L"
    | L1 k now where "save_task L clk task = Inr ((), L1)" "L' = add_marker k (t_task_id task) now L1"
    by (auto simp: save_task_once_def Let_def split: option.splits sum.splits)
  then show ?case
  proof cases
    case 2
    from save_task_keyed [OF ok 2(1)] show ?thesis
      unfolding save_task_once(2) 2(2) by (simp add: tasks_keyed_def add_marker_def)
  qed (use ok save_task_once(2) in simp)
next
  case (prune L clk own ttl mx ids L')
  then show ?case by (auto dest: prune_keyed [rotated])
next
  case (create_task L clk p task c u L')
  from create_task(3) show ?case
    unfolding create_task(1,2)
    by (rule create_task_InrE)
      (use create_task(1,5) in \<open>auto simp: tasks_keyed_def dest: own_keyed_insert [OF _ refl refl]\<close>)
next
  case (revise_contract L clk k body src c L')
  from revise_contract(3) show ?case
    unfolding revise_contract(1,2)
    by (cases rule: revise_contract_InrE)
      (use revise_contract(1,4) in \<open>auto simp: tasks_keyed_def add_entry_def
        intro!: own_keyed_put dest!: TaskRecord_init_fields\<close>)
qed

lemma contract_entry: "entry_ids (l_entries (add_entry ''contract'' k r n L)) = entry_ids (l_entries L)"
  by (simp add: add_entry_def entry_ids_def)

lemma task_step_entries: "task_step L L' \<Longrightarrow> entry_ids (l_entries L') = entry_ids (l_entries L)"
proof (induction rule: task_step.cases)
  case (create_task L clk p task c u L')
  from create_task(3) have "\<exists>x. l_entries L' = l_entries L @ [x] \<and> le_kind x = ''contract''"
    by (auto simp: create_task_def insert_contract_def add_entry_def Let_def bindE_Inr_iff
        split: if_splits option.splits sum.splits)
  with create_task(1,2) show ?case by (auto simp: entry_ids_def)
next
  case (revise_contract L clk k body src c L')
  from revise_contract(3) show ?case
    unfolding revise_contract(1,2)
    by (cases rule: revise_contract_InrE) (auto simp: add_entry_def entry_ids_def)
qed (auto simp: save_project_def save_task_def save_task_once_def prune_terminal_tasks_def add_marker_def
    Let_def split: sum.splits option.splits)

lemma events_ok_cong:
  "events_ok L \<Longrightarrow> l_runs L' = l_runs L \<Longrightarrow> l_events L' = l_events L \<Longrightarrow>
   entry_ids (l_entries L') = entry_ids (l_entries L) \<Longrightarrow> events_ok L'"
  by (simp add: events_ok_def event_ids_def get_run_def)

lemma event_step_ok: "event_step L L' \<Longrightarrow> events_ok L \<Longrightarrow> events_ok L'"
  by (cases rule: event_step.cases)
    (auto dest: save_run_events_ok [rotated] append_event_ok [rotated] mark_event_ok [rotated])

lemma ledger_step_events_ok:
  assumes "ledger_step L L'" and "events_ok L"
  shows "events_ok L'"
proof (cases "event_step L L'")
  case True
  with assms(2) show ?thesis by (blast intro: event_step_ok)
next
  case False
  with step_table(4-6) [OF assms(1)] show ?thesis
    by (auto intro: events_ok_cong [OF assms(2)] dest: task_step_entries)
qed

lemma evidence_step_ok: "evidence_step L L' \<Longrightarrow> aggregates_ok L \<Longrightarrow> aggregates_ok L'"
proof (induction rule: evidence_step.cases)
  case (save_artifact L clk a u L')
  then have "l_aggregates L' = l_aggregates L"
    by (auto simp: save_artifact_def split: option.splits if_splits sum.splits)
  with save_artifact(1,2,4) show ?case by (simp add: aggregates_ok_def get_aggregate_def)
next
  case (append_aggregate L clk aid ev rv w g L')
  then show ?case using append_activity_result [of L aid clk ev rv w g L'] by blast
next
  case (flush_aggregate L clk aid g L')
  note ok = flush_aggregate(4) [unfolded flush_aggregate(1)]
  show ?case
  proof (cases "L' = L")
    case False
    with flush_aggregate(3) obtain cur f where cur: "get_aggregate L aid = Some cur" "g_state cur = AOpen"
      and f: "f = cur\<lparr>g_state := AFlushed, g_flushed_at_ms := Some (clk 0)\<rparr>"
      and L': "L' = put_aggregate L (clk 1) f"
      by (auto simp: flush_activity_aggregate_def get_aggregate_def bindE_Inr_iff
          ActivityAggregate_init_def split: option.splits if_splits)
    have "aggregate_ok f"
      using aggregates_okD(2) [OF ok cur(1)] by (simp add: f aggregate_ok_def)
    then show ?thesis
      unfolding flush_aggregate(2) L' by (rule put_aggregate_ok [OF ok]) (simp add: f)
  qed (use ok flush_aggregate(2) in simp)
qed

lemma interaction_step_keyed: "interaction_step L L' \<Longrightarrow> interactions_keyed L \<Longrightarrow> interactions_keyed L'"
  by (cases rule: interaction_step.cases)
    (auto simp: save_interaction_def finish_interaction_resolution_def Let_def put_interaction_keyed
      expire_keyed split: option.splits if_splits dest: begin_resolution_keyed [rotated])

lemma command_step_keyed: "command_step L L' \<Longrightarrow> commands_keyed L \<Longrightarrow> commands_keyed L'"
  by (cases rule: command_step.cases)
    (auto simp: reset_sending_provider_commands_def fail_provider_commands_for_run_def
      cancel_provider_commands_for_interaction_def rewrite_commands_keyed
      dest: enqueue_command_keyed [rotated] set_command_keyed [rotated])

section \<open>The claim state of deliveries\<close>

text \<open>A delivery carries a token and an expiry exactly while it is claimed, and a delivery time exactly
  once it was delivered.\<close>

definition delivery_ok :: "DeliveryRecord \<Rightarrow> bool" where
  "delivery_ok d \<longleftrightarrow> 0 \<le> d_attempts d \<and> (d_state d = DClaimed \<longrightarrow> 1 \<le> d_attempts d) \<and>
     (d_claim_expires_at_ms d \<noteq> None \<longleftrightarrow> d_state d = DClaimed) \<and>
     (d_state d \<noteq> DClaimed \<longrightarrow> d_claim_token d = []) \<and>
     (d_delivered_at_ms d \<noteq> None \<longleftrightarrow> d_state d = DDelivered) \<and>
     d_state d \<noteq> DFailed"

definition deliveries_ok :: "TaskLedger \<Rightarrow> bool" where
  "deliveries_ok L \<longleftrightarrow> deliveries_keyed L \<and> (\<forall>k d. get_delivery L k = Some d \<longrightarrow> delivery_ok d)"

text \<open>How a stored delivery may change in one step.\<close>

definition delivery_identity where
  "delivery_identity d =
     (d_delivery_id d, d_owner_id d, d_task_id d, d_event_id d, d_interaction_id d,
      d_timing d, d_topic d, d_speech_hint d, d_status d, d_created_at_ms d)"

definition delivery_evolves :: "DeliveryRecord \<Rightarrow> DeliveryRecord \<Rightarrow> bool" where
  "delivery_evolves d d' \<longleftrightarrow>
     (d_state d \<in> {DDelivered, DCancelled} \<longrightarrow> d' = d) \<and> d_attempts d \<le> d_attempts d' \<and>
     delivery_identity d' = delivery_identity d"

lemma evolves_refl [simp]: "delivery_evolves d d"
  by (simp add: delivery_evolves_def)

lemma evolves_trans: "delivery_evolves a b \<Longrightarrow> delivery_evolves b c \<Longrightarrow> delivery_evolves a c"
  by (auto simp: delivery_evolves_def)

lemma copy_identity [simp]:
  "delivery_identity (release_claim st d) = delivery_identity d"
  "delivery_identity (claimed_copy tok e d) = delivery_identity d"
  "delivery_identity (finished_copy b n d) = delivery_identity d"
  by (simp_all add: delivery_identity_def release_claim_def claimed_copy_def finished_copy_def)

lemma copy_delivered_at [simp]:
  "d_delivered_at_ms (release_claim st d) = d_delivered_at_ms d"
  "d_delivered_at_ms (claimed_copy tok e d) = d_delivered_at_ms d"
  "d_delivered_at_ms (finished_copy b n d) = (if b then Some n else None)"
  by (simp_all add: release_claim_def claimed_copy_def finished_copy_def)

lemma release_ok:
  "delivery_ok d \<Longrightarrow> d_state d \<in> {DPending, DClaimed} \<Longrightarrow> st \<in> {DPending, DCancelled} \<Longrightarrow>
   delivery_ok (release_claim st d) \<and> delivery_evolves d (release_claim st d)"
  by (elim insertE emptyE; simp add: delivery_ok_def delivery_evolves_def)

lemma claimed_copy_ok:
  "delivery_ok d \<Longrightarrow> d_state d = DPending \<Longrightarrow>
   delivery_ok (claimed_copy tok e d) \<and> delivery_evolves d (claimed_copy tok e d)"
  by (simp add: delivery_ok_def delivery_evolves_def)

lemma finished_ok:
  "delivery_ok d \<Longrightarrow> d_state d \<in> {DPending, DClaimed} \<Longrightarrow>
   delivery_ok (finished_copy b n d) \<and> delivery_evolves d (finished_copy b n d)"
  by (cases b; elim insertE emptyE; simp add: delivery_ok_def delivery_evolves_def)

lemmas release_okI = release_ok [THEN conjunct1] release_ok [THEN conjunct2]

text \<open>The effect of a step on the deliveries: each stored one evolves, and a new one is fresh.\<close>

definition deliveries_advance :: "TaskLedger \<Rightarrow> TaskLedger \<Rightarrow> bool" where
  "deliveries_advance L L' \<longleftrightarrow> deliveries_ok L' \<and>
     (\<forall>k d. get_delivery L k = Some d \<longrightarrow> (\<exists>d'. get_delivery L' k = Some d' \<and> delivery_evolves d d'))"

lemma deliveries_okD:
  "deliveries_ok L \<Longrightarrow> deliveries_keyed L"
  "deliveries_ok L \<Longrightarrow> get_delivery L k = Some d \<Longrightarrow> delivery_ok d"
  by (simp_all add: deliveries_ok_def)

lemma deliveries_advance_refl: "deliveries_ok L \<Longrightarrow> deliveries_advance L L"
  by (simp add: deliveries_advance_def)

lemma advance_selected:
  assumes ok: "deliveries_ok L" and k: "deliveries_keyed L'"
    and get: "\<And>k. get_delivery L' k = map_option (\<lambda>d. if P d then f d else d) (get_delivery L k)"
    and f: "\<And>d. delivery_ok d \<Longrightarrow> P d \<Longrightarrow> delivery_ok (f d) \<and> delivery_evolves d (f d)"
  shows "deliveries_advance L L'"
proof -
  have "delivery_ok d'" if "get_delivery L' k = Some d'" for k d'
    using that f deliveries_okD(2) [OF ok] unfolding get by (auto split: if_splits)
  moreover have "\<exists>d'. get_delivery L' k = Some d' \<and> delivery_evolves d d'" if "get_delivery L k = Some d" for k d
    using that f deliveries_okD(2) [OF ok that] unfolding get by auto
  ultimately show ?thesis using k by (simp add: deliveries_advance_def deliveries_ok_def)
qed

lemma advance_update:
  assumes ok: "deliveries_ok L" and k: "deliveries_keyed L'"
    and get: "\<And>k. get_delivery L' k = (if k = d_delivery_id d' then Some d' else get_delivery L k)"
    and old: "get_delivery L (d_delivery_id d') = Some d" and d': "delivery_ok d' \<and> delivery_evolves d d'"
  shows "deliveries_advance L L'"
proof -
  have "delivery_ok x" if "get_delivery L' j = Some x" for j x
    using that d' deliveries_okD(2) [OF ok] unfolding get by (auto split: if_splits)
  moreover have "\<exists>y. get_delivery L' j = Some y \<and> delivery_evolves x y" if "get_delivery L j = Some x" for j x
    using that d' old unfolding get by (auto split: if_splits)
  ultimately show ?thesis using k by (simp add: deliveries_advance_def deliveries_ok_def)
qed

lemma requeue_advance:
  assumes ok: "deliveries_ok L"
  shows "deliveries_advance L (requeued L clk own)"
  by (rule advance_selected [OF ok requeue_keyed requeue_get])
    (use deliveries_okD(1) [OF ok] in \<open>auto intro!: release_okI simp: claim_expired_def\<close>)

lemma advance_trans:
  assumes "deliveries_advance A B" and "deliveries_advance B C"
  shows "deliveries_advance A C"
  using assms unfolding deliveries_advance_def by (meson evolves_trans)

lemma claim_advance:
  assumes ok: "deliveries_ok L" and c: "claim_delivery L clk own lease tok = Inr (x, L')"
  shows "deliveries_advance L L'"
proof (cases x)
  case (Some d)
  note ok1 = requeue_advance [OF ok, of clk own]
  have keyed1: "deliveries_ok (requeued L clk own)" using ok1 by (simp add: deliveries_advance_def)
  from c Some have c': "claim_delivery L clk own lease tok = Inr (Some d, L')" by simp
  obtain r :: "DeliveryRecord row" and e where r: "r \<in> set (l_deliveries (requeued L clk own))"
    and st: "d_state (row_payload r) = DPending" and d: "d = claimed_copy tok e (row_payload r)"
    and get: "\<And>k. get_delivery L' k = (if k = d_delivery_id d then Some d else get_delivery (requeued L clk own) k)"
    using claim_delivery_SomeE [OF c' deliveries_okD(1) [OF ok]] by blast
  have old: "get_delivery (requeued L clk own) (d_delivery_id d) = Some (row_payload r)"
    using get_of_row [OF deliveries_okD(1) [OF keyed1] r] by (simp add: d)
  have "deliveries_advance (requeued L clk own) L'"
    by (rule advance_update [OF keyed1 claim_keyed [OF deliveries_okD(1) [OF ok] c'] get old])
      (use claimed_copy_ok [OF deliveries_okD(2) [OF keyed1 old] st] d in simp)
  with ok1 show ?thesis by (rule advance_trans)
next
  case None
  have "L' = requeued L clk own"
  proof (cases "claimable (requeued L clk own) own")
    case Nil
    with c show ?thesis
      by (auto simp: claim_delivery_def split: if_splits prod.splits)
  next
    case (Cons r rs)
    have "1 \<le> lease" using c by (auto simp: claim_delivery_def split: if_splits)
    from claim_delivery_progress [OF deliveries_okD(1) [OF ok] this, of clk own tok] Cons c None
    show ?thesis by simp
  qed
  with requeue_advance [OF ok, of clk own] show ?thesis by simp
qed

lemma put_finished_advance:
  assumes ok: "deliveries_ok L" and d: "get_delivery L k = Some d" "d_state d \<in> {DPending, DClaimed}"
  shows "deliveries_advance L (snd (put_finished L clk b d))"
proof (rule advance_update [OF ok])
  have key: "d_delivery_id d = k" using row_of_delivery [OF deliveries_okD(1) [OF ok] d(1)] by auto
  show "deliveries_keyed (snd (put_finished L clk b d))"
    using deliveries_okD(1) [OF ok]
    by (auto simp: deliveries_keyed_def put_finished_def Let_def intro: keyed_put) (auto simp: tbl_put_def tbl_del_def)
  show "get_delivery (snd (put_finished L clk b d)) j =
      (if j = d_delivery_id (finished_copy b (clk 0) d) then Some (finished_copy b (clk 0) d) else get_delivery L j)" for j
    by (simp add: put_finished_def Let_def get_delivery_def)
  show "get_delivery L (d_delivery_id (finished_copy b (clk 0) d)) = Some d" using d key by simp
  show "delivery_ok (finished_copy b (clk 0) d) \<and> delivery_evolves d (finished_copy b (clk 0) d)"
    using finished_ok [OF deliveries_okD(2) [OF ok d(1)] d(2)] .
qed

lemma create_advance:
  assumes ok: "deliveries_ok L" and c: "create_delivery_once L clk mk d = Inr (x, L')" and f: "fresh_delivery d"
  shows "deliveries_advance L L'"
proof (cases "L' = L")
  case False
  with c obtain t' where t': "tbl_insert (l_deliveries L) (d_delivery_id d) (d_owner_id d) d (clk 0) = Inr t'"
    and L': "l_deliveries L' = t'"
    by (auto simp: create_delivery_once_def add_marker_def split: option.splits sum.splits)
  have get: "get_delivery L' k = (if k = d_delivery_id d then Some d else get_delivery L k)" for k
    using tbl_get_insert [OF t'] by (simp add: get_delivery_def L')
  have new: "get_delivery L (d_delivery_id d) = None"
    using t' by (simp add: get_delivery_def tbl_insert_Inr_iff)
  have "delivery_ok d" using f by (simp add: fresh_delivery_def delivery_ok_def)
  then have "delivery_ok y" if "get_delivery L' k = Some y" for k y
    using that deliveries_okD(2) [OF ok] unfolding get by (auto split: if_splits)
  moreover have "deliveries_keyed L'"
    using deliveries_okD(1) [OF ok] own_keyed_insert [of d_delivery_id d_owner_id, OF _ refl refl t']
    by (simp add: deliveries_keyed_def L' own_keyed_def)
  moreover have "\<exists>y. get_delivery L' k = Some y \<and> delivery_evolves e y" if "get_delivery L k = Some e" for k e
    using that new unfolding get by auto
  ultimately show ?thesis by (simp add: deliveries_advance_def deliveries_ok_def)
qed (use deliveries_advance_refl [OF ok] in simp)

lemma cancel_advance:
  assumes ok: "deliveries_ok L"
  shows "deliveries_advance L (cancel_interaction_deliveries L clk iid)"
proof -
  let ?P = "\<lambda>d. d_interaction_id d = Some iid \<and> d_state d \<in> {DPending, DClaimed}"
  have k: "deliveries_keyed L" by (rule deliveries_okD(1) [OF ok])
  then have own: "own_keyed d_delivery_id d_owner_id (l_deliveries L)"
    by (simp add: deliveries_keyed_def own_keyed_def)
  show ?thesis
  proof (rule advance_selected [OF ok, where P = ?P and f = "release_claim DCancelled"])
    show "deliveries_keyed (cancel_interaction_deliveries L clk iid)"
      using own by (simp add: deliveries_keyed_def cancel_interaction_deliveries_def Let_def
          own_keyed_def [symmetric] own_keyed_put_all)
    show "get_delivery (cancel_interaction_deliveries L clk iid) j =
        map_option (\<lambda>d. if ?P d then release_claim DCancelled d else d) (get_delivery L j)" for j
      unfolding cancel_interaction_deliveries_def get_delivery_def Let_def
      by (simp del: insert_iff) (rule put_all_selected [OF own], simp)
  qed (auto intro!: release_okI)
qed

lemma delivery_step_advance:
  assumes "delivery_step L L'" and ok: "deliveries_ok L"
  shows "deliveries_advance L L'"
  using assms
proof (induction rule: delivery_step.cases)
  case create_delivery then show ?case using create_advance by blast
next
  case claim then show ?case using claim_advance by blast
next
  case requeue then show ?case using requeue_advance by blast
next
  case (finish L clk k tok b x L')
  then obtain d where "get_delivery L k = Some d" "d_state d = DClaimed" "L' = snd (put_finished L clk b d)"
    by (auto simp: finish_delivery_def get_delivery_def split: option.splits if_splits)
  with finish(1,2,4) put_finished_advance show ?case by simp
next
  case (finish_expired L clk k n b x L')
  then obtain d where "get_delivery L k = Some d" "d_state d = DPending" "L' = snd (put_finished L clk b d)"
    by (auto simp: finish_expired_delivery_def get_delivery_def split: option.splits if_splits)
  with finish_expired(1,2,4) put_finished_advance show ?case by simp
next
  case cancel then show ?case using cancel_advance by blast
qed

section \<open>Tasks in the table are valid\<close>

definition tasks_ok :: "TaskLedger \<Rightarrow> bool" where
  "tasks_ok L \<longleftrightarrow> tasks_keyed L \<and> (\<forall>k t. get_task L k = Some t \<longrightarrow> TaskRecord_init t = Inr t)"

lemma TaskRecord_init_checks: "TaskRecord_init t0 = Inr t \<Longrightarrow> raise_first (TaskRecord_checks t) = None"
  by (auto simp: TaskRecord_init_def Let_def)

lemma TaskRecord_init_lineage: "TaskRecord_init t0 = Inr t \<Longrightarrow> t_lineage_id t \<noteq> []"
  by (drule TaskRecord_init_checks) (auto simp: TaskRecord_checks_def required_def split: if_splits)

lemma TaskRecord_init_idem: "TaskRecord_init t0 = Inr t \<Longrightarrow> TaskRecord_init t = Inr t"
  using TaskRecord_init_lineage [of t0 t] TaskRecord_init_checks [of t0 t]
  by (simp add: TaskRecord_init_def Let_def)

text \<open>What a step can leave under a task id: the old row, a valid new one or nothing.\<close>

lemma task_step_new:
  assumes s: "task_step L L'" and t: "get_task L' k = Some t"
  shows "get_task L k = Some t \<or> TaskRecord_init t = Inr t"
  using s
proof (cases rule: task_step.cases)
  case (save_project clk p u)
  with t show ?thesis by (auto simp: save_project_def get_task_def)
next
  case (save_task clk task u)
  with t show ?thesis by (auto simp: get_task_def split: if_splits elim!: save_task_InrE)
next
  case (save_task_once clk op task x)
  with t show ?thesis
    by (auto simp: save_task_once_def Let_def get_task_def add_marker_def split: option.splits sum.splits if_splits
        elim!: save_task_InrE)
next
  case (prune clk own ttl mx ids)
  with t show ?thesis by (auto simp: get_task_def dest!: prune_frame split: if_splits)
next
  case (create_task clk p task c u)
  from create_task(1) show ?thesis
    by (rule create_task_InrE)
      (use t create_task(2) in \<open>auto simp: get_task_def tbl_get_insert split: if_splits\<close>)
next
  case (revise_contract clk k1 body src c)
  then show ?thesis
    by (cases rule: revise_contract_InrE)
      (use t in \<open>auto simp: get_task_def add_entry_def split: if_splits dest: TaskRecord_init_idem\<close>)
qed

lemma task_step_ok: "task_step L L' \<Longrightarrow> tasks_ok L \<Longrightarrow> tasks_ok L'"
  using task_step_keyed [of L L'] task_step_new [of L L'] unfolding tasks_ok_def by blast

section \<open>The invariant\<close>

definition ledger_ok :: "TaskLedger \<Rightarrow> bool" where
  "ledger_ok L \<longleftrightarrow> jobs_ok L \<and> tasks_ok L \<and> events_ok L \<and> aggregates_ok L \<and>
     interactions_keyed L \<and> deliveries_ok L \<and> commands_keyed L"

lemma empty_ledger_ok: "ledger_ok empty_ledger"
  by (simp add: ledger_ok_def jobs_ok_def tasks_ok_def get_task_def tasks_keyed_def events_ok_def event_ids_def entry_ids_def
      aggregates_ok_def get_aggregate_def interactions_keyed_def deliveries_ok_def deliveries_keyed_def
      get_delivery_def commands_keyed_def empty_ledger_def)

lemma ok_congs:
  "l_jobs L' = l_jobs L \<Longrightarrow> jobs_ok L' = jobs_ok L"
  "l_tasks L' = l_tasks L \<Longrightarrow> tasks_ok L' = tasks_ok L"
  "l_aggregates L' = l_aggregates L \<Longrightarrow> aggregates_ok L' = aggregates_ok L"
  "l_interactions L' = l_interactions L \<Longrightarrow> interactions_keyed L' = interactions_keyed L"
  "l_deliveries L' = l_deliveries L \<Longrightarrow> deliveries_ok L' = deliveries_ok L"
  "l_commands L' = l_commands L \<Longrightarrow> commands_keyed L' = commands_keyed L"
  by (simp_all add: jobs_ok_def tasks_ok_def tasks_keyed_def get_task_def aggregates_ok_def get_aggregate_def
      interactions_keyed_def deliveries_ok_def deliveries_keyed_def get_delivery_def commands_keyed_def)

lemma delivery_step_ok: "delivery_step L L' \<Longrightarrow> deliveries_ok L \<Longrightarrow> deliveries_ok L'"
  using delivery_step_advance by (simp add: deliveries_advance_def)

lemma ledger_step_ok:
  assumes s: "ledger_step L L'" and ok: "ledger_ok L"
  shows "ledger_ok L'"
proof -
  note t = step_table [OF s]
  note o = ok [unfolded ledger_ok_def]
  have "jobs_ok L'" using t(1) ok_congs(1) job_step_ok o by blast
  moreover have "tasks_ok L'" using t(2) ok_congs(2) task_step_ok o by blast
  moreover have "events_ok L'" using ledger_step_events_ok [OF s] o by blast
  moreover have "aggregates_ok L'" using t(7) ok_congs(3) evidence_step_ok o by blast
  moreover have "interactions_keyed L'" using t(9) ok_congs(4) interaction_step_keyed o by blast
  moreover have "deliveries_ok L'" using t(10) ok_congs(5) delivery_step_ok o by blast
  moreover have "commands_keyed L'" using t(11) ok_congs(6) command_step_keyed o by blast
  ultimately show ?thesis by (simp add: ledger_ok_def)
qed

lemma run_ok: "ledger_step\<^sup>*\<^sup>* L L' \<Longrightarrow> ledger_ok L \<Longrightarrow> ledger_ok L'"
  by (induction rule: rtranclp_induct) (auto intro: ledger_step_ok)

text \<open>
  The life of the stored session: any methods in any order, and \<open>clear\<close>, which a server that discards
  its state calls when it closes; the number counts the clears.
\<close>

inductive session_run :: "TaskLedger \<Rightarrow> nat \<Rightarrow> TaskLedger \<Rightarrow> bool" for L where
  session_start: "session_run L 0 L"
| session_step: "session_run L n M \<Longrightarrow> ledger_step M N \<Longrightarrow> session_run L n N"
| session_clear: "session_run L n M \<Longrightarrow> session_run L (Suc n) (ledger_clear M)"

lemma session_steps: "session_run L n L' \<Longrightarrow> n = 0 \<Longrightarrow> ledger_step\<^sup>*\<^sup>* L L'"
  by (induction rule: session_run.induct) (auto intro: rtranclp.rtrancl_into_rtrancl)

lemma session_reachable: "session_run L n L' \<Longrightarrow> reachable L \<or> n \<noteq> 0 \<Longrightarrow> reachable L'"
  by (induction rule: session_run.induct)
    (auto simp: reachable_def ledger_clear_def intro: rtranclp.rtrancl_into_rtrancl)

section \<open>What cannot be undone\<close>

text \<open>Runs are never removed; their status follows its table and their counter only grows.\<close>

definition run_evolves :: "RunRecord \<Rightarrow> RunRecord \<Rightarrow> bool" where
  "run_evolves r r' \<longleftrightarrow> r_task_id r' = r_task_id r \<and> r_generation r' = r_generation r \<and>
     (\<lambda>s t. t \<in> run_allowed s)\<^sup>*\<^sup>* (r_status r) (r_status r') \<and> r_last_event_seq r \<le> r_last_event_seq r'"

lemma run_evolves_refl [simp]: "run_evolves r r"
  by (simp add: run_evolves_def)

lemma run_evolves_trans: "run_evolves a b \<Longrightarrow> run_evolves b c \<Longrightarrow> run_evolves a c"
  by (auto simp: run_evolves_def intro: rtranclp_trans)

lemma run_step:
  assumes s: "ledger_step L L'" and ok: "events_ok L" and r: "get_run L k = Some r"
  shows "\<exists>r'. get_run L' k = Some r' \<and> run_evolves r r'"
proof (cases "event_step L L'")
  case False
  with step_table(4) [OF s] r show ?thesis by (auto simp: get_run_def)
next
  case True
  then show ?thesis
  proof (cases rule: event_step.cases)
    case (save_run clk run own u)
    then have "L' = L\<lparr>l_runs := tbl_put (l_runs L) (r_run_id run) own run (clk 0)\<rparr>"
      and "\<And>old. get_run L (r_run_id run) = Some old \<Longrightarrow> validate_run_transition old run = None"
      by (auto simp: save_run_def get_run_def split: option.splits)
    with r show ?thesis
      by (cases "k = r_run_id run") (auto simp: get_run_def validate_run_None_iff run_evolves_def)
  next
    case (append_event clk ev b)
    then show ?thesis
    proof (cases b)
      case True
      with append_event have "append_event L clk ev = Inr (True, L')" by simp
      then show ?thesis
      proof (rule append_event_TrueE)
        fix task run run'
        assume run: "get_run L (e_run_id ev) = Some run" "r_last_event_seq run < e_seq ev"
          and run': "run' = run\<lparr>r_last_event_seq := e_seq ev\<rparr>"
          and L': "L' = add_entry ''worker_event'' (e_event_id ev) (t_contract_revision task) (e_created_at_ms ev)
             (L\<lparr>l_events := l_events L @ [\<lparr>er_event = ev, er_evaluated_revision = t_contract_revision task,
                  er_processed = False\<rparr>],
                l_runs := tbl_put (l_runs L) (r_run_id run) (t_owner_id task) run' (clk 0)\<rparr>)"
        have "r_run_id run = e_run_id ev"
          using ok run by (auto simp: events_ok_def get_run_def dest: keyed_get)
        with run r show ?thesis
          by (cases "k = e_run_id ev") (auto simp: L' run' add_entry_def get_run_def run_evolves_def)
      qed
    qed (use r in \<open>auto dest: append_event_FalseD\<close>)
  next
    case (mark_event eid u)
    then have "l_runs L' = l_runs L" by (auto simp: mark_event_processed_def split: if_splits)
    with r show ?thesis by (auto simp: get_run_def)
  qed
qed

text \<open>A task keeps its identity, its status follows its table and its generation only grows, until
  pruning removes it, which happens to terminal tasks only.\<close>

definition task_evolves :: "TaskRecord \<Rightarrow> TaskRecord \<Rightarrow> bool" where
  "task_evolves t t' \<longleftrightarrow> task_identity t' = task_identity t \<and> t_status t' \<in> task_allowed (t_status t) \<and>
     t_generation t \<le> t_generation t'"

lemma task_allowed_refl [simp]: "s \<in> task_allowed s"
  by (cases s) auto

lemma task_evolves_refl [simp]: "task_evolves t t"
  by (simp add: task_evolves_def)

lemma put_task_evolves:
  assumes "get_task L k = Some t" and "validate_task_transition t t' = None"
  shows "task_evolves t t'"
  using assms by (auto simp: validate_task_None_iff task_evolves_def)

lemma save_task_evolves:
  assumes s: "save_task L clk task = Inr (u, L')" and t: "get_task L k = Some t"
  shows "\<exists>t'. get_task L' k = Some t' \<and> task_evolves t t'"
  using s
proof (rule save_task_InrE)
  assume "L' = L\<lparr>l_tasks := tbl_put (l_tasks L) (t_task_id task) (t_owner_id task) task (clk 0)\<rparr>"
    and "\<And>old. get_task L (t_task_id task) = Some old \<Longrightarrow> validate_task_transition old task = None"
  with t show ?thesis
    by (cases "k = t_task_id task") (auto simp: get_task_def dest: put_task_evolves [unfolded get_task_def])
qed

text \<open>Every operation that can take a task out of the table: pruning.\<close>

lemma task_step_task:
  assumes s: "task_step L L'" and ok: "tasks_keyed L" and t: "get_task L k = Some t"
    and lin: "t_lineage_id t \<noteq> []"
  shows "(\<exists>t'. get_task L' k = Some t' \<and> task_evolves t t') \<or>
    get_task L' k = None \<and> task_terminal t"
  using s
proof (cases rule: task_step.cases)
  case (save_project clk p u)
  with t show ?thesis by (auto simp: save_project_def get_task_def)
next
  case (save_task clk task u)
  with save_task_evolves t show ?thesis by blast
next
  case (save_task_once clk op task x)
  then consider "L' = L"
    | L1 m now where "save_task L clk task = Inr ((), L1)" "L' = add_marker m (t_task_id task) now L1"
    by (auto simp: save_task_once_def Let_def split: option.splits sum.splits)
  then show ?thesis
  proof cases
    case 2
    from save_task_evolves [OF 2(1) t] show ?thesis by (simp add: 2(2) add_marker_def get_task_def)
  qed (use t in auto)
next
  case (prune clk own ttl mx ids)
  from prune_get [OF ok prune t] show ?thesis by (auto simp: prunable_mem)
next
  case (create_task clk p task c u)
  from create_task(1) show ?thesis
    by (rule create_task_InrE) (use t in \<open>auto simp: get_task_def tbl_get_insert split: if_splits\<close>)
next
  case (revise_contract clk k1 body src c)
  then show ?thesis
  proof (cases rule: revise_contract_InrE)
    case (fresh task task')
    have "t_task_id task = k1"
      using ok fresh(1) by (auto simp: tasks_keyed_def get_task_def own_keyed_get_key)
    moreover have "task' = task\<lparr>t_contract_revision := sc_revision c, t_updated_at_ms := clk 1\<rparr>" if "k = k1"
      using TaskRecord_init_id [OF fresh(4)] lin t fresh(1) that by simp
    ultimately show ?thesis
      using t fresh(1) by (cases "k = k1") (auto simp: fresh(5) get_task_def add_entry_def task_evolves_def task_identity_def)
  qed (use t in auto)
qed

lemma task_present:
  assumes s: "ledger_step L L'" and ok: "ledger_ok L"
    and t: "get_task L k = Some t" and t': "get_task L' k = Some t'"
  shows "task_evolves t t'"
proof (cases "task_step L L'")
  case True
  have "tasks_keyed L" "t_lineage_id t \<noteq> []"
    using ok t by (auto simp: ledger_ok_def tasks_ok_def dest: TaskRecord_init_lineage)
  from task_step_task [OF True this(1) t this(2)] t' show ?thesis by auto
next
  case False
  with step_table(2) [OF s] t t' show ?thesis by (simp add: get_task_def)
qed

text \<open>Deliveries along a run.\<close>

lemma delivery_step_run:
  assumes "ledger_step L L'" and ok: "deliveries_ok L" and d: "get_delivery L k = Some d"
  shows "\<exists>d'. get_delivery L' k = Some d' \<and> delivery_evolves d d'"
  using step_table(10) [OF assms(1)] delivery_step_advance [OF _ ok, of L'] d
  by (auto simp: deliveries_advance_def get_delivery_def)

lemma delivery_run:
  assumes "ledger_step\<^sup>*\<^sup>* L L'" and ok: "ledger_ok L" and d: "get_delivery L k = Some d"
  shows "\<exists>d'. get_delivery L' k = Some d' \<and> delivery_evolves d d'"
  using assms(1)
proof (induction rule: rtranclp_induct)
  case (step M N)
  then obtain m where m: "get_delivery M k = Some m" "delivery_evolves d m" by blast
  have "deliveries_ok M" using run_ok [OF step(1) ok] by (simp add: ledger_ok_def)
  from delivery_step_run [OF step(2) this m(1)] m(2) show ?case by (blast intro: evolves_trans)
qed (use d in simp)

lemma run_run:
  assumes "ledger_step\<^sup>*\<^sup>* L L'" and ok: "ledger_ok L" and r: "get_run L k = Some r"
  shows "\<exists>r'. get_run L' k = Some r' \<and> run_evolves r r'"
  using assms(1)
proof (induction rule: rtranclp_induct)
  case (step M N)
  then obtain m where m: "get_run M k = Some m" "run_evolves r m" by blast
  have "events_ok M" using run_ok [OF step(1) ok] by (simp add: ledger_ok_def)
  from run_step [OF step(2) this m(1)] m(2) show ?case by (blast intro: run_evolves_trans)
qed (use r in simp)

text \<open>The append-only tables.\<close>

definition event_facts :: "TaskLedger \<Rightarrow> (WorkerEvent \<times> int) list" where
  "event_facts L = map (\<lambda>r. (er_event r, er_evaluated_revision r)) (l_events L)"

definition keeps_history :: "TaskLedger \<Rightarrow> TaskLedger \<Rightarrow> bool" where
  "keeps_history L L' \<longleftrightarrow>
     prefix (event_facts L) (event_facts L') \<and>
     prefix (l_contracts L) (l_contracts L') \<and>
     (\<forall>k t. get_turn_by_receipt L k = Some t \<longrightarrow> get_turn_by_receipt L' k = Some t) \<and>
     (\<forall>k r. get_receipt L k = Some r \<longrightarrow> get_receipt L' k = Some r) \<and>
     (\<forall>k a. get_artifact L k = Some a \<longrightarrow> get_artifact L' k = Some a)"

lemma keeps_history_trans: "keeps_history A B \<Longrightarrow> keeps_history B C \<Longrightarrow> keeps_history A C"
  unfolding keeps_history_def by (meson prefix_order.trans)

lemma event_step_facts: "event_step L L' \<Longrightarrow> prefix (event_facts L) (event_facts L')"
proof (induction rule: event_step.cases)
  case (append_event L clk ev b L')
  then show ?case
    by (cases b) (auto simp: event_facts_def add_entry_def dest: append_event_FalseD elim!: append_event_TrueE)
next
  case (mark_event L eid u L')
  then have L': "L' = L\<lparr>l_events :=
      map (\<lambda>r. if e_event_id (er_event r) = eid then r\<lparr>er_processed := True\<rparr> else r) (l_events L)\<rparr>"
    by (simp add: mark_event_processed_def split: if_splits)
  have "event_facts L' = event_facts L" unfolding L' by (auto simp: event_facts_def)
  with mark_event(1,2) show ?case by simp
qed (auto simp: save_run_def event_facts_def split: option.splits)

lemma task_step_contracts: "task_step L L' \<Longrightarrow> prefix (l_contracts L) (l_contracts L')"
proof (induction rule: task_step.cases)
  case (create_task L clk p task c u L')
  from create_task(3) show ?case
    unfolding create_task(1,2) by (rule create_task_InrE) simp
next
  case (revise_contract L clk k body src c L')
  from revise_contract(3) show ?case
    unfolding revise_contract(1,2) by (cases rule: revise_contract_InrE) (auto simp: add_entry_def)
qed (auto simp: save_project_def save_task_def save_task_once_def prune_terminal_tasks_def add_marker_def
    Let_def split: sum.splits option.splits)

lemma get_receipt_cong: "l_receipts L' = l_receipts L \<Longrightarrow> get_receipt L' = get_receipt L"
  by (rule ext) (simp add: get_receipt_def)

lemma submit_kept:
  assumes s: "submit_coordination L clk turn rid = Inr (x, L')"
  shows "get_turn_by_receipt L k = Some t \<longrightarrow> get_turn_by_receipt L' k = Some t"
    and "get_receipt L k = Some r \<longrightarrow> get_receipt L' k = Some r"
  using s
  by (auto simp: submit_coordination_def submit_job_def Let_def get_turn_by_receipt_def tbl_insert_def
      tbl_get_snoc put_job_def split: option.splits if_splits sum.splits)

lemma other_job_steps:
  assumes "job_step L L'"
  shows "(\<exists>clk turn rid x. submit_coordination L clk turn rid = Inr (x, L')) \<or>
    l_turns L' = l_turns L \<and> l_receipts L' = l_receipts L"
  using assms
  by (cases rule: job_step.cases)
    (auto simp: claim_coordination_job_def finish_coordination_job_def release_coordination_job_def
      recover_coordination_jobs_def put_job_def writes_only_iff
      dest!: recover_jobs_writes split: option.splits if_splits sum.splits)

lemma job_step_kept:
  assumes "job_step L L'"
  shows "get_turn_by_receipt L k = Some t \<longrightarrow> get_turn_by_receipt L' k = Some t"
    and "get_receipt L k = Some r \<longrightarrow> get_receipt L' k = Some r"
  using other_job_steps [OF assms] submit_kept [of L _ _ _ _ L' k]
  by (auto simp: get_turn_by_receipt_def dest: get_receipt_cong)

lemma turn_step_kept:
  assumes "turn_step L L'"
  shows "get_turn_by_receipt L k = Some t \<longrightarrow> get_turn_by_receipt L' k = Some t"
    and "get_receipt L k = Some r \<longrightarrow> get_receipt L' k = Some r"
  using assms
  by (cases rule: turn_step.cases;
      auto simp: put_turn_def put_realtime_context_def save_coordinator_session_def save_receipt_def
        get_turn_by_receipt_def tbl_insert_def tbl_get_snoc Let_def get_receipt_def add_receipt_def find_append
        split: sum.splits if_splits option.splits)+

lemma artifact_kept: "evidence_step L L' \<Longrightarrow> get_artifact L k = Some a \<Longrightarrow> get_artifact L' k = Some a"
  by (cases rule: evidence_step.cases)
    (auto simp: save_artifact_def append_activity_aggregate_def flush_activity_aggregate_def put_aggregate_def
      get_artifact_def tbl_insert_def tbl_get_snoc bindE_Inr_iff
      split: option.splits if_splits sum.splits WorkerPayload.splits)

lemma step_keeps_history:
  assumes s: "ledger_step L L'"
  shows "keeps_history L L'"
proof -
  note t = step_table [OF s]
  have "prefix (event_facts L) (event_facts L')"
    using t(5) event_step_facts [of L L'] by (auto simp: event_facts_def)
  moreover have "prefix (l_contracts L) (l_contracts L')"
    using t(3) task_step_contracts by auto
  moreover have "get_turn_by_receipt L k = Some x \<longrightarrow> get_turn_by_receipt L' k = Some x" for k x
    using t(12) turn_step_kept(1) job_step_kept(1) by (metis get_turn_by_receipt_def)
  moreover have "get_receipt L k = Some x \<longrightarrow> get_receipt L' k = Some x" for k x
    using t(13) turn_step_kept(2) job_step_kept(2) get_receipt_cong by metis
  moreover have "get_artifact L k = Some x \<longrightarrow> get_artifact L' k = Some x" for k x
    using t(8) artifact_kept by (metis get_artifact_def)
  ultimately show ?thesis by (simp add: keeps_history_def)
qed

lemma keeps_history_refl: "keeps_history L L"
  by (simp add: keeps_history_def)

lemma run_keeps_history: "ledger_step\<^sup>*\<^sup>* L L' \<Longrightarrow> keeps_history L L'"
proof (induction rule: rtranclp_induct)
  case base show ?case by (rule keeps_history_refl)
next
  case (step M N)
  from step.IH step_keeps_history [OF step.hyps(2)] show ?case by (rule keeps_history_trans)
qed

section \<open>Properties\<close>


text \<open>C21: Until the ledger is cleared, a delivery that was delivered or cancelled never changes again,
  whatever methods run afterwards, and no delivery is lost, given to another owner, task, event or
  interaction, or reworded, nor does its count of attempts go down.  \<open>clear\<close> removes every delivery, and
  what is stored later is what the methods make of an empty ledger.\<close>

theorem settled_delivery_is_final:
  assumes start: "session_run empty_ledger m L" and d: "get_delivery L k = Some d" and run: "session_run L n L'"
  shows "(n = 0 \<longrightarrow> (\<exists>d'. get_delivery L' k = Some d' \<and> d_attempts d \<le> d_attempts d' \<and>
       delivery_identity d' = delivery_identity d \<and> (d_state d \<in> {DDelivered, DCancelled} \<longrightarrow> d' = d))) \<and>
    (0 < n \<longrightarrow> reachable L') \<and> get_delivery (ledger_clear L') k = None"
proof (intro conjI impI)
  have r: "reachable L" using session_reachable [OF start] by (simp add: reachable_def)
  then have ok: "ledger_ok L" using run_ok [OF _ empty_ledger_ok] by (simp add: reachable_def)
  show "\<exists>d'. get_delivery L' k = Some d' \<and> d_attempts d \<le> d_attempts d' \<and>
    delivery_identity d' = delivery_identity d \<and> (d_state d \<in> {DDelivered, DCancelled} \<longrightarrow> d' = d)" if "n = 0"
    using delivery_run [OF session_steps [OF run that] ok d] by (auto simp: delivery_evolves_def)
  show "reachable L'" if "0 < n" using session_reachable [OF run] that by simp
  show "get_delivery (ledger_clear L') k = None"
    by (simp add: ledger_clear_def empty_ledger_def get_delivery_def)
qed

text \<open>A run is never forgotten and never restarts: whatever methods run afterwards it keeps its
  task and generation, its event counter never decreases, and once it is completed, partial, failed
  or cancelled it stays so.\<close>

theorem finished_run_stays_finished:
  assumes r: "reachable L" and run: "ledger_step\<^sup>*\<^sup>* L L'" and x: "get_run L k = Some x"
  shows "\<exists>x'. get_run L' k = Some x' \<and> r_task_id x' = r_task_id x \<and> r_generation x' = r_generation x \<and>
    r_last_event_seq x \<le> r_last_event_seq x' \<and>
    (r_status x \<in> {RCompleted, RPartial, RFailed, RCancelled} \<longrightarrow> r_status x' = r_status x)"
proof -
  have "ledger_ok L" using r run_ok [OF _ empty_ledger_ok] by (simp add: reachable_def)
  from run_run [OF run this x] obtain x' where "get_run L' k = Some x'" "run_evolves x x'" by blast
  then show ?thesis
    using run_life.final_absorbing [of "r_status x" "r_status x'"]
    by (auto simp: run_evolves_def run_terminal_def)
qed

text \<open>A task that reached a terminal status never leaves it while it stays in the table: along any
  run in which the task is present, its status is that terminal status from then on, its identity
  never changes and its generation never decreases.\<close>

theorem terminal_task_stays_terminal:
  assumes r: "reachable (h 0)" and steps: "\<And>i. i < n \<Longrightarrow> ledger_step (h i) (h (Suc i))"
    and present: "\<And>i. i \<le> n \<Longrightarrow> get_task (h i) k = Some (ts i)"
    and j: "j \<le> n" "task_terminal (ts j)"
  shows "t_status (ts n) = t_status (ts j) \<and> task_identity (ts n) = task_identity (ts j) \<and>
    t_generation (ts j) \<le> t_generation (ts n)"
proof -
  have ok: "i \<le> n \<Longrightarrow> ledger_ok (h i)" for i
  proof (induction i)
    case 0
    show ?case using r run_ok [OF _ empty_ledger_ok] by (simp add: reachable_def)
  next
    case (Suc i)
    then show ?case using ledger_step_ok [OF steps [of i]] by simp
  qed
  have ev: "task_evolves (ts i) (ts (Suc i))" if "i < n" for i
    using task_present [OF steps [OF that] ok present present] that by simp
  have "t_status (ts n) = t_status (ts j)"
    by (rule task_life.run_final_absorbing [of n "\<lambda>i. t_status (ts i)" j])
      (use ev j in \<open>auto simp: task_evolves_def task_terminal_def\<close>)
  moreover have "j + m \<le> n \<Longrightarrow> task_identity (ts (j + m)) = task_identity (ts j) \<and>
      t_generation (ts j) \<le> t_generation (ts (j + m))" for m
  proof (induction m)
    case (Suc m)
    then show ?case using ev [of "j + m"] by (auto simp: task_evolves_def)
  qed simp
  from this [of "n - j"] j have "task_identity (ts n) = task_identity (ts j) \<and>
      t_generation (ts j) \<le> t_generation (ts n)" by simp
  ultimately show ?thesis by simp
qed

text \<open>The ledger's history is append-only.  Whatever methods run, the log of worker events with the
  contract revision each was judged under is only extended, no contract revision is removed or
  altered, and every stored turn, receipt and artifact is found again unchanged.\<close>

theorem history_is_append_only:
  assumes "ledger_step\<^sup>*\<^sup>* L L'"
  shows "prefix (event_facts L) (event_facts L') \<and>
    (\<forall>j i c. get_contract L j (Some i) = Some c \<longrightarrow> get_contract L' j (Some i) = Some c) \<and>
    (\<forall>k t. get_turn_by_receipt L k = Some t \<longrightarrow> get_turn_by_receipt L' k = Some t) \<and>
    (\<forall>k r. get_receipt L k = Some r \<longrightarrow> get_receipt L' k = Some r) \<and>
    (\<forall>k a. get_artifact L k = Some a \<longrightarrow> get_artifact L' k = Some a)"
proof -
  have h: "keeps_history L L'" by (rule run_keeps_history [OF assms])
  then obtain cs where "l_contracts L' = l_contracts L @ cs" by (auto simp: keeps_history_def prefix_def)
  then have "get_contract L' j (Some i) = Some c" if "get_contract L j (Some i) = Some c" for j i c
    using that by (simp add: get_contract_def find_append)
  with h show ?thesis by (simp add: keeps_history_def)
qed

end
