(* ===== verification/Timeline.thy ===== *)
theory Timeline
  imports Json
begin

text \<open>
  The shared event plane of a live session
  (runtime/gnsis_runtime/gnsis_runtime/timeline.py, \<open>SessionTimeline\<close>): a bounded ring of events with
  consecutive sequence numbers.  The optional JSONL log is output only and is left out; the lock
  makes every method one step.
\<close>

section \<open>State and operations\<close>

record TimelineEvent =
  ev_seq :: int
  ev_kind :: string
  ev_component :: string
  ev_session_id :: string
  ev_recv_ts_ms :: int
  ev_source_ts_ms :: "int option"
  ev_call_epoch :: int
  ev_output_epoch :: int
  ev_correlation_id :: "string option"
  ev_fields :: "(string \<times> json) list"

record SessionTimeline =
  tl_session_id :: string
  tl_events :: "TimelineEvent list"
  tl_seq :: int
  tl_call_epoch :: int
  tl_output_epoch :: int
  tl_max_events :: int

definition MAX_TIMELINE_EVENTS :: int where
  "MAX_TIMELINE_EVENTS = 4096"

definition SessionTimeline_new :: "string \<Rightarrow> int \<Rightarrow> SessionTimeline res" where
  "SessionTimeline_new session_id max_events =
     validated (raise_first
       [(session_id = [], ValueError ''session_id is required''),
        (max_events < 1, ValueError ''max_events must be positive'')])
       \<lparr>tl_session_id = session_id, tl_events = [], tl_seq = 0, tl_call_epoch = 0,
        tl_output_epoch = 0, tl_max_events = max_events\<rparr>"

definition note_call_epoch :: "int \<Rightarrow> SessionTimeline \<Rightarrow> SessionTimeline" where
  "note_call_epoch epoch T = T\<lparr>tl_call_epoch := max 0 epoch\<rparr>"

definition note_output_epoch :: "int \<Rightarrow> SessionTimeline \<Rightarrow> SessionTimeline" where
  "note_output_epoch epoch T = T\<lparr>tl_output_epoch := max 0 epoch\<rparr>"

text \<open>\<open>del self._events[: len(self._events) - self._max_events]\<close>\<close>

definition push_event :: "TimelineEvent \<Rightarrow> SessionTimeline \<Rightarrow> SessionTimeline" where
  "push_event e T =
     (let es = tl_events T @ [e] in
      T\<lparr>tl_seq := tl_seq T + 1,
        tl_events := (if int (length es) > tl_max_events T
          then drop (nat (int (length es) - tl_max_events T)) es else es)\<rparr>)"

text \<open>The event \<open>emit\<close> builds at wall-clock time \<open>now\<close> once its kind and component are accepted.\<close>

definition new_event ::
  "SessionTimeline \<Rightarrow> int \<Rightarrow> string \<Rightarrow> string \<Rightarrow> (string \<times> json) list \<Rightarrow> int option \<Rightarrow> string option \<Rightarrow>
   int option \<Rightarrow> TimelineEvent" where
  "new_event T now kind component details source_ts_ms correlation_id output_epoch =
     \<lparr>ev_seq = tl_seq T + 1, ev_kind = kind, ev_component = component,
      ev_session_id = tl_session_id T, ev_recv_ts_ms = now, ev_source_ts_ms = source_ts_ms,
      ev_call_epoch = tl_call_epoch T,
      ev_output_epoch = (case output_epoch of None \<Rightarrow> tl_output_epoch T | Some e \<Rightarrow> e),
      ev_correlation_id = correlation_id, ev_fields = details\<rparr>"

definition emit ::
  "SessionTimeline \<Rightarrow> int \<Rightarrow> string \<Rightarrow> string \<Rightarrow> (string \<times> json) list \<Rightarrow> int option \<Rightarrow> string option \<Rightarrow>
   int option \<Rightarrow> (TimelineEvent \<times> SessionTimeline) res" where
  "emit T now kind component details source_ts_ms correlation_id output_epoch =
     (if kind = [] \<or> component = []
      then Inl (ValueError ''timeline events require kind and component'')
      else (let e = new_event T now kind component details source_ts_ms correlation_id output_epoch
            in Inr (e, push_event e T)))"

text \<open>\<open>events[-limit:]\<close>: \<open>-0\<close> is \<open>0\<close>, and a negative \<open>limit\<close> drops from the front.\<close>

definition timeline_snapshot :: "SessionTimeline \<Rightarrow> int option \<Rightarrow> TimelineEvent list" where
  "timeline_snapshot T limit =
     (case limit of
        None \<Rightarrow> tl_events T
      | Some n \<Rightarrow>
          (if n > 0 then last_n (nat n) (tl_events T) else drop (nat (- n)) (tl_events T)))"

definition kinds :: "SessionTimeline \<Rightarrow> string \<Rightarrow> TimelineEvent list" where
  "kinds T kind = filter (\<lambda>e. ev_kind e = kind) (timeline_snapshot T None)"

section \<open>Laws\<close>

text \<open>The ring holds the last events in order, with consecutive numbers up to the counter.\<close>

definition timeline_ok :: "SessionTimeline \<Rightarrow> bool" where
  "timeline_ok T \<longleftrightarrow> 1 \<le> tl_max_events T \<and> int (length (tl_events T)) \<le> tl_max_events T \<and>
     int (length (tl_events T)) = min (tl_seq T) (tl_max_events T) \<and>
     (\<forall>i < length (tl_events T).
        ev_seq (tl_events T ! i) = tl_seq T - int (length (tl_events T)) + 1 + int i)"

lemma timeline_new_ok: "SessionTimeline_new sid n = Inr T \<Longrightarrow> timeline_ok T"
  by (auto simp: SessionTimeline_new_def timeline_ok_def split: if_splits)

lemma timeline_okD:
  assumes "timeline_ok T" and "i < length (tl_events T)"
  shows "ev_seq (tl_events T ! i) = tl_seq T - int (length (tl_events T)) + 1 + int i"
  using assms by (simp add: timeline_ok_def)

lemma push_event_ok:
  assumes ok: "timeline_ok T" and e: "ev_seq e = tl_seq T + 1"
  shows "timeline_ok (push_event e T)"
proof -
  let ?es = "tl_events T"
  have len: "int (length ?es) = min (tl_seq T) (tl_max_events T)" and mx: "1 \<le> tl_max_events T"
    using ok by (simp_all add: timeline_ok_def)
  have seqs: "ev_seq ((?es @ [e]) ! i) = tl_seq T - int (length ?es) + 1 + int i" if "i \<le> length ?es" for i
    using that e timeline_okD [OF ok, of i] by (cases "i = length ?es") (auto simp: nth_append)
  show ?thesis
  proof (cases "int (length ?es) < tl_max_events T")
    case True
    then have "push_event e T = T\<lparr>tl_seq := tl_seq T + 1, tl_events := ?es @ [e]\<rparr>"
      by (simp add: push_event_def Let_def)
    with True seqs len mx show ?thesis
      by (auto simp: timeline_ok_def less_Suc_eq_le)
  next
    case False
    with len have full: "int (length ?es) = tl_max_events T" by auto
    with mx obtain x xs where es: "?es = x # xs" by (cases ?es) auto
    have p: "push_event e T = T\<lparr>tl_seq := tl_seq T + 1, tl_events := xs @ [e]\<rparr>"
      using full by (simp add: push_event_def Let_def es)
    have "ev_seq ((xs @ [e]) ! i) = tl_seq T + 1 - int (length (xs @ [e])) + 1 + int i"
      if "i < length (xs @ [e])" for i
      using seqs [of "Suc i"] that by (simp add: es)
    then show ?thesis
      using full len mx unfolding p timeline_ok_def by (simp add: es)
  qed
qed

lemma emit_InrE:
  assumes "emit T now kind component details src corr oe = Inr (e, T')"
  obtains "kind \<noteq> []" "component \<noteq> []" "e = new_event T now kind component details src corr oe"
    "T' = push_event e T"
  using assms by (auto simp: emit_def Let_def split: if_splits)

lemma push_event_fields [simp]:
  "tl_session_id (push_event e T) = tl_session_id T"
  "tl_output_epoch (push_event e T) = tl_output_epoch T"
  "tl_call_epoch (push_event e T) = tl_call_epoch T"
  "tl_max_events (push_event e T) = tl_max_events T"
  "tl_seq (push_event e T) = tl_seq T + 1"
  by (simp_all add: push_event_def Let_def)

lemma last_push_event: "1 \<le> tl_max_events T \<Longrightarrow> tl_events (push_event e T) \<noteq> [] \<and> last (tl_events (push_event e T)) = e"
  by (auto simp: push_event_def Let_def)

section \<open>Properties\<close>

text \<open>The timeline keeps a gapless suffix of the session: in a timeline that satisfies its
  invariant every accepted event gets the next number and is the newest, the ring never exceeds its
  bound, consecutive kept events have consecutive numbers, and the invariant holds again.\<close>

theorem timeline_is_gapless:
  assumes ok: "timeline_ok T" and e: "emit T now kind component details src corr oe = Inr (e, T')"
  shows "timeline_ok T' \<and> tl_events T' \<noteq> [] \<and> last (tl_events T') = e \<and> ev_seq e = tl_seq T + 1 \<and>
    int (length (tl_events T')) \<le> tl_max_events T \<and>
    (\<forall>i. Suc i < length (tl_events T') \<longrightarrow> ev_seq (tl_events T' ! Suc i) = ev_seq (tl_events T' ! i) + 1)"
  using e
proof (rule emit_InrE)
  assume e: "e = new_event T now kind component details src corr oe" and T': "T' = push_event e T"
  have s: "ev_seq e = tl_seq T + 1" by (simp add: e new_event_def)
  have ok': "timeline_ok T'" unfolding T' by (rule push_event_ok [OF ok s])
  then have "int (length (tl_events T')) \<le> tl_max_events T" by (simp add: timeline_ok_def T')
  moreover have "1 \<le> tl_max_events T" using ok by (simp add: timeline_ok_def)
  ultimately show ?thesis
    using ok' s last_push_event [of T e] timeline_okD [OF ok'] by (simp add: T')
qed

subsection \<open>The ring as a view of the whole log\<close>

text \<open>The abstract specification is a log that keeps every event of the session.\<close>

definition ring_of :: "TimelineEvent list \<Rightarrow> SessionTimeline \<Rightarrow> bool" where
  "ring_of hist T \<longleftrightarrow> 1 \<le> tl_max_events T \<and> tl_seq T = int (length hist) \<and>
     tl_events T = last_n (nat (tl_max_events T)) hist"

lemma last_n_last_n: "last_n m (last_n n xs) = last_n (min m n) xs"
proof -
  have "length xs - (length xs - n) - m + (length xs - n) = length xs - min m n" by auto
  then show ?thesis by (simp only: last_n_def length_drop drop_drop add.commute)
qed

lemma push_event_last_n:
  "1 \<le> tl_max_events T \<Longrightarrow> tl_events (push_event e T) = last_n (nat (tl_max_events T)) (tl_events T @ [e])"
  by (auto simp: push_event_def Let_def last_n_def nat_diff_distrib' nat_add_distrib)

lemma ring_of_new: "SessionTimeline_new sid n = Inr T \<Longrightarrow> ring_of [] T"
  by (auto simp: SessionTimeline_new_def ring_of_def last_n_def split: if_splits)

lemma push_event_ring:
  assumes "ring_of hist T"
  shows "ring_of (hist @ [e]) (push_event e T)"
proof -
  obtain n where n: "nat (tl_max_events T) = Suc n" using assms by (cases "nat (tl_max_events T)") (auto simp: ring_of_def)
  have "last_n (Suc n) (last_n (Suc n) hist @ [e]) = last_n (Suc n) (hist @ [e])"
    by (simp add: last_n_snoc last_n_last_n)
  with assms n show ?thesis by (simp add: ring_of_def push_event_last_n)
qed

text \<open>C28: The bounded ring implements a log that keeps everything: the operations simulate appending to the
  log, and reading the newest \<open>n\<close> events of the ring, for \<open>n\<close> up to its bound, is reading the newest
  \<open>n\<close> events of the log.\<close>

theorem timeline_refines_log:
  assumes "ring_of hist T" and "emit T now kind component details src corr oe = Inr (e, T')"
    and "0 < n" and "n \<le> tl_max_events T"
  shows "ring_of (hist @ [e]) T' \<and> ev_seq e = int (length hist) + 1 \<and>
    timeline_snapshot T' (Some n) = last_n (nat n) (hist @ [e])"
  using assms(2)
proof (rule emit_InrE)
  assume e: "e = new_event T now kind component details src corr oe" and T': "T' = push_event e T"
  have r: "ring_of (hist @ [e]) T'" unfolding T' by (rule push_event_ring [OF assms(1)])
  moreover have "tl_max_events T' = tl_max_events T" by (simp add: T')
  ultimately show ?thesis
    using assms by (simp add: timeline_snapshot_def ring_of_def e new_event_def last_n_last_n min_def)
qed

end
