(* ===== verification/DeliveryGate.thy ===== *)
theory DeliveryGate
  imports Timeline "HOL-Library.AList"
begin

text \<open>
  Output epochs, the lifecycle of background results and the delivery gate
  (runtime/gnsis_runtime/gnsis_runtime/delivery_gate.py).

  \<open>time.monotonic()\<close> readings are rationals (the argument \<open>mclk\<close>), wall-clock readings come from
  \<open>clk\<close>: a state change of a result reads it once for its history and once for its timeline event.
  A Python dict is an association list in insertion order: \<open>AList.update\<close> keeps the place of a key.
  A phase in an error message is printed with Python's \<open>repr\<close>, exact for code points below 256.
  The kinds and the component of the gate's events are non-empty literals, so \<open>emit\<close> never raises
  and the gate pushes the event directly (\<open>gate_emit_never_raises\<close>).
\<close>

section \<open>Printing a string literal\<close>

definition hex_digit :: "nat \<Rightarrow> char" where
  "hex_digit n = ''0123456789abcdef'' ! n"

definition repr_char :: "char \<Rightarrow> char \<Rightarrow> string" where
  "repr_char q c =
     (let n = of_char c :: nat in
      if c = q \<or> n = 92 then [CHR 0x5C, c]
      else if n = 9 then [CHR 0x5C, CHR ''t'']
      else if n = 10 then [CHR 0x5C, CHR ''n'']
      else if n = 13 then [CHR 0x5C, CHR ''r'']
      else if n < 32 \<or> 127 \<le> n \<and> n \<le> 160 \<or> n = 173
      then [CHR 0x5C, CHR ''x'', hex_digit (n div 16), hex_digit (n mod 16)]
      else [c])"

definition py_repr :: "string \<Rightarrow> string" where
  "py_repr s =
     (let q = (if CHR 0x27 \<in> set s \<and> CHR 0x22 \<notin> set s then CHR 0x22 else CHR 0x27)
      in q # concat (map (repr_char q) s) @ [q])"

section \<open>State\<close>

datatype ResultState =
  SRunning | SCompleted | SResultReady | SAwaiting | SDelivering | SDelivered | SCancelled |
  SSuperseded | SFailed

fun result_state_name :: "ResultState \<Rightarrow> string" where
  "result_state_name SRunning = ''running''"
| "result_state_name SCompleted = ''completed''"
| "result_state_name SResultReady = ''result_ready''"
| "result_state_name SAwaiting = ''awaiting_delivery''"
| "result_state_name SDelivering = ''delivering''"
| "result_state_name SDelivered = ''delivered''"
| "result_state_name SCancelled = ''cancelled''"
| "result_state_name SSuperseded = ''superseded''"
| "result_state_name SFailed = ''failed''"

definition TERMINAL_RESULTS :: "ResultState set" where
  "TERMINAL_RESULTS = {SDelivered, SCancelled, SSuperseded, SFailed}"

record TrackedResult =
  x_result_id :: string
  x_delivery_id :: "string option"
  x_epoch :: int
  x_state :: ResultState
  x_blocked_by :: "string option"
  x_reason :: "string option"
  x_history :: "(string \<times> ResultState \<times> int) list"

record DeliveryGate =
  dg_timeline :: SessionTimeline
  dg_playback_ack_timeout_sec :: rat
  dg_user_speech_window_sec :: rat
  dg_output_epoch :: int
  dg_user_last_spoke_sec :: "rat option"
  dg_model_output_open :: bool
  dg_pending_playbacks :: "(string \<times> int \<times> rat) list"
  dg_expired :: "string list"
  dg_results :: "(string \<times> TrackedResult) list"

definition DeliveryGate_new :: "SessionTimeline \<Rightarrow> rat \<Rightarrow> rat \<Rightarrow> DeliveryGate res" where
  "DeliveryGate_new timeline ack_timeout speech_window =
     validated (raise_first
       [(ack_timeout \<le> 0, ValueError ''playback_ack_timeout_sec must be positive''),
        (speech_window < 0, ValueError ''user_speech_window_sec cannot be negative'')])
       \<lparr>dg_timeline = timeline, dg_playback_ack_timeout_sec = ack_timeout,
        dg_user_speech_window_sec = speech_window, dg_output_epoch = 0,
        dg_user_last_spoke_sec = None, dg_model_output_open = False, dg_pending_playbacks = [],
        dg_expired = [], dg_results = []\<rparr>"

definition record_state :: "TrackedResult \<Rightarrow> int \<Rightarrow> ResultState \<Rightarrow> string option \<Rightarrow> TrackedResult" where
  "record_state r at_ms state reason =
     r\<lparr>x_state := state, x_reason := reason,
       x_history := x_history r @ [(case reason of None \<Rightarrow> [] | Some s \<Rightarrow> s, state, at_ms)]\<rparr>"

definition optional_str :: "string option \<Rightarrow> json" where
  "optional_str s = (case s of None \<Rightarrow> JNull | Some v \<Rightarrow> JStr v)"

section \<open>Timeline events of the gate\<close>

definition gate_emit ::
  "int \<Rightarrow> string \<Rightarrow> (string \<times> json) list \<Rightarrow> int option \<Rightarrow> string option \<Rightarrow> int option \<Rightarrow>
   DeliveryGate \<Rightarrow> DeliveryGate" where
  "gate_emit now kind details source_ts_ms correlation_id output_epoch G =
     G\<lparr>dg_timeline := push_event (new_event (dg_timeline G) now kind ''delivery_gate'' details
         source_ts_ms correlation_id output_epoch) (dg_timeline G)\<rparr>"

lemma gate_emit_never_raises:
  "kind \<noteq> [] \<Longrightarrow> \<exists>e. emit (dg_timeline G) now kind ''delivery_gate'' details src corr oe =
     Inr (e, dg_timeline (gate_emit now kind details src corr oe G))"
  by (simp add: emit_def gate_emit_def Let_def)

section \<open>Results\<close>

definition transition ::
  "clock \<Rightarrow> nat \<Rightarrow> string \<Rightarrow> TrackedResult \<Rightarrow> ResultState \<Rightarrow> string option \<Rightarrow> DeliveryGate \<Rightarrow> DeliveryGate" where
  "transition clk n rid r state reason G =
     gate_emit (clk (n + 1)) ''result.state''
       [(''from'', JStr (result_state_name (x_state r))), (''to'', JStr (result_state_name state)),
        (''reason'', optional_str reason), (''delivery_id'', optional_str (x_delivery_id r))]
       None (Some (x_result_id r)) None
       (G\<lparr>dg_results := AList.update rid (record_state r (clk n) state reason) (dg_results G)\<rparr>)"

definition tracked :: "DeliveryGate \<Rightarrow> string \<Rightarrow> TrackedResult option" where
  "tracked G rid = map_of (dg_results G) rid"

definition register ::
  "DeliveryGate \<Rightarrow> clock \<Rightarrow> string \<Rightarrow> string option \<Rightarrow> TrackedResult option \<times> DeliveryGate" where
  "register G clk rid delivery_id =
     (case tracked G rid of
        Some existing \<Rightarrow> (Some existing, G)
      | None \<Rightarrow>
          (let G' = transition clk 0 rid
               \<lparr>x_result_id = rid, x_delivery_id = delivery_id, x_epoch = 0, x_state = SResultReady,
                x_blocked_by = None, x_reason = None, x_history = []\<rparr> SAwaiting None G
           in (tracked G' rid, G')))"

text \<open>The methods that move a result: unknown and terminal results are left alone.\<close>

definition move_result ::
  "DeliveryGate \<Rightarrow> clock \<Rightarrow> string \<Rightarrow> (TrackedResult \<Rightarrow> TrackedResult) \<Rightarrow> ResultState \<Rightarrow> string option \<Rightarrow>
   DeliveryGate" where
  "move_result G clk rid prepare state reason =
     (case tracked G rid of
        None \<Rightarrow> G
      | Some r \<Rightarrow>
          (if x_state r \<in> TERMINAL_RESULTS then G
           else transition clk 0 rid (prepare r) state reason G))"

definition cancel_result :: "DeliveryGate \<Rightarrow> clock \<Rightarrow> string \<Rightarrow> string \<Rightarrow> DeliveryGate" where
  "cancel_result G clk rid reason = move_result G clk rid id SCancelled (Some reason)"

definition supersede :: "DeliveryGate \<Rightarrow> clock \<Rightarrow> string \<Rightarrow> DeliveryGate" where
  "supersede G clk rid = move_result G clk rid id SSuperseded (Some ''superseded'')"

definition note_delivering :: "DeliveryGate \<Rightarrow> clock \<Rightarrow> string \<Rightarrow> DeliveryGate" where
  "note_delivering G clk rid =
     move_result G clk rid (\<lambda>r. r\<lparr>x_epoch := dg_output_epoch G\<rparr>) SDelivering None"

definition note_delivered :: "DeliveryGate \<Rightarrow> clock \<Rightarrow> string \<Rightarrow> DeliveryGate" where
  "note_delivered G clk rid = move_result G clk rid id SDelivered None"

definition note_failed :: "DeliveryGate \<Rightarrow> clock \<Rightarrow> string \<Rightarrow> string \<Rightarrow> DeliveryGate" where
  "note_failed G clk rid reason = move_result G clk rid id SFailed (Some reason)"

section \<open>Epochs\<close>

text \<open>The loop of \<open>interrupt\<close> over the values of \<open>_results\<close>.\<close>

fun cancel_delivering :: "clock \<Rightarrow> nat \<Rightarrow> (string \<times> TrackedResult) list \<Rightarrow> DeliveryGate \<Rightarrow> DeliveryGate" where
  "cancel_delivering clk n [] G = G"
| "cancel_delivering clk n ((rid, r) # rs) G =
     (if x_state r = SDelivering \<and> x_epoch r < dg_output_epoch G
      then cancel_delivering clk (n + 2) rs (transition clk n rid r SCancelled (Some ''interrupted'') G)
      else cancel_delivering clk n rs G)"

definition advance_epoch :: "DeliveryGate \<Rightarrow> clock \<Rightarrow> string \<Rightarrow> DeliveryGate" where
  "advance_epoch G clk reason =
     (let epoch = dg_output_epoch G + 1;
          stale = filter (\<lambda>(pid, e, _). e < epoch) (dg_pending_playbacks G)
      in gate_emit (clk 0) ''output.epoch''
           [(''reason'', JStr reason), (''stale_playbacks_dropped'', JInt (int (length stale)))]
           None None (Some epoch)
           (G\<lparr>dg_output_epoch := epoch, dg_model_output_open := False,
              dg_pending_playbacks := filter (\<lambda>(pid, e, _). \<not> e < epoch) (dg_pending_playbacks G)\<rparr>))"

definition interrupt :: "DeliveryGate \<Rightarrow> clock \<Rightarrow> string \<Rightarrow> int \<times> DeliveryGate" where
  "interrupt G clk reason =
     (let G' = advance_epoch G clk reason
      in (dg_output_epoch G', cancel_delivering clk 1 (dg_results G') G'))"

section \<open>Speech activity\<close>

definition note_user_speech :: "DeliveryGate \<Rightarrow> clock \<Rightarrow> rat \<Rightarrow> int option \<Rightarrow> DeliveryGate" where
  "note_user_speech G clk mclk at_ms =
     gate_emit (clk 0) ''user.speech'' [] at_ms None None (G\<lparr>dg_user_last_spoke_sec := Some mclk\<rparr>)"

definition note_model_output_started :: "DeliveryGate \<Rightarrow> clock \<Rightarrow> int option \<Rightarrow> DeliveryGate" where
  "note_model_output_started G clk epoch =
     gate_emit (clk 0) ''model.output_started'' [] None None epoch (G\<lparr>dg_model_output_open := True\<rparr>)"

definition note_model_output_finished :: "DeliveryGate \<Rightarrow> clock \<Rightarrow> int option \<Rightarrow> DeliveryGate" where
  "note_model_output_finished G clk epoch =
     gate_emit (clk 0) ''model.output_finished'' [] None None epoch (G\<lparr>dg_model_output_open := False\<rparr>)"

section \<open>Playback acknowledgements\<close>

definition note_output_sent :: "DeliveryGate \<Rightarrow> clock \<Rightarrow> rat \<Rightarrow> string \<Rightarrow> int option \<Rightarrow> DeliveryGate" where
  "note_output_sent G clk mclk pid epoch =
     (let e = (case epoch of None \<Rightarrow> dg_output_epoch G | Some e \<Rightarrow> e) in
      gate_emit (clk 0) ''playback.awaiting_ack'' [] None (Some pid) (Some e)
        (G\<lparr>dg_pending_playbacks := AList.update pid (e, mclk) (dg_pending_playbacks G)\<rparr>))"

definition ack_epoch_of :: "DeliveryGate \<Rightarrow> string \<Rightarrow> int option \<Rightarrow> int" where
  "ack_epoch_of G pid epoch =
     (case epoch of
        Some e \<Rightarrow> e
      | None \<Rightarrow> (case map_of (dg_pending_playbacks G) pid of
                   Some (e, _) \<Rightarrow> e | None \<Rightarrow> dg_output_epoch G))"

definition note_playback_ack ::
  "DeliveryGate \<Rightarrow> clock \<Rightarrow> rat \<Rightarrow> string \<Rightarrow> string \<Rightarrow> int option \<Rightarrow> int option \<Rightarrow> (bool \<times> DeliveryGate) res" where
  "note_playback_ack G clk mclk pid phase epoch source_ts_ms =
     (if phase \<notin> {''started'', ''finished'', ''cancelled''}
      then Inl (ValueError (''unknown playback ack phase '' @ py_repr phase))
      else
        let ack_epoch = ack_epoch_of G pid epoch;
            stale = ack_epoch < dg_output_epoch G;
            G1 = gate_emit (clk 0) ''playback.ack'' [(''phase'', JStr phase), (''stale'', JBool stale)]
                   source_ts_ms (Some pid) (Some ack_epoch) G
        in Inr (if stale then (False, G1)
          else if phase \<in> {''finished'', ''cancelled''}
          then (True, G1\<lparr>dg_pending_playbacks := AList.delete pid (dg_pending_playbacks G1)\<rparr>)
          else if map_of (dg_pending_playbacks G) pid \<noteq> None
          then (True, G1\<lparr>dg_pending_playbacks :=
                 AList.update pid (ack_epoch, mclk) (dg_pending_playbacks G1)\<rparr>)
          else (True, G1)))"

definition ack_expired :: "DeliveryGate \<Rightarrow> rat \<Rightarrow> string \<times> int \<times> rat \<Rightarrow> bool" where
  "ack_expired G now p \<longleftrightarrow> (case p of (pid, e, started) \<Rightarrow> now - started > dg_playback_ack_timeout_sec G)"

fun expire_playbacks :: "clock \<Rightarrow> nat \<Rightarrow> string list \<Rightarrow> DeliveryGate \<Rightarrow> DeliveryGate" where
  "expire_playbacks clk n [] G = G"
| "expire_playbacks clk n (pid # pids) G =
     expire_playbacks clk (n + 1) pids
       (gate_emit (clk n) ''playback.ack_timeout'' [] None (Some pid) None
         (G\<lparr>dg_pending_playbacks := AList.delete pid (dg_pending_playbacks G),
            dg_expired := dg_expired G @ [pid]\<rparr>))"

text \<open>\<open>now\<close> is the \<open>time.monotonic()\<close> reading or the argument of the call.\<close>

definition playback_draining :: "DeliveryGate \<Rightarrow> clock \<Rightarrow> rat \<Rightarrow> bool \<times> DeliveryGate" where
  "playback_draining G clk now =
     (let G' = expire_playbacks clk 0 (map fst (filter (ack_expired G now) (dg_pending_playbacks G))) G
      in (dg_pending_playbacks G' \<noteq> [], G'))"

definition take_expired :: "DeliveryGate \<Rightarrow> string list \<times> DeliveryGate" where
  "take_expired G = (dg_expired G, G\<lparr>dg_expired := []\<rparr>)"

section \<open>The gate\<close>

text \<open>\<open>mclk 0\<close> is the reading of \<open>user_active\<close>, \<open>mclk 1\<close> the one of \<open>playback_draining\<close>.\<close>

definition user_active :: "DeliveryGate \<Rightarrow> rat \<Rightarrow> bool" where
  "user_active G now =
     (case dg_user_last_spoke_sec G of None \<Rightarrow> False | Some t \<Rightarrow> now - t \<le> dg_user_speech_window_sec G)"

definition blocked_reason ::
  "DeliveryGate \<Rightarrow> clock \<Rightarrow> (nat \<Rightarrow> rat) \<Rightarrow> string \<Rightarrow> string option \<times> DeliveryGate" where
  "blocked_reason G clk mclk timing =
     (if user_active G (mclk 0) then (Some ''user_speaking'', G)
      else if timing = ''interrupt'' then (None, G)
      else if dg_model_output_open G then (Some ''model_speaking'', G)
      else (case playback_draining G clk (mclk 1) of
              (draining, G') \<Rightarrow> (if draining then Some ''playback_draining'' else None, G')))"

definition may_announce ::
  "DeliveryGate \<Rightarrow> clock \<Rightarrow> (nat \<Rightarrow> rat) \<Rightarrow> string \<Rightarrow> string \<Rightarrow> (bool \<times> string option) \<times> DeliveryGate" where
  "may_announce G clk mclk rid timing =
     (case tracked G rid of
        Some r \<Rightarrow>
          (if x_state r \<in> TERMINAL_RESULTS then ((False, Some (result_state_name (x_state r))), G)
           else (case blocked_reason G clk mclk timing of
             (reason, G') \<Rightarrow> ((reason = None, reason),
               G'\<lparr>dg_results := AList.update rid (r\<lparr>x_blocked_by := reason\<rparr>) (dg_results G')\<rparr>)))
      | None \<Rightarrow>
          (case blocked_reason G clk mclk timing of (reason, G') \<Rightarrow> ((reason = None, reason), G')))"

section \<open>Laws\<close>

subsection \<open>Association lists\<close>

lemma update_map_of [simp]: "map_of (AList.update k v xs) k' = (if k' = k then Some v else map_of xs k')"
  by (simp add: update_conv')

lemma delete_filter: "AList.delete k xs = filter (\<lambda>p. fst p \<noteq> k) xs"
  by (induction xs) auto

subsection \<open>What one event leaves unchanged\<close>

lemma gate_emit_frame [simp]:
  "dg_results (gate_emit now kind f src corr oe G) = dg_results G"
  "dg_output_epoch (gate_emit now kind f src corr oe G) = dg_output_epoch G"
  "dg_pending_playbacks (gate_emit now kind f src corr oe G) = dg_pending_playbacks G"
  "dg_expired (gate_emit now kind f src corr oe G) = dg_expired G"
  "dg_model_output_open (gate_emit now kind f src corr oe G) = dg_model_output_open G"
  "dg_user_last_spoke_sec (gate_emit now kind f src corr oe G) = dg_user_last_spoke_sec G"
  "dg_playback_ack_timeout_sec (gate_emit now kind f src corr oe G) = dg_playback_ack_timeout_sec G"
  "dg_user_speech_window_sec (gate_emit now kind f src corr oe G) = dg_user_speech_window_sec G"
  by (simp_all add: gate_emit_def)

lemma gate_emit_timeline_ok:
  "timeline_ok (dg_timeline G) \<Longrightarrow> timeline_ok (dg_timeline (gate_emit now kind f src corr oe G))"
  by (simp add: gate_emit_def push_event_ok new_event_def)

lemma transition_frame [simp]:
  "dg_results (transition clk n rid r s why G) = AList.update rid (record_state r (clk n) s why) (dg_results G)"
  "dg_output_epoch (transition clk n rid r s why G) = dg_output_epoch G"
  "dg_pending_playbacks (transition clk n rid r s why G) = dg_pending_playbacks G"
  "dg_expired (transition clk n rid r s why G) = dg_expired G"
  "dg_model_output_open (transition clk n rid r s why G) = dg_model_output_open G"
  "dg_user_last_spoke_sec (transition clk n rid r s why G) = dg_user_last_spoke_sec G"
  "dg_playback_ack_timeout_sec (transition clk n rid r s why G) = dg_playback_ack_timeout_sec G"
  by (simp_all add: transition_def)

lemma transition_timeline_ok:
  "timeline_ok (dg_timeline G) \<Longrightarrow> timeline_ok (dg_timeline (transition clk n rid r s why G))"
  unfolding transition_def by (rule gate_emit_timeline_ok) simp

lemma record_state_fields [simp]:
  "x_state (record_state r t s why) = s" "x_epoch (record_state r t s why) = x_epoch r"
  "x_result_id (record_state r t s why) = x_result_id r"
  "x_delivery_id (record_state r t s why) = x_delivery_id r"
  by (simp_all add: record_state_def)

subsection \<open>The invariant\<close>

text \<open>A result that is being delivered belongs to the current output epoch.\<close>

definition result_ok :: "int \<Rightarrow> string \<times> TrackedResult \<Rightarrow> bool" where
  "result_ok epoch p \<longleftrightarrow> (case p of (rid, r) \<Rightarrow> x_result_id r = rid \<and> x_epoch r \<le> epoch \<and>
     (x_state r = SDelivering \<longrightarrow> x_epoch r = epoch))"

definition gate_ok :: "DeliveryGate \<Rightarrow> bool" where
  "gate_ok G \<longleftrightarrow> timeline_ok (dg_timeline G) \<and> 0 \<le> dg_output_epoch G \<and>
     distinct (map fst (dg_results G)) \<and> distinct (map fst (dg_pending_playbacks G)) \<and>
     (\<forall>p \<in> set (dg_results G). result_ok (dg_output_epoch G) p)"

lemma gate_new_ok: "timeline_ok T \<Longrightarrow> DeliveryGate_new T a w = Inr G \<Longrightarrow> gate_ok G"
  by (auto simp: DeliveryGate_new_def gate_ok_def split: if_splits)

lemma gate_okD:
  assumes "gate_ok G" and "tracked G rid = Some r"
  shows "x_result_id r = rid" "x_epoch r \<le> dg_output_epoch G"
    "x_state r = SDelivering \<Longrightarrow> x_epoch r = dg_output_epoch G"
proof -
  have "(rid, r) \<in> set (dg_results G)" using assms(2) by (simp add: tracked_def map_of_SomeD)
  with assms(1) have "result_ok (dg_output_epoch G) (rid, r)" unfolding gate_ok_def by blast
  then show "x_result_id r = rid" "x_epoch r \<le> dg_output_epoch G"
    "x_state r = SDelivering \<Longrightarrow> x_epoch r = dg_output_epoch G" by (simp_all add: result_ok_def)
qed

lemma set_update: "set (AList.update k v xs) \<subseteq> insert (k, v) (set xs)"
  by (induction xs) auto

lemma transition_ok:
  assumes ok: "gate_ok G" and "x_result_id r = rid" and "x_epoch r \<le> dg_output_epoch G"
    and "s = SDelivering \<Longrightarrow> x_epoch r = dg_output_epoch G"
  shows "gate_ok (transition clk n rid r s why G)"
proof -
  let ?e = "dg_output_epoch G" and ?r = "record_state r (clk n) s why"
  have "result_ok ?e (rid, ?r)" using assms(2-4) by (simp add: result_ok_def)
  then have "\<forall>p \<in> set (AList.update rid ?r (dg_results G)). result_ok ?e p"
    using ok set_update [of rid ?r "dg_results G"] unfolding gate_ok_def by blast
  moreover have "distinct (map fst (AList.update rid ?r (dg_results G)))"
    using ok unfolding gate_ok_def by (blast intro: distinct_update)
  moreover have "timeline_ok (dg_timeline (transition clk n rid r s why G))"
    using ok unfolding gate_ok_def by (blast intro: transition_timeline_ok)
  ultimately show ?thesis
    using ok unfolding gate_ok_def transition_frame by blast
qed

lemma move_result_ok:
  assumes "gate_ok G"
    and "\<And>r. tracked G rid = Some r \<Longrightarrow> x_result_id (f r) = rid \<and> x_epoch (f r) \<le> dg_output_epoch G \<and>
      (s = SDelivering \<longrightarrow> x_epoch (f r) = dg_output_epoch G)"
  shows "gate_ok (move_result G clk rid f s why)"
  using assms by (auto simp: move_result_def intro: transition_ok split: option.split)


subsection \<open>Operations\<close>

lemma cancel_delivering_frame [simp]:
  "dg_output_epoch (cancel_delivering clk n rs G) = dg_output_epoch G"
  "dg_pending_playbacks (cancel_delivering clk n rs G) = dg_pending_playbacks G"
  "dg_expired (cancel_delivering clk n rs G) = dg_expired G"
  "dg_model_output_open (cancel_delivering clk n rs G) = dg_model_output_open G"
  by (induction clk n rs G rule: cancel_delivering.induct) simp_all

text \<open>The loop cancels exactly the stale deliveries of the list it walks.\<close>

definition stale_delivery :: "int \<Rightarrow> TrackedResult \<Rightarrow> bool" where
  "stale_delivery epoch r \<longleftrightarrow> x_state r = SDelivering \<and> x_epoch r < epoch"

definition interrupted :: "int \<Rightarrow> TrackedResult \<Rightarrow> TrackedResult \<Rightarrow> bool" where
  "interrupted epoch r r' \<longleftrightarrow>
     (if stale_delivery epoch r then \<exists>t. r' = record_state r t SCancelled (Some ''interrupted'') else r' = r)"

lemma cancel_delivering_Cons:
  "cancel_delivering clk n ((rid, r) # rs) G =
     (if stale_delivery (dg_output_epoch G) r
      then cancel_delivering clk (n + 2) rs (transition clk n rid r SCancelled (Some ''interrupted'') G)
      else cancel_delivering clk n rs G)"
  by (simp add: stale_delivery_def)

lemma cancel_delivering_other:
  "map_of rs k = None \<Longrightarrow> tracked (cancel_delivering clk n rs G) k = tracked G k"
proof (induction rs arbitrary: n G)
  case (Cons p rs)
  then show ?case
    by (cases p) (simp add: cancel_delivering_Cons tracked_def split: if_splits del: cancel_delivering.simps)
qed simp

lemma cancel_delivering_tracked:
  assumes "distinct (map fst rs)" and "map_of rs k = Some r" and "tracked G k = Some r"
  shows "\<exists>r'. tracked (cancel_delivering clk n rs G) k = Some r' \<and> interrupted (dg_output_epoch G) r r'"
  using assms
proof (induction rs arbitrary: n G)
  case (Cons p rs)
  obtain rid q where p: "p = (rid, q)" by (cases p)
  show ?case
  proof (cases "k = rid")
    case True
    with Cons.prems p have "q = r" and out: "map_of rs k = None" by (auto simp: map_of_eq_None_iff)
    moreover have "tracked (transition clk n rid r SCancelled (Some ''interrupted'') G) k =
        Some (record_state r (clk n) SCancelled (Some ''interrupted''))"
      using True by (simp add: tracked_def)
    ultimately show ?thesis
      using True p Cons.prems(3)
      by (auto simp: cancel_delivering_Cons cancel_delivering_other interrupted_def
          simp del: cancel_delivering.simps)
  next
    case False
    let ?G = "if stale_delivery (dg_output_epoch G) q then transition clk n rid q SCancelled (Some ''interrupted'') G else G"
    from False Cons.prems p have "tracked ?G k = Some r" "map_of rs k = Some r" "distinct (map fst rs)"
      by (auto simp: tracked_def)
    from Cons.IH [OF this(3,2,1)] show ?thesis
      unfolding p cancel_delivering_Cons by (auto split: if_splits)
  qed
qed simp

lemma advance_epoch_frame [simp]:
  "dg_results (advance_epoch G clk why) = dg_results G"
  "dg_output_epoch (advance_epoch G clk why) = dg_output_epoch G + 1"
  "\<not> dg_model_output_open (advance_epoch G clk why)"
  "dg_expired (advance_epoch G clk why) = dg_expired G"
  "dg_pending_playbacks (advance_epoch G clk why) =
     filter (\<lambda>p. dg_output_epoch G + 1 \<le> fst (snd p)) (dg_pending_playbacks G)"
  by (auto simp: advance_epoch_def Let_def intro: filter_cong)

lemma advance_epoch_timeline_ok:
  "timeline_ok (dg_timeline G) \<Longrightarrow> timeline_ok (dg_timeline (advance_epoch G clk why))"
  unfolding advance_epoch_def Let_def by (rule gate_emit_timeline_ok) simp

lemma interrupt_tracked:
  assumes ok: "gate_ok G" and i: "interrupt G clk why = (e, G')"
  shows "e = dg_output_epoch G + 1" "dg_output_epoch G' = e" "\<not> dg_model_output_open G'"
    "dg_pending_playbacks G' = filter (\<lambda>p. e \<le> fst (snd p)) (dg_pending_playbacks G)"
    "tracked G k = None \<Longrightarrow> tracked G' k = None"
    "tracked G k = Some r \<Longrightarrow> \<exists>r'. tracked G' k = Some r' \<and> interrupted e r r'"
proof -
  let ?G1 = "advance_epoch G clk why"
  have e: "e = dg_output_epoch G + 1" and G': "G' = cancel_delivering clk 1 (dg_results G) ?G1"
    using i by (auto simp: interrupt_def Let_def)
  show "e = dg_output_epoch G + 1" by (rule e)
  show "dg_output_epoch G' = e" "\<not> dg_model_output_open G'" by (simp_all add: G' e)
  show "dg_pending_playbacks G' = filter (\<lambda>p. e \<le> fst (snd p)) (dg_pending_playbacks G)"
    by (simp add: G' e)
  have t: "tracked ?G1 k = tracked G k" by (simp add: tracked_def)
  show "tracked G k = None \<Longrightarrow> tracked G' k = None"
    unfolding G' using cancel_delivering_other [of "dg_results G" k clk 1 ?G1] t by (simp add: tracked_def)
  show "tracked G k = Some r \<Longrightarrow> \<exists>r'. tracked G' k = Some r' \<and> interrupted e r r'"
    unfolding G' e using cancel_delivering_tracked [of "dg_results G" k r ?G1 clk 1] t ok
    by (simp add: tracked_def gate_ok_def)
qed


lemma expire_playbacks_spec:
  "distinct (map fst (dg_pending_playbacks G)) \<Longrightarrow>
   dg_pending_playbacks (expire_playbacks clk n pids G) = filter (\<lambda>p. fst p \<notin> set pids) (dg_pending_playbacks G) \<and>
   dg_expired (expire_playbacks clk n pids G) = dg_expired G @ pids \<and>
   dg_results (expire_playbacks clk n pids G) = dg_results G \<and>
   dg_output_epoch (expire_playbacks clk n pids G) = dg_output_epoch G \<and>
   dg_model_output_open (expire_playbacks clk n pids G) = dg_model_output_open G \<and>
   (timeline_ok (dg_timeline G) \<longrightarrow> timeline_ok (dg_timeline (expire_playbacks clk n pids G)))"
proof (induction clk n pids G rule: expire_playbacks.induct)
  case (2 clk n pid pids G)
  then show ?case
    by (simp add: delete_filter distinct_map_filter gate_emit_timeline_ok conj_commute)
qed simp

lemma draining_spec:
  assumes "distinct (map fst (dg_pending_playbacks G))" and "playback_draining G clk now = (b, G')"
  shows "dg_pending_playbacks G' = filter (\<lambda>p. \<not> ack_expired G now p) (dg_pending_playbacks G)"
    "dg_expired G' = dg_expired G @ map fst (filter (ack_expired G now) (dg_pending_playbacks G))"
    "dg_results G' = dg_results G" "dg_output_epoch G' = dg_output_epoch G"
    "b \<longleftrightarrow> (\<exists>p \<in> set (dg_pending_playbacks G). \<not> ack_expired G now p)"
    "timeline_ok (dg_timeline G) \<Longrightarrow> timeline_ok (dg_timeline G')"
proof -
  let ?ps = "dg_pending_playbacks G" and ?xs = "map fst (filter (ack_expired G now) (dg_pending_playbacks G))"
  have G': "G' = expire_playbacks clk 0 ?xs G" and b: "b \<longleftrightarrow> dg_pending_playbacks G' \<noteq> []"
    using assms(2) by (auto simp: playback_draining_def Let_def)
  note spec = expire_playbacks_spec [OF assms(1), of clk 0 ?xs]
  have "fst p \<in> set ?xs \<longleftrightarrow> ack_expired G now p" if "p \<in> set ?ps" for p
    using assms(1) that by (auto simp: distinct_map inj_on_def)
  with spec show pend: "dg_pending_playbacks G' = filter (\<lambda>p. \<not> ack_expired G now p) ?ps"
    unfolding G' by (simp cong: filter_cong)
  show "dg_expired G' = dg_expired G @ ?xs" "dg_results G' = dg_results G"
    "dg_output_epoch G' = dg_output_epoch G" "timeline_ok (dg_timeline G) \<Longrightarrow> timeline_ok (dg_timeline G')"
    using spec unfolding G' by simp_all
  show "b \<longleftrightarrow> (\<exists>p \<in> set ?ps. \<not> ack_expired G now p)" unfolding b pend by (auto simp: filter_empty_conv)
qed


subsection \<open>Runs\<close>

text \<open>One step per mutating method; the caller supplies the clock and \<open>time.monotonic()\<close> readings.\<close>

inductive gate_step :: "DeliveryGate \<Rightarrow> DeliveryGate \<Rightarrow> bool" where
  interrupt: "interrupt G clk why = (e, G') \<Longrightarrow> gate_step G G'"
| user_speech: "gate_step G (note_user_speech G clk mclk at_ms)"
| output_started: "gate_step G (note_model_output_started G clk epoch)"
| output_finished: "gate_step G (note_model_output_finished G clk epoch)"
| output_sent: "gate_step G (note_output_sent G clk mclk pid epoch)"
| playback_ack: "note_playback_ack G clk mclk pid phase epoch src = Inr (b, G') \<Longrightarrow> gate_step G G'"
| draining: "playback_draining G clk now = (b, G') \<Longrightarrow> gate_step G G'"
| take_expired: "take_expired G = (ids, G') \<Longrightarrow> gate_step G G'"
| register: "register G clk rid did = (r, G') \<Longrightarrow> gate_step G G'"
| cancel: "gate_step G (cancel_result G clk rid why)"
| supersede: "gate_step G (supersede G clk rid)"
| delivering: "gate_step G (note_delivering G clk rid)"
| delivered: "gate_step G (note_delivered G clk rid)"
| failed: "gate_step G (note_failed G clk rid why)"
| announce: "may_announce G clk mclks rid timing = (ans, G') \<Longrightarrow> gate_step G G'"

definition gate_reachable :: "SessionTimeline \<Rightarrow> DeliveryGate \<Rightarrow> bool" where
  "gate_reachable T G \<longleftrightarrow> (\<exists>a w G0. DeliveryGate_new T a w = Inr G0 \<and> gate_step\<^sup>*\<^sup>* G0 G)"

lemma gate_ok_cong:
  assumes "gate_ok G" and "dg_results G' = dg_results G" and "dg_output_epoch G' = dg_output_epoch G"
    and "distinct (map fst (dg_pending_playbacks G'))" and "timeline_ok (dg_timeline G')"
  shows "gate_ok G'"
  using assms unfolding gate_ok_def by simp

lemma gate_ok_parts:
  "gate_ok G \<Longrightarrow> distinct (map fst (dg_pending_playbacks G))"
  "gate_ok G \<Longrightarrow> timeline_ok (dg_timeline G)"
  "gate_ok G \<Longrightarrow> distinct (map fst (dg_results G))"
  by (simp_all add: gate_ok_def)

lemma cancel_delivering_ok:
  "gate_ok (G\<lparr>dg_results := []\<rparr>) \<Longrightarrow> distinct (map fst (dg_results G)) \<Longrightarrow>
   timeline_ok (dg_timeline (cancel_delivering clk n rs G)) \<and>
   distinct (map fst (dg_results (cancel_delivering clk n rs G)))"
proof (induction clk n rs G rule: cancel_delivering.induct)
  case (2 clk n rid r rs G)
  have "gate_ok ((transition clk n rid r SCancelled (Some ''interrupted'') G)\<lparr>dg_results := []\<rparr>)"
    using 2(3) by (simp add: gate_ok_def transition_timeline_ok)
  moreover have "distinct (map fst (dg_results (transition clk n rid r SCancelled (Some ''interrupted'') G)))"
    using 2(4) by (simp add: distinct_update)
  ultimately show ?case using 2 by simp
qed (simp add: gate_ok_def)

lemma interrupt_ok:
  assumes ok: "gate_ok G" and i: "interrupt G clk why = (e, G')"
  shows "gate_ok G'"
proof -
  note parts = gate_ok_parts [OF ok] and spec = interrupt_tracked [OF ok i]
  have pend: "distinct (map fst (dg_pending_playbacks G'))"
    unfolding spec(4) using parts(1) by (rule distinct_map_filter)
  have G': "G' = cancel_delivering clk 1 (dg_results G) (advance_epoch G clk why)"
    using i by (auto simp: interrupt_def Let_def)
  have "gate_ok ((advance_epoch G clk why)\<lparr>dg_results := []\<rparr>)"
    using ok by (simp add: gate_ok_def advance_epoch_timeline_ok distinct_map_filter)
  then have "timeline_ok (dg_timeline G') \<and> distinct (map fst (dg_results G'))"
    unfolding G' using parts(3) by (intro cancel_delivering_ok) simp_all
  moreover have "result_ok e p" if "p \<in> set (dg_results G')" for p
  proof -
    obtain k r' where p: "p = (k, r')" by (cases p)
    with that calculation have t': "tracked G' k = Some r'" by (simp add: tracked_def)
    then obtain r where t: "tracked G k = Some r" using spec(5) [of k] by fastforce
    with spec(6) [OF t] t' have "interrupted e r r'" by simp
    with gate_okD [OF ok t] spec(1) show ?thesis
      by (auto simp: p result_ok_def interrupted_def stale_delivery_def split: if_splits)
  qed
  ultimately show ?thesis
    using pend spec(1,2) ok unfolding gate_ok_def by simp
qed


lemma blocked_reason_spec:
  assumes ok: "gate_ok G" and b: "blocked_reason G clk mclks timing = (why, G')"
  shows "gate_ok G'" "dg_results G' = dg_results G" "dg_output_epoch G' = dg_output_epoch G"
    "why = None \<longleftrightarrow> \<not> user_active G (mclks 0) \<and> (timing = ''interrupt'' \<or>
       \<not> dg_model_output_open G \<and> (\<forall>p \<in> set (dg_pending_playbacks G). ack_expired G (mclks 1) p))"
proof -
  note parts = gate_ok_parts [OF ok]
  obtain d G1 where d: "playback_draining G clk (mclks 1) = (d, G1)" by (cases "playback_draining G clk (mclks 1)")
  note spec = draining_spec [OF parts(1) d]
  have G1: "gate_ok G1"
    by (rule gate_ok_cong [OF ok spec(3,4)]) (simp_all add: spec parts distinct_map_filter)
  have "gate_ok G' \<and> dg_results G' = dg_results G \<and> dg_output_epoch G' = dg_output_epoch G"
    using b G1 ok spec(3,4) by (auto simp: blocked_reason_def d simp del: One_nat_def split: if_splits)
  then show "gate_ok G'" "dg_results G' = dg_results G" "dg_output_epoch G' = dg_output_epoch G" by blast+
  show "why = None \<longleftrightarrow> \<not> user_active G (mclks 0) \<and> (timing = ''interrupt'' \<or>
       \<not> dg_model_output_open G \<and> (\<forall>p \<in> set (dg_pending_playbacks G). ack_expired G (mclks 1) p))"
    using b spec(5) by (auto simp: blocked_reason_def d simp del: One_nat_def split: if_splits)
qed

lemma may_announce_ok:
  assumes ok: "gate_ok G" and a: "may_announce G clk mclks rid timing = (ans, G')"
  shows "gate_ok G'"
    "tracked G k = Some r \<Longrightarrow> \<exists>r'. tracked G' k = Some r' \<and> r' = r\<lparr>x_blocked_by := x_blocked_by r'\<rparr> \<and>
      (x_state r \<in> TERMINAL_RESULTS \<longrightarrow> r' = r)"
proof -
  obtain why G1 where b: "blocked_reason G clk mclks timing = (why, G1)" by (cases "blocked_reason G clk mclks timing")
  note spec = blocked_reason_spec [OF ok b]
  have upd: "gate_ok (G1\<lparr>dg_results := AList.update rid (q\<lparr>x_blocked_by := why\<rparr>) (dg_results G1)\<rparr>)"
    if t: "tracked G rid = Some q" for q
  proof -
    have "result_ok (dg_output_epoch G1) (rid, q\<lparr>x_blocked_by := why\<rparr>)"
      using gate_okD [OF ok t] spec(3) by (simp add: result_ok_def)
    then show ?thesis
      using spec(1) set_update [of rid "q\<lparr>x_blocked_by := why\<rparr>" "dg_results G1"]
      unfolding gate_ok_def by (auto simp: distinct_update)
  qed
  show "gate_ok G'"
    using a ok spec(1) upd by (auto simp: may_announce_def b split: option.splits if_splits)
  show "tracked G k = Some r \<Longrightarrow> \<exists>r'. tracked G' k = Some r' \<and> r' = r\<lparr>x_blocked_by := x_blocked_by r'\<rparr> \<and>
      (x_state r \<in> TERMINAL_RESULTS \<longrightarrow> r' = r)"
    using a spec(2) by (auto simp: may_announce_def b tracked_def split: option.splits if_splits)
qed

lemma register_spec:
  assumes "register G clk rid did = (r, G')"
  shows "G' = G \<or> tracked G rid = None \<and> (\<exists>q. x_result_id q = rid \<and> x_epoch q = 0 \<and>
    G' = transition clk 0 rid q SAwaiting None G)"
proof (cases "tracked G rid")
  case None
  define q where "q = \<lparr>x_result_id = rid, x_delivery_id = did, x_epoch = 0, x_state = SResultReady,
    x_blocked_by = None, x_reason = None, x_history = []\<rparr>"
  have "G' = transition clk 0 rid q SAwaiting None G" "x_result_id q = rid" "x_epoch q = 0"
    using assms None by (simp_all add: register_def Let_def q_def)
  with None show ?thesis by blast
qed (use assms in \<open>simp add: register_def\<close>)

lemma gate_step_ok:
  assumes "gate_step G G'" and ok: "gate_ok G"
  shows "gate_ok G'"
  using assms(1)
proof cases
  case (playback_ack clk mclk pid phase epoch src b)
  then show ?thesis
    using ok by (auto simp: note_playback_ack_def Let_def gate_ok_def gate_emit_timeline_ok distinct_update
        delete_filter distinct_map_filter split: if_splits)
next
  case (draining clk now b)
  note spec = draining_spec [OF gate_ok_parts(1) [OF ok] draining]
  show ?thesis
    by (rule gate_ok_cong [OF ok spec(3,4)]) (simp_all add: spec gate_ok_parts [OF ok] distinct_map_filter)
next
  case (register clk rid did r)
  have "0 \<le> dg_output_epoch G" using ok by (simp add: gate_ok_def)
  with register_spec [OF register] ok show ?thesis by (auto intro!: transition_ok)
next
  case (cancel clk rid why)
  then show ?thesis using ok gate_okD [OF ok] by (auto simp: cancel_result_def intro!: move_result_ok)
next
  case (supersede clk rid)
  then show ?thesis using ok gate_okD [OF ok] by (auto simp: supersede_def intro!: move_result_ok)
next
  case (delivering clk rid)
  then show ?thesis using ok gate_okD [OF ok] by (auto simp: note_delivering_def intro!: move_result_ok)
next
  case (delivered clk rid)
  then show ?thesis using ok gate_okD [OF ok] by (auto simp: note_delivered_def intro!: move_result_ok)
next
  case (failed clk rid why)
  then show ?thesis using ok gate_okD [OF ok] by (auto simp: note_failed_def intro!: move_result_ok)
next
  case (interrupt clk why e)
  with ok show ?thesis by (rule interrupt_ok)
next
  case (announce clk mclks rid timing ans)
  with ok show ?thesis by (rule may_announce_ok(1))
qed (use ok in \<open>auto simp: gate_ok_def gate_emit_timeline_ok distinct_update note_user_speech_def
    note_model_output_started_def note_model_output_finished_def note_output_sent_def take_expired_def Let_def\<close>)

lemma gate_run_ok: "gate_step\<^sup>*\<^sup>* G G' \<Longrightarrow> gate_ok G \<Longrightarrow> gate_ok G'"
  by (induction rule: rtranclp_induct) (auto dest: gate_step_ok)

lemma gate_reachable_ok: "gate_reachable T G \<Longrightarrow> timeline_ok T \<Longrightarrow> gate_ok G"
  unfolding gate_reachable_def by (blast dest: gate_new_ok gate_run_ok)

lemma transition_other: "tracked G rid = Some q \<or> tracked G rid = None \<Longrightarrow> k \<noteq> rid \<Longrightarrow>
    tracked (transition clk n rid r s why G) k = tracked G k"
  by (simp add: tracked_def)

lemma move_result_final:
  "tracked G k = Some r \<Longrightarrow> x_state r \<in> TERMINAL_RESULTS \<Longrightarrow> tracked (move_result G clk rid f s why) k = Some r"
  by (auto simp: move_result_def tracked_def split: option.splits)

lemma gate_step_final:
  assumes "gate_step G G'" and ok: "gate_ok G" and t: "tracked G k = Some r" and f: "x_state r \<in> TERMINAL_RESULTS"
  shows "tracked G' k = Some r"
  using assms(1)
proof cases
  case (interrupt clk why e)
  have "x_state r \<noteq> SDelivering" using f by (auto simp: TERMINAL_RESULTS_def)
  with interrupt_tracked(6) [OF ok interrupt t] show ?thesis by (auto simp: interrupted_def stale_delivery_def)
next
  case (playback_ack clk mclk pid phase epoch src b)
  then show ?thesis
    using t by (auto simp: note_playback_ack_def Let_def tracked_def split: if_splits)
next
  case (draining clk now b)
  with draining_spec(3) [OF gate_ok_parts(1) [OF ok]] t show ?thesis by (simp add: tracked_def)
next
  case (register clk rid did q)
  from register_spec [OF this] t show ?thesis by (auto simp: tracked_def)
next
  case (announce clk mclks rid timing ans)
  from may_announce_ok(2) [OF ok announce t] f show ?thesis by auto
qed (use t f in \<open>auto simp: cancel_result_def supersede_def note_delivering_def note_delivered_def note_failed_def
    note_user_speech_def note_model_output_started_def note_model_output_finished_def note_output_sent_def
    take_expired_def Let_def intro: move_result_final, auto simp: tracked_def\<close>)


lemma gate_run_final:
  "gate_step\<^sup>*\<^sup>* G G' \<Longrightarrow> gate_ok G \<Longrightarrow> tracked G k = Some r \<Longrightarrow> x_state r \<in> TERMINAL_RESULTS \<Longrightarrow>
   tracked G' k = Some r"
  by (induction rule: rtranclp_induct) (auto dest: gate_run_ok gate_step_final)

section \<open>Properties\<close>

text \<open>In every state the gate can reach, a result that is being delivered was started in the current
  output epoch; and an interruption opens a strictly newer epoch in which no result is being
  delivered, the model's output is closed and no playback of an older epoch is awaited.\<close>

theorem delivering_is_current:
  assumes T: "timeline_ok T" and r: "gate_reachable T G" and i: "interrupt G clk why = (e, G')"
  shows "(\<forall>k. case tracked G k of Some x \<Rightarrow>
      x_state x \<noteq> SDelivering \<or> x_epoch x = dg_output_epoch G | None \<Rightarrow> True) \<and>
    dg_output_epoch G < e \<and> dg_output_epoch G' = e \<and> \<not> dg_model_output_open G' \<and>
    (\<forall>k. case tracked G' k of Some x \<Rightarrow> x_state x \<noteq> SDelivering | None \<Rightarrow> True) \<and>
    filter (\<lambda>p. fst (snd p) < e) (dg_pending_playbacks G') = []"
proof -
  have ok: "gate_ok G" using r T by (rule gate_reachable_ok)
  note spec = interrupt_tracked [OF ok i]
  have "x_state x \<noteq> SDelivering \<or> x_epoch x = dg_output_epoch G" if "tracked G k = Some x" for k x
    using gate_okD(3) [OF ok that] by blast
  moreover have "x_state x \<noteq> SDelivering" if x: "tracked G' k = Some x" for k x
  proof -
    obtain y where y: "tracked G k = Some y" using spec(5) [of k] x by fastforce
    with spec(6) [OF y] x have "interrupted e y x" by simp
    with gate_okD(2) [OF ok y] spec(1) show ?thesis
      by (auto simp: interrupted_def stale_delivery_def split: if_splits)
  qed
  ultimately show ?thesis
    using spec(1-4) by (auto simp: filter_empty_conv split: option.split)
qed

text \<open>A result that was delivered, cancelled, superseded or has failed is never touched again: its whole
  record, with its epoch, reason and history, is the same after any further calls to the gate, and
  the gate refuses to announce it.\<close>

theorem terminal_result_is_final:
  assumes T: "timeline_ok T" and r: "gate_reachable T G" and run: "gate_step\<^sup>*\<^sup>* G G'"
    and t: "tracked G k = Some x" and f: "x_state x \<in> TERMINAL_RESULTS"
  shows "tracked G' k = Some x \<and>
    may_announce G' clk mclks k timing = ((False, Some (result_state_name (x_state x))), G')"
proof -
  have "tracked G' k = Some x" using run gate_reachable_ok [OF r T] t f by (rule gate_run_final)
  with f show ?thesis by (simp add: may_announce_def)
qed

text \<open>After an interruption a late device acknowledgement for a playback of an older epoch is reported
  as stale and changes nothing but the timeline: no awaited playback, no result, no epoch.\<close>

theorem late_ack_is_ignored:
  assumes i: "interrupt G clk why = (e, G1)" and p: "phase \<in> {''started'', ''finished'', ''cancelled''}"
    and old: "epoch \<le> dg_output_epoch G"
  shows "\<exists>T. note_playback_ack G1 clk' now pid phase (Some epoch) src = Inr (False, G1\<lparr>dg_timeline := T\<rparr>)"
proof -
  have "dg_output_epoch G1 = dg_output_epoch G + 1" using i by (auto simp: interrupt_def Let_def)
  with p old show ?thesis
    by (auto simp: note_playback_ack_def ack_epoch_of_def Let_def gate_emit_def)
qed

text \<open>Checking for drained playback recovers every lost acknowledgement exactly once: a playback is
  given up and reported precisely when its acknowledgement is overdue, every other one stays awaited,
  the answer says whether any is left, no result changes, and the report is handed out once.\<close>

theorem lost_acks_are_recovered_once:
  assumes T: "timeline_ok T" and r: "gate_reachable T G" and d: "playback_draining G clk now = (b, G')"
  shows "dg_pending_playbacks G' = filter (\<lambda>p. \<not> ack_expired G now p) (dg_pending_playbacks G) \<and>
    (b \<longleftrightarrow> dg_pending_playbacks G' \<noteq> []) \<and> dg_results G' = dg_results G \<and>
    fst (take_expired G') = dg_expired G @ map fst (filter (ack_expired G now) (dg_pending_playbacks G)) \<and>
    fst (take_expired (snd (take_expired G'))) = [] \<and>
    playback_draining G' clk' now = (b, G')"
proof -
  have dp: "distinct (map fst (dg_pending_playbacks G))"
    using gate_reachable_ok [OF r T] by (rule gate_ok_parts)
  note spec = draining_spec [OF dp d]
  have "dg_playback_ack_timeout_sec G' = dg_playback_ack_timeout_sec G"
  proof -
    have "dg_playback_ack_timeout_sec (expire_playbacks clk n ps H) = dg_playback_ack_timeout_sec H" for n ps H
      by (induction ps arbitrary: n H) simp_all
    with d show ?thesis by (auto simp: playback_draining_def Let_def)
  qed
  then have "ack_expired G' now = ack_expired G now" by (simp add: ack_expired_def fun_eq_iff)
  then have again: "filter (ack_expired G' now) (dg_pending_playbacks G') = []"
    by (simp add: spec(1) filter_empty_conv)
  show ?thesis
    using spec d again by (auto simp: take_expired_def playback_draining_def Let_def)
qed

text \<open>The gate opens for a result that may still be spoken exactly when the user is silent and either
  the result is urgent, or the model's output is closed and every awaited playback is finished or
  overdue: in particular a lost acknowledgement never blocks delivery past its timeout.  The answer
  records the blocking reason on the result and changes no other result.\<close>

theorem gate_opens_when_quiet:
  assumes T: "timeline_ok T" and r: "gate_reachable T G" and t: "tracked G k = Some x"
    and live: "x_state x \<notin> TERMINAL_RESULTS" and a: "may_announce G clk mclks k timing = ((allowed, why), G')"
  shows "(allowed \<longleftrightarrow> \<not> user_active G (mclks 0) \<and> (timing = ''interrupt'' \<or> \<not> dg_model_output_open G \<and>
      list_all (ack_expired G (mclks 1)) (dg_pending_playbacks G))) \<and> (why = None \<longleftrightarrow> allowed) \<and>
    tracked G' k = Some (x\<lparr>x_blocked_by := why\<rparr>) \<and>
    tracked G' = (tracked G)(k := Some (x\<lparr>x_blocked_by := why\<rparr>))"
proof -
  have ok: "gate_ok G" using r T by (rule gate_reachable_ok)
  obtain y G1 where b: "blocked_reason G clk mclks timing = (y, G1)" by (cases "blocked_reason G clk mclks timing")
  note spec = blocked_reason_spec [OF ok b]
  have "why = y" "allowed \<longleftrightarrow> y = None"
    and G': "G' = G1\<lparr>dg_results := AList.update k (x\<lparr>x_blocked_by := y\<rparr>) (dg_results G1)\<rparr>"
    using a t live by (auto simp: may_announce_def b)
  then show ?thesis
    using spec(2,4) by (auto simp: list_all_iff tracked_def fun_eq_iff)
qed

end
