(* ===== verification/RunWitnesses.thy ===== *)
theory RunWitnesses
  imports Witnesses LedgerInvariant DeliveryGate
begin

text \<open>
  The properties of whole runs, of the session timeline and of the delivery gate, each applied to a
  concrete run on which its hypotheses hold.
\<close>

section \<open>Ledger runs\<close>

text \<open>A run: a project and a task with its contract are created, the task's run starts, and one event
  of it is accepted.\<close>

definition run_project :: TaskLedger where
  "run_project = snd (projr (save_project empty_ledger tick project1))"

definition run_task :: TaskLedger where
  "run_task = snd (projr (save_task run_project tick running1))"

definition done1 :: TaskRecord where
  "done1 = running1\<lparr>t_status := TCompleted, t_active_run_id := None\<rparr>"

definition run_completed :: TaskLedger where
  "run_completed = snd (projr (save_task run_task tick done1))"

definition run_started :: TaskLedger where
  "run_started = snd (projr (save_run run_task tick run1 ''ann''))"

definition run_failed :: TaskLedger where
  "run_failed = snd (projr (save_run run_started tick (run1\<lparr>r_status := RFailed\<rparr>) ''ann''))"

lemma InrI: "(case x of Inl e \<Rightarrow> False | Inr v \<Rightarrow> True) \<Longrightarrow> x = Inr (fst (projr x), snd (projr x))"
  by (cases x) auto

lemma run_steps:
  "ledger_step empty_ledger run_project" "ledger_step run_project run_task"
  "ledger_step run_task run_completed" "ledger_step run_task run_started" "ledger_step run_started run_failed"
proof -
  have t: "TaskRecord_init done1 = Inr done1"
    and r: "RunRecord_init (run1\<lparr>r_status := RFailed\<rparr>) = Inr (run1\<lparr>r_status := RFailed\<rparr>)" by code_simp+
  have "case save_project empty_ledger tick project1 of Inl e \<Rightarrow> False | Inr v \<Rightarrow> True" by code_simp
  from InrI [OF this] show "ledger_step empty_ledger run_project"
    unfolding run_project_def by (blast intro: ledger_step.intros task_step.intros)
  have "case save_task run_project tick running1 of Inl e \<Rightarrow> False | Inr v \<Rightarrow> True" by code_simp
  from InrI [OF this] samples_valid(2) show "ledger_step run_project run_task"
    unfolding run_task_def by (blast intro: ledger_step.intros task_step.intros)
  have "case save_task run_task tick done1 of Inl e \<Rightarrow> False | Inr v \<Rightarrow> True"
    by code_simp
  from InrI [OF this] t show "ledger_step run_task run_completed"
    unfolding run_completed_def by (blast intro: ledger_step.intros task_step.intros)
  have "case save_run run_task tick run1 ''ann'' of Inl e \<Rightarrow> False | Inr v \<Rightarrow> True" by code_simp
  from InrI [OF this] samples_valid(1) show "ledger_step run_task run_started"
    unfolding run_started_def by (blast intro: ledger_step.intros event_step.intros)
  have "case save_run run_started tick (run1\<lparr>r_status := RFailed\<rparr>) ''ann'' of Inl e \<Rightarrow> False | Inr v \<Rightarrow> True"
    by code_simp
  from InrI [OF this] r show "ledger_step run_started run_failed"
    unfolding run_failed_def by (blast intro: ledger_step.intros event_step.intros)
qed

lemma run_reachable: "reachable run_project" "reachable run_task" "reachable run_started" "reachable run_failed"
  using run_steps unfolding reachable_def by (meson rtranclp.rtrancl_into_rtrancl rtranclp.rtrancl_refl)+


lemma finished_run_witness:
  "\<exists>x'. get_run run_failed ''r1'' = Some x' \<and> r_status x' = RFailed \<and> r_generation x' = 1"
proof -
  have g: "get_run run_failed ''r1'' = Some (run1\<lparr>r_status := RFailed\<rparr>)" by code_simp
  from finished_run_stays_finished [OF run_reachable(4) rtranclp.rtrancl_refl this]
  show ?thesis by (auto simp: run1_def)
qed

lemma history_witness:
  "prefix (event_facts run_task) (event_facts run_failed)"
  using history_is_append_only [of run_task run_failed] run_steps
  by (blast intro: rtranclp.rtrancl_into_rtrancl rtranclp.rtrancl_refl)

definition terminal_run :: "nat \<Rightarrow> TaskLedger" where
  "terminal_run i = (if i = 0 then run_task else run_completed)"

lemma terminal_task_witness:
  "t_status done1 = TCompleted \<and> ledger_step (terminal_run 0) (terminal_run 1)"
proof -
  have g: "get_task run_task ''t1'' = Some running1"
    "get_task run_completed ''t1'' = Some done1" by code_simp+
  have "i \<le> 1 \<Longrightarrow> get_task (terminal_run i) ''t1'' =
      Some (if i = 0 then running1 else done1)" for i
    using g by (simp add: terminal_run_def)
  then show ?thesis
    using terminal_task_stays_terminal [of terminal_run 1 "''t1''"
        "\<lambda>i. if i = 0 then running1 else done1" 1]
      run_reachable(2) run_steps(3) by (auto simp: terminal_run_def task_terminal_def done1_def)
qed

definition run_delivered :: TaskLedger where
  "run_delivered = snd (projr (create_delivery_once empty_ledger tick [] delivery1))"

definition run_cancelled :: TaskLedger where
  "run_cancelled = snd (projr (finish_delivery
     (snd (projr (claim_delivery run_delivered tick ''ann'' 100 ''tok''))) tick ''d1'' ''tok'' True))"

lemma delivered_reachable: "reachable run_cancelled"
proof -
  let ?c = "claim_delivery run_delivered tick ''ann'' 100 ''tok''"
  have "case create_delivery_once empty_ledger tick [] delivery1 of Inl e \<Rightarrow> False | Inr v \<Rightarrow> True" by code_simp
  from InrI [OF this] have "ledger_step empty_ledger run_delivered"
    unfolding run_delivered_def
    by (rule ledger_step.deliveries [OF delivery_step.create_delivery])
      (simp add: fresh_delivery_def delivery1_def)
  moreover have "case ?c of Inl e \<Rightarrow> False | Inr v \<Rightarrow> True" by code_simp
  from InrI [OF this] have "ledger_step run_delivered (snd (projr ?c))"
    by (blast intro: ledger_step.intros delivery_step.intros)
  moreover have "case finish_delivery (snd (projr ?c)) tick ''d1'' ''tok'' True of Inl e \<Rightarrow> False | Inr v \<Rightarrow> True"
    by code_simp
  from InrI [OF this] have "ledger_step (snd (projr ?c)) run_cancelled"
    unfolding run_cancelled_def by (blast intro: ledger_step.intros delivery_step.intros)
  ultimately show ?thesis unfolding reachable_def
    by (meson rtranclp.rtrancl_into_rtrancl rtranclp.rtrancl_refl)
qed

text \<open>After the delivery went out, another one is queued and its claims are swept.\<close>

definition run_queued :: TaskLedger where
  "run_queued = snd (projr (create_delivery_once run_cancelled tick ''m2'' delivery2))"

definition run_swept :: TaskLedger where
  "run_swept = snd (requeue_expired_delivery_claims run_queued tick ''ann'')"

lemma later_steps: "ledger_step run_cancelled run_queued" "ledger_step run_queued run_swept"
proof -
  have "case create_delivery_once run_cancelled tick ''m2'' delivery2 of Inl e \<Rightarrow> False | Inr v \<Rightarrow> True" by code_simp
  from InrI [OF this] show "ledger_step run_cancelled run_queued"
    unfolding run_queued_def
    by (rule ledger_step.deliveries [OF delivery_step.create_delivery])
      (simp add: fresh_delivery_def delivery2_def delivery1_def)
  show "ledger_step run_queued run_swept"
    unfolding run_swept_def by (intro ledger_step.deliveries delivery_step.requeue)
qed

lemma ledger_run_session: "ledger_step\<^sup>*\<^sup>* L M \<Longrightarrow> session_run L 0 M"
  by (induction rule: rtranclp_induct) (auto intro: session_run.intros)

lemma settled_delivery_witness:
  "\<exists>d. get_delivery run_cancelled ''d1'' = Some d \<and> d_state d = DDelivered \<and> d_speech_hint d = ''booked'' \<and>
     length (l_deliveries run_cancelled) = 1 \<and> length (l_deliveries run_swept) = 2 \<and>
     get_delivery run_swept ''d1'' = Some d \<and> get_delivery (ledger_clear run_swept) ''d1'' = None"
proof -
  let ?d = "the (get_delivery run_cancelled ''d1'')"
  have d: "get_delivery run_cancelled ''d1'' = Some ?d \<and> d_state ?d = DDelivered \<and> d_speech_hint ?d = ''booked'' \<and>
     length (l_deliveries run_cancelled) = 1 \<and> length (l_deliveries run_swept) = 2"
    by code_simp
  have "session_run empty_ledger 0 run_cancelled"
    using delivered_reachable by (intro ledger_run_session) (simp add: reachable_def)
  moreover have "session_run run_cancelled 0 run_swept"
    using later_steps by (blast intro: session_run.intros)
  ultimately show ?thesis
    using settled_delivery_is_final [of 0 run_cancelled "''d1''" ?d 0 run_swept] d by auto
qed

section \<open>The timeline and the gate\<close>

definition timeline0 :: SessionTimeline where
  "timeline0 = projr (SessionTimeline_new ''s1'' 2)"

lemma timeline0_new: "SessionTimeline_new ''s1'' 2 = Inr timeline0"
  by (simp add: timeline0_def SessionTimeline_new_def)

lemma timeline0_ok: "timeline_ok timeline0"
  by (rule timeline_new_ok [OF timeline0_new])

lemma timeline_witness:
  "\<exists>e T. emit timeline0 7 ''k'' ''c'' [] None None None = Inr (e, T) \<and>
     timeline_snapshot T (Some 1) = [e]"
proof -
  obtain e T where e: "emit timeline0 7 ''k'' ''c'' [] None None None = Inr (e, T)"
    by (simp add: emit_def Let_def)
  have "ring_of [] timeline0"
    by (simp add: ring_of_def timeline0_def SessionTimeline_new_def last_n_def)
  from timeline_refines_log [OF this e, of 1] show ?thesis
    using e by (simp add: timeline0_def SessionTimeline_new_def last_n_def)
qed

definition gate0 :: DeliveryGate where
  "gate0 = projr (DeliveryGate_new timeline0 8 2)"

definition gate1 :: DeliveryGate where
  "gate1 = note_delivering (snd (register gate0 tick ''d1'' None)) tick ''d1''"

definition gate2 :: DeliveryGate where
  "gate2 = note_output_sent gate1 tick 1 ''p1'' None"

definition gate3 :: DeliveryGate where
  "gate3 = note_delivered gate2 tick ''d1''"

lemma gate_runs: "gate_reachable timeline0 gate1" "gate_reachable timeline0 gate2" "gate_reachable timeline0 gate3"
proof -
  have n: "DeliveryGate_new timeline0 8 2 = Inr gate0" by (simp add: gate0_def DeliveryGate_new_def)
  have "gate_step gate0 (snd (register gate0 tick ''d1'' None))"
    by (rule gate_step.register) (rule prod.collapse [symmetric])
  moreover have "gate_step (snd (register gate0 tick ''d1'' None)) gate1"
    unfolding gate1_def by (rule gate_step.delivering)
  moreover have s: "gate_step gate1 gate2" "gate_step gate2 gate3"
    unfolding gate2_def gate3_def by (rule gate_step.intros)+
  ultimately have "gate_step\<^sup>*\<^sup>* gate0 gate1" by (meson rtranclp.rtrancl_into_rtrancl rtranclp.rtrancl_refl)
  with n s show "gate_reachable timeline0 gate1" "gate_reachable timeline0 gate2" "gate_reachable timeline0 gate3"
    unfolding gate_reachable_def by (meson rtranclp.rtrancl_into_rtrancl)+
qed

lemma gate2_fields:
  "dg_pending_playbacks gate2 = [(''p1'', 0, 1)]" "dg_expired gate2 = []" "dg_output_epoch gate2 = 0"
  "dg_playback_ack_timeout_sec gate2 = 8" "dg_user_last_spoke_sec gate2 = None"
  "\<not> dg_model_output_open gate2" "map_option x_state (tracked gate2 ''d1'') = Some SDelivering"
  by (simp_all add: gate0_def gate1_def gate2_def DeliveryGate_new_def note_output_sent_def
      note_delivering_def register_def move_result_def transition_def tracked_def gate_emit_def Let_def
      record_state_def TERMINAL_RESULTS_def)

lemma delivering_witness:
  "fst (interrupt gate2 tick ''barge-in'') = 1 \<and>
   (case tracked gate2 ''d1'' of Some x \<Rightarrow> x_state x = SDelivering | None \<Rightarrow> False) \<and>
   (case tracked (snd (interrupt gate2 tick ''barge-in'')) ''d1'' of
      Some x \<Rightarrow> x_state x \<noteq> SDelivering | None \<Rightarrow> False)"
proof -
  obtain e G' where i: "interrupt gate2 tick ''barge-in'' = (e, G')" by (metis prod.collapse)
  then have e: "e = 1" by (simp add: interrupt_def advance_epoch_def Let_def gate2_fields)
  have "gate_ok gate2" using gate_reachable_ok [OF gate_runs(2) timeline0_ok] .
  with interrupt_tracked(6) [OF this i] gate2_fields(7) have "tracked G' ''d1'' \<noteq> None" by fastforce
  then show ?thesis
    using delivering_is_current [OF timeline0_ok gate_runs(2) i] gate2_fields(7) e
    by (auto simp: i split: option.splits)
qed

lemma terminal_result_witness:
  "\<exists>x. tracked gate3 ''d1'' = Some x \<and>
     may_announce gate3 tick (\<lambda>_. 0) ''d1'' ''interrupt'' = ((False, Some ''delivered''), gate3)"
proof -
  have "case tracked gate3 ''d1'' of Some x \<Rightarrow> x_state x = SDelivered | None \<Rightarrow> False" by code_simp
  then obtain x where x: "tracked gate3 ''d1'' = Some x" "x_state x = SDelivered" by (auto split: option.splits)
  then show ?thesis
    using terminal_result_is_final [OF timeline0_ok gate_runs(3) rtranclp.rtrancl_refl x(1), of tick "\<lambda>_. 0" "''interrupt''"]
    by (simp add: TERMINAL_RESULTS_def)
qed

lemma late_ack_witness:
  "\<exists>T. note_playback_ack (snd (interrupt gate2 tick ''barge-in'')) tick 2 ''p1'' ''finished'' (Some 0) None =
     Inr (False, (snd (interrupt gate2 tick ''barge-in''))\<lparr>dg_timeline := T\<rparr>)"
proof (rule late_ack_is_ignored [where e = "fst (interrupt gate2 tick ''barge-in'')" and G = gate2 and clk = tick])
  show "0 \<le> dg_output_epoch gate2" by (simp add: gate2_fields)
qed simp_all

lemma lost_acks_witness:
  "map fst (dg_pending_playbacks gate2) = [''p1''] \<and> fst (playback_draining gate2 tick 100) = False \<and>
   fst (take_expired (snd (playback_draining gate2 tick 100))) = [''p1'']"
proof -
  obtain b G' where d: "playback_draining gate2 tick 100 = (b, G')" by (metis prod.collapse)
  from lost_acks_are_recovered_once [OF timeline0_ok gate_runs(2) this] show ?thesis
    by (simp add: d gate2_fields ack_expired_def)
qed

lemma gate_opens_witness:
  "fst (may_announce gate2 tick (\<lambda>_. 100) ''d1'' ''safe_pause'') = (True, None)"
proof -
  obtain x where x: "tracked gate2 ''d1'' = Some x" "x_state x = SDelivering" using gate2_fields(7) by auto
  have c: "\<not> user_active gate2 100" "list_all (ack_expired gate2 100) (dg_pending_playbacks gate2)"
    by (simp_all add: user_active_def ack_expired_def gate2_fields)
  obtain b why G' where "may_announce gate2 tick (\<lambda>_. 100) ''d1'' ''safe_pause'' = ((b, why), G')"
    by (metis prod.collapse)
  with gate_opens_when_quiet [OF timeline0_ok gate_runs(2) x(1) _ this] x(2) c show ?thesis
    by (simp add: TERMINAL_RESULTS_def gate2_fields)
qed

end
