(* ===== verification/JsonText.thy ===== *)
theory JsonText
  imports Json "HOL-Library.AList" "HOL-Library.List_Lexorder"
begin

text \<open>
  Text as Unicode code points, the part of Python's \<open>str\<close> and of the standard \<open>json\<close> module that the
  tool protocol uses (runtime/minicpm_ft/mcpmft/tool_protocol.py): \<open>json.dumps\<close> with
  \<open>ensure_ascii=False\<close> and \<open>json.loads\<close>.  The conversion of floats to and from text is the library's
  and a parameter; the constants \<open>NaN\<close>, \<open>Infinity\<close> and \<open>-Infinity\<close>, which \<open>json.loads\<close> accepts though
  JSON has no such values, are \<open>Foreign\<close> to the model.
\<close>

section \<open>Text\<close>

type_synonym ustr = "nat list"

definition u :: "string \<Rightarrow> ustr" where
  "u s = map of_char s"

text \<open>\<open>str.isspace\<close> on one code point, which is also what \<open>\s\<close> matches.\<close>

definition u_space :: "nat \<Rightarrow> bool" where
  "u_space n \<longleftrightarrow> (9 \<le> n \<and> n \<le> 13) \<or> (28 \<le> n \<and> n \<le> 32) \<or> n = 133 \<or> n = 160 \<or> n = 5760 \<or>
     (8192 \<le> n \<and> n \<le> 8202) \<or> n = 8232 \<or> n = 8233 \<or> n = 8239 \<or> n = 8287 \<or> n = 12288"

definition u_rstrip :: "ustr \<Rightarrow> ustr" where
  "u_rstrip s = rev (dropWhile u_space (rev s))"

definition u_strip :: "ustr \<Rightarrow> ustr" where
  "u_strip s = u_rstrip (dropWhile u_space s)"

text \<open>\<open>value.split()\<close>: the maximal runs without white space.\<close>

function (sequential) u_split :: "ustr \<Rightarrow> ustr list" where
  "u_split s =
     (case dropWhile u_space s of
        [] \<Rightarrow> []
      | c # r \<Rightarrow> (c # takeWhile (\<lambda>n. \<not> u_space n) r) # u_split (dropWhile (\<lambda>n. \<not> u_space n) r))"
  by pat_completeness auto
termination
proof (relation "measure length", simp)
  fix s c r assume "dropWhile u_space s = c # r"
  then have "length (c # r) \<le> length s" by (metis length_dropWhile_le)
  then show "(dropWhile (\<lambda>n. \<not> u_space n) r, s) \<in> measure length"
    using length_dropWhile_le [of "\<lambda>n. \<not> u_space n" r] by simp
qed

declare u_split.simps [simp del]

text \<open>\<open>text.partition(sub)\<close>: what stands before and after the first occurrence.\<close>

fun find_sub :: "ustr \<Rightarrow> ustr \<Rightarrow> (ustr \<times> ustr) option" where
  "find_sub p [] = (if p = [] then Some ([], []) else None)"
| "find_sub p (c # s) =
     (if take (length p) (c # s) = p then Some ([], drop (length p) (c # s))
      else map_option (map_prod (Cons c) id) (find_sub p s))"

section \<open>Printing\<close>

definition hex_code :: "nat \<Rightarrow> nat" where
  "hex_code n = (if n < 10 then 48 + n else 87 + n)"

definition esc_char :: "nat \<Rightarrow> ustr" where
  "esc_char n =
     (if n = 34 \<or> n = 92 then [92, n]
      else if n = 10 then u [CHR 0x5C, CHR ''n'']
      else if n = 13 then u [CHR 0x5C, CHR ''r'']
      else if n = 9 then u [CHR 0x5C, CHR ''t'']
      else if n = 12 then u [CHR 0x5C, CHR ''f'']
      else if n = 8 then u [CHR 0x5C, CHR ''b'']
      else if n < 32 then u [CHR 0x5C, CHR ''u'', CHR ''0'', CHR ''0''] @ [hex_code (n div 16), hex_code (n mod 16)]
      else [n])"

definition quote_with :: "(nat \<Rightarrow> ustr) \<Rightarrow> ustr \<Rightarrow> ustr" where
  "quote_with esc s = 34 # concat (map esc s) @ [34]"

text \<open>The separators of \<open>json.dumps\<close>: the default ones and \<open>separators=(",", ":")\<close>.\<close>

definition spaced :: "ustr \<times> ustr" where "spaced = (u '', '', u '': '')"
definition tight :: "ustr \<times> ustr" where "tight = (u '','', u '':'')"

fun dumps_with :: "(nat \<Rightarrow> ustr) \<Rightarrow> (rat \<Rightarrow> ustr) \<Rightarrow> ustr \<times> ustr \<Rightarrow> ustr jsn \<Rightarrow> ustr"
  and dumps_list :: "(nat \<Rightarrow> ustr) \<Rightarrow> (rat \<Rightarrow> ustr) \<Rightarrow> ustr \<times> ustr \<Rightarrow> ustr jsn list \<Rightarrow> ustr list"
  and dumps_pairs :: "(nat \<Rightarrow> ustr) \<Rightarrow> (rat \<Rightarrow> ustr) \<Rightarrow> ustr \<times> ustr \<Rightarrow> (ustr \<times> ustr jsn) list \<Rightarrow> ustr list" where
  "dumps_with esc sf sep JNull = u ''null''"
| "dumps_with esc sf sep (JBool b) = (if b then u ''true'' else u ''false'')"
| "dumps_with esc sf sep (JInt i) = u (int_str i)"
| "dumps_with esc sf sep (JFloat q) = sf q"
| "dumps_with esc sf sep (JStr s) = quote_with esc s"
| "dumps_with esc sf sep (JList xs) = u ''['' @ join_with (fst sep) (dumps_list esc sf sep xs) @ u '']''"
| "dumps_with esc sf sep (JObj kvs) = u ''{'' @ join_with (fst sep) (dumps_pairs esc sf sep kvs) @ u ''}''"
| "dumps_list esc sf sep [] = []"
| "dumps_list esc sf sep (x # xs) = dumps_with esc sf sep x # dumps_list esc sf sep xs"
| "dumps_pairs esc sf sep [] = []"
| "dumps_pairs esc sf sep ((k, v) # kvs) =
     (quote_with esc k @ snd sep @ dumps_with esc sf sep v) # dumps_pairs esc sf sep kvs"

abbreviation dumps :: "(rat \<Rightarrow> ustr) \<Rightarrow> ustr \<times> ustr \<Rightarrow> ustr jsn \<Rightarrow> ustr" where
  "dumps \<equiv> dumps_with esc_char"

text \<open>\<open>sort_keys=True\<close> prints the value with the items of every object in the order of their keys.\<close>

fun sort_keys :: "ustr jsn \<Rightarrow> ustr jsn"
  and sort_keys_list :: "ustr jsn list \<Rightarrow> ustr jsn list"
  and sort_keys_pairs :: "(ustr \<times> ustr jsn) list \<Rightarrow> (ustr \<times> ustr jsn) list" where
  "sort_keys (JList xs) = JList (sort_keys_list xs)"
| "sort_keys (JObj kvs) = JObj (sort_key fst (sort_keys_pairs kvs))"
| "sort_keys JNull = JNull"
| "sort_keys (JBool b) = JBool b"
| "sort_keys (JInt i) = JInt i"
| "sort_keys (JFloat q) = JFloat q"
| "sort_keys (JStr s) = JStr s"
| "sort_keys_list [] = []"
| "sort_keys_list (x # xs) = sort_keys x # sort_keys_list xs"
| "sort_keys_pairs [] = []"
| "sort_keys_pairs ((k, v) # kvs) = (k, sort_keys v) # sort_keys_pairs kvs"

section \<open>Parsing\<close>

datatype 'a parsed = Parsed 'a | Malformed | Foreign | NoFuel

definition pbind :: "'a parsed \<Rightarrow> ('a \<Rightarrow> 'b parsed) \<Rightarrow> 'b parsed" where
  "pbind m f = (case m of Parsed x \<Rightarrow> f x | Malformed \<Rightarrow> Malformed | Foreign \<Rightarrow> Foreign | NoFuel \<Rightarrow> NoFuel)"

fun hex_val :: "nat \<Rightarrow> nat option" where
  "hex_val c =
     (if 48 \<le> c \<and> c \<le> 57 then Some (c - 48)
      else if 97 \<le> c \<and> c \<le> 102 then Some (c - 87)
      else if 65 \<le> c \<and> c \<le> 70 then Some (c - 55) else None)"

definition hex4 :: "ustr \<Rightarrow> nat option" where
  "hex4 s =
     (case map hex_val (take 4 s) of
        [Some w, Some x, Some y, Some z] \<Rightarrow> Some (((w * 16 + x) * 16 + y) * 16 + z)
      | _ \<Rightarrow> None)"

definition simple_escape :: "nat \<Rightarrow> nat option" where
  "simple_escape c =
     (if c = 34 \<or> c = 92 \<or> c = 47 then Some c
      else if c = 98 then Some 8 else if c = 102 then Some 12 else if c = 110 then Some 10
      else if c = 114 then Some 13 else if c = 116 then Some 9 else None)"

text \<open>What follows a backslash; the escapes of a surrogate pair become one code point.\<close>

definition low_surrogate :: "ustr \<Rightarrow> nat option" where
  "low_surrogate s =
     (if take 2 s = [92, 117]
      then (case hex4 (drop 2 s) of
              Some m \<Rightarrow> (if 0xdc00 \<le> m \<and> m \<le> 0xdfff then Some m else None) | None \<Rightarrow> None)
      else None)"

definition scan_escape :: "ustr \<Rightarrow> (nat \<times> ustr) option" where
  "scan_escape s =
     (case s of
        [] \<Rightarrow> None
      | e # r \<Rightarrow>
          (if e = 117 then
             (case hex4 r of
                None \<Rightarrow> None
              | Some n \<Rightarrow>
                  (if 0xd800 \<le> n \<and> n \<le> 0xdbff
                   then (case low_surrogate (drop 4 r) of
                           Some m \<Rightarrow> Some (0x10000 + (n - 0xd800) * 1024 + (m - 0xdc00), drop 10 r)
                         | None \<Rightarrow> Some (n, drop 4 r))
                   else Some (n, drop 4 r)))
           else map_option (\<lambda>n. (n, r)) (simple_escape e)))"

lemma scan_escape_shorter: "scan_escape s = Some (n, r) \<Longrightarrow> length r < length s"
  by (auto simp: scan_escape_def split: list.splits option.splits if_splits)

text \<open>The rest of a string literal after its opening quote.\<close>

function (sequential) scan_string :: "ustr \<Rightarrow> (ustr \<times> ustr) option" where
  "scan_string [] = None"
| "scan_string (c # s) =
     (if c = 34 then Some ([], s)
      else if c = 92 then
        (case scan_escape s of
           None \<Rightarrow> None
         | Some (n, r) \<Rightarrow> map_option (map_prod (Cons n) id) (scan_string r))
      else if c < 32 then None
      else map_option (map_prod (Cons c) id) (scan_string s))"
  by pat_completeness auto
termination
  by (relation "measure length") (auto dest: scan_escape_shorter)

definition is_digit :: "nat \<Rightarrow> bool" where "is_digit n \<longleftrightarrow> 48 \<le> n \<and> n \<le> 57"
definition j_space :: "nat \<Rightarrow> bool" where "j_space n \<longleftrightarrow> n = 32 \<or> n = 9 \<or> n = 10 \<or> n = 13"
definition skip :: "ustr \<Rightarrow> ustr" where "skip s = dropWhile j_space s"

text \<open>\<open>(-?(?:0|[1-9]\d*))(\.\d+)?([eE][-+]?\d+)?\<close>: integer part, fraction, exponent and the rest.\<close>

definition int_part :: "ustr \<Rightarrow> (ustr \<times> ustr) option" where
  "int_part s =
     (case s of
        [] \<Rightarrow> None
      | c # r \<Rightarrow>
          (if c = 48 then Some ([c], r)
           else if is_digit c then Some (takeWhile is_digit s, dropWhile is_digit s)
           else None))"

definition signed_part :: "ustr \<Rightarrow> (ustr \<times> ustr) option" where
  "signed_part s =
     (case s of
        c # r \<Rightarrow> (if c = 45 then map_option (map_prod (Cons 45) id) (int_part r) else int_part s)
      | [] \<Rightarrow> None)"

definition frac_part :: "ustr \<Rightarrow> ustr \<times> ustr" where
  "frac_part s =
     (case s of
        c # d # r \<Rightarrow>
          (if c = 46 \<and> is_digit d then (c # takeWhile is_digit (d # r), dropWhile is_digit (d # r)) else ([], s))
      | _ \<Rightarrow> ([], s))"

definition exp_part :: "ustr \<Rightarrow> ustr \<times> ustr" where
  "exp_part s =
     (case s of
        c # r \<Rightarrow>
          (let sgn = (case r of d # _ \<Rightarrow> if d = 45 \<or> d = 43 then [d] else [] | [] \<Rightarrow> []);
               ds = drop (length sgn) r
           in if (c = 101 \<or> c = 69) \<and> takeWhile is_digit ds \<noteq> []
              then (c # sgn @ takeWhile is_digit ds, dropWhile is_digit ds) else ([], s))
      | [] \<Rightarrow> ([], s))"

definition digits_val :: "ustr \<Rightarrow> int" where
  "digits_val s = foldl (\<lambda>n c. 10 * n + (int c - 48)) 0 s"

definition int_val :: "ustr \<Rightarrow> int" where
  "int_val s = (case s of c # r \<Rightarrow> if c = 45 then - digits_val r else digits_val s | [] \<Rightarrow> 0)"

definition parse_number :: "(ustr \<Rightarrow> rat) \<Rightarrow> ustr \<Rightarrow> (ustr jsn \<times> ustr) parsed" where
  "parse_number rf s =
     (case signed_part s of
        None \<Rightarrow> Malformed
      | Some (i, r) \<Rightarrow>
          (case frac_part r of (f, r1) \<Rightarrow>
             (case exp_part r1 of (e, r2) \<Rightarrow>
                Parsed (if f = [] \<and> e = [] then JInt (int_val i) else JFloat (rf (i @ f @ e)), r2))))"

definition starts :: "string \<Rightarrow> ustr \<Rightarrow> bool" where
  "starts p s \<longleftrightarrow> take (length p) s = u p"

text \<open>\<open>dict(pairs)\<close>: a repeated key keeps its place and takes the last value.\<close>

definition dict_of :: "(ustr \<times> ustr jsn) list \<Rightarrow> (ustr \<times> ustr jsn) list" where
  "dict_of kvs = foldl (\<lambda>d (k, v). AList.update k v d) [] kvs"

text \<open>
  The scanner.  Every character admits at most two nested calls, so that fuel above twice the length
  of the text, with which \<open>loads\<close> starts, is never exhausted (\<open>loads_has_fuel\<close>).
\<close>

fun parse_value :: "(ustr \<Rightarrow> rat) \<Rightarrow> nat \<Rightarrow> ustr \<Rightarrow> (ustr jsn \<times> ustr) parsed"
  and parse_items :: "(ustr \<Rightarrow> rat) \<Rightarrow> nat \<Rightarrow> ustr \<Rightarrow> (ustr jsn list \<times> ustr) parsed"
  and parse_pairs :: "(ustr \<Rightarrow> rat) \<Rightarrow> nat \<Rightarrow> ustr \<Rightarrow> ((ustr \<times> ustr jsn) list \<times> ustr) parsed" where
  "parse_value rf 0 s = NoFuel"
| "parse_value rf (Suc n) s =
     (case s of
        [] \<Rightarrow> Malformed
      | c # r \<Rightarrow>
          (if c = 34 then (case scan_string r of None \<Rightarrow> Malformed | Some (t, r') \<Rightarrow> Parsed (JStr t, r'))
           else if c = 123 then
             (if take 1 (skip r) = u ''}'' then Parsed (JObj [], drop 1 (skip r))
              else pbind (parse_pairs rf n (skip r)) (\<lambda>(kvs, r'). Parsed (JObj (dict_of kvs), r')))
           else if c = 91 then
             (if take 1 (skip r) = u '']'' then Parsed (JList [], drop 1 (skip r))
              else pbind (parse_items rf n (skip r)) (\<lambda>(xs, r'). Parsed (JList xs, r')))
           else if starts ''null'' s then Parsed (JNull, drop 4 s)
           else if starts ''true'' s then Parsed (JBool True, drop 4 s)
           else if starts ''false'' s then Parsed (JBool False, drop 5 s)
           else if starts ''NaN'' s \<or> starts ''Infinity'' s \<or> starts ''-Infinity'' s then Foreign
           else parse_number rf s))"
| "parse_items rf 0 s = NoFuel"
| "parse_items rf (Suc n) s =
     pbind (parse_value rf n s) (\<lambda>(x, r).
       if take 1 (skip r) = u '']'' then Parsed ([x], drop 1 (skip r))
       else if take 1 (skip r) = u '','' then
         pbind (parse_items rf n (skip (drop 1 (skip r)))) (\<lambda>(xs, r'). Parsed (x # xs, r'))
       else Malformed)"
| "parse_pairs rf 0 s = NoFuel"
| "parse_pairs rf (Suc n) s =
     (if take 1 s \<noteq> u [CHR 0x22] then Malformed
      else (case scan_string (drop 1 s) of
        None \<Rightarrow> Malformed
      | Some (k, r) \<Rightarrow>
          (if take 1 (skip r) \<noteq> u '':'' then Malformed
           else pbind (parse_value rf n (skip (drop 1 (skip r)))) (\<lambda>(v, r').
             if take 1 (skip r') = u ''}'' then Parsed ([(k, v)], drop 1 (skip r'))
             else if take 1 (skip r') = u '','' then
               pbind (parse_pairs rf n (skip (drop 1 (skip r')))) (\<lambda>(kvs, r''). Parsed ((k, v) # kvs, r''))
             else Malformed))))"

definition loads :: "(ustr \<Rightarrow> rat) \<Rightarrow> ustr \<Rightarrow> ustr jsn parsed" where
  "loads rf s =
     (if take 1 s = [65279] then Malformed
      else pbind (parse_value rf (Suc (2 * length s)) (skip s)) (\<lambda>(v, r).
        if skip r = [] then Parsed v else Malformed))"

section \<open>Laws\<close>

subsection \<open>Fuel\<close>

lemma pbind_simps [simp]:
  "pbind (Parsed x) f = f x" "pbind Malformed f = Malformed" "pbind Foreign f = Foreign" "pbind NoFuel f = NoFuel"
  by (simp_all add: pbind_def)

lemma skip_length: "length (skip s) \<le> length s"
  by (simp add: skip_def length_dropWhile_le)

lemma scan_string_shorter: "scan_string s = Some (t, r) \<Longrightarrow> length r < length s"
proof (induction s arbitrary: t r rule: scan_string.induct)
  case (2 c s)
  note IH = 2(1,2)
  from 2(3) consider (close) "r = s" | (escape) n s' t' where "scan_escape s = Some (n, s')" "scan_string s' = Some (t', r)" "c = 92"
    | (plain) t' where "scan_string s = Some (t', r)" "c \<noteq> 34" "c \<noteq> 92" "\<not> c < 32"
    by (auto split: if_splits option.splits)
  then show ?case
  proof cases
    case (escape n s' t')
    then have "length s' < length s" by (blast dest: scan_escape_shorter)
    moreover have "length r < length s'" using IH(1) [OF _ _ escape(1) refl escape(2)] escape(3) by simp
    ultimately show ?thesis by simp
  next
    case (plain t')
    then show ?thesis using IH(2) [OF plain(2-4,1)] by simp
  qed simp
qed simp

lemma int_part_shorter: "int_part s = Some (i, r) \<Longrightarrow> length r < length s"
  by (auto simp: int_part_def length_dropWhile_le less_Suc_eq_le split: list.splits if_splits)

lemma signed_part_shorter: "signed_part s = Some (i, r) \<Longrightarrow> length r < length s"
  by (auto simp: signed_part_def split: list.splits if_splits dest: int_part_shorter)

lemma frac_part_le: "frac_part s = (f, r) \<Longrightarrow> length r \<le> length s"
  by (auto simp: frac_part_def split: list.splits if_splits intro: le_trans [OF length_dropWhile_le])

lemma exp_part_le: "exp_part s = (f, r) \<Longrightarrow> length r \<le> length s"
  by (auto simp: exp_part_def Let_def split: list.splits if_splits intro: le_trans [OF length_dropWhile_le])

lemma parse_number_shorter: "parse_number rf s = Parsed (v, r) \<Longrightarrow> length r < length s"
  by (auto simp: parse_number_def split: option.splits prod.splits
      dest!: signed_part_shorter frac_part_le exp_part_le)

lemma parse_number_fuel: "parse_number rf s \<noteq> NoFuel"
  by (auto simp: parse_number_def split: option.splits prod.splits)

lemma pbind_Parsed: "pbind m f = Parsed y \<longleftrightarrow> (\<exists>x. m = Parsed x \<and> f x = Parsed y)"
  by (cases m) auto

lemma pbind_NoFuel: "pbind m f = NoFuel \<longleftrightarrow> m = NoFuel \<or> (\<exists>x. m = Parsed x \<and> f x = NoFuel)"
  by (cases m) auto

lemma drop_skip_le: "length (drop 1 (skip r)) \<le> length r - 1" "length (skip (drop 1 (skip r))) \<le> length r - 1"
  using skip_length [of r] skip_length [of "drop 1 (skip r)"] by auto

lemma parse_shorter:
  "parse_value rf n s = Parsed p \<Longrightarrow> length (snd p) < length s"
  "parse_items rf n s = Parsed q \<Longrightarrow> length (snd q) < length s"
  "parse_pairs rf n s = Parsed w \<Longrightarrow> length (snd w) < length s"
proof (induction n arbitrary: s p q w)
  case (Suc n)
  { case 1
    show ?case
    proof (cases s)
      case (Cons c r)
      have "length (skip r) < length s" using skip_length [of r] Cons by simp
      then show ?thesis
        using 1 Suc(2) [of "skip r"] Suc(3) [of "skip r"] parse_number_shorter [of rf s "fst p" "snd p"]
          scan_string_shorter [of r] drop_skip_le [of r]
        unfolding parse_value.simps Cons list.case
        by (cases p) (auto simp: pbind_Parsed split: if_splits option.splits; fastforce)
    qed (use 1 in simp)
  next
    case 2
    then obtain x r where x: "parse_value rf n s = Parsed (x, r)" by (auto simp: pbind_Parsed)
    have "length r < length s" using Suc(1) [OF x] by simp
    then show ?case
      using 2 x Suc(2) [of "skip (drop 1 (skip r))"] drop_skip_le [of r]
      by (force simp: pbind_Parsed split: if_splits)
  next
    case 3
    then obtain k r where k: "take 1 s = u [CHR 0x22]" "scan_string (drop 1 s) = Some (k, r)"
        "take 1 (skip r) = u '':''"
      by (auto split: if_splits option.splits)
    with 3 obtain v r' where v: "parse_value rf n (skip (drop 1 (skip r))) = Parsed (v, r')"
      by (auto simp: pbind_Parsed)
    have "length r' < length s"
      using Suc(1) [OF v] scan_string_shorter [OF k(2)] drop_skip_le [of r] by simp
    then show ?case
      using 3 k v Suc(3) [of "skip (drop 1 (skip r'))"] drop_skip_le [of r']
      by (force simp: pbind_Parsed split: if_splits) }
qed simp_all

lemma parse_has_fuel:
  "2 * length s < n \<Longrightarrow> parse_value rf n s \<noteq> NoFuel"
  "Suc (2 * length s) < n \<Longrightarrow> parse_items rf n s \<noteq> NoFuel"
  "2 * length s < n \<Longrightarrow> parse_pairs rf n s \<noteq> NoFuel"
proof (induction n arbitrary: s)
  case (Suc n)
  { case 1
    then show ?case
    proof (cases s)
      case (Cons c r)
      have "length (skip r) \<le> length r" by (rule skip_length)
      with 1 Cons have "Suc (2 * length (skip r)) < n" by simp
      then have "parse_items rf n (skip r) \<noteq> NoFuel" "parse_pairs rf n (skip r) \<noteq> NoFuel"
        using Suc(2,3) [of "skip r"] by simp_all
      then show ?thesis
        by (auto simp: Cons pbind_NoFuel parse_number_fuel split: option.split)
    qed simp
  next
    case 2
    then have x: "parse_value rf n s \<noteq> NoFuel" using Suc(1) [of s] by simp
    have "parse_items rf n (skip (drop 1 (skip r))) \<noteq> NoFuel" if "parse_value rf n s = Parsed (v, r)" for v r
      using Suc(2) [of "skip (drop 1 (skip r))"] 2 parse_shorter(1) [OF that] drop_skip_le [of r] by simp
    with x show ?case by (auto simp: pbind_NoFuel)
  next
    case 3
    have "parse_value rf n (skip (drop 1 (skip r))) \<noteq> NoFuel \<and>
        (\<forall>v r'. parse_value rf n (skip (drop 1 (skip r))) = Parsed (v, r') \<longrightarrow>
          parse_pairs rf n (skip (drop 1 (skip r'))) \<noteq> NoFuel)"
      if "scan_string (drop 1 s) = Some (k, r)" for k r
    proof -
      have r: "2 * length (skip (drop 1 (skip r))) < n"
        using 3 scan_string_shorter [OF that] drop_skip_le [of r] by simp
      have "parse_pairs rf n (skip (drop 1 (skip r'))) \<noteq> NoFuel"
        if "parse_value rf n (skip (drop 1 (skip r))) = Parsed (v, r')" for v r'
        using Suc(3) [of "skip (drop 1 (skip r'))"] r parse_shorter(1) [OF that] drop_skip_le [of r'] by simp
      with Suc(1) [OF r] show ?thesis by blast
    qed
    then show ?case by (auto simp: pbind_NoFuel split: option.split) }
qed simp_all

lemma loads_has_fuel: "loads rf s \<noteq> NoFuel"
proof -
  have "2 * length (skip s) < Suc (2 * length s)" using skip_length [of s] by simp
  then have "parse_value rf (Suc (2 * length s)) (skip s) \<noteq> NoFuel" by (rule parse_has_fuel)
  then show ?thesis by (auto simp add: loads_def pbind_NoFuel simp del: parse_value.simps)
qed

end
