(* ===== verification/JsonRoundtrip.thy ===== *)
theory JsonRoundtrip
  imports JsonText
begin

text \<open>
  What \<open>json.loads\<close> owes \<open>json.dumps\<close>: every printable value is read back from its text, whatever spelling of
  the characters the scanner accepts and whatever white space follows the separators.  The contract
  of a spelling is the locale \<open>char_escape\<close>; it is interpreted on the spelling of \<open>json.dumps\<close> here
  and on the one with escaped angle brackets in the tool protocol.
\<close>


subsection \<open>Numbers\<close>

lemma u_simps [simp]: "u [] = []" "u (c # s) = of_char c # u s" "u (s @ t) = u s @ u t" "length (u s) = length s"
  by (simp_all add: u_def)

definition stops :: "ustr \<Rightarrow> bool" where
  "stops r \<longleftrightarrow> (case r of [] \<Rightarrow> True | c # _ \<Rightarrow> \<not> is_digit c \<and> c \<noteq> 46 \<and> c \<noteq> 101 \<and> c \<noteq> 69)"

lemma digits_codes: "\<forall>c \<in> set (u (digits n)). is_digit c"
proof (induction n rule: digits.induct)
  case (1 n)
  have "n mod 10 < 10" by simp
  with 1 show ?case
    by (subst digits.simps) (auto simp: is_digit_def of_char_of)
qed

lemma digits_val_snoc: "digits_val (s @ [c]) = 10 * digits_val s + (int c - 48)"
  by (simp add: digits_val_def)

lemma digits_val_digits: "digits_val (u (digits n)) = int n"
proof (induction n rule: digits.induct)
  case (1 n)
  show ?case
  proof (cases "n < 10")
    case True
    then show ?thesis by (subst digits.simps) (simp add: digits_val_def of_char_of)
  next
    case False
    have "digits n = digits (n div 10) @ [char_of (48 + n mod 10)]" using False by (subst digits.simps) simp
    moreover have "digits_val (u (digits (n div 10))) = int (n div 10)" using 1 False by blast
    ultimately show ?thesis by (simp add: digits_val_snoc of_char_of) presburger
  qed
qed

lemma digits_leading: "n \<noteq> 0 \<Longrightarrow> \<exists>c r. u (digits n) = c # r \<and> is_digit c \<and> c \<noteq> 48"
proof (induction n rule: digits.induct)
  case (1 n)
  show ?case
  proof (cases "n < 10")
    case True
    then show ?thesis using 1(2) by (subst digits.simps) (simp add: is_digit_def of_char_of)
  next
    case False
    then have "digits n = digits (n div 10) @ [char_of (48 + n mod 10)]" by (subst digits.simps) simp
    moreover have "n div 10 \<noteq> 0" using False by simp
    ultimately show ?thesis using 1(1) [OF False] by fastforce
  qed
qed

lemma digits_0 [simp]: "digits 0 = ''0''"
  by (subst digits.simps) (simp add: char_of_eq_iff)

lemma digits_head: "\<exists>c t. u (digits n) = c # t \<and> is_digit c"
  using digits_leading [of n] by (cases "n = 0") (auto simp: is_digit_def)

lemma take_digits:
  "\<forall>c \<in> set s. is_digit c \<Longrightarrow> stops r \<Longrightarrow> takeWhile is_digit (s @ r) = s \<and> dropWhile is_digit (s @ r) = r"
  by (induction s) (auto simp: stops_def split: list.splits)

lemma int_part_digits: "stops r \<Longrightarrow> int_part (u (digits n) @ r) = Some (u (digits n), r)"
proof (cases "n = 0")
  case False
  assume r: "stops r"
  obtain c t where ct: "u (digits n) = c # t" "is_digit c" "c \<noteq> 48" using digits_leading [OF False] by blast
  have "takeWhile is_digit (u (digits n) @ r) = u (digits n) \<and> dropWhile is_digit (u (digits n) @ r) = r"
    using digits_codes r by (rule take_digits)
  with ct show ?thesis by (simp add: int_part_def)
qed (simp add: int_part_def)

lemma signed_part_int:
  assumes "stops r"
  shows "signed_part (u (int_str i) @ r) = Some (u (int_str i), r)"
proof (cases "i < 0")
  case True
  then show ?thesis using int_part_digits [OF assms, of "nat (- i)"] by (simp add: signed_part_def int_str_def)
next
  case False
  obtain c t where "u (digits (nat i)) = c # t" "is_digit c" using digits_head by blast
  then show ?thesis
    using False int_part_digits [OF assms, of "nat i"] by (simp add: signed_part_def int_str_def is_digit_def)
qed

lemma stops_parts: "stops r \<Longrightarrow> frac_part r = ([], r) \<and> exp_part r = ([], r)"
  by (auto simp: stops_def frac_part_def exp_part_def Let_def split: list.splits)

lemma int_val_int: "int_val (u (int_str i)) = i"
proof (cases "i < 0")
  case True
  then show ?thesis using digits_val_digits [of "nat (- i)"] by (simp add: int_val_def int_str_def)
next
  case False
  obtain c t where "u (digits (nat i)) = c # t" "is_digit c" using digits_head by blast
  then show ?thesis
    using False digits_val_digits [of "nat i"] by (simp add: int_val_def int_str_def is_digit_def)
qed

lemma parse_number_int: "stops r \<Longrightarrow> parse_number rf (u (int_str i) @ r) = Parsed (JInt i, r)"
  by (simp add: parse_number_def signed_part_int stops_parts int_val_int)

lemma int_head: "\<exists>c t. u (int_str i) = c # t \<and> (is_digit c \<or> c = 45)"
  using digits_head [of "nat i"] by (auto simp: int_str_def)

subsection \<open>Float literals\<close>

text \<open>
  A text of the JSON grammar of numbers, from end to end, with a fraction or an exponent: what
  \<open>float.__repr__\<close> gives for a finite float.
\<close>

definition float_literal :: "ustr \<Rightarrow> bool" where
  "float_literal s =
     (case signed_part s of
        None \<Rightarrow> False
      | Some (i, x) \<Rightarrow>
          (case frac_part x of (f, y) \<Rightarrow> (case exp_part y of (e, z) \<Rightarrow> z = [] \<and> (f \<noteq> [] \<or> e \<noteq> []))))"

lemma stops_none: "stops r \<Longrightarrow> takeWhile is_digit r = [] \<and> dropWhile is_digit r = r"
  by (cases r) (simp_all add: stops_def)

lemma digits_append:
  "stops r \<Longrightarrow> takeWhile is_digit (s @ r) = takeWhile is_digit s \<and> dropWhile is_digit (s @ r) = dropWhile is_digit s @ r"
  by (induction s) (simp_all add: stops_none)

lemma is_digit_0 [simp]: "is_digit 48"
  by (simp add: is_digit_def)

lemma takeWhile_digits: "c \<in> set (takeWhile is_digit s) \<Longrightarrow> is_digit c"
  by (drule set_takeWhileD) simp

lemma int_part_append:
  assumes "stops r" and "int_part s = Some (i, x)"
  shows "int_part (s @ r) = Some (i, x @ r) \<and> i @ x = s \<and> (\<forall>c \<in> set i. is_digit c) \<and> i \<noteq> []"
proof (cases s)
  case (Cons c t)
  then show ?thesis
    using assms(2) digits_append [OF assms(1), of t]
    by (auto simp: int_part_def dest: takeWhile_digits split: if_splits)
qed (use assms in \<open>simp add: int_part_def\<close>)

lemma signed_part_append:
  assumes "stops r" and "signed_part s = Some (i, x)"
  shows "signed_part (s @ r) = Some (i, x @ r) \<and> i @ x = s \<and> (\<forall>c \<in> set i. is_digit c \<or> c = 45)"
    and "\<exists>c t. s = c # t \<and> (is_digit c \<or> c = 45 \<and> (\<exists>d t'. t = d # t' \<and> is_digit d))"
proof -
  obtain c t where s: "s = c # t" using assms(2) by (cases s) (auto simp: signed_part_def)
  have "\<exists>j. int_part (if c = 45 then t else s) = Some (j, x) \<and> i = (if c = 45 then 45 # j else j)"
    using assms(2) by (auto simp: signed_part_def s split: if_splits)
  then obtain j where j: "int_part (if c = 45 then t else s) = Some (j, x)" "i = (if c = 45 then 45 # j else j)"
    by blast
  note p = int_part_append [OF assms(1) j(1)]
  then show "signed_part (s @ r) = Some (i, x @ r) \<and> i @ x = s \<and> (\<forall>c \<in> set i. is_digit c \<or> c = 45)"
    by (auto simp: signed_part_def s j(2) split: if_splits)
  obtain d j' where "j = d # j'" "is_digit d" using p by (cases j) auto
  with p have "(if c = 45 then t else s) = d # j' @ x" "is_digit d" by (metis append_Cons)+
  then show "\<exists>c t. s = c # t \<and> (is_digit c \<or> c = 45 \<and> (\<exists>d t'. t = d # t' \<and> is_digit d))"
    by (cases "c = 45") (auto simp: s)
qed

lemma frac_part_append:
  assumes "stops r" and "frac_part x = (f, y)"
  shows "frac_part (x @ r) = (f, y @ r) \<and> f @ y = x \<and> (\<forall>c \<in> set f. is_digit c \<or> c = 46)"
proof -
  consider "x = []" | c where "x = [c]" | c d t where "x = c # d # t" by (cases x rule: remdups_adj.cases) auto
  then show ?thesis
  proof cases
    case 1
    then show ?thesis using assms stops_parts [OF assms(1)] by (simp add: frac_part_def)
  next
    case 2
    then show ?thesis using assms by (cases r) (auto simp: frac_part_def stops_def)
  next
    case 3
    then show ?thesis
      using assms(2) digits_append [OF assms(1), of t]
      by (auto simp: frac_part_def dest: takeWhile_digits split: if_splits)
  qed
qed

lemma exp_part_append:
  assumes "stops r" and "exp_part y = (e, [])"
  shows "exp_part (y @ r) = (e, r) \<and> e = y \<and> (\<forall>c \<in> set e. is_digit c \<or> c \<in> {43, 45, 69, 101})"
proof (cases y)
  case Nil
  then show ?thesis using assms stops_parts [OF assms(1)] by (simp add: exp_part_def)
next
  case (Cons c t)
  then obtain d t' where t: "t = d # t'" using assms(2) by (cases t) (simp_all add: exp_part_def)
  then show ?thesis
    using assms(2) Cons digits_append [OF assms(1), of t'] digits_append [OF assms(1), of "d # t'"]
    by (auto simp: exp_part_def Let_def dest: takeWhile_digits split: if_splits)
qed

lemma float_literalE:
  assumes "float_literal s" and "stops r"
  obtains "parse_number rf (s @ r) = Parsed (JFloat (rf s), r)"
    "\<exists>c t. s = c # t \<and> (is_digit c \<or> c = 45 \<and> (\<exists>d t'. t = d # t' \<and> is_digit d))"
    "\<forall>c \<in> set s. is_digit c \<or> c \<in> {43, 45, 46, 69, 101}"
proof -
  obtain i x f y e where p: "signed_part s = Some (i, x)" "frac_part x = (f, y)" "exp_part y = (e, [])"
    and fe: "f \<noteq> [] \<or> e \<noteq> []"
    using assms(1) by (auto simp: float_literal_def split: option.splits prod.splits)
  note q = signed_part_append [OF assms(2) p(1)] frac_part_append [OF assms(2) p(2)] exp_part_append [OF assms(2) p(3)]
  have s: "i @ f @ e = s" using q by auto
  show ?thesis
  proof
    show "parse_number rf (s @ r) = Parsed (JFloat (rf s), r)" using q fe s by (simp add: parse_number_def)
    show "\<forall>c \<in> set s. is_digit c \<or> c \<in> {43, 45, 46, 69, 101}" using q unfolding s [symmetric] by auto
  qed (rule q(2))
qed

text \<open>The two functions of the library agree on a float: its text is a literal and denotes it.\<close>

definition float_kept :: "(rat \<Rightarrow> ustr) \<Rightarrow> (ustr \<Rightarrow> rat) \<Rightarrow> rat \<Rightarrow> bool" where
  "float_kept sf rf q = (float_literal (sf q) \<and> rf (sf q) = q)"

lemma float_kept_chars: "float_kept sf rf q \<Longrightarrow> \<forall>c \<in> set (sf q). is_digit c \<or> c \<in> {43, 45, 46, 69, 101}"
  by (rule float_literalE [of "sf q" "[]"]) (simp_all add: float_kept_def stops_def)

subsection \<open>Values that survive printing\<close>

text \<open>
  Floats that \<open>repr\<close> and \<open>float\<close> carry over, which Python promises for every finite one, and no repeated
  keys, which a dict does not have.
\<close>

fun printable :: "(rat \<Rightarrow> ustr) \<Rightarrow> (ustr \<Rightarrow> rat) \<Rightarrow> ustr jsn \<Rightarrow> bool"
  and printable_list :: "(rat \<Rightarrow> ustr) \<Rightarrow> (ustr \<Rightarrow> rat) \<Rightarrow> ustr jsn list \<Rightarrow> bool"
  and printable_pairs :: "(rat \<Rightarrow> ustr) \<Rightarrow> (ustr \<Rightarrow> rat) \<Rightarrow> (ustr \<times> ustr jsn) list \<Rightarrow> bool" where
  "printable sf rf JNull = True"
| "printable sf rf (JBool b) = True"
| "printable sf rf (JInt i) = True"
| "printable sf rf (JFloat q) = float_kept sf rf q"
| "printable sf rf (JStr s) = True"
| "printable sf rf (JList xs) = printable_list sf rf xs"
| "printable sf rf (JObj kvs) = (distinct (map fst kvs) \<and> printable_pairs sf rf kvs)"
| "printable_list sf rf [] = True"
| "printable_list sf rf (x # xs) = (printable sf rf x \<and> printable_list sf rf xs)"
| "printable_pairs sf rf [] = True"
| "printable_pairs sf rf ((k, v) # kvs) = (printable sf rf v \<and> printable_pairs sf rf kvs)"

lemma dict_of_distinct:
  "distinct (map fst kvs) \<Longrightarrow> dict_of kvs = kvs"
proof -
  have upd: "k \<notin> fst ` set d \<Longrightarrow> AList.update k v d = d @ [(k, v)]" for k :: ustr and v :: "ustr jsn" and d
    by (induction d) auto
  have "distinct (map fst (d @ kvs)) \<Longrightarrow> foldl (\<lambda>d (k, v). AList.update k v d) d kvs = d @ kvs" for d
  proof (induction kvs arbitrary: d)
    case (Cons kv kvs)
    then show ?case using Cons.IH [of "d @ [kv]"] by (cases kv) (auto simp: upd image_iff)
  qed simp
  from this [of "[]"] show "distinct (map fst kvs) \<Longrightarrow> dict_of kvs = kvs" by (simp add: dict_of_def)
qed


subsection \<open>Round trip\<close>

definition sep_ok :: "ustr \<times> ustr \<Rightarrow> bool" where
  "sep_ok sep \<longleftrightarrow> (\<exists>w1 w2. sep = (44 # w1, 58 # w2) \<and> (\<forall>c \<in> set (w1 @ w2). j_space c))"

lemma sep_ok [simp]: "sep_ok spaced" "sep_ok tight"
  by (auto simp: sep_ok_def spaced_def tight_def j_space_def)

text \<open>The first character of a printed value tells it from the end of a list or an object.\<close>

definition solid :: "ustr \<Rightarrow> bool" where
  "solid s \<longleftrightarrow> (case s of [] \<Rightarrow> False | c # _ \<Rightarrow> \<not> j_space c \<and> c \<noteq> 93 \<and> c \<noteq> 125 \<and> c < 65279)"

lemma skip_solid: "solid s \<Longrightarrow> skip (s @ r) = s @ r"
  by (cases s) (simp_all add: solid_def skip_def)

lemma skip_Cons [simp]: "skip (c # r) = (if j_space c then skip r else c # r)"
  by (simp add: skip_def)

lemma skip_space: "\<forall>c \<in> set w. j_space c \<Longrightarrow> skip (w @ s) = skip s"
  by (induction w) (simp_all add: skip_def)

lemma solid_quote: "solid (quote_with esc s @ r)"
  by (simp add: solid_def j_space_def quote_with_def)

lemma float_kept_head:
  assumes "float_kept sf rf q"
  shows "\<exists>c t. sf q = c # t \<and> (is_digit c \<or> c = 45 \<and> (\<exists>d t'. t = d # t' \<and> is_digit d))"
  using float_literalE [of "sf q" "[]"] assms by (auto simp: float_kept_def stops_def)

lemma solid_dumps: "printable sf rf v \<Longrightarrow> solid (dumps_with esc sf sep v @ r)"
  using int_head [of "case v of JInt i \<Rightarrow> i | _ \<Rightarrow> 0"]
  by (cases v) (auto simp: solid_def j_space_def quote_with_def is_digit_def dest!: float_kept_head)

lemma solid_take: "solid s \<Longrightarrow> take 1 s \<noteq> [93] \<and> take 1 s \<noteq> [125]"
  by (cases s) (simp_all add: solid_def)

lemma stops_end: "stops (93 # r)" "stops (125 # r)" "stops (44 # r)"
  by (simp_all add: stops_def is_digit_def)

lemma join_first: "\<exists>t. join_with sep (x # xs) = x @ t"
  by (cases xs) auto

lemma solid_join: "(\<And>r. solid (x @ r)) \<Longrightarrow> solid (join_with sep (x # xs) @ r)"
  using join_first [of sep x xs] by auto

lemma join_Cons: "xs \<noteq> [] \<Longrightarrow> join_with sep (x # xs) = x @ sep @ join_with sep xs"
  by (cases xs) auto

text \<open>
  Any way of writing the characters of a literal that the scanner reads back: the law of the spelling
  is what a printer owes the parser.
\<close>

locale char_escape =
  fixes esc :: "nat \<Rightarrow> ustr"
  assumes scan_esc: "scan_string (esc c @ r) = map_option (map_prod (Cons c) id) (scan_string r)"
begin

lemma scan_literal: "scan_string (concat (map esc s) @ 34 # r) = Some (s, r)"
  by (induction s) (simp_all add: scan_esc)

lemma quote_scan: "\<exists>t. quote_with esc s @ r = 34 # t \<and> scan_string t = Some (s, r)"
  by (simp add: quote_with_def scan_literal)

lemma parse_scalar:
  "parse_value rf (Suc n) (quote_with esc s @ r) = Parsed (JStr s, r)"
  "parse_value rf (Suc n) (u ''null'' @ r) = Parsed (JNull, r)"
  "parse_value rf (Suc n) (u ''true'' @ r) = Parsed (JBool True, r)"
  "parse_value rf (Suc n) (u ''false'' @ r) = Parsed (JBool False, r)"
  by (simp_all add: starts_def quote_with_def scan_literal)

lemma parse_value_number:
  assumes "is_digit c \<or> c = 45" and "\<not> starts ''-Infinity'' (c # t)"
  shows "parse_value rf (Suc n) (c # t) = parse_number rf (c # t)"
proof -
  have c: "c \<noteq> 34" "c \<noteq> 123" "c \<noteq> 91" "c \<noteq> 110" "c \<noteq> 116" "c \<noteq> 102" "c \<noteq> 78" "c \<noteq> 73"
    using assms(1) by (auto simp: is_digit_def)
  then have "\<not> starts ''null'' (c # t)" "\<not> starts ''true'' (c # t)" "\<not> starts ''false'' (c # t)"
    "\<not> starts ''NaN'' (c # t)" "\<not> starts ''Infinity'' (c # t)"
    by (simp_all add: starts_def)
  with c assms(2) show ?thesis unfolding parse_value.simps list.case by (simp only: if_False simp_thms)
qed

lemma parse_int:
  assumes "stops r"
  shows "parse_value rf (Suc n) (u (int_str i) @ r) = Parsed (JInt i, r)"
proof -
  obtain c t where ct: "u (int_str i) = c # t" "is_digit c \<or> c = 45" using int_head by blast
  have "\<not> starts ''-Infinity'' (u (int_str i) @ r)"
  proof (cases "i < 0")
    case True
    obtain d t' where "u (digits (nat (- i))) = d # t'" "is_digit d" using digits_head by blast
    with True show ?thesis by (auto simp: starts_def int_str_def is_digit_def)
  next
    case False
    obtain d t' where "u (digits (nat i)) = d # t'" "is_digit d" using digits_head by blast
    with False show ?thesis by (auto simp: starts_def int_str_def is_digit_def)
  qed
  then show ?thesis
    using parse_value_number [OF ct(2), of "t @ r"] parse_number_int [OF assms, of rf i] by (simp only: ct append_Cons not_False_eq_True True_implies_equals)
qed

lemma parse_float:
  assumes "stops r" and "float_kept sf rf q"
  shows "parse_value rf (Suc n) (sf q @ r) = Parsed (JFloat q, r)"
proof -
  obtain c t where ct: "sf q = c # t" and head: "is_digit c \<or> c = 45 \<and> (\<exists>d t'. t = d # t' \<and> is_digit d)"
    using float_kept_head [OF assms(2)] by blast
  then have "\<not> starts ''-Infinity'' (c # t @ r)" by (auto simp: starts_def is_digit_def)
  with head have "parse_value rf (Suc n) (sf q @ r) = parse_number rf (sf q @ r)"
    unfolding ct append_Cons by (intro parse_value_number) auto
  also have "\<dots> = Parsed (JFloat q, r)"
    using assms by (auto simp: float_kept_def elim: float_literalE [where rf = rf])
  finally show ?thesis .
qed

text \<open>What the parser owes the printer, for values, the items of a list and the items of an object.\<close>

definition reads :: "(rat \<Rightarrow> ustr) \<Rightarrow> (ustr \<Rightarrow> rat) \<Rightarrow> ustr \<times> ustr \<Rightarrow> ustr jsn \<Rightarrow> bool" where
  "reads sf rf sep v \<longleftrightarrow> (\<forall>n r. stops r \<longrightarrow> 2 * length (dumps_with esc sf sep v @ r) < n \<longrightarrow>
     parse_value rf n (dumps_with esc sf sep v @ r) = Parsed (v, r))"

definition reads_items :: "(rat \<Rightarrow> ustr) \<Rightarrow> (ustr \<Rightarrow> rat) \<Rightarrow> ustr \<times> ustr \<Rightarrow> ustr jsn list \<Rightarrow> bool" where
  "reads_items sf rf sep xs \<longleftrightarrow> (\<forall>n r.
     Suc (2 * length (join_with (fst sep) (dumps_list esc sf sep xs) @ 93 # r)) < n \<longrightarrow>
     parse_items rf n (join_with (fst sep) (dumps_list esc sf sep xs) @ 93 # r) = Parsed (xs, r))"

definition reads_pairs :: "(rat \<Rightarrow> ustr) \<Rightarrow> (ustr \<Rightarrow> rat) \<Rightarrow> ustr \<times> ustr \<Rightarrow> (ustr \<times> ustr jsn) list \<Rightarrow> bool" where
  "reads_pairs sf rf sep kvs \<longleftrightarrow> (\<forall>n r.
     2 * length (join_with (fst sep) (dumps_pairs esc sf sep kvs) @ 125 # r) < n \<longrightarrow>
     parse_pairs rf n (join_with (fst sep) (dumps_pairs esc sf sep kvs) @ 125 # r) = Parsed (kvs, r))"

lemma solid_items:
  "printable_list sf rf (x # xs) \<Longrightarrow> solid (join_with (fst sep) (dumps_list esc sf sep (x # xs)) @ r)"
  by (auto simp del: join_with.simps intro!: solid_join solid_dumps)

lemma solid_pairs: "solid (join_with (fst sep) (dumps_pairs esc sf sep (kv # kvs)) @ r)"
  by (cases kv) (auto simp del: join_with.simps append_Cons simp: solid_quote intro!: solid_join)

lemma solid_skip: "solid s \<Longrightarrow> \<forall>c \<in> set w. j_space c \<Longrightarrow> skip (w @ s) = s"
  using skip_solid [of s "[]"] by (simp add: skip_space)

lemma readsI:
  assumes "\<And>m r. stops r \<Longrightarrow> parse_value rf (Suc m) (dumps_with esc sf sep v @ r) = Parsed (v, r)"
  shows "reads sf rf sep v"
  unfolding reads_def
proof (intro allI impI)
  fix n r
  assume "stops r" and "2 * length (dumps_with esc sf sep v @ r) < n"
  then show "parse_value rf n (dumps_with esc sf sep v @ r) = Parsed (v, r)"
    using assms by (cases n) simp_all
qed

lemma reads_scalar:
  "reads sf rf sep JNull" "reads sf rf sep (JBool b)" "reads sf rf sep (JInt i)" "reads sf rf sep (JStr s)"
  by (rule readsI; cases b; simp only: dumps_with.simps if_True if_False parse_scalar parse_int)+

lemma reads_float: "float_kept sf rf q \<Longrightarrow> reads sf rf sep (JFloat q)"
  by (rule readsI) (simp only: dumps_with.simps parse_float)

lemma reads_JList:
  assumes "printable_list sf rf xs" and "xs \<noteq> [] \<Longrightarrow> reads_items sf rf sep xs"
  shows "reads sf rf sep (JList xs)"
  unfolding reads_def
proof (intro allI impI)
  fix n and r :: ustr assume n: "2 * length (dumps_with esc sf sep (JList xs) @ r) < n"
  then obtain m where m: "n = Suc m" by (cases n) auto
  show "parse_value rf n (dumps_with esc sf sep (JList xs) @ r) = Parsed (JList xs, r)"
  proof (cases xs)
    case (Cons x ys)
    let ?T = "join_with (fst sep) (dumps_list esc sf sep xs) @ 93 # r"
    have sol: "solid ?T" using assms(1) unfolding Cons by (rule solid_items)
    have "parse_items rf m ?T = Parsed (xs, r)" using assms(2) n Cons by (simp add: reads_items_def m)
    then show ?thesis using solid_skip [OF sol, of "[]"] solid_take [OF sol] by (simp add: m)
  qed (simp add: m j_space_def)
qed

lemma reads_JObj:
  assumes "distinct (map fst kvs)" and "kvs \<noteq> [] \<Longrightarrow> reads_pairs sf rf sep kvs"
  shows "reads sf rf sep (JObj kvs)"
  unfolding reads_def
proof (intro allI impI)
  fix n and r :: ustr assume n: "2 * length (dumps_with esc sf sep (JObj kvs) @ r) < n"
  then obtain m where m: "n = Suc m" by (cases n) auto
  show "parse_value rf n (dumps_with esc sf sep (JObj kvs) @ r) = Parsed (JObj kvs, r)"
  proof (cases kvs)
    case (Cons kv ys)
    let ?T = "join_with (fst sep) (dumps_pairs esc sf sep kvs) @ 125 # r"
    have sol: "solid ?T" unfolding Cons by (rule solid_pairs)
    have "parse_pairs rf m ?T = Parsed (kvs, r)" using assms(2) n Cons by (simp add: reads_pairs_def m)
    then show ?thesis
      using solid_skip [OF sol, of "[]"] solid_take [OF sol] assms(1) by (simp add: m dict_of_distinct)
  qed (simp add: m j_space_def)
qed

lemma reads_items_Cons:
  assumes sep: "fst sep = 44 # w" "\<forall>c \<in> set w. j_space c" and p: "printable_list sf rf (x # xs)"
    and x: "reads sf rf sep x" and xs: "xs \<noteq> [] \<Longrightarrow> reads_items sf rf sep xs"
  shows "reads_items sf rf sep (x # xs)"
  unfolding reads_items_def
proof (intro allI impI)
  fix n r
  let ?J = "join_with (fst sep) (dumps_list esc sf sep xs) @ 93 # r"
  let ?R = "if xs = [] then 93 # r else 44 # w @ ?J"
  have T: "join_with (fst sep) (dumps_list esc sf sep (x # xs)) @ 93 # r = dumps_with esc sf sep x @ ?R"
    using sep(1) by (cases xs) simp_all
  assume n: "Suc (2 * length (join_with (fst sep) (dumps_list esc sf sep (x # xs)) @ 93 # r)) < n"
  then obtain m where m: "n = Suc m" by (cases n) auto
  have len: "2 * length (dumps_with esc sf sep x @ ?R) < m" using n unfolding T m by simp
  then have v: "parse_value rf m (dumps_with esc sf sep x @ ?R) = Parsed (x, ?R)"
    using x by (simp add: reads_def stops_end)
  have "xs = [] \<or> skip (w @ ?J) = ?J \<and> parse_items rf m ?J = Parsed (xs, r)"
    using p solid_skip [OF solid_items [where rf = rf] sep(2)] xs len
    by (cases xs) (auto simp: reads_items_def simp del: join_with.simps dumps_list.simps)
  then show "parse_items rf n (join_with (fst sep) (dumps_list esc sf sep (x # xs)) @ 93 # r) = Parsed (x # xs, r)"
    using v unfolding T m by (auto simp: j_space_def)
qed

lemma reads_pairs_Cons:
  assumes sep: "fst sep = 44 # w" "\<forall>c \<in> set w. j_space c" "snd sep = 58 # w'" "\<forall>c \<in> set w'. j_space c"
    and p: "printable sf rf v" and v: "reads sf rf sep v" and kvs: "kvs \<noteq> [] \<Longrightarrow> reads_pairs sf rf sep kvs"
  shows "reads_pairs sf rf sep ((k, v) # kvs)"
  unfolding reads_pairs_def
proof (intro allI impI)
  fix n r
  let ?J = "join_with (fst sep) (dumps_pairs esc sf sep kvs) @ 125 # r"
  let ?R = "if kvs = [] then 125 # r else 44 # w @ ?J"
  let ?V = "dumps_with esc sf sep v @ ?R"
  have T: "join_with (fst sep) (dumps_pairs esc sf sep ((k, v) # kvs)) @ 125 # r = quote_with esc k @ 58 # w' @ ?V"
    using sep(1,3) by (cases kvs; cases "hd kvs") simp_all
  assume n: "2 * length (join_with (fst sep) (dumps_pairs esc sf sep ((k, v) # kvs)) @ 125 # r) < n"
  then obtain m where m: "n = Suc m" by (cases n) auto
  obtain t where t: "quote_with esc k @ 58 # w' @ ?V = 34 # t" "scan_string t = Some (k, 58 # w' @ ?V)"
    using quote_scan by blast
  have len: "2 * length ?V < m" using n unfolding T m by (simp add: quote_with_def)
  have V: "skip (w' @ ?V) = ?V" by (rule solid_skip [OF solid_dumps [OF p] sep(4)])
  have x: "parse_value rf m ?V = Parsed (v, ?R)" using v len by (simp add: reads_def stops_end)
  have "kvs = [] \<or> skip (w @ ?J) = ?J \<and> parse_pairs rf m ?J = Parsed (kvs, r)"
    using solid_skip [OF solid_pairs sep(2)] kvs len
    by (cases kvs) (auto simp: reads_pairs_def simp del: join_with.simps dumps_pairs.simps)
  then show "parse_pairs rf n (join_with (fst sep) (dumps_pairs esc sf sep ((k, v) # kvs)) @ 125 # r) =
      Parsed ((k, v) # kvs, r)"
    using x V t unfolding T m by (auto simp: j_space_def)
qed

lemma reads_printable:
  assumes "sep_ok sep"
  shows "printable sf rf v \<Longrightarrow> reads sf rf sep v" "printable_list sf rf xs \<Longrightarrow> xs \<noteq> [] \<Longrightarrow> reads_items sf rf sep xs"
    "printable_pairs sf rf kvs \<Longrightarrow> kvs \<noteq> [] \<Longrightarrow> reads_pairs sf rf sep kvs"
proof -
  obtain w w' where sep: "fst sep = 44 # w" "\<forall>c \<in> set w. j_space c" "snd sep = 58 # w'" "\<forall>c \<in> set w'. j_space c"
    using assms by (auto simp: sep_ok_def)
  have "printable sf rf v \<longrightarrow> reads sf rf sep v" "printable_list sf rf xs \<longrightarrow> xs \<noteq> [] \<longrightarrow> reads_items sf rf sep xs"
    "printable_pairs sf rf kvs \<longrightarrow> kvs \<noteq> [] \<longrightarrow> reads_pairs sf rf sep kvs"
    by (induction sf rf v and sf rf xs and sf rf kvs rule: printable_printable_list_printable_pairs.induct)
      (auto intro: reads_scalar reads_float reads_JList reads_JObj reads_items_Cons [OF sep(1,2)] reads_pairs_Cons [OF sep])
  then show "printable sf rf v \<Longrightarrow> reads sf rf sep v" "printable_list sf rf xs \<Longrightarrow> xs \<noteq> [] \<Longrightarrow> reads_items sf rf sep xs"
    "printable_pairs sf rf kvs \<Longrightarrow> kvs \<noteq> [] \<Longrightarrow> reads_pairs sf rf sep kvs" by blast+
qed

text \<open>The round trip of a document.\<close>

lemma loads_dumps:
  assumes "printable sf rf v" and "sep_ok sep"
  shows "loads rf (dumps_with esc sf sep v) = Parsed v"
proof -
  let ?T = "dumps_with esc sf sep v"
  have sol: "solid ?T" using solid_dumps [OF assms(1), of esc sep "[]"] by simp
  have "parse_value rf (Suc (2 * length ?T)) (?T @ []) = Parsed (v, [])"
    by (rule reads_printable(1) [OF assms(2,1), unfolded reads_def, rule_format]) (simp_all add: stops_def)
  moreover have "take 1 ?T \<noteq> [65279]" using sol by (auto simp: solid_def split: list.splits)
  moreover have "skip ?T = ?T" using solid_skip [OF sol, of "[]"] by simp
  moreover have "skip [] = []" by (simp add: skip_def)
  ultimately show ?thesis unfolding loads_def by (simp del: parse_value.simps)
qed

end


subsection \<open>The spelling of \<open>json.dumps\<close>, with and without escaped openers\<close>

lemma hex_val_code: "d < 16 \<Longrightarrow> hex_val (hex_code d) = Some d"
  by (auto simp: hex_code_def)

lemma scan_unicode_escape:
  assumes "n < 256"
  shows "scan_string (u [CHR 0x5C, CHR ''u'', CHR ''0'', CHR ''0''] @ [hex_code (n div 16), hex_code (n mod 16)] @ r) =
    map_option (map_prod (Cons n) id) (scan_string r)"
proof -
  have "hex4 (48 # 48 # hex_code (n div 16) # hex_code (n mod 16) # r) = Some n"
  proof -
    have "take 4 (48 # 48 # hex_code (n div 16) # hex_code (n mod 16) # r) =
        [48, 48, hex_code (n div 16), hex_code (n mod 16)]" by simp
    moreover have "hex_val 48 = Some 0" by simp
    moreover have "n div 16 < 16" using assms by simp
    ultimately show ?thesis
      using hex_val_code [of "n div 16"] hex_val_code [of "n mod 16"]
      by (simp add: hex4_def del: hex_val.simps)
  qed
  then have "scan_escape (117 # 48 # 48 # hex_code (n div 16) # hex_code (n mod 16) # r) = Some (n, r)"
    using assms by (simp add: scan_escape_def)
  then show ?thesis by (simp add: map_option.compositionality)
qed

lemma scan_esc_char: "scan_string (esc_char c @ r) = map_option (map_prod (Cons c) id) (scan_string r)"
proof (cases "c < 32 \<and> c \<notin> {8, 9, 10, 12, 13}")
  case True
  then have e: "esc_char c = u [CHR 0x5C, CHR ''u'', CHR ''0'', CHR ''0''] @ [hex_code (c div 16), hex_code (c mod 16)]"
    by (auto simp: esc_char_def)
  show ?thesis using scan_unicode_escape [of c r] True unfolding e by simp
next
  case False
  then show ?thesis by (auto simp: esc_char_def scan_escape_def simple_escape_def)
qed

interpretation json_literal: char_escape esc_char
  by unfold_locales (rule scan_esc_char)

end
