(* ===== verification/TaskNames.thy ===== *)
theory TaskNames
  imports JsonRoundtrip
begin

text \<open>
  Names of background tasks (runtime/minicpm_ft/mcpmft/tool_protocol.py): what the front brain may
  call a task, and the search for a name no other task has.  The search is a loop without a bound,
  so it is a partial function; \<open>assign_returns\<close> shows that it returns.
\<close>

section \<open>Operations\<close>

definition TASK_NAME_MAX_CHARS :: nat where
  "TASK_NAME_MAX_CHARS = 60"

text \<open>The full-width colon has code point 65306.\<close>

definition reserved :: "nat \<Rightarrow> bool" where
  "reserved c \<longleftrightarrow> c = 13 \<or> c = 10 \<or> c = 58 \<or> c = 65306"

definition normalize_frontbrain_task_name :: "ustr jsn \<Rightarrow> ustr res" where
  "normalize_frontbrain_task_name value =
     (case value of
        JStr s \<Rightarrow>
          (if \<exists>c \<in> set s. reserved c then Inl (ValueError ''task_start name contains a reserved character'')
           else let normalized = join_with [32] (u_split s) in
             if normalized = [] then Inl (ValueError ''task_start name must not be empty'')
             else if length normalized > TASK_NAME_MAX_CHARS
             then Inl (ValueError ''task_start name exceeds 60 characters'')
             else Inr normalized)
      | _ \<Rightarrow> Inl (ValueError ''task_start name must be a string''))"

definition name_candidate :: "ustr \<Rightarrow> nat \<Rightarrow> ustr" where
  "name_candidate stem index =
     (let suffix = u (digits index);
          available = max 1 (TASK_NAME_MAX_CHARS - length suffix)
      in u_rstrip (take available stem) @ suffix)"

partial_function (option) free_name :: "ustr \<Rightarrow> ustr set \<Rightarrow> nat \<Rightarrow> ustr option" where
  "free_name stem existing index =
     (if name_candidate stem index \<notin> existing then Some (name_candidate stem index)
      else free_name stem existing (index + 1))"

definition assign_frontbrain_task_name :: "ustr jsn \<Rightarrow> ustr set \<Rightarrow> ustr res option" where
  "assign_frontbrain_task_name value existing =
     (case normalize_frontbrain_task_name value of
        Inl e \<Rightarrow> Some (Inl e)
      | Inr stem \<Rightarrow>
          (if stem \<notin> existing then Some (Inr stem) else map_option Inr (free_name stem existing 2)))"

section \<open>Laws\<close>

lemma free_name_stops:
  assumes "name_candidate stem (i + k) \<notin> existing"
  shows "\<exists>j. i \<le> j \<and> j \<le> i + k \<and> free_name stem existing i = Some (name_candidate stem j) \<and>
    name_candidate stem j \<notin> existing"
  using assms
proof (induction k arbitrary: i)
  case 0
  then show ?case by (subst free_name.simps) auto
next
  case (Suc k)
  show ?case
  proof (cases "name_candidate stem i \<in> existing")
    case True
    from Suc.prems have "name_candidate stem ((i + 1) + k) \<notin> existing" by simp
    from Suc.IH [OF this] obtain j where "i + 1 \<le> j" "j \<le> i + 1 + k"
      "free_name stem existing (i + 1) = Some (name_candidate stem j)" "name_candidate stem j \<notin> existing"
      by blast
    moreover have "free_name stem existing i = free_name stem existing (i + 1)"
      using True by (subst free_name.simps) simp
    ultimately show ?thesis by (intro exI [of _ j]) auto
  qed (subst free_name.simps, auto)
qed

text \<open>Numbers with the same count of digits share the stem before them, so their names differ.\<close>

lemma digits_length: "0 < n \<Longrightarrow> 10 ^ k \<le> n \<Longrightarrow> n < 10 ^ Suc k \<Longrightarrow> length (digits n) = Suc k"
proof (induction n arbitrary: k rule: digits.induct)
  case (1 n)
  show ?case
  proof (cases "n < 10")
    case True
    have "(10::nat) \<le> 10 ^ Suc m" for m by simp
    with 1(3) True have "k = 0" by (cases k) (auto dest: le_less_trans)
    with True show ?thesis by (subst digits.simps) simp
  next
    case False
    then obtain m where k: "k = Suc m" using 1(4) by (cases k) auto
    have "digits n = digits (n div 10) @ [char_of (48 + n mod 10)]" using False by (subst digits.simps) simp
    moreover have "length (digits (n div 10)) = Suc m"
      by (rule 1(1)) (use False 1(3,4) k in \<open>auto simp: less_mult_imp_div_less\<close>)
    ultimately show ?thesis by (simp add: k)
  qed
qed

lemma digits_length_le: "n < 10 ^ Suc k \<Longrightarrow> length (digits n) \<le> Suc k"
proof (induction n arbitrary: k rule: digits.induct)
  case (1 n)
  show ?case
  proof (cases "n < 10")
    case True
    then show ?thesis by (subst digits.simps) simp
  next
    case False
    then obtain m where k: "k = Suc m" using 1(2) by (cases k) auto
    have "digits n = digits (n div 10) @ [char_of (48 + n mod 10)]" using False by (subst digits.simps) simp
    moreover have "length (digits (n div 10)) \<le> Suc m"
      by (rule 1(1)) (use False 1(2) k in \<open>auto simp: less_mult_imp_div_less\<close>)
    ultimately show ?thesis by (simp add: k)
  qed
qed

lemma candidate_inj: "inj_on (name_candidate stem) {10 ^ k..<10 ^ Suc k}"
proof (rule inj_onI)
  fix m n :: nat
  assume m: "m \<in> {10 ^ k..<10 ^ Suc k}" and n: "n \<in> {10 ^ k..<10 ^ Suc k}"
    and eq: "name_candidate stem m = name_candidate stem n"
  have len: "length (digits j) = Suc k" if "j \<in> {10 ^ k..<10 ^ Suc k}" for j :: nat
    using that by (intro digits_length) (auto intro: less_le_trans [of 0 "10 ^ k"])
  then have "u (digits m) = u (digits n)"
    using eq m n by (simp add: name_candidate_def Let_def)
  then have "int m = int n" using digits_val_digits by metis
  then show "m = n" by simp
qed

lemma free_candidate:
  assumes "finite existing" and "card existing < 10 ^ k"
  shows "\<exists>i. 10 ^ k \<le> i \<and> i < 10 ^ Suc k \<and> name_candidate stem i \<notin> existing"
proof (rule ccontr)
  assume none: "\<not> ?thesis"
  let ?I = "{10 ^ k..<10 ^ Suc k} :: nat set"
  have "name_candidate stem ` ?I \<subseteq> existing" using none by auto
  then have "card (name_candidate stem ` ?I) \<le> card existing" using assms(1) by (rule card_mono [rotated])
  moreover have "card (name_candidate stem ` ?I) = 10 ^ Suc k - 10 ^ k"
    using card_image [OF candidate_inj] by simp
  ultimately show False using assms(2) by simp
qed

lemma candidate_length:
  assumes "length (digits i) \<le> 59"
  shows "length (name_candidate stem i) \<le> 60" "name_candidate stem i \<noteq> []"
proof -
  have "length (u_rstrip s) \<le> length s" for s
    using length_dropWhile_le [of u_space "rev s"] by (simp add: u_rstrip_def)
  from this [of "take (max 1 (60 - length (digits i))) stem"] assms show "length (name_candidate stem i) \<le> 60"
    by (simp add: name_candidate_def Let_def TASK_NAME_MAX_CHARS_def) linarith
  show "name_candidate stem i \<noteq> []"
    using digits_head [of i] by (auto simp: name_candidate_def Let_def)
qed

lemma normalize_ok:
  "normalize_frontbrain_task_name value = Inr name \<Longrightarrow> name \<noteq> [] \<and> length name \<le> 60"
  by (auto simp: normalize_frontbrain_task_name_def Let_def TASK_NAME_MAX_CHARS_def
      split: jsn.splits if_splits)

section \<open>Properties\<close>

text \<open>C37: Assigning a task name always returns.  Whatever value the model proposes and whatever finite set of
  names is taken, the search for a free name ends; the answer is the error of an unusable proposal,
  or a name that is not taken and not empty; and unless astronomically many names are taken it keeps
  to the limit of sixty characters.\<close>

theorem assign_returns:
  assumes "finite existing"
  shows "\<exists>r. assign_frontbrain_task_name value existing = Some r \<and>
    (case r of
       Inl e \<Rightarrow> normalize_frontbrain_task_name value = Inl e
     | Inr name \<Rightarrow> name \<notin> existing \<and> name \<noteq> [] \<and> (card existing < 10 ^ 58 \<longrightarrow> length name \<le> 60))"
proof (cases "normalize_frontbrain_task_name value")
  case (Inr stem)
  show ?thesis
  proof (cases "stem \<in> existing")
    case True
    define k where "k = (if card existing < 10 ^ 58 then 58 else card existing)"
    have "card existing < 2 ^ card existing" by (rule less_exp)
    also have "\<dots> \<le> 10 ^ card existing" by (rule power_mono) simp_all
    finally have "card existing < 10 ^ k" by (simp add: k_def)
    then obtain i where i: "10 ^ k \<le> i" "i < 10 ^ Suc k" "name_candidate stem i \<notin> existing"
      using free_candidate assms by blast
    have "(2::nat) \<le> 10 ^ k"
      using True assms by (cases k) (auto simp: k_def split: if_splits)
    with i(1) have "2 \<le> i" by simp
    then obtain d where d: "i = 2 + d" using le_Suc_ex by blast
    then obtain j where j: "j \<le> i" "free_name stem existing 2 = Some (name_candidate stem j)"
      "name_candidate stem j \<notin> existing" using free_name_stops [of stem 2 d existing] i(3) by blast
    have "name_candidate stem j \<noteq> []" using digits_head [of j] by (auto simp: name_candidate_def Let_def)
    moreover have "length (name_candidate stem j) \<le> 60" if "card existing < 10 ^ 58"
    proof (rule candidate_length)
      have "j < 10 ^ Suc 58" using j(1) i(2) that by (simp add: k_def)
      then show "length (digits j) \<le> 59" using digits_length_le [of j 58] by simp
    qed
    ultimately show ?thesis
      using Inr True j by (simp add: assign_frontbrain_task_name_def)
  qed (use Inr normalize_ok [OF Inr] in \<open>simp add: assign_frontbrain_task_name_def\<close>)
qed (simp add: assign_frontbrain_task_name_def)

end
