(* ===== verification/ToolProtocol.thy ===== *)
theory ToolProtocol
  imports JsonRoundtrip
begin

text \<open>
  The tool-call protocol of the front brain (runtime/minicpm_ft/mcpmft/tool_protocol.py): tool schemas,
  tool calls, their framing in \<open><tool_call>\<close> spans and the parser of generated text.

  What the code takes from Python is bundled in \<open>pylib\<close>: the text of floats and back, \<open>str\<close> of a
  value that is not a string, \<open>int\<close> of a string and \<open>re.search\<close> (\<open>None\<close> for \<open>re.error\<close>).  A mapping is
  a JSON object.  \<open>ToolProtocolError\<close> keeps the fixed text of the message and drops the printed
  operands; \<open>Uncaught\<close> is an exception of Python itself, \<open>Unmodelled\<close> a text with one of the constants
  \<open>NaN\<close> and \<open>Infinity\<close>.
\<close>

section \<open>Errors and library functions\<close>

datatype tool_error = ToolProtocolError string | Uncaught py_error | Unmodelled

type_synonym 'a tool_res = "tool_error + 'a"

record pylib =
  show_float :: "rat \<Rightarrow> ustr"
  read_float :: "ustr \<Rightarrow> rat"
  py_str :: "ustr jsn \<Rightarrow> ustr"
  py_int_of :: "ustr \<Rightarrow> int option"
  re_search :: "ustr \<Rightarrow> ustr \<Rightarrow> bool option"

definition tbind :: "'a tool_res \<Rightarrow> ('a \<Rightarrow> 'b tool_res) \<Rightarrow> 'b tool_res" where
  "tbind m f = (case m of Inl e \<Rightarrow> Inl e | Inr x \<Rightarrow> f x)"

fun tmap :: "('a \<Rightarrow> 'b tool_res) \<Rightarrow> 'a list \<Rightarrow> 'b list tool_res" where
  "tmap f [] = Inr []"
| "tmap f (x # xs) = tbind (f x) (\<lambda>y. tbind (tmap f xs) (\<lambda>ys. Inr (y # ys)))"

text \<open>Python's truth value, \<open>value.get(key)\<close> and \<open>value.get(key) or default\<close>.\<close>

fun truthy :: "ustr jsn \<Rightarrow> bool" where
  "truthy JNull = False"
| "truthy (JBool b) = b"
| "truthy (JInt i) = (i \<noteq> 0)"
| "truthy (JFloat q) = (q \<noteq> 0)"
| "truthy (JStr s) = (s \<noteq> [])"
| "truthy (JList xs) = (xs \<noteq> [])"
| "truthy (JObj kvs) = (kvs \<noteq> [])"

definition get :: "(ustr \<times> ustr jsn) list \<Rightarrow> string \<Rightarrow> ustr jsn" where
  "get kvs k = (case map_of kvs (u k) of None \<Rightarrow> JNull | Some v \<Rightarrow> v)"

definition get_or :: "(ustr \<times> ustr jsn) list \<Rightarrow> string \<Rightarrow> ustr jsn \<Rightarrow> ustr jsn" where
  "get_or kvs k d = (if truthy (get kvs k) then get kvs k else d)"

section \<open>Protocol text\<close>

definition TOOL_CALL_START :: ustr where "TOOL_CALL_START = u ''<tool_call>''"
definition TOOL_CALL_END :: ustr where "TOOL_CALL_END = u ''</tool_call>''"
definition TOOL_RESPONSE_START :: ustr where "TOOL_RESPONSE_START = u ''<tool_response>''"
definition TOOL_RESPONSE_END :: ustr where "TOOL_RESPONSE_END = u ''</tool_response>''"
definition MAX_TOOL_CALLS_PER_UNIT :: int where "MAX_TOOL_CALLS_PER_UNIT = 4"

definition LEAN_TASK_START_SCHEMA :: "ustr jsn" where
  "LEAN_TASK_START_SCHEMA =
   JObj
     [(u ''name'', JStr (u ''task_start'')),
      (u ''description'', JStr [29992, 24403, 21069, 29992, 25143, 21407, 35805, 26032, 24314,
            19968, 20010, 21518, 21488, 20219, 21153, 12290, 110, 97, 109, 101, 32, 26159, 31616,
            30701, 35821, 20041, 21517, 31216, 44, 20165, 29992, 20110, 20219, 21153, 21015,
            34920, 23637, 31034, 21644, 24341, 29992, 59, 23436, 25972, 20219, 21153, 20869,
            23481, 30001, 32, 82, 117, 110, 116, 105, 109, 101, 32, 32465, 23450, 24403, 21069,
            29992, 25143, 32, 116, 117, 114, 110, 12290]),
      (u ''parameters'', JObj
         [(u ''type'', JStr (u ''object'')),
          (u ''properties'', JObj
             [(u ''name'', JObj
                 [(u ''type'', JStr (u ''string'')),
                  (u ''minLength'', JInt 1),
                  (u ''maxLength'', JInt 60),
                  (u ''pattern'', JStr [94, 91, 94, 92, 114, 92, 110, 58, 65306, 93, 43, 36]),
                  (u ''description'', JStr [20415, 20110, 29992, 25143, 21518, 32493, 24341,
                        29992, 30340, 31616, 30701, 35821, 20041, 20219, 21153, 21517, 44, 19981,
                        26159, 29992, 25143, 21407, 35805, 25110, 20219, 21153, 25351, 20196,
                        12290])])]),
          (u ''required'', JList [JStr (u ''name'')]),
          (u ''additionalProperties'', JBool False)])]"

definition LEAN_TASK_SEND_SCHEMA :: "ustr jsn" where
  "LEAN_TASK_SEND_SCHEMA =
   JObj
     [(u ''name'', JStr (u ''task_send'')),
      (u ''description'', JStr [25226, 24403, 21069, 29992, 25143, 21407, 35805, 36865, 32473,
            24050, 26377, 20219, 21153, 12290, 109, 97, 105, 110, 32, 20250, 25913, 21464, 25110,
            22238, 31572, 20027, 20219, 21153, 59, 102, 111, 114, 107, 32, 26159, 21482, 35835,
            20391, 38382, 44, 19981, 24471, 25913, 21464, 25110, 38459, 26029, 20027, 20219,
            21153, 12290]),
      (u ''parameters'', JObj
         [(u ''type'', JStr (u ''object'')),
          (u ''additionalProperties'', JBool False),
          (u ''required'', JList [JStr (u ''lane'')]),
          (u ''properties'', JObj
             [(u ''task'', JObj
                 [(u ''type'', JList [JStr (u ''string''), JStr (u ''null'')]),
                  (u ''description'', JStr [24403, 21069, 20219, 21153, 21015, 34920, 20013,
                        30340, 20219, 21153, 21517, 59, 20165, 19968, 20010, 27963, 36291, 20219,
                        21153, 26102, 21487, 30465, 30053, 12290])]),
              (u ''lane'', JObj
                 [(u ''type'', JStr (u ''string'')),
                  (u ''enum'', JList [JStr (u ''main''), JStr (u ''fork'')]),
                  (u ''description'', JStr [109, 97, 105, 110, 32, 25913, 21464, 20027, 20219,
                        21153, 59, 102, 111, 114, 107, 32, 21482, 35835, 19988, 19981, 38459,
                        26029, 12290])])])])]"

definition LEAN_TASK_RESOLVE_SCHEMA :: "ustr jsn" where
  "LEAN_TASK_RESOLVE_SCHEMA =
   JObj
     [(u ''name'', JStr (u ''task_resolve'')),
      (u ''description'', JStr [23545, 24050, 26377, 20219, 21153, 25191, 34892, 30001, 32, 82,
            117, 110, 116, 105, 109, 101, 32, 24378, 21046, 30340, 21462, 28040, 25110, 26435,
            38480, 20915, 23450, 12290]),
      (u ''parameters'', JObj
         [(u ''type'', JStr (u ''object'')),
          (u ''additionalProperties'', JBool False),
          (u ''required'', JList [JStr (u ''action'')]),
          (u ''properties'', JObj
             [(u ''task'', JObj
                 [(u ''type'', JList [JStr (u ''string''), JStr (u ''null'')]),
                  (u ''description'', JStr [24403, 21069, 20219, 21153, 21015, 34920, 20013,
                        30340, 20219, 21153, 21517, 59, 20165, 32, 99, 97, 110, 99, 101, 108, 32,
                        21487, 20351, 29992, 32, 97, 108, 108, 59, 20165, 19968, 20010, 27963,
                        36291, 20219, 21153, 26102, 21487, 30465, 30053, 12290])]),
              (u ''action'', JObj
                 [(u ''type'', JStr (u ''string'')),
                  (u ''enum'', JList [JStr (u ''cancel''), JStr (u ''allow_once''), JStr (u
                        ''allow_session''), JStr (u ''deny'')])])])])]"

definition TOOL_SCHEMA_PLACEHOLDER :: ustr where
  "TOOL_SCHEMA_PLACEHOLDER = [123, 123, 36816, 34892, 26102, 21160, 24577, 27880, 20837, 30340, 32, 74, 83, 79, 78, 32, 83, 99, 104, 101, 109, 97, 125, 125]"

definition LEAN_TASK_TOOL_SCHEMAS :: "ustr jsn list" where
  "LEAN_TASK_TOOL_SCHEMAS = [LEAN_TASK_START_SCHEMA, LEAN_TASK_SEND_SCHEMA, LEAN_TASK_RESOLVE_SCHEMA]"

definition compact_json :: "pylib \<Rightarrow> ustr jsn \<Rightarrow> ustr" where
  "compact_json lib v = dumps (show_float lib) tight v"

text \<open>\<open>text.replace("<", "\\u003c")\<close>\<close>

definition escaped_opener :: ustr where
  "escaped_opener = u [CHR 0x5C, CHR ''u'', CHR ''0'', CHR ''0'', CHR ''3'', CHR ''c'']"

definition escape_protocol_openers :: "ustr \<Rightarrow> ustr" where
  "escape_protocol_openers text = concat (map (\<lambda>c. if c = 60 then escaped_opener else [c]) text)"

section \<open>Schemas\<close>

definition alias_of :: "ustr \<Rightarrow> ustr" where
  "alias_of t =
     (if t = u ''dict'' then u ''object'' else if t = u ''int'' then u ''integer''
      else if t = u ''float'' then u ''number'' else t)"

definition alias_type :: "(ustr \<times> ustr jsn) list \<Rightarrow> (ustr \<times> ustr jsn) list" where
  "alias_type kvs =
     (case get kvs ''type'' of
        JStr t \<Rightarrow> AList.update (u ''type'') (JStr (alias_of t)) kvs
      | JList ts \<Rightarrow> AList.update (u ''type'')
          (JList (map (\<lambda>t. case t of JStr s \<Rightarrow> JStr (alias_of s) | _ \<Rightarrow> t) ts)) kvs
      | _ \<Rightarrow> kvs)"

fun normalize_schema :: "ustr jsn \<Rightarrow> ustr jsn"
  and normalize_items :: "ustr jsn list \<Rightarrow> ustr jsn list"
  and normalize_pairs :: "(ustr \<times> ustr jsn) list \<Rightarrow> (ustr \<times> ustr jsn) list" where
  "normalize_schema (JObj kvs) = JObj (alias_type (normalize_pairs kvs))"
| "normalize_schema (JList xs) = JList (normalize_items xs)"
| "normalize_schema v = v"
| "normalize_items [] = []"
| "normalize_items (x # xs) = normalize_schema x # normalize_items xs"
| "normalize_pairs [] = []"
| "normalize_pairs ((k, v) # kvs) = (k, normalize_schema v) # normalize_pairs kvs"

text \<open>A schema or a call may be wrapped as \<open>{"type": "function", "function": {...}}\<close>.\<close>

definition unwrap_tool :: "(ustr \<times> ustr jsn) list \<Rightarrow> (ustr \<times> ustr jsn) list" where
  "unwrap_tool tool =
     (case (json_eq (get tool ''type'') (JStr (u ''function'')), get tool ''function'') of
        (True, JObj f) \<Rightarrow> f | _ \<Rightarrow> tool)"

definition unwrap_call :: "(ustr \<times> ustr jsn) list \<Rightarrow> (ustr \<times> ustr jsn) list" where
  "unwrap_call call = (case get call ''function'' of JObj f \<Rightarrow> f | _ \<Rightarrow> call)"

definition valid_name :: "ustr jsn \<Rightarrow> ustr option" where
  "valid_name v = (case v of JStr s \<Rightarrow> if u_strip s = [] then None else Some (u_strip s) | _ \<Rightarrow> None)"

definition empty_parameters :: "ustr jsn" where
  "empty_parameters = JObj [(u ''type'', JStr (u ''object'')), (u ''properties'', JObj []), (u ''required'', JList [])]"

record tool_schema =
  ts_name :: ustr
  ts_description :: ustr
  ts_parameters :: "(ustr \<times> ustr jsn) list"

definition schema_json :: "tool_schema \<Rightarrow> ustr jsn" where
  "schema_json t = JObj [(u ''name'', JStr (ts_name t)), (u ''description'', JStr (ts_description t)),
     (u ''parameters'', JObj (ts_parameters t))]"

definition description_of :: "pylib \<Rightarrow> ustr jsn \<Rightarrow> ustr" where
  "description_of lib v = (if \<not> truthy v then [] else case v of JStr s \<Rightarrow> s | _ \<Rightarrow> py_str lib v)"

definition normalize_tool_schema :: "pylib \<Rightarrow> (ustr \<times> ustr jsn) list \<Rightarrow> tool_schema tool_res" where
  "normalize_tool_schema lib tool =
     (let value = unwrap_tool tool in
      case valid_name (get value ''name'') of
        None \<Rightarrow> Inl (ToolProtocolError ''tool schema has no valid name'')
      | Some name \<Rightarrow>
          (case get_or value ''parameters'' empty_parameters of
             JObj ps \<Rightarrow> Inr \<lparr>ts_name = name, ts_description = description_of lib (get value ''description''),
                         ts_parameters = alias_type (normalize_pairs ps)\<rparr>
           | _ \<Rightarrow> Inl (ToolProtocolError ''tool parameters must be an object'')))"

definition has_repeats :: "'a list \<Rightarrow> bool" where
  "has_repeats xs \<longleftrightarrow> length xs \<noteq> card (set xs)"

text \<open>\<open>fields\<close> of a tool written in the source are those of its object.\<close>

definition fields_of :: "ustr jsn \<Rightarrow> (ustr \<times> ustr jsn) list" where
  "fields_of v = (case v of JObj kvs \<Rightarrow> kvs | _ \<Rightarrow> [])"

definition tool_named :: "tool_schema list \<Rightarrow> ustr \<Rightarrow> tool_schema option" where
  "tool_named ts name = map_of (rev (map (\<lambda>t. (ts_name t, t)) ts)) name"

definition ensure_lean_task_tools ::
  "pylib \<Rightarrow> (ustr \<times> ustr jsn) list list \<Rightarrow> tool_schema list tool_res" where
  "ensure_lean_task_tools lib tools =
     tbind (tmap (normalize_tool_schema lib) tools) (\<lambda>normalized.
       if has_repeats (map ts_name normalized)
       then Inl (ToolProtocolError ''tool schemas contain duplicate names'')
       else if u ''assist'' \<in> set (map ts_name normalized)
       then Inl (ToolProtocolError ''three-tool protocol cannot be mixed with a removed control face'')
       else tbind (tmap (\<lambda>t. normalize_tool_schema lib (fields_of t)) LEAN_TASK_TOOL_SCHEMAS) (\<lambda>expected.
         if \<exists>t \<in> set expected. (case tool_named normalized (ts_name t) of
              None \<Rightarrow> False | Some existing \<Rightarrow> \<not> json_eq (schema_json existing) (schema_json t))
         then Inl (ToolProtocolError ''existing schema does not match the lean protocol'')
         else Inr (filter (\<lambda>t. ts_name t \<notin> set (map ts_name expected)) normalized @ expected)))"

text \<open>The instructions of a prompt; \<open>text.replace(old, new)\<close> for a non-empty \<open>old\<close>.\<close>

definition render_tool_instructions :: "pylib \<Rightarrow> tool_schema list \<Rightarrow> ustr" where
  "render_tool_instructions lib normalized =
     (if normalized = [] then []
      else [10, 10] @ u ''<tools>'' @ [10] @
        escape_protocol_openers (compact_json lib (JList (map schema_json normalized))) @
        [10] @ u ''</tools>'')"

lemma find_sub_shorter: "p \<noteq> [] \<Longrightarrow> find_sub p s = Some (a, b) \<Longrightarrow> length b < length s"
  by (induction s arbitrary: a b) (auto split: if_splits)

function replace_all :: "ustr \<Rightarrow> ustr \<Rightarrow> ustr \<Rightarrow> ustr" where
  "replace_all old new s =
     (if old = [] then s
      else (case find_sub old s of None \<Rightarrow> s | Some (a, b) \<Rightarrow> a @ new @ replace_all old new b))"
  by pat_completeness auto
termination
  by (relation "measure (\<lambda>(old, new, s). length s)") (auto dest: find_sub_shorter)

declare replace_all.simps [simp del]

definition system_prompt_with_tools ::
  "pylib \<Rightarrow> ustr \<Rightarrow> (ustr \<times> ustr jsn) list list \<Rightarrow> ustr tool_res" where
  "system_prompt_with_tools lib system_prompt tools =
     tbind (tmap (normalize_tool_schema lib) tools) (\<lambda>normalized.
       if find_sub TOOL_SCHEMA_PLACEHOLDER system_prompt \<noteq> None
       then Inr (replace_all TOOL_SCHEMA_PLACEHOLDER
         (escape_protocol_openers (compact_json lib (JList (map schema_json normalized)))) system_prompt)
       else Inr (system_prompt @ render_tool_instructions lib normalized))"

text \<open>\<open>count\<close> is the length of \<open>tokenizer.encode\<close>.\<close>

definition validate_realtime_tool_context ::
  "pylib \<Rightarrow> (ustr \<times> ustr jsn) list list \<Rightarrow> (ustr \<Rightarrow> int) \<Rightarrow> int \<Rightarrow> int \<Rightarrow> tool_schema list tool_res" where
  "validate_realtime_tool_context lib tools count max_tools max_schema_tokens =
     (if max_tools < 1 \<or> max_schema_tokens < 1
      then Inl (ToolProtocolError ''realtime tool limits must be positive'')
      else tbind (tmap (normalize_tool_schema lib) tools) (\<lambda>normalized.
        if has_repeats (map ts_name normalized)
        then Inl (ToolProtocolError ''realtime tool schemas contain duplicate names'')
        else if int (length normalized) > max_tools
        then Inl (ToolProtocolError ''realtime exposes too many tools'')
        else if count (join_with [10] (map (\<lambda>t. compact_json lib (schema_json t)) normalized)) > max_schema_tokens
        then Inl (ToolProtocolError ''realtime tool schemas use too many tokens'')
        else Inr normalized))"

section \<open>Calls\<close>

record tool_call =
  tc_name :: ustr
  tc_arguments :: "(ustr \<times> ustr jsn) list"

definition lift_parsed :: "string \<Rightarrow> 'a parsed \<Rightarrow> 'a tool_res" where
  "lift_parsed msg p =
     (case p of Parsed x \<Rightarrow> Inr x | Malformed \<Rightarrow> Inl (ToolProtocolError msg) | _ \<Rightarrow> Inl Unmodelled)"

definition normalize_tool_call :: "pylib \<Rightarrow> (ustr \<times> ustr jsn) list \<Rightarrow> tool_call tool_res" where
  "normalize_tool_call lib call =
     (let value = unwrap_call call in
      case valid_name (get value ''name'') of
        None \<Rightarrow> Inl (ToolProtocolError ''tool call has no valid name'')
      | Some name \<Rightarrow>
          tbind (case map_of value (u ''arguments'') of
                   None \<Rightarrow> Inr (JObj [])
                 | Some (JStr s) \<Rightarrow> lift_parsed ''arguments are not valid JSON'' (loads (read_float lib) s)
                 | Some v \<Rightarrow> Inr v)
            (\<lambda>arguments. case arguments of
               JObj kvs \<Rightarrow> Inr \<lparr>tc_name = name, tc_arguments = kvs\<rparr>
             | _ \<Rightarrow> Inl (ToolProtocolError ''arguments must be a JSON object'')))"

definition format_normalized :: "pylib \<Rightarrow> tool_call \<Rightarrow> ustr" where
  "format_normalized lib c =
     TOOL_CALL_START @ [10] @
     escape_protocol_openers
       (u [CHR ''{'', CHR 0x22] @ u ''name'' @ u [CHR 0x22] @ u '': '' @ dumps (show_float lib) spaced (JStr (tc_name c)) @
        u '', '' @ u [CHR 0x22] @ u ''arguments'' @ u [CHR 0x22] @ u '': '' @
        dumps (show_float lib) spaced (JObj (tc_arguments c)) @ u ''}'') @
     [10] @ TOOL_CALL_END"

definition format_tool_call :: "pylib \<Rightarrow> (ustr \<times> ustr jsn) list \<Rightarrow> ustr tool_res" where
  "format_tool_call lib call =
     tbind (normalize_tool_call lib call) (\<lambda>normalized. Inr (format_normalized lib normalized))"

definition format_tool_calls :: "pylib \<Rightarrow> (ustr \<times> ustr jsn) list list \<Rightarrow> ustr tool_res" where
  "format_tool_calls lib calls =
     tbind (tmap (format_tool_call lib) calls) (\<lambda>normalized.
       if normalized = []
       then Inl (ToolProtocolError ''assistant tool action must contain at least one complete call'')
       else Inr (join_with [10] normalized))"

text \<open>
  \<open>_TOOL_CALL_PATTERN\<close>: spans from an opener to the first closer after it, white space trimmed; the
  result is the contents of the spans and the text outside them.
\<close>

function call_spans :: "ustr \<Rightarrow> ustr list \<times> ustr" where
  "call_spans text =
     (case find_sub TOOL_CALL_START text of
        None \<Rightarrow> ([], text)
      | Some (before, rest) \<Rightarrow>
          (case find_sub TOOL_CALL_END rest of
             None \<Rightarrow> ([], text)
           | Some (content, after) \<Rightarrow>
               (case call_spans after of (spans, outside) \<Rightarrow> (u_strip content # spans, before @ outside))))"
  by pat_completeness auto
termination
proof (relation "measure length", simp)
  fix t x before rest y content after
  assume "find_sub TOOL_CALL_START t = Some x" "(before, rest) = x"
    "find_sub TOOL_CALL_END rest = Some y" "(content, after) = y"
  then have "length rest < length t" "length after < length rest"
    using find_sub_shorter [of TOOL_CALL_START] find_sub_shorter [of TOOL_CALL_END]
    by (auto simp: TOOL_CALL_START_def TOOL_CALL_END_def)
  then show "(after, t) \<in> measure length" by simp
qed

declare call_spans.simps [simp del]

definition parse_payload :: "pylib \<Rightarrow> ustr \<Rightarrow> tool_call tool_res" where
  "parse_payload lib content =
     tbind (lift_parsed ''tool-call payload is not valid JSON'' (loads (read_float lib) content)) (\<lambda>payload.
       case payload of
         JObj kvs \<Rightarrow> normalize_tool_call lib kvs
       | _ \<Rightarrow> Inl (ToolProtocolError ''tool-call payload must be a JSON object''))"

definition parse_tool_calls :: "pylib \<Rightarrow> ustr \<Rightarrow> tool_call list tool_res" where
  "parse_tool_calls lib text =
     (case call_spans text of (spans, outside) \<Rightarrow>
       if spans = [] then Inl (ToolProtocolError ''no complete tool_call span was generated'')
       else if u_strip outside \<noteq> [] then Inl (ToolProtocolError ''unexpected text outside tool-call spans'')
       else tmap (parse_payload lib) spans)"

definition format_tool_response :: "pylib \<Rightarrow> ustr jsn \<Rightarrow> ustr" where
  "format_tool_response lib value =
     TOOL_RESPONSE_START @ [10] @
     escape_protocol_openers (case value of JStr s \<Rightarrow> s | _ \<Rightarrow> compact_json lib value) @
     [10] @ TOOL_RESPONSE_END"

section \<open>Laws\<close>

subsection \<open>Escaped openers\<close>

definition esc_opener :: "nat \<Rightarrow> ustr" where
  "esc_opener c = (if c = 60 then escaped_opener else esc_char c)"

lemma scan_esc_opener: "scan_string (esc_opener c @ r) = map_option (map_prod (Cons c) id) (scan_string r)"
proof (cases "c = 60")
  case True
  have "hex_code 3 = 51" "hex_code 12 = 99" by (simp_all add: hex_code_def)
  then have "escaped_opener = u [CHR 0x5C, CHR ''u'', CHR ''0'', CHR ''0''] @ [hex_code (60 div 16), hex_code (60 mod 16)]"
    by (simp add: escaped_opener_def)
  moreover have "scan_string (escaped_opener @ r) = map_option (map_prod (Cons 60) id) (scan_string r)"
    unfolding calculation append_assoc by (rule scan_unicode_escape) simp
  ultimately show ?thesis using True by (simp add: esc_opener_def)
qed (simp add: esc_opener_def scan_esc_char)

interpretation opener_literal: char_escape esc_opener
  by unfold_locales (rule scan_esc_opener)

lemma escape_append [simp]:
  "escape_protocol_openers (s @ t) = escape_protocol_openers s @ escape_protocol_openers t"
  "escape_protocol_openers [] = []"
  "escape_protocol_openers (c # s) = (if c = 60 then escaped_opener else [c]) @ escape_protocol_openers s"
  by (simp_all add: escape_protocol_openers_def)

lemma escape_id: "60 \<notin> set s \<Longrightarrow> escape_protocol_openers s = s"
  by (induction s) (auto simp: escape_protocol_openers_def)

lemma no_opener: "60 \<notin> set (escape_protocol_openers s)"
  by (auto simp: escape_protocol_openers_def escaped_opener_def)

lemma escape_esc_char: "escape_protocol_openers (esc_char c) = esc_opener c"
proof (cases "c = 60")
  case True
  then show ?thesis by (simp add: esc_opener_def esc_char_def escape_protocol_openers_def)
next
  case False
  have "60 \<notin> set (esc_char c)" using False by (auto simp: esc_char_def hex_code_def)
  with False show ?thesis by (simp add: esc_opener_def escape_id)
qed

lemma escape_quote: "escape_protocol_openers (quote_with esc_char s) = quote_with esc_opener s"
proof -
  have "escape_protocol_openers (concat (map esc_char s)) = concat (map esc_opener s)"
    by (induction s) (simp_all add: escape_esc_char)
  then show ?thesis by (simp add: quote_with_def)
qed

lemma escape_join:
  "60 \<notin> set sep \<Longrightarrow> escape_protocol_openers (join_with sep xs) = join_with sep (map escape_protocol_openers xs)"
  by (induction sep xs rule: join_with.induct) (simp_all add: escape_id)

lemma escape_dumps:
  assumes "60 \<notin> set (fst sep)" and "60 \<notin> set (snd sep)"
  shows "printable sf rf v \<Longrightarrow> escape_protocol_openers (dumps_with esc_char sf sep v) = dumps_with esc_opener sf sep v"
    "printable_list sf rf xs \<Longrightarrow> map escape_protocol_openers (dumps_list esc_char sf sep xs) = dumps_list esc_opener sf sep xs"
    "printable_pairs sf rf kvs \<Longrightarrow> map escape_protocol_openers (dumps_pairs esc_char sf sep kvs) = dumps_pairs esc_opener sf sep kvs"
proof (induction sf rf v and sf rf xs and sf rf kvs rule: printable_printable_list_printable_pairs.induct)
  case (4 sf rf q)
  then have "float_kept sf rf q" by simp
  from float_kept_chars [OF this] have "60 \<notin> set (sf q)" by (auto simp: is_digit_def)
  then show ?case by (simp add: escape_id)
next
  case (3 sf rf i)
  have "60 \<notin> set (u (digits n))" for n using digits_codes [of n] by (auto simp: is_digit_def)
  then have "60 \<notin> set (u (int_str i))" by (simp add: int_str_def)
  then show ?case by (simp add: escape_id)
qed (use assms in \<open>simp_all add: escape_quote escape_join escape_id\<close>)

subsection \<open>Trimming\<close>

lemma strip_around:
  assumes "s \<noteq> []" "\<not> u_space (hd s)" "\<not> u_space (last s)" "\<forall>c \<in> set a. u_space c" "\<forall>c \<in> set b. u_space c"
  shows "u_strip (a @ s @ b) = s"
proof -
  have "dropWhile u_space (a @ s @ b) = s @ b" using assms(1,2,4) by (cases s) (simp_all add: dropWhile_append2)
  moreover have "dropWhile u_space (rev (s @ b)) = rev s"
    using assms(1,3,5) dropWhile_append2 [of "rev b" u_space "rev s"]
    by (cases s rule: rev_cases) (simp_all add: dropWhile_append2)
  ultimately show ?thesis by (simp add: u_strip_def u_rstrip_def)
qed

lemma strip_id: "s \<noteq> [] \<Longrightarrow> \<not> u_space (hd s) \<Longrightarrow> \<not> u_space (last s) \<Longrightarrow> u_strip s = s"
  using strip_around [of s "[]" "[]"] by simp

lemma strip_spaces: "\<forall>c \<in> set s. u_space c \<Longrightarrow> u_strip s = []"
  by (auto simp: u_strip_def u_rstrip_def dest: set_dropWhileD)

lemma strip_ends: "u_strip s \<noteq> [] \<Longrightarrow> \<not> u_space (hd (u_strip s)) \<and> \<not> u_space (last (u_strip s))"
proof -
  assume ne: "u_strip s \<noteq> []"
  let ?d = "dropWhile u_space s"
  have "u_strip s = rev (dropWhile u_space (rev ?d))" by (simp add: u_strip_def u_rstrip_def)
  moreover have "dropWhile u_space (rev ?d) \<noteq> []" using ne by (simp add: u_strip_def u_rstrip_def)
  ultimately have l: "\<not> u_space (last (u_strip s))"
    using hd_dropWhile [of u_space "rev ?d"] by (simp add: last_rev)
  have "?d \<noteq> []" using ne unfolding u_strip_def u_rstrip_def by (metis dropWhile.simps(1) rev.simps(1))
  then have "\<not> u_space (hd ?d)" by (rule hd_dropWhile)
  moreover have "hd (u_strip s) = hd ?d"
  proof -
    have "?d = u_strip s @ rev (takeWhile u_space (rev ?d))"
      unfolding u_strip_def u_rstrip_def by (metis rev_append rev_rev_ident takeWhile_dropWhile_id)
    then show ?thesis using ne by (metis hd_append2)
  qed
  ultimately show ?thesis using l by simp
qed

lemma strip_strip: "u_strip (u_strip s) = u_strip s"
  using strip_ends [of s] strip_id [of "u_strip s"] by (cases "u_strip s = []") (simp_all add: strip_spaces)

subsection \<open>Spans\<close>

lemma find_sub_first: "p \<noteq> [] \<Longrightarrow> hd p \<notin> set a \<Longrightarrow> find_sub p (a @ p @ b) = Some (a, b)"
proof (induction a)
  case Nil
  then show ?case by (cases p) simp_all
next
  case (Cons c a)
  then have "take (length p) (c # a @ p @ b) \<noteq> p" by (cases p) auto
  with Cons show ?case by simp
qed

definition frame :: "ustr \<Rightarrow> ustr" where
  "frame payload = TOOL_CALL_START @ [10] @ payload @ [10] @ TOOL_CALL_END"

definition framed :: "ustr \<Rightarrow> bool" where
  "framed p \<longleftrightarrow> p \<noteq> [] \<and> 60 \<notin> set p \<and> \<not> u_space (hd p) \<and> \<not> u_space (last p)"

lemma call_spans_frame:
  assumes p: "framed p" and pre: "60 \<notin> set pre"
  shows "call_spans (pre @ frame p @ rest) = (p # fst (call_spans rest), pre @ snd (call_spans rest))"
proof -
  have "find_sub TOOL_CALL_START (pre @ TOOL_CALL_START @ ([10] @ p @ [10]) @ TOOL_CALL_END @ rest) =
      Some (pre, ([10] @ p @ [10]) @ TOOL_CALL_END @ rest)"
    by (rule find_sub_first) (use pre in \<open>simp_all add: TOOL_CALL_START_def\<close>)
  moreover have "find_sub TOOL_CALL_END (([10] @ p @ [10]) @ TOOL_CALL_END @ rest) = Some ([10] @ p @ [10], rest)"
    by (rule find_sub_first) (use p in \<open>simp_all add: TOOL_CALL_END_def framed_def\<close>)
  moreover have "u_strip ([10] @ p @ [10]) = p"
    using p by (intro strip_around) (simp_all add: framed_def u_space_def)
  ultimately show ?thesis
    by (subst call_spans.simps) (simp add: frame_def case_prod_beta)
qed

lemma call_spans_join:
  "list_all framed ps \<Longrightarrow> set pre \<subseteq> {10} \<Longrightarrow> ps \<noteq> [] \<Longrightarrow>
   fst (call_spans (pre @ join_with [10] (map frame ps))) = ps \<and>
   set (snd (call_spans (pre @ join_with [10] (map frame ps)))) \<subseteq> {10}"
proof (induction ps arbitrary: pre)
  case (Cons p ps)
  have pre: "60 \<notin> set pre" using Cons.prems(2) by auto
  have none: "call_spans [] = ([], [])" by (subst call_spans.simps) (simp add: TOOL_CALL_START_def)
  show ?case
  proof (cases "ps = []")
    case True
    then show ?thesis
      using call_spans_frame [of p pre "[]"] pre Cons.prems none by simp
  next
    case False
    have "join_with [10] (map frame (p # ps)) = frame p @ [10] @ join_with [10] (map frame ps)"
      using False by (cases ps) simp_all
    then show ?thesis
      using call_spans_frame [of p pre "[10] @ join_with [10] (map frame ps)"] pre Cons.prems
        Cons.IH [of "[10]"] False by simp
  qed
qed simp


subsection \<open>Calls\<close>

lemma tbind_Inr: "tbind m f = Inr y \<longleftrightarrow> (\<exists>x. m = Inr x \<and> f x = Inr y)"
  by (auto simp: tbind_def split: sum.splits)

lemma tbind_simps [simp]: "tbind (Inr x) f = f x" "tbind (Inl e) f = Inl e"
  by (simp_all add: tbind_def)

lemma tmap_then: "tmap f xs = Inr ys \<Longrightarrow> tmap (\<lambda>x. tbind (f x) (\<lambda>y. Inr (g y))) xs = Inr (map g ys)"
  by (induction xs arbitrary: ys) (auto simp: tbind_Inr)

lemma tmap_map: "(\<And>y. y \<in> set ys \<Longrightarrow> f (g y) = Inr y) \<Longrightarrow> tmap f (map g ys) = Inr ys"
  by (induction ys) simp_all

lemma tmap_all: "tmap f xs = Inr ys \<Longrightarrow> (\<And>x y. f x = Inr y \<Longrightarrow> P y) \<Longrightarrow> list_all P ys"
  by (induction xs arbitrary: ys) (auto simp: tbind_Inr)

lemma tmap_length: "tmap f xs = Inr ys \<Longrightarrow> length ys = length xs"
  by (induction xs arbitrary: ys) (auto simp: tbind_Inr)

definition call_json :: "tool_call \<Rightarrow> ustr jsn" where
  "call_json c = JObj [(u ''name'', JStr (tc_name c)), (u ''arguments'', JObj (tc_arguments c))]"

definition payload_of :: "pylib \<Rightarrow> tool_call \<Rightarrow> ustr" where
  "payload_of lib c = dumps_with esc_opener (show_float lib) spaced (call_json c)"

text \<open>The calls that \<open>normalize_tool_call\<close> returns.\<close>

definition call_ok :: "tool_call \<Rightarrow> bool" where
  "call_ok c \<longleftrightarrow> tc_name c \<noteq> [] \<and> u_strip (tc_name c) = tc_name c"

lemma normalize_call_ok: "normalize_tool_call lib call = Inr c \<Longrightarrow> call_ok c"
  by (auto simp: normalize_tool_call_def Let_def tbind_Inr valid_name_def call_ok_def strip_strip
      split: option.splits jsn.splits if_splits)

lemma quote_plain: "\<forall>c \<in> set s. 32 \<le> c \<and> c \<noteq> 34 \<and> c \<noteq> 92 \<Longrightarrow> quote_with esc_char s = 34 # s @ [34]"
proof -
  assume "\<forall>c \<in> set s. 32 \<le> c \<and> c \<noteq> 34 \<and> c \<noteq> 92"
  then have "concat (map esc_char s) = s" by (induction s) (auto simp: esc_char_def)
  then show ?thesis by (simp add: quote_with_def)
qed

lemma format_frame:
  assumes "printable (show_float lib) (read_float lib) (JObj (tc_arguments c))"
  shows "format_normalized lib c = frame (payload_of lib c)"
proof -
  have p: "printable (show_float lib) (read_float lib) (call_json c)" using assms by (simp add: call_json_def)
  have "dumps (show_float lib) spaced (call_json c) =
      u [CHR ''{'', CHR 0x22] @ u ''name'' @ u [CHR 0x22] @ u '': '' @ dumps (show_float lib) spaced (JStr (tc_name c)) @
      u '', '' @ u [CHR 0x22] @ u ''arguments'' @ u [CHR 0x22] @ u '': '' @
      dumps (show_float lib) spaced (JObj (tc_arguments c)) @ u ''}''"
    by (simp add: call_json_def spaced_def quote_plain)
  then show ?thesis
    using escape_dumps(1) [OF _ _ p, of spaced]
    by (simp add: format_normalized_def frame_def payload_of_def spaced_def)
qed

lemma payload_framed:
  assumes "printable (show_float lib) (read_float lib) (JObj (tc_arguments c))"
  shows "framed (payload_of lib c)"
proof -
  have p: "printable (show_float lib) (read_float lib) (call_json c)" using assms by (simp add: call_json_def)
  have "60 \<notin> set (payload_of lib c)"
  proof -
    have "payload_of lib c = escape_protocol_openers (dumps (show_float lib) spaced (call_json c))"
      using escape_dumps(1) [OF _ _ p, of spaced] by (simp add: payload_of_def spaced_def)
    then show ?thesis using no_opener by simp
  qed
  moreover have "\<exists>t. payload_of lib c = 123 # t @ [125]" by (simp add: payload_of_def call_json_def)
  ultimately show ?thesis by (auto simp: framed_def u_space_def)
qed

lemma parse_payload_of:
  assumes "printable (show_float lib) (read_float lib) (JObj (tc_arguments c))" and "call_ok c"
  shows "parse_payload lib (payload_of lib c) = Inr c"
proof -
  have "printable (show_float lib) (read_float lib) (call_json c)" using assms(1) by (simp add: call_json_def)
  from opener_literal.loads_dumps [OF this] have "loads (read_float lib) (payload_of lib c) = Parsed (call_json c)"
    by (simp add: payload_of_def)
  with assms(2) show ?thesis
    by (simp add: parse_payload_def lift_parsed_def call_json_def normalize_tool_call_def Let_def unwrap_call_def
        get_def valid_name_def call_ok_def)
qed

section \<open>Properties\<close>

text \<open>C20: Tool calls survive their text.  Formatting a non-empty sequence of calls and parsing the text gives
  back the calls that normalisation makes of them, in order, whatever their argument strings hold:
  quotes, control characters, or the closing tag of the protocol itself.  The arguments may hold any
  JSON value: the library's text of each float in them must be a number literal with a fraction or an
  exponent that reads back as the same float, which Python documents of \<open>repr\<close> for every finite one, and no
  object in them repeats a key, which a dict cannot; \<open>NaN\<close> and the infinities are not values of the model.\<close>

theorem tool_calls_round_trip:
  assumes n: "tmap (normalize_tool_call lib) calls = Inr ns" and ne: "calls \<noteq> []"
    and p: "list_all (\<lambda>c. printable (show_float lib) (read_float lib) (JObj (tc_arguments c))) ns"
  shows "\<exists>t. format_tool_calls lib calls = Inr t \<and> parse_tool_calls lib t = Inr ns"
proof -
  let ?t = "join_with [10] (map frame (map (payload_of lib) ns))"
  have "ns \<noteq> []" using tmap_length [OF n] ne by auto
  have ok: "call_ok c" if "c \<in> set ns" for c
    using tmap_all [OF n, of call_ok] normalize_call_ok that by (auto simp: list_all_iff)
  have "tmap (format_tool_call lib) calls = Inr (map (format_normalized lib) ns)"
    unfolding format_tool_call_def by (rule tmap_then [OF n])
  moreover have "map (format_normalized lib) ns = map frame (map (payload_of lib) ns)"
    using p by (auto simp: list_all_iff format_frame)
  ultimately have "format_tool_calls lib calls = Inr ?t"
    using \<open>ns \<noteq> []\<close> by (simp add: format_tool_calls_def)
  moreover have "list_all framed (map (payload_of lib) ns)"
    using p by (auto simp: list_all_iff payload_framed)
  from call_spans_join [OF this, of "[]"] \<open>ns \<noteq> []\<close>
  have "fst (call_spans ?t) = map (payload_of lib) ns" "set (snd (call_spans ?t)) \<subseteq> {10}" by simp_all
  moreover from calculation(3) have "\<forall>c \<in> set (snd (call_spans ?t)). u_space c"
    by (auto simp: u_space_def)
  then have "u_strip (snd (call_spans ?t)) = []" by (rule strip_spaces)
  moreover have "tmap (parse_payload lib) (map (payload_of lib) ns) = Inr ns"
    using p ok by (intro tmap_map parse_payload_of) (auto simp: list_all_iff)
  ultimately show ?thesis
    using \<open>ns \<noteq> []\<close> by (simp add: parse_tool_calls_def case_prod_beta)
qed

end
