(* ===== verification/ToolFit.thy ===== *)
theory ToolFit
  imports ToolProtocol
begin

text \<open>
  Cutting a tool result to a token limit (runtime/minicpm_ft/mcpmft/tool_protocol.py,
  \<open>fit_tool_response\<close> and its helpers).  \<open>count\<close> is the length of the tokenizer's output.  The sentinel
  \<open>_DROP\<close> is \<open>None\<close>.
\<close>

section \<open>Operations\<close>

subsection \<open>The largest cut that fits\<close>

function most_between :: "(nat \<Rightarrow> bool) \<Rightarrow> nat \<Rightarrow> nat \<Rightarrow> nat" where
  "most_between fits low high =
     (if low < high
      then (let middle = (low + high + 1) div 2
            in if fits middle then most_between fits middle high else most_between fits low (middle - 1))
      else low)"
  by pat_completeness auto
termination
  by (relation "measure (\<lambda>(fits, low, high). high - low)") auto

declare most_between.simps [simp del]

definition most :: "nat \<Rightarrow> (nat \<Rightarrow> bool) \<Rightarrow> nat" where
  "most high fits = most_between fits 0 high"

definition ellipsis :: ustr where "ellipsis = [8230]"

definition MORE_WAS_CUT :: ustr where
  "MORE_WAS_CUT = u ''more was cut to keep this short; ask for the next part or something narrower''"

definition KEEP_KEYS :: "ustr set" where
  "KEEP_KEYS = {u ''status'', u ''tool'', u ''call_id'', u ''message'', u ''error'', u ''more''}"

definition fit_prefix :: "ustr \<Rightarrow> (ustr \<Rightarrow> bool) \<Rightarrow> ustr \<Rightarrow> ustr tool_res" where
  "fit_prefix text fits ending =
     (let low = most (length text) (\<lambda>n. fits (take n text))
      in if low = 0 \<and> text \<noteq> [] then Inl (ToolProtocolError ''tool response cannot be cut to fit'')
         else Inr (take low text @ ending))"

text \<open>\<open>max\<close> of pairs of a size and a key: the larger size, then the later key; the first of equal pairs.\<close>

definition later_pair :: "nat \<times> ustr \<Rightarrow> nat \<times> ustr \<Rightarrow> nat \<times> ustr" where
  "later_pair a b = (if fst a < fst b \<or> fst a = fst b \<and> snd a < snd b then b else a)"

definition largest_key :: "pylib \<Rightarrow> (ustr \<times> ustr jsn) list \<Rightarrow> ustr" where
  "largest_key lib kvs =
     (case map (\<lambda>(k, v). (length (compact_json lib v), k)) kvs of
        [] \<Rightarrow> []
      | p # ps \<Rightarrow> snd (foldl later_pair p ps))"

lemma map_of_size: "map_of kvs k = Some v \<Longrightarrow> size v < size (JObj kvs)"
  by (induction kvs) (auto split: if_splits)

subsection \<open>One step smaller\<close>

function (sequential) shrink :: "pylib \<Rightarrow> ustr jsn \<Rightarrow> (ustr jsn \<Rightarrow> bool) \<Rightarrow> ustr jsn option" where
  "shrink lib (JList []) fits = None"
| "shrink lib (JList [x]) fits = map_option (\<lambda>inner. JList [inner]) (shrink lib x (\<lambda>value. fits (JList [value])))"
| "shrink lib (JList xs) fits =
     (let keep = most (length xs - 1) (\<lambda>n. fits (JList (take n xs)))
      in Some (JList (take (if keep \<noteq> 0 then keep else length xs div 2) xs)))"
| "shrink lib (JStr s) fits =
     (if length s > 40
      then (let keep = most (length s - 1) (\<lambda>n. fits (JStr (take n s @ ellipsis)))
            in Some (JStr (take (if keep \<noteq> 0 then keep else length s div 2) s @ ellipsis)))
      else None)"
| "shrink lib (JObj kvs) fits =
     (case map_of kvs (largest_key lib kvs) of
        None \<Rightarrow> None
      | Some v \<Rightarrow>
          (case shrink lib v (\<lambda>value. fits (JObj (AList.update (largest_key lib kvs) value kvs))) of
             None \<Rightarrow> Some (JObj (filter (\<lambda>(k, v). k \<noteq> largest_key lib kvs) kvs))
           | Some inner \<Rightarrow> Some (JObj (AList.update (largest_key lib kvs) inner kvs))))"
| "shrink lib item fits = None"
  by pat_completeness auto
termination
  by (relation "measure (\<lambda>(lib, item, fits). size item)") (auto dest: map_of_size)

subsection \<open>The whole cut\<close>

definition response_fits :: "pylib \<Rightarrow> (ustr \<Rightarrow> int) \<Rightarrow> int \<Rightarrow> ustr jsn \<Rightarrow> bool" where
  "response_fits lib count limit candidate \<longleftrightarrow> count (format_tool_response lib candidate) \<le> limit"

text \<open>The loop of at most 200 rounds: \<open>Inl\<close> is \<open>return current\<close>, \<open>Inr\<close> leaves the loop.\<close>

fun cut_fields ::
  "pylib \<Rightarrow> (ustr jsn \<Rightarrow> bool) \<Rightarrow> nat \<Rightarrow> (ustr \<times> ustr jsn) list \<Rightarrow>
   (ustr \<times> ustr jsn) list + (ustr \<times> ustr jsn) list" where
  "cut_fields lib fits 0 current = Inr current"
| "cut_fields lib fits (Suc n) current =
     (if fits (JObj current) then Inl current
      else (let open = filter (\<lambda>(k, v). k \<notin> KEEP_KEYS) current in
        if open = [] then Inr current
        else (let key = largest_key lib open in
          (case map_of current key of
             None \<Rightarrow> Inr current
           | Some v \<Rightarrow>
               (case shrink lib v (\<lambda>item. fits (JObj (AList.update key item current))) of
                  None \<Rightarrow> cut_fields lib fits n (AList.delete key current)
                | Some smaller \<Rightarrow> cut_fields lib fits n (AList.update key smaller current))))))"

text \<open>\<open>try: candidate[k] = ... except: candidate[k] = candidate[k][:40] + ...\<close>, until it fits.\<close>

fun cut_texts ::
  "(ustr jsn \<Rightarrow> bool) \<Rightarrow> (ustr \<times> ustr) list \<Rightarrow> (ustr \<times> ustr jsn) list \<Rightarrow> (ustr \<times> ustr jsn) list" where
  "cut_texts fits [] candidate = candidate"
| "cut_texts fits ((k, s) # ks) candidate =
     (if fits (JObj candidate) then candidate
      else cut_texts fits ks (AList.update k
        (JStr (case fit_prefix s (\<lambda>text. fits (JObj (AList.update k (JStr (text @ ellipsis)) candidate))) ellipsis of
           Inr text \<Rightarrow> text | Inl _ \<Rightarrow> take 40 s @ ellipsis)) candidate))"

text \<open>The last resort keeps a single text.\<close>

fun keep_one ::
  "(ustr jsn \<Rightarrow> bool) \<Rightarrow> (ustr \<times> ustr) list \<Rightarrow> (ustr \<times> ustr jsn) list \<Rightarrow> ustr jsn tool_res" where
  "keep_one fits [] base = Inl (ToolProtocolError ''tool response cannot be cut to the limit'')"
| "keep_one fits ((k, s) # ks) base =
     (case fit_prefix s (\<lambda>text. fits (JObj (AList.update k (JStr (text @ ellipsis)) base))) ellipsis of
        Inl _ \<Rightarrow> keep_one fits ks base
      | Inr text \<Rightarrow>
          (let single = JObj (AList.update k (JStr text) base)
           in if fits single then Inr single else keep_one fits ks base))"

definition text_fields :: "(ustr \<times> ustr jsn) list \<Rightarrow> (ustr \<times> ustr) list" where
  "text_fields current =
     concat (map (\<lambda>k. case map_of current k of Some (JStr s) \<Rightarrow> [(k, s)] | _ \<Rightarrow> []) [u ''error'', u ''message''])"

definition kept_fields :: "(ustr \<times> ustr jsn) list \<Rightarrow> (ustr \<times> ustr jsn) list" where
  "kept_fields current =
     concat (map (\<lambda>k. case map_of current k of Some v \<Rightarrow> [(k, v)] | None \<Rightarrow> [])
       ([u ''status'', u ''tool'', u ''call_id'', u ''more''] @ map fst (text_fields current)))"

definition cut_object ::
  "pylib \<Rightarrow> (ustr jsn \<Rightarrow> bool) \<Rightarrow> (ustr \<times> ustr jsn) list \<Rightarrow> ustr jsn tool_res" where
  "cut_object lib fits start =
     (case cut_fields lib fits 200 start of
        Inl current \<Rightarrow> Inr (JObj current)
      | Inr current \<Rightarrow>
          (let texts = text_fields current;
               candidate = cut_texts fits (sort_key (\<lambda>(k, s). - int (length s)) texts) (kept_fields current)
           in if fits (JObj candidate) then Inr (JObj candidate)
              else keep_one fits (rev texts) (filter (\<lambda>(k, v). k \<notin> fst ` set texts) candidate)))"

definition fit_tool_response :: "pylib \<Rightarrow> ustr jsn \<Rightarrow> (ustr \<Rightarrow> int) \<Rightarrow> int \<Rightarrow> ustr jsn tool_res" where
  "fit_tool_response lib value count limit =
     (let fits = response_fits lib count limit;
          marked = AList.update (u ''more'') (JStr MORE_WAS_CUT)
      in if fits value then Inr value
      else (case value of
        JStr s \<Rightarrow>
          (let ending = ellipsis @ u '' ['' @ MORE_WAS_CUT @ u '']''
           in tbind (fit_prefix s (\<lambda>text. fits (JStr (text @ ending))) ending) (\<lambda>text. Inr (JStr text)))
      | JObj kvs \<Rightarrow> cut_object lib fits (marked kvs)
      | _ \<Rightarrow> cut_object lib fits (marked [(u ''content'', JStr (compact_json lib value))])))"

section \<open>Laws\<close>

lemma most_between_sound:
  "low \<le> high \<Longrightarrow> low \<le> most_between fits low high \<and> most_between fits low high \<le> high \<and>
   (most_between fits low high = low \<or> fits (most_between fits low high))"
proof (induction fits low high rule: most_between.induct)
  case (1 fits low high)
  show ?case
  proof (cases "low < high")
    case True
    let ?m = "(low + high + 1) div 2"
    have m: "low < ?m" "?m \<le> high" using True by auto
    show ?thesis
    proof (cases "fits ?m")
      case f: True
      have "most_between fits low high = most_between fits ?m high"
        using True f by (subst most_between.simps) (simp add: Let_def)
      with 1(1) [OF True refl f] m f show ?thesis by auto
    next
      case False
      have "most_between fits low high = most_between fits low (?m - 1)"
        using True False by (subst most_between.simps) (simp add: Let_def)
      moreover have "low \<le> ?m - 1" "?m - 1 \<le> high" using m by auto
      moreover from 1(2) [OF True refl False this(1)]
      have "low \<le> most_between fits low (?m - 1)" "most_between fits low (?m - 1) \<le> ?m - 1"
        "most_between fits low (?m - 1) = low \<or> fits (most_between fits low (?m - 1))" by blast+
      ultimately show ?thesis by (metis le_trans)
    qed
  next
    case False
    then have "most_between fits low high = low" by (subst most_between.simps) simp
    then show ?thesis using "1.prems" by simp
  qed
qed

text \<open>With a predicate that shrinks, nothing above the result fits.\<close>

lemma most_between_complete:
  assumes "\<And>m n. m \<le> n \<Longrightarrow> n \<le> high \<Longrightarrow> fits n \<Longrightarrow> fits m" and "low \<le> high"
  shows "n \<le> high \<Longrightarrow> fits n \<Longrightarrow> n \<le> most_between fits low high \<or> n < low"
  using assms
proof (induction fits low high rule: most_between.induct)
  case (1 fits low high)
  show ?case
  proof (cases "low < high")
    case True
    let ?m = "(low + high + 1) div 2"
    have m: "low < ?m" "?m \<le> high" using True by auto
    show ?thesis
    proof (cases "fits ?m")
      case f: True
      have e: "most_between fits low high = most_between fits ?m high"
        using True f by (subst most_between.simps) (simp add: Let_def)
      have "n \<le> most_between fits ?m high \<or> n < ?m"
        by (rule 1(1) [OF True refl f 1(3,4) 1(5) m(2)])
      moreover have "?m \<le> most_between fits ?m high" using most_between_sound m(2) by blast
      ultimately show ?thesis unfolding e by linarith
    next
      case False
      have e: "most_between fits low high = most_between fits low (?m - 1)"
        using True False by (subst most_between.simps) (simp add: Let_def)
      have n: "n \<le> ?m - 1"
      proof (rule ccontr)
        assume "\<not> n \<le> ?m - 1"
        then have "?m \<le> n" by simp
        from 1(5) [OF this 1(3,4)] False show False by simp
      qed
      have "n \<le> most_between fits low (?m - 1) \<or> n < low"
        by (rule 1(2) [OF True refl False n 1(4)]) (use 1(5) m in \<open>auto intro: le_trans\<close>)
      then show ?thesis unfolding e .
    qed
  next
    case False
    then have "most_between fits low high = low" by (subst most_between.simps) simp
    with False 1(3) show ?thesis by simp
  qed
qed

lemma most_sound: "most high fits \<le> high \<and> (most high fits = 0 \<or> fits (most high fits))"
  using most_between_sound [of 0 high fits] by (simp add: most_def)

lemma fit_prefix_fits:
  "fit_prefix s fits ending = Inr t \<Longrightarrow> s \<noteq> [] \<Longrightarrow> \<exists>n. t = take n s @ ending \<and> fits (take n s)"
  using most_sound [of "length s" "\<lambda>n. fits (take n s)"]
  by (auto simp: fit_prefix_def Let_def split: if_splits)

lemma cut_fields_fits: "cut_fields lib fits n current = Inl kvs \<Longrightarrow> fits (JObj kvs)"
  by (induction n arbitrary: current) (auto simp: Let_def split: if_splits option.splits)

lemma keep_one_fits: "keep_one fits ts base = Inr r \<Longrightarrow> fits r"
  by (induction ts) (auto simp: Let_def split: sum.splits if_splits)

lemma cut_object_fits: "cut_object lib fits start = Inr r \<Longrightarrow> fits r"
  by (auto simp: cut_object_def Let_def split: sum.splits if_splits dest: cut_fields_fits keep_one_fits)

section \<open>Properties\<close>

text \<open>C39: The binary search for the largest cut computes what it stands for: when fitting is inherited by
  smaller cuts, the result is the maximum of the cuts up to the bound that fit, and zero when none
  does.\<close>

theorem most_is_maximum:
  assumes "\<And>m n. m \<le> n \<Longrightarrow> n \<le> high \<Longrightarrow> fits n \<Longrightarrow> fits m"
  shows "most high fits = Max (insert 0 (Set.filter fits {0..high}))"
proof (rule sym, rule Max_eqI)
  fix n assume "n \<in> insert 0 (Set.filter fits {0..high})"
  then show "n \<le> most high fits"
    using most_between_complete [of high fits 0 n] assms by (auto simp: most_def)
qed (use most_sound [of high fits] in auto)

text \<open>C38: A tool result is never returned above its token limit.  Cutting leaves a result that fits as it is,
  and whatever the tokenizer and however the result nests, what is returned otherwise fits the limit,
  or an error is raised; the one exception is an empty text, which the code does not measure again.\<close>

theorem fitted_response_fits:
  assumes "fit_tool_response lib value count limit = Inr r"
  shows "if response_fits lib count limit value then r = value
    else response_fits lib count limit r \<or> value = JStr []"
proof (cases "response_fits lib count limit value")
  case False
  let ?fits = "response_fits lib count limit"
  show ?thesis
  proof (cases "\<exists>s. value = JStr s")
    case True
    then obtain s where s: "value = JStr s" by blast
    let ?ending = "ellipsis @ u '' ['' @ MORE_WAS_CUT @ u '']''"
    obtain t where "fit_prefix s (\<lambda>text. ?fits (JStr (text @ ?ending))) ?ending = Inr t" "r = JStr t"
      using assms False by (auto simp: fit_tool_response_def s Let_def tbind_Inr)
    then show ?thesis using fit_prefix_fits [of s] s False by (cases "s = []") force+
  next
    case n: False
    then obtain start where "cut_object lib ?fits start = Inr r"
      using assms False unfolding fit_tool_response_def by (cases "value") (auto simp: Let_def)
    then show ?thesis using False cut_object_fits by auto
  qed
qed (use assms in \<open>simp add: fit_tool_response_def\<close>)

end
