(* ===== verification/ToolValidate.thy ===== *)
theory ToolValidate
  imports ToolProtocol
begin

text \<open>
  Validation of tool arguments against the supported subset of JSON schema
  (runtime/minicpm_ft/mcpmft/tool_protocol.py, \<open>validate_tool_calls\<close>, \<open>validate_json_schema\<close> and
  \<open>_validate_schema_value\<close>).  The path argument of the code serves only its messages and is left out.
  A check is \<open>None\<close> or the exception it raises; checks that the code makes in sequence are the list
  whose first exception counts.
\<close>

section \<open>Operations\<close>

fun first_error :: "tool_error option list \<Rightarrow> tool_error option" where
  "first_error [] = None"
| "first_error (Some e # es) = Some e"
| "first_error (None # es) = first_error es"

definition fail_if :: "bool \<Rightarrow> string \<Rightarrow> tool_error option" where
  "fail_if b msg = (if b then Some (ToolProtocolError msg) else None)"

abbreviation type_error :: tool_error where
  "type_error \<equiv> Uncaught (TypeError ''unsupported operand'')"

definition has_key :: "(ustr \<times> ustr jsn) list \<Rightarrow> string \<Rightarrow> bool" where
  "has_key kvs k \<longleftrightarrow> map_of kvs (u k) \<noteq> None"

text \<open>\<open>int(value)\<close>\<close>

definition py_int :: "pylib \<Rightarrow> ustr jsn \<Rightarrow> int tool_res" where
  "py_int lib v =
     (case v of
        JInt i \<Rightarrow> Inr i
      | JBool b \<Rightarrow> Inr (if b then 1 else 0)
      | JFloat q \<Rightarrow> Inr (if q \<ge> 0 then \<lfloor>q\<rfloor> else - \<lfloor>- q\<rfloor>)
      | JStr s \<Rightarrow> (case py_int_of lib s of
          None \<Rightarrow> Inl (Uncaught (ValueError ''invalid literal for int'')) | Some i \<Rightarrow> Inr i)
      | _ \<Rightarrow> Inl type_error)"

subsection \<open>Types\<close>

definition matches_json_type :: "ustr jsn \<Rightarrow> ustr jsn \<Rightarrow> bool tool_res" where
  "matches_json_type v expected =
     (case expected of
        JStr t \<Rightarrow>
          (let t' = alias_of t in
           if t' = u ''object'' then Inr (case v of JObj _ \<Rightarrow> True | _ \<Rightarrow> False)
           else if t' = u ''array'' then Inr (case v of JList _ \<Rightarrow> True | _ \<Rightarrow> False)
           else if t' = u ''string'' then Inr (case v of JStr _ \<Rightarrow> True | _ \<Rightarrow> False)
           else if t' = u ''integer'' then Inr (case v of JInt _ \<Rightarrow> True | _ \<Rightarrow> False)
           else if t' = u ''number'' then Inr (case v of JInt _ \<Rightarrow> True | JFloat _ \<Rightarrow> True | _ \<Rightarrow> False)
           else if t' = u ''boolean'' then Inr (case v of JBool _ \<Rightarrow> True | _ \<Rightarrow> False)
           else if t' = u ''null'' then Inr (v = JNull)
           else Inl (ToolProtocolError ''unsupported JSON schema type''))
      | JList _ \<Rightarrow> Inl type_error
      | JObj _ \<Rightarrow> Inl type_error
      | _ \<Rightarrow> Inl (ToolProtocolError ''unsupported JSON schema type''))"

fun matches_any_type :: "ustr jsn \<Rightarrow> ustr jsn list \<Rightarrow> bool tool_res" where
  "matches_any_type v [] = Inr False"
| "matches_any_type v (t # ts) =
     tbind (matches_json_type v t) (\<lambda>b. if b then Inr True else matches_any_type v ts)"

definition type_check :: "ustr jsn \<Rightarrow> (ustr \<times> ustr jsn) list \<Rightarrow> tool_error option" where
  "type_check v schema =
     (case get schema ''type'' of
        JList ts \<Rightarrow>
          (case matches_any_type v ts of
             Inl e \<Rightarrow> Some e | Inr b \<Rightarrow> fail_if (\<not> b) ''does not match any allowed JSON type'')
      | JStr t \<Rightarrow>
          (case matches_json_type v (JStr t) of
             Inl e \<Rightarrow> Some e | Inr b \<Rightarrow> fail_if (\<not> b) ''must be the type'')
      | _ \<Rightarrow> None)"

subsection \<open>Constants and enumerations\<close>

text \<open>\<open>value in container\<close>\<close>

definition py_in :: "ustr jsn \<Rightarrow> ustr jsn \<Rightarrow> bool tool_res" where
  "py_in v container =
     (case container of
        JList xs \<Rightarrow> Inr (\<exists>x \<in> set xs. json_eq v x)
      | JStr t \<Rightarrow> (case v of JStr s \<Rightarrow> Inr (find_sub s t \<noteq> None) | _ \<Rightarrow> Inl type_error)
      | JObj kvs \<Rightarrow>
          (case v of
             JStr s \<Rightarrow> Inr (map_of kvs s \<noteq> None)
           | JList _ \<Rightarrow> Inl type_error | JObj _ \<Rightarrow> Inl type_error
           | _ \<Rightarrow> Inr False)
      | _ \<Rightarrow> Inl type_error)"

definition value_check :: "ustr jsn \<Rightarrow> (ustr \<times> ustr jsn) list \<Rightarrow> tool_error option" where
  "value_check v schema =
     first_error
       [fail_if (has_key schema ''const'' \<and> \<not> json_eq v (get schema ''const'')) ''does not match const'',
        type_check v schema,
        if has_key schema ''enum''
        then (case py_in v (get schema ''enum'') of
                Inl e \<Rightarrow> Some e | Inr b \<Rightarrow> fail_if (\<not> b) ''is not one of the allowed values'')
        else None]"

subsection \<open>Objects, arrays, strings and numbers\<close>

definition object_check :: "(ustr \<times> ustr jsn) list \<Rightarrow> (ustr \<times> ustr jsn) list \<Rightarrow> tool_error option" where
  "object_check fs schema =
     (case (get_or schema ''properties'' (JObj []), get_or schema ''required'' (JList [])) of
        (JObj properties, JList required) \<Rightarrow>
          first_error
            [first_error (map (\<lambda>name. case py_in name (JObj fs) of
               Inl e \<Rightarrow> Some e | Inr b \<Rightarrow> fail_if (\<not> b) ''a field is required'') required),
             fail_if (get schema ''additionalProperties'' = JBool False \<and>
               (\<exists>k \<in> fst ` set fs. map_of properties k = None)) ''has unexpected fields'']
      | _ \<Rightarrow> Some (ToolProtocolError ''has malformed object schema''))"

text \<open>The schema of a field: its own, else the one of additional properties, else none.\<close>

definition field_schema :: "(ustr \<times> ustr jsn) list \<Rightarrow> ustr \<Rightarrow> (ustr \<times> ustr jsn) list option" where
  "field_schema schema name =
     (case map_of (fields_of (get schema ''properties'')) name of
        Some (JObj child) \<Rightarrow> Some child
      | _ \<Rightarrow> (case get schema ''additionalProperties'' of JObj child \<Rightarrow> Some child | _ \<Rightarrow> None))"

definition size_limit ::
  "pylib \<Rightarrow> (ustr \<times> ustr jsn) list \<Rightarrow> string \<Rightarrow> (int \<Rightarrow> bool) \<Rightarrow> string \<Rightarrow> tool_error option" where
  "size_limit lib schema key bad msg =
     (if get schema key = JNull then None
      else (case py_int lib (get schema key) of Inl e \<Rightarrow> Some e | Inr n \<Rightarrow> fail_if (bad n) msg))"

definition array_check :: "pylib \<Rightarrow> ustr jsn list \<Rightarrow> (ustr \<times> ustr jsn) list \<Rightarrow> tool_error option" where
  "array_check lib xs schema =
     first_error
       [size_limit lib schema ''minItems'' (\<lambda>n. int (length xs) < n) ''is shorter than minItems'',
        size_limit lib schema ''maxItems'' (\<lambda>n. int (length xs) > n) ''exceeds maxItems'',
        fail_if (truthy (get schema ''uniqueItems'') \<and>
          has_repeats (map (\<lambda>x. compact_json lib (sort_keys x)) xs)) ''must contain unique items'']"

definition string_check :: "pylib \<Rightarrow> ustr \<Rightarrow> (ustr \<times> ustr jsn) list \<Rightarrow> tool_error option" where
  "string_check lib s schema =
     first_error
       [size_limit lib schema ''minLength'' (\<lambda>n. int (length s) < n) ''is shorter than minLength'',
        size_limit lib schema ''maxLength'' (\<lambda>n. int (length s) > n) ''exceeds maxLength'',
        case get schema ''pattern'' of
          JNull \<Rightarrow> None
        | p \<Rightarrow>
            (case re_search lib (case p of JStr t \<Rightarrow> t | _ \<Rightarrow> py_str lib p) s of
               None \<Rightarrow> Some (ToolProtocolError ''has invalid schema pattern'')
             | Some b \<Rightarrow> fail_if (\<not> b) ''does not match the required pattern'')]"

definition number_limit ::
  "rat \<Rightarrow> (ustr \<times> ustr jsn) list \<Rightarrow> string \<Rightarrow> (rat \<Rightarrow> bool) \<Rightarrow> string \<Rightarrow> tool_error option" where
  "number_limit q schema key bad msg =
     (if get schema key = JNull then None
      else (case num_of (get schema key) of None \<Rightarrow> Some type_error | Some b \<Rightarrow> fail_if (bad b) msg))"

definition number_check :: "rat \<Rightarrow> (ustr \<times> ustr jsn) list \<Rightarrow> tool_error option" where
  "number_check q schema =
     first_error
       [number_limit q schema ''minimum'' (\<lambda>b. q < b) ''is below minimum'',
        number_limit q schema ''maximum'' (\<lambda>b. q > b) ''exceeds maximum'',
        number_limit q schema ''exclusiveMinimum'' (\<lambda>b. q \<le> b) ''must be greater than exclusiveMinimum'',
        number_limit q schema ''exclusiveMaximum'' (\<lambda>b. q \<ge> b) ''must be less than exclusiveMaximum'']"

subsection \<open>The validator\<close>

text \<open>The verdict of one of \<open>allOf\<close>, \<open>anyOf\<close> and \<open>oneOf\<close> from those of its branches.\<close>

definition caught :: "tool_error option \<Rightarrow> bool" where
  "caught r \<longleftrightarrow> (case r of None \<Rightarrow> True | Some (ToolProtocolError _) \<Rightarrow> True | _ \<Rightarrow> False)"

definition branch_check ::
  "string \<Rightarrow> ustr jsn \<Rightarrow> tool_error option list \<Rightarrow> tool_error option" where
  "branch_check name branches results =
     (case branches of
        JNull \<Rightarrow> None
      | JList bs \<Rightarrow>
          (if \<exists>b \<in> set bs. (case b of JObj _ \<Rightarrow> False | _ \<Rightarrow> True)
           then Some (ToolProtocolError ''has malformed branches'')
           else first_error
             [first_error (filter (\<lambda>r. \<not> caught r) results),
              fail_if (name = ''allOf'' \<and> (\<exists>r \<in> set results. r \<noteq> None)) ''does not satisfy allOf'',
              fail_if (name = ''anyOf'' \<and> (\<forall>r \<in> set results. r \<noteq> None)) ''does not satisfy anyOf'',
              fail_if (name = ''oneOf'' \<and> length (filter (\<lambda>r. r = None) results) \<noteq> 1)
                ''does not satisfy exactly one oneOf branch''])
      | _ \<Rightarrow> Some (ToolProtocolError ''has malformed branches''))"

definition branches_of :: "(ustr \<times> ustr jsn) list \<Rightarrow> string \<Rightarrow> ustr jsn list" where
  "branches_of schema name = (case get schema name of JList bs \<Rightarrow> bs | _ \<Rightarrow> [])"

lemma get_size: "get kvs k \<noteq> JNull \<Longrightarrow> size (get kvs k) < size (JObj kvs)"
proof -
  have "map_of kvs x = Some v \<Longrightarrow> size v < size (JObj kvs)" for x v
    by (induction kvs) (auto split: if_splits)
  then show "get kvs k \<noteq> JNull \<Longrightarrow> size (get kvs k) < size (JObj kvs)"
    by (auto simp: get_def split: option.splits)
qed

lemma branches_of_size: "b \<in> set (branches_of schema name) \<Longrightarrow> size b < size (JObj schema)"
proof -
  assume b: "b \<in> set (branches_of schema name)"
  then obtain bs where bs: "get schema name = JList bs" "b \<in> set bs"
    by (cases "get schema name") (auto simp: branches_of_def)
  have "size b < size (JList bs)" using bs(2) by (induction bs) auto
  with bs(1) get_size [of schema name] show ?thesis by simp
qed

lemma field_schema_size: "field_schema schema name = Some child \<Longrightarrow> size (JObj child) < size (JObj schema)"
proof -
  assume f: "field_schema schema name = Some child"
  have sub: "map_of kvs x = Some v \<Longrightarrow> size v < size (JObj kvs)" for x v and kvs :: "(ustr \<times> ustr jsn) list"
    by (induction kvs) (auto split: if_splits)
  from f consider ps where "get schema ''properties'' = JObj ps" "map_of ps name = Some (JObj child)"
    | "get schema ''additionalProperties'' = JObj child"
    by (auto simp: field_schema_def fields_of_def split: option.splits jsn.splits)
  then show ?thesis
  proof cases
    case (1 ps)
    with sub [of ps name "JObj child"] get_size [of schema "''properties''"] show ?thesis by simp
  next
    case 2
    with get_size [of schema "''additionalProperties''"] show ?thesis by simp
  qed
qed

function (sequential) validate_schema_value ::
  "pylib \<Rightarrow> ustr jsn \<Rightarrow> (ustr \<times> ustr jsn) list \<Rightarrow> tool_error option" where
  "validate_schema_value lib v schema =
     first_error
       (map (\<lambda>name. branch_check name (get schema name)
          (map (\<lambda>b. case b of JObj branch \<Rightarrow> validate_schema_value lib v branch | _ \<Rightarrow> None)
            (branches_of schema name))) [''allOf'', ''anyOf'', ''oneOf''] @
        [value_check v schema,
         case v of
           JObj fs \<Rightarrow>
             first_error (object_check fs schema #
               map (\<lambda>(name, child). case field_schema schema name of
                 Some child_schema \<Rightarrow> validate_schema_value lib child child_schema | None \<Rightarrow> None) fs)
         | JList xs \<Rightarrow>
             first_error (array_check lib xs schema #
               (case get schema ''items'' of
                  JObj items \<Rightarrow> map (\<lambda>x. validate_schema_value lib x items) xs | _ \<Rightarrow> []))
         | JStr s \<Rightarrow> string_check lib s schema
         | JInt i \<Rightarrow> number_check (of_int i) schema
         | JFloat q \<Rightarrow> number_check q schema
         | _ \<Rightarrow> None])"
  by pat_completeness auto
termination
proof (relation "measure (\<lambda>(lib, v, schema). size (JObj schema))", simp)
  fix lib v schema z b branch
  assume "b \<in> set (branches_of schema z)" "b = JObj branch"
  then show "((lib, v, branch), lib, v, schema) \<in> measure (\<lambda>(lib, v, schema). size (JObj schema))"
    using branches_of_size [of b schema z] by simp
next
  fix lib v schema fs p name child child_schema
  assume "field_schema schema name = Some child_schema"
  then show "((lib, child, child_schema), lib, v, schema) \<in> measure (\<lambda>(lib, v, schema). size (JObj schema))"
    using field_schema_size by simp
next
  fix lib v schema xs items x
  assume "get schema ''items'' = JObj items"
  then show "((lib, x, items), lib, v, schema) \<in> measure (\<lambda>(lib, v, schema). size (JObj schema))"
    using get_size [of schema "''items''"] by simp
qed

declare validate_schema_value.simps [simp del]

definition validate_json_schema :: "pylib \<Rightarrow> ustr jsn \<Rightarrow> ustr jsn \<Rightarrow> tool_error option" where
  "validate_json_schema lib v schema =
     (case schema of
        JObj kvs \<Rightarrow> validate_schema_value lib v (alias_type (normalize_pairs kvs))
      | _ \<Rightarrow> Some (ToolProtocolError ''schema must be an object''))"

text \<open>\<open>ToolValidationResult\<close>: the calls and the error, if any; other exceptions leave the function.\<close>

definition checked_call :: "pylib \<Rightarrow> tool_schema list \<Rightarrow> tool_call \<Rightarrow> tool_call tool_res" where
  "checked_call lib schemas call =
     (case tool_named schemas (tc_name call) of
        None \<Rightarrow> Inl (ToolProtocolError ''tool is not available'')
      | Some schema \<Rightarrow>
          (case validate_schema_value lib (JObj (tc_arguments call)) (ts_parameters schema) of
             Some e \<Rightarrow> Inl e | None \<Rightarrow> Inr call))"

definition checked_calls ::
  "pylib \<Rightarrow> (ustr \<times> ustr jsn) list list \<Rightarrow> (ustr \<times> ustr jsn) list list \<Rightarrow> int \<Rightarrow> tool_call list tool_res" where
  "checked_calls lib calls tools max_calls =
     tbind (tmap (normalize_tool_call lib) calls) (\<lambda>normalized.
       if normalized = [] then Inl (ToolProtocolError ''empty tool-call sequence'')
       else if int (length normalized) > max_calls
       then Inl (ToolProtocolError ''realtime tool unit contains too many calls'')
       else tbind (tmap (normalize_tool_schema lib) tools) (\<lambda>schemas.
         tmap (checked_call lib schemas) normalized))"

definition validate_tool_calls ::
  "pylib \<Rightarrow> (ustr \<times> ustr jsn) list list \<Rightarrow> (ustr \<times> ustr jsn) list list \<Rightarrow> int \<Rightarrow>
   (tool_call list \<times> string option) tool_res" where
  "validate_tool_calls lib calls tools max_calls =
     (case checked_calls lib calls tools max_calls of
        Inr normalized \<Rightarrow> Inr (normalized, None)
      | Inl (ToolProtocolError msg) \<Rightarrow> Inr ([], Some msg)
      | Inl e \<Rightarrow> Inl e)"

section \<open>Laws\<close>

lemma first_error_None [simp]: "first_error es = None \<longleftrightarrow> (\<forall>e \<in> set es. e = None)"
  by (induction es rule: first_error.induct) auto

lemma fail_if_None [simp]: "fail_if b msg = None \<longleftrightarrow> \<not> b"
  by (simp add: fail_if_def)

text \<open>A schema without branches accepts a value by its own checks.\<close>

lemma plain_schema:
  assumes "get schema ''allOf'' = JNull" "get schema ''anyOf'' = JNull" "get schema ''oneOf'' = JNull"
  shows "validate_schema_value lib v schema = None \<longleftrightarrow> value_check v schema = None \<and>
    (case v of
       JObj fs \<Rightarrow> object_check fs schema = None \<and>
         (\<forall>(name, child) \<in> set fs. case field_schema schema name of
            Some child_schema \<Rightarrow> validate_schema_value lib child child_schema = None | None \<Rightarrow> True)
     | JList xs \<Rightarrow> array_check lib xs schema = None \<and>
         (case get schema ''items'' of
            JObj items \<Rightarrow> \<forall>x \<in> set xs. validate_schema_value lib x items = None | _ \<Rightarrow> True)
     | JStr s \<Rightarrow> string_check lib s schema = None
     | JInt i \<Rightarrow> number_check (of_int i) schema = None
     | JFloat q \<Rightarrow> number_check q schema = None
     | _ \<Rightarrow> True)"
  by (subst validate_schema_value.simps)
    (auto simp: assms branch_check_def split: jsn.split option.split)

definition send_lane_schema :: "(ustr \<times> ustr jsn) list" where
  "send_lane_schema = fields_of (get (fields_of (get (fields_of (get (fields_of LEAN_TASK_SEND_SCHEMA)
     ''parameters'')) ''properties'')) ''lane'')"

definition send_task_schema :: "(ustr \<times> ustr jsn) list" where
  "send_task_schema = fields_of (get (fields_of (get (fields_of (get (fields_of LEAN_TASK_SEND_SCHEMA)
     ''parameters'')) ''properties'')) ''task'')"

lemma send_schema:
  "\<exists>t. normalize_tool_schema lib (fields_of LEAN_TASK_SEND_SCHEMA) = Inr t \<and> ts_name t = u ''task_send'' \<and>
     ts_parameters t = [(u ''type'', JStr (u ''object'')), (u ''additionalProperties'', JBool False),
       (u ''required'', JList [JStr (u ''lane'')]),
       (u ''properties'', JObj [(u ''task'', JObj send_task_schema), (u ''lane'', JObj send_lane_schema)])]"
  by (simp add: LEAN_TASK_SEND_SCHEMA_def normalize_tool_schema_def fields_of_def unwrap_tool_def get_def get_or_def
      valid_name_def u_strip_def u_rstrip_def u_space_def alias_type_def alias_of_def send_task_schema_def
      send_lane_schema_def)

lemma send_lane: "validate_schema_value lib v send_lane_schema = None \<longleftrightarrow>
    v = JStr (u ''main'') \<or> v = JStr (u ''fork'')"
proof -
  have k: "get send_lane_schema ''type'' = JStr (u ''string'')"
    "get send_lane_schema ''enum'' = JList [JStr (u ''main''), JStr (u ''fork'')]"
    "has_key send_lane_schema ''enum''" "\<not> has_key send_lane_schema ''const''"
    "get send_lane_schema ''allOf'' = JNull" "get send_lane_schema ''anyOf'' = JNull"
    "get send_lane_schema ''oneOf'' = JNull" "get send_lane_schema ''minLength'' = JNull"
    "get send_lane_schema ''maxLength'' = JNull" "get send_lane_schema ''pattern'' = JNull"
    by (simp_all add: send_lane_schema_def LEAN_TASK_SEND_SCHEMA_def fields_of_def get_def has_key_def)
  show ?thesis
    by (subst plain_schema [OF k(5-7)])
      (cases v; auto simp: value_check_def type_check_def k matches_json_type_def alias_of_def py_in_def
        string_check_def size_limit_def split: if_splits)
qed


lemma send_task: "validate_schema_value lib v send_task_schema = None \<longleftrightarrow>
    v = JNull \<or> (case v of JStr _ \<Rightarrow> True | _ \<Rightarrow> False)"
proof -
  have k: "get send_task_schema ''type'' = JList [JStr (u ''string''), JStr (u ''null'')]"
    "\<not> has_key send_task_schema ''enum''" "\<not> has_key send_task_schema ''const''"
    "get send_task_schema ''allOf'' = JNull" "get send_task_schema ''anyOf'' = JNull"
    "get send_task_schema ''oneOf'' = JNull" "get send_task_schema ''minLength'' = JNull"
    "get send_task_schema ''maxLength'' = JNull" "get send_task_schema ''pattern'' = JNull"
    "get send_task_schema ''properties'' = JNull" "get send_task_schema ''items'' = JNull"
    by (simp_all add: send_task_schema_def LEAN_TASK_SEND_SCHEMA_def fields_of_def get_def has_key_def)
  show ?thesis
    by (subst plain_schema [OF k(4-6)])
      (cases v; auto simp: value_check_def type_check_def k matches_json_type_def alias_of_def tbind_def
        string_check_def size_limit_def split: if_splits)
qed

section \<open>Properties\<close>

text \<open>C40: The validator admits exactly the documented arguments of \<open>task_send\<close>: a lane that is \<open>main\<close> or
  \<open>fork\<close>, at most a task beside it that is a text or null, and nothing else.\<close>

theorem send_arguments_are_exact:
  assumes "distinct (map fst args)"
  shows "\<exists>t. normalize_tool_schema lib (fields_of LEAN_TASK_SEND_SCHEMA) = Inr t \<and>
    (validate_schema_value lib (JObj args) (ts_parameters t) = None \<longleftrightarrow>
       map_of args (u ''lane'') \<in> {Some (JStr (u ''main'')), Some (JStr (u ''fork''))} \<and>
       fst ` set args \<subseteq> {u ''task'', u ''lane''} \<and>
       (case map_of args (u ''task'') of
          None \<Rightarrow> True | Some JNull \<Rightarrow> True | Some (JStr _) \<Rightarrow> True | _ \<Rightarrow> False))"
proof -
  obtain t where t: "normalize_tool_schema lib (fields_of LEAN_TASK_SEND_SCHEMA) = Inr t"
    and ps: "ts_parameters t = [(u ''type'', JStr (u ''object'')), (u ''additionalProperties'', JBool False),
       (u ''required'', JList [JStr (u ''lane'')]),
       (u ''properties'', JObj [(u ''task'', JObj send_task_schema), (u ''lane'', JObj send_lane_schema)])]"
    using send_schema by blast
  have k: "get (ts_parameters t) ''allOf'' = JNull" "get (ts_parameters t) ''anyOf'' = JNull"
    "get (ts_parameters t) ''oneOf'' = JNull" by (simp_all add: ps get_def)
  have v: "value_check (JObj args) (ts_parameters t) = None"
    by (simp add: ps value_check_def has_key_def type_check_def get_def matches_json_type_def alias_of_def)
  have o: "object_check args (ts_parameters t) = None \<longleftrightarrow>
      map_of args (u ''lane'') \<noteq> None \<and> fst ` set args \<subseteq> {u ''task'', u ''lane''}"
    by (auto simp: ps object_check_def get_or_def get_def py_in_def split: if_splits)
  have f: "field_schema (ts_parameters t) name =
      (if name = u ''task'' then Some send_task_schema else if name = u ''lane'' then Some send_lane_schema else None)"
    for name by (auto simp: ps field_schema_def get_def fields_of_def)
  have "(\<forall>(name, child) \<in> set args. case field_schema (ts_parameters t) name of
        Some s \<Rightarrow> validate_schema_value lib child s = None | None \<Rightarrow> True) \<longleftrightarrow>
      (case map_of args (u ''task'') of
         None \<Rightarrow> True | Some JNull \<Rightarrow> True | Some (JStr _) \<Rightarrow> True | _ \<Rightarrow> False) \<and>
      (case map_of args (u ''lane'') of
         None \<Rightarrow> True | Some w \<Rightarrow> w = JStr (u ''main'') \<or> w = JStr (u ''fork''))" (is "?all \<longleftrightarrow> ?two")
  proof -
    have "?all \<longleftrightarrow> (\<forall>w. map_of args (u ''task'') = Some w \<longrightarrow> validate_schema_value lib w send_task_schema = None) \<and>
        (\<forall>w. map_of args (u ''lane'') = Some w \<longrightarrow> validate_schema_value lib w send_lane_schema = None)"
      using assms by (fastforce simp: f split: if_splits dest: map_of_SomeD)
    also have "\<dots> \<longleftrightarrow> ?two"
      unfolding send_lane send_task by (auto split: option.split jsn.split)
    finally show ?thesis .
  qed
  with o v k show ?thesis
    by (intro exI [of _ t] conjI t) (auto simp: plain_schema split: option.splits)
qed

end
