(* ===== verification/ToolWitnesses.thy ===== *)
theory ToolWitnesses
  imports TaskNames ToolFit ToolValidate
begin

text \<open>
  The properties of the tool protocol, each applied to concrete texts and calls.  The sample library
  prints and reads every float as zero and measures a text by its length.
\<close>

definition lib0 :: pylib where
  "lib0 = \<lparr>show_float = (\<lambda>_. u ''0.0''), read_float = (\<lambda>_. 0), py_str = (\<lambda>_. u ''?''),
     py_int_of = (\<lambda>_. None), re_search = (\<lambda>_ _. None)\<rparr>"

definition measured :: "ustr \<Rightarrow> int" where
  "measured s = int (length s)"

section \<open>Task names\<close>

lemma assign_witness:
  "\<exists>name. assign_frontbrain_task_name (JStr (u ''tea'')) {u ''tea''} = Some (Inr name) \<and>
     name \<notin> {u ''tea''} \<and> length name \<le> 60"
proof -
  have "u_split (u ''tea'') = [u ''tea'']"
    by (subst u_split.simps) (simp add: u_def u_space_def u_split.simps [of "[]"])
  then have n: "normalize_frontbrain_task_name (JStr (u ''tea'')) = Inr (u ''tea'')"
    by (simp add: normalize_frontbrain_task_name_def reserved_def u_def TASK_NAME_MAX_CHARS_def)
  have card: "card {u ''tea''} < 10 ^ 58" by simp
  obtain r where r: "assign_frontbrain_task_name (JStr (u ''tea'')) {u ''tea''} = Some r"
    "case r of Inl e \<Rightarrow> normalize_frontbrain_task_name (JStr (u ''tea'')) = Inl e
     | Inr name \<Rightarrow> name \<notin> {u ''tea''} \<and> name \<noteq> [] \<and>
         (card {u ''tea''} < 10 ^ 58 \<longrightarrow> length name \<le> 60)"
    using assign_returns [of "{u ''tea''}" "JStr (u ''tea'')"] by blast
  then show ?thesis using n card by (cases r) simp_all
qed

section \<open>Calls\<close>

text \<open>A call with an argument that contains the tag that closes a call, and one that is a float.\<close>

definition lib_half :: pylib where
  "lib_half = lib0\<lparr>show_float := (\<lambda>q. if q = - 3 / 2 then u ''-1.5'' else u ''0.0''),
     read_float := (\<lambda>s. if s = u ''-1.5'' then - 3 / 2 else 0)\<rparr>"

definition call1 :: "(ustr \<times> ustr jsn) list" where
  "call1 = [(u ''name'', JStr (u '' task_send '')),
     (u ''arguments'', JObj [(u ''text'', JStr (u ''a </tool_call> b'')), (u ''weight'', JFloat (- 3 / 2))])]"

definition parsed1 :: tool_call where
  "parsed1 = \<lparr>tc_name = u ''task_send'', tc_arguments = [(u ''text'', JStr (u ''a </tool_call> b'')), (u ''weight'', JFloat (- 3 / 2))]\<rparr>"

lemma round_trip_witness:
  "\<exists>t. format_tool_calls lib_half [call1] = Inr t \<and> parse_tool_calls lib_half t = Inr [parsed1]"
proof (rule tool_calls_round_trip)
  show "tmap (normalize_tool_call lib_half) [call1] = Inr [parsed1]"
    by (simp add: normalize_tool_call_def call1_def parsed1_def unwrap_call_def valid_name_def get_def u_def
        u_strip_def u_rstrip_def u_space_def tbind_def)
  have "float_kept (show_float lib_half) (read_float lib_half) (- 3 / 2)" by code_simp
  then show "list_all (\<lambda>c. printable (show_float lib_half) (read_float lib_half) (JObj (tc_arguments c))) [parsed1]"
    by (simp add: parsed1_def u_def)
qed simp

section \<open>Fitting\<close>

lemma most_witness: "most 10 (\<lambda>n. n \<le> 3) = Max (insert 0 (Set.filter (\<lambda>n. n \<le> 3) {0..10}))"
  by (rule most_is_maximum) simp

definition long_text :: "ustr jsn" where
  "long_text = JStr (replicate 120 97)"

lemma fitted_witness:
  "\<exists>r. fit_tool_response lib0 long_text measured 140 = Inr r \<and> r \<noteq> long_text \<and>
     response_fits lib0 measured 140 r"
proof -
  have c: "case fit_tool_response lib0 long_text measured 140 of Inl e \<Rightarrow> False | Inr r \<Rightarrow> True"
    "\<not> response_fits lib0 measured 140 long_text" by code_simp+
  then obtain r where r: "fit_tool_response lib0 long_text measured 140 = Inr r" by (auto split: sum.splits)
  from fitted_response_fits [OF this] c(2) have "response_fits lib0 measured 140 r"
    by (simp add: long_text_def)
  with r c(2) show ?thesis by auto
qed

text \<open>The exception is real: an empty text comes back as a note that nobody measured.\<close>

lemma empty_text_is_not_measured:
  "\<exists>r. fit_tool_response lib0 (JStr []) measured 1 = Inr r \<and> \<not> response_fits lib0 measured 1 r"
proof -
  have "case fit_tool_response lib0 (JStr []) measured 1 of
      Inl e \<Rightarrow> False | Inr r \<Rightarrow> \<not> response_fits lib0 measured 1 r" by code_simp
  then show ?thesis by (auto split: sum.splits)
qed

section \<open>Arguments\<close>

lemma send_witness:
  "\<exists>t. normalize_tool_schema lib0 (fields_of LEAN_TASK_SEND_SCHEMA) = Inr t \<and>
     validate_schema_value lib0 (JObj [(u ''lane'', JStr (u ''main''))]) (ts_parameters t) = None"
proof -
  have "distinct (map fst [(u ''lane'', JStr (u ''main''))])" by simp
  from send_arguments_are_exact [OF this, of lib0] show ?thesis by auto
qed

end
