(* ===== verification/ExecutionStore.thy ===== *)
theory ExecutionStore
  imports JsonText "HOL-Library.AList"
begin

text \<open>
  The persistence of remote execution runs (src/gnsis/service/executor/store.py and models.py).

  The state is the tables \<open>execution_runs\<close>, \<open>memory_consumptions\<close>, \<open>execution_model_calls\<close> and
  \<open>execution_events\<close> (src/gnsis/service/orm.py), each in insertion order, so the autoincrement id of
  a row is its position.  One \<open>session_scope()\<close> is one transaction and one step; a conditional
  \<open>UPDATE ... WHERE\<close> is one atomic update of the rows that match.  Times are integers, the argument
  \<open>now\<close> is what \<open>_utcnow()\<close> returns in the call, money is rational, texts are lists of code points.
  Left out are \<open>updated_at\<close>, which the database layer maintains, the creation times of
  consumption rows, which nothing reads, and foreign keys: the rows a call names exist.
\<close>

section \<open>Vocabulary\<close>

datatype ExecutionStatus =
  EPending | EDispatched | EAuthenticated | ERunning | EValidating | ECompleted | EFailed |
  ECancelled | EBlocked

definition TERMINAL :: "ExecutionStatus set" where
  "TERMINAL = {ECompleted, EFailed, ECancelled, EBlocked}"

definition TOKEN_ACTIVE :: "ExecutionStatus set" where
  "TOKEN_ACTIVE = {EAuthenticated, ERunning, EValidating}"

datatype FailureCategory =
  FDispatch | FOidc | FTimeout | FExecutorError | FValidation | FSecurity | FBudget | FCancelled |
  FOrphaned | FLostCallback | FStaleAttempt | FOther ustr

record Budgets =
  max_model_calls :: int
  max_input_tokens :: int
  max_output_tokens :: int
  max_cost_usd :: rat

record Usage =
  us_model_calls :: int
  us_input_tokens :: int
  us_output_tokens :: int
  us_cost_usd :: rat

section \<open>Tables\<close>

record ExecutionRun =
  er_id :: ustr
  er_job_id :: ustr
  er_workspace_id :: "ustr option"
  er_repository_id :: "ustr option"
  er_provider :: ustr
  er_base_branch :: ustr
  er_base_sha :: ustr
  er_dispatch_nonce_hash :: ustr
  er_nonce_consumed_at :: "int option"
  er_executor_owner :: ustr
  er_executor_repository :: ustr
  er_executor_repository_id :: "int option"
  er_executor_workflow :: ustr
  er_executor_ref :: ustr
  er_trusted_workflow_sha :: ustr
  er_workflow_run_id :: "int option"
  er_workflow_run_attempt :: "int option"
  er_workflow_run_url :: "ustr option"
  er_status :: ExecutionStatus
  er_token_hash :: "ustr option"
  er_token_expires_at :: "int option"
  er_token_revoked_at :: "int option"
  er_source_downloaded_at :: "int option"
  er_patch_sha256 :: "ustr option"
  er_artifact_hashes :: "(ustr \<times> ustr jsn) list"
  er_budgets :: Budgets
  er_usage :: Usage
  er_dispatched_at :: "int option"
  er_started_at :: "int option"
  er_completed_at :: "int option"
  er_cancelled_at :: "int option"
  er_cancellation_requested_at :: "int option"
  er_last_reconciled_at :: "int option"
  er_failure_category :: "FailureCategory option"
  er_security_validation :: "ustr option"
  er_policy_name :: "ustr option"
  er_policy_version :: "int option"
  er_policy_hash :: "ustr option"
  er_memory_ids :: "ustr list option"
  er_tests_summary :: "(ustr \<times> ustr jsn) list option"
  er_outcome_summary :: "ustr option"
  er_primary_model :: "ustr option"
  er_advisor_model :: "ustr option"
  er_created_at :: int

record MemoryConsumption =
  mc_run_id :: ustr
  mc_job_id :: ustr
  mc_memory_id :: ustr
  mc_workspace_id :: "ustr option"
  mc_repository_id :: "ustr option"

record ExecutionModelCall =
  cl_run_id :: ustr
  cl_job_id :: ustr
  cl_model :: ustr
  cl_input_tokens :: int
  cl_output_tokens :: int
  cl_cost_usd :: rat
  cl_event_id :: "ustr option"
  cl_server_tool_usage :: "(ustr \<times> ustr jsn) list"
  cl_created_at :: int

record ExecutionEvent =
  xe_run_id :: ustr
  xe_job_id :: ustr
  xe_workflow_run_attempt :: "int option"
  xe_sequence :: int
  xe_idempotency_key :: ustr
  xe_kind :: ustr
  xe_payload :: "(ustr \<times> ustr jsn) list"
  xe_created_at :: int

record ExecutionStore =
  es_runs :: "ExecutionRun list"
  es_consumptions :: "MemoryConsumption list"
  es_calls :: "ExecutionModelCall list"
  es_events :: "ExecutionEvent list"

datatype store_error = NoSuchRun ustr | MultipleResultsFound | DuplicateKey

definition empty_store :: ExecutionStore where
  "empty_store = \<lparr>es_runs = [], es_consumptions = [], es_calls = [], es_events = []\<rparr>"

definition run_row :: "ExecutionStore \<Rightarrow> ustr \<Rightarrow> ExecutionRun option" where
  "run_row S k = find (\<lambda>r. er_id r = k) (es_runs S)"

text \<open>\<open>UPDATE execution_runs SET f WHERE P\<close>, with the number of rows it changes.\<close>

definition update_where ::
  "(ExecutionRun \<Rightarrow> bool) \<Rightarrow> (ExecutionRun \<Rightarrow> ExecutionRun) \<Rightarrow> ExecutionStore \<Rightarrow> nat \<times> ExecutionStore" where
  "update_where P f S =
     (length (filter P (es_runs S)), S\<lparr>es_runs := map (\<lambda>r. if P r then f r else r) (es_runs S)\<rparr>)"

text \<open>\<open>row = s.get(orm.ExecutionRun, run_id)\<close>, then assignments to its columns.\<close>

definition assign :: "ustr \<Rightarrow> (ExecutionRun \<Rightarrow> ExecutionRun) \<Rightarrow> ExecutionStore \<Rightarrow> ExecutionStore" where
  "assign k f S = snd (update_where (\<lambda>r. er_id r = k) f S)"

definition assign_or_raise ::
  "ustr \<Rightarrow> (ExecutionRun \<Rightarrow> ExecutionRun) \<Rightarrow> ExecutionStore \<Rightarrow> store_error + ExecutionStore" where
  "assign_or_raise k f S = (if run_row S k = None then Inl (NoSuchRun k) else Inr (assign k f S))"

section \<open>Creation and lookup\<close>

fun clean_ids :: "ustr set \<Rightarrow> ustr jsn list \<Rightarrow> ustr list" where
  "clean_ids seen [] = []"
| "clean_ids seen (raw # rest) =
     (case raw of
        JStr s \<Rightarrow>
          (let v = u_strip s in
           if v = [] \<or> v \<in> seen then clean_ids seen rest else v # clean_ids (insert v seen) rest)
      | _ \<Rightarrow> clean_ids seen rest)"

definition normalize_memory_ids :: "ustr jsn list option \<Rightarrow> ustr list" where
  "normalize_memory_ids ids = (case ids of None \<Rightarrow> [] | Some xs \<Rightarrow> clean_ids {} xs)"

text \<open>The arguments of \<open>create_run\<close>.\<close>

record RunRequest =
  rq_job_id :: ustr
  rq_workspace_id :: "ustr option"
  rq_repository_id :: "ustr option"
  rq_base_branch :: ustr
  rq_base_sha :: ustr
  rq_dispatch_nonce_hash :: ustr
  rq_executor_owner :: ustr
  rq_executor_repository :: ustr
  rq_executor_repository_id :: "int option"
  rq_executor_workflow :: ustr
  rq_executor_ref :: ustr
  rq_trusted_workflow_sha :: ustr
  rq_budgets :: Budgets
  rq_policy_name :: "ustr option"
  rq_policy_version :: "int option"
  rq_policy_hash :: "ustr option"
  rq_memory_ids :: "ustr jsn list option"
  rq_primary_model :: "ustr option"
  rq_advisor_model :: "ustr option"

definition new_run :: "int \<Rightarrow> ustr \<Rightarrow> RunRequest \<Rightarrow> ustr list \<Rightarrow> ExecutionRun" where
  "new_run now run_id q memory_ids =
     \<lparr>er_id = run_id, er_job_id = rq_job_id q, er_workspace_id = rq_workspace_id q,
      er_repository_id = rq_repository_id q, er_provider = u ''github_actions'',
      er_base_branch = rq_base_branch q, er_base_sha = rq_base_sha q,
      er_dispatch_nonce_hash = rq_dispatch_nonce_hash q, er_nonce_consumed_at = None,
      er_executor_owner = rq_executor_owner q, er_executor_repository = rq_executor_repository q,
      er_executor_repository_id = rq_executor_repository_id q,
      er_executor_workflow = rq_executor_workflow q, er_executor_ref = rq_executor_ref q,
      er_trusted_workflow_sha = rq_trusted_workflow_sha q, er_workflow_run_id = None,
      er_workflow_run_attempt = None, er_workflow_run_url = None, er_status = EPending,
      er_token_hash = None, er_token_expires_at = None, er_token_revoked_at = None,
      er_source_downloaded_at = None, er_patch_sha256 = None, er_artifact_hashes = [],
      er_budgets = rq_budgets q,
      er_usage = \<lparr>us_model_calls = 0, us_input_tokens = 0, us_output_tokens = 0, us_cost_usd = 0\<rparr>,
      er_dispatched_at = None, er_started_at = None, er_completed_at = None, er_cancelled_at = None,
      er_cancellation_requested_at = None, er_last_reconciled_at = None, er_failure_category = None,
      er_security_validation = None, er_policy_name = rq_policy_name q,
      er_policy_version = rq_policy_version q, er_policy_hash = rq_policy_hash q,
      er_memory_ids = (if memory_ids = [] then None else Some memory_ids), er_tests_summary = None,
      er_outcome_summary = None, er_primary_model = rq_primary_model q,
      er_advisor_model = rq_advisor_model q, er_created_at = now\<rparr>"

text \<open>\<open>run_id\<close> is what \<open>new_id("exec")\<close> draws; primary and unique keys are checked by the database.\<close>

definition create_run ::
  "ExecutionStore \<Rightarrow> int \<Rightarrow> ustr \<Rightarrow> RunRequest \<Rightarrow> store_error + ExecutionStore" where
  "create_run S now run_id q =
     (let clean = normalize_memory_ids (rq_memory_ids q);
          rows = map (\<lambda>m. \<lparr>mc_run_id = run_id, mc_job_id = rq_job_id q, mc_memory_id = m,
            mc_workspace_id = rq_workspace_id q, mc_repository_id = rq_repository_id q\<rparr>) clean
      in if run_row S run_id \<noteq> None \<or>
            \<not> distinct (map (\<lambda>c. (mc_run_id c, mc_memory_id c)) (es_consumptions S @ rows))
         then Inl DuplicateKey
         else Inr (S\<lparr>es_runs := es_runs S @ [new_run now run_id q clean],
                     es_consumptions := es_consumptions S @ rows\<rparr>))"

text \<open>\<open>ORDER BY created_at DESC LIMIT 1\<close>; of runs created at the same instant the first is taken.\<close>

fun latest :: "ExecutionRun list \<Rightarrow> ExecutionRun option" where
  "latest [] = None"
| "latest (r # rs) =
     (case latest rs of
        None \<Rightarrow> Some r
      | Some q \<Rightarrow> Some (if er_created_at r < er_created_at q then q else r))"

definition run_for_job :: "ExecutionStore \<Rightarrow> ustr \<Rightarrow> ExecutionRun option" where
  "run_for_job S job_id = latest (filter (\<lambda>r. er_job_id r = job_id) (es_runs S))"

definition run_by_token_hash :: "ExecutionStore \<Rightarrow> ustr \<Rightarrow> store_error + ExecutionRun option" where
  "run_by_token_hash S h =
     (case filter (\<lambda>r. er_token_hash r = Some h) (es_runs S) of
        [] \<Rightarrow> Inr None
      | [r] \<Rightarrow> Inr (Some r)
      | _ \<Rightarrow> Inl MultipleResultsFound)"

section \<open>Dispatch, nonce and token\<close>

definition mark_dispatched ::
  "ExecutionStore \<Rightarrow> int \<Rightarrow> ustr \<Rightarrow> int option \<Rightarrow> int option \<Rightarrow> ustr option \<Rightarrow>
   store_error + ExecutionStore" where
  "mark_dispatched S now k run_id attempt url =
     assign_or_raise k (\<lambda>r. r\<lparr>er_status := EDispatched, er_workflow_run_id := run_id,
       er_workflow_run_attempt := attempt, er_workflow_run_url := url, er_dispatched_at := Some now\<rparr>) S"

definition set_workflow_run ::
  "ExecutionStore \<Rightarrow> ustr \<Rightarrow> int \<Rightarrow> int \<Rightarrow> ustr option \<Rightarrow> store_error + ExecutionStore" where
  "set_workflow_run S k run_id attempt url =
     assign_or_raise k (\<lambda>r. r\<lparr>er_workflow_run_id := Some run_id, er_workflow_run_attempt := Some attempt,
       er_workflow_run_url := (case url of Some (c # s) \<Rightarrow> url | _ \<Rightarrow> er_workflow_run_url r)\<rparr>) S"

definition nonce_open :: "ustr \<Rightarrow> ustr \<Rightarrow> ExecutionRun \<Rightarrow> bool" where
  "nonce_open k h r \<longleftrightarrow> er_id r = k \<and> er_dispatch_nonce_hash r = h \<and> er_nonce_consumed_at r = None \<and>
     er_status r \<in> {EPending, EDispatched}"

definition consume_nonce :: "ExecutionStore \<Rightarrow> int \<Rightarrow> ustr \<Rightarrow> ustr \<Rightarrow> bool \<times> ExecutionStore" where
  "consume_nonce S now k h =
     (case update_where (nonce_open k h) (\<lambda>r. r\<lparr>er_nonce_consumed_at := Some now\<rparr>) S of
        (n, S') \<Rightarrow> (n = 1, S'))"

definition nonce_matches :: "ExecutionStore \<Rightarrow> ustr \<Rightarrow> ustr \<Rightarrow> bool" where
  "nonce_matches S k h \<longleftrightarrow>
     (case run_row S k of None \<Rightarrow> False | Some r \<Rightarrow> er_dispatch_nonce_hash r = h)"

definition bind_token ::
  "ExecutionStore \<Rightarrow> ustr \<Rightarrow> ustr \<Rightarrow> int \<Rightarrow> store_error + ExecutionStore" where
  "bind_token S k h expires =
     assign_or_raise k (\<lambda>r. r\<lparr>er_token_hash := Some h, er_token_expires_at := Some expires,
       er_token_revoked_at := None, er_status := EAuthenticated\<rparr>) S"

definition revoke_token :: "ExecutionStore \<Rightarrow> int \<Rightarrow> ustr \<Rightarrow> ExecutionStore" where
  "revoke_token S now k =
     assign k (\<lambda>r. if er_token_revoked_at r = None then r\<lparr>er_token_revoked_at := Some now\<rparr> else r) S"

definition token_expires_at :: "ExecutionStore \<Rightarrow> ustr \<Rightarrow> int option" where
  "token_expires_at S k = (case run_row S k of None \<Rightarrow> None | Some r \<Rightarrow> er_token_expires_at r)"

section \<open>Source, status and results\<close>

definition claim_source_download :: "ExecutionStore \<Rightarrow> int \<Rightarrow> ustr \<Rightarrow> bool \<times> ExecutionStore" where
  "claim_source_download S now k =
     (case update_where (\<lambda>r. er_id r = k \<and> er_source_downloaded_at r = None)
         (\<lambda>r. r\<lparr>er_source_downloaded_at := Some now\<rparr>) S of
        (n, S') \<Rightarrow> (n = 1, S'))"

definition set_status ::
  "ExecutionStore \<Rightarrow> int \<Rightarrow> ustr \<Rightarrow> ExecutionStatus \<Rightarrow> FailureCategory option \<Rightarrow> ustr option \<Rightarrow>
   store_error + ExecutionStore" where
  "set_status S now k status category security =
     assign_or_raise k (\<lambda>r. r\<lparr>er_status := status,
       er_failure_category := (if category = None then er_failure_category r else category),
       er_security_validation := (if security = None then er_security_validation r else security),
       er_started_at := (if status = ERunning \<and> er_started_at r = None then Some now else er_started_at r),
       er_completed_at := (if status \<in> {ECompleted, EFailed, EBlocked} then Some now else er_completed_at r),
       er_cancelled_at := (if status = ECancelled then Some now else er_cancelled_at r)\<rparr>) S"

definition mark_started :: "ExecutionStore \<Rightarrow> int \<Rightarrow> ustr \<Rightarrow> store_error + ExecutionStore" where
  "mark_started S now k = set_status S now k ERunning None None"

definition set_patch_result ::
  "ExecutionStore \<Rightarrow> ustr \<Rightarrow> ustr \<Rightarrow> (ustr \<times> ustr jsn) list \<Rightarrow> ustr \<Rightarrow>
   (ustr \<times> ustr jsn) list option \<Rightarrow> ustr option \<Rightarrow> store_error + ExecutionStore" where
  "set_patch_result S k sha hashes security tests outcome =
     assign_or_raise k (\<lambda>r. r\<lparr>er_patch_sha256 := Some sha, er_artifact_hashes := hashes,
       er_security_validation := Some security,
       er_tests_summary := (if tests = None then er_tests_summary r else tests),
       er_outcome_summary := (case outcome of None \<Rightarrow> er_outcome_summary r
         | Some s \<Rightarrow> (if u_strip s = [] then None else Some (u_strip s)))\<rparr>) S"

definition merge_receipt_context ::
  "ExecutionStore \<Rightarrow> ustr \<Rightarrow> (ustr \<times> ustr jsn) list \<Rightarrow> ExecutionStore" where
  "merge_receipt_context S k updates =
     assign k (\<lambda>r. r\<lparr>er_artifact_hashes := foldl (\<lambda>h (key, v). AList.update key v h) (er_artifact_hashes r) updates\<rparr>) S"

definition touch_reconciled :: "ExecutionStore \<Rightarrow> int \<Rightarrow> ustr \<Rightarrow> ExecutionStore" where
  "touch_reconciled S now k = assign k (\<lambda>r. r\<lparr>er_last_reconciled_at := Some now\<rparr>) S"

definition request_cancellation :: "ExecutionStore \<Rightarrow> int \<Rightarrow> ustr \<Rightarrow> ExecutionStore" where
  "request_cancellation S now k =
     assign k (\<lambda>r. if er_cancellation_requested_at r = None
       then r\<lparr>er_cancellation_requested_at := Some now\<rparr> else r) S"

section \<open>Model calls\<close>

definition within_budget :: "ExecutionRun \<Rightarrow> bool" where
  "within_budget r \<longleftrightarrow>
     us_model_calls (er_usage r) < max_model_calls (er_budgets r) \<and>
     us_input_tokens (er_usage r) < max_input_tokens (er_budgets r) \<and>
     us_output_tokens (er_usage r) < max_output_tokens (er_budgets r) \<and>
     us_cost_usd (er_usage r) < max_cost_usd (er_budgets r)"

definition count_call :: "ExecutionRun \<Rightarrow> ExecutionRun" where
  "count_call r = r\<lparr>er_usage := (er_usage r)\<lparr>us_model_calls := us_model_calls (er_usage r) + 1\<rparr>\<rparr>"

text \<open>The reason is empty when the call is granted.\<close>

definition reserve_model_call :: "ExecutionStore \<Rightarrow> ustr \<Rightarrow> (bool \<times> string) \<times> ExecutionStore" where
  "reserve_model_call S k =
     (case run_row S k of
        None \<Rightarrow> ((False, ''unknown run''), S)
      | Some r \<Rightarrow>
          (if er_status r \<notin> TOKEN_ACTIVE then ((False, ''run is not active''), S)
           else if er_token_revoked_at r \<noteq> None then ((False, ''token revoked''), S)
           else (case update_where
               (\<lambda>r. er_id r = k \<and> er_token_revoked_at r = None \<and> within_budget r) count_call S of
             (n, S') \<Rightarrow> (if n \<noteq> 1 then ((False, ''model budget exhausted''), S') else ((True, []), S')))))"

definition add_usage :: "int \<Rightarrow> int \<Rightarrow> rat \<Rightarrow> ExecutionRun \<Rightarrow> ExecutionRun" where
  "add_usage inp out cost r =
     r\<lparr>er_usage := (er_usage r)\<lparr>us_input_tokens := us_input_tokens (er_usage r) + max 0 inp,
       us_output_tokens := us_output_tokens (er_usage r) + max 0 out,
       us_cost_usd := us_cost_usd (er_usage r) + max 0 cost\<rparr>\<rparr>"

definition usage_within :: "ExecutionRun \<Rightarrow> bool" where
  "usage_within r \<longleftrightarrow>
     us_input_tokens (er_usage r) \<le> max_input_tokens (er_budgets r) \<and>
     us_output_tokens (er_usage r) \<le> max_output_tokens (er_budgets r) \<and>
     us_cost_usd (er_usage r) \<le> max_cost_usd (er_budgets r)"

definition record_model_usage ::
  "ExecutionStore \<Rightarrow> int \<Rightarrow> ustr \<Rightarrow> ustr \<Rightarrow> int \<Rightarrow> int \<Rightarrow> rat \<Rightarrow> ustr option \<Rightarrow>
   (ustr \<times> ustr jsn) list option \<Rightarrow> store_error + (bool \<times> Usage) \<times> ExecutionStore" where
  "record_model_usage S now k model inp out cost event_id tools =
     (case run_row S k of
        None \<Rightarrow> Inl (NoSuchRun k)
      | Some r \<Rightarrow>
          (let r' = add_usage inp out cost r;
               call = \<lparr>cl_run_id = k, cl_job_id = er_job_id r, cl_model = model, cl_input_tokens = inp,
                 cl_output_tokens = out, cl_cost_usd = cost, cl_event_id = event_id,
                 cl_server_tool_usage = (case tools of None \<Rightarrow> [] | Some t \<Rightarrow> t), cl_created_at = now\<rparr>
           in Inr ((usage_within r', er_usage r'),
                (assign k (add_usage inp out cost) S)\<lparr>es_calls := es_calls S @ [call]\<rparr>)))"

definition model_calls_for :: "ExecutionStore \<Rightarrow> ustr \<Rightarrow> ExecutionModelCall list" where
  "model_calls_for S k = filter (\<lambda>c. cl_run_id c = k) (es_calls S)"

section \<open>Events and queries\<close>

definition record_event :: "ExecutionStore \<Rightarrow> ExecutionEvent \<Rightarrow> bool \<times> ExecutionStore" where
  "record_event S e =
     (if \<exists>x \<in> set (es_events S). xe_run_id x = xe_run_id e \<and> xe_idempotency_key x = xe_idempotency_key e
      then (False, S) else (True, S\<lparr>es_events := es_events S @ [e]\<rparr>))"

definition events_for :: "ExecutionStore \<Rightarrow> ustr \<Rightarrow> ExecutionEvent list" where
  "events_for S k = sort_key xe_sequence (filter (\<lambda>e. xe_run_id e = k) (es_events S))"

definition runs_that_consumed_memory :: "ExecutionStore \<Rightarrow> ustr \<Rightarrow> ExecutionRun list" where
  "runs_that_consumed_memory S m =
     concat (map (\<lambda>c. filter (\<lambda>r. er_id r = mc_run_id c) (es_runs S))
       (filter (\<lambda>c. mc_memory_id c = m) (es_consumptions S)))"

definition active_runs :: "ExecutionStore \<Rightarrow> ExecutionRun list" where
  "active_runs S = sort_key er_created_at (filter (\<lambda>r. er_status r \<notin> TERMINAL) (es_runs S))"

section \<open>Sequences of transactions\<close>

text \<open>One constructor per method that writes; a call that raises rolls back and changes nothing.\<close>

datatype StoreOp =
    CreateRun int ustr RunRequest
  | MarkDispatched int ustr "int option" "int option" "ustr option"
  | SetWorkflowRun ustr int int "ustr option"
  | ConsumeNonce int ustr ustr
  | BindToken ustr ustr int
  | RevokeToken int ustr
  | ClaimSource int ustr
  | SetStatus int ustr ExecutionStatus "FailureCategory option" "ustr option"
  | SetPatchResult ustr ustr "(ustr \<times> ustr jsn) list" ustr "(ustr \<times> ustr jsn) list option" "ustr option"
  | MergeReceipt ustr "(ustr \<times> ustr jsn) list"
  | TouchReconciled int ustr
  | RequestCancellation int ustr
  | ReserveModelCall ustr
  | RecordModelUsage int ustr ustr int int rat "ustr option" "(ustr \<times> ustr jsn) list option"
  | RecordEvent ExecutionEvent

definition committed :: "ExecutionStore \<Rightarrow> store_error + ExecutionStore \<Rightarrow> ExecutionStore" where
  "committed S r = (case r of Inl e \<Rightarrow> S | Inr S' \<Rightarrow> S')"

fun apply_op :: "StoreOp \<Rightarrow> ExecutionStore \<Rightarrow> ExecutionStore" where
  "apply_op (CreateRun now k q) S = committed S (create_run S now k q)"
| "apply_op (MarkDispatched now k w a url) S = committed S (mark_dispatched S now k w a url)"
| "apply_op (SetWorkflowRun k w a url) S = committed S (set_workflow_run S k w a url)"
| "apply_op (ConsumeNonce now k h) S = snd (consume_nonce S now k h)"
| "apply_op (BindToken k h expires) S = committed S (bind_token S k h expires)"
| "apply_op (RevokeToken now k) S = revoke_token S now k"
| "apply_op (ClaimSource now k) S = snd (claim_source_download S now k)"
| "apply_op (SetStatus now k st c v) S = committed S (set_status S now k st c v)"
| "apply_op (SetPatchResult k sha hs v t out) S = committed S (set_patch_result S k sha hs v t out)"
| "apply_op (MergeReceipt k us) S = merge_receipt_context S k us"
| "apply_op (TouchReconciled now k) S = touch_reconciled S now k"
| "apply_op (RequestCancellation now k) S = request_cancellation S now k"
| "apply_op (ReserveModelCall k) S = snd (reserve_model_call S k)"
| "apply_op (RecordModelUsage now k m i out c e t) S =
     (case record_model_usage S now k m i out c e t of Inl e \<Rightarrow> S | Inr (r, S') \<Rightarrow> S')"
| "apply_op (RecordEvent e) S = snd (record_event S e)"

definition run_ops :: "StoreOp list \<Rightarrow> ExecutionStore \<Rightarrow> ExecutionStore" where
  "run_ops ops S = fold apply_op ops S"

lemma run_ops_simps [simp]:
  "run_ops [] S = S" "run_ops (op # ops) S = run_ops ops (apply_op op S)"
  "run_ops (xs @ ys) S = run_ops ys (run_ops xs S)"
  by (simp_all add: run_ops_def)

section \<open>Laws\<close>

subsection \<open>Updates\<close>

lemma find_map_id: "(\<And>x. key (g x) = key x) \<Longrightarrow> find (\<lambda>x. key x = k) (map g xs) = map_option g (find (\<lambda>x. key x = k) xs)"
  by (induction xs) auto

lemma update_where_row:
  assumes "\<And>r. er_id (f r) = er_id r"
  shows "run_row (snd (update_where P f S)) k = map_option (\<lambda>r. if P r then f r else r) (run_row S k)"
  using assms find_map_id [of er_id "\<lambda>r. if P r then f r else r" k "es_runs S"]
  by (simp add: update_where_def run_row_def)

lemma run_row_id: "run_row S k = Some r \<Longrightarrow> er_id r = k \<and> r \<in> set (es_runs S)"
  unfolding run_row_def by (drule find_SomeD) simp

lemma find_key: "distinct (map key xs) \<Longrightarrow> x \<in> set xs \<Longrightarrow> find (\<lambda>y. key y = key x) xs = Some x"
  by (induction xs) (auto simp: rev_image_eqI)

lemma run_row_mem: "distinct (map er_id (es_runs S)) \<Longrightarrow> r \<in> set (es_runs S) \<Longrightarrow> run_row S (er_id r) = Some r"
  unfolding run_row_def by (rule find_key)

lemma find_key_None: "find (\<lambda>y. key y = k) xs = None \<longleftrightarrow> k \<notin> key ` set xs"
  by (auto simp: find_None_iff)

lemma count_key:
  "distinct (map key xs) \<Longrightarrow>
   length (filter (\<lambda>x. key x = k \<and> P x) xs) = (case find (\<lambda>x. key x = k) xs of Some x \<Rightarrow> of_bool (P x) | None \<Rightarrow> 0)"
proof (induction xs)
  case (Cons a xs)
  show ?case
  proof (cases "key a = k")
    case True
    then have "find (\<lambda>x. key x = k) xs = None" using Cons.prems by (auto simp: find_key_None)
    with Cons True show ?thesis by simp
  qed (use Cons in simp)
qed simp

lemma update_count:
  "distinct (map er_id (es_runs S)) \<Longrightarrow>
   fst (update_where (\<lambda>r. er_id r = k \<and> P r) f S) = (case run_row S k of Some r \<Rightarrow> of_bool (P r) | None \<Rightarrow> 0)"
  by (simp add: update_where_def run_row_def count_key)

subsection \<open>What every transaction preserves\<close>

text \<open>The context pinned at dispatch.\<close>

definition pinned :: "ExecutionRun \<Rightarrow> (ustr \<times> ustr \<times> ustr option \<times> ustr option \<times> ustr \<times> ustr) \<times>
    (ustr \<times> ustr \<times> ustr \<times> int option \<times> ustr \<times> ustr \<times> ustr) \<times> Budgets \<times>
    (ustr option \<times> int option \<times> ustr option) \<times> ustr list option \<times> ustr option \<times> ustr option" where
  "pinned r = ((er_id r, er_job_id r, er_workspace_id r, er_repository_id r, er_base_branch r, er_base_sha r),
     (er_dispatch_nonce_hash r, er_executor_owner r, er_executor_repository r, er_executor_repository_id r,
      er_executor_workflow r, er_executor_ref r, er_trusted_workflow_sha r), er_budgets r,
     (er_policy_name r, er_policy_version r, er_policy_hash r), er_memory_ids r, er_primary_model r,
     er_advisor_model r)"

definition kept :: "'a option \<Rightarrow> 'a option \<Rightarrow> bool" where
  "kept x y \<longleftrightarrow> x = None \<or> y = x"

definition row_evolves :: "ExecutionRun \<Rightarrow> ExecutionRun \<Rightarrow> bool" where
  "row_evolves r r' \<longleftrightarrow> pinned r' = pinned r \<and>
     kept (er_nonce_consumed_at r) (er_nonce_consumed_at r') \<and>
     kept (er_source_downloaded_at r) (er_source_downloaded_at r') \<and>
     kept (er_cancellation_requested_at r) (er_cancellation_requested_at r') \<and>
     us_model_calls (er_usage r) \<le> us_model_calls (er_usage r') \<and>
     us_input_tokens (er_usage r) \<le> us_input_tokens (er_usage r') \<and>
     us_output_tokens (er_usage r) \<le> us_output_tokens (er_usage r') \<and>
     us_cost_usd (er_usage r) \<le> us_cost_usd (er_usage r') \<and>
     us_model_calls (er_usage r') \<le> max (us_model_calls (er_usage r)) (max_model_calls (er_budgets r))"

lemma row_evolves_refl [simp]: "row_evolves r r"
  by (simp add: row_evolves_def kept_def)

lemma pinned_fields:
  assumes "pinned r' = pinned r"
  shows "er_id r' = er_id r" "er_job_id r' = er_job_id r" "er_budgets r' = er_budgets r"
    "er_dispatch_nonce_hash r' = er_dispatch_nonce_hash r" "er_base_sha r' = er_base_sha r"
    "er_memory_ids r' = er_memory_ids r"
  using assms unfolding pinned_def by simp_all

lemma kept_trans: "kept x y \<Longrightarrow> kept y z \<Longrightarrow> kept x z"
  by (auto simp: kept_def)

lemma row_evolves_trans: "row_evolves a b \<Longrightarrow> row_evolves b c \<Longrightarrow> row_evolves a c"
  unfolding row_evolves_def by (auto elim: kept_trans dest: pinned_fields(3))

text \<open>
  Every transaction but a creation rewrites the rows in place, and only a new binding can make a
  revoked token usable again.
\<close>

fun binds :: "StoreOp \<Rightarrow> ustr \<Rightarrow> bool" where
  "binds (BindToken k h expires) j = (j = k)"
| "binds op j = False"

definition changes :: "StoreOp \<Rightarrow> ExecutionRun \<Rightarrow> ExecutionRun \<Rightarrow> bool" where
  "changes op r r' \<longleftrightarrow> row_evolves r r' \<and>
     (binds op (er_id r) \<or> kept (er_token_revoked_at r) (er_token_revoked_at r'))"

lemma changes_refl [simp]: "changes op r r"
  by (simp add: changes_def kept_def)

definition rewritten :: "StoreOp \<Rightarrow> ExecutionStore \<Rightarrow> ExecutionStore \<Rightarrow> bool" where
  "rewritten op S S' \<longleftrightarrow> es_consumptions S' = es_consumptions S \<and>
     (\<exists>g. es_runs S' = map g (es_runs S) \<and> (\<forall>r. changes op r (g r)))"

lemma rewritten_same: "es_runs S' = es_runs S \<Longrightarrow> es_consumptions S' = es_consumptions S \<Longrightarrow> rewritten op S S'"
  unfolding rewritten_def by (intro conjI exI [of _ id]) simp_all

lemma rewritten_where:
  assumes "\<And>r. P r \<Longrightarrow> changes op r (f r)"
  shows "rewritten op S (snd (update_where P f S))"
  unfolding rewritten_def update_where_def
  by (intro conjI exI [of _ "\<lambda>r. if P r then f r else r"]) (simp_all add: assms)

lemma rewritten_assign: "(\<And>r. er_id r = k \<Longrightarrow> changes op r (f r)) \<Longrightarrow> rewritten op S (assign k f S)"
  unfolding assign_def by (rule rewritten_where)

lemma rewritten_raise:
  "(\<And>r. er_id r = k \<Longrightarrow> changes op r (f r)) \<Longrightarrow> rewritten op S (committed S (assign_or_raise k f S))"
  by (simp add: committed_def assign_or_raise_def rewritten_assign rewritten_same)

lemmas evolves_simps = changes_def row_evolves_def kept_def pinned_def

lemma op_rewrites:
  assumes "\<And>now k q. op \<noteq> CreateRun now k q"
  shows "rewritten op S (apply_op op S)"
proof (cases op)
  case (CreateRun now k q)
  then show ?thesis using assms by blast
next
  case (MarkDispatched now k w a url)
  then show ?thesis
    by (simp add: mark_dispatched_def) (rule rewritten_raise, simp add: evolves_simps)
next
  case (SetWorkflowRun k w a url)
  then show ?thesis
    by (simp add: set_workflow_run_def) (rule rewritten_raise, simp add: evolves_simps)
next
  case (ConsumeNonce now k h)
  have "rewritten op S (snd (update_where (nonce_open k h) (\<lambda>r. r\<lparr>er_nonce_consumed_at := Some now\<rparr>) S))"
    by (rule rewritten_where) (simp add: evolves_simps nonce_open_def)
  with ConsumeNonce show ?thesis by (simp add: consume_nonce_def case_prod_beta)
next
  case (BindToken k h expires)
  then show ?thesis
    by (simp add: bind_token_def) (rule rewritten_raise, simp add: evolves_simps)
next
  case (RevokeToken now k)
  then show ?thesis
    by (simp add: revoke_token_def) (rule rewritten_assign, simp add: evolves_simps)
next
  case (ClaimSource now k)
  have "rewritten op S (snd (update_where (\<lambda>r. er_id r = k \<and> er_source_downloaded_at r = None)
      (\<lambda>r. r\<lparr>er_source_downloaded_at := Some now\<rparr>) S))"
    by (rule rewritten_where) (simp add: evolves_simps)
  with ClaimSource show ?thesis by (simp add: claim_source_download_def case_prod_beta)
next
  case (SetStatus now k st c v)
  then show ?thesis
    by (simp add: set_status_def) (rule rewritten_raise, simp add: evolves_simps)
next
  case (SetPatchResult k sha hs v t out)
  then show ?thesis
    by (simp add: set_patch_result_def) (rule rewritten_raise, simp add: evolves_simps)
next
  case (MergeReceipt k us)
  then show ?thesis
    by (simp add: merge_receipt_context_def) (rule rewritten_assign, simp add: evolves_simps)
next
  case (TouchReconciled now k)
  then show ?thesis
    by (simp add: touch_reconciled_def) (rule rewritten_assign, simp add: evolves_simps)
next
  case (RequestCancellation now k)
  then show ?thesis
    by (simp add: request_cancellation_def) (rule rewritten_assign, simp add: evolves_simps)
next
  case (ReserveModelCall k)
  have "rewritten op S (snd (update_where (\<lambda>r. er_id r = k \<and> er_token_revoked_at r = None \<and> within_budget r) count_call S))"
    by (rule rewritten_where) (simp add: evolves_simps count_call_def within_budget_def)
  with ReserveModelCall show ?thesis
    by (simp add: reserve_model_call_def case_prod_beta rewritten_same split: option.split)
next
  case (RecordModelUsage now k m i out c e t)
  have "rewritten op S (assign k (add_usage i out c) S)"
    by (rule rewritten_assign) (simp add: evolves_simps add_usage_def)
  with RecordModelUsage show ?thesis
    by (cases "run_row S k") (simp add: record_model_usage_def rewritten_same,
        simp add: record_model_usage_def Let_def rewritten_def)
next
  case (RecordEvent e)
  then show ?thesis by (simp add: record_event_def rewritten_same)
qed

subsection \<open>The invariant\<close>

definition memory_list :: "ExecutionRun \<Rightarrow> ustr list" where
  "memory_list r = (case er_memory_ids r of None \<Rightarrow> [] | Some ms \<Rightarrow> ms)"

definition calls_ok :: "ExecutionRun \<Rightarrow> bool" where
  "calls_ok r \<longleftrightarrow> 0 \<le> us_model_calls (er_usage r) \<and>
     us_model_calls (er_usage r) \<le> max 0 (max_model_calls (er_budgets r))"

definition consumed :: "MemoryConsumption list \<Rightarrow> ustr \<Rightarrow> ustr list" where
  "consumed cs k = map mc_memory_id (filter (\<lambda>c. mc_run_id c = k) cs)"

definition store_ok :: "ExecutionStore \<Rightarrow> bool" where
  "store_ok S \<longleftrightarrow> distinct (map er_id (es_runs S)) \<and> list_all calls_ok (es_runs S) \<and>
     list_all (\<lambda>r. consumed (es_consumptions S) (er_id r) = memory_list r) (es_runs S) \<and>
     mc_run_id ` set (es_consumptions S) \<subseteq> er_id ` set (es_runs S)"

lemma set_clean_ids:
  "set (clean_ids seen xs) = {u_strip s | s. JStr s \<in> set xs} - insert [] seen"
  by (induction seen xs rule: clean_ids.induct) (auto simp: Let_def split: jsn.splits)

lemma distinct_clean_ids: "distinct (clean_ids seen xs)"
  by (induction seen xs rule: clean_ids.induct) (auto simp: Let_def set_clean_ids split: jsn.splits)

lemma evolves_pinned:
  assumes "row_evolves r r'"
  shows "er_id r' = er_id r" "memory_list r' = memory_list r" "er_budgets r' = er_budgets r"
proof -
  have p: "pinned r' = pinned r" using assms by (simp add: row_evolves_def)
  show "er_id r' = er_id r" by (rule pinned_fields(1) [OF p])
  show "memory_list r' = memory_list r" by (simp add: memory_list_def pinned_fields(6) [OF p])
  show "er_budgets r' = er_budgets r" by (rule pinned_fields(3) [OF p])
qed

lemma evolves_calls_ok:
  assumes "row_evolves r r'" and "calls_ok r"
  shows "calls_ok r'"
proof -
  have "us_model_calls (er_usage r) \<le> us_model_calls (er_usage r')"
    "us_model_calls (er_usage r') \<le> max (us_model_calls (er_usage r)) (max_model_calls (er_budgets r))"
    using assms(1) by (simp_all add: row_evolves_def)
  with assms(2) show ?thesis by (auto simp: calls_ok_def evolves_pinned(3) [OF assms(1)])
qed

lemma rewritten_ok:
  assumes "rewritten op S S'" and ok: "store_ok S"
  shows "store_ok S'"
proof -
  obtain g where g: "es_runs S' = map g (es_runs S)" "\<And>r. row_evolves r (g r)"
    and c: "es_consumptions S' = es_consumptions S"
    using assms(1) unfolding rewritten_def changes_def by blast
  have e: "er_id (g r) = er_id r" "memory_list (g r) = memory_list r" "calls_ok r \<Longrightarrow> calls_ok (g r)" for r
    using evolves_pinned [OF g(2)] evolves_calls_ok [OF g(2)] by simp_all
  show ?thesis
    using ok unfolding store_ok_def g(1) c by (auto simp: e o_def list_all_iff image_image)
qed

lemma create_run_InrE:
  assumes "create_run S now k q = Inr S'"
  obtains rows where "run_row S k = None"
    "es_runs S' = es_runs S @ [new_run now k q (normalize_memory_ids (rq_memory_ids q))]"
    "es_consumptions S' = es_consumptions S @ rows" "\<And>c. c \<in> set rows \<Longrightarrow> mc_run_id c = k"
    "map mc_memory_id rows = normalize_memory_ids (rq_memory_ids q)" "es_events S' = es_events S"
proof -
  let ?ms = "normalize_memory_ids (rq_memory_ids q)"
  let ?rows = "map (\<lambda>m. \<lparr>mc_run_id = k, mc_job_id = rq_job_id q, mc_memory_id = m,
            mc_workspace_id = rq_workspace_id q, mc_repository_id = rq_repository_id q\<rparr>) ?ms"
  show thesis by (rule that [of ?rows]) (use assms in \<open>auto simp: create_run_def Let_def o_def split: if_splits\<close>)
qed

lemma create_run_ok:
  assumes ok: "store_ok S" and c: "create_run S now k q = Inr S'"
  shows "store_ok S'"
  using c
proof (rule create_run_InrE)
  let ?ms = "normalize_memory_ids (rq_memory_ids q)"
  let ?r = "new_run now k q ?ms"
  fix rows
  assume fresh: "run_row S k = None" and runs: "es_runs S' = es_runs S @ [?r]"
    and cs: "es_consumptions S' = es_consumptions S @ rows" and own: "\<And>c. c \<in> set rows \<Longrightarrow> mc_run_id c = k"
    and ms: "map mc_memory_id rows = ?ms"
  have r: "er_id ?r = k" "memory_list ?r = ?ms" "calls_ok ?r"
    by (simp_all add: new_run_def memory_list_def calls_ok_def)
  have new: "k \<notin> er_id ` set (es_runs S)" using fresh by (simp add: run_row_def find_key_None)
  then have none: "filter (\<lambda>c. mc_run_id c = k) (es_consumptions S) = []"
    using ok by (auto simp: store_ok_def filter_empty_conv)
  have "filter (\<lambda>c. mc_run_id c = k) rows = rows" using own by simp
  then have "consumed (es_consumptions S') k = ?ms" by (simp add: consumed_def cs none ms)
  moreover have "consumed (es_consumptions S') (er_id x) = consumed (es_consumptions S) (er_id x)"
    if "x \<in> set (es_runs S)" for x
  proof -
    have "er_id x \<noteq> k" using new that by auto
    with own have "filter (\<lambda>c. mc_run_id c = er_id x) rows = []" by (auto simp: filter_empty_conv)
    then show ?thesis by (simp add: consumed_def cs)
  qed
  ultimately show ?thesis
    using ok new r own unfolding store_ok_def runs by (auto simp: list_all_iff cs)
qed

lemma run_ops_ok: "store_ok (run_ops ops empty_store)"
proof (induction ops rule: rev_induct)
  case Nil
  show ?case by (simp add: store_ok_def empty_store_def)
next
  case (snoc op ops)
  show ?case
  proof (cases "\<exists>now k q. op = CreateRun now k q")
    case True
    with snoc show ?thesis by (auto simp: committed_def dest: create_run_ok split: sum.split)
  next
    case False
    with op_rewrites [of op] have "rewritten op (run_ops ops empty_store) (apply_op op (run_ops ops empty_store))" by blast
    with snoc show ?thesis by (simp add: rewritten_ok)
  qed
qed

lemma op_run:
  assumes "run_row S k = Some r"
  shows "\<exists>r'. run_row (apply_op op S) k = Some r' \<and> changes op r r'"
proof (cases "\<exists>now j q. op = CreateRun now j q")
  case True
  then obtain now j q where op: "op = CreateRun now j q" by blast
  show ?thesis
  proof (cases "create_run S now j q")
    case (Inr S')
    from this have "run_row S' k = Some r"
      by (rule create_run_InrE) (use assms in \<open>simp add: run_row_def find_append\<close>)
    then show ?thesis by (simp add: op Inr committed_def)
  qed (use assms in \<open>simp add: op committed_def\<close>)
next
  case False
  with op_rewrites [of op S] obtain g where g: "es_runs (apply_op op S) = map g (es_runs S)" "\<And>r. changes op r (g r)"
    unfolding rewritten_def by blast
  then have "er_id (g x) = er_id x" for x using evolves_pinned(1) [of x "g x"] by (simp add: changes_def)
  with assms g find_map_id [of er_id g k "es_runs S"] show ?thesis by (simp add: run_row_def)
qed

lemma ops_run:
  "run_row S k = Some r \<Longrightarrow> \<exists>r'. run_row (run_ops ops S) k = Some r' \<and> row_evolves r r' \<and>
     (list_ex (\<lambda>op. binds op k) ops \<or> kept (er_token_revoked_at r) (er_token_revoked_at r'))"
proof (induction ops arbitrary: S r)
  case Nil
  then show ?case by (simp add: kept_def)
next
  case (Cons op ops)
  obtain r1 where r1: "run_row (apply_op op S) k = Some r1" "changes op r r1" using op_run [OF Cons.prems] by blast
  with Cons.IH [of "apply_op op S" r1] obtain r' where "run_row (run_ops ops (apply_op op S)) k = Some r'"
    "row_evolves r1 r'" "list_ex (\<lambda>op. binds op k) ops \<or> kept (er_token_revoked_at r1) (er_token_revoked_at r')" by blast
  with r1(2) run_row_id [OF Cons.prems] show ?case
    by (auto simp: changes_def intro: row_evolves_trans kept_trans)
qed

subsection \<open>Conditional updates\<close>

lemma update_none:
  assumes "fst (update_where P f S) = 0"
  shows "snd (update_where P f S) = S"
proof -
  from assms have "map (\<lambda>r. if P r then f r else r) (es_runs S) = es_runs S"
    by (intro map_idI) (auto simp: update_where_def filter_empty_conv)
  then show ?thesis by (simp add: update_where_def)
qed

lemma consume_nonce_spec:
  assumes ok: "store_ok S"
  shows "fst (consume_nonce S now k h) \<longleftrightarrow> (\<exists>r. run_row S k = Some r \<and> nonce_open k h r)"
    and "\<not> fst (consume_nonce S now k h) \<Longrightarrow> snd (consume_nonce S now k h) = S"
    and "fst (consume_nonce S now k h) \<Longrightarrow> \<exists>r. run_row (snd (consume_nonce S now k h)) k = Some r \<and> er_nonce_consumed_at r = Some now"
proof -
  let ?P = "\<lambda>r. er_dispatch_nonce_hash r = h \<and> er_nonce_consumed_at r = None \<and> er_status r \<in> {EPending, EDispatched}"
  let ?f = "\<lambda>r. r\<lparr>er_nonce_consumed_at := Some now\<rparr>"
  have P: "nonce_open k h = (\<lambda>r. er_id r = k \<and> ?P r)" by (simp add: nonce_open_def fun_eq_iff)
  have d: "distinct (map er_id (es_runs S))" using ok by (simp add: store_ok_def)
  have n: "fst (update_where (nonce_open k h) ?f S) = (case run_row S k of Some r \<Rightarrow> of_bool (?P r) | None \<Rightarrow> 0)"
    unfolding P by (rule update_count [OF d])
  show "fst (consume_nonce S now k h) \<longleftrightarrow> (\<exists>r. run_row S k = Some r \<and> nonce_open k h r)"
    using n run_row_id [of S k] by (auto simp: consume_nonce_def case_prod_beta P split: option.splits)
  show "\<not> fst (consume_nonce S now k h) \<Longrightarrow> snd (consume_nonce S now k h) = S"
    using n update_none [of "nonce_open k h" ?f S]
    by (auto simp: consume_nonce_def case_prod_beta of_bool_def split: option.splits if_splits)
  assume "fst (consume_nonce S now k h)"
  then have "fst (update_where (nonce_open k h) ?f S) = 1" by (simp add: consume_nonce_def case_prod_beta)
  then have one: "(case run_row S k of Some r \<Rightarrow> of_bool (?P r) | None \<Rightarrow> 0) = (1::nat)" using n by argo
  then obtain r where r: "run_row S k = Some r" by (cases "run_row S k") simp_all
  have "?P r" using one unfolding r option.case of_bool_eq_1_iff .
  moreover have "er_id r = k" using run_row_id [OF r] by blast
  moreover note r
  moreover have "run_row (snd (consume_nonce S now k h)) k =
      map_option (\<lambda>r. if nonce_open k h r then ?f r else r) (run_row S k)"
    unfolding consume_nonce_def case_prod_beta snd_conv by (rule update_where_row) simp
  ultimately show "\<exists>r. run_row (snd (consume_nonce S now k h)) k = Some r \<and> er_nonce_consumed_at r = Some now"
    by (simp add: P)
qed

lemma claim_source_spec:
  assumes ok: "store_ok S"
  shows "fst (claim_source_download S now k) \<longleftrightarrow> (\<exists>r. run_row S k = Some r \<and> er_source_downloaded_at r = None)"
    and "\<not> fst (claim_source_download S now k) \<Longrightarrow> snd (claim_source_download S now k) = S"
    and "fst (claim_source_download S now k) \<Longrightarrow>
      \<exists>r. run_row (snd (claim_source_download S now k)) k = Some r \<and> er_source_downloaded_at r = Some now"
proof -
  let ?P = "\<lambda>r. er_id r = k \<and> er_source_downloaded_at r = None"
  let ?f = "\<lambda>r. r\<lparr>er_source_downloaded_at := Some now\<rparr>"
  have d: "distinct (map er_id (es_runs S))" using ok by (simp add: store_ok_def)
  have n: "fst (update_where ?P ?f S) = (case run_row S k of Some r \<Rightarrow> of_bool (er_source_downloaded_at r = None) | None \<Rightarrow> 0)"
    by (rule update_count [OF d])
  show "fst (claim_source_download S now k) \<longleftrightarrow> (\<exists>r. run_row S k = Some r \<and> er_source_downloaded_at r = None)"
    using n by (auto simp: claim_source_download_def case_prod_beta split: option.splits)
  show "\<not> fst (claim_source_download S now k) \<Longrightarrow> snd (claim_source_download S now k) = S"
    using n update_none [of ?P ?f S]
    by (auto simp: claim_source_download_def case_prod_beta of_bool_def split: option.splits if_splits)
  assume "fst (claim_source_download S now k)"
  then have "fst (update_where ?P ?f S) = 1" by (simp add: claim_source_download_def case_prod_beta)
  then have one: "(case run_row S k of Some r \<Rightarrow> of_bool (er_source_downloaded_at r = None) | None \<Rightarrow> 0) = (1::nat)"
    using n by argo
  then obtain r where r: "run_row S k = Some r" by (cases "run_row S k") simp_all
  have "er_source_downloaded_at r = None" using one unfolding r option.case of_bool_eq_1_iff .
  moreover have "er_id r = k" using run_row_id [OF r] by blast
  moreover note r
  moreover have "run_row (snd (claim_source_download S now k)) k =
      map_option (\<lambda>r. if ?P r then ?f r else r) (run_row S k)"
    unfolding claim_source_download_def case_prod_beta snd_conv by (rule update_where_row) simp
  ultimately show "\<exists>r. run_row (snd (claim_source_download S now k)) k = Some r \<and> er_source_downloaded_at r = Some now"
    by simp
qed

lemma reserve_spec:
  assumes ok: "store_ok S" and r: "run_row S k = Some r"
  shows "fst (fst (reserve_model_call S k)) \<longleftrightarrow>
      er_status r \<in> TOKEN_ACTIVE \<and> er_token_revoked_at r = None \<and> within_budget r"
    and "run_row (snd (reserve_model_call S k)) k =
      Some (if fst (fst (reserve_model_call S k)) then count_call r else r)"
proof -
  let ?P = "\<lambda>r. er_token_revoked_at r = None \<and> within_budget r"
  let ?U = "update_where (\<lambda>r. er_id r = k \<and> ?P r) count_call S"
  have d: "distinct (map er_id (es_runs S))" using ok by (simp add: store_ok_def)
  have n: "fst ?U = of_bool (?P r)" unfolding update_count [OF d] by (simp add: r)
  have u: "run_row (snd ?U) k = Some (if ?P r then count_call r else r)"
    using run_row_id [OF r] r by (subst update_where_row) (simp_all add: count_call_def)
  show g: "fst (fst (reserve_model_call S k)) \<longleftrightarrow>
      er_status r \<in> TOKEN_ACTIVE \<and> er_token_revoked_at r = None \<and> within_budget r"
    using r n by (auto simp: reserve_model_call_def case_prod_beta)
  show "run_row (snd (reserve_model_call S k)) k =
      Some (if fst (fst (reserve_model_call S k)) then count_call r else r)"
    unfolding g using r n u by (auto simp: reserve_model_call_def case_prod_beta)
qed

section \<open>Properties\<close>

text \<open>C13: The dispatch nonce is consumed once and the source is handed out once.  Whatever transactions
  led to the store and whatever runs afterwards, in any order, a second consumption of the nonce and
  a second claim of the source are refused and change nothing.\<close>

theorem secrets_are_single_use:
  assumes "S = run_ops ops empty_store"
  shows "(fst (consume_nonce S now k h) \<longrightarrow>
      (let T = run_ops later (snd (consume_nonce S now k h)) in consume_nonce T now' k h' = (False, T))) \<and>
    (fst (claim_source_download S now k) \<longrightarrow>
      (let T = run_ops later (snd (claim_source_download S now k)) in claim_source_download T now' k = (False, T)))"
proof -
  have ok: "store_ok (run_ops xs S)" for xs
    using run_ops_ok [of "ops @ xs"] assms by simp
  have ok0: "store_ok S" using ok [of "[]"] by simp
  have "consume_nonce T now' k h' = (False, T)"
    if c: "fst (consume_nonce S now k h)" and T: "T = run_ops later (snd (consume_nonce S now k h))" for T
  proof -
    obtain r where r: "run_row (snd (consume_nonce S now k h)) k = Some r" "er_nonce_consumed_at r = Some now"
      using consume_nonce_spec(3) [OF ok0 c] by blast
    from ops_run [OF r(1), of later] r(2) obtain r' where "run_row T k = Some r'" "er_nonce_consumed_at r' \<noteq> None"
      by (auto simp: T row_evolves_def kept_def)
    moreover have "store_ok T" using ok [of "ConsumeNonce now k h # later"] by (simp add: T)
    ultimately show ?thesis
      using consume_nonce_spec(1,2) [of T now' k h'] by (auto simp: nonce_open_def prod_eq_iff)
  qed
  moreover have "claim_source_download T now' k = (False, T)"
    if c: "fst (claim_source_download S now k)" and T: "T = run_ops later (snd (claim_source_download S now k))" for T
  proof -
    obtain r where r: "run_row (snd (claim_source_download S now k)) k = Some r" "er_source_downloaded_at r = Some now"
      using claim_source_spec(3) [OF ok0 c] by blast
    from ops_run [OF r(1), of later] r(2) obtain r' where "run_row T k = Some r'" "er_source_downloaded_at r' \<noteq> None"
      by (auto simp: T row_evolves_def kept_def)
    moreover have "store_ok T" using ok [of "ClaimSource now k # later"] by (simp add: T)
    ultimately show ?thesis
      using claim_source_spec(1,2) [of T now' k] by (auto simp: prod_eq_iff)
  qed
  ultimately show ?thesis by (simp add: Let_def)
qed

text \<open>C17: No run makes more model calls than its budget.  In every store the transactions can produce
  the counter of a run is within its limit, a call is granted exactly to a run that is active, not
  revoked and below every limit, and each grant counts one call.\<close>

theorem model_budget_holds:
  assumes "S = run_ops ops empty_store" and r: "run_row S k = Some r"
  shows "0 \<le> us_model_calls (er_usage r) \<and> us_model_calls (er_usage r) \<le> max 0 (max_model_calls (er_budgets r)) \<and>
    (fst (fst (reserve_model_call S k)) \<longleftrightarrow>
       er_status r \<in> {EAuthenticated, ERunning, EValidating} \<and> er_token_revoked_at r = None \<and> within_budget r) \<and>
    run_row (snd (reserve_model_call S k)) k = Some (if fst (fst (reserve_model_call S k)) then count_call r else r)"
proof -
  have ok: "store_ok S" using run_ops_ok assms(1) by simp
  then have "calls_ok r" using run_row_id [OF r] by (simp add: store_ok_def list_all_iff)
  with reserve_spec [OF ok r] show ?thesis by (simp add: calls_ok_def TOKEN_ACTIVE_def)
qed

text \<open>What is pinned at dispatch is immutable.  Whatever transactions follow, a run keeps its job,
  repository, base commit, nonce, trusted workflow, budgets, policy, memories and models; its usage
  only grows; a cancellation request stays; and the audit table lists for it exactly the pinned
  memories.\<close>

theorem pinned_context_is_immutable:
  assumes "S = run_ops ops empty_store" and "run_row S k = Some r"
  shows "\<exists>r'. run_row (run_ops later S) k = Some r' \<and> pinned r' = pinned r \<and>
    us_cost_usd (er_usage r) \<le> us_cost_usd (er_usage r') \<and>
    (er_cancellation_requested_at r \<noteq> None \<longrightarrow>
       er_cancellation_requested_at r' = er_cancellation_requested_at r) \<and>
    consumed (es_consumptions (run_ops later S)) k = memory_list r \<and>
    (\<forall>m. r' \<in> set (runs_that_consumed_memory (run_ops later S) m) \<longleftrightarrow> m \<in> set (memory_list r))"
proof -
  let ?T = "run_ops later S"
  obtain r' where r': "run_row ?T k = Some r'" "row_evolves r r'" using ops_run [OF assms(2)] by blast
  have "store_ok ?T" using run_ops_ok [of "ops @ later"] assms(1) by simp
  then have c: "consumed (es_consumptions ?T) k = memory_list r"
    using run_row_id [OF r'(1)] evolves_pinned(2) [OF r'(2)] by (auto simp: store_ok_def list_all_iff)
  have "r' \<in> set (runs_that_consumed_memory ?T m) \<longleftrightarrow> m \<in> set (consumed (es_consumptions ?T) k)" for m
    using run_row_id [OF r'(1)] by (auto simp: runs_that_consumed_memory_def consumed_def)
  with r' c show ?thesis unfolding row_evolves_def kept_def by auto
qed

text \<open>A revoked token is dead.  Unless a new token is bound to the run, whatever else happens
  afterwards, no model call is granted to it.\<close>

theorem revoked_token_stays_dead:
  assumes "S = run_ops ops empty_store" and "run_row S k = Some r" and "er_token_revoked_at r \<noteq> None"
    and "\<And>h expires. BindToken k h expires \<notin> set later"
  shows "\<not> fst (fst (reserve_model_call (run_ops later S) k)) \<and>
    (\<exists>r'. run_row (run_ops later S) k = Some r' \<and> er_token_revoked_at r' = er_token_revoked_at r)"
proof -
  have "\<not> list_ex (\<lambda>op. binds op k) later"
    using assms(4) by (auto simp: list_ex_iff elim!: binds.elims)
  with ops_run [OF assms(2), of later] assms(3) obtain r' where
    r': "run_row (run_ops later S) k = Some r'" "er_token_revoked_at r' = er_token_revoked_at r"
    by (auto simp: kept_def)
  moreover have "store_ok (run_ops later S)" using run_ops_ok [of "ops @ later"] assms(1) by simp
  ultimately show ?thesis using reserve_spec(1) assms(3) by auto
qed

end
