(* ===== verification/PatchValidation.thy ===== *)
theory PatchValidation
  imports JsonText
begin

text \<open>
  Server-side validation of executor outputs (src/gnsis/service/executor/validation.py): which paths
  a patch names, which of them are acceptable, and the shape of the JSON outputs.  Running
  \<open>git apply --check\<close> is not modelled here.  The number of bytes of a text is Python's UTF-8 with
  \<open>surrogatepass\<close>; the text of a JSON error and the abbreviated reasons are literals.
\<close>

section \<open>Lines\<close>

text \<open>The line boundaries of \<open>str.splitlines\<close>.\<close>

definition line_break :: "nat \<Rightarrow> bool" where
  "line_break c \<longleftrightarrow> c \<in> {10, 11, 12, 13, 28, 29, 30, 133, 8232, 8233}"

fun splitlines_from :: "ustr \<Rightarrow> ustr \<Rightarrow> ustr list" where
  "splitlines_from line [] = (if line = [] then [] else [line])"
| "splitlines_from line (c # s) =
     (if \<not> line_break c then splitlines_from (line @ [c]) s
      else line # (case s of
        d # t \<Rightarrow> (if c = 13 \<and> d = 10 then splitlines_from [] t else splitlines_from [] s)
      | [] \<Rightarrow> []))"

definition splitlines :: "ustr \<Rightarrow> ustr list" where
  "splitlines s = splitlines_from [] s"

section \<open>Paths of a patch\<close>

text \<open>
  \<open>^diff --git a/(.+?) b/(.+)$\<close> on one line, as the split of the rest of the line at the first
  \<open> b/\<close> that leaves both groups non-empty.  A line has no line feed, so \<open>.\<close> matches every character.
\<close>

fun first_split :: "ustr \<Rightarrow> ustr \<Rightarrow> ustr \<Rightarrow> (ustr \<times> ustr) option" where
  "first_split sep before [] = None"
| "first_split sep before (c # s) =
     (if before \<noteq> [] \<and> take (length sep) (c # s) = sep \<and> drop (length sep) (c # s) \<noteq> []
      then Some (before, drop (length sep) (c # s)) else first_split sep (before @ [c]) s)"

definition after_prefix :: "ustr \<Rightarrow> ustr \<Rightarrow> ustr option" where
  "after_prefix p s = (if take (length p) s = p then Some (drop (length p) s) else None)"

definition diff_git_match :: "ustr \<Rightarrow> (ustr \<times> ustr) option" where
  "diff_git_match line =
     (case after_prefix (u ''diff --git a/'') line of
        None \<Rightarrow> None | Some rest \<Rightarrow> first_split (u '' b/'') [] rest)"

text \<open>\<open>^[+-]{3} [ab]/(.+)$\<close>\<close>

definition plusminus_match :: "ustr \<Rightarrow> ustr option" where
  "plusminus_match line =
     (case line of
        x # y # z # sp # ab # slash # path \<Rightarrow>
          (if set [x, y, z] \<subseteq> {43, 45} \<and> sp = 32 \<and> ab \<in> {97, 98} \<and> slash = 47 \<and> path \<noteq> []
           then Some path else None)
      | _ \<Rightarrow> None)"

definition line_paths :: "ustr \<Rightarrow> ustr set" where
  "line_paths line =
     (case diff_git_match line of
        Some (p, q) \<Rightarrow> {p, q}
      | None \<Rightarrow> (case plusminus_match line of Some p \<Rightarrow> {p} | None \<Rightarrow> {}))"

definition collect_paths :: "ustr \<Rightarrow> ustr set" where
  "collect_paths patch = \<Union> (set (map line_paths (splitlines patch))) - {[], u ''/dev/null''}"

section \<open>Acceptable paths\<close>

fun split_char :: "nat \<Rightarrow> ustr \<Rightarrow> ustr list" where
  "split_char d [] = [[]]"
| "split_char d (c # s) =
     (if c = d then [] # split_char d s
      else (case split_char d s of [] \<Rightarrow> [[c]] | p # ps \<Rightarrow> (c # p) # ps))"

definition unsafe_path :: "ustr \<Rightarrow> ustr option" where
  "unsafe_path path =
     (if path = [] \<or> path = u ''/dev/null'' then None
      else if take 1 path = u ''/'' then Some (u ''absolute path: '' @ path)
      else if u ''..'' \<in> set (split_char 47 path) then Some (u ''path traversal: '' @ path)
      else if u ''.'' \<in> set (split_char 47 path) then Some (u ''unsafe path component: '' @ path)
      else None)"

definition WORKFLOW_DIR_PREFIX :: ustr where
  "WORKFLOW_DIR_PREFIX = u ''.github/workflows/''"

definition workflow_path :: "ustr \<Rightarrow> bool" where
  "workflow_path path \<longleftrightarrow> path = u ''.github/workflows'' \<or>
     take (length WORKFLOW_DIR_PREFIX) path = WORKFLOW_DIR_PREFIX"

record PatchValidation =
  pv_ok :: bool
  pv_reason :: ustr
  pv_files :: "ustr list"

definition verdict :: "bool \<Rightarrow> ustr \<Rightarrow> ustr list \<Rightarrow> PatchValidation" where
  "verdict b why files = \<lparr>pv_ok = b, pv_reason = why, pv_files = files\<rparr>"

fun check_paths :: "ustr list \<Rightarrow> ustr list \<Rightarrow> PatchValidation" where
  "check_paths all [] = verdict True [] all"
| "check_paths all (path # rest) =
     (case unsafe_path path of
        Some problem \<Rightarrow> verdict False problem all
      | None \<Rightarrow>
          (if workflow_path path then verdict False (u ''patch modifies workflow file: '' @ path) all
           else check_paths all rest))"

definition utf8_length :: "ustr \<Rightarrow> nat" where
  "utf8_length s = sum_list (map (\<lambda>c. if c < 128 then 1 else if c < 2048 then 2 else if c < 65536 then 3 else 4) s)"

definition contains_text :: "ustr \<Rightarrow> ustr \<Rightarrow> bool" where
  "contains_text s p \<longleftrightarrow> find_sub p s \<noteq> None"

definition validate_patch_structure :: "ustr \<Rightarrow> int \<Rightarrow> int \<Rightarrow> PatchValidation" where
  "validate_patch_structure patch max_bytes max_files =
     (if u_strip patch = [] then verdict False (u ''empty patch'') []
      else if int (utf8_length patch) > max_bytes
      then verdict False (u ''patch exceeds '' @ u (int_str max_bytes) @ u '' bytes'') []
      else if \<not> contains_text patch (u ''diff --git'') \<and>
        take 4 (dropWhile u_space patch) \<noteq> u ''--- ''
      then verdict False (u ''not a unified diff'') []
      else
        let paths = sorted_list_of_set (collect_paths patch) in
        if paths = [] then verdict False (u ''no file paths in patch'') []
        else if int (length paths) > max_files
        then verdict False (u ''patch touches too many files (> '' @ u (int_str max_files) @ u '')'') []
        else check_paths paths paths)"

section \<open>JSON outputs\<close>

text \<open>\<open>isinstance(value, int)\<close> holds of booleans.\<close>

definition is_int_value :: "ustr jsn \<Rightarrow> bool" where
  "is_int_value v \<longleftrightarrow> (case v of JInt _ \<Rightarrow> True | JBool _ \<Rightarrow> True | _ \<Rightarrow> False)"

text \<open>
  What \<open>json.loads\<close> makes of the text: a fault to report, or the members of an object.  \<open>None\<close> is a
  text with \<open>NaN\<close> or \<open>Infinity\<close>, which Python reads and the model of JSON does not have.
\<close>

definition loads_object ::
  "(ustr \<Rightarrow> rat) \<Rightarrow> ustr \<Rightarrow> string \<Rightarrow> (PatchValidation + (ustr \<times> ustr jsn) list) option" where
  "loads_object read_float raw name =
     (case loads read_float raw of
        Parsed v \<Rightarrow> Some (case v of JObj kvs \<Rightarrow> Inr kvs
          | _ \<Rightarrow> Inl (verdict False (u name @ u '' must be an object'') []))
      | Malformed \<Rightarrow> Some (Inl (verdict False (u name @ u '' invalid JSON'') []))
      | _ \<Rightarrow> None)"

definition tests_shape :: "(ustr \<times> ustr jsn) list \<Rightarrow> PatchValidation" where
  "tests_shape data =
     (case find (\<lambda>key. case map_of data (u key) of Some v \<Rightarrow> \<not> is_int_value v | None \<Rightarrow> False)
         [''passed'', ''failed'', ''skipped''] of
        Some key \<Rightarrow> verdict False (u ''tests.json.'' @ u key @ u '' must be an integer'') []
      | None \<Rightarrow>
          (case map_of data (u ''results'') of
             None \<Rightarrow> verdict True [] []
           | Some JNull \<Rightarrow> verdict True [] []
           | Some (JList xs) \<Rightarrow> verdict True [] []
           | Some v \<Rightarrow> verdict False (u ''tests.json.results must be a list'') []))"

definition validate_tests_json :: "(ustr \<Rightarrow> rat) \<Rightarrow> ustr \<Rightarrow> PatchValidation option" where
  "validate_tests_json read_float raw =
     map_option (case_sum id tests_shape) (loads_object read_float raw ''tests.json'')"

definition validate_receipt_json :: "(ustr \<Rightarrow> rat) \<Rightarrow> ustr \<Rightarrow> PatchValidation option" where
  "validate_receipt_json read_float raw =
     map_option (case_sum id (\<lambda>data. verdict True [] [])) (loads_object read_float raw ''receipt.json'')"

section \<open>Control sequences\<close>

text \<open>\<open>\x1b\[[0-9;?]*[ -/]*[@-~]\<close> after the first two characters: the character classes are disjoint, so
  the match is determined.  The result is what follows the match.\<close>

definition csi_rest :: "ustr \<Rightarrow> ustr option" where
  "csi_rest s =
     (case dropWhile (\<lambda>c. 32 \<le> c \<and> c \<le> 47) (dropWhile (\<lambda>c. 48 \<le> c \<and> c \<le> 57 \<or> c = 59 \<or> c = 63) s) of
        c # r \<Rightarrow> (if 64 \<le> c \<and> c \<le> 126 then Some r else None)
      | [] \<Rightarrow> None)"

text \<open>\<open>\x1b\][^\x07\x1b]*(?:\x07|\x1b\\)\<close> after the first two characters.\<close>

definition osc_rest :: "ustr \<Rightarrow> ustr option" where
  "osc_rest s =
     (case dropWhile (\<lambda>c. c \<noteq> 7 \<and> c \<noteq> 27) s of
        c # r \<Rightarrow> (if c = 7 then Some r else if take 1 r = [92] then Some (drop 1 r) else None)
      | [] \<Rightarrow> None)"

text \<open>\<open>re.sub(pattern, "", text)\<close> for a pattern that starts with \<open>ESC\<close> and \<open>opener\<close>.\<close>

function (sequential) sub_escapes :: "nat \<Rightarrow> (ustr \<Rightarrow> ustr option) \<Rightarrow> ustr \<Rightarrow> ustr" where
  "sub_escapes opener rest [] = []"
| "sub_escapes opener rest (c # s) =
     (case (if c = 27 \<and> take 1 s = [opener] then rest (drop 1 s) else None) of
        Some r \<Rightarrow> (if length r \<le> length s then sub_escapes opener rest r else [])
      | None \<Rightarrow> c # sub_escapes opener rest s)"
  by pat_completeness auto
termination by (relation "measure (\<lambda>(opener, rest, s). length s)") auto

definition printing :: "nat \<Rightarrow> bool" where
  "printing c \<longleftrightarrow> c = 10 \<or> c = 9 \<or> 32 \<le> c"

definition strip_control_sequences :: "ustr \<Rightarrow> ustr" where
  "strip_control_sequences text =
     filter printing (sub_escapes 93 osc_rest (sub_escapes 91 csi_rest text))"

section \<open>Laws\<close>

text \<open>The rest of a match is no longer than the text, so the guard of \<open>sub_escapes\<close> never fires.\<close>

lemma dropWhile_shorter: "dropWhile P s = c # r \<Longrightarrow> length r < length s"
  using length_dropWhile_le [of P s] by simp

lemma rests_shorter: "csi_rest s = Some r \<Longrightarrow> length r \<le> length s" "osc_rest s = Some r \<Longrightarrow> length r \<le> length s"
proof -
  let ?d = "dropWhile (\<lambda>c. 48 \<le> c \<and> c \<le> 57 \<or> c = 59 \<or> c = 63) s"
  assume "csi_rest s = Some r"
  then obtain c where "dropWhile (\<lambda>c. 32 \<le> c \<and> c \<le> 47) ?d = c # r"
    by (auto simp: csi_rest_def split: list.splits if_splits)
  from dropWhile_shorter [OF this] length_dropWhile_le [of "\<lambda>c. 48 \<le> c \<and> c \<le> 57 \<or> c = 59 \<or> c = 63" s]
  show "length r \<le> length s" by linarith
next
  assume "osc_rest s = Some r"
  then obtain c q where "dropWhile (\<lambda>c. c \<noteq> 7 \<and> c \<noteq> 27) s = c # q" "r = q \<or> r = drop 1 q"
    by (auto simp: osc_rest_def split: list.splits if_splits)
  from dropWhile_shorter [OF this(1)] this(2) show "length r \<le> length s" by auto
qed

lemma sub_escapes_plain: "27 \<notin> set s \<Longrightarrow> sub_escapes opener rest s = s"
  by (induction s) auto

text \<open>A cleaned text has no control character but line feeds and tabs, and cleaning it again changes
  nothing.\<close>

lemma strip_control_clean: "c \<in> set (strip_control_sequences s) \<Longrightarrow> printing c"
  by (simp add: strip_control_sequences_def)

lemma strip_control_idem: "strip_control_sequences (strip_control_sequences s) = strip_control_sequences s"
proof -
  let ?t = "strip_control_sequences s"
  have "27 \<notin> set ?t" using strip_control_clean [of 27 s] by (auto simp: printing_def)
  moreover have "filter printing ?t = ?t" by (simp add: strip_control_sequences_def)
  ultimately show ?thesis by (simp add: strip_control_sequences_def sub_escapes_plain)
qed

lemma finite_collect_paths [simp]: "finite (collect_paths p)"
proof -
  have "finite (line_paths l)" for l
    by (auto simp: line_paths_def split: option.split)
  then show ?thesis by (simp add: collect_paths_def)
qed

text \<open>The lines that name a file in the form git prints.\<close>

lemma first_split_plain:
  assumes "d \<notin> set p" and "p \<noteq> [] \<or> before \<noteq> []" and "q \<noteq> []"
  shows "first_split (d # ds) before (p @ d # ds @ q) = Some (before @ p, q)"
  using assms by (induction p arbitrary: before) auto

text \<open>What the headers and file lines that git prints for plain names say: the path of a file.\<close>

definition names_file :: "ustr \<Rightarrow> ustr \<Rightarrow> bool" where
  "names_file line p \<longleftrightarrow> p \<noteq> [] \<and> p \<noteq> u ''/dev/null'' \<and>
     (line = u ''--- a/'' @ p \<or> line = u ''+++ b/'' @ p \<or>
      (\<exists>q. q \<noteq> [] \<and> 32 \<notin> set p \<and> line = u ''diff --git a/'' @ p @ u '' b/'' @ q) \<or>
      (\<exists>q. q \<noteq> [] \<and> 32 \<notin> set q \<and> line = u ''diff --git a/'' @ q @ u '' b/'' @ p))"

definition safe_path :: "ustr \<Rightarrow> bool" where
  "safe_path p \<longleftrightarrow> take 1 p \<noteq> u ''/'' \<and> u ''..'' \<notin> set (split_char 47 p) \<and> u ''.'' \<notin> set (split_char 47 p) \<and>
     \<not> workflow_path p"

lemma u_space_b [simp]: "u '' b/'' = [32, 98, 47]"
  by (simp add: u_def)

lemma diff_git_plain:
  assumes "p \<noteq> []" and "q \<noteq> []" and "32 \<notin> set p"
  shows "diff_git_match (u ''diff --git a/'' @ p @ u '' b/'' @ q) = Some (p, q)"
proof -
  show ?thesis
    using first_split_plain [of 32 p "[]" q "[98, 47]"] assms by (simp add: diff_git_match_def after_prefix_def)
qed

lemma diff_git_not_plusminus: "diff_git_match (43 # s) = None" "diff_git_match (45 # s) = None"
  by (simp_all add: diff_git_match_def after_prefix_def u_def)

lemma named_collected:
  assumes "line \<in> set (splitlines patch)" and n: "names_file line p"
  shows "p \<in> collect_paths patch"
proof -
  have ne: "p \<noteq> []" "p \<noteq> u ''/dev/null''" using n by (simp_all add: names_file_def)
  have "p \<in> line_paths line"
    using n unfolding names_file_def
  proof (elim conjE disjE exE)
    fix q assume "q \<noteq> []" "32 \<notin> set p" "line = u ''diff --git a/'' @ p @ u '' b/'' @ q"
    then show ?thesis using diff_git_plain [of p q] ne by (simp add: line_paths_def)
  next
    fix q assume "q \<noteq> []" "32 \<notin> set q" "line = u ''diff --git a/'' @ q @ u '' b/'' @ p"
    then show ?thesis using diff_git_plain [of q p] ne by (simp add: line_paths_def)
  qed (use ne in \<open>simp_all add: line_paths_def diff_git_not_plusminus plusminus_match_def u_def\<close>)
  with assms(1) ne show ?thesis by (auto simp: collect_paths_def)
qed

lemma check_paths_files [simp]: "pv_files (check_paths all ps) = all"
  by (induction ps) (auto simp: verdict_def split: option.split)

lemma check_paths_ok:
  "pv_ok (check_paths all ps) \<longleftrightarrow> (\<forall>p \<in> set ps. unsafe_path p = None \<and> \<not> workflow_path p)"
  by (induction ps) (auto simp: verdict_def split: option.split)

lemma unsafe_path_None: "p \<noteq> [] \<Longrightarrow> p \<noteq> u ''/dev/null'' \<Longrightarrow>
    unsafe_path p = None \<and> \<not> workflow_path p \<longleftrightarrow> safe_path p"
  by (auto simp: unsafe_path_def safe_path_def)

lemma validate_ok_iff:
  "pv_ok (validate_patch_structure patch max_bytes max_files) \<longleftrightarrow>
     u_strip patch \<noteq> [] \<and> int (utf8_length patch) \<le> max_bytes \<and>
     (contains_text patch (u ''diff --git'') \<or> take 4 (dropWhile u_space patch) = u ''--- '') \<and>
     collect_paths patch \<noteq> {} \<and> int (card (collect_paths patch)) \<le> max_files \<and>
     (\<forall>p \<in> collect_paths patch. safe_path p)"
proof -
  have "unsafe_path p = None \<and> \<not> workflow_path p \<longleftrightarrow> safe_path p" if "p \<in> collect_paths patch" for p
    using that by (intro unsafe_path_None) (auto simp: collect_paths_def)
  then show ?thesis
    by (simp add: validate_patch_structure_def Let_def check_paths_ok verdict_def not_less)
qed

text \<open>A text given by its lines.\<close>

definition unlines :: "ustr list \<Rightarrow> ustr" where
  "unlines ls = concat (map (\<lambda>l. l @ [10]) ls)"

lemma splitlines_line: "list_all (\<lambda>c. \<not> line_break c) l \<Longrightarrow>
    splitlines_from before (l @ 10 # s) = (before @ l) # splitlines_from [] s"
  by (induction l arbitrary: before) (auto simp: line_break_def split: list.split)

lemma splitlines_unlines: "list_all (list_all (\<lambda>c. \<not> line_break c)) ls \<Longrightarrow> splitlines (unlines ls) = ls"
  unfolding splitlines_def by (induction ls) (simp_all add: unlines_def splitlines_line)

section \<open>Properties\<close>

text \<open>C23: An accepted patch is confined.  It is within the size and the number of files, and every file
  that a header or a file line of the form git prints for plain names mentions lies inside the
  repository, has no \<open>.\<close> or \<open>..\<close> component, and is no workflow file.  Conversely a well-formed diff
  within the limits whose paths are all safe is accepted.\<close>

theorem accepted_patch_is_confined:
  "(pv_ok (validate_patch_structure patch max_bytes max_files) \<longleftrightarrow>
      u_strip patch \<noteq> [] \<and> int (utf8_length patch) \<le> max_bytes \<and>
      (contains_text patch (u ''diff --git'') \<or> take 4 (dropWhile u_space patch) = u ''--- '') \<and>
      collect_paths patch \<noteq> {} \<and> int (card (collect_paths patch)) \<le> max_files \<and>
      (\<forall>p \<in> collect_paths patch. safe_path p)) \<and>
    (pv_ok (validate_patch_structure patch max_bytes max_files) \<longrightarrow>
      (\<forall>line \<in> set (splitlines patch). \<forall>p. names_file line p \<longrightarrow> safe_path p))"
  using validate_ok_iff [of patch max_bytes max_files] named_collected [of _ patch] by blast

text \<open>Three patches that create a workflow file, after a harmless one: its name is quoted, the file is
  renamed there, and the file lines carry another prefix than \<open>a\<close> and \<open>b\<close>.\<close>

definition harmless :: "ustr list" where
  "harmless = [u ''--- a/x'', u ''+++ b/x'']"

definition quoted_name :: "ustr list" where
  "quoted_name = harmless @ [u ''--- /dev/null'', u ''+++ '' @ [34] @ u ''b/.github/workflows/e.yml'' @ [34]]"

definition renamed_file :: "ustr list" where
  "renamed_file = harmless @ [u ''diff --git a/x b/x'', u ''rename from x'', u ''rename to .github/workflows/e.yml'']"

definition other_prefix :: "ustr list" where
  "other_prefix = harmless @ [u ''--- /dev/null'', u ''+++ c/.github/workflows/e.yml'']"

lemmas bypass_defs = harmless_def quoted_name_def renamed_file_def other_prefix_def

lemma bypass_accepted:
  assumes ls: "ls \<in> {harmless, quoted_name, renamed_file, other_prefix}"
  shows "pv_ok (validate_patch_structure (unlines ls) 1000 500) \<and> collect_paths (unlines ls) = {u ''x''}"
proof -
  have "list_all (list_all (\<lambda>c. \<not> line_break c)) ls"
    using ls by (auto simp: bypass_defs u_def line_break_def)
  moreover have "\<Union> (set (map line_paths ls)) - {[], u ''/dev/null''} = {u ''x''}"
    using ls by (auto simp: bypass_defs u_def line_paths_def diff_git_match_def after_prefix_def plusminus_match_def)
  ultimately have "collect_paths (unlines ls) = {u ''x''}"
    by (simp add: collect_paths_def splitlines_unlines)
  moreover have "safe_path (u ''x'')"
    by (simp add: safe_path_def workflow_path_def WORKFLOW_DIR_PREFIX_def u_def)
  moreover have "int (utf8_length (unlines ls)) \<le> 1000"
    using ls by (auto simp: bypass_defs u_def unlines_def utf8_length_def)
  moreover have "take 4 (dropWhile u_space (unlines ls)) = u ''--- ''"
    using ls by (auto simp: bypass_defs u_def unlines_def u_space_def)
  moreover have "u_strip (unlines ls) \<noteq> []"
    using ls by (auto simp: bypass_defs u_def unlines_def u_space_def u_strip_def u_rstrip_def)
  ultimately show ?thesis by (simp add: validate_ok_iff)
qed

text \<open>The check reads only two of the spellings that git accepts: a patch that creates a workflow file
  under a quoted name, by a rename, or with another path prefix is accepted, and of its paths only
  the harmless one is seen.\<close>

theorem workflow_check_is_incomplete:
  "list_all (\<lambda>ls. pv_ok (validate_patch_structure (unlines ls) 1000 500) \<and> collect_paths (unlines ls) = {u ''x''})
     [quoted_name, renamed_file, other_prefix]"
  using bypass_accepted by (simp add: list_all_iff)

end
