(* ===== verification/ExecutorEvents.thy ===== *)
theory ExecutorEvents
  imports ExecutionStore PatchValidation ToolProtocol
begin

text \<open>
  The lifecycle events of a run (src/gnsis/service/executor/events.py): what of a payload is kept, and
  the idempotent write.  \<open>re.sub\<close> with the three secret patterns and SHA-256 are parameters.  The
  environment also carries what the callbacks take from outside: the configured size limit, and
  materialising the base commit followed by \<open>git apply --check\<close>, with \<open>None\<close> for an exception.
\<close>

section \<open>Environment\<close>

record exec_env =
  env_lib :: pylib
  re_sub :: "ustr \<Rightarrow> ustr \<Rightarrow> ustr \<Rightarrow> ustr"
  sha256 :: "ustr \<Rightarrow> ustr"
  patch_max_bytes :: int
  git_check :: "ustr \<Rightarrow> ExecutionRun \<Rightarrow> ustr \<Rightarrow> PatchValidation option"

section \<open>Redaction\<close>

definition BEARER :: ustr where
  "BEARER = u ''(?i)'' @ [92] @ u ''bbearer'' @ [92] @ u ''s+[A-Za-z0-9._~+/=-]+''"

definition JWT :: ustr where
  "JWT = [92] @ u ''beyJ[A-Za-z0-9_-]{8,}'' @ [92] @ u ''.[A-Za-z0-9_-]{8,}'' @ [92] @ u ''.[A-Za-z0-9_-]{8,}'' @ [92] @ u ''b''"

definition API_KEY :: ustr where
  "API_KEY = u ''(?i)'' @ [92] @ u ''b(?:sk|gh[opusr]|github_pat)_[A-Za-z0-9_-]{12,}'' @ [92] @ u ''b''"

definition redact_text :: "exec_env \<Rightarrow> ustr \<Rightarrow> nat \<Rightarrow> ustr" where
  "redact_text env value limit =
     take limit (foldl (\<lambda>text pattern. re_sub env pattern (u ''[REDACTED]'') text)
       (filter (\<lambda>c. c \<noteq> 0) value) [BEARER, JWT, API_KEY])"

text \<open>
  \<open>_UNSAFE_KEY.search\<close>: one of the words occurs, up to case.  Beside the letters themselves, the
  dotted and dotless i, the long s and the Kelvin sign match case-insensitively.
\<close>

definition fold_case :: "nat \<Rightarrow> nat" where
  "fold_case c =
     (if 65 \<le> c \<and> c \<le> 90 then c + 32
      else if c = 304 \<or> c = 305 then 105 else if c = 383 then 115 else if c = 8490 then 107 else c)"

definition UNSAFE_WORDS :: "ustr list" where
  "UNSAFE_WORDS = map u [''authorization'', ''cookie'', ''credential'', ''password'', ''secret'', ''apikey'',
     ''api_key'', ''api-key'', ''jwt'', ''token'', ''nonce'', ''environment'', ''env'']"

definition unsafe_key :: "ustr \<Rightarrow> bool" where
  "unsafe_key name \<longleftrightarrow> list_ex (contains_text (map fold_case name)) UNSAFE_WORDS"

fun safe_payload :: "exec_env \<Rightarrow> nat \<Rightarrow> ustr jsn \<Rightarrow> ustr jsn"
  and safe_items :: "exec_env \<Rightarrow> nat \<Rightarrow> nat \<Rightarrow> (ustr \<times> ustr jsn) list \<Rightarrow> (ustr \<times> ustr jsn) list \<Rightarrow> (ustr \<times> ustr jsn) list"
  and safe_elements :: "exec_env \<Rightarrow> nat \<Rightarrow> nat \<Rightarrow> ustr jsn list \<Rightarrow> ustr jsn list" where
  "safe_payload env depth (JObj kvs) =
     (if 4 \<le> depth then JStr (u ''[TRUNCATED]'') else JObj (safe_items env depth 32 kvs []))"
| "safe_payload env depth (JList xs) =
     (if 4 \<le> depth then JStr (u ''[TRUNCATED]'') else JList (safe_elements env depth 32 xs))"
| "safe_payload env depth (JStr s) =
     (if 4 \<le> depth then JStr (u ''[TRUNCATED]'') else JStr (redact_text env s 4000))"
| "safe_payload env depth v = (if 4 \<le> depth then JStr (u ''[TRUNCATED]'') else v)"
| "safe_items env depth n [] result = result"
| "safe_items env depth n ((key, item) # rest) result =
     (if n = 0 then result
      else let name = redact_text env key 64 in
        if unsafe_key name then safe_items env depth (n - 1) rest result
        else safe_items env depth (n - 1) rest (AList.update name (safe_payload env (depth + 1) item) result))"
| "safe_elements env depth n [] = []"
| "safe_elements env depth n (x # xs) =
     (if n = 0 then [] else safe_payload env (depth + 1) x # safe_elements env depth (n - 1) xs)"

section \<open>Lifecycle events\<close>

definition KNOWN_KINDS :: "ustr set" where
  "KNOWN_KINDS = u ` set [''repository_access_verified'', ''repository_base_resolved'', ''dispatch_started'',
     ''workflow_dispatched'', ''executor_authentication_started'', ''executor_authenticated'',
     ''run_spec_requested'', ''source_download_started'', ''source_downloaded'',
     ''sandbox_prepare_started'', ''sandbox_ready'', ''agent_started'', ''agent_progress'',
     ''tool_file_read'', ''tool_file_changed'', ''tool_command_started'', ''tool_command_completed'',
     ''tests_started'', ''tests_completed'', ''output_validation_started'', ''output_validated'',
     ''executor_completion_received'', ''executor_failure_received'', ''awaiting_approval'',
     ''run_failed'', ''receipt_ready'', ''preflight_blocked'', ''policy_pinned'', ''memory_selected'',
     ''tool_call'']"

text \<open>\<open>json.dumps\<close> with its default \<open>ensure_ascii=True\<close>.\<close>

definition hex4_code :: "nat \<Rightarrow> ustr" where
  "hex4_code n = [92, 117, hex_code (n div 4096 mod 16), hex_code (n div 256 mod 16), hex_code (n div 16 mod 16), hex_code (n mod 16)]"

definition esc_ascii :: "nat \<Rightarrow> ustr" where
  "esc_ascii n =
     (if 127 \<le> n \<and> n < 65536 then hex4_code n
      else if 65536 \<le> n
      then hex4_code (55296 + (n - 65536) div 1024) @ hex4_code (56320 + (n - 65536) mod 1024)
      else if n < 32 \<and> n \<notin> {8, 9, 10, 12, 13} then hex4_code n
      else esc_char n)"

definition truncated_payload :: "(ustr \<times> ustr jsn) list" where
  "truncated_payload = [(u ''message'', JStr (u ''Event details were truncated.''))]"

text \<open>The payload that is stored and the text that identifies it.\<close>

definition bounded_payload :: "exec_env \<Rightarrow> (ustr \<times> ustr jsn) list \<Rightarrow> (ustr \<times> ustr jsn) list \<times> ustr" where
  "bounded_payload env payload =
     (let sf = show_float (env_lib env);
          cleaned = safe_items env 0 32 payload [];
          encoded = dumps_with esc_ascii sf tight (sort_keys (JObj cleaned))
      in if utf8_length encoded > 16384
         then (truncated_payload, dumps_with esc_ascii sf spaced (JObj truncated_payload))
         else (cleaned, encoded))"

definition lifecycle_event ::
  "exec_env \<Rightarrow> int \<Rightarrow> ExecutionRun \<Rightarrow> ustr \<Rightarrow> (ustr \<times> ustr jsn) list \<Rightarrow> ExecutionEvent" where
  "lifecycle_event env now run kind payload =
     (case bounded_payload env payload of (cleaned, encoded) \<Rightarrow>
       (let digest = take 24 (sha256 env (er_id run @ [58] @ kind @ [58, 58] @ encoded)) in
        \<lparr>xe_run_id = er_id run, xe_job_id = er_job_id run,
         xe_workflow_run_attempt = er_workflow_run_attempt run, xe_sequence = 0,
         xe_idempotency_key = u ''lifecycle:'' @ kind @ [58] @ digest, xe_kind = kind,
         xe_payload = cleaned, xe_created_at = now\<rparr>))"

definition record_lifecycle_event ::
  "exec_env \<Rightarrow> int \<Rightarrow> ExecutionRun \<Rightarrow> string \<Rightarrow> (ustr \<times> ustr jsn) list \<Rightarrow> ExecutionStore \<Rightarrow>
   bool \<times> ExecutionStore" where
  "record_lifecycle_event env now run kind payload S =
     (if u kind \<notin> KNOWN_KINDS then (False, S)
      else record_event S (lifecycle_event env now run (u kind) payload))"

section \<open>Laws\<close>

text \<open>What a kept payload looks like, \<open>n\<close> levels above the cut.\<close>

fun payload_ok :: "nat \<Rightarrow> ustr jsn \<Rightarrow> bool"
  and items_ok :: "nat \<Rightarrow> (ustr \<times> ustr jsn) list \<Rightarrow> bool"
  and elements_ok :: "nat \<Rightarrow> ustr jsn list \<Rightarrow> bool" where
  "payload_ok n (JObj kvs) = (0 < n \<and> length kvs \<le> 32 \<and> items_ok (n - 1) kvs)"
| "payload_ok n (JList xs) = (0 < n \<and> length xs \<le> 32 \<and> elements_ok (n - 1) xs)"
| "payload_ok n (JStr s) = (length s \<le> 4000)"
| "payload_ok n v = True"
| "items_ok n [] = True"
| "items_ok n ((k, v) # kvs) = (length k \<le> 64 \<and> \<not> unsafe_key k \<and> payload_ok n v \<and> items_ok n kvs)"
| "elements_ok n [] = True"
| "elements_ok n (x # xs) = (payload_ok n x \<and> elements_ok n xs)"

lemma items_ok_update:
  "items_ok n kvs \<Longrightarrow> length k \<le> 64 \<Longrightarrow> \<not> unsafe_key k \<Longrightarrow> payload_ok n v \<Longrightarrow> items_ok n (AList.update k v kvs)"
  by (induction kvs) auto

lemma length_update: "length (AList.update k v kvs) \<le> length kvs + 1"
  by (induction kvs) auto

lemma redact_length: "length (redact_text env s n) \<le> n"
  by (simp add: redact_text_def)

lemma safe_payload_ok:
  "depth \<le> 4 \<Longrightarrow> payload_ok (4 - depth) (safe_payload env depth v)"
  "depth < 4 \<Longrightarrow> items_ok (3 - depth) result \<Longrightarrow> length result + n \<le> 32 \<Longrightarrow>
     items_ok (3 - depth) (safe_items env depth n kvs result) \<and>
     length (safe_items env depth n kvs result) \<le> length result + n"
  "depth < 4 \<Longrightarrow> elements_ok (3 - depth) (safe_elements env depth n xs) \<and> length (safe_elements env depth n xs) \<le> n"
proof (induction env depth v and env depth n kvs result and env depth n xs
    rule: safe_payload_safe_items_safe_elements.induct)
  case (1 env depth kvs)
  then show ?case by (auto simp: u_def)
next
  case (2 env depth xs)
  then show ?case by (auto simp: u_def)
next
  case (3 env depth s)
  then show ?case using redact_length [of env s 4000] by (simp add: u_def)
next
  case (6 env depth n key item rest result)
  let ?name = "redact_text env key 64"
  let ?new = "AList.update ?name (safe_payload env (depth + 1) item) result"
  have new: "length ?new \<le> length result + 1" by (rule length_update)
  show ?case
  proof (cases "n = 0 \<or> unsafe_key ?name")
    case True
    show ?thesis
    proof (cases "n = 0")
      case False
      with True 6(1) [OF _ refl] 6(4-6) have "items_ok (3 - depth) (safe_items env depth (n - 1) rest result) \<and>
          length (safe_items env depth (n - 1) rest result) \<le> length result + (n - 1)" by simp
      with True False show ?thesis by (auto simp: Let_def)
    qed (use 6(5) in simp)
  next
    case False
    have "payload_ok (4 - (depth + 1)) (safe_payload env (depth + 1) item)"
      using 6(2) [OF _ refl] False 6(4) by simp
    with False 6(5) have "items_ok (3 - depth) ?new"
      by (intro items_ok_update) (auto simp: redact_length)
    with 6(3) [OF _ refl] False 6(4,6) new
    have "items_ok (3 - depth) (safe_items env depth (n - 1) rest ?new) \<and>
        length (safe_items env depth (n - 1) rest ?new) \<le> length ?new + (n - 1)" by simp
    with False new show ?thesis by (auto simp: Let_def)
  qed
qed (auto simp: u_def)

lemma record_event_again:
  "record_event (snd (record_event S e)) (e\<lparr>xe_created_at := now\<rparr>) = (False, snd (record_event S e))"
proof -
  let ?taken = "\<lambda>T. \<exists>x \<in> set (es_events T). xe_run_id x = xe_run_id e \<and> xe_idempotency_key x = xe_idempotency_key e"
  have "?taken (snd (record_event S e))" by (cases "?taken S") (simp_all add: record_event_def)
  then show ?thesis by (subst record_event_def) simp
qed

lemma esc_ascii_plain: "32 \<le> c \<Longrightarrow> c < 127 \<Longrightarrow> c \<noteq> 34 \<Longrightarrow> c \<noteq> 92 \<Longrightarrow> esc_ascii c = [c]"
  unfolding esc_ascii_def esc_char_def by auto

lemma quote_ascii:
  assumes "list_all (\<lambda>c. 32 \<le> c \<and> c < 127 \<and> c \<noteq> 34 \<and> c \<noteq> 92) s"
  shows "quote_with esc_ascii s = 34 # s @ [34]"
proof -
  have "concat (map esc_ascii s) = s"
    using assms by (induction s) (auto simp: esc_ascii_plain)
  then show ?thesis by (simp add: quote_with_def)
qed

lemma truncated_encoding: "utf8_length (dumps_with esc_ascii sf spaced (JObj truncated_payload)) \<le> 16384"
proof -
  have "quote_with esc_ascii (u ''message'') = 34 # u ''message'' @ [34]"
    "quote_with esc_ascii (u ''Event details were truncated.'') = 34 # u ''Event details were truncated.'' @ [34]"
    by (rule quote_ascii, simp add: u_def)+
  then have "dumps_with esc_ascii sf spaced (JObj truncated_payload) =
      u ''{'' @ (34 # u ''message'' @ [34]) @ u '': '' @ (34 # u ''Event details were truncated.'' @ [34]) @ u ''}''"
    by (simp add: truncated_payload_def spaced_def)
  then show ?thesis by (simp add: utf8_length_def u_def)
qed

section \<open>Properties\<close>

text \<open>What an event stores is bounded and carries no credential-shaped field: at most four levels, 32
  entries and 64 characters per name, 4000 characters per text, 16 KB in all, and no name with one
  of the forbidden words at any depth.  Writing the same event again is refused and changes nothing.\<close>

theorem lifecycle_payload_is_bounded:
  "payload_ok 4 (JObj (fst (bounded_payload env payload))) \<and>
   utf8_length (snd (bounded_payload env payload)) \<le> 16384 \<and>
   record_lifecycle_event env now' run kind payload (snd (record_lifecycle_event env now run kind payload S)) =
     (False, snd (record_lifecycle_event env now run kind payload S))"
proof -
  have "payload_ok 4 (safe_payload env 0 (JObj payload))"
    using safe_payload_ok(1) [of 0 env "JObj payload"] by simp
  moreover have "payload_ok 4 (JObj truncated_payload)"
    by (simp add: truncated_payload_def unsafe_key_def contains_text_def UNSAFE_WORDS_def u_def fold_case_def)
  ultimately have "payload_ok 4 (JObj (fst (bounded_payload env payload)))"
    by (simp add: bounded_payload_def Let_def)
  moreover have "utf8_length (snd (bounded_payload env payload)) \<le> 16384"
    using truncated_encoding by (simp add: bounded_payload_def Let_def del: dumps_with.simps)
  moreover have "lifecycle_event env now' run (u kind) payload =
      (lifecycle_event env now run (u kind) payload)\<lparr>xe_created_at := now'\<rparr>"
    by (simp add: lifecycle_event_def Let_def split: prod.split)
  ultimately show ?thesis
    using record_event_again [of S "lifecycle_event env now run (u kind) payload" now']
    by (simp add: record_lifecycle_event_def)
qed

end
