(* ===== verification/ExecutorCallbacks.thy ===== *)
theory ExecutorCallbacks
  imports ExecutorEvents ToolValidate
begin

text \<open>
  The authenticated callbacks of a run (src/gnsis/service/executor/callbacks.py), the description of
  failures (failures.py), the binding of an approval (approval.py), and the part of the job store
  they use (src/gnsis/service/repository.py, src/gnsis/orchestration/status.py).

  A handler performs its transactions one after the other; an exception ends it but undoes nothing
  that was committed, so a handler returns the error or the reply together with the state it leaves.
  The argument \<open>run\<close> is the record read when the request was authenticated.  \<open>clk i\<close> is the clock in
  the \<open>i\<close>-th transaction.  An uncaught exception is \<open>Crash\<close>; \<open>OutsideModel\<close> marks JSON texts with
  \<open>NaN\<close> or \<open>Infinity\<close>.
\<close>

section \<open>Jobs\<close>

datatype JobStatus =
  JQueued | JPlanning | JPatching | JTesting | JSummarizing | JAwaitingApproval | JApproved |
  JPublishing | JCompleted | JRejected | JFailed | JCancelled | JBlocked

definition JOB_TERMINAL :: "JobStatus set" where
  "JOB_TERMINAL = {JCompleted, JRejected, JFailed, JCancelled, JBlocked}"

record Job =
  jb_id :: ustr
  jb_repo :: ustr
  jb_base_branch :: ustr
  jb_model :: "ustr option"
  jb_advisor_model :: "ustr option"
  jb_status :: JobStatus
  jb_error :: "ustr option"
  jb_context :: "(ustr \<times> ustr jsn) list"
  jb_workspace_id :: "ustr option"
  jb_repository_id :: "ustr option"

record LogEntry =
  lg_job_id :: ustr
  lg_phase :: string
  lg_level :: string
  lg_message :: ustr

record Diff =
  df_job_id :: ustr
  df_patch :: ustr
  df_files :: "ustr list"

record Service =
  sv_exec :: ExecutionStore
  sv_jobs :: "Job list"
  sv_logs :: "LogEntry list"
  sv_diffs :: "Diff list"

definition get_job :: "Service \<Rightarrow> ustr \<Rightarrow> Job option" where
  "get_job sv k = find (\<lambda>j. jb_id j = k) (sv_jobs sv)"

definition update_job :: "Service \<Rightarrow> ustr \<Rightarrow> (Job \<Rightarrow> Job) \<Rightarrow> Service" where
  "update_job sv k f = sv\<lparr>sv_jobs := map (\<lambda>j. if jb_id j = k then f j else j) (sv_jobs sv)\<rparr>"

text \<open>\<open>set_status\<close> and \<open>merge_context\<close> are called for a job that was just read; a missing job would raise.\<close>

definition job_set_status :: "Service \<Rightarrow> ustr \<Rightarrow> JobStatus \<Rightarrow> ustr option \<Rightarrow> Service" where
  "job_set_status sv k status err =
     update_job sv k (\<lambda>j. j\<lparr>jb_status := status, jb_error := (if err = None then jb_error j else err)\<rparr>)"

definition merge_context :: "Service \<Rightarrow> ustr \<Rightarrow> (ustr \<times> ustr jsn) list \<Rightarrow> Service" where
  "merge_context sv k updates =
     update_job sv k (\<lambda>j. j\<lparr>jb_context := foldl (\<lambda>c (key, v). AList.update key v c) (jb_context j) updates\<rparr>)"

definition append_log :: "Service \<Rightarrow> LogEntry \<Rightarrow> Service" where
  "append_log sv e = sv\<lparr>sv_logs := sv_logs sv @ [e]\<rparr>"

definition get_diff :: "Service \<Rightarrow> ustr \<Rightarrow> Diff option" where
  "get_diff sv k = find (\<lambda>d. df_job_id d = k) (sv_diffs sv)"

definition save_diff :: "Service \<Rightarrow> Diff \<Rightarrow> Service" where
  "save_diff sv d =
     sv\<lparr>sv_diffs := (if get_diff sv (df_job_id d) = None then sv_diffs sv @ [d]
       else map (\<lambda>x. if df_job_id x = df_job_id d then d else x) (sv_diffs sv))\<rparr>"

section \<open>Outcomes of a handler\<close>

datatype handler_error = CallbackError nat ustr | Crash | OutsideModel

record CallbackReply =
  cr_status :: ExecutionStatus
  cr_patch_sha256 :: "ustr option"
  cr_duplicate :: bool

type_synonym 'a handled = "(handler_error + 'a) \<times> Service"

definition exec_step :: "Service \<Rightarrow> store_error + ExecutionStore \<Rightarrow> (Service \<Rightarrow> 'a handled) \<Rightarrow> 'a handled" where
  "exec_step sv r k = (case r of Inl e \<Rightarrow> (Inl Crash, sv) | Inr S \<Rightarrow> k (sv\<lparr>sv_exec := S\<rparr>))"

definition with_exec :: "(ExecutionStore \<Rightarrow> ExecutionStore) \<Rightarrow> Service \<Rightarrow> Service" where
  "with_exec f sv = sv\<lparr>sv_exec := f (sv_exec sv)\<rparr>"

definition lifecycle ::
  "exec_env \<Rightarrow> int \<Rightarrow> ExecutionRun \<Rightarrow> string \<Rightarrow> (ustr \<times> ustr jsn) list \<Rightarrow> Service \<Rightarrow> Service" where
  "lifecycle env now run kind payload = with_exec (\<lambda>S. snd (record_lifecycle_event env now run kind payload S))"

definition say :: "string \<Rightarrow> (ustr \<times> ustr jsn) list" where
  "say message = [(u ''message'', JStr (u message))]"

text \<open>The record of a run that is read again; a missing one writes no event.\<close>

definition lifecycle_fresh ::
  "exec_env \<Rightarrow> int \<Rightarrow> ustr \<Rightarrow> string \<Rightarrow> (ustr \<times> ustr jsn) list \<Rightarrow> Service \<Rightarrow> Service" where
  "lifecycle_fresh env now k kind payload sv =
     (case run_row (sv_exec sv) k of None \<Rightarrow> sv | Some r \<Rightarrow> lifecycle env now r kind payload sv)"

section \<open>Failures\<close>

fun category_name :: "FailureCategory \<Rightarrow> ustr" where
  "category_name FDispatch = u ''dispatch_failed''"
| "category_name FOidc = u ''oidc_failed''"
| "category_name FTimeout = u ''timeout''"
| "category_name FExecutorError = u ''executor_error''"
| "category_name FValidation = u ''validation_failed''"
| "category_name FSecurity = u ''security_validation_failed''"
| "category_name FBudget = u ''budget_exceeded''"
| "category_name FCancelled = u ''cancelled''"
| "category_name FOrphaned = u ''orphaned''"
| "category_name FLostCallback = u ''lost_callback''"
| "category_name FStaleAttempt = u ''stale_attempt''"
| "category_name (FOther s) = s"

definition category_of :: "ustr \<Rightarrow> FailureCategory" where
  "category_of s =
     (case find (\<lambda>c. category_name c = s) [FDispatch, FOidc, FTimeout, FExecutorError, FValidation,
        FSecurity, FBudget, FCancelled, FOrphaned, FLostCallback, FStaleAttempt] of
        Some c \<Rightarrow> c | None \<Rightarrow> FOther s)"

record FailureOutcome =
  fo_stage :: string
  fo_execution_started :: bool
  fo_model_called :: bool
  fo_message :: string
  fo_retryable :: bool
  fo_next_action :: string

definition patch_recorded :: "ExecutionRun \<Rightarrow> bool" where
  "patch_recorded r \<longleftrightarrow> (case er_patch_sha256 r of Some (c # s) \<Rightarrow> True | _ \<Rightarrow> False)"

definition classify_failure :: "ExecutionRun \<Rightarrow> FailureCategory option \<Rightarrow> FailureOutcome" where
  "classify_failure run failure_category =
     (let category = (if failure_category = None then er_failure_category run else failure_category);
          model_called = us_model_calls (er_usage run) > 0;
          execution_started = er_status run \<in> {ERunning, EValidating} \<or> model_called \<or> patch_recorded run
      in if patch_recorded run \<or> er_status run = EValidating \<or> category = Some FValidation
         then \<lparr>fo_stage = ''output_validation'', fo_execution_started = True, fo_model_called = model_called,
           fo_message = ''The executor produced changes, but GNSIS could not validate the result.'',
           fo_retryable = False, fo_next_action = ''Review the validation details and retry the run.''\<rparr>
         else if er_source_downloaded_at run \<noteq> None \<and> execution_started
         then \<lparr>fo_stage = ''execution'', fo_execution_started = True, fo_model_called = model_called,
           fo_message = ''Execution began but stopped before producing a validated result.'',
           fo_retryable = True, fo_next_action = ''Retry the run; contact support if it stops again.''\<rparr>
         else if er_token_hash run \<noteq> None
         then \<lparr>fo_stage = ''source_loading'', fo_execution_started = False, fo_model_called = False,
           fo_message = ''The executor connected successfully but could not load the repository source.'',
           fo_retryable = True, fo_next_action = ''Verify repository access and retry the run.''\<rparr>
         else \<lparr>fo_stage = ''executor_authentication'', fo_execution_started = False, fo_model_called = False,
           fo_message = ''The trusted executor started, but it could not connect to or authenticate with GNSIS.'',
           fo_retryable = True,
           fo_next_action = ''Retry the run; contact support if authentication continues to fail.''\<rparr>)"

definition outcome_items :: "FailureOutcome \<Rightarrow> (ustr \<times> ustr jsn) list" where
  "outcome_items f =
     [(u ''stage'', JStr (u (fo_stage f))), (u ''execution_started'', JBool (fo_execution_started f)),
      (u ''model_called'', JBool (fo_model_called f)), (u ''message'', JStr (u (fo_message f))),
      (u ''retryable'', JBool (fo_retryable f)), (u ''next_action'', JStr (u (fo_next_action f)))]"

section \<open>Checks shared by the callbacks\<close>

text \<open>\<open>str(value)\<close>\<close>

definition text_of :: "exec_env \<Rightarrow> ustr jsn \<Rightarrow> ustr" where
  "text_of env v = (case v of JStr s \<Rightarrow> s | JInt i \<Rightarrow> u (int_str i) | _ \<Rightarrow> py_str (env_lib env) v)"

definition binds_value :: "exec_env \<Rightarrow> int option \<Rightarrow> ustr jsn \<Rightarrow> bool" where
  "binds_value env bound claimed \<longleftrightarrow>
     (case bound of None \<Rightarrow> True | Some i \<Rightarrow> claimed = JNull \<or> text_of env claimed = u (int_str i))"

definition check_attempt_binding :: "exec_env \<Rightarrow> ExecutionRun \<Rightarrow> (ustr \<times> ustr jsn) list \<Rightarrow> handler_error option" where
  "check_attempt_binding env run body =
     (if \<not> binds_value env (er_workflow_run_id run) (get body ''run_id'')
      then Some (CallbackError 409 (u ''callback run id does not match''))
      else if \<not> binds_value env (er_workflow_run_attempt run) (get body ''run_attempt'')
      then Some (CallbackError 409 (u ''stale run attempt''))
      else None)"

definition fail_job :: "Service \<Rightarrow> ustr \<Rightarrow> ustr \<Rightarrow> Service" where
  "fail_job sv job_id err =
     (case get_job sv job_id of
        None \<Rightarrow> sv
      | Some job \<Rightarrow>
          (if jb_status job \<in> JOB_TERMINAL then sv
           else append_log (job_set_status sv job_id JFailed (Some err))
             \<lparr>lg_job_id = job_id, lg_phase = ''execute'', lg_level = ''error'', lg_message = err\<rparr>))"

section \<open>Events\<close>

fun keep_pinned :: "ustr set \<Rightarrow> ustr set \<Rightarrow> ustr jsn list \<Rightarrow> ustr list" where
  "keep_pinned allowed seen [] = []"
| "keep_pinned allowed seen (item # rest) =
     (case item of
        JStr s \<Rightarrow> (if u_strip s \<noteq> [] \<and> s \<in> allowed \<and> s \<notin> seen
                   then s # keep_pinned allowed (insert s seen) rest else keep_pinned allowed seen rest)
      | _ \<Rightarrow> keep_pinned allowed seen rest)"

definition narrow_intelligence_delivery ::
  "(ustr \<times> ustr jsn) list \<Rightarrow> ExecutionRun \<Rightarrow> (ustr \<times> ustr jsn) list" where
  "narrow_intelligence_delivery payload run =
     AList.update (u ''memory_ids'')
       (JList (if get payload ''delivery_state'' \<noteq> JStr (u ''delivered'') \<or>
            get payload ''model_request_started'' \<noteq> JBool True then []
          else case get payload ''memory_ids'' of
            JList ids \<Rightarrow> map JStr (keep_pinned (set (memory_list run)) {} ids) | _ \<Rightarrow> []))
       payload"

text \<open>\<open>body.get(a) or body.get(b) or default\<close>\<close>

definition first_truthy :: "ustr jsn list \<Rightarrow> ustr jsn \<Rightarrow> ustr jsn" where
  "first_truthy vs d = (case find truthy vs of Some v \<Rightarrow> v | None \<Rightarrow> d)"

definition event_payload :: "exec_env \<Rightarrow> ExecutionRun \<Rightarrow> ustr \<Rightarrow> (ustr \<times> ustr jsn) list \<Rightarrow> (ustr \<times> ustr jsn) list" where
  "event_payload env run kind body =
     (let payload = safe_items env 0 32 (case get body ''data'' of JObj kvs \<Rightarrow> kvs | _ \<Rightarrow> []) [];
          with_message = (case get body ''message'' of
             JStr m \<Rightarrow> safe_items env 0 32
               (AList.update (u ''message'') (JStr (take 4000 (strip_control_sequences m))) payload) []
           | _ \<Rightarrow> payload)
      in if kind = u ''intelligence_context_delivered''
         then narrow_intelligence_delivery with_message run else with_message)"

definition record_run_event ::
  "exec_env \<Rightarrow> int \<Rightarrow> Service \<Rightarrow> ExecutionRun \<Rightarrow> (ustr \<times> ustr jsn) list \<Rightarrow> bool handled" where
  "record_run_event env now sv run body =
     (if er_status run \<in> TERMINAL then (Inl (CallbackError 409 (u ''run is not accepting events'')), sv)
      else if er_cancellation_requested_at run \<noteq> None
      then (Inl (CallbackError 409 (u ''run is cancelling'')), sv)
      else case check_attempt_binding env run body of Some e \<Rightarrow> (Inl e, sv) | None \<Rightarrow>
        (let kind = take 64 (text_of env (first_truthy [get body ''kind'', get body ''type''] (JStr (u ''log''))))
         in case py_int (env_lib env) (first_truthy [get body ''sequence''] (JInt 0)) of
           Inl e \<Rightarrow> (Inl Crash, sv)
         | Inr sequence \<Rightarrow>
             (let key = take 128 (text_of env (first_truthy [get body ''idempotency_key'']
                    (JStr (er_id run @ [58] @ u (int_str sequence) @ [58] @ kind))));
                  e = \<lparr>xe_run_id = er_id run, xe_job_id = er_job_id run,
                    xe_workflow_run_attempt = er_workflow_run_attempt run, xe_sequence = sequence,
                    xe_idempotency_key = key, xe_kind = kind,
                    xe_payload = event_payload env run kind body, xe_created_at = now\<rparr>
              in case record_event (sv_exec sv) e of
                (created, S) \<Rightarrow> (Inr (\<not> created), sv\<lparr>sv_exec := S\<rparr>))))"

section \<open>Failure\<close>

definition reply :: "ExecutionStatus \<Rightarrow> ustr option \<Rightarrow> bool \<Rightarrow> CallbackReply" where
  "reply status sha duplicate = \<lparr>cr_status = status, cr_patch_sha256 = sha, cr_duplicate = duplicate\<rparr>"

definition handle_failed ::
  "exec_env \<Rightarrow> clock \<Rightarrow> Service \<Rightarrow> ExecutionRun \<Rightarrow> (ustr \<times> ustr jsn) list \<Rightarrow> CallbackReply handled" where
  "handle_failed env clk sv run body =
     (case check_attempt_binding env run body of Some e \<Rightarrow> (Inl e, sv) | None \<Rightarrow>
      if er_status run \<in> TERMINAL then (Inr (reply (er_status run) None False), sv)
      else
        let reason = take 500 (strip_control_sequences
              (text_of env (first_truthy [get body ''reason''] (JStr (u ''executor reported failure'')))));
            category = category_of (take 64 (text_of env
              (first_truthy [get body ''category''] (JStr (category_name FExecutorError)))));
            outcome = outcome_items (classify_failure run (Some category));
            sv1 = lifecycle env (clk 0) run ''executor_failure_received''
              (AList.update (u ''message'') (JStr (u ''The executor reported that the run stopped.'')) outcome) sv
        in exec_step sv1 (set_status (sv_exec sv1) (clk 1) (er_id run) EFailed (Some category) None) (\<lambda>sv2.
             (Inr (reply EFailed None False),
              fail_job (with_exec (\<lambda>S. revoke_token S (clk 2) (er_id run)) sv2) (er_job_id run) reason)))"

section \<open>Completion\<close>

text \<open>A run that is rejected: it fails, its token is revoked, and its job fails with the reason.\<close>

definition reject_run ::
  "clock \<Rightarrow> nat \<Rightarrow> Service \<Rightarrow> ExecutionRun \<Rightarrow> FailureCategory \<Rightarrow> ustr \<Rightarrow> handler_error \<Rightarrow> 'a handled" where
  "reject_run clk n sv run category why err =
     exec_step sv (set_status (sv_exec sv) (clk n) (er_id run) EFailed (Some category) None) (\<lambda>sv1.
       (Inl err, fail_job (with_exec (\<lambda>S. revoke_token S (clk (n + 1)) (er_id run)) sv1) (er_job_id run) why))"

definition compact_tests_summary :: "exec_env \<Rightarrow> ustr \<Rightarrow> (ustr \<times> ustr jsn) list option" where
  "compact_tests_summary env raw =
     (case loads (read_float (env_lib env)) raw of
        Parsed (JObj data) \<Rightarrow>
          (let text = (\<lambda>key n. JStr (take n (text_of env (first_truthy [get data key] (JStr [])))));
               int = (\<lambda>key. case get data key of JInt i \<Rightarrow> JInt i | _ \<Rightarrow> JInt 0)
           in Some [(u ''runner'', text ''runner'' 64), (u ''status'', text ''status'' 32),
             (u ''passed'', int ''passed''), (u ''failed'', int ''failed''), (u ''skipped'', int ''skipped'')])
      | _ \<Rightarrow> None)"

definition outcome_summary :: "exec_env \<Rightarrow> ustr jsn \<Rightarrow> ustr option" where
  "outcome_summary env receipt_raw =
     (case receipt_raw of
        JStr raw \<Rightarrow>
          (case loads (read_float (env_lib env)) raw of
             Parsed (JObj receipt) \<Rightarrow>
               (case first_truthy [get receipt ''outcome_summary''] (get receipt ''summary'') of
                  JStr s \<Rightarrow> (if u_strip s \<noteq> [] then Some (take 8000 (u_strip s)) else None)
                | _ \<Rightarrow> None)
           | _ \<Rightarrow> None)
      | _ \<Rightarrow> None)"

text \<open>\<open>body.get("outputs") or {}\<close>, on which \<open>.get\<close> fails unless it is an object.\<close>

definition outputs_of :: "(ustr \<times> ustr jsn) list \<Rightarrow> (ustr \<times> ustr jsn) list option" where
  "outputs_of body =
     (if \<not> truthy (get body ''outputs'') then Some []
      else case get body ''outputs'' of JObj kvs \<Rightarrow> Some kvs | _ \<Rightarrow> None)"

text \<open>Steps 3 and 4: an error of the JSON outputs or of the reported hash, or the summary of the tests.\<close>

definition check_tests :: "exec_env \<Rightarrow> ustr jsn \<Rightarrow> handler_error + (ustr \<times> ustr jsn) list option" where
  "check_tests env tests_raw =
     (case tests_raw of
        JStr raw \<Rightarrow>
          (case validate_tests_json (read_float (env_lib env)) raw of
             None \<Rightarrow> Inl OutsideModel
           | Some tv \<Rightarrow> (if pv_ok tv then Inr (compact_tests_summary env raw)
                         else Inl (CallbackError 422 (pv_reason tv))))
      | _ \<Rightarrow> Inr None)"

definition check_receipt :: "exec_env \<Rightarrow> ustr jsn \<Rightarrow> handler_error option" where
  "check_receipt env receipt_raw =
     (case receipt_raw of
        JStr raw \<Rightarrow>
          (case validate_receipt_json (read_float (env_lib env)) raw of
             None \<Rightarrow> Some OutsideModel
           | Some rv \<Rightarrow> (if pv_ok rv then None else Some (CallbackError 422 (pv_reason rv))))
      | _ \<Rightarrow> None)"

definition check_reported_hash :: "ustr \<Rightarrow> ustr jsn \<Rightarrow> handler_error option" where
  "check_reported_hash sha hashes =
     (if \<not> truthy hashes then None
      else case hashes of
        JObj kvs \<Rightarrow>
          (case map_of kvs (u ''patch.diff'') of
             None \<Rightarrow> None
           | Some h \<Rightarrow> (if h = JStr sha then None else Some (CallbackError 422 (u ''patch hash mismatch''))))
      | JList xs \<Rightarrow> (if JStr (u ''patch.diff'') \<in> set xs then Some Crash else None)
      | JStr s \<Rightarrow> (if contains_text s (u ''patch.diff'') then Some Crash else None)
      | _ \<Rightarrow> Some Crash)"

definition artifact_hashes_of :: "exec_env \<Rightarrow> (ustr \<times> ustr jsn) list \<Rightarrow> (ustr \<times> ustr jsn) list" where
  "artifact_hashes_of env outputs =
     concat (map (\<lambda>name. case get outputs name of
         JStr s \<Rightarrow> [(u name, JStr (sha256 env s))] | _ \<Rightarrow> []) [''patch.diff'', ''tests.json'', ''receipt.json'']) @
     (case get outputs ''events.jsonl'' of
        JObj meta \<Rightarrow> (if truthy (get meta ''sha256'')
          then [(u ''events.jsonl'', JStr (text_of env (get meta ''sha256'')))] else [])
      | _ \<Rightarrow> [])"

text \<open>Step 7: what is stored once the patch applies.\<close>

definition complete_run ::
  "exec_env \<Rightarrow> clock \<Rightarrow> Service \<Rightarrow> ExecutionRun \<Rightarrow> (ustr \<times> ustr jsn) list \<Rightarrow> ustr \<Rightarrow> ustr list \<Rightarrow>
   (ustr \<times> ustr jsn) list option \<Rightarrow> CallbackReply handled" where
  "complete_run env clk sv run outputs patch files tests_summary =
     (let sha = sha256 env patch in
      exec_step sv (set_patch_result (sv_exec sv) (er_id run) sha (artifact_hashes_of env outputs)
          (u ''passed'') tests_summary (outcome_summary env (get outputs ''receipt.json''))) (\<lambda>sv1.
      exec_step sv1 (set_status (sv_exec sv1) (clk 4) (er_id run) ECompleted None None) (\<lambda>sv2.
        let sv3 = with_exec (\<lambda>S. revoke_token S (clk 6) (er_id run))
              (lifecycle_fresh env (clk 5) (er_id run) ''output_validated''
                (say ''The executor output was validated.'') sv2);
            sv4 = save_diff sv3 \<lparr>df_job_id = er_job_id run, df_patch = patch, df_files = files\<rparr>;
            done = reply ECompleted (Some sha) False
        in case get_job sv4 (er_job_id run) of
          None \<Rightarrow> (Inr done, sv4)
        | Some job \<Rightarrow>
            (if jb_status job \<in> JOB_TERMINAL then (Inr done, sv4)
             else (Inr done,
               lifecycle_fresh env (clk 7) (er_id run) ''awaiting_approval''
                 (say ''The changes are ready for human approval.'' @
                  [(u ''next_action'', JStr (u ''Review and approve or reject the proposed changes.''))])
                 (append_log
                   (merge_context (job_set_status sv4 (er_job_id run) JAwaitingApproval None) (er_job_id run)
                     [(u ''base_sha'', JStr (er_base_sha run)), (u ''patch_sha256'', JStr sha)])
                   \<lparr>lg_job_id = er_job_id run, lg_phase = ''summary'', lg_level = ''info'',
                     lg_message = u ''awaiting human approval before publishing''\<rparr>))))))"

text \<open>Steps 5 to 7.\<close>

definition record_completion ::
  "exec_env \<Rightarrow> clock \<Rightarrow> Service \<Rightarrow> ExecutionRun \<Rightarrow> (ustr \<times> ustr jsn) list \<Rightarrow> ustr \<Rightarrow> ustr list \<Rightarrow>
   (ustr \<times> ustr jsn) list option \<Rightarrow> CallbackReply handled" where
  "record_completion env clk sv run outputs patch files tests_summary =
     (case run_row (sv_exec sv) (er_id run) of
        None \<Rightarrow> (Inl Crash, sv)
      | Some fresh \<Rightarrow>
          (if patch_recorded fresh
           then (if er_patch_sha256 fresh = Some (sha256 env patch)
                 then (Inr (reply (er_status fresh) (Some (sha256 env patch)) True), sv)
                 else (Inl (CallbackError 409 (u ''a different completion already recorded'')), sv))
           else
             exec_step sv (set_status (sv_exec sv) (clk 1) (er_id run) EValidating None None) (\<lambda>sv1.
               let sv2 = lifecycle env (clk 2) run ''output_validation_started''
                     (say ''GNSIS started validating the executor output.'') sv1;
                   repo = (case get_job sv2 (er_job_id run) of Some job \<Rightarrow> jb_repo job | None \<Rightarrow> [])
               in case git_check env repo run patch of
                 None \<Rightarrow> (Inl Crash, sv2)
               | Some applied \<Rightarrow>
                   (if \<not> pv_ok applied
                    then reject_run clk 3 sv2 run FValidation
                      (u ''patch does not apply to base: '' @ pv_reason applied)
                      (CallbackError 422 (u ''patch does not apply to clean base''))
                    else complete_run env clk sv2 run outputs patch files tests_summary))))"

definition handle_complete ::
  "exec_env \<Rightarrow> clock \<Rightarrow> Service \<Rightarrow> ExecutionRun \<Rightarrow> (ustr \<times> ustr jsn) list \<Rightarrow> CallbackReply handled" where
  "handle_complete env clk sv0 run body =
     (case check_attempt_binding env run body of Some e \<Rightarrow> (Inl e, sv0) | None \<Rightarrow>
      (let sv = lifecycle env (clk 0) run ''executor_completion_received''
             (say ''The executor completion callback was received.'') sv0
       in case outputs_of body of None \<Rightarrow> (Inl Crash, sv) | Some outputs \<Rightarrow>
       (case get outputs ''patch.diff'' of
          JStr patch \<Rightarrow>
            (if get body ''base_sha'' \<noteq> JStr (er_base_sha run)
             then reject_run clk 1 sv run FValidation
               (u ''reported base sha does not match execution record'')
               (CallbackError 409 (u ''base sha mismatch''))
             else
               let result = validate_patch_structure patch (patch_max_bytes env) 500 in
               if \<not> pv_ok result
               then reject_run clk 1 sv run FSecurity (u ''patch rejected: '' @ pv_reason result)
                 (CallbackError 422 (u ''patch rejected: '' @ pv_reason result))
               else case check_tests env (get outputs ''tests.json'') of
                 Inl e \<Rightarrow> (Inl e, sv)
               | Inr tests_summary \<Rightarrow>
                   (case check_receipt env (get outputs ''receipt.json'') of
                      Some e \<Rightarrow> (Inl e, sv)
                    | None \<Rightarrow>
                        (case check_reported_hash (sha256 env patch) (get body ''hashes'') of
                           Some e \<Rightarrow> (Inl e, sv)
                         | None \<Rightarrow>
                             record_completion env clk sv run outputs patch (pv_files result) tests_summary)))
        | _ \<Rightarrow> (Inl (CallbackError 400 (u ''outputs['' @ [39] @ u ''patch.diff'' @ [39] @ u ''] is required'')), sv))))"

section \<open>Approval\<close>

text \<open>What \<open>build_binding\<close> puts into the job's context; \<open>now\<close> is \<open>int(time.time())\<close>.\<close>

record ApprovalBinding =
  ab_workspace_id :: "ustr option"
  ab_repository_id :: "ustr option"
  ab_repository_full_name :: ustr
  ab_installation_record_id :: "ustr option"
  ab_base_branch :: ustr
  ab_base_sha :: ustr
  ab_patch_sha256 :: ustr
  ab_execution_run_id :: ustr
  ab_workflow_run_id :: "int option"
  ab_workflow_run_attempt :: "int option"
  ab_verification :: ustr
  ab_approved_by :: ustr
  ab_approved_at :: int
  ab_expires_at_epoch :: int

definition build_binding ::
  "int \<Rightarrow> Job \<Rightarrow> ExecutionRun \<Rightarrow> ustr option \<Rightarrow> ustr \<Rightarrow> ustr \<Rightarrow> int \<Rightarrow> ustr \<Rightarrow> ApprovalBinding" where
  "build_binding now job run installation actor verification ttl patch_sha256 =
     \<lparr>ab_workspace_id = jb_workspace_id job, ab_repository_id = jb_repository_id job,
      ab_repository_full_name = jb_repo job, ab_installation_record_id = installation,
      ab_base_branch = er_base_branch run, ab_base_sha = er_base_sha run,
      ab_patch_sha256 = patch_sha256, ab_execution_run_id = er_id run,
      ab_workflow_run_id = er_workflow_run_id run, ab_workflow_run_attempt = er_workflow_run_attempt run,
      ab_verification = verification, ab_approved_by = actor, ab_approved_at = now,
      ab_expires_at_epoch = now + ttl\<rparr>"

text \<open>\<open>now\<close> is \<open>time.time()\<close>; \<open>None\<close> means that every check passed.\<close>

definition verify_binding :: "rat \<Rightarrow> ApprovalBinding option \<Rightarrow> ExecutionRun \<Rightarrow> ustr \<Rightarrow> string option" where
  "verify_binding now binding run diff_patch_sha256 =
     (case binding of
        None \<Rightarrow> Some ''job has no approval binding''
      | Some b \<Rightarrow>
          (if ab_expires_at_epoch b \<noteq> 0 \<and> now > of_int (ab_expires_at_epoch b)
           then Some ''approval has expired; re-approve required''
           else if ab_execution_run_id b \<noteq> er_id run then Some ''approval bound to a different execution run''
           else if ab_base_sha b \<noteq> er_base_sha run
           then Some ''approved base sha does not match execution record''
           else if Some (ab_patch_sha256 b) \<noteq> er_patch_sha256 run
           then Some ''approved patch hash does not match execution record''
           else if diff_patch_sha256 \<noteq> ab_patch_sha256 b
           then Some ''stored patch hash does not match approved hash''
           else None))"

section \<open>Laws\<close>

subsection \<open>Frames\<close>

lemma record_event_frame [simp]:
  "es_runs (snd (record_event S e)) = es_runs S" "es_consumptions (snd (record_event S e)) = es_consumptions S"
  by (simp_all add: record_event_def)

lemma lifecycle_frame [simp]:
  "es_runs (sv_exec (lifecycle env now run kind payload sv)) = es_runs (sv_exec sv)"
  "sv_jobs (lifecycle env now run kind payload sv) = sv_jobs sv"
  "sv_diffs (lifecycle env now run kind payload sv) = sv_diffs sv"
  by (simp_all add: lifecycle_def with_exec_def record_lifecycle_event_def)

lemma lifecycle_fresh_frame [simp]:
  "es_runs (sv_exec (lifecycle_fresh env now k kind payload sv)) = es_runs (sv_exec sv)"
  "sv_jobs (lifecycle_fresh env now k kind payload sv) = sv_jobs sv"
  "sv_diffs (lifecycle_fresh env now k kind payload sv) = sv_diffs sv"
  by (simp_all add: lifecycle_fresh_def split: option.split)

lemma fail_job_frame [simp]:
  "sv_exec (fail_job sv k err) = sv_exec sv" "sv_diffs (fail_job sv k err) = sv_diffs sv"
  by (simp_all add: fail_job_def append_log_def job_set_status_def update_job_def split: option.split)

lemma with_exec_frame [simp]:
  "sv_exec (with_exec f sv) = f (sv_exec sv)" "sv_jobs (with_exec f sv) = sv_jobs sv"
  "sv_diffs (with_exec f sv) = sv_diffs sv"
  by (simp_all add: with_exec_def)

lemma job_update_frame [simp]:
  "sv_exec (update_job sv k f) = sv_exec sv" "sv_diffs (update_job sv k f) = sv_diffs sv"
  "sv_exec (append_log sv e) = sv_exec sv" "sv_diffs (append_log sv e) = sv_diffs sv"
  "sv_jobs (append_log sv e) = sv_jobs sv"
  "sv_exec (save_diff sv d) = sv_exec sv" "sv_jobs (save_diff sv d) = sv_jobs sv"
  by (simp_all add: update_job_def append_log_def save_diff_def)

lemma run_row_cong: "es_runs S' = es_runs S \<Longrightarrow> run_row S' k = run_row S k"
  by (simp add: run_row_def)

lemma assign_row:
  "(\<And>r. er_id (f r) = er_id r) \<Longrightarrow>
   run_row (assign j f S) k = map_option (\<lambda>r. if er_id r = j then f r else r) (run_row S k)"
  unfolding assign_def by (rule update_where_row)

lemma assign_own:
  assumes "\<And>r. er_id (f r) = er_id r" and "run_row S k = Some r"
  shows "run_row (assign k f S) k = Some (f r)"
  using assms run_row_id [of S k r] by (simp add: assign_row)

lemma revoke_row:
  assumes "run_row S k = Some r"
  obtains t where "run_row (revoke_token S now k) k = Some (r\<lparr>er_token_revoked_at := Some t\<rparr>)"
proof (cases "er_token_revoked_at r")
  case None
  then have "run_row (revoke_token S now k) k = Some (r\<lparr>er_token_revoked_at := Some now\<rparr>)"
    unfolding revoke_token_def using assms by (subst assign_own [of _ _ _ r]) simp_all
  then show ?thesis by (rule that)
next
  case (Some t)
  then have "run_row (revoke_token S now k) k = Some r"
    unfolding revoke_token_def using assms by (subst assign_own [of _ _ _ r]) simp_all
  with Some show ?thesis by (intro that [of t]) simp
qed

lemma exec_step_Inr:
  "exec_step sv r k = (Inr x, sv') \<Longrightarrow> \<exists>S. r = Inr S \<and> k (sv\<lparr>sv_exec := S\<rparr>) = (Inr x, sv')"
  by (simp add: exec_step_def split: sum.splits)

lemma get_job_update [simp]:
  "(\<And>j. jb_id (f j) = jb_id j) \<Longrightarrow>
   get_job (update_job sv k f) i = map_option (\<lambda>j. if jb_id j = k then f j else j) (get_job sv i)"
  unfolding get_job_def update_job_def by (simp add: find_map_id)

lemma get_job_id: "get_job sv k = Some j \<Longrightarrow> jb_id j = k"
  unfolding get_job_def by (drule find_SomeD) simp

lemma get_job_cong: "sv_jobs sv' = sv_jobs sv \<Longrightarrow> get_job sv' k = get_job sv k"
  by (simp add: get_job_def)

lemma get_diff_cong: "sv_diffs sv' = sv_diffs sv \<Longrightarrow> get_diff sv' k = get_diff sv k"
  by (simp add: get_diff_def)

lemma get_diff_save: "get_diff (save_diff sv d) (df_job_id d) = Some d"
proof (cases "get_diff sv (df_job_id d)")
  case None
  then show ?thesis by (simp add: save_diff_def get_diff_def find_append)
next
  case (Some x)
  have "find (\<lambda>y. df_job_id y = df_job_id d) (map (\<lambda>x. if df_job_id x = df_job_id d then d else x) (sv_diffs sv)) =
      map_option (\<lambda>x. if df_job_id x = df_job_id d then d else x) (find (\<lambda>y. df_job_id y = df_job_id d) (sv_diffs sv))"
    by (rule find_map_id) simp
  with Some find_SomeD [OF Some [unfolded get_diff_def]] show ?thesis
    by (simp add: save_diff_def) (simp add: get_diff_def)
qed

subsection \<open>Completion\<close>

text \<open>What a completed run looks like.\<close>

definition completed_state :: "exec_env \<Rightarrow> ExecutionRun \<Rightarrow> ustr \<Rightarrow> Service \<Rightarrow> bool" where
  "completed_state env run patch sv \<longleftrightarrow>
     (\<exists>r. run_row (sv_exec sv) (er_id run) = Some r \<and> er_status r = ECompleted \<and>
        er_patch_sha256 r = Some (sha256 env patch) \<and> er_token_revoked_at r \<noteq> None \<and>
        er_security_validation r = Some (u ''passed'')) \<and>
     (\<exists>d. get_diff sv (er_job_id run) = Some d \<and> df_patch d = patch) \<and>
     (\<forall>job. get_job sv (er_job_id run) = Some job \<longrightarrow>
        jb_status job \<in> insert JAwaitingApproval JOB_TERMINAL)"

lemma complete_run_state:
  assumes "complete_run env clk sv run outputs patch files tests = (Inr rep, sv')"
  shows "completed_state env run patch sv' \<and> rep = reply ECompleted (Some (sha256 env patch)) False"
proof -
  let ?k = "er_id run" and ?j = "er_job_id run" and ?sha = "sha256 env patch"
  let ?out = "outcome_summary env (get outputs ''receipt.json'')"
  obtain S1 where S1: "set_patch_result (sv_exec sv) ?k ?sha (artifact_hashes_of env outputs) (u ''passed'') tests ?out = Inr S1"
    using assms unfolding complete_run_def Let_def by (auto dest!: exec_step_Inr)
  then obtain r1 where r1: "run_row S1 ?k = Some r1" "er_patch_sha256 r1 = Some ?sha" "er_security_validation r1 = Some (u ''passed'')"
    by (auto simp: set_patch_result_def assign_or_raise_def assign_own split: if_splits)
  obtain S2 where S2: "set_status S1 (clk 4) ?k ECompleted None None = Inr S2"
    using assms S1 unfolding complete_run_def Let_def by (auto dest!: exec_step_Inr)
  then obtain r2 where r2: "run_row S2 ?k = Some r2" "er_patch_sha256 r2 = Some ?sha" "er_status r2 = ECompleted"
      "er_security_validation r2 = Some (u ''passed'')"
    using r1 by (auto simp: set_status_def assign_or_raise_def assign_own split: if_splits)
  define sv2 where "sv2 = lifecycle_fresh env (clk 5) ?k ''output_validated''
      (say ''The executor output was validated.'') (sv\<lparr>sv_exec := S2\<rparr>)"
  have "run_row (sv_exec sv2) ?k = Some r2" using r2(1) run_row_cong [of "sv_exec sv2" S2] by (simp add: sv2_def)
  then obtain t where t: "run_row (revoke_token (sv_exec sv2) (clk 6) ?k) ?k = Some (r2\<lparr>er_token_revoked_at := Some t\<rparr>)"
    by (rule revoke_row)
  define sv4 where "sv4 = save_diff (with_exec (\<lambda>S. revoke_token S (clk 6) ?k) sv2)
      \<lparr>df_job_id = ?j, df_patch = patch, df_files = files\<rparr>"
  have row4: "run_row (sv_exec sv4) ?k = Some (r2\<lparr>er_token_revoked_at := Some t\<rparr>)" using t by (simp add: sv4_def)
  have diff4: "get_diff sv4 ?j = Some \<lparr>df_job_id = ?j, df_patch = patch, df_files = files\<rparr>"
    using get_diff_save [of "with_exec (\<lambda>S. revoke_token S (clk 6) ?k) sv2" "\<lparr>df_job_id = ?j, df_patch = patch, df_files = files\<rparr>"]
    by (simp add: sv4_def)
  define aw where "aw = (\<lambda>sv. lifecycle_fresh env (clk 7) ?k ''awaiting_approval''
      (say ''The changes are ready for human approval.'' @
        [(u ''next_action'', JStr (u ''Review and approve or reject the proposed changes.''))])
      (append_log (merge_context (job_set_status sv ?j JAwaitingApproval None) ?j
         [(u ''base_sha'', JStr (er_base_sha run)), (u ''patch_sha256'', JStr ?sha)])
       \<lparr>lg_job_id = ?j, lg_phase = ''summary'', lg_level = ''info'',
         lg_message = u ''awaiting human approval before publishing''\<rparr>))"
  have res: "rep = reply ECompleted (Some ?sha) False"
    "sv' = (case get_job sv4 ?j of None \<Rightarrow> sv4 | Some job \<Rightarrow> if jb_status job \<in> JOB_TERMINAL then sv4 else aw sv4)"
    using assms S1 S2
    by (auto simp: complete_run_def Let_def exec_step_def sv2_def sv4_def aw_def split: option.splits if_splits)
  have aw: "run_row (sv_exec (aw sv4)) ?k = run_row (sv_exec sv4) ?k" "get_diff (aw sv4) ?j = get_diff sv4 ?j"
    by (simp_all add: aw_def job_set_status_def merge_context_def run_row_def get_diff_def)
  have job: "jb_status job = JAwaitingApproval" if "get_job (aw sv4) ?j = Some job" for job
  proof -
    have "get_job (aw sv4) ?j = get_job (merge_context (job_set_status sv4 ?j JAwaitingApproval None) ?j
        [(u ''base_sha'', JStr (er_base_sha run)), (u ''patch_sha256'', JStr ?sha)]) ?j"
      by (rule get_job_cong) (simp add: aw_def)
    with that show ?thesis by (auto simp: merge_context_def job_set_status_def dest: get_job_id)
  qed
  show ?thesis
    using res row4 diff4 r2 aw job
    by (auto simp: completed_state_def split: option.splits if_splits)
qed


subsection \<open>Rejection\<close>

text \<open>What a rejected run leaves: no diff is written and nothing waits for approval.\<close>

definition rejected_state :: "ExecutionRun \<Rightarrow> FailureCategory \<Rightarrow> Service \<Rightarrow> Service \<Rightarrow> bool" where
  "rejected_state run category sv sv' \<longleftrightarrow>
     (\<exists>r. run_row (sv_exec sv') (er_id run) = Some r \<and> er_status r = EFailed \<and>
        er_failure_category r = Some category \<and> er_token_revoked_at r \<noteq> None) \<and>
     sv_diffs sv' = sv_diffs sv \<and>
     (\<forall>job. get_job sv' (er_job_id run) = Some job \<longrightarrow> jb_status job \<in> JOB_TERMINAL)"

lemma fail_job_terminal: "get_job (fail_job sv k err) k = Some job \<Longrightarrow> jb_status job \<in> JOB_TERMINAL"
proof (cases "get_job sv k")
  case (Some j)
  assume "get_job (fail_job sv k err) k = Some job"
  moreover have "get_job (append_log sv' e) i = get_job sv' i" for sv' e i
    by (rule get_job_cong) simp
  ultimately show ?thesis using Some get_job_id [OF Some]
    by (auto simp: fail_job_def job_set_status_def JOB_TERMINAL_def split: if_splits)
qed (simp add: fail_job_def)

lemma reject_run_state:
  assumes "run_row (sv_exec sv) (er_id run) = Some r"
  shows "\<exists>sv'. reject_run clk n sv run category why err = (Inl err, sv') \<and> rejected_state run category sv sv'"
proof -
  let ?k = "er_id run"
  obtain S where S: "set_status (sv_exec sv) (clk n) ?k EFailed (Some category) None = Inr S"
    using assms by (auto simp: set_status_def assign_or_raise_def)
  then obtain c where row: "run_row S ?k = Some (r\<lparr>er_status := EFailed, er_failure_category := Some category,
      er_completed_at := c\<rparr>)"
    using assms by (auto simp: set_status_def assign_or_raise_def assign_own split: if_splits)
  obtain t where "run_row (revoke_token S (clk (n + 1)) ?k) ?k = Some (r\<lparr>er_status := EFailed,
      er_failure_category := Some category, er_completed_at := c, er_token_revoked_at := Some t\<rparr>)"
    using row by (rule revoke_row)
  with S show ?thesis
    by (auto simp: reject_run_def exec_step_def rejected_state_def dest: fail_job_terminal)
qed

lemma reject_run_refuses: "reject_run clk n sv run category why err \<noteq> (Inr x, sv')"
  by (simp add: reject_run_def exec_step_def split: sum.splits)

text \<open>The patch that a completion carries.\<close>

definition submitted_patch :: "(ustr \<times> ustr jsn) list \<Rightarrow> ustr option" where
  "submitted_patch body =
     (case outputs_of body of None \<Rightarrow> None
      | Some outputs \<Rightarrow> (case get outputs ''patch.diff'' of JStr p \<Rightarrow> Some p | _ \<Rightarrow> None))"

lemma submitted_patchE:
  assumes "submitted_patch body = Some patch"
  obtains outputs where "outputs_of body = Some outputs" "get outputs ''patch.diff'' = JStr patch"
  using assms by (auto simp: submitted_patch_def split: option.splits jsn.splits)

definition applies_to_base :: "exec_env \<Rightarrow> Service \<Rightarrow> ExecutionRun \<Rightarrow> ustr \<Rightarrow> bool" where
  "applies_to_base env sv run patch \<longleftrightarrow>
     (case git_check env (case get_job sv (er_job_id run) of Some job \<Rightarrow> jb_repo job | None \<Rightarrow> []) run patch of
        Some applied \<Rightarrow> pv_ok applied | None \<Rightarrow> False)"

lemma record_completion_sound:
  assumes "record_completion env clk sv run outputs patch files tests = (Inr rep, sv')"
    and "run_row (sv_exec sv) (er_id run) = Some row" and "\<not> patch_recorded row"
  shows "applies_to_base env sv run patch \<and> completed_state env run patch sv' \<and>
    rep = reply ECompleted (Some (sha256 env patch)) False"
proof -
  obtain S where S: "set_status (sv_exec sv) (clk 1) (er_id run) EValidating None None = Inr S"
    using assms(2) by (auto simp: set_status_def assign_or_raise_def)
  define sv2 where "sv2 = lifecycle env (clk 2) run ''output_validation_started''
      (say ''GNSIS started validating the executor output.'') (sv\<lparr>sv_exec := S\<rparr>)"
  have job: "get_job sv2 k = get_job sv k" for k by (rule get_job_cong) (simp add: sv2_def)
  have "run_row (sv_exec sv2) (er_id run) = run_row S (er_id run)"
    by (rule run_row_cong) (simp add: sv2_def)
  then obtain r where r: "run_row (sv_exec sv2) (er_id run) = Some r"
    using S assms(2) by (auto simp: set_status_def assign_or_raise_def assign_own split: if_splits)
  obtain applied where applied: "git_check env (case get_job sv (er_job_id run) of Some job \<Rightarrow> jb_repo job | None \<Rightarrow> []) run patch = Some applied"
    using assms S by (auto simp: record_completion_def exec_step_def Let_def sv2_def [symmetric] job split: option.splits)
  have "pv_ok applied"
  proof (rule ccontr)
    assume bad: "\<not> pv_ok applied"
    show False
      using assms S applied bad
      by (simp add: record_completion_def exec_step_def Let_def sv2_def [symmetric] job reject_run_refuses)
  qed
  moreover then have "complete_run env clk sv2 run outputs patch files tests = (Inr rep, sv')"
    using assms S applied by (simp add: record_completion_def exec_step_def Let_def sv2_def [symmetric] job)
  ultimately show ?thesis using complete_run_state applied by (auto simp: applies_to_base_def)
qed


lemma handle_complete_unfold:
  assumes "outputs_of body = Some outputs" and "get outputs ''patch.diff'' = JStr patch"
    and "check_attempt_binding env run body = None"
    and "sv = lifecycle env (clk 0) run ''executor_completion_received''
      (say ''The executor completion callback was received.'') sv0"
  shows "handle_complete env clk sv0 run body =
    (let result = validate_patch_structure patch (patch_max_bytes env) 500 in
     if get body ''base_sha'' \<noteq> JStr (er_base_sha run)
     then reject_run clk 1 sv run FValidation (u ''reported base sha does not match execution record'')
       (CallbackError 409 (u ''base sha mismatch''))
     else if \<not> pv_ok result
     then reject_run clk 1 sv run FSecurity (u ''patch rejected: '' @ pv_reason result)
       (CallbackError 422 (u ''patch rejected: '' @ pv_reason result))
     else case check_tests env (get outputs ''tests.json'') of
       Inl e \<Rightarrow> (Inl e, sv)
     | Inr tests_summary \<Rightarrow>
         (case check_receipt env (get outputs ''receipt.json'') of
            Some e \<Rightarrow> (Inl e, sv)
          | None \<Rightarrow>
              (case check_reported_hash (sha256 env patch) (get body ''hashes'') of
                 Some e \<Rightarrow> (Inl e, sv)
               | None \<Rightarrow> record_completion env clk sv run outputs patch (pv_files result) tests_summary)))"
  unfolding handle_complete_def assms(4) by (simp add: assms(1-3) Let_def)

lemma complete_checked:
  assumes "handle_complete env clk sv run body = (Inr rep, sv')"
    and "run_row (sv_exec sv) (er_id run) = Some row" and "\<not> patch_recorded row"
  shows "\<exists>patch. submitted_patch body = Some patch \<and> get body ''base_sha'' = JStr (er_base_sha run) \<and>
    pv_ok (validate_patch_structure patch (patch_max_bytes env) 500) \<and> applies_to_base env sv run patch \<and>
    completed_state env run patch sv' \<and> rep = reply ECompleted (Some (sha256 env patch)) False"
proof -
  define sv1 where "sv1 = lifecycle env (clk 0) run ''executor_completion_received''
      (say ''The executor completion callback was received.'') sv"
  have row: "run_row (sv_exec sv1) (er_id run) = Some row"
    using assms(2) run_row_cong [of "sv_exec sv1" "sv_exec sv"] by (simp add: sv1_def)
  have job: "applies_to_base env sv1 run p = applies_to_base env sv run p" for p
    by (simp add: applies_to_base_def get_job_def sv1_def)
  have bind: "check_attempt_binding env run body = None"
    using assms(1) by (auto simp: handle_complete_def split: option.splits)
  obtain outputs where outs: "outputs_of body = Some outputs"
    using assms(1) bind by (auto simp: handle_complete_def Let_def split: option.splits)
  obtain patch where patch: "get outputs ''patch.diff'' = JStr patch"
    using assms(1) bind outs by (auto simp: handle_complete_def Let_def split: jsn.splits)
  note eq = handle_complete_unfold [where clk = clk, OF outs patch bind sv1_def]
  have base: "get body ''base_sha'' = JStr (er_base_sha run)"
    and ok: "pv_ok (validate_patch_structure patch (patch_max_bytes env) 500)"
    using assms(1) by (auto simp: eq Let_def reject_run_refuses split: if_splits)
  obtain tests where "record_completion env clk sv1 run outputs patch
      (pv_files (validate_patch_structure patch (patch_max_bytes env) 500)) tests = (Inr rep, sv')"
    using assms(1) base ok by (auto simp: eq Let_def split: option.splits sum.splits)
  from record_completion_sound [OF this row assms(3)] base ok outs patch show ?thesis
    by (simp add: job submitted_patch_def)
qed

text \<open>C12: a completion that is accepted for a run without a recorded patch was checked in full: its
  base commit is the pinned one, its patch passed the structural validation and applies to the base;
  and then the run is completed with the hash of exactly that patch, its token is revoked, the stored
  diff is that patch and the job waits for a human (or was already final).\<close>

theorem complete_is_sound:
  assumes "handle_complete env clk sv run body = (Inr rep, sv')"
    and "run_row (sv_exec sv) (er_id run) = Some row" and "\<not> patch_recorded row"
  shows "\<exists>patch. submitted_patch body = Some patch \<and> get body ''base_sha'' = JStr (er_base_sha run) \<and>
    pv_ok (validate_patch_structure patch (patch_max_bytes env) 500) \<and> applies_to_base env sv run patch \<and>
    completed_state env run patch sv' \<and> rep = reply ECompleted (Some (sha256 env patch)) False"
  using assms by (rule complete_checked)

lemma complete_run_accepts:
  assumes "run_row (sv_exec sv) (er_id run) = Some row"
  shows "\<exists>sv'. complete_run env clk sv run outputs patch files tests =
    (Inr (reply ECompleted (Some (sha256 env patch)) False), sv')"
proof -
  let ?k = "er_id run"
  obtain S1 where S1: "set_patch_result (sv_exec sv) ?k (sha256 env patch) (artifact_hashes_of env outputs) (u ''passed'')
      tests (outcome_summary env (get outputs ''receipt.json'')) = Inr S1"
    using assms by (auto simp: set_patch_result_def assign_or_raise_def)
  then have "run_row S1 ?k \<noteq> None"
    using assms by (auto simp: set_patch_result_def assign_or_raise_def assign_own split: if_splits)
  then obtain S2 where "set_status S1 (clk 4) ?k ECompleted None None = Inr S2"
    by (auto simp: set_status_def assign_or_raise_def)
  with S1 show ?thesis
    by (auto simp: complete_run_def exec_step_def Let_def split: option.splits)
qed

lemma completion_accepted:
  assumes "outputs_of body = Some outputs" and "get outputs ''patch.diff'' = JStr patch"
    and "check_attempt_binding env run body = None"
    and "get body ''base_sha'' = JStr (er_base_sha run)"
    and "pv_ok (validate_patch_structure patch (patch_max_bytes env) 500)"
    and "check_tests env (get outputs ''tests.json'') = Inr tests"
    and "check_receipt env (get outputs ''receipt.json'') = None"
    and "check_reported_hash (sha256 env patch) (get body ''hashes'') = None"
    and "run_row (sv_exec sv) (er_id run) = Some row" and "\<not> patch_recorded row"
    and "applies_to_base env sv run patch"
  shows "\<exists>sv'. handle_complete env clk sv run body = (Inr (reply ECompleted (Some (sha256 env patch)) False), sv')"
proof -
  define sv1 where "sv1 = lifecycle env (clk 0) run ''executor_completion_received''
      (say ''The executor completion callback was received.'') sv"
  have row1: "run_row (sv_exec sv1) (er_id run) = Some row"
    using assms(9) run_row_cong [of "sv_exec sv1" "sv_exec sv"] by (simp add: sv1_def)
  then obtain S where S: "set_status (sv_exec sv1) (clk 1) (er_id run) EValidating None None = Inr S"
    by (auto simp: set_status_def assign_or_raise_def)
  define sv2 where "sv2 = lifecycle env (clk 2) run ''output_validation_started''
      (say ''GNSIS started validating the executor output.'') (sv1\<lparr>sv_exec := S\<rparr>)"
  have job: "get_job sv2 k = get_job sv k" for k by (rule get_job_cong) (simp add: sv2_def sv1_def)
  have "run_row (sv_exec sv2) (er_id run) = run_row S (er_id run)"
    by (rule run_row_cong) (simp add: sv2_def)
  then obtain r where "run_row (sv_exec sv2) (er_id run) = Some r"
    using S row1 by (auto simp: set_status_def assign_or_raise_def assign_own split: if_splits)
  from complete_run_accepts [OF this] obtain sv' where
    "complete_run env clk sv2 run outputs patch (pv_files (validate_patch_structure patch (patch_max_bytes env) 500)) tests =
      (Inr (reply ECompleted (Some (sha256 env patch)) False), sv')" by blast
  with S row1 assms(10,11) have "record_completion env clk sv1 run outputs patch
      (pv_files (validate_patch_structure patch (patch_max_bytes env) 500)) tests =
      (Inr (reply ECompleted (Some (sha256 env patch)) False), sv')"
    by (auto simp: record_completion_def exec_step_def Let_def sv2_def [symmetric] job applies_to_base_def split: option.splits)
  with assms(4-8) show ?thesis
    unfolding handle_complete_unfold [where clk = clk, OF assms(1-3) sv1_def] by (simp add: Let_def)
qed

text \<open>A completion that passes every check is accepted: the base commit is the pinned one, the patch
  passes validation and applies, the test report and the receipt are well formed, a hash that is
  reported is right, and no patch is recorded yet.\<close>

theorem good_completion_is_accepted:
  assumes "outputs_of body = Some outputs" and "get outputs ''patch.diff'' = JStr patch"
    and "check_attempt_binding env run body = None"
    and "get body ''base_sha'' = JStr (er_base_sha run)"
    and "pv_ok (validate_patch_structure patch (patch_max_bytes env) 500)"
    and "check_tests env (get outputs ''tests.json'') = Inr tests"
    and "check_receipt env (get outputs ''receipt.json'') = None"
    and "check_reported_hash (sha256 env patch) (get body ''hashes'') = None"
    and "run_row (sv_exec sv) (er_id run) = Some row" and "\<not> patch_recorded row"
    and "applies_to_base env sv run patch"
  shows "\<exists>sv'. handle_complete env clk sv run body = (Inr (reply ECompleted (Some (sha256 env patch)) False), sv')"
  using assms by (rule completion_accepted)

text \<open>A completion for another base commit, or with a patch that the validation refuses, is
  answered with an error, fails the run for validation or security, revokes its token, stores no
  diff, and leaves the job in a final state.\<close>

theorem bad_completion_fails_run:
  assumes "submitted_patch body = Some patch" and "check_attempt_binding env run body = None"
    and "run_row (sv_exec sv) (er_id run) = Some row"
    and "get body ''base_sha'' \<noteq> JStr (er_base_sha run) \<or>
      \<not> pv_ok (validate_patch_structure patch (patch_max_bytes env) 500)"
  shows "\<exists>err sv'. handle_complete env clk sv run body = (Inl err, sv') \<and>
    rejected_state run (if get body ''base_sha'' \<noteq> JStr (er_base_sha run) then FValidation else FSecurity) sv sv'"
proof -
  define sv1 where "sv1 = lifecycle env (clk 0) run ''executor_completion_received''
      (say ''The executor completion callback was received.'') sv"
  have row: "run_row (sv_exec sv1) (er_id run) = Some row"
    using assms(3) run_row_cong [of "sv_exec sv1" "sv_exec sv"] by (simp add: sv1_def)
  obtain outputs where o: "outputs_of body = Some outputs" "get outputs ''patch.diff'' = JStr patch"
    using assms(1) by (rule submitted_patchE)
  note eq = handle_complete_unfold [where clk = clk, OF o assms(2) sv1_def]
  have same: "rejected_state run c sv1 sv' = rejected_state run c sv sv'" for c sv'
    by (simp add: rejected_state_def sv1_def)
  have bad: "\<exists>err sv'. (reject_run clk 1 sv1 run c why e :: CallbackReply handled) = (Inl err, sv') \<and>
      rejected_state run c sv sv'" for c why e
    using reject_run_state [OF row] unfolding same by blast
  show ?thesis
    using assms(4) unfolding eq Let_def
    by (cases "get body ''base_sha'' = JStr (er_base_sha run)") (simp_all add: bad [unfolded One_nat_def])
qed

lemma reject_run_keeps_patch:
  assumes "reject_run clk n sv run category why err = (res, sv')" and "run_row (sv_exec sv) (er_id run) = Some r"
  shows "sv_diffs sv' = sv_diffs sv \<and> (\<exists>e. res = Inl e) \<and>
    (\<exists>r'. run_row (sv_exec sv') (er_id run) = Some r' \<and> er_patch_sha256 r' = er_patch_sha256 r)"
proof -
  let ?k = "er_id run"
  obtain S where S: "set_status (sv_exec sv) (clk n) ?k EFailed (Some category) None = Inr S"
    using assms by (auto simp: set_status_def assign_or_raise_def)
  then obtain q where q: "run_row S ?k = Some q" "er_patch_sha256 q = er_patch_sha256 r"
    using assms by (auto simp: set_status_def assign_or_raise_def assign_own split: if_splits)
  obtain t where "run_row (revoke_token S (clk (n + 1)) ?k) ?k = Some (q\<lparr>er_token_revoked_at := Some t\<rparr>)"
    using q(1) by (rule revoke_row)
  with S q assms(1) show ?thesis by (auto simp: reject_run_def exec_step_def)
qed

text \<open>Once a patch is recorded for a run, no completion replaces it: the recorded hash and the
  stored diffs stay, and a completion that is accepted is reported as a duplicate of that hash.\<close>

theorem recorded_completion_is_final:
  assumes "handle_complete env clk sv run body = (res, sv')"
    and "run_row (sv_exec sv) (er_id run) = Some row" and "patch_recorded row"
  shows "sv_diffs sv' = sv_diffs sv \<and>
    (\<exists>row'. run_row (sv_exec sv') (er_id run) = Some row' \<and> er_patch_sha256 row' = er_patch_sha256 row) \<and>
    (case res of Inl e \<Rightarrow> True | Inr rep \<Rightarrow> rep = reply (er_status row) (er_patch_sha256 row) True)"
    (is "?same \<and> ?row \<and> ?dup")
proof -
  define sv1 where "sv1 = lifecycle env (clk 0) run ''executor_completion_received''
      (say ''The executor completion callback was received.'') sv"
  have row: "run_row (sv_exec sv1) (er_id run) = Some row"
    using assms(2) run_row_cong [of "sv_exec sv1" "sv_exec sv"] by (simp add: sv1_def)
  have kept: "sv_diffs sv1 = sv_diffs sv" by (simp add: sv1_def)
  show ?thesis
  proof (cases "submitted_patch body = None \<or> check_attempt_binding env run body \<noteq> None")
    case True
    then have "(\<exists>e. res = Inl e) \<and> (sv' = sv \<or> sv' = sv1)"
      using assms(1)
      by (auto simp: handle_complete_def Let_def submitted_patch_def sv1_def [symmetric] split: option.splits jsn.splits)
    with row assms(2) kept show ?thesis by auto
  next
    case False
    then obtain outputs patch where o: "outputs_of body = Some outputs" "get outputs ''patch.diff'' = JStr patch"
      and bind: "check_attempt_binding env run body = None"
      by (auto elim: submitted_patchE)
    note eq = handle_complete_unfold [where clk = clk, OF o bind sv1_def]
    have rec: "record_completion env clk sv1 run outputs patch files tests = (Inl e, s) \<Longrightarrow> s = sv1"
      "record_completion env clk sv1 run outputs patch files tests = (Inr rep, s) \<Longrightarrow>
       s = sv1 \<and> rep = reply (er_status row) (er_patch_sha256 row) True" for files tests e rep s
      using row assms(3) by (auto simp: record_completion_def split: if_splits)
    have bad: "reject_run clk 1 sv1 run c w er = (res, sv') \<Longrightarrow> ?thesis" for c w er
      using reject_run_keeps_patch [of clk 1 sv1 run c w er res sv'] row kept by auto
    have good: "sv' = sv1 \<Longrightarrow> ?dup \<Longrightarrow> ?thesis"
      using row kept by auto
    show ?thesis
    proof (cases "get body ''base_sha'' = JStr (er_base_sha run) \<and>
        pv_ok (validate_patch_structure patch (patch_max_bytes env) 500)")
      case True
      then have "sv' = sv1 \<and> ?dup"
        using assms(1) by (cases res)
          (auto simp: eq Let_def dest: rec split: sum.splits option.splits)
      with good show ?thesis by blast
    next
      case False
      then show ?thesis
        using assms(1) bad unfolding eq Let_def by (metis (no_types, lifting))
    qed
  qed
qed

subsection \<open>Approval\<close>

text \<open>The approval of a completed run covers exactly its patch: with the binding that was built for
  the hash \<open>sha\<close>, publishing passes iff the approval has not expired and both the approved hash and
  the hash of the stored diff are the hash of the patch the executor submitted.\<close>

theorem approval_binds_patch:
  assumes "handle_complete env clk sv run body = (Inr rep, sv')"
    and "run_row (sv_exec sv) (er_id run) = Some row" and "\<not> patch_recorded row"
    and "run_row (sv_exec sv') (er_id run) = Some r"
  shows "verify_binding now (Some (build_binding t job r installation actor verification ttl sha)) r published = None \<longleftrightarrow>
    (t + ttl = 0 \<or> now \<le> of_int (t + ttl)) \<and>
    (\<exists>patch. submitted_patch body = Some patch \<and> sha = sha256 env patch \<and> published = sha256 env patch)"
proof -
  obtain patch where "submitted_patch body = Some patch" "completed_state env run patch sv'"
    using complete_checked [OF assms(1-3)] by blast
  with assms(4) show ?thesis
    by (auto simp: completed_state_def verify_binding_def build_binding_def not_less)
qed

section \<open>Evidence of delivered memories\<close>

lemma keep_pinned_sound:
  "set (keep_pinned allowed seen xs) \<subseteq> allowed - seen \<and> distinct (keep_pinned allowed seen xs)"
  by (induction allowed seen xs rule: keep_pinned.induct) (auto split: jsn.splits)

lemma get_update: "get (AList.update (u k) v kvs) k' = (if u k' = u k then v else get kvs k')"
  by (simp add: get_def update_conv')

lemma narrow_sound:
  fixes payload run
  defines "p \<equiv> narrow_intelligence_delivery payload run"
  shows "\<exists>ids. get p ''memory_ids'' = JList (map JStr ids) \<and> distinct ids \<and> set ids \<subseteq> set (memory_list run) \<and>
    (ids = [] \<or> get p ''delivery_state'' = JStr (u ''delivered'') \<and> get p ''model_request_started'' = JBool True)"
proof -
  have eq: "get p k = (if u k = u ''memory_ids'' then
      JList (if get payload ''delivery_state'' \<noteq> JStr (u ''delivered'') \<or>
            get payload ''model_request_started'' \<noteq> JBool True then []
          else case get payload ''memory_ids'' of
            JList ids \<Rightarrow> map JStr (keep_pinned (set (memory_list run)) {} ids) | _ \<Rightarrow> [])
      else get payload k)" for k
    unfolding p_def narrow_intelligence_delivery_def by (rule get_update)
  have ne: "u ''delivery_state'' \<noteq> u ''memory_ids''" "u ''model_request_started'' \<noteq> u ''memory_ids''" by simp_all
  show ?thesis
  proof (cases "get payload ''delivery_state'' = JStr (u ''delivered'') \<and> get payload ''model_request_started'' = JBool True")
    case True
    define ids where "ids = (case get payload ''memory_ids'' of
        JList ids \<Rightarrow> keep_pinned (set (memory_list run)) {} ids | _ \<Rightarrow> [])"
    have "get p ''memory_ids'' = JList (map JStr ids)"
      using True unfolding eq ids_def by (auto split: jsn.splits)
    moreover have "distinct ids \<and> set ids \<subseteq> set (memory_list run)"
      using keep_pinned_sound unfolding ids_def by (auto split: jsn.splits dest: subsetD)
    moreover have "get p ''delivery_state'' = JStr (u ''delivered'')" "get p ''model_request_started'' = JBool True"
      using True ne unfolding eq by simp_all
    ultimately show ?thesis by blast
  next
    case False
    then have "get p ''memory_ids'' = JList (map JStr [])" unfolding eq by simp
    then show ?thesis by fastforce
  qed
qed

text \<open>An event that reports delivered memories is narrowed to the run's own context: the ids it
  keeps are distinct and pinned to the run, and there are none unless the event says that the
  context was delivered and the model request started.\<close>

theorem delivery_evidence_is_narrowed:
  "\<exists>ids. get (event_payload env run (u ''intelligence_context_delivered'') body) ''memory_ids'' = JList (map JStr ids) \<and>
    distinct ids \<and> set ids \<subseteq> set (memory_list run) \<and>
    (ids = [] \<or>
     get (event_payload env run (u ''intelligence_context_delivered'') body) ''delivery_state'' = JStr (u ''delivered'') \<and>
     get (event_payload env run (u ''intelligence_context_delivered'') body) ''model_request_started'' = JBool True)"
proof -
  have "\<exists>payload. event_payload env run (u ''intelligence_context_delivered'') body = narrow_intelligence_delivery payload run"
    by (rule exI) (simp add: event_payload_def Let_def)
  then show ?thesis using narrow_sound by auto
qed

end
