(* ===== verification/ExecutorApi.thy ===== *)
theory ExecutorApi
  imports ExecutorCallbacks
begin

text \<open>
  The life of a run seen from the control plane: the authentication of a request by its run token and
  the exchange of an OIDC identity for that token (src/gnsis/service/executor/api.py, oidc.py),
  cancellation (cancel.py), reconciliation (reconcile.py) and dispatch (dispatch.py), over the state
  of \<open>ExecutorCallbacks\<close>.

  Outside are the JWT library with the key set, and GitHub.  A call to GitHub is a function of what the
  code sends, with \<open>Inl\<close> for an exception.  \<open>now\<close> and \<open>clk i\<close> are in seconds.
\<close>

section \<open>Settings\<close>

record exec_settings =
  st_provider_valid :: bool
  st_public_api_url :: "ustr option"
  st_owner :: "ustr option"
  st_repo :: "ustr option"
  st_workflow :: ustr
  st_ref :: ustr
  st_oidc_issuer :: ustr
  st_oidc_audience :: "ustr option"
  st_trusted_sha :: "ustr option"
  st_token_ttl :: int
  st_timeout :: int
  st_budgets :: Budgets
  st_allowed_models :: "ustr list"

text \<open>An optional setting that is set and not empty.\<close>

definition filled :: "ustr option \<Rightarrow> bool" where
  "filled s = (case s of Some (c # cs) \<Rightarrow> True | _ \<Rightarrow> False)"

definition executor_full_name :: "exec_settings \<Rightarrow> ustr option" where
  "executor_full_name st =
     (if filled (st_owner st) \<and> filled (st_repo st) then Some (the (st_owner st) @ [47] @ the (st_repo st)) else None)"

definition ref_full :: "exec_settings \<Rightarrow> ustr" where
  "ref_full st = u ''refs/heads/'' @ st_ref st"

definition expected_workflow_ref :: "exec_settings \<Rightarrow> ustr option" where
  "expected_workflow_ref st =
     (case executor_full_name st of None \<Rightarrow> None
      | Some full \<Rightarrow> Some (full @ u ''/.github/workflows/'' @ st_workflow st @ [64] @ ref_full st))"

section \<open>Authentication\<close>

fun status_name :: "ExecutionStatus \<Rightarrow> string" where
  "status_name EPending = ''pending''"
| "status_name EDispatched = ''dispatched''"
| "status_name EAuthenticated = ''authenticated''"
| "status_name ERunning = ''running''"
| "status_name EValidating = ''validating''"
| "status_name ECompleted = ''completed''"
| "status_name EFailed = ''failed''"
| "status_name ECancelled = ''cancelled''"
| "status_name EBlocked = ''blocked''"

text \<open>\<open>HTTPException\<close> with its status and detail.\<close>

abbreviation Http :: "nat \<Rightarrow> string \<Rightarrow> handler_error" where
  "Http status detail \<equiv> CallbackError status (u detail)"

definition lower_ascii :: "nat \<Rightarrow> nat" where
  "lower_ascii c = (if 65 \<le> c \<and> c \<le> 90 then c + 32 else c)"

text \<open>\<open>split(" ", 1)\<close> gives two parts iff there is a space.\<close>

definition bearer :: "ustr option \<Rightarrow> handler_error + ustr" where
  "bearer authorization =
     (if \<not> filled authorization then Inl (Http 401 ''missing Authorization'')
      else
        let scheme = takeWhile (\<lambda>c. c \<noteq> 32) (the authorization);
            rest = dropWhile (\<lambda>c. c \<noteq> 32) (the authorization)
        in if rest = [] \<or> map lower_ascii scheme \<noteq> u ''bearer'' \<or> u_strip (tl rest) = []
           then Inl (Http 401 ''malformed Authorization'') else Inr (u_strip (tl rest)))"

definition token_expired :: "int \<Rightarrow> ExecutionRun \<Rightarrow> bool" where
  "token_expired now r = (case er_token_expires_at r of None \<Rightarrow> False | Some t \<Rightarrow> t < now)"

definition authenticate_run ::
  "exec_env \<Rightarrow> int \<Rightarrow> ExecutionStore \<Rightarrow> ustr option \<Rightarrow> ustr option \<Rightarrow> handler_error + ExecutionRun" where
  "authenticate_run env now S authorization job_id =
     (case bearer authorization of Inl e \<Rightarrow> Inl e | Inr token \<Rightarrow>
      (case run_by_token_hash S (sha256 env token) of
         Inl e \<Rightarrow> Inl Crash
       | Inr None \<Rightarrow> Inl (Http 401 ''invalid run token'')
       | Inr (Some run) \<Rightarrow>
           (if er_token_revoked_at run \<noteq> None then Inl (Http 401 ''run token revoked'')
            else if token_expired now run then Inl (Http 401 ''run token expired'')
            else if er_status run \<notin> TOKEN_ACTIVE
            then Inl (Http 409 (''run is '' @ status_name (er_status run)))
            else if job_id \<noteq> None \<and> job_id \<noteq> Some (er_job_id run)
            then Inl (Http 403 ''token not bound to this job'')
            else Inr run)))"

section \<open>OIDC\<close>

type_synonym claims = "(ustr \<times> ustr jsn) list"

text \<open>\<open>jwt.get_unverified_header\<close>, \<open>JwksCache.get_key\<close> and \<open>jwt.decode\<close> with the configured audience and
  issuer; \<open>Inl\<close> is the text of the exception.\<close>

record 'key oidc_lib =
  jwt_header :: "ustr jsn \<Rightarrow> ustr + claims"
  jwks_key :: "ustr jsn \<Rightarrow> ustr + 'key"
  jwt_decode :: "ustr jsn \<Rightarrow> 'key \<Rightarrow> ustr + claims"

datatype oidc_error = OidcError ustr FailureCategory

definition verify_oidc :: "'key oidc_lib \<Rightarrow> ustr \<Rightarrow> ustr jsn \<Rightarrow> oidc_error + claims" where
  "verify_oidc lib issuer token =
     (case jwt_header lib token of
        Inl msg \<Rightarrow> Inl (OidcError (u ''malformed token: '' @ msg) FOidc)
      | Inr header \<Rightarrow>
          (if get header ''alg'' \<noteq> JStr (u ''RS256'') then Inl (OidcError (u ''unacceptable token algorithm'') FOidc)
           else if \<not> truthy (get header ''kid'') then Inl (OidcError (u ''token missing key id'') FOidc)
           else case jwks_key lib (get header ''kid'') of
             Inl msg \<Rightarrow> Inl (OidcError (u ''unknown signing key: '' @ msg) FOidc)
           | Inr key \<Rightarrow>
               (case jwt_decode lib token key of
                  Inl msg \<Rightarrow> Inl (OidcError (u ''invalid token: '' @ msg) FOidc)
                | Inr claims \<Rightarrow>
                    (if get claims ''iss'' \<noteq> JStr issuer then Inl (OidcError (u ''wrong issuer'') FOidc)
                     else Inr claims))))"

text \<open>One check of \<open>check_execution_claims\<close>: \<open>None\<close> lets the next one run.\<close>

definition oidc_unless :: "bool \<Rightarrow> ustr \<Rightarrow> FailureCategory \<Rightarrow> oidc_error option" where
  "oidc_unless ok reason category = (if ok then None else Some (OidcError reason category))"

definition required_claim ::
  "exec_env \<Rightarrow> claims \<Rightarrow> string \<Rightarrow> string \<Rightarrow> FailureCategory \<Rightarrow> (ustr jsn \<Rightarrow> bool) \<Rightarrow> oidc_error option" where
  "required_claim env claims key what category ok =
     (if get claims key = JNull \<or> get claims key = JStr []
      then Some (OidcError (u (''token missing claim: '' @ key)) FOidc)
      else oidc_unless (ok (get claims key)) (u (''wrong '' @ what @ '': '') @ text_of env (get claims key)) category)"

fun first_failure :: "oidc_error option list \<Rightarrow> oidc_error option" where
  "first_failure [] = None"
| "first_failure (None # cs) = first_failure cs"
| "first_failure (Some e # cs) = Some e"

text \<open>\<open>str(claim) == str(expected)\<close> where the expected number is known.\<close>

definition same_number :: "exec_env \<Rightarrow> int \<Rightarrow> ustr jsn \<Rightarrow> bool" where
  "same_number env i v \<longleftrightarrow> text_of env v = u (int_str i)"

text \<open>\<open>expected_workflow_ref.split("@", 1)[1]\<close>, reached only when the reference is set.\<close>

definition after_at :: "ustr option \<Rightarrow> ustr option" where
  "after_at r = map_option (\<lambda>s. tl (dropWhile (\<lambda>c. c \<noteq> 64) s)) r"

definition check_execution_claims ::
  "exec_env \<Rightarrow> exec_settings \<Rightarrow> ExecutionRun \<Rightarrow> claims \<Rightarrow> oidc_error option" where
  "check_execution_claims env st run claims =
     (let sha = first_truthy [get claims ''job_workflow_sha''] (get claims ''sha'');
          is = (\<lambda>expected v. (case expected of None \<Rightarrow> False | Some s \<Rightarrow> v = JStr s))
      in first_failure [
        required_claim env claims ''repository'' ''repository'' FOidc (is (executor_full_name st)),
        required_claim env claims ''repository_owner'' ''repository owner'' FOidc (is (st_owner st)),
        (case er_executor_repository_id run of None \<Rightarrow> None
         | Some i \<Rightarrow> required_claim env claims ''repository_id'' ''repository id'' FOidc (same_number env i)),
        oidc_unless (get claims ''repository_visibility'' = JStr (u ''private''))
          (u ''repository is not private: '' @ text_of env (get claims ''repository_visibility'')) FSecurity,
        required_claim env claims ''event_name'' ''event'' FOidc (is (Some (u ''workflow_dispatch''))),
        required_claim env claims ''ref'' ''ref'' FOidc (is (after_at (expected_workflow_ref st))),
        oidc_unless (get claims ''ref_type'' \<in> {JNull, JStr (u ''branch'')})
          (u ''wrong ref type: '' @ text_of env (get claims ''ref_type'')) FOidc,
        required_claim env claims ''workflow_ref'' ''workflow_ref'' FOidc (is (expected_workflow_ref st)),
        oidc_unless (get claims ''job_workflow_ref'' = JNull \<or> is (expected_workflow_ref st) (get claims ''job_workflow_ref''))
          (u ''wrong job_workflow_ref: '' @ text_of env (get claims ''job_workflow_ref'')) FOidc,
        oidc_unless (truthy sha) (u ''token missing workflow sha'') FOidc,
        oidc_unless (sha = JStr (er_trusted_workflow_sha run)) (u ''wrong workflow sha: '' @ text_of env sha) FSecurity,
        oidc_unless (get claims ''runner_environment'' = JStr (u ''github-hosted''))
          (u ''non-github-hosted runner: '' @ text_of env (get claims ''runner_environment'')) FSecurity,
        (case er_workflow_run_id run of None \<Rightarrow> None
         | Some i \<Rightarrow> required_claim env claims ''run_id'' ''run id'' FOidc (same_number env i)),
        (case er_workflow_run_attempt run of None \<Rightarrow> None
         | Some i \<Rightarrow> required_claim env claims ''run_attempt'' ''run attempt'' FStaleAttempt (same_number env i))])"

section \<open>The exchange\<close>

record ExchangeReply =
  xr_run_token :: ustr
  xr_expires_in :: int
  xr_urls :: "ustr list"

definition base_url :: "exec_settings \<Rightarrow> ustr" where
  "base_url st =
     (case st_public_api_url st of None \<Rightarrow> [] | Some s \<Rightarrow> rev (dropWhile (\<lambda>c. c = 47) (rev s)))"

definition model_gateway_url :: "exec_settings \<Rightarrow> ustr" where
  "model_gateway_url st = base_url st @ u ''/internal/model/v1/chat/completions''"

definition exchange_reply :: "exec_settings \<Rightarrow> ustr \<Rightarrow> ustr \<Rightarrow> ExchangeReply" where
  "exchange_reply st job_id token =
     \<lparr>xr_run_token = token, xr_expires_in = st_token_ttl st,
      xr_urls = map (\<lambda>page. base_url st @ u ''/internal/executor/runs/'' @ job_id @ [47] @ u page)
        [''spec'', ''source'', ''events'', ''complete'', ''failed''] @ [model_gateway_url st]\<rparr>"

text \<open>The inner \<open>_fail_job\<close>, followed by the exception.\<close>

definition fail_exchange ::
  "clock \<Rightarrow> Service \<Rightarrow> ExecutionRun \<Rightarrow> ustr \<Rightarrow> ustr \<Rightarrow> FailureCategory \<Rightarrow> handler_error \<Rightarrow> 'a handled" where
  "fail_exchange clk sv run job_id reason category err =
     exec_step sv (set_status (sv_exec sv) (clk 1) (er_id run) EFailed (Some category) None) (\<lambda>sv1.
       let sv2 = with_exec (\<lambda>S. revoke_token S (clk 2) (er_id run)) sv1
       in (Inl err,
         case get_job sv2 job_id of
           None \<Rightarrow> sv2
         | Some job \<Rightarrow>
             (if jb_status job \<in> JOB_TERMINAL then sv2
              else job_set_status sv2 job_id JFailed (Some (u ''OIDC exchange failed: '' @ reason)))))"

text \<open>The workflow run and attempt of the claims; \<open>int\<close> may fail.\<close>

definition claimed_run :: "exec_env \<Rightarrow> claims \<Rightarrow> (int \<times> int) option" where
  "claimed_run env claims =
     (case map_of claims (u ''run_id'') of
        None \<Rightarrow> None
      | Some v \<Rightarrow>
          (case (py_int (env_lib env) v,
                 py_int (env_lib env) (case map_of claims (u ''run_attempt'') of None \<Rightarrow> JInt 1 | Some a \<Rightarrow> a)) of
             (Inr i, Inr a) \<Rightarrow> Some (i, a) | _ \<Rightarrow> None))"

text \<open>Capturing the workflow run when dispatch did not; \<open>None\<close> is the 401 of a missing or bad claim.\<close>

definition capture_run :: "exec_env \<Rightarrow> Service \<Rightarrow> ExecutionRun \<Rightarrow> claims \<Rightarrow> Service option" where
  "capture_run env sv run claims =
     (if er_workflow_run_id run \<noteq> None then Some sv
      else case claimed_run env claims of
        None \<Rightarrow> None
      | Some (i, a) \<Rightarrow>
          (case set_workflow_run (sv_exec sv) (er_id run) i a None of
             Inl e \<Rightarrow> None | Inr S \<Rightarrow> Some (sv\<lparr>sv_exec := S\<rparr>)))"

text \<open>Binding the token; \<open>token\<close> is what \<open>new_run_token()\<close> draws.\<close>

definition bind_run ::
  "exec_env \<Rightarrow> exec_settings \<Rightarrow> clock \<Rightarrow> ustr \<Rightarrow> Service \<Rightarrow> ExecutionRun \<Rightarrow> ustr \<Rightarrow> ExchangeReply handled" where
  "bind_run env st clk token sv run job_id =
     exec_step sv (bind_token (sv_exec sv) (er_id run) (sha256 env token) (clk 2 + st_token_ttl st)) (\<lambda>sv1.
       case run_row (sv_exec sv1) (er_id run) of
         None \<Rightarrow> (Inl Crash, sv1)
       | Some row \<Rightarrow>
           (Inr (exchange_reply st job_id token),
            lifecycle env (clk 3) row ''executor_authenticated''
              (say ''The trusted executor authenticated successfully.'' @
               [(u ''technical'', JObj [(u ''workflow_run_id'',
                  case er_workflow_run_id row of None \<Rightarrow> JNull | Some i \<Rightarrow> JInt i)])]) sv1))"

definition issue_token ::
  "exec_env \<Rightarrow> exec_settings \<Rightarrow> clock \<Rightarrow> ustr \<Rightarrow> Service \<Rightarrow> ExecutionRun \<Rightarrow> ustr \<Rightarrow> ustr \<Rightarrow> claims \<Rightarrow>
   ExchangeReply handled" where
  "issue_token env st clk token sv run job_id nonce claims =
     (case consume_nonce (sv_exec sv) (clk 1) (er_id run) (sha256 env nonce) of
        (False, S) \<Rightarrow> (Inl (Http 401 ''dispatch nonce already used''), sv\<lparr>sv_exec := S\<rparr>)
      | (True, S) \<Rightarrow>
          (case capture_run env (sv\<lparr>sv_exec := S\<rparr>) run claims of
             None \<Rightarrow> (Inl (Http 401 ''token missing run id''), sv\<lparr>sv_exec := S\<rparr>)
           | Some sv1 \<Rightarrow> bind_run env st clk token sv1 run job_id))"

text \<open>The exchange once the caller has shown the nonce.\<close>

definition check_identity ::
  "exec_env \<Rightarrow> 'key oidc_lib \<Rightarrow> exec_settings \<Rightarrow> clock \<Rightarrow> ustr \<Rightarrow> Service \<Rightarrow> ExecutionRun \<Rightarrow> ustr \<Rightarrow> ustr \<Rightarrow>
   ustr jsn \<Rightarrow> ExchangeReply handled" where
  "check_identity env lib st clk token sv run job_id nonce oidc =
     (if \<not> filled (st_oidc_audience st) then (Inl (Http 503 ''executor OIDC is not configured''), sv)
      else case verify_oidc lib (st_oidc_issuer st) oidc of
        Inl (OidcError reason category) \<Rightarrow>
          fail_exchange clk sv run job_id reason FOidc
            (CallbackError 401 (u ''oidc verification failed: '' @ reason))
      | Inr claims \<Rightarrow>
          (case check_execution_claims env st run claims of
             Some (OidcError reason category) \<Rightarrow>
               fail_exchange clk sv run job_id reason category
                 (CallbackError 401 (u ''oidc claim rejected: '' @ reason))
           | None \<Rightarrow> issue_token env st clk token sv run job_id nonce claims))"

text \<open>A body field that is no text fails in the database or in \<open>hash_secret\<close>.\<close>

definition oidc_exchange ::
  "exec_env \<Rightarrow> 'key oidc_lib \<Rightarrow> exec_settings \<Rightarrow> clock \<Rightarrow> ustr \<Rightarrow> Service \<Rightarrow> (ustr \<times> ustr jsn) list \<Rightarrow>
   ExchangeReply handled" where
  "oidc_exchange env lib st clk token sv body =
     (let job = get body ''job_id''; nonce = get body ''dispatch_nonce'';
          oidc = first_truthy [get body ''oidc_token''] (get body ''token'')
      in if \<not> (truthy job \<and> truthy nonce \<and> truthy oidc)
         then (Inl (Http 400 ''job_id, dispatch_nonce and oidc_token are required''), sv)
         else case (job, nonce) of
           (JStr job_id, JStr n) \<Rightarrow>
             (case run_for_job (sv_exec sv) job_id of
                None \<Rightarrow> (Inl (Http 401 ''no active run for job''), sv)
              | Some run \<Rightarrow>
                  (if er_status run \<in> TERMINAL then (Inl (Http 401 ''no active run for job''), sv)
                   else if \<not> nonce_matches (sv_exec sv) (er_id run) (sha256 env n)
                   then (Inl (Http 401 ''invalid dispatch nonce''), sv)
                   else check_identity env lib st clk token
                     (lifecycle env (clk 0) run ''executor_authentication_started''
                       (say ''The dispatched executor requested authentication.'') sv) run job_id n oidc))
         | (JStr job_id, _) \<Rightarrow>
             (case run_for_job (sv_exec sv) job_id of
                None \<Rightarrow> (Inl (Http 401 ''no active run for job''), sv)
              | Some run \<Rightarrow>
                  (if er_status run \<in> TERMINAL then (Inl (Http 401 ''no active run for job''), sv) else (Inl Crash, sv)))
         | _ \<Rightarrow> (Inl Crash, sv))"

section \<open>Cancellation\<close>

text \<open>The cancellation of the workflow itself is best effort and leaves no trace here.\<close>

definition cancel_job_execution :: "clock \<Rightarrow> Service \<Rightarrow> ustr \<Rightarrow> bool handled" where
  "cancel_job_execution clk sv job_id =
     (case run_for_job (sv_exec sv) job_id of
        None \<Rightarrow> (Inr False, sv)
      | Some run \<Rightarrow>
          (let sv1 = with_exec (\<lambda>S. revoke_token (request_cancellation S (clk 0) (er_id run)) (clk 1) (er_id run)) sv
           in if er_status run \<in> TERMINAL then (Inr True, sv1)
              else exec_step sv1 (set_status (sv_exec sv1) (clk 2) (er_id run) ECancelled (Some FCancelled) None)
                (\<lambda>sv2. (Inr True, sv2))))"

section \<open>Reconciliation\<close>

text \<open>\<open>found_run\<close> is what \<open>find_run_by_name\<close> returns, \<open>gh_run\<close> what \<open>get_workflow_run\<close> returns, as far as
  the code reads them.  A failure is a \<open>GitHubHTTPError\<close> or any other exception.\<close>

datatype gh_failure = GitHubHTTPError | OtherFailure

record found_run =
  fr_id :: int
  fr_attempt :: int
  fr_url :: "ustr option"

record gh_run =
  gr_status :: "ustr jsn"
  gr_conclusion :: "ustr jsn"
  gr_attempt :: "int option"

record github =
  gh_token :: bool
  gh_find :: "ExecutionRun \<Rightarrow> gh_failure + found_run option"
  gh_cancel :: "ExecutionRun \<Rightarrow> gh_failure + unit"
  gh_get :: "ExecutionRun \<Rightarrow> gh_failure + gh_run"

text \<open>\<open>_fail\<close>, and the same for a cancelled workflow; then the result is \<open>True\<close>.\<close>

definition end_run ::
  "clock \<Rightarrow> Service \<Rightarrow> ExecutionRun \<Rightarrow> ExecutionStatus \<Rightarrow> FailureCategory \<Rightarrow> JobStatus \<Rightarrow> ustr \<Rightarrow> bool handled" where
  "end_run clk sv run status category job_status err =
     exec_step sv (set_status (sv_exec sv) (clk 1) (er_id run) status (Some category) None) (\<lambda>sv1.
       let sv2 = with_exec (\<lambda>S. revoke_token S (clk 2) (er_id run)) sv1
       in (Inr True,
         case get_job sv2 (er_job_id run) of
           None \<Rightarrow> sv2
         | Some job \<Rightarrow>
             (if jb_status job \<in> JOB_TERMINAL then sv2
              else job_set_status sv2 (er_job_id run) job_status (Some err))))"

text \<open>Resolving a missing workflow run id; \<open>None\<close> for an exception that is not caught.\<close>

definition resolve_workflow_run :: "github \<Rightarrow> Service \<Rightarrow> ExecutionRun \<Rightarrow> (ExecutionRun \<times> Service) option" where
  "resolve_workflow_run gh sv run =
     (if er_workflow_run_id run \<noteq> None \<or> \<not> gh_token gh then Some (run, sv)
      else case gh_find gh run of
        Inl GitHubHTTPError \<Rightarrow> Some (run, sv)
      | Inl OtherFailure \<Rightarrow> None
      | Inr None \<Rightarrow> Some (run, sv)
      | Inr (Some f) \<Rightarrow>
          (case set_workflow_run (sv_exec sv) (er_id run) (fr_id f) (fr_attempt f) (fr_url f) of
             Inl e \<Rightarrow> None
           | Inr S \<Rightarrow> (case run_row S (er_id run) of None \<Rightarrow> None | Some r \<Rightarrow> Some (r, sv\<lparr>sv_exec := S\<rparr>))))"

text \<open>The state that GitHub reports for the bound workflow run.\<close>

definition follow_workflow :: "exec_env \<Rightarrow> clock \<Rightarrow> Service \<Rightarrow> ExecutionRun \<Rightarrow> gh_run \<Rightarrow> bool handled" where
  "follow_workflow env clk sv run g =
     (let bound = (case er_workflow_run_attempt run of Some a \<Rightarrow> a | None \<Rightarrow> 0);
          attempt = (case gr_attempt g of Some a \<Rightarrow> a | None \<Rightarrow> (if bound = 0 then 1 else bound))
      in if bound \<noteq> 0 \<and> attempt > bound \<and> er_status run \<notin> TERMINAL
         then end_run clk sv run EFailed FStaleAttempt JFailed (u ''workflow re-run supersedes this attempt'')
         else if gr_status g = JStr (u ''completed'') \<and> er_status run \<notin> TERMINAL
         then (if gr_conclusion g = JStr (u ''success'')
               then end_run clk sv run EFailed FLostCallback JFailed
                 (u ''workflow succeeded but no completion callback was received'')
               else if gr_conclusion g = JStr (u ''cancelled'')
               then end_run clk sv run ECancelled FCancelled JCancelled (u ''workflow cancelled'')
               else
                 let outcome = classify_failure run None;
                     sv1 = lifecycle env (clk 0) run ''run_failed''
                       (outcome_items outcome @ [(u ''technical'', JObj [(u ''workflow_run_id'',
                          case er_workflow_run_id run of None \<Rightarrow> JNull | Some i \<Rightarrow> JInt i)])]) sv
                 in end_run clk sv1 run EFailed FExecutorError JFailed (u (fo_message outcome)))
         else (Inr False, sv))"

definition reconcile_one :: "exec_env \<Rightarrow> exec_settings \<Rightarrow> github \<Rightarrow> clock \<Rightarrow> Service \<Rightarrow> ExecutionRun \<Rightarrow> bool handled" where
  "reconcile_one env st gh clk sv run0 =
     (if er_cancellation_requested_at run0 \<noteq> None \<and> er_status run0 \<notin> TERMINAL
      then exec_step sv (set_status (sv_exec sv) (clk 1) (er_id run0) ECancelled (Some FCancelled) None)
        (\<lambda>sv1. (Inr True, with_exec (\<lambda>S. revoke_token S (clk 2) (er_id run0)) sv1))
      else
        let age = clk 0 - er_created_at run0
        in case resolve_workflow_run gh sv run0 of
          None \<Rightarrow> (Inl Crash, sv)
        | Some (run, sv1) \<Rightarrow>
            (if age > st_timeout st \<and> er_status run \<notin> TERMINAL
             then (if er_workflow_run_id run \<noteq> None \<and> gh_token gh \<and> gh_cancel gh run = Inl OtherFailure
                   then (Inl Crash, sv1)
                   else end_run clk sv1 run EFailed FTimeout JFailed (u ''executor run exceeded deadline''))
             else if er_workflow_run_id run \<noteq> None \<and> gh_token gh
             then (case gh_get gh run of
                 Inl GitHubHTTPError \<Rightarrow> (Inr False, sv1)
               | Inl OtherFailure \<Rightarrow> (Inl Crash, sv1)
               | Inr g \<Rightarrow> follow_workflow env clk sv1 run g)
             else (Inr False, sv1)))"

text \<open>One pass over the active runs; an exception of one run does not stop the others.  \<open>clk i\<close> is the
  clock while the \<open>i\<close>-th run is handled.\<close>

fun reconcile_runs ::
  "exec_env \<Rightarrow> exec_settings \<Rightarrow> github \<Rightarrow> (nat \<Rightarrow> clock) \<Rightarrow> nat \<Rightarrow> ExecutionRun list \<Rightarrow> Service \<Rightarrow> nat \<times> Service" where
  "reconcile_runs env st gh clk i [] sv = (0, sv)"
| "reconcile_runs env st gh clk i (run # runs) sv =
     (case reconcile_one env st gh (clk i) sv run of
        (res, sv1) \<Rightarrow>
          (case reconcile_runs env st gh clk (i + 1) runs (with_exec (\<lambda>S. touch_reconciled S (clk i 3) (er_id run)) sv1) of
             (n, sv2) \<Rightarrow> ((if res = Inr True then n + 1 else n), sv2)))"

definition reconcile_all ::
  "exec_env \<Rightarrow> exec_settings \<Rightarrow> github \<Rightarrow> (nat \<Rightarrow> clock) \<Rightarrow> Service \<Rightarrow> nat \<times> Service" where
  "reconcile_all env st gh clk sv = reconcile_runs env st gh clk 0 (active_runs (sv_exec sv)) sv"

section \<open>Laws\<close>

lemma exec_step_eq: "exec_step sv r k = (x, sv') \<longleftrightarrow>
    (case r of Inl e \<Rightarrow> x = Inl Crash \<and> sv' = sv | Inr S \<Rightarrow> k (sv\<lparr>sv_exec := S\<rparr>) = (x, sv'))"
  by (auto simp: exec_step_def split: sum.splits)

subsection \<open>Rows a step writes\<close>

text \<open>Only rows with an id in \<open>K\<close> change, and all of them satisfy \<open>P\<close> afterwards.\<close>

definition same_key :: "ExecutionRun \<Rightarrow> ExecutionRun \<Rightarrow> bool" where
  [simp]: "same_key r q \<longleftrightarrow> er_id r = er_id q \<and> er_job_id r = er_job_id q \<and> er_created_at r = er_created_at q"

definition writes :: "ustr set \<Rightarrow> (ExecutionRun \<Rightarrow> bool) \<Rightarrow> ExecutionStore \<Rightarrow> ExecutionStore \<Rightarrow> bool" where
  "writes K P S S' \<longleftrightarrow>
     (\<exists>f. es_runs S' = map f (es_runs S) \<and>
        (\<forall>r. same_key (f r) r \<and> (er_id r \<in> K \<longrightarrow> P (f r)) \<and> (er_id r \<notin> K \<longrightarrow> f r = r)))"

abbreviation ended :: "ExecutionRun \<Rightarrow> bool" where "ended r \<equiv> er_status r \<in> TERMINAL"

lemma writesI:
  "es_runs S' = map f (es_runs S) \<Longrightarrow> (\<And>r. same_key (f r) r) \<Longrightarrow>
   (\<And>r. er_id r \<in> K \<Longrightarrow> P (f r)) \<Longrightarrow> (\<And>r. er_id r \<notin> K \<Longrightarrow> f r = r) \<Longrightarrow> writes K P S S'"
  unfolding writes_def by blast

lemma writes_refl: "es_runs S' = es_runs S \<Longrightarrow> writes K (\<lambda>r. True) S S'"
  by (rule writesI [of _ id]) simp_all

lemma writes_cong: "es_runs S' = es_runs T \<Longrightarrow> writes K P S T \<Longrightarrow> writes K P S S'"
  unfolding writes_def by simp

lemma writes_assign:
  assumes "writes {k} Q S T" and "\<And>r. same_key (g r) r" and "\<And>r. er_id r = k \<Longrightarrow> Q r \<Longrightarrow> P (g r)"
  shows "writes {k} P S (assign k g T)"
proof -
  obtain f where f: "es_runs T = map f (es_runs S)" "\<And>r. same_key (f r) r"
    "\<And>r. er_id r = k \<Longrightarrow> Q (f r)" "\<And>r. er_id r \<noteq> k \<Longrightarrow> f r = r"
    using assms(1) unfolding writes_def by auto
  show ?thesis
    by (rule writesI [of _ "\<lambda>r. if er_id r = k then g (f r) else f r"])
      (use assms(2,3) f in \<open>auto simp: assign_def update_where_def\<close>)
qed

lemma writes_raise:
  "assign_or_raise k g T = Inr T' \<Longrightarrow> writes {k} Q S T \<Longrightarrow> (\<And>r. same_key (g r) r) \<Longrightarrow>
   (\<And>r. er_id r = k \<Longrightarrow> Q r \<Longrightarrow> P (g r)) \<Longrightarrow> writes {k} P S T'"
  by (auto simp: assign_or_raise_def split: if_splits intro: writes_assign)

lemma writes_trans:
  assumes "writes K P S T" and "writes L P T U"
  shows "writes (K \<union> L) P S U"
proof -
  obtain f g where f: "es_runs T = map f (es_runs S)" "\<And>r. same_key (f r) r"
      "\<And>r. er_id r \<in> K \<Longrightarrow> P (f r)" "\<And>r. er_id r \<notin> K \<Longrightarrow> f r = r"
    and g: "es_runs U = map g (es_runs T)" "\<And>r. same_key (g r) r"
      "\<And>r. er_id r \<in> L \<Longrightarrow> P (g r)" "\<And>r. er_id r \<notin> L \<Longrightarrow> g r = r"
    using assms unfolding writes_def by blast
  show ?thesis
    by (rule writesI [of _ "g \<circ> f"]) (use f g in \<open>auto\<close>, metis)
qed

lemma writes_row:
  assumes "writes K P S S'" and "run_row S k = Some r"
  obtains r' where "run_row S' k = Some r'" "er_id r' = k" "k \<in> K \<Longrightarrow> P r'" "k \<notin> K \<Longrightarrow> r' = r"
proof -
  obtain f where f: "es_runs S' = map f (es_runs S)" "\<And>r. same_key (f r) r"
      "\<And>r. er_id r \<in> K \<Longrightarrow> P (f r)" "\<And>r. er_id r \<notin> K \<Longrightarrow> f r = r"
    using assms(1) unfolding writes_def by blast
  have "run_row S' k = Some (f r)"
    using assms(2) find_map_id [of er_id f k "es_runs S"] f(1,2) by (simp add: run_row_def)
  with that [of "f r"] f(2-4) [of r] run_row_id [OF assms(2)] show thesis by auto
qed

subsection \<open>Reconciliation\<close>

lemma end_run_writes:
  assumes "end_run clk sv run status category js err = (Inr b, sv')" and "status \<in> TERMINAL"
    and "writes {er_id run} (\<lambda>r. True) S (sv_exec sv)"
  shows "b \<and> writes {er_id run} ended S (sv_exec sv')"
proof -
  obtain T where T: "set_status (sv_exec sv) (clk 1) (er_id run) status (Some category) None = Inr T"
      and res: "b" "sv_exec sv' = revoke_token T (clk 2) (er_id run)"
    using assms(1)
    by (auto simp: end_run_def exec_step_eq Let_def job_set_status_def split: sum.splits option.splits if_splits)
  have "writes {er_id run} ended S T"
    using T assms(3) unfolding set_status_def by (rule writes_raise) (use assms(2) in simp_all)
  then have "writes {er_id run} ended S (sv_exec sv')"
    unfolding res(2) revoke_token_def by (rule writes_assign) simp_all
  with res(1) show ?thesis by simp
qed

lemma end_run_accepts:
  assumes "run_row (sv_exec sv) (er_id run) = Some r"
  shows "\<exists>sv'. end_run clk sv run status category js err = (Inr True, sv')"
  using assms by (auto simp: end_run_def exec_step_def Let_def set_status_def assign_or_raise_def split: option.splits)

lemma end_run_any:
  assumes "end_run clk sv run status category js err = (res, sv')"
    and "writes {er_id run} (\<lambda>r. True) S (sv_exec sv)"
  shows "writes {er_id run} (\<lambda>r. True) S (sv_exec sv')"
proof (cases "set_status (sv_exec sv) (clk 1) (er_id run) status (Some category) None")
  case (Inl e)
  with assms show ?thesis by (simp add: end_run_def exec_step_def)
next
  case (Inr T)
  then have "writes {er_id run} (\<lambda>r. True) S T"
    using assms(2) unfolding set_status_def by (rule writes_raise) simp_all
  moreover have "sv_exec sv' = revoke_token T (clk 2) (er_id run)"
    using assms(1) Inr
    by (auto simp: end_run_def exec_step_def Let_def job_set_status_def split: option.splits if_splits)
  ultimately show ?thesis unfolding revoke_token_def by (auto intro: writes_assign)
qed

lemma resolve_writes:
  assumes "resolve_workflow_run gh sv run = Some (run', sv')"
  shows "er_id run' = er_id run \<and> writes {er_id run} (\<lambda>r. True) (sv_exec sv) (sv_exec sv')"
proof (cases "er_workflow_run_id run \<noteq> None \<or> \<not> gh_token gh \<or> gh_find gh run \<in> {Inl GitHubHTTPError, Inr None}")
  case True
  then have "resolve_workflow_run gh sv run = Some (run, sv)"
    by (auto simp: resolve_workflow_run_def)
  with assms show ?thesis by (simp add: writes_refl)
next
  case False
  then obtain f where f: "gh_find gh run = Inr (Some f)"
    using assms by (cases "gh_find gh run") (auto simp: resolve_workflow_run_def split: gh_failure.splits)
  let ?W = "set_workflow_run (sv_exec sv) (er_id run) (fr_id f) (fr_attempt f) (fr_url f)"
  have eq: "resolve_workflow_run gh sv run = (case ?W of Inl e \<Rightarrow> None
      | Inr S \<Rightarrow> (case run_row S (er_id run) of None \<Rightarrow> None | Some r \<Rightarrow> Some (r, sv\<lparr>sv_exec := S\<rparr>)))"
    using False f by (auto simp: resolve_workflow_run_def)
  then obtain S where S: "?W = Inr S" "run_row S (er_id run) = Some run'" "sv' = sv\<lparr>sv_exec := S\<rparr>"
    using assms by (auto split: sum.splits option.splits)
  have "writes {er_id run} (\<lambda>r. True) (sv_exec sv) S"
    using S(1) unfolding set_workflow_run_def by (rule writes_raise [OF _ writes_refl]) simp_all
  with S run_row_id [OF S(2)] show ?thesis by simp
qed

lemma follow_workflow_writes:
  assumes "follow_workflow env clk sv run g = (res, sv')"
    and "writes {er_id run} (\<lambda>r. True) S (sv_exec sv)"
  shows "writes {er_id run} (\<lambda>r. True) S (sv_exec sv')"
proof -
  have l: "writes {er_id run} (\<lambda>r. True) S (sv_exec (lifecycle env now run kind p sv))" for now kind p
    by (rule writes_cong [OF _ assms(2)]) simp
  show ?thesis
    using assms unfolding follow_workflow_def Let_def
    by (auto simp only: prod.inject split: if_split_asm
        intro: end_run_any [OF _ assms(2)] end_run_any [OF _ l] assms(2))
qed

lemma reconcile_one_writes:
  assumes "reconcile_one env st gh clk sv run = (res, sv')"
  shows "writes {er_id run} (\<lambda>r. True) (sv_exec sv) (sv_exec sv')"
proof (cases "er_cancellation_requested_at run \<noteq> None \<and> er_status run \<notin> TERMINAL")
  case True
  show ?thesis
  proof (cases "set_status (sv_exec sv) (clk 1) (er_id run) ECancelled (Some FCancelled) None")
    case (Inl e)
    with assms True show ?thesis by (simp add: reconcile_one_def exec_step_def writes_refl)
  next
    case (Inr T)
    then have "writes {er_id run} (\<lambda>r. True) (sv_exec sv) T"
      unfolding set_status_def by (rule writes_raise [OF _ writes_refl]) simp_all
    then have "writes {er_id run} (\<lambda>r. True) (sv_exec sv) (revoke_token T (clk 2) (er_id run))"
      unfolding revoke_token_def by (rule writes_assign) simp_all
    with assms True Inr show ?thesis by (auto simp: reconcile_one_def exec_step_def)
  qed
next
  case False
  show ?thesis
  proof (cases "resolve_workflow_run gh sv run")
    case None
    with assms False show ?thesis by (auto simp: reconcile_one_def Let_def writes_refl)
  next
    case (Some p)
    then obtain run' sv1 where p: "resolve_workflow_run gh sv run = Some (run', sv1)" by (cases p) auto
    note w = resolve_writes [OF p]
    then have w': "writes {er_id run'} (\<lambda>r. True) (sv_exec sv) (sv_exec sv1)" by simp
    have "writes {er_id run'} (\<lambda>r. True) (sv_exec sv) (sv_exec sv')"
      using assms False p w' unfolding reconcile_one_def Let_def
      by (auto simp only: prod.inject option.case prod.case fst_conv snd_conv simp_thms
          split: if_split_asm sum.split_asm gh_failure.split_asm
          intro: end_run_any follow_workflow_writes)
    with w show ?thesis by simp
  qed
qed

lemma reconcile_runs_writes:
  "reconcile_runs env st gh clk i runs sv = (n, sv') \<Longrightarrow>
   writes (er_id ` set runs) (\<lambda>r. True) (sv_exec sv) (sv_exec sv')"
proof (induction runs arbitrary: i sv n)
  case Nil
  then show ?case by (simp add: writes_refl)
next
  case (Cons run runs)
  obtain res sv1 where one: "reconcile_one env st gh (clk i) sv run = (res, sv1)" by fastforce
  let ?sv2 = "with_exec (\<lambda>S. touch_reconciled S (clk i 3) (er_id run)) sv1"
  obtain m where rest: "reconcile_runs env st gh clk (i + 1) runs ?sv2 = (m, sv')"
    using Cons.prems one by (auto split: prod.splits)
  have "writes {er_id run} (\<lambda>r. True) (sv_exec sv) (sv_exec ?sv2)"
    using reconcile_one_writes [OF one] by (simp add: touch_reconciled_def) (erule writes_assign, simp_all)
  from writes_trans [OF this Cons.IH [OF rest]] show ?case by simp
qed

text \<open>Reconciliation never touches a finished run: whatever GitHub reports, a run that was final before
  the pass is the same row after it.\<close>

theorem reconciliation_keeps_finished_runs:
  assumes "S = run_ops ops empty_store" and "sv_exec sv = S"
    and "run_row S k = Some r" and "er_status r \<in> {ECompleted, EFailed, ECancelled, EBlocked}"
  shows "run_row (sv_exec (snd (reconcile_all env st gh clk sv))) k = Some r"
proof -
  have d: "distinct (map er_id (es_runs S))" using run_ops_ok assms(1) by (simp add: store_ok_def)
  have "k \<notin> er_id ` set (active_runs S)"
  proof
    assume "k \<in> er_id ` set (active_runs S)"
    then obtain q where "q \<in> set (es_runs S)" "er_status q \<notin> TERMINAL" "er_id q = k"
      by (auto simp: active_runs_def)
    with run_row_mem [OF d] assms(3,4) show False by (auto simp: TERMINAL_def)
  qed
  with reconcile_runs_writes [where env = env and st = st and gh = gh and clk = clk and i = 0 and
      runs = "active_runs S" and sv = sv, OF surjective_pairing] assms(2,3)
  show ?thesis unfolding reconcile_all_def by (auto elim: writes_row)
qed

text \<open>
  The code catches only \<open>GitHubHTTPError\<close>; a network error or a timeout of \<open>urllib\<close> is another exception and
  leaves the handling of its run.  \<open>github_raises\<close>: such an exception comes from one of the calls made for
  an overdue run, the lookup of its workflow run or the cancellation.
\<close>

definition with_workflow :: "found_run \<Rightarrow> ExecutionRun \<Rightarrow> ExecutionRun" where
  "with_workflow f r = r\<lparr>er_workflow_run_id := Some (fr_id f), er_workflow_run_attempt := Some (fr_attempt f),
     er_workflow_run_url := (case fr_url f of Some (c # s) \<Rightarrow> fr_url f | _ \<Rightarrow> er_workflow_run_url r)\<rparr>"

definition github_raises :: "github \<Rightarrow> ExecutionRun \<Rightarrow> bool" where
  "github_raises gh r \<longleftrightarrow> er_cancellation_requested_at r = None \<and> gh_token gh \<and>
     (case er_workflow_run_id r of
        Some i \<Rightarrow> gh_cancel gh r = Inl OtherFailure
      | None \<Rightarrow> (case gh_find gh r of
          Inl e \<Rightarrow> e = OtherFailure
        | Inr None \<Rightarrow> False
        | Inr (Some f) \<Rightarrow> gh_cancel gh (with_workflow f r) = Inl OtherFailure))"

text \<open>The rows with an id in \<open>K\<close> are ended, the others keep their status.\<close>

definition settles :: "ustr set \<Rightarrow> ExecutionStore \<Rightarrow> ExecutionStore \<Rightarrow> bool" where
  "settles K S S' \<longleftrightarrow>
     (\<exists>f. es_runs S' = map f (es_runs S) \<and>
        (\<forall>r. same_key (f r) r \<and> (er_id r \<in> K \<longrightarrow> ended (f r)) \<and> (er_id r \<notin> K \<longrightarrow> er_status (f r) = er_status r)))"

lemma settles_refl: "es_runs S' = es_runs S \<Longrightarrow> settles {} S S'"
  unfolding settles_def by (intro exI [of _ id]) simp

lemma settles_writes: "writes K ended S S' \<Longrightarrow> settles K S S'"
  unfolding writes_def settles_def by (elim exE conjE) (rule exI, auto)

lemma settles_assign: "(\<And>r. same_key (g r) r \<and> er_status (g r) = er_status r) \<Longrightarrow> settles {} S (assign k g S)"
  unfolding settles_def assign_def update_where_def
  by (intro exI [of _ "\<lambda>r. if er_id r = k then g r else r"]) auto

lemma settles_trans:
  assumes "settles K S T" and "settles L T U"
  shows "settles (K \<union> L) S U"
proof -
  obtain f g where f: "es_runs T = map f (es_runs S)" "\<And>r. same_key (f r) r"
      "\<And>r. er_id r \<in> K \<Longrightarrow> ended (f r)" "\<And>r. er_id r \<notin> K \<Longrightarrow> er_status (f r) = er_status r"
    and g: "es_runs U = map g (es_runs T)" "\<And>r. same_key (g r) r"
      "\<And>r. er_id r \<in> L \<Longrightarrow> ended (g r)" "\<And>r. er_id r \<notin> L \<Longrightarrow> er_status (g r) = er_status r"
    using assms unfolding settles_def by blast
  have "ended (g (f r))" if "er_id r \<in> K \<union> L" for r
    using that f(2,3) [of r] g(3,4) [of "f r"] by (cases "er_id r \<in> L") auto
  moreover have "er_status (g (f r)) = er_status r" if "er_id r \<notin> K \<union> L" for r
    using that f(2,4) [of r] g(4) [of "f r"] by auto
  ultimately show ?thesis unfolding settles_def
    using f(1,2) g(1,2) by (intro exI [of _ "g \<circ> f"]) auto
qed

text \<open>The lookup of the workflow run of a row.\<close>

lemma resolve_row:
  assumes "run_row (sv_exec sv) (er_id run) = Some run"
  shows "resolve_workflow_run gh sv run =
    (if er_workflow_run_id run \<noteq> None \<or> \<not> gh_token gh then Some (run, sv)
     else case gh_find gh run of
       Inl GitHubHTTPError \<Rightarrow> Some (run, sv)
     | Inl OtherFailure \<Rightarrow> None
     | Inr None \<Rightarrow> Some (run, sv)
     | Inr (Some f) \<Rightarrow> Some (with_workflow f run, sv\<lparr>sv_exec := assign (er_id run) (with_workflow f) (sv_exec sv)\<rparr>))"
proof -
  have g: "(\<lambda>r. r\<lparr>er_workflow_run_id := Some (fr_id f), er_workflow_run_attempt := Some (fr_attempt f),
      er_workflow_run_url := (case fr_url f of Some (c # s) \<Rightarrow> fr_url f | _ \<Rightarrow> er_workflow_run_url r)\<rparr>) =
      with_workflow f" for f
    by (rule ext) (simp add: with_workflow_def)
  have "run_row (assign (er_id run) (with_workflow f) (sv_exec sv)) (er_id run) = Some (with_workflow f run)" for f
    using assms by (subst assign_own) (simp_all add: with_workflow_def)
  then show ?thesis using assms
    by (auto simp: resolve_workflow_run_def set_workflow_run_def assign_or_raise_def g
        split: sum.splits gh_failure.splits option.splits)
qed

lemma settles_workflow: "settles {} S (assign k (with_workflow f) S)"
  by (rule settles_assign) (simp add: with_workflow_def)

lemma overdue_run_settles:
  assumes row: "run_row (sv_exec sv) (er_id run) = Some run" and live: "er_status run \<notin> TERMINAL"
    and late: "clk 0 - er_created_at run > st_timeout st"
  shows "\<exists>sv' res. reconcile_one env st gh clk sv run = (res, sv') \<and> (res = Inr True \<longleftrightarrow> \<not> github_raises gh run) \<and>
    settles (if github_raises gh run then {} else {er_id run}) (sv_exec sv) (sv_exec sv')"
proof (cases "er_cancellation_requested_at run \<noteq> None")
  case True
  obtain T where T: "set_status (sv_exec sv) (clk 1) (er_id run) ECancelled (Some FCancelled) None = Inr T"
    using row by (auto simp: set_status_def assign_or_raise_def)
  then have "writes {er_id run} ended (sv_exec sv) T"
    unfolding set_status_def by (rule writes_raise [OF _ writes_refl]) (simp_all add: TERMINAL_def)
  then have "writes {er_id run} ended (sv_exec sv) (revoke_token T (clk 2) (er_id run))"
    unfolding revoke_token_def by (rule writes_assign) simp_all
  moreover have "\<not> github_raises gh run" using True by (auto simp: github_raises_def)
  ultimately show ?thesis using settles_writes True T live by (simp add: reconcile_one_def exec_step_def)
next
  case False
  show ?thesis
  proof (cases "resolve_workflow_run gh sv run")
    case None
    then have "github_raises gh run" using False
      by (auto simp: resolve_row [OF row] github_raises_def split: if_splits sum.splits gh_failure.splits option.splits)
    then show ?thesis using None False by (simp add: reconcile_one_def settles_refl)
  next
    case (Some q)
    then obtain r sv1 where q: "resolve_workflow_run gh sv run = Some (r, sv1)" by (cases q) auto
    then have r: "er_id r = er_id run" "er_status r = er_status run" "run_row (sv_exec sv1) (er_id r) = Some r"
        "settles {} (sv_exec sv) (sv_exec sv1)"
        "github_raises gh run \<longleftrightarrow> er_workflow_run_id r \<noteq> None \<and> gh_token gh \<and> gh_cancel gh r = Inl OtherFailure"
      using False row assign_own [OF _ row, of "with_workflow _"]
      by (auto simp: resolve_row [OF row] github_raises_def with_workflow_def settles_refl settles_workflow
          split: if_splits sum.splits gh_failure.splits option.splits)
    show ?thesis
    proof (cases "github_raises gh run")
      case True
      then have "reconcile_one env st gh clk sv run = (Inl Crash, sv1)"
        using False q late live r(2,5) by (simp add: reconcile_one_def)
      then show ?thesis using True r(4) by simp
    next
      case calm: False
      from end_run_accepts [OF r(3)] obtain sv' where
        e: "end_run clk sv1 r EFailed FTimeout JFailed (u ''executor run exceeded deadline'') = (Inr True, sv')" by blast
      have "writes {er_id r} ended (sv_exec sv1) (sv_exec sv')"
        using end_run_writes [OF e, of "sv_exec sv1"] by (simp add: TERMINAL_def writes_refl)
      from settles_trans [OF r(4) settles_writes [OF this]]
      have "settles {er_id run} (sv_exec sv) (sv_exec sv')" using r(1) by simp
      moreover have "reconcile_one env st gh clk sv run = (Inr True, sv')"
        using False calm q late live r(2,5) e by (auto simp: reconcile_one_def)
      ultimately show ?thesis using calm by simp
    qed
  qed
qed

lemma overdue_runs_settle:
  assumes "\<And>i r. r \<in> set runs \<Longrightarrow> clk i 0 - er_created_at r > st_timeout st"
  shows "distinct (map er_id runs) \<Longrightarrow>
    (\<And>r. r \<in> set runs \<Longrightarrow> run_row (sv_exec sv) (er_id r) = Some r \<and> er_status r \<notin> TERMINAL) \<Longrightarrow>
    reconcile_runs env st gh clk i runs sv = (n, sv') \<Longrightarrow>
    n = length (filter (\<lambda>r. \<not> github_raises gh r) runs) \<and>
    settles (er_id ` {r \<in> set runs. \<not> github_raises gh r}) (sv_exec sv) (sv_exec sv')"
  using assms
proof (induction runs arbitrary: i sv n)
  case Nil
  then show ?case by (simp add: settles_refl)
next
  case (Cons run runs)
  have row: "run_row (sv_exec sv) (er_id run) = Some run" "er_status run \<notin> TERMINAL"
    and late: "clk i 0 - er_created_at run > st_timeout st" using Cons.prems(2,4) by simp_all
  obtain sv1 res where one: "reconcile_one env st gh (clk i) sv run = (res, sv1)" "res = Inr True \<longleftrightarrow> \<not> github_raises gh run"
      "settles (if github_raises gh run then {} else {er_id run}) (sv_exec sv) (sv_exec sv1)"
    using overdue_run_settles [where clk = "clk i", OF row late] by blast
  let ?sv2 = "with_exec (\<lambda>S. touch_reconciled S (clk i 3) (er_id run)) sv1"
  have touch: "settles {} (sv_exec sv1) (sv_exec ?sv2)"
    by (simp add: touch_reconciled_def) (rule settles_assign, simp)
  have s: "settles (if github_raises gh run then {} else {er_id run}) (sv_exec sv) (sv_exec ?sv2)"
    using settles_trans [OF one(3) touch] by simp
  have w: "writes {er_id run} (\<lambda>r. True) (sv_exec sv) (sv_exec ?sv2)"
    using reconcile_one_writes [OF one(1)] by (simp add: touch_reconciled_def) (erule writes_assign, simp_all)
  obtain m where rest: "reconcile_runs env st gh clk (i + 1) runs ?sv2 = (m, sv')"
      and n: "n = (if github_raises gh run then m else m + 1)"
    using Cons.prems(3) one(1,2) by (auto split: prod.splits)
  have "run_row (sv_exec ?sv2) (er_id r) = Some r \<and> er_status r \<notin> TERMINAL" if "r \<in> set runs" for r
  proof -
    have "er_id r \<in> er_id ` set runs" using that by (rule imageI)
    then have "er_id r \<notin> {er_id run}" using Cons.prems(1) by auto
    with Cons.prems(2) [of r] that writes_row [OF w, of "er_id r" r] show ?thesis by auto
  qed
  with Cons.IH [OF _ _ rest] Cons.prems(1,4)
  have ih: "m = length (filter (\<lambda>r. \<not> github_raises gh r) runs)"
    "settles (er_id ` {r \<in> set runs. \<not> github_raises gh r}) (sv_exec ?sv2) (sv_exec sv')" by simp_all
  have "(if github_raises gh run then {} else {er_id run}) \<union> er_id ` {r \<in> set runs. \<not> github_raises gh r} =
      er_id ` {r \<in> set (run # runs). \<not> github_raises gh r}" by auto
  with settles_trans [OF s ih(2)] n ih(1) show ?case by simp
qed

text \<open>C36: What a pass of the reconciliation does when every active run is past the deadline, also when no token
  for GitHub could be obtained: it ends and counts every run except those for which a call to GitHub
  raised something else than \<open>GitHubHTTPError\<close> (a network error or a timeout, which the code does not catch
  there), and exactly those are still active.\<close>

theorem reconciliation_ends_overdue_runs:
  assumes "S = run_ops ops empty_store" and "sv_exec sv = S"
    and "\<And>i r. r \<in> set (active_runs S) \<Longrightarrow> clk i 0 - er_created_at r > st_timeout st"
  shows "fst (reconcile_all env st gh clk sv) = length (filter (\<lambda>r. \<not> github_raises gh r) (active_runs S)) \<and>
    er_id ` set (active_runs (sv_exec (snd (reconcile_all env st gh clk sv)))) =
    er_id ` {r \<in> set (active_runs S). github_raises gh r}"
proof -
  have d: "distinct (map er_id (es_runs S))" using run_ops_ok assms(1) by (simp add: store_ok_def)
  have mem: "r \<in> set (active_runs S) \<longleftrightarrow> r \<in> set (es_runs S) \<and> er_status r \<notin> TERMINAL" for r
    by (auto simp: active_runs_def)
  have "distinct (map er_id (filter (\<lambda>r. er_status r \<notin> TERMINAL) (es_runs S)))"
    using d by (rule distinct_map_filter)
  then have da: "distinct (map er_id (active_runs S))"
    unfolding active_runs_def distinct_map by (simp only: distinct_sort set_sort)
  have rows: "run_row (sv_exec sv) (er_id r) = Some r \<and> er_status r \<notin> TERMINAL" if "r \<in> set (active_runs S)" for r
    using mem run_row_mem [OF d] assms(2) that by blast
  obtain n sv' where r: "reconcile_runs env st gh clk 0 (active_runs S) sv = (n, sv')" by fastforce
  let ?K = "er_id ` {r \<in> set (active_runs S). \<not> github_raises gh r}"
  have w: "n = length (filter (\<lambda>r. \<not> github_raises gh r) (active_runs S))" "settles ?K S (sv_exec sv')"
    using overdue_runs_settle [where clk = clk, OF assms(3) da rows r] assms(2) by simp_all
  obtain f where f: "es_runs (sv_exec sv') = map f (es_runs S)" "\<And>x. er_id (f x) = er_id x"
      "\<And>x. er_id x \<in> ?K \<Longrightarrow> ended (f x)" "\<And>x. er_id x \<notin> ?K \<Longrightarrow> er_status (f x) = er_status x"
    using w(2) unfolding settles_def same_key_def by blast
  have same: "y = x" if "x \<in> set (es_runs S)" "y \<in> set (es_runs S)" "er_id x = er_id y" for x y
    using d that by (auto simp: distinct_map inj_on_def)
  have alive: "\<not> ended (f x) \<longleftrightarrow> x \<in> set (active_runs S) \<and> github_raises gh x" if x: "x \<in> set (es_runs S)" for x
  proof (cases "er_id x \<in> ?K")
    case True
    then obtain y where "y \<in> set (active_runs S)" "\<not> github_raises gh y" "er_id x = er_id y" by blast
    with same [of x y] x mem have "\<not> github_raises gh x" by blast
    then show ?thesis using f(3) [OF True] by blast
  next
    case False
    then show ?thesis using f(4) [OF False] mem x by auto
  qed
  have "set (active_runs (sv_exec sv')) = f ` {x \<in> set (es_runs S). \<not> ended (f x)}"
    by (auto simp: active_runs_def f(1))
  then have "er_id ` set (active_runs (sv_exec sv')) = er_id ` {x \<in> set (es_runs S). \<not> ended (f x)}"
    by (simp add: image_image f(2))
  also have "\<dots> = er_id ` {r \<in> set (active_runs S). github_raises gh r}"
    using alive mem by (intro arg_cong [where f = "(`) er_id"] Collect_cong) auto
  finally show ?thesis using w(1) r assms(2) by (simp add: reconcile_all_def)
qed

section \<open>Cancelled runs\<close>

lemma latest_mem: "latest rs = Some r \<Longrightarrow> r \<in> set rs"
  by (induction rs arbitrary: r) (auto split: option.splits if_splits)

lemma run_for_job_row:
  assumes "store_ok S" and "run_for_job S job = Some run"
  shows "run_row S (er_id run) = Some run" and "er_job_id run = job"
  using assms latest_mem run_row_mem by (force simp: run_for_job_def store_ok_def)+

lemma filter_single: "filter P xs = [x] \<Longrightarrow> x \<in> set xs \<and> P x"
proof -
  assume "filter P xs = [x]"
  then have "x \<in> set (filter P xs)" by simp
  then show ?thesis by simp
qed

lemma requested_and_revoked:
  assumes "run_row S k = Some r"
  obtains q where "run_row (revoke_token (request_cancellation S t k) t' k) k = Some q" "er_status q = er_status r"
    "er_cancellation_requested_at q \<noteq> None" "er_token_revoked_at q \<noteq> None" "er_usage q = er_usage r"
    "er_budgets q = er_budgets r"
proof -
  obtain p where "run_row (request_cancellation S t k) k = Some p" "er_status p = er_status r"
      "er_cancellation_requested_at p \<noteq> None" "er_usage p = er_usage r" "er_budgets p = er_budgets r"
    using assms by (cases "er_cancellation_requested_at r") (auto simp: request_cancellation_def assign_own)
  moreover from revoke_row [OF this(1)] obtain u where
    "run_row (revoke_token (request_cancellation S t k) t' k) k = Some (p\<lparr>er_token_revoked_at := Some u\<rparr>)" .
  ultimately show thesis by (intro that [of "p\<lparr>er_token_revoked_at := Some u\<rparr>"]) auto
qed

lemma authenticated_run:
  assumes "authenticate_run env now S authorization job = Inr r"
  shows "r \<in> set (es_runs S)" "er_token_revoked_at r = None" "er_status r \<in> TOKEN_ACTIVE"
    "\<not> token_expired now r" "job = None \<or> job = Some (er_job_id r)"
    "\<exists>token. bearer authorization = Inr token \<and> er_token_hash r = Some (sha256 env token)"
proof -
  obtain token where t: "bearer authorization = Inr token" "run_by_token_hash S (sha256 env token) = Inr (Some r)"
    and rest: "er_token_revoked_at r = None" "er_status r \<in> TOKEN_ACTIVE" "\<not> token_expired now r"
      "job = None \<or> job = Some (er_job_id r)"
    using assms by (auto simp: authenticate_run_def split: sum.splits option.splits if_splits)
  have "filter (\<lambda>r. er_token_hash r = Some (sha256 env token)) (es_runs S) = [r]"
    using t(2) by (auto simp: run_by_token_hash_def split: list.splits)
  then have "r \<in> set (es_runs S) \<and> er_token_hash r = Some (sha256 env token)"
    by (rule filter_single)
  with t rest show "r \<in> set (es_runs S)" "er_token_revoked_at r = None" "er_status r \<in> TOKEN_ACTIVE"
    "\<not> token_expired now r" "job = None \<or> job = Some (er_job_id r)"
    "\<exists>token. bearer authorization = Inr token \<and> er_token_hash r = Some (sha256 env token)" by auto
qed

text \<open>Cancelling a job stops its run: the run is final, its request for cancellation and the revocation
  of its token are recorded, no model call is granted to it any more, and no request is
  authenticated as this run, whatever token it carries.\<close>

theorem cancelled_run_is_stopped:
  assumes "S = run_ops ops empty_store" and "sv_exec sv = S" and "run_for_job S job = Some run"
    and "cancel_job_execution clk sv job = (res, sv')"
  shows "res = Inr True \<and> (\<exists>r. run_row (sv_exec sv') (er_id run) = Some r \<and> er_status r \<in> TERMINAL \<and>
      er_cancellation_requested_at r \<noteq> None \<and> er_token_revoked_at r \<noteq> None) \<and>
    \<not> fst (fst (reserve_model_call (sv_exec sv') (er_id run))) \<and>
    (case authenticate_run env now (sv_exec sv') authorization job' of Inl e \<Rightarrow> True | Inr r \<Rightarrow> er_id r \<noteq> er_id run)"
proof -
  have ok: "store_ok S" using run_ops_ok assms(1) by simp
  let ?k = "er_id run"
  note row = run_for_job_row(1) [OF ok assms(3)]
  let ?stop = "[RequestCancellation (clk 0) ?k, RevokeToken (clk 1) ?k] @
    (if er_status run \<in> TERMINAL then [] else [SetStatus (clk 2) ?k ECancelled (Some FCancelled) None])"
  have eq: "res = Inr True \<and> sv_exec sv' = run_ops ?stop S"
  proof (cases "er_status run \<in> TERMINAL")
    case True
    then show ?thesis using assms(2-4) by (auto simp: cancel_job_execution_def with_exec_def)
  next
    case False
    let ?S1 = "revoke_token (request_cancellation S (clk 0) ?k) (clk 1) ?k"
    have "run_row ?S1 ?k \<noteq> None"
      using row by (simp add: revoke_token_def request_cancellation_def assign_row)
    then obtain T where "set_status ?S1 (clk 2) ?k ECancelled (Some FCancelled) None = Inr T"
      by (auto simp: set_status_def assign_or_raise_def)
    with False assms(2-4) show ?thesis
      by (auto simp: cancel_job_execution_def with_exec_def exec_step_def Let_def committed_def)
  qed
  have ok': "store_ok (run_ops ?stop S)" using run_ops_ok [of "ops @ ?stop"] assms(1) by simp
  obtain q where q: "run_row (revoke_token (request_cancellation S (clk 0) ?k) (clk 1) ?k) ?k = Some q"
      "er_status q = er_status run" "er_cancellation_requested_at q \<noteq> None" "er_token_revoked_at q \<noteq> None"
    by (rule requested_and_revoked [OF row])
  obtain r where r: "run_row (run_ops ?stop S) ?k = Some r" "er_status r \<in> TERMINAL"
      "er_cancellation_requested_at r \<noteq> None" "er_token_revoked_at r \<noteq> None"
  proof (cases "er_status run \<in> TERMINAL")
    case True
    with q that show thesis by simp
  next
    case False
    with q that show thesis
      by (simp add: committed_def set_status_def assign_or_raise_def assign_own TERMINAL_def)
  qed
  have "\<not> fst (fst (reserve_model_call (run_ops ?stop S) ?k))"
    using reserve_spec(1) [OF ok' r(1)] r(4) by simp
  moreover have "er_id q \<noteq> ?k" if "authenticate_run env now (run_ops ?stop S) authorization job' = Inr q" for q
  proof
    assume "er_id q = ?k"
    with authenticated_run(1) [OF that] ok' have "run_row (run_ops ?stop S) ?k = Some q"
      using run_row_mem by (metis store_ok_def)
    with r authenticated_run(2) [OF that] show False by simp
  qed
  ultimately show ?thesis using eq r by (auto split: sum.split)
qed

text \<open>C30: A cancellation that falls between the consumption of the nonce and the binding of the token is
  undone by the exchange: \<open>bind_token\<close> looks at nothing, so the cancelled run becomes authenticated
  again, its revocation is cleared, and the next model call is granted.\<close>

theorem late_binding_revives_cancelled_run:
  assumes "S = run_ops ops empty_store" and "run_row S k = Some r" and "within_budget r"
  shows "fst (fst (reserve_model_call (run_ops [RequestCancellation t1 k, RevokeToken t2 k,
      SetStatus t3 k ECancelled (Some FCancelled) None, BindToken k h expires] S) k))"
proof -
  let ?T = "run_ops [RequestCancellation t1 k, RevokeToken t2 k,
      SetStatus t3 k ECancelled (Some FCancelled) None, BindToken k h expires] S"
  have ok: "store_ok ?T" using run_ops_ok [of "ops @ _"] assms(1) by (metis run_ops_simps(3))
  obtain p where p: "run_row (revoke_token (request_cancellation S t1 k) t2 k) k = Some p"
      "er_usage p = er_usage r" "er_budgets p = er_budgets r"
    by (rule requested_and_revoked [OF assms(2)])
  obtain q where q: "run_row ?T k = Some q" "er_status q = EAuthenticated" "er_token_revoked_at q = None"
      "er_usage q = er_usage r" "er_budgets q = er_budgets r"
    using p by (simp add: committed_def set_status_def bind_token_def assign_or_raise_def assign_own)
  with reserve_spec(1) [OF ok q(1)] assms(3) show ?thesis by (simp add: TOKEN_ACTIVE_def within_budget_def)
qed

section \<open>The exchange of an identity\<close>

lemma first_failure_None: "first_failure cs = None \<longleftrightarrow> list_all (\<lambda>c. c = None) cs"
  by (induction cs rule: first_failure.induct) simp_all

lemma oidc_unless_None: "oidc_unless ok reason category = None \<longleftrightarrow> ok"
  by (simp add: oidc_unless_def)

lemma required_claim_None:
  "required_claim env claims key what category ok = None \<longleftrightarrow>
   get claims key \<notin> {JNull, JStr []} \<and> ok (get claims key)"
  by (simp add: required_claim_def oidc_unless_None)

text \<open>What an accepted identity says.\<close>

definition trusted_identity :: "exec_env \<Rightarrow> exec_settings \<Rightarrow> ExecutionRun \<Rightarrow> claims \<Rightarrow> bool" where
  "trusted_identity env st run claims \<longleftrightarrow>
     (\<exists>full ref. executor_full_name st = Some full \<and> expected_workflow_ref st = Some ref \<and>
        get claims ''repository'' = JStr full \<and> get claims ''workflow_ref'' = JStr ref) \<and>
     get claims ''repository_visibility'' = JStr (u ''private'') \<and>
     get claims ''event_name'' = JStr (u ''workflow_dispatch'') \<and>
     get claims ''runner_environment'' = JStr (u ''github-hosted'') \<and>
     JStr (er_trusted_workflow_sha run) \<in> {get claims ''job_workflow_sha'', get claims ''sha''} \<and>
     (er_executor_repository_id run = None \<or>
       text_of env (get claims ''repository_id'') = u (int_str (the (er_executor_repository_id run)))) \<and>
     (er_workflow_run_id run = None \<or>
       text_of env (get claims ''run_id'') = u (int_str (the (er_workflow_run_id run)))) \<and>
     (er_workflow_run_attempt run = None \<or>
       text_of env (get claims ''run_attempt'') = u (int_str (the (er_workflow_run_attempt run))))"

lemma checked_identity:
  assumes "check_execution_claims env st run claims = None"
  shows "trusted_identity env st run claims"
proof -
  note facts = assms [unfolded check_execution_claims_def Let_def first_failure_None list.pred_inject
      required_claim_None oidc_unless_None]
  from facts obtain full ref where "executor_full_name st = Some full" "expected_workflow_ref st = Some ref"
    "get claims ''repository'' = JStr full" "get claims ''workflow_ref'' = JStr ref"
    by (cases "executor_full_name st"; cases "expected_workflow_ref st") simp_all
  moreover have "JStr (er_trusted_workflow_sha run) \<in> {get claims ''job_workflow_sha'', get claims ''sha''}"
    using facts by (cases "truthy (get claims ''job_workflow_sha'')") (simp_all add: first_truthy_def)
  ultimately show ?thesis
    using facts unfolding trusted_identity_def
    by (cases "er_executor_repository_id run"; cases "er_workflow_run_id run"; cases "er_workflow_run_attempt run")
      (simp_all add: same_number_def required_claim_None)
qed

lemma fail_exchange_refuses: "fail_exchange clk sv run job reason category err \<noteq> (Inr x, sv')"
  by (simp add: fail_exchange_def exec_step_def Let_def split: sum.splits)

lemma consume_writes: "consume_nonce S now k h = (b, S') \<Longrightarrow> writes {k} (\<lambda>r. True) S S'"
  by (rule writesI [of _ "\<lambda>r. if nonce_open k h r then r\<lparr>er_nonce_consumed_at := Some now\<rparr> else r"])
    (auto simp: consume_nonce_def update_where_def nonce_open_def)

lemma consumed_row:
  assumes "store_ok S" and "consume_nonce S now k h = (True, S')"
  obtains r where "run_row S k = Some r" "nonce_open k h r" "run_row S' k = Some (r\<lparr>er_nonce_consumed_at := Some now\<rparr>)"
proof -
  obtain r where r: "run_row S k = Some r" "nonce_open k h r"
    using consume_nonce_spec(1) [OF assms(1), of now k h] assms(2) by auto
  have "run_row S' k = map_option (\<lambda>r. if nonce_open k h r then r\<lparr>er_nonce_consumed_at := Some now\<rparr> else r) (run_row S k)"
    using assms(2) update_where_row [of "\<lambda>r. r\<lparr>er_nonce_consumed_at := Some now\<rparr>" "nonce_open k h" S k]
    by (auto simp: consume_nonce_def split: prod.splits)
  with r show thesis by (intro that) auto
qed

text \<open>The row after the token is bound.\<close>

definition bound_row :: "exec_env \<Rightarrow> ustr \<Rightarrow> int \<Rightarrow> ExecutionRun \<Rightarrow> bool" where
  "bound_row env token expires r \<longleftrightarrow> er_token_hash r = Some (sha256 env token) \<and>
     er_token_expires_at r = Some expires \<and> er_token_revoked_at r = None \<and> er_status r = EAuthenticated"

lemma capture_keeps:
  assumes "capture_run env sv run claims = Some sv'" and "run_row (sv_exec sv) (er_id run) = Some r"
    and "writes {er_id run} (\<lambda>r. True) S (sv_exec sv)"
  shows "writes {er_id run} (\<lambda>r. True) S (sv_exec sv') \<and>
    (\<exists>q. run_row (sv_exec sv') (er_id run) = Some q \<and> er_nonce_consumed_at q = er_nonce_consumed_at r)"
proof (cases "er_workflow_run_id run")
  case (Some i)
  with assms show ?thesis by (simp add: capture_run_def)
next
  case None
  then obtain i a T where T: "set_workflow_run (sv_exec sv) (er_id run) i a None = Inr T" "sv' = sv\<lparr>sv_exec := T\<rparr>"
    using assms(1) by (auto simp: capture_run_def split: option.splits sum.splits)
  have "writes {er_id run} (\<lambda>r. True) S T"
    using T(1) assms(3) unfolding set_workflow_run_def by (rule writes_raise) simp_all
  moreover have "\<exists>q. run_row T (er_id run) = Some q \<and> er_nonce_consumed_at q = er_nonce_consumed_at r"
    using T(1) assms(2) by (auto simp: set_workflow_run_def assign_or_raise_def assign_own split: if_splits)
  ultimately show ?thesis using T(2) by simp
qed

lemma issue_token_result:
  assumes "issue_token env st clk token sv run job nonce claims = (Inr answer, sv')" and "store_ok (sv_exec sv)"
  obtains r r' where "run_row (sv_exec sv) (er_id run) = Some r"
    "nonce_open (er_id run) (sha256 env nonce) r" "run_row (sv_exec sv') (er_id run) = Some r'"
    "er_nonce_consumed_at r' \<noteq> None" "bound_row env token (clk 2 + st_token_ttl st) r'"
    "writes {er_id run} (bound_row env token (clk 2 + st_token_ttl st)) (sv_exec sv) (sv_exec sv')"
    "answer = exchange_reply st job token"
proof -
  let ?k = "er_id run" and ?t = "clk 2 + st_token_ttl st"
  obtain S where c: "consume_nonce (sv_exec sv) (clk 1) ?k (sha256 env nonce) = (True, S)"
    using assms(1) by (cases "consume_nonce (sv_exec sv) (clk 1) ?k (sha256 env nonce)")
      (auto simp: issue_token_def split: bool.splits)
  obtain r where r: "run_row (sv_exec sv) ?k = Some r" "nonce_open ?k (sha256 env nonce) r"
      "run_row S ?k = Some (r\<lparr>er_nonce_consumed_at := Some (clk 1)\<rparr>)"
    by (rule consumed_row [OF assms(2) c])
  have w: "writes {?k} (\<lambda>r. True) (sv_exec sv) S" using consume_writes [OF c] .
  obtain sv1 where cap: "capture_run env (sv\<lparr>sv_exec := S\<rparr>) run claims = Some sv1"
    and b: "bind_run env st clk token sv1 run job = (Inr answer, sv')"
    using assms(1) c by (simp add: issue_token_def split: option.splits)
  obtain q where T: "writes {?k} (\<lambda>r. True) (sv_exec sv) (sv_exec sv1)" "run_row (sv_exec sv1) ?k = Some q"
      "er_nonce_consumed_at q \<noteq> None"
    using capture_keeps [OF cap, of "r\<lparr>er_nonce_consumed_at := Some (clk 1)\<rparr>" "sv_exec sv"] w r(3) by auto
  obtain U where U: "bind_token (sv_exec sv1) ?k (sha256 env token) ?t = Inr U" "es_runs (sv_exec sv') = es_runs U"
      "answer = exchange_reply st job token"
    using b by (auto simp: bind_run_def exec_step_eq split: sum.splits option.splits)
  have "writes {?k} (bound_row env token ?t) (sv_exec sv) U"
    using U(1) T(1) unfolding bind_token_def by (rule writes_raise) (simp_all add: bound_row_def)
  then have wr: "writes {?k} (bound_row env token ?t) (sv_exec sv) (sv_exec sv')"
    using U(2) by (rule writes_cong [rotated])
  obtain r' where "run_row U ?k = Some r'" "er_nonce_consumed_at r' \<noteq> None" "bound_row env token ?t r'"
    using U(1) T(2,3) by (auto simp: bind_token_def assign_or_raise_def assign_own bound_row_def split: if_splits)
  with that r wr U(3) run_row_cong [OF U(2)] show thesis by metis
qed

lemma oidc_exchange_Inr:
  assumes "oidc_exchange env lib st clk token sv body = (Inr answer, sv')"
  obtains job n run claims where "get body ''job_id'' = JStr job" "get body ''dispatch_nonce'' = JStr n"
    "run_for_job (sv_exec sv) job = Some run" "er_status run \<notin> TERMINAL"
    "nonce_matches (sv_exec sv) (er_id run) (sha256 env n)"
    "verify_oidc lib (st_oidc_issuer st) (first_truthy [get body ''oidc_token''] (get body ''token'')) = Inr claims"
    "check_execution_claims env st run claims = None"
    "issue_token env st clk token (lifecycle env (clk 0) run ''executor_authentication_started''
       (say ''The dispatched executor requested authentication.'') sv) run job n claims = (Inr answer, sv')"
proof -
  obtain job where job: "get body ''job_id'' = JStr job"
    using assms by (auto simp: oidc_exchange_def Let_def split: if_splits jsn.splits)
  obtain n where n: "get body ''dispatch_nonce'' = JStr n"
    using assms job by (auto simp: oidc_exchange_def Let_def split: if_splits jsn.splits option.splits)
  obtain run where run: "run_for_job (sv_exec sv) job = Some run" "er_status run \<notin> TERMINAL"
      "nonce_matches (sv_exec sv) (er_id run) (sha256 env n)"
    and id: "check_identity env lib st clk token (lifecycle env (clk 0) run ''executor_authentication_started''
      (say ''The dispatched executor requested authentication.'') sv) run job n
      (first_truthy [get body ''oidc_token''] (get body ''token'')) = (Inr answer, sv')"
    using assms job n by (simp add: oidc_exchange_def Let_def split: if_splits option.splits)
  from id show thesis unfolding check_identity_def
    using that [OF job n run]
    by (auto simp: fail_exchange_refuses split: if_split_asm option.split_asm sum.split_asm oidc_error.split_asm)
qed

lemma lifecycle_ok: "store_ok (sv_exec (lifecycle env now run kind payload sv)) = store_ok (sv_exec sv)"
proof -
  have "es_consumptions (sv_exec (lifecycle env now run kind payload sv)) = es_consumptions (sv_exec sv)"
    by (simp add: lifecycle_def with_exec_def record_lifecycle_event_def)
  then show ?thesis by (simp add: store_ok_def)
qed

text \<open>C15: A run token is issued only to the dispatched workflow: the caller knew the nonce of the latest run
  of the job, which was unused on a pending or dispatched run, and proved an identity of the trusted
  workflow at the audited commit on a GitHub-hosted runner.  Then the nonce is used up and the run is
  authenticated with the hash of exactly that token.\<close>

theorem exchange_is_sound:
  assumes "sv_exec sv = run_ops ops empty_store"
    and "oidc_exchange env lib st clk token sv body = (Inr answer, sv')"
  shows "\<exists>job n run claims row. get body ''job_id'' = JStr job \<and> get body ''dispatch_nonce'' = JStr n \<and>
    run_for_job (sv_exec sv) job = Some run \<and> nonce_open (er_id run) (sha256 env n) run \<and>
    verify_oidc lib (st_oidc_issuer st) (first_truthy [get body ''oidc_token''] (get body ''token'')) = Inr claims \<and>
    trusted_identity env st run claims \<and> xr_run_token answer = token \<and>
    run_row (sv_exec sv') (er_id run) = Some row \<and> er_nonce_consumed_at row \<noteq> None \<and>
    bound_row env token (clk 2 + st_token_ttl st) row"
proof -
  have ok: "store_ok (sv_exec sv)" using run_ops_ok assms(1) by simp
  obtain job n run claims where p: "get body ''job_id'' = JStr job" "get body ''dispatch_nonce'' = JStr n"
      "run_for_job (sv_exec sv) job = Some run" 
      "verify_oidc lib (st_oidc_issuer st) (first_truthy [get body ''oidc_token''] (get body ''token'')) = Inr claims"
      "check_execution_claims env st run claims = None"
    and i: "issue_token env st clk token (lifecycle env (clk 0) run ''executor_authentication_started''
       (say ''The dispatched executor requested authentication.'') sv) run job n claims = (Inr answer, sv')"
    by (rule oidc_exchange_Inr [OF assms(2)])
  let ?sv1 = "lifecycle env (clk 0) run ''executor_authentication_started''
       (say ''The dispatched executor requested authentication.'') sv"
  have ok1: "store_ok (sv_exec ?sv1)" using ok by (simp only: lifecycle_ok)
  have row: "run_row (sv_exec ?sv1) (er_id run) = Some run"
    using run_for_job_row(1) [OF ok p(3)] run_row_cong [of "sv_exec ?sv1" "sv_exec sv"] by simp
  show ?thesis
    by (rule issue_token_result [OF i ok1])
      (use p row checked_identity in \<open>auto simp: exchange_reply_def\<close>)
qed

text \<open>A caller that does not know the nonce changes nothing: without an active run for the job, or with
  another nonce than the one of its latest run, the exchange answers with an error and leaves runs,
  jobs, events and diffs as they were.\<close>

theorem wrong_nonce_changes_nothing:
  assumes "get body ''job_id'' = JStr job" and "get body ''dispatch_nonce'' = JStr n"
    and "case run_for_job (sv_exec sv) job of None \<Rightarrow> True
      | Some run \<Rightarrow> er_status run \<in> TERMINAL \<or> er_dispatch_nonce_hash run \<noteq> sha256 env n"
    and "sv_exec sv = run_ops ops empty_store"
  shows "\<exists>status detail. status \<in> {400, 401} \<and>
    oidc_exchange env lib st clk token sv body = (Inl (CallbackError status detail), sv)"
proof (cases "run_for_job (sv_exec sv) job")
  case None
  with assms(1,2) show ?thesis by (auto simp: oidc_exchange_def Let_def)
next
  case (Some run)
  have "store_ok (sv_exec sv)" using run_ops_ok assms(4) by simp
  from run_for_job_row(1) [OF this Some]
  have "er_status run \<in> TERMINAL \<or> \<not> nonce_matches (sv_exec sv) (er_id run) (sha256 env n)"
    using assms(3) Some by (simp add: nonce_matches_def)
  with assms(1,2) Some show ?thesis by (auto simp: oidc_exchange_def Let_def)
qed

lemma latest_map: "(\<And>r. er_created_at (g r) = er_created_at r) \<Longrightarrow> latest (map g rs) = map_option g (latest rs)"
  by (induction rs) (auto split: option.splits)

lemma run_for_job_writes:
  assumes "writes K P S S'" and "run_for_job S job = Some r"
  obtains r' where "run_for_job S' job = Some r'" "er_id r' = er_id r"
proof -
  obtain f where f: "es_runs S' = map f (es_runs S)" "\<And>r. same_key (f r) r"
    using assms(1) unfolding writes_def by blast
  have "filter (\<lambda>r. er_job_id r = job) (map f rs) = map f (filter (\<lambda>r. er_job_id r = job) rs)" for rs
    using f(2) by (induction rs) auto
  then have "run_for_job S' job = map_option f (run_for_job S job)"
    using latest_map [of f] f by (simp add: run_for_job_def)
  with that assms(2) f(2) show thesis by auto
qed

text \<open>An exchange succeeds once: after a success, every further exchange for the same job is refused,
  whatever it presents.\<close>

theorem exchange_is_single_use:
  assumes "sv_exec sv = run_ops ops empty_store"
    and "oidc_exchange env lib st clk token sv body = (Inr answer, sv')"
    and "get body' ''job_id'' = get body ''job_id''"
  shows "\<exists>e sv''. oidc_exchange env lib' st' clk' token' sv' body' = (Inl e, sv'')"
proof (rule ccontr)
  assume no: "\<not> ?thesis"
  have ok: "store_ok (sv_exec sv)" using run_ops_ok assms(1) by simp
  obtain job n run claims where p: "get body ''job_id'' = JStr job" "run_for_job (sv_exec sv) job = Some run"
    and i: "issue_token env st clk token (lifecycle env (clk 0) run ''executor_authentication_started''
       (say ''The dispatched executor requested authentication.'') sv) run job n claims = (Inr answer, sv')"
    by (rule oidc_exchange_Inr [OF assms(2)])
  let ?sv1 = "lifecycle env (clk 0) run ''executor_authentication_started''
       (say ''The dispatched executor requested authentication.'') sv"
  let ?B = "bound_row env token (clk 2 + st_token_ttl st)"
  have "store_ok (sv_exec ?sv1)" using ok by (simp only: lifecycle_ok)
  from issue_token_result [OF i this] have "writes {er_id run} ?B (sv_exec ?sv1) (sv_exec sv')" .
  then have w: "writes {er_id run} ?B (sv_exec sv) (sv_exec sv')" by (simp add: writes_def)
  obtain answer' sv'' where "oidc_exchange env lib' st' clk' token' sv' body' = (Inr answer', sv'')"
    using no by (metis sum.exhaust surj_pair)
  then obtain job' n' run' claims' where p': "get body' ''job_id'' = JStr job'" "run_for_job (sv_exec sv') job' = Some run'"
    and i': "issue_token env st' clk' token' (lifecycle env (clk' 0) run' ''executor_authentication_started''
       (say ''The dispatched executor requested authentication.'') sv') run' job' n' claims' = (Inr answer', sv'')"
    by (rule oidc_exchange_Inr)
  have k: "er_id run' = er_id run"
    using run_for_job_writes [OF w p(2)] p p' assms(3) by (metis jsn.inject(4) option.inject)
  have rows: "\<not> nonce_open (er_id run) h r" if "r \<in> set (es_runs (sv_exec sv'))" for h r
    using w that by (auto simp: writes_def bound_row_def nonce_open_def)
  have "fst (consume_nonce S now (er_id run) h) = False" if "es_runs S = es_runs (sv_exec sv')" for S now h
    using rows that by (simp add: consume_nonce_def update_where_def filter_empty_conv)
  with i' k show False
    by (auto simp: issue_token_def split: prod.splits bool.splits) (metis fst_conv lifecycle_frame(1))
qed

lemma exchange_accepts:
  assumes "sv_exec sv = run_ops ops empty_store"
    and "get body ''job_id'' = JStr job" and "get body ''dispatch_nonce'' = JStr n" and "job \<noteq> []" and "n \<noteq> []"
    and "truthy (first_truthy [get body ''oidc_token''] (get body ''token''))" and "filled (st_oidc_audience st)"
    and "run_for_job (sv_exec sv) job = Some run" and "nonce_open (er_id run) (sha256 env n) run"
    and "er_workflow_run_id run \<noteq> None"
    and "verify_oidc lib (st_oidc_issuer st) (first_truthy [get body ''oidc_token''] (get body ''token'')) = Inr claims"
    and "check_execution_claims env st run claims = None"
  shows "\<exists>sv'. oidc_exchange env lib st clk token sv body = (Inr (exchange_reply st job token), sv')"
proof -
  have ok: "store_ok (sv_exec sv)" using run_ops_ok assms(1) by simp
  note row = run_for_job_row(1) [OF ok assms(8)]
  let ?sv1 = "lifecycle env (clk 0) run ''executor_authentication_started''
       (say ''The dispatched executor requested authentication.'') sv"
  have row1: "run_row (sv_exec ?sv1) (er_id run) = Some run"
    using row run_row_cong [of "sv_exec ?sv1" "sv_exec sv"] by simp
  have ok1: "store_ok (sv_exec ?sv1)" using ok by (simp only: lifecycle_ok)
  have "fst (consume_nonce (sv_exec ?sv1) (clk 1) (er_id run) (sha256 env n))"
    using consume_nonce_spec(1) [OF ok1] row1 assms(9) by blast
  then obtain S where c: "consume_nonce (sv_exec ?sv1) (clk 1) (er_id run) (sha256 env n) = (True, S)"
    by (cases "consume_nonce (sv_exec ?sv1) (clk 1) (er_id run) (sha256 env n)") auto
  obtain r where "run_row S (er_id run) = Some r" by (rule consumed_row [OF ok1 c])
  then obtain sv' where "bind_run env st clk token (?sv1\<lparr>sv_exec := S\<rparr>) run job = (Inr (exchange_reply st job token), sv')"
    by (auto simp: bind_run_def exec_step_def bind_token_def assign_or_raise_def assign_own)
  then have "issue_token env st clk token ?sv1 run job n claims = (Inr (exchange_reply st job token), sv')"
    using c assms(10) by (auto simp: issue_token_def capture_run_def)
  then have "check_identity env lib st clk token ?sv1 run job n
      (first_truthy [get body ''oidc_token''] (get body ''token'')) = (Inr (exchange_reply st job token), sv')"
    unfolding check_identity_def assms(11) assms(12) sum.case option.case by (simp only: assms(7) simp_thms if_False)
  moreover have "er_status run \<notin> TERMINAL" using assms(9) by (auto simp: nonce_open_def TERMINAL_def)
  moreover have "nonce_matches (sv_exec sv) (er_id run) (sha256 env n)"
    using row assms(9) by (simp add: nonce_matches_def nonce_open_def)
  moreover have "truthy (get body ''job_id'')" "truthy (get body ''dispatch_nonce'')"
    using assms(2-5) by simp_all
  ultimately have "oidc_exchange env lib st clk token sv body = (Inr (exchange_reply st job token), sv')"
    unfolding oidc_exchange_def Let_def assms(2,3,8)
    by (simp only: assms(6,8) simp_thms if_False if_True jsn.case prod.case option.case)
  then show ?thesis by blast
qed

end
