(* ===== verification/ExecutorWitnesses.thy ===== *)
theory ExecutorWitnesses
  imports ExecutorCallbacks ToolWitnesses
begin

text \<open>
  The properties of the executor, each applied to a concrete run on which its hypotheses hold.
\<close>

section \<open>A dispatched run\<close>

definition env0 :: exec_env where
  "env0 = \<lparr>env_lib = lib0, re_sub = \<lambda>p r s. s, sha256 = \<lambda>s. s, patch_max_bytes = 1000,
     git_check = \<lambda>repo run patch. Some \<lparr>pv_ok = True, pv_reason = [], pv_files = []\<rparr>\<rparr>"

definition request0 :: RunRequest where
  "request0 = \<lparr>rq_job_id = u ''j1'', rq_workspace_id = Some (u ''w1''), rq_repository_id = Some (u ''r1''),
     rq_base_branch = u ''main'', rq_base_sha = u ''c0'', rq_dispatch_nonce_hash = u ''n'',
     rq_executor_owner = u ''o'', rq_executor_repository = u ''x'', rq_executor_repository_id = None,
     rq_executor_workflow = u ''execute.yml'', rq_executor_ref = u ''main'', rq_trusted_workflow_sha = u ''t'',
     rq_budgets = \<lparr>max_model_calls = 2, max_input_tokens = 100, max_output_tokens = 100, max_cost_usd = 1\<rparr>,
     rq_policy_name = None, rq_policy_version = None, rq_policy_hash = None,
     rq_memory_ids = Some [JStr (u ''m1''), JStr (u ''m1''), JInt 3, JStr (u ''m2'')],
     rq_primary_model = Some (u ''p''), rq_advisor_model = None\<rparr>"

definition dispatched_ops :: "StoreOp list" where
  "dispatched_ops = [CreateRun 10 (u ''e1'') request0, MarkDispatched 11 (u ''e1'') (Some 7) (Some 1) None]"

definition authenticated_ops :: "StoreOp list" where
  "authenticated_ops = dispatched_ops @ [ConsumeNonce 12 (u ''e1'') (u ''n''), BindToken (u ''e1'') (u ''tok'') 100]"

definition store0 :: ExecutionStore where "store0 = run_ops dispatched_ops empty_store"

definition store1 :: ExecutionStore where "store1 = run_ops authenticated_ops empty_store"

lemmas op_defs = run_row_def committed_def create_run_def mark_dispatched_def consume_nonce_def bind_token_def
  revoke_token_def assign_or_raise_def assign_def update_where_def nonce_open_def empty_store_def
  normalize_memory_ids_def new_run_def request0_def u_def u_strip_def u_rstrip_def u_space_def Let_def

definition row0 :: ExecutionRun where
  "row0 = (new_run 10 (u ''e1'') request0 [u ''m1'', u ''m2''])\<lparr>er_status := EDispatched,
     er_workflow_run_id := Some 7, er_workflow_run_attempt := Some 1, er_dispatched_at := Some 11\<rparr>"

definition row1 :: ExecutionRun where
  "row1 = row0\<lparr>er_nonce_consumed_at := Some 12, er_token_hash := Some (u ''tok''),
     er_token_expires_at := Some 100, er_token_revoked_at := None, er_status := EAuthenticated\<rparr>"

lemma store0_runs: "es_runs store0 = [row0]"
  by (simp add: store0_def dispatched_ops_def row0_def op_defs)

lemma store1_eq: "store1 = apply_op (BindToken (u ''e1'') (u ''tok'') 100) (apply_op (ConsumeNonce 12 (u ''e1'') (u ''n'')) store0)"
  by (simp add: store1_def store0_def authenticated_ops_def)

lemma row0_simps: "er_id row0 = u ''e1''" "er_nonce_consumed_at row0 = None" "er_dispatch_nonce_hash row0 = u ''n''"
  "er_status row0 = EDispatched" "er_token_revoked_at row0 = None" "er_token_hash row0 = None"
  "er_job_id row0 = u ''j1''"
  by (simp_all add: row0_def new_run_def request0_def)

lemma row1_simps: "er_id row1 = u ''e1''" "er_job_id row1 = u ''j1''" "er_base_sha row1 = u ''c0''"
  "er_patch_sha256 row1 = None" "er_status row1 = EAuthenticated" "er_token_revoked_at row1 = None"
  "er_workflow_run_id row1 = Some 7" "er_workflow_run_attempt row1 = Some 1"
  "memory_list row1 = [u ''m1'', u ''m2'']" "within_budget row1"
  by (simp_all add: row1_def row0_def new_run_def request0_def memory_list_def within_budget_def)

lemma consume0: "consume_nonce store0 12 (u ''e1'') (u ''n'') = (True, store0\<lparr>es_runs := [row0\<lparr>er_nonce_consumed_at := Some 12\<rparr>]\<rparr>)"
  by (simp add: consume_nonce_def update_where_def store0_runs nonce_open_def row0_simps)

lemma store1_runs: "es_runs store1 = [row1]"
  by (simp add: store1_eq consume0 [simplified] committed_def bind_token_def assign_or_raise_def run_row_def
      assign_def update_where_def row0_simps row1_def)

lemma rows: "run_row store0 (u ''e1'') = Some row0" "run_row store1 (u ''e1'') = Some row1"
  by (simp_all add: run_row_def store0_runs store1_runs row0_simps row1_simps)

section \<open>The store\<close>

lemma single_use_witness:
  "fst (consume_nonce store0 12 (u ''e1'') (u ''n'')) \<and>
   \<not> fst (consume_nonce (snd (consume_nonce store0 12 (u ''e1'') (u ''n''))) 13 (u ''e1'') (u ''n''))"
  using secrets_are_single_use [OF store0_def, of 12 "u ''e1''" "u ''n''" "[]" 13 "u ''n''"] consume0
  by (simp add: Let_def)

lemma budget_witness: "fst (fst (reserve_model_call store1 (u ''e1'')))"
  using model_budget_holds [OF store1_def rows(2)] row1_simps(5,6,10) by simp

lemma pinned_witness:
  "consumed (es_consumptions (run_ops [RevokeToken 20 (u ''e1'')] store1)) (u ''e1'') = [u ''m1'', u ''m2'']"
  using pinned_context_is_immutable [OF store1_def rows(2), of "[RevokeToken 20 (u ''e1'')]"] row1_simps(9)
  by (simp del: run_ops_simps) blast

definition store2 :: ExecutionStore where
  "store2 = run_ops (authenticated_ops @ [RevokeToken 20 (u ''e1'')]) empty_store"

lemma revoked_witness:
  "\<not> fst (fst (reserve_model_call (run_ops [SetStatus 21 (u ''e1'') ERunning None None] store2) (u ''e1'')))"
proof -
  have "run_row store2 (u ''e1'') = Some (row1\<lparr>er_token_revoked_at := Some 20\<rparr>)"
    by (simp add: store2_def store1_def [symmetric] revoke_token_def assign_def update_where_def
        run_row_def store1_runs row1_simps)
  then show ?thesis
    using revoked_token_stays_dead [OF store2_def, of "u ''e1''" _ "[SetStatus 21 (u ''e1'') ERunning None None]"] by simp
qed

section \<open>Patches\<close>

lemma harmless_accepted: "pv_ok (validate_patch_structure (unlines harmless) 1000 500)"
  using bypass_accepted by simp

lemma confined_witness: "safe_path (u ''x'')"
  using accepted_patch_is_confined [of "unlines harmless" 1000 500] harmless_accepted
    bypass_accepted [of harmless] by simp

section \<open>Completion\<close>

definition service1 :: Service where
  "service1 = \<lparr>sv_exec = store1, sv_jobs = [\<lparr>jb_id = u ''j1'', jb_repo = u ''o/r'', jb_base_branch = u ''main'',
       jb_model = None, jb_advisor_model = None, jb_status = JTesting,
       jb_error = None, jb_context = [], jb_workspace_id = None, jb_repository_id = None\<rparr>],
     sv_logs = [], sv_diffs = []\<rparr>"

definition body1 :: "(ustr \<times> ustr jsn) list" where
  "body1 = [(u ''base_sha'', JStr (u ''c0'')),
     (u ''outputs'', JObj [(u ''patch.diff'', JStr (unlines harmless))])]"

definition bad_body :: "(ustr \<times> ustr jsn) list" where
  "bad_body = [(u ''base_sha'', JStr (u ''other'')),
     (u ''outputs'', JObj [(u ''patch.diff'', JStr (unlines harmless))])]"

definition clk0 :: clock where "clk0 i = 30 + int i"

lemma body_parts:
  "outputs_of body1 = Some [(u ''patch.diff'', JStr (unlines harmless))]"
  "get [(u ''patch.diff'', JStr (unlines harmless))] ''patch.diff'' = JStr (unlines harmless)"
  "submitted_patch bad_body = Some (unlines harmless)"
  "check_attempt_binding env0 row1 body1 = None" "check_attempt_binding env0 row1 bad_body = None"
  "get body1 ''base_sha'' = JStr (er_base_sha row1)" "get bad_body ''base_sha'' \<noteq> JStr (er_base_sha row1)"
  "check_tests env0 (get [(u ''patch.diff'', JStr (unlines harmless))] ''tests.json'') = Inr None"
  "check_receipt env0 (get [(u ''patch.diff'', JStr (unlines harmless))] ''receipt.json'') = None"
  "check_reported_hash (sha256 env0 (unlines harmless)) (get body1 ''hashes'') = None"
  by (simp_all add: body1_def bad_body_def outputs_of_def submitted_patch_def get_def u_def row1_simps
      check_attempt_binding_def binds_value_def check_tests_def check_receipt_def check_reported_hash_def)

lemma service1_run: "run_row (sv_exec service1) (er_id row1) = Some row1" "\<not> patch_recorded row1"
  "patch_max_bytes env0 = 1000" "applies_to_base env0 service1 row1 patch"
  by (simp_all add: service1_def rows [simplified] row1_simps patch_recorded_def env0_def applies_to_base_def)

definition service2 :: Service where "service2 = snd (handle_complete env0 clk0 service1 row1 body1)"

lemma accepted_witness:
  "\<exists>sv. handle_complete env0 clk0 service1 row1 body1 = (Inr (reply ECompleted (Some (unlines harmless)) False), sv)"
proof -
  have "sha256 env0 (unlines harmless) = unlines harmless" by (simp add: env0_def)
  with good_completion_is_accepted [OF body_parts(1,2,4,6) _ body_parts(8-10) service1_run(1,2,4), of clk0]
    harmless_accepted show ?thesis by (auto simp: service1_run(3) service2_def)
qed

lemma accepted1:
  "handle_complete env0 clk0 service1 row1 body1 = (Inr (reply ECompleted (Some (unlines harmless)) False), service2)"
proof -
  have "sha256 env0 (unlines harmless) = unlines harmless" by (simp add: env0_def)
  with completion_accepted [OF body_parts(1,2,4,6) _ body_parts(8-10) service1_run(1,2,4), of clk0]
    harmless_accepted show ?thesis by (auto simp: service1_run(3) service2_def)
qed

lemma submitted1: "submitted_patch body1 = Some (unlines harmless)"
  by (simp add: submitted_patch_def body_parts(1)) (simp add: get_def)

lemma completed1: "completed_state env0 row1 (unlines harmless) service2"
  using complete_checked [OF accepted1 service1_run(1,2)] by (auto simp: submitted1)

lemma complete_witness: "completed_state env0 row1 (unlines harmless) service2"
  using complete_is_sound [OF accepted1 service1_run(1,2)] by (auto simp: submitted1)

lemma bad_completion_witness:
  "\<exists>err sv'. handle_complete env0 clk0 service1 row1 bad_body = (Inl err, sv') \<and>
     rejected_state row1 FValidation service1 sv'"
  using bad_completion_fails_run [OF body_parts(3,5) service1_run(1), of clk0] body_parts(7) by simp

text \<open>After the completion the same run reports another patch, and another base commit.\<close>

definition row2 :: ExecutionRun where "row2 = the (run_row (sv_exec service2) (u ''e1''))"

lemma service2_run: "run_row (sv_exec service2) (u ''e1'') = Some row2" "patch_recorded row2"
proof -
  obtain r where r: "run_row (sv_exec service2) (u ''e1'') = Some r" "er_patch_sha256 r = Some (unlines harmless)"
    using completed1 by (auto simp: completed_state_def row1_simps env0_def)
  then show "run_row (sv_exec service2) (u ''e1'') = Some row2" by (simp add: row2_def)
  from r show "patch_recorded row2" by (simp add: row2_def patch_recorded_def unlines_def harmless_def u_def)
qed

lemma recorded_witness: "sv_diffs (snd (handle_complete env0 clk0 service2 row1 bad_body)) = sv_diffs service2"
  using recorded_completion_is_final [of env0 clk0 service2 row1 bad_body, OF prod.collapse [symmetric]]
    service2_run row1_simps(1) by metis

lemma approval_witness:
  "verify_binding 40 (Some (build_binding 35 (hd (sv_jobs service1)) row2 None (u ''me'') [] 10 (unlines harmless))) row2 (unlines harmless) = None \<and>
   verify_binding 40 (Some (build_binding 35 (hd (sv_jobs service1)) row2 None (u ''me'') [] 10 (u ''z''))) row2 (u ''z'') \<noteq> None"
proof -
  have "run_row (sv_exec service2) (er_id row1) = Some row2" using service2_run row1_simps(1) by metis
  from approval_binds_patch [OF accepted1 service1_run(1,2) this]
  show ?thesis
    by (simp add: submitted1) (simp add: env0_def unlines_def harmless_def u_def)
qed

end
