(* ===== verification/ApiWitnesses.thy ===== *)
theory ApiWitnesses
  imports ExecutorApi ExecutorWitnesses
begin

text \<open>
  The properties of authentication, exchange, cancellation and reconciliation, each applied to the
  dispatched run of \<open>ExecutorWitnesses\<close>.
\<close>

definition service0 :: Service where "service0 = service1\<lparr>sv_exec := store0\<rparr>"

definition settings0 :: exec_settings where
  "settings0 = \<lparr>st_provider_valid = True, st_public_api_url = None, st_owner = Some (u ''o''), st_repo = Some (u ''x''),
     st_workflow = u ''execute.yml'', st_ref = u ''main'', st_oidc_issuer = u ''iss'', st_oidc_audience = Some (u ''aud''),
     st_trusted_sha = Some (u ''t''), st_token_ttl = 100, st_timeout = 50, st_budgets = er_budgets row0,
     st_allowed_models = [u ''p'']\<rparr>"

definition claims0 :: claims where
  "claims0 = [(u ''iss'', JStr (u ''iss'')), (u ''repository'', JStr (u ''o/x'')), (u ''repository_owner'', JStr (u ''o'')),
     (u ''repository_visibility'', JStr (u ''private'')), (u ''event_name'', JStr (u ''workflow_dispatch'')),
     (u ''ref'', JStr (u ''refs/heads/main'')),
     (u ''workflow_ref'', JStr (u ''o/x/.github/workflows/execute.yml@refs/heads/main'')),
     (u ''sha'', JStr (u ''t'')), (u ''runner_environment'', JStr (u ''github-hosted'')),
     (u ''run_id'', JInt 7), (u ''run_attempt'', JInt 1)]"

definition oidc0 :: "unit oidc_lib" where
  "oidc0 = \<lparr>jwt_header = \<lambda>_. Inr [(u ''alg'', JStr (u ''RS256'')), (u ''kid'', JStr (u ''k''))],
     jwks_key = \<lambda>_. Inr (), jwt_decode = \<lambda>_ _. Inr claims0\<rparr>"

definition exchange_body :: "(ustr \<times> ustr jsn) list" where
  "exchange_body = [(u ''job_id'', JStr (u ''j1'')), (u ''dispatch_nonce'', JStr (u ''n'')), (u ''token'', JStr (u ''a''))]"

definition forged_body :: "(ustr \<times> ustr jsn) list" where
  "forged_body = [(u ''job_id'', JStr (u ''j1'')), (u ''dispatch_nonce'', JStr (u ''m'')), (u ''token'', JStr (u ''a''))]"

lemma service0_run: "sv_exec service0 = run_ops dispatched_ops empty_store"
  "run_for_job (sv_exec service0) (u ''j1'') = Some row0"
proof -
  show "sv_exec service0 = run_ops dispatched_ops empty_store" by (simp add: service0_def store0_def del: run_ops_simps)
  show "run_for_job (sv_exec service0) (u ''j1'') = Some row0"
    by (simp add: service0_def run_for_job_def store0_runs row0_simps)
qed

lemma exchange_parts:
  "get exchange_body ''job_id'' = JStr (u ''j1'')" "get exchange_body ''dispatch_nonce'' = JStr (u ''n'')"
  "get forged_body ''job_id'' = JStr (u ''j1'')" "get forged_body ''dispatch_nonce'' = JStr (u ''m'')"
  "truthy (first_truthy [get exchange_body ''oidc_token''] (get exchange_body ''token''))"
  by (simp_all add: exchange_body_def forged_body_def get_def first_truthy_def)

lemma identity0: "verify_oidc oidc0 (st_oidc_issuer settings0) v = Inr claims0"
  "check_execution_claims env0 settings0 row0 claims0 = None"
proof -
  show "verify_oidc oidc0 (st_oidc_issuer settings0) v = Inr claims0"
    by (simp add: verify_oidc_def oidc0_def settings0_def claims0_def get_def)
  show "check_execution_claims env0 settings0 row0 claims0 = None"
    by (simp add: check_execution_claims_def Let_def settings0_def claims0_def get_def required_claim_def
        oidc_unless_def executor_full_name_def expected_workflow_ref_def ref_full_def filled_def after_at_def
        first_truthy_def same_number_def text_of_def row0_def new_run_def request0_def u_def int_str_def)
qed

lemma accepted_exchange:
  "\<exists>sv'. oidc_exchange env0 oidc0 settings0 clk0 (u ''tok'') service0 exchange_body =
     (Inr (exchange_reply settings0 (u ''j1'') (u ''tok'')), sv')"
proof (rule exchange_accepts [OF service0_run(1) exchange_parts(1,2) _ _ exchange_parts(5) _ service0_run(2) _ _ identity0])
  show "nonce_open (er_id row0) (sha256 env0 (u ''n'')) row0"
    by (simp add: nonce_open_def row0_simps env0_def)
qed (simp_all add: settings0_def filled_def row0_def)

definition service3 :: Service where
  "service3 = snd (oidc_exchange env0 oidc0 settings0 clk0 (u ''tok'') service0 exchange_body)"

lemma exchanged: "oidc_exchange env0 oidc0 settings0 clk0 (u ''tok'') service0 exchange_body =
    (Inr (exchange_reply settings0 (u ''j1'') (u ''tok'')), service3)"
  using accepted_exchange by (auto simp: service3_def)

lemma exchange_witness:
  "\<exists>run claims row. trusted_identity env0 settings0 run claims \<and>
     run_row (sv_exec service3) (er_id run) = Some row \<and> bound_row env0 (u ''tok'') 132 row"
  using exchange_is_sound [OF service0_run(1) exchanged]
  by (auto simp: clk0_def settings0_def)

lemma wrong_nonce_witness:
  "\<exists>status detail. oidc_exchange env0 oidc0 settings0 clk0 (u ''tok'') service0 forged_body =
     (Inl (CallbackError status detail), service0)"
proof -
  have "er_dispatch_nonce_hash row0 \<noteq> sha256 env0 (u ''m'')" by (simp add: row0_simps env0_def)
  then have "case run_for_job (sv_exec service0) (u ''j1'') of None \<Rightarrow> True
      | Some run \<Rightarrow> er_status run \<in> TERMINAL \<or> er_dispatch_nonce_hash run \<noteq> sha256 env0 (u ''m'')"
    unfolding service0_run(2) by simp
  from wrong_nonce_changes_nothing [OF exchange_parts(3,4) this service0_run(1)] show ?thesis by blast
qed

lemma single_exchange_witness:
  "\<exists>e sv''. oidc_exchange env0 oidc0 settings0 clk0 (u ''tok2'') service3 exchange_body = (Inl e, sv'')"
  using exchange_is_single_use [OF service0_run(1) exchanged refl] .

lemma cancelled_witness:
  "\<not> fst (fst (reserve_model_call (sv_exec (snd (cancel_job_execution clk0 service0 (u ''j1'')))) (er_id row0)))"
  using cancelled_run_is_stopped [OF service0_run(1) refl service0_run(2) surjective_pairing] by blast

lemma revived_witness:
  "fst (fst (reserve_model_call (run_ops [RequestCancellation 20 (u ''e1''), RevokeToken 21 (u ''e1''),
      SetStatus 22 (u ''e1'') ECancelled (Some FCancelled) None, BindToken (u ''e1'') (u ''tok'') 100] store0) (u ''e1'')))"
proof -
  have "within_budget row0" using row1_simps(10) by (simp add: within_budget_def row1_def)
  from late_binding_revives_cancelled_run [OF store0_def rows(1) this] show ?thesis .
qed

section \<open>Reconciliation\<close>

definition gh0 :: github where
  "gh0 = \<lparr>gh_token = False, gh_find = \<lambda>r. Inl GitHubHTTPError, gh_cancel = \<lambda>r. Inl GitHubHTTPError,
     gh_get = \<lambda>r. Inl GitHubHTTPError\<rparr>"

text \<open>A GitHub that hands out a token and then does not answer.\<close>

definition gh_down :: github where
  "gh_down = gh0\<lparr>gh_token := True, gh_cancel := \<lambda>r. Inl OtherFailure\<rparr>"

lemma reconciled_witness:
  "er_id ` set (active_runs (sv_exec (snd (reconcile_all env0 settings0 gh0 (\<lambda>i j. 1000) service0)))) = {} \<and>
   fst (reconcile_all env0 settings0 gh_down (\<lambda>i j. 1000) service0) = 0 \<and>
   er_id ` set (active_runs (sv_exec (snd (reconcile_all env0 settings0 gh_down (\<lambda>i j. 1000) service0)))) = {u ''e1''}"
proof -
  have active: "active_runs (sv_exec service0) = [row0]"
    by (simp add: active_runs_def service0_def store0_runs row0_def new_run_def TERMINAL_def)
  then have late: "st_timeout settings0 < 1000 - er_created_at r" if "r \<in> set (active_runs (sv_exec service0))" for r
    using that by (simp add: settings0_def row0_def new_run_def)
  have "\<not> github_raises gh0 row0" "github_raises gh_down row0" "er_id row0 = u ''e1''"
    using row0_simps(1) by (simp_all add: github_raises_def gh_down_def gh0_def row0_def new_run_def)
  moreover from this have "{r. r = row0 \<and> github_raises gh_down r} = {row0}" by blast
  ultimately show ?thesis using reconciliation_ends_overdue_runs [where gh = gh0 and clk = "\<lambda>i j. 1000" and st = settings0 and env = env0,
        OF service0_run(1) refl late]
      reconciliation_ends_overdue_runs [where gh = gh_down and clk = "\<lambda>i j. 1000" and st = settings0 and env = env0,
        OF service0_run(1) refl late]
    by (simp add: active)
qed

definition ended_ops :: "StoreOp list" where
  "ended_ops = authenticated_ops @ [SetStatus 20 (u ''e1'') EFailed (Some FExecutorError) None]"

lemma finished_witness:
  "\<exists>r. er_status r = EFailed \<and> run_row (sv_exec (snd (reconcile_all env0 settings0 gh0 (\<lambda>i j. 1000)
     (service0\<lparr>sv_exec := run_ops ended_ops empty_store\<rparr>)))) (u ''e1'') = Some r"
proof -
  obtain r where r: "run_row (run_ops ended_ops empty_store) (u ''e1'') = Some r" "er_status r = EFailed"
    using rows(2) row1_simps(1)
    by (simp add: ended_ops_def store1_def [symmetric] committed_def set_status_def assign_or_raise_def assign_own)
  then show ?thesis
    using reconciliation_keeps_finished_runs [OF refl, of "service0\<lparr>sv_exec := run_ops ended_ops empty_store\<rparr>" ended_ops "u ''e1''" r]
    by (intro exI [of _ r]) simp
qed

end
