(* ===== verification/Books.thy ===== *)
theory Books
  imports ToolValidate
begin

text \<open>
  Money and the tables of the paid service (src/gnsis/service/rates.py, orm.py, settings.py).

  A \<open>Decimal\<close> is the rational it denotes, an infinity or NaN; arithmetic is exact, that is, amounts
  stay in the range in which the 28 digits of Python's decimal context do not round.  A column that
  holds a canonical decimal string is the number.  Times are microseconds since the epoch.  Each table
  is the list of its rows in insertion order; one \<open>session_scope()\<close> is one atomic step, in which an
  exception restores the tables.  The ids that \<open>new_id\<close> draws are arguments and taken to be fresh.
\<close>

section \<open>Errors\<close>

text \<open>
  A refusal is one of the service's own exceptions, with its text (printed operands dropped) and HTTP
  status; \<open>Raises\<close> names an exception of Python or SQLAlchemy that the code lets escape.
\<close>

datatype svc_error = Refused string nat | Raises string

type_synonym 'a svc = "svc_error + 'a"

definition sbind :: "'a svc \<Rightarrow> ('a \<Rightarrow> 'b svc) \<Rightarrow> 'b svc" where
  "sbind m f = (case m of Inl e \<Rightarrow> Inl e | Inr x \<Rightarrow> f x)"

lemma sbind_simps [simp]: "sbind (Inl e) f = Inl e" "sbind (Inr x) f = f x"
  by (simp_all add: sbind_def)

lemma sbind_Inr_iff: "sbind m f = Inr y \<longleftrightarrow> (\<exists>x. m = Inr x \<and> f x = Inr y)"
  by (cases m) auto

definition present :: "ustr option \<Rightarrow> bool" where
  "present v \<longleftrightarrow> (case v of None \<Rightarrow> False | Some s \<Rightarrow> s \<noteq> [])"

section \<open>Decimal numbers\<close>

datatype dec = DFin rat | DInf bool | DNaN

definition sign_part :: "ustr \<Rightarrow> bool \<times> ustr" where
  "sign_part s =
     (case s of
        c # r \<Rightarrow> (if c = 45 then (True, r) else if c = 43 then (False, r) else (False, s))
      | [] \<Rightarrow> (False, []))"

definition exponent :: "ustr \<Rightarrow> int option" where
  "exponent s =
     (case s of
        [] \<Rightarrow> Some 0
      | c # r \<Rightarrow>
          (case sign_part r of (neg, ds) \<Rightarrow>
             if (c = 101 \<or> c = 69) \<and> ds \<noteq> [] \<and> list_all is_digit ds
             then Some (if neg then - digits_val ds else digits_val ds) else None))"

definition read_unsigned :: "ustr \<Rightarrow> rat option" where
  "read_unsigned s =
     (let i = takeWhile is_digit s; r = dropWhile is_digit s;
          f = (case r of c # t \<Rightarrow> if c = 46 then takeWhile is_digit t else [] | [] \<Rightarrow> []);
          rest = (case r of c # t \<Rightarrow> if c = 46 then dropWhile is_digit t else r | [] \<Rightarrow> [])
      in if i = [] \<and> f = [] then None
         else map_option (\<lambda>e. of_int (digits_val (i @ f)) * 10 powi (e - int (length f))) (exponent rest))"

definition ascii_lower :: "ustr \<Rightarrow> ustr" where
  "ascii_lower = map (\<lambda>c. if 65 \<le> c \<and> c \<le> 90 then c + 32 else c)"

definition is_nan :: "ustr \<Rightarrow> bool" where
  "is_nan s \<longleftrightarrow> (let t = (if take 1 s = u ''s'' then drop 1 s else s)
     in take 3 t = u ''nan'' \<and> list_all is_digit (drop 3 t))"

text \<open>\<open>Decimal(text)\<close>; \<open>None\<close> is \<open>InvalidOperation\<close>.\<close>

definition read_decimal :: "ustr \<Rightarrow> dec option" where
  "read_decimal s =
     (case sign_part (filter (\<lambda>c. c \<noteq> 95) (u_strip s)) of (neg, b) \<Rightarrow>
        if ascii_lower b = u ''inf'' \<or> ascii_lower b = u ''infinity'' then Some (DInf neg)
        else if is_nan (ascii_lower b) then Some DNaN
        else map_option (\<lambda>q. DFin (if neg then - q else q)) (read_unsigned b))"

text \<open>\<open>str(value)\<close>\<close>

definition str_of :: "pylib \<Rightarrow> ustr jsn \<Rightarrow> ustr" where
  "str_of lib v =
     (case v of JStr s \<Rightarrow> s | JInt i \<Rightarrow> u (int_str i) | JFloat q \<Rightarrow> show_float lib q | _ \<Rightarrow> py_str lib v)"

definition decimal_of :: "pylib \<Rightarrow> ustr jsn \<Rightarrow> dec option" where
  "decimal_of lib v = read_decimal (str_of lib v)"

section \<open>Rates\<close>

text \<open>\<open>value.quantize(Decimal("0.00000001"), rounding=ROUND_HALF_UP)\<close>: ties go away from zero.\<close>

definition quantize :: "rat \<Rightarrow> rat" where
  "quantize x = of_int (if 0 \<le> x then \<lfloor>x * 10 ^ 8 + 1 / 2\<rfloor> else - \<lfloor>1 / 2 - x * 10 ^ 8\<rfloor>) / 10 ^ 8"

text \<open>The number that \<open>to_money_str\<close> prints.\<close>

definition to_money :: "rat \<Rightarrow> rat" where
  "to_money x = quantize x"

definition is_money :: "rat \<Rightarrow> bool" where
  "is_money x \<longleftrightarrow> of_int \<lfloor>x * 10 ^ 8\<rfloor> = x * 10 ^ 8"

record Settings =
  stripe_webhook_secret :: ustr
  block_at_zero_balance :: bool
  markup_rate :: rat
  rate_card_version :: ustr
  default_currency :: ustr
  balance_reserve_estimate_usd :: rat
  beta_credit_max_usd :: "dec option"
  welcome_credit_enabled :: bool
  welcome_credit_usd :: "dec option"
  welcome_credit_per_run_usd :: "dec option"
  welcome_credit_campaign :: ustr
  platform_daily_provider_limit_usd :: ustr
  run_max_cost_usd :: rat
  virtual_key_pepper :: ustr

definition billing_enabled :: "Settings \<Rightarrow> bool" where
  "billing_enabled st \<longleftrightarrow> stripe_webhook_secret st \<noteq> []"

definition balance_blocking_enabled :: "Settings \<Rightarrow> bool" where
  "balance_blocking_enabled st \<longleftrightarrow> billing_enabled st \<and> block_at_zero_balance st"

record RateQuote =
  rq_upstream_cost :: rat
  rq_markup_rate :: rat
  rq_service_fee :: rat
  rq_retail_cost :: rat
  rq_rate_card_version :: ustr
  rq_currency :: ustr

definition quote :: "Settings \<Rightarrow> rat \<Rightarrow> ustr \<Rightarrow> RateQuote" where
  "quote st cost currency =
     (let upstream = (if cost < 0 then 0 else cost);
          service_fee = quantize (upstream * markup_rate st);
          retail = quantize (upstream + service_fee)
      in \<lparr>rq_upstream_cost = upstream, rq_markup_rate = markup_rate st, rq_service_fee = service_fee,
          rq_retail_cost = retail, rq_rate_card_version = rate_card_version st,
          rq_currency = (if currency \<noteq> [] then currency else default_currency st)\<rparr>)"

subsection \<open>Rounding\<close>

lemma is_money_iff: "is_money x \<longleftrightarrow> (\<exists>n :: int. x * 10 ^ 8 = of_int n)"
  by (auto simp: is_money_def intro: exI [of _ "\<lfloor>x * 10 ^ 8\<rfloor>"])

lemma moneyE:
  assumes "is_money x"
  obtains n :: int where "x = of_int n / 10 ^ 8"
  using assms unfolding is_money_iff by (auto simp: field_simps)

lemma of_int_is_money [simp, intro]: "is_money (of_int n / 10 ^ 8)"
  unfolding is_money_iff by auto

lemma quantize_is_money [simp, intro]: "is_money (quantize x)"
  unfolding quantize_def by (rule of_int_is_money)

lemma is_money_0 [simp]: "is_money 0"
  by (simp add: is_money_def)

lemma is_money_add [intro]: "is_money x \<Longrightarrow> is_money y \<Longrightarrow> is_money (x + y)"
  by (auto simp: is_money_iff algebra_simps) (metis of_int_add)

lemma is_money_minus [intro]: "is_money x \<Longrightarrow> is_money (- x)"
  by (auto simp: is_money_iff) (metis of_int_minus)

lemma is_money_sum_list: "(\<And>x. x \<in> set xs \<Longrightarrow> is_money x) \<Longrightarrow> is_money (sum_list xs)"
  by (induction xs) (auto intro: is_money_add)

lemma floor_half [simp]: "\<lfloor>1 / 2 :: rat\<rfloor> = 0"
  by (rule floor_unique) simp_all

lemma quantize_minus [simp]: "quantize (- x) = - quantize x"
  by (cases "x = 0") (auto simp: quantize_def add.commute [of "1 / 2"])

lemma quantize_nonneg: "0 \<le> x \<Longrightarrow> 0 \<le> quantize x"
  by (simp add: quantize_def)

lemma quantize_nonpos: "x \<le> 0 \<Longrightarrow> quantize x \<le> 0"
  using quantize_nonneg [of "- x"] by simp

lemma quantize_add_money:
  assumes "is_money m" "0 \<le> x" "0 \<le> x + m"
  shows "quantize (x + m) = quantize x + m"
proof -
  from assms(1) obtain n :: int where m: "m = of_int n / 10 ^ 8" by (rule moneyE)
  have "(x + m) * 10 ^ 8 + 1 / 2 = (x * 10 ^ 8 + 1 / 2) + of_int n"
    by (simp add: m field_simps)
  then have "\<lfloor>(x + m) * 10 ^ 8 + 1 / 2\<rfloor> = \<lfloor>x * 10 ^ 8 + 1 / 2\<rfloor> + n"
    by (simp only: floor_add_int)
  then show ?thesis using assms(2,3) by (simp add: quantize_def m add_divide_distrib)
qed

lemma quantize_money [simp]:
  assumes "is_money x" shows "quantize x = x"
proof (cases "0 \<le> x")
  case True
  then show ?thesis using quantize_add_money [of x 0] assms by (simp add: quantize_def)
next
  case False
  then have "quantize (- x) = - x"
    using quantize_add_money [of "- x" 0] assms by (simp add: quantize_def is_money_minus)
  then show ?thesis by simp
qed

lemma quantize_error_nonneg:
  assumes "0 \<le> x" shows "\<bar>quantize x - x\<bar> \<le> 1 / (2 * 10 ^ 8)"
proof -
  define k where "k = \<lfloor>x * 10 ^ 8 + 1 / 2\<rfloor>"
  have "of_int k \<le> x * 10 ^ 8 + 1 / 2" "x * 10 ^ 8 + 1 / 2 < of_int k + 1"
    unfolding k_def by linarith+
  moreover have "quantize x = of_int k / 10 ^ 8" using assms by (simp add: quantize_def k_def)
  ultimately have "quantize x - x \<le> 1 / (2 * 10 ^ 8)" "- (quantize x - x) \<le> 1 / (2 * 10 ^ 8)"
    by (simp_all add: field_simps)
  then show ?thesis by (simp only: abs_le_iff)
qed

lemma quantize_error: "\<bar>quantize x - x\<bar> \<le> 1 / (2 * 10 ^ 8)"
proof (cases "0 \<le> x")
  case False
  then have "\<bar>quantize (- x) - (- x)\<bar> \<le> 1 / (2 * 10 ^ 8)" by (intro quantize_error_nonneg) simp
  then show ?thesis by (simp add: abs_minus_commute)
qed (rule quantize_error_nonneg)

subsection \<open>What a quote promises\<close>

lemma quote_upstream_nonneg [simp]: "0 \<le> rq_upstream_cost (quote st c cur)"
  by (simp add: quote_def Let_def)

lemma quote_fee_nonneg: "0 \<le> markup_rate st \<Longrightarrow> 0 \<le> rq_service_fee (quote st c cur)"
  by (auto simp: quote_def Let_def intro: quantize_nonneg)

lemma quote_money [simp]:
  "is_money (rq_service_fee (quote st c cur))" "is_money (rq_retail_cost (quote st c cur))"
  by (simp_all add: quote_def Let_def)

text \<open>The three stored amounts add up exactly.\<close>

lemma quote_adds_up:
  assumes "0 \<le> markup_rate st"
  shows "rq_retail_cost (quote st c cur) =
         to_money (rq_upstream_cost (quote st c cur)) + rq_service_fee (quote st c cur)"
proof -
  define w where "w = (if c < 0 then 0 else c)"
  have w: "0 \<le> w" by (simp add: w_def)
  have fee: "0 \<le> quantize (w * markup_rate st)" using w assms by (intro quantize_nonneg) simp
  have "quantize (w + quantize (w * markup_rate st)) = quantize w + quantize (w * markup_rate st)"
    using w fee by (intro quantize_add_money) auto
  then show ?thesis by (simp add: quote_def Let_def to_money_def w_def)
qed

section \<open>Tables\<close>

text \<open>
  A cost column holds a canonical decimal string or, when the public gateway wrote it, the text of
  whatever the provider reported.
\<close>

datatype cost_text = Canonical rat | Verbatim ustr

definition read_cost :: "cost_text \<Rightarrow> dec option" where
  "read_cost c = (case c of Canonical q \<Rightarrow> Some (DFin q) | Verbatim s \<Rightarrow> read_decimal s)"

datatype CostSource = ProviderReported | UnknownCost
datatype ReconciliationState = Resolved | NeedsReconciliation
datatype ReconciliationReason = MissingUsage | CostDiscrepancy | UnknownPricing

record MeasuredUsage =
  mu_litellm_request_id :: ustr
  mu_workspace_id :: ustr
  mu_user_id :: ustr
  mu_provider :: ustr
  mu_model :: ustr
  mu_input_tokens :: int
  mu_output_tokens :: int
  mu_cached_tokens :: int
  mu_reasoning_tokens :: int
  mu_duration_ms :: int
  mu_request_status :: ustr
  mu_upstream_cost :: cost_text
  mu_currency :: ustr
  mu_team_id :: "ustr option"
  mu_run_id :: "ustr option"
  mu_trace_event_id :: "ustr option"
  mu_repository_id :: "ustr option"
  mu_application_name :: "ustr option"
  mu_engine :: "ustr option"
  mu_phase :: "ustr option"
  mu_environment :: "ustr option"
  mu_retry_of :: "ustr option"
  mu_idempotency_key :: "ustr option"
  mu_provider_request_id :: "ustr option"
  mu_error_category :: "ustr option"
  mu_genesis_calculated_cost :: "rat option"
  mu_cost_source :: CostSource
  mu_reconciliation_state :: ReconciliationState
  mu_project_id :: "ustr option"
  mu_virtual_key_id :: "ustr option"

text \<open>A row of \<open>usage_records\<close>: the measurement and what the database and the pricing add.\<close>

record UsageRecord = MeasuredUsage +
  ur_id :: ustr
  ur_reconciliation_reason :: "ReconciliationReason option"
  ur_pricing_version_id :: "ustr option"
  ur_created_at :: int

record ModelPricing =
  mp_id :: ustr
  mp_provider :: ustr
  mp_model :: ustr
  mp_input_price :: rat
  mp_output_price :: rat
  mp_cached_input_price :: "rat option"
  mp_reasoning_price :: "rat option"
  mp_currency :: ustr
  mp_effective_start :: int
  mp_effective_end :: "int option"
  mp_source :: "ustr option"

record BalanceTransaction =
  bt_id :: ustr
  bt_workspace_id :: ustr
  bt_transaction_type :: ustr
  bt_signed_amount :: rat
  bt_usage_charge_id :: "ustr option"
  bt_stripe_event_id :: "ustr option"
  bt_stripe_payment_reference :: "ustr option"
  bt_idempotency_key :: ustr
  bt_currency :: ustr
  bt_created_at :: int

record UsageCharge =
  uc_id :: ustr
  uc_usage_record_id :: ustr
  uc_litellm_request_id :: ustr
  uc_workspace_id :: ustr
  uc_user_id :: ustr
  uc_run_id :: "ustr option"
  uc_trace_event_id :: "ustr option"
  uc_repository_id :: "ustr option"
  uc_application_name :: "ustr option"
  uc_upstream_cost :: rat
  uc_markup_rate :: rat
  uc_service_fee :: rat
  uc_retail_cost :: rat
  uc_currency :: ustr
  uc_rate_card_version :: ustr
  uc_billing_status :: ustr
  uc_created_at :: int

datatype HoldStatus = HoldActive | HoldSettled | HoldReleased

record BalanceReservation =
  br_workspace_id :: ustr
  br_reservation_key :: ustr
  br_amount :: rat
  br_status :: HoldStatus
  br_created_at :: int

datatype GrantStatus = Granted | Reversed

record BetaCreditGrant =
  bg_id :: ustr
  bg_workspace_id :: ustr
  bg_amount :: rat
  bg_currency :: ustr
  bg_reason :: ustr
  bg_operator :: ustr
  bg_idempotency_key :: ustr
  bg_status :: GrantStatus
  bg_transaction_id :: ustr
  bg_reversal_transaction_id :: "ustr option"
  bg_reversed_by :: "ustr option"
  bg_reversed_reason :: "ustr option"
  bg_created_at :: int
  bg_reversed_at :: "int option"

datatype EnforcementMode = ObserveOnly | WarnMode | BlockMode
datatype LimitType = PerRun | Daily | Monthly | TotalLimit
datatype ScopeType = WorkspaceScope | ProjectScope | EnvironmentScope | UserScope | TeamScope | KeyScope

text \<open>\<open>run:<id>\<close>, \<open>day:<date>\<close>, \<open>month:<year>-<month>\<close> and \<open>total\<close>.\<close>

datatype WindowKey = RunWindow ustr | DayWindow int | MonthWindow int int | TotalWindow

record LimitPolicy =
  lp_id :: ustr
  lp_workspace_id :: ustr
  lp_enabled :: bool
  lp_scope_type :: ScopeType
  lp_scope_id :: ustr
  lp_limit_type :: LimitType
  lp_amount :: rat
  lp_currency :: ustr
  lp_warning_threshold :: "rat option"
  lp_enforcement_mode :: EnforcementMode
  lp_effective_at :: "int option"
  lp_expires_at :: "int option"

datatype LimitResult = LimitOk | LimitWarn | LimitObserve | LimitBlock

record LimitDecision =
  ld_request_id :: ustr
  ld_workspace_id :: ustr
  ld_policy_id :: "ustr option"
  ld_policy_ref :: "ustr option"
  ld_scope_type :: ScopeType
  ld_scope_id :: ustr
  ld_limit_type :: LimitType
  ld_amount :: rat
  ld_previous_usage :: rat
  ld_reserved_amount :: rat
  ld_actual_usage :: "rat option"
  ld_enforcement_mode :: EnforcementMode
  ld_result :: LimitResult

record LimitReservation =
  lr_reservation_key :: ustr
  lr_workspace_id :: ustr
  lr_scope_type :: ScopeType
  lr_scope_id :: ustr
  lr_window_key :: WindowKey
  lr_amount :: rat
  lr_status :: HoldStatus

record Books =
  bk_usage :: "UsageRecord list"
  bk_prices :: "ModelPricing list"
  bk_txns :: "BalanceTransaction list"
  bk_charges :: "UsageCharge list"
  bk_holds :: "BalanceReservation list"
  bk_grants :: "BetaCreditGrant list"
  bk_policies :: "LimitPolicy list"
  bk_decisions :: "LimitDecision list"
  bk_limit_holds :: "LimitReservation list"

definition empty_books :: Books where
  "empty_books = \<lparr>bk_usage = [], bk_prices = [], bk_txns = [], bk_charges = [], bk_holds = [],
     bk_grants = [], bk_policies = [], bk_decisions = [], bk_limit_holds = []\<rparr>"

text \<open>\<open>one_or_none\<close> on a unique column, and assignment to the row it finds.\<close>

definition change_where :: "('r \<Rightarrow> bool) \<Rightarrow> ('r \<Rightarrow> 'r) \<Rightarrow> 'r list \<Rightarrow> 'r list" where
  "change_where P f rows = map (\<lambda>r. if P r then f r else r) rows"

lemma length_change_where [simp]: "length (change_where P f rows) = length rows"
  by (simp add: change_where_def)

lemma change_where_append [simp]: "change_where P f (xs @ ys) = change_where P f xs @ change_where P f ys"
  by (simp add: change_where_def)

lemma map_change_where:
  "(\<And>r. P r \<Longrightarrow> g (f r) = g r) \<Longrightarrow> map g (change_where P f rows) = map g rows"
  by (simp add: change_where_def)

lemma change_where_none: "(\<And>r. r \<in> set rows \<Longrightarrow> \<not> P r) \<Longrightarrow> change_where P f rows = rows"
  by (simp add: change_where_def map_idI)

lemma in_change_where:
  "r' \<in> set (change_where P f rows) \<longleftrightarrow> (\<exists>r \<in> set rows. r' = (if P r then f r else r))"
  by (auto simp: change_where_def)

text \<open>The row of a unique column.\<close>

lemma find_distinct:
  assumes "distinct (map g rows)" "r \<in> set rows"
  shows "find (\<lambda>x. g x = g r) rows = Some r"
  using assms by (induction rows) (auto simp: image_iff)

lemma find_unused: "k \<notin> g ` set rows \<Longrightarrow> find (\<lambda>x. g x = k) rows = None"
  by (auto simp: find_None_iff)

lemma find_Some_mem: "find P rows = Some r \<Longrightarrow> r \<in> set rows \<and> P r"
  by (metis find_Some_iff nth_mem)

section \<open>Writes that may be repeated\<close>

text \<open>
  Webhooks and callbacks are delivered at least once.  A write is \<open>once_only\<close> when a second write for
  the same logical operation returns the first row and changes nothing.
\<close>

fun deliver :: "('a \<Rightarrow> 's \<Rightarrow> ('r \<times> bool \<times> 's) svc) \<Rightarrow> 'a list \<Rightarrow> 's \<Rightarrow> 's svc" where
  "deliver put [] s = Inr s"
| "deliver put (a # rest) s = sbind (put a s) (\<lambda>(r, created, s'). deliver put rest s')"

locale once_only =
  fixes put :: "'a \<Rightarrow> 's \<Rightarrow> ('r \<times> bool \<times> 's) svc"
    and same :: "'a \<Rightarrow> 'a \<Rightarrow> bool"
  assumes replay: "put a s = Inr (r, created, s') \<Longrightarrow> same a b \<Longrightarrow> put b s' = Inr (r, False, s')"
begin

lemma redelivery:
  assumes "put a s = Inr (r, created, s')" "\<And>b. b \<in> set rest \<Longrightarrow> same a b"
  shows "deliver put (a # rest) s = Inr s'"
proof -
  have "deliver put rest s' = Inr s'" if "\<And>b. b \<in> set rest \<Longrightarrow> same a b" for rest
    using that by (induction rest) (auto simp: replay [OF assms(1)])
  with assms show ?thesis by simp
qed

end

end
