(* ===== verification/Usage.thy ===== *)
theory Usage
  imports Books
begin

text \<open>
  Measured usage and its price (src/gnsis/service/usage.py and pricing.py): the validation of a usage
  callback, the idempotent usage record, the versioned prices and the Genesis cost of a record.
\<close>

section \<open>The usage callback\<close>

definition UsageError :: "string \<Rightarrow> svc_error" where
  "UsageError msg = Refused msg 400"

definition absent :: "ustr jsn \<Rightarrow> bool" where
  "absent v \<longleftrightarrow> v = JNull \<or> v = JStr []"

text \<open>\<open>_to_decimal_str\<close>\<close>

definition to_decimal_str :: "pylib \<Rightarrow> ustr jsn \<Rightarrow> rat svc" where
  "to_decimal_str lib v =
     (if absent v then Inr 0
      else case decimal_of lib v of
        None \<Rightarrow> Inl (UsageError ''not a valid decimal'')
      | Some DNaN \<Rightarrow> Inl (UsageError ''not finite'')
      | Some (DInf _) \<Rightarrow> Inl (UsageError ''not finite'')
      | Some (DFin q) \<Rightarrow> if q < 0 then Inl (UsageError ''must not be negative'') else Inr q)"

text \<open>\<open>_int\<close>; \<open>int\<close> of an infinity is the \<open>OverflowError\<close> that escapes, and JSON has none.\<close>

definition count_of :: "pylib \<Rightarrow> ustr jsn \<Rightarrow> int svc" where
  "count_of lib v =
     (if absent v then Inr 0
      else case py_int lib v of Inl e \<Rightarrow> Inl (UsageError ''must be an integer'') | Inr i \<Rightarrow> Inr (max 0 i))"

text \<open>\<open>_opt\<close>\<close>

definition opt_text :: "pylib \<Rightarrow> ustr jsn \<Rightarrow> ustr option" where
  "opt_text lib v = (if absent v then None else Some (str_of lib v))"

text \<open>\<open>a or b\<close>\<close>

definition or_else :: "ustr jsn \<Rightarrow> ustr jsn \<Rightarrow> ustr jsn" where
  "or_else a b = (if truthy a then a else b)"

definition SUCCESS_STATES :: "ustr set" where
  "SUCCESS_STATES = {u ''success'', u ''succeeded'', u ''ok'', u ''completed''}"

definition cost_provenance :: "bool \<Rightarrow> bool \<Rightarrow> CostSource \<times> ReconciliationState" where
  "cost_provenance cost_present succeeded =
     (if cost_present then (ProviderReported, Resolved)
      else if \<not> succeeded then (UnknownCost, Resolved)
      else (UnknownCost, NeedsReconciliation))"

definition required_ids :: "(ustr \<times> ustr jsn) list \<Rightarrow> (ustr jsn \<times> (ustr \<times> ustr jsn) list) svc" where
  "required_ids body =
     (let request_id = or_else (get body ''litellm_request_id'') (get body ''litellm_call_id'')
      in if \<not> truthy request_id then Inl (UsageError ''litellm_request_id is required'')
         else case get body ''metadata'' of
           JObj md \<Rightarrow>
             (if \<not> truthy (get md ''workspace_id'') \<or> \<not> truthy (get md ''user_id'')
              then Inl (UsageError ''metadata.workspace_id and metadata.user_id are required'')
              else Inr (request_id, md))
         | _ \<Rightarrow> Inl (UsageError ''metadata object is required''))"

text \<open>The five counts and the cost, in the order the constructor call evaluates them.\<close>

definition measured_numbers ::
  "pylib \<Rightarrow> (ustr \<times> ustr jsn) list \<Rightarrow> (int \<times> int \<times> int \<times> int \<times> int \<times> rat) svc" where
  "measured_numbers lib body =
     sbind (count_of lib (get body ''input_tokens'')) (\<lambda>inp.
     sbind (count_of lib (get body ''output_tokens'')) (\<lambda>out.
     sbind (count_of lib (get body ''cached_tokens'')) (\<lambda>cached.
     sbind (count_of lib (get body ''reasoning_tokens'')) (\<lambda>reasoning.
     sbind (count_of lib (get body ''duration_ms'')) (\<lambda>duration.
     sbind (to_decimal_str lib (get body ''upstream_cost'')) (\<lambda>cost.
       Inr (inp, out, cached, reasoning, duration, cost)))))))"

definition parse_callback :: "pylib \<Rightarrow> ustr jsn \<Rightarrow> MeasuredUsage svc" where
  "parse_callback lib raw =
     (case raw of
        JObj body \<Rightarrow>
          sbind (required_ids body) (\<lambda>(request_id, md).
          sbind (measured_numbers lib body) (\<lambda>(inp, out, cached, reasoning, duration, cost).
            let status = str_of lib (or_else (get body ''request_status'') (JStr (u ''success'')));
                (source, state) = cost_provenance (\<not> absent (get body ''upstream_cost''))
                  (status \<in> SUCCESS_STATES)
            in Inr \<lparr>mu_litellm_request_id = str_of lib request_id,
              mu_workspace_id = str_of lib (get md ''workspace_id''),
              mu_user_id = str_of lib (get md ''user_id''),
              mu_provider = str_of lib (or_else (or_else (get body ''provider'')
                (get body ''custom_llm_provider'')) (JStr [])),
              mu_model = str_of lib (or_else (get body ''model'') (JStr [])),
              mu_input_tokens = inp, mu_output_tokens = out, mu_cached_tokens = cached,
              mu_reasoning_tokens = reasoning, mu_duration_ms = duration,
              mu_request_status = status, mu_upstream_cost = Canonical cost,
              mu_currency = str_of lib (or_else (get body ''currency'') (JStr (u ''USD''))),
              mu_team_id = opt_text lib (get md ''team_id''),
              mu_run_id = opt_text lib (get md ''run_id''),
              mu_trace_event_id = opt_text lib (or_else (get md ''trace_event_id'')
                (get md ''model_call_event_id'')),
              mu_repository_id = opt_text lib (get md ''repository_id''),
              mu_application_name = opt_text lib (get md ''application_name''),
              mu_engine = opt_text lib (get md ''engine''),
              mu_phase = opt_text lib (get md ''phase''),
              mu_environment = opt_text lib (get md ''environment''),
              mu_retry_of = opt_text lib (get body ''retry_of''),
              mu_idempotency_key = opt_text lib (or_else (get md ''idempotency_key'')
                (get body ''idempotency_key'')),
              mu_provider_request_id = opt_text lib (or_else (get body ''provider_request_id'')
                (get md ''provider_request_id'')),
              mu_error_category = opt_text lib (get body ''error_category''),
              mu_genesis_calculated_cost = None, mu_cost_source = source,
              mu_reconciliation_state = state, mu_project_id = None, mu_virtual_key_id = None\<rparr>))
      | _ \<Rightarrow> Inl (UsageError ''callback body must be a JSON object''))"

section \<open>Usage records\<close>

text \<open>
  \<open>_find_existing\<close>.  \<open>one_or_none\<close> cannot find two rows: both columns are unique, and NULL keys are
  not compared.
\<close>

definition find_existing :: "Books \<Rightarrow> MeasuredUsage \<Rightarrow> UsageRecord option" where
  "find_existing bk m =
     (case find (\<lambda>r. mu_litellm_request_id r = mu_litellm_request_id m) (bk_usage bk) of
        Some r \<Rightarrow> Some r
      | None \<Rightarrow>
          (if present (mu_idempotency_key m)
           then find (\<lambda>r. mu_idempotency_key r = mu_idempotency_key m) (bk_usage bk) else None))"

definition usage_row :: "int \<Rightarrow> ustr \<Rightarrow> MeasuredUsage \<Rightarrow> UsageRecord" where
  "usage_row now i m = MeasuredUsage.extend m
     \<lparr>ur_id = i, ur_reconciliation_reason = None, ur_pricing_version_id = None, ur_created_at = now\<rparr>"

definition key_taken :: "Books \<Rightarrow> MeasuredUsage \<Rightarrow> bool" where
  "key_taken bk m \<longleftrightarrow> mu_idempotency_key m \<noteq> None \<and>
     (\<exists>r \<in> set (bk_usage bk). mu_idempotency_key r = mu_idempotency_key m)"

text \<open>
  \<open>UsageStore.record\<close>: the row, whether it was created, and the tables.  An empty idempotency key is
  not looked up, but the unique column compares it, so a second one fails and finds nothing.
\<close>

definition record_usage ::
  "Books \<Rightarrow> int \<Rightarrow> ustr \<Rightarrow> MeasuredUsage \<Rightarrow> (UsageRecord \<times> bool \<times> Books) svc" where
  "record_usage bk now i m =
     (case find_existing bk m of
        Some r \<Rightarrow> Inr (r, False, bk)
      | None \<Rightarrow>
          (if key_taken bk m then Inl (Raises ''IntegrityError'')
           else Inr (usage_row now i m, True, bk\<lparr>bk_usage := bk_usage bk @ [usage_row now i m]\<rparr>)))"

definition usage_of :: "Books \<Rightarrow> ustr \<Rightarrow> UsageRecord option" where
  "usage_of bk i = find (\<lambda>r. ur_id r = i) (bk_usage bk)"

definition get_by_litellm_id :: "Books \<Rightarrow> ustr \<Rightarrow> UsageRecord option" where
  "get_by_litellm_id bk k = find (\<lambda>r. mu_litellm_request_id r = k) (bk_usage bk)"

text \<open>\<open>ORDER BY created_at DESC LIMIT n\<close>; rows of the same instant keep their order.\<close>

definition newest :: "('r \<Rightarrow> int) \<Rightarrow> nat \<Rightarrow> 'r list \<Rightarrow> 'r list" where
  "newest t n rows = take n (sort_key (\<lambda>r. - t r) rows)"

definition list_usage :: "Books \<Rightarrow> ustr \<Rightarrow> nat \<Rightarrow> UsageRecord list" where
  "list_usage bk w n = newest ur_created_at n (filter (\<lambda>r. mu_workspace_id r = w) (bk_usage bk))"

definition count_usage :: "Books \<Rightarrow> ustr \<Rightarrow> nat" where
  "count_usage bk w = length (filter (\<lambda>r. mu_workspace_id r = w) (bk_usage bk))"

definition unreconciled :: "Books \<Rightarrow> ustr \<Rightarrow> UsageRecord list" where
  "unreconciled bk w =
     filter (\<lambda>r. mu_workspace_id r = w \<and> mu_reconciliation_state r = NeedsReconciliation) (bk_usage bk)"

definition list_needs_reconciliation :: "Books \<Rightarrow> ustr \<Rightarrow> nat \<Rightarrow> UsageRecord list" where
  "list_needs_reconciliation bk w n = newest ur_created_at n (unreconciled bk w)"

definition count_needs_reconciliation :: "Books \<Rightarrow> ustr \<Rightarrow> nat" where
  "count_needs_reconciliation bk w = length (unreconciled bk w)"

section \<open>Prices\<close>

definition PricingError :: "string \<Rightarrow> svc_error" where
  "PricingError msg = Refused msg 400"

text \<open>\<open>_dec\<close>\<close>

definition price_of :: "dec option \<Rightarrow> rat svc" where
  "price_of d =
     (case d of
        None \<Rightarrow> Inl (PricingError ''not a valid price'')
      | Some (DFin q) \<Rightarrow> if q < 0 then Inl (PricingError ''must be a non-negative number'') else Inr q
      | Some _ \<Rightarrow> Inl (PricingError ''must be a non-negative number''))"

definition opt_price_of :: "dec option option \<Rightarrow> rat option svc" where
  "opt_price_of d = (case d of None \<Rightarrow> Inr None | Some v \<Rightarrow> sbind (price_of v) (\<lambda>q. Inr (Some q)))"

definition open_price :: "ustr \<Rightarrow> ustr \<Rightarrow> ModelPricing \<Rightarrow> bool" where
  "open_price provider model r \<longleftrightarrow>
     mp_provider r = provider \<and> mp_model r = model \<and> mp_effective_end r = None"

definition add_price ::
  "Books \<Rightarrow> int \<Rightarrow> ustr \<Rightarrow> ustr \<Rightarrow> ustr \<Rightarrow> dec option \<Rightarrow> dec option \<Rightarrow> dec option option \<Rightarrow>
   dec option option \<Rightarrow> ustr \<Rightarrow> int option \<Rightarrow> ustr option \<Rightarrow> (ModelPricing \<times> Books) svc" where
  "add_price bk now i provider model inp out cached reasoning currency effective_start src =
     (if provider = [] \<or> model = [] then Inl (PricingError ''provider and model are required'')
      else sbind (price_of inp) (\<lambda>pi. sbind (price_of out) (\<lambda>po.
           sbind (opt_price_of cached) (\<lambda>pc. sbind (opt_price_of reasoning) (\<lambda>pr.
             let start = (case effective_start of Some t \<Rightarrow> t | None \<Rightarrow> now);
                 new = \<lparr>mp_id = i, mp_provider = provider, mp_model = model, mp_input_price = pi,
                   mp_output_price = po, mp_cached_input_price = pc, mp_reasoning_price = pr,
                   mp_currency = currency, mp_effective_start = start, mp_effective_end = None,
                   mp_source = src\<rparr>
             in Inr (new, bk\<lparr>bk_prices := change_where (open_price provider model)
                  (\<lambda>r. r\<lparr>mp_effective_end := Some start\<rparr>) (bk_prices bk) @ [new]\<rparr>))))))"

definition in_force :: "int \<Rightarrow> ModelPricing \<Rightarrow> bool" where
  "in_force t r \<longleftrightarrow> mp_effective_start r \<le> t \<and> (case mp_effective_end r of None \<Rightarrow> True | Some e \<Rightarrow> t < e)"

definition price_candidates :: "Books \<Rightarrow> ustr \<Rightarrow> ustr \<Rightarrow> int \<Rightarrow> ModelPricing list" where
  "price_candidates bk provider model t =
     filter (\<lambda>r. mp_provider r = provider \<and> mp_model r = model \<and> in_force t r) (bk_prices bk)"

definition resolve_price :: "Books \<Rightarrow> ustr \<Rightarrow> ustr \<Rightarrow> int \<Rightarrow> ModelPricing option" where
  "resolve_price bk provider model t =
     (case price_candidates bk provider model t of
        [] \<Rightarrow> None
      | rs \<Rightarrow> Some (last (sort_key mp_effective_start rs)))"

section \<open>The Genesis cost\<close>

definition calculate_cost :: "ModelPricing \<Rightarrow> int \<Rightarrow> int \<Rightarrow> int \<Rightarrow> int \<Rightarrow> rat" where
  "calculate_cost p input_tokens output_tokens cached_tokens reasoning_tokens =
     (let inp = mp_input_price p;
          out = mp_output_price p;
          cached = (case mp_cached_input_price p of Some q \<Rightarrow> q | None \<Rightarrow> inp);
          reasoning = (case mp_reasoning_price p of Some q \<Rightarrow> q | None \<Rightarrow> out);
          in_total = max input_tokens 0;
          out_total = max output_tokens 0;
          cached_billed = min (max cached_tokens 0) in_total;
          reasoning_billed = min (max reasoning_tokens 0) out_total
      in to_money (of_int (in_total - cached_billed) * inp + of_int cached_billed * cached +
           of_int (out_total - reasoning_billed) * out + of_int reasoning_billed * reasoning))"

definition is_discrepant :: "rat \<Rightarrow> rat \<Rightarrow> bool" where
  "is_discrepant provider_cost genesis_cost =
     (let biggest = max provider_cost genesis_cost
      in if biggest \<le> 0 then False else \<bar>provider_cost - genesis_cost\<bar> / biggest > 5 / 100)"

definition measured_tokens :: "UsageRecord \<Rightarrow> int" where
  "measured_tokens r = mu_input_tokens r + mu_output_tokens r + mu_cached_tokens r + mu_reasoning_tokens r"

definition flagged :: "ReconciliationReason \<Rightarrow> UsageRecord \<Rightarrow> UsageRecord" where
  "flagged reason r =
     r\<lparr>mu_reconciliation_state := NeedsReconciliation, ur_reconciliation_reason := Some reason\<rparr>"

text \<open>
  \<open>Decimal(u.upstream_cost or "0")\<close>, and the comparison with the Genesis cost, which fails on what is
  not a finite number.
\<close>

definition discrepancy :: "cost_text \<Rightarrow> rat \<Rightarrow> bool svc" where
  "discrepancy c genesis =
     (case (if c = Verbatim [] then Some (DFin 0) else read_cost c) of
        Some (DFin q) \<Rightarrow> Inr (is_discrepant q genesis)
      | Some (DInf neg) \<Rightarrow> if neg then (if genesis \<le> 0 then Inr False else Inr True) else Inl (Raises ''InvalidOperation'')
      | _ \<Rightarrow> Inl (Raises ''InvalidOperation''))"

definition priced_row :: "ModelPricing \<Rightarrow> UsageRecord \<Rightarrow> UsageRecord svc" where
  "priced_row p r =
     (if mu_cost_source r \<noteq> ProviderReported \<and> mu_request_status r \<in> SUCCESS_STATES \<and> measured_tokens r = 0
      then Inr (flagged MissingUsage r)
      else
        let genesis = calculate_cost p (mu_input_tokens r) (mu_output_tokens r) (mu_cached_tokens r)
              (mu_reasoning_tokens r);
            r' = r\<lparr>mu_genesis_calculated_cost := Some genesis, ur_pricing_version_id := Some (mp_id p),
              mu_reconciliation_state := Resolved\<rparr>
        in if mu_cost_source r = ProviderReported
           then sbind (discrepancy (mu_upstream_cost r) genesis) (\<lambda>d.
             Inr (r'\<lparr>ur_reconciliation_reason := (if d then Some CostDiscrepancy else None)\<rparr>))
           else Inr (r'\<lparr>ur_reconciliation_reason := None\<rparr>))"

definition price_row :: "Books \<Rightarrow> UsageRecord \<Rightarrow> UsageRecord svc" where
  "price_row bk r =
     (case resolve_price bk (mu_provider r) (mu_model r) (ur_created_at r) of
        Some p \<Rightarrow> priced_row p r
      | None \<Rightarrow> Inr (if mu_cost_source r \<noteq> ProviderReported then flagged UnknownPricing r else r))"

text \<open>\<open>price_usage_record\<close>: an exception leaves the row as it was.\<close>

definition price_usage_record :: "Books \<Rightarrow> ustr \<Rightarrow> Books svc" where
  "price_usage_record bk i =
     (case usage_of bk i of
        None \<Rightarrow> Inr bk
      | Some r \<Rightarrow> sbind (price_row bk r) (\<lambda>r'.
          Inr (bk\<lparr>bk_usage := change_where (\<lambda>x. ur_id x = i) (\<lambda>_. r') (bk_usage bk)\<rparr>)))"

section \<open>What a callback must say\<close>

lemma measured_numbers_nonneg:
  assumes "measured_numbers lib body = Inr (inp, out, cached, reasoning, duration, cost)"
  shows "0 \<le> inp \<and> 0 \<le> out \<and> 0 \<le> cached \<and> 0 \<le> reasoning \<and> 0 \<le> duration \<and> 0 \<le> cost"
proof -
  have count: "0 \<le> i" if "count_of lib v = Inr i" for v i
    using that by (auto simp: count_of_def split: if_splits sum.splits)
  have cost: "0 \<le> q" if "to_decimal_str lib v = Inr q" for v q
    using that by (auto simp: to_decimal_str_def split: if_splits option.splits dec.splits)
  from assms show ?thesis
    unfolding measured_numbers_def by (auto simp: sbind_Inr_iff dest!: count cost)
qed

text \<open>The fields of an accepted callback that later steps rely on.\<close>

lemma parsed_callback:
  assumes "parse_callback lib raw = Inr m"
  obtains body request_id md inp out cached reasoning duration cost where
    "raw = JObj body" "required_ids body = Inr (request_id, md)"
    "measured_numbers lib body = Inr (inp, out, cached, reasoning, duration, cost)"
    "mu_litellm_request_id m = str_of lib request_id" "mu_upstream_cost m = Canonical cost"
    "mu_workspace_id m = str_of lib (get md ''workspace_id'')"
    "mu_trace_event_id m = opt_text lib (or_else (get md ''trace_event_id'') (get md ''model_call_event_id''))"
    "mu_request_status m = str_of lib (or_else (get body ''request_status'') (JStr (u ''success'')))"
    "(mu_cost_source m, mu_reconciliation_state m) =
       cost_provenance (\<not> absent (get body ''upstream_cost'')) (mu_request_status m \<in> SUCCESS_STATES)"
    "mu_genesis_calculated_cost m = None"
proof -
  from assms obtain body where body: "raw = JObj body"
    by (auto simp: parse_callback_def split: jsn.splits)
  from assms obtain request_id md where ids: "required_ids body = Inr (request_id, md)"
    by (auto simp: parse_callback_def body sbind_Inr_iff)
  from assms ids obtain inp out cached reasoning duration cost where
    nums: "measured_numbers lib body = Inr (inp, out, cached, reasoning, duration, cost)"
    by (auto simp: parse_callback_def body sbind_Inr_iff)
  show thesis
  proof (rule that [OF body ids nums])
  qed (use assms in \<open>auto simp: parse_callback_def body ids nums Let_def split: prod.splits\<close>)
qed

text \<open>
  A row is sound when a resolved cost has a basis: the provider's figure, the Genesis figure, or a
  request that did not succeed.
\<close>

definition cost_basis_known :: "'a MeasuredUsage_scheme \<Rightarrow> bool" where
  "cost_basis_known r \<longleftrightarrow> (mu_reconciliation_state r = Resolved \<longrightarrow>
     mu_cost_source r = ProviderReported \<or> mu_genesis_calculated_cost r \<noteq> None \<or>
     mu_request_status r \<notin> SUCCESS_STATES)"

lemma parsed_basis_known: "parse_callback lib raw = Inr m \<Longrightarrow> cost_basis_known m"
  by (erule parsed_callback) (auto simp: cost_basis_known_def cost_provenance_def split: if_splits)

lemma usage_row_basis [simp]: "cost_basis_known (usage_row now i m) = cost_basis_known m"
  by (simp add: cost_basis_known_def usage_row_def MeasuredUsage.defs)

lemma priced_row_basis: "priced_row p r = Inr r' \<Longrightarrow> cost_basis_known r'"
  by (auto simp: priced_row_def cost_basis_known_def flagged_def Let_def sbind_Inr_iff split: if_splits)

lemma price_row_basis: "price_row bk r = Inr r' \<Longrightarrow> cost_basis_known r \<Longrightarrow> cost_basis_known r'"
  by (auto simp: price_row_def flagged_def cost_basis_known_def [of "flagged _ _"] dest: priced_row_basis
      split: option.splits if_splits) (simp add: cost_basis_known_def)

section \<open>Records\<close>

lemma recorded_is_found:
  assumes "record_usage bk now i m = Inr (r, created, bk')"
  shows "find_existing bk' m = Some r"
  using assms
  by (auto simp: record_usage_def find_existing_def usage_row_def MeasuredUsage.defs find_append
      split: option.splits if_splits)

lemma record_usage_replay:
  assumes "record_usage bk now i m = Inr (r, created, bk')"
  shows "record_usage bk' now' i' m = Inr (r, False, bk')"
  by (simp add: record_usage_def recorded_is_found [OF assms])

text \<open>A callback that is delivered again, with the same request id.\<close>

interpretation usage_records: once_only
  "\<lambda>(now, i, m) bk. record_usage bk now i m" "\<lambda>(_, _, m) (_, _, m'). m = m'"
  by unfold_locales (auto dest: record_usage_replay)

section \<open>Prices\<close>

lemma add_price_shape:
  assumes "add_price bk now i provider model inp out cached reasoning currency start src = Inr (new, bk')"
  shows "bk_prices bk' = change_where (open_price provider model)
      (\<lambda>r. r\<lparr>mp_effective_end := Some (mp_effective_start new)\<rparr>) (bk_prices bk) @ [new]"
    "mp_provider new = provider" "mp_model new = model" "mp_effective_end new = None"
  using assms by (auto simp: add_price_def sbind_Inr_iff Let_def split: if_splits)

lemma in_force_closed:
  "mp_effective_end r = None \<Longrightarrow> t < s \<Longrightarrow> in_force t (r\<lparr>mp_effective_end := Some s\<rparr>) = in_force t r"
  by (auto simp: in_force_def)

text \<open>Closing a window later than \<open>t\<close> changes no candidate at \<open>t\<close> except its end.\<close>

definition without_end :: "ModelPricing \<Rightarrow> ModelPricing" where
  "without_end r = r\<lparr>mp_effective_end := None\<rparr>"

lemma calculate_cost_without_end [simp]:
  "calculate_cost (without_end p) a b c d = calculate_cost p a b c d"
  by (simp add: calculate_cost_def without_end_def)

lemma map_filter_eq:
  assumes "list_all2 (\<lambda>x y. P x = Q y \<and> g x = g y) xs ys"
  shows "map g (filter P xs) = map g (filter Q ys)"
  using assms by (induction rule: list_all2_induct) auto

lemma sort_key_map: "map g (sort_key f xs) = sort_key h (map g xs)" if "\<And>x. f x = h (g x)"
proof -
  have ins: "map g (insort_key f a ys) = insort_key h (g a) (map g ys)" for a ys
    by (induction ys) (auto simp: that)
  show ?thesis by (induction xs) (auto simp: ins)
qed

lemma sort_key_empty [simp]: "sort_key f xs = [] \<longleftrightarrow> xs = []"
  by (metis length_0_conv length_sort)

lemma resolve_price_last:
  "resolve_price bk p m t =
     (let rs = price_candidates bk p m t in if rs = [] then None else Some (last (sort_key mp_effective_start rs)))"
  by (cases "price_candidates bk p m t") (simp_all add: resolve_price_def Let_def)

lemma price_history:
  assumes "add_price bk now i provider model inp out cached reasoning currency start src = Inr (new, bk')"
    and "t < mp_effective_start new"
  shows "map_option without_end (resolve_price bk' p m t) = map_option without_end (resolve_price bk p m t)"
proof -
  have same: "map without_end (price_candidates bk' p m t) = map without_end (price_candidates bk p m t)"
  proof -
    have "\<not> in_force t new" using assms(2) by (simp add: in_force_def)
    moreover have "map without_end (filter (\<lambda>r. mp_provider r = p \<and> mp_model r = m \<and> in_force t r)
        (change_where (open_price provider model)
          (\<lambda>r. r\<lparr>mp_effective_end := Some (mp_effective_start new)\<rparr>) (bk_prices bk))) =
      map without_end (filter (\<lambda>r. mp_provider r = p \<and> mp_model r = m \<and> in_force t r) (bk_prices bk))"
      by (intro map_filter_eq)
        (auto simp: list_all2_conv_all_nth change_where_def open_price_def without_end_def
          in_force_closed [OF _ assms(2)])
    ultimately show ?thesis
      by (simp add: price_candidates_def add_price_shape(1) [OF assms(1)])
  qed
  let ?a = "price_candidates bk' p m t" and ?b = "price_candidates bk p m t"
  have "map without_end (sort_key mp_effective_start ?a) = map without_end (sort_key mp_effective_start ?b)"
    using same by (simp add: sort_key_map [where h = mp_effective_start] without_end_def)
  moreover have "?a = [] \<longleftrightarrow> ?b = []" using same by (metis map_is_Nil_conv)
  ultimately show ?thesis
    by (simp add: resolve_price_last) (metis last_map sort_key_empty)
qed

section \<open>Costs\<close>

lemma calculate_cost_nonneg:
  assumes "0 \<le> mp_input_price p" "0 \<le> mp_output_price p"
    "\<And>q. mp_cached_input_price p = Some q \<Longrightarrow> 0 \<le> q" "\<And>q. mp_reasoning_price p = Some q \<Longrightarrow> 0 \<le> q"
  shows "0 \<le> calculate_cost p a b c d"
  unfolding calculate_cost_def Let_def to_money_def
  by (intro quantize_nonneg add_nonneg_nonneg mult_nonneg_nonneg)
    (use assms in \<open>auto split: option.splits\<close>)

text \<open>Malformed detail counts bill as if they were clamped to their totals.\<close>

lemma calculate_cost_clamped:
  "calculate_cost p a b c d =
   calculate_cost p (max a 0) (max b 0) (min (max c 0) (max a 0)) (min (max d 0) (max b 0))"
  by (simp add: calculate_cost_def Let_def max_def min_def)

end
