(* ===== verification/Billing.thy ===== *)
theory Billing
  imports Usage
begin

text \<open>
  The prepaid balance (src/gnsis/service/billing.py): the append-only ledger of signed transactions,
  the holds placed before a request, and the charge of a usage record.  The workspace lock makes a
  reservation atomic, so it is one step; of the branches for a lost race on a unique column only
  those a single transaction can reach remain.
\<close>

section \<open>The ledger\<close>

definition BillingError :: "string \<Rightarrow> nat \<Rightarrow> svc_error" where
  "BillingError msg status = Refused msg status"

definition TOP_UP :: ustr where "TOP_UP = u ''top_up''"
definition USAGE_DEBIT :: ustr where "USAGE_DEBIT = u ''usage_debit''"
definition CREDIT :: ustr where "CREDIT = u ''credit''"
definition REFUND :: ustr where "REFUND = u ''refund''"
definition ADJUSTMENT :: ustr where "ADJUSTMENT = u ''adjustment''"

definition balance :: "Books \<Rightarrow> ustr \<Rightarrow> rat" where
  "balance bk w = sum_list (map bt_signed_amount (filter (\<lambda>t. bt_workspace_id t = w) (bk_txns bk)))"

definition active_hold :: "ustr \<Rightarrow> BalanceReservation \<Rightarrow> bool" where
  "active_hold w h \<longleftrightarrow> br_workspace_id h = w \<and> br_status h = HoldActive"

definition active_holds :: "Books \<Rightarrow> ustr \<Rightarrow> rat" where
  "active_holds bk w = sum_list (map br_amount (filter (active_hold w) (bk_holds bk)))"

definition available :: "Books \<Rightarrow> ustr \<Rightarrow> rat" where
  "available bk w = balance bk w - active_holds bk w"

definition transactions :: "Books \<Rightarrow> ustr \<Rightarrow> nat \<Rightarrow> BalanceTransaction list" where
  "transactions bk w n = newest bt_created_at n (filter (\<lambda>t. bt_workspace_id t = w) (bk_txns bk))"

text \<open>The arguments of \<open>_add_transaction\<close>.\<close>

record TxnRequest =
  tq_workspace_id :: ustr
  tq_transaction_type :: ustr
  tq_signed_amount :: rat
  tq_idempotency_key :: ustr
  tq_stripe_event_id :: "ustr option"
  tq_stripe_payment_reference :: "ustr option"
  tq_usage_charge_id :: "ustr option"
  tq_currency :: ustr

definition find_transaction :: "Books \<Rightarrow> ustr \<Rightarrow> ustr option \<Rightarrow> BalanceTransaction option" where
  "find_transaction bk key event =
     (case find (\<lambda>t. bt_idempotency_key t = key) (bk_txns bk) of
        Some t \<Rightarrow> Some t
      | None \<Rightarrow> if present event then find (\<lambda>t. bt_stripe_event_id t = event) (bk_txns bk) else None)"

definition txn_row :: "int \<Rightarrow> ustr \<Rightarrow> TxnRequest \<Rightarrow> BalanceTransaction" where
  "txn_row now i q =
     \<lparr>bt_id = i, bt_workspace_id = tq_workspace_id q, bt_transaction_type = tq_transaction_type q,
      bt_signed_amount = to_money (tq_signed_amount q), bt_usage_charge_id = tq_usage_charge_id q,
      bt_stripe_event_id = tq_stripe_event_id q,
      bt_stripe_payment_reference = tq_stripe_payment_reference q,
      bt_idempotency_key = tq_idempotency_key q, bt_currency = tq_currency q, bt_created_at = now\<rparr>"

text \<open>
  An empty Stripe event id is not looked up, but the unique column compares it: the insert fails, no
  row is found again, and the view of \<open>None\<close> raises.
\<close>

definition add_transaction ::
  "Books \<Rightarrow> int \<Rightarrow> ustr \<Rightarrow> TxnRequest \<Rightarrow> (BalanceTransaction \<times> bool \<times> Books) svc" where
  "add_transaction bk now i q =
     (case find_transaction bk (tq_idempotency_key q) (tq_stripe_event_id q) of
        Some t \<Rightarrow> Inr (t, False, bk)
      | None \<Rightarrow>
          (if tq_stripe_event_id q \<noteq> None \<and>
              tq_stripe_event_id q \<in> bt_stripe_event_id ` set (bk_txns bk)
           then Inl (Raises ''AttributeError'')
           else Inr (txn_row now i q, True, bk\<lparr>bk_txns := bk_txns bk @ [txn_row now i q]\<rparr>)))"

definition top_up ::
  "Books \<Rightarrow> int \<Rightarrow> ustr \<Rightarrow> ustr \<Rightarrow> rat \<Rightarrow> ustr \<Rightarrow> ustr option \<Rightarrow> ustr option \<Rightarrow> ustr \<Rightarrow>
   (BalanceTransaction \<times> bool \<times> Books) svc" where
  "top_up bk now i w amount key event reference currency =
     (if amount \<le> 0 then Inl (BillingError ''top-up amount must be positive'' 400)
      else add_transaction bk now i
        \<lparr>tq_workspace_id = w, tq_transaction_type = TOP_UP, tq_signed_amount = amount,
         tq_idempotency_key = key, tq_stripe_event_id = event, tq_stripe_payment_reference = reference,
         tq_usage_charge_id = None, tq_currency = currency\<rparr>)"

definition credit ::
  "Books \<Rightarrow> int \<Rightarrow> ustr \<Rightarrow> ustr \<Rightarrow> rat \<Rightarrow> ustr \<Rightarrow> ustr \<Rightarrow> (BalanceTransaction \<times> bool \<times> Books) svc" where
  "credit bk now i w amount key currency =
     add_transaction bk now i
       \<lparr>tq_workspace_id = w, tq_transaction_type = CREDIT, tq_signed_amount = amount,
        tq_idempotency_key = key, tq_stripe_event_id = None, tq_stripe_payment_reference = None,
        tq_usage_charge_id = None, tq_currency = currency\<rparr>"

definition refund ::
  "Books \<Rightarrow> int \<Rightarrow> ustr \<Rightarrow> ustr \<Rightarrow> rat \<Rightarrow> ustr \<Rightarrow> ustr option \<Rightarrow> ustr option \<Rightarrow> ustr \<Rightarrow>
   (BalanceTransaction \<times> bool \<times> Books) svc" where
  "refund bk now i w amount key event reference currency =
     add_transaction bk now i
       \<lparr>tq_workspace_id = w, tq_transaction_type = REFUND, tq_signed_amount = - \<bar>amount\<bar>,
        tq_idempotency_key = key, tq_stripe_event_id = event, tq_stripe_payment_reference = reference,
        tq_usage_charge_id = None, tq_currency = currency\<rparr>"

definition adjustment ::
  "Books \<Rightarrow> int \<Rightarrow> ustr \<Rightarrow> ustr \<Rightarrow> rat \<Rightarrow> ustr \<Rightarrow> ustr \<Rightarrow> (BalanceTransaction \<times> bool \<times> Books) svc" where
  "adjustment bk now i w amount key currency =
     add_transaction bk now i
       \<lparr>tq_workspace_id = w, tq_transaction_type = ADJUSTMENT, tq_signed_amount = amount,
        tq_idempotency_key = key, tq_stripe_event_id = None, tq_stripe_payment_reference = None,
        tq_usage_charge_id = None, tq_currency = currency\<rparr>"

section \<open>Holds\<close>

definition reserve :: "Books \<Rightarrow> int \<Rightarrow> ustr \<Rightarrow> rat \<Rightarrow> ustr \<Rightarrow> bool \<times> Books" where
  "reserve bk now w amount key =
     (case find (\<lambda>h. br_reservation_key h = key) (bk_holds bk) of
        Some h \<Rightarrow> (br_status h \<in> {HoldActive, HoldSettled}, bk)
      | None \<Rightarrow>
          (if available bk w < amount then (False, bk)
           else (True, bk\<lparr>bk_holds := bk_holds bk @
             [\<lparr>br_workspace_id = w, br_reservation_key = key, br_amount = to_money amount,
               br_status = HoldActive, br_created_at = now\<rparr>]\<rparr>)))"

definition finish_hold :: "HoldStatus \<Rightarrow> Books \<Rightarrow> ustr \<Rightarrow> Books" where
  "finish_hold status bk key = bk\<lparr>bk_holds := change_where
     (\<lambda>h. br_reservation_key h = key \<and> br_status h = HoldActive) (br_status_update (\<lambda>_. status)) (bk_holds bk)\<rparr>"

definition release :: "Books \<Rightarrow> ustr \<Rightarrow> Books" where
  "release = finish_hold HoldReleased"

definition settle_reservation :: "Books \<Rightarrow> ustr \<Rightarrow> Books" where
  "settle_reservation = finish_hold HoldSettled"

definition stale_hold :: "int \<Rightarrow> int \<Rightarrow> BalanceReservation \<Rightarrow> bool" where
  "stale_hold now older_than_seconds h \<longleftrightarrow>
     br_status h = HoldActive \<and> br_created_at h < now - older_than_seconds * 1000000"

definition release_stale_reservations :: "Books \<Rightarrow> int \<Rightarrow> int \<Rightarrow> nat \<times> Books" where
  "release_stale_reservations bk now older =
     (length (filter (stale_hold now older) (bk_holds bk)),
      bk\<lparr>bk_holds := change_where (stale_hold now older) (br_status_update (\<lambda>_. HoldReleased)) (bk_holds bk)\<rparr>)"

section \<open>Charging\<close>

definition get_charge_for_usage :: "Books \<Rightarrow> ustr \<Rightarrow> UsageCharge option" where
  "get_charge_for_usage bk i = find (\<lambda>c. uc_usage_record_id c = i) (bk_charges bk)"

definition settle_for :: "Books \<Rightarrow> UsageRecord \<Rightarrow> Books" where
  "settle_for bk r =
     (case mu_trace_event_id r of Some k \<Rightarrow> if k \<noteq> [] then settle_reservation bk k else bk | None \<Rightarrow> bk)"

definition cost_basis :: "UsageRecord \<Rightarrow> dec option" where
  "cost_basis r =
     (if mu_cost_source r = ProviderReported then read_cost (mu_upstream_cost r)
      else case mu_genesis_calculated_cost r of
        Some q \<Rightarrow> Some (DFin q)
      | None \<Rightarrow> if mu_upstream_cost r = Verbatim [] then Some (DFin 0) else read_cost (mu_upstream_cost r))"

text \<open>\<open>rates.quote\<close> on what the column holds: an amount that is not a number raises.\<close>

definition quote_basis :: "Settings \<Rightarrow> dec option \<Rightarrow> ustr \<Rightarrow> RateQuote svc" where
  "quote_basis st d currency =
     (case d of
        Some (DFin q) \<Rightarrow> Inr (quote st q currency)
      | Some (DInf neg) \<Rightarrow> if neg then Inr (quote st 0 currency) else Inl (Raises ''InvalidOperation'')
      | _ \<Rightarrow> Inl (Raises ''InvalidOperation''))"

definition debit_key :: "ustr \<Rightarrow> ustr" where
  "debit_key i = u ''debit:'' @ i"

definition new_charge :: "int \<Rightarrow> ustr \<Rightarrow> UsageRecord \<Rightarrow> RateQuote \<Rightarrow> UsageCharge" where
  "new_charge now i r q =
     \<lparr>uc_id = i, uc_usage_record_id = ur_id r, uc_litellm_request_id = mu_litellm_request_id r,
      uc_workspace_id = mu_workspace_id r, uc_user_id = mu_user_id r, uc_run_id = mu_run_id r,
      uc_trace_event_id = mu_trace_event_id r, uc_repository_id = mu_repository_id r,
      uc_application_name = mu_application_name r, uc_upstream_cost = to_money (rq_upstream_cost q),
      uc_markup_rate = rq_markup_rate q, uc_service_fee = to_money (rq_service_fee q),
      uc_retail_cost = to_money (rq_retail_cost q), uc_currency = rq_currency q,
      uc_rate_card_version = rq_rate_card_version q, uc_billing_status = u ''charged'',
      uc_created_at = now\<rparr>"

definition debit_row :: "int \<Rightarrow> ustr \<Rightarrow> UsageCharge \<Rightarrow> BalanceTransaction" where
  "debit_row now i c =
     \<lparr>bt_id = i, bt_workspace_id = uc_workspace_id c, bt_transaction_type = USAGE_DEBIT,
      bt_signed_amount = to_money (- uc_retail_cost c), bt_usage_charge_id = Some (uc_id c),
      bt_stripe_event_id = None, bt_stripe_payment_reference = None,
      bt_idempotency_key = debit_key (uc_usage_record_id c), bt_currency = uc_currency c,
      bt_created_at = now\<rparr>"

text \<open>
  The charge and its debit are one transaction.  When the debit's key is already taken, the rollback
  discards the charge as well, and the code then asks for that charge with \<open>one()\<close>, which raises.
\<close>

definition charge_new ::
  "Books \<Rightarrow> Settings \<Rightarrow> int \<Rightarrow> ustr \<Rightarrow> ustr \<Rightarrow> UsageRecord \<Rightarrow> (UsageCharge option \<times> bool \<times> Books) svc" where
  "charge_new bk st now charge_id txn_id r =
     sbind (quote_basis st (cost_basis r) (mu_currency r)) (\<lambda>q.
       if rq_retail_cost q \<le> 0 then Inr (None, True, settle_for bk r)
       else
         let c = new_charge now charge_id r q
         in if \<exists>t \<in> set (bk_txns bk). bt_idempotency_key t = debit_key (ur_id r)
            then Inl (Raises ''NoResultFound'')
            else Inr (Some c, True, (settle_for bk r)\<lparr>bk_charges := bk_charges bk @ [c],
                   bk_txns := bk_txns bk @ [debit_row now txn_id c]\<rparr>))"

definition charge_usage ::
  "Books \<Rightarrow> Settings \<Rightarrow> int \<Rightarrow> ustr \<Rightarrow> ustr \<Rightarrow> ustr \<Rightarrow> (UsageCharge option \<times> bool \<times> Books) svc" where
  "charge_usage bk st now charge_id txn_id i =
     (case usage_of bk i of
        None \<Rightarrow> Inl (BillingError ''usage record not found'' 404)
      | Some r \<Rightarrow>
          (case get_charge_for_usage bk i of
             Some c \<Rightarrow> Inr (Some c, False, settle_for bk r)
           | None \<Rightarrow>
               (if mu_reconciliation_state r = NeedsReconciliation then Inr (None, False, settle_for bk r)
                else charge_new bk st now charge_id txn_id r)))"

section \<open>The invariant of the ledger\<close>

text \<open>What the ledger must say about a charge, and what a debit says.\<close>

definition owed :: "UsageCharge \<Rightarrow> ustr \<times> ustr \<times> ustr option \<times> rat" where
  "owed c = (debit_key (uc_usage_record_id c), uc_workspace_id c, Some (uc_id c), - uc_retail_cost c)"

definition taken :: "BalanceTransaction \<Rightarrow> ustr \<times> ustr \<times> ustr option \<times> rat" where
  "taken t = (bt_idempotency_key t, bt_workspace_id t, bt_usage_charge_id t, bt_signed_amount t)"

definition is_debit :: "BalanceTransaction \<Rightarrow> bool" where
  "is_debit t \<longleftrightarrow> bt_transaction_type t = USAGE_DEBIT"

definition books_ok :: "Books \<Rightarrow> bool" where
  "books_ok bk \<longleftrightarrow>
     distinct (map bt_idempotency_key (bk_txns bk)) \<and>
     distinct (filter (\<lambda>e. e \<noteq> None) (map bt_stripe_event_id (bk_txns bk))) \<and>
     distinct (map uc_usage_record_id (bk_charges bk)) \<and>
     distinct (map br_reservation_key (bk_holds bk)) \<and>
     list_all (\<lambda>t. is_money (bt_signed_amount t)) (bk_txns bk) \<and>
     list_all (\<lambda>h. is_money (br_amount h)) (bk_holds bk) \<and>
     list_all (\<lambda>c. 0 < uc_retail_cost c) (bk_charges bk) \<and>
     map owed (bk_charges bk) = map taken (filter is_debit (bk_txns bk))"

lemma empty_books_ok [simp]: "books_ok empty_books"
  by (simp add: books_ok_def empty_books_def)

text \<open>Tables that the invariant does not read may change freely.\<close>

lemma ledger_ok_cong:
  "bk_txns bk = bk_txns bk' \<Longrightarrow> bk_charges bk = bk_charges bk' \<Longrightarrow> bk_holds bk = bk_holds bk' \<Longrightarrow>
   books_ok bk = books_ok bk'"
  by (simp add: books_ok_def)

lemma finish_hold_frame [frame_simps, simp]:
  "bk_txns (finish_hold status bk k) = bk_txns bk" "bk_charges (finish_hold status bk k) = bk_charges bk"
  "bk_usage (finish_hold status bk k) = bk_usage bk" "bk_prices (finish_hold status bk k) = bk_prices bk"
  "bk_grants (finish_hold status bk k) = bk_grants bk"
  "bk_policies (finish_hold status bk k) = bk_policies bk"
  "bk_decisions (finish_hold status bk k) = bk_decisions bk"
  "bk_limit_holds (finish_hold status bk k) = bk_limit_holds bk"
  by (simp_all add: finish_hold_def)

lemma settle_for_cases: "settle_for bk r = bk \<or> (\<exists>k. settle_for bk r = finish_hold HoldSettled bk k)"
  by (auto simp: settle_for_def settle_reservation_def split: option.splits)

lemma settle_for_frame [frame_simps, simp]:
  "bk_txns (settle_for bk r) = bk_txns bk" "bk_charges (settle_for bk r) = bk_charges bk"
  "bk_usage (settle_for bk r) = bk_usage bk" "bk_prices (settle_for bk r) = bk_prices bk"
  "bk_grants (settle_for bk r) = bk_grants bk" "bk_policies (settle_for bk r) = bk_policies bk"
  "bk_decisions (settle_for bk r) = bk_decisions bk"
  "bk_limit_holds (settle_for bk r) = bk_limit_holds bk"
  using settle_for_cases [of bk r] by auto

text \<open>Changing the status of holds keeps their keys and amounts.\<close>

definition same_holds :: "Books \<Rightarrow> Books \<Rightarrow> bool" where
  "same_holds bk bk' \<longleftrightarrow> map (br_status_update (\<lambda>_. HoldActive)) (bk_holds bk) =
     map (br_status_update (\<lambda>_. HoldActive)) (bk_holds bk')"

lemma same_holds_refl [simp]: "same_holds bk bk" by (simp add: same_holds_def)

lemma same_holds_change:
  "same_holds bk (bk\<lparr>bk_holds := change_where P (br_status_update f) (bk_holds bk)\<rparr>)"
  by (simp add: same_holds_def map_change_where)

lemma same_holds_finish [simp]: "same_holds bk (finish_hold status bk k)"
  unfolding finish_hold_def by (rule same_holds_change)

lemma same_holds_settle [simp]: "same_holds bk (settle_for bk r)"
  using settle_for_cases [of bk r] by auto

lemma same_holds_facts:
  assumes "same_holds bk bk'"
  shows "map br_reservation_key (bk_holds bk) = map br_reservation_key (bk_holds bk')"
    and "map br_amount (bk_holds bk) = map br_amount (bk_holds bk')"
proof -
  have k: "map br_reservation_key (map (br_status_update (\<lambda>_. HoldActive)) hs) = map br_reservation_key hs"
    and a: "map br_amount (map (br_status_update (\<lambda>_. HoldActive)) hs) = map br_amount hs" for hs
    by simp_all
  show "map br_reservation_key (bk_holds bk) = map br_reservation_key (bk_holds bk')"
    using assms arg_cong [where f = "map br_reservation_key"] unfolding same_holds_def by (metis k)
  show "map br_amount (bk_holds bk) = map br_amount (bk_holds bk')"
    using assms arg_cong [where f = "map br_amount"] unfolding same_holds_def by (metis a)
qed

lemma list_all_map: "list_all P (map f xs) = list_all (\<lambda>x. P (f x)) xs"
  by (simp add: list_all_iff)

lemma ledger_ok_same_holds:
  assumes "same_holds bk bk'" "bk_txns bk = bk_txns bk'" "bk_charges bk = bk_charges bk'"
  shows "books_ok bk = books_ok bk'"
  using same_holds_facts [OF assms(1)] assms(2,3)
    list_all_map [of is_money br_amount "bk_holds bk"] list_all_map [of is_money br_amount "bk_holds bk'"]
  by (simp add: books_ok_def)

lemma finish_hold_ok [simp]: "books_ok (finish_hold status bk k) = books_ok bk"
  by (rule ledger_ok_same_holds [symmetric]) simp_all

lemma settle_for_ok [simp]: "books_ok (settle_for bk r) = books_ok bk"
  by (rule ledger_ok_same_holds [symmetric]) simp_all

lemma release_stale_ok [simp]: "books_ok (snd (release_stale_reservations bk now n)) = books_ok bk"
  by (rule ledger_ok_same_holds [symmetric])
    (simp_all add: release_stale_reservations_def same_holds_change)

subsection \<open>Transactions\<close>

lemma find_transaction_none:
  assumes "find_transaction bk key event = None"
  shows "key \<notin> set (map bt_idempotency_key (bk_txns bk))"
    and "present event \<Longrightarrow> event \<notin> bt_stripe_event_id ` set (bk_txns bk)"
  using assms by (auto simp: find_transaction_def find_None_iff split: option.splits if_splits)

lemma add_transaction_cases:
  assumes "add_transaction bk now i q = Inr (t, created, bk')"
  obtains (old) "\<not> created" "bk' = bk" "t \<in> set (bk_txns bk)"
      "find_transaction bk (tq_idempotency_key q) (tq_stripe_event_id q) = Some t"
    | (new) "created" "t = txn_row now i q" "bk' = bk\<lparr>bk_txns := bk_txns bk @ [txn_row now i q]\<rparr>"
      "tq_idempotency_key q \<notin> set (map bt_idempotency_key (bk_txns bk))"
      "tq_stripe_event_id q = None \<or> tq_stripe_event_id q \<notin> bt_stripe_event_id ` set (bk_txns bk)"
proof (cases "find_transaction bk (tq_idempotency_key q) (tq_stripe_event_id q)")
  case None
  with assms find_transaction_none [OF None] new show thesis
    by (auto simp: add_transaction_def split: if_splits)
next
  case (Some r)
  then have "r \<in> set (bk_txns bk)"
    by (auto simp: find_transaction_def dest: find_Some_mem split: option.splits if_splits)
  with assms Some old show thesis by (simp add: add_transaction_def)
qed

text \<open>Every transaction but a debit may be added without a charge.\<close>

lemma add_transaction_ok:
  assumes "add_transaction bk now i q = Inr (t, created, bk')" "books_ok bk"
    "tq_transaction_type q \<noteq> USAGE_DEBIT"
  shows "books_ok bk'"
  using assms(1)
proof (cases rule: add_transaction_cases)
  case new
  with assms(2,3) show ?thesis
    by (auto simp: books_ok_def txn_row_def is_debit_def to_money_def)
qed (use assms(2) in simp)

lemma add_transaction_replay:
  assumes "add_transaction bk now i q = Inr (t, created, bk')"
    and "tq_idempotency_key q' = tq_idempotency_key q"
    and "tq_stripe_event_id q' = tq_stripe_event_id q"
  shows "add_transaction bk' now' i' q' = Inr (t, False, bk')"
  using assms(1)
proof (cases rule: add_transaction_cases)
  case old
  with assms(2,3) show ?thesis by (simp add: add_transaction_def)
next
  case new
  then have "find (\<lambda>t. bt_idempotency_key t = tq_idempotency_key q) (bk_txns bk') = Some t"
    using find_unused [of _ bt_idempotency_key "bk_txns bk"] by (simp add: find_append txn_row_def)
  with assms(2,3) show ?thesis by (simp add: add_transaction_def find_transaction_def)
qed

text \<open>A webhook that is delivered again, under the same key and event.\<close>

interpretation ledger_writes: once_only
  "\<lambda>(now, i, q) bk. add_transaction bk now i q"
  "\<lambda>(_, _, q) (_, _, q'). tq_idempotency_key q' = tq_idempotency_key q \<and>
     tq_stripe_event_id q' = tq_stripe_event_id q"
  by unfold_locales (auto intro: add_transaction_replay)

lemma transaction_types [simp]:
  "TOP_UP \<noteq> USAGE_DEBIT" "CREDIT \<noteq> USAGE_DEBIT" "REFUND \<noteq> USAGE_DEBIT" "ADJUSTMENT \<noteq> USAGE_DEBIT"
  by (simp_all add: TOP_UP_def CREDIT_def REFUND_def ADJUSTMENT_def USAGE_DEBIT_def u_def)

lemma top_up_ok: "top_up bk now i w a k e r cur = Inr (t, c, bk') \<Longrightarrow> books_ok bk \<Longrightarrow> books_ok bk'"
  by (auto simp: top_up_def split: if_splits intro: add_transaction_ok)

lemma credit_ok: "credit bk now i w a k cur = Inr (t, c, bk') \<Longrightarrow> books_ok bk \<Longrightarrow> books_ok bk'"
  by (auto simp: credit_def intro: add_transaction_ok)

lemma refund_ok: "refund bk now i w a k e r cur = Inr (t, c, bk') \<Longrightarrow> books_ok bk \<Longrightarrow> books_ok bk'"
  by (auto simp: refund_def intro: add_transaction_ok)

lemma adjustment_ok: "adjustment bk now i w a k cur = Inr (t, c, bk') \<Longrightarrow> books_ok bk \<Longrightarrow> books_ok bk'"
  by (auto simp: adjustment_def intro: add_transaction_ok)

subsection \<open>Holds\<close>

lemma reserve_ok: "reserve bk now w amount key = (b, bk') \<Longrightarrow> books_ok bk \<Longrightarrow> books_ok bk'"
  by (auto simp: reserve_def books_ok_def to_money_def find_None_iff split: option.splits if_splits)

lemma reserve_frame [frame_simps]:
  "reserve bk now w amount key = (b, bk') \<Longrightarrow>
   bk_txns bk' = bk_txns bk \<and> bk_charges bk' = bk_charges bk \<and> bk_usage bk' = bk_usage bk"
  by (auto simp: reserve_def split: option.splits if_splits)

text \<open>What a reservation does to the available balance of any workspace.\<close>

lemma reserve_available:
  assumes "reserve bk now w amount key = (b, bk')"
  shows "bk' = bk \<or> b \<and> amount \<le> available bk w \<and>
    (\<forall>v. available bk' v = available bk v - (if v = w then to_money amount else 0))"
  using assms
  by (auto simp: reserve_def available_def balance_def active_holds_def active_hold_def
      split: option.splits if_splits)

lemma refused_reservation: "reserve bk now w amount key = (False, bk') \<Longrightarrow> bk' = bk"
  by (auto simp: reserve_def split: option.splits if_splits)

text \<open>Ending a hold gives back its amount to its workspace.\<close>

lemma sum_list_remove_hold:
  assumes "distinct (map br_reservation_key hs)" "h \<in> set hs" "br_status h = HoldActive" "status \<noteq> HoldActive"
  shows "sum_list (map br_amount (filter (active_hold w)
      (change_where (\<lambda>x. br_reservation_key x = br_reservation_key h \<and> br_status x = HoldActive)
        (br_status_update (\<lambda>_. status)) hs))) =
    sum_list (map br_amount (filter (active_hold w) hs)) - (if br_workspace_id h = w then br_amount h else 0)"
  using assms(1,2)
proof (induction hs)
  case (Cons x hs)
  show ?case
  proof (cases "x = h")
    case True
    with Cons.prems have "br_reservation_key h \<notin> br_reservation_key ` set hs" by simp
    then have "change_where (\<lambda>x. br_reservation_key x = br_reservation_key h \<and> br_status x = HoldActive)
        (br_status_update (\<lambda>_. status)) hs = hs"
      by (intro change_where_none) (metis imageI)
    with True assms(3,4) show ?thesis by (simp add: change_where_def active_hold_def)
  next
    case False
    with Cons.prems have "br_reservation_key x \<noteq> br_reservation_key h" by auto
    with Cons False show ?thesis by (simp add: change_where_def)
  qed
qed simp

lemma finished_hold_available:
  assumes "books_ok bk" "h \<in> set (bk_holds bk)" "br_status h = HoldActive" "status \<noteq> HoldActive"
  shows "available (finish_hold status bk (br_reservation_key h)) w =
    available bk w + (if br_workspace_id h = w then br_amount h else 0)"
  using sum_list_remove_hold [of "bk_holds bk" h status w] assms
  by (simp add: available_def balance_def active_holds_def finish_hold_def books_ok_def)

lemma finish_hold_idle:
  assumes "\<And>h. h \<in> set (bk_holds bk) \<Longrightarrow> br_reservation_key h = k \<Longrightarrow> br_status h \<noteq> HoldActive"
  shows "finish_hold status bk k = bk"
  by (simp add: finish_hold_def, subst change_where_none) (use assms in auto)

lemma finished_hold_is_over:
  "status \<noteq> HoldActive \<Longrightarrow> h \<in> set (bk_holds (finish_hold status bk k)) \<Longrightarrow> br_reservation_key h = k \<Longrightarrow>
   br_status h \<noteq> HoldActive"
proof -
  assume "h \<in> set (bk_holds (finish_hold status bk k))"
  then obtain x where "x \<in> set (bk_holds bk)"
    "h = (if br_reservation_key x = k \<and> br_status x = HoldActive then br_status_update (\<lambda>_. status) x else x)"
    unfolding finish_hold_def by (auto simp: in_change_where)
  moreover assume "status \<noteq> HoldActive" "br_reservation_key h = k"
  ultimately show ?thesis by (cases "br_reservation_key x = k \<and> br_status x = HoldActive") simp_all
qed

subsection \<open>Charges\<close>

lemma debit_key_inject [simp]: "debit_key i = debit_key j \<longleftrightarrow> i = j"
  by (simp add: debit_key_def)

lemma get_charge_none: "get_charge_for_usage bk i = None \<Longrightarrow> i \<notin> uc_usage_record_id ` set (bk_charges bk)"
  by (auto simp: get_charge_for_usage_def find_None_iff)

lemma get_charge_some:
  "get_charge_for_usage bk i = Some c \<Longrightarrow> c \<in> set (bk_charges bk) \<and> uc_usage_record_id c = i"
  unfolding get_charge_for_usage_def by (drule find_Some_mem) simp

lemma usage_of_some: "usage_of bk i = Some r \<Longrightarrow> r \<in> set (bk_usage bk) \<and> ur_id r = i"
  unfolding usage_of_def by (drule find_Some_mem) simp

lemma new_charge_facts [simp]:
  "uc_id (new_charge now i r q) = i" "uc_usage_record_id (new_charge now i r q) = ur_id r"
  "uc_workspace_id (new_charge now i r q) = mu_workspace_id r"
  "uc_retail_cost (new_charge now i r q) = to_money (rq_retail_cost q)"
  "uc_upstream_cost (new_charge now i r q) = to_money (rq_upstream_cost q)"
  "uc_service_fee (new_charge now i r q) = to_money (rq_service_fee q)"
  by (simp_all add: new_charge_def)

lemma debit_row_facts [simp]:
  "is_debit (debit_row now i c)" "bt_idempotency_key (debit_row now i c) = debit_key (uc_usage_record_id c)"
  "bt_stripe_event_id (debit_row now i c) = None" "bt_workspace_id (debit_row now i c) = uc_workspace_id c"
  "bt_signed_amount (debit_row now i c) = to_money (- uc_retail_cost c)"
  "bt_usage_charge_id (debit_row now i c) = Some (uc_id c)"
  by (simp_all add: debit_row_def is_debit_def)

lemma quote_basis_money:
  "quote_basis st d cur = Inr q \<Longrightarrow> is_money (rq_retail_cost q) \<and> is_money (rq_service_fee q)"
  by (auto simp: quote_basis_def split: option.splits dec.splits if_splits)

text \<open>The outcomes of a charge: known already, not billable, nothing to pay, or a charge with its debit.\<close>

lemma charge_usage_cases:
  assumes "charge_usage bk st now ci ti i = Inr (c, created, bk')"
  obtains (known) r k where "usage_of bk i = Some r" "get_charge_for_usage bk i = Some k" "c = Some k"
      "\<not> created" "bk' = settle_for bk r"
    | (unknown_cost) r where "usage_of bk i = Some r" "get_charge_for_usage bk i = None" "c = None"
      "\<not> created" "mu_reconciliation_state r = NeedsReconciliation" "bk' = settle_for bk r"
    | (free) r q where "usage_of bk i = Some r" "get_charge_for_usage bk i = None" "c = None" "created"
      "mu_reconciliation_state r \<noteq> NeedsReconciliation"
      "quote_basis st (cost_basis r) (mu_currency r) = Inr q" "rq_retail_cost q \<le> 0"
      "bk' = settle_for bk r"
    | (charged) r q k where "usage_of bk i = Some r" "get_charge_for_usage bk i = None" "c = Some k"
      "created" "mu_reconciliation_state r \<noteq> NeedsReconciliation"
      "quote_basis st (cost_basis r) (mu_currency r) = Inr q" "0 < rq_retail_cost q"
      "k = new_charge now ci r q" "debit_key i \<notin> bt_idempotency_key ` set (bk_txns bk)"
      "bk' = (settle_for bk r)\<lparr>bk_charges := bk_charges bk @ [k], bk_txns := bk_txns bk @ [debit_row now ti k]\<rparr>"
proof -
  from assms obtain r where r: "usage_of bk i = Some r"
    by (auto simp: charge_usage_def split: option.splits)
  show thesis
  proof (cases "get_charge_for_usage bk i")
    case (Some k)
    with assms r show thesis by (intro known [of r k]) (auto simp: charge_usage_def)
  next
    case None
    show thesis
    proof (cases "mu_reconciliation_state r = NeedsReconciliation")
      case True
      with assms r None show thesis by (intro unknown_cost) (auto simp: charge_usage_def)
    next
      case False
      with assms r None have new: "charge_new bk st now ci ti r = Inr (c, created, bk')"
        by (simp add: charge_usage_def)
      then obtain q where q: "quote_basis st (cost_basis r) (mu_currency r) = Inr q"
        by (auto simp: charge_new_def sbind_Inr_iff)
      note i = usage_of_some [OF r, THEN conjunct2]
      show thesis
      proof (cases "rq_retail_cost q \<le> 0")
        case True
        with new q r None False show thesis by (intro free) (auto simp: charge_new_def)
      next
        case pay: False
        with new q have "debit_key i \<notin> bt_idempotency_key ` set (bk_txns bk)"
          by (auto simp: charge_new_def Let_def i split: if_splits)
        with new q r None False pay show thesis
          by (intro charged) (auto simp: charge_new_def Let_def i split: if_splits)
      qed
    qed
  qed
qed

lemma charged_ok:
  assumes "books_ok bk" "0 < uc_retail_cost k" "is_money (uc_retail_cost k)"
    "uc_usage_record_id k \<notin> uc_usage_record_id ` set (bk_charges bk)"
    "debit_key (uc_usage_record_id k) \<notin> bt_idempotency_key ` set (bk_txns bk)"
  shows "books_ok (bk\<lparr>bk_charges := bk_charges bk @ [k], bk_txns := bk_txns bk @ [debit_row now ti k]\<rparr>)"
proof -
  have "to_money (- uc_retail_cost k) = - uc_retail_cost k"
    using assms(3) by (simp add: to_money_def)
  moreover have "is_money (- uc_retail_cost k)" using assms(3) by (rule is_money_minus)
  ultimately show ?thesis using assms
    by (simp add: books_ok_def owed_def taken_def)
qed

lemma charge_usage_ok:
  assumes "charge_usage bk st now ci ti i = Inr (c, created, bk')" "books_ok bk"
  shows "books_ok bk'"
  using assms(1)
proof (cases rule: charge_usage_cases)
  case (charged r q k)
  note money = quote_basis_money [OF charged(6), THEN conjunct1]
  note i = usage_of_some [OF charged(1), THEN conjunct2]
  have "books_ok ((settle_for bk r)\<lparr>bk_charges := bk_charges (settle_for bk r) @ [k],
      bk_txns := bk_txns (settle_for bk r) @ [debit_row now ti k]\<rparr>)"
    by (rule charged_ok)
      (use assms(2) charged money get_charge_none [OF charged(2)] in \<open>simp_all add: to_money_def i\<close>)
  then show ?thesis using charged(10) by simp
qed (use assms(2) in simp_all)

text \<open>The charge that a call reports is on the books, and later calls find it.\<close>

lemma charged_is_found:
  assumes "charge_usage bk st now ci ti i = Inr (Some k, created, bk')"
  shows "get_charge_for_usage bk' i = Some k"
  using assms
proof (cases rule: charge_usage_cases)
  case (charged r q k')
  moreover have "find (\<lambda>c. uc_usage_record_id c = i) (bk_charges bk) = None"
    using charged(2) by (simp add: get_charge_for_usage_def)
  ultimately show ?thesis using usage_of_some [OF charged(1)]
    by (simp add: get_charge_for_usage_def find_append)
qed (auto simp: get_charge_for_usage_def)

lemma usage_of_settled [simp]: "usage_of (settle_for bk r) i = usage_of bk i"
  by (simp add: usage_of_def)

lemma settle_for_twice [simp]: "settle_for (settle_for bk r) r = settle_for bk r"
proof (cases "mu_trace_event_id r")
  case (Some k)
  have "finish_hold HoldSettled (finish_hold HoldSettled bk k) k = finish_hold HoldSettled bk k"
    by (rule finish_hold_idle) (auto dest: finished_hold_is_over [rotated])
  with Some show ?thesis by (simp add: settle_for_def settle_reservation_def)
qed (simp add: settle_for_def)

lemma settle_for_update [simp]:
  "settle_for (bk\<lparr>bk_charges := cs, bk_txns := ts\<rparr>) r = (settle_for bk r)\<lparr>bk_charges := cs, bk_txns := ts\<rparr>"
  by (simp add: settle_for_def settle_reservation_def finish_hold_def split: option.split)

lemma charge_usage_replay:
  assumes "charge_usage bk st now ci ti i = Inr (Some k, created, bk')"
  shows "charge_usage bk' st' now' ci' ti' i = Inr (Some k, False, bk')"
  using assms
proof (cases rule: charge_usage_cases)
  case (known r k')
  then show ?thesis using charged_is_found [OF assms] by (simp add: charge_usage_def)
next
  case (charged r q k')
  moreover have "usage_of bk' i = Some r" using charged by (simp add: usage_of_def)
  ultimately show ?thesis using charged_is_found [OF assms] by (simp add: charge_usage_def)
qed simp_all

end
