(* ===== verification/Credits.thy ===== *)
theory Credits
  imports Billing
begin

text \<open>
  Credits that are granted rather than bought (src/gnsis/service/beta_credits.py and
  welcome_credits.py).  A grant is an audit row and a ledger transaction written together; its
  reversal is a second, negative transaction.  The log messages of the skipped cases are dropped.
\<close>

section \<open>Operator grants\<close>

definition BetaCreditError :: "string \<Rightarrow> svc_error" where
  "BetaCreditError msg = Refused msg 400"

definition BETA_GRANT :: ustr where "BETA_GRANT = u ''beta_grant''"
definition BETA_GRANT_REVERSAL :: ustr where "BETA_GRANT_REVERSAL = u ''beta_grant_reversal''"

text \<open>\<open>a < b\<close> on decimals; a comparison with NaN raises.\<close>

fun dec_less :: "dec \<Rightarrow> dec \<Rightarrow> bool svc" where
  "dec_less DNaN b = Inl (Raises ''InvalidOperation'')"
| "dec_less a DNaN = Inl (Raises ''InvalidOperation'')"
| "dec_less (DFin p) (DFin q) = Inr (p < q)"
| "dec_less (DFin p) (DInf neg) = Inr (\<not> neg)"
| "dec_less (DInf neg) (DFin q) = Inr neg"
| "dec_less (DInf n) (DInf m) = Inr (n \<and> \<not> m)"

definition positive_amount :: "dec option \<Rightarrow> dec option \<Rightarrow> dec svc" where
  "positive_amount amount max_amount =
     (case amount of
        None \<Rightarrow> Inl (BetaCreditError ''amount is not a valid number'')
      | Some amt \<Rightarrow>
          sbind (dec_less (DFin 0) amt) (\<lambda>positive.
            if \<not> positive then Inl (BetaCreditError ''amount must be greater than 0'')
            else let cap = (case max_amount of Some c \<Rightarrow> c | None \<Rightarrow> DFin 50)
                 in sbind (dec_less cap amt) (\<lambda>above.
                   if above then Inl (BetaCreditError ''amount exceeds the maximum beta grant'')
                   else Inr amt)))"

definition find_grant :: "Books \<Rightarrow> ustr \<Rightarrow> BetaCreditGrant option" where
  "find_grant bk key = find (\<lambda>g. bg_idempotency_key g = key) (bk_grants bk)"

definition grant_key :: "ustr \<Rightarrow> ustr" where
  "grant_key key = BETA_GRANT @ u '':'' @ key"

definition reversal_key :: "ustr \<Rightarrow> ustr" where
  "reversal_key i = BETA_GRANT_REVERSAL @ u '':'' @ i"

definition plain_txn ::
  "int \<Rightarrow> ustr \<Rightarrow> ustr \<Rightarrow> ustr \<Rightarrow> rat \<Rightarrow> ustr \<Rightarrow> ustr \<Rightarrow> BalanceTransaction" where
  "plain_txn now i w ty amount key currency =
     \<lparr>bt_id = i, bt_workspace_id = w, bt_transaction_type = ty, bt_signed_amount = to_money amount,
      bt_usage_charge_id = None, bt_stripe_event_id = None, bt_stripe_payment_reference = None,
      bt_idempotency_key = key, bt_currency = currency, bt_created_at = now\<rparr>"

definition ledger_key_taken :: "Books \<Rightarrow> ustr \<Rightarrow> bool" where
  "ledger_key_taken bk key \<longleftrightarrow> key \<in> bt_idempotency_key ` set (bk_txns bk)"

text \<open>The insertion of the two rows, after the checks of the arguments.\<close>

definition insert_grant ::
  "Books \<Rightarrow> int \<Rightarrow> ustr \<Rightarrow> ustr \<Rightarrow> ustr \<Rightarrow> dec \<Rightarrow> ustr \<Rightarrow> ustr \<Rightarrow> ustr \<Rightarrow> ustr \<Rightarrow>
   (BetaCreditGrant \<times> bool \<times> Books) svc" where
  "insert_grant bk now grant_id txn_id w amt reason operator key currency =
     (case find_grant bk key of
        Some g \<Rightarrow> Inr (g, False, bk)
      | None \<Rightarrow>
          (case amt of
             DFin a \<Rightarrow>
               (if ledger_key_taken bk (grant_key key) then Inl (Raises ''NoResultFound'')
                else
                  let g = \<lparr>bg_id = grant_id, bg_workspace_id = w, bg_amount = to_money a,
                        bg_currency = currency, bg_reason = reason, bg_operator = operator,
                        bg_idempotency_key = key, bg_status = Granted, bg_transaction_id = txn_id,
                        bg_reversal_transaction_id = None, bg_reversed_by = None,
                        bg_reversed_reason = None, bg_created_at = now, bg_reversed_at = None\<rparr>
                  in Inr (g, True, bk\<lparr>bk_grants := bk_grants bk @ [g],
                       bk_txns := bk_txns bk @ [plain_txn now txn_id w BETA_GRANT a (grant_key key) currency]\<rparr>))
           | _ \<Rightarrow> Inl (Raises ''InvalidOperation'')))"

record GrantRequest =
  gq_workspace_id :: ustr
  gq_amount :: "dec option"
  gq_reason :: ustr
  gq_operator :: ustr
  gq_idempotency_key :: ustr
  gq_max_amount :: "dec option"
  gq_currency :: ustr

text \<open>The result is the grant, whether it is new (the code reports the opposite, \<open>duplicate\<close>), and the tables.\<close>

definition grant_credit ::
  "Books \<Rightarrow> int \<Rightarrow> ustr \<Rightarrow> ustr \<Rightarrow> GrantRequest \<Rightarrow> (BetaCreditGrant \<times> bool \<times> Books) svc" where
  "grant_credit bk now grant_id txn_id q =
     (let w = u_strip (gq_workspace_id q); reason = u_strip (gq_reason q);
          operator = u_strip (gq_operator q); key = u_strip (gq_idempotency_key q)
      in if w = [] then Inl (BetaCreditError ''workspace_id is required'')
         else if reason = [] then Inl (BetaCreditError ''reason is required'')
         else if operator = [] then Inl (BetaCreditError ''operator is required'')
         else if key = [] then Inl (BetaCreditError ''idempotency_key is required'')
         else sbind (positive_amount (gq_amount q) (gq_max_amount q)) (\<lambda>amt.
           insert_grant bk now grant_id txn_id w amt reason operator key (gq_currency q)))"

definition reversed :: "int \<Rightarrow> ustr \<Rightarrow> ustr \<Rightarrow> ustr \<Rightarrow> BetaCreditGrant \<Rightarrow> BetaCreditGrant" where
  "reversed now rev_id operator reason g =
     g\<lparr>bg_status := Reversed, bg_reversal_transaction_id := Some rev_id, bg_reversed_by := Some operator,
       bg_reversed_reason := Some reason, bg_reversed_at := Some now\<rparr>"

definition grant_of :: "Books \<Rightarrow> ustr \<Rightarrow> BetaCreditGrant option" where
  "grant_of bk i = find (\<lambda>g. bg_id g = i) (bk_grants bk)"

definition reverse_grant ::
  "Books \<Rightarrow> int \<Rightarrow> ustr \<Rightarrow> ustr \<Rightarrow> ustr \<Rightarrow> ustr \<Rightarrow> (BetaCreditGrant \<times> bool \<times> Books) svc" where
  "reverse_grant bk now rev_id grant_id operator reason =
     (if u_strip operator = [] then Inl (BetaCreditError ''operator is required'')
      else case grant_of bk (u_strip grant_id) of
        None \<Rightarrow> Inl (BetaCreditError ''grant not found'')
      | Some g \<Rightarrow>
          (if bg_status g = Reversed \<or> ledger_key_taken bk (reversal_key (bg_id g)) then Inr (g, False, bk)
           else
             let mark = reversed now rev_id (u_strip operator) (u_strip reason)
             in Inr (mark g, True, bk\<lparr>
                  bk_grants := change_where (\<lambda>x. bg_id x = bg_id g) mark (bk_grants bk),
                  bk_txns := bk_txns bk @ [plain_txn now rev_id (bg_workspace_id g) BETA_GRANT_REVERSAL
                    (- bg_amount g) (reversal_key (bg_id g)) (bg_currency g)]\<rparr>)))"

record WorkspaceSummary =
  ws_balance :: rat
  ws_available :: rat
  ws_grants :: "BetaCreditGrant list"

definition workspace_summary :: "Books \<Rightarrow> ustr \<Rightarrow> nat \<Rightarrow> WorkspaceSummary" where
  "workspace_summary bk w n =
     \<lparr>ws_balance = balance bk w, ws_available = available bk w,
      ws_grants = newest bg_created_at n (filter (\<lambda>g. bg_workspace_id g = w) (bk_grants bk))\<rparr>"

section \<open>Welcome credits\<close>

definition WELCOME_OPERATOR :: ustr where "WELCOME_OPERATOR = u ''welcome''"

definition welcome_key :: "ustr \<Rightarrow> ustr \<Rightarrow> ustr" where
  "welcome_key w campaign = u ''welcome:'' @ w @ u '':'' @ campaign"

definition positive_decimal :: "dec option \<Rightarrow> dec option svc" where
  "positive_decimal d =
     (case d of None \<Rightarrow> Inr None
      | Some v \<Rightarrow> sbind (dec_less (DFin 0) v) (\<lambda>p. Inr (if p then Some v else None)))"

text \<open>\<open>LIKE 'beta_grant:welcome:%'\<close>, in which the underscore stands for any character.\<close>

definition welcome_pattern :: "ustr \<Rightarrow> bool" where
  "welcome_pattern key \<longleftrightarrow> take 4 key = u ''beta'' \<and> 4 < length key \<and>
     take 14 (drop 5 key) = u ''grant:welcome:''"

definition recent_welcome :: "int \<Rightarrow> BalanceTransaction \<Rightarrow> bool" where
  "recent_welcome now t \<longleftrightarrow> bt_transaction_type t = BETA_GRANT \<and> welcome_pattern (bt_idempotency_key t) \<and>
     now - 24 * 3600 * 1000000 \<le> bt_created_at t"

definition daily_welcome_spend :: "Books \<Rightarrow> int \<Rightarrow> rat" where
  "daily_welcome_spend bk now = sum_list (map bt_signed_amount (filter (recent_welcome now) (bk_txns bk)))"

definition dec_plus :: "rat \<Rightarrow> dec \<Rightarrow> dec" where
  "dec_plus p d = (case d of DFin q \<Rightarrow> DFin (p + q) | _ \<Rightarrow> d)"

text \<open>The two checks of \<open>try_grant\<close> after the amount: true when the credit may be given.\<close>

definition per_run_cap_honest :: "Settings \<Rightarrow> bool svc" where
  "per_run_cap_honest st =
     sbind (positive_decimal (welcome_credit_per_run_usd st)) (\<lambda>per_run.
       case per_run of None \<Rightarrow> Inr True
       | Some v \<Rightarrow> sbind (dec_less (DFin (run_max_cost_usd st)) v) (\<lambda>above. Inr (\<not> above)))"

definition under_ceiling :: "Books \<Rightarrow> Settings \<Rightarrow> int \<Rightarrow> dec \<Rightarrow> bool svc" where
  "under_ceiling bk st now amount =
     (let raw = u_strip (platform_daily_provider_limit_usd st)
      in if raw = [] then Inr True
         else sbind (positive_decimal (read_decimal raw)) (\<lambda>ceiling.
           case ceiling of None \<Rightarrow> Inr False
           | Some c \<Rightarrow> sbind (dec_less c (dec_plus (daily_welcome_spend bk now) amount)) (\<lambda>above.
               Inr (\<not> above))))"

definition welcome_request :: "Settings \<Rightarrow> ustr \<Rightarrow> dec \<Rightarrow> GrantRequest" where
  "welcome_request st w amount =
     (let campaign = (if u_strip (welcome_credit_campaign st) \<noteq> [] then u_strip (welcome_credit_campaign st)
        else u ''beta'')
      in \<lparr>gq_workspace_id = w, gq_amount = Some amount,
          gq_reason = u ''welcome credit ('' @ campaign @ u '')'', gq_operator = WELCOME_OPERATOR,
          gq_idempotency_key = welcome_key w campaign, gq_max_amount = beta_credit_max_usd st,
          gq_currency = u ''USD''\<rparr>)"

definition try_grant ::
  "Books \<Rightarrow> Settings \<Rightarrow> int \<Rightarrow> ustr \<Rightarrow> ustr \<Rightarrow> ustr \<Rightarrow> ((BetaCreditGrant \<times> bool) option \<times> Books) svc" where
  "try_grant bk st now grant_id txn_id workspace =
     (let w = u_strip workspace
      in if \<not> welcome_credit_enabled st \<or> w = [] then Inr (None, bk)
         else sbind (positive_decimal (welcome_credit_usd st)) (\<lambda>amount.
           case amount of None \<Rightarrow> Inr (None, bk)
           | Some a \<Rightarrow>
               sbind (per_run_cap_honest st) (\<lambda>honest.
                 if \<not> honest then Inr (None, bk)
                 else sbind (under_ceiling bk st now a) (\<lambda>under.
                   if \<not> under then Inr (None, bk)
                   else case grant_credit bk now grant_id txn_id (welcome_request st w a) of
                     Inr (g, created, bk') \<Rightarrow> Inr (Some (g, created), bk')
                   | Inl (Refused _ _) \<Rightarrow> Inr (None, bk)
                   | Inl (Raises e) \<Rightarrow> Inl (Raises e)))))"

section \<open>Grants and the ledger\<close>

lemma grant_types [simp]:
  "BETA_GRANT \<noteq> USAGE_DEBIT" "BETA_GRANT_REVERSAL \<noteq> USAGE_DEBIT" "BETA_GRANT \<noteq> BETA_GRANT_REVERSAL"
  "TOP_UP \<noteq> BETA_GRANT" "CREDIT \<noteq> BETA_GRANT" "REFUND \<noteq> BETA_GRANT" "ADJUSTMENT \<noteq> BETA_GRANT"
  "USAGE_DEBIT \<noteq> BETA_GRANT" "BETA_GRANT_REVERSAL \<noteq> BETA_GRANT"
  by (simp_all add: BETA_GRANT_def BETA_GRANT_REVERSAL_def USAGE_DEBIT_def TOP_UP_def CREDIT_def
      REFUND_def ADJUSTMENT_def u_def)

lemma plain_txn_facts [simp]:
  "bt_idempotency_key (plain_txn now i w ty a k cur) = k" "bt_workspace_id (plain_txn now i w ty a k cur) = w"
  "bt_signed_amount (plain_txn now i w ty a k cur) = to_money a"
  "bt_transaction_type (plain_txn now i w ty a k cur) = ty"
  "bt_stripe_event_id (plain_txn now i w ty a k cur) = None"
  "bt_id (plain_txn now i w ty a k cur) = i" "bt_created_at (plain_txn now i w ty a k cur) = now"
  by (simp_all add: plain_txn_def)

lemma is_money_to_money [simp]: "is_money (to_money a)"
  by (simp add: to_money_def)

lemma plain_txn_ok:
  assumes "books_ok bk" "ty \<noteq> USAGE_DEBIT" "\<not> ledger_key_taken bk k"
  shows "books_ok (bk\<lparr>bk_grants := gs, bk_txns := bk_txns bk @ [plain_txn now i w ty a k cur]\<rparr>)"
  using assms by (simp add: books_ok_def ledger_key_taken_def is_debit_def)

lemma grant_credit_cases:
  assumes "grant_credit bk now gi ti q = Inr (g, created, bk')"
  obtains (old) "\<not> created" "bk' = bk" "find_grant bk (u_strip (gq_idempotency_key q)) = Some g"
    | (new) a where "created" "find_grant bk (u_strip (gq_idempotency_key q)) = None"
      "\<not> ledger_key_taken bk (grant_key (u_strip (gq_idempotency_key q)))"
      "positive_amount (gq_amount q) (gq_max_amount q) = Inr (DFin a)"
      "bg_amount g = to_money a" "bg_idempotency_key g = u_strip (gq_idempotency_key q)"
      "bg_status g = Granted" "bg_workspace_id g = u_strip (gq_workspace_id q)" "bg_id g = gi"
      "bg_transaction_id g = ti"
      "bk' = bk\<lparr>bk_grants := bk_grants bk @ [g], bk_txns := bk_txns bk @
         [plain_txn now ti (u_strip (gq_workspace_id q)) BETA_GRANT a
           (grant_key (u_strip (gq_idempotency_key q))) (gq_currency q)]\<rparr>"
proof -
  from assms obtain amt where
    amt: "positive_amount (gq_amount q) (gq_max_amount q) = Inr amt"
    and ins: "insert_grant bk now gi ti (u_strip (gq_workspace_id q)) amt (u_strip (gq_reason q))
      (u_strip (gq_operator q)) (u_strip (gq_idempotency_key q)) (gq_currency q) = Inr (g, created, bk')"
    by (auto simp: grant_credit_def Let_def sbind_Inr_iff split: if_splits)
  show thesis
  proof (cases "find_grant bk (u_strip (gq_idempotency_key q))")
    case (Some g')
    with ins show thesis by (intro old) (auto simp: insert_grant_def)
  next
    case None
    with ins obtain a where a: "amt = DFin a" by (auto simp: insert_grant_def split: dec.splits)
    from ins None amt show thesis
      unfolding a by (intro new) (auto simp: insert_grant_def Let_def split: if_splits)
  qed
qed

lemma grant_credit_ok:
  assumes "grant_credit bk now gi ti q = Inr (g, created, bk')" "books_ok bk"
  shows "books_ok bk'"
  using assms(1)
proof (cases rule: grant_credit_cases)
  case (new a)
  with assms(2) show ?thesis by (simp add: plain_txn_ok)
qed (use assms(2) in simp)

lemma grant_credit_replay:
  assumes "grant_credit bk now gi ti q = Inr (g, created, bk')"
  shows "grant_credit bk' now' gi' ti' q = Inr (g, False, bk')"
proof -
  from assms have "find_grant bk' (u_strip (gq_idempotency_key q)) = Some g"
  proof (cases rule: grant_credit_cases)
    case (new a)
    then show ?thesis by (auto simp: find_grant_def find_append)
  qed simp
  moreover from assms obtain amt where "positive_amount (gq_amount q) (gq_max_amount q) = Inr amt"
    by (auto simp: grant_credit_def Let_def sbind_Inr_iff split: if_splits)
  ultimately show ?thesis using assms
    by (auto simp: grant_credit_def Let_def insert_grant_def split: if_splits)
qed

interpretation grants: once_only
  "\<lambda>(now, gi, ti, q) bk. grant_credit bk now gi ti q" "\<lambda>(_, _, _, q) (_, _, _, q'). q = q'"
  by unfold_locales (auto dest: grant_credit_replay)

lemma reverse_grant_cases:
  assumes "reverse_grant bk now ri gi op reason = Inr (g, created, bk')"
  obtains (old) "\<not> created" "bk' = bk" "grant_of bk (u_strip gi) = Some g"
    | (new) g0 where "created" "grant_of bk (u_strip gi) = Some g0" "bg_status g0 \<noteq> Reversed"
      "\<not> ledger_key_taken bk (reversal_key (bg_id g0))"
      "g = reversed now ri (u_strip op) (u_strip reason) g0"
      "bk' = bk\<lparr>bk_grants := change_where (\<lambda>x. bg_id x = bg_id g0)
           (reversed now ri (u_strip op) (u_strip reason)) (bk_grants bk),
         bk_txns := bk_txns bk @ [plain_txn now ri (bg_workspace_id g0) BETA_GRANT_REVERSAL
           (- bg_amount g0) (reversal_key (bg_id g0)) (bg_currency g0)]\<rparr>"
proof -
  from assms obtain g0 where g0: "grant_of bk (u_strip gi) = Some g0"
    by (auto simp: reverse_grant_def split: if_splits option.splits)
  show thesis
  proof (cases "bg_status g0 = Reversed \<or> ledger_key_taken bk (reversal_key (bg_id g0))")
    case True
    with assms g0 show thesis by (intro old) (auto simp: reverse_grant_def split: if_splits)
  next
    case False
    with assms g0 show thesis
      by (intro new [of g0]) (auto simp: reverse_grant_def Let_def split: if_splits)
  qed
qed

lemma reverse_grant_ok:
  assumes "reverse_grant bk now ri gi op reason = Inr (g, created, bk')" "books_ok bk"
  shows "books_ok bk'"
  using assms(1)
proof (cases rule: reverse_grant_cases)
  case (new g0)
  with assms(2) show ?thesis by (simp add: plain_txn_ok)
qed (use assms(2) in simp)

text \<open>Reversal changes no key.\<close>

lemma reversed_key [simp]:
  "bg_idempotency_key (reversed now ri op reason g) = bg_idempotency_key g"
  "bg_workspace_id (reversed now ri op reason g) = bg_workspace_id g"
  "bg_amount (reversed now ri op reason g) = bg_amount g" "bg_id (reversed now ri op reason g) = bg_id g"
  "bg_status (reversed now ri op reason g) = Reversed"
  by (simp_all add: reversed_def)

lemma grant_keys_grow:
  "grant_credit bk now gi ti q = Inr (g, created, bk') \<Longrightarrow>
   prefix (map bg_idempotency_key (bk_grants bk)) (map bg_idempotency_key (bk_grants bk'))"
  "reverse_grant bk now ri gi' op reason = Inr (g, created, bk') \<Longrightarrow>
   prefix (map bg_idempotency_key (bk_grants bk)) (map bg_idempotency_key (bk_grants bk'))"
  by (erule grant_credit_cases, simp_all) (erule reverse_grant_cases, simp_all add: map_change_where)

lemma find_grant_iff: "(\<exists>g. find_grant bk key = Some g) \<longleftrightarrow> key \<in> set (map bg_idempotency_key (bk_grants bk))"
  by (cases "find_grant bk key") (auto simp: find_grant_def find_None_iff dest!: find_Some_mem)

section \<open>Welcome credits\<close>

lemma welcome_key_matches [simp]: "welcome_pattern (grant_key (welcome_key w campaign))"
  by (simp add: welcome_pattern_def grant_key_def welcome_key_def BETA_GRANT_def u_def)

lemma u_strip_welcome: "u_strip w = w \<Longrightarrow> u_strip campaign = campaign \<Longrightarrow> campaign \<noteq> [] \<Longrightarrow>
  u_strip (welcome_key w campaign) = welcome_key w campaign"
proof -
  assume c: "u_strip campaign = campaign" "campaign \<noteq> []"
  then have "campaign = u_rstrip (dropWhile u_space campaign)" by (simp add: u_strip_def)
  moreover have last: "\<not> u_space (last s)" if "s = u_rstrip t" "s \<noteq> []" for s t
    using that unfolding u_rstrip_def
    by (metis last_rev dropWhile_eq_Nil_conv hd_dropWhile rev_is_Nil_conv)
  ultimately have l: "\<not> u_space (last campaign)" using c(2) by blast
  let ?k = "welcome_key w campaign"
  have "dropWhile u_space ?k = ?k" by (simp add: welcome_key_def u_def u_space_def)
  moreover have "u_rstrip ?k = ?k"
  proof -
    have "?k \<noteq> []" "last ?k = last campaign" using c(2) by (simp_all add: welcome_key_def u_def)
    then obtain y ys where "rev ?k = y # ys" "y = last campaign" by (metis hd_rev list.exhaust list.sel(1) rev_is_Nil_conv)
    with l show ?thesis by (simp add: u_rstrip_def)
  qed
  ultimately show ?thesis by (simp add: u_strip_def)
qed

end
