(* ===== verification/Payments.thy ===== *)
theory Payments
  imports Billing PatchValidation
begin

text \<open>
  Where money and usage enter the books: the Stripe webhook (src/gnsis/service/stripe_webhook.py) and
  the usage callback of the model proxy (src/gnsis/service/usage_api.py).  HMAC-SHA256 and
  \<open>json.loads\<close> on the request body are parameters; a body is its code points.
\<close>

section \<open>Environment\<close>

record pay_env =
  pe_lib :: pylib
  hmac_sha256 :: "ustr \<Rightarrow> ustr \<Rightarrow> ustr"
  parse_body :: "ustr \<Rightarrow> ustr jsn option"
  callback_max_bytes :: int
  litellm_callback_secret :: ustr

definition HTTPException :: "nat \<Rightarrow> string \<Rightarrow> svc_error" where
  "HTTPException status msg = Refused msg status"

section \<open>The Stripe signature\<close>

definition signature_items :: "ustr \<Rightarrow> (ustr \<times> ustr) list" where
  "signature_items header =
     map (\<lambda>item. case find_sub (u ''='') item of
            Some (k, v) \<Rightarrow> (u_strip k, u_strip v) | None \<Rightarrow> (u_strip item, []))
       (split_char 44 header)"

definition values_of :: "ustr \<Rightarrow> (ustr \<times> ustr) list \<Rightarrow> ustr list" where
  "values_of k items = map snd (filter (\<lambda>i. fst i = k) items)"

text \<open>\<open>any(hmac.compare_digest(expected, v) ...)\<close>, which raises on text that is not ASCII.\<close>

fun any_digest :: "ustr \<Rightarrow> ustr list \<Rightarrow> bool svc" where
  "any_digest expected [] = Inr False"
| "any_digest expected (v # vs) =
     (if list_ex (\<lambda>c. 128 \<le> c) v then Inl (Raises ''TypeError'')
      else if v = expected then Inr True else any_digest expected vs)"

definition SIGNATURE_TOLERANCE :: int where "SIGNATURE_TOLERANCE = 300"

definition bad_signature :: svc_error where
  "bad_signature = HTTPException 400 ''invalid signature''"

text \<open>\<open>verify_signature\<close>, at the time \<open>now\<close> in microseconds; every rejection becomes the same 400.\<close>

definition verify_signature :: "pay_env \<Rightarrow> int \<Rightarrow> ustr \<Rightarrow> ustr \<Rightarrow> ustr \<Rightarrow> int svc" where
  "verify_signature env now payload header secret =
     (if header = [] then Inl bad_signature
      else
        let items = signature_items header
        in case values_of (u ''t'') items of
          [] \<Rightarrow> Inl bad_signature
        | t # _ \<Rightarrow>
            (if values_of (u ''v1'') items = [] then Inl bad_signature
             else sbind (any_digest (hmac_sha256 env secret (t @ u ''.'' @ payload)) (values_of (u ''v1'') items))
               (\<lambda>ok. if \<not> ok then Inl bad_signature
                  else case py_int_of (pe_lib env) t of
                    None \<Rightarrow> Inl bad_signature
                  | Some ts \<Rightarrow>
                      (if \<bar>now - ts * 1000000\<bar> > SIGNATURE_TOLERANCE * 1000000 then Inl bad_signature
                       else Inr ts))))"

section \<open>The Stripe event\<close>

text \<open>\<open>(value or {})\<close>, on which \<open>get\<close> is called.\<close>

definition dict_or_empty :: "ustr jsn \<Rightarrow> (ustr \<times> ustr jsn) list svc" where
  "dict_or_empty v =
     (case or_else v (JObj []) of JObj kvs \<Rightarrow> Inr kvs | _ \<Rightarrow> Inl (Raises ''AttributeError''))"

definition dollars :: "pylib \<Rightarrow> ustr jsn \<Rightarrow> rat" where
  "dollars lib v = (case py_int lib v of Inl e \<Rightarrow> 0 | Inr i \<Rightarrow> of_int i / 100)"

definition ascii_upper :: "ustr \<Rightarrow> ustr" where
  "ascii_upper = map (\<lambda>c. if 97 \<le> c \<and> c \<le> 122 then c - 32 else c)"

definition currency_of :: "(ustr \<times> ustr jsn) list \<Rightarrow> ustr svc" where
  "currency_of obj =
     (case or_else (get obj ''currency'') (JStr (u ''usd'')) of
        JStr s \<Rightarrow> Inr (ascii_upper s) | _ \<Rightarrow> Inl (Raises ''AttributeError''))"

definition PAYMENT_EVENTS :: "ustr jsn set" where
  "PAYMENT_EVENTS = JStr ` {u ''checkout.session.completed'', u ''payment_intent.succeeded''}"

definition REFUND_EVENTS :: "ustr jsn set" where
  "REFUND_EVENTS = JStr ` {u ''charge.refunded'', u ''refund.created'', u ''charge.dispute.created''}"

datatype WebhookReply = NotHandled string | Handled bool

definition paid :: "(ustr \<times> ustr jsn) list \<Rightarrow> bool" where
  "paid obj \<longleftrightarrow> get obj ''payment_status'' \<in> {JNull, JStr (u ''paid'')} \<and>
     get obj ''status'' \<in> {JNull, JStr (u ''succeeded''), JStr (u ''complete'')}"

definition opt_str :: "pylib \<Rightarrow> ustr jsn \<Rightarrow> ustr option" where
  "opt_str lib v = (if v = JNull then None else Some (str_of lib v))"

definition applied :: "(BalanceTransaction \<times> bool \<times> Books) svc \<Rightarrow> (WebhookReply \<times> Books) svc" where
  "applied m = sbind m (\<lambda>(t, created, bk'). Inr (Handled created, bk'))"

definition payment_event ::
  "pylib \<Rightarrow> Books \<Rightarrow> int \<Rightarrow> ustr \<Rightarrow> ustr jsn \<Rightarrow> ustr jsn \<Rightarrow> ustr \<Rightarrow> (ustr \<times> ustr jsn) list \<Rightarrow>
   (WebhookReply \<times> Books) svc" where
  "payment_event lib bk now i event_id workspace_id currency obj =
     (let amount = (if get obj ''amount_received'' \<noteq> JNull then get obj ''amount_received''
        else get obj ''amount_total'')
      in if \<not> truthy workspace_id \<or> \<not> paid obj \<or> \<not> truthy amount
         then Inr (NotHandled ''not a completed, attributable payment'', bk)
         else applied (top_up bk now i (str_of lib workspace_id) (dollars lib amount)
           (u ''stripe:'' @ str_of lib event_id) (Some (str_of lib event_id))
           (opt_str lib (get obj ''id'')) currency))"

definition refund_event ::
  "pylib \<Rightarrow> Books \<Rightarrow> int \<Rightarrow> ustr \<Rightarrow> ustr jsn \<Rightarrow> ustr jsn \<Rightarrow> ustr \<Rightarrow> (ustr \<times> ustr jsn) list \<Rightarrow>
   (WebhookReply \<times> Books) svc" where
  "refund_event lib bk now i event_id workspace_id currency obj =
     (let refunded = or_else (get obj ''amount_refunded'') (get obj ''amount'')
      in if \<not> truthy workspace_id \<or> \<not> truthy refunded
         then Inr (NotHandled ''refund not attributable'', bk)
         else applied (refund bk now i (str_of lib workspace_id) (dollars lib refunded)
           (u ''stripe:'' @ str_of lib event_id) (Some (str_of lib event_id))
           (opt_str lib (get obj ''id'')) currency))"

definition handle_event :: "pylib \<Rightarrow> Books \<Rightarrow> int \<Rightarrow> ustr \<Rightarrow> ustr jsn \<Rightarrow> (WebhookReply \<times> Books) svc" where
  "handle_event lib bk now i raw =
     (case raw of
        JObj event \<Rightarrow>
          (let event_id = get event ''id''
           in if \<not> truthy event_id then Inl (HTTPException 400 ''event id required'')
              else
                sbind (dict_or_empty (get event ''data'')) (\<lambda>data.
                sbind (dict_or_empty (get data ''object'')) (\<lambda>obj.
                sbind (dict_or_empty (get obj ''metadata'')) (\<lambda>md.
                sbind (currency_of obj) (\<lambda>currency.
                  let workspace_id = or_else (get md ''workspace_id'') (get md ''gnsis_workspace_id'')
                  in if get event ''type'' \<in> PAYMENT_EVENTS
                     then payment_event lib bk now i event_id workspace_id currency obj
                     else if get event ''type'' \<in> REFUND_EVENTS
                     then refund_event lib bk now i event_id workspace_id currency obj
                     else Inr (NotHandled ''ignored event type'', bk))))))
      | _ \<Rightarrow> Inl (Raises ''AttributeError''))"

definition stripe_webhook ::
  "pay_env \<Rightarrow> Settings \<Rightarrow> Books \<Rightarrow> int \<Rightarrow> ustr \<Rightarrow> ustr \<Rightarrow> ustr \<Rightarrow> (WebhookReply \<times> Books) svc" where
  "stripe_webhook env st bk now i payload header =
     (if stripe_webhook_secret st = [] then Inl (HTTPException 503 ''stripe webhooks are not configured'')
      else if callback_max_bytes env < int (length payload) then Inl (HTTPException 413 ''payload too large'')
      else sbind (verify_signature env now payload header (stripe_webhook_secret st)) (\<lambda>ts.
        case parse_body env payload of
          None \<Rightarrow> Inl (HTTPException 400 ''invalid JSON body'')
        | Some event \<Rightarrow> handle_event (pe_lib env) bk now i event))"

section \<open>The usage callback\<close>

definition authenticate_callback :: "pay_env \<Rightarrow> ustr option \<Rightarrow> unit svc" where
  "authenticate_callback env authorization =
     (if litellm_callback_secret env = [] then Inl (HTTPException 503 ''usage callback is not configured'')
      else if \<not> present authorization then Inl (HTTPException 401 ''missing Authorization'')
      else
        let given = (case authorization of None \<Rightarrow> []
              | Some a \<Rightarrow> (case find_sub (u '' '') a of
                  Some (scheme, rest) \<Rightarrow> if ascii_lower scheme = u ''bearer'' then u_strip rest else []
                | None \<Rightarrow> []))
        in if given = [] then Inl (HTTPException 401 ''invalid callback credential'')
           else if list_ex (\<lambda>c. 128 \<le> c) given \<or> list_ex (\<lambda>c. 128 \<le> c) (litellm_callback_secret env)
           then Inl (Raises ''TypeError'')
           else if given \<noteq> litellm_callback_secret env
           then Inl (HTTPException 401 ''invalid callback credential'')
           else Inr ())"

record CallbackAnswer =
  ca_duplicate :: bool
  ca_usage_id :: ustr
  ca_charged :: bool

text \<open>Pricing never fails the callback.\<close>

definition price_if_new :: "bool \<Rightarrow> Books \<Rightarrow> ustr \<Rightarrow> Books" where
  "price_if_new created bk i =
     (if created then (case price_usage_record bk i of Inl e \<Rightarrow> bk | Inr bk' \<Rightarrow> bk') else bk)"

text \<open>
  Record, price and charge, each in its own transaction: an error of the charge leaves the record.
  The fresh ids are those of the record, the charge and its debit.
\<close>

definition record_and_charge ::
  "Settings \<Rightarrow> Books \<Rightarrow> int \<Rightarrow> ustr \<times> ustr \<times> ustr \<Rightarrow> MeasuredUsage \<Rightarrow> CallbackAnswer svc \<times> Books" where
  "record_and_charge st bk now ids m =
     (case ids of (ui, ci, ti) \<Rightarrow>
        (case record_usage bk now ui m of
           Inl e \<Rightarrow> (Inl e, bk)
         | Inr (r, created, bk1) \<Rightarrow>
             (let bk2 = price_if_new created bk1 (ur_id r)
              in if \<not> billing_enabled st
                 then (Inr \<lparr>ca_duplicate = \<not> created, ca_usage_id = ur_id r, ca_charged = False\<rparr>, bk2)
                 else case charge_usage bk2 st now ci ti (ur_id r) of
                   Inl e \<Rightarrow> (Inl e, bk2)
                 | Inr (c, charged, bk3) \<Rightarrow>
                     (Inr \<lparr>ca_duplicate = \<not> created, ca_usage_id = ur_id r, ca_charged = charged\<rparr>, bk3))))"

definition litellm_usage_callback ::
  "pay_env \<Rightarrow> Settings \<Rightarrow> Books \<Rightarrow> int \<Rightarrow> ustr \<times> ustr \<times> ustr \<Rightarrow> ustr \<Rightarrow> ustr option \<Rightarrow>
   CallbackAnswer svc \<times> Books" where
  "litellm_usage_callback env st bk now ids raw authorization =
     (case authenticate_callback env authorization of
        Inl e \<Rightarrow> (Inl e, bk)
      | Inr _ \<Rightarrow>
          (if callback_max_bytes env < int (length raw)
           then (Inl (HTTPException 413 ''callback body too large''), bk)
           else case (if raw = [] then Some (JObj []) else parse_body env raw) of
             None \<Rightarrow> (Inl (HTTPException 400 ''invalid JSON body''), bk)
           | Some body \<Rightarrow>
               (case parse_callback (pe_lib env) body of
                  Inl e \<Rightarrow> (Inl e, bk)
                | Inr m \<Rightarrow> record_and_charge st bk now ids m)))"

section \<open>Applied events\<close>

text \<open>An event that was applied is one ledger write, determined by the event alone.\<close>

lemma applied_Inr_iff: "applied m = Inr (Handled c, bk') \<longleftrightarrow> (\<exists>t. m = Inr (t, c, bk'))"
  by (auto simp: applied_def sbind_Inr_iff)

lemma applied_event:
  assumes "handle_event lib bk now j ev = Inr (Handled c, bk')"
  obtains q where "\<exists>t. add_transaction bk now j q = Inr (t, c, bk')"
    "\<And>bk2 now2 j2. handle_event lib bk2 now2 j2 ev = applied (add_transaction bk2 now2 j2 q)"
proof -
  from assms obtain event where ev: "ev = JObj event" by (auto simp: handle_event_def split: jsn.splits)
  from assms obtain data obj md currency where
    d: "truthy (get event ''id'')" "dict_or_empty (get event ''data'') = Inr data"
      "dict_or_empty (get data ''object'') = Inr obj" "dict_or_empty (get obj ''metadata'') = Inr md"
      "currency_of obj = Inr currency"
    by (auto simp: handle_event_def ev Let_def sbind_Inr_iff split: if_splits)
  let ?w = "or_else (get md ''workspace_id'') (get md ''gnsis_workspace_id'')"
  show thesis
  proof (cases "get event ''type'' \<in> PAYMENT_EVENTS")
    case True
    have run: "handle_event lib bk2 now2 j2 ev =
        payment_event lib bk2 now2 j2 (get event ''id'') ?w currency obj" for bk2 now2 j2
      using d True by (simp add: handle_event_def ev)
    let ?a = "if get obj ''amount_received'' \<noteq> JNull then get obj ''amount_received'' else get obj ''amount_total''"
    have go: "truthy ?w" "paid obj" "truthy ?a" "\<not> dollars lib ?a \<le> 0"
      using assms unfolding run by (auto simp: payment_event_def top_up_def applied_def Let_def split: if_splits)
    have all: "handle_event lib bk2 now2 j2 ev = applied (add_transaction bk2 now2 j2
        \<lparr>tq_workspace_id = str_of lib ?w, tq_transaction_type = TOP_UP, tq_signed_amount = dollars lib ?a,
         tq_idempotency_key = u ''stripe:'' @ str_of lib (get event ''id''),
         tq_stripe_event_id = Some (str_of lib (get event ''id'')),
         tq_stripe_payment_reference = opt_str lib (get obj ''id''), tq_usage_charge_id = None,
         tq_currency = currency\<rparr>)" for bk2 now2 j2
      unfolding run payment_event_def top_up_def Let_def using go by simp
    show thesis by (rule that [OF assms [unfolded all applied_Inr_iff] all])
  next
    case False
    with assms d have ref: "get event ''type'' \<in> REFUND_EVENTS"
      by (auto simp: handle_event_def ev split: if_splits)
    have run: "handle_event lib bk2 now2 j2 ev =
        refund_event lib bk2 now2 j2 (get event ''id'') ?w currency obj" for bk2 now2 j2
      using d False ref by (simp add: handle_event_def ev)
    let ?a = "or_else (get obj ''amount_refunded'') (get obj ''amount'')"
    have go: "truthy ?w" "truthy ?a"
      using assms unfolding run by (auto simp: refund_event_def Let_def split: if_splits)
    have all: "handle_event lib bk2 now2 j2 ev = applied (add_transaction bk2 now2 j2
        \<lparr>tq_workspace_id = str_of lib ?w, tq_transaction_type = REFUND, tq_signed_amount = - \<bar>dollars lib ?a\<bar>,
         tq_idempotency_key = u ''stripe:'' @ str_of lib (get event ''id''),
         tq_stripe_event_id = Some (str_of lib (get event ''id'')),
         tq_stripe_payment_reference = opt_str lib (get obj ''id''), tq_usage_charge_id = None,
         tq_currency = currency\<rparr>)" for bk2 now2 j2
      unfolding run refund_event_def refund_def Let_def using go by simp
    show thesis by (rule that [OF assms [unfolded all applied_Inr_iff] all])
  qed
qed

text \<open>The event for a refund, of which Stripe gives the total so far; it is debited in full.\<close>

definition refund_notice :: "ustr \<Rightarrow> ustr \<Rightarrow> int \<Rightarrow> ustr jsn" where
  "refund_notice i w cents =
     JObj [(u ''id'', JStr i), (u ''type'', JStr (u ''charge.refunded'')),
       (u ''data'', JObj [(u ''object'', JObj [(u ''amount_refunded'', JInt cents),
          (u ''metadata'', JObj [(u ''workspace_id'', JStr w)])])])]"

lemma cents_are_money: "is_money (of_int n / 100)"
proof -
  have "of_int n / 100 * 10 ^ 8 = (of_int (n * 10 ^ 6) :: rat)" by simp
  then show ?thesis unfolding is_money_def by (simp only: floor_of_int)
qed

definition refund_request :: "ustr \<Rightarrow> ustr \<Rightarrow> int \<Rightarrow> TxnRequest" where
  "refund_request i w cents =
     \<lparr>tq_workspace_id = w, tq_transaction_type = REFUND, tq_signed_amount = - (of_int cents / 100),
      tq_idempotency_key = u ''stripe:'' @ i, tq_stripe_event_id = Some i,
      tq_stripe_payment_reference = None, tq_usage_charge_id = None, tq_currency = ascii_upper (u ''usd'')\<rparr>"

lemma refund_notice_run:
  assumes "i \<noteq> []" "w \<noteq> []" "0 < cents"
  shows "handle_event lib bk now j (refund_notice i w cents) =
    applied (add_transaction bk now j (refund_request i w cents))"
proof -
  have event: "get [(u ''id'', i), (u ''type'', ty), (u ''data'', d)] ''id'' = i"
    "get [(u ''id'', i), (u ''type'', ty), (u ''data'', d)] ''type'' = ty"
    "get [(u ''id'', i), (u ''type'', ty), (u ''data'', d)] ''data'' = d" for i ty d
    by (simp_all add: get_def u_def)
  have obj: "get [(u ''amount_refunded'', a), (u ''metadata'', m)] ''amount_refunded'' = a"
    "get [(u ''amount_refunded'', a), (u ''metadata'', m)] ''metadata'' = m"
    "get [(u ''amount_refunded'', a), (u ''metadata'', m)] ''currency'' = JNull"
    "get [(u ''amount_refunded'', a), (u ''metadata'', m)] ''id'' = JNull" for a m
    by (simp_all add: get_def u_def)
  have inner: "get [(u ''object'', a)] ''object'' = a" "get [(u ''workspace_id'', a)] ''workspace_id'' = a" for a
    by (simp_all add: get_def)
  have ty: "JStr (u ''charge.refunded'') \<notin> PAYMENT_EVENTS" "JStr (u ''charge.refunded'') \<in> REFUND_EVENTS"
    by (simp_all add: PAYMENT_EVENTS_def REFUND_EVENTS_def u_def)
  have d: "dict_or_empty (JObj (p # ps)) = Inr (p # ps)" for p ps
    by (simp add: dict_or_empty_def or_else_def)
  have cur: "currency_of [(u ''amount_refunded'', a), (u ''metadata'', m)] = Inr (ascii_upper (u ''usd''))" for a m
    unfolding currency_of_def obj by (simp add: or_else_def)
  have w: "or_else (JStr w) x = JStr w" for x using assms(2) by (simp add: or_else_def)
  define o1 where "o1 = [(u ''amount_refunded'', JInt cents), (u ''metadata'', JObj [(u ''workspace_id'', JStr w)])]"
  have truth: "truthy (JStr i)" "truthy (JStr w)" "truthy (JInt cents)" using assms by simp_all
  have amount: "or_else (get o1 ''amount_refunded'') x = JInt cents" for x
    unfolding o1_def obj or_else_def using truth(3) by simp
  have "handle_event lib bk now j (refund_notice i w cents) =
      refund_event lib bk now j (JStr i) (JStr w) (ascii_upper (u ''usd'')) o1"
    unfolding refund_notice_def handle_event_def Let_def jsn.case event d sbind_simps obj inner cur w
    by (simp only: truth ty if_False if_True not_True_eq_False o1_def)
  also have "\<dots> = applied (add_transaction bk now j (refund_request i w cents))"
    unfolding refund_event_def Let_def amount refund_def refund_request_def
    using truth assms(3) by (simp add: dollars_def py_int_def str_of_def opt_str_def o1_def obj [simplified])
  finally show ?thesis .
qed

lemma refund_notice_applied:
  assumes "handle_event lib bk now j (refund_notice i w cents) = Inr (Handled True, bk')"
    "i \<noteq> []" "w \<noteq> []" "0 < cents"
  shows "balance bk' w = balance bk w - of_int cents / 100"
proof -
  from assms(1) [unfolded refund_notice_run [OF assms(2-4)] applied_Inr_iff] obtain t where
    "add_transaction bk now j (refund_request i w cents) = Inr (t, True, bk')" by blast
  then show ?thesis
  proof (cases rule: add_transaction_cases)
    case new
    have "to_money (- (of_int cents / 100)) = - (of_int cents / 100)"
      using cents_are_money [of cents] by (simp add: to_money_def)
    with new(2,3) show ?thesis by (simp add: balance_def txn_row_def refund_request_def)
  qed simp
qed

end
