(* ===== verification/SpendLimits.thy ===== *)
theory SpendLimits
  imports Billing
begin

text \<open>
  Spending limits (src/gnsis/service/limits.py): the policies, their windows, and the evaluation that
  admits or blocks a request and places one hold per scope and window.  The evaluation runs under the
  workspace lock and is one step.  The texts of the warnings are their scope, type and kind; the
  column \<open>reset_period\<close>, which nothing reads, is left out.
\<close>

definition LimitError :: "string \<Rightarrow> nat \<Rightarrow> svc_error" where
  "LimitError msg status = Refused msg status"

section \<open>Windows\<close>

definition DAY :: int where "DAY = 86400 * 1000000"

text \<open>The proleptic Gregorian date of a day number (0 is 1970-01-01): year, month and day of month.\<close>

definition civil_date :: "int \<Rightarrow> int \<times> int \<times> int" where
  "civil_date day =
     (let z = day + 719468; era = z div 146097; doe = z mod 146097;
          yoe = (doe - doe div 1460 + doe div 36524 - doe div 146096) div 365;
          doy = doe - (365 * yoe + yoe div 4 - yoe div 100);
          mp = (5 * doy + 2) div 153;
          m = (if mp < 10 then mp + 3 else mp - 9)
      in (yoe + era * 400 + (if m \<le> 2 then 1 else 0), m, doy - (153 * mp + 2) div 5 + 1))"

definition window :: "LimitType \<Rightarrow> int \<Rightarrow> ustr \<Rightarrow> int option \<times> WindowKey" where
  "window lt now run_id =
     (case lt of
        PerRun \<Rightarrow> (None, RunWindow run_id)
      | Daily \<Rightarrow> (Some (now div DAY * DAY), DayWindow (now div DAY))
      | Monthly \<Rightarrow>
          (case civil_date (now div DAY) of (y, m, d) \<Rightarrow>
             (Some ((now div DAY - (d - 1)) * DAY), MonthWindow y m))
      | TotalLimit \<Rightarrow> (None, TotalWindow))"

section \<open>Policies\<close>

definition SCOPE_TYPES :: "(ustr \<times> ScopeType) list" where
  "SCOPE_TYPES = [(u ''workspace'', WorkspaceScope), (u ''project'', ProjectScope),
     (u ''environment'', EnvironmentScope), (u ''user'', UserScope), (u ''team'', TeamScope),
     (u ''virtual_key'', KeyScope)]"

definition LIMIT_TYPES :: "(ustr \<times> LimitType) list" where
  "LIMIT_TYPES = [(u ''per_run'', PerRun), (u ''daily'', Daily), (u ''monthly'', Monthly), (u ''total'', TotalLimit)]"

definition MODES :: "(ustr \<times> EnforcementMode) list" where
  "MODES = [(u ''observe_only'', ObserveOnly), (u ''warn'', WarnMode), (u ''block'', BlockMode)]"

definition one_of_names :: "(ustr \<times> 'a) list \<Rightarrow> string \<Rightarrow> ustr \<Rightarrow> 'a svc" where
  "one_of_names names msg s = (case map_of names s of None \<Rightarrow> Inl (LimitError msg 400) | Some v \<Rightarrow> Inr v)"

text \<open>\<open>_dec\<close>\<close>

definition limit_amount :: "dec option \<Rightarrow> rat svc" where
  "limit_amount d =
     (case d of
        None \<Rightarrow> Inl (LimitError ''not a valid amount'' 400)
      | Some (DFin q) \<Rightarrow> if q < 0 then Inl (LimitError ''must be a non-negative amount'' 400) else Inr q
      | Some _ \<Rightarrow> Inl (LimitError ''must be a non-negative amount'' 400))"

definition threshold_of :: "dec option option \<Rightarrow> rat option svc" where
  "threshold_of d =
     (case d of None \<Rightarrow> Inr None
      | Some v \<Rightarrow> sbind (limit_amount v) (\<lambda>q.
          if 1 < q then Inl (LimitError ''warning_threshold is a fraction between 0 and 1'' 400)
          else Inr (Some q)))"

record PolicyRequest =
  pq_workspace_id :: ustr
  pq_scope_type :: ustr
  pq_scope_id :: ustr
  pq_limit_type :: ustr
  pq_amount :: "dec option"
  pq_enforcement_mode :: ustr
  pq_warning_threshold :: "dec option option"
  pq_currency :: ustr
  pq_effective_at :: "int option"
  pq_expires_at :: "int option"

definition create_policy :: "Books \<Rightarrow> ustr \<Rightarrow> PolicyRequest \<Rightarrow> (LimitPolicy \<times> Books) svc" where
  "create_policy bk i q =
     sbind (one_of_names SCOPE_TYPES ''scope_type'' (pq_scope_type q)) (\<lambda>scope.
     sbind (one_of_names LIMIT_TYPES ''limit_type'' (pq_limit_type q)) (\<lambda>lt.
     sbind (one_of_names MODES ''enforcement_mode'' (pq_enforcement_mode q)) (\<lambda>mode.
     sbind (limit_amount (pq_amount q)) (\<lambda>amt.
     sbind (threshold_of (pq_warning_threshold q)) (\<lambda>thr.
       let p = \<lparr>lp_id = i, lp_workspace_id = pq_workspace_id q, lp_enabled = True,
             lp_scope_type = scope, lp_scope_id = pq_scope_id q, lp_limit_type = lt,
             lp_amount = to_money amt, lp_currency = pq_currency q, lp_warning_threshold = thr,
             lp_enforcement_mode = mode, lp_effective_at = pq_effective_at q,
             lp_expires_at = pq_expires_at q\<rparr>
       in Inr (p, bk\<lparr>bk_policies := bk_policies bk @ [p]\<rparr>))))))"

text \<open>The keyword arguments of \<open>update\<close> that are allowed and not \<open>None\<close>, in their order.\<close>

datatype PolicyChange =
    SetEnabled bool
  | SetAmount "dec option"
  | SetThreshold "dec option"
  | SetMode ustr
  | SetExpires int
  | SetEffective int

fun change_policy :: "PolicyChange \<Rightarrow> LimitPolicy \<Rightarrow> LimitPolicy svc" where
  "change_policy (SetEnabled b) p = Inr (p\<lparr>lp_enabled := b\<rparr>)"
| "change_policy (SetAmount d) p = sbind (limit_amount d) (\<lambda>q. Inr (p\<lparr>lp_amount := to_money q\<rparr>))"
| "change_policy (SetThreshold d) p = sbind (limit_amount d) (\<lambda>q. Inr (p\<lparr>lp_warning_threshold := Some q\<rparr>))"
| "change_policy (SetMode m) p =
     sbind (one_of_names MODES ''enforcement_mode'' m) (\<lambda>mode. Inr (p\<lparr>lp_enforcement_mode := mode\<rparr>))"
| "change_policy (SetExpires t) p = Inr (p\<lparr>lp_expires_at := Some t\<rparr>)"
| "change_policy (SetEffective t) p = Inr (p\<lparr>lp_effective_at := Some t\<rparr>)"

fun change_all :: "PolicyChange list \<Rightarrow> LimitPolicy \<Rightarrow> LimitPolicy svc" where
  "change_all [] p = Inr p"
| "change_all (c # cs) p = sbind (change_policy c p) (change_all cs)"

definition update_policy ::
  "Books \<Rightarrow> ustr \<Rightarrow> ustr \<Rightarrow> PolicyChange list \<Rightarrow> (LimitPolicy \<times> Books) svc" where
  "update_policy bk w i changes =
     (case find (\<lambda>p. lp_id p = i) (bk_policies bk) of
        None \<Rightarrow> Inl (LimitError ''limit policy not found'' 404)
      | Some p \<Rightarrow>
          (if lp_workspace_id p \<noteq> w then Inl (LimitError ''limit policy not found'' 404)
           else sbind (change_all changes p) (\<lambda>p'.
             Inr (p', bk\<lparr>bk_policies := change_where (\<lambda>x. lp_id x = i) (\<lambda>_. p') (bk_policies bk)\<rparr>))))"

definition disable_policy :: "Books \<Rightarrow> ustr \<Rightarrow> ustr \<Rightarrow> (LimitPolicy \<times> Books) svc" where
  "disable_policy bk w i = update_policy bk w i [SetEnabled False]"

section \<open>What applies to a request\<close>

record Applicable =
  ap_policy_id :: "ustr option"
  ap_policy_ref :: "ustr option"
  ap_scope_type :: ScopeType
  ap_scope_id :: ustr
  ap_limit_type :: LimitType
  ap_amount :: rat
  ap_warning_threshold :: "rat option"
  ap_enforcement_mode :: EnforcementMode

record KeyLimits =
  kl_soft_limit :: "rat option"
  kl_hard_limit :: "rat option"
  kl_per_run_limit :: "rat option"
  kl_daily_limit :: "rat option"
  kl_monthly_limit :: "rat option"

record LimitContext =
  lc_workspace_id :: ustr
  lc_run_id :: ustr
  lc_project_id :: "ustr option"
  lc_environment_id :: "ustr option"
  lc_user_id :: "ustr option"
  lc_team_id :: "ustr option"
  lc_virtual_key_id :: "ustr option"
  lc_key_limits :: KeyLimits

definition scope_value :: "LimitContext \<Rightarrow> ScopeType \<Rightarrow> ustr option" where
  "scope_value ctx ty =
     (case ty of WorkspaceScope \<Rightarrow> Some (lc_workspace_id ctx) | ProjectScope \<Rightarrow> lc_project_id ctx
      | EnvironmentScope \<Rightarrow> lc_environment_id ctx | UserScope \<Rightarrow> lc_user_id ctx
      | TeamScope \<Rightarrow> lc_team_id ctx | KeyScope \<Rightarrow> lc_virtual_key_id ctx)"

definition policy_applies :: "LimitContext \<Rightarrow> int \<Rightarrow> LimitPolicy \<Rightarrow> bool" where
  "policy_applies ctx now p \<longleftrightarrow>
     lp_workspace_id p = lc_workspace_id ctx \<and> lp_enabled p \<and>
     present (scope_value ctx (lp_scope_type p)) \<and>
     scope_value ctx (lp_scope_type p) = Some (lp_scope_id p) \<and>
     (case lp_effective_at p of None \<Rightarrow> True | Some t \<Rightarrow> t \<le> now) \<and>
     (case lp_expires_at p of None \<Rightarrow> True | Some t \<Rightarrow> now < t)"

definition of_policy :: "LimitPolicy \<Rightarrow> Applicable" where
  "of_policy p =
     \<lparr>ap_policy_id = Some (lp_id p), ap_policy_ref = None, ap_scope_type = lp_scope_type p,
      ap_scope_id = lp_scope_id p, ap_limit_type = lp_limit_type p, ap_amount = lp_amount p,
      ap_warning_threshold = lp_warning_threshold p, ap_enforcement_mode = lp_enforcement_mode p\<rparr>"

definition of_key :: "ustr \<Rightarrow> string \<times> LimitType \<times> EnforcementMode \<times> rat option \<Rightarrow> Applicable list" where
  "of_key key f =
     (case f of (name, lt, mode, v) \<Rightarrow>
        (case v of None \<Rightarrow> []
         | Some amount \<Rightarrow> [\<lparr>ap_policy_id = None, ap_policy_ref = Some (u ''key:'' @ u name),
             ap_scope_type = KeyScope, ap_scope_id = key, ap_limit_type = lt, ap_amount = amount,
             ap_warning_threshold = None, ap_enforcement_mode = mode\<rparr>]))"

definition key_policies :: "LimitContext \<Rightarrow> Applicable list" where
  "key_policies ctx =
     (case lc_virtual_key_id ctx of
        None \<Rightarrow> []
      | Some key \<Rightarrow>
          (if key = [] then []
           else concat (map (of_key key)
             [(''hard_limit'', TotalLimit, BlockMode, kl_hard_limit (lc_key_limits ctx)),
              (''soft_limit'', TotalLimit, WarnMode, kl_soft_limit (lc_key_limits ctx)),
              (''per_run_limit'', PerRun, BlockMode, kl_per_run_limit (lc_key_limits ctx)),
              (''daily_limit'', Daily, BlockMode, kl_daily_limit (lc_key_limits ctx)),
              (''monthly_limit'', Monthly, BlockMode, kl_monthly_limit (lc_key_limits ctx))])))"

definition applicable :: "Books \<Rightarrow> LimitContext \<Rightarrow> int \<Rightarrow> Applicable list" where
  "applicable bk ctx now = map of_policy (filter (policy_applies ctx now) (bk_policies bk)) @ key_policies ctx"

section \<open>Spend\<close>

definition scope_column :: "ScopeType \<Rightarrow> UsageRecord \<Rightarrow> ustr option" where
  "scope_column ty r =
     (case ty of WorkspaceScope \<Rightarrow> Some (mu_workspace_id r) | ProjectScope \<Rightarrow> mu_project_id r
      | EnvironmentScope \<Rightarrow> mu_environment r | UserScope \<Rightarrow> Some (mu_user_id r)
      | TeamScope \<Rightarrow> mu_team_id r | KeyScope \<Rightarrow> mu_virtual_key_id r)"

definition counts_for ::
  "ScopeType \<Rightarrow> ustr \<Rightarrow> LimitType \<Rightarrow> int option \<Rightarrow> ustr \<Rightarrow> UsageCharge \<Rightarrow> UsageRecord \<Rightarrow> bool" where
  "counts_for ty i lt start run_id c r \<longleftrightarrow>
     ur_id r = uc_usage_record_id c \<and> scope_column ty r = Some i \<and>
     (if lt = PerRun then mu_run_id r = Some run_id
      else case start of None \<Rightarrow> True | Some t \<Rightarrow> t \<le> uc_created_at c)"

text \<open>The join of a charge with its usage record, which is unique.\<close>

definition committed_spend ::
  "Books \<Rightarrow> ScopeType \<Rightarrow> ustr \<Rightarrow> LimitType \<Rightarrow> int option \<Rightarrow> ustr \<Rightarrow> rat" where
  "committed_spend bk ty i lt start run_id =
     sum_list (map uc_retail_cost (filter (\<lambda>c. list_ex (counts_for ty i lt start run_id c) (bk_usage bk)) (bk_charges bk)))"

definition held_for :: "ScopeType \<times> ustr \<times> WindowKey \<Rightarrow> LimitReservation \<Rightarrow> bool" where
  "held_for k h \<longleftrightarrow> (lr_scope_type h, lr_scope_id h, lr_window_key h) = k \<and> lr_status h = HoldActive"

definition limit_holds :: "Books \<Rightarrow> ScopeType \<times> ustr \<times> WindowKey \<Rightarrow> rat" where
  "limit_holds bk k = sum_list (map lr_amount (filter (held_for k) (bk_limit_holds bk)))"

section \<open>Evaluation\<close>

text \<open>Key and committed spend of one applicable policy, and the spend it projects for a request.\<close>

definition hold_key :: "int \<Rightarrow> ustr \<Rightarrow> Applicable \<Rightarrow> ScopeType \<times> ustr \<times> WindowKey" where
  "hold_key now run_id a = (ap_scope_type a, ap_scope_id a, snd (window (ap_limit_type a) now run_id))"

definition spent_before :: "Books \<Rightarrow> int \<Rightarrow> ustr \<Rightarrow> Applicable \<Rightarrow> rat" where
  "spent_before bk now run_id a =
     committed_spend bk (ap_scope_type a) (ap_scope_id a) (ap_limit_type a)
       (fst (window (ap_limit_type a) now run_id)) run_id"

definition projected :: "Books \<Rightarrow> int \<Rightarrow> ustr \<Rightarrow> rat \<Rightarrow> Applicable \<Rightarrow> rat" where
  "projected bk now run_id estimate a =
     spent_before bk now run_id a + limit_holds bk (hold_key now run_id a) + estimate"

definition near_limit :: "Applicable \<Rightarrow> rat \<Rightarrow> bool" where
  "near_limit a spend \<longleftrightarrow> (case ap_warning_threshold a of None \<Rightarrow> False | Some t \<Rightarrow> ap_amount a * t \<le> spend)"

definition limit_verdict :: "Applicable \<Rightarrow> rat \<Rightarrow> LimitResult" where
  "limit_verdict a spend =
     (let exceeded = ap_amount a < spend in
      if exceeded \<and> ap_enforcement_mode a = BlockMode then LimitBlock
      else if exceeded \<and> ap_enforcement_mode a = WarnMode then LimitWarn
      else if exceeded then LimitObserve
      else if near_limit a spend \<and> ap_enforcement_mode a \<in> {WarnMode, BlockMode} then LimitWarn
      else LimitOk)"

record Evaluation =
  ev_overall :: LimitResult
  ev_blocked_by :: "(ScopeType \<times> ustr option) option"
  ev_warnings :: "(ScopeType \<times> LimitType \<times> bool) list"
  ev_to_hold :: "(ScopeType \<times> ustr \<times> WindowKey) list"
  ev_decisions :: "(Applicable \<times> rat \<times> LimitResult) list"

definition first_evaluation :: Evaluation where
  "first_evaluation = \<lparr>ev_overall = LimitOk, ev_blocked_by = None, ev_warnings = [], ev_to_hold = [],
     ev_decisions = []\<rparr>"

definition policy_name :: "Applicable \<Rightarrow> ustr option" where
  "policy_name a = (if present (ap_policy_id a) then ap_policy_id a else ap_policy_ref a)"

text \<open>One round of the loop over the applicable policies.\<close>

definition evaluate_one :: "Books \<Rightarrow> int \<Rightarrow> ustr \<Rightarrow> rat \<Rightarrow> Applicable \<Rightarrow> Evaluation \<Rightarrow> Evaluation" where
  "evaluate_one bk now run_id estimate a ev =
     (let spend = projected bk now run_id estimate a;
          res = limit_verdict a spend;
          key = hold_key now run_id a
      in \<lparr>ev_overall = (if res = LimitBlock then LimitBlock
            else if res = LimitWarn \<and> ev_overall ev \<noteq> LimitBlock then LimitWarn else ev_overall ev),
          ev_blocked_by = (if res = LimitBlock then Some (ap_scope_type a, policy_name a) else ev_blocked_by ev),
          ev_warnings = (if res = LimitWarn
            then ev_warnings ev @ [(ap_scope_type a, ap_limit_type a, ap_amount a < spend)] else ev_warnings ev),
          ev_to_hold = (if res \<noteq> LimitBlock \<and> ap_enforcement_mode a \<in> {WarnMode, BlockMode} \<and>
              key \<notin> set (ev_to_hold ev) then ev_to_hold ev @ [key] else ev_to_hold ev),
          ev_decisions = ev_decisions ev @ [(a, spent_before bk now run_id a, res)]\<rparr>)"

definition evaluate_all :: "Books \<Rightarrow> int \<Rightarrow> ustr \<Rightarrow> rat \<Rightarrow> Applicable list \<Rightarrow> Evaluation" where
  "evaluate_all bk now run_id estimate as = fold (evaluate_one bk now run_id estimate) as first_evaluation"

definition decision_row :: "LimitContext \<Rightarrow> rat \<Rightarrow> ustr \<Rightarrow> Applicable \<times> rat \<times> LimitResult \<Rightarrow> LimitDecision" where
  "decision_row ctx estimate request_id d =
     (case d of (a, spent, res) \<Rightarrow>
        \<lparr>ld_request_id = request_id, ld_workspace_id = lc_workspace_id ctx, ld_policy_id = ap_policy_id a,
         ld_policy_ref = ap_policy_ref a, ld_scope_type = ap_scope_type a, ld_scope_id = ap_scope_id a,
         ld_limit_type = ap_limit_type a, ld_amount = to_money (ap_amount a),
         ld_previous_usage = to_money spent, ld_reserved_amount = to_money estimate,
         ld_actual_usage = None, ld_enforcement_mode = ap_enforcement_mode a, ld_result = res\<rparr>)"

definition hold_row ::
  "LimitContext \<Rightarrow> rat \<Rightarrow> ustr \<Rightarrow> ScopeType \<times> ustr \<times> WindowKey \<Rightarrow> LimitReservation" where
  "hold_row ctx estimate request_id k =
     (case k of (ty, i, wk) \<Rightarrow>
        \<lparr>lr_reservation_key = request_id, lr_workspace_id = lc_workspace_id ctx, lr_scope_type = ty,
         lr_scope_id = i, lr_window_key = wk, lr_amount = to_money estimate, lr_status = HoldActive\<rparr>)"

definition hold_index :: "LimitReservation \<Rightarrow> ustr \<times> ScopeType \<times> ustr \<times> WindowKey" where
  "hold_index h = (lr_reservation_key h, lr_scope_type h, lr_scope_id h, lr_window_key h)"

record EvalResult =
  er_result :: LimitResult
  er_blocked_by :: "(ScopeType \<times> ustr option) option"
  er_warnings :: "(ScopeType \<times> LimitType \<times> bool) list"

definition evaluate ::
  "Books \<Rightarrow> int \<Rightarrow> LimitContext \<Rightarrow> rat \<Rightarrow> ustr \<Rightarrow> (EvalResult \<times> Books) svc" where
  "evaluate bk now ctx estimate request_id =
     (let ev = evaluate_all bk now (lc_run_id ctx) estimate (applicable bk ctx now);
          bk1 = bk\<lparr>bk_decisions := bk_decisions bk @
            map (decision_row ctx estimate request_id) (ev_decisions ev)\<rparr>;
          holds = map (hold_row ctx estimate request_id) (ev_to_hold ev)
      in if ev_overall ev = LimitBlock
         then Inr (\<lparr>er_result = LimitBlock, er_blocked_by = ev_blocked_by ev, er_warnings = []\<rparr>, bk1)
         else if \<exists>h \<in> set holds. hold_index h \<in> hold_index ` set (bk_limit_holds bk)
         then Inl (Raises ''IntegrityError'')
         else Inr (\<lparr>er_result = ev_overall ev, er_blocked_by = None, er_warnings = ev_warnings ev\<rparr>,
                bk1\<lparr>bk_limit_holds := bk_limit_holds bk @ holds\<rparr>))"

section \<open>The end of a request\<close>

definition finish_holds :: "HoldStatus \<Rightarrow> Books \<Rightarrow> ustr \<Rightarrow> rat option \<Rightarrow> Books" where
  "finish_holds status bk request_id actual =
     bk\<lparr>bk_limit_holds := change_where (\<lambda>h. lr_reservation_key h = request_id \<and> lr_status h = HoldActive)
          (lr_status_update (\<lambda>_. status)) (bk_limit_holds bk),
        bk_decisions := (case actual of None \<Rightarrow> bk_decisions bk
          | Some q \<Rightarrow> change_where (\<lambda>d. ld_request_id d = request_id)
              (ld_actual_usage_update (\<lambda>_. Some (to_money q))) (bk_decisions bk))\<rparr>"

definition reconcile_limits :: "Books \<Rightarrow> ustr \<Rightarrow> rat option \<Rightarrow> Books" where
  "reconcile_limits = finish_holds HoldSettled"

definition release_limits :: "Books \<Rightarrow> ustr \<Rightarrow> Books" where
  "release_limits bk request_id = finish_holds HoldReleased bk request_id None"

section \<open>What an evaluation decides\<close>

lemma limit_verdict_block:
  "limit_verdict a spend = LimitBlock \<longleftrightarrow> ap_enforcement_mode a = BlockMode \<and> ap_amount a < spend"
  by (simp add: limit_verdict_def Let_def)

text \<open>The loop, from any intermediate state.\<close>

lemma loop_overall:
  "ev_overall (fold (evaluate_one bk now run_id estimate) as ev) =
     (let vs = map (\<lambda>a. limit_verdict a (projected bk now run_id estimate a)) as in
      if ev_overall ev = LimitBlock \<or> LimitBlock \<in> set vs then LimitBlock
      else if LimitWarn \<in> set vs then LimitWarn else ev_overall ev)"
  by (induction as arbitrary: ev) (auto simp: evaluate_one_def Let_def)

lemma loop_holds:
  "set (ev_to_hold (fold (evaluate_one bk now run_id estimate) as ev)) = set (ev_to_hold ev) \<union>
     hold_key now run_id ` {a \<in> set as. ap_enforcement_mode a \<in> {WarnMode, BlockMode} \<and>
       limit_verdict a (projected bk now run_id estimate a) \<noteq> LimitBlock}"
  by (induction as arbitrary: ev) (auto simp: evaluate_one_def Let_def)

lemma loop_holds_distinct:
  "distinct (ev_to_hold ev) \<Longrightarrow> distinct (ev_to_hold (fold (evaluate_one bk now run_id estimate) as ev))"
  by (induction as arbitrary: ev) (auto simp: evaluate_one_def Let_def)

lemma loop_decisions:
  "ev_decisions (fold (evaluate_one bk now run_id estimate) as ev) = ev_decisions ev @
     map (\<lambda>a. (a, spent_before bk now run_id a, limit_verdict a (projected bk now run_id estimate a))) as"
  by (induction as arbitrary: ev) (simp_all add: evaluate_one_def Let_def)

text \<open>The most severe verdict decides.\<close>

lemma evaluate_all_overall:
  "ev_overall (evaluate_all bk now run_id estimate as) =
     (let vs = map (\<lambda>a. limit_verdict a (projected bk now run_id estimate a)) as in
      if LimitBlock \<in> set vs then LimitBlock else if LimitWarn \<in> set vs then LimitWarn else LimitOk)"
  by (simp add: evaluate_all_def loop_overall first_evaluation_def)

lemma evaluate_all_holds:
  "set (ev_to_hold (evaluate_all bk now run_id estimate as)) =
     hold_key now run_id ` {a \<in> set as. ap_enforcement_mode a \<in> {WarnMode, BlockMode} \<and>
       limit_verdict a (projected bk now run_id estimate a) \<noteq> LimitBlock}"
  by (simp add: evaluate_all_def loop_holds first_evaluation_def)

lemma evaluate_all_holds_distinct: "distinct (ev_to_hold (evaluate_all bk now run_id estimate as))"
  by (simp add: evaluate_all_def loop_holds_distinct first_evaluation_def)

lemma evaluate_all_decisions:
  "ev_decisions (evaluate_all bk now run_id estimate as) =
     map (\<lambda>a. (a, spent_before bk now run_id a, limit_verdict a (projected bk now run_id estimate a))) as"
  by (simp add: evaluate_all_def loop_decisions first_evaluation_def)

lemma evaluate_cases:
  assumes "evaluate bk now ctx estimate request_id = Inr (res, bk')"
  obtains (blocked) "er_result res = LimitBlock"
      "ev_overall (evaluate_all bk now (lc_run_id ctx) estimate (applicable bk ctx now)) = LimitBlock"
      "bk' = bk\<lparr>bk_decisions := bk_decisions bk @ map (decision_row ctx estimate request_id)
         (ev_decisions (evaluate_all bk now (lc_run_id ctx) estimate (applicable bk ctx now)))\<rparr>"
    | (admitted) "er_result res \<noteq> LimitBlock"
      "er_result res = ev_overall (evaluate_all bk now (lc_run_id ctx) estimate (applicable bk ctx now))"
      "bk' = bk\<lparr>bk_decisions := bk_decisions bk @ map (decision_row ctx estimate request_id)
         (ev_decisions (evaluate_all bk now (lc_run_id ctx) estimate (applicable bk ctx now))),
         bk_limit_holds := bk_limit_holds bk @ map (hold_row ctx estimate request_id)
           (ev_to_hold (evaluate_all bk now (lc_run_id ctx) estimate (applicable bk ctx now)))\<rparr>"
proof (cases "ev_overall (evaluate_all bk now (lc_run_id ctx) estimate (applicable bk ctx now)) = LimitBlock")
  case True
  with assms show thesis by (intro blocked) (auto simp: evaluate_def Let_def)
next
  case False
  with assms show thesis by (intro admitted) (auto simp: evaluate_def Let_def split: if_splits)
qed

lemma limit_holds_append:
  "limit_holds (bk\<lparr>bk_decisions := ds, bk_limit_holds := bk_limit_holds bk @ hs\<rparr>) k =
   limit_holds bk k + sum_list (map lr_amount (filter (held_for k) hs))"
  by (simp add: limit_holds_def)

lemma held_for_hold_row [simp]: "held_for k (hold_row ctx estimate request_id k') \<longleftrightarrow> k' = k"
  by (auto simp: held_for_def hold_row_def split: prod.split)

lemma hold_row_amount [simp]: "lr_amount (hold_row ctx estimate request_id k) = to_money estimate"
  by (simp add: hold_row_def split: prod.split)

lemma one_hold_each:
  "distinct ks \<Longrightarrow> sum_list (map lr_amount (filter (held_for k) (map (hold_row ctx estimate request_id) ks))) =
     (if k \<in> set ks then to_money estimate else 0)"
  by (induction ks) auto

lemma spent_before_cong:
  "bk_usage bk' = bk_usage bk \<Longrightarrow> bk_charges bk' = bk_charges bk \<Longrightarrow> spent_before bk' now run_id a = spent_before bk now run_id a"
  by (simp add: spent_before_def committed_spend_def)

text \<open>After an admission, every limit that is enforced still covers what is spent and held.\<close>

lemma admitted_within:
  assumes "evaluate bk now ctx estimate request_id = Inr (res, bk')" "er_result res \<noteq> LimitBlock"
    "a \<in> set (applicable bk ctx now)" "ap_enforcement_mode a = BlockMode" "is_money estimate"
  shows "spent_before bk' now (lc_run_id ctx) a + limit_holds bk' (hold_key now (lc_run_id ctx) a) \<le> ap_amount a"
  using assms(1)
proof (cases rule: evaluate_cases)
  case admitted
  let ?ev = "evaluate_all bk now (lc_run_id ctx) estimate (applicable bk ctx now)"
  let ?k = "hold_key now (lc_run_id ctx) a"
  have ok: "\<not> ap_amount a < projected bk now (lc_run_id ctx) estimate a"
  proof
    assume "ap_amount a < projected bk now (lc_run_id ctx) estimate a"
    with assms(4) have "limit_verdict a (projected bk now (lc_run_id ctx) estimate a) = LimitBlock"
      by (simp add: limit_verdict_block)
    then have "LimitBlock \<in> set (map (\<lambda>a. limit_verdict a (projected bk now (lc_run_id ctx) estimate a)) (applicable bk ctx now))"
      using assms(3) by (simp add: rev_image_eqI)
    then have "ev_overall ?ev = LimitBlock" by (simp only: evaluate_all_overall Let_def if_True)
    with admitted(1,2) show False by simp
  qed
  then have "?k \<in> set (ev_to_hold ?ev)"
    using assms(3,4) by (auto simp: evaluate_all_holds limit_verdict_block)
  then have "limit_holds bk' ?k = limit_holds bk ?k + estimate"
    unfolding admitted(3) limit_holds_append
    using one_hold_each [OF evaluate_all_holds_distinct] assms(5) by (simp add: to_money_def)
  moreover have "spent_before bk' now (lc_run_id ctx) a = spent_before bk now (lc_run_id ctx) a"
    unfolding admitted(3) by (rule spent_before_cong) simp_all
  ultimately show ?thesis using ok by (simp add: projected_def)
qed (use assms(2) in simp)

lemma evaluate_frame:
  "evaluate bk now ctx estimate request_id = Inr (res, bk') \<Longrightarrow>
   bk_txns bk' = bk_txns bk \<and> bk_charges bk' = bk_charges bk \<and> bk_holds bk' = bk_holds bk \<and>
   bk_usage bk' = bk_usage bk \<and> bk_prices bk' = bk_prices bk \<and> bk_grants bk' = bk_grants bk \<and>
   bk_policies bk' = bk_policies bk"
  by (erule evaluate_cases) simp_all

lemma finish_holds_frame [simp]:
  "bk_txns (finish_holds status bk k q) = bk_txns bk" "bk_charges (finish_holds status bk k q) = bk_charges bk"
  "bk_holds (finish_holds status bk k q) = bk_holds bk" "bk_usage (finish_holds status bk k q) = bk_usage bk"
  "bk_prices (finish_holds status bk k q) = bk_prices bk" "bk_grants (finish_holds status bk k q) = bk_grants bk"
  "bk_policies (finish_holds status bk k q) = bk_policies bk"
  by (simp_all add: finish_holds_def)

text \<open>No hold of a finished request is left, and no other hold is touched.\<close>

lemma finish_holds_over:
  assumes "h \<in> set (bk_limit_holds (finish_holds status bk k q))" "status \<noteq> HoldActive" "lr_reservation_key h = k"
  shows "lr_status h \<noteq> HoldActive"
proof -
  from assms(1) obtain x where "x \<in> set (bk_limit_holds bk)"
    "h = (if lr_reservation_key x = k \<and> lr_status x = HoldActive then lr_status_update (\<lambda>_. status) x else x)"
    unfolding finish_holds_def by (auto simp: in_change_where)
  with assms(2,3) show ?thesis
    by (cases "lr_reservation_key x = k \<and> lr_status x = HoldActive") simp_all
qed

lemma finish_holds_others:
  "filter (\<lambda>h. lr_reservation_key h \<noteq> k) (bk_limit_holds (finish_holds status bk k q)) =
   filter (\<lambda>h. lr_reservation_key h \<noteq> k) (bk_limit_holds bk)"
proof -
  have "filter (\<lambda>h. lr_reservation_key h \<noteq> k) (change_where
      (\<lambda>h. lr_reservation_key h = k \<and> lr_status h = HoldActive) (lr_status_update (\<lambda>_. status)) hs) =
    filter (\<lambda>h. lr_reservation_key h \<noteq> k) hs" for hs
    by (induction hs) (simp_all add: change_where_def)
  then show ?thesis by (simp add: finish_holds_def)
qed

section \<open>Policies on the books\<close>

lemma limit_amount_nonneg: "limit_amount d = Inr q \<Longrightarrow> 0 \<le> q"
  by (auto simp: limit_amount_def split: option.splits dec.splits if_splits)

definition policy_ok :: "LimitPolicy \<Rightarrow> bool" where
  "policy_ok p \<longleftrightarrow> 0 \<le> lp_amount p \<and> is_money (lp_amount p) \<and>
     (case lp_warning_threshold p of None \<Rightarrow> True | Some t \<Rightarrow> 0 \<le> t)"

lemma created_policy_ok:
  assumes "create_policy bk i q = Inr (p, bk')"
  shows "policy_ok p" "bk_policies bk' = bk_policies bk @ [p]"
    "\<And>t. lp_warning_threshold p = Some t \<Longrightarrow> t \<le> 1"
  using assms limit_amount_nonneg
  by (auto simp: create_policy_def policy_ok_def sbind_Inr_iff Let_def to_money_def threshold_of_def
      intro!: quantize_nonneg split: option.splits if_splits)

lemma change_policy_ok: "change_policy c p = Inr p' \<Longrightarrow> policy_ok p \<Longrightarrow> policy_ok p'"
  using limit_amount_nonneg
  by (cases c) (auto simp: policy_ok_def sbind_Inr_iff to_money_def intro!: quantize_nonneg)

lemma change_policy_identity:
  "change_policy c p = Inr p' \<Longrightarrow> lp_id p' = lp_id p \<and> lp_workspace_id p' = lp_workspace_id p \<and>
   lp_scope_type p' = lp_scope_type p \<and> lp_scope_id p' = lp_scope_id p \<and> lp_limit_type p' = lp_limit_type p"
  by (cases c) (auto simp: sbind_Inr_iff)

lemma change_all_ok: "change_all cs p = Inr p' \<Longrightarrow> policy_ok p \<Longrightarrow> policy_ok p'"
  by (induction cs arbitrary: p) (auto simp: sbind_Inr_iff intro: change_policy_ok)

lemma change_all_identity:
  "change_all cs p = Inr p' \<Longrightarrow> lp_id p' = lp_id p \<and> lp_workspace_id p' = lp_workspace_id p \<and>
   lp_scope_type p' = lp_scope_type p \<and> lp_scope_id p' = lp_scope_id p \<and> lp_limit_type p' = lp_limit_type p"
  by (induction cs arbitrary: p) (auto simp: sbind_Inr_iff dest!: change_policy_identity)

end
