(* ===== verification/VirtualKeys.thy ===== *)
theory VirtualKeys
  imports Books PatchValidation
begin

text \<open>
  Virtual keys (src/gnsis/service/virtual_keys.py): issue, authenticate, disable and rotate.  SHA-256,
  the printing and reading of ISO timestamps and the random part of a secret are parameters; only the
  hash of a secret is stored.
\<close>

section \<open>The table\<close>

datatype KeyStatus = KeyActive | KeyDisabled | KeyRotated

record VirtualKey =
  vk_id :: ustr
  vk_key_hash :: ustr
  vk_key_prefix :: ustr
  vk_mode :: ustr
  vk_name :: ustr
  vk_status :: KeyStatus
  vk_workspace_id :: ustr
  vk_project_id :: "ustr option"
  vk_environment_id :: "ustr option"
  vk_user_id :: "ustr option"
  vk_team_id :: "ustr option"
  vk_allowed_providers :: "ustr option"
  vk_allowed_models :: "ustr option"
  vk_api_scopes :: "ustr option"
  vk_soft_limit :: "rat option"
  vk_hard_limit :: "rat option"
  vk_per_run_limit :: "rat option"
  vk_daily_limit :: "rat option"
  vk_monthly_limit :: "rat option"
  vk_expires_at :: "int option"
  vk_rotated_to :: "ustr option"
  vk_metadata :: "ustr jsn"
  vk_last_used_at :: "int option"
  vk_created_at :: int
  vk_disabled_at :: "int option"

type_synonym keys = "VirtualKey list"

record key_env =
  ke_lib :: pylib
  ke_sha256 :: "ustr \<Rightarrow> ustr"
  iso_text :: "int \<Rightarrow> ustr"
  read_iso :: "ustr \<Rightarrow> int option"

definition VirtualKeyError :: "string \<Rightarrow> nat \<Rightarrow> svc_error" where
  "VirtualKeyError msg status = Refused msg status"

section \<open>Helpers\<close>

definition csv :: "ustr option \<Rightarrow> ustr list" where
  "csv v = filter (\<lambda>s. s \<noteq> []) (split_char 44 (case v of None \<Rightarrow> [] | Some s \<Rightarrow> s))"

definition hash_key :: "key_env \<Rightarrow> Settings \<Rightarrow> ustr \<Rightarrow> ustr" where
  "hash_key env st secret = ke_sha256 env (virtual_key_pepper st @ secret)"

definition generate_secret :: "ustr \<Rightarrow> ustr \<Rightarrow> ustr" where
  "generate_secret mode random = u ''gns_'' @ mode @ u ''_'' @ random"

text \<open>The ellipsis is the code point 8230.\<close>

definition display_prefix :: "ustr \<Rightarrow> ustr" where
  "display_prefix secret =
     (let head = split_char 95 secret;
          tag = join_with (u ''_'') (take 2 head);
          body = (if 2 < length head then head ! 2 else [])
      in tag @ u ''_'' @ take 6 body @ [8230])"

definition norm_limit :: "pylib \<Rightarrow> ustr jsn \<Rightarrow> rat option svc" where
  "norm_limit lib v =
     (if v = JNull \<or> v = JStr [] then Inr None
      else case decimal_of lib v of
        None \<Rightarrow> Inl (VirtualKeyError ''not a valid amount'' 400)
      | Some (DFin q) \<Rightarrow>
          if q < 0 then Inl (VirtualKeyError ''must be a non-negative amount'' 400) else Inr (Some q)
      | Some _ \<Rightarrow> Inl (VirtualKeyError ''must be a non-negative amount'' 400))"

text \<open>A text is split at commas, the items of a list are taken as they are; iterating an object gives its keys.\<close>

definition norm_csv :: "pylib \<Rightarrow> ustr jsn \<Rightarrow> ustr option svc" where
  "norm_csv lib v =
     (let join = (\<lambda>items. let kept = filter (\<lambda>s. s \<noteq> []) (map u_strip items)
            in if kept = [] then None else Some (join_with (u '','') kept))
      in if \<not> truthy v then Inr None
         else case v of
           JStr s \<Rightarrow> Inr (join (split_char 44 s))
         | JList xs \<Rightarrow> Inr (join (map (str_of lib) xs))
         | JObj kvs \<Rightarrow> Inr (join (map fst kvs))
         | _ \<Rightarrow> Inl (Raises ''TypeError''))"

definition parse_expiry :: "key_env \<Rightarrow> ustr option \<Rightarrow> int option svc" where
  "parse_expiry env v =
     (if \<not> present v then Inr None
      else case read_iso env (case v of Some s \<Rightarrow> s | None \<Rightarrow> []) of
        None \<Rightarrow> Inl (VirtualKeyError ''expires_at must be an ISO-8601 timestamp'' 400)
      | Some t \<Rightarrow> Inr (Some t))"

definition PUBLIC_SCOPES :: "ustr set" where
  "PUBLIC_SCOPES = {u ''repositories:read'', u ''runs:create'', u ''runs:read'', u ''runs:approve'',
     u ''receipts:read'', u ''intelligence:read''}"

definition ISSUABLE_SCOPES :: "ustr set" where
  "ISSUABLE_SCOPES = insert (u ''visual:host'') PUBLIC_SCOPES"

section \<open>Issue\<close>

record KeyRequest =
  kq_workspace_id :: ustr
  kq_name :: ustr
  kq_mode :: ustr
  kq_project_id :: "ustr option"
  kq_environment_id :: "ustr option"
  kq_user_id :: "ustr option"
  kq_team_id :: "ustr option"
  kq_allowed_providers :: "ustr jsn"
  kq_allowed_models :: "ustr jsn"
  kq_soft_limit :: "ustr jsn"
  kq_hard_limit :: "ustr jsn"
  kq_per_run_limit :: "ustr jsn"
  kq_daily_limit :: "ustr jsn"
  kq_monthly_limit :: "ustr jsn"
  kq_expires_at :: "ustr option"
  kq_metadata :: "ustr jsn"
  kq_api_scopes :: "ustr jsn"

definition check_scopes :: "ustr option \<Rightarrow> unit svc" where
  "check_scopes scopes =
     (if present scopes \<and> \<not> list_all (\<lambda>s. s \<in> ISSUABLE_SCOPES)
           (split_char 44 (case scopes of Some s \<Rightarrow> s | None \<Rightarrow> []))
      then Inl (VirtualKeyError ''unknown scope'' 400) else Inr ())"

definition soft_above_hard :: "rat option \<Rightarrow> rat option \<Rightarrow> bool" where
  "soft_above_hard soft hard = (case (soft, hard) of (Some s, Some h) \<Rightarrow> h < s | _ \<Rightarrow> False)"

definition limits_of ::
  "pylib \<Rightarrow> KeyRequest \<Rightarrow> (rat option \<times> rat option \<times> rat option \<times> rat option \<times> rat option) svc" where
  "limits_of lib q =
     sbind (norm_limit lib (kq_soft_limit q)) (\<lambda>soft.
     sbind (norm_limit lib (kq_hard_limit q)) (\<lambda>hard.
     sbind (norm_limit lib (kq_per_run_limit q)) (\<lambda>per_run.
     sbind (norm_limit lib (kq_daily_limit q)) (\<lambda>daily.
     sbind (norm_limit lib (kq_monthly_limit q)) (\<lambda>monthly.
       if soft_above_hard soft hard then Inl (VirtualKeyError ''soft_limit cannot exceed hard_limit'' 400)
       else Inr (soft, hard, per_run, daily, monthly))))))"

text \<open>\<open>create\<close>: the row, the secret that is shown once, and the table.\<close>

definition create_key ::
  "key_env \<Rightarrow> Settings \<Rightarrow> keys \<Rightarrow> int \<Rightarrow> ustr \<Rightarrow> ustr \<Rightarrow> KeyRequest \<Rightarrow> (VirtualKey \<times> ustr \<times> keys) svc" where
  "create_key env st ks now i random q =
     (if kq_mode q \<notin> {u ''live'', u ''test''} then Inl (VirtualKeyError ''mode must be live or test'' 400)
      else if kq_workspace_id q = [] then Inl (VirtualKeyError ''workspace is required'' 400)
      else
        sbind (norm_csv (ke_lib env) (kq_api_scopes q)) (\<lambda>scopes.
        sbind (check_scopes scopes) (\<lambda>_.
        sbind (limits_of (ke_lib env) q) (\<lambda>(soft, hard, per_run, daily, monthly).
        sbind (parse_expiry env (kq_expires_at q)) (\<lambda>expiry.
        sbind (norm_csv (ke_lib env) (kq_allowed_providers q)) (\<lambda>providers.
        sbind (norm_csv (ke_lib env) (kq_allowed_models q)) (\<lambda>models.
          let secret = generate_secret (kq_mode q) random;
              row = \<lparr>vk_id = i, vk_key_hash = hash_key env st secret,
                vk_key_prefix = display_prefix secret, vk_mode = kq_mode q,
                vk_name = u_strip (kq_name q), vk_status = KeyActive,
                vk_workspace_id = kq_workspace_id q, vk_project_id = kq_project_id q,
                vk_environment_id = kq_environment_id q, vk_user_id = kq_user_id q,
                vk_team_id = kq_team_id q, vk_allowed_providers = providers,
                vk_allowed_models = models, vk_api_scopes = scopes, vk_soft_limit = soft,
                vk_hard_limit = hard, vk_per_run_limit = per_run, vk_daily_limit = daily,
                vk_monthly_limit = monthly, vk_expires_at = expiry, vk_rotated_to = None,
                vk_metadata = (if truthy (kq_metadata q) then kq_metadata q else JNull),
                vk_last_used_at = None, vk_created_at = now, vk_disabled_at = None\<rparr>
          in if vk_key_hash row \<in> vk_key_hash ` set ks
             then Inl (VirtualKeyError ''could not issue key; retry'' 500)
             else Inr (row, secret, ks @ [row]))))))))"

section \<open>Use\<close>

definition expired_key :: "int \<Rightarrow> VirtualKey \<Rightarrow> bool" where
  "expired_key now k \<longleftrightarrow> (case vk_expires_at k of None \<Rightarrow> False | Some t \<Rightarrow> t \<le> now)"

text \<open>Every failure is the same \<open>None\<close>.\<close>

definition authenticate_key ::
  "key_env \<Rightarrow> Settings \<Rightarrow> keys \<Rightarrow> int \<Rightarrow> ustr \<Rightarrow> VirtualKey option \<times> keys" where
  "authenticate_key env st ks now secret =
     (if take 4 secret \<noteq> u ''gns_'' then (None, ks)
      else case find (\<lambda>k. vk_key_hash k = hash_key env st secret) ks of
        None \<Rightarrow> (None, ks)
      | Some k \<Rightarrow>
          (if vk_status k \<noteq> KeyActive \<or> expired_key now k then (None, ks)
           else (Some (k\<lparr>vk_last_used_at := Some now\<rparr>),
                 change_where (\<lambda>x. vk_key_hash x = vk_key_hash k) (vk_last_used_at_update (\<lambda>_. Some now)) ks)))"

definition list_keys :: "keys \<Rightarrow> ustr \<Rightarrow> nat \<Rightarrow> bool \<Rightarrow> VirtualKey list" where
  "list_keys ks w n active_only = take n (sort_key (\<lambda>k. - vk_created_at k)
     (filter (\<lambda>k. vk_workspace_id k = w \<and> (active_only \<longrightarrow> vk_status k = KeyActive)) ks))"

definition get_key :: "keys \<Rightarrow> ustr \<Rightarrow> ustr \<Rightarrow> VirtualKey option" where
  "get_key ks w i =
     (case find (\<lambda>k. vk_id k = i) ks of
        None \<Rightarrow> None | Some k \<Rightarrow> if vk_workspace_id k = w then Some k else None)"

definition disabled_copy :: "int \<Rightarrow> VirtualKey \<Rightarrow> VirtualKey" where
  "disabled_copy now k =
     (if vk_status k = KeyActive then k\<lparr>vk_status := KeyDisabled, vk_disabled_at := Some now\<rparr> else k)"

definition disable_key :: "keys \<Rightarrow> int \<Rightarrow> ustr \<Rightarrow> ustr \<Rightarrow> (VirtualKey \<times> keys) svc" where
  "disable_key ks now w i =
     (case get_key ks w i of
        None \<Rightarrow> Inl (VirtualKeyError ''key not found'' 404)
      | Some k \<Rightarrow> Inr (disabled_copy now k, change_where (\<lambda>x. vk_id x = i) (disabled_copy now) ks))"

definition rotated_copy :: "int \<Rightarrow> ustr \<Rightarrow> VirtualKey \<Rightarrow> VirtualKey" where
  "rotated_copy now successor k =
     (if vk_status k = KeyRotated then k
      else k\<lparr>vk_status := KeyRotated, vk_rotated_to := Some successor, vk_disabled_at := Some now\<rparr>)"

text \<open>What the view of a key hands back to \<open>create\<close>; a limit is handed back as its canonical text.\<close>

definition texts :: "ustr list \<Rightarrow> ustr jsn" where
  "texts ss = JList (map JStr ss)"

definition successor_request :: "key_env \<Rightarrow> (rat \<Rightarrow> ustr) \<Rightarrow> VirtualKey \<Rightarrow> KeyRequest" where
  "successor_request env print k =
     (let limit = (\<lambda>v. case v of None \<Rightarrow> JNull | Some q \<Rightarrow> JStr (print q))
      in \<lparr>kq_workspace_id = vk_workspace_id k, kq_name = vk_name k, kq_mode = vk_mode k,
          kq_project_id = vk_project_id k, kq_environment_id = vk_environment_id k,
          kq_user_id = vk_user_id k, kq_team_id = vk_team_id k,
          kq_allowed_providers = texts (csv (vk_allowed_providers k)),
          kq_allowed_models = texts (csv (vk_allowed_models k)),
          kq_soft_limit = limit (vk_soft_limit k), kq_hard_limit = limit (vk_hard_limit k),
          kq_per_run_limit = limit (vk_per_run_limit k), kq_daily_limit = limit (vk_daily_limit k),
          kq_monthly_limit = limit (vk_monthly_limit k),
          kq_expires_at = map_option (iso_text env) (vk_expires_at k), kq_metadata = vk_metadata k,
          kq_api_scopes = texts (csv (vk_api_scopes k))\<rparr>)"

definition rotate_key ::
  "key_env \<Rightarrow> (rat \<Rightarrow> ustr) \<Rightarrow> Settings \<Rightarrow> keys \<Rightarrow> int \<Rightarrow> ustr \<Rightarrow> ustr \<Rightarrow> ustr \<Rightarrow> ustr \<Rightarrow>
   (VirtualKey \<times> ustr \<times> keys) svc" where
  "rotate_key env print st ks now new_id random w i =
     (case get_key ks w i of
        None \<Rightarrow> Inl (VirtualKeyError ''key not found'' 404)
      | Some old \<Rightarrow>
          sbind (create_key env st ks now new_id random (successor_request env print old)) (\<lambda>(row, secret, ks').
            Inr (row, secret, change_where (\<lambda>x. vk_id x = i) (rotated_copy now new_id) ks')))"

section \<open>What a key is good for\<close>

lemma authenticated_key:
  assumes "authenticate_key env st ks now secret = (Some k, ks')"
  obtains k0 where "k0 \<in> set ks" "k = k0\<lparr>vk_last_used_at := Some now\<rparr>"
    "vk_key_hash k0 = hash_key env st secret" "vk_status k0 = KeyActive" "\<not> expired_key now k0"
    "take 4 secret = u ''gns_''"
proof -
  from assms have p: "take 4 secret = u ''gns_''"
    by (auto simp: authenticate_key_def split: if_splits)
  with assms obtain k0 where f: "find (\<lambda>k. vk_key_hash k = hash_key env st secret) ks = Some k0"
    by (auto simp: authenticate_key_def split: option.splits)
  with assms p have "k = k0\<lparr>vk_last_used_at := Some now\<rparr>" "vk_status k0 = KeyActive" "\<not> expired_key now k0"
    by (auto simp: authenticate_key_def split: if_splits)
  with that p find_Some_mem [OF f] show thesis by blast
qed

text \<open>A hash whose keys are all retired lets nobody in, and no secret of theirs works.\<close>

lemma retired_hash:
  assumes "\<And>k. k \<in> set ks \<Longrightarrow> vk_key_hash k = hash_key env st secret \<Longrightarrow> vk_status k \<noteq> KeyActive \<or> expired_key now k"
  shows "authenticate_key env st ks now secret = (None, ks)"
proof (cases "find (\<lambda>k. vk_key_hash k = hash_key env st secret) ks")
  case (Some k)
  with assms [of k] find_Some_mem [OF Some] show ?thesis by (auto simp: authenticate_key_def)
qed (simp add: authenticate_key_def)

lemma create_key_shape:
  assumes "create_key env st ks now i random q = Inr (row, secret, ks')"
  shows "ks' = ks @ [row]" "secret = generate_secret (kq_mode q) random"
    "vk_key_hash row = hash_key env st secret" "vk_status row = KeyActive" "vk_id row = i"
    "vk_key_hash row \<notin> vk_key_hash ` set ks" "vk_workspace_id row = kq_workspace_id q"
    "parse_expiry env (kq_expires_at q) = Inr (vk_expires_at row)"
    "vk_project_id row = kq_project_id q" "vk_environment_id row = kq_environment_id q"
    "vk_user_id row = kq_user_id q" "vk_team_id row = kq_team_id q"
    "norm_csv (ke_lib env) (kq_api_scopes q) = Inr (vk_api_scopes row)"
    "norm_csv (ke_lib env) (kq_allowed_providers q) = Inr (vk_allowed_providers row)"
    "norm_csv (ke_lib env) (kq_allowed_models q) = Inr (vk_allowed_models row)"
    "limits_of (ke_lib env) q = Inr (vk_soft_limit row, vk_hard_limit row, vk_per_run_limit row,
       vk_daily_limit row, vk_monthly_limit row)"
  using assms
  by (auto simp: create_key_def sbind_Inr_iff Let_def split: if_splits prod.splits)

lemma secret_prefix: "take 4 (generate_secret mode random) = u ''gns_''"
  by (simp add: generate_secret_def u_def)

lemma secret_not_empty [simp]: "generate_secret mode random \<noteq> []"
  by (simp add: generate_secret_def u_def)

text \<open>The secret that is handed out opens the key it was made for.\<close>

lemma issued_key_authenticates:
  assumes "create_key env st ks now i random q = Inr (row, secret, ks')" "\<not> expired_key t row"
  shows "fst (authenticate_key env st ks' t secret) = Some (row\<lparr>vk_last_used_at := Some t\<rparr>)"
proof -
  note c = create_key_shape [OF assms(1)]
  have "find (\<lambda>k. vk_key_hash k = hash_key env st secret) ks = None"
    using c(3,6) by (intro find_unused) simp
  then have "find (\<lambda>k. vk_key_hash k = hash_key env st secret) ks' = Some row"
    using c(1,3) by (simp add: find_append)
  then show ?thesis using c(4) assms(2) secret_prefix c(2) by (simp add: authenticate_key_def)
qed

lemma disabled_copy_hash [simp]: "vk_key_hash (disabled_copy now k) = vk_key_hash k"
  by (simp add: disabled_copy_def)

lemma disabled_copy_retired: "vk_status (disabled_copy now k) \<noteq> KeyActive"
  by (simp add: disabled_copy_def)

lemma rotated_copy_hash [simp]: "vk_key_hash (rotated_copy now s k) = vk_key_hash k"
  by (simp add: rotated_copy_def)

lemma rotated_copy_retired: "vk_status (rotated_copy now s k) = KeyRotated"
  by (simp add: rotated_copy_def)

lemma get_key_mem: "get_key ks w i = Some k \<Longrightarrow> k \<in> set ks \<and> vk_id k = i \<and> vk_workspace_id k = w"
  by (auto simp: get_key_def dest: find_Some_mem split: option.splits if_splits)

lemma same_key:
  assumes "distinct (map vk_key_hash ks)" "x \<in> set ks" "y \<in> set ks" "vk_key_hash x = vk_key_hash y"
  shows "x = y"
  using assms by (auto simp: distinct_map inj_on_def)

lemma disabled_key_is_dead:
  assumes "disable_key ks now w i = Inr (k, ks')" "distinct (map vk_key_hash ks)"
    "hash_key env st secret = vk_key_hash k"
  shows "authenticate_key env st ks' t secret = (None, ks')"
proof (rule retired_hash)
  from assms(1) obtain k0 where k0: "get_key ks w i = Some k0" "k = disabled_copy now k0"
    "ks' = change_where (\<lambda>x. vk_id x = i) (disabled_copy now) ks"
    by (auto simp: disable_key_def split: option.splits)
  fix x assume "x \<in> set ks'" and h: "vk_key_hash x = hash_key env st secret"
  with k0 obtain y where y: "y \<in> set ks" "x = (if vk_id y = i then disabled_copy now y else y)"
    by (auto simp: in_change_where)
  have "vk_key_hash y = vk_key_hash x" using y(2) by simp
  with h assms(3) k0(2) have "vk_key_hash y = vk_key_hash k0" by simp
  with same_key [OF assms(2) y(1)] get_key_mem [OF k0(1)] have "vk_id y = i" by auto
  with y(2) show "vk_status x \<noteq> KeyActive \<or> expired_key t x" by (simp add: disabled_copy_retired)
qed

lemma rotate_key_shape:
  assumes "rotate_key env print st ks now n random w i = Inr (row, secret, ks')"
  obtains old where "get_key ks w i = Some old"
    "create_key env st ks now n random (successor_request env print old) = Inr (row, secret, ks @ [row])"
    "ks' = change_where (\<lambda>x. vk_id x = i) (rotated_copy now n) (ks @ [row])"
proof -
  from assms obtain old ks1 where a: "get_key ks w i = Some old"
    "create_key env st ks now n random (successor_request env print old) = Inr (row, secret, ks1)"
    "ks' = change_where (\<lambda>x. vk_id x = i) (rotated_copy now n) ks1"
    by (auto simp: rotate_key_def sbind_Inr_iff split: option.splits)
  with that create_key_shape(1) [OF a(2)] show thesis by simp
qed

lemma rotated_key_is_dead:
  assumes "rotate_key env print st ks now n random w i = Inr (row, secret, ks')"
    "distinct (map vk_key_hash ks)" "get_key ks w i = Some old" "hash_key env st s = vk_key_hash old"
  shows "authenticate_key env st ks' t s = (None, ks')"
proof (rule retired_hash)
  from assms(1) obtain old' where r: "get_key ks w i = Some old'"
    "create_key env st ks now n random (successor_request env print old') = Inr (row, secret, ks @ [row])"
    "ks' = change_where (\<lambda>x. vk_id x = i) (rotated_copy now n) (ks @ [row])"
    by (rule rotate_key_shape)
  note old = get_key_mem [OF assms(3)]
  fix x assume "x \<in> set ks'" and h: "vk_key_hash x = hash_key env st s"
  then have "x \<in> set (change_where (\<lambda>x. vk_id x = i) (rotated_copy now n) (ks @ [row]))" by (simp only: r(3))
  then obtain y where y: "y \<in> set (ks @ [row])" "x = (if vk_id y = i then rotated_copy now n y else y)"
    unfolding in_change_where by blast
  have eq: "vk_key_hash y = vk_key_hash old" using y(2) h assms(4) by (simp split: if_splits)
  have "y \<in> set ks"
  proof (rule ccontr)
    assume "y \<notin> set ks"
    with y(1) have "y = row" by simp
    with eq old create_key_shape(6) [OF r(2)] show False by auto
  qed
  with same_key [OF assms(2) _ _ eq] old have "vk_id y = i" by auto
  with y(2) show "vk_status x \<noteq> KeyActive \<or> expired_key t x" by (simp add: rotated_copy_retired)
qed

lemma successor_authenticates:
  assumes "rotate_key env print st ks now n random w i = Inr (row, secret, ks')" "n \<noteq> i"
    "\<not> expired_key t row"
  shows "fst (authenticate_key env st ks' t secret) = Some (row\<lparr>vk_last_used_at := Some t\<rparr>)"
proof -
  from assms(1) obtain old where r: "get_key ks w i = Some old"
    "create_key env st ks now n random (successor_request env print old) = Inr (row, secret, ks @ [row])"
    "ks' = change_where (\<lambda>x. vk_id x = i) (rotated_copy now n) (ks @ [row])"
    by (rule rotate_key_shape)
  note c = create_key_shape [OF r(2)]
  have "vk_key_hash ` set (change_where (\<lambda>x. vk_id x = i) (rotated_copy now n) ks) = vk_key_hash ` set ks"
    by (metis (no_types, lifting) map_change_where rotated_copy_hash set_map)
  then have "find (\<lambda>k. vk_key_hash k = hash_key env st secret)
      (change_where (\<lambda>x. vk_id x = i) (rotated_copy now n) ks) = None"
    using c(3,6) by (intro find_unused) simp
  moreover have "change_where (\<lambda>x. vk_id x = i) (rotated_copy now n) [row] = [row]"
    using c(5) assms(2) by (simp add: change_where_def)
  ultimately have "find (\<lambda>k. vk_key_hash k = hash_key env st secret) ks' = Some row"
    using c(3) by (simp add: r(3) find_append)
  then show ?thesis using c(4) assms(3) secret_prefix c(2) by (simp add: authenticate_key_def)
qed

section \<open>Rotation keeps what a key may do\<close>

lemma join_split_char: "join_with [d] (split_char d s) = s"
proof (induction s)
  case (Cons c s)
  have ne: "split_char d s \<noteq> []" for s by (cases s) (auto split: list.splits)
  obtain p ps where p: "split_char d s = p # ps" using ne by (cases "split_char d s") auto
  with Cons show ?case by (cases ps) auto
qed simp

definition clean_csv :: "ustr option \<Rightarrow> bool" where
  "clean_csv v \<longleftrightarrow> (case v of None \<Rightarrow> True
     | Some s \<Rightarrow> list_all (\<lambda>x. x \<noteq> [] \<and> u_strip x = x) (split_char 44 s))"

lemma norm_csv_texts:
  assumes "clean_csv v" shows "norm_csv lib (texts (csv v)) = Inr v"
proof (cases v)
  case None
  then show ?thesis by (simp add: csv_def texts_def norm_csv_def)
next
  case (Some s)
  let ?xs = "split_char 44 s"
  have all: "x \<noteq> [] \<and> u_strip x = x" if "x \<in> set ?xs" for x
    using assms Some that by (auto simp: clean_csv_def list_all_iff)
  then have f: "filter (\<lambda>x. x \<noteq> []) ?xs = ?xs" "map u_strip ?xs = ?xs"
    by (auto intro: map_idI simp: filter_id_conv)
  have ne: "?xs \<noteq> []" by (cases s) (auto split: list.splits)
  have str: "map (str_of lib) (map JStr xs) = xs" for xs by (induction xs) (simp_all add: str_of_def)
  show ?thesis using Some f ne str join_split_char [of 44 s]
    by (simp add: norm_csv_def texts_def csv_def Let_def u_def)
qed

lemma norm_limit_print:
  assumes "\<And>q. v = Some q \<Longrightarrow> 0 \<le> q \<and> print q \<noteq> [] \<and> read_decimal (print q) = Some (DFin q)"
  shows "norm_limit lib (case v of None \<Rightarrow> JNull | Some q \<Rightarrow> JStr (print q)) = Inr v"
  using assms by (cases v) (auto simp: norm_limit_def decimal_of_def str_of_def)

end
