(* ===== verification/PublicGateway.thy ===== *)
theory PublicGateway
  imports Payments SpendLimits VirtualKeys
begin

text \<open>
  The public model gateway (src/gnsis/service/public_gateway.py): one chat completion from the
  permission check to the charge.  The provider is a parameter, its outcome for the payload it is
  sent; \<open>time\<close> and fresh ids are arguments.  Each call of a store is one transaction, so the books
  are threaded through and a late exception keeps the earlier writes.  A stream is handled as its
  outcome: what its usage chunk reported, or the exception that ended it.
\<close>

section \<open>Requests and outcomes\<close>

definition GatewayError :: "string \<Rightarrow> nat \<Rightarrow> svc_error" where
  "GatewayError code status = Refused code status"

text \<open>What the provider call does: an answer, a \<open>GatewayError\<close> of its own, or another exception.\<close>

datatype upstream = Answer "(ustr \<times> ustr jsn) list" | UpstreamRefused svc_error | UpstreamCrashed

type_synonym 'a served = "'a svc \<times> Books"

definition FORWARD_FIELDS :: "ustr list" where
  "FORWARD_FIELDS = map u [''model'', ''messages'', ''max_tokens'', ''max_completion_tokens'',
     ''temperature'', ''top_p'', ''stop'', ''tools'', ''tool_choice'', ''response_format'', ''seed'',
     ''n'', ''presence_penalty'', ''frequency_penalty'', ''logprobs'', ''top_logprobs'', ''user'']"

definition provider_of :: "ustr \<Rightarrow> ustr" where
  "provider_of model =
     (case find_sub (u ''/'') model of
        Some (p, _) \<Rightarrow> p
      | None \<Rightarrow>
          (let p = (case find_sub (u ''-'') model of Some (q, _) \<Rightarrow> q | None \<Rightarrow> model)
           in if p \<noteq> [] then p else u ''unknown''))"

definition sanitize :: "(ustr \<times> ustr jsn) list \<Rightarrow> ustr \<Rightarrow> (ustr \<times> ustr jsn) list" where
  "sanitize body model =
     AList.update (u ''model'') (JStr model)
       (concat (map (\<lambda>k. case map_of body k of None \<Rightarrow> [] | Some v \<Rightarrow> [(k, v)]) FORWARD_FIELDS))"

section \<open>Credential and permission\<close>

definition resolve_key ::
  "key_env \<Rightarrow> Settings \<Rightarrow> keys \<Rightarrow> int \<Rightarrow> ustr option \<Rightarrow> (VirtualKey \<times> keys) svc" where
  "resolve_key env st ks now authorization =
     (case authorization of
        None \<Rightarrow> Inl (GatewayError ''missing_credential'' 401)
      | Some a \<Rightarrow>
          (if a = [] then Inl (GatewayError ''missing_credential'' 401)
           else
             let secret = (case find_sub (u '' '') a of
                   Some (scheme, rest) \<Rightarrow> if ascii_lower scheme = u ''bearer'' then u_strip rest else u_strip a
                 | None \<Rightarrow> u_strip a)
             in case authenticate_key env st ks now secret of
               (None, ks') \<Rightarrow> Inl (GatewayError ''invalid_key'' 401)
             | (Some k, ks') \<Rightarrow> Inr (k, ks')))"

definition check_permitted :: "VirtualKey \<Rightarrow> ustr \<Rightarrow> ustr \<Rightarrow> unit svc" where
  "check_permitted key provider model =
     (if csv (vk_allowed_providers key) \<noteq> [] \<and> provider \<notin> set (csv (vk_allowed_providers key))
      then Inl (GatewayError ''provider_not_allowed'' 403)
      else if csv (vk_allowed_models key) \<noteq> [] \<and> model \<notin> set (csv (vk_allowed_models key))
      then Inl (GatewayError ''model_not_allowed'' 403)
      else Inr ())"

definition resolve_run_id :: "pylib \<Rightarrow> ustr \<Rightarrow> (ustr \<times> ustr jsn) list \<Rightarrow> ustr option \<Rightarrow> ustr" where
  "resolve_run_id lib fresh body header =
     (let md = (case get body ''metadata'' of JObj kvs \<Rightarrow> kvs | _ \<Rightarrow> [])
      in case header of
        Some h \<Rightarrow> if h \<noteq> [] then h else if truthy (get md ''run_id'') then str_of lib (get md ''run_id'') else fresh
      | None \<Rightarrow> if truthy (get md ''run_id'') then str_of lib (get md ''run_id'') else fresh)"

section \<open>Holds and limits\<close>

definition release_hold :: "Settings \<Rightarrow> VirtualKey \<Rightarrow> Books \<Rightarrow> ustr \<Rightarrow> Books" where
  "release_hold st key bk request_id =
     (if billing_enabled st \<and> vk_workspace_id key \<noteq> [] then release bk request_id else bk)"

definition reserve_or_402 :: "Settings \<Rightarrow> VirtualKey \<Rightarrow> Books \<Rightarrow> int \<Rightarrow> ustr \<Rightarrow> unit served" where
  "reserve_or_402 st key bk now request_id =
     (if balance_blocking_enabled st \<and> vk_workspace_id key \<noteq> []
      then case reserve bk now (vk_workspace_id key) (balance_reserve_estimate_usd st) request_id of
        (ok, bk') \<Rightarrow> (if ok then Inr () else Inl (GatewayError ''insufficient_balance'' 402), bk')
      else (Inr (), bk))"

definition limit_context :: "VirtualKey \<Rightarrow> ustr \<Rightarrow> LimitContext" where
  "limit_context key run_id =
     \<lparr>lc_workspace_id = vk_workspace_id key, lc_run_id = run_id, lc_project_id = vk_project_id key,
      lc_environment_id = vk_environment_id key,
      lc_user_id = (if present (vk_user_id key) then vk_user_id key else None),
      lc_team_id = vk_team_id key, lc_virtual_key_id = Some (vk_id key),
      lc_key_limits = \<lparr>kl_soft_limit = vk_soft_limit key, kl_hard_limit = vk_hard_limit key,
        kl_per_run_limit = vk_per_run_limit key, kl_daily_limit = vk_daily_limit key,
        kl_monthly_limit = vk_monthly_limit key\<rparr>\<rparr>"

definition enforce_limits_or_deny ::
  "Settings \<Rightarrow> VirtualKey \<Rightarrow> Books \<Rightarrow> int \<Rightarrow> ustr \<Rightarrow> ustr \<Rightarrow> unit served" where
  "enforce_limits_or_deny st key bk now run_id request_id =
     (if vk_workspace_id key = [] then (Inr (), bk)
      else case evaluate bk now (limit_context key run_id) (balance_reserve_estimate_usd st) request_id of
        Inl e \<Rightarrow> (Inl e, bk)
      | Inr (res, bk') \<Rightarrow>
          (if er_result res = LimitBlock
           then (Inl (GatewayError ''spending_limit_exceeded'' 402), release_hold st key bk' request_id)
           else (Inr (), bk')))"

section \<open>Metering\<close>

record ExtractedUsage =
  eu_input_tokens :: int
  eu_output_tokens :: int
  eu_cached_tokens :: int
  eu_reasoning_tokens :: int
  eu_cost :: "ustr jsn"

definition int_or_zero :: "pylib \<Rightarrow> ustr jsn \<Rightarrow> ustr jsn \<Rightarrow> int svc" where
  "int_or_zero lib a b =
     (case py_int lib (or_else (or_else a b) (JInt 0)) of
        Inl (Uncaught (ValueError _)) \<Rightarrow> Inl (Raises ''ValueError'')
      | Inl _ \<Rightarrow> Inl (Raises ''TypeError'') | Inr i \<Rightarrow> Inr i)"

definition extract_usage :: "pylib \<Rightarrow> (ustr \<times> ustr jsn) list \<Rightarrow> ExtractedUsage svc" where
  "extract_usage lib data =
     sbind (dict_or_empty (get data ''usage'')) (\<lambda>usage.
     sbind (int_or_zero lib (get usage ''prompt_tokens'') (get usage ''input_tokens'')) (\<lambda>inp.
     sbind (int_or_zero lib (get usage ''completion_tokens'') (get usage ''output_tokens'')) (\<lambda>out.
     sbind (dict_or_empty (get usage ''prompt_tokens_details'')) (\<lambda>prompt.
     sbind (int_or_zero lib (get prompt ''cached_tokens'') (get usage ''cached_tokens'')) (\<lambda>cached.
     sbind (dict_or_empty (get usage ''completion_tokens_details'')) (\<lambda>completion.
     sbind (int_or_zero lib (get completion ''reasoning_tokens'') (get usage ''reasoning_tokens'')) (\<lambda>reasoning.
       Inr \<lparr>eu_input_tokens = inp, eu_output_tokens = out, eu_cached_tokens = cached,
            eu_reasoning_tokens = reasoning, eu_cost = get usage ''cost''\<rparr>)))))))"

record Meter =
  me_provider :: ustr
  me_requested_model :: ustr
  me_data :: "(ustr \<times> ustr jsn) list"
  me_run_id :: ustr
  me_request_id :: ustr
  me_duration_ms :: int
  me_status :: ustr

definition metered_usage :: "pylib \<Rightarrow> Settings \<Rightarrow> VirtualKey \<Rightarrow> Meter \<Rightarrow> ExtractedUsage \<Rightarrow> MeasuredUsage" where
  "metered_usage lib st key me x =
     (let cost_present = eu_cost x \<noteq> JNull; succeeded = (me_status me = u ''success'')
      in \<lparr>mu_litellm_request_id = me_request_id me, mu_workspace_id = vk_workspace_id key,
          mu_user_id = (case vk_user_id key of None \<Rightarrow> [] | Some s \<Rightarrow> s),
          mu_provider = me_provider me,
          mu_model = str_of lib (or_else (get (me_data me) ''model'') (JStr (me_requested_model me))),
          mu_input_tokens = eu_input_tokens x, mu_output_tokens = eu_output_tokens x,
          mu_cached_tokens = eu_cached_tokens x, mu_reasoning_tokens = eu_reasoning_tokens x,
          mu_duration_ms = me_duration_ms me, mu_request_status = me_status me,
          mu_upstream_cost = (if cost_present then Verbatim (str_of lib (eu_cost x)) else Canonical 0),
          mu_currency = (if default_currency st \<noteq> [] then default_currency st else u ''USD''),
          mu_team_id = vk_team_id key, mu_run_id = Some (me_run_id me),
          mu_trace_event_id = Some (me_request_id me), mu_repository_id = None,
          mu_application_name = None, mu_engine = None, mu_phase = None,
          mu_environment = vk_environment_id key, mu_retry_of = None,
          mu_idempotency_key = Some (me_request_id me),
          mu_provider_request_id = opt_str lib (get (me_data me) ''id''), mu_error_category = None,
          mu_genesis_calculated_cost = None,
          mu_cost_source = (if cost_present then ProviderReported else UnknownCost),
          mu_reconciliation_state = (if cost_present \<or> \<not> succeeded then Resolved else NeedsReconciliation),
          mu_project_id = vk_project_id key, mu_virtual_key_id = Some (vk_id key)\<rparr>)"

text \<open>\<open>_meter\<close>: the retail cost, if a charge was made; a \<open>BillingError\<close> of the charge is swallowed.\<close>

definition charge_metered ::
  "Settings \<Rightarrow> Books \<Rightarrow> int \<Rightarrow> ustr \<Rightarrow> ustr \<Rightarrow> ustr \<Rightarrow> rat option served" where
  "charge_metered st bk now ci ti i =
     (if \<not> billing_enabled st then (Inr None, bk)
      else case charge_usage bk st now ci ti i of
        Inl (Refused _ _) \<Rightarrow> (Inr None, bk)
      | Inl (Raises e) \<Rightarrow> (Inl (Raises e), bk)
      | Inr (c, _, bk') \<Rightarrow> (Inr (map_option uc_retail_cost c), bk'))"

definition meter ::
  "pylib \<Rightarrow> Settings \<Rightarrow> VirtualKey \<Rightarrow> Books \<Rightarrow> int \<Rightarrow> ustr \<times> ustr \<times> ustr \<Rightarrow> Meter \<Rightarrow> rat option served" where
  "meter lib st key bk now ids me =
     (case extract_usage lib (me_data me) of
        Inl e \<Rightarrow> (Inl e, bk)
      | Inr x \<Rightarrow>
          (case ids of (ui, ci, ti) \<Rightarrow>
             (case record_usage bk now ui (metered_usage lib st key me x) of
                Inl e \<Rightarrow> (Inl e, bk)
              | Inr (r, created, bk1) \<Rightarrow>
                  charge_metered st (price_if_new created bk1 (ur_id r)) now ci ti (ur_id r))))"

section \<open>One completion\<close>

text \<open>The checks before the provider is called; the result is the run id.\<close>

definition admit ::
  "Settings \<Rightarrow> VirtualKey \<Rightarrow> Books \<Rightarrow> int \<Rightarrow> ustr \<Rightarrow> ustr \<Rightarrow> ustr \<Rightarrow> unit served" where
  "admit st key bk now model run_id request_id =
     (case check_permitted key (provider_of model) model of
        Inl e \<Rightarrow> (Inl e, bk)
      | Inr _ \<Rightarrow>
          (case reserve_or_402 st key bk now request_id of
             (Inl e, bk1) \<Rightarrow> (Inl e, bk1)
           | (Inr _, bk1) \<Rightarrow> enforce_limits_or_deny st key bk1 now run_id request_id))"

definition give_back :: "Settings \<Rightarrow> VirtualKey \<Rightarrow> Books \<Rightarrow> ustr \<Rightarrow> Books" where
  "give_back st key bk request_id = release_limits (release_hold st key bk request_id) request_id"

definition meter_of :: "ustr \<Rightarrow> ustr \<Rightarrow> ustr \<Rightarrow> (ustr \<times> ustr jsn) list \<Rightarrow> int \<Rightarrow> string \<Rightarrow> Meter" where
  "meter_of model run_id request_id data duration status =
     \<lparr>me_provider = provider_of model, me_requested_model = model, me_data = data, me_run_id = run_id,
      me_request_id = request_id, me_duration_ms = duration, me_status = u status\<rparr>"

definition account_answer ::
  "pylib \<Rightarrow> Settings \<Rightarrow> VirtualKey \<Rightarrow> Books \<Rightarrow> int \<Rightarrow> ustr \<times> ustr \<times> ustr \<Rightarrow> Meter \<Rightarrow> unit served" where
  "account_answer lib st key bk now ids me =
     (case meter lib st key bk now ids me of
        (Inl e, bk') \<Rightarrow> (Inl e, bk')
      | (Inr retail, bk') \<Rightarrow> (Inr (), reconcile_limits bk' (me_request_id me) retail))"

text \<open>The provider failed after the holds: they are given back and the failed attempt is recorded.\<close>

definition account_failure ::
  "pylib \<Rightarrow> Settings \<Rightarrow> VirtualKey \<Rightarrow> Books \<Rightarrow> int \<Rightarrow> ustr \<times> ustr \<times> ustr \<Rightarrow> Meter \<Rightarrow> svc_error \<Rightarrow> 'a served" where
  "account_failure lib st key bk now ids me raised =
     (case meter lib st key (give_back st key bk (me_request_id me)) now ids me of
        (Inl e, bk') \<Rightarrow> (Inl e, bk')
      | (Inr _, bk') \<Rightarrow> (Inl raised, bk'))"

text \<open>What follows the provider call.  The times are those of the call's end.\<close>

definition account ::
  "pylib \<Rightarrow> Settings \<Rightarrow> VirtualKey \<Rightarrow> Books \<Rightarrow> int \<Rightarrow> ustr \<times> ustr \<times> ustr \<Rightarrow> ustr \<Rightarrow> ustr \<Rightarrow> ustr \<Rightarrow>
   int \<Rightarrow> upstream \<Rightarrow> (ustr \<times> ustr jsn) list served" where
  "account lib st key bk now ids model run_id request_id duration_ms outcome =
     (case outcome of
        UpstreamRefused e \<Rightarrow> (Inl e, give_back st key bk request_id)
      | UpstreamCrashed \<Rightarrow>
          account_failure lib st key bk now ids (meter_of model run_id request_id [] 0 ''error'')
            (GatewayError ''provider_error'' 502)
      | Answer data \<Rightarrow>
          (case account_answer lib st key bk now ids
              (meter_of model run_id request_id data duration_ms ''success'') of
             (Inl e, bk') \<Rightarrow> (Inl e, bk')
           | (Inr _, bk') \<Rightarrow> (Inr data, bk')))"

definition handle_chat_completion ::
  "pylib \<Rightarrow> Settings \<Rightarrow> VirtualKey \<Rightarrow> Books \<Rightarrow> int \<Rightarrow> int \<Rightarrow> ustr \<times> ustr \<times> ustr \<Rightarrow> ustr \<Rightarrow>
   (ustr \<Rightarrow> (ustr \<times> ustr jsn) list \<Rightarrow> upstream) \<Rightarrow> ustr jsn \<Rightarrow> ustr option \<Rightarrow> ustr \<Rightarrow>
   (ustr \<times> ustr jsn) list served" where
  "handle_chat_completion lib st key bk now later ids fresh_run forward raw header_run_id request_id =
     (case raw of
        JObj body \<Rightarrow>
          (if \<not> truthy (get body ''model'') then (Inl (GatewayError ''invalid_request'' 400), bk)
           else case get body ''model'' of
             JStr model \<Rightarrow>
               (let run_id = resolve_run_id lib fresh_run body header_run_id
                in case admit st key bk now model run_id request_id of
                  (Inl e, bk1) \<Rightarrow> (Inl e, bk1)
                | (Inr _, bk1) \<Rightarrow>
                    account lib st key bk1 later ids model run_id request_id ((later - now) div 1000)
                      (forward (provider_of model) (sanitize body model)))
           | JList _ \<Rightarrow> (Inl (Raises ''AttributeError''), bk)
           | JObj _ \<Rightarrow> (Inl (Raises ''AttributeError''), bk)
           | _ \<Rightarrow> (Inl (Raises ''TypeError''), bk))
      | _ \<Rightarrow> (Inl (GatewayError ''invalid_request'' 400), bk))"

text \<open>The payload of the streaming flow.\<close>

definition stream_payload :: "(ustr \<times> ustr jsn) list \<Rightarrow> ustr \<Rightarrow> (ustr \<times> ustr jsn) list" where
  "stream_payload body model =
     AList.update (u ''stream_options'') (JObj [(u ''include_usage'', JBool True)])
       (AList.update (u ''stream'') (JBool True) (sanitize body model))"

text \<open>
  How a stream ends: with the data of its usage chunk, if one came; by an exception of the provider; or
  because the client is gone, which closes the generator with \<open>GeneratorExit\<close>.  That is not an
  \<open>Exception\<close>, so neither the handler nor the code after the loop runs.
\<close>

datatype stream_end = StreamDone "(ustr \<times> ustr jsn) list option" | StreamFailed string | StreamClosed

definition account_stream ::
  "pylib \<Rightarrow> Settings \<Rightarrow> VirtualKey \<Rightarrow> Books \<Rightarrow> int \<Rightarrow> ustr \<times> ustr \<times> ustr \<Rightarrow> ustr \<Rightarrow> ustr \<Rightarrow> ustr \<Rightarrow>
   int \<Rightarrow> stream_end \<Rightarrow> unit served" where
  "account_stream lib st key bk now ids model run_id request_id duration_ms outcome =
     (case outcome of
        StreamDone captured \<Rightarrow>
          account_answer lib st key bk now ids (meter_of model run_id request_id
            (case captured of None \<Rightarrow> [] | Some data \<Rightarrow> data) duration_ms ''success'')
      | StreamFailed e \<Rightarrow>
          account_failure lib st key bk now ids (meter_of model run_id request_id [] 0 ''error'') (Raises e)
      | StreamClosed \<Rightarrow> (Inl (Raises ''GeneratorExit''), bk))"

definition stream_chat_completion ::
  "pylib \<Rightarrow> Settings \<Rightarrow> VirtualKey \<Rightarrow> Books \<Rightarrow> int \<Rightarrow> int \<Rightarrow> ustr \<times> ustr \<times> ustr \<Rightarrow> ustr \<Rightarrow>
   (ustr \<Rightarrow> (ustr \<times> ustr jsn) list \<Rightarrow> stream_end) \<Rightarrow> (ustr \<times> ustr jsn) list \<Rightarrow> ustr option \<Rightarrow> ustr \<Rightarrow>
   unit served" where
  "stream_chat_completion lib st key bk now later ids fresh_run forward body header_run_id request_id =
     (case map_of body (u ''model'') of
        Some (JStr model) \<Rightarrow>
          (let run_id = resolve_run_id lib fresh_run body header_run_id
           in case admit st key bk now model run_id request_id of
             (Inl e, bk1) \<Rightarrow> (Inl e, bk1)
           | (Inr _, bk1) \<Rightarrow>
               account_stream lib st key bk1 later ids model run_id request_id ((later - now) div 1000)
                 (forward (provider_of model) (stream_payload body model)))
      | Some _ \<Rightarrow> (Inl (Raises ''TypeError''), bk)
      | None \<Rightarrow> (Inl (Raises ''KeyError''), bk))"

section \<open>The forwarded payload\<close>

lemma dom_forwarded: "fst ` set (sanitize body model) \<subseteq> set FORWARD_FIELDS"
proof -
  let ?kvs = "concat (map (\<lambda>k. case map_of body k of None \<Rightarrow> [] | Some v \<Rightarrow> [(k, v)]) FORWARD_FIELDS)"
  have "fst ` set ?kvs \<subseteq> set FORWARD_FIELDS" by (auto split: option.splits)
  moreover have "u ''model'' \<in> set FORWARD_FIELDS" by (simp add: FORWARD_FIELDS_def)
  ultimately show ?thesis unfolding sanitize_def dom_update by auto
qed

lemma forwarded_model: "map_of (sanitize body model) (u ''model'') = Some (JStr model)"
  by (simp add: sanitize_def update_conv)

section \<open>Holds after a request\<close>

definition idle_hold :: "ustr \<Rightarrow> Books \<Rightarrow> bool" where
  "idle_hold k bk \<longleftrightarrow> list_all (\<lambda>h. br_reservation_key h = k \<longrightarrow> br_status h \<noteq> HoldActive) (bk_holds bk)"

definition idle_limits :: "ustr \<Rightarrow> Books \<Rightarrow> bool" where
  "idle_limits k bk \<longleftrightarrow>
     list_all (\<lambda>h. lr_reservation_key h = k \<longrightarrow> lr_status h \<noteq> HoldActive) (bk_limit_holds bk)"

lemma idle_hold_cong: "bk_holds bk' = bk_holds bk \<Longrightarrow> idle_hold k bk' = idle_hold k bk"
  by (simp add: idle_hold_def)

lemma idle_limits_cong: "bk_limit_holds bk' = bk_limit_holds bk \<Longrightarrow> idle_limits k bk' = idle_limits k bk"
  by (simp add: idle_limits_def)

lemma finished_idle: "status \<noteq> HoldActive \<Longrightarrow> idle_hold k (finish_hold status bk k)"
  using finished_hold_is_over [of status _ bk k] by (auto simp: idle_hold_def list_all_iff)

lemma finished_limits_idle: "status \<noteq> HoldActive \<Longrightarrow> idle_limits k (finish_holds status bk k q)"
  using finish_holds_over [of _ status bk k q] by (auto simp: idle_limits_def list_all_iff)

lemma finish_hold_limits [simp]: "idle_limits k (finish_hold status bk k') = idle_limits k bk"
  by (rule idle_limits_cong) simp

lemma finish_holds_hold [simp]: "idle_hold k (finish_holds status bk k' q) = idle_hold k bk"
  by (rule idle_hold_cong) simp

text \<open>A hold exists only where the gateway also releases and settles.\<close>

definition releasable :: "Settings \<Rightarrow> VirtualKey \<Rightarrow> ustr \<Rightarrow> Books \<Rightarrow> bool" where
  "releasable st key k bk \<longleftrightarrow> billing_enabled st \<and> vk_workspace_id key \<noteq> [] \<or> idle_hold k bk"

lemma release_hold_idle: "releasable st key k bk \<Longrightarrow> idle_hold k (release_hold st key bk k)"
  by (auto simp: releasable_def release_hold_def release_def finished_idle)

lemma release_hold_limits [simp]: "idle_limits k (release_hold st key bk k') = idle_limits k bk"
  by (simp add: release_hold_def release_def)

lemma give_back_idle:
  "releasable st key k bk \<Longrightarrow> idle_hold k (give_back st key bk k) \<and> idle_limits k (give_back st key bk k)"
  by (simp add: give_back_def release_limits_def finished_limits_idle release_hold_idle)

lemma reserve_or_402_result:
  assumes "reserve_or_402 st key bk now k = (res, bk')" "idle_hold k bk"
  shows "releasable st key k bk'" "bk_limit_holds bk' = bk_limit_holds bk" "bk_usage bk' = bk_usage bk"
    "bk_txns bk' = bk_txns bk" "bk_charges bk' = bk_charges bk" "bk_prices bk' = bk_prices bk"
    "res = Inl e \<Longrightarrow> bk' = bk"
  using assms
  by (auto simp: reserve_or_402_def releasable_def balance_blocking_enabled_def reserve_def
      split: if_splits option.splits)

lemma enforce_limits_result:
  assumes "enforce_limits_or_deny st key bk now run_id k = (res, bk')" "idle_limits k bk" "releasable st key k bk"
  shows "releasable st key k bk'" "bk_usage bk' = bk_usage bk" "bk_txns bk' = bk_txns bk"
    "bk_charges bk' = bk_charges bk" "bk_prices bk' = bk_prices bk"
    "res = Inl (Refused c n) \<Longrightarrow> idle_hold k bk' \<and> idle_limits k bk'"
proof -
  let ?ev = "evaluate bk now (limit_context key run_id) (balance_reserve_estimate_usd st) k"
  have all: "releasable st key k bk' \<and> bk_usage bk' = bk_usage bk \<and> bk_txns bk' = bk_txns bk \<and>
    bk_charges bk' = bk_charges bk \<and> bk_prices bk' = bk_prices bk \<and>
    (res = Inl (Refused c n) \<longrightarrow> idle_hold k bk' \<and> idle_limits k bk')"
  proof (cases "vk_workspace_id key = []")
    case True
    with assms show ?thesis by (auto simp: enforce_limits_or_deny_def)
  next
    case ws: False
    show ?thesis
    proof (cases ?ev)
      case (Inl e)
      with assms(1) ws have "bk' = bk" "res = Inl e" by (auto simp: enforce_limits_or_deny_def)
      moreover have "e = Raises ''IntegrityError''" using Inl
        by (auto simp: evaluate_def Let_def split: if_splits)
      ultimately show ?thesis using assms(3) by simp
    next
      case (Inr p)
      obtain r bk1 where p: "p = (r, bk1)" by (cases p)
      with Inr have ev: "?ev = Inr (r, bk1)" by simp
      note frame = evaluate_frame [OF ev]
      have rel: "releasable st key k bk1"
        using assms(3) idle_hold_cong [of bk1 bk k] frame by (simp add: releasable_def)
      show ?thesis
      proof (cases "er_result r = LimitBlock")
        case True
        with assms(1) ws ev have out: "res = Inl (GatewayError ''spending_limit_exceeded'' 402)"
          "bk' = release_hold st key bk1 k" by (auto simp: enforce_limits_or_deny_def)
        from ev True have "bk_limit_holds bk1 = bk_limit_holds bk" by (auto elim: evaluate_cases)
        with assms(2) have "idle_limits k bk1" using idle_limits_cong [of bk1 bk k] by simp
        with rel frame out release_hold_idle [OF rel] show ?thesis
          by (auto simp: releasable_def release_hold_def release_def)
      next
        case False
        with assms(1) ws ev have "res = Inr ()" "bk' = bk1" by (auto simp: enforce_limits_or_deny_def)
        with rel frame show ?thesis by simp
      qed
    qed
  qed
  then show "releasable st key k bk'" "bk_usage bk' = bk_usage bk" "bk_txns bk' = bk_txns bk"
    "bk_charges bk' = bk_charges bk" "bk_prices bk' = bk_prices bk"
    "res = Inl (Refused c n) \<Longrightarrow> idle_hold k bk' \<and> idle_limits k bk'" by blast+
qed

subsection \<open>Metering\<close>

lemma priced_row_identity:
  "price_row bk r = Inr r' \<Longrightarrow> ur_id r' = ur_id r \<and> mu_trace_event_id r' = mu_trace_event_id r \<and>
   mu_litellm_request_id r' = mu_litellm_request_id r \<and> mu_workspace_id r' = mu_workspace_id r"
  by (auto simp: price_row_def priced_row_def flagged_def Let_def sbind_Inr_iff split: option.splits if_splits)

lemma price_if_new_frame [simp]:
  "bk_holds (price_if_new c bk i) = bk_holds bk" "bk_limit_holds (price_if_new c bk i) = bk_limit_holds bk"
  "bk_txns (price_if_new c bk i) = bk_txns bk" "bk_charges (price_if_new c bk i) = bk_charges bk"
  "bk_grants (price_if_new c bk i) = bk_grants bk"
  by (auto simp: price_if_new_def price_usage_record_def sbind_def split: sum.split option.split)

text \<open>Pricing keeps the row under its id, with its trace.\<close>

lemma price_if_new_row:
  assumes "usage_of bk i = Some r"
  obtains r' where "usage_of (price_if_new c bk i) i = Some r'" "mu_trace_event_id r' = mu_trace_event_id r"
proof (cases "c \<and> (\<exists>r'. price_row bk r = Inr r')")
  case True
  then obtain r' where p: "price_row bk r = Inr r'" by blast
  note same = priced_row_identity [OF p]
  have "find (\<lambda>x. ur_id x = i) (change_where (\<lambda>x. ur_id x = i) (\<lambda>_. r') rows) =
    map_option (\<lambda>_. r') (find (\<lambda>x. ur_id x = i) rows)" for rows
    using same usage_of_some [OF assms] by (induction rows) (auto simp: change_where_def)
  then have "usage_of (price_if_new c bk i) i = Some r'"
    using True p assms by (simp add: price_if_new_def price_usage_record_def usage_of_def)
  with that same show thesis by blast
next
  case False
  then have "price_if_new c bk i = bk"
    using assms by (auto simp: price_if_new_def price_usage_record_def sbind_def split: sum.split)
  with that assms show thesis by simp
qed

definition fresh_request :: "Books \<Rightarrow> ustr \<Rightarrow> ustr \<Rightarrow> bool" where
  "fresh_request bk k i \<longleftrightarrow> k \<noteq> [] \<and>
     list_all (\<lambda>r. mu_litellm_request_id r \<noteq> k \<and> mu_idempotency_key r \<noteq> Some k \<and> ur_id r \<noteq> i) (bk_usage bk)"

lemma record_fresh:
  assumes "fresh_request bk (mu_litellm_request_id m) i" "mu_idempotency_key m = Some (mu_litellm_request_id m)"
  shows "record_usage bk now i m = Inr (usage_row now i m, True, bk\<lparr>bk_usage := bk_usage bk @ [usage_row now i m]\<rparr>)"
proof -
  have "find (\<lambda>r. mu_litellm_request_id r = mu_litellm_request_id m) (bk_usage bk) = None"
    using assms(1) by (auto simp: find_None_iff fresh_request_def list_all_iff)
  moreover have "find (\<lambda>r. mu_idempotency_key r = Some (mu_litellm_request_id m)) (bk_usage bk) = None"
    using assms(1) by (auto simp: find_None_iff fresh_request_def list_all_iff)
  moreover have "\<not> key_taken bk m"
    using assms by (auto simp: key_taken_def fresh_request_def list_all_iff)
  ultimately show ?thesis using assms(2) by (simp add: record_usage_def find_existing_def)
qed

lemma usage_row_facts [simp]:
  "ur_id (usage_row now i m) = i" "mu_trace_event_id (usage_row now i m) = mu_trace_event_id m"
  "mu_litellm_request_id (usage_row now i m) = mu_litellm_request_id m"
  by (simp_all add: usage_row_def MeasuredUsage.defs)

lemma recorded_usage_of:
  "fresh_request bk k i \<Longrightarrow> usage_of (bk\<lparr>bk_usage := bk_usage bk @ [usage_row now i m]\<rparr>) i = Some (usage_row now i m)"
proof -
  assume "fresh_request bk k i"
  then have "find (\<lambda>r. ur_id r = i) (bk_usage bk) = None"
    by (auto simp: find_None_iff fresh_request_def list_all_iff)
  then show ?thesis by (simp add: usage_of_def find_append)
qed

lemma charge_settles:
  assumes "charge_usage bk st now ci ti i = Inr (c, created, bk')" "usage_of bk i = Some r"
    "mu_trace_event_id r = Some k" "k \<noteq> []"
  shows "idle_hold k bk' \<and> bk_limit_holds bk' = bk_limit_holds bk"
proof -
  have settled: "idle_hold k (settle_for bk r)"
    using assms(3,4) by (simp add: settle_for_def settle_reservation_def finished_idle)
  show ?thesis using assms(1)
    by (cases rule: charge_usage_cases)
      (use assms(2) settled idle_hold_cong [of bk' "settle_for bk r" k] in auto)
qed

lemma metered_identity [simp]:
  "mu_litellm_request_id (metered_usage lib st key me x) = me_request_id me"
  "mu_idempotency_key (metered_usage lib st key me x) = Some (me_request_id me)"
  "mu_trace_event_id (metered_usage lib st key me x) = Some (me_request_id me)"
  by (simp_all add: metered_usage_def Let_def)

lemma charge_metered_result:
  assumes "charge_metered st bk now ci ti i = (Inr q, bk')" "usage_of bk i = Some r"
    "mu_trace_event_id r = Some k" "k \<noteq> []" "billing_enabled st \<or> idle_hold k bk"
  shows "idle_hold k bk' \<and> bk_limit_holds bk' = bk_limit_holds bk"
proof (cases "billing_enabled st")
  case True
  have no: "charge_usage bk st now ci ti i \<noteq> Inl (Refused a b)" for a b
    using assms(2)
    by (auto simp: charge_usage_def charge_new_def sbind_def quote_basis_def Let_def
        split: option.splits sum.splits dec.splits if_splits)
  with True assms(1) obtain c created where "charge_usage bk st now ci ti i = Inr (c, created, bk')"
    by (auto simp: charge_metered_def split: sum.splits svc_error.splits)
  from charge_settles [OF this assms(2-4)] show ?thesis .
next
  case False
  with assms show ?thesis by (auto simp: charge_metered_def)
qed

lemma meter_result:
  assumes "meter lib st key bk now (ui, ci, ti) me = (Inr q, bk')"
    "fresh_request bk (me_request_id me) ui" "releasable st key (me_request_id me) bk"
  shows "idle_hold (me_request_id me) bk' \<and> bk_limit_holds bk' = bk_limit_holds bk"
proof -
  let ?k = "me_request_id me"
  from assms(1) obtain x where x: "extract_usage lib (me_data me) = Inr x"
    by (auto simp: meter_def split: sum.splits)
  let ?m = "metered_usage lib st key me x"
  let ?bk1 = "bk\<lparr>bk_usage := bk_usage bk @ [usage_row now ui ?m]\<rparr>"
  have rec: "record_usage bk now ui ?m = Inr (usage_row now ui ?m, True, ?bk1)"
    using assms(2) by (intro record_fresh) simp_all
  have row: "usage_of ?bk1 ui = Some (usage_row now ui ?m)"
    using assms(2) by (rule recorded_usage_of)
  obtain r' where r': "usage_of (price_if_new True ?bk1 ui) ui = Some r'"
    "mu_trace_event_id r' = mu_trace_event_id (usage_row now ui ?m)"
    by (rule price_if_new_row [OF row])
  have "charge_metered st (price_if_new True ?bk1 ui) now ci ti ui = (Inr q, bk')"
    using assms(1) x rec by (simp add: meter_def)
  moreover have "billing_enabled st \<or> idle_hold ?k (price_if_new True ?bk1 ui)"
    using assms(3) idle_hold_cong [of "price_if_new True ?bk1 ui" bk ?k] by (auto simp: releasable_def)
  ultimately have "idle_hold ?k bk' \<and> bk_limit_holds bk' = bk_limit_holds (price_if_new True ?bk1 ui)"
    using r' assms(2) by (intro charge_metered_result) (auto simp: fresh_request_def)
  then show ?thesis by simp
qed

text \<open>Metering fails only with an exception that nothing catches.\<close>

lemma sbind_raises:
  assumes "sbind m f = Inl e" "\<And>e. m = Inl e \<Longrightarrow> \<exists>name. e = Raises name"
    "\<And>x e. f x = Inl e \<Longrightarrow> \<exists>name. e = Raises name"
  shows "\<exists>name. e = Raises name"
  using assms by (cases m) auto

lemma extract_usage_raises: "extract_usage lib data = Inl e \<Longrightarrow> \<exists>name. e = Raises name"
proof -
  have dict: "\<exists>name. e = Raises name" if "dict_or_empty v = Inl e" for v e
    using that by (auto simp: dict_or_empty_def split: jsn.splits)
  have int: "\<exists>name. e = Raises name" if "int_or_zero lib a b = Inl e" for a b e
    using that by (auto simp: int_or_zero_def split: sum.splits tool_error.splits py_error.splits)
  show "extract_usage lib data = Inl e \<Longrightarrow> \<exists>name. e = Raises name"
    unfolding extract_usage_def
    by (erule sbind_raises, erule dict, erule sbind_raises, erule int, erule sbind_raises, erule int,
        erule sbind_raises, erule dict, erule sbind_raises, erule int, erule sbind_raises, erule dict,
        erule sbind_raises, erule int, simp)
qed

lemma charge_metered_raises: "charge_metered st bk now ci ti i = (Inl e, bk') \<Longrightarrow> \<exists>name. e = Raises name"
  by (cases "charge_usage bk st now ci ti i")
    (auto simp: charge_metered_def split: if_splits svc_error.splits)

lemma record_usage_raises: "record_usage bk now i m = Inl e \<Longrightarrow> \<exists>name. e = Raises name"
  by (auto simp: record_usage_def split: option.splits if_splits)

lemma meter_raises:
  assumes "meter lib st key bk now ids me = (Inl e, bk')" shows "\<exists>name. e = Raises name"
proof -
  obtain ui ci ti where ids: "ids = (ui, ci, ti)" by (cases ids)
  show ?thesis
  proof (cases "extract_usage lib (me_data me)")
    case (Inl h)
    with assms extract_usage_raises [OF Inl] show ?thesis by (simp add: meter_def)
  next
    case (Inr x)
    show ?thesis
    proof (cases "record_usage bk now ui (metered_usage lib st key me x)")
      case rec: (Inl h)
      with assms Inr ids record_usage_raises [OF rec] show ?thesis by (simp add: meter_def)
    next
      case rec: (Inr p)
      obtain r c b where "p = (r, c, b)" by (cases p)
      with assms Inr ids rec show ?thesis by (auto simp: meter_def dest: charge_metered_raises)
    qed
  qed
qed

subsection \<open>The whole request\<close>

lemma admit_result:
  assumes "admit st key bk now model run_id k = (res, bk')" "idle_hold k bk" "idle_limits k bk"
  shows "releasable st key k bk'" "bk_usage bk' = bk_usage bk" "bk_txns bk' = bk_txns bk"
    "bk_charges bk' = bk_charges bk" "res = Inl (Refused c n) \<Longrightarrow> idle_hold k bk' \<and> idle_limits k bk'"
proof -
  have all: "releasable st key k bk' \<and> bk_usage bk' = bk_usage bk \<and> bk_txns bk' = bk_txns bk \<and>
    bk_charges bk' = bk_charges bk \<and> (res = Inl (Refused c n) \<longrightarrow> idle_hold k bk' \<and> idle_limits k bk')"
  proof (cases "check_permitted key (provider_of model) model")
    case (Inl e)
    with assms show ?thesis by (auto simp: admit_def releasable_def)
  next
    case (Inr un)
    obtain r1 bk1 where r: "reserve_or_402 st key bk now k = (r1, bk1)" by (cases "reserve_or_402 st key bk now k")
    note one = reserve_or_402_result [OF r assms(2)]
    show ?thesis
    proof (cases r1)
      case (Inl e)
      with assms(1) r Inr have "res = Inl e" "bk' = bk1" by (simp_all add: admit_def)
      with one(7) [OF Inl] assms(2,3) show ?thesis by (simp add: releasable_def)
    next
      case ok: (Inr un')
      have "idle_limits k bk1" using assms(3) idle_limits_cong [OF one(2)] by simp
      moreover have "enforce_limits_or_deny st key bk1 now run_id k = (res, bk')"
        using assms(1) r Inr ok by (simp add: admit_def)
      ultimately show ?thesis using enforce_limits_result [OF _ _ one(1)] one by (metis)
    qed
  qed
  then show "releasable st key k bk'" "bk_usage bk' = bk_usage bk" "bk_txns bk' = bk_txns bk"
    "bk_charges bk' = bk_charges bk" "res = Inl (Refused c n) \<Longrightarrow> idle_hold k bk' \<and> idle_limits k bk'"
    by blast+
qed

lemma fresh_request_cong: "bk_usage bk' = bk_usage bk \<Longrightarrow> fresh_request bk' k i = fresh_request bk k i"
  by (simp add: fresh_request_def)

lemma give_back_frame [simp]:
  "bk_usage (give_back st key bk k) = bk_usage bk" "bk_txns (give_back st key bk k) = bk_txns bk"
  "bk_charges (give_back st key bk k) = bk_charges bk"
  by (simp_all add: give_back_def release_limits_def release_hold_def release_def)

lemma account_answer_idle:
  assumes "account_answer lib st key bk now (ui, ci, ti) me = (Inr x, bk')"
    "fresh_request bk (me_request_id me) ui" "releasable st key (me_request_id me) bk"
  shows "idle_hold (me_request_id me) bk' \<and> idle_limits (me_request_id me) bk'"
proof -
  from assms(1) obtain q bk1 where m: "meter lib st key bk now (ui, ci, ti) me = (Inr q, bk1)"
    and b: "bk' = reconcile_limits bk1 (me_request_id me) q"
    by (auto simp: account_answer_def split: prod.splits sum.splits)
  from meter_result [OF m assms(2,3)] show ?thesis
    by (simp add: b reconcile_limits_def finished_limits_idle)
qed

lemma account_failure_idle:
  assumes "account_failure lib st key bk now (ui, ci, ti) me e = (Inl e', bk')"
    "fresh_request bk (me_request_id me) ui" "releasable st key (me_request_id me) bk"
    "\<And>name. e' \<noteq> Raises name"
  shows "idle_hold (me_request_id me) bk' \<and> idle_limits (me_request_id me) bk'"
proof -
  let ?k = "me_request_id me" and ?b = "give_back st key bk (me_request_id me)"
  note idle = give_back_idle [OF assms(3)]
  obtain r bk1 where m: "meter lib st key ?b now (ui, ci, ti) me = (r, bk1)"
    by (cases "meter lib st key ?b now (ui, ci, ti) me")
  show ?thesis
  proof (cases r)
    case (Inl f)
    \<comment> \<open>only an exception ends the metering early\<close>
    with assms(1) m have "e' = f" by (simp add: account_failure_def)
    moreover have "\<exists>name. f = Raises name" using m unfolding Inl by (rule meter_raises)
    ultimately show ?thesis using assms(4) by blast
  next
    case (Inr q)
    have "fresh_request ?b ?k ui" using assms(2) by (simp add: fresh_request_def)
    moreover have "releasable st key ?k ?b" using idle by (simp add: releasable_def)
    ultimately have "idle_hold ?k bk1 \<and> bk_limit_holds bk1 = bk_limit_holds ?b"
      using m unfolding Inr by (intro meter_result)
    moreover have "bk' = bk1" using assms(1) m Inr by (simp add: account_failure_def)
    ultimately show ?thesis using idle idle_limits_cong [of bk1 ?b ?k] by simp
  qed
qed

lemma meter_of_request [simp]: "me_request_id (meter_of model run_id k d n s) = k"
  by (simp add: meter_of_def)

lemma account_idle:
  assumes "account lib st key bk now (ui, ci, ti) model run_id k n outcome = (res, bk')"
    "fresh_request bk k ui" "releasable st key k bk" "\<And>name. res \<noteq> Inl (Raises name)"
  shows "idle_hold k bk' \<and> idle_limits k bk'"
proof (cases outcome)
  case (Answer data)
  let ?me = "meter_of model run_id k data n ''success''"
  obtain r bk1 where a: "account_answer lib st key bk now (ui, ci, ti) ?me = (r, bk1)"
    by (cases "account_answer lib st key bk now (ui, ci, ti) ?me")
  have b: "bk' = bk1" using assms(1) Answer a by (auto simp: account_def split: sum.splits)
  show ?thesis
  proof (cases r)
    case (Inr x)
    from account_answer_idle [OF a [unfolded Inr]] assms(2,3) b show ?thesis by simp
  next
    case (Inl e)
    have "\<exists>name. e = Raises name"
    proof (cases "meter lib st key bk now (ui, ci, ti) ?me")
      case (Pair r' bk2)
      with a Inl have "r' = Inl e" by (cases r') (simp_all add: account_answer_def)
      with Pair meter_raises show ?thesis by metis
    qed
    with assms(1,4) Answer a Inl show ?thesis by (auto simp: account_def)
  qed
next
  case (UpstreamRefused e)
  with assms(1) give_back_idle [OF assms(3)] show ?thesis by (auto simp: account_def)
next
  case UpstreamCrashed
  let ?me = "meter_of model run_id k [] 0 ''error''"
  from assms(1) UpstreamCrashed
  have f: "account_failure lib st key bk now (ui, ci, ti) ?me (GatewayError ''provider_error'' 502) = (res, bk')"
    by (simp add: account_def)
  then obtain e where e: "res = Inl e"
    by (auto simp: account_failure_def split: sum.splits prod.splits)
  from account_failure_idle [OF f [unfolded e]] assms(2-4) e show ?thesis by auto
qed

end
