(* ===== verification/BooksSteps.thy ===== *)
theory BooksSteps
  imports Credits PublicGateway
begin

text \<open>
  The paid service as a whole: every transaction that changes the books as one step, in any order and
  from any caller, and what all runs preserve.  Ids are fresh where a column is a primary key.  A
  \<open>books_step\<close> records whatever measurement it is handed; a \<open>service_step\<close> records only what the two
  callers of \<open>UsageStore.record\<close> make, the usage callback and the public gateway, whose requests are
  shown to be runs of such steps.
\<close>

section \<open>Steps\<close>

inductive books_step :: "Books \<Rightarrow> Books \<Rightarrow> bool" where
  RecordUsage: "record_usage bk now i m = Inr (r, created, bk') \<Longrightarrow>
    i \<notin> ur_id ` set (bk_usage bk) \<Longrightarrow> books_step bk bk'"
| PriceUsage: "price_usage_record bk i = Inr bk' \<Longrightarrow> books_step bk bk'"
| AddPrice: "add_price bk now i p m a b c d cur start src = Inr (new, bk') \<Longrightarrow> books_step bk bk'"
| TopUp: "top_up bk now i w amount key event ref cur = Inr (t, created, bk') \<Longrightarrow> books_step bk bk'"
| Credit: "credit bk now i w amount key cur = Inr (t, created, bk') \<Longrightarrow> books_step bk bk'"
| Refund: "refund bk now i w amount key event ref cur = Inr (t, created, bk') \<Longrightarrow> books_step bk bk'"
| Adjust: "adjustment bk now i w amount key cur = Inr (t, created, bk') \<Longrightarrow> books_step bk bk'"
| Reserve: "reserve bk now w amount key = (ok, bk') \<Longrightarrow> books_step bk bk'"
| Release: "release bk key = bk' \<Longrightarrow> books_step bk bk'"
| ReleaseStale: "release_stale_reservations bk now n = (k, bk') \<Longrightarrow> books_step bk bk'"
| Charge: "charge_usage bk st now ci ti i = Inr (c, created, bk') \<Longrightarrow> books_step bk bk'"
| Grant: "grant_credit bk now gi ti q = Inr (g, created, bk') \<Longrightarrow> books_step bk bk'"
| Reverse: "reverse_grant bk now ri gi op reason = Inr (g, created, bk') \<Longrightarrow> books_step bk bk'"
| CreatePolicy: "create_policy bk i pq = Inr (p, bk') \<Longrightarrow> books_step bk bk'"
| UpdatePolicy: "update_policy bk w i changes = Inr (p, bk') \<Longrightarrow> books_step bk bk'"
| Evaluate: "evaluate bk now ctx estimate key = Inr (res, bk') \<Longrightarrow> books_step bk bk'"
| FinishHolds: "finish_holds status bk key actual = bk' \<Longrightarrow> status \<noteq> HoldActive \<Longrightarrow> books_step bk bk'"

definition books_reachable :: "Books \<Rightarrow> bool" where
  "books_reachable bk \<longleftrightarrow> books_step\<^sup>*\<^sup>* empty_books bk"

text \<open>The tables that policies, prices and usage do not touch.\<close>

lemma record_usage_frame:
  "record_usage bk now i m = Inr (r, created, bk') \<Longrightarrow>
   bk_txns bk' = bk_txns bk \<and> bk_charges bk' = bk_charges bk \<and> bk_holds bk' = bk_holds bk \<and> bk_grants bk' = bk_grants bk"
  by (auto simp: record_usage_def split: option.splits if_splits)

lemma price_usage_frame:
  "price_usage_record bk i = Inr bk' \<Longrightarrow>
   bk_txns bk' = bk_txns bk \<and> bk_charges bk' = bk_charges bk \<and> bk_holds bk' = bk_holds bk \<and> bk_grants bk' = bk_grants bk"
  by (auto simp: price_usage_record_def sbind_Inr_iff split: option.splits)

lemma add_price_frame:
  "add_price bk now i p m a b c d cur start src = Inr (new, bk') \<Longrightarrow>
   bk_txns bk' = bk_txns bk \<and> bk_charges bk' = bk_charges bk \<and> bk_holds bk' = bk_holds bk \<and>
   bk_grants bk' = bk_grants bk \<and> bk_usage bk' = bk_usage bk"
  by (auto simp: add_price_def sbind_Inr_iff Let_def split: if_splits)

lemma create_policy_frame:
  "create_policy bk i q = Inr (p, bk') \<Longrightarrow>
   bk_txns bk' = bk_txns bk \<and> bk_charges bk' = bk_charges bk \<and> bk_holds bk' = bk_holds bk \<and>
   bk_grants bk' = bk_grants bk \<and> bk_usage bk' = bk_usage bk"
  by (auto simp: create_policy_def sbind_Inr_iff Let_def)

lemma update_policy_frame:
  "update_policy bk w i cs = Inr (p, bk') \<Longrightarrow>
   bk_txns bk' = bk_txns bk \<and> bk_charges bk' = bk_charges bk \<and> bk_holds bk' = bk_holds bk \<and>
   bk_grants bk' = bk_grants bk \<and> bk_usage bk' = bk_usage bk"
  by (auto simp: update_policy_def sbind_Inr_iff split: option.splits if_splits)

section \<open>The ledger in every run\<close>

lemma ledger_ok_transfer:
  "books_ok bk \<Longrightarrow> bk_txns bk' = bk_txns bk \<and> bk_charges bk' = bk_charges bk \<and> bk_holds bk' = bk_holds bk \<Longrightarrow>
   books_ok bk'"
  using ledger_ok_cong [of bk bk'] by simp

lemma step_ledger_ok: "books_step bk bk' \<Longrightarrow> books_ok bk \<Longrightarrow> books_ok bk'"
proof (induction rule: books_step.induct)
  case (RecordUsage bk now i m r created bk')
  then show ?case using ledger_ok_transfer [of bk bk'] record_usage_frame [OF RecordUsage(1)] by blast
next
  case (PriceUsage bk i bk')
  then show ?case using ledger_ok_transfer [of bk bk'] price_usage_frame [OF PriceUsage(1)] by blast
next
  case (AddPrice bk now i p m a b c d cur start src new bk')
  then show ?case using ledger_ok_transfer [of bk bk'] add_price_frame [OF AddPrice(1)] by blast
next
  case (CreatePolicy bk i pq p bk')
  then show ?case using ledger_ok_transfer [of bk bk'] create_policy_frame [OF CreatePolicy(1)] by blast
next
  case (UpdatePolicy bk w i changes p bk')
  then show ?case using ledger_ok_transfer [of bk bk'] update_policy_frame [OF UpdatePolicy(1)] by blast
next
  case (Evaluate bk now ctx estimate key res bk')
  then show ?case using ledger_ok_transfer [of bk bk'] evaluate_frame [OF Evaluate(1)] by blast
next
  case (ReleaseStale bk now n k bk')
  then show ?case using release_stale_ok [of bk now n] by simp
next
  case (FinishHolds status bk key actual bk')
  then show ?case using ledger_ok_transfer [of bk bk'] by auto
next
  case (Release bk key bk')
  then show ?case by (auto simp: release_def)
qed (blast intro: top_up_ok credit_ok refund_ok adjustment_ok reserve_ok charge_usage_ok
    grant_credit_ok reverse_grant_ok)+

lemma steps_ledger_ok: "books_step\<^sup>*\<^sup>* bk bk' \<Longrightarrow> books_ok bk \<Longrightarrow> books_ok bk'"
  by (induction rule: rtranclp_induct) (auto intro: step_ledger_ok)

lemma reachable_ledger: "books_reachable bk \<Longrightarrow> books_ok bk"
  unfolding books_reachable_def by (erule steps_ledger_ok) (rule empty_books_ok)

text \<open>History is only appended to.\<close>

definition extends :: "Books \<Rightarrow> Books \<Rightarrow> bool" where
  "extends bk bk' \<longleftrightarrow> prefix (bk_txns bk) (bk_txns bk') \<and> prefix (bk_charges bk) (bk_charges bk')"

lemma extends_frame: "bk_txns bk' = bk_txns bk \<and> bk_charges bk' = bk_charges bk \<Longrightarrow> extends bk bk'"
  by (simp add: extends_def)

lemma add_transaction_extends:
  "add_transaction bk now i q = Inr (t, created, bk') \<Longrightarrow> extends bk bk'"
  by (erule add_transaction_cases) (simp_all add: extends_def)

lemma step_extends: "books_step bk bk' \<Longrightarrow> extends bk bk'"
proof (induction rule: books_step.induct)
  case (TopUp bk now i w amount key event ref cur t created bk')
  then show ?case by (auto simp: top_up_def split: if_splits intro: add_transaction_extends)
next
  case Credit
  then show ?case unfolding credit_def by (rule add_transaction_extends)
next
  case Refund
  then show ?case unfolding refund_def by (rule add_transaction_extends)
next
  case Adjust
  then show ?case unfolding adjustment_def by (rule add_transaction_extends)
next
  case Charge
  then show ?case by (cases rule: charge_usage_cases) (simp_all add: extends_def)
next
  case Grant
  then show ?case by (cases rule: grant_credit_cases) (simp_all add: extends_def)
next
  case Reverse
  then show ?case by (cases rule: reverse_grant_cases) (simp_all add: extends_def)
next
  case (Reserve bk now w amount key ok bk')
  then show ?case using reserve_frame [OF Reserve(1)] extends_frame by blast
next
  case (RecordUsage bk now i m r created bk')
  then show ?case using record_usage_frame [OF RecordUsage(1)] extends_frame by blast
next
  case (PriceUsage bk i bk')
  then show ?case using price_usage_frame [OF PriceUsage(1)] extends_frame by blast
next
  case (AddPrice bk now i p m a b c d cur start src new bk')
  then show ?case using add_price_frame [OF AddPrice(1)] extends_frame by blast
next
  case (CreatePolicy bk i pq p bk')
  then show ?case using create_policy_frame [OF CreatePolicy(1)] extends_frame by blast
next
  case (UpdatePolicy bk w i changes p bk')
  then show ?case using update_policy_frame [OF UpdatePolicy(1)] extends_frame by blast
next
  case (Evaluate bk now ctx estimate key res bk')
  then show ?case using evaluate_frame [OF Evaluate(1)] extends_frame by blast
qed (auto simp: release_def release_stale_reservations_def intro!: extends_frame)

lemma extends_trans: "extends a b \<Longrightarrow> extends b c \<Longrightarrow> extends a c"
  by (auto simp: extends_def intro: prefix_order.trans)

lemma steps_extend: "books_step\<^sup>*\<^sup>* bk bk' \<Longrightarrow> extends bk bk'"
proof (induction rule: rtranclp_induct)
  case base
  show ?case by (simp add: extends_def)
next
  case (step b c)
  then show ?case using step_extends extends_trans by blast
qed

lemma find_prefix: "find P xs = Some x \<Longrightarrow> prefix xs ys \<Longrightarrow> find P ys = Some x"
  by (auto simp: prefix_def find_append)

lemma charge_persists:
  "get_charge_for_usage bk i = Some k \<Longrightarrow> books_step\<^sup>*\<^sup>* bk bk' \<Longrightarrow> get_charge_for_usage bk' i = Some k"
  by (auto simp: get_charge_for_usage_def extends_def dest!: steps_extend intro: find_prefix)

lemma transaction_persists:
  assumes "find_transaction bk key event \<noteq> None" "extends bk bk'"
  shows "find_transaction bk' key event \<noteq> None"
proof -
  have "prefix (bk_txns bk) (bk_txns bk')" using assms(2) by (simp add: extends_def)
  then have "find P (bk_txns bk) \<noteq> None \<Longrightarrow> find P (bk_txns bk') \<noteq> None" for P
    using find_prefix by fastforce
  note keep = this [of "\<lambda>t. bt_idempotency_key t = key"] this [of "\<lambda>t. bt_stripe_event_id t = event"]
  show ?thesis
  proof (cases "find (\<lambda>t. bt_idempotency_key t = key) (bk_txns bk)")
    case None
    with assms(1) keep(2) show ?thesis
      by (cases "find (\<lambda>t. bt_idempotency_key t = key) (bk_txns bk')")
        (auto simp: find_transaction_def split: if_splits)
  next
    case (Some t)
    with keep(1) show ?thesis by (auto simp: find_transaction_def)
  qed
qed

section \<open>What the balance is made of\<close>

lemma sum_list_filter_split:
  "sum_list (map f xs) = sum_list (map f (filter P xs)) + sum_list (map f (filter (\<lambda>x. \<not> P x) xs))"
  for f :: "'a \<Rightarrow> rat"
  by (induction xs) (auto simp: algebra_simps)

lemma ledger_ok_owed: "books_ok bk \<Longrightarrow> map owed (bk_charges bk) = map taken (filter is_debit (bk_txns bk))"
  by (simp add: books_ok_def)

lemma debits_of_charges:
  assumes "map owed cs = map taken ts"
  shows "sum_list (map bt_signed_amount (filter (\<lambda>t. bt_workspace_id t = w) ts)) =
    - sum_list (map uc_retail_cost (filter (\<lambda>c. uc_workspace_id c = w) cs))"
  using assms
proof (induction cs arbitrary: ts)
  case (Cons c cs)
  then obtain t ts' where "ts = t # ts'" "owed c = taken t" "map owed cs = map taken ts'" by auto
  moreover from this Cons.IH have "sum_list (map bt_signed_amount (filter (\<lambda>t. bt_workspace_id t = w) ts')) =
    - sum_list (map uc_retail_cost (filter (\<lambda>c. uc_workspace_id c = w) cs))" by blast
  ultimately show ?case by (auto simp: owed_def taken_def)
qed simp

lemma balance_split:
  assumes "books_ok bk"
  shows "balance bk w =
    sum_list (map bt_signed_amount (filter (\<lambda>t. bt_workspace_id t = w \<and> \<not> is_debit t) (bk_txns bk))) -
    sum_list (map uc_retail_cost (filter (\<lambda>c. uc_workspace_id c = w) (bk_charges bk)))"
proof -
  let ?mine = "filter (\<lambda>t. bt_workspace_id t = w) (bk_txns bk)"
  have owed: "map owed (bk_charges bk) = map taken (filter is_debit (bk_txns bk))"
    using assms by (rule ledger_ok_owed)
  have swap: "filter is_debit ?mine = filter (\<lambda>t. bt_workspace_id t = w) (filter is_debit (bk_txns bk))"
    unfolding filter_filter by (rule filter_cong) auto
  have rest: "filter (\<lambda>t. \<not> is_debit t) ?mine =
      filter (\<lambda>t. bt_workspace_id t = w \<and> \<not> is_debit t) (bk_txns bk)"
    unfolding filter_filter by (rule filter_cong) auto
  have "balance bk w = sum_list (map bt_signed_amount (filter is_debit ?mine)) +
      sum_list (map bt_signed_amount (filter (\<lambda>t. \<not> is_debit t) ?mine))"
    unfolding balance_def by (rule sum_list_filter_split)
  then show ?thesis unfolding swap rest debits_of_charges [OF owed] by linarith
qed

text \<open>The one debit of a charge.\<close>

lemma filter_key:
  assumes "distinct (map g xs)" "t \<in> set xs"
  shows "filter (\<lambda>x. g x = g t) xs = [t]"
  using assms
proof (induction xs)
  case (Cons x xs)
  show ?case
  proof (cases "x = t")
    case True
    with Cons.prems have "g t \<notin> g ` set xs" by simp
    then have "filter (\<lambda>x. g x = g t) xs = []" by (metis (mono_tags, lifting) filter_False image_eqI)
    with True show ?thesis by simp
  next
    case False
    with Cons.prems have "t \<in> set xs" "g x \<noteq> g t" by auto
    with Cons show ?thesis by simp
  qed
qed simp

lemma debit_of_charge:
  assumes "books_ok bk" "k \<in> set (bk_charges bk)"
  shows "\<exists>t. filter (\<lambda>t. bt_idempotency_key t = debit_key (uc_usage_record_id k)) (bk_txns bk) = [t] \<and>
    is_debit t \<and> bt_signed_amount t = - uc_retail_cost k \<and> bt_workspace_id t = uc_workspace_id k"
proof -
  have "owed k \<in> set (map taken (filter is_debit (bk_txns bk)))"
    using assms(2) arg_cong [where f = set] ledger_ok_owed [OF assms(1)] by (metis image_eqI set_map)
  then obtain t where t: "t \<in> set (bk_txns bk)" "is_debit t" "taken t = owed k" by fastforce
  have key: "bt_idempotency_key t = debit_key (uc_usage_record_id k)"
    and facts: "bt_signed_amount t = - uc_retail_cost k" "bt_workspace_id t = uc_workspace_id k"
    using t(3) by (simp_all add: owed_def taken_def)
  have "distinct (map bt_idempotency_key (bk_txns bk))" using assms(1) by (simp add: books_ok_def)
  from filter_key [OF this t(1)] have "filter (\<lambda>t. bt_idempotency_key t = debit_key (uc_usage_record_id k)) (bk_txns bk) = [t]"
    by (simp only: key)
  with t(2) facts show ?thesis by blast
qed

section \<open>Usage records in every run\<close>

lemma change_where_same_id:
  "ur_id r' = i \<Longrightarrow> map ur_id (change_where (\<lambda>x. ur_id x = i) (\<lambda>_. r') rows) = map ur_id rows"
  by (induction rows) (auto simp: change_where_def)

lemma price_usage_row:
  assumes "price_usage_record bk i = Inr bk'"
  obtains "bk' = bk"
    | r r' where "usage_of bk i = Some r" "price_row bk r = Inr r'"
      "bk' = bk\<lparr>bk_usage := change_where (\<lambda>x. ur_id x = i) (\<lambda>_. r') (bk_usage bk)\<rparr>"
  using assms by (auto simp: price_usage_record_def sbind_Inr_iff split: option.splits)

text \<open>What a step does to the usage records: nothing, one more, or one priced.\<close>

lemma charge_usage_keeps_usage: "charge_usage bk st now ci ti i = Inr (c, created, bk') \<Longrightarrow> bk_usage bk' = bk_usage bk"
  by (erule charge_usage_cases) simp_all

lemma grants_keep_usage:
  "grant_credit bk now gi ti q = Inr (g, created, bk') \<Longrightarrow> bk_usage bk' = bk_usage bk"
  "reverse_grant bk now ri gi op reason = Inr (g, created, bk') \<Longrightarrow> bk_usage bk' = bk_usage bk"
  by (erule grant_credit_cases, simp_all) (erule reverse_grant_cases, simp_all)

lemma add_transaction_keeps:
  "add_transaction bk now i q = Inr (t, created, bk') \<Longrightarrow> bk_usage bk' = bk_usage bk \<and> bk_grants bk' = bk_grants bk"
  by (erule add_transaction_cases) simp_all

lemma books_step_usage:
  assumes "books_step bk bk'"
  obtains (same) "bk_usage bk' = bk_usage bk"
    | (new) now i m where "bk_usage bk' = bk_usage bk @ [usage_row now i m]"
      "i \<notin> ur_id ` set (bk_usage bk)"
    | (priced) i r r' where "usage_of bk i = Some r" "price_row bk r = Inr r'"
      "bk_usage bk' = change_where (\<lambda>x. ur_id x = i) (\<lambda>_. r') (bk_usage bk)"
  using assms
proof (cases rule: books_step.cases)
  case (RecordUsage now i m r created)
  then have "bk_usage bk' = bk_usage bk \<or> bk_usage bk' = bk_usage bk @ [usage_row now i m]"
    by (auto simp: record_usage_def split: option.splits if_splits)
  with RecordUsage same new show thesis by blast
next
  case (PriceUsage i)
  then show thesis
  proof (cases rule: price_usage_row)
    case 1
    then show thesis by (intro same) simp
  next
    case (2 r r')
    then show thesis by (intro priced [of i r r']) simp_all
  qed
next
  case (AddPrice now i p m a b c d cur start src new)
  then show thesis using add_price_frame [OF AddPrice(1)] same by blast
next
  case (TopUp now i w amount key event ref cur t created)
  then show thesis by (intro same) (auto simp: top_up_def split: if_splits dest: add_transaction_keeps)
next
  case Credit
  then show thesis unfolding credit_def using add_transaction_keeps same by blast
next
  case Refund
  then show thesis unfolding refund_def using add_transaction_keeps same by blast
next
  case Adjust
  then show thesis unfolding adjustment_def using add_transaction_keeps same by blast
next
  case Reserve
  then show thesis using reserve_frame same by blast
next
  case (Release key)
  then show thesis by (intro same) (auto simp: release_def)
next
  case (ReleaseStale now n k)
  then show thesis by (intro same) (auto simp: release_stale_reservations_def)
next
  case Charge
  then show thesis using charge_usage_keeps_usage same by blast
next
  case Grant
  then show thesis using grants_keep_usage(1) same by blast
next
  case Reverse
  then show thesis using grants_keep_usage(2) same by blast
next
  case CreatePolicy
  then show thesis using create_policy_frame same by blast
next
  case UpdatePolicy
  then show thesis using update_policy_frame same by blast
next
  case Evaluate
  then show thesis using evaluate_frame same by blast
next
  case (FinishHolds status key actual)
  then show thesis by (intro same) auto
qed

lemma step_usage_ids:
  assumes "books_step bk bk'"
  shows "prefix (map ur_id (bk_usage bk)) (map ur_id (bk_usage bk'))"
  using assms
proof (cases rule: books_step_usage)
  case (priced i r r')
  have "ur_id r' = i" using priced_row_identity [OF priced(2)] usage_of_some [OF priced(1)] by simp
  with priced(3) show ?thesis using change_where_same_id [of r' i] by simp
qed simp_all

lemma steps_usage_ids: "books_step\<^sup>*\<^sup>* bk bk' \<Longrightarrow> prefix (map ur_id (bk_usage bk)) (map ur_id (bk_usage bk'))"
  by (induction rule: rtranclp_induct) (auto intro: prefix_order.trans step_usage_ids)

lemma usage_of_iff: "(\<exists>r. usage_of bk i = Some r) \<longleftrightarrow> i \<in> set (map ur_id (bk_usage bk))"
  by (cases "usage_of bk i") (auto simp: usage_of_def find_None_iff dest!: find_Some_mem)

lemma usage_persists:
  assumes "usage_of bk i = Some r" "books_step\<^sup>*\<^sup>* bk bk'"
  shows "\<exists>r'. usage_of bk' i = Some r'"
  using assms(1) steps_usage_ids [OF assms(2)] unfolding usage_of_iff [of bk' i]
  by (metis set_mono_prefix subsetD usage_of_iff)

section \<open>What the service records\<close>

text \<open>
  The transactions of the service: a callback is recorded as \<open>parse_callback\<close> reads its body, a request
  of the public gateway as \<open>_meter\<close> measures it, after an answer or after a failure of the provider;
  every other transaction adds no usage record.
\<close>

inductive service_step :: "Books \<Rightarrow> Books \<Rightarrow> bool" where
  RecordCallback: "parse_callback lib raw = Inr m \<Longrightarrow> record_usage bk now i m = Inr (r, created, bk') \<Longrightarrow>
    i \<notin> ur_id ` set (bk_usage bk) \<Longrightarrow> service_step bk bk'"
| RecordMetered: "record_usage bk now i
      (metered_usage lib st key (meter_of model run_id request_id data duration status) x) = Inr (r, created, bk') \<Longrightarrow>
    status \<in> {''success'', ''error''} \<Longrightarrow> i \<notin> ur_id ` set (bk_usage bk) \<Longrightarrow> service_step bk bk'"
| NothingRecorded: "books_step bk bk' \<Longrightarrow> length (bk_usage bk') = length (bk_usage bk) \<Longrightarrow> service_step bk bk'"

definition service_reachable :: "Books \<Rightarrow> bool" where
  "service_reachable bk \<longleftrightarrow> service_step\<^sup>*\<^sup>* empty_books bk"

lemma service_step_books: "service_step bk bk' \<Longrightarrow> books_step bk bk'"
  by (cases rule: service_step.cases) (auto intro: books_step.RecordUsage)

lemma service_steps_books: "service_step\<^sup>*\<^sup>* bk bk' \<Longrightarrow> books_step\<^sup>*\<^sup>* bk bk'"
  by (induction rule: rtranclp_induct) (auto intro: rtranclp.rtrancl_into_rtrancl service_step_books)

lemma service_reachable_books: "service_reachable bk \<Longrightarrow> books_reachable bk"
  unfolding service_reachable_def books_reachable_def by (rule service_steps_books)

text \<open>Every record with a resolved cost has a basis for it.\<close>

definition basis_ok :: "Books \<Rightarrow> bool" where
  "basis_ok bk \<longleftrightarrow> list_all cost_basis_known (bk_usage bk)"

lemma metered_basis_known:
  "status \<in> {''success'', ''error''} \<Longrightarrow>
   cost_basis_known (metered_usage lib st key (meter_of model run_id request_id data duration status) x)"
  by (auto simp: cost_basis_known_def metered_usage_def meter_of_def Let_def SUCCESS_STATES_def u_def split: if_splits)

lemma record_usage_rows:
  "record_usage bk now i m = Inr (r, created, bk') \<Longrightarrow>
   bk_usage bk' = bk_usage bk \<or> bk_usage bk' = bk_usage bk @ [usage_row now i m]"
  by (auto simp: record_usage_def split: option.splits if_splits)

lemma step_basis_ok:
  assumes "service_step bk bk'" and ok: "basis_ok bk"
  shows "basis_ok bk'"
  using assms(1)
proof (cases rule: service_step.cases)
  case (RecordCallback lib raw m now i r created)
  with ok parsed_basis_known [OF RecordCallback(1)] record_usage_rows [OF RecordCallback(2)]
  show ?thesis by (auto simp: basis_ok_def)
next
  case (RecordMetered now i lib st key model run_id request_id data duration status x r created)
  with ok metered_basis_known [OF RecordMetered(2)] record_usage_rows [OF RecordMetered(1)]
  show ?thesis by (auto simp: basis_ok_def)
next
  case NothingRecorded
  from NothingRecorded(1) show ?thesis
  proof (cases rule: books_step_usage)
    case (priced i r r')
    have "cost_basis_known r'"
      using price_row_basis [OF priced(2)] usage_of_some [OF priced(1)] ok
      by (auto simp: basis_ok_def list_all_iff)
    with priced(3) ok show ?thesis by (auto simp: basis_ok_def list_all_iff in_change_where)
  qed (use ok NothingRecorded(2) in \<open>simp_all add: basis_ok_def\<close>)
qed

lemma reachable_basis: "service_reachable bk \<Longrightarrow> basis_ok bk"
  unfolding service_reachable_def
proof (induction rule: rtranclp_induct)
  case base
  show ?case by (simp add: basis_ok_def empty_books_def)
qed (auto intro: step_basis_ok)

subsection \<open>The callers\<close>

abbreviation unused :: "Books \<Rightarrow> ustr \<Rightarrow> bool" where
  "unused bk i \<equiv> i \<notin> ur_id ` set (bk_usage bk)"

lemma service_then: "service_step a b \<Longrightarrow> service_step\<^sup>*\<^sup>* b c \<Longrightarrow> service_step\<^sup>*\<^sup>* a c"
  by (rule converse_rtranclp_into_rtranclp)

lemma price_if_new_run: "service_step\<^sup>*\<^sup>* bk (price_if_new created bk i)"
proof (cases "\<exists>bk'. created \<and> price_usage_record bk i = Inr bk'")
  case True
  then obtain bk' where p: "created" "price_usage_record bk i = Inr bk'" by blast
  have "length (bk_usage bk') = length (bk_usage bk)" by (cases rule: price_usage_row [OF p(2)]) simp_all
  with p books_step.PriceUsage [OF p(2)] show ?thesis
    by (auto simp: price_if_new_def intro: service_step.NothingRecorded)
qed (auto simp: price_if_new_def split: sum.splits)

lemma charge_run: "charge_usage bk st now ci ti i = Inr (c, created, bk') \<Longrightarrow> service_step bk bk'"
  using service_step.NothingRecorded [OF books_step.Charge] charge_usage_keeps_usage by metis

lemma hold_runs:
  "reserve bk now w amount k = (ok, bk') \<Longrightarrow> service_step bk bk'"
  "service_step bk (release bk k)"
  "evaluate bk now ctx estimate k = Inr (res, bk') \<Longrightarrow> service_step bk bk'"
  "status \<noteq> HoldActive \<Longrightarrow> service_step bk (finish_holds status bk k actual)"
proof -
  show "service_step bk bk'" if "reserve bk now w amount k = (ok, bk')"
    using service_step.NothingRecorded [OF books_step.Reserve [OF that]] reserve_frame [OF that] by simp
  show "service_step bk (release bk k)"
    by (rule service_step.NothingRecorded [OF books_step.Release [OF refl]]) (simp add: release_def)
  show "service_step bk bk'" if "evaluate bk now ctx estimate k = Inr (res, bk')"
    using service_step.NothingRecorded [OF books_step.Evaluate [OF that]] evaluate_frame [OF that] by simp
  show "service_step bk (finish_holds status bk k actual)" if "status \<noteq> HoldActive"
    by (rule service_step.NothingRecorded [OF books_step.FinishHolds [OF refl that]]) simp
qed

lemma record_and_charge_run:
  assumes m: "parse_callback lib raw = Inr m" and new: "unused bk ui"
  shows "service_step\<^sup>*\<^sup>* bk (snd (record_and_charge st bk now (ui, ci, ti) m))"
proof (cases "record_usage bk now ui m")
  case (Inr p)
  obtain r created bk1 where p: "p = (r, created, bk1)" by (cases p) auto
  let ?b = "price_if_new created bk1 (ur_id r)"
  have "service_step bk bk1" by (rule service_step.RecordCallback [OF m Inr [unfolded p] new])
  then have "service_step\<^sup>*\<^sup>* bk ?b" using price_if_new_run by (rule service_then)
  moreover have "service_step\<^sup>*\<^sup>* ?b (snd (record_and_charge st bk now (ui, ci, ti) m))"
    by (auto simp: record_and_charge_def Inr p Let_def dest: charge_run split: sum.splits)
  ultimately show ?thesis by (rule rtranclp_trans)
qed (simp add: record_and_charge_def)

lemma callback_run:
  "unused bk ui \<Longrightarrow> service_step\<^sup>*\<^sup>* bk (snd (litellm_usage_callback env st bk now (ui, ci, ti) raw auth))"
  unfolding litellm_usage_callback_def by (auto intro: record_and_charge_run split: sum.splits option.splits)

lemma meter_run:
  assumes status: "status \<in> {''success'', ''error''}" and new: "unused bk ui"
  shows "service_step\<^sup>*\<^sup>* bk
    (snd (meter lib st key bk now (ui, ci, ti) (meter_of model run_id request_id data duration status)))"
    (is "_ (snd (meter lib st key bk now _ ?me))")
proof (cases "extract_usage lib (me_data ?me)")
  case x: (Inr x)
  show ?thesis
  proof (cases "record_usage bk now ui (metered_usage lib st key ?me x)")
    case (Inr p)
    obtain r created bk1 where p: "p = (r, created, bk1)" by (cases p) auto
    let ?b = "price_if_new created bk1 (ur_id r)"
    have "service_step bk bk1" by (rule service_step.RecordMetered [OF Inr [unfolded p] status new])
    then have "service_step\<^sup>*\<^sup>* bk ?b" using price_if_new_run by (rule service_then)
    moreover have "service_step\<^sup>*\<^sup>* ?b (snd (meter lib st key bk now (ui, ci, ti) ?me))"
      by (auto simp: meter_def x Inr p charge_metered_def dest: charge_run split: sum.splits svc_error.splits)
    ultimately show ?thesis by (rule rtranclp_trans)
  qed (simp add: meter_def x)
qed (simp add: meter_def)

lemma give_back_run: "service_step\<^sup>*\<^sup>* bk (give_back st key bk k)"
proof -
  have "service_step\<^sup>*\<^sup>* bk (release_hold st key bk k)" by (simp add: release_hold_def hold_runs(2) r_into_rtranclp)
  then show ?thesis
    unfolding give_back_def release_limits_def by (rule rtranclp.rtrancl_into_rtrancl) (simp add: hold_runs(4))
qed

lemma account_answer_run:
  assumes "unused bk ui" and "status \<in> {''success'', ''error''}"
  shows "service_step\<^sup>*\<^sup>* bk
    (snd (account_answer lib st key bk now (ui, ci, ti) (meter_of model run_id request_id data duration status)))"
proof -
  let ?m = "meter lib st key bk now (ui, ci, ti) (meter_of model run_id request_id data duration status)"
  have "service_step\<^sup>*\<^sup>* bk (snd ?m)" by (rule meter_run [OF assms(2,1)])
  moreover have "service_step\<^sup>*\<^sup>* b (reconcile_limits b k q)" for b k q
    by (simp add: reconcile_limits_def hold_runs(4) r_into_rtranclp)
  ultimately show ?thesis
    by (cases ?m) (auto simp: account_answer_def split: sum.splits intro: rtranclp_trans)
qed

lemma account_failure_run:
  assumes "unused bk ui" and "status \<in> {''success'', ''error''}"
  shows "service_step\<^sup>*\<^sup>* bk
    (snd (account_failure lib st key bk now (ui, ci, ti) (meter_of model run_id request_id data duration status) e))"
proof -
  let ?b = "give_back st key bk request_id"
  let ?m = "meter lib st key ?b now (ui, ci, ti) (meter_of model run_id request_id data duration status)"
  have "unused ?b ui" using assms(1) by simp
  from meter_run [OF assms(2) this] have "service_step\<^sup>*\<^sup>* ?b (snd ?m)" .
  with give_back_run have "service_step\<^sup>*\<^sup>* bk (snd ?m)" by (rule rtranclp_trans)
  then show ?thesis by (cases ?m) (auto simp: account_failure_def split: sum.splits)
qed

lemma admit_run: "service_step\<^sup>*\<^sup>* bk (snd (admit st key bk now model run_id k)) \<and>
  bk_usage (snd (admit st key bk now model run_id k)) = bk_usage bk"
proof -
  have r: "service_step\<^sup>*\<^sup>* b (snd (reserve_or_402 st key b now k)) \<and>
      bk_usage (snd (reserve_or_402 st key b now k)) = bk_usage b" for b
    by (auto simp: reserve_or_402_def dest: hold_runs(1) reserve_frame split: prod.splits)
  have e: "service_step\<^sup>*\<^sup>* b (snd (enforce_limits_or_deny st key b now run_id k)) \<and>
      bk_usage (snd (enforce_limits_or_deny st key b now run_id k)) = bk_usage b" for b
  proof (cases "evaluate b now (limit_context key run_id) (balance_reserve_estimate_usd st) k")
    case (Inr p)
    obtain res b' where p: "p = (res, b')" by (cases p)
    have s: "service_step b b'" by (rule hold_runs(3) [OF Inr [unfolded p]])
    have "service_step\<^sup>*\<^sup>* b (release_hold st key b' k)"
      using s hold_runs(2) [of b' k] by (auto simp: release_hold_def)
    with s evaluate_frame [OF Inr [unfolded p]] show ?thesis
      by (auto simp: enforce_limits_or_deny_def Inr p release_hold_def release_def)
  qed (simp add: enforce_limits_or_deny_def)
  show ?thesis
  proof (cases "check_permitted key (provider_of model) model")
    case (Inr x)
    obtain a b1 where b1: "reserve_or_402 st key bk now k = (a, b1)" by (cases "reserve_or_402 st key bk now k")
    with r [of bk] have "service_step\<^sup>*\<^sup>* bk b1" "bk_usage b1 = bk_usage bk" by simp_all
    with e [of b1] show ?thesis by (cases a) (auto simp: admit_def Inr b1 intro: rtranclp_trans)
  qed (simp add: admit_def)
qed

lemma completion_run:
  assumes "unused bk ui"
  shows "service_step\<^sup>*\<^sup>* bk
    (snd (handle_chat_completion lib st key bk now later (ui, ci, ti) fresh_run forward raw header request_id))"
proof -
  have a: "service_step\<^sup>*\<^sup>* b (snd (account lib st key b later (ui, ci, ti) model run_id request_id d out))"
    if new: "unused b ui" for b model run_id d out
  proof (cases out)
    case (Answer data)
    let ?a = "account_answer lib st key b later (ui, ci, ti) (meter_of model run_id request_id data d ''success'')"
    have "service_step\<^sup>*\<^sup>* b (snd ?a)" by (rule account_answer_run [OF new]) simp
    then show ?thesis by (cases ?a) (auto simp: account_def Answer split: sum.splits)
  next
    case UpstreamCrashed
    then show ?thesis using account_failure_run [OF new, of "''error''"] by (simp add: account_def)
  qed (simp add: account_def give_back_run)
  have "service_step\<^sup>*\<^sup>* bk (snd (case admit st key bk now model run_id request_id of
      (Inl e, bk1) \<Rightarrow> (Inl e, bk1)
    | (Inr _, bk1) \<Rightarrow> account lib st key bk1 later (ui, ci, ti) model run_id request_id d out))"
    for model run_id d out
    using admit_run [of bk st key now model run_id request_id] a assms
    by (cases "admit st key bk now model run_id request_id") (auto split: sum.splits intro: rtranclp_trans)
  then show ?thesis
    by (auto simp: handle_chat_completion_def Let_def split: jsn.splits)
qed

lemma stream_run:
  assumes "unused bk ui"
  shows "service_step\<^sup>*\<^sup>* bk
    (snd (stream_chat_completion lib st key bk now later (ui, ci, ti) fresh_run forward body header request_id))"
proof -
  have a: "service_step\<^sup>*\<^sup>* b (snd (account_stream lib st key b later (ui, ci, ti) model run_id request_id d out))"
    if "unused b ui" for b model run_id d out
    using that account_answer_run [OF that, of "''success''"] account_failure_run [OF that, of "''error''"]
    by (auto simp: account_stream_def split: stream_end.splits)
  have "service_step\<^sup>*\<^sup>* bk (snd (case admit st key bk now model run_id request_id of
      (Inl e, bk1) \<Rightarrow> (Inl e, bk1)
    | (Inr _, bk1) \<Rightarrow> account_stream lib st key bk1 later (ui, ci, ti) model run_id request_id d out))"
    for model run_id d out
    using admit_run [of bk st key now model run_id request_id] a assms
    by (cases "admit st key bk now model run_id request_id") (auto split: sum.splits intro: rtranclp_trans)
  then show ?thesis
    by (auto simp: stream_chat_completion_def Let_def split: jsn.splits option.splits)
qed

section \<open>Grants in every run\<close>

lemma charge_usage_keeps_grants: "charge_usage bk st now ci ti i = Inr (c, created, bk') \<Longrightarrow> bk_grants bk' = bk_grants bk"
  by (erule charge_usage_cases) simp_all

definition grant_keys :: "Books \<Rightarrow> ustr list" where
  "grant_keys bk = map bg_idempotency_key (bk_grants bk)"

lemma step_grant_keys:
  assumes "books_step bk bk'"
  shows "prefix (grant_keys bk) (grant_keys bk')"
proof -
  have keep: "bk_grants bk' = bk_grants bk \<Longrightarrow> ?thesis" by (simp add: grant_keys_def)
  from assms show ?thesis
  proof (cases rule: books_step.cases)
    case (RecordUsage now i m r created)
    then show ?thesis using record_usage_frame [OF RecordUsage(1)] keep by blast
  next
    case (PriceUsage i)
    then show ?thesis using price_usage_frame [OF PriceUsage(1)] keep by blast
  next
    case (AddPrice now i p m a b c d cur start src new)
    then show ?thesis using add_price_frame [OF AddPrice(1)] keep by blast
  next
    case (TopUp now i w amount key event ref cur t created)
    then show ?thesis by (intro keep) (auto simp: top_up_def split: if_splits dest: add_transaction_keeps)
  next
    case Credit
    then show ?thesis unfolding credit_def using add_transaction_keeps keep by blast
  next
    case Refund
    then show ?thesis unfolding refund_def using add_transaction_keeps keep by blast
  next
    case Adjust
    then show ?thesis unfolding adjustment_def using add_transaction_keeps keep by blast
  next
    case (Reserve now w amount key ok)
    then show ?thesis by (intro keep) (auto simp: reserve_def split: option.splits if_splits)
  next
    case (Release key)
    then show ?thesis by (intro keep) (auto simp: release_def)
  next
    case (ReleaseStale now n k)
    then show ?thesis by (intro keep) (auto simp: release_stale_reservations_def)
  next
    case Charge
    then show ?thesis using charge_usage_keeps_grants keep by blast
  next
    case Grant
    then show ?thesis unfolding grant_keys_def by (rule grant_keys_grow(1))
  next
    case Reverse
    then show ?thesis unfolding grant_keys_def by (rule grant_keys_grow(2))
  next
    case CreatePolicy
    then show ?thesis using create_policy_frame keep by blast
  next
    case UpdatePolicy
    then show ?thesis using update_policy_frame keep by blast
  next
    case Evaluate
    then show ?thesis using evaluate_frame keep by blast
  next
    case (FinishHolds status key actual)
    then show ?thesis by (intro keep) auto
  qed
qed

lemma grant_persists:
  assumes "find_grant bk key = Some g" "books_step\<^sup>*\<^sup>* bk bk'"
  shows "\<exists>g'. find_grant bk' key = Some g'"
proof -
  have "prefix (grant_keys bk) (grant_keys bk')"
    using assms(2) by (induction rule: rtranclp_induct) (auto intro: prefix_order.trans step_grant_keys)
  moreover have "key \<in> set (grant_keys bk)"
    using assms(1) find_grant_iff [of bk key] unfolding grant_keys_def by blast
  ultimately show ?thesis
    using find_grant_iff [of bk' key] set_mono_prefix unfolding grant_keys_def by blast
qed

end
