(* ===== verification/ExecutorGateway.thy ===== *)
theory ExecutorGateway
  imports ExecutorApi PublicGateway
begin

text \<open>
  The model gateway of the executor (src/gnsis/service/executor/gateway.py): one chat completion of an
  authenticated run, over the execution store and the books.  The upstream provider, \<open>float\<close> and the
  owner of a workspace are parameters, the fresh event id is an argument; float rates are rationals.
\<close>

section \<open>Configuration\<close>

record gateway_env =
  gw_lib :: pylib
  gw_float :: "ustr jsn \<Rightarrow> rat option"
  gw_owner :: "ustr \<Rightarrow> ustr option"

record gateway_settings =
  gs_litellm_enabled :: bool
  gs_openrouter_api_key :: ustr
  gs_max_output_tokens :: int
  gs_web_search_enabled :: bool
  gs_advisor_enabled :: bool
  gs_allowed_models :: "ustr list"
  gs_billing :: Settings

definition MODEL_FIELDS :: "ustr list" where
  "MODEL_FIELDS = map u [''model'', ''messages'', ''max_tokens'', ''temperature'', ''top_p'', ''stop'',
     ''tools'', ''tool_choice'', ''response_format'']"

definition RATES :: "(ustr \<times> rat \<times> rat) list" where
  "RATES = [(u ''anthropic/claude-opus'', 15 / 10 ^ 6, 75 / 10 ^ 6),
     (u ''anthropic/claude-sonnet'', 3 / 10 ^ 6, 15 / 10 ^ 6),
     (u ''anthropic/claude-haiku'', 8 / 10 ^ 7, 4 / 10 ^ 6),
     (u ''moonshotai/kimi-k3'', 73 / 10 ^ 8, 1 / 10 ^ 5)]"

definition rate_of :: "ustr \<Rightarrow> rat \<times> rat" where
  "rate_of model =
     (case find (\<lambda>(p, _). take (length p) model = p) RATES of
        Some (_, r) \<Rightarrow> r | None \<Rightarrow> (15 / 10 ^ 6, 75 / 10 ^ 6))"

definition estimate_cost :: "ustr \<Rightarrow> int \<Rightarrow> int \<Rightarrow> rat" where
  "estimate_cost model inp out = (case rate_of model of (rin, rout) \<Rightarrow> of_int inp * rin + of_int out * rout)"

section \<open>Attribution\<close>

definition agent_metadata :: "(ustr \<times> ustr jsn) list \<Rightarrow> (ustr \<times> ustr jsn) list" where
  "agent_metadata body = (case get body ''metadata'' of JObj kvs \<Rightarrow> kvs | _ \<Rightarrow> [])"

definition json_opt :: "ustr option \<Rightarrow> ustr jsn" where
  "json_opt v = (case v of None \<Rightarrow> JNull | Some s \<Rightarrow> JStr s)"

definition build_litellm_metadata ::
  "gateway_env \<Rightarrow> ExecutionRun \<Rightarrow> (ustr \<times> ustr jsn) list \<Rightarrow> ustr \<Rightarrow> (ustr \<times> ustr jsn) list" where
  "build_litellm_metadata env run body event_id =
     (let md = agent_metadata body
      in filter (\<lambda>(_, v). v \<noteq> JNull)
        [(u ''workspace_id'', json_opt (er_workspace_id run)),
         (u ''user_id'', if present (er_workspace_id run)
            then json_opt (gw_owner env (the (er_workspace_id run))) else JNull),
         (u ''run_id'', JStr (er_job_id run)),
         (u ''repository_id'', json_opt (er_repository_id run)),
         (u ''model_call_event_id'', JStr event_id),
         (u ''trace_event_id'', or_else (get md ''trace_event_id'') (JStr event_id)),
         (u ''engine'', or_else (get md ''engine'') (JStr (u ''gnsis''))),
         (u ''phase'', get md ''phase'')])"

section \<open>Server tools\<close>

definition WEB_SEARCH_TOOL :: "ustr jsn" where
  "WEB_SEARCH_TOOL = JObj
     [(u ''type'', JStr (u ''openrouter:web_search'')),
      (u ''parameters'', JObj [(u ''engine'', JStr (u ''auto'')), (u ''max_results'', JInt 5),
         (u ''max_total_results'', JInt 10)])]"

definition ADVISOR_INSTRUCTIONS :: ustr where
  "ADVISOR_INSTRUCTIONS =
     u ''You are a concise senior software architect and code reviewer. When the '' @
     u ''primary agent consults you, provide a focused, actionable opinion: name '' @
     u ''the specific risk or design consideration, and give one clear '' @
     u ''recommendation. Do not restate the primary'' @ [39] @ u ''s plan back to it. If you are '' @
     u ''uncertain, say so plainly.''"

definition advisor_tool :: "ustr \<Rightarrow> ustr jsn" where
  "advisor_tool model = JObj
     [(u ''type'', JStr (u ''openrouter:advisor'')),
      (u ''parameters'', JObj
         [(u ''name'', JStr (u ''advisor'')), (u ''model'', JStr model),
          (u ''forward_transcript'', JBool False), (u ''max_tool_calls'', JInt 4),
          (u ''max_completion_tokens'', JInt 4096), (u ''instructions'', JStr ADVISOR_INSTRUCTIONS),
          (u ''tools'', JList [WEB_SEARCH_TOOL])])]"

text \<open>\<open>str(tool.get("type") or "").strip().lower().startswith("openrouter:")\<close>\<close>

definition server_type :: "pylib \<Rightarrow> ustr jsn \<Rightarrow> bool" where
  "server_type lib tool \<longleftrightarrow>
     (case tool of
        JObj kvs \<Rightarrow> take 11 (ascii_lower (u_strip (str_of lib (or_else (get kvs ''type'') (JStr []))))) =
          u ''openrouter:''
      | _ \<Rightarrow> False)"

definition smuggled_tool :: "pylib \<Rightarrow> ustr jsn \<Rightarrow> bool" where
  "smuggled_tool lib tools \<longleftrightarrow> (case tools of JList ts \<Rightarrow> list_ex (server_type lib) ts | _ \<Rightarrow> False)"

definition primary_call :: "pylib \<Rightarrow> (ustr \<times> ustr jsn) list \<Rightarrow> bool" where
  "primary_call lib body \<longleftrightarrow>
     ascii_lower (u_strip (str_of lib (or_else (get (agent_metadata body) ''call_purpose'')
       (JStr (u ''primary''))))) \<noteq> u ''condenser''"

definition pick_advisor_model :: "gateway_settings \<Rightarrow> ExecutionRun \<Rightarrow> ustr option" where
  "pick_advisor_model gs run =
     (if present (er_advisor_model run) \<and> the (er_advisor_model run) \<in> set (gs_allowed_models gs)
      then er_advisor_model run else None)"

definition server_tools :: "gateway_settings \<Rightarrow> ExecutionRun \<Rightarrow> ustr jsn list" where
  "server_tools gs run =
     (if gs_web_search_enabled gs then [WEB_SEARCH_TOOL] else []) @
     (case pick_advisor_model gs run of
        Some m \<Rightarrow> if gs_advisor_enabled gs then [advisor_tool m] else [] | None \<Rightarrow> [])"

text \<open>\<open>list(value or [])\<close>\<close>

definition as_list :: "ustr jsn \<Rightarrow> ustr jsn list svc" where
  "as_list v =
     (if \<not> truthy v then Inr []
      else case v of
        JList xs \<Rightarrow> Inr xs
      | JObj kvs \<Rightarrow> Inr (map (\<lambda>kv. JStr (fst kv)) kvs)
      | JStr s \<Rightarrow> Inr (map (\<lambda>c. JStr [c]) s)
      | _ \<Rightarrow> Inl (Raises ''TypeError''))"

definition inject_server_tools ::
  "gateway_settings \<Rightarrow> ExecutionRun \<Rightarrow> (ustr \<times> ustr jsn) list \<Rightarrow> (ustr \<times> ustr jsn) list svc" where
  "inject_server_tools gs run payload =
     sbind (as_list (get payload ''tools'')) (\<lambda>client.
       let tools = client @ server_tools gs run
       in if tools \<noteq> [] then Inr (AList.update (u ''tools'') (JList tools) payload)
          else Inr (filter (\<lambda>kv. fst kv \<noteq> u ''tools'') payload))"

definition model_payload :: "(ustr \<times> ustr jsn) list \<Rightarrow> ustr \<Rightarrow> (ustr \<times> ustr jsn) list" where
  "model_payload body model =
     AList.update (u ''model'') (JStr model)
       (concat (map (\<lambda>k. case map_of body k of None \<Rightarrow> [] | Some v \<Rightarrow> [(k, v)]) MODEL_FIELDS))"

definition outgoing ::
  "pylib \<Rightarrow> gateway_settings \<Rightarrow> ExecutionRun \<Rightarrow> (ustr \<times> ustr jsn) list \<Rightarrow> ustr \<Rightarrow> (ustr \<times> ustr jsn) list svc" where
  "outgoing lib gs run body model =
     (if primary_call lib body then inject_server_tools gs run (model_payload body model)
      else Inr (model_payload body model))"

definition extract_server_tool_usage :: "(ustr \<times> ustr jsn) list \<Rightarrow> (ustr \<times> ustr jsn) list" where
  "extract_server_tool_usage usage =
     concat (map (\<lambda>k. case map_of usage k of
         Some (JObj o1) \<Rightarrow> [(k, JObj o1)] | Some (JList xs) \<Rightarrow> [(k, JList xs)] | _ \<Rightarrow> [])
       (map u [''server_tool_use'', ''server_tool_usage'', ''server_tools'', ''tool_usage'']))"

section \<open>The call\<close>

definition model_error :: "string \<Rightarrow> nat \<Rightarrow> svc_error" where
  "model_error msg status = Refused msg status"

text \<open>The checks that come before any change; the result is the model.\<close>

definition check_request ::
  "gateway_env \<Rightarrow> gateway_settings \<Rightarrow> ExecutionRun \<Rightarrow> ustr jsn \<Rightarrow> ((ustr \<times> ustr jsn) list \<times> ustr) svc" where
  "check_request env gs run raw =
     (if \<not> (gs_litellm_enabled gs \<or> gs_openrouter_api_key gs \<noteq> [])
      then Inl (model_error ''model gateway not configured'' 503)
      else case raw of
        JObj body \<Rightarrow>
          (case get body ''model'' of
             JStr model \<Rightarrow>
               (if model = [] \<or> model \<notin> set (gs_allowed_models gs)
                then Inl (model_error ''model not allowed'' 403)
                else if present (er_primary_model run) \<and> er_primary_model run \<noteq> Some model
                then Inl (model_error ''model does not match pinned execution run model'' 403)
                else case (if get body ''max_tokens'' = JNull then Inr 0
                           else py_int (gw_lib env) (get body ''max_tokens'')) of
                  Inl e \<Rightarrow> Inl (model_error ''max_tokens must be an integer'' 400)
                | Inr n \<Rightarrow>
                    (if get body ''max_tokens'' \<noteq> JNull \<and> gs_max_output_tokens gs < n
                     then Inl (model_error ''max_tokens exceeds per-run output limit'' 403)
                     else case get body ''messages'' of
                       JList (m # ms) \<Rightarrow>
                         (if smuggled_tool (gw_lib env) (get body ''tools'')
                          then Inl (model_error ''client cannot declare server-controlled tool type'' 400)
                          else Inr (body, model))
                     | _ \<Rightarrow> Inl (model_error ''messages is required'' 400)))
           | _ \<Rightarrow> Inl (model_error ''model not allowed'' 403))
      | _ \<Rightarrow> Inl (model_error ''invalid request body'' 400))"

definition billing_hold :: "gateway_settings \<Rightarrow> ExecutionRun \<Rightarrow> bool" where
  "billing_hold gs run \<longleftrightarrow>
     balance_blocking_enabled (gs_billing gs) \<and> gs_litellm_enabled gs \<and> present (er_workspace_id run)"

definition release_if :: "bool \<Rightarrow> Books \<Rightarrow> ustr \<Rightarrow> Books" where
  "release_if held bk event_id = (if held then release bk event_id else bk)"

text \<open>The hold on the balance, then the slot in the run's budget.\<close>

definition reserve_slot ::
  "gateway_settings \<Rightarrow> ExecutionRun \<Rightarrow> int \<Rightarrow> ustr \<Rightarrow> ExecutionStore \<Rightarrow> Books \<Rightarrow>
   unit svc \<times> ExecutionStore \<times> Books" where
  "reserve_slot gs run now event_id S bk =
     (let held = billing_hold gs run;
          (ok, bk1) = (if held then reserve bk now (the (er_workspace_id run))
             (balance_reserve_estimate_usd (gs_billing gs)) event_id else (True, bk))
      in if \<not> ok then (Inl (model_error ''insufficient balance'' 402), S, bk1)
         else case reserve_model_call S (er_id run) of
           ((granted, reason), S1) \<Rightarrow>
             (if \<not> granted then (Inl (model_error (''model budget: '' @ reason) 402), S1, release_if held bk1 event_id)
              else (Inr (), S1, bk1)))"

definition usage_numbers ::
  "gateway_env \<Rightarrow> ustr \<Rightarrow> (ustr \<times> ustr jsn) list \<Rightarrow> (int \<times> int \<times> rat) svc" where
  "usage_numbers env model usage =
     sbind (int_or_zero (gw_lib env) (get usage ''prompt_tokens'') (get usage ''input_tokens'')) (\<lambda>inp.
     sbind (int_or_zero (gw_lib env) (get usage ''completion_tokens'') (get usage ''output_tokens'')) (\<lambda>out.
       if get usage ''cost'' = JNull then Inr (inp, out, estimate_cost model inp out)
       else case gw_float env (get usage ''cost'') of
         None \<Rightarrow> Inl (Raises ''ValueError'') | Some c \<Rightarrow> Inr (inp, out, c)))"

text \<open>Recording the usage; a call that goes over the budget revokes the token.\<close>

definition settle_call ::
  "gateway_env \<Rightarrow> ExecutionRun \<Rightarrow> int \<Rightarrow> ustr \<Rightarrow> ustr \<Rightarrow> (ustr \<times> ustr jsn) list \<Rightarrow> ExecutionStore \<Rightarrow>
   (ustr \<times> ustr jsn) list svc \<times> ExecutionStore" where
  "settle_call env run now event_id model data S =
     (case dict_or_empty (get data ''usage'') of
        Inl e \<Rightarrow> (Inl e, S)
      | Inr usage \<Rightarrow>
          (case usage_numbers env model usage of
             Inl e \<Rightarrow> (Inl e, S)
           | Inr (inp, out, cost) \<Rightarrow>
               (case record_model_usage S now (er_id run) model inp out cost (Some event_id)
                   (Some (extract_server_tool_usage usage)) of
                  Inl e \<Rightarrow> (Inl (Raises ''KeyError''), S)
                | Inr ((affordable, totals), S1) \<Rightarrow>
                    (Inr data, if affordable then S1 else revoke_token S1 now (er_id run)))))"

text \<open>
  \<open>handle_chat_completion\<close>.  \<open>forward\<close> is given the payload and, for the LiteLLM proxy, the metadata.
  The tools are injected outside the \<open>try\<close>, so a failure there releases nothing.
\<close>

definition handle_model_call ::
  "gateway_env \<Rightarrow> gateway_settings \<Rightarrow> ExecutionRun \<Rightarrow> int \<Rightarrow> ustr \<Rightarrow>
   ((ustr \<times> ustr jsn) list \<Rightarrow> (ustr \<times> ustr jsn) list option \<Rightarrow> upstream) \<Rightarrow> ustr jsn \<Rightarrow>
   ExecutionStore \<Rightarrow> Books \<Rightarrow> (ustr \<times> ustr jsn) list svc \<times> ExecutionStore \<times> Books" where
  "handle_model_call env gs run now event_id forward raw S bk =
     (case check_request env gs run raw of
        Inl e \<Rightarrow> (Inl e, S, bk)
      | Inr (body, model) \<Rightarrow>
          (case reserve_slot gs run now event_id S bk of
             (Inl e, S1, bk1) \<Rightarrow> (Inl e, S1, bk1)
           | (Inr _, S1, bk1) \<Rightarrow>
               (case outgoing (gw_lib env) gs run body model of
                  Inl e \<Rightarrow> (Inl e, S1, bk1)
                | Inr payload \<Rightarrow>
                    (case forward payload (if gs_litellm_enabled gs
                         then Some (build_litellm_metadata env run body event_id) else None) of
                       Answer data \<Rightarrow>
                         (case settle_call env run now event_id model data S1 of (res, S2) \<Rightarrow> (res, S2, bk1))
                     | UpstreamRefused e \<Rightarrow> (Inl e, S1, release_if (billing_hold gs run) bk1 event_id)
                     | UpstreamCrashed \<Rightarrow>
                         (Inl (Raises ''Exception''), S1, release_if (billing_hold gs run) bk1 event_id)))))"

section \<open>What leaves the gateway\<close>

lemma checked_request:
  assumes "check_request env gs run raw = Inr (body, model)"
  shows "raw = JObj body" "model \<in> set (gs_allowed_models gs)" "get body ''model'' = JStr model"
    "present (er_primary_model run) \<Longrightarrow> er_primary_model run = Some model"
    "\<not> smuggled_tool (gw_lib env) (get body ''tools'')"
  using assms
  by (auto simp: check_request_def split: if_splits jsn.splits sum.splits list.splits)

lemma dom_model_payload: "fst ` set (model_payload body model) \<subseteq> set MODEL_FIELDS"
proof -
  let ?kvs = "concat (map (\<lambda>k. case map_of body k of None \<Rightarrow> [] | Some v \<Rightarrow> [(k, v)]) MODEL_FIELDS)"
  have "fst ` set ?kvs \<subseteq> set MODEL_FIELDS" by (auto split: option.splits)
  moreover have "u ''model'' \<in> set MODEL_FIELDS" by (simp add: MODEL_FIELDS_def)
  ultimately show ?thesis unfolding model_payload_def dom_update by auto
qed

lemma model_payload_model: "map_of (model_payload body model) (u ''model'') = Some (JStr model)"
  by (simp add: model_payload_def update_conv)

lemma tools_is_a_field: "u ''tools'' \<in> set MODEL_FIELDS" by (simp add: MODEL_FIELDS_def)

lemma map_of_fields:
  "distinct fs \<Longrightarrow> map_of (concat (map (\<lambda>k. case map_of body k of None \<Rightarrow> [] | Some v \<Rightarrow> [(k, v)]) fs)) k =
     (if k \<in> set fs then map_of body k else None)"
proof (induction fs)
  case (Cons f fs)
  then show ?case by (cases "map_of body f") auto
qed simp

lemma distinct_fields: "distinct MODEL_FIELDS"
  by (simp add: MODEL_FIELDS_def u_def)

lemma model_payload_tools: "get (model_payload body model) ''tools'' = get body ''tools''"
proof -
  have "u ''tools'' \<noteq> u ''model''" by (simp add: u_def)
  then have "map_of (model_payload body model) (u ''tools'') =
      map_of (concat (map (\<lambda>k. case map_of body k of None \<Rightarrow> [] | Some v \<Rightarrow> [(k, v)]) MODEL_FIELDS)) (u ''tools'')"
    unfolding model_payload_def update_conv by (rule fun_upd_other)
  also have "\<dots> = map_of body (u ''tools'')"
    by (simp only: map_of_fields [OF distinct_fields] tools_is_a_field if_True)
  finally show ?thesis by (simp only: get_def)
qed

lemma injected:
  assumes "inject_server_tools gs run payload = Inr p"
  obtains client where "as_list (get payload ''tools'') = Inr client"
    "p = (if client @ server_tools gs run = [] then filter (\<lambda>kv. fst kv \<noteq> u ''tools'') payload
       else AList.update (u ''tools'') (JList (client @ server_tools gs run)) payload)"
  using assms by (auto simp: inject_server_tools_def sbind_Inr_iff Let_def split: if_splits)

lemma map_of_filter_other: "k \<noteq> k' \<Longrightarrow> map_of (filter (\<lambda>kv. fst kv \<noteq> k') kvs) k = map_of kvs k"
  by (induction kvs) auto

lemma outgoing_fields:
  assumes "outgoing lib gs run body model = Inr p"
  shows "fst ` set p \<subseteq> set MODEL_FIELDS \<and> map_of p (u ''model'') = Some (JStr model)"
proof (cases "primary_call lib body")
  case True
  with assms have inj: "inject_server_tools gs run (model_payload body model) = Inr p" by (simp add: outgoing_def)
  have ne: "u ''model'' \<noteq> u ''tools''" by (simp add: u_def)
  from injected [OF inj] obtain ts where
    "p = filter (\<lambda>kv. fst kv \<noteq> u ''tools'') (model_payload body model) \<or>
     p = AList.update (u ''tools'') ts (model_payload body model)" by metis
  then show ?thesis
  proof
    assume p: "p = filter (\<lambda>kv. fst kv \<noteq> u ''tools'') (model_payload body model)"
    have "map_of p (u ''model'') = Some (JStr model)"
      unfolding p by (simp only: map_of_filter_other [OF ne] model_payload_model)
    moreover have "fst ` set p \<subseteq> set MODEL_FIELDS" unfolding p using dom_model_payload [of body model] by auto
    ultimately show ?thesis by blast
  next
    assume p: "p = AList.update (u ''tools'') ts (model_payload body model)"
    show ?thesis unfolding p dom_update
      using dom_model_payload [of body model] model_payload_model tools_is_a_field ne by (simp add: update_conv)
  qed
next
  case False
  with assms have "model_payload body model = p" by (simp add: outgoing_def)
  with dom_model_payload [of body model] model_payload_model [of body model] show ?thesis by simp
qed

text \<open>Of the tools that leave, those with a server type are the server's own.\<close>

lemma outgoing_tools:
  assumes "outgoing lib gs run body model = Inr p" "\<not> smuggled_tool lib (get body ''tools'')"
    "map_of p (u ''tools'') = Some (JList ts)" "t \<in> set ts" "server_type lib t"
  shows "t \<in> set (server_tools gs run)"
proof (cases "primary_call lib body")
  case True
  with assms(1) have inj: "inject_server_tools gs run (model_payload body model) = Inr p" by (simp add: outgoing_def)
  then obtain client where client: "as_list (get body ''tools'') = Inr client"
    and p: "p = (if client @ server_tools gs run = [] then filter (\<lambda>kv. fst kv \<noteq> u ''tools'') (model_payload body model)
       else AList.update (u ''tools'') (JList (client @ server_tools gs run)) (model_payload body model))"
    by (rule injected) (simp add: model_payload_tools)
  have none: "map_of (filter (\<lambda>kv. fst kv \<noteq> k) kvs) k = None" for k and kvs :: "(ustr \<times> ustr jsn) list"
    by (induction kvs) auto
  with p assms(3) have "ts = client @ server_tools gs run"
    by (auto simp: update_conv split: if_splits)
  moreover have "\<not> server_type lib c" if "c \<in> set client" for c
    using that client assms(2)
    by (auto simp: as_list_def smuggled_tool_def server_type_def list_ex_iff split: if_splits jsn.splits)
  ultimately show ?thesis using assms(4,5) by auto
next
  case False
  with assms(1) have "p = model_payload body model" by (simp add: outgoing_def)
  with assms(3) have "get body ''tools'' = JList ts"
    using model_payload_tools [of body model] by (simp add: get_def)
  with assms(2,4,5) show ?thesis by (auto simp: smuggled_tool_def list_ex_iff)
qed

section \<open>Holds and budget\<close>

lemma reserve_slot_frame:
  assumes "reserve_slot gs run now e S bk = (res, S1, bk1)" "idle_hold e bk"
  shows "bk_usage bk1 = bk_usage bk \<and> bk_txns bk1 = bk_txns bk \<and> bk_charges bk1 = bk_charges bk"
    "billing_hold gs run \<or> idle_hold e bk1" "res = Inl err \<Longrightarrow> idle_hold e bk1"
proof -
  have "(bk_usage bk1 = bk_usage bk \<and> bk_txns bk1 = bk_txns bk \<and> bk_charges bk1 = bk_charges bk) \<and>
    (billing_hold gs run \<or> idle_hold e bk1) \<and> (res = Inl err \<longrightarrow> idle_hold e bk1)"
  proof (cases "billing_hold gs run")
    case True
    obtain ok b where r: "reserve bk now (the (er_workspace_id run))
        (balance_reserve_estimate_usd (gs_billing gs)) e = (ok, b)" by (cases "reserve bk now (the (er_workspace_id run))
        (balance_reserve_estimate_usd (gs_billing gs)) e")
    have same: "\<not> ok \<Longrightarrow> b = bk"
      using r refused_reservation by (cases ok) auto
    obtain g S2 where m: "reserve_model_call S (er_id run) = (g, S2)" by (cases "reserve_model_call S (er_id run)")
    obtain granted reason where g: "g = (granted, reason)" by (cases g)
    from assms reserve_frame [OF r] same m g True r show ?thesis
      by (auto simp: reserve_slot_def Let_def release_if_def release_def finished_idle split: if_splits)
  next
    case False
    obtain g S2 where m: "reserve_model_call S (er_id run) = (g, S2)" by (cases "reserve_model_call S (er_id run)")
    obtain granted reason where g: "g = (granted, reason)" by (cases g)
    from assms m g False show ?thesis
      by (auto simp: reserve_slot_def Let_def release_if_def split: if_splits)
  qed
  then show "bk_usage bk1 = bk_usage bk \<and> bk_txns bk1 = bk_txns bk \<and> bk_charges bk1 = bk_charges bk"
    "billing_hold gs run \<or> idle_hold e bk1" "res = Inl err \<Longrightarrow> idle_hold e bk1" by blast+
qed

text \<open>A failed upstream call leaves no hold.\<close>

lemma failed_call_idle:
  assumes "handle_model_call env gs run now e forward raw S bk = (Inl err, S', bk')" "idle_hold e bk"
    "\<And>name. err \<noteq> Raises name"
  shows "idle_hold e bk'"
proof (cases "check_request env gs run raw")
  case (Inl f)
  with assms show ?thesis by (simp add: handle_model_call_def)
next
  case (Inr p)
  obtain body model where p: "p = (body, model)" by (cases p)
  obtain r S1 bk1 where slot: "reserve_slot gs run now e S bk = (r, S1, bk1)"
    by (cases "reserve_slot gs run now e S bk") auto
  note frame = reserve_slot_frame [OF slot assms(2)]
  show ?thesis
  proof (cases r)
    case r: (Inl f)
    with assms(1) Inr p slot frame(3) show ?thesis by (simp add: handle_model_call_def)
  next
    case r: (Inr un)
    show ?thesis
    proof (cases "outgoing (gw_lib env) gs run body model")
      case out: (Inl f)
      have "\<exists>name. f = Raises name"
        using out by (auto simp: outgoing_def inject_server_tools_def sbind_def as_list_def Let_def
            split: if_splits jsn.splits sum.splits)
      with assms(1,3) Inr p slot r out show ?thesis by (auto simp: handle_model_call_def)
    next
      case out: (Inr payload)
      let ?o = "forward payload (if gs_litellm_enabled gs then Some (build_litellm_metadata env run body e) else None)"
      have rel: "idle_hold e (release_if (billing_hold gs run) bk1 e)"
        using frame(2) by (auto simp: release_if_def release_def finished_idle)
      show ?thesis
      proof (cases ?o)
        case o: (Answer data)
        obtain q S2 where st: "settle_call env run now e model data S1 = (q, S2)"
          by (cases "settle_call env run now e model data S1")
        have "q = Inl err" using assms(1) Inr p slot r out o st by (simp add: handle_model_call_def)
        moreover have raises: "\<exists>name. f = Raises name" if "q = Inl f" for f
        proof -
          have d: "\<exists>name. h = Raises name" if "dict_or_empty v = Inl h" for v h
            using that by (auto simp: dict_or_empty_def split: jsn.splits)
          have i: "\<exists>name. h = Raises name" if "int_or_zero l a b = Inl h" for l a b h
            using that by (auto simp: int_or_zero_def split: sum.splits tool_error.splits py_error.splits)
          have n: "\<exists>name. h = Raises name" if "usage_numbers env model x = Inl h" for x h
            using that unfolding usage_numbers_def
            by (auto elim!: sbind_raises dest: i split: if_splits option.splits)
          from st that show ?thesis
            by (auto simp: settle_call_def dest: d n split: sum.splits prod.splits)
        qed
        ultimately show ?thesis using assms(3) by blast
      next
        case (UpstreamRefused f)
        with assms(1) Inr p slot r out rel show ?thesis by (simp add: handle_model_call_def)
      next
        case UpstreamCrashed
        with assms(1) Inr p slot r out rel show ?thesis by (simp add: handle_model_call_def)
      qed
    qed
  qed
qed

text \<open>Only the trace id that the usage record carries decides which hold a charge settles.\<close>

lemma charge_keeps_other_holds:
  assumes "charge_usage bk st now ci ti i = Inr (c, created, bk')" "usage_of bk i = Some r"
    "mu_trace_event_id r \<noteq> Some e"
  shows "filter (\<lambda>h. br_reservation_key h = e) (bk_holds bk') = filter (\<lambda>h. br_reservation_key h = e) (bk_holds bk)"
proof -
  have other: "filter (\<lambda>h. br_reservation_key h = e) (bk_holds (finish_hold HoldSettled bk k)) =
      filter (\<lambda>h. br_reservation_key h = e) (bk_holds bk)" if "k \<noteq> e" for k
  proof -
    have "filter (\<lambda>h. br_reservation_key h = e) (change_where
        (\<lambda>h. br_reservation_key h = k \<and> br_status h = HoldActive) (br_status_update (\<lambda>_. HoldSettled)) hs) =
      filter (\<lambda>h. br_reservation_key h = e) hs" for hs
      using that by (induction hs) (auto simp: change_where_def)
    then show ?thesis by (simp add: finish_hold_def)
  qed
  have "bk_holds bk' = bk_holds (settle_for bk r)"
    using assms(1) by (cases rule: charge_usage_cases) (use assms(2) in simp_all)
  then show ?thesis using assms(3) other
    by (auto simp: settle_for_def settle_reservation_def split: option.splits)
qed

end
