(* ===== verification/ServiceProperties.thy ===== *)
theory ServiceProperties
  imports BooksSteps ExecutorGateway
begin

text \<open>
  The properties of the paid service: the ledger over any run of transactions, prices and quotes,
  credits, spending limits, keys, and the two gateways.
\<close>

section \<open>The ledger\<close>

text \<open>C10: 
  In every reachable state the balance of a workspace is what was credited to it, less the retail cost
  of its charges: each charge has been debited once, and nothing else was debited as usage.
\<close>

theorem balance_accounts_for_charges:
  assumes "books_reachable bk"
  shows "balance bk w =
    sum_list (map bt_signed_amount (filter (\<lambda>t. bt_workspace_id t = w \<and> \<not> is_debit t) (bk_txns bk))) -
    sum_list (map uc_retail_cost (filter (\<lambda>c. uc_workspace_id c = w) (bk_charges bk)))"
  using reachable_ledger [OF assms] by (rule balance_split)

text \<open>C11: 
  A charge is final: whatever transactions follow, and whatever the rates are by then, charging the
  same usage record again returns the first charge, writes no charge and no transaction, and the
  ledger holds exactly one debit for it, of its retail cost.
\<close>

theorem charge_is_final:
  assumes "books_reachable bk" "charge_usage bk st now ci ti i = Inr (Some k, created, bk1)"
    "books_step\<^sup>*\<^sup>* bk1 bk2"
  shows "\<exists>bk3. charge_usage bk2 st' now' ci' ti' i = Inr (Some k, False, bk3) \<and>
    bk_txns bk3 = bk_txns bk2 \<and> bk_charges bk3 = bk_charges bk2 \<and>
    (\<exists>t. filter (\<lambda>t. bt_idempotency_key t = debit_key i) (bk_txns bk2) = [t] \<and>
       bt_signed_amount t = - uc_retail_cost k)"
proof -
  have step: "books_step bk bk1" using assms(2) by (rule books_step.Charge)
  have ok: "books_ok bk2"
    using reachable_ledger [OF assms(1)] step_ledger_ok [OF step] steps_ledger_ok [OF assms(3)] by blast
  have found: "get_charge_for_usage bk2 i = Some k"
    using charged_is_found [OF assms(2)] assms(3) by (rule charge_persists)
  have "\<exists>r. usage_of bk i = Some r"
    using assms(2) by (cases rule: charge_usage_cases) auto
  then have "\<exists>r. usage_of bk1 i = Some r"
    using charge_usage_keeps_usage [OF assms(2)] by (simp add: usage_of_def)
  then obtain r where "usage_of bk2 i = Some r" using usage_persists [OF _ assms(3)] by blast
  with found have "charge_usage bk2 st' now' ci' ti' i = Inr (Some k, False, settle_for bk2 r)"
    by (simp add: charge_usage_def)
  moreover obtain t where "filter (\<lambda>t. bt_idempotency_key t = debit_key i) (bk_txns bk2) = [t]"
    "bt_signed_amount t = - uc_retail_cost k"
    using debit_of_charge [OF ok] get_charge_some [OF found] by blast
  ultimately show ?thesis by auto
qed

text \<open>
  A Stripe event that was applied is applied once: delivered again after any other transactions, it
  is answered as a duplicate and changes nothing.
\<close>

theorem replayed_event_is_free:
  assumes "handle_event lib bk now j ev = Inr (Handled c, bk1)" "books_step\<^sup>*\<^sup>* bk1 bk2"
  shows "handle_event lib bk2 now' j' ev = Inr (Handled False, bk2)"
proof -
  from applied_event [OF assms(1)] obtain q t where
    add: "add_transaction bk now j q = Inr (t, c, bk1)"
    and all: "\<And>bk2 now2 j2. handle_event lib bk2 now2 j2 ev = applied (add_transaction bk2 now2 j2 q)"
    by metis
  have "find_transaction bk1 (tq_idempotency_key q) (tq_stripe_event_id q) \<noteq> None"
    using add_transaction_replay [OF add refl refl, of now j] add_transaction_cases
    by (auto simp: add_transaction_def split: option.splits if_splits)
  then have "find_transaction bk2 (tq_idempotency_key q) (tq_stripe_event_id q) \<noteq> None"
    using steps_extend [OF assms(2)] by (rule transaction_persists)
  then show ?thesis by (auto simp: all add_transaction_def applied_def)
qed

text \<open>C34: 
  Stripe reports refunds cumulatively: each \<open>charge.refunded\<close> event carries the total refunded so far.
  Every event is debited in full, so of two partial refunds the first is debited twice.
\<close>

theorem refunds_are_debited_cumulatively:
  assumes "handle_event lib bk now j (refund_notice i w part) = Inr (Handled True, bk1)"
    "handle_event lib bk1 now' j' (refund_notice i' w so_far) = Inr (Handled True, bk2)"
    "0 < part" "part \<le> so_far" "i \<noteq> []" "i' \<noteq> []" "w \<noteq> []"
  shows "balance bk2 w = balance bk w - of_int (part + so_far) / 100"
  using refund_notice_applied [OF assms(1,5,7,3)] refund_notice_applied [OF assms(2,6,7)] assms(3,4)
  by (simp add: add_divide_distrib)

text \<open>C26: 
  A reservation that places a hold leaves the workspace with a balance that covers all of its holds,
  and every other workspace as it was.
\<close>

theorem reservation_never_overdraws:
  assumes "reserve bk now w amount key = (True, bk')" "bk' \<noteq> bk" "is_money amount"
  shows "0 \<le> available bk' w \<and> (v \<noteq> w \<longrightarrow> available bk' v = available bk v)"
  using reserve_available [OF assms(1)] assms(2,3) by (auto simp: to_money_def)

text \<open>
  A charge replaces the hold of its request: of what was available, the hold comes back and the retail
  cost goes.
\<close>

theorem charge_replaces_hold:
  assumes "books_ok bk" "charge_usage bk st now ci ti i = Inr (Some k, True, bk')"
    "usage_of bk i = Some r" "mu_trace_event_id r = Some (br_reservation_key h)"
    "br_reservation_key h \<noteq> []" "h \<in> set (bk_holds bk)" "br_status h = HoldActive"
    "br_workspace_id h = mu_workspace_id r"
  shows "available bk' (mu_workspace_id r) = available bk (mu_workspace_id r) + br_amount h - uc_retail_cost k"
  using assms(2)
proof (cases rule: charge_usage_cases)
  case (charged r' q k')
  let ?w = "mu_workspace_id r" and ?bk1 = "finish_hold HoldSettled bk (br_reservation_key h)"
  have settled: "settle_for bk r = ?bk1"
    using assms(4,5) by (simp add: settle_for_def settle_reservation_def)
  have r: "r' = r" "k' = k" using charged(1,3) assms(3) by simp_all
  have "to_money (- uc_retail_cost k) = - uc_retail_cost k"
    using charged(8) quote_basis_money [OF charged(6)] r by (simp add: to_money_def)
  moreover have "uc_workspace_id k = ?w" using charged(8) r by simp
  ultimately have "available bk' ?w = available ?bk1 ?w - uc_retail_cost k"
    unfolding charged(10) r settled by (simp add: available_def balance_def active_holds_def)
  then show ?thesis
    using finished_hold_available [OF assms(1,6,7), of HoldSettled ?w] assms(8) by simp
qed simp_all

text \<open>
  The three amounts that a charge stores, each rounded on its own, add up exactly.
\<close>

theorem stored_amounts_add_up:
  assumes "charge_usage bk st now ci ti i = Inr (Some k, True, bk')" "0 \<le> markup_rate st"
  shows "uc_retail_cost k = uc_upstream_cost k + uc_service_fee k"
  using assms(1)
proof (cases rule: charge_usage_cases)
  case (charged r q k')
  have money: "is_money (rq_retail_cost q)" "is_money (rq_service_fee q)"
    using quote_basis_money [OF charged(6)] by simp_all
  have "rq_retail_cost q = to_money (rq_upstream_cost q) + rq_service_fee q"
    using charged(6) quote_adds_up [OF assms(2)]
    by (auto simp: quote_basis_def split: option.splits dec.splits if_splits)
  with charged(3,8) money show ?thesis by (simp add: to_money_def)
qed simp_all

text \<open>C25: 
  A successful request is never settled as free for want of a cost.  After any transactions in which usage
  enters only as the callback's parser and the public gateway's meter produce it, and is then priced or
  not: when nothing is charged for a successful request, the provider reported its cost or the Genesis
  cost was computed.
\<close>

theorem unknown_cost_is_never_free:
  assumes "service_reachable bk" "charge_usage bk st now ci ti i = Inr (None, True, bk')"
    "usage_of bk i = Some r" "mu_request_status r \<in> SUCCESS_STATES"
  shows "mu_cost_source r = ProviderReported \<or> mu_genesis_calculated_cost r \<noteq> None"
  using assms(2)
proof (cases rule: charge_usage_cases)
  case (free r' q)
  then have "mu_reconciliation_state r = Resolved"
    using assms(3) by (cases "mu_reconciliation_state r") auto
  moreover have "cost_basis_known r"
    using reachable_basis [OF assms(1)] usage_of_some [OF assms(3)] by (auto simp: basis_ok_def list_all_iff)
  ultimately show ?thesis using assms(4) by (auto simp: cost_basis_known_def)
qed simp_all

section \<open>Prices and credits\<close>

lemma mp_id_without_end: "mp_id (without_end p) = mp_id p"
  by (simp add: without_end_def)

text \<open>
  A new price does not rewrite history: for every time before its start, each model has the same price
  version as before, and that version computes the same cost.
\<close>

theorem price_change_keeps_history:
  assumes "add_price bk now i provider model inp out cached reasoning currency start src = Inr (new, bk')"
    and "t < mp_effective_start new"
  shows "map_option (\<lambda>p. (mp_id p, calculate_cost p a b c d)) (resolve_price bk' pr m t) =
    map_option (\<lambda>p. (mp_id p, calculate_cost p a b c d)) (resolve_price bk pr m t)"
  using arg_cong [OF price_history [OF assms],
      of "map_option (\<lambda>p. (mp_id p, calculate_cost p a b c d))" pr m]
  by (simp add: option.map_comp comp_def mp_id_without_end)

lemma find_changed:
  assumes "\<And>x. bg_id (f x) = bg_id x"
  shows "find (\<lambda>x. bg_id x = gi) (change_where (\<lambda>x. bg_id x = gi) f rows) =
    map_option f (find (\<lambda>x. bg_id x = gi) rows)"
  using assms by (induction rows) (auto simp: change_where_def)

text \<open>
  A granted credit that is reversed leaves every balance as it was before the grant, whatever the order
  in which the two are repeated: a second reversal changes nothing.
\<close>

theorem reversal_undoes_grant:
  assumes "grant_credit bk now gi ti q = Inr (g, True, bk1)"
    "reverse_grant bk1 now' ri gi op reason = Inr (g', True, bk2)"
    "u_strip gi = gi" "gi \<notin> bg_id ` set (bk_grants bk)"
  shows "balance bk2 w = balance bk w \<and> reverse_grant bk2 now'' ri' gi op reason = Inr (g', False, bk2)"
  using assms(1)
proof (cases rule: grant_credit_cases)
  case (new a)
  have "find (\<lambda>x. bg_id x = gi) (bk_grants bk) = None" using assms(4) by (rule find_unused)
  then have of1: "grant_of bk1 gi = Some g"
    using new(9,11) by (simp add: grant_of_def find_append)
  have op: "u_strip op \<noteq> []" using assms(2) by (auto simp: reverse_grant_def)
  show ?thesis using assms(2)
  proof (cases rule: reverse_grant_cases)
    case rev: (new g0)
    have g0: "g0 = g" using rev(2) of1 assms(3) by simp
    have "bg_amount g = to_money a" "bg_workspace_id g = u_strip (gq_workspace_id q)"
      using new(5,8) by simp_all
    moreover have "to_money (- to_money a) = - to_money a" by (simp add: to_money_def)
    ultimately have "balance bk2 w = balance bk w"
      unfolding rev(6) new(11) balance_def g0 by simp
    moreover have "grant_of bk2 gi = Some g'"
    proof -
      have "bk_grants bk2 = change_where (\<lambda>x. bg_id x = bg_id g) (reversed now' ri (u_strip op) (u_strip reason)) (bk_grants bk1)"
        using rev(6) g0 by simp
      then show ?thesis
        using of1 rev(5) g0 find_changed [of "reversed now' ri (u_strip op) (u_strip reason)", OF reversed_key(4)] new(9)
        by (simp add: grant_of_def)
    qed
    moreover have "bg_status g' = Reversed" using rev(5) by simp
    ultimately show ?thesis using op assms(3) by (simp add: reverse_grant_def)
  qed simp
qed simp

lemma tried_grant:
  assumes "try_grant bk st now gi ti w = Inr (Some (g, created), bk')"
  obtains a where "grant_credit bk now gi ti (welcome_request st (u_strip w) a) = Inr (g, created, bk')"
    "positive_decimal (welcome_credit_usd st) = Inr (Some a)" "under_ceiling bk st now a = Inr True"
    "u_strip w \<noteq> []"
  using assms
  by (auto simp: try_grant_def Let_def sbind_Inr_iff split: if_splits option.splits sum.splits
      svc_error.splits)

lemma tried_again:
  assumes "try_grant bk st now gi ti w = Inr (None, bk')"
  shows "bk' = bk"
  using assms
  by (auto simp: try_grant_def Let_def sbind_def split: if_splits option.splits sum.splits
      svc_error.splits)

lemma welcome_request_key:
  "u_strip (welcome_credit_campaign st') = u_strip (welcome_credit_campaign st) \<Longrightarrow>
   gq_idempotency_key (welcome_request st' w a) = gq_idempotency_key (welcome_request st w b)"
  by (simp add: welcome_request_def Let_def)

text \<open>
  A workspace gets the welcome credit of a campaign at most once: after a grant, and whatever
  transactions follow, trying again for the same workspace and campaign changes nothing.
\<close>

theorem welcome_credit_is_granted_once:
  assumes "try_grant bk st now gi ti w = Inr (Some (g, created), bk1)" "books_step\<^sup>*\<^sup>* bk1 bk2"
    "try_grant bk2 st' now' gi' ti' w' = Inr (res, bk3)" "u_strip w' = u_strip w"
    "u_strip (welcome_credit_campaign st') = u_strip (welcome_credit_campaign st)"
  shows "bk3 = bk2 \<and> (\<forall>g'. res \<noteq> Some (g', True))"
proof -
  from assms(1) obtain a where
    one: "grant_credit bk now gi ti (welcome_request st (u_strip w) a) = Inr (g, created, bk1)"
    by (rule tried_grant)
  let ?k = "u_strip (gq_idempotency_key (welcome_request st (u_strip w) a))"
  have "find_grant bk1 ?k = Some g" using one
  proof (cases rule: grant_credit_cases)
    case (new a')
    then show ?thesis by (auto simp: find_grant_def find_append)
  qed simp
  then obtain g' where found: "find_grant bk2 ?k = Some g'" using grant_persists assms(2) by blast
  show ?thesis
  proof (cases res)
    case None
    with tried_again assms(3) show ?thesis by auto
  next
    case (Some p)
    obtain h again where p: "p = (h, again)" by (cases p)
    from assms(3) [unfolded Some p] obtain b where
      two: "grant_credit bk2 now' gi' ti' (welcome_request st' (u_strip w') b) = Inr (h, again, bk3)"
      by (rule tried_grant)
    have key: "u_strip (gq_idempotency_key (welcome_request st' (u_strip w') b)) = ?k"
      using welcome_request_key [OF assms(5)] assms(4) by metis
    show ?thesis using two
    proof (cases rule: grant_credit_cases)
      case old
      then show ?thesis by (simp add: Some p)
    next
      case (new a')
      then show ?thesis using found key by simp
    qed
  qed
qed

text \<open>
  A new welcome credit keeps what was given in the last 24 hours under the configured ceiling.
\<close>

theorem welcome_ceiling_holds:
  assumes "try_grant bk st now gi ti w = Inr (Some (g, True), bk')"
    "u_strip (platform_daily_provider_limit_usd st) \<noteq> []"
    "read_decimal (u_strip (platform_daily_provider_limit_usd st)) = Some (DFin c)"
    "welcome_credit_usd st = Some (DFin a)" "is_money a"
  shows "daily_welcome_spend bk' now \<le> c"
proof -
  from assms(1) obtain a' where
    grant: "grant_credit bk now gi ti (welcome_request st (u_strip w) a') = Inr (g, True, bk')"
    and a': "positive_decimal (welcome_credit_usd st) = Inr (Some a')"
    and under: "under_ceiling bk st now a' = Inr True" and w: "u_strip w \<noteq> []"
    by (rule tried_grant)
  have a: "a' = DFin a" using a' assms(4) by (auto simp: positive_decimal_def split: if_splits)
  have le: "daily_welcome_spend bk now + a \<le> c"
    using under assms(2,3) by (auto simp: under_ceiling_def a positive_decimal_def dec_plus_def sbind_Inr_iff split: if_splits)
  show ?thesis using grant
  proof (cases rule: grant_credit_cases)
    case (new b)
    define camp where "camp = (if u_strip (welcome_credit_campaign st) \<noteq> []
      then u_strip (welcome_credit_campaign st) else u ''beta'')"
    have beta: "u_strip (u ''beta'') = u ''beta''" "u ''beta'' \<noteq> []"
      by (simp_all add: u_def u_strip_def u_rstrip_def u_space_def)
    have camp: "u_strip camp = camp" "camp \<noteq> []"
      unfolding camp_def using strip_strip [of "welcome_credit_campaign st"] beta by presburger+
    have key: "gq_idempotency_key (welcome_request st (u_strip w) a') = welcome_key (u_strip w) camp"
      by (simp add: welcome_request_def Let_def camp_def)
    have b: "b = a"
      using new(4) by (auto simp: a welcome_request_def Let_def positive_amount_def sbind_Inr_iff split: if_splits)
    have "u_strip (welcome_key (u_strip w) camp) = welcome_key (u_strip w) camp"
      using strip_strip camp by (rule u_strip_welcome)
    then have "daily_welcome_spend bk' now = daily_welcome_spend bk now + a"
      unfolding new(11) daily_welcome_spend_def
      by (simp add: recent_welcome_def key b to_money_def assms(5))
    with le show ?thesis by simp
  qed simp
qed

section \<open>Spending limits\<close>

text \<open>C18: 
  The most restrictive limit wins: a request is blocked exactly when one of the limits that apply to it
  blocks and would be exceeded by what is spent, held and estimated.  A blocked request holds nothing;
  an admitted one places one hold for each scope and window that is enforced, however many limits
  share it.
\<close>

theorem most_restrictive_limit_wins:
  assumes "evaluate bk now ctx estimate k = Inr (res, bk')"
  shows "(er_result res = LimitBlock \<longleftrightarrow>
      list_ex (\<lambda>a. ap_enforcement_mode a = BlockMode \<and>
        ap_amount a < projected bk now (lc_run_id ctx) estimate a) (applicable bk ctx now)) \<and>
    (\<exists>ks. bk_limit_holds bk' = bk_limit_holds bk @ map (hold_row ctx estimate k) ks \<and> distinct ks \<and>
      set ks = (if er_result res = LimitBlock then {} else hold_key now (lc_run_id ctx) `
        {a \<in> set (applicable bk ctx now). ap_enforcement_mode a \<in> {WarnMode, BlockMode}}))"
proof -
  let ?as = "applicable bk ctx now"
  let ?ev = "evaluate_all bk now (lc_run_id ctx) estimate ?as"
  let ?over = "\<lambda>a. ap_enforcement_mode a = BlockMode \<and> ap_amount a < projected bk now (lc_run_id ctx) estimate a"
  have overall: "ev_overall ?ev = LimitBlock \<longleftrightarrow> list_ex ?over ?as"
    unfolding evaluate_all_overall Let_def list_ex_iff limit_verdict_block [symmetric] by (auto simp: image_iff eq_commute)
  show ?thesis using assms
  proof (cases rule: evaluate_cases)
    case blocked
    then show ?thesis using overall by auto
  next
    case admitted
    then have "\<not> list_ex ?over ?as" using overall by simp
    then have "set (ev_to_hold ?ev) = hold_key now (lc_run_id ctx) `
        {a \<in> set ?as. ap_enforcement_mode a \<in> {WarnMode, BlockMode}}"
      unfolding evaluate_all_holds by (auto simp: list_ex_iff limit_verdict_block)
    then show ?thesis
      using admitted overall evaluate_all_holds_distinct by auto
  qed
qed

text \<open>C16: 
  After an admission every limit that blocks still covers what is spent and held in its window, so no
  two admitted requests can pass it together.
\<close>

theorem admission_stays_within_limits:
  assumes "evaluate bk now ctx estimate k = Inr (res, bk')" "er_result res \<noteq> LimitBlock"
    "a \<in> set (applicable bk ctx now)" "ap_enforcement_mode a = BlockMode" "is_money estimate"
  shows "spent_before bk' now (lc_run_id ctx) a + limit_holds bk' (hold_key now (lc_run_id ctx) a) \<le> ap_amount a"
  using assms by (rule admitted_within)

text \<open>
  Releasing an admitted request gives back exactly what it held, in every scope and window.
\<close>

theorem released_request_holds_nothing:
  assumes "evaluate bk now ctx estimate k = Inr (res, bk')" "k \<notin> lr_reservation_key ` set (bk_limit_holds bk)"
  shows "limit_holds (release_limits bk' k) w = limit_holds bk w \<and> idle_limits k (release_limits bk' k)"
proof -
  have fresh: "filter (\<lambda>h. lr_reservation_key h \<noteq> k) (bk_limit_holds bk) = bk_limit_holds bk"
    using assms(2) by (auto intro: filter_True)
  have new: "filter (\<lambda>h. lr_reservation_key h \<noteq> k) (map (hold_row ctx estimate k) ks) = []" for ks
    by (auto simp: filter_empty_conv hold_row_def)
  have bk': "filter (\<lambda>h. lr_reservation_key h \<noteq> k) (bk_limit_holds bk') = bk_limit_holds bk"
    using assms(1) by (cases rule: evaluate_cases) (simp_all add: fresh new)
  let ?hs = "bk_limit_holds (release_limits bk' k)"
  have idle: "idle_limits k (release_limits bk' k)"
    unfolding release_limits_def by (rule finished_limits_idle) simp
  have "filter (held_for w) ?hs = filter (held_for w) (filter (\<lambda>h. lr_reservation_key h \<noteq> k) ?hs)"
    using idle by (auto simp: idle_limits_def list_all_iff held_for_def intro: filter_cong)
  also have "\<dots> = filter (held_for w) (bk_limit_holds bk)"
    by (simp only: release_limits_def finish_holds_others bk')
  finally show ?thesis using idle by (simp add: limit_holds_def)
qed

lemma sum_list_member_le:
  fixes f :: "'a \<Rightarrow> rat"
  shows "x \<in> set xs \<Longrightarrow> (\<And>y. y \<in> set xs \<Longrightarrow> 0 \<le> f y) \<Longrightarrow> f x \<le> sum_list (map f xs)"
  by (rule member_le_sum_list) auto

text \<open>C35: 
  A limit on a project, environment, user or team counts the spend of every workspace that uses the
  same identifier: the charge of another workspace alone can block a request.
\<close>

theorem limits_count_other_workspaces:
  assumes "evaluate bk now ctx estimate k = Inr (res, bk')" "0 \<le> estimate"
    "p \<in> set (bk_policies bk)" "policy_applies ctx now p" "lp_enforcement_mode p = BlockMode"
    "lp_limit_type p = TotalLimit" "c \<in> set (bk_charges bk)" "r \<in> set (bk_usage bk)"
    "ur_id r = uc_usage_record_id c" "mu_workspace_id r \<noteq> lc_workspace_id ctx"
    "scope_column (lp_scope_type p) r = Some (lp_scope_id p)" "lp_amount p < uc_retail_cost c"
    "list_all (\<lambda>c. 0 \<le> uc_retail_cost c) (bk_charges bk)" "list_all (\<lambda>h. 0 \<le> lr_amount h) (bk_limit_holds bk)"
  shows "er_result res = LimitBlock"
proof -
  let ?a = "of_policy p"
  have a: "?a \<in> set (applicable bk ctx now)" using assms(3,4) by (simp add: applicable_def)
  let ?mine = "\<lambda>c. list_ex (counts_for (lp_scope_type p) (lp_scope_id p) TotalLimit None (lc_run_id ctx) c) (bk_usage bk)"
  have "c \<in> set (filter ?mine (bk_charges bk))"
    using assms(7-9,11) by (auto simp: list_ex_iff counts_for_def)
  then have "uc_retail_cost c \<le> sum_list (map uc_retail_cost (filter ?mine (bk_charges bk)))"
    using assms(13) by (intro sum_list_member_le) (auto simp: list_all_iff)
  then have "uc_retail_cost c \<le> spent_before bk now (lc_run_id ctx) ?a"
    using assms(6) by (simp add: spent_before_def committed_spend_def of_policy_def window_def)
  moreover have "0 \<le> limit_holds bk (hold_key now (lc_run_id ctx) ?a)"
    using assms(14) by (auto simp: limit_holds_def list_all_iff intro!: sum_list_nonneg)
  ultimately have "ap_amount ?a < projected bk now (lc_run_id ctx) estimate ?a"
    using assms(2,12) by (simp add: projected_def of_policy_def)
  moreover have "ap_enforcement_mode ?a = BlockMode" using assms(5) by (simp add: of_policy_def)
  ultimately have "limit_verdict ?a (projected bk now (lc_run_id ctx) estimate ?a) = LimitBlock"
    by (simp add: limit_verdict_block)
  with a have "LimitBlock \<in> set (map (\<lambda>a. limit_verdict a (projected bk now (lc_run_id ctx) estimate a)) (applicable bk ctx now))"
    by (simp add: rev_image_eqI)
  then have "ev_overall (evaluate_all bk now (lc_run_id ctx) estimate (applicable bk ctx now)) = LimitBlock"
    by (simp only: evaluate_all_overall Let_def if_True)
  with assms(1) show ?thesis by (auto elim: evaluate_cases)
qed

end
