(* ===== verification/GatewayProperties.thy ===== *)
theory GatewayProperties
  imports ServiceProperties
begin

text \<open>
  The properties of keys and of the two gateways: what a secret opens, what leaves a gateway, and what
  a request leaves on the books.
\<close>

section \<open>Virtual keys\<close>

lemma find_bearer: "find_sub (u '' '') (u ''Bearer '' @ s) = Some (u ''Bearer'', s)"
  by (simp add: u_def)

lemma resolved_key:
  assumes "u_strip secret = secret" "authenticate_key env st ks now secret = (Some k, ks')"
  shows "resolve_key env st ks now (Some (u ''Bearer '' @ secret)) = Inr (k, ks')"
proof -
  have "ascii_lower (u ''Bearer'') = u ''bearer''" by (simp add: ascii_lower_def u_def)
  moreover have "u ''Bearer '' @ secret \<noteq> []" by (simp add: u_def)
  ultimately show ?thesis
    unfolding resolve_key_def
    by (simp only: option.case find_bearer prod.case if_True if_False Let_def assms sum.case refl simp_thms)
qed

text \<open>
  The secret that is shown when a key is issued opens that key, and no other, as long as it has not
  expired.
\<close>

theorem issued_key_opens:
  assumes "create_key env st ks now i random q = Inr (row, secret, ks')" "\<not> expired_key t row"
    "u_strip secret = secret"
  shows "\<exists>ks''. resolve_key env st ks' t (Some (u ''Bearer '' @ secret)) =
    Inr (row\<lparr>vk_last_used_at := Some t\<rparr>, ks'')"
proof -
  obtain k ks'' where a: "authenticate_key env st ks' t secret = (k, ks'')"
    by (cases "authenticate_key env st ks' t secret")
  with issued_key_authenticates [OF assms(1,2)] have "k = Some (row\<lparr>vk_last_used_at := Some t\<rparr>)" by simp
  with a resolved_key [OF assms(3)] show ?thesis by blast
qed

text \<open>C29: 
  Rotation replaces a secret: the old one opens nothing any more, the new one opens the successor,
  which belongs to the same workspace, project, environment, user and team.
\<close>

theorem rotated_key_is_replaced:
  assumes "rotate_key env print st ks now n random w i = Inr (row, secret, ks')"
    "distinct (map vk_key_hash ks)" "get_key ks w i = Some old" "hash_key env st s = vk_key_hash old"
    "n \<noteq> i" "\<not> expired_key t row"
  shows "authenticate_key env st ks' t s = (None, ks') \<and>
    fst (authenticate_key env st ks' t secret) = Some (row\<lparr>vk_last_used_at := Some t\<rparr>) \<and>
    vk_workspace_id row = w \<and> vk_project_id row = vk_project_id old \<and>
    vk_environment_id row = vk_environment_id old \<and> vk_user_id row = vk_user_id old \<and>
    vk_team_id row = vk_team_id old"
proof -
  from assms(1) obtain o' where r: "get_key ks w i = Some o'"
    "create_key env st ks now n random (successor_request env print o') = Inr (row, secret, ks @ [row])"
    by (rule rotate_key_shape)
  have "o' = old" using r(1) assms(3) by simp
  with create_key_shape [OF r(2)] get_key_mem [OF assms(3)]
    rotated_key_is_dead [OF assms(1-4)] successor_authenticates [OF assms(1,5,6)]
  show ?thesis by (simp add: successor_request_def Let_def)
qed

text \<open>
  A key that was disabled can be rotated: its own secret stays dead, but the rotation issues a working
  one for the same workspace.
\<close>

theorem rotation_revives_disabled_key:
  assumes "disable_key ks now w i = Inr (k, ks1)" "distinct (map vk_key_hash ks)"
    "hash_key env st s = vk_key_hash k"
    "rotate_key env print st ks1 later n random w i = Inr (row, secret, ks2)" "n \<noteq> i"
    "\<not> expired_key t row"
  shows "authenticate_key env st ks1 t s = (None, ks1) \<and>
    fst (authenticate_key env st ks2 t secret) = Some (row\<lparr>vk_last_used_at := Some t\<rparr>) \<and>
    vk_status row = KeyActive \<and> vk_workspace_id row = w"
proof -
  from assms(4) obtain old where r: "get_key ks1 w i = Some old"
    "create_key env st ks1 later n random (successor_request env print old) = Inr (row, secret, ks1 @ [row])"
    by (rule rotate_key_shape)
  with create_key_shape [OF r(2)] get_key_mem [OF r(1)] disabled_key_is_dead [OF assms(1-3)]
    successor_authenticates [OF assms(4-6)]
  show ?thesis by (simp add: successor_request_def Let_def)
qed

section \<open>The public gateway\<close>

text \<open>C14: 
  A request is accounted for whatever the provider does: unless an exception escapes, it leaves no
  active hold on the balance and none on any limit.
\<close>

theorem gateway_returns_every_hold:
  assumes "handle_chat_completion lib st key bk now later (ui, ci, ti) fr forward raw h k = (res, bk')"
    "fresh_request bk k ui" "idle_hold k bk" "idle_limits k bk" "\<And>name. res \<noteq> Inl (Raises name)"
  shows "idle_hold k bk' \<and> idle_limits k bk'"
proof (cases "\<exists>body model. raw = JObj body \<and> truthy (get body ''model'') \<and> get body ''model'' = JStr model")
  case True
  then obtain body model where b: "raw = JObj body" "truthy (get body ''model'')" "get body ''model'' = JStr model"
    by blast
  let ?run = "resolve_run_id lib fr body h"
  obtain r bk1 where a: "admit st key bk now model ?run k = (r, bk1)"
    by (cases "admit st key bk now model ?run k")
  note adm = admit_result [OF a assms(3,4)]
  show ?thesis
  proof (cases r)
    case (Inl e)
    with a assms(1) b have out: "res = Inl e" "bk' = bk1" by (simp_all add: handle_chat_completion_def Let_def)
    with assms(5) obtain c n where "e = Refused c n" by (cases e) auto
    with Inl adm(5) out show ?thesis by blast
  next
    case (Inr un)
    with a assms(1) b have "account lib st key bk1 later (ui, ci, ti) model ?run k ((later - now) div 1000)
        (forward (provider_of model) (sanitize body model)) = (res, bk')"
      by (simp add: handle_chat_completion_def Let_def)
    moreover have "fresh_request bk1 k ui" using assms(2) fresh_request_cong [OF adm(2)] by simp
    ultimately show ?thesis using account_idle adm(1) assms(5) by blast
  qed
next
  case False
  with assms(1) have "bk' = bk"
    by (auto simp: handle_chat_completion_def split: jsn.splits if_splits)
  with assms(3,4) show ?thesis by simp
qed

text \<open>
  A refused request costs nothing: when the admission refuses it, no provider is called, nothing is
  recorded or charged, and nothing stays held.
\<close>

theorem denied_request_is_free:
  assumes "admit st key bk now model (resolve_run_id lib fr body h) k = (Inl (Refused c n), bk')"
    "idle_hold k bk" "idle_limits k bk" "get body ''model'' = JStr model" "model \<noteq> []"
  shows "handle_chat_completion lib st key bk now later ids fr forward (JObj body) h k = (Inl (Refused c n), bk') \<and>
    bk_usage bk' = bk_usage bk \<and> bk_charges bk' = bk_charges bk \<and> bk_txns bk' = bk_txns bk \<and>
    idle_hold k bk' \<and> idle_limits k bk'"
  using admit_result [OF assms(1-3)] assms by (simp add: handle_chat_completion_def)

lemma admitted_request_is_held:
  assumes "admit st key bk now model run_id k = (Inr un, bk1)" "balance_blocking_enabled st"
    "vk_workspace_id key \<noteq> []" "k \<notin> br_reservation_key ` set (bk_holds bk)"
  shows "\<not> idle_hold k bk1"
proof -
  have "find (\<lambda>h. br_reservation_key h = k) (bk_holds bk) = None" using assms(4) by (rule find_unused)
  with assms(1-3) obtain bk2 where two: "reserve_or_402 st key bk now k = (Inr (), bk2)"
    "enforce_limits_or_deny st key bk2 now run_id k = (Inr un, bk1)" "\<not> idle_hold k bk2"
    by (auto simp: admit_def reserve_or_402_def reserve_def idle_hold_def split: sum.splits if_splits)
  from two(2) assms(3) obtain r where "evaluate bk2 now (limit_context key run_id) (balance_reserve_estimate_usd st) k = Inr (r, bk1)"
    by (auto simp: enforce_limits_or_deny_def split: sum.splits if_splits)
  then have "bk_holds bk1 = bk_holds bk2" by (blast dest: evaluate_frame)
  with two(3) idle_hold_cong [of bk1 bk2 k] show ?thesis by simp
qed

text \<open>C32: 
  A stream that the client closes is neither metered nor given back: the books stay as the admission
  left them, so the request is not recorded and not charged, and its hold on the balance stays active.
\<close>

theorem closed_stream_is_unmetered:
  assumes "map_of body (u ''model'') = Some (JStr model)"
    "admit st key bk now model (resolve_run_id lib fr body h) k = (Inr (), bk1)"
    "forward (provider_of model) (stream_payload body model) = StreamClosed"
    "idle_limits k bk" "balance_blocking_enabled st" "vk_workspace_id key \<noteq> []"
    "k \<notin> br_reservation_key ` set (bk_holds bk)"
    "stream_chat_completion lib st key bk now later ids fr forward body h k = (res, bk')"
  shows "bk_usage bk' = bk_usage bk \<and> bk_charges bk' = bk_charges bk \<and> bk_txns bk' = bk_txns bk \<and>
    \<not> idle_hold k bk'"
proof -
  have "bk' = bk1"
    using assms(1-3,8) by (simp add: stream_chat_completion_def account_stream_def Let_def)
  moreover have "idle_hold k bk" using assms(7) by (auto simp: idle_hold_def list_all_iff)
  ultimately show ?thesis
    using admit_result [OF assms(2) _ assms(4)] admitted_request_is_held [OF assms(2,5-7)] by simp
qed

section \<open>The executor's gateway\<close>

text \<open>C24: 
  What an agent can make the gateway send is bounded: only the listed fields leave, the model is an
  allowed one and the one the run is pinned to, and of the tools those of a server-side type are the
  ones the server chose.
\<close>

theorem outgoing_request_is_the_servers:
  assumes "check_request env gs run raw = Inr (body, model)" "outgoing (gw_lib env) gs run body model = Inr p"
  shows "fst ` set p \<subseteq> set MODEL_FIELDS \<and> map_of p (u ''model'') = Some (JStr model) \<and>
    model \<in> set (gs_allowed_models gs) \<and> (present (er_primary_model run) \<longrightarrow> er_primary_model run = Some model) \<and>
    (\<forall>ts t. map_of p (u ''tools'') = Some (JList ts) \<longrightarrow> t \<in> set ts \<longrightarrow> server_type (gw_lib env) t \<longrightarrow>
       t \<in> set (server_tools gs run))"
  using checked_request [OF assms(1)] outgoing_fields [OF assms(2)] outgoing_tools [OF assms(2)] by blast

text \<open>
  A request that declares a tool of a server-side type itself is refused before anything is reserved:
  store and books stay as they were, and no provider is called.
\<close>

theorem smuggled_tool_changes_nothing:
  assumes "smuggled_tool (gw_lib env) (get body ''tools'')"
  shows "\<exists>msg status. handle_model_call env gs run now e forward (JObj body) S bk =
    (Inl (Refused msg status), S, bk)"
proof -
  obtain err where err: "check_request env gs run (JObj body) = Inl err"
    using checked_request(5) [of env gs run "JObj body"] checked_request(1) [of env gs run "JObj body"] assms
    by (cases "check_request env gs run (JObj body)") auto
  then obtain msg status where "err = Refused msg status"
    by (auto simp: check_request_def model_error_def split: if_splits jsn.splits sum.splits list.splits)
  with err show ?thesis by (simp add: handle_model_call_def)
qed

text \<open>
  A call that fails, in a check, at the balance, at the budget or at the provider, leaves no active
  hold of its own on the balance.
\<close>

theorem failed_call_leaves_no_hold:
  assumes "handle_model_call env gs run now e forward raw S bk = (Inl err, S', bk')" "idle_hold e bk"
    "\<And>name. err \<noteq> Raises name"
  shows "idle_hold e bk'"
  using assms by (rule failed_call_idle)

lemma run_row_assign:
  assumes "run_row S k = Some r" "er_id (f r) = k"
  shows "run_row (assign k f S) k = Some (f r)"
proof -
  have "find (\<lambda>r. er_id r = k) (map (\<lambda>x. if er_id x = k then f x else x) rs) = Some (f r)"
    if "find (\<lambda>r. er_id r = k) rs = Some r" for rs
    using that assms(2) by (induction rs) (auto split: if_splits)
  then show ?thesis using assms(1) by (simp add: run_row_def assign_def update_where_def)
qed

text \<open>C27: 
  A call that takes the run over its token or cost budget is the last one: the run's token is revoked
  with it.
\<close>

theorem over_budget_call_revokes_token:
  assumes "settle_call env run now e model data S = (Inr data', S')"
  shows "\<exists>r'. run_row S' (er_id run) = Some r' \<and> (usage_within r' \<or> er_token_revoked_at r' \<noteq> None)"
proof -
  let ?k = "er_id run"
  from assms obtain usage inp out cost aff totals S1 where
    rec: "record_model_usage S now ?k model inp out cost (Some e) (Some (extract_server_tool_usage usage)) =
      Inr ((aff, totals), S1)" and S': "S' = (if aff then S1 else revoke_token S1 now ?k)"
    by (auto simp: settle_call_def split: sum.splits prod.splits)
  from rec obtain r where r: "run_row S ?k = Some r" "aff = usage_within (add_usage inp out cost r)"
    and S1: "es_runs S1 = es_runs (assign ?k (add_usage inp out cost) S)"
    by (auto simp: record_model_usage_def Let_def split: option.splits)
  have "run_row S1 ?k = run_row (assign ?k (add_usage inp out cost) S) ?k" by (simp add: run_row_def S1)
  also have "\<dots> = Some (add_usage inp out cost r)"
    using r(1) run_row_id [OF r(1)] by (intro run_row_assign) (simp_all add: add_usage_def)
  finally have one: "run_row S1 ?k = Some (add_usage inp out cost r)" .
  show ?thesis
  proof (cases aff)
    case True
    with one r S' show ?thesis by simp
  next
    case False
    let ?f = "\<lambda>r. if er_token_revoked_at r = None then r\<lparr>er_token_revoked_at := Some now\<rparr> else r"
    have "run_row (revoke_token S1 now ?k) ?k = Some (?f (add_usage inp out cost r))"
      unfolding revoke_token_def using one run_row_id [OF one] by (intro run_row_assign) simp_all
    with False S' show ?thesis by auto
  qed
qed

lemma map_of_given:
  "k \<notin> fst ` set xs \<Longrightarrow> v \<noteq> JNull \<Longrightarrow>
   map_of (filter (\<lambda>(_, v). v \<noteq> JNull) (xs @ (k, v) # ys)) k = Some v"
  by (induction xs) auto

lemma metadata_trace:
  assumes "get (agent_metadata body) ''trace_event_id'' = JStr t" "t \<noteq> []"
  shows "get (build_litellm_metadata env run body e) ''trace_event_id'' = JStr t"
proof -
  have trace: "or_else (get (agent_metadata body) ''trace_event_id'') d = JStr t" for d
    using assms by (simp add: or_else_def)
  have keys: "u ''trace_event_id'' \<notin> {u ''workspace_id'', u ''user_id'', u ''run_id'', u ''repository_id'', u ''model_call_event_id''}"
    by (simp add: u_def)
  have "map_of (filter (\<lambda>(_, v). v \<noteq> JNull) ([(u ''workspace_id'', a), (u ''user_id'', b), (u ''run_id'', c),
      (u ''repository_id'', d), (u ''model_call_event_id'', f)] @ (u ''trace_event_id'', JStr t) # ys))
      (u ''trace_event_id'') = Some (JStr t)" for a b c d f ys
    by (rule map_of_given) (use keys in \<open>simp_all only: list.set image_insert image_empty fst_conv jsn.distinct simp_thms\<close>)
  then show ?thesis
    unfolding build_litellm_metadata_def Let_def get_def [of "filter P kvs" for P kvs] trace append_Cons append_Nil
    by (simp only: option.case)
qed

text \<open>C31: 
  The trace id that an agent puts in its metadata replaces the id of the call in what the proxy is
  told, and so in the usage record: the hold that the gateway placed for the call under its own id is
  not settled by the callback.
\<close>

theorem agent_trace_strands_hold:
  assumes "get (agent_metadata body) ''trace_event_id'' = JStr t" "t \<noteq> []" "t \<noteq> e"
    "required_ids b = Inr (i, build_litellm_metadata env run body e)" "parse_callback lib (JObj b) = Inr m"
    "find_existing bk m = None" "ui \<notin> ur_id ` set (bk_usage bk)"
    "record_and_charge st bk now (ui, ci, ti) m = (Inr a, bk')"
  shows "mu_trace_event_id m = Some t \<and>
    filter (\<lambda>h. br_reservation_key h = e) (bk_holds bk') = filter (\<lambda>h. br_reservation_key h = e) (bk_holds bk)"
proof -
  let ?md = "build_litellm_metadata env run body e"
  have md: "get ?md ''trace_event_id'' = JStr t" using assms(1,2) by (rule metadata_trace)
  obtain body' id' md where p: "JObj b = JObj body'" "required_ids body' = Inr (id', md)"
    "mu_trace_event_id m = opt_text lib (or_else (get md ''trace_event_id'') (get md ''model_call_event_id''))"
    by (rule parsed_callback [OF assms(5)]) blast
  then have "md = ?md" using assms(4) by simp
  with p(3) have
    "mu_trace_event_id m = opt_text lib (or_else (get ?md ''trace_event_id'') (get ?md ''model_call_event_id''))"
    by (simp only:)
  then have trace: "mu_trace_event_id m = Some t"
    using assms(2) by (simp add: md or_else_def opt_text_def absent_def str_of_def)
  let ?bk1 = "bk\<lparr>bk_usage := bk_usage bk @ [usage_row now ui m]\<rparr>"
  have rec: "record_usage bk now ui m = Inr (usage_row now ui m, True, ?bk1)"
    using assms(6,8) by (auto simp: record_usage_def record_and_charge_def split: if_splits)
  have "find (\<lambda>r. ur_id r = ui) (bk_usage bk) = None" using assms(7) by (rule find_unused)
  then have row: "usage_of ?bk1 ui = Some (usage_row now ui m)" by (simp add: usage_of_def find_append)
  obtain r where r: "usage_of (price_if_new True ?bk1 ui) ui = Some r"
    "mu_trace_event_id r = mu_trace_event_id (usage_row now ui m)"
    by (rule price_if_new_row [OF row])
  have other: "mu_trace_event_id r \<noteq> Some e" using r(2) trace assms(3) by simp
  have "filter (\<lambda>h. br_reservation_key h = e) (bk_holds bk') =
      filter (\<lambda>h. br_reservation_key h = e) (bk_holds (price_if_new True ?bk1 ui))"
  proof (cases "billing_enabled st")
    case True
    with assms(8) rec obtain c x where "charge_usage (price_if_new True ?bk1 ui) st now ci ti ui = Inr (c, x, bk')"
      by (auto simp: record_and_charge_def Let_def split: sum.splits)
    then show ?thesis using r(1) other by (rule charge_keeps_other_holds)
  next
    case False
    with assms(8) rec show ?thesis by (simp add: record_and_charge_def Let_def)
  qed
  with trace show ?thesis by simp
qed

end
