(* ===== verification/ServiceWitnesses.thy ===== *)
theory ServiceWitnesses
  imports GatewayProperties ToolWitnesses
begin

text \<open>
  The properties of the paid service, each applied to concrete books on which its hypotheses hold: one
  workspace that tops up ten dollars, holds one, and is charged 2.10 for a call that cost two.
\<close>

section \<open>Settings\<close>

definition settings1 :: Settings where
  "settings1 = \<lparr>stripe_webhook_secret = u ''whsec'', block_at_zero_balance = True, markup_rate = 1 / 20,
     rate_card_version = u ''v1'', default_currency = u ''USD'', balance_reserve_estimate_usd = 1,
     beta_credit_max_usd = Some (DFin 100), welcome_credit_enabled = True,
     welcome_credit_usd = Some (DFin 5), welcome_credit_per_run_usd = Some (DFin 1),
     welcome_credit_campaign = u ''beta'', platform_daily_provider_limit_usd = u ''7'',
     run_max_cost_usd = 1, virtual_key_pepper = []\<rparr>"

lemma settings1_enabled [simp]: "billing_enabled settings1" "balance_blocking_enabled settings1"
  by (simp_all add: billing_enabled_def balance_blocking_enabled_def settings1_def u_def)

lemma money [simp]: "is_money 1" "is_money 2" "is_money 5" "is_money 10" "is_money (1 / 10)" "is_money (21 / 10)"
  by (simp_all add: is_money_def)

lemma quote1: "quote settings1 2 (u ''USD'') =
    \<lparr>rq_upstream_cost = 2, rq_markup_rate = 1 / 20, rq_service_fee = 1 / 10, rq_retail_cost = 21 / 10,
     rq_rate_card_version = u ''v1'', rq_currency = u ''USD''\<rparr>"
  by (simp add: quote_def Let_def settings1_def u_def)

lemmas strip_defs = u_strip_def u_rstrip_def u_space_def

section \<open>The books of one workspace\<close>

definition top_up1 :: TxnRequest where
  "top_up1 = \<lparr>tq_workspace_id = u ''w'', tq_transaction_type = TOP_UP, tq_signed_amount = 10,
     tq_idempotency_key = u ''k1'', tq_stripe_event_id = None, tq_stripe_payment_reference = None,
     tq_usage_charge_id = None, tq_currency = u ''USD''\<rparr>"

definition hold1 :: BalanceReservation where
  "hold1 = \<lparr>br_workspace_id = u ''w'', br_reservation_key = u ''q1'', br_amount = 1, br_status = HoldActive,
     br_created_at = 2\<rparr>"

definition usage1 :: MeasuredUsage where
  "usage1 = \<lparr>mu_litellm_request_id = u ''l1'', mu_workspace_id = u ''w'', mu_user_id = u ''me'',
     mu_provider = u ''p'', mu_model = u ''p/m'', mu_input_tokens = 10, mu_output_tokens = 5,
     mu_cached_tokens = 0, mu_reasoning_tokens = 0, mu_duration_ms = 1, mu_request_status = u ''success'',
     mu_upstream_cost = Canonical 2, mu_currency = u ''USD'', mu_team_id = None, mu_run_id = None,
     mu_trace_event_id = Some (u ''q1''), mu_repository_id = None, mu_application_name = None,
     mu_engine = None, mu_phase = None, mu_environment = Some (u ''prod''), mu_retry_of = None,
     mu_idempotency_key = None, mu_provider_request_id = None, mu_error_category = None,
     mu_genesis_calculated_cost = None, mu_cost_source = ProviderReported,
     mu_reconciliation_state = Resolved, mu_project_id = None, mu_virtual_key_id = None\<rparr>"

definition usage_row1 :: UsageRecord where
  "usage_row1 = usage_row 3 (u ''g1'') usage1"

definition charge1 :: UsageCharge where
  "charge1 = new_charge 4 (u ''c1'') usage_row1 (quote settings1 2 (u ''USD''))"

definition books1 :: Books where
  "books1 = empty_books\<lparr>bk_txns := [txn_row 1 (u ''t1'') top_up1]\<rparr>"

definition books2 :: Books where "books2 = books1\<lparr>bk_holds := [hold1]\<rparr>"

definition books3 :: Books where "books3 = books2\<lparr>bk_usage := [usage_row1]\<rparr>"

definition books4 :: Books where
  "books4 = books3\<lparr>bk_holds := [br_status_update (\<lambda>_. HoldSettled) hold1], bk_charges := [charge1],
     bk_txns := [txn_row 1 (u ''t1'') top_up1, debit_row 4 (u ''d1'') charge1]\<rparr>"

lemma row1_facts [simp]:
  "ur_id usage_row1 = u ''g1''" "mu_workspace_id usage_row1 = u ''w''"
  "mu_trace_event_id usage_row1 = Some (u ''q1'')" "mu_currency usage_row1 = u ''USD''"
  "mu_reconciliation_state usage_row1 = Resolved" "mu_cost_source usage_row1 = ProviderReported"
  "mu_upstream_cost usage_row1 = Canonical 2" "mu_request_status usage_row1 = u ''success''"
  "mu_environment usage_row1 = Some (u ''prod'')"
  by (simp_all add: usage_row1_def usage_row_def usage1_def MeasuredUsage.defs)

lemma charge1_facts [simp]:
  "uc_usage_record_id charge1 = u ''g1''" "uc_workspace_id charge1 = u ''w''" "uc_retail_cost charge1 = 21 / 10"
  by (simp_all add: charge1_def new_charge_def quote1 [simplified] to_money_def)

lemma top_up_step: "top_up empty_books 1 (u ''t1'') (u ''w'') 10 (u ''k1'') None None (u ''USD'') =
    Inr (txn_row 1 (u ''t1'') top_up1, True, books1)"
  by (simp add: top_up_def add_transaction_def find_transaction_def present_def empty_books_def books1_def top_up1_def)

lemma hold_step: "reserve books1 2 (u ''w'') 1 (u ''q1'') = (True, books2)"
  by (simp add: reserve_def books1_def books2_def hold1_def empty_books_def available_def balance_def
      active_holds_def txn_row_def top_up1_def to_money_def)

lemma usage_step: "record_usage books2 3 (u ''g1'') usage1 = Inr (usage_row1, True, books3)"
  by (simp add: record_usage_def find_existing_def key_taken_def books1_def books2_def books3_def usage_row1_def
      usage1_def empty_books_def)

lemma charge_step: "charge_usage books3 settings1 4 (u ''c1'') (u ''d1'') (u ''g1'') = Inr (Some charge1, True, books4)"
proof -
  have q: "quote_basis settings1 (cost_basis usage_row1) (u ''USD'') = Inr (quote settings1 2 (u ''USD''))"
    by (simp add: quote_basis_def cost_basis_def read_cost_def)
  have settled: "settle_for books3 usage_row1 = books3\<lparr>bk_holds := [br_status_update (\<lambda>_. HoldSettled) hold1]\<rparr>"
    by (simp add: settle_for_def settle_reservation_def finish_hold_def change_where_def books3_def books2_def
        hold1_def u_def)
  have found: "usage_of books3 (u ''g1'') = Some usage_row1" "get_charge_for_usage books3 (u ''g1'') = None"
    by (simp_all add: usage_of_def get_charge_for_usage_def books3_def books2_def books1_def empty_books_def)
  have "bt_idempotency_key t \<noteq> debit_key (u ''g1'')" if "t \<in> set (bk_txns books3)" for t
    using that by (simp add: books3_def books2_def books1_def txn_row_def top_up1_def debit_key_def u_def)
  then have fresh: "\<not> (\<exists>t \<in> set (bk_txns books3). bt_idempotency_key t = debit_key (ur_id usage_row1))"
    by (simp only: row1_facts) blast
  have paid: "\<not> rq_retail_cost (quote settings1 2 (u ''USD'')) \<le> 0" by (simp add: quote1 [simplified])
  have "charge_new books3 settings1 4 (u ''c1'') (u ''d1'') usage_row1 = Inr (Some charge1, True, books4)"
    unfolding charge_new_def row1_facts(4) q sbind_simps settled Let_def charge1_def [symmetric]
    by (simp only: fresh paid if_False) (simp add: books4_def books3_def books2_def books1_def empty_books_def)
  with found show ?thesis by (simp add: charge_usage_def)
qed

lemma reachable1: "books_reachable books3" "books_reachable books4"
proof -
  have "books_step empty_books books1" using top_up_step by (rule books_step.TopUp)
  moreover have "books_step books1 books2" using hold_step by (rule books_step.Reserve)
  moreover have "books_step books2 books3"
    using usage_step by (rule books_step.RecordUsage) (simp add: books2_def books1_def empty_books_def)
  ultimately show "books_reachable books3"
    unfolding books_reachable_def by (meson converse_rtranclp_into_rtranclp rtranclp.rtrancl_refl)
  then show "books_reachable books4"
    using books_step.Charge [OF charge_step] unfolding books_reachable_def by (rule rtranclp.rtrancl_into_rtrancl)
qed

section \<open>The ledger\<close>

lemma balance_witness:
  "balance books4 (u ''w'') =
     sum_list (map bt_signed_amount (filter (\<lambda>t. bt_workspace_id t = u ''w'' \<and> \<not> is_debit t) (bk_txns books4))) -
     sum_list (map uc_retail_cost (filter (\<lambda>c. uc_workspace_id c = u ''w'') (bk_charges books4)))"
  by (rule balance_accounts_for_charges [OF reachable1(2)])

lemma final_witness:
  "\<exists>bk. charge_usage books4 (settings1\<lparr>markup_rate := 1\<rparr>) 9 (u ''c2'') (u ''d2'') (u ''g1'') =
     Inr (Some charge1, False, bk) \<and> bk_txns bk = bk_txns books4"
  using charge_is_final [OF reachable1(1) charge_step rtranclp.rtrancl_refl] by metis

lemma first_refund:
  "handle_event lib0 empty_books 1 (u ''t1'') (refund_notice (u ''e1'') (u ''w'') 500) =
     Inr (Handled True, empty_books\<lparr>bk_txns := [txn_row 1 (u ''t1'') (refund_request (u ''e1'') (u ''w'') 500)]\<rparr>)"
proof -
  have "u ''e1'' \<noteq> []" "u ''w'' \<noteq> []" "0 < (500 :: int)" by simp_all
  from refund_notice_run [OF this] show ?thesis
    by (simp only:) (simp add: applied_def add_transaction_def find_transaction_def empty_books_def present_def
        refund_request_def)
qed

lemma replayed_witness:
  "handle_event lib0 (empty_books\<lparr>bk_txns := [txn_row 1 (u ''t1'') (refund_request (u ''e1'') (u ''w'') 500)]\<rparr>)
     9 (u ''t2'') (refund_notice (u ''e1'') (u ''w'') 500) =
   Inr (Handled False, empty_books\<lparr>bk_txns := [txn_row 1 (u ''t1'') (refund_request (u ''e1'') (u ''w'') 500)]\<rparr>)"
  by (rule replayed_event_is_free [OF first_refund rtranclp.rtrancl_refl])

lemma second_refund:
  "handle_event lib0 (empty_books\<lparr>bk_txns := [txn_row 1 (u ''t1'') (refund_request (u ''e1'') (u ''w'') 500)]\<rparr>)
     2 (u ''t2'') (refund_notice (u ''e2'') (u ''w'') 800) =
   Inr (Handled True, empty_books\<lparr>bk_txns := [txn_row 1 (u ''t1'') (refund_request (u ''e1'') (u ''w'') 500),
     txn_row 2 (u ''t2'') (refund_request (u ''e2'') (u ''w'') 800)]\<rparr>)"
proof -
  have "u ''e2'' \<noteq> []" "u ''w'' \<noteq> []" "0 < (800 :: int)" by simp_all
  from refund_notice_run [OF this] show ?thesis
    by (simp only:) (simp add: applied_def add_transaction_def find_transaction_def empty_books_def present_def
        refund_request_def txn_row_def u_def)
qed

lemma cumulative_witness:
  "balance (empty_books\<lparr>bk_txns := [txn_row 1 (u ''t1'') (refund_request (u ''e1'') (u ''w'') 500),
     txn_row 2 (u ''t2'') (refund_request (u ''e2'') (u ''w'') 800)]\<rparr>) (u ''w'') =
   balance empty_books (u ''w'') - of_int (500 + 800) / 100"
  by (rule refunds_are_debited_cumulatively [OF first_refund second_refund]) simp_all

lemma books2_changed: "books2 \<noteq> books1"
  by (simp add: books2_def books1_def empty_books_def)

lemma overdraw_witness:
  "0 \<le> available books2 (u ''w'') \<and> available books2 (u ''v'') = available books1 (u ''v'')"
proof -
  have "u ''v'' \<noteq> u ''w''" by simp
  with reservation_never_overdraws [OF hold_step books2_changed money(1), of "u ''v''"] show ?thesis by blast
qed

lemma replaces_witness: "available books4 (u ''w'') = available books3 (u ''w'') + 1 - 21 / 10"
proof -
  have ok: "books_ok books3" using reachable1(1) by (rule reachable_ledger)
  have "usage_of books3 (u ''g1'') = Some usage_row1"
    by (simp add: usage_of_def books3_def)
  from charge_replaces_hold [OF ok charge_step this, of hold1] show ?thesis
    by (simp add: hold1_def books3_def books2_def)
qed

lemma amounts_witness: "uc_retail_cost charge1 = uc_upstream_cost charge1 + uc_service_fee charge1"
  by (rule stored_amounts_add_up [OF charge_step]) (simp add: settings1_def)

text \<open>A call that the provider reports as free, as its callback says it.\<close>

definition callback0 :: "(ustr \<times> ustr jsn) list" where
  "callback0 = [(u ''litellm_request_id'', JStr (u ''l1'')),
     (u ''metadata'', JObj [(u ''workspace_id'', JStr (u ''w'')), (u ''user_id'', JStr (u ''me''))]),
     (u ''upstream_cost'', JStr (u ''0''))]"

definition usage2 :: MeasuredUsage where "usage2 = projr (parse_callback lib0 (JObj callback0))"

lemma parsed0: "parse_callback lib0 (JObj callback0) = Inr usage2"
  and usage2_facts [simp]: "mu_cost_source usage2 = ProviderReported" "mu_reconciliation_state usage2 = Resolved"
    "mu_upstream_cost usage2 = Canonical 0" "mu_request_status usage2 = u ''success''"
    "mu_genesis_calculated_cost usage2 = None" "mu_idempotency_key usage2 = None"
proof -
  have fields0: "get callback0 ''input_tokens'' = JNull" "get callback0 ''output_tokens'' = JNull"
    "get callback0 ''cached_tokens'' = JNull" "get callback0 ''reasoning_tokens'' = JNull"
    "get callback0 ''duration_ms'' = JNull" "get callback0 ''upstream_cost'' = JStr (u ''0'')"
    "get callback0 ''request_status'' = JNull" "get callback0 ''idempotency_key'' = JNull"
    by (simp_all add: get_def callback0_def u_def)
  have ids: "required_ids callback0 = Inr (JStr (u ''l1''), [(u ''workspace_id'', JStr (u ''w'')), (u ''user_id'', JStr (u ''me''))])"
    by (simp add: required_ids_def get_def callback0_def or_else_def Let_def u_def)
  have zero: "read_decimal (u ''0'') = Some (DFin 0)"
    by (simp add: read_decimal_def sign_part_def read_unsigned_def exponent_def is_nan_def
        ascii_lower_def strip_defs is_digit_def digits_val_def Let_def)
  have numbers: "measured_numbers lib0 callback0 = Inr (0, 0, 0, 0, 0, 0)"
    unfolding measured_numbers_def fields0
    using zero by (simp add: count_of_def absent_def to_decimal_str_def decimal_of_def str_of_def)
  have "\<exists>m. parse_callback lib0 (JObj callback0) = Inr m \<and> mu_cost_source m = ProviderReported \<and>
      mu_reconciliation_state m = Resolved \<and> mu_upstream_cost m = Canonical 0 \<and>
      mu_request_status m = u ''success'' \<and> mu_genesis_calculated_cost m = None \<and> mu_idempotency_key m = None"
    unfolding parse_callback_def jsn.case ids sbind_simps prod.case numbers fields0
    by (simp add: Let_def cost_provenance_def absent_def or_else_def str_of_def opt_text_def get_def u_def)
  then show "parse_callback lib0 (JObj callback0) = Inr usage2"
    "mu_cost_source usage2 = ProviderReported" "mu_reconciliation_state usage2 = Resolved"
    "mu_upstream_cost usage2 = Canonical 0" "mu_request_status usage2 = u ''success''"
    "mu_genesis_calculated_cost usage2 = None" "mu_idempotency_key usage2 = None"
    by (auto simp: usage2_def)
qed

definition books5 :: Books where "books5 = empty_books\<lparr>bk_usage := [usage_row 3 (u ''g1'') usage2]\<rparr>"

lemma usage5_step: "record_usage empty_books 3 (u ''g1'') usage2 = Inr (usage_row 3 (u ''g1'') usage2, True, books5)"
  by (simp add: record_usage_def find_existing_def key_taken_def books5_def present_def empty_books_def)

lemma reachable5: "service_reachable books5"
proof -
  have "service_step empty_books books5"
    by (rule service_step.RecordCallback [OF parsed0 usage5_step]) (simp add: empty_books_def)
  then show ?thesis by (simp add: service_reachable_def)
qed

lemma charge5_step: "\<exists>bk. charge_usage books5 settings1 4 (u ''c1'') (u ''d1'') (u ''g1'') = Inr (None, True, bk)"
proof -
  let ?r = "usage_row 3 (u ''g1'') usage2"
  have found: "usage_of books5 (u ''g1'') = Some ?r" "get_charge_for_usage books5 (u ''g1'') = None"
    "mu_reconciliation_state ?r = Resolved"
    by (simp_all add: usage_of_def get_charge_for_usage_def books5_def empty_books_def
        usage_row_def MeasuredUsage.defs)
  have q: "quote_basis settings1 (cost_basis ?r) (mu_currency ?r) = Inr (quote settings1 0 (mu_currency ?r))"
    by (simp add: quote_basis_def cost_basis_def read_cost_def usage_row_def MeasuredUsage.defs)
  show ?thesis
    unfolding charge_usage_def charge_new_def found option.case q sbind_simps
    by (simp add: found quote_def Let_def)
qed

lemma free_witness: "mu_cost_source (usage_row 3 (u ''g1'') usage2) = ProviderReported"
proof -
  let ?r = "usage_row 3 (u ''g1'') usage2"
  obtain bk where c: "charge_usage books5 settings1 4 (u ''c1'') (u ''d1'') (u ''g1'') = Inr (None, True, bk)"
    using charge5_step by blast
  have "usage_of books5 (u ''g1'') = Some ?r" "mu_request_status ?r \<in> SUCCESS_STATES"
    "mu_genesis_calculated_cost ?r = None"
    by (simp_all add: usage_of_def books5_def SUCCESS_STATES_def usage_row_def MeasuredUsage.defs)
  with unknown_cost_is_never_free [OF reachable5 c] show ?thesis by blast
qed

section \<open>Prices and credits\<close>

lemma price_step: "\<exists>new bk. add_price books1 100 (u ''v1'') (u ''p'') (u ''m'') (Some (DFin 1)) (Some (DFin 2)) None None
    (u ''USD'') None None = Inr (new, bk) \<and> mp_effective_start new = 100"
  by (simp add: add_price_def price_of_def opt_price_of_def Let_def)

lemma price_witness:
  "\<exists>new bk. add_price books1 100 (u ''v1'') (u ''p'') (u ''m'') (Some (DFin 1)) (Some (DFin 2)) None None
     (u ''USD'') None None = Inr (new, bk) \<and>
   map_option (\<lambda>p. (mp_id p, calculate_cost p 1 2 0 0)) (resolve_price bk (u ''p'') (u ''m'') 50) =
     map_option (\<lambda>p. (mp_id p, calculate_cost p 1 2 0 0)) (resolve_price books1 (u ''p'') (u ''m'') 50)"
proof -
  obtain new bk where s: "add_price books1 100 (u ''v1'') (u ''p'') (u ''m'') (Some (DFin 1)) (Some (DFin 2)) None None
      (u ''USD'') None None = Inr (new, bk)" "mp_effective_start new = 100"
    using price_step by blast
  from s(2) have "50 < mp_effective_start new" by simp
  from price_change_keeps_history [OF s(1) this] s(1) show ?thesis by blast
qed

definition grant1 :: GrantRequest where
  "grant1 = \<lparr>gq_workspace_id = u ''w'', gq_amount = Some (DFin 5), gq_reason = u ''pilot'',
     gq_operator = u ''ops'', gq_idempotency_key = u ''k9'', gq_max_amount = None, gq_currency = u ''USD''\<rparr>"

definition granted1 :: BetaCreditGrant where
  "granted1 = \<lparr>bg_id = u ''gr'', bg_workspace_id = u ''w'', bg_amount = 5, bg_currency = u ''USD'',
     bg_reason = u ''pilot'', bg_operator = u ''ops'', bg_idempotency_key = u ''k9'', bg_status = Granted,
     bg_transaction_id = u ''t1'', bg_reversal_transaction_id = None, bg_reversed_by = None,
     bg_reversed_reason = None, bg_created_at = 1, bg_reversed_at = None\<rparr>"

definition books6 :: Books where
  "books6 = empty_books\<lparr>bk_grants := [granted1],
     bk_txns := [plain_txn 1 (u ''t1'') (u ''w'') BETA_GRANT 5 (grant_key (u ''k9'')) (u ''USD'')]\<rparr>"

lemma grant_step: "grant_credit empty_books 1 (u ''gr'') (u ''t1'') grant1 = Inr (granted1, True, books6)"
  by (simp add: grant_credit_def grant1_def granted1_def books6_def insert_grant_def find_grant_def
      ledger_key_taken_def positive_amount_def dec_less.simps Let_def empty_books_def strip_defs to_money_def)

lemma reversal_step:
  "\<exists>g bk. reverse_grant books6 2 (u ''r1'') (u ''gr'') (u ''ops'') (u ''mistake'') = Inr (g, True, bk)"
proof -
  have "u_strip (u ''gr'') = u ''gr''" "u_strip (u ''ops'') \<noteq> []" by (simp_all add: strip_defs)
  moreover have "grant_of books6 (u ''gr'') = Some granted1" by (simp add: grant_of_def books6_def granted1_def)
  moreover have "\<not> ledger_key_taken books6 (reversal_key (bg_id granted1))"
    by (simp add: ledger_key_taken_def books6_def reversal_key_def grant_key_def BETA_GRANT_def BETA_GRANT_REVERSAL_def)
  moreover have "bg_status granted1 = Granted" by (simp add: granted1_def)
  ultimately show ?thesis by (simp add: reverse_grant_def Let_def)
qed

lemma reversal_witness:
  "\<exists>g bk. reverse_grant books6 2 (u ''r1'') (u ''gr'') (u ''ops'') (u ''mistake'') = Inr (g, True, bk) \<and>
     balance bk (u ''w'') = balance empty_books (u ''w'')"
proof -
  obtain g bk where r: "reverse_grant books6 2 (u ''r1'') (u ''gr'') (u ''ops'') (u ''mistake'') = Inr (g, True, bk)"
    using reversal_step by blast
  have "u_strip (u ''gr'') = u ''gr''" "u ''gr'' \<notin> bg_id ` set (bk_grants empty_books)"
    by (simp_all add: strip_defs empty_books_def)
  from reversal_undoes_grant [OF grant_step r this] r show ?thesis by blast
qed

lemma seven: "read_decimal (u_strip (platform_daily_provider_limit_usd settings1)) = Some (DFin 7)"
  by (simp add: settings1_def read_decimal_def sign_part_def read_unsigned_def exponent_def is_nan_def
      ascii_lower_def strip_defs is_digit_def digits_val_def Let_def)

lemma welcome_step:
  "\<exists>g bk. try_grant empty_books settings1 1 (u ''gr'') (u ''t1'') (u ''w'') = Inr (Some (g, True), bk)"
proof -
  have w: "u_strip (u ''w'') = u ''w''" "u ''w'' \<noteq> []" by (simp_all add: strip_defs)
  have on: "welcome_credit_enabled settings1" "welcome_credit_usd settings1 = Some (DFin 5)"
    by (simp_all add: settings1_def)
  have "per_run_cap_honest settings1 = Inr True"
    by (simp add: per_run_cap_honest_def positive_decimal_def settings1_def dec_less.simps)
  moreover have "under_ceiling empty_books settings1 1 (DFin 5) = Inr True"
    using seven by (simp add: under_ceiling_def positive_decimal_def dec_less.simps dec_plus_def
        daily_welcome_spend_def empty_books_def Let_def)
  moreover have "positive_decimal (Some (DFin 5)) = Inr (Some (DFin 5))"
    by (simp add: positive_decimal_def dec_less.simps)
  moreover have "\<exists>g bk. grant_credit empty_books 1 (u ''gr'') (u ''t1'') (welcome_request settings1 (u ''w'') (DFin 5)) = Inr (g, True, bk)"
    by (simp add: grant_credit_def welcome_request_def settings1_def insert_grant_def find_grant_def
        ledger_key_taken_def positive_amount_def dec_less.simps Let_def empty_books_def strip_defs
        WELCOME_OPERATOR_def welcome_key_def)
  ultimately show ?thesis using w on by (auto simp: try_grant_def Let_def)
qed

lemma ceiling_witness:
  "\<exists>g bk. try_grant empty_books settings1 1 (u ''gr'') (u ''t1'') (u ''w'') = Inr (Some (g, True), bk) \<and>
     daily_welcome_spend bk 1 \<le> 7"
proof -
  obtain g bk where t: "try_grant empty_books settings1 1 (u ''gr'') (u ''t1'') (u ''w'') = Inr (Some (g, True), bk)"
    using welcome_step by blast
  have "u_strip (platform_daily_provider_limit_usd settings1) \<noteq> []" "welcome_credit_usd settings1 = Some (DFin 5)"
    by (simp_all add: settings1_def strip_defs)
  from welcome_ceiling_holds [OF t this(1) seven this(2)] t show ?thesis by auto
qed

lemma welcome_once_witness:
  "\<exists>g bk. try_grant empty_books settings1 1 (u ''gr'') (u ''t1'') (u ''w'') = Inr (Some (g, True), bk) \<and>
     (\<forall>g' bk'. try_grant bk settings1 2 (u ''g2'') (u ''t2'') (u ''w'') \<noteq> Inr (Some (g', True), bk'))"
proof -
  obtain g bk where t: "try_grant empty_books settings1 1 (u ''gr'') (u ''t1'') (u ''w'') = Inr (Some (g, True), bk)"
    using welcome_step by blast
  from welcome_credit_is_granted_once [OF t rtranclp.rtrancl_refl] t show ?thesis by blast
qed

section \<open>Limits\<close>

definition policy1 :: LimitPolicy where
  "policy1 = \<lparr>lp_id = u ''l1'', lp_workspace_id = u ''v'', lp_enabled = True, lp_scope_type = EnvironmentScope,
     lp_scope_id = u ''prod'', lp_limit_type = TotalLimit, lp_amount = 2, lp_currency = u ''USD'',
     lp_warning_threshold = Some (1 / 2), lp_enforcement_mode = BlockMode, lp_effective_at = None,
     lp_expires_at = None\<rparr>"

definition context1 :: LimitContext where
  "context1 = \<lparr>lc_workspace_id = u ''v'', lc_run_id = u ''run'', lc_project_id = None,
     lc_environment_id = Some (u ''prod''), lc_user_id = None, lc_team_id = None, lc_virtual_key_id = None,
     lc_key_limits = \<lparr>kl_soft_limit = None, kl_hard_limit = None, kl_per_run_limit = None,
       kl_daily_limit = None, kl_monthly_limit = None\<rparr>\<rparr>"

lemma policy1_applies: "policy_applies context1 0 policy1"
  by (simp add: policy_applies_def policy1_def context1_def scope_value_def present_def)

lemma evaluate_returns:
  "bk_limit_holds bk = [] \<Longrightarrow> \<exists>res bk'. evaluate bk now ctx estimate k = Inr (res, bk')"
  by (simp add: evaluate_def Let_def)

definition limited :: "Books \<Rightarrow> Books" where "limited bk = bk\<lparr>bk_policies := [policy1]\<rparr>"

lemma limited_empty: "bk_limit_holds (limited empty_books) = []" "bk_policies (limited empty_books) = [policy1]"
  by (simp_all add: limited_def empty_books_def)

lemma applies: "applicable (limited bk) context1 0 = [of_policy policy1]"
  using policy1_applies by (simp add: applicable_def limited_def key_policies_def context1_def)

text \<open>A first request of one dollar fits under the limit of two.\<close>

lemma admitted_step: "\<exists>res bk. evaluate (limited empty_books) 0 context1 1 (u ''q1'') = Inr (res, bk) \<and> er_result res \<noteq> LimitBlock"
proof -
  obtain res bk where e: "evaluate (limited empty_books) 0 context1 1 (u ''q1'') = Inr (res, bk)"
    using evaluate_returns [OF limited_empty(1)] by blast
  have "projected (limited empty_books) 0 (lc_run_id context1) 1 (of_policy policy1) = 1"
    by (simp add: projected_def spent_before_def committed_spend_def limit_holds_def limited_def empty_books_def)
  moreover have "ap_amount (of_policy policy1) = 2" by (simp add: of_policy_def policy1_def)
  ultimately have "er_result res \<noteq> LimitBlock"
    using most_restrictive_limit_wins [OF e] unfolding applies by simp
  with e show ?thesis by blast
qed

lemma restrictive_witness:
  "\<exists>res bk. evaluate (limited empty_books) 0 context1 3 (u ''q1'') = Inr (res, bk) \<and> er_result res = LimitBlock \<and>
     bk_limit_holds bk = []"
proof -
  obtain res bk where e: "evaluate (limited empty_books) 0 context1 3 (u ''q1'') = Inr (res, bk)"
    using evaluate_returns [OF limited_empty(1)] by blast
  have "projected (limited empty_books) 0 (lc_run_id context1) 3 (of_policy policy1) = 3"
    by (simp add: projected_def spent_before_def committed_spend_def limit_holds_def limited_def empty_books_def)
  moreover have "ap_amount (of_policy policy1) = 2" "ap_enforcement_mode (of_policy policy1) = BlockMode"
    by (simp_all add: of_policy_def policy1_def)
  ultimately show ?thesis
    using most_restrictive_limit_wins [OF e] e limited_empty(1) unfolding applies by auto
qed

lemma admission_witness:
  "\<exists>res bk. evaluate (limited empty_books) 0 context1 1 (u ''q1'') = Inr (res, bk) \<and>
     spent_before bk 0 (u ''run'') (of_policy policy1) + limit_holds bk (hold_key 0 (u ''run'') (of_policy policy1)) \<le> 2"
proof -
  obtain res bk where e: "evaluate (limited empty_books) 0 context1 1 (u ''q1'') = Inr (res, bk)"
    "er_result res \<noteq> LimitBlock" using admitted_step by blast
  have "of_policy policy1 \<in> set (applicable (limited empty_books) context1 0)" by (simp add: applies)
  moreover have "ap_enforcement_mode (of_policy policy1) = BlockMode" "ap_amount (of_policy policy1) = 2"
    "lc_run_id context1 = u ''run''" by (simp_all add: of_policy_def policy1_def context1_def)
  ultimately show ?thesis using admission_stays_within_limits [OF e, of "of_policy policy1"] e(1) by auto
qed

lemma released_witness:
  "\<exists>res bk. evaluate (limited empty_books) 0 context1 1 (u ''q1'') = Inr (res, bk) \<and>
     limit_holds (release_limits bk (u ''q1'')) (hold_key 0 (u ''run'') (of_policy policy1)) = 0"
proof -
  obtain res bk where e: "evaluate (limited empty_books) 0 context1 1 (u ''q1'') = Inr (res, bk)"
    using admitted_step by blast
  have "u ''q1'' \<notin> lr_reservation_key ` set (bk_limit_holds (limited empty_books))" by (simp add: limited_empty)
  from released_request_holds_nothing [OF e this] e show ?thesis
    by (auto simp: limit_holds_def limited_empty)
qed

text \<open>Workspace \<open>v\<close> has spent nothing; the charge of workspace \<open>w\<close> blocks it.\<close>

lemma other_workspace_witness:
  "\<exists>res bk. evaluate (limited books4) 0 context1 0 (u ''q2'') = Inr (res, bk) \<and> er_result res = LimitBlock"
proof -
  have none: "bk_limit_holds (limited books4) = []"
    by (simp add: limited_def books4_def books3_def books2_def books1_def empty_books_def)
  obtain res bk where e: "evaluate (limited books4) 0 context1 0 (u ''q2'') = Inr (res, bk)"
    using evaluate_returns [OF none] by blast
  have rows: "bk_policies (limited books4) = [policy1]" "bk_charges (limited books4) = [charge1]"
    "bk_usage (limited books4) = [usage_row1]"
    by (simp_all add: limited_def books4_def books3_def)
  have "er_result res = LimitBlock"
    by (rule limits_count_other_workspaces [OF e _ _ policy1_applies, of charge1 usage_row1])
      (simp_all add: rows none policy1_def context1_def scope_column_def)
  with e show ?thesis by blast
qed

end
