(* ===== verification/GatewayWitnesses.thy ===== *)
theory GatewayWitnesses
  imports ServiceWitnesses ExecutorWitnesses
begin

text \<open>
  The properties of keys and gateways, each applied to a concrete key, request or run.
\<close>

section \<open>Keys\<close>

definition key_env1 :: key_env where
  "key_env1 = \<lparr>ke_lib = lib0, ke_sha256 = \<lambda>s. s, iso_text = \<lambda>_. u ''2026'', read_iso = \<lambda>_. None\<rparr>"

text \<open>The first request has no lists, that of a rotation has empty ones.\<close>

definition key_request :: "ustr jsn \<Rightarrow> KeyRequest" where
  "key_request v = \<lparr>kq_workspace_id = u ''w'', kq_name = u ''ci'', kq_mode = u ''live'', kq_project_id = None,
     kq_environment_id = Some (u ''prod''), kq_user_id = None, kq_team_id = None,
     kq_allowed_providers = v, kq_allowed_models = v, kq_soft_limit = JNull, kq_hard_limit = JNull,
     kq_per_run_limit = JNull, kq_daily_limit = JNull, kq_monthly_limit = JNull, kq_expires_at = None,
     kq_metadata = JNull, kq_api_scopes = v\<rparr>"

definition issued :: "ustr \<Rightarrow> ustr \<Rightarrow> VirtualKey" where
  "issued i random = \<lparr>vk_id = i, vk_key_hash = u ''gns_live_'' @ random,
     vk_key_prefix = display_prefix (u ''gns_live_'' @ random), vk_mode = u ''live'', vk_name = u ''ci'',
     vk_status = KeyActive, vk_workspace_id = u ''w'', vk_project_id = None,
     vk_environment_id = Some (u ''prod''), vk_user_id = None, vk_team_id = None,
     vk_allowed_providers = None, vk_allowed_models = None, vk_api_scopes = None, vk_soft_limit = None,
     vk_hard_limit = None, vk_per_run_limit = None, vk_daily_limit = None, vk_monthly_limit = None,
     vk_expires_at = None, vk_rotated_to = None, vk_metadata = JNull, vk_last_used_at = None,
     vk_created_at = 1, vk_disabled_at = None\<rparr>"

definition key1 :: VirtualKey where "key1 = issued (u ''k1'') (u ''aa'')"

lemma limits1: "limits_of (ke_lib key_env1) (key_request v) = Inr (None, None, None, None, None)"
  by (simp add: limits_of_def norm_limit_def key_request_def soft_above_hard_def)

lemma issued_run:
  assumes "\<not> truthy v" "u ''gns_live_'' @ random \<notin> vk_key_hash ` set ks"
  shows "create_key key_env1 settings1 ks 1 i random (key_request v) =
    Inr (issued i random, u ''gns_live_'' @ random, ks @ [issued i random])"
proof -
  have secret: "generate_secret (u ''live'') random = u ''gns_live_'' @ random"
    by (simp add: generate_secret_def)
  have parts: "norm_csv (ke_lib key_env1) v = Inr None" "check_scopes None = Inr ()"
    "parse_expiry key_env1 None = Inr None"
    "hash_key key_env1 settings1 s = s" "u_strip (u ''ci'') = u ''ci''" for s
    using assms(1) by (simp_all add: norm_csv_def check_scopes_def present_def parse_expiry_def hash_key_def key_env1_def
        settings1_def strip_defs)
  have q: "kq_mode (key_request v) = u ''live''" "kq_api_scopes (key_request v) = v" "kq_expires_at (key_request v) = None"
    "kq_allowed_providers (key_request v) = v" "kq_allowed_models (key_request v) = v"
    "kq_workspace_id (key_request v) = u ''w''" "kq_name (key_request v) = u ''ci''" "kq_project_id (key_request v) = None"
    "kq_environment_id (key_request v) = Some (u ''prod'')" "kq_user_id (key_request v) = None"
    "kq_team_id (key_request v) = None" "kq_metadata (key_request v) = JNull"
    by (simp_all add: key_request_def)
  show ?thesis
    unfolding create_key_def q parts limits1 sbind_simps secret Let_def prod.case
    using assms(2) by (simp add: issued_def)
qed

lemma issue_step: "create_key key_env1 settings1 [] 1 (u ''k1'') (u ''aa'') (key_request JNull) =
    Inr (key1, u ''gns_live_aa'', [key1])"
  using issued_run [of JNull "u ''aa''" "[]" "u ''k1''"] by (simp add: key1_def)

lemma issued_witness:
  "\<exists>ks. resolve_key key_env1 settings1 [key1] 9 (Some (u ''Bearer '' @ u ''gns_live_aa'')) =
     Inr (key1\<lparr>vk_last_used_at := Some 9\<rparr>, ks)"
  by (rule issued_key_opens [OF issue_step]) (simp_all add: key1_def issued_def expired_key_def strip_defs)

lemma disable_step:
  "disable_key [key1] 2 (u ''w'') (u ''k1'') = Inr (disabled_copy 2 key1, [disabled_copy 2 key1])"
  by (simp add: disable_key_def get_key_def key1_def issued_def change_where_def)

lemma successor1:
  "successor_request key_env1 print key1 = key_request (JList [])"
  "successor_request key_env1 print (disabled_copy 2 key1) = key_request (JList [])"
  by (simp_all add: successor_request_def key1_def issued_def key_request_def texts_def csv_def disabled_copy_def)

lemma rotate_step:
  assumes "vk_id k = u ''k1''" "vk_workspace_id k = u ''w''" "vk_key_hash k = u ''gns_live_aa''"
    "successor_request key_env1 print k = key_request (JList [])"
  shows "rotate_key key_env1 print settings1 [k] 1 (u ''k2'') (u ''bb'') (u ''w'') (u ''k1'') =
    Inr (issued (u ''k2'') (u ''bb''), u ''gns_live_bb'', [rotated_copy 1 (u ''k2'') k, issued (u ''k2'') (u ''bb'')])"
proof -
  have "create_key key_env1 settings1 [k] 1 (u ''k2'') (u ''bb'') (key_request (JList [])) =
      Inr (issued (u ''k2'') (u ''bb''), u ''gns_live_'' @ u ''bb'', [k] @ [issued (u ''k2'') (u ''bb'')])"
    by (rule issued_run) (simp_all add: assms(3))
  moreover have "get_key [k] (u ''w'') (u ''k1'') = Some k" by (simp add: get_key_def assms)
  ultimately show ?thesis
    by (simp add: rotate_key_def assms(1,4) change_where_def issued_def)
qed

lemma hash1: "hash_key key_env1 settings1 s = s"
  by (simp add: hash_key_def key_env1_def settings1_def)

lemma rotated_witness:
  "authenticate_key key_env1 settings1 [rotated_copy 1 (u ''k2'') key1, issued (u ''k2'') (u ''bb'')] 9
     (u ''gns_live_aa'') = (None, [rotated_copy 1 (u ''k2'') key1, issued (u ''k2'') (u ''bb'')])"
proof -
  have k: "vk_id key1 = u ''k1''" "vk_workspace_id key1 = u ''w''" "vk_key_hash key1 = u ''gns_live_aa''"
    by (simp_all add: key1_def issued_def)
  have other: "distinct (map vk_key_hash [key1])" "get_key [key1] (u ''w'') (u ''k1'') = Some key1"
    "hash_key key_env1 settings1 (u ''gns_live_aa'') = vk_key_hash key1" "u ''k2'' \<noteq> u ''k1''"
    "\<not> expired_key 9 (issued (u ''k2'') (u ''bb''))"
    by (simp_all add: get_key_def k hash1 expired_key_def issued_def)
  show ?thesis
    using rotated_key_is_replaced [OF rotate_step [OF k successor1(1) [of "\<lambda>_. []"]] other] by blast
qed

lemma revived_key_witness:
  "fst (authenticate_key key_env1 settings1 [rotated_copy 1 (u ''k2'') (disabled_copy 2 key1),
     issued (u ''k2'') (u ''bb'')] 9 (u ''gns_live_bb'')) =
   Some ((issued (u ''k2'') (u ''bb''))\<lparr>vk_last_used_at := Some 9\<rparr>)"
proof -
  let ?k = "disabled_copy 2 key1"
  have k: "vk_id ?k = u ''k1''" "vk_workspace_id ?k = u ''w''" "vk_key_hash ?k = u ''gns_live_aa''"
    by (simp_all add: key1_def issued_def disabled_copy_def)
  have other: "distinct (map vk_key_hash [key1])" "hash_key key_env1 settings1 (u ''gns_live_aa'') = vk_key_hash ?k"
    by (simp_all only: k hash1) simp
  have fresh: "u ''k2'' \<noteq> u ''k1''" "\<not> expired_key 9 (issued (u ''k2'') (u ''bb''))"
    by (simp_all add: expired_key_def issued_def)
  show ?thesis
    using rotation_revives_disabled_key [OF disable_step other rotate_step [OF k successor1(2) [of "\<lambda>_. []"]] fresh]
    by blast
qed

section \<open>The public gateway\<close>

text \<open>A request of the key's workspace, on the books that hold ten dollars.\<close>

lemma admit_step: "\<exists>bk. admit settings1 key1 books1 5 (u ''p/m'') run (u ''rq'') = (Inr (), bk)"
proof -
  have permitted: "check_permitted key1 (provider_of (u ''p/m'')) (u ''p/m'') = Inr ()"
    by (simp add: check_permitted_def key1_def issued_def csv_def)
  obtain ok bk where r: "reserve books1 5 (u ''w'') 1 (u ''rq'') = (ok, bk)" by (cases "reserve books1 5 (u ''w'') 1 (u ''rq'')")
  have ok: ok "bk_policies bk = []" "bk_limit_holds bk = []"
    using r by (auto simp: reserve_def books1_def empty_books_def available_def balance_def active_holds_def
        txn_row_def top_up1_def to_money_def)
  have est: "balance_reserve_estimate_usd settings1 = 1" "vk_workspace_id key1 = u ''w''" "u ''w'' \<noteq> []"
    by (simp_all add: settings1_def key1_def issued_def)
  have one: "reserve_or_402 settings1 key1 books1 5 (u ''rq'') = (Inr (), bk)"
    using r ok(1) est by (simp add: reserve_or_402_def)
  have none: "applicable bk (limit_context key1 run) 5 = []"
    using ok(2) by (simp add: applicable_def key_policies_def limit_context_def key1_def issued_def of_key_def)
  obtain res bk' where e: "evaluate bk 5 (limit_context key1 run) 1 (u ''rq'') = Inr (res, bk')"
    using evaluate_returns [OF ok(3)] by blast
  have "er_result res \<noteq> LimitBlock" using most_restrictive_limit_wins [OF e] none by simp
  with permitted one e est show ?thesis by (simp add: admit_def enforce_limits_or_deny_def)
qed

lemma books1_idle: "idle_hold k books1" "idle_limits k books1" "k \<noteq> [] \<Longrightarrow> fresh_request books1 k i"
  "br_reservation_key ` set (bk_holds books1) = {}"
  by (simp_all add: idle_hold_def idle_limits_def fresh_request_def books1_def empty_books_def)

lemma returns_witness:
  "\<exists>bk. handle_chat_completion lib0 settings1 key1 books1 5 6 (u ''g'', u ''c'', u ''d'') (u ''run'')
     (\<lambda>_ _. UpstreamRefused (GatewayError ''provider_error'' 502)) (JObj [(u ''model'', JStr (u ''p/m''))]) None (u ''rq'') =
     (Inl (GatewayError ''provider_error'' 502), bk) \<and> idle_hold (u ''rq'') bk \<and> idle_limits (u ''rq'') bk"
proof -
  let ?h = "handle_chat_completion lib0 settings1 key1 books1 5 6 (u ''g'', u ''c'', u ''d'') (u ''run'')
     (\<lambda>_ _. UpstreamRefused (GatewayError ''provider_error'' 502)) (JObj [(u ''model'', JStr (u ''p/m''))]) None (u ''rq'')"
  obtain bk where a: "admit settings1 key1 books1 5 (u ''p/m'')
      (resolve_run_id lib0 (u ''run'') [(u ''model'', JStr (u ''p/m''))] None) (u ''rq'') = (Inr (), bk)"
    using admit_step by blast
  have m: "get [(u ''model'', JStr (u ''p/m''))] ''model'' = JStr (u ''p/m'')" "truthy (JStr (u ''p/m''))"
    by (simp_all add: get_def)
  have run: "?h = (Inl (GatewayError ''provider_error'' 502), give_back settings1 key1 bk (u ''rq''))"
    unfolding handle_chat_completion_def jsn.case m(1) Let_def a using m(2) by (simp add: account_def)
  have "u ''rq'' \<noteq> []" by simp
  from gateway_returns_every_hold [OF run books1_idle(3) [OF this] books1_idle(1,2)] run show ?thesis
    by (simp add: GatewayError_def)
qed

lemma stream_witness:
  "\<exists>bk. snd (stream_chat_completion lib0 settings1 key1 books1 5 6 (u ''g'', u ''c'', u ''d'') (u ''run'')
     (\<lambda>_ _. StreamClosed) [(u ''model'', JStr (u ''p/m''))] None (u ''rq'')) = bk \<and>
     bk_usage bk = [] \<and> \<not> idle_hold (u ''rq'') bk"
proof -
  let ?s = "stream_chat_completion lib0 settings1 key1 books1 5 6 (u ''g'', u ''c'', u ''d'') (u ''run'')
     (\<lambda>_ _. StreamClosed) [(u ''model'', JStr (u ''p/m''))] None (u ''rq'')"
  obtain bk where a: "admit settings1 key1 books1 5 (u ''p/m'')
      (resolve_run_id lib0 (u ''run'') [(u ''model'', JStr (u ''p/m''))] None) (u ''rq'') = (Inr (), bk)"
    using admit_step by blast
  obtain res bk' where s: "?s = (res, bk')" by (cases ?s)
  have w: "map_of [(u ''model'', JStr (u ''p/m''))] (u ''model'') = Some (JStr (u ''p/m''))"
    "vk_workspace_id key1 \<noteq> []" "u ''rq'' \<notin> br_reservation_key ` set (bk_holds books1)"
    by (simp_all add: key1_def issued_def books1_idle)
  from closed_stream_is_unmetered [OF w(1) a _ books1_idle(2) settings1_enabled(2) w(2,3) s] s show ?thesis
    by (simp add: books1_def empty_books_def)
qed

section \<open>The executor's gateway\<close>

definition gateway_env1 :: gateway_env where
  "gateway_env1 = \<lparr>gw_lib = lib0, gw_float = \<lambda>_. None, gw_owner = \<lambda>_. Some (u ''me'')\<rparr>"

definition gateway_settings1 :: gateway_settings where
  "gateway_settings1 = \<lparr>gs_litellm_enabled = True, gs_openrouter_api_key = [], gs_max_output_tokens = 100,
     gs_web_search_enabled = True, gs_advisor_enabled = False, gs_allowed_models = [u ''p''],
     gs_billing = settings1\<rparr>"

definition call_body :: "(ustr \<times> ustr jsn) list" where
  "call_body = [(u ''model'', JStr (u ''p'')), (u ''messages'', JList [JStr (u ''hi'')]),
     (u ''user'', JStr (u ''x'')), (u ''metadata'', JObj [(u ''trace_event_id'', JStr (u ''mine''))])]"

lemma call_fields: "get call_body ''model'' = JStr (u ''p'')" "get call_body ''max_tokens'' = JNull"
  "get call_body ''messages'' = JList [JStr (u ''hi'')]" "get call_body ''tools'' = JNull"
  "get call_body ''metadata'' = JObj [(u ''trace_event_id'', JStr (u ''mine''))]"
  by (simp_all add: get_def call_body_def u_def)

lemma row1_model: "er_primary_model row1 = Some (u ''p'')" "er_workspace_id row1 = Some (u ''w1'')"
  by (simp_all add: row1_def row0_def new_run_def request0_def)

lemma check_step: "check_request gateway_env1 gateway_settings1 row1 (JObj call_body) = Inr (call_body, u ''p'')"
  unfolding check_request_def jsn.case call_fields
  by (simp add: gateway_settings1_def row1_model smuggled_tool_def)

lemma outgoing_step: "\<exists>p. outgoing (gw_lib gateway_env1) gateway_settings1 row1 call_body (u ''p'') = Inr p"
proof (cases "primary_call (gw_lib gateway_env1) call_body")
  case True
  then show ?thesis
    by (simp add: outgoing_def inject_server_tools_def model_payload_tools call_fields as_list_def Let_def)
qed (simp add: outgoing_def)

lemma outgoing_witness:
  "\<exists>p. outgoing (gw_lib gateway_env1) gateway_settings1 row1 call_body (u ''p'') = Inr p \<and>
     fst ` set p \<subseteq> set MODEL_FIELDS \<and> map_of p (u ''model'') = Some (JStr (u ''p''))"
proof -
  obtain p where p: "outgoing (gw_lib gateway_env1) gateway_settings1 row1 call_body (u ''p'') = Inr p"
    using outgoing_step by blast
  from outgoing_request_is_the_servers [OF check_step p] p show ?thesis by blast
qed

definition expensive_answer :: "(ustr \<times> ustr jsn) list" where
  "expensive_answer = [(u ''usage'', JObj [(u ''prompt_tokens'', JInt 200), (u ''completion_tokens'', JInt 1)])]"

lemma settle_step: "\<exists>S. settle_call gateway_env1 row1 30 (u ''ev'') (u ''p'') expensive_answer store1 = (Inr expensive_answer, S)"
proof -
  let ?us = "[(u ''prompt_tokens'', JInt 200), (u ''completion_tokens'', JInt 1)]"
  have usage: "dict_or_empty (get expensive_answer ''usage'') = Inr ?us"
    by (simp add: get_def expensive_answer_def dict_or_empty_def or_else_def)
  have f: "get ?us ''prompt_tokens'' = JInt 200" "get ?us ''completion_tokens'' = JInt 1" "get ?us ''cost'' = JNull"
    by (simp_all add: get_def u_def)
  have "usage_numbers gateway_env1 (u ''p'') ?us = Inr (200, 1, estimate_cost (u ''p'') 200 1)"
    unfolding usage_numbers_def f
    by (simp add: int_or_zero_def or_else_def py_int_def gateway_env1_def)
  then show ?thesis
    using usage rows(2) row1_simps(1)
    by (simp add: settle_call_def record_model_usage_def Let_def)
qed

lemma over_budget_witness:
  "\<exists>S r. settle_call gateway_env1 row1 30 (u ''ev'') (u ''p'') expensive_answer store1 = (Inr expensive_answer, S) \<and>
     run_row S (er_id row1) = Some r \<and> (usage_within r \<or> (\<exists>t. er_token_revoked_at r = Some t))"
proof -
  obtain S where s: "settle_call gateway_env1 row1 30 (u ''ev'') (u ''p'') expensive_answer store1 = (Inr expensive_answer, S)"
    using settle_step by blast
  from over_budget_call_revokes_token [OF this] s show ?thesis by blast
qed

text \<open>The callback that the proxy makes for the call above, whose agent chose the trace \<open>mine\<close>.\<close>

definition call_metadata :: "(ustr \<times> ustr jsn) list" where
  "call_metadata = build_litellm_metadata gateway_env1 row1 call_body (u ''ev'')"

definition callback1 :: "(ustr \<times> ustr jsn) list" where
  "callback1 = [(u ''litellm_request_id'', JStr (u ''l9'')), (u ''metadata'', JObj call_metadata),
     (u ''upstream_cost'', JStr (u ''2''))]"

lemma call_metadata_eq: "call_metadata =
    [(u ''workspace_id'', JStr (u ''w1'')), (u ''user_id'', JStr (u ''me'')), (u ''run_id'', JStr (u ''j1'')),
     (u ''repository_id'', JStr (u ''r1'')), (u ''model_call_event_id'', JStr (u ''ev'')),
     (u ''trace_event_id'', JStr (u ''mine'')), (u ''engine'', JStr (u ''gnsis''))]"
proof -
  have "agent_metadata call_body = [(u ''trace_event_id'', JStr (u ''mine''))]"
    by (simp add: agent_metadata_def call_fields)
  moreover have "er_repository_id row1 = Some (u ''r1'')"
    by (simp add: row1_def row0_def new_run_def request0_def)
  ultimately show ?thesis
    by (simp add: call_metadata_def build_litellm_metadata_def Let_def row1_model row1_simps(2) json_opt_def
        present_def gateway_env1_def or_else_def get_def)
qed

lemma required_step: "required_ids callback1 = Inr (JStr (u ''l9''), call_metadata)"
proof -
  have "get callback1 ''litellm_request_id'' = JStr (u ''l9'')" "get callback1 ''metadata'' = JObj call_metadata"
    by (simp_all add: get_def callback1_def u_def)
  moreover have "get call_metadata ''workspace_id'' = JStr (u ''w1'')" "get call_metadata ''user_id'' = JStr (u ''me'')"
    by (simp_all add: get_def call_metadata_eq u_def)
  ultimately show ?thesis by (simp add: required_ids_def or_else_def Let_def)
qed

lemma parse_step: "\<exists>m. parse_callback lib0 (JObj callback1) = Inr m \<and> mu_cost_source m = ProviderReported \<and>
  mu_reconciliation_state m = Resolved \<and> mu_upstream_cost m = Canonical 2"
proof -
  have none: "get callback1 k = JNull" if "u k \<notin> {u ''litellm_request_id'', u ''metadata'', u ''upstream_cost''}" for k
    using that by (auto simp: get_def callback1_def)
  have counts: "get callback1 ''input_tokens'' = JNull" "get callback1 ''output_tokens'' = JNull"
    "get callback1 ''cached_tokens'' = JNull" "get callback1 ''reasoning_tokens'' = JNull"
    "get callback1 ''duration_ms'' = JNull" "get callback1 ''upstream_cost'' = JStr (u ''2'')"
    by (rule none, simp add: u_def)+ (simp add: get_def callback1_def u_def)
  have two: "read_decimal (u ''2'') = Some (DFin 2)"
    by (simp add: read_decimal_def sign_part_def read_unsigned_def exponent_def is_nan_def
        ascii_lower_def strip_defs is_digit_def digits_val_def Let_def)
  have "measured_numbers lib0 callback1 = Inr (0, 0, 0, 0, 0, 2)"
    unfolding measured_numbers_def counts
    using two by (simp add: count_of_def absent_def to_decimal_str_def decimal_of_def str_of_def)
  then show ?thesis
    unfolding parse_callback_def jsn.case required_step sbind_simps prod.case counts(6)
    by (simp add: Let_def cost_provenance_def absent_def)
qed

lemma charge_returns:
  assumes "usage_of bk i = Some r" "mu_cost_source r = ProviderReported" "mu_upstream_cost r = Canonical q"
    "mu_reconciliation_state r = Resolved" "bk_txns bk = []"
  shows "\<exists>c x bk'. charge_usage bk st now ci ti i = Inr (c, x, bk')"
  using assms
  by (cases "get_charge_for_usage bk i")
    (auto simp: charge_usage_def charge_new_def quote_basis_def cost_basis_def read_cost_def Let_def)

lemma unpriced_row_stays:
  assumes "bk_prices bk = []" "usage_of bk i = Some r" "mu_cost_source r = ProviderReported"
    "usage_of (price_if_new c bk i) i = Some r'"
  shows "r' = r"
proof -
  have "price_row bk r = Inr r" using assms(1,3) by (simp add: price_row_def resolve_price_def price_candidates_def)
  moreover have "find (\<lambda>x. ur_id x = i) (change_where (\<lambda>x. ur_id x = i) (\<lambda>_. r) rows) =
      map_option (\<lambda>_. r) (find (\<lambda>x. ur_id x = i) rows)" for rows
    using usage_of_some [OF assms(2)] by (induction rows) (auto simp: change_where_def)
  ultimately show ?thesis
    using assms(2,4) by (cases c) (simp_all add: price_if_new_def price_usage_record_def usage_of_def)
qed

definition held_books :: Books where
  "held_books = empty_books\<lparr>bk_holds := [\<lparr>br_workspace_id = u ''w1'', br_reservation_key = u ''ev'', br_amount = 1,
     br_status = HoldActive, br_created_at = 2\<rparr>]\<rparr>"

lemma trace_witness:
  "\<exists>m a bk. parse_callback lib0 (JObj callback1) = Inr m \<and>
     record_and_charge settings1 held_books 9 (u ''g'', u ''c'', u ''d'') m = (Inr a, bk) \<and>
     \<not> idle_hold (u ''ev'') bk"
proof -
  let ?ids = "(u ''g'', u ''c'', u ''d'')"
  obtain m where m: "parse_callback lib0 (JObj callback1) = Inr m" "mu_cost_source m = ProviderReported"
    "mu_reconciliation_state m = Resolved" "mu_upstream_cost m = Canonical 2" using parse_step by blast
  have none: "find_existing held_books m = None" "u ''g'' \<notin> ur_id ` set (bk_usage held_books)"
    by (simp_all add: find_existing_def held_books_def empty_books_def)
  let ?row = "usage_row 9 (u ''g'') m" and ?bk1 = "held_books\<lparr>bk_usage := [usage_row 9 (u ''g'') m]\<rparr>"
  have rec: "record_usage held_books 9 (u ''g'') m = Inr (?row, True, ?bk1)"
    using none(1) by (simp add: record_usage_def key_taken_def held_books_def empty_books_def)
  have row: "usage_of ?bk1 (u ''g'') = Some ?row" by (simp add: usage_of_def)
  have fields1: "mu_cost_source ?row = ProviderReported" "mu_upstream_cost ?row = Canonical 2"
    "mu_reconciliation_state ?row = Resolved" "bk_prices ?bk1 = []" "bk_txns (price_if_new True ?bk1 (u ''g'')) = []"
    using m(2-4) by (simp_all add: usage_row_def MeasuredUsage.defs held_books_def empty_books_def)
  obtain r' where r': "usage_of (price_if_new True ?bk1 (u ''g'')) (u ''g'') = Some r'"
    using price_if_new_row [OF row] by blast
  have "r' = ?row" using fields1(4) row fields1(1) r' by (rule unpriced_row_stays)
  then obtain c x bk' where "charge_usage (price_if_new True ?bk1 (u ''g'')) settings1 9 (u ''c'') (u ''d'') (u ''g'') = Inr (c, x, bk')"
    using charge_returns [OF r'] fields1 by blast
  then obtain a bk where r: "record_and_charge settings1 held_books 9 ?ids m = (Inr a, bk)"
    using rec by (simp add: record_and_charge_def Let_def)
  have t: "get (agent_metadata call_body) ''trace_event_id'' = JStr (u ''mine'')" "u ''mine'' \<noteq> []" "u ''mine'' \<noteq> u ''ev''"
    by (simp_all only: agent_metadata_def call_fields jsn.case) (simp_all add: get_def)
  have "filter (\<lambda>h. br_reservation_key h = u ''ev'') (bk_holds bk) =
      filter (\<lambda>h. br_reservation_key h = u ''ev'') (bk_holds held_books)"
    using agent_trace_strands_hold [OF t required_step [unfolded call_metadata_def] m(1) none r] by blast
  then have "\<not> idle_hold (u ''ev'') bk"
    by (auto simp: idle_hold_def held_books_def list_all_iff filter_eq_Cons_iff)
  with m(1) r show ?thesis by blast
qed

end
