(* ===== verification/ControlMonad.thy ===== *)
theory ControlMonad
  imports LedgerInvariant Engine
begin

text \<open>
  The state of \<open>GNSISGateway\<close> (runtime/gnsis_runtime/gnsis_runtime/gateway.py) and the monad its methods
  are written in.  A method is a function from the gateway to its outcome and the gateway it leaves; an
  exception keeps what was committed before it, as in Python, because every call of the ledger is a
  transaction of its own.

  What a method takes from outside is in \<open>env\<close>: the settings of the gateway, the capabilities of the
  registered providers, the clock and \<open>new_id\<close>, and the answers of the worker runs.  The \<open>n\<close>-th
  call a run of the program makes reads the \<open>n\<close>-th of these, so the answers of different calls are
  independent.  The gateway's asyncio tasks are the sets of the keys that have one.
\<close>

section \<open>State and environment\<close>

record gateway =
  gw_ledger :: TaskLedger
  gw_standing :: "string set"
  gw_muted :: "string set"
  gw_subscribed :: "string set"
  gw_runs :: "string set"
  gw_jobs :: "string set"
  gw_aggregate_jobs :: "string set"
  gw_coordination_jobs :: "string set"
  gw_finished :: "string set"
  gw_closed :: bool
  gw_started :: bool
  gw_calls :: nat

definition new_gateway :: "TaskLedger \<Rightarrow> gateway" where
  "new_gateway L = \<lparr>gw_ledger = L, gw_standing = {}, gw_muted = {}, gw_subscribed = {}, gw_runs = {},
     gw_jobs = {}, gw_aggregate_jobs = {}, gw_coordination_jobs = {}, gw_finished = {},
     gw_closed = False, gw_started = False, gw_calls = 0\<rparr>"

text \<open>
  \<open>CoordinatorPlanError\<close> carries its message and its \<open>reason_key\<close>; \<open>ProviderError\<close> is an exception
  of a worker run, with its text.
\<close>

datatype control_error =
    CoordinatorPlanError string string
  | ProviderError string
  | Raised py_error

record env =
  x_clock :: "nat \<Rightarrow> clock"
  x_new_id :: "nat \<Rightarrow> string \<Rightarrow> string"
  x_uuid5 :: "string \<Rightarrow> string"
  x_instance_id :: string
  x_providers :: "(string \<times> BackendCapabilities) list"
  x_lean :: bool
  x_permission_timeout_ms :: int
  x_max_queued_tasks :: int
  x_terminal_task_ttl_ms :: int
  x_max_terminal_tasks :: int
  x_recent_task_window_ms :: int
  x_max_realtime_events :: nat
  x_screen_window_ms :: int
  x_send :: "nat \<Rightarrow> string \<Rightarrow> WorkerMessage \<Rightarrow> string + bool"
  x_cancel :: "nat \<Rightarrow> string \<Rightarrow> string \<Rightarrow> string + bool"
  x_error_text :: "control_error \<Rightarrow> string"

section \<open>The monad\<close>

type_synonym 'a control = "gateway \<Rightarrow> (control_error + 'a) \<times> gateway"

definition ret :: "'a \<Rightarrow> 'a control" where
  "ret x = (\<lambda>g. (Inr x, g))"

definition throw :: "control_error \<Rightarrow> 'a control" where
  "throw e = (\<lambda>g. (Inl e, g))"

definition cbind :: "'a control \<Rightarrow> ('a \<Rightarrow> 'b control) \<Rightarrow> 'b control" where
  "cbind m f = (\<lambda>g. case m g of (Inl e, g') \<Rightarrow> (Inl e, g') | (Inr x, g') \<Rightarrow> f x g')"

definition seq :: "unit control \<Rightarrow> 'b control \<Rightarrow> 'b control" where
  "seq m n = cbind m (\<lambda>_. n)"

text \<open>\<open>try: m except Exception: h\<close>\<close>

definition rescue :: "'a control \<Rightarrow> (control_error \<Rightarrow> 'a control) \<Rightarrow> 'a control" where
  "rescue m h = (\<lambda>g. case m g of (Inl e, g') \<Rightarrow> h e g' | (Inr x, g') \<Rightarrow> (Inr x, g'))"

definition lift_res :: "'a res \<Rightarrow> 'a control" where
  "lift_res r = (case r of Inl e \<Rightarrow> throw (Raised e) | Inr x \<Rightarrow> ret x)"

definition need :: "control_error \<Rightarrow> 'a option \<Rightarrow> 'a control" where
  "need e x = (case x of None \<Rightarrow> throw e | Some y \<Rightarrow> ret y)"

definition fetch :: "(gateway \<Rightarrow> 'a) \<Rightarrow> 'a control" where
  "fetch f = (\<lambda>g. (Inr (f g), g))"

definition look :: "(TaskLedger \<Rightarrow> 'a) \<Rightarrow> 'a control" where
  "look f = fetch (\<lambda>g. f (gw_ledger g))"

text \<open>A read that also reads the clock.\<close>

definition look_now :: "env \<Rightarrow> (TaskLedger \<Rightarrow> clock \<Rightarrow> 'a) \<Rightarrow> 'a control" where
  "look_now X f = (\<lambda>g. (Inr (f (gw_ledger g) (x_clock X (gw_calls g))), g\<lparr>gw_calls := Suc (gw_calls g)\<rparr>))"

definition change :: "(gateway \<Rightarrow> gateway) \<Rightarrow> unit control" where
  "change f = (\<lambda>g. (Inr (), (f g)\<lparr>gw_ledger := gw_ledger g, gw_calls := gw_calls g\<rparr>))"

definition bump :: "gateway \<Rightarrow> gateway" where
  "bump g = g\<lparr>gw_calls := Suc (gw_calls g)\<rparr>"

text \<open>One call of the ledger: a transaction, rolled back when it raises.\<close>

definition commit :: "env \<Rightarrow> (TaskLedger \<Rightarrow> clock \<Rightarrow> ('a \<times> TaskLedger) res) \<Rightarrow> 'a control" where
  "commit X f = (\<lambda>g. case f (gw_ledger g) (x_clock X (gw_calls g)) of
     Inl e \<Rightarrow> (Inl (Raised e), bump g)
   | Inr (x, L') \<Rightarrow> (Inr x, (bump g)\<lparr>gw_ledger := L'\<rparr>))"

definition commit_pair :: "env \<Rightarrow> (TaskLedger \<Rightarrow> clock \<Rightarrow> 'a \<times> TaskLedger) \<Rightarrow> 'a control" where
  "commit_pair X f = commit X (\<lambda>L clk. Inr (f L clk))"

definition commit_only :: "env \<Rightarrow> (TaskLedger \<Rightarrow> clock \<Rightarrow> TaskLedger) \<Rightarrow> unit control" where
  "commit_only X f = commit X (\<lambda>L clk. Inr ((), f L clk))"

text \<open>\<open>now_ms()\<close>, \<open>new_id(prefix)\<close> and the awaited answer of a worker run.\<close>

definition now :: "env \<Rightarrow> int control" where
  "now X = (\<lambda>g. (Inr (x_clock X (gw_calls g) 0), bump g))"

definition new_id :: "env \<Rightarrow> string \<Rightarrow> string control" where
  "new_id X pre = (\<lambda>g. (Inr (x_new_id X (gw_calls g) pre), bump g))"

definition await :: "(nat \<Rightarrow> string + 'a) \<Rightarrow> 'a control" where
  "await f = (\<lambda>g. (case f (gw_calls g) of Inl t \<Rightarrow> (Inl (ProviderError t), bump g) | Inr x \<Rightarrow> (Inr x, bump g)))"

fun each :: "('a \<Rightarrow> unit control) \<Rightarrow> 'a list \<Rightarrow> unit control" where
  "each f [] = ret ()"
| "each f (x # xs) = seq (f x) (each f xs)"

definition unless :: "bool \<Rightarrow> unit control \<Rightarrow> unit control" where
  "unless b m = (if b then ret () else m)"

definition stable_id :: "env \<Rightarrow> string \<Rightarrow> string list \<Rightarrow> string" where
  "stable_id X pre parts = pre @ ''_'' @ stable_key (x_uuid5 X) parts"

text \<open>\<open>str.lower\<close> as far as the comparisons with ASCII words below see it.\<close>

definition lower :: "string \<Rightarrow> string" where
  "lower = map (\<lambda>c. let n = of_char c :: nat in if 65 \<le> n \<and> n \<le> 90 then char_of (n + 32) else c)"

text \<open>\<open>dict.fromkeys(xs)\<close>: every element once, in the order of its first occurrence.\<close>

definition from_keys :: "'a list \<Rightarrow> 'a list" where
  "from_keys xs = rev (remdups (rev xs))"

lemma set_from_keys [simp]: "set (from_keys xs) = set xs"
  by (simp add: from_keys_def)

lemma distinct_from_keys [simp]: "distinct (from_keys xs)"
  by (simp add: from_keys_def)

lemma from_keys_distinct: "distinct xs \<Longrightarrow> from_keys xs = xs"
  by (simp add: from_keys_def distinct_remdups_id)

section \<open>Laws of the monad\<close>

named_theorems run_simps "what the operations of the monad do"

lemma run_ret [run_simps]: "ret x g = (Inr x, g)"
  by (simp add: ret_def)

lemma run_throw [run_simps]: "throw e g = (Inl e, g)"
  by (simp add: throw_def)

lemma run_look [run_simps]: "look f g = (Inr (f (gw_ledger g)), g)"
  by (simp add: look_def fetch_def)

lemma run_fetch [run_simps]: "fetch f g = (Inr (f g), g)"
  by (simp add: fetch_def)

lemma run_cbind_Inr: "m g = (Inr x, g') \<Longrightarrow> cbind m f g = f x g'"
  by (simp add: cbind_def)

lemma run_cbind_Inl: "m g = (Inl e, g') \<Longrightarrow> cbind m f g = (Inl e, g')"
  by (simp add: cbind_def)

lemma cbind_InrE:
  assumes "cbind m f g = (Inr y, g'')"
  obtains x g' where "m g = (Inr x, g')" and "f x g' = (Inr y, g'')"
  using assms by (auto simp: cbind_def split: prod.splits sum.splits)

lemma seq_InrE:
  assumes "seq m n g = (Inr y, g'')"
  obtains g' where "m g = (Inr (), g')" and "n g' = (Inr y, g'')"
  using assms by (auto simp: seq_def elim: cbind_InrE)

lemma cbind_look [simp]: "cbind (look f) h g = h (f (gw_ledger g)) g"
  by (simp add: cbind_def look_def fetch_def)

lemma cbind_fetch [simp]: "cbind (fetch f) h g = h (f g) g"
  by (simp add: cbind_def fetch_def)

lemma cbind_ret [simp]: "cbind (ret x) f = f x"
  by (simp add: cbind_def ret_def)

lemma cbind_throw [simp]: "cbind (throw e) f = throw e"
  by (simp add: cbind_def throw_def)

lemma cbind_assoc: "cbind (cbind m f) h = cbind m (\<lambda>x. cbind (f x) h)"
  by (rule ext) (auto simp: cbind_def split: prod.split sum.split)

lemma commit_InrE:
  assumes "commit X f g = (Inr x, g')"
  obtains L' where "f (gw_ledger g) (x_clock X (gw_calls g)) = Inr (x, L')"
    and "g' = g\<lparr>gw_calls := Suc (gw_calls g), gw_ledger := L'\<rparr>"
  using assms by (auto simp: commit_def bump_def split: sum.splits prod.splits)

section \<open>Every method is a sequence of ledger steps\<close>

text \<open>
  And it hands out standing grants only to the owners in \<open>G\<close>.
  The ids of activity aggregates are the ones this gateway has drawn.  With a \<open>new_id\<close> that does not
  repeat itself the next one is fresh.
\<close>

definition ids_known :: "env \<Rightarrow> gateway \<Rightarrow> bool" where
  "ids_known X g \<longleftrightarrow> aggregates_ok (gw_ledger g) \<and>
     (\<forall>k. get_aggregate (gw_ledger g) k \<noteq> None \<longrightarrow> (\<exists>n < gw_calls g. k = x_new_id X n ''aggregate''))"

definition fresh_ids :: "env \<Rightarrow> bool" where
  "fresh_ids X \<longleftrightarrow> (\<forall>m n. x_new_id X m ''aggregate'' = x_new_id X n ''aggregate'' \<longrightarrow> m = n)"

definition method_step :: "env \<Rightarrow> string set \<Rightarrow> gateway \<Rightarrow> gateway \<Rightarrow> bool" where
  "method_step X G g g' \<longleftrightarrow> gw_standing g' \<subseteq> gw_standing g \<union> G \<and>
     (gw_started g \<longrightarrow> gw_started g') \<and>
     (fresh_ids X \<longrightarrow> ids_known X g \<longrightarrow>
        ledger_step\<^sup>*\<^sup>* (gw_ledger g) (gw_ledger g') \<and> ids_known X g')"

definition stepwise :: "env \<Rightarrow> string set \<Rightarrow> 'a control \<Rightarrow> bool" where
  "stepwise X G m \<longleftrightarrow> (\<forall>g. method_step X G g (snd (m g)))"

named_theorems steps_intros "methods that are sequences of ledger steps"

lemma method_step_refl: "method_step X G g g"
  by (simp add: method_step_def)

lemma method_step_trans: "method_step X G a b \<Longrightarrow> method_step X G b c \<Longrightarrow> method_step X G a c"
  unfolding method_step_def by (meson Un_least Un_upper2 order_trans rtranclp_trans sup_mono subset_refl)

lemma stepwiseD: "stepwise X G m \<Longrightarrow> m g = (r, g') \<Longrightarrow> method_step X G g g'"
  unfolding stepwise_def by (metis snd_conv)

lemma stepwiseI: "(\<And>g r g'. m g = (r, g') \<Longrightarrow> method_step X G g g') \<Longrightarrow> stepwise X G m"
  unfolding stepwise_def by (metis prod.collapse)

lemma stepwise_still:
  assumes "\<And>g. gw_ledger (snd (m g)) = gw_ledger g \<and> gw_calls g \<le> gw_calls (snd (m g)) \<and>
    gw_standing (snd (m g)) \<subseteq> gw_standing g \<union> G \<and> (gw_started g \<longrightarrow> gw_started (snd (m g)))"
  shows "stepwise X G m"
proof -
  have "method_step X G g (snd (m g))" for g
    using assms [of g] unfolding method_step_def ids_known_def by (metis less_le_trans rtranclp.rtrancl_refl)
  then show ?thesis by (simp add: stepwise_def)
qed

lemma stepwise_ret [steps_intros]: "stepwise X G (ret x)"
  by (rule stepwise_still) (simp add: ret_def)

lemma stepwise_throw [steps_intros]: "stepwise X G (throw e)"
  by (rule stepwise_still) (simp add: throw_def)

lemma stepwise_fetch [steps_intros]: "stepwise X G (fetch f)"
  by (rule stepwise_still) (simp add: fetch_def)

lemma stepwise_look [steps_intros]: "stepwise X G (look f)"
  unfolding look_def by (rule stepwise_fetch)

lemma stepwise_look_now [steps_intros]: "stepwise X G (look_now Y f)"
  by (rule stepwise_still) (simp add: look_now_def)

lemma stepwise_change:
  "(\<And>g. gw_standing (f g) \<subseteq> gw_standing g \<union> G) \<Longrightarrow> (\<And>g. gw_started g \<Longrightarrow> gw_started (f g)) \<Longrightarrow>
   stepwise X G (change f)"
  by (rule stepwise_still) (simp add: change_def)

lemma stepwise_now [steps_intros]: "stepwise X G (now Y)"
  by (rule stepwise_still) (simp add: now_def bump_def)

lemma stepwise_new_id [steps_intros]: "stepwise X G (new_id Y p)"
  by (rule stepwise_still) (simp add: new_id_def bump_def)

lemma stepwise_await [steps_intros]: "stepwise X G (await f)"
  by (rule stepwise_still) (simp add: await_def bump_def split: sum.split)

lemma stepwise_lift [steps_intros]: "stepwise X G (lift_res r)"
  by (cases r) (simp_all add: lift_res_def stepwise_ret stepwise_throw)

lemma stepwise_need [steps_intros]: "stepwise X G (need e x)"
  by (cases x) (simp_all add: need_def stepwise_ret stepwise_throw)

lemma stepwise_bind [steps_intros]:
  assumes m: "stepwise X G m" and f: "\<And>x. stepwise X G (f x)"
  shows "stepwise X G (cbind m f)"
proof (rule stepwiseI)
  fix g r g'' assume run: "cbind m f g = (r, g'')"
  obtain o1 g' where 1: "m g = (o1, g')" by fastforce
  note s = stepwiseD [OF m 1]
  show "method_step X G g g''"
  proof (cases o1)
    case (Inl e)
    with run 1 s show ?thesis by (simp add: cbind_def)
  next
    case (Inr x)
    with run 1 have "f x g' = (r, g'')" by (simp add: cbind_def)
    from method_step_trans [OF s stepwiseD [OF f this]] show ?thesis .
  qed
qed

lemma stepwise_seq [steps_intros]: "stepwise X G m \<Longrightarrow> stepwise X G n \<Longrightarrow> stepwise X G (seq m n)"
  unfolding seq_def by (rule stepwise_bind)

lemma stepwise_rescue [steps_intros]:
  assumes m: "stepwise X G m" and h: "\<And>e. stepwise X G (h e)"
  shows "stepwise X G (rescue m h)"
proof (rule stepwiseI)
  fix g r g'' assume run: "rescue m h g = (r, g'')"
  obtain o1 g' where 1: "m g = (o1, g')" by fastforce
  note s = stepwiseD [OF m 1]
  show "method_step X G g g''"
  proof (cases o1)
    case (Inl e)
    with run 1 have "h e g' = (r, g'')" by (simp add: rescue_def)
    from method_step_trans [OF s stepwiseD [OF h this]] show ?thesis .
  next
    case (Inr x)
    with run 1 s show ?thesis by (simp add: rescue_def)
  qed
qed

lemma stepwise_each [steps_intros]: "(\<And>x. stepwise X G (f x)) \<Longrightarrow> stepwise X G (each f xs)"
  by (induction xs) (simp_all add: stepwise_ret stepwise_seq)

lemma stepwise_unless [steps_intros]: "stepwise X G m \<Longrightarrow> stepwise X G (unless b m)"
  by (simp add: unless_def stepwise_ret)

lemma stepwise_if [steps_intros]:
  "(b \<Longrightarrow> stepwise X G m) \<Longrightarrow> (\<not> b \<Longrightarrow> stepwise X G n) \<Longrightarrow> stepwise X G (if b then m else n)"
  by simp

lemma stepwise_let [steps_intros]: "(\<And>x. stepwise X G (f x)) \<Longrightarrow> stepwise X G (let x = v in f x)"
  by simp

lemma stepwise_option [steps_intros]:
  "stepwise X G m \<Longrightarrow> (\<And>x. stepwise X G (f x)) \<Longrightarrow> stepwise X G (case v of None \<Rightarrow> m | Some x \<Rightarrow> f x)"
  by (cases v) simp_all

lemma stepwise_list [steps_intros]:
  "stepwise X G m \<Longrightarrow> (\<And>x xs. stepwise X G (f x xs)) \<Longrightarrow> stepwise X G (case v of [] \<Rightarrow> m | x # xs \<Rightarrow> f x xs)"
  by (cases v) simp_all

lemma stepwise_prod [steps_intros]:
  "(\<And>x y. stepwise X G (f x y)) \<Longrightarrow> stepwise X G (case v of (x, y) \<Rightarrow> f x y)"
  by (cases v) simp_all

lemma stepwise_payload [steps_intros]:
  "(\<And>p. stepwise X G (f p)) \<Longrightarrow> (\<And>p. stepwise X G (i p)) \<Longrightarrow> (\<And>p. stepwise X G (d p)) \<Longrightarrow>
   stepwise X G (case v of PUpdate p \<Rightarrow> f p | PInteraction p \<Rightarrow> i p | PDone p \<Rightarrow> d p)"
  by (cases v) simp_all

text \<open>A call of the ledger that is a step and leaves the aggregates alone, or does nothing.\<close>

lemma aggregates_ok_step: "ledger_step L L' \<Longrightarrow> aggregates_ok L \<Longrightarrow> aggregates_ok L'"
  using step_table(7) ok_congs(3) evidence_step_ok by blast

lemma stepwise_commit:
  assumes "\<And>L clk x L'. aggregates_ok L \<Longrightarrow> f L clk = Inr (x, L') \<Longrightarrow>
    L' = L \<or> ledger_step L L' \<and> (\<forall>k. get_aggregate L' k \<noteq> None \<longrightarrow> get_aggregate L k \<noteq> None)"
  shows "stepwise X G (commit X f)"
proof (rule stepwiseI)
  fix g r g' assume run: "commit X f g = (r, g')"
  show "method_step X G g g'"
  proof (cases "f (gw_ledger g) (x_clock X (gw_calls g))")
    case (Inl e)
    with run have "g' = bump g" by (simp add: commit_def)
    then show ?thesis by (auto simp: method_step_def bump_def ids_known_def less_Suc_eq)
  next
    case (Inr xL)
    obtain x L' where xL: "xL = (x, L')" by fastforce
    from run Inr xL have g': "g' = (bump g)\<lparr>gw_ledger := L'\<rparr>" by (simp add: commit_def)
    have "ledger_step\<^sup>*\<^sup>* (gw_ledger g) L' \<and> ids_known X g'" if k: "ids_known X g"
    proof -
      have ok: "aggregates_ok (gw_ledger g)" using k by (simp add: ids_known_def)
      note step = assms [OF ok Inr [unfolded xL]]
      have ok': "aggregates_ok L'" using step ok aggregates_ok_step by blast
      have run: "ledger_step\<^sup>*\<^sup>* (gw_ledger g) L'" using step by blast
      have old: "\<exists>n < Suc (gw_calls g). j = x_new_id X n ''aggregate''" if "get_aggregate L' j \<noteq> None" for j
      proof -
        from step that have "get_aggregate (gw_ledger g) j \<noteq> None" by blast
        with k show ?thesis unfolding ids_known_def by (meson less_SucI)
      qed
      show ?thesis using run old ok' by (simp add: g' bump_def ids_known_def)
    qed
    then show ?thesis by (simp add: method_step_def g' bump_def)
  qed
qed

lemma same_aggregates: "l_aggregates L' = l_aggregates L \<Longrightarrow> get_aggregate L' k \<noteq> None \<Longrightarrow> get_aggregate L k \<noteq> None"
  by (simp add: get_aggregate_def)

lemma writes_others: "writes_only S L L' \<Longrightarrow> Aggregates \<notin> S \<Longrightarrow> l_aggregates L' = l_aggregates L"
  using writes_onlyD [of S L L' Aggregates] by simp

lemma quiet_steps:
  "turn_step L L' \<Longrightarrow> l_aggregates L' = l_aggregates L"
  "job_step L L' \<Longrightarrow> l_aggregates L' = l_aggregates L"
  "task_step L L' \<Longrightarrow> l_aggregates L' = l_aggregates L"
  "event_step L L' \<Longrightarrow> l_aggregates L' = l_aggregates L"
  "interaction_step L L' \<Longrightarrow> l_aggregates L' = l_aggregates L"
  "delivery_step L L' \<Longrightarrow> l_aggregates L' = l_aggregates L"
  "command_step L L' \<Longrightarrow> l_aggregates L' = l_aggregates L"
  by (drule component_writes, erule writes_others, simp)+

lemma stepwise_by:
  assumes "\<And>L clk x L'. f L clk = Inr (x, L') \<Longrightarrow>
    turn_step L L' \<or> job_step L L' \<or> task_step L L' \<or> event_step L L' \<or> interaction_step L L' \<or>
    delivery_step L L' \<or> command_step L L'"
  shows "stepwise X G (commit X f)"
proof (rule stepwise_commit)
  fix L clk x L' assume "f L clk = Inr (x, L')"
  note step = assms [OF this]
  from step have "l_aggregates L' = l_aggregates L" using quiet_steps by meson
  moreover from step have "ledger_step L L'" by (elim disjE) (erule ledger_step.intros)+
  ultimately
  show "L' = L \<or> ledger_step L L' \<and> (\<forall>k. get_aggregate L' k \<noteq> None \<longrightarrow> get_aggregate L k \<noteq> None)"
    using same_aggregates by blast
qed

end
