(* ===== verification/ControlTasks.thy ===== *)
theory ControlTasks
  imports ControlMonad TaskNames
begin

text \<open>
  The internal methods of \<open>GNSISGateway\<close> (gateway.py) that move one task: creating it, sending to its
  run, revising its contract, cancelling, failing and ending it, and resolving an interaction.  Each
  runs under the task's lock in the code, so its reads and writes of the task are not interleaved with
  another method's.  The command records are those of coordination.py.

  \<open>CoordinatorPlanError\<close> keeps the fixed part of its message; a delivery timing is the contract's.
\<close>

section \<open>Commands\<close>

record CreateTaskCommand =
  ct_title :: string
  ct_objective :: string
  ct_instruction :: string
  ct_provider_name :: string
  ct_reasoning_profile :: string
  ct_contract_body :: ContractBody
  ct_context_plan :: ContextPlan
  ct_project_id :: "string option"
  ct_project_label :: string

definition CreateTaskCommand_init :: "CreateTaskCommand \<Rightarrow> CreateTaskCommand res" where
  "CreateTaskCommand_init c = validated (raise_first
     ([required (ct_title c) ''title'',
       required (ct_objective c) ''objective'',
       required (ct_instruction c) ''instruction'',
       required (ct_provider_name c) ''provider_name'',
       one_of (ct_reasoning_profile c) [''fast'', ''balanced'', ''deep''] ''invalid task reasoning profile''] @
      (if ct_project_id c = None then [required (ct_project_label c) ''project_label''] else []))) c"

record SendTaskCommand =
  sd_task_id :: string
  sd_instruction :: string
  sd_mode :: string
  sd_context_plan :: "ContextPlan option"
  sd_preempt :: bool

definition SendTaskCommand_init :: "SendTaskCommand \<Rightarrow> SendTaskCommand res" where
  "SendTaskCommand_init c = validated (raise_first
     [required (sd_task_id c) ''task_id'',
      required (sd_instruction c) ''instruction'',
      one_of (sd_mode c) [''update'', ''query''] ''invalid task message mode'']) c"

record ResolveInteractionCommand =
  ri_interaction_id :: string
  ri_response :: string
  ri_decision :: "string option"

definition ResolveInteractionCommand_init :: "ResolveInteractionCommand \<Rightarrow> ResolveInteractionCommand res" where
  "ResolveInteractionCommand_init c = validated (raise_first
     [required (ri_interaction_id c) ''interaction_id'',
      required (ri_response c) ''interaction response'',
      (ri_decision c \<notin> {None, Some ''allow'', Some ''allow_once'', Some ''allow_session'', Some ''deny''},
        ValueError ''decision must be an allow scope, deny, or null'')]) c"

datatype CoordinatorCommand =
    CreateTask CreateTaskCommand
  | SendTask SendTaskCommand
  | UpdateContract string ContractBody
  | CancelTask string
  | ResolveInteraction ResolveInteractionCommand

section \<open>Lookups\<close>

abbreviation plan_error :: "string \<Rightarrow> control_error" where
  "plan_error message \<equiv> CoordinatorPlanError message ''unroutable''"

definition provider :: "env \<Rightarrow> string \<Rightarrow> BackendCapabilities control" where
  "provider X name =
     need (Raised (KeyError (''unknown worker provider: '' @ name))) (map_of (x_providers X) name)"

definition owned_task :: "string \<Rightarrow> string option \<Rightarrow> TaskRecord control" where
  "owned_task task_id own = cbind (look (\<lambda>L. get_task L task_id)) (\<lambda>found. case found of
     None \<Rightarrow> throw (plan_error (''unknown task: '' @ task_id))
   | Some task \<Rightarrow>
       (if (case own of None \<Rightarrow> False | Some w \<Rightarrow> t_owner_id task \<noteq> w)
        then throw (plan_error (''task does not belong to owner: '' @ task_id))
        else ret task))"

definition required_contract :: "TaskRecord \<Rightarrow> SupervisionContractRevision control" where
  "required_contract task = cbind (look (\<lambda>L. get_contract L (t_task_id task) (Some (t_contract_revision task))))
     (need (Raised (RuntimeError (''missing task contract: '' @ t_task_id task))))"

section \<open>Writing one record\<close>

text \<open>\<open>dataclasses.replace\<close> runs the checks of the class again; then the record is saved.\<close>

definition put_task :: "env \<Rightarrow> TaskRecord \<Rightarrow> TaskRecord control" where
  "put_task X task0 = cbind (lift_res (TaskRecord_init task0)) (\<lambda>task.
     cbind (commit X (\<lambda>L clk. save_task L clk task)) (\<lambda>_. ret task))"

definition put_run :: "env \<Rightarrow> RunRecord \<Rightarrow> string \<Rightarrow> RunRecord control" where
  "put_run X run0 own = cbind (lift_res (RunRecord_init run0)) (\<lambda>run.
     cbind (commit X (\<lambda>L clk. save_run L clk run own)) (\<lambda>_. ret run))"

definition keep_interaction :: "env \<Rightarrow> PendingInteraction \<Rightarrow> unit control" where
  "keep_interaction X i = commit_only X (\<lambda>L clk. save_interaction L clk i)"

definition enqueue_delivery ::
  "env \<Rightarrow> string \<Rightarrow> string option \<Rightarrow> string option \<Rightarrow> string option \<Rightarrow> string \<Rightarrow> string \<Rightarrow> string \<Rightarrow> string \<Rightarrow>
   string \<Rightarrow> unit control" where
  "enqueue_delivery X own task_id event_id interaction_id timing topic speech_hint dedupe_key status =
     cbind (new_id X ''delivery'') (\<lambda>k.
     cbind (commit X (\<lambda>L clk. enqueue L clk k own task_id event_id interaction_id timing topic speech_hint
       dedupe_key status)) (\<lambda>_. ret ()))"

definition cancel_deliveries :: "env \<Rightarrow> string \<Rightarrow> unit control" where
  "cancel_deliveries X interaction_id = commit_only X (\<lambda>L clk. cancel_interaction_deliveries L clk interaction_id)"

definition fail_commands :: "env \<Rightarrow> string \<Rightarrow> string \<Rightarrow> unit control" where
  "fail_commands X run_id error = commit_only X (\<lambda>L clk. fail_provider_commands_for_run L clk run_id error)"

definition finish_event :: "string \<Rightarrow> unit control" where
  "finish_event task_id = change (\<lambda>g. g\<lparr>gw_finished := insert task_id (gw_finished g)\<rparr>)"

definition schedule :: "string \<Rightarrow> unit control" where
  "schedule task_id = change (\<lambda>g. g\<lparr>gw_jobs := insert task_id (gw_jobs g)\<rparr>)"

section \<open>What blocks a task\<close>

definition open_for :: "TaskLedger \<Rightarrow> TaskRecord \<Rightarrow> PendingInteraction list" where
  "open_for L task = filter (\<lambda>i. i_task_id i = Some (t_task_id task) \<and> i_state i \<in> {IPending, IResolving})
     (list_interactions L (Some (t_owner_id task)))"

definition action_name :: "PendingInteraction \<Rightarrow> string" where
  "action_name i = (case i_action_key i of None \<Rightarrow> i_interaction_id i
     | Some a \<Rightarrow> if a = [] then i_interaction_id i else a)"

definition blocked_by :: "PendingInteraction list \<Rightarrow> string list \<times> string list \<times> bool" where
  "blocked_by waiting =
     (from_keys (map action_name (filter (\<lambda>i. i_effective_scope i = ''action'') waiting)),
      map i_interaction_id (filter (\<lambda>i. i_effective_scope i = ''branch'') waiting),
      \<exists>i \<in> set waiting. i_effective_scope i = ''run'')"

definition blocked_of :: "TaskRecord \<Rightarrow> string list \<times> string list \<times> bool" where
  "blocked_of task = (t_blocked_actions task, t_blocked_branches task, t_run_blocked task)"

definition refresh_blocked :: "env \<Rightarrow> string \<Rightarrow> unit control" where
  "refresh_blocked X task_id = cbind (look (\<lambda>L. get_task L task_id)) (\<lambda>found. case found of
     None \<Rightarrow> ret ()
   | Some task \<Rightarrow>
       (if task_terminal task then ret ()
        else cbind (look (\<lambda>L. open_for L task)) (\<lambda>waiting.
          if blocked_by waiting = blocked_of task then ret ()
          else cbind (now X) (\<lambda>n.
            cbind (put_task X (task\<lparr>t_blocked_actions := fst (blocked_by waiting),
              t_blocked_branches := fst (snd (blocked_by waiting)),
              t_run_blocked := snd (snd (blocked_by waiting)), t_updated_at_ms := n\<rparr>)) (\<lambda>_. ret ())))))"

definition cancelled_interaction :: "int \<Rightarrow> PendingInteraction \<Rightarrow> PendingInteraction" where
  "cancelled_interaction n i = i\<lparr>i_state := ICancelled, i_resolved_at_ms := Some n\<rparr>"

definition close_interaction :: "env \<Rightarrow> PendingInteraction \<Rightarrow> unit control" where
  "close_interaction X i =
     cbind (now X) (\<lambda>n. seq (keep_interaction X (cancelled_interaction n i))
       (seq (commit_only X (\<lambda>L clk. cancel_provider_commands_for_interaction L clk (i_interaction_id i)))
         (cancel_deliveries X (i_interaction_id i))))"

definition close_task_interactions :: "env \<Rightarrow> string \<Rightarrow> unit control" where
  "close_task_interactions X task_id = cbind (look (\<lambda>L. get_task L task_id)) (\<lambda>found. case found of
     None \<Rightarrow> ret ()
   | Some task \<Rightarrow>
       cbind (look (\<lambda>L. open_for L (task\<lparr>t_task_id := task_id\<rparr>))) (\<lambda>waiting.
       seq (each (close_interaction X) waiting)
       (cbind (look (\<lambda>L. get_task L task_id)) (\<lambda>again. case again of
          None \<Rightarrow> ret ()
        | Some current \<Rightarrow>
            (if t_blocked_actions current \<noteq> [] \<or> t_blocked_branches current \<noteq> [] \<or> t_run_blocked current
             then cbind (now X) (\<lambda>n.
               cbind (put_task X (current\<lparr>t_blocked_actions := [], t_blocked_branches := [],
                 t_run_blocked := False, t_updated_at_ms := n\<rparr>)) (\<lambda>_. ret ()))
             else ret ())))))"

section \<open>Ending a task\<close>

definition announce_end :: "env \<Rightarrow> TaskRecord \<Rightarrow> string \<Rightarrow> string option \<Rightarrow> string \<Rightarrow> string \<Rightarrow> unit control" where
  "announce_end X task timing event_id speech status =
     enqueue_delivery X (t_owner_id task) (Some (t_task_id task)) event_id None timing ''final'' speech
       (''terminal:'' @ t_task_id task @ '':'' @ int_str (t_generation task)) status"

definition active_run :: "TaskRecord \<Rightarrow> RunRecord option control" where
  "active_run task = look (\<lambda>L. case t_active_run_id task of None \<Rightarrow> None
     | Some r \<Rightarrow> if r = [] then None else get_run L r)"

definition terminal_from_cancel :: "env \<Rightarrow> TaskRecord \<Rightarrow> unit control" where
  "terminal_from_cancel X task = cbind (owned_task (t_task_id task) None) (\<lambda>current.
     if task_terminal current then ret ()
     else cbind (active_run current) (\<lambda>run.
       cbind (now X) (\<lambda>n.
       seq (cbind (put_task X (current\<lparr>t_status := TCancelled, t_active_run_id := None,
           t_result := ''Cancellation confirmed by the worker'', t_updated_at_ms := n\<rparr>)) (\<lambda>_. ret ()))
       (seq (close_task_interactions X (t_task_id task))
       (seq (case run of
           None \<Rightarrow> ret ()
         | Some r \<Rightarrow> seq (fail_commands X (r_run_id r) ''run cancelled'')
             (cbind (now X) (\<lambda>m.
             cbind (put_run X (r\<lparr>r_status := RCancelled, r_ended_at_ms := Some m\<rparr>) (t_owner_id current))
               (\<lambda>_. ret ()))))
       (seq (finish_event (t_task_id task))
       (cbind (required_contract current) (\<lambda>contract.
          announce_end X current (dp_final (cb_delivery_policy (sc_body contract))) None [] ''cancelled''))))))))"

definition fail_task :: "env \<Rightarrow> TaskRecord \<Rightarrow> RunRecord option \<Rightarrow> string \<Rightarrow> unit control" where
  "fail_task X task run error = cbind (owned_task (t_task_id task) None) (\<lambda>current.
     if task_terminal current then ret ()
     else cbind (now X) (\<lambda>n.
       seq (cbind (put_task X (current\<lparr>t_status := TFailed, t_active_run_id := None, t_error := error,
           t_result := error, t_updated_at_ms := n\<rparr>)) (\<lambda>_. ret ()))
       (seq (close_task_interactions X (t_task_id task))
       (seq (case run of
           None \<Rightarrow> ret ()
         | Some r \<Rightarrow> seq (fail_commands X (r_run_id r) error)
             (cbind (now X) (\<lambda>m.
             cbind (put_run X (r\<lparr>r_status := RFailed, r_ended_at_ms := Some m, r_error := error\<rparr>)
               (t_owner_id task)) (\<lambda>_. ret ()))))
       (seq (finish_event (t_task_id task))
       (cbind (required_contract task) (\<lambda>contract.
          announce_end X task (dp_final (cb_delivery_policy (sc_body contract))) None error ''failed'')))))))"

definition fail_active_run :: "env \<Rightarrow> string \<Rightarrow> string \<Rightarrow> unit control" where
  "fail_active_run X task_id error = cbind (owned_task task_id None) (\<lambda>task.
     cbind (active_run task) (\<lambda>run. fail_task X task run error))"

definition fail_active_run_guarded :: "env \<Rightarrow> string \<Rightarrow> string \<Rightarrow> unit control" where
  "fail_active_run_guarded X task_id error = cbind (owned_task task_id None) (\<lambda>task.
     if task_terminal task then ret ()
     else cbind (active_run task) (\<lambda>run. fail_task X task run error))"

end
