(* ===== verification/ControlMessages.thy ===== *)
theory ControlMessages
  imports ControlTasks
begin

text \<open>
  Messages to the worker runs and the commands of a plan, as \<open>GNSISGateway\<close> (gateway.py) carries them
  out: the outbox and its delivery, task creation, sending, contract updates, cancellation and the
  resolution of interactions.  \<open>x_send\<close> is the answer of \<open>run.send\<close>, \<open>x_cancel\<close> of \<open>run.cancel\<close>.
\<close>

section \<open>The outbox\<close>

definition truthy_text :: "string option \<Rightarrow> string option" where
  "truthy_text s = (if s = Some [] then None else s)"

definition worker_message :: "string \<Rightarrow> string \<Rightarrow> string \<Rightarrow> WorkerMessage" where
  "worker_message message_id instruction mode = \<lparr>wm_message_id = message_id, wm_instruction = instruction,
     wm_mode = mode, wm_context_plan = None, wm_interaction_id = None, wm_source_event_id = None,
     wm_decision = None, wm_policy = None, wm_source_turn = None, wm_preempt = False\<rparr>"

definition enqueue_provider_message ::
  "env \<Rightarrow> TaskRecord \<Rightarrow> WorkerMessage \<Rightarrow> string option \<Rightarrow> ProviderCommandRecord control" where
  "enqueue_provider_message X task message run_id =
     (case (case truthy_text run_id of Some r \<Rightarrow> Some r | None \<Rightarrow> truthy_text (t_active_run_id task)) of
        None \<Rightarrow> throw (plan_error ''task has no active provider run'')
      | Some target \<Rightarrow>
          cbind (now X) (\<lambda>n.
          cbind (lift_res (ProviderCommandRecord_init \<lparr>c_command_id = wm_message_id message,
            c_owner_id = t_owner_id task, c_task_id = t_task_id task, c_run_id = target,
            c_message = message, c_state = CPending, c_attempts = 0, c_error = [],
            c_created_at_ms = n, c_sent_at_ms = None\<rparr>)) (\<lambda>command.
          commit X (\<lambda>L clk. enqueue_provider_command L clk command))))"

definition set_command :: "env \<Rightarrow> string \<Rightarrow> string \<Rightarrow> string \<Rightarrow> unit control" where
  "set_command X command_id state error =
     cbind (commit X (\<lambda>L clk. set_provider_command_state L clk command_id state error)) (\<lambda>_. ret ())"

definition deliver_provider_command :: "env \<Rightarrow> string \<Rightarrow> ProviderCommandRecord \<Rightarrow> bool control" where
  "deliver_provider_command X run_id command =
     cbind (look (\<lambda>L. get_provider_command L (c_command_id command))) (\<lambda>found. case found of
       None \<Rightarrow> throw (Raised (RuntimeError ''provider command disappeared from outbox''))
     | Some current \<Rightarrow>
         (if c_state current = CSent then ret True
          else if c_state current \<in> {CFailed, CCancelled} then ret False
          else seq (set_command X (c_command_id command) ''sending'' [])
            (cbind (rescue (cbind (await (\<lambda>n. x_send X n run_id (c_message command))) (\<lambda>b. ret (Inr b)))
                (\<lambda>e. ret (Inl (case e of ProviderError t \<Rightarrow> t | _ \<Rightarrow> []))))
              (\<lambda>answer. case answer of
                 Inl text \<Rightarrow> seq (set_command X (c_command_id command) ''failed'' text) (ret False)
               | Inr accepted \<Rightarrow>
                   seq (set_command X (c_command_id command) (if accepted then ''sent'' else ''failed'')
                     (if accepted then [] else ''worker rejected the command'')) (ret accepted)))))"

definition settle_interaction :: "env \<Rightarrow> string \<Rightarrow> bool \<Rightarrow> unit control" where
  "settle_interaction X interaction_id success =
     cbind (commit X (\<lambda>L clk. finish_interaction_resolution L clk interaction_id success)) (\<lambda>_. ret ())"

text \<open>\<open>if interaction.task_id: self._refresh_blocked(interaction.task_id)\<close>\<close>

definition refresh_for :: "env \<Rightarrow> PendingInteraction \<Rightarrow> unit control" where
  "refresh_for X i = (case truthy_text (i_task_id i) of None \<Rightarrow> ret () | Some k \<Rightarrow> refresh_blocked X k)"

definition finish_resolving :: "env \<Rightarrow> string \<Rightarrow> unit control" where
  "finish_resolving X interaction_id =
     cbind (look (\<lambda>L. get_interaction L interaction_id)) (\<lambda>found. case found of
       None \<Rightarrow> ret ()
     | Some i \<Rightarrow>
         (if i_state i \<noteq> IResolving then ret ()
          else seq (settle_interaction X interaction_id True)
            (seq (cancel_deliveries X interaction_id) (refresh_for X i))))"

definition replay_command :: "env \<Rightarrow> string \<Rightarrow> ProviderCommandRecord \<Rightarrow> unit control" where
  "replay_command X run_id command =
     (if c_state command \<notin> {CPending, CSending} then ret ()
      else cbind (deliver_provider_command X run_id command) (\<lambda>accepted.
        case wm_interaction_id (c_message command) of
          None \<Rightarrow> ret ()
        | Some interaction_id \<Rightarrow> if accepted then finish_resolving X interaction_id else ret ()))"

definition replay_provider_commands :: "env \<Rightarrow> string \<Rightarrow> unit control" where
  "replay_provider_commands X run_id =
     cbind (look (\<lambda>L. list_provider_commands L None (Some run_id))) (each (replay_command X run_id))"

definition queue_expired_interaction :: "env \<Rightarrow> PendingInteraction \<Rightarrow> ProviderCommandRecord option control" where
  "queue_expired_interaction X i =
     (case (i_task_id i, i_run_id i) of
        (Some task_id, Some run_id) \<Rightarrow>
          (if i_source i \<noteq> ''worker'' then ret None
           else cbind (look (\<lambda>L. get_task L task_id)) (\<lambda>found. case found of
               None \<Rightarrow> ret None
             | Some task \<Rightarrow>
                 cbind (lift_res (WorkerMessage_init
                   ((worker_message (''message_expired_'' @ i_interaction_id i)
                       (if i_response i = [] then ''Interaction expired'' else i_response i)
                       ''interaction_reply'')
                    \<lparr>wm_interaction_id := Some (i_interaction_id i),
                     wm_source_event_id := i_source_event_id i, wm_decision := i_decision i\<rparr>)))
                 (\<lambda>message. cbind (enqueue_provider_message X task message (Some run_id))
                   (\<lambda>command. ret (Some command)))))
      | _ \<Rightarrow> ret None)"

section \<open>Context of a task\<close>

definition context_plan_with_turn :: "ContextPlan \<Rightarrow> TurnEnvelope option \<Rightarrow> ContextPlan control" where
  "context_plan_with_turn plan turn =
     (case turn of
        None \<Rightarrow> ret plan
      | Some t \<Rightarrow>
          (if receipt_key t \<in> set (cp_event_refs plan) then ret plan
           else lift_res (ContextPlan_init (plan\<lparr>cp_event_refs := cp_event_refs plan @ [receipt_key t]\<rparr>))))"

definition link_context_turn :: "env \<Rightarrow> TaskRecord \<Rightarrow> TurnEnvelope \<Rightarrow> TaskRecord control" where
  "link_context_turn X task turn =
     cbind (context_plan_with_turn (t_context_plan task) (Some turn)) (\<lambda>plan.
     if plan = t_context_plan task then ret task
     else cbind (now X) (\<lambda>n. put_task X (task\<lparr>t_context_plan := plan, t_updated_at_ms := n\<rparr>)))"

section \<open>Commands of a plan\<close>

subsection \<open>Creating a task\<close>

definition environment_of :: "TurnEnvelope option \<Rightarrow> string" where
  "environment_of turn = (case turn of None \<Rightarrow> [] | Some t \<Rightarrow> tu_environment_ref t)"

definition project_id_of :: "env \<Rightarrow> string \<Rightarrow> string \<Rightarrow> string \<Rightarrow> string \<Rightarrow> string" where
  "project_id_of X own provider_name label environment_ref =
     stable_id X ''project'' [own, provider_name, label, environment_ref]"

definition project_for :: "env \<Rightarrow> CreateTaskCommand \<Rightarrow> string \<Rightarrow> TurnEnvelope option \<Rightarrow> ProjectRecord control" where
  "project_for X command own turn =
     cbind (look (\<lambda>L. case truthy_text (ct_project_id command) of None \<Rightarrow> None | Some k \<Rightarrow> get_project L k)) (\<lambda>named.
     case named of
       Some project \<Rightarrow> ret project
     | None \<Rightarrow>
         (let project_id = project_id_of X own (ct_provider_name command) (ct_project_label command)
            (environment_of turn) in
          cbind (look (\<lambda>L. get_project L project_id)) (\<lambda>known. case known of
            Some project \<Rightarrow> ret project
          | None \<Rightarrow>
              cbind (now X) (\<lambda>n. cbind (now X) (\<lambda>m.
              lift_res (ProjectRecord_init \<lparr>pr_project_id = project_id, pr_owner_id = own,
                pr_label = ct_project_label command, pr_provider_name = ct_provider_name command,
                pr_environment_ref = environment_of turn, pr_backend_session_id = [],
                pr_status = ''active'', pr_created_at_ms = n, pr_updated_at_ms = m\<rparr>))))))"

definition create_task_from ::
  "env \<Rightarrow> CreateTaskCommand \<Rightarrow> string \<Rightarrow> string \<Rightarrow> TurnEnvelope option \<Rightarrow> string \<Rightarrow> string \<Rightarrow> string option \<Rightarrow>
   TaskRecord control" where
  "create_task_from X command own source_turn_id turn task_id name continuation_task_id =
     cbind (project_for X command own turn) (\<lambda>project.
     cbind (look (\<lambda>L. case continuation_task_id of None \<Rightarrow> None | Some k \<Rightarrow> get_task L k)) (\<lambda>continuation.
     if continuation_task_id \<noteq> None \<and> continuation = None
     then throw (plan_error ''missing continuation task'')
     else if (case continuation of None \<Rightarrow> False | Some c \<Rightarrow>
        t_owner_id c \<noteq> own \<or> t_project_id c \<noteq> pr_project_id project \<or>
        t_provider_name c \<noteq> ct_provider_name command)
     then throw (plan_error ''continuation task does not belong to this owner/project/provider'')
     else let lineage_id = (case continuation of None \<Rightarrow> task_id | Some c \<Rightarrow> t_lineage_id c) in
     cbind (look (\<lambda>L. get_task L task_id)) (\<lambda>found. case found of
       Some existing \<Rightarrow>
         (if t_owner_id existing \<noteq> own \<or> t_source_turn_id existing \<noteq> source_turn_id \<or>
             t_provider_name existing \<noteq> ct_provider_name command \<or> t_lineage_id existing \<noteq> lineage_id
          then throw (plan_error (''idempotent task identity collision: '' @ task_id))
          else ret existing)
     | None \<Rightarrow>
         cbind (now X) (\<lambda>created. cbind (now X) (\<lambda>updated.
         cbind (lift_res (TaskRecord_init \<lparr>t_task_id = task_id, t_owner_id = own,
            t_source_turn_id = source_turn_id, t_project_id = pr_project_id project,
            t_title = ct_title command, t_objective = ct_objective command,
            t_instruction = ct_instruction command, t_provider_name = ct_provider_name command,
            t_context_plan = ct_context_plan command,
            t_reasoning_profile = ct_reasoning_profile command,
            t_source_voice_session_id = (case turn of None \<Rightarrow> [] | Some t \<Rightarrow> tu_voice_session_id t),
            t_status = TQueued, t_generation = 1, t_contract_revision = 1, t_active_run_id = None,
            t_cancel_request_id = None, t_blocked_actions = [], t_blocked_branches = [],
            t_run_blocked = False, t_assumptions = [], t_result = [], t_error = [],
            t_created_at_ms = created, t_updated_at_ms = updated, t_name = name,
            t_lineage_id = lineage_id, t_kind = ''main'', t_parent_task_id = [],
            t_parent_run_id = []\<rparr>)) (\<lambda>task.
         cbind (now X) (\<lambda>n.
         cbind (lift_res (SupervisionContractRevision_init \<lparr>sc_task_id = task_id, sc_revision = 1,
            sc_body = ct_contract_body command, sc_source_turn_ids = [source_turn_id],
            sc_created_at_ms = n\<rparr>)) (\<lambda>contract.
         cbind (commit X (\<lambda>L clk. create_task L clk project task contract)) (\<lambda>_. ret task))))))))) "

subsection \<open>Sending to a task\<close>

definition send_message ::
  "env \<Rightarrow> TaskRecord \<Rightarrow> BackendCapabilities \<Rightarrow> SendTaskCommand \<Rightarrow> TurnEnvelope option \<Rightarrow> string \<Rightarrow>
   WorkerMessage res" where
  "send_message X task capabilities command turn operation_id = WorkerMessage_init
     ((worker_message (stable_id X ''message'' [operation_id]) (sd_instruction command)
         (if sd_mode command = ''query'' then ''query'' else ''update''))
      \<lparr>wm_context_plan := sd_context_plan command,
       wm_source_turn := (if bc_context_provisioning capabilities = ''push_bounded'' then turn else None),
       wm_preempt := sd_preempt command\<rparr>)"

definition plan_for_send :: "TaskRecord \<Rightarrow> SendTaskCommand \<Rightarrow> ContextPlan control" where
  "plan_for_send task command = (case sd_context_plan command of
       None \<Rightarrow> ret (t_context_plan task)
     | Some plan \<Rightarrow> lift_res (ContextPlan_init (plan\<lparr>cp_event_refs :=
         from_keys (cp_event_refs (t_context_plan task) @ cp_event_refs plan)\<rparr>)))"

definition send_task :: "env \<Rightarrow> SendTaskCommand \<Rightarrow> TurnEnvelope option \<Rightarrow> string \<Rightarrow> unit control" where
  "send_task X command turn operation_id =
     cbind (owned_task (sd_task_id command) None) (\<lambda>task0.
     cbind (provider X (t_provider_name task0)) (\<lambda>capabilities.
     cbind (case turn of None \<Rightarrow> ret task0 | Some t \<Rightarrow> link_context_turn X task0 t) (\<lambda>task.
     cbind (plan_for_send task command) (\<lambda>plan0.
     cbind (context_plan_with_turn plan0 turn) (\<lambda>plan.
     if t_status task = TQueued then
       (if sd_mode command = ''query''
        then throw (plan_error ''cannot fork a side query before the worker run starts'')
        else cbind (now X) (\<lambda>n.
          cbind (lift_res (TaskRecord_init (task\<lparr>t_instruction :=
              (if sd_instruction command = [] then t_instruction task
               else t_instruction task @ [CHR 0x0A, CHR 0x0A] @ sd_instruction command),
              t_context_plan := plan, t_updated_at_ms := n\<rparr>))) (\<lambda>changed.
          cbind (commit X (\<lambda>L clk. save_task_once L clk operation_id changed)) (\<lambda>_. ret ()))))
     else
       cbind (lift_res (send_message X task capabilities command turn operation_id)) (\<lambda>message.
       cbind (enqueue_provider_message X task message None) (\<lambda>queued.
       cbind (fetch (\<lambda>g. case t_active_run_id task of None \<Rightarrow> None
           | Some r \<Rightarrow> if r \<in> gw_runs g then Some r else None)) (\<lambda>run.
       seq (case run of
           None \<Rightarrow> ret ()
         | Some r \<Rightarrow> cbind (deliver_provider_command X r queued) (\<lambda>accepted.
             if accepted then ret () else throw (plan_error ''worker rejected the task message'')))
       (if sd_mode command \<noteq> ''update'' then ret ()
        else cbind (owned_task (t_task_id task) None) (\<lambda>current.
          if task_terminal current then ret ()
          else cbind (now X) (\<lambda>n.
            cbind (put_task X (current\<lparr>t_instruction := sd_instruction command,
              t_context_plan := plan, t_updated_at_ms := n\<rparr>)) (\<lambda>_. ret ()))))))))))))"

subsection \<open>Revising a contract\<close>

definition update_contract :: "env \<Rightarrow> string \<Rightarrow> ContractBody \<Rightarrow> string \<Rightarrow> string \<Rightarrow> unit control" where
  "update_contract X task_id body source_turn_id operation_id =
     cbind (commit X (\<lambda>L clk. revise_contract L clk task_id body [source_turn_id])) (\<lambda>contract.
     cbind (owned_task task_id None) (\<lambda>task.
     case t_active_run_id task of
       None \<Rightarrow> ret ()
     | Some run_id \<Rightarrow>
         cbind (lift_res (WorkerMessage_init
           ((worker_message (stable_id X ''message'' [operation_id]) [] ''policy'')
             \<lparr>wm_policy := Some (WorkerPolicyView_from_contract contract)\<rparr>))) (\<lambda>message.
         cbind (enqueue_provider_message X task message None) (\<lambda>queued.
         cbind (fetch (\<lambda>g. run_id \<in> gw_runs g)) (\<lambda>live.
         if live then cbind (deliver_provider_command X run_id queued) (\<lambda>_. ret ()) else ret ())))))"

subsection \<open>Cancelling\<close>

definition cancel_task :: "env \<Rightarrow> string \<Rightarrow> unit control" where
  "cancel_task X task_id = cbind (owned_task task_id None) (\<lambda>task.
     if task_terminal task then ret ()
     else if t_status task = TQueued then
       cbind (now X) (\<lambda>n.
       seq (cbind (put_task X (task\<lparr>t_status := TCancelled,
           t_result := ''Cancelled before the worker started'', t_updated_at_ms := n\<rparr>)) (\<lambda>_. ret ()))
       (seq (close_task_interactions X task_id)
       (seq (finish_event task_id)
       (cbind (required_contract task) (\<lambda>contract.
          announce_end X task (dp_final (cb_delivery_policy (sc_body contract))) None [] ''cancelled'')))))
     else
       cbind (case truthy_text (t_cancel_request_id task) of Some k \<Rightarrow> ret k | None \<Rightarrow> new_id X ''cancel'')
         (\<lambda>request_id.
       cbind (now X) (\<lambda>n.
       seq (cbind (put_task X (task\<lparr>t_status := TCancelling, t_cancel_request_id := Some request_id,
           t_updated_at_ms := n\<rparr>)) (\<lambda>_. ret ()))
       (cbind (fetch (\<lambda>g. case t_active_run_id task of None \<Rightarrow> None
           | Some r \<Rightarrow> if r \<in> gw_runs g then Some r else None)) (\<lambda>run.
       case run of
         None \<Rightarrow> ret ()
       | Some r \<Rightarrow> cbind (await (\<lambda>k. x_cancel X k r request_id)) (\<lambda>ended.
           if ended then terminal_from_cancel X task else ret ())))))) "

subsection \<open>Resolving an interaction\<close>

text \<open>\<open>None\<close> is the early \<open>return True\<close>: the run is gone and its command waits in the outbox.\<close>

definition answer_worker ::
  "env \<Rightarrow> PendingInteraction \<Rightarrow> ResolveInteractionCommand \<Rightarrow> string option \<Rightarrow> bool option control" where
  "answer_worker X i command message_id =
     cbind (lift_res (WorkerMessage_init
       ((worker_message (case truthy_text message_id of Some m \<Rightarrow> m
           | None \<Rightarrow> stable_id X ''message'' [i_interaction_id i,
               (case i_decision i of None \<Rightarrow> [] | Some d \<Rightarrow> d), ri_response command])
           (ri_response command) ''interaction_reply'')
        \<lparr>wm_interaction_id := Some (i_interaction_id i), wm_source_event_id := i_source_event_id i,
         wm_decision := i_decision i\<rparr>))) (\<lambda>message.
     cbind (owned_task (case i_task_id i of None \<Rightarrow> [] | Some k \<Rightarrow> k) None) (\<lambda>task.
     cbind (enqueue_provider_message X task message (i_run_id i)) (\<lambda>queued.
     cbind (fetch (\<lambda>g. case i_run_id i of None \<Rightarrow> None
         | Some r \<Rightarrow> if r \<in> gw_runs g then Some r else None)) (\<lambda>run.
     case run of
       None \<Rightarrow> seq (cancel_deliveries X (i_interaction_id i)) (seq (refresh_for X i) (ret None))
     | Some r \<Rightarrow> cbind (deliver_provider_command X r queued) (\<lambda>b. ret (Some b))))))"

definition resolve_interaction ::
  "env \<Rightarrow> ResolveInteractionCommand \<Rightarrow> string option \<Rightarrow> bool control" where
  "resolve_interaction X command message_id =
     cbind (commit X (\<lambda>L clk. begin_interaction_resolution L clk (ri_interaction_id command)
       (ri_response command) (ri_decision command))) (\<lambda>begun. case begun of
       None \<Rightarrow> ret False
     | Some i \<Rightarrow>
         cbind (if i_source i = ''worker''
                then rescue (answer_worker X i command message_id) (\<lambda>_. ret (Some False))
                else ret (Some True)) (\<lambda>answer. case answer of
           None \<Rightarrow> ret True
         | Some success \<Rightarrow>
             seq (settle_interaction X (i_interaction_id i) success)
             (seq (if success then cancel_deliveries X (i_interaction_id i) else ret ())
             (seq (refresh_for X i) (ret success)))))"

end
