(* ===== verification/ControlPlan.thy ===== *)
theory ControlPlan
  imports ControlMessages
begin

text \<open>
  The plans of the Coordinator model (coordination.py) and what \<open>GNSISGateway\<close> (gateway.py) does with
  them: the context it builds, \<open>_validate_plan\<close>, which rejects a plan the ledger does not permit,
  \<open>_apply_plan\<close>, and the life of one coordination request.  The answer of the model is an argument.

  Of the words that count as an approval the Chinese ones are left out: the model's texts end at code
  point 255.
\<close>

section \<open>Plans and contexts\<close>

record CoordinatorPlan =
  pl_disposition :: string
  pl_speech :: string
  pl_commands :: "CoordinatorCommand list"
  pl_question :: "QuestionProposal option"

definition CoordinatorPlan_init :: "CoordinatorPlan \<Rightarrow> CoordinatorPlan res" where
  "CoordinatorPlan_init p = validated (raise_first
     [one_of (pl_disposition p) [''answered'', ''accepted'', ''clarify'', ''rejected'']
        ''invalid Coordinator disposition'',
      (pl_disposition p = ''clarify'' \<and> pl_question p = None,
        ValueError ''clarify disposition requires a question'')]) p"

record CoordinatorContextPolicy =
  xp_max_active_tasks :: int
  xp_max_recent_tasks :: int
  xp_max_projects :: int
  xp_max_interactions :: int
  xp_max_record_text_chars :: int
  xp_max_snapshot_chars :: int

definition CoordinatorContextPolicy_init ::
  "CoordinatorContextPolicy \<Rightarrow> CoordinatorContextPolicy res" where
  "CoordinatorContextPolicy_init p = validated (raise_first
     [(Min {xp_max_active_tasks p, xp_max_recent_tasks p, xp_max_projects p, xp_max_interactions p,
         xp_max_record_text_chars p, xp_max_snapshot_chars p} < 1,
        ValueError ''Coordinator context limits must be positive'')]) p"

record CoordinatorContext =
  cx_request_id :: string
  cx_reason :: string
  cx_owner_id :: string
  cx_turn :: "TurnEnvelope option"
  cx_tasks :: "TaskRecord list"
  cx_projects :: "ProjectRecord list"
  cx_interactions :: "PendingInteraction list"
  cx_contracts :: "SupervisionContractRevision list"
  cx_provider_capabilities :: "(string \<times> BackendCapabilities) list"
  cx_worker_event :: "WorkerEvent option"

text \<open>\<open>xs[-n:]\<close> for a positive \<open>n\<close>.\<close>

definition newest_records :: "int \<Rightarrow> 'a list \<Rightarrow> 'a list" where
  "newest_records n xs = last_n (nat n) xs"

definition context_tasks :: "CoordinatorContextPolicy \<Rightarrow> TaskLedger \<Rightarrow> string \<Rightarrow> TaskRecord list" where
  "context_tasks policy L own =
     (let all_tasks = filter (\<lambda>t. t_kind t = ''main'') (list_tasks L (Some own)) in
      newest_records (xp_max_active_tasks policy) (filter (\<lambda>t. \<not> task_terminal t) all_tasks) @
      newest_records (xp_max_recent_tasks policy) (filter task_terminal all_tasks))"

definition context_projects ::
  "CoordinatorContextPolicy \<Rightarrow> TaskLedger \<Rightarrow> string \<Rightarrow> TaskRecord list \<Rightarrow> ProjectRecord list" where
  "context_projects policy L own tasks =
     (let projects = list_projects L (Some own);
          visible = filter (\<lambda>p. pr_project_id p \<in> t_project_id ` set tasks) projects;
          more = (if int (length visible) < xp_max_projects policy
            then filter (\<lambda>p. pr_project_id p \<notin> pr_project_id ` set visible)
              (newest_records (xp_max_projects policy) projects)
            else [])
      in map (\<lambda>p. p\<lparr>pr_backend_session_id := []\<rparr>) (newest_records (xp_max_projects policy) (visible @ more)))"

definition coordinator_context ::
  "env \<Rightarrow> CoordinatorContextPolicy \<Rightarrow> TaskLedger \<Rightarrow> string \<Rightarrow> string \<Rightarrow> string \<Rightarrow> TurnEnvelope option \<Rightarrow>
   WorkerEvent option \<Rightarrow> CoordinatorContext" where
  "coordinator_context X policy L request_id reason own turn event =
     (let tasks = context_tasks policy L own in
      \<lparr>cx_request_id = request_id, cx_reason = reason, cx_owner_id = own, cx_turn = turn,
       cx_tasks = tasks, cx_projects = context_projects policy L own tasks,
       cx_interactions = newest_records (xp_max_interactions policy)
         (filter (\<lambda>i. i_state i \<in> {IPending, IResolving}) (list_interactions L (Some own))),
       cx_contracts = List.map_filter (\<lambda>t. get_contract L (t_task_id t) None) tasks,
       cx_provider_capabilities = x_providers X, cx_worker_event = event\<rparr>)"

section \<open>Validation\<close>

definition generic_approval :: "string \<Rightarrow> bool" where
  "generic_approval text \<longleftrightarrow>
     lower (py_strip text) \<in> {''yes'', ''y'', ''ok'', ''okay'', ''approve'', ''allow''}"

definition approved :: "string option \<Rightarrow> string \<Rightarrow> bool" where
  "approved answer response \<longleftrightarrow>
     lower (py_strip (case truthy_text answer of Some d \<Rightarrow> d | None \<Rightarrow> response)) \<in>
       {''allow'', ''allow_once'', ''allow_session'', ''accept'', ''acceptforsession'', ''approve'',
        ''approved'', ''yes'', ''ok''}"

fun first_problem :: "control_error option list \<Rightarrow> control_error option" where
  "first_problem [] = None"
| "first_problem (None # es) = first_problem es"
| "first_problem (Some e # es) = Some e"

lemma first_problem_None_iff [simp]: "first_problem es = None \<longleftrightarrow> (\<forall>e \<in> set es. e = None)"
  by (induction es rule: first_problem.induct) auto

definition fails :: "bool \<Rightarrow> control_error \<Rightarrow> control_error option" where
  "fails b e = (if b then Some e else None)"

lemma fails_None_iff [simp]: "fails b e = None \<longleftrightarrow> \<not> b"
  by (simp add: fails_def)

definition is_task_start :: "TurnEnvelope option \<Rightarrow> bool" where
  "is_task_start turn = (case turn of None \<Rightarrow> False | Some t \<Rightarrow> tu_frontbrain_action t = ''task_start'')"

definition start_error :: "CoordinatorPlan \<Rightarrow> TurnEnvelope option \<Rightarrow> control_error option" where
  "start_error plan turn =
     (case turn of
        None \<Rightarrow> None
      | Some t \<Rightarrow>
          (if tu_frontbrain_action t \<noteq> ''task_start'' then None
           else (case (pl_question plan, pl_commands plan) of
              (None, [CreateTask c]) \<Rightarrow>
                fails (tu_runtime_provider_name t \<noteq> [] \<and> ct_provider_name c \<noteq> tu_runtime_provider_name t)
                  (plan_error ''task_start provider does not match deployment routing'')
            | _ \<Rightarrow> Some (plan_error ''task_start requires exactly one create command''))))"

definition created :: "CoordinatorPlan \<Rightarrow> CreateTaskCommand list" where
  "created plan = List.map_filter (\<lambda>c. case c of CreateTask x \<Rightarrow> Some x | _ \<Rightarrow> None) (pl_commands plan)"

definition queued_tasks :: "TaskLedger \<Rightarrow> string \<Rightarrow> nat" where
  "queued_tasks L own =
     length (filter (\<lambda>t. t_status t = TQueued \<and> t_kind t = ''main'') (list_tasks L (Some own)))"

definition user_permissions :: "TaskLedger \<Rightarrow> string \<Rightarrow> PendingInteraction list" where
  "user_permissions L own = filter (\<lambda>i. i_state i = IPending \<and> i_kind i = ''permission'' \<and>
     i_audience i = ''user'') (list_interactions L (Some own))"

definition resolves_one_of :: "PendingInteraction list \<Rightarrow> CoordinatorCommand \<Rightarrow> bool" where
  "resolves_one_of permissions command = (case command of
     ResolveInteraction c \<Rightarrow> ri_interaction_id c \<in> i_interaction_id ` set permissions | _ \<Rightarrow> False)"

definition create_error :: "env \<Rightarrow> TaskLedger \<Rightarrow> string \<Rightarrow> CreateTaskCommand \<Rightarrow> control_error option" where
  "create_error X L own c =
     (case map_of (x_providers X) (ct_provider_name c) of
        None \<Rightarrow> Some (CoordinatorPlanError (''unknown provider: '' @ ct_provider_name c) ''no_eligible_worker'')
      | Some capabilities \<Rightarrow> first_problem
          [fails ((\<exists>r \<in> set (np_milestones (cb_notify_policy (ct_contract_body c))). nr_key r \<noteq> ''final.completed'') \<and>
              bc_structured_events capabilities \<notin> {''native'', ''injected_tool''})
             (CoordinatorPlanError ''backend cannot guarantee subscribed milestones'' ''no_eligible_worker''),
           (case ct_project_id c of
              None \<Rightarrow> None
            | Some k \<Rightarrow> (case get_project L k of
                None \<Rightarrow> Some (plan_error (''unknown project: '' @ k))
              | Some p \<Rightarrow> fails (pr_owner_id p \<noteq> own \<or> pr_provider_name p \<noteq> ct_provider_name c)
                  (plan_error ''project ownership or provider mismatch'')))])"

definition owned_error :: "TaskLedger \<Rightarrow> string \<Rightarrow> string \<Rightarrow> (TaskRecord \<Rightarrow> control_error option) \<Rightarrow> control_error option" where
  "owned_error L own task_id check =
     (case get_task L task_id of
        None \<Rightarrow> Some (plan_error (''unknown task: '' @ task_id))
      | Some task \<Rightarrow>
          (if t_owner_id task \<noteq> own then Some (plan_error (''task does not belong to owner: '' @ task_id))
           else check task))"

definition send_error :: "env \<Rightarrow> SendTaskCommand \<Rightarrow> TaskRecord \<Rightarrow> control_error option" where
  "send_error X c task =
     (if task_terminal task then Some (plan_error (''cannot send to terminal task: '' @ t_task_id task))
      else (case map_of (x_providers X) (t_provider_name task) of
         None \<Rightarrow> Some (Raised (KeyError (''unknown worker provider: '' @ t_provider_name task)))
       | Some capabilities \<Rightarrow> first_problem
           [fails (sd_mode c = ''update'' \<and> t_status task \<noteq> TQueued \<and> bc_steering capabilities = ''none'')
              (plan_error ''backend does not support task updates''),
            fails (sd_mode c = ''query'' \<and> bc_side_queries capabilities = ''none'')
              (plan_error ''backend does not support side queries'')]))"

definition resolve_error :: "TaskLedger \<Rightarrow> string \<Rightarrow> ResolveInteractionCommand \<Rightarrow> control_error option" where
  "resolve_error L own c =
     (case get_interaction L (ri_interaction_id c) of
        None \<Rightarrow> Some (plan_error (''unknown interaction: '' @ ri_interaction_id c))
      | Some i \<Rightarrow> first_problem
          [fails (i_owner_id i \<noteq> own) (plan_error (''unknown interaction: '' @ ri_interaction_id c)),
           fails (i_kind i = ''permission'' \<and> ri_decision c \<notin> {Some ''allow'', Some ''deny''})
             (plan_error ''permission resolution requires allow or deny''),
           fails (i_kind i \<noteq> ''permission'' \<and> ri_decision c \<noteq> None)
             (plan_error ''non-permission resolution must not set decision''),
           fails (i_kind i = ''choice'' \<and> ri_response c \<notin> set (i_choices i))
             (plan_error ''choice response must match an offered choice'')])"

fun command_error :: "env \<Rightarrow> TaskLedger \<Rightarrow> string \<Rightarrow> CoordinatorCommand \<Rightarrow> control_error option" where
  "command_error X L own (CreateTask c) = create_error X L own c"
| "command_error X L own (SendTask c) = owned_error L own (sd_task_id c) (send_error X c)"
| "command_error X L own (UpdateContract task_id body) = owned_error L own task_id
     (\<lambda>task. fails (task_terminal task) (plan_error ''cannot revise a terminal task contract''))"
| "command_error X L own (CancelTask task_id) = owned_error L own task_id (\<lambda>task. None)"
| "command_error X L own (ResolveInteraction c) = resolve_error L own c"

definition question_error :: "TaskLedger \<Rightarrow> string \<Rightarrow> string \<Rightarrow> QuestionProposal option \<Rightarrow> control_error option" where
  "question_error L own request_id question =
     (case question of
        None \<Rightarrow> None
      | Some q \<Rightarrow> fails (case get_task L (qp_target_id q) of
            Some target \<Rightarrow> t_owner_id target \<noteq> own | None \<Rightarrow> qp_target_id q \<noteq> request_id)
          (plan_error ''invalid question target''))"

definition validate_plan ::
  "env \<Rightarrow> TaskLedger \<Rightarrow> CoordinatorPlan \<Rightarrow> string \<Rightarrow> string \<Rightarrow> TurnEnvelope option \<Rightarrow> control_error option" where
  "validate_plan X L plan own request_id turn = first_problem
     ([start_error plan turn,
       fails (int (length (created plan)) + int (queued_tasks L own) > x_max_queued_tasks X)
         (plan_error ''owner task queue limit exceeded''),
       fails ((case turn of None \<Rightarrow> False | Some t \<Rightarrow> generic_approval (tu_final_asr t)) \<and>
           (\<exists>c \<in> set (pl_commands plan). resolves_one_of (user_permissions L own) c) \<and>
           length (user_permissions L own) > 1)
         (plan_error ''ambiguous approval cannot resolve multiple permissions'')] @
      map (command_error X L own) (pl_commands plan) @
      [question_error L own request_id (pl_question plan)])"

section \<open>Names and task views\<close>

record ActiveTask =
  at_task_id :: string
  at_name :: string

definition active_view :: "TaskRecord \<Rightarrow> ActiveTask" where
  "active_view t = \<lparr>at_task_id = t_task_id t, at_name = (if t_name t = [] then t_title t else t_name t)\<rparr>"

definition control_task_views :: "env \<Rightarrow> string \<Rightarrow> (ActiveTask list \<times> ActiveTask list) control" where
  "control_task_views X own = look_now X (\<lambda>L clk.
     (map active_view (filter (\<lambda>t. t_kind t = ''main'' \<and> \<not> task_terminal t) (list_tasks L (Some own))),
      map active_view (recent_terminal_tasks L clk own (x_recent_task_window_ms X) (x_max_terminal_tasks X))))"

text \<open>
  The naming of \<open>TaskNames\<close> on the texts of the ledger.  Its search always returns on a finite set of
  names, so the last case is not reached.
\<close>

definition assign_name :: "string \<Rightarrow> string set \<Rightarrow> string control" where
  "assign_name proposed existing =
     (case assign_frontbrain_task_name (JStr (u proposed)) (u ` existing) of
        Some (Inr name) \<Rightarrow> ret (map char_of name)
      | Some (Inl e) \<Rightarrow> throw (Raised e)
      | None \<Rightarrow> throw (Raised (RuntimeError ''no free task name'')))"

section \<open>Application\<close>

definition start_name :: "env \<Rightarrow> string \<Rightarrow> TurnEnvelope option \<Rightarrow> string control" where
  "start_name X own turn =
     (case turn of
        None \<Rightarrow> ret []
      | Some t \<Rightarrow>
          (if tu_frontbrain_action t \<noteq> ''task_start'' then ret []
           else cbind (control_task_views X own) (\<lambda>views.
             assign_name (tu_frontbrain_task_name t) (at_name ` (set (fst views) \<union> set (snd views))))))"

text \<open>One command; the result is the task the command names.\<close>

definition apply_command ::
  "env \<Rightarrow> string \<Rightarrow> string \<Rightarrow> string \<Rightarrow> TurnEnvelope option \<Rightarrow> nat \<Rightarrow> CoordinatorCommand \<Rightarrow> string list control" where
  "apply_command X own request_id source_turn_id turn index command =
     (let operation_id = stable_id X ''operation'' [request_id, digits index] in
      case command of
        CreateTask c \<Rightarrow>
          cbind (start_name X own turn) (\<lambda>name.
          cbind (create_task_from X c own source_turn_id turn (stable_id X ''task'' [request_id, digits index])
            name None) (\<lambda>task.
          seq (schedule (t_task_id task)) (ret [t_task_id task])))
      | SendTask c \<Rightarrow> seq (send_task X c turn operation_id) (ret [sd_task_id c])
      | UpdateContract task_id body \<Rightarrow>
          seq (update_contract X task_id body source_turn_id operation_id) (ret [task_id])
      | CancelTask task_id \<Rightarrow> seq (cancel_task X task_id) (ret [task_id])
      | ResolveInteraction c \<Rightarrow>
          cbind (resolve_interaction X c (Some (stable_id X ''message'' [operation_id]))) (\<lambda>_. ret []))"

fun apply_commands ::
  "env \<Rightarrow> string \<Rightarrow> string \<Rightarrow> string \<Rightarrow> TurnEnvelope option \<Rightarrow> nat \<Rightarrow> CoordinatorCommand list \<Rightarrow>
   string list control" where
  "apply_commands X own request_id source_turn_id turn index [] = ret []"
| "apply_commands X own request_id source_turn_id turn index (c # cs) =
     cbind (apply_command X own request_id source_turn_id turn index c) (\<lambda>ids.
     cbind (apply_commands X own request_id source_turn_id turn (Suc index) cs) (\<lambda>rest. ret (ids @ rest)))"

text \<open>The scope the backend can enforce, when the question is about a task.\<close>

definition widen_question :: "env \<Rightarrow> PendingInteraction \<Rightarrow> PendingInteraction control" where
  "widen_question X i =
     cbind (look (\<lambda>L. case truthy_text (i_task_id i) of None \<Rightarrow> None | Some k \<Rightarrow> get_task L k)) (\<lambda>target.
     case target of
       None \<Rightarrow> ret i
     | Some task \<Rightarrow>
         cbind (provider X (t_provider_name task)) (\<lambda>capabilities.
         cbind (lift_res (effective_scope (i_requested_scope i) (bc_blocking_granularity capabilities))) (\<lambda>scope.
         if scope = i_effective_scope i then ret i
         else seq (keep_interaction X (i\<lparr>i_effective_scope := scope\<rparr>)) (ret (i\<lparr>i_effective_scope := scope\<rparr>)))))"

definition ask_question ::
  "env \<Rightarrow> string \<Rightarrow> string \<Rightarrow> QuestionProposal \<Rightarrow> (string \<times> string option) control" where
  "ask_question X own request_id q =
     cbind (look (\<lambda>L. get_contract L (qp_target_id q) None)) (\<lambda>contract.
     cbind (new_id X ''interaction'') (\<lambda>k.
     cbind (commit X (\<lambda>L clk. admit_question L clk (x_uuid5 X) k q own request_id contract)) (\<lambda>admitted.
     case admitted of
       (Some i0, _) \<Rightarrow>
         cbind (widen_question X i0) (\<lambda>i.
         seq (refresh_for X i)
         (seq (enqueue_delivery X own (i_task_id i) None (Some (i_interaction_id i))
             (case contract of None \<Rightarrow> ''safe_pause''
              | Some c \<Rightarrow> dp_interaction (cb_delivery_policy (sc_body c)))
             ''interaction'' (i_prompt i) (''coordinator-question:'' @ i_fingerprint i) [])
         (ret (''clarify'', Some (i_interaction_id i)))))
     | (None, Rejected) \<Rightarrow> ret (''rejected'', None)
     | (None, Duplicate) \<Rightarrow> ret (''accepted'', None)
     | (None, _) \<Rightarrow>
         cbind (look (\<lambda>L. get_task L (qp_target_id q))) (\<lambda>target. case target of
           None \<Rightarrow> ret (''accepted'', None)
         | Some task \<Rightarrow>
             cbind (now X) (\<lambda>n.
             cbind (put_task X (task\<lparr>t_assumptions := from_keys (t_assumptions task @
               (case qp_default_if_unanswered q of None \<Rightarrow> [] | Some a \<Rightarrow> [a])), t_updated_at_ms := n\<rparr>))
             (\<lambda>_. ret (''accepted'', None)))))))"

definition control_result :: "string \<Rightarrow> string \<Rightarrow> TaskControlResult" where
  "control_result request_id disposition = \<lparr>tc_request_id = request_id, tc_disposition = disposition,
     tc_speech = [], tc_task_ids = [], tc_interaction_id = None, tc_reason_key = [], tc_status = ''ok'',
     tc_candidates = []\<rparr>"

definition apply_plan ::
  "env \<Rightarrow> CoordinatorPlan \<Rightarrow> string \<Rightarrow> string \<Rightarrow> string \<Rightarrow> TurnEnvelope option \<Rightarrow> TaskControlResult control" where
  "apply_plan X plan own request_id source_turn_id turn =
     cbind (look (\<lambda>L. validate_plan X L plan own request_id turn)) (\<lambda>invalid. case invalid of
       Some e \<Rightarrow> throw e
     | None \<Rightarrow>
         cbind (apply_commands X own request_id source_turn_id turn 0 (pl_commands plan)) (\<lambda>task_ids.
         cbind (case pl_question plan of
             None \<Rightarrow> ret (pl_disposition plan, None)
           | Some q \<Rightarrow> ask_question X own request_id q) (\<lambda>(disposition, interaction_id).
         ret ((control_result request_id disposition)\<lparr>tc_speech := pl_speech plan,
           tc_task_ids := from_keys task_ids, tc_interaction_id := interaction_id\<rparr>))))"

end
