(* ===== verification/ControlEvents.thy ===== *)
theory ControlEvents
  imports ControlPlan
begin

text \<open>
  Worker events in \<open>GNSISGateway\<close> (gateway.py): authorization of an action, the reduction of an event
  to task state and deliveries, the aggregates of ordinary activity, expiry of interactions, the
  dispatch of a task to a run, and the recovery after a restart.

  \<open>plan_of n context\<close> is the answer of the Coordinator model to the \<open>n\<close>-th call.
\<close>

type_synonym planner = "nat \<Rightarrow> CoordinatorContext \<Rightarrow> string + CoordinatorPlan"

section \<open>Authorization\<close>

definition authorization :: "string \<Rightarrow> string \<Rightarrow> string \<Rightarrow> string option \<Rightarrow> AuthorizationDecision" where
  "authorization outcome action reason interaction_id = \<lparr>ad_outcome = outcome, ad_action = action,
     ad_reason = reason, ad_interaction_id = interaction_id\<rparr>"

definition permission_fingerprint :: "env \<Rightarrow> string \<Rightarrow> string \<Rightarrow> string \<Rightarrow> string \<Rightarrow> string" where
  "permission_fingerprint X task_id run_id action request_key =
     stable_key (x_uuid5 X) [''permission'', x_instance_id X, task_id, run_id, action, request_key]"

definition ask_permission ::
  "env \<Rightarrow> TaskRecord \<Rightarrow> SupervisionContractRevision \<Rightarrow> BackendCapabilities \<Rightarrow> string \<Rightarrow> string \<Rightarrow> string \<Rightarrow>
   string \<Rightarrow> string \<Rightarrow> string control" where
  "ask_permission X task contract capabilities run_id action fingerprint prompt blocking_scope =
     cbind (new_id X ''interaction'') (\<lambda>k.
     cbind (lift_res (effective_scope blocking_scope (bc_blocking_granularity capabilities))) (\<lambda>scope.
     cbind (now X) (\<lambda>n. cbind (now X) (\<lambda>created.
     cbind (lift_res (PendingInteraction_init
       \<lparr>i_interaction_id = k, i_owner_id = t_owner_id task, i_target_id = t_task_id task,
        i_task_id = Some (t_task_id task), i_run_id = Some run_id, i_source = ''worker'',
        i_audience = ''user'', i_kind = ''permission'', i_prompt = prompt,
        i_reason_key = ''authority.permission'', i_source_event_id = None, i_action_key = Some action,
        i_choices = [], i_requested_scope = blocking_scope, i_effective_scope = scope,
        i_state = IPending, i_fingerprint = fingerprint, i_coordination_request_id = [],
        i_response = [], i_decision = None, i_created_at_ms = created,
        i_expires_at_ms = Some (n + x_permission_timeout_ms X), i_resolved_at_ms = None\<rparr>)) (\<lambda>i.
     seq (keep_interaction X i)
     (seq (refresh_blocked X (t_task_id task))
     (seq (enqueue_delivery X (t_owner_id task) (Some (t_task_id task)) None (Some k)
         (dp_interaction (cb_delivery_policy (sc_body contract))) ''interaction'' prompt
         (''permission:'' @ fingerprint) [])
     (ret k))))))))"

text \<open>The permission of this fingerprint, asked when it was not asked before.\<close>

definition permission_answer ::
  "env \<Rightarrow> TaskRecord \<Rightarrow> SupervisionContractRevision \<Rightarrow> BackendCapabilities \<Rightarrow> AuthorizationDecision \<Rightarrow>
   string \<Rightarrow> string \<Rightarrow> string \<Rightarrow> string \<Rightarrow> string \<Rightarrow> AuthorizationDecision control" where
  "permission_answer X task contract capabilities decided run_id action fingerprint prompt blocking_scope =
     cbind (look (\<lambda>L. find_interaction_by_fingerprint L fingerprint)) (\<lambda>existing. case existing of
       Some i \<Rightarrow>
         ret (if i_state i \<noteq> IResolved then decided\<lparr>ad_interaction_id := Some (i_interaction_id i)\<rparr>
              else if approved (i_decision i) (i_response i)
              then authorization ''allow'' action ''permission_granted'' None
              else authorization ''deny'' action ''permission_denied'' None)
     | None \<Rightarrow>
         cbind (ask_permission X task contract capabilities run_id action fingerprint prompt blocking_scope)
           (\<lambda>k. ret (decided\<lparr>ad_interaction_id := Some k\<rparr>)))"

definition gateway_authorize ::
  "env \<Rightarrow> string \<Rightarrow> string \<Rightarrow> string \<Rightarrow> string \<Rightarrow> string \<Rightarrow> string \<Rightarrow> bool \<Rightarrow> bool \<Rightarrow>
   AuthorizationDecision control" where
  "gateway_authorize X task_id run_id action request_key prompt blocking_scope side_effect high_risk =
     cbind (owned_task task_id None) (\<lambda>task.
     if t_active_run_id task \<noteq> Some run_id then ret (authorization ''deny'' action ''inactive_run'' None)
     else if t_kind task = ''side_query'' \<and> side_effect
     then ret (authorization ''deny'' action ''side_query_read_only'' None)
     else
       cbind (required_contract task) (\<lambda>contract.
       cbind (provider X (t_provider_name task)) (\<lambda>capabilities.
       let decided = authorize contract capabilities action side_effect high_risk in
       if ad_outcome decided \<noteq> ''require_permission'' then ret decided
       else cbind (fetch (\<lambda>g. t_owner_id task \<in> gw_standing g)) (\<lambda>standing.
         if standing then ret (authorization ''allow'' action ''standing_session_grant'' None)
         else permission_answer X task contract capabilities decided run_id action
           (permission_fingerprint X task_id run_id action request_key) prompt blocking_scope))))"

section \<open>Directives\<close>

definition set_directive :: "string \<Rightarrow> string \<Rightarrow> bool control" where
  "set_directive own directive =
     (if directive = ''revoke_session''
      then seq (change (\<lambda>g. g\<lparr>gw_standing := gw_standing g - {own}\<rparr>)) (ret True)
      else if directive = ''mute''
      then seq (change (\<lambda>g. g\<lparr>gw_muted := insert own (gw_muted g)\<rparr>)) (ret True)
      else if directive = ''unmute''
      then seq (change (\<lambda>g. g\<lparr>gw_muted := gw_muted g - {own}\<rparr>)) (ret True)
      else if directive = ''subscribe_interrupt''
      then seq (change (\<lambda>g. g\<lparr>gw_subscribed := insert own (gw_subscribed g)\<rparr>)) (ret True)
      else if directive = ''unsubscribe_interrupt''
      then seq (change (\<lambda>g. g\<lparr>gw_subscribed := gw_subscribed g - {own}\<rparr>)) (ret True)
      else ret False)"

definition pending_deliveries :: "env \<Rightarrow> string \<Rightarrow> DeliveryRecord list control" where
  "pending_deliveries X own =
     cbind (fetch (\<lambda>g. (own \<in> gw_muted g, own \<in> gw_subscribed g))) (\<lambda>(muted, subscribed).
     if muted then ret []
     else cbind (commit_pair X (\<lambda>L clk. requeue_expired_delivery_claims L clk own)) (\<lambda>_.
       look (\<lambda>L. map (\<lambda>d. if \<not> x_lean X \<and> \<not> subscribed \<and> d_timing d = ''interrupt''
           then d\<lparr>d_timing := ''safe_pause''\<rparr> else d)
         (filter (\<lambda>d. d_state d = DPending) (list_deliveries L (Some own))))))"

section \<open>Activity aggregates\<close>

definition schedule_aggregate :: "string \<Rightarrow> unit control" where
  "schedule_aggregate k = change (\<lambda>g. g\<lparr>gw_aggregate_jobs := insert k (gw_aggregate_jobs g)\<rparr>)"

definition aggregate_speech :: "TaskRecord \<Rightarrow> ActivityAggregate \<Rightarrow> string" where
  "aggregate_speech task g =
     (if g_event_count g = 1 then t_title task @ '': '' @ last (g_summaries g)
      else t_title task @ '': '' @ int_str (g_event_count g) @ '' progress updates; latest: '' @
        last (g_summaries g))"

definition flush_aggregate :: "env \<Rightarrow> string \<Rightarrow> unit control" where
  "flush_aggregate X aggregate_id =
     cbind (commit X (\<lambda>L clk. flush_activity_aggregate L clk aggregate_id)) (\<lambda>flushed. case flushed of
       None \<Rightarrow> ret ()
     | Some g \<Rightarrow>
         cbind (look (\<lambda>L. (get_task L (g_task_id g), get_contract L (g_task_id g) (Some (g_contract_revision g)))))
           (\<lambda>found. case found of
             (Some task, Some contract) \<Rightarrow>
               enqueue_delivery X (g_owner_id g) (Some (g_task_id g)) (Some (last (g_event_ids g))) None
                 (dp_aggregate (cb_delivery_policy (sc_body contract))) ''aggregate''
                 (aggregate_speech task g) (''aggregate:'' @ g_aggregate_id g) []
           | _ \<Rightarrow> ret ()))"

definition flush_task_aggregates :: "env \<Rightarrow> string \<Rightarrow> unit control" where
  "flush_task_aggregates X task_id =
     cbind (look (\<lambda>L. list_activity_aggregates L None (Some task_id) (Some AOpen)))
       (each (\<lambda>g. flush_aggregate X (g_aggregate_id g)))"

text \<open>The id is the \<open>new_id("aggregate")\<close> the ledger would draw.\<close>

definition append_aggregate :: "env \<Rightarrow> WorkerEvent \<Rightarrow> int \<Rightarrow> int \<Rightarrow> unit control" where
  "append_aggregate X event revision window_ms =
     cbind (new_id X ''aggregate'') (\<lambda>k.
     cbind (commit X (\<lambda>L clk. append_activity_aggregate L clk k event revision window_ms)) (\<lambda>g.
     schedule_aggregate (g_aggregate_id g)))"

section \<open>Arbitration without a Coordinator\<close>

definition lean_arbitrate :: "bool \<Rightarrow> WorkerEvent \<Rightarrow> BackendCapabilities \<Rightarrow> ArbitrationDecision" where
  "lean_arbitrate standing event capabilities =
     (case e_payload event of
        PUpdate p \<Rightarrow> decision (if up_severity p = ''high_risk'' then ''interrupt'' else ''safe_pause'')
          True ''none'' ''lean_update''
      | PInteraction p \<Rightarrow>
          (if \<not> bc_interactions capabilities
           then decision ''safe_pause'' False ''none'' ''backend_did_not_declare_interactions''
           else if ip_kind p = ''permission'' \<and> standing
           then decision ''safe_pause'' True ''coordinator'' ''allowed_by_contract''
           else decision ''safe_pause'' True ''user'' ''lean_interaction'')
      | PDone p \<Rightarrow> decision ''safe_pause'' True ''none'' ''lean_terminal'')"

section \<open>The reduction of an event\<close>

definition rule_for :: "UpdatePayload \<Rightarrow> SupervisionContractRevision \<Rightarrow> NotifyRule option" where
  "rule_for p contract = find (\<lambda>r. Some (nr_key r) = up_milestone p)
     (np_milestones (cb_notify_policy (sc_body contract)))"

definition update_key :: "WorkerEvent \<Rightarrow> UpdatePayload \<Rightarrow> SupervisionContractRevision \<Rightarrow> string" where
  "update_key event p contract =
     (case rule_for p contract of
        Some r \<Rightarrow> (if nr_once r then ''milestone:'' @ e_task_id event @ '':'' @ nr_key r
                   else ''event:'' @ e_event_id event)
      | None \<Rightarrow> ''event:'' @ e_event_id event)"

definition reduce_update ::
  "env \<Rightarrow> TaskRecord \<Rightarrow> SupervisionContractRevision \<Rightarrow> ArbitrationDecision \<Rightarrow> WorkerEvent \<Rightarrow> UpdatePayload \<Rightarrow>
   unit control" where
  "reduce_update X task contract decided event p =
     (if \<not> rd_accepted decided then ret ()
      else
        seq (if \<not> x_lean X \<and> up_kind p = ''activity'' \<and> up_severity p = ''normal'' \<and>
               dp_aggregate_window_ms (cb_delivery_policy (sc_body contract)) > 0
             then append_aggregate X event (sc_revision contract)
               (dp_aggregate_window_ms (cb_delivery_policy (sc_body contract)))
             else ret ())
        (seq (if up_kind p = ''milestone'' then flush_task_aggregates X (t_task_id task) else ret ())
        (if rd_timing decided = ''hold'' then ret ()
         else enqueue_delivery X (t_owner_id task) (Some (t_task_id task)) (Some (e_event_id event)) None
           (rd_timing decided) (if up_severity p = ''high_risk'' then ''risk'' else ''milestone'')
           (up_summary p) (update_key event p contract) [])))"

definition deliver_interaction ::
  "env \<Rightarrow> TaskRecord \<Rightarrow> SupervisionContractRevision \<Rightarrow> WorkerEvent \<Rightarrow> PendingInteraction \<Rightarrow> unit control" where
  "deliver_interaction X task contract event i =
     enqueue_delivery X (t_owner_id task) (Some (t_task_id task)) (Some (e_event_id event)) (Some (i_interaction_id i))
       (dp_interaction (cb_delivery_policy (sc_body contract))) ''interaction'' (i_prompt i)
       (''interaction:'' @ i_fingerprint i) []"

definition coordinate_worker_interaction ::
  "env \<Rightarrow> CoordinatorContextPolicy \<Rightarrow> planner \<Rightarrow> WorkerEvent \<Rightarrow> unit control" where
  "coordinate_worker_interaction X policy plan_of event =
     (let request_id = stable_id X ''coordination'' [e_event_id event] in
      cbind (look (\<lambda>L. coordinator_context X policy L request_id ''worker_interaction'' (e_owner_id event)
        None (Some event))) (\<lambda>context.
      rescue (cbind (await (\<lambda>n. plan_of n context)) (\<lambda>plan.
          cbind (apply_plan X plan (e_owner_id event) request_id (e_event_id event) None) (\<lambda>_. ret ())))
        (\<lambda>_. ret ())))"

definition permission_expiry :: "env \<Rightarrow> PendingInteraction \<Rightarrow> PendingInteraction control" where
  "permission_expiry X i =
     (if i_expires_at_ms i \<noteq> None then ret i
      else cbind (now X) (\<lambda>n.
        let bounded = i\<lparr>i_expires_at_ms := Some (n + x_permission_timeout_ms X)\<rparr> in
        seq (keep_interaction X bounded) (ret bounded)))"

definition policy_reasons :: "string set" where
  "policy_reasons = {''allowed_by_contract'', ''denied_by_contract'', ''unknown_action'',
     ''backend_cannot_enforce_permission''}"

definition policy_answer :: "PendingInteraction \<Rightarrow> string \<Rightarrow> ResolveInteractionCommand" where
  "policy_answer i reason = \<lparr>ri_interaction_id = i_interaction_id i,
     ri_response = (if reason = ''allowed_by_contract'' then ''Allowed by supervision policy''
       else ''Denied by supervision policy''),
     ri_decision = Some (if reason = ''allowed_by_contract'' then ''allow'' else ''deny'')\<rparr>"

definition reduce_interaction ::
  "env \<Rightarrow> CoordinatorContextPolicy \<Rightarrow> planner \<Rightarrow> bool \<Rightarrow> TaskRecord \<Rightarrow> SupervisionContractRevision \<Rightarrow>
   BackendCapabilities \<Rightarrow> ArbitrationDecision \<Rightarrow> WorkerEvent \<Rightarrow> InteractionPayload \<Rightarrow> unit control" where
  "reduce_interaction X policy plan_of recovering task contract capabilities decided event p =
     (if \<not> rd_accepted decided then fail_active_run X (t_task_id task) (rd_reason decided)
      else
        cbind (new_id X ''interaction'') (\<lambda>k.
        cbind (commit X (\<lambda>L clk. from_worker L clk (x_uuid5 X) k event capabilities
            (if rd_interaction_route decided = ''user'' then ''user'' else ''coordinator''))) (\<lambda>i0.
        cbind (if ip_kind p = ''permission'' then permission_expiry X i0 else ret i0) (\<lambda>i.
        seq (refresh_blocked X (t_task_id task))
        (if rd_interaction_route decided = ''user'' \<or> recovering then
           (let shown = (if recovering \<and> i_audience i \<noteq> ''user'' then i\<lparr>i_audience := ''user''\<rparr> else i) in
            seq (if recovering \<and> i_audience i \<noteq> ''user'' then keep_interaction X shown else ret ())
              (deliver_interaction X task contract event shown))
         else if ip_kind p = ''permission'' \<and> rd_reason decided \<in> policy_reasons then
           cbind (resolve_interaction X (policy_answer i (rd_reason decided)) None) (\<lambda>_. ret ())
         else
           seq (coordinate_worker_interaction X policy plan_of event)
           (cbind (look (\<lambda>L. get_interaction L (i_interaction_id i))) (\<lambda>found. case found of
              None \<Rightarrow> ret ()
            | Some current \<Rightarrow>
                (if i_state current \<noteq> IPending then ret ()
                 else (let promoted = current\<lparr>i_audience := ''user''\<rparr> in
                   seq (keep_interaction X promoted)
                     (deliver_interaction X task contract event promoted)))))))))) "

text \<open>A task status and the run status of the same name.\<close>

fun run_status_of :: "TaskStatus \<Rightarrow> RunStatus" where
  "run_status_of TCompleted = RCompleted"
| "run_status_of TPartial = RPartial"
| "run_status_of TFailed = RFailed"
| "run_status_of TCancelled = RCancelled"
| "run_status_of TQueued = RQueued"
| "run_status_of s = RRunning"

definition reduce_done ::
  "env \<Rightarrow> TaskRecord \<Rightarrow> ArbitrationDecision \<Rightarrow> WorkerEvent \<Rightarrow> DonePayload \<Rightarrow> unit control" where
  "reduce_done X task decided event p =
     seq (flush_task_aggregates X (t_task_id task))
     (cbind (look (\<lambda>L. get_run L (e_run_id event))) (\<lambda>found. case found of
        None \<Rightarrow> ret ()
      | Some run \<Rightarrow>
          (let error = (if do_status p = TFailed then do_result p else []) in
           cbind (now X) (\<lambda>n.
           cbind (lift_res (TaskRecord_init (task\<lparr>t_status := do_status p, t_active_run_id := None,
             t_result := do_result p, t_error := error, t_updated_at_ms := n\<rparr>))) (\<lambda>task'.
           cbind (now X) (\<lambda>m.
           cbind (lift_res (RunRecord_init (run\<lparr>r_status := run_status_of (do_status p),
             r_ended_at_ms := Some m, r_error := error\<rparr>))) (\<lambda>run'.
           seq (cbind (commit X (\<lambda>L clk. save_task L clk task')) (\<lambda>_. ret ()))
           (seq (cbind (commit X (\<lambda>L clk. save_run L clk run' (t_owner_id task))) (\<lambda>_. ret ()))
           (seq (fail_commands X (e_run_id event) ''run is terminal'')
           (seq (close_task_interactions X (t_task_id task))
           (seq (finish_event (t_task_id task))
             (announce_end X task (rd_timing decided) (Some (e_event_id event)) (do_result p)
               (task_status_name (do_status p)))))))))))))) "

definition reduce_event :: "env \<Rightarrow> CoordinatorContextPolicy \<Rightarrow> planner \<Rightarrow> bool \<Rightarrow> WorkerEvent \<Rightarrow> unit control" where
  "reduce_event X policy plan_of recovering event =
     cbind (owned_task (e_task_id event) (Some (e_owner_id event))) (\<lambda>task.
     cbind (look (\<lambda>L. event_contract_revision L (e_event_id event))) (\<lambda>known.
     cbind (lift_res known) (\<lambda>revision.
     cbind (look (\<lambda>L. get_contract L (t_task_id task) (Some revision))) (\<lambda>found.
     cbind (need (Raised (RuntimeError ''missing evaluated contract revision'')) found) (\<lambda>contract.
     cbind (provider X (t_provider_name task)) (\<lambda>capabilities.
     cbind (if x_lean X then fetch (\<lambda>g. lean_arbitrate (e_owner_id event \<in> gw_standing g) event capabilities)
            else look (\<lambda>L. arbitrate L event contract capabilities)) (\<lambda>decided.
     case e_payload event of
       PUpdate p \<Rightarrow> reduce_update X task contract decided event p
     | PInteraction p \<Rightarrow>
         reduce_interaction X policy plan_of recovering task contract capabilities decided event p
     | PDone p \<Rightarrow> reduce_done X task decided event p)))))))"

definition ingest_worker_event :: "env \<Rightarrow> CoordinatorContextPolicy \<Rightarrow> planner \<Rightarrow> WorkerEvent \<Rightarrow> bool control" where
  "ingest_worker_event X policy plan_of event =
     cbind (fetch gw_closed) (\<lambda>closed.
     if closed then ret False
     else cbind (commit X (\<lambda>L clk. append_event L clk event)) (\<lambda>fresh.
       if \<not> fresh then ret False
       else seq (reduce_event X policy plan_of False event)
         (cbind (commit X (\<lambda>L clk. mark_event_processed L (e_event_id event))) (\<lambda>_. ret True))))"

section \<open>Expiry\<close>

definition expire_interaction :: "env \<Rightarrow> PendingInteraction \<Rightarrow> unit control" where
  "expire_interaction X i =
     seq (commit_only X (\<lambda>L clk. cancel_provider_commands_for_interaction L clk (i_interaction_id i)))
     (seq (cancel_deliveries X (i_interaction_id i))
     (seq (refresh_for X i)
     (cbind (fetch (\<lambda>g. case i_run_id i of None \<Rightarrow> None | Some r \<Rightarrow> if r \<in> gw_runs g then Some r else None))
       (\<lambda>run.
     cbind (queue_expired_interaction X i) (\<lambda>queued.
     case (run, queued) of
       (Some r, Some command) \<Rightarrow> cbind (deliver_provider_command X r command) (\<lambda>_. ret ())
     | _ \<Rightarrow> ret ())))))"

definition expire_interactions :: "env \<Rightarrow> int option \<Rightarrow> PendingInteraction list control" where
  "expire_interactions X timestamp_ms =
     cbind (commit_pair X (\<lambda>L clk. expire_due_interactions L clk timestamp_ms)) (\<lambda>expired.
     seq (each (expire_interaction X) expired) (ret expired))"

section \<open>Dispatch\<close>

text \<open>
  The state changes of \<open>_dispatch\<close>: the run record is made before the provider is asked, the run is
  live once the provider has answered, and it is removed when its events end.
\<close>

definition begin_run :: "env \<Rightarrow> string \<Rightarrow> RunRecord option \<Rightarrow> RunRecord option control" where
  "begin_run X task_id persisted =
     cbind (fetch gw_closed) (\<lambda>closed.
     if closed then ret None
     else cbind (owned_task task_id None) (\<lambda>task.
       if task_terminal task then ret None
       else (case persisted of
           Some run \<Rightarrow> ret (Some run)
         | None \<Rightarrow>
             cbind (new_id X ''run'') (\<lambda>run_id.
             cbind (now X) (\<lambda>started.
             cbind (lift_res (RunRecord_init \<lparr>r_run_id = run_id, r_task_id = t_task_id task,
               r_project_id = t_project_id task, r_provider_name = t_provider_name task,
               r_generation = t_generation task, r_status = RRunning, r_backend_session_id = [],
               r_started_at_ms = Some started, r_ended_at_ms = None, r_last_event_seq = 0,
               r_error = []\<rparr>)) (\<lambda>run.
             cbind (now X) (\<lambda>n.
             seq (cbind (put_task X (task\<lparr>t_status := TRunning, t_active_run_id := Some run_id,
                 t_updated_at_ms := n\<rparr>)) (\<lambda>_. ret ()))
             (seq (cbind (commit X (\<lambda>L clk. save_run L clk run (t_owner_id task))) (\<lambda>_. ret ()))
             (ret (Some run)))))))))) "

definition attach_run :: "env \<Rightarrow> string \<Rightarrow> RunRecord \<Rightarrow> string \<Rightarrow> bool control" where
  "attach_run X task_id run session_id =
     cbind (owned_task task_id None) (\<lambda>task0.
     seq (if session_id = r_backend_session_id run then ret ()
          else cbind (put_run X (run\<lparr>r_backend_session_id := session_id\<rparr>) (t_owner_id task0)) (\<lambda>_. ret ()))
     (seq (change (\<lambda>g. g\<lparr>gw_runs := insert (r_run_id run) (gw_runs g)\<rparr>))
     (seq (replay_provider_commands X (r_run_id run))
     (cbind (owned_task task_id None) (\<lambda>task.
     if t_status task \<noteq> TCancelling then ret False
     else
       cbind (case truthy_text (t_cancel_request_id task) of Some k \<Rightarrow> ret k | None \<Rightarrow> new_id X ''cancel'')
         (\<lambda>request_id.
       cbind (if t_cancel_request_id task = None
              then cbind (now X) (\<lambda>n. put_task X (task\<lparr>t_cancel_request_id := Some request_id, t_updated_at_ms := n\<rparr>))
              else ret task) (\<lambda>current.
       cbind (await (\<lambda>n. x_cancel X n (r_run_id run) request_id)) (\<lambda>ended.
       seq (if ended then terminal_from_cancel X current else ret ()) (ret ended)))))))))"

definition detach_run :: "string \<Rightarrow> unit control" where
  "detach_run run_id = change (\<lambda>g. g\<lparr>gw_runs := gw_runs g - {run_id}\<rparr>)"

section \<open>Recovery\<close>

definition invalidate_permission :: "env \<Rightarrow> PendingInteraction \<Rightarrow> unit control" where
  "invalidate_permission X i =
     seq (commit_only X (\<lambda>L clk. cancel_provider_commands_for_interaction L clk (i_interaction_id i)))
     (seq (cancel_deliveries X (i_interaction_id i))
     (seq (cbind (queue_expired_interaction X i) (\<lambda>_. ret ())) (refresh_for X i)))"

definition finish_sent_interactions :: "env \<Rightarrow> unit control" where
  "finish_sent_interactions X =
     cbind (look (\<lambda>L. from_keys (List.map_filter (\<lambda>c. wm_interaction_id (c_message c))
       (filter (\<lambda>c. c_state c = CSent) (list_provider_commands L None None))))) (each (finish_resolving X))"

definition recover_resolving :: "env \<Rightarrow> ProviderCommandRecord list \<Rightarrow> PendingInteraction \<Rightarrow> unit control" where
  "recover_resolving X commands i =
     (if i_state i \<noteq> IResolving then ret ()
      else seq
        (if i_source i = ''coordinator''
         then seq (settle_interaction X (i_interaction_id i) True) (cancel_deliveries X (i_interaction_id i))
         else if \<exists>c \<in> set commands. wm_interaction_id (c_message c) = Some (i_interaction_id i) \<and>
             c_state c \<in> {CPending, CSending, CSent}
         then ret ()
         else settle_interaction X (i_interaction_id i) False)
        (refresh_for X i))"

definition recover_resolving_interactions :: "env \<Rightarrow> unit control" where
  "recover_resolving_interactions X =
     cbind (look (\<lambda>L. (list_provider_commands L None None, list_interactions L None)))
       (\<lambda>(commands, interactions). each (recover_resolving X commands) interactions)"

definition replay_event :: "env \<Rightarrow> CoordinatorContextPolicy \<Rightarrow> planner \<Rightarrow> WorkerEvent \<Rightarrow> unit control" where
  "replay_event X policy plan_of event =
     seq (reduce_event X policy plan_of True event)
       (cbind (commit X (\<lambda>L clk. mark_event_processed L (e_event_id event))) (\<lambda>_. ret ()))"

definition resumable :: "env \<Rightarrow> TaskLedger \<Rightarrow> TaskRecord \<Rightarrow> RunRecord option \<Rightarrow> bool" where
  "resumable X L task run =
     (case (run, get_project L (t_project_id task), map_of (x_providers X) (t_provider_name task)) of
        (Some r, Some p, Some c) \<Rightarrow> bc_session_resume c \<and> r_backend_session_id r \<noteq> []
      | _ \<Rightarrow> False)"

definition recover_task :: "env \<Rightarrow> TaskRecord \<Rightarrow> unit control" where
  "recover_task X task =
     (if task_terminal task then finish_event (t_task_id task)
      else if t_status task = TQueued then schedule (t_task_id task)
      else cbind (active_run task) (\<lambda>run.
        cbind (look (\<lambda>L. resumable X L task run)) (\<lambda>can.
        if can then schedule (t_task_id task)
        else fail_task X task run ''Gateway restarted but the backend run cannot resume'')))"

definition schedule_coordination :: "string \<Rightarrow> unit control" where
  "schedule_coordination own = change (\<lambda>g. g\<lparr>gw_coordination_jobs := insert own (gw_coordination_jobs g)\<rparr>)"

definition start_gateway :: "env \<Rightarrow> CoordinatorContextPolicy \<Rightarrow> planner \<Rightarrow> unit control" where
  "start_gateway X policy plan_of =
     cbind (fetch (\<lambda>g. (gw_started g, gw_closed g))) (\<lambda>(started, closed).
     if started then ret ()
     else if closed then throw (Raised (RuntimeError ''Gateway is closed''))
     else
       seq (commit_only X (\<lambda>L clk. reset_sending_provider_commands L clk))
       (seq (commit X (\<lambda>L clk. recover_coordination_jobs L clk))
       (cbind (commit_pair X (\<lambda>L clk. expire_pending_permissions L clk)) (\<lambda>invalid.
       seq (each (invalidate_permission X) invalid)
       (seq (finish_sent_interactions X)
       (seq (recover_resolving_interactions X)
       (cbind (look (\<lambda>L. list_events L None (Some False))) (\<lambda>events.
       seq (each (replay_event X policy plan_of) events)
       (cbind (look (\<lambda>L. list_tasks L None)) (\<lambda>tasks.
       seq (each (recover_task X) tasks)
       (cbind (look (\<lambda>L. list_activity_aggregates L None None (Some AOpen))) (\<lambda>aggregates.
       seq (each (\<lambda>g. schedule_aggregate (g_aggregate_id g)) aggregates)
       (seq (change (\<lambda>g. g\<lparr>gw_started := True\<rparr>))
       (cbind (look list_coordination_jobs) (\<lambda>jobs.
       each (\<lambda>j. if j_state j = JPending then schedule_coordination (j_owner_id j) else ret ()) jobs)))))))))))))))"

end
