(* ===== verification/ControlTurns.thy ===== *)
theory ControlTurns
  imports ControlEvents
begin

text \<open>
  What the user's turn can do to the background tasks: the resolution of a spoken task name
  (lean_control.py) and the three task tools of \<open>GNSISGateway\<close> (gateway.py), \<open>task_start\<close>,
  \<open>task_send\<close> and \<open>task_resolve\<close>, each answered once per receipt; and the coordinated turn, submitted,
  planned and finished.  The Chinese words for "all" are left out, as in \<open>ControlPlan\<close>.
\<close>

section \<open>Which task a name means\<close>

record ResolveOutcome =
  ro_kind :: string
  ro_task_id :: "string option"
  ro_candidates :: "string list"
  ro_terminal :: bool

definition outcome :: "string \<Rightarrow> string option \<Rightarrow> string list \<Rightarrow> bool \<Rightarrow> ResolveOutcome" where
  "outcome kind task_id candidates terminal = \<lparr>ro_kind = kind, ro_task_id = task_id,
     ro_candidates = candidates, ro_terminal = terminal\<rparr>"

definition resolve_target ::
  "string \<Rightarrow> string option \<Rightarrow> ActiveTask list \<Rightarrow> ActiveTask list \<Rightarrow> ResolveOutcome res" where
  "resolve_target action ref0 active recent =
     (let ref = py_strip (case ref0 of None \<Rightarrow> [] | Some r \<Rightarrow> r);
          named = filter (\<lambda>t. at_name t = ref) active;
          ended = filter (\<lambda>t. at_name t = ref) recent in
      if action \<notin> {''change'', ''stop'', ''reply''}
      then Inl (ValueError ''unsupported task-reference action'')
      else Inr (
        if ref = ''all'' then (if active = [] then outcome ''no_such_task'' None [] False
          else outcome ''all'' None [] False)
        else if ref \<noteq> [] then
          (case named of
             [t] \<Rightarrow> outcome ''target'' (Some (at_task_id t)) [] False
           | _ # _ # _ \<Rightarrow> outcome ''ambiguous'' None (map at_name named) False
           | [] \<Rightarrow> (case ended of
               [t] \<Rightarrow> outcome ''target'' (Some (at_task_id t)) [] True
             | _ # _ # _ \<Rightarrow> outcome ''ambiguous'' None (map at_name ended) False
             | [] \<Rightarrow> outcome ''no_such_task'' None [] False))
        else (case active of
           [] \<Rightarrow> outcome ''no_such_task'' None [] False
         | [t] \<Rightarrow> outcome ''target'' (Some (at_task_id t)) [] False
         | _ \<Rightarrow> outcome ''ambiguous'' None (map at_name active) False)))"

section \<open>Results\<close>

definition rejected :: "string \<Rightarrow> string list \<Rightarrow> string \<Rightarrow> string \<Rightarrow> TaskControlResult control" where
  "rejected request_id task_ids status reason = ret ((control_result request_id ''rejected'')
     \<lparr>tc_task_ids := task_ids, tc_status := status, tc_reason_key := reason\<rparr>)"

definition ambiguous_tasks :: "string \<Rightarrow> string list \<Rightarrow> TaskControlResult control" where
  "ambiguous_tasks request_id candidates = lift_res (TaskControlResult_init
     ((control_result request_id ''clarify'')\<lparr>tc_status := ''ambiguous'', tc_candidates := candidates\<rparr>))"

definition accepted :: "string \<Rightarrow> string list \<Rightarrow> string \<Rightarrow> TaskControlResult control" where
  "accepted request_id task_ids reason = ret ((control_result request_id ''accepted'')
     \<lparr>tc_task_ids := task_ids, tc_reason_key := reason\<rparr>)"

definition prompts :: "PendingInteraction list \<Rightarrow> string list" where
  "prompts is = map (\<lambda>i. take 24 (i_prompt i)) is"

section \<open>Starting a task\<close>

definition default_provider :: "env \<Rightarrow> string option \<Rightarrow> string option" where
  "default_provider X requested =
     (case truthy_text requested of
        Some name \<Rightarrow> (if name \<in> fst ` set (x_providers X) then Some name
          else (case x_providers X of [(n, _)] \<Rightarrow> Some n | _ \<Rightarrow> None))
      | None \<Rightarrow> (case x_providers X of [(n, _)] \<Rightarrow> Some n | _ \<Rightarrow> None))"

definition media_modality :: "string \<Rightarrow> string" where
  "media_modality kind = (if kind = ''audio'' then ''audio'' else if kind = ''video'' then ''video'' else ''image'')"

definition supported_paths :: "TurnEnvelope \<Rightarrow> BackendCapabilities \<Rightarrow> string list" where
  "supported_paths turn capabilities = map m_path
     (filter (\<lambda>m. media_modality (m_kind m) \<in> set (bc_modalities capabilities)) (tu_media_refs turn))"

definition turn_for_provider :: "TurnEnvelope \<Rightarrow> BackendCapabilities \<Rightarrow> TurnEnvelope res" where
  "turn_for_provider turn capabilities =
     (let media = filter (\<lambda>m. media_modality (m_kind m) \<in> set (bc_modalities capabilities)) (tu_media_refs turn) in
      if media = tu_media_refs turn then Inr turn
      else TurnEnvelope_init (turn\<lparr>tu_media_refs := media\<rparr>))"

definition EPHEMERAL_VISUAL_CONTEXT_KINDS :: "string set" where
  "EPHEMERAL_VISUAL_CONTEXT_KINDS = {''screen'', ''video_frame''}"

definition pre_task_realtime_refs :: "env \<Rightarrow> TaskLedger \<Rightarrow> string \<Rightarrow> TurnEnvelope \<Rightarrow> string list" where
  "pre_task_realtime_refs X L own turn =
     (let reference = (case tu_timestamp_ms turn of Some n \<Rightarrow> if n = 0 then tu_created_at_ms turn else n
            | None \<Rightarrow> tu_created_at_ms turn);
          events = sort_key ce_seq (sort_key ce_timestamp_ms (sort_key (\<lambda>e. u (ce_event_id e))
            (filter (\<lambda>e. ce_session_id e = tu_voice_session_id turn) (list_realtime_context L (Some own)))));
          cutoff = reference - x_screen_window_ms X
      in map (\<lambda>e. ''realtime:'' @ ce_event_id e)
           (filter (\<lambda>e. ce_kind e \<notin> EPHEMERAL_VISUAL_CONTEXT_KINDS \<or> ce_timestamp_ms e \<ge> cutoff)
             (last_n (x_max_realtime_events X) events)))"

definition empty_inventory :: ContextInventory where
  "empty_inventory = \<lparr>cv_total = 0, cv_items = [], cv_media_count = 0, cv_earliest_timestamp_ms = None,
     cv_latest_timestamp_ms = None\<rparr>"

definition pre_task_context_inventory :: "TaskLedger \<Rightarrow> string \<Rightarrow> string list \<Rightarrow> ContextInventory" where
  "pre_task_context_inventory L own refs =
     (let events = List.map_filter (\<lambda>r. if take 9 r = ''realtime:''
            then get_realtime_context L (drop 9 r) (Some own) else None) refs in
      if events = [] then empty_inventory
      else \<lparr>cv_total = int (length events),
        cv_items = map (\<lambda>k. \<lparr>ci_kind = k, ci_count = int (length (filter (\<lambda>e. ce_kind e = k) events))\<rparr>)
          (sort_key u (from_keys (map ce_kind events))),
        cv_media_count = int (sum_list (map (\<lambda>e. length (ce_media e)) events)),
        cv_earliest_timestamp_ms = Some (Min (set (map ce_timestamp_ms events))),
        cv_latest_timestamp_ms = Some (Max (set (map ce_timestamp_ms events)))\<rparr>)"

definition pre_task_context_brief :: "ContextInventory \<Rightarrow> string" where
  "pre_task_context_brief v =
     (if cv_total v = 0 then []
      else ''pre_task_realtime_context:total='' @ int_str (cv_total v) @ '';'' @
        join_with '','' (map (\<lambda>i. ci_kind i @ ''='' @ int_str (ci_count i)) (cv_items v)) @ '';media='' @
        int_str (cv_media_count v) @ '';time='' @
        (case cv_earliest_timestamp_ms v of None \<Rightarrow> ''None'' | Some n \<Rightarrow> int_str n) @ ''..'' @
        (case cv_latest_timestamp_ms v of None \<Rightarrow> ''None'' | Some n \<Rightarrow> int_str n))"

definition start_task ::
  "env \<Rightarrow> string \<Rightarrow> TurnEnvelope \<Rightarrow> string option \<Rightarrow> string \<Rightarrow> string set \<Rightarrow> string \<Rightarrow> string option \<Rightarrow>
   string option \<Rightarrow> TaskControlResult control" where
  "start_task X own turn provider_name request_id existing proposed project_id continuation =
     (case default_provider X provider_name of
        None \<Rightarrow> rejected request_id [] ''no_such_task'' ''no_eligible_worker''
      | Some name_of_provider \<Rightarrow>
          cbind (assign_name proposed existing) (\<lambda>name.
          cbind (provider X name_of_provider) (\<lambda>capabilities.
          cbind (look (\<lambda>L. pre_task_realtime_refs X L own turn)) (\<lambda>refs.
          cbind (look (\<lambda>L. pre_task_context_inventory L own refs)) (\<lambda>v0.
          cbind (lift_res (ContextInventory_init v0)) (\<lambda>v.
          cbind (lift_res (ContextPlan_init \<lparr>cp_event_refs = refs,
             cp_media_refs = (if bc_context_provisioning capabilities = ''push_bounded''
               then from_keys (supported_paths turn capabilities) else []),
             cp_artifact_refs = [], cp_must_include_refs = [], cp_brief = pre_task_context_brief v,
             cp_inventory = v\<rparr>)) (\<lambda>plan.
          cbind (lift_res (CreateTaskCommand_init \<lparr>ct_title = name, ct_objective = tu_final_asr turn,
             ct_instruction = tu_final_asr turn, ct_provider_name = name_of_provider,
             ct_reasoning_profile = ''balanced'', ct_contract_body = ContractBody_default,
             ct_context_plan = plan, ct_project_id = project_id, ct_project_label = ''default''\<rparr>)) (\<lambda>command.
          cbind (create_task_from X command own (tu_turn_id turn) (Some turn)
             (stable_id X ''task'' [request_id]) name continuation) (\<lambda>task.
          seq (schedule (t_task_id task))
          (ret ((control_result request_id ''accepted'')
            \<lparr>tc_task_ids := [t_task_id task], tc_speech := name\<rparr>)))))))))))"

section \<open>Replies\<close>

definition waiting_on :: "TaskLedger \<Rightarrow> string \<Rightarrow> string \<Rightarrow> PendingInteraction list" where
  "waiting_on L own task_id = filter (\<lambda>i. i_state i = IPending \<and> i_task_id i = Some task_id)
     (list_interactions L (Some own))"

text \<open>
  \<open>_control_reply\<close> as it is called, without a decision; a permission is refused by its callers, and
  the ledger rejects an answer to it that does not decide.
\<close>

definition control_reply :: "env \<Rightarrow> string \<Rightarrow> string \<Rightarrow> TurnEnvelope \<Rightarrow> string \<Rightarrow> TaskControlResult control" where
  "control_reply X own task_id turn request_id =
     cbind (look (\<lambda>L. waiting_on L own task_id)) (\<lambda>waiting. case waiting of
       [] \<Rightarrow> rejected request_id [] ''no_such_task'' ''no_pending_interaction''
     | i # others \<Rightarrow>
         (if others \<noteq> [] then ambiguous_tasks request_id (prompts waiting)
          else
            cbind (owned_task task_id (Some own)) (\<lambda>task.
            cbind (link_context_turn X task turn) (\<lambda>_.
            cbind (lift_res (ResolveInteractionCommand_init \<lparr>ri_interaction_id = i_interaction_id i,
              ri_response = tu_final_asr turn, ri_decision = None\<rparr>)) (\<lambda>command.
            cbind (resolve_interaction X command (Some (stable_id X ''message'' [request_id]))) (\<lambda>resolved.
            ret (if resolved then (control_result request_id ''accepted'')
                   \<lparr>tc_task_ids := [task_id], tc_interaction_id := Some (i_interaction_id i)\<rparr>
                 else (control_result request_id ''rejected'')
                   \<lparr>tc_task_ids := [task_id], tc_interaction_id := Some (i_interaction_id i),
                    tc_status := ''invalid_action'', tc_reason_key := ''interaction_resolution_failed''\<rparr>)))))))"

section \<open>Side queries of a finished task\<close>

text \<open>\<open>max\<close> by \<open>(generation, ended_at_ms or started_at_ms or 0, run_id)\<close>, the first of equal keys.\<close>

definition run_moment :: "RunRecord \<Rightarrow> int" where
  "run_moment r = (case (r_ended_at_ms r, r_started_at_ms r) of
      (Some e, s) \<Rightarrow> if e \<noteq> 0 then e else (case s of None \<Rightarrow> 0 | Some n \<Rightarrow> n)
    | (None, Some n) \<Rightarrow> n | (None, None) \<Rightarrow> 0)"

definition run_before :: "RunRecord \<Rightarrow> RunRecord \<Rightarrow> bool" where
  "run_before a b \<longleftrightarrow> r_generation a < r_generation b \<or> r_generation a = r_generation b \<and>
     (run_moment a < run_moment b \<or> run_moment a = run_moment b \<and> u (r_run_id a) < u (r_run_id b))"

definition latest_run :: "TaskLedger \<Rightarrow> TaskRecord \<Rightarrow> RunRecord option" where
  "latest_run L task =
     (case filter (\<lambda>r. r_task_id r = t_task_id task) (list_runs L (Some (t_owner_id task))) of
        [] \<Rightarrow> None
      | r # rs \<Rightarrow> Some (foldl (\<lambda>best x. if run_before best x then x else best) r rs))"

definition side_query_plan :: "TaskRecord \<Rightarrow> TurnEnvelope \<Rightarrow> BackendCapabilities \<Rightarrow> ContextPlan control" where
  "side_query_plan parent turn capabilities =
     cbind (context_plan_with_turn (t_context_plan parent) (Some turn)) (\<lambda>plan.
     if bc_context_provisioning capabilities \<noteq> ''push_bounded'' then ret plan
     else lift_res (ContextPlan_init (plan\<lparr>cp_media_refs :=
       from_keys (cp_media_refs plan @ supported_paths turn capabilities)\<rparr>)))"

definition create_terminal_side_query ::
  "env \<Rightarrow> TaskRecord \<Rightarrow> RunRecord \<Rightarrow> TurnEnvelope \<Rightarrow> string \<Rightarrow> BackendCapabilities \<Rightarrow> TaskRecord control" where
  "create_terminal_side_query X parent run turn request_id capabilities =
     (let task_id = stable_id X ''side_query'' [request_id, t_task_id parent] in
      cbind (look (\<lambda>L. get_task L task_id)) (\<lambda>found. case found of
        Some existing \<Rightarrow>
          (if t_kind existing \<noteq> ''side_query'' \<or> t_parent_task_id existing \<noteq> t_task_id parent \<or>
              t_parent_run_id existing \<noteq> r_run_id run \<or> t_instruction existing \<noteq> tu_final_asr turn
           then throw (Raised (RuntimeError ''idempotent side-query identity collision''))
           else ret existing)
      | None \<Rightarrow>
          cbind (look (\<lambda>L. get_project L (t_project_id parent))) (\<lambda>known.
          cbind (need (Raised (RuntimeError ''parent task project is unavailable'')) known) (\<lambda>project.
          cbind (side_query_plan parent turn capabilities) (\<lambda>plan.
          cbind (now X) (\<lambda>created_at. cbind (now X) (\<lambda>updated.
          cbind (lift_res (TaskRecord_init \<lparr>t_task_id = task_id, t_owner_id = t_owner_id parent,
             t_source_turn_id = tu_turn_id turn, t_project_id = t_project_id parent,
             t_title = t_title parent, t_objective = tu_final_asr turn,
             t_instruction = tu_final_asr turn, t_provider_name = t_provider_name parent,
             t_context_plan = plan, t_reasoning_profile = t_reasoning_profile parent,
             t_source_voice_session_id = tu_voice_session_id turn, t_status = TQueued,
             t_generation = 1, t_contract_revision = 1, t_active_run_id = None,
             t_cancel_request_id = None, t_blocked_actions = [], t_blocked_branches = [],
             t_run_blocked = False, t_assumptions = [], t_result = [], t_error = [],
             t_created_at_ms = created_at, t_updated_at_ms = updated, t_name = t_name parent,
             t_lineage_id = t_lineage_id parent, t_kind = ''side_query'',
             t_parent_task_id = t_task_id parent, t_parent_run_id = r_run_id run\<rparr>)) (\<lambda>child.
          cbind (required_contract parent) (\<lambda>contract.
          cbind (now X) (\<lambda>n.
          cbind (lift_res (SupervisionContractRevision_init \<lparr>sc_task_id = task_id, sc_revision = 1,
             sc_body = sc_body contract, sc_source_turn_ids = [tu_turn_id turn],
             sc_created_at_ms = n\<rparr>)) (\<lambda>first.
          cbind (commit X (\<lambda>L clk. create_task L clk project child first)) (\<lambda>_. ret child))))))))))))"

section \<open>\<open>task_send\<close>\<close>

definition SIDE_QUERY_MODES :: "string set" where
  "SIDE_QUERY_MODES = {''native_fork'', ''independent_session'', ''native'', ''isolated_fork''}"

definition side_questions :: "TaskLedger \<Rightarrow> string \<Rightarrow> TaskRecord \<Rightarrow> PendingInteraction list" where
  "side_questions L own task = filter (\<lambda>i. i_state i = IPending \<and>
     (case truthy_text (i_task_id i) of None \<Rightarrow> False
      | Some k \<Rightarrow> (case get_task L k of None \<Rightarrow> False
          | Some child \<Rightarrow> t_kind child = ''side_query'' \<and> t_parent_task_id child = t_task_id task \<and>
              \<not> task_terminal child))) (list_interactions L (Some own))"

definition send_to_finished ::
  "env \<Rightarrow> string \<Rightarrow> string \<Rightarrow> TurnEnvelope \<Rightarrow> string \<Rightarrow> TaskRecord \<Rightarrow> string set \<Rightarrow> TaskControlResult control" where
  "send_to_finished X lane own turn request_id task names =
     cbind (look (\<lambda>L. side_questions L own task)) (\<lambda>asked.
     if lane = ''main'' \<and> asked \<noteq> [] then
       (if \<exists>i \<in> set asked. i_kind i = ''permission''
        then rejected request_id [t_task_id task] ''invalid_action'' ''side_query_read_only''
        else if length asked > 1 then ambiguous_tasks request_id (prompts asked)
        else cbind (control_reply X own (case i_task_id (hd asked) of None \<Rightarrow> [] | Some k \<Rightarrow> k) turn request_id)
          (\<lambda>answer. ret (answer\<lparr>tc_task_ids := [t_task_id task]\<rparr>)))
     else if lane = ''fork'' then
       cbind (provider X (t_provider_name task)) (\<lambda>capabilities.
       if bc_terminal_side_queries capabilities \<notin> SIDE_QUERY_MODES
       then rejected request_id [t_task_id task] ''unsupported'' ''terminal_side_queries_unsupported''
       else cbind (look (\<lambda>L. latest_run L task)) (\<lambda>found. case found of
           None \<Rightarrow> rejected request_id [t_task_id task] ''unsupported'' ''terminal_context_unavailable''
         | Some run \<Rightarrow>
             cbind (create_terminal_side_query X task run turn request_id capabilities) (\<lambda>child.
             seq (schedule (t_task_id child))
             (accepted request_id [t_task_id task]
               (if bc_terminal_side_queries capabilities \<in> {''native_fork'', ''native''}
                then ''native_terminal_fork'' else ''independent_terminal_session'')))))
     else start_task X own turn (Some (t_provider_name task)) request_id names
       (if t_name task = [] then t_title task else t_name task) (Some (t_project_id task))
       (Some (t_task_id task)))"

definition send_to_main ::
  "env \<Rightarrow> string \<Rightarrow> TurnEnvelope \<Rightarrow> string \<Rightarrow> TaskRecord \<Rightarrow> TaskControlResult control" where
  "send_to_main X own turn request_id task =
     cbind (look (\<lambda>L. waiting_on L own (t_task_id task))) (\<lambda>waiting.
     if \<exists>i \<in> set waiting. i_kind i = ''permission''
     then rejected request_id [t_task_id task] ''invalid_action'' ''permission_requires_task_resolve''
     else if waiting \<noteq> [] then control_reply X own (t_task_id task) turn request_id
     else
       cbind (provider X (t_provider_name task)) (\<lambda>capabilities.
       if t_status task \<noteq> TQueued \<and> bc_steering capabilities = ''none''
       then rejected request_id [t_task_id task] ''unsupported'' ''steering_unsupported''
       else
         cbind (lift_res (SendTaskCommand_init \<lparr>sd_task_id = t_task_id task, sd_instruction = tu_final_asr turn,
           sd_mode = ''update'', sd_context_plan = None, sd_preempt = (bc_steering capabilities = ''native'')\<rparr>))
         (\<lambda>command.
         cbind (lift_res (turn_for_provider turn capabilities)) (\<lambda>shown.
         seq (send_task X command (Some shown) (stable_id X ''op'' [request_id]))
         (accepted request_id [t_task_id task]
           (if bc_steering capabilities = ''next_turn'' then ''deferred_to_next_turn'' else []))))))"

definition send_to_fork ::
  "env \<Rightarrow> TurnEnvelope \<Rightarrow> string \<Rightarrow> TaskRecord \<Rightarrow> TaskControlResult control" where
  "send_to_fork X turn request_id task =
     cbind (provider X (t_provider_name task)) (\<lambda>capabilities.
     if bc_side_queries capabilities \<notin> SIDE_QUERY_MODES
     then rejected request_id [t_task_id task] ''unsupported'' ''side_queries_unsupported''
     else if t_status task = TQueued \<or> t_active_run_id task = None
     then rejected request_id [t_task_id task] ''unsupported'' ''task_not_running''
     else
       cbind (lift_res (SendTaskCommand_init \<lparr>sd_task_id = t_task_id task, sd_instruction = tu_final_asr turn,
         sd_mode = ''query'', sd_context_plan = None, sd_preempt = False\<rparr>)) (\<lambda>command.
       cbind (lift_res (turn_for_provider turn capabilities)) (\<lambda>shown.
       seq (send_task X command (Some shown) (stable_id X ''op'' [request_id]))
       (accepted request_id [t_task_id task]
         (if bc_side_queries capabilities \<in> {''native_fork'', ''native''}
          then ''native_fork'' else ''independent_session'')))))"

definition apply_task_send ::
  "env \<Rightarrow> string \<Rightarrow> string \<Rightarrow> TurnEnvelope \<Rightarrow> string option \<Rightarrow> string \<Rightarrow> TaskControlResult control" where
  "apply_task_send X lane own turn ref request_id =
     cbind (control_task_views X own) (\<lambda>(active, recent).
     cbind (lift_res (resolve_target ''change'' ref active recent)) (\<lambda>found.
     if ro_kind found = ''no_such_task'' then rejected request_id [] ''no_such_task'' ''no_such_task''
     else if ro_kind found = ''ambiguous'' then ambiguous_tasks request_id (ro_candidates found)
     else if ro_kind found = ''all'' then rejected request_id [] ''invalid_action'' ''task_send_all_unsupported''
     else
       cbind (owned_task (case ro_task_id found of None \<Rightarrow> [] | Some k \<Rightarrow> k) (Some own)) (\<lambda>task.
       if ro_terminal found
       then send_to_finished X lane own turn request_id task (at_name ` (set active \<union> set recent))
       else if lane = ''main'' then send_to_main X own turn request_id task
       else send_to_fork X turn request_id task)))"

section \<open>\<open>task_resolve\<close>\<close>

definition permissions_on :: "TaskLedger \<Rightarrow> string \<Rightarrow> string \<Rightarrow> PendingInteraction list" where
  "permissions_on L own task_id = filter (\<lambda>i. i_kind i = ''permission'') (waiting_on L own task_id)"

definition grant_standing :: "string \<Rightarrow> unit control" where
  "grant_standing own = change (\<lambda>g. g\<lparr>gw_standing := insert own (gw_standing g)\<rparr>)"

definition revoke_standing :: "string \<Rightarrow> unit control" where
  "revoke_standing own = change (\<lambda>g. g\<lparr>gw_standing := gw_standing g - {own}\<rparr>)"

definition decide_permission ::
  "env \<Rightarrow> string \<Rightarrow> string \<Rightarrow> TurnEnvelope \<Rightarrow> string \<Rightarrow> string \<Rightarrow> PendingInteraction \<Rightarrow> TaskControlResult control" where
  "decide_permission X action own turn request_id task_id i =
     cbind (owned_task task_id (Some own)) (\<lambda>task.
     cbind (link_context_turn X task turn) (\<lambda>_.
     cbind (lift_res (ResolveInteractionCommand_init \<lparr>ri_interaction_id = i_interaction_id i,
       ri_response = tu_final_asr turn, ri_decision = Some action\<rparr>)) (\<lambda>command.
     cbind (resolve_interaction X command (Some (stable_id X ''message'' [request_id]))) (\<lambda>resolved.
     if \<not> resolved
     then rejected request_id [task_id] ''invalid_action'' ''interaction_resolution_failed''
     else seq (if action = ''allow_session'' then grant_standing own
               else if action = ''deny'' then revoke_standing own else ret ())
       (ret ((control_result request_id ''accepted'')
         \<lparr>tc_task_ids := [task_id], tc_interaction_id := Some (i_interaction_id i)\<rparr>))))))"

definition resolve_cancel ::
  "env \<Rightarrow> string \<Rightarrow> ActiveTask list \<Rightarrow> ResolveOutcome \<Rightarrow> TaskControlResult control" where
  "resolve_cancel X request_id active found =
     (if ro_kind found = ''all''
      then seq (each (cancel_task X) (map at_task_id active))
        (accepted request_id (map at_task_id active) [])
      else let task_id = (case ro_task_id found of None \<Rightarrow> [] | Some k \<Rightarrow> k) in
        if ro_terminal found
        then ret ((control_result request_id ''answered'')\<lparr>tc_task_ids := [task_id]\<rparr>)
        else seq (cancel_task X task_id) (accepted request_id [task_id] []))"

definition resolve_permission ::
  "env \<Rightarrow> string \<Rightarrow> string \<Rightarrow> TurnEnvelope \<Rightarrow> string \<Rightarrow> ResolveOutcome \<Rightarrow> TaskControlResult control" where
  "resolve_permission X action own turn request_id found =
     (if ro_kind found = ''all'' \<or> ro_terminal found
      then rejected request_id [] ''invalid_action'' ''permission_not_pending''
      else let task_id = (case ro_task_id found of None \<Rightarrow> [] | Some k \<Rightarrow> k) in
        cbind (look (\<lambda>L. permissions_on L own task_id)) (\<lambda>asked. case asked of
          [] \<Rightarrow>
            cbind (fetch (\<lambda>g. own \<in> gw_standing g)) (\<lambda>standing.
            if action = ''deny'' \<and> standing
            then seq (revoke_standing own) (accepted request_id [task_id] ''standing_grant_revoked'')
            else rejected request_id [task_id] ''invalid_action'' ''permission_not_pending'')
        | i # others \<Rightarrow>
            (if others \<noteq> [] then ambiguous_tasks request_id (prompts asked)
             else decide_permission X action own turn request_id task_id i)))"

definition apply_task_resolution ::
  "env \<Rightarrow> string \<Rightarrow> string \<Rightarrow> TurnEnvelope \<Rightarrow> string option \<Rightarrow> string \<Rightarrow> TaskControlResult control" where
  "apply_task_resolution X action own turn ref request_id =
     cbind (control_task_views X own) (\<lambda>(active, recent).
     cbind (lift_res (resolve_target (if action = ''cancel'' then ''stop'' else ''reply'') ref active recent))
       (\<lambda>found.
     if ro_kind found = ''no_such_task'' then rejected request_id [] ''no_such_task'' ''no_such_task''
     else if ro_kind found = ''ambiguous'' then ambiguous_tasks request_id (ro_candidates found)
     else if action = ''cancel'' then resolve_cancel X request_id active found
     else resolve_permission X action own turn request_id found))"

section \<open>The task tools\<close>

definition bound_turn :: "string \<Rightarrow> TurnEnvelope \<Rightarrow> unit control" where
  "bound_turn own turn = (if tu_owner_id turn \<noteq> own
     then throw (Raised (ValueError ''bound turn owner does not match the runtime owner'')) else ret ())"

definition prune_control_tasks :: "env \<Rightarrow> string \<Rightarrow> unit control" where
  "prune_control_tasks X own =
     cbind (commit_pair X (\<lambda>L clk. prune_terminal_tasks L clk own (x_terminal_task_ttl_ms X)
       (x_max_terminal_tasks X))) (\<lambda>_. ret ())"

text \<open>The part under the owner's lock, the same for the three tools: one result per receipt.\<close>

definition once_per_receipt ::
  "env \<Rightarrow> string \<Rightarrow> TurnEnvelope \<Rightarrow> string \<Rightarrow> TaskControlResult control \<Rightarrow> TaskControlResult control" where
  "once_per_receipt X own turn request_id work =
     seq (prune_control_tasks X own)
     (cbind (look (\<lambda>L. get_receipt L request_id)) (\<lambda>existing. case existing of
        Some result \<Rightarrow> ret result
      | None \<Rightarrow>
          cbind (commit X (\<lambda>L clk. put_turn L clk turn)) (\<lambda>_.
          cbind work (\<lambda>result.
          commit X (\<lambda>L clk. save_receipt L clk request_id own result)))))"

definition normalized_name :: "string \<Rightarrow> string control" where
  "normalized_name name = cbind (lift_res (normalize_frontbrain_task_name (JStr (u name))))
     (\<lambda>s. ret (map char_of s))"

definition task_start ::
  "env \<Rightarrow> CoordinatorContextPolicy \<Rightarrow> planner \<Rightarrow> string \<Rightarrow> TurnEnvelope \<Rightarrow> string \<Rightarrow> string option \<Rightarrow>
   TaskControlResult control" where
  "task_start X policy plan_of own turn name provider_name =
     seq (bound_turn own turn)
     (cbind (normalized_name name) (\<lambda>normalized.
     seq (start_gateway X policy plan_of)
     (let request_id = stable_id X ''task_start'' [receipt_key turn, normalized] in
      once_per_receipt X own turn request_id
        (cbind (control_task_views X own) (\<lambda>(active, recent).
         start_task X own turn provider_name request_id (at_name ` (set active \<union> set recent)) normalized
           None None)))))"

definition task_send ::
  "env \<Rightarrow> CoordinatorContextPolicy \<Rightarrow> planner \<Rightarrow> string \<Rightarrow> string \<Rightarrow> TurnEnvelope \<Rightarrow> string option \<Rightarrow>
   TaskControlResult control" where
  "task_send X policy plan_of lane own turn ref =
     (if lane \<notin> {''main'', ''fork''} then throw (Raised (ValueError ''task lane must be one of''))
      else seq (bound_turn own turn)
        (seq (start_gateway X policy plan_of)
        (let request_id = stable_id X ''task_send'' [receipt_key turn, (case ref of None \<Rightarrow> [] | Some r \<Rightarrow> r), lane] in
         once_per_receipt X own turn request_id (apply_task_send X lane own turn ref request_id))))"

definition task_resolve ::
  "env \<Rightarrow> CoordinatorContextPolicy \<Rightarrow> planner \<Rightarrow> string \<Rightarrow> string \<Rightarrow> TurnEnvelope \<Rightarrow> string option \<Rightarrow>
   TaskControlResult control" where
  "task_resolve X policy plan_of action own turn ref =
     (if action \<notin> {''cancel'', ''allow_once'', ''allow_session'', ''deny''}
      then throw (Raised (ValueError ''task action must be one of''))
      else seq (bound_turn own turn)
        (seq (start_gateway X policy plan_of)
        (let request_id = stable_id X ''task_resolve''
           [receipt_key turn, (case ref of None \<Rightarrow> [] | Some r \<Rightarrow> r), action] in
         once_per_receipt X own turn request_id (apply_task_resolution X action own turn ref request_id))))"

definition available_task_resolve_actions :: "env \<Rightarrow> string \<Rightarrow> string list control" where
  "available_task_resolve_actions X own =
     cbind (control_task_views X own) (\<lambda>(active, recent).
     cbind (look (\<lambda>L. \<exists>i \<in> set (list_interactions L (Some own)). i_state i = IPending \<and>
       i_kind i = ''permission'' \<and> (case i_task_id i of None \<Rightarrow> False | Some k \<Rightarrow> k \<in> at_task_id ` set active)))
       (\<lambda>has_permission.
     cbind (fetch (\<lambda>g. own \<in> gw_standing g)) (\<lambda>standing.
     ret ((if active \<noteq> [] then [''cancel''] else []) @
       (if has_permission then [''allow_once'', ''allow_session'', ''deny'']
        else if standing \<and> active \<noteq> [] then [''deny''] else [])))))"

section \<open>The coordinated turn\<close>

definition coordinate_turn ::
  "env \<Rightarrow> CoordinatorContextPolicy \<Rightarrow> planner \<Rightarrow> TurnEnvelope \<Rightarrow> TaskControlResult control" where
  "coordinate_turn X policy plan_of turn =
     (if x_lean X then throw (Raised (RuntimeError ''coordinate_turn() requires the LLM coordinator''))
      else seq (start_gateway X policy plan_of)
        (cbind (expire_interactions X None) (\<lambda>_.
        cbind (commit X (\<lambda>L clk. submit_coordination L clk turn
          (stable_id X ''coordination'' [receipt_key turn]))) (\<lambda>(receipt, job, fresh).
        if \<not> fresh then ret receipt
        else seq (case job of None \<Rightarrow> ret () | Some j \<Rightarrow> schedule_coordination (j_owner_id j)) (ret receipt)))))"

text \<open>\<open>{media.path: media ...}.values()\<close>: the last medium of each path, in the order of the paths.\<close>

definition media_by_path :: "MediaRef list \<Rightarrow> MediaRef list" where
  "media_by_path ms = List.map_filter (\<lambda>p. find (\<lambda>m. m_path m = p) (rev ms)) (from_keys (map m_path ms))"

definition coordination_turn :: "TaskLedger \<Rightarrow> CoordinationJob \<Rightarrow> TurnEnvelope res option" where
  "coordination_turn L job =
     (let turns = map (get_turn_by_receipt L) (j_turn_receipt_keys job) in
      if turns = [] \<or> (\<exists>t \<in> set turns. case t of None \<Rightarrow> True | Some x \<Rightarrow> tu_owner_id x \<noteq> j_owner_id job)
      then None
      else let ts = map the turns; latest = last ts in
        Some (TurnEnvelope_init (latest\<lparr>
          tu_final_asr := join_with [CHR 0x0A] (filter (\<lambda>s. s \<noteq> []) (map (\<lambda>t. py_strip (tu_final_asr t)) ts)),
          tu_media_refs := media_by_path (concat (map tu_media_refs ts)),
          tu_context_revision := Max (set (map tu_context_revision ts))\<rparr>)))"

definition coordination_is_current :: "TaskLedger \<Rightarrow> CoordinationJob \<Rightarrow> bool" where
  "coordination_is_current L job =
     (case get_coordination_job L (j_owner_id job) of
        None \<Rightarrow> False
      | Some current \<Rightarrow> j_request_id current = j_request_id job \<and> j_version current = j_version job \<and>
          j_state current = JCoordinating)"

definition deliver_coordination_result :: "env \<Rightarrow> CoordinationJob \<Rightarrow> TaskControlResult \<Rightarrow> unit control" where
  "deliver_coordination_result X job result =
     (if tc_disposition result \<notin> {''answered'', ''rejected''} then ret ()
      else enqueue_delivery X (j_owner_id job) (case tc_task_ids result of [] \<Rightarrow> None | k # _ \<Rightarrow> Some k) None
        (tc_interaction_id result) ''safe_pause'' ''final''
        (if py_strip (tc_speech result) \<noteq> [] then py_strip (tc_speech result)
         else if tc_disposition result = ''rejected'' then ''The request could not be prepared.''
         else ''The requested information is ready.'')
        (''coordination:'' @ j_request_id job) [])"

definition finish_coordination :: "env \<Rightarrow> CoordinationJob \<Rightarrow> TaskControlResult \<Rightarrow> string \<Rightarrow> unit control" where
  "finish_coordination X job result error =
     cbind (commit X (\<lambda>L clk. finish_coordination_job L clk job result error)) (\<lambda>finished. case finished of
       None \<Rightarrow> ret ()
     | Some j \<Rightarrow> deliver_coordination_result X j result)"

definition finish_coordination_failure :: "env \<Rightarrow> CoordinationJob \<Rightarrow> string \<Rightarrow> unit control" where
  "finish_coordination_failure X job error = finish_coordination X job
     ((control_result (j_request_id job) ''rejected'')\<lparr>tc_reason_key := ''coordinator.unavailable''\<rparr>) error"

text \<open>
  One round of \<open>_run_coordination\<close> in two parts, since the model is asked between them and other
  methods run meanwhile: claiming the job and building its context, and what is done with the plan.
\<close>

definition begin_coordination ::
  "env \<Rightarrow> CoordinatorContextPolicy \<Rightarrow> string \<Rightarrow>
   (CoordinationJob \<times> TurnEnvelope \<times> CoordinatorContext) option control" where
  "begin_coordination X policy own =
     cbind (fetch gw_closed) (\<lambda>closed.
     if closed then ret None
     else cbind (commit X (\<lambda>L clk. claim_coordination_job L clk own)) (\<lambda>claimed. case claimed of
         None \<Rightarrow> ret None
       | Some job \<Rightarrow>
           cbind (look (\<lambda>L. coordination_turn L job)) (\<lambda>found. case found of
             None \<Rightarrow> seq (finish_coordination_failure X job ''persisted coordination turn is unavailable'') (ret None)
           | Some built \<Rightarrow>
               cbind (lift_res built) (\<lambda>turn.
               cbind (look (\<lambda>L. coordination_is_current L job)) (\<lambda>current.
               if \<not> current then ret None
               else cbind (look (\<lambda>L. coordinator_context X policy L (j_request_id job) ''turn''
                   (j_owner_id job) (Some turn) None)) (\<lambda>context. ret (Some (job, turn, context))))))))"

definition rejected_plan :: "CoordinationJob \<Rightarrow> CoordinatorPlan \<Rightarrow> string \<Rightarrow> TaskControlResult" where
  "rejected_plan job plan reason = (control_result (j_request_id job) ''rejected'')
     \<lparr>tc_speech := pl_speech plan, tc_reason_key := reason\<rparr>"

definition use_plan ::
  "env \<Rightarrow> CoordinationJob \<Rightarrow> TurnEnvelope \<Rightarrow> CoordinatorPlan \<Rightarrow> unit control" where
  "use_plan X job turn plan =
     cbind (look (\<lambda>L. coordination_is_current L job)) (\<lambda>current.
     if \<not> current then ret ()
     else cbind (rescue (apply_plan X plan (j_owner_id job) (j_request_id job) (j_turn_id job) (Some turn))
         (\<lambda>e. case e of CoordinatorPlanError m reason \<Rightarrow> ret (rejected_plan job plan reason) | _ \<Rightarrow> throw e))
       (\<lambda>result. finish_coordination X job result []))"

text \<open>\<open>x_error_text\<close> is \<open>str(exc)\<close>; the text of a timeout is empty.\<close>

definition end_coordination ::
  "env \<Rightarrow> CoordinationJob \<Rightarrow> TurnEnvelope \<Rightarrow> string + CoordinatorPlan \<Rightarrow> unit control" where
  "end_coordination X job turn answer =
     (case answer of
        Inl error \<Rightarrow> finish_coordination_failure X job error
      | Inr plan \<Rightarrow> rescue (use_plan X job turn plan)
          (\<lambda>e. finish_coordination_failure X job (x_error_text X e)))"

end
