(* ===== verification/ControlSteps.thy ===== *)
theory ControlSteps
  imports ControlTurns
begin

text \<open>
  Every method of the gateway model is a sequence of ledger steps, whatever its outcome, so what any
  run of the ledger preserves is preserved by the gateway; and since each step is a transaction of its
  own, it is preserved however the methods of different tasks interleave.
\<close>

section \<open>The calls of the ledger\<close>

lemma stepwise_save_task:
  assumes "TaskRecord_init task = Inr task"
  shows "stepwise X G (commit X (\<lambda>L clk. save_task L clk task))"
proof (rule stepwise_by)
  fix L clk x L' assume "save_task L clk task = Inr (x, L')"
  then have "task_step L L'" using assms by (rule task_step.save_task)
  then show "turn_step L L' \<or> job_step L L' \<or> task_step L L' \<or> event_step L L' \<or> interaction_step L L' \<or>
    delivery_step L L' \<or> command_step L L'" by blast
qed

lemma stepwise_save_run:
  assumes "RunRecord_init run = Inr run"
  shows "stepwise X G (commit X (\<lambda>L clk. save_run L clk run own))"
proof (rule stepwise_by)
  fix L clk x L' assume "save_run L clk run own = Inr (x, L')"
  then have "event_step L L'" using assms by (rule event_step.save_run)
  then show "turn_step L L' \<or> job_step L L' \<or> task_step L L' \<or> event_step L L' \<or> interaction_step L L' \<or>
    delivery_step L L' \<or> command_step L L'" by blast
qed

text \<open>A checked record is one its constructor accepts.\<close>

lemma stepwise_checked_task [steps_intros]:
  assumes "\<And>task. TaskRecord_init task = Inr task \<Longrightarrow> stepwise X G (f task)"
  shows "stepwise X G (cbind (lift_res (TaskRecord_init task0)) f)"
proof (cases "TaskRecord_init task0")
  case (Inl e)
  then show ?thesis by (simp add: lift_res_def stepwise_throw)
next
  case (Inr task)
  then show ?thesis using assms TaskRecord_init_idem by (simp add: lift_res_def)
qed

lemma RunRecord_init_idem: "RunRecord_init r0 = Inr r \<Longrightarrow> r = r0 \<and> RunRecord_init r = Inr r"
  by (auto simp: RunRecord_init_def)

lemma stepwise_checked_run [steps_intros]:
  assumes "\<And>run. RunRecord_init run = Inr run \<Longrightarrow> stepwise X G (f run)"
  shows "stepwise X G (cbind (lift_res (RunRecord_init run0)) f)"
proof (cases "RunRecord_init run0")
  case (Inl e)
  then show ?thesis by (simp add: lift_res_def stepwise_throw)
next
  case (Inr run)
  then show ?thesis using assms RunRecord_init_idem by (simp add: lift_res_def)
qed

lemma stepwise_create_task:
  assumes "TaskRecord_init task = Inr task"
  shows "stepwise X G (commit X (\<lambda>L clk. create_task L clk project task contract))"
proof (rule stepwise_by)
  fix L clk x L' assume "create_task L clk project task contract = Inr (x, L')"
  then have "task_step L L'" using assms by (rule task_step.create_task)
  then show "turn_step L L' \<or> job_step L L' \<or> task_step L L' \<or> event_step L L' \<or> interaction_step L L' \<or>
    delivery_step L L' \<or> command_step L L'" by blast
qed

lemma stepwise_save_once:
  assumes "TaskRecord_init task = Inr task"
  shows "stepwise X G (commit X (\<lambda>L clk. save_task_once L clk op task))"
proof (rule stepwise_by)
  fix L clk x L' assume "save_task_once L clk op task = Inr (x, L')"
  then have "task_step L L'" using assms by (rule task_step.save_task_once)
  then show "turn_step L L' \<or> job_step L L' \<or> task_step L L' \<or> event_step L L' \<or> interaction_step L L' \<or>
    delivery_step L L' \<or> command_step L L'" by blast
qed

lemma stepwise_turn_calls [steps_intros]:
  "stepwise X G (commit X (\<lambda>L clk. put_turn L clk turn))"
  "stepwise X G (commit X (\<lambda>L clk. save_receipt L clk k own r))"
  by (rule stepwise_by; blast intro: turn_step.intros)+

lemma stepwise_job_calls [steps_intros]:
  "stepwise X G (commit X (\<lambda>L clk. submit_coordination L clk turn rid))"
  "stepwise X G (commit X (\<lambda>L clk. claim_coordination_job L clk own))"
  "stepwise X G (commit X (\<lambda>L clk. finish_coordination_job L clk job res err))"
  "stepwise X G (commit X (\<lambda>L clk. recover_coordination_jobs L clk))"
  by (rule stepwise_by; blast intro: job_step.intros)+

lemma stepwise_prune [steps_intros]:
  "stepwise X G (commit_pair X (\<lambda>L clk. prune_terminal_tasks L clk own ttl mx))"
  unfolding commit_pair_def
proof (rule stepwise_by)
  fix L clk x L' assume "Inr (prune_terminal_tasks L clk own ttl mx) = Inr (x, L')"
  then have "task_step L L'" by (intro task_step.prune) simp
  then show "turn_step L L' \<or> job_step L L' \<or> task_step L L' \<or> event_step L L' \<or> interaction_step L L' \<or>
    delivery_step L L' \<or> command_step L L'" by blast
qed

lemma stepwise_revise [steps_intros]:
  "stepwise X G (commit X (\<lambda>L clk. revise_contract L clk k body src))"
  by (rule stepwise_by) (blast intro: task_step.revise_contract)

lemma stepwise_event_calls [steps_intros]:
  "stepwise X G (commit X (\<lambda>L clk. append_event L clk ev))"
  "stepwise X G (commit X (\<lambda>L clk. mark_event_processed L eid))"
  by (rule stepwise_by; blast intro: event_step.intros)+

lemma stepwise_resolution_calls [steps_intros]:
  "stepwise X G (commit X (\<lambda>L clk. begin_interaction_resolution L clk k resp dec))"
  "stepwise X G (commit X (\<lambda>L clk. finish_interaction_resolution L clk k ok))"
  by (rule stepwise_by; blast intro: interaction_step.intros)+

lemma stepwise_expiry_calls [steps_intros]:
  "stepwise X G (commit_pair X (\<lambda>L clk. expire_due_interactions L clk ts))"
  "stepwise X G (commit_pair X (\<lambda>L clk. expire_pending_permissions L clk))"
proof -
  have "interaction_step L L'" if "expire_due_interactions L clk ts = (x, L')" for L clk x L'
    using interaction_step.expire_due [of L clk ts] that by simp
  moreover have "interaction_step L L'" if "expire_pending_permissions L clk = (x, L')" for L clk x L'
    using interaction_step.expire_permissions [of L clk] that by simp
  ultimately show "stepwise X G (commit_pair X (\<lambda>L clk. expire_due_interactions L clk ts))"
    and "stepwise X G (commit_pair X (\<lambda>L clk. expire_pending_permissions L clk))"
    unfolding commit_pair_def by (auto intro!: stepwise_by)
qed

lemma stepwise_requeue [steps_intros]:
  "stepwise X G (commit_pair X (\<lambda>L clk. requeue_expired_delivery_claims L clk own))"
proof -
  have "delivery_step L L'" if "requeue_expired_delivery_claims L clk own = (x, L')" for L clk x L'
    using delivery_step.requeue [of L clk own] that by simp
  then show ?thesis unfolding commit_pair_def by (auto intro!: stepwise_by)
qed

lemma stepwise_keep [steps_intros]: "stepwise X G (keep_interaction X i)"
  unfolding keep_interaction_def commit_only_def
  by (rule stepwise_by) (auto intro: interaction_step.save_interaction)

lemma stepwise_command_calls [steps_intros]:
  "stepwise X G (commit_only X (\<lambda>L clk. cancel_provider_commands_for_interaction L clk k))"
  "stepwise X G (commit_only X (\<lambda>L clk. fail_provider_commands_for_run L clk rid err))"
  "stepwise X G (commit_only X (\<lambda>L clk. reset_sending_provider_commands L clk))"
  unfolding commit_only_def by (rule stepwise_by; auto intro: command_step.intros)+

lemma stepwise_cancel_deliveries [steps_intros]: "stepwise X G (cancel_deliveries X k)"
  unfolding cancel_deliveries_def commit_only_def
  by (rule stepwise_by) (auto intro: delivery_step.cancel)

lemma stepwise_fail_commands [steps_intros]: "stepwise X G (fail_commands X rid err)"
  unfolding fail_commands_def by (rule stepwise_command_calls)

lemma stepwise_enqueue_command [steps_intros]:
  "stepwise X G (commit X (\<lambda>L clk. enqueue_provider_command L clk c))"
  by (rule stepwise_by) (blast intro: command_step.enqueue_command)

lemma stepwise_set_command [steps_intros]: "stepwise X G (set_command X k s e)"
  unfolding set_command_def
  by (intro steps_intros stepwise_by) (blast intro: command_step.set_command)

lemma enqueue_step:
  assumes "enqueue L clk k own t e i timing topic hint key status = Inr (x, L')"
  shows "L' = L \<or> delivery_step L L'"
proof (cases "timing = ''hold''")
  case True
  with assms show ?thesis by (simp add: enqueue_def)
next
  case False
  with assms obtain d where "create_delivery_once L (\<lambda>i. clk (i + 1)) key d = Inr (x, L')" "fresh_delivery d"
    unfolding enqueue_def DeliveryRecord_init_def fresh_delivery_def
    by (fastforce simp: bindE_Inr_iff split: if_splits)
  then have "delivery_step L L'" by (rule delivery_step.create_delivery)
  then show ?thesis by blast
qed

lemma stepwise_deliver [steps_intros]: "stepwise X G (enqueue_delivery X own t e i timing topic hint key status)"
  unfolding enqueue_delivery_def
proof (intro steps_intros, rule stepwise_commit)
  fix k L clk x L' assume "enqueue L clk k own t e i timing topic hint key status = Inr (x, L')"
  then have "L' = L \<or> delivery_step L L'" by (rule enqueue_step)
  then show "L' = L \<or> ledger_step L L' \<and> (\<forall>k. get_aggregate L' k \<noteq> None \<longrightarrow> get_aggregate L k \<noteq> None)"
    using quiet_steps(6) same_aggregates ledger_step.deliveries by blast
qed

lemma admission_is_step:
  assumes "admit_question L clk uuid k q own rid c = Inr (x, L')"
  shows "L' = L \<or> interaction_step L L'"
proof -
  have step: "interaction_step L (save_interaction L clk' i)" for clk' i
    by (rule interaction_step.save_interaction)
  show ?thesis
    using assms step
    by (auto simp: admit_question_def Let_def bindE_Inr_iff split: if_splits option.splits)
qed

lemma from_worker_step:
  assumes "from_worker L clk uuid k ev caps aud = Inr (i, L')"
  shows "L' = L \<or> interaction_step L L'"
proof -
  have step: "interaction_step L (save_interaction L clk' i)" for clk' i
    by (rule interaction_step.save_interaction)
  show ?thesis
    using assms step
    by (auto simp: from_worker_def Let_def bindE_Inr_iff split: WorkerPayload.splits option.splits)
qed

lemma quiet_interactions:
  "L' = L \<or> interaction_step L L' \<Longrightarrow>
   L' = L \<or> ledger_step L L' \<and> (\<forall>k. get_aggregate L' k \<noteq> None \<longrightarrow> get_aggregate L k \<noteq> None)"
  using quiet_steps(5) same_aggregates ledger_step.interactions by blast

lemma stepwise_broker_calls [steps_intros]:
  "stepwise X G (commit X (\<lambda>L clk. admit_question L clk uuid k q own rid c))"
  "stepwise X G (commit X (\<lambda>L clk. from_worker L clk uuid k ev caps aud))"
  by (rule stepwise_commit, rule quiet_interactions, erule admission_is_step,
      rule stepwise_commit, rule quiet_interactions, erule from_worker_step)

subsection \<open>Aggregates\<close>

lemma flush_keys:
  assumes ok: "aggregates_ok L" and run: "flush_activity_aggregate L clk k = Inr (x, L')"
  shows "L' = L \<or> ledger_step L L' \<and> (\<forall>j. get_aggregate L' j \<noteq> None \<longrightarrow> get_aggregate L j \<noteq> None)"
proof (cases "L' = L")
  case False
  with run obtain cur f where cur: "get_aggregate L k = Some cur"
    and f: "f = cur\<lparr>g_state := AFlushed, g_flushed_at_ms := Some (clk 0)\<rparr>"
    and L': "L' = put_aggregate L (clk 1) f"
    by (auto simp: flush_activity_aggregate_def get_aggregate_def bindE_Inr_iff
        ActivityAggregate_init_def split: option.splits if_splits)
  have "g_aggregate_id cur = k"
    using own_keyed_get_key aggregates_okD(1) [OF ok] cur by (auto simp: get_aggregate_def)
  then have "get_aggregate L' j \<noteq> None \<longrightarrow> get_aggregate L j \<noteq> None" for j
    using cur by (simp add: L' f get_aggregate_def put_aggregate_def)
  moreover have "ledger_step L L'"
    using run by (blast intro: ledger_step.evidence evidence_step.flush_aggregate)
  ultimately show ?thesis by blast
qed simp

lemma stepwise_flush [steps_intros]: "stepwise X G (commit X (\<lambda>L clk. flush_activity_aggregate L clk k))"
  by (rule stepwise_commit, rule flush_keys)

text \<open>The id drawn for a new aggregate is not in use, so appending is a step.\<close>

lemma append_keys:
  assumes ok: "aggregates_ok L" and run: "append_activity_aggregate L clk k ev rv w = Inr (x, L')"
    and j: "get_aggregate L' j \<noteq> None"
  shows "get_aggregate L j \<noteq> None \<or> j = k"
proof (rule ccontr)
  assume no: "\<not> (get_aggregate L j \<noteq> None \<or> j = k)"
  from run obtain p where p: "e_payload ev = PUpdate p" "w \<ge> 1"
    by (auto simp: append_activity_aggregate_def split: if_splits WorkerPayload.splits)
  show False
  proof (cases "open_aggregate L (e_owner_id ev) (e_task_id ev) rv")
    case None
    with run p obtain g n where "L' = put_aggregate L n g" "g_aggregate_id g = k"
      by (auto simp: append_activity_aggregate_def bindE_Inr_iff ActivityAggregate_init_def split: if_splits)
    with no j show False by (simp add: get_aggregate_def put_aggregate_def)
  next
    case (Some cur)
    note cur = open_aggregate_SomeD [OF aggregates_okD(1) [OF ok] Some]
    have "L' = L \<or> (\<exists>n g. L' = put_aggregate L n g \<and> g_aggregate_id g = g_aggregate_id cur)"
      using run p Some
      by (fastforce simp: append_activity_aggregate_def bindE_Inr_iff ActivityAggregate_init_def split: if_splits)
    with no j cur show False by (auto simp: get_aggregate_def put_aggregate_def split: if_splits)
  qed
qed

lemma stepwise_append [steps_intros]: "stepwise X G (append_aggregate X ev rv w)"
proof -
  let ?m = "\<lambda>k. commit X (\<lambda>L clk. append_activity_aggregate L clk k ev rv w)"
  have "stepwise X G (cbind (cbind (new_id X ''aggregate'') ?m) (\<lambda>g. schedule_aggregate (g_aggregate_id g)))"
  proof (rule stepwise_bind)
    show "stepwise X G (cbind (new_id X ''aggregate'') ?m)"
    proof (rule stepwiseI)
      fix g r g' assume run: "cbind (new_id X ''aggregate'') ?m g = (r, g')"
      have still: "gw_standing g' = gw_standing g \<and> gw_started g' = gw_started g"
        using run by (auto simp: cbind_def new_id_def commit_def bump_def split: sum.splits prod.splits)
      have "ledger_step\<^sup>*\<^sup>* (gw_ledger g) (gw_ledger g') \<and> ids_known X g'"
        if X: "fresh_ids X" and known: "ids_known X g"
      proof -
      let ?k = "x_new_id X (gw_calls g) ''aggregate''"
      have ok: "aggregates_ok (gw_ledger g)" using known by (simp add: ids_known_def)
      have run': "?m ?k (bump g) = (r, g')" using run by (simp add: cbind_def new_id_def)
      have fresh: "get_aggregate (gw_ledger g) ?k = None"
        using X known unfolding fresh_ids_def ids_known_def by (metis less_irrefl)
      show ?thesis
      proof (cases "append_activity_aggregate (gw_ledger g) (x_clock X (Suc (gw_calls g))) ?k ev rv w")
        case (Inl e)
        with run' have "g' = bump (bump g)" by (simp add: commit_def bump_def)
        with known show ?thesis by (auto simp: bump_def ids_known_def less_Suc_eq)
      next
        case (Inr xL)
        obtain x L' where xL: "xL = (x, L')" by fastforce
        from run' Inr xL have g': "g' = (bump (bump g))\<lparr>gw_ledger := L'\<rparr>" by (simp add: commit_def bump_def)
        have step: "ledger_step (gw_ledger g) L'"
          using Inr fresh unfolding xL by (blast intro: ledger_step.evidence evidence_step.append_aggregate)
        have old: "\<exists>n < Suc (Suc (gw_calls g)). j = x_new_id X n ''aggregate''" if "get_aggregate L' j \<noteq> None" for j
        proof -
          from append_keys [OF ok Inr [unfolded xL] that]
          consider "get_aggregate (gw_ledger g) j \<noteq> None" | "j = ?k" by blast
          then show ?thesis
          proof cases
            case 1
            with known show ?thesis unfolding ids_known_def by (meson less_SucI)
          next
            case 2
            then show ?thesis by (intro exI [of _ "gw_calls g"]) simp
          qed
        qed
        show ?thesis
          using step old aggregates_ok_step [OF step ok] by (auto simp: g' bump_def ids_known_def)
      qed
      qed
      with still show "method_step X G g g'" by (simp add: method_step_def)
    qed
    fix x show "stepwise X G (schedule_aggregate (g_aggregate_id x))"
      unfolding schedule_aggregate_def by (rule stepwise_change) simp_all
  qed
  then show ?thesis by (simp add: append_aggregate_def cbind_assoc)
qed


section \<open>The methods\<close>

lemma stepwise_put_task [steps_intros]: "stepwise X G (put_task X task)"
  unfolding put_task_def by (intro steps_intros stepwise_save_task)

lemma stepwise_put_run [steps_intros]: "stepwise X G (put_run X run own)"
  unfolding put_run_def by (intro steps_intros stepwise_save_run)

lemma stepwise_lookups [steps_intros]:
  "stepwise X G (provider X n)"
  "stepwise X G (owned_task k own)"
  "stepwise X G (required_contract task)"
  "stepwise X G (active_run task)"
  "stepwise X G (finish_event k)"
  "stepwise X G (schedule k)"
  "stepwise X G (schedule_aggregate k)"
  "stepwise X G (schedule_coordination w)"
  "stepwise X G (settle_interaction X k b)"
  "stepwise X G (detach_run k)"
  unfolding provider_def owned_task_def required_contract_def active_run_def finish_event_def
    schedule_def schedule_aggregate_def schedule_coordination_def settle_interaction_def detach_run_def
  by (intro steps_intros stepwise_change; simp)+

lemma stepwise_refresh [steps_intros]: "stepwise X G (refresh_blocked X k)"
  unfolding refresh_blocked_def by (intro steps_intros)

lemma stepwise_close [steps_intros]: "stepwise X G (close_interaction X i)"
  unfolding close_interaction_def by (intro steps_intros)

lemma stepwise_close_all [steps_intros]: "stepwise X G (close_task_interactions X k)"
  unfolding close_task_interactions_def by (intro steps_intros)

lemma stepwise_announce [steps_intros]: "stepwise X G (announce_end X task timing e speech status)"
  unfolding announce_end_def by (intro steps_intros)

lemma stepwise_terminal_from_cancel [steps_intros]: "stepwise X G (terminal_from_cancel X task)"
  unfolding terminal_from_cancel_def by (intro steps_intros)

lemma stepwise_fail_task [steps_intros]: "stepwise X G (fail_task X task run e)"
  unfolding fail_task_def by (intro steps_intros)

lemma stepwise_fail_active [steps_intros]: "stepwise X G (fail_active_run X k e)"
  unfolding fail_active_run_def by (intro steps_intros)

lemma stepwise_fail_guarded [steps_intros]: "stepwise X G (fail_active_run_guarded X k e)"
  unfolding fail_active_run_guarded_def by (intro steps_intros)

lemma stepwise_enqueue_message [steps_intros]: "stepwise X G (enqueue_provider_message X task m r)"
  unfolding enqueue_provider_message_def by (intro steps_intros)

lemma stepwise_sum [steps_intros]:
  "(\<And>x. stepwise X G (f x)) \<Longrightarrow> (\<And>y. stepwise X G (h y)) \<Longrightarrow> stepwise X G (case v of Inl x \<Rightarrow> f x | Inr y \<Rightarrow> h y)"
  by (cases v) simp_all

lemma stepwise_deliver_command [steps_intros]: "stepwise X G (deliver_provider_command X r c)"
  unfolding deliver_provider_command_def by (intro steps_intros)

lemma stepwise_refresh_for [steps_intros]: "stepwise X G (refresh_for X i)"
  unfolding refresh_for_def by (intro steps_intros)

lemma stepwise_finish_resolving [steps_intros]: "stepwise X G (finish_resolving X k)"
  unfolding finish_resolving_def by (intro steps_intros)

lemma stepwise_replay_command [steps_intros]: "stepwise X G (replay_command X r c)"
  unfolding replay_command_def by (intro steps_intros)

lemma stepwise_replay_commands [steps_intros]: "stepwise X G (replay_provider_commands X r)"
  unfolding replay_provider_commands_def by (intro steps_intros)

lemma stepwise_queue_expired [steps_intros]: "stepwise X G (queue_expired_interaction X i)"
  unfolding queue_expired_interaction_def by (intro steps_intros)

lemma stepwise_context_plan [steps_intros]: "stepwise X G (context_plan_with_turn p t)"
  unfolding context_plan_with_turn_def by (intro steps_intros)

lemma stepwise_link_turn [steps_intros]: "stepwise X G (link_context_turn X task t)"
  unfolding link_context_turn_def by (intro steps_intros)

lemma stepwise_project_for [steps_intros]: "stepwise X G (project_for X c own t)"
  unfolding project_for_def by (intro steps_intros)

lemma stepwise_create [steps_intros]: "stepwise X G (create_task_from X c own src t k n cont)"
  unfolding create_task_from_def by (intro steps_intros stepwise_create_task)

lemma stepwise_plan_for_send [steps_intros]: "stepwise X G (plan_for_send task c)"
  unfolding plan_for_send_def by (intro steps_intros)

lemma stepwise_send [steps_intros]: "stepwise X G (send_task X c t op)"
  unfolding send_task_def by (intro steps_intros stepwise_save_once)

lemma stepwise_update_contract [steps_intros]: "stepwise X G (update_contract X k b src op)"
  unfolding update_contract_def by (intro steps_intros)

lemma stepwise_cancel [steps_intros]: "stepwise X G (cancel_task X k)"
  unfolding cancel_task_def by (intro steps_intros)

lemma stepwise_answer_worker [steps_intros]: "stepwise X G (answer_worker X i c m)"
  unfolding answer_worker_def by (intro steps_intros)

lemma stepwise_resolve [steps_intros]: "stepwise X G (resolve_interaction X c m)"
  unfolding resolve_interaction_def by (intro steps_intros)

subsection \<open>Plans\<close>

lemma stepwise_views [steps_intros]: "stepwise X G (control_task_views X own)"
  unfolding control_task_views_def by (intro steps_intros)

lemma stepwise_assign_name [steps_intros]: "stepwise X G (assign_name p names)"
  unfolding assign_name_def by (intro steps_intros)

lemma stepwise_start_name [steps_intros]: "stepwise X G (start_name X own t)"
  unfolding start_name_def by (intro steps_intros)

lemma stepwise_command [steps_intros]:
  "(\<And>c. stepwise X G (f1 c)) \<Longrightarrow> (\<And>c. stepwise X G (f2 c)) \<Longrightarrow> (\<And>k b. stepwise X G (f3 k b)) \<Longrightarrow> (\<And>k. stepwise X G (f4 k)) \<Longrightarrow>
   (\<And>c. stepwise X G (f5 c)) \<Longrightarrow> stepwise X G (case v of CreateTask c \<Rightarrow> f1 c | SendTask c \<Rightarrow> f2 c | UpdateContract k b \<Rightarrow> f3 k b
     | CancelTask k \<Rightarrow> f4 k | ResolveInteraction c \<Rightarrow> f5 c)"
  by (cases v) simp_all

lemma stepwise_apply_command [steps_intros]: "stepwise X G (apply_command X own rid src t n c)"
  unfolding apply_command_def by (intro steps_intros)

lemma stepwise_apply_commands [steps_intros]: "stepwise X G (apply_commands X own rid src t n cs)"
  by (induction cs arbitrary: n) (simp_all add: steps_intros)

lemma stepwise_widen [steps_intros]: "stepwise X G (widen_question X i)"
  unfolding widen_question_def by (intro steps_intros)

lemma stepwise_admission [steps_intros]:
  "stepwise X G m1 \<Longrightarrow> stepwise X G m2 \<Longrightarrow> stepwise X G m3 \<Longrightarrow> stepwise X G m4 \<Longrightarrow>
   stepwise X G (case v of Admitted \<Rightarrow> m1 | Duplicate \<Rightarrow> m2 | Defaulted \<Rightarrow> m3 | Rejected \<Rightarrow> m4)"
  by (cases v) simp_all

lemma stepwise_ask_question [steps_intros]: "stepwise X G (ask_question X own rid q)"
  unfolding ask_question_def by (intro steps_intros)

lemma stepwise_apply_plan [steps_intros]: "stepwise X G (apply_plan X plan own rid src t)"
  unfolding apply_plan_def by (intro steps_intros)

subsection \<open>Events\<close>

lemma stepwise_ask_permission [steps_intros]: "stepwise X G (ask_permission X task c caps r a fp pr sc)"
  unfolding ask_permission_def by (intro steps_intros)

lemma stepwise_permission_answer [steps_intros]: "stepwise X G (permission_answer X task c caps d r a fp pr sc)"
  unfolding permission_answer_def by (intro steps_intros)

lemma stepwise_authorize [steps_intros]: "stepwise X G (gateway_authorize X k r a rk pr sc se hr)"
  unfolding gateway_authorize_def by (intro steps_intros)

lemma stepwise_directive [steps_intros]: "stepwise X G (set_directive own d)"
  unfolding set_directive_def by (intro steps_intros stepwise_change) auto

lemma stepwise_pending [steps_intros]: "stepwise X G (pending_deliveries X own)"
  unfolding pending_deliveries_def by (intro steps_intros)

lemma stepwise_flush_aggregate [steps_intros]: "stepwise X G (flush_aggregate X k)"
  unfolding flush_aggregate_def by (intro steps_intros)

lemma stepwise_flush_task [steps_intros]: "stepwise X G (flush_task_aggregates X k)"
  unfolding flush_task_aggregates_def by (intro steps_intros)

lemma stepwise_reduce_update [steps_intros]: "stepwise X G (reduce_update X task c d ev p)"
  unfolding reduce_update_def by (intro steps_intros)

lemma stepwise_deliver_interaction [steps_intros]: "stepwise X G (deliver_interaction X task c ev i)"
  unfolding deliver_interaction_def by (intro steps_intros)

lemma stepwise_coordinate_interaction [steps_intros]: "stepwise X G (coordinate_worker_interaction X pol f ev)"
  unfolding coordinate_worker_interaction_def by (intro steps_intros)

lemma stepwise_permission_expiry [steps_intros]: "stepwise X G (permission_expiry X i)"
  unfolding permission_expiry_def by (intro steps_intros)

lemma stepwise_reduce_interaction [steps_intros]: "stepwise X G (reduce_interaction X pol f rec task c caps d ev p)"
  unfolding reduce_interaction_def by (intro steps_intros)

lemma stepwise_reduce_done [steps_intros]: "stepwise X G (reduce_done X task d ev p)"
  unfolding reduce_done_def by (intro steps_intros stepwise_save_task stepwise_save_run)

lemma stepwise_reduce_event [steps_intros]: "stepwise X G (reduce_event X pol f rec ev)"
  unfolding reduce_event_def by (intro steps_intros)

lemma stepwise_ingest [steps_intros]: "stepwise X G (ingest_worker_event X pol f ev)"
  unfolding ingest_worker_event_def by (intro steps_intros)

lemma stepwise_expire_one [steps_intros]: "stepwise X G (expire_interaction X i)"
  unfolding expire_interaction_def by (intro steps_intros)

lemma stepwise_expire [steps_intros]: "stepwise X G (expire_interactions X ts)"
  unfolding expire_interactions_def by (intro steps_intros)

lemma stepwise_begin_run [steps_intros]: "stepwise X G (begin_run X k r)"
  unfolding begin_run_def by (intro steps_intros stepwise_save_run)

lemma stepwise_attach_run [steps_intros]: "stepwise X G (attach_run X k r sid)"
  unfolding attach_run_def by (intro steps_intros stepwise_change) auto

lemma stepwise_invalidate [steps_intros]: "stepwise X G (invalidate_permission X i)"
  unfolding invalidate_permission_def by (intro steps_intros)

lemma stepwise_finish_sent [steps_intros]: "stepwise X G (finish_sent_interactions X)"
  unfolding finish_sent_interactions_def by (intro steps_intros)

lemma stepwise_recover_one [steps_intros]: "stepwise X G (recover_resolving X cs i)"
  unfolding recover_resolving_def by (intro steps_intros)

lemma stepwise_recover_all [steps_intros]: "stepwise X G (recover_resolving_interactions X)"
  unfolding recover_resolving_interactions_def by (intro steps_intros)

lemma stepwise_replay_event [steps_intros]: "stepwise X G (replay_event X pol f ev)"
  unfolding replay_event_def by (intro steps_intros)

lemma stepwise_recover_task [steps_intros]: "stepwise X G (recover_task X task)"
  unfolding recover_task_def by (intro steps_intros)

lemma stepwise_start [steps_intros]: "stepwise X G (start_gateway X pol f)"
  unfolding start_gateway_def by (intro steps_intros stepwise_change) auto

subsection \<open>Turns\<close>

lemma stepwise_results [steps_intros]:
  "stepwise X G (rejected rid ids st why)"
  "stepwise X G (ambiguous_tasks rid names)"
  "stepwise X G (accepted rid ids why)"
  unfolding rejected_def ambiguous_tasks_def accepted_def by (intro steps_intros)+

lemma stepwise_start_task [steps_intros]: "stepwise X G (start_task X own t pn rid names nm pid cont)"
  unfolding start_task_def by (intro steps_intros)

lemma stepwise_control_reply [steps_intros]: "stepwise X G (control_reply X own k t rid)"
  unfolding control_reply_def by (intro steps_intros)

lemma stepwise_side_query_plan [steps_intros]: "stepwise X G (side_query_plan task t caps)"
  unfolding side_query_plan_def by (intro steps_intros)

lemma stepwise_side_query [steps_intros]: "stepwise X G (create_terminal_side_query X task r t rid caps)"
  unfolding create_terminal_side_query_def by (intro steps_intros stepwise_create_task)

lemma stepwise_send_finished [steps_intros]: "stepwise X G (send_to_finished X lane own t rid task names)"
  unfolding send_to_finished_def by (intro steps_intros)

lemma stepwise_send_main [steps_intros]: "stepwise X G (send_to_main X own t rid task)"
  unfolding send_to_main_def by (intro steps_intros)

lemma stepwise_send_fork [steps_intros]: "stepwise X G (send_to_fork X t rid task)"
  unfolding send_to_fork_def by (intro steps_intros)

lemma stepwise_apply_send [steps_intros]: "stepwise X G (apply_task_send X lane own t r rid)"
  unfolding apply_task_send_def by (intro steps_intros)

lemma stepwise_standing [steps_intros]:
  "own \<in> G \<Longrightarrow> stepwise X G (grant_standing own)"
  "stepwise X G (revoke_standing own)"
  unfolding grant_standing_def revoke_standing_def by (rule stepwise_change; auto)+

lemma stepwise_decide [steps_intros]:
  "(a = ''allow_session'' \<Longrightarrow> own \<in> G) \<Longrightarrow> stepwise X G (decide_permission X a own t rid k i)"
  unfolding decide_permission_def by (intro steps_intros) auto

lemma stepwise_resolve_cancel [steps_intros]: "stepwise X G (resolve_cancel X rid act fnd)"
  unfolding resolve_cancel_def by (intro steps_intros)

lemma stepwise_resolve_permission [steps_intros]:
  "(a = ''allow_session'' \<Longrightarrow> own \<in> G) \<Longrightarrow> stepwise X G (resolve_permission X a own t rid fnd)"
  unfolding resolve_permission_def by (intro steps_intros)

lemma stepwise_apply_resolution [steps_intros]:
  "(a = ''allow_session'' \<Longrightarrow> own \<in> G) \<Longrightarrow> stepwise X G (apply_task_resolution X a own t r rid)"
  unfolding apply_task_resolution_def by (intro steps_intros)

lemma stepwise_bound [steps_intros]: "stepwise X G (bound_turn own t)"
  unfolding bound_turn_def by (intro steps_intros)

lemma stepwise_prune_tasks [steps_intros]: "stepwise X G (prune_control_tasks X own)"
  unfolding prune_control_tasks_def by (intro steps_intros)

lemma stepwise_once [steps_intros]: "stepwise X G work \<Longrightarrow> stepwise X G (once_per_receipt X own t rid work)"
  unfolding once_per_receipt_def by (intro steps_intros)

lemma stepwise_normalized [steps_intros]: "stepwise X G (normalized_name n)"
  unfolding normalized_name_def by (intro steps_intros)

lemma stepwise_task_start [steps_intros]: "stepwise X G (task_start X pol f own t n pn)"
  unfolding task_start_def by (intro steps_intros)

lemma stepwise_task_send [steps_intros]: "stepwise X G (task_send X pol f lane own t r)"
  unfolding task_send_def by (intro steps_intros)

lemma stepwise_task_resolve [steps_intros]:
  "(a = ''allow_session'' \<Longrightarrow> own \<in> G) \<Longrightarrow> stepwise X G (task_resolve X pol f a own t r)"
  unfolding task_resolve_def by (intro steps_intros)

lemma stepwise_actions [steps_intros]: "stepwise X G (available_task_resolve_actions X own)"
  unfolding available_task_resolve_actions_def by (intro steps_intros)

lemma stepwise_coordinate [steps_intros]: "stepwise X G (coordinate_turn X pol f t)"
  unfolding coordinate_turn_def by (intro steps_intros)

lemma stepwise_deliver_result [steps_intros]: "stepwise X G (deliver_coordination_result X j r)"
  unfolding deliver_coordination_result_def by (intro steps_intros)

lemma stepwise_finish_job [steps_intros]: "stepwise X G (finish_coordination X j r e)"
  unfolding finish_coordination_def by (intro steps_intros)

lemma stepwise_finish_failure [steps_intros]: "stepwise X G (finish_coordination_failure X j e)"
  unfolding finish_coordination_failure_def by (intro steps_intros)

lemma stepwise_begin_job [steps_intros]: "stepwise X G (begin_coordination X pol own)"
  unfolding begin_coordination_def by (intro steps_intros)

lemma stepwise_error [steps_intros]:
  "(\<And>m r. stepwise X G (f m r)) \<Longrightarrow> (\<And>t. stepwise X G (h t)) \<Longrightarrow> (\<And>e. stepwise X G (k e)) \<Longrightarrow>
   stepwise X G (case v of CoordinatorPlanError m r \<Rightarrow> f m r | ProviderError t \<Rightarrow> h t | Raised e \<Rightarrow> k e)"
  by (cases v) simp_all

lemma stepwise_use_plan [steps_intros]: "stepwise X G (use_plan X j t p)"
  unfolding use_plan_def by (intro steps_intros)

lemma stepwise_end_job [steps_intros]: "stepwise X G (end_coordination X j t a)"
  unfolding end_coordination_def by (intro steps_intros)

end
