(* ===== verification/ControlRuns.thy ===== *)
theory ControlRuns
  imports ControlSteps
begin

text \<open>
  Runs of the gateway: any order of its public methods, of the claims and acknowledgements the delivery
  gate makes on the ledger between them, and what holds after every such run.
\<close>

section \<open>Operations\<close>

datatype gateway_op =
    Start
  | TaskStart string TurnEnvelope string "string option"
  | TaskSend string string TurnEnvelope "string option"
  | TaskResolve string string TurnEnvelope "string option"
  | CoordinateTurn TurnEnvelope
  | BeginCoordination string
  | EndCoordination CoordinationJob TurnEnvelope "string + CoordinatorPlan"
  | IngestEvent WorkerEvent
  | Authorize string string string string string string bool bool
  | SetDirective string string
  | PendingDeliveries string
  | FlushAggregate string
  | ExpireInteractions "int option"
  | BeginRun string "RunRecord option"
  | AttachRun string RunRecord string
  | DetachRun string
  | FailRun string string

fun perform :: "env \<Rightarrow> CoordinatorContextPolicy \<Rightarrow> planner \<Rightarrow> gateway_op \<Rightarrow> gateway \<Rightarrow> gateway" where
  "perform X pol f Start g = snd (start_gateway X pol f g)"
| "perform X pol f (TaskStart own t n p) g = snd (task_start X pol f own t n p g)"
| "perform X pol f (TaskSend lane own t r) g = snd (task_send X pol f lane own t r g)"
| "perform X pol f (TaskResolve a own t r) g = snd (task_resolve X pol f a own t r g)"
| "perform X pol f (CoordinateTurn t) g = snd (coordinate_turn X pol f t g)"
| "perform X pol f (BeginCoordination own) g = snd (begin_coordination X pol own g)"
| "perform X pol f (EndCoordination j t a) g = snd (end_coordination X j t a g)"
| "perform X pol f (IngestEvent ev) g = snd (ingest_worker_event X pol f ev g)"
| "perform X pol f (Authorize k r a rk p sc se hr) g = snd (gateway_authorize X k r a rk p sc se hr g)"
| "perform X pol f (SetDirective own d) g = snd (set_directive own d g)"
| "perform X pol f (PendingDeliveries own) g = snd (pending_deliveries X own g)"
| "perform X pol f (FlushAggregate k) g = snd (flush_aggregate X k g)"
| "perform X pol f (ExpireInteractions ts) g = snd (expire_interactions X ts g)"
| "perform X pol f (BeginRun k r) g = snd (begin_run X k r g)"
| "perform X pol f (AttachRun k r sid) g = snd (attach_run X k r sid g)"
| "perform X pol f (DetachRun r) g = snd (detach_run r g)"
| "perform X pol f (FailRun k e) g = snd (fail_active_run_guarded X k e g)"

text \<open>The owners an operation may give a standing grant to.\<close>

fun grants :: "gateway_op \<Rightarrow> string set" where
  "grants (TaskResolve a own t r) = (if a = ''allow_session'' then {own} else {})"
| "grants _ = {}"

lemma stepwise_at: "stepwise X G m \<Longrightarrow> method_step X G g (snd (m g))"
  by (simp add: stepwise_def)

lemma perform_step: "method_step X (grants op) g (perform X pol f op g)"
proof (cases op)
  case (TaskResolve a own t r)
  then show ?thesis by (simp add: stepwise_at stepwise_task_resolve)
qed (simp_all only: perform.simps grants.simps, (rule stepwise_at, rule steps_intros)+)

text \<open>
  Between the methods other parts of the runtime call the ledger: the delivery gate claims and finishes
  deliveries, the online loop stores realtime context.  None of them touches the activity aggregates.
\<close>

inductive gateway_run ::
  "env \<Rightarrow> CoordinatorContextPolicy \<Rightarrow> planner \<Rightarrow> gateway_op list \<Rightarrow> gateway \<Rightarrow> gateway \<Rightarrow> bool"
  for X pol f where
  none: "gateway_run X pol f [] g g"
| calling: "gateway_run X pol f ops (perform X pol f op g) g' \<Longrightarrow> gateway_run X pol f (op # ops) g g'"
| outside: "ledger_step (gw_ledger g) L \<Longrightarrow> l_aggregates L = l_aggregates (gw_ledger g) \<Longrightarrow>
    gateway_run X pol f ops (g\<lparr>gw_ledger := L\<rparr>) g' \<Longrightarrow> gateway_run X pol f ops g g'"

lemma outside_step:
  assumes "ledger_step (gw_ledger g) L" "l_aggregates L = l_aggregates (gw_ledger g)"
  shows "method_step X G g (g\<lparr>gw_ledger := L\<rparr>)"
proof -
  have "ids_known X (g\<lparr>gw_ledger := L\<rparr>)" if "ids_known X g"
    using that aggregates_ok_step [OF assms(1)] assms(2) by (simp add: ids_known_def get_aggregate_def)
  then show ?thesis using assms(1) by (simp add: method_step_def r_into_rtranclp)
qed

lemma method_step_mono: "method_step X G g g' \<Longrightarrow> G \<subseteq> H \<Longrightarrow> method_step X H g g'"
  by (auto simp: method_step_def)

lemma run_method_step: "gateway_run X pol f ops g g' \<Longrightarrow> method_step X (\<Union> (grants ` set ops)) g g'"
proof (induction rule: gateway_run.induct)
  case (none g)
  then show ?case by (rule method_step_refl)
next
  case (calling ops op g g')
  have "method_step X (\<Union> (grants ` set (op # ops))) g (perform X pol f op g)"
    by (rule method_step_mono [OF perform_step]) auto
  moreover have "method_step X (\<Union> (grants ` set (op # ops))) (perform X pol f op g) g'"
    by (rule method_step_mono [OF calling.IH]) auto
  ultimately show ?case by (rule method_step_trans)
next
  case (outside g L ops g')
  show ?case by (rule method_step_trans [OF outside_step [OF outside.hyps(1,2)] outside.IH])
qed

lemma new_ids_known: "ids_known X (new_gateway empty_ledger)"
  using empty_ledger_ok
  by (simp add: ids_known_def new_gateway_def ledger_ok_def get_aggregate_def empty_ledger_def)

lemma run_known:
  assumes "fresh_ids X" "gateway_run X pol f ops (new_gateway empty_ledger) g"
  shows "ledger_step\<^sup>*\<^sup>* empty_ledger (gw_ledger g) \<and> ids_known X g"
  using run_method_step [OF assms(2)] assms(1) new_ids_known
  by (auto simp: method_step_def new_gateway_def)

section \<open>Once per receipt\<close>

lemma started_stays: "stepwise X G m \<Longrightarrow> m g = (r, g') \<Longrightarrow> gw_started g \<Longrightarrow> gw_started g'"
  using stepwiseD by (fastforce simp: method_step_def)

lemma start_starts:
  assumes "start_gateway X pol f g = (Inr (), g')"
  shows "gw_started g'"
proof (cases "gw_started g")
  case True
  with started_stays [OF stepwise_start assms] show ?thesis .
next
  case False
  let ?jobs = "\<lambda>j. if j_state j = JPending then schedule_coordination (j_owner_id j) else ret ()"
  from assms False obtain h h' where "change (\<lambda>g. g\<lparr>gw_started := True\<rparr>) h = (Inr (), h')"
    and last: "each ?jobs (list_coordination_jobs (gw_ledger h')) h' = (Inr (), g')"
    unfolding start_gateway_def cbind_fetch
    by (auto simp: run_simps split: if_splits elim!: seq_InrE cbind_InrE)
  then have "gw_started h'" by (auto simp: change_def)
  have "stepwise X {} (each ?jobs (list_coordination_jobs (gw_ledger h')))" by (intro steps_intros)
  from this last \<open>gw_started h'\<close> show ?thesis by (rule started_stays)
qed

section \<open>What lookups return\<close>

lemma owned_task_InrE:
  assumes "owned_task k own g = (Inr task, g')"
  shows "g' = g \<and> get_task (gw_ledger g) k = Some task \<and> (\<forall>w. own = Some w \<longrightarrow> t_owner_id task = w)"
  using assms by (auto simp: owned_task_def run_simps split: option.splits if_splits)

lemma need_InrE: "need e x g = (Inr y, g') \<Longrightarrow> x = Some y \<and> g' = g"
  by (auto simp: need_def run_simps split: option.splits)

lemma provider_InrE: "provider X n g = (Inr c, g') \<Longrightarrow> map_of (x_providers X) n = Some c \<and> g' = g"
  unfolding provider_def by (rule need_InrE)

lemma required_contract_InrE:
  "required_contract task g = (Inr c, g') \<Longrightarrow>
   get_contract (gw_ledger g) (t_task_id task) (Some (t_contract_revision task)) = Some c \<and> g' = g"
  unfolding required_contract_def by (simp add: need_InrE)

lemma task_key: "tasks_ok L \<Longrightarrow> get_task L k = Some task \<Longrightarrow> t_task_id task = k"
  by (auto simp: tasks_ok_def tasks_keyed_def get_task_def intro: own_keyed_get_key)

end
