(* ===== verification/ControlProperties.thy ===== *)
theory ControlProperties
  imports ControlRuns
begin

text \<open>
  What the control plane promises: the ledger of every run is well formed, standing grants and
  permissions come from the user, a task tool answers once per receipt, and the plan of a superseded
  turn is dropped.
\<close>

section \<open>Runs\<close>

text \<open>C3: After any run of the gateway that starts with an empty ledger, in any order of its methods and
  of the calls other parts make on the ledger between them, and whatever the workers and the model
  answer, the ledger is one that a sequence of ledger operations produces; so its tables satisfy the
  whole invariant of the ledger.  A method that raises keeps a prefix of its ledger calls.\<close>

theorem gateway_keeps_the_ledger:
  assumes "fresh_ids X" and "gateway_run X pol f ops (new_gateway empty_ledger) g"
  shows "reachable (gw_ledger g) \<and> ledger_ok (gw_ledger g)"
  using run_known [OF assms] run_ok [OF _ empty_ledger_ok] by (simp add: reachable_def)

text \<open>C6: An owner has a standing grant after a run only if one of the operations of the run was that
  owner's own \<open>task_resolve("allow_session")\<close>.  No plan of the Coordinator, no worker event and no
  other tool gives one.\<close>

theorem standing_grant_is_the_users:
  assumes "gateway_run X pol f ops (new_gateway L) g" and "own \<in> gw_standing g"
  shows "\<exists>turn ref. TaskResolve ''allow_session'' own turn ref \<in> set ops"
proof -
  from run_method_step [OF assms(1)] assms(2) obtain op where "op \<in> set ops" "own \<in> grants op"
    by (auto simp: method_step_def new_gateway_def)
  then show ?thesis by (cases op rule: grants.cases) (auto split: if_splits)
qed

section \<open>Authorization\<close>

text \<open>The user's consent to an action that needs it: a standing grant of the owner, or the answer to the
  permission asked for this task, run, action and request.\<close>

definition consented :: "env \<Rightarrow> gateway \<Rightarrow> TaskRecord \<Rightarrow> string \<Rightarrow> string \<Rightarrow> string \<Rightarrow> bool" where
  "consented X g task run_id action request_key \<longleftrightarrow>
     t_owner_id task \<in> gw_standing g \<or>
     (\<exists>i. find_interaction_by_fingerprint (gw_ledger g)
         (permission_fingerprint X (t_task_id task) run_id action request_key) = Some i \<and>
       i_state i = IResolved \<and> approved (i_decision i) (i_response i))"

text \<open>The part of \<open>gateway_authorize\<close> after its two guards.\<close>

definition authorize_under ::
  "env \<Rightarrow> TaskRecord \<Rightarrow> string \<Rightarrow> string \<Rightarrow> string \<Rightarrow> string \<Rightarrow> string \<Rightarrow> string \<Rightarrow> bool \<Rightarrow> bool \<Rightarrow>
   AuthorizationDecision control" where
  "authorize_under X task k r a rk p sc se hr =
     cbind (required_contract task) (\<lambda>contract.
     cbind (provider X (t_provider_name task)) (\<lambda>capabilities.
     let decided = authorize contract capabilities a se hr in
     if ad_outcome decided \<noteq> ''require_permission'' then ret decided
     else cbind (fetch (\<lambda>g. t_owner_id task \<in> gw_standing g)) (\<lambda>standing.
       if standing then ret (authorization ''allow'' a ''standing_session_grant'' None)
       else permission_answer X task contract capabilities decided r a
         (permission_fingerprint X k r a rk) p sc)))"

lemma permission_answer_allows:
  assumes "permission_answer X task c caps d r a fp p sc g = (Inr e, g')"
    and "ad_outcome e = ''allow''" and "ad_outcome d = ''require_permission''"
  shows "g' = g \<and> (\<exists>i. find_interaction_by_fingerprint (gw_ledger g) fp = Some i \<and>
    i_state i = IResolved \<and> approved (i_decision i) (i_response i))"
  using assms
  by (auto simp: permission_answer_def run_simps authorization_def split: option.splits if_splits elim!: cbind_InrE)

lemma authorize_under_allows:
  assumes run: "authorize_under X task k r a rk p sc se hr g = (Inr d, g')"
    and allowed: "ad_outcome d = ''allow''" and id: "t_task_id task = k"
  shows "g' = g \<and> (\<exists>contract capabilities.
    get_contract (gw_ledger g) k (Some (t_contract_revision task)) = Some contract \<and>
    map_of (x_providers X) (t_provider_name task) = Some capabilities \<and>
    (ad_outcome (authorize contract capabilities a se hr) = ''allow'' \<or>
     ad_outcome (authorize contract capabilities a se hr) = ''require_permission'' \<and>
     consented X g task r a rk))"
proof -
  from run obtain contract capabilities where
    c: "get_contract (gw_ledger g) k (Some (t_contract_revision task)) = Some contract"
    and cap: "map_of (x_providers X) (t_provider_name task) = Some capabilities"
    and 2: "(let decided = authorize contract capabilities a se hr in
       if ad_outcome decided \<noteq> ''require_permission'' then ret decided
       else cbind (fetch (\<lambda>g. t_owner_id task \<in> gw_standing g)) (\<lambda>standing.
         if standing then ret (authorization ''allow'' a ''standing_session_grant'' None)
         else permission_answer X task contract capabilities decided r a
           (permission_fingerprint X k r a rk) p sc)) g = (Inr d, g')"
    unfolding authorize_under_def
    by (elim cbind_InrE) (auto dest!: required_contract_InrE provider_InrE simp: id)
  show ?thesis
  proof (cases "ad_outcome (authorize contract capabilities a se hr) = ''require_permission''")
    case False
    with 2 allowed c cap show ?thesis by (auto simp: Let_def run_simps)
  next
    case True
    show ?thesis
    proof (cases "t_owner_id task \<in> gw_standing g")
      case yes: True
      with 2 True c cap show ?thesis by (auto simp: Let_def run_simps consented_def)
    next
      case no: False
      with 2 True have "permission_answer X task contract capabilities (authorize contract capabilities a se hr)
        r a (permission_fingerprint X k r a rk) p sc g = (Inr d, g')" by (simp add: Let_def)
      from permission_answer_allows [OF this allowed True] c cap True id
      show ?thesis unfolding consented_def by blast
    qed
  qed
qed

text \<open>C5: The gateway lets a worker's action through only for the run that is active on the task, never a
  side effect of a side query, and only if the supervision contract allows the action outright, or
  leaves it to the user and the user consented; and the decision itself changes nothing.\<close>

theorem authorized_action_has_consent:
  assumes run: "gateway_authorize X k r a rk p sc se hr g = (Inr d, g')"
    and allowed: "ad_outcome d = ''allow''" and keyed: "tasks_ok (gw_ledger g)"
  shows "g' = g \<and> (\<exists>task contract capabilities.
    get_task (gw_ledger g) k = Some task \<and> t_active_run_id task = Some r \<and>
    (t_kind task = ''side_query'' \<longrightarrow> \<not> se) \<and>
    get_contract (gw_ledger g) k (Some (t_contract_revision task)) = Some contract \<and>
    map_of (x_providers X) (t_provider_name task) = Some capabilities \<and>
    (ad_outcome (authorize contract capabilities a se hr) = ''allow'' \<or>
     ad_outcome (authorize contract capabilities a se hr) = ''require_permission'' \<and>
     consented X g task r a rk))"
proof -
  from run obtain task where task: "get_task (gw_ledger g) k = Some task"
    and 1: "(if t_active_run_id task \<noteq> Some r then ret (authorization ''deny'' a ''inactive_run'' None)
      else if t_kind task = ''side_query'' \<and> se then ret (authorization ''deny'' a ''side_query_read_only'' None)
      else authorize_under X task k r a rk p sc se hr) g = (Inr d, g')"
    unfolding gateway_authorize_def authorize_under_def by (elim cbind_InrE) (auto dest!: owned_task_InrE)
  have id: "t_task_id task = k" using task_key [OF keyed task] .
  show ?thesis
  proof (cases "t_active_run_id task = Some r \<and> \<not> (t_kind task = ''side_query'' \<and> se)")
    case False
    with 1 allowed show ?thesis by (auto simp: run_simps authorization_def split: if_splits)
  next
    case True
    with 1 have "authorize_under X task k r a rk p sc se hr g = (Inr d, g')" by auto
    from authorize_under_allows [OF this allowed id] task True show ?thesis by auto
  qed
qed

section \<open>One answer per receipt\<close>

definition pruned :: "env \<Rightarrow> string \<Rightarrow> gateway \<Rightarrow> gateway" where
  "pruned X own g = (bump g)\<lparr>gw_ledger := snd (prune_terminal_tasks (gw_ledger g) (x_clock X (gw_calls g)) own
     (x_terminal_task_ttl_ms X) (x_max_terminal_tasks X))\<rparr>"

lemma prune_runs: "prune_control_tasks X own g = (Inr (), pruned X own g)"
  by (simp add: prune_control_tasks_def commit_pair_def commit_def cbind_def ret_def pruned_def prod.case_eq_if)

lemma pruned_receipts [simp]: "get_receipt (gw_ledger (pruned X own g)) k = get_receipt (gw_ledger g) k"
  by (simp add: pruned_def prune_terminal_tasks_def get_receipt_def Let_def)

lemma once_saved:
  assumes "once_per_receipt X own t rid work g = (Inr res, g')"
  shows "get_receipt (gw_ledger g') rid = Some res"
proof (cases "get_receipt (gw_ledger g) rid")
  case (Some x)
  with assms show ?thesis
    by (auto simp: once_per_receipt_def seq_def run_cbind_Inr [OF prune_runs] run_simps)
next
  case None
  with assms show ?thesis
    by (auto simp: once_per_receipt_def seq_def run_cbind_Inr [OF prune_runs] save_receipt_def
      elim!: cbind_InrE commit_InrE split: option.splits)
qed

lemma once_again:
  "get_receipt (gw_ledger g) rid = Some res \<Longrightarrow>
   once_per_receipt X own t rid work g = (Inr res, pruned X own g)"
  by (simp add: once_per_receipt_def seq_def run_cbind_Inr [OF prune_runs] run_simps)

text \<open>The calls the voice model can make, with their answers.\<close>

fun call_tool :: "env \<Rightarrow> CoordinatorContextPolicy \<Rightarrow> planner \<Rightarrow> gateway_op \<Rightarrow> TaskControlResult control" where
  "call_tool X pol f (TaskStart own t n p) = task_start X pol f own t n p"
| "call_tool X pol f (TaskSend lane own t r) = task_send X pol f lane own t r"
| "call_tool X pol f (TaskResolve a own t r) = task_resolve X pol f a own t r"
| "call_tool X pol f _ = throw (Raised (ValueError ''not a tool''))"

fun tool_owner :: "gateway_op \<Rightarrow> string" where
  "tool_owner (TaskStart own t n p) = own"
| "tool_owner (TaskSend lane own t r) = own"
| "tool_owner (TaskResolve a own t r) = own"
| "tool_owner _ = []"

text \<open>What the three tools do alike.\<close>

definition guarded_tool ::
  "env \<Rightarrow> CoordinatorContextPolicy \<Rightarrow> planner \<Rightarrow> string \<Rightarrow> TurnEnvelope \<Rightarrow> string \<Rightarrow> TaskControlResult control \<Rightarrow>
   TaskControlResult control" where
  "guarded_tool X pol f own t rid work =
     seq (start_gateway X pol f) (once_per_receipt X own t rid work)"

lemma start_again: "gw_started g \<Longrightarrow> start_gateway X pol f g = (Inr (), g)"
  by (simp add: start_gateway_def run_simps)

lemma guarded_returned:
  assumes "guarded_tool X pol f own t rid work g = (Inr res, g')" and "stepwise X G work"
  shows "gw_started g' \<and> get_receipt (gw_ledger g') rid = Some res"
proof -
  from assms(1) obtain h where h: "start_gateway X pol f g = (Inr (), h)"
    and w: "once_per_receipt X own t rid work h = (Inr res, g')"
    unfolding guarded_tool_def by (rule seq_InrE)
  from started_stays [OF stepwise_once [OF assms(2)] w start_starts [OF h]] once_saved [OF w]
  show ?thesis by blast
qed

lemma guarded_again:
  assumes "gw_started g" "get_receipt (gw_ledger g) rid = Some res"
  shows "guarded_tool X pol f own t rid work g = (Inr res, pruned X own g)"
  using assms by (simp add: guarded_tool_def seq_def run_cbind_Inr [OF start_again] once_again)

lemma bound_turn_Inr: "bound_turn own t g = (Inr (), g') \<longleftrightarrow> tu_owner_id t = own \<and> g' = g"
  by (auto simp: bound_turn_def run_simps)

lemma bound_seq: "tu_owner_id t = own \<Longrightarrow> seq (bound_turn own t) m = m"
  by (rule ext) (simp add: seq_def cbind_def bound_turn_def run_simps)

lemma normalized_name_run:
  "normalized_name n g = (case normalize_frontbrain_task_name (JStr (u n)) of
     Inl e \<Rightarrow> (Inl (Raised e), g) | Inr s \<Rightarrow> (Inr (map char_of s), g))"
  by (simp add: normalized_name_def lift_res_def cbind_def run_simps split: sum.split)

lemma tool_is_guarded:
  assumes "call_tool X pol f op g = (Inr res, g')"
  shows "\<exists>t rid work. stepwise X (grants op) work \<and>
    (\<forall>h. call_tool X pol f op h = guarded_tool X pol f (tool_owner op) t rid work h)"
proof (cases op)
  case (TaskStart own t n p)
  with assms have own: "tu_owner_id t = own" and ok: "normalize_frontbrain_task_name (JStr (u n)) = Inr s"
    if "normalize_frontbrain_task_name (JStr (u n)) = Inr s" for s
    using that by (auto simp: task_start_def bound_turn_Inr elim!: seq_InrE)
  obtain s where s: "normalize_frontbrain_task_name (JStr (u n)) = Inr s"
    using assms TaskStart
    by (cases "normalize_frontbrain_task_name (JStr (u n))")
      (auto simp: task_start_def bound_turn_Inr normalized_name_run elim!: seq_InrE cbind_InrE)
  let ?rid = "stable_id X ''task_start'' [receipt_key t, map char_of s]"
  let ?work = "cbind (control_task_views X own) (\<lambda>(active, recent).
    start_task X own t p ?rid (at_name ` (set active \<union> set recent)) (map char_of s) None None)"
  have "stepwise X (grants op) ?work" by (intro steps_intros)
  moreover have "call_tool X pol f op h = guarded_tool X pol f own t ?rid ?work h" for h
    using TaskStart own [OF s] s
    by (simp add: task_start_def bound_seq guarded_tool_def cbind_def normalized_name_run Let_def)
  ultimately show ?thesis unfolding TaskStart tool_owner.simps by blast
next
  case (TaskSend lane own t r)
  with assms have lane: "lane \<in> {''main'', ''fork''}" and own: "tu_owner_id t = own"
    by (auto simp: task_send_def run_simps bound_turn_Inr split: if_splits elim!: seq_InrE)
  let ?rid = "stable_id X ''task_send'' [receipt_key t, (case r of None \<Rightarrow> [] | Some r \<Rightarrow> r), lane]"
  have "stepwise X (grants op) (apply_task_send X lane own t r ?rid)" by (rule stepwise_apply_send)
  moreover have "call_tool X pol f op h = guarded_tool X pol f own t ?rid (apply_task_send X lane own t r ?rid) h" for h
    using TaskSend own lane by (simp add: task_send_def bound_seq guarded_tool_def Let_def)
  ultimately show ?thesis unfolding TaskSend tool_owner.simps by blast
next
  case (TaskResolve a own t r)
  with assms have a: "a \<in> {''cancel'', ''allow_once'', ''allow_session'', ''deny''}" and own: "tu_owner_id t = own"
    by (auto simp: task_resolve_def run_simps bound_turn_Inr split: if_splits elim!: seq_InrE)
  let ?rid = "stable_id X ''task_resolve'' [receipt_key t, (case r of None \<Rightarrow> [] | Some r \<Rightarrow> r), a]"
  have "stepwise X (grants op) (apply_task_resolution X a own t r ?rid)"
    using TaskResolve by (intro stepwise_apply_resolution) simp
  moreover have "call_tool X pol f op h = guarded_tool X pol f own t ?rid (apply_task_resolution X a own t r ?rid) h" for h
    using TaskResolve own a by (auto simp: task_resolve_def bound_seq guarded_tool_def Let_def)
  ultimately show ?thesis unfolding TaskResolve tool_owner.simps by blast
qed (use assms in \<open>simp_all add: run_simps\<close>)

text \<open>C4: A tool call of the voice model that returned an answer has the same answer whenever the same
  call comes again, after any other activity of the gateway; and the repetition writes nothing but
  the pruning of old terminal tasks, so no task is started, told or decided twice.\<close>

theorem tool_call_is_answered_once:
  assumes fresh: "fresh_ids X"
    and before: "gateway_run X pol f ops (new_gateway empty_ledger) g"
    and first: "call_tool X pol f op g = (Inr res, g1)"
    and between: "gateway_run X pol f ops' g1 g2"
  shows "call_tool X pol f op g2 = (Inr res, pruned X (tool_owner op) g2)"
proof -
  from tool_is_guarded [OF first] obtain t rid work where work: "stepwise X (grants op) work"
    and eq: "\<And>h. call_tool X pol f op h = guarded_tool X pol f (tool_owner op) t rid work h" by blast
  note done1 = guarded_returned [OF first [unfolded eq] work]
  have "stepwise X (grants op) (guarded_tool X pol f (tool_owner op) t rid work)"
    unfolding guarded_tool_def using work by (intro steps_intros)
  from stepwiseD [OF this first [unfolded eq]] run_known [OF fresh before] fresh
  have "ids_known X g1" by (simp add: method_step_def)
  with run_method_step [OF between] fresh
  have steps: "ledger_step\<^sup>*\<^sup>* (gw_ledger g1) (gw_ledger g2)" and "gw_started g1 \<longrightarrow> gw_started g2"
    by (simp_all add: method_step_def)
  moreover have "get_receipt (gw_ledger g2) rid = Some res"
    using run_keeps_history [OF steps] done1 by (simp add: keeps_history_def)
  ultimately show ?thesis using done1 by (simp add: eq guarded_again)
qed

section \<open>Superseded plans\<close>

definition versions_grow :: "TaskLedger \<Rightarrow> TaskLedger \<Rightarrow> bool" where
  "versions_grow L L' \<longleftrightarrow> (\<forall>own j. get_coordination_job L own = Some j \<longrightarrow>
     (\<exists>j'. get_coordination_job L' own = Some j' \<and> j_version j \<le> j_version j'))"

lemma versions_grow_trans: "versions_grow A B \<Longrightarrow> versions_grow B C \<Longrightarrow> versions_grow A C"
  unfolding versions_grow_def by (meson order_trans)

lemma same_jobs_grow: "l_jobs L' = l_jobs L \<Longrightarrow> versions_grow L L'"
  by (auto simp: versions_grow_def get_coordination_job_def)

lemma versions_grow_refl [simp]: "versions_grow L L"
  by (simp add: same_jobs_grow)

lemma job_init_version: "CoordinationJob_init j0 = Inr j \<Longrightarrow> j_version j = j_version j0 \<and> j_owner_id j = j_owner_id j0"
  by (auto simp: CoordinationJob_init_def Let_def)

lemma put_job_grows:
  assumes "\<And>c. get_coordination_job L own = Some c \<Longrightarrow> j_version c \<le> j_version j"
  shows "versions_grow L (put_job j own n L)"
  using assms by (auto simp: versions_grow_def get_coordination_job_def)

lemma recover_grows:
  assumes "recover_jobs clk n js L = Inr L'"
    and "\<forall>j \<in> set js. \<exists>c. get_coordination_job L (j_owner_id j) = Some c \<and> j_version c = j_version j"
  shows "versions_grow L L'"
  using assms
proof (induction clk n js L arbitrary: L' rule: recover_jobs.induct)
  case (2 clk n job rest L)
  show ?case
  proof (cases "j_state job = JCoordinating")
    case False
    with 2 show ?thesis by auto
  next
    case True
    then obtain j' where j': "CoordinationJob_init (job\<lparr>j_state := JPending, j_updated_at_ms := clk n\<rparr>) = Inr j'"
      and rest: "recover_jobs clk (n + 2) rest (put_job j' (j_owner_id job) (clk (n + 1)) L) = Inr L'"
      using 2(3) by (auto split: sum.splits)
    let ?M = "put_job j' (j_owner_id job) (clk (n + 1)) L"
    have v: "j_version j' = j_version job" using job_init_version [OF j'] by simp
    have "\<forall>j \<in> set rest. \<exists>c. get_coordination_job ?M (j_owner_id j) = Some c \<and> j_version c = j_version j"
    proof
      fix j assume "j \<in> set rest"
      with 2(4) obtain c where c: "get_coordination_job L (j_owner_id j) = Some c" "j_version c = j_version j" by auto
      show "\<exists>c. get_coordination_job ?M (j_owner_id j) = Some c \<and> j_version c = j_version j"
      proof (cases "j_owner_id j = j_owner_id job")
        case True
        with 2(4) c v show ?thesis by (auto simp: get_coordination_job_def)
      next
        case False
        with c show ?thesis by (simp add: get_coordination_job_def)
      qed
    qed
    from 2(1) [OF True j' rest this] have "versions_grow ?M L'" .
    moreover have "versions_grow L ?M" using 2(4) v by (intro put_job_grows) auto
    ultimately show ?thesis using versions_grow_trans by blast
  qed
qed (auto simp: versions_grow_def)

lemma submit_grows:
  assumes s: "submit_coordination L clk t rid = Inr ((receipt, job, fresh), L')"
  shows "versions_grow L L'"
    and "get_receipt L (receipt_key t) = None \<Longrightarrow> get_coordination_job L (tu_owner_id t) = Some c \<Longrightarrow>
      fresh \<and> job \<noteq> None \<and> (\<exists>c'. get_coordination_job L' (tu_owner_id t) = Some c' \<and> j_version c < j_version c')"
  using s
  by (auto simp: submit_coordination_def submit_job_def Let_def versions_grow_def get_coordination_job_def
      tbl_insert_def add_receipt_def put_job_def next_job_def split: option.splits if_splits sum.splits
      dest!: job_init_version)

lemma job_step_grows:
  assumes step: "job_step L L'" and ok: "jobs_ok L"
  shows "versions_grow L L'"
  using step
proof (cases rule: job_step.cases)
  case (submit clk turn rid x)
  then show ?thesis using submit_grows(1) by (cases x) blast
next
  case (claim_job clk own x)
  then show ?thesis
    by (auto simp: claim_coordination_job_def get_coordination_job_def intro!: put_job_grows
        dest!: job_init_version split: option.splits if_splits sum.splits)
next
  case (finish_job clk job r e x)
  then show ?thesis
    by (auto simp: finish_coordination_job_def get_coordination_job_def intro!: put_job_grows
        dest!: job_init_version split: option.splits if_splits sum.splits)
next
  case (release_job clk job x)
  then show ?thesis
    by (auto simp: release_coordination_job_def get_coordination_job_def intro!: put_job_grows
        dest!: job_init_version split: option.splits if_splits sum.splits)
next
  case (recover_jobs clk x)
  have "\<exists>c. get_coordination_job L (j_owner_id j) = Some c \<and> j_version c = j_version j"
    if "j \<in> set (tbl_list (l_jobs L) None)" for j
    using keyed_list_get [OF _ that, of j_owner_id] ok by (simp add: jobs_ok_def get_coordination_job_def)
  moreover from recover_jobs have "recover_jobs clk 0 (tbl_list (l_jobs L) None) L = Inr L'"
    by (simp add: recover_coordination_jobs_def split: sum.splits)
  ultimately show ?thesis by (blast intro: recover_grows)
qed

lemma run_grows: "ledger_step\<^sup>*\<^sup>* L L' \<Longrightarrow> jobs_ok L \<Longrightarrow> versions_grow L L'"
proof (induction rule: rtranclp_induct)
  case base
  then show ?case by (simp add: same_jobs_grow)
next
  case (step M N)
  have "jobs_ok M"
    using step.hyps(1) step.prems
  proof (induction rule: rtranclp_induct)
    case (step A B)
    then show ?case using step_table(1) ok_congs(1) job_step_ok by metis
  qed
  then have "versions_grow M N" using step_table(1) [OF step.hyps(2)] job_step_grows same_jobs_grow by blast
  with step show ?case using versions_grow_trans by blast
qed

lemma stale_plan_is_dropped:
  assumes "\<not> coordination_is_current (gw_ledger g) job"
  shows "end_coordination X job turn (Inr plan) g = (Inr (), g)"
  using assms by (simp add: end_coordination_def rescue_def use_plan_def run_simps)

lemma begun_job:
  assumes "begin_coordination X pol own g = (Inr (Some (job, turn, ctx)), g')" and ok: "jobs_ok (gw_ledger g)"
  shows "get_coordination_job (gw_ledger g') own = Some job \<and> j_owner_id job = own"
proof -
  from assms(1) obtain L' where c: "claim_coordination_job (gw_ledger g) (x_clock X (gw_calls g)) own = Inr (Some job, L')"
    and L': "gw_ledger g' = L'"
    by (auto simp: begin_coordination_def run_simps lift_res_def
      elim!: cbind_InrE seq_InrE commit_InrE split: if_splits option.splits sum.splits)
  from c obtain j where "get_coordination_job (gw_ledger g) own = Some j" "j_owner_id job = j_owner_id j"
    and "L' = put_job job own (x_clock X (gw_calls g) 1) (gw_ledger g)"
    by (auto simp: claim_coordination_job_def get_coordination_job_def split: option.splits if_splits sum.splits
      dest!: job_init_version)
  with jobs_okD [OF ok] show ?thesis by (simp add: L' get_coordination_job_def)
qed

text \<open>C8: While the model prepares a plan for a claimed turn, the owner may speak again.  Once the owner's
  job has another version, whatever happens then, the plan is dropped when it arrives: none of its
  commands is carried out, and the gateway is left as it was.\<close>

theorem superseded_plan_is_dropped:
  assumes fresh: "fresh_ids X"
    and before: "gateway_run X pol f ops (new_gateway empty_ledger) g"
    and claimed: "begin_coordination X pol own g = (Inr (Some (job, turn, ctx)), g1)"
    and between: "gateway_run X pol f ops' g1 g2"
    and newer: "get_coordination_job (gw_ledger g2) own = Some newer" "j_version newer \<noteq> j_version job"
    and later: "gateway_run X pol f ops'' g2 g3"
  shows "end_coordination X job turn (Inr plan) g3 = (Inr (), g3)"
proof (rule stale_plan_is_dropped)
  have k: "ids_known X g1"
    using stepwiseD [OF stepwise_begin_job claimed] run_known [OF fresh before] fresh by (simp add: method_step_def)
  have s12: "ledger_step\<^sup>*\<^sup>* (gw_ledger g1) (gw_ledger g2)" and k2: "ids_known X g2"
    using run_method_step [OF between] fresh k by (simp_all add: method_step_def)
  have s23: "ledger_step\<^sup>*\<^sup>* (gw_ledger g2) (gw_ledger g3)"
    using run_method_step [OF later] fresh k2 by (simp add: method_step_def)
  have s01: "ledger_step\<^sup>*\<^sup>* empty_ledger (gw_ledger g1)"
    using stepwiseD [OF stepwise_begin_job claimed] run_known [OF fresh before] fresh
    by (meson method_step_def rtranclp_trans)
  have ok: "jobs_ok (gw_ledger g)" "jobs_ok (gw_ledger g1)" "jobs_ok (gw_ledger g2)"
    using run_known [OF fresh before] s01 s12 run_ok empty_ledger_ok unfolding ledger_ok_def
    by (metis rtranclp_trans)+
  from begun_job [OF claimed ok(1)] have own: "j_owner_id job = own"
    and j1: "get_coordination_job (gw_ledger g1) own = Some job" by auto
  from run_grows [OF s12 ok(2)] j1 newer have "j_version job < j_version newer"
    by (fastforce simp: versions_grow_def)
  moreover obtain last where "get_coordination_job (gw_ledger g3) own = Some last" "j_version newer \<le> j_version last"
    using run_grows [OF s23 ok(3)] newer(1) by (auto simp: versions_grow_def)
  ultimately show "\<not> coordination_is_current (gw_ledger g3) job"
    by (simp add: coordination_is_current_def own)
qed

section \<open>Foreign plans\<close>

text \<open>A command about something that is not the owner's: an unknown task or interaction, or one of
  another owner, or a task to be created in another owner's project.\<close>

fun names_foreign :: "TaskLedger \<Rightarrow> string \<Rightarrow> CoordinatorCommand \<Rightarrow> bool" where
  "names_foreign L own (CreateTask c) \<longleftrightarrow> (case ct_project_id c of None \<Rightarrow> False
     | Some k \<Rightarrow> (case get_project L k of None \<Rightarrow> True | Some p \<Rightarrow> pr_owner_id p \<noteq> own))"
| "names_foreign L own (SendTask c) \<longleftrightarrow> own \<notin> t_owner_id ` set_option (get_task L (sd_task_id c))"
| "names_foreign L own (UpdateContract k b) \<longleftrightarrow> own \<notin> t_owner_id ` set_option (get_task L k)"
| "names_foreign L own (CancelTask k) \<longleftrightarrow> own \<notin> t_owner_id ` set_option (get_task L k)"
| "names_foreign L own (ResolveInteraction c) \<longleftrightarrow>
     own \<notin> i_owner_id ` set_option (get_interaction L (ri_interaction_id c))"

lemma foreign_command_error: "names_foreign L own c \<Longrightarrow> command_error X L own c \<noteq> None"
  by (cases c) (auto simp: create_error_def owned_error_def resolve_error_def split: option.splits simp del: not_None_eq)

text \<open>C22: A plan with any command about something that is not the owner's is refused as a whole before its
  first command: the gateway stays as it was.\<close>

theorem foreign_plan_is_refused:
  assumes "\<exists>c \<in> set (pl_commands plan). names_foreign (gw_ledger g) own c"
  shows "\<exists>e. apply_plan X plan own rid src turn g = (Inl e, g)"
proof -
  from assms obtain c where c: "c \<in> set (pl_commands plan)" "names_foreign (gw_ledger g) own c" by blast
  have "validate_plan X (gw_ledger g) plan own rid turn \<noteq> None"
    unfolding validate_plan_def first_problem_None_iff set_append set_map using c foreign_command_error by blast
  then show ?thesis by (auto simp: apply_plan_def run_simps)
qed

end
