(* ===== verification/ControlFrames.thy ===== *)
theory ControlFrames
  imports ControlSteps
begin

text \<open>
  Frames of the gateway's methods: the tables a method writes, whatever it returns; and what the methods
  that end a task leave behind.
\<close>

section \<open>Methods that write only some tables\<close>

definition confined :: "table_name set \<Rightarrow> 'a control \<Rightarrow> bool" where
  "confined S m \<longleftrightarrow> (\<forall>g. writes_only S (gw_ledger g) (gw_ledger (snd (m g))))"

named_theorems frame_intros "methods that write only some tables"

lemma writes_only_trans: "writes_only S A B \<Longrightarrow> writes_only S B C \<Longrightarrow> writes_only S A C"
  by (simp add: writes_only_iff)

lemma writes_only_mono: "writes_only S A B \<Longrightarrow> S \<subseteq> T \<Longrightarrow> writes_only T A B"
  by (auto simp: writes_only_def)

lemma confinedD: "confined S m \<Longrightarrow> m g = (r, g') \<Longrightarrow> writes_only S (gw_ledger g) (gw_ledger g')"
  unfolding confined_def by (metis snd_conv)

lemma confinedI: "(\<And>g r g'. m g = (r, g') \<Longrightarrow> writes_only S (gw_ledger g) (gw_ledger g')) \<Longrightarrow> confined S m"
  unfolding confined_def by (metis prod.collapse)

lemma confined_still: "(\<And>g. gw_ledger (snd (m g)) = gw_ledger g) \<Longrightarrow> confined S m"
  by (simp add: confined_def)

lemma confined_basics [frame_intros]:
  "confined S (ret x)" "confined S (throw e)" "confined S (fetch f)" "confined S (look h)"
  "confined S (look_now X k)" "confined S (change c)" "confined S (now X)" "confined S (new_id X p)"
  "confined S (await a)" "confined S (lift_res r)" "confined S (need e y)"
  by (rule confined_still; simp add: ret_def throw_def fetch_def look_def look_now_def change_def now_def
      new_id_def bump_def await_def lift_res_def need_def split: sum.split option.split)+

lemma confined_bind [frame_intros]:
  assumes m: "confined S m" and f: "\<And>x. confined S (f x)"
  shows "confined S (cbind m f)"
proof (rule confinedI)
  fix g r g'' assume run: "cbind m f g = (r, g'')"
  obtain o1 g' where 1: "m g = (o1, g')" by fastforce
  note s = confinedD [OF m 1]
  show "writes_only S (gw_ledger g) (gw_ledger g'')"
  proof (cases o1)
    case (Inl e)
    with run 1 s show ?thesis by (simp add: cbind_def)
  next
    case (Inr x)
    with run 1 have "f x g' = (r, g'')" by (simp add: cbind_def)
    from writes_only_trans [OF s confinedD [OF f this]] show ?thesis .
  qed
qed

lemma confined_seq [frame_intros]: "confined S m \<Longrightarrow> confined S n \<Longrightarrow> confined S (seq m n)"
  unfolding seq_def by (rule confined_bind)

lemma confined_rescue [frame_intros]:
  assumes m: "confined S m" and h: "\<And>e. confined S (h e)"
  shows "confined S (rescue m h)"
proof (rule confinedI)
  fix g r g'' assume run: "rescue m h g = (r, g'')"
  obtain o1 g' where 1: "m g = (o1, g')" by fastforce
  note s = confinedD [OF m 1]
  show "writes_only S (gw_ledger g) (gw_ledger g'')"
  proof (cases o1)
    case (Inl e)
    with run 1 have "h e g' = (r, g'')" by (simp add: rescue_def)
    from writes_only_trans [OF s confinedD [OF h this]] show ?thesis .
  next
    case (Inr x)
    with run 1 s show ?thesis by (simp add: rescue_def)
  qed
qed

lemma confined_each [frame_intros]: "(\<And>x. confined S (f x)) \<Longrightarrow> confined S (each f xs)"
  by (induction xs) (simp_all add: confined_basics confined_seq)

lemma confined_unless [frame_intros]: "confined S m \<Longrightarrow> confined S (unless b m)"
  by (simp add: unless_def confined_basics)

lemma confined_if [frame_intros]: "confined S m \<Longrightarrow> confined S n \<Longrightarrow> confined S (if b then m else n)"
  by simp

lemma confined_let [frame_intros]: "(\<And>x. confined S (f x)) \<Longrightarrow> confined S (let x = v in f x)"
  by simp

lemma confined_option [frame_intros]:
  "confined S m \<Longrightarrow> (\<And>x. confined S (f x)) \<Longrightarrow> confined S (case v of None \<Rightarrow> m | Some x \<Rightarrow> f x)"
  by (cases v) simp_all

lemma confined_prod [frame_intros]: "(\<And>x y. confined S (f x y)) \<Longrightarrow> confined S (case v of (x, y) \<Rightarrow> f x y)"
  by (cases v) simp_all

lemma confined_sum [frame_intros]:
  "(\<And>x. confined S (f x)) \<Longrightarrow> (\<And>y. confined S (h y)) \<Longrightarrow> confined S (case v of Inl x \<Rightarrow> f x | Inr y \<Rightarrow> h y)"
  by (cases v) simp_all

lemma confined_commit:
  assumes "\<And>L clk x L'. f L clk = Inr (x, L') \<Longrightarrow> writes_only T L L'" and "T \<subseteq> S"
  shows "confined S (commit X f)"
proof (rule confinedI)
  fix g r g' assume "commit X f g = (r, g')"
  then show "writes_only S (gw_ledger g) (gw_ledger g')"
    using assms writes_only_mono
    by (fastforce simp: commit_def bump_def split: sum.splits prod.splits)
qed

lemma confined_commit_only:
  assumes "\<And>L clk. writes_only T L (f L clk)" and "T \<subseteq> S"
  shows "confined S (commit_only X f)"
  unfolding commit_only_def using assms by (intro confined_commit [of _ T]) auto

lemma confined_commit_pair:
  assumes "\<And>L clk. writes_only T L (snd (f L clk))" and "T \<subseteq> S"
  shows "confined S (commit_pair X f)"
proof -
  have "f L clk = (x, L') \<Longrightarrow> writes_only T L L'" for L clk x L' using assms(1) [of L clk] by simp
  then show ?thesis unfolding commit_pair_def using assms(2) by (intro confined_commit [of _ T]) auto
qed

section \<open>The ledger's calls\<close>

lemma save_task_writes: "save_task L clk task = Inr (x, L') \<Longrightarrow> writes_only {Tasks} L L'"
  by (auto simp: save_task_def Let_def writes_only_iff split: option.splits sum.splits if_splits)

lemma save_run_writes: "save_run L clk run own = Inr (x, L') \<Longrightarrow> writes_only {Runs} L L'"
  by (auto simp: save_run_def Let_def writes_only_iff split: option.splits)

lemma confined_put_task [frame_intros]: "{Tasks} \<subseteq> S \<Longrightarrow> confined S (put_task X t)"
  unfolding put_task_def by (intro frame_intros confined_commit [OF save_task_writes])

lemma confined_save_task [frame_intros]: "{Tasks} \<subseteq> S \<Longrightarrow> confined S (commit X (\<lambda>L clk. save_task L clk t))"
  by (intro confined_commit [OF save_task_writes])

lemma confined_save_run [frame_intros]: "{Runs} \<subseteq> S \<Longrightarrow> confined S (commit X (\<lambda>L clk. save_run L clk r own))"
  by (intro confined_commit [OF save_run_writes])

lemma confined_put_run [frame_intros]: "{Runs} \<subseteq> S \<Longrightarrow> confined S (put_run X r own)"
  unfolding put_run_def by (intro frame_intros)

lemma confined_keep [frame_intros]: "{Interactions} \<subseteq> S \<Longrightarrow> confined S (keep_interaction X i)"
  unfolding keep_interaction_def
  by (rule confined_commit_only [OF interaction_step_writes]) (rule interaction_step.intros)

lemma confined_cancel_commands [frame_intros]:
  "{Commands} \<subseteq> S \<Longrightarrow> confined S (commit_only X (\<lambda>L clk. cancel_provider_commands_for_interaction L clk k))"
  by (rule confined_commit_only [OF command_step_writes]) (rule command_step.intros)

lemma confined_fail_commands [frame_intros]: "{Commands} \<subseteq> S \<Longrightarrow> confined S (fail_commands X r e)"
  unfolding fail_commands_def by (rule confined_commit_only [OF command_step_writes]) (rule command_step.intros)

lemma confined_cancel_deliveries [frame_intros]:
  "{Deliveries, Markers} \<subseteq> S \<Longrightarrow> confined S (cancel_deliveries X k)"
  unfolding cancel_deliveries_def by (rule confined_commit_only [OF delivery_step_writes]) (rule delivery_step.intros)

lemma create_delivery_writes: "create_delivery_once L clk mk d = Inr (x, L') \<Longrightarrow> writes_only {Deliveries, Markers} L L'"
  by (auto simp: create_delivery_once_def add_marker_def writes_only_iff Let_def
      split: option.splits if_splits sum.splits)

lemma enqueue_writes: "enqueue L clk k own t e i tm tp sh dk st = Inr (x, L') \<Longrightarrow> writes_only {Deliveries, Markers} L L'"
  by (auto simp: enqueue_def bindE_Inr_iff split: if_splits dest: create_delivery_writes)

lemma confined_deliver [frame_intros]:
  "{Deliveries, Markers} \<subseteq> S \<Longrightarrow> confined S (enqueue_delivery X own t e i tm tp sh dk st)"
  unfolding enqueue_delivery_def by (intro frame_intros confined_commit [OF enqueue_writes])

lemma flush_writes: "flush_activity_aggregate L clk k = Inr (x, L') \<Longrightarrow> writes_only {Aggregates} L L'"
  by (auto simp: flush_activity_aggregate_def put_aggregate_def writes_only_iff bindE_Inr_iff
      split: option.splits if_splits sum.splits)

lemma confined_flush [frame_intros]:
  "{Aggregates, Deliveries, Markers} \<subseteq> S \<Longrightarrow> confined S (flush_aggregate X k)"
  unfolding flush_aggregate_def by (intro frame_intros confined_commit [OF flush_writes]) auto

lemma confined_flush_all [frame_intros]:
  "{Aggregates, Deliveries, Markers} \<subseteq> S \<Longrightarrow> confined S (flush_task_aggregates X k)"
  unfolding flush_task_aggregates_def by (intro frame_intros)

lemma mark_writes: "mark_event_processed L k = Inr (x, L') \<Longrightarrow> writes_only {Events} L L'"
  by (auto simp: mark_event_processed_def writes_only_iff split: if_splits)

lemma confined_mark [frame_intros]:
  "{Events} \<subseteq> S \<Longrightarrow> confined S (commit X (\<lambda>L clk. mark_event_processed L k))"
  by (rule confined_commit [OF mark_writes])

lemma confined_lookups [frame_intros]:
  "confined S (owned_task k own)" "confined S (provider X n)" "confined S (required_contract task)"
  "confined S (active_run task)" "confined S (finish_event k)" "confined S (schedule k)"
  unfolding owned_task_def provider_def required_contract_def active_run_def finish_event_def schedule_def
  by (intro frame_intros)+

lemma confined_announce [frame_intros]:
  "{Deliveries, Markers} \<subseteq> S \<Longrightarrow> confined S (announce_end X task tm e sp st)"
  unfolding announce_end_def by (intro frame_intros)

lemma confined_close [frame_intros]:
  "{Interactions, Commands, Deliveries, Markers} \<subseteq> S \<Longrightarrow> confined S (close_interaction X i)"
  unfolding close_interaction_def by (intro frame_intros) auto

lemma confined_refresh [frame_intros]: "{Tasks} \<subseteq> S \<Longrightarrow> confined S (refresh_blocked X k)"
  unfolding refresh_blocked_def by (intro frame_intros)

section \<open>What single writes leave\<close>

lemma put_task_InrE:
  assumes "put_task X task g = (Inr t', g')"
  shows "TaskRecord_init task = Inr t'"
    and "get_task (gw_ledger g') k = (if k = t_task_id task then Some t' else get_task (gw_ledger g) k)"
    and "writes_only {Tasks} (gw_ledger g) (gw_ledger g')"
proof -
  from assms obtain L' where t: "TaskRecord_init task = Inr t'"
    and s: "save_task (gw_ledger g) (x_clock X (gw_calls g)) t' = Inr ((), L')" and g': "gw_ledger g' = L'"
    by (auto simp: put_task_def lift_res_def run_simps elim!: cbind_InrE commit_InrE split: sum.splits)
  show "TaskRecord_init task = Inr t'" by (rule t)
  show "get_task (gw_ledger g') k = (if k = t_task_id task then Some t' else get_task (gw_ledger g) k)"
    using s TaskRecord_init_fields [OF t] by (auto simp: g' save_task_def get_task_def Let_def split: option.splits)
  show "writes_only {Tasks} (gw_ledger g) (gw_ledger g')" unfolding g' by (rule save_task_writes [OF s])
qed

lemma get_interaction_put [simp]:
  "get_interaction (put_interaction L n i) k = (if k = i_interaction_id i then Some i else get_interaction L k)"
  by (simp add: get_interaction_def put_interaction_def)

lemma commit_only_run: "commit_only X f g = (Inr (), (bump g)\<lparr>gw_ledger := f (gw_ledger g) (x_clock X (gw_calls g))\<rparr>)"
  by (simp add: commit_only_def commit_def)

section \<open>What blocks a task is kept current\<close>

text \<open>After \<open>_refresh_blocked\<close> a task that has not task_ended records exactly what its open interactions
  block: the actions and branches they name, and the whole run if one of them asks for it.\<close>

theorem blocked_state_is_current:
  assumes run: "refresh_blocked X k g = (Inr (), g')" and ok: "tasks_ok (gw_ledger g)"
    and task: "get_task (gw_ledger g') k = Some task" and alive: "\<not> task_terminal task"
  shows "blocked_of task = blocked_by (open_for (gw_ledger g') task)"
proof (cases "get_task (gw_ledger g) k")
  case None
  with run task show ?thesis by (auto simp: refresh_blocked_def run_simps)
next
  case (Some old)
  have id: "t_task_id old = k" using ok Some by (auto simp: tasks_ok_def tasks_keyed_def get_task_def intro: own_keyed_get_key)
  show ?thesis
  proof (cases "task_terminal old \<or> blocked_by (open_for (gw_ledger g) old) = blocked_of old")
    case True
    with run Some task alive show ?thesis by (auto simp: refresh_blocked_def run_simps split: if_splits)
  next
    case False
    let ?new = "\<lambda>n. old\<lparr>t_blocked_actions := fst (blocked_by (open_for (gw_ledger g) old)),
      t_blocked_branches := fst (snd (blocked_by (open_for (gw_ledger g) old))),
      t_run_blocked := snd (snd (blocked_by (open_for (gw_ledger g) old))), t_updated_at_ms := n\<rparr>"
    from run Some False obtain n t' where put: "put_task X (?new n) (bump g) = (Inr t', g')"
      by (auto simp: refresh_blocked_def run_simps now_def elim!: cbind_InrE)
    have t': "task = t'" using put_task_InrE(2) [OF put, of k] task id by simp
    from ok Some have lineage: "t_lineage_id old \<noteq> []" unfolding tasks_ok_def by (blast dest: TaskRecord_init_lineage)
    then have "t' = ?new n" using TaskRecord_init_fields [OF put_task_InrE(1) [OF put]] by simp
    moreover have "list_interactions (gw_ledger g') own = list_interactions (gw_ledger g) own" for own
      using put_task_InrE(3) [OF put] by (simp add: writes_only_iff list_interactions_def bump_def)
    ultimately show ?thesis by (simp add: t' blocked_of_def open_for_def)
  qed
qed

end
