(* ===== verification/ControlEndings.thy ===== *)
theory ControlEndings
  imports ControlFrames ControlProperties
begin

text \<open>
  The end of a task: what a worker's \<open>done\<close> event leaves in the ledger when it has been reduced.
\<close>

section \<open>Runs are stored under their own ids\<close>

definition runs_keyed :: "TaskLedger \<Rightarrow> bool" where
  "runs_keyed L \<longleftrightarrow> (\<forall>k r. get_run L k = Some r \<longrightarrow> r_run_id r = k)"

lemma RunRecord_init_same: "RunRecord_init r = Inr r' \<Longrightarrow> r' = r"
  by (simp add: RunRecord_init_def)

lemma runs_keyed_put: "runs_keyed L \<Longrightarrow> l_runs L' = tbl_put (l_runs L) (r_run_id r) own r n \<Longrightarrow> runs_keyed L'"
  by (simp add: runs_keyed_def get_run_def)

lemma event_step_runs_keyed:
  assumes "event_step L L'" and ok: "runs_keyed L"
  shows "runs_keyed L'"
  using assms(1)
proof (cases rule: event_step.cases)
  case (save_run clk run own u)
  then show ?thesis by (auto simp: save_run_def Let_def intro!: runs_keyed_put [OF ok] split: option.splits)
next
  case (append_event clk ev b)
  then have "L' = L \<or> (\<exists>run n own. l_runs L' = tbl_put (l_runs L) (r_run_id run) own (run\<lparr>r_last_event_seq := e_seq ev\<rparr>) n)"
    by (auto simp: append_event_def bindE_Inr_iff add_entry_def dest!: RunRecord_init_same
        split: option.splits if_splits) (blast | meson)+
  moreover have "runs_keyed L'" if "l_runs L' = tbl_put (l_runs L) (r_run_id run) own (run\<lparr>r_last_event_seq := e_seq ev\<rparr>) n"
    for run n own
    using ok by (simp add: runs_keyed_def get_run_def that)
  ultimately show ?thesis using ok by blast
next
  case (mark_event eid u)
  then have "l_runs L' = l_runs L" by (auto simp: mark_event_processed_def split: if_splits)
  with ok show ?thesis by (simp add: runs_keyed_def get_run_def)
qed

lemma ledger_step_runs_keyed:
  assumes "ledger_step L L'" and ok: "runs_keyed L"
  shows "runs_keyed L'"
proof (cases "event_step L L'")
  case True
  then show ?thesis using ok by (rule event_step_runs_keyed)
next
  case False
  with step_table(4) [OF assms(1)] have "l_runs L' = l_runs L" by blast
  with ok show ?thesis by (simp add: runs_keyed_def get_run_def)
qed

lemma runs_keyed_run: "ledger_step\<^sup>*\<^sup>* L L' \<Longrightarrow> runs_keyed L \<Longrightarrow> runs_keyed L'"
  by (induction rule: rtranclp_induct) (simp_all add: ledger_step_runs_keyed)

section \<open>Closing what is open\<close>

definition closed_for :: "TaskLedger \<Rightarrow> string \<Rightarrow> bool" where
  "closed_for L run_id \<longleftrightarrow> (\<forall>k c. get_provider_command L k = Some c \<longrightarrow> c_run_id c = run_id \<longrightarrow>
     c_state c \<notin> {CPending, CSending})"

lemma rewrite_commands_frame [simp]: "get_interaction (rewrite_commands L clk P f) k = get_interaction L k"
  by (simp add: rewrite_commands_def get_interaction_def)

lemma cancel_deliveries_frame [simp]:
  "get_interaction (cancel_interaction_deliveries L clk j) k = get_interaction L k"
  "l_commands (cancel_interaction_deliveries L clk j) = l_commands L"
  by (simp_all add: cancel_interaction_deliveries_def get_interaction_def Let_def)

lemma put_interaction_frame [simp]: "l_commands (put_interaction L n i) = l_commands L"
  by (simp add: put_interaction_def)

lemma cancel_closed_for:
  assumes "commands_keyed L"
  shows "commands_keyed (cancel_provider_commands_for_interaction L clk j)"
    and "closed_for L run_id \<Longrightarrow> closed_for (cancel_provider_commands_for_interaction L clk j) run_id"
  using assms unfolding cancel_provider_commands_for_interaction_def
  by (simp_all add: rewrite_commands_keyed closed_for_def rewrite_commands_get) auto

lemma same_commands:
  "l_commands L' = l_commands L \<Longrightarrow> commands_keyed L' = commands_keyed L \<and> closed_for L' = closed_for L"
  by (simp add: commands_keyed_def closed_for_def get_provider_command_def fun_eq_iff)

definition closing :: "TaskLedger \<Rightarrow> PendingInteraction list \<Rightarrow> TaskLedger \<Rightarrow> bool" where
  "closing L is L' \<longleftrightarrow> (\<forall>k j. get_interaction L' k = Some j \<longrightarrow> i_state j = ICancelled \<or>
     k \<notin> i_interaction_id ` set is \<and> get_interaction L k = Some j) \<and>
     (commands_keyed L \<longrightarrow> commands_keyed L' \<and> (\<forall>run_id. closed_for L run_id \<longrightarrow> closed_for L' run_id))"

lemma closingD:
  "closing L is L' \<Longrightarrow> get_interaction L' k = Some j \<Longrightarrow> i_state j \<noteq> ICancelled \<Longrightarrow>
   k \<notin> i_interaction_id ` set is \<and> get_interaction L k = Some j"
  unfolding closing_def by blast

lemma close_interaction_closes:
  assumes run: "close_interaction X i g = (r, g')"
  shows "r = Inr () \<and> closing (gw_ledger g) [i] (gw_ledger g')"
proof -
  let ?t = "x_clock X (gw_calls g) 0"
  let ?M = "put_interaction (gw_ledger g) (x_clock X (Suc (gw_calls g)) 0) (cancelled_interaction ?t i)"
  let ?N = "cancel_provider_commands_for_interaction ?M (x_clock X (Suc (Suc (gw_calls g)))) (i_interaction_id i)"
  have r: "r = Inr ()" and L: "gw_ledger g' = cancel_interaction_deliveries ?N
      (x_clock X (Suc (Suc (Suc (gw_calls g))))) (i_interaction_id i)"
    using run by (auto simp: close_interaction_def cbind_def seq_def now_def bump_def keep_interaction_def
      commit_only_run cancel_deliveries_def save_interaction_def)
  have "i_state j = ICancelled \<or> k \<notin> i_interaction_id ` set [i] \<and> get_interaction (gw_ledger g) k = Some j"
    if "get_interaction (gw_ledger g') k = Some j" for k j
    using that by (auto simp: L cancel_provider_commands_for_interaction_def cancelled_interaction_def split: if_splits)
  moreover have "commands_keyed (gw_ledger g') \<and> (\<forall>run_id. closed_for (gw_ledger g) run_id \<longrightarrow> closed_for (gw_ledger g') run_id)"
    if k: "commands_keyed (gw_ledger g)"
  proof -
    have "commands_keyed ?M \<and> closed_for ?M = closed_for (gw_ledger g)" using same_commands [of ?M "gw_ledger g"] k by simp
    with cancel_closed_for [of ?M] have "commands_keyed ?N \<and> (\<forall>run_id. closed_for (gw_ledger g) run_id \<longrightarrow> closed_for ?N run_id)"
      by simp
    with same_commands [of "gw_ledger g'" ?N] show ?thesis by (simp add: L)
  qed
  ultimately show ?thesis using r by (simp add: closing_def)
qed

lemma closing_trans: "closing A is B \<Longrightarrow> closing B js C \<Longrightarrow> closing A (is @ js) C"
  unfolding closing_def set_append image_Un by blast

lemma close_each_closes:
  "each (close_interaction X) is g = (r, g') \<Longrightarrow> r = Inr () \<and> closing (gw_ledger g) is (gw_ledger g')"
proof (induction "is" arbitrary: g)
  case Nil
  then show ?case by (auto simp: run_simps closing_def)
next
  case (Cons i "is")
  obtain r1 g1 where 1: "close_interaction X i g = (r1, g1)" by fastforce
  with close_interaction_closes [OF 1] Cons.prems have "each (close_interaction X) is g1 = (r, g')"
    by (simp add: seq_def cbind_def)
  from Cons.IH [OF this] close_interaction_closes [OF 1] closing_trans [of "gw_ledger g" "[i]" "gw_ledger g1"]
  show ?case by auto
qed

lemma nothing_open:
  assumes c: "closing L (open_for L task) L'" and k: "interactions_keyed L" "interactions_keyed L'"
  shows "open_for L' task = []"
proof -
  have False if "i \<in> set (open_for L' task)" for i
  proof -
    from that have i: "i \<in> set (list_interactions L' (Some (t_owner_id task)))"
      and t: "i_task_id i = Some (t_task_id task)" "i_state i \<in> {IPending, IResolving}"
      by (auto simp: open_for_def)
    from i k(2) have g': "get_interaction L' (i_interaction_id i) = Some i" and own: "i_owner_id i = t_owner_id task"
      by (simp_all add: list_interactions_def interactions_keyed_def own_keyed_list_iff get_interaction_def)
    from t(2) have "i_state i \<noteq> ICancelled" by auto
    from closingD [OF c g' this] have n: "i_interaction_id i \<notin> i_interaction_id ` set (open_for L task)"
      and g: "get_interaction L (i_interaction_id i) = Some i" by auto
    from g own k(1) have "i \<in> set (list_interactions L (Some (t_owner_id task)))"
      by (simp add: list_interactions_def interactions_keyed_def own_keyed_list_iff get_interaction_def)
    with t n show False by (auto simp: open_for_def)
  qed
  then show ?thesis by (metis list.set_intros(1) list.exhaust)
qed

section \<open>The end of a task\<close>

definition sound :: "env \<Rightarrow> gateway \<Rightarrow> bool" where
  "sound X g \<longleftrightarrow> fresh_ids X \<and> ids_known X g \<and> ledger_ok (gw_ledger g) \<and> runs_keyed (gw_ledger g)"

lemma sound_after:
  assumes "stepwise X {} m" and "m g = (r, g')" and ok: "sound X g"
  shows "sound X g'"
  using stepwiseD [OF assms(1,2)] ok run_ok runs_keyed_run by (auto simp: sound_def method_step_def)

lemma soundD:
  assumes "sound X g"
  shows "tasks_ok (gw_ledger g)" "interactions_keyed (gw_ledger g)" "commands_keyed (gw_ledger g)" "runs_keyed (gw_ledger g)"
  using assms by (simp_all add: sound_def ledger_ok_def)

lemma sound_run:
  assumes "fresh_ids X" "gateway_run X pol f ops (new_gateway empty_ledger) g"
  shows "sound X g"
proof -
  have "runs_keyed empty_ledger" by (simp add: runs_keyed_def get_run_def empty_ledger_def)
  with run_known [OF assms] show ?thesis
    unfolding sound_def using assms(1) run_ok empty_ledger_ok runs_keyed_run by blast
qed

definition unblocked :: "TaskRecord \<Rightarrow> bool" where
  "unblocked task \<longleftrightarrow> blocked_of task = ([], [], False)"

lemma close_task_closes:
  assumes run: "close_task_interactions X k g = (Inr (), g')" and ok: "sound X g"
    and task: "get_task (gw_ledger g) k = Some task"
  shows "\<exists>n. get_task (gw_ledger g') k = Some (task\<lparr>t_blocked_actions := [], t_blocked_branches := [],
      t_run_blocked := False, t_updated_at_ms := n\<rparr>)"
    and "open_for (gw_ledger g') task = []"
    and "closed_for (gw_ledger g) run_id \<Longrightarrow> closed_for (gw_ledger g') run_id"
    and "get_run (gw_ledger g') run_id = get_run (gw_ledger g) run_id"
proof -
  have id: "t_task_id task = k" and lineage: "t_lineage_id task \<noteq> []"
    using soundD(1) [OF ok] task TaskRecord_init_lineage
    by (auto simp: tasks_ok_def tasks_keyed_def get_task_def intro: own_keyed_get_key)
  let ?clear = "cbind (look (\<lambda>L. get_task L k)) (\<lambda>again. case again of
      None \<Rightarrow> ret ()
    | Some current \<Rightarrow>
        (if t_blocked_actions current \<noteq> [] \<or> t_blocked_branches current \<noteq> [] \<or> t_run_blocked current
         then cbind (now X) (\<lambda>n.
           cbind (put_task X (current\<lparr>t_blocked_actions := [], t_blocked_branches := [],
             t_run_blocked := False, t_updated_at_ms := n\<rparr>)) (\<lambda>_. ret ()))
         else ret ()))"
  have same_task: "task\<lparr>t_task_id := k\<rparr> = task" using id by simp
  have "seq (each (close_interaction X) (open_for (gw_ledger g) task)) ?clear g = (Inr (), g')"
    using run by (simp only: close_task_interactions_def cbind_look task option.case same_task)
  then obtain g1 where e: "each (close_interaction X) (open_for (gw_ledger g) task) g = (Inr (), g1)"
    and rest: "?clear g1 = (Inr (), g')" by (rule seq_InrE)
  have c: "closing (gw_ledger g) (open_for (gw_ledger g) task) (gw_ledger g1)" using close_each_closes [OF e] by simp
  have "confined {Interactions, Commands, Deliveries, Markers} (each (close_interaction X) (open_for (gw_ledger g) task))"
    by (intro frame_intros) simp
  from confinedD [OF this e]
  have w: "writes_only {Interactions, Commands, Deliveries, Markers} (gw_ledger g) (gw_ledger g1)" .
  then have task1: "get_task (gw_ledger g1) k = Some task" using task by (simp add: get_task_def writes_only_iff)
  have "stepwise X {} (each (close_interaction X) (open_for (gw_ledger g) task))" by (intro steps_intros)
  from sound_after [OF this e ok] have ok1: "sound X g1" .
  have after: "(\<exists>n. get_task (gw_ledger g') k = Some (task\<lparr>t_blocked_actions := [], t_blocked_branches := [],
      t_run_blocked := False, t_updated_at_ms := n\<rparr>)) \<and> writes_only {Tasks} (gw_ledger g1) (gw_ledger g')"
  proof (cases "t_blocked_actions task \<noteq> [] \<or> t_blocked_branches task \<noteq> [] \<or> t_run_blocked task")
    case True
    with rest task1 obtain n t' where put: "put_task X (task\<lparr>t_blocked_actions := [], t_blocked_branches := [],
        t_run_blocked := False, t_updated_at_ms := n\<rparr>) (bump g1) = (Inr t', g')"
      by (auto simp: run_simps now_def elim!: cbind_InrE)
    from TaskRecord_init_fields [OF put_task_InrE(1) [OF put]] lineage put_task_InrE(2,3) [OF put] id
    show ?thesis by (auto simp: bump_def)
  next
    case False
    with rest task1 have "g' = g1" by (simp add: run_simps)
    moreover have "task = task\<lparr>t_blocked_actions := [], t_blocked_branches := [],
      t_run_blocked := False, t_updated_at_ms := t_updated_at_ms task\<rparr>" using False by simp
    ultimately show ?thesis using task1 by (metis writes_only_refl)
  qed
  then show "\<exists>n. get_task (gw_ledger g') k = Some (task\<lparr>t_blocked_actions := [], t_blocked_branches := [],
      t_run_blocked := False, t_updated_at_ms := n\<rparr>)" by simp
  have same: "l_interactions (gw_ledger g') = l_interactions (gw_ledger g1)"
    "l_commands (gw_ledger g') = l_commands (gw_ledger g1)" "l_runs (gw_ledger g') = l_runs (gw_ledger g1)"
    using after by (simp_all add: writes_only_iff)
  have "open_for (gw_ledger g1) task = []" by (rule nothing_open [OF c soundD(2) [OF ok] soundD(2) [OF ok1]])
  then show "open_for (gw_ledger g') task = []" by (simp add: open_for_def list_interactions_def same)
  show "closed_for (gw_ledger g) run_id \<Longrightarrow> closed_for (gw_ledger g') run_id"
    using c soundD(3) [OF ok] same_commands [OF same(2)] by (simp add: closing_def)
  show "get_run (gw_ledger g') run_id = get_run (gw_ledger g) run_id"
    using w same(3) by (simp add: get_run_def writes_only_iff)
qed

lemma fail_closed_for:
  assumes "commands_keyed L"
  shows "closed_for (fail_provider_commands_for_run L clk r e) r"
  unfolding closed_for_def
proof (intro allI impI)
  fix k c assume "get_provider_command (fail_provider_commands_for_run L clk r e) k = Some c" and "c_run_id c = r"
  moreover from this assms obtain z where
    "c = (if c_run_id z = r \<and> c_state z \<in> {CPending, CSending} then z\<lparr>c_state := CFailed, c_error := e\<rparr> else z)"
    unfolding fail_provider_commands_for_run_def by (auto simp only: rewrite_commands_get map_option_eq_Some) metis
  ultimately show "c_state c \<notin> {CPending, CSending}" by (auto split: if_splits)
qed

lemma fail_commands_closes:
  "fail_commands X r e g = (Inr (), g') \<Longrightarrow> commands_keyed (gw_ledger g) \<Longrightarrow> closed_for (gw_ledger g') r"
  by (auto simp: fail_commands_def commit_only_run fail_closed_for)

text \<open>What \<open>_reduce_done\<close> leaves of the task and its run.\<close>

definition task_ended :: "TaskLedger \<Rightarrow> WorkerEvent \<Rightarrow> DonePayload \<Rightarrow> bool" where
  "task_ended L event p \<longleftrightarrow> (\<exists>task run. get_task L (e_task_id event) = Some task \<and>
     get_run L (e_run_id event) = Some run \<and>
     t_status task = do_status p \<and> t_active_run_id task = None \<and> t_result task = do_result p \<and>
     blocked_of task = ([], [], False) \<and> open_for L task = [] \<and>
     r_status run = run_status_of (do_status p) \<and> r_ended_at_ms run \<noteq> None \<and>
     closed_for L (e_run_id event))"

lemma task_ended_frame:
  assumes "task_ended L ev p" and "writes_only {Deliveries, Markers, Events} L L'"
  shows "task_ended L' ev p"
proof -
  have "l_tasks L' = l_tasks L" "l_runs L' = l_runs L" "l_interactions L' = l_interactions L"
    "l_commands L' = l_commands L"
    using assms(2) by (simp_all add: writes_only_iff)
  with assms(1) show ?thesis
    by (simp add: task_ended_def get_task_def get_run_def open_for_def list_interactions_def closed_for_def
      get_provider_command_def)
qed

text \<open>The part of \<open>reduce_done\<close> for a run that is on record.\<close>

definition reduce_done_run ::
  "env \<Rightarrow> TaskRecord \<Rightarrow> ArbitrationDecision \<Rightarrow> WorkerEvent \<Rightarrow> DonePayload \<Rightarrow> RunRecord \<Rightarrow> unit control" where
  "reduce_done_run X task decided event p run =
     (let error = (if do_status p = TFailed then do_result p else []) in
           cbind (now X) (\<lambda>n.
           cbind (lift_res (TaskRecord_init (task\<lparr>t_status := do_status p, t_active_run_id := None,
             t_result := do_result p, t_error := error, t_updated_at_ms := n\<rparr>))) (\<lambda>task'.
           cbind (now X) (\<lambda>m.
           cbind (lift_res (RunRecord_init (run\<lparr>r_status := run_status_of (do_status p),
             r_ended_at_ms := Some m, r_error := error\<rparr>))) (\<lambda>run'.
           seq (cbind (commit X (\<lambda>L clk. save_task L clk task')) (\<lambda>_. ret ()))
           (seq (cbind (commit X (\<lambda>L clk. save_run L clk run' (t_owner_id task))) (\<lambda>_. ret ()))
           (seq (fail_commands X (e_run_id event) ''run is terminal'')
           (seq (close_task_interactions X (t_task_id task))
           (seq (finish_event (t_task_id task))
             (announce_end X task (rd_timing decided) (Some (e_event_id event)) (do_result p)
               (task_status_name (do_status p))))))))))))"

lemma cbind_now: "cbind (now X) f g = f (x_clock X (gw_calls g) 0) (bump g)"
  by (simp add: now_def cbind_def)

lemma cbind_lift: "cbind (lift_res r) f g = (case r of Inl e \<Rightarrow> (Inl (Raised e), g) | Inr x \<Rightarrow> f x g)"
  by (simp add: lift_res_def run_simps split: sum.split)

lemma done_run_InrE:
  assumes "reduce_done_run X task d ev p run g1 = (Inr (), g')"
  obtains n m task' run' g2 g3 g4 g5 where
    "TaskRecord_init (task\<lparr>t_status := do_status p, t_active_run_id := None, t_result := do_result p,
      t_error := (if do_status p = TFailed then do_result p else []), t_updated_at_ms := n\<rparr>) = Inr task'"
    and "RunRecord_init (run\<lparr>r_status := run_status_of (do_status p), r_ended_at_ms := Some m,
      r_error := (if do_status p = TFailed then do_result p else [])\<rparr>) = Inr run'"
    and "commit X (\<lambda>L clk. save_task L clk task') (bump (bump g1)) = (Inr (), g2)"
    and "commit X (\<lambda>L clk. save_run L clk run' (t_owner_id task)) g2 = (Inr (), g3)"
    and "fail_commands X (e_run_id ev) ''run is terminal'' g3 = (Inr (), g4)"
    and "close_task_interactions X (t_task_id task) g4 = (Inr (), g5)"
    and "seq (finish_event (t_task_id task)) (announce_end X task (rd_timing d) (Some (e_event_id ev))
      (do_result p) (task_status_name (do_status p))) g5 = (Inr (), g')"
proof -
  define err where "err = (if do_status p = TFailed then do_result p else [])"
  note e = assms [unfolded reduce_done_run_def Let_def, folded err_def]
  from e obtain n task' m run' where t': "TaskRecord_init (task\<lparr>t_status := do_status p, t_active_run_id := None,
      t_result := do_result p, t_error := err, t_updated_at_ms := n\<rparr>) = Inr task'"
    and r': "RunRecord_init (run\<lparr>r_status := run_status_of (do_status p), r_ended_at_ms := Some m,
      r_error := err\<rparr>) = Inr run'"
    and rest: "seq (cbind (commit X (\<lambda>L clk. save_task L clk task')) (\<lambda>_. ret ()))
           (seq (cbind (commit X (\<lambda>L clk. save_run L clk run' (t_owner_id task))) (\<lambda>_. ret ()))
           (seq (fail_commands X (e_run_id ev) ''run is terminal'')
           (seq (close_task_interactions X (t_task_id task))
           (seq (finish_event (t_task_id task))
             (announce_end X task (rd_timing d) (Some (e_event_id ev)) (do_result p)
               (task_status_name (do_status p))))))) (bump (bump g1)) = (Inr (), g')"
    by (auto simp: cbind_now cbind_lift split: sum.splits)
  from rest obtain g2 g3 where "commit X (\<lambda>L clk. save_task L clk task') (bump (bump g1)) = (Inr (), g2)"
    and "commit X (\<lambda>L clk. save_run L clk run' (t_owner_id task)) g2 = (Inr (), g3)"
    and three: "seq (fail_commands X (e_run_id ev) ''run is terminal'')
           (seq (close_task_interactions X (t_task_id task))
           (seq (finish_event (t_task_id task))
             (announce_end X task (rd_timing d) (Some (e_event_id ev)) (do_result p)
               (task_status_name (do_status p))))) g3 = (Inr (), g')"
    by (elim seq_InrE [of "cbind (commit X u) h" for u h] cbind_InrE) (auto simp: run_simps)
  moreover from three obtain g4 where "fail_commands X (e_run_id ev) ''run is terminal'' g3 = (Inr (), g4)"
    and two: "seq (close_task_interactions X (t_task_id task)) (seq (finish_event (t_task_id task))
      (announce_end X task (rd_timing d) (Some (e_event_id ev)) (do_result p)
        (task_status_name (do_status p)))) g4 = (Inr (), g')" by (rule seq_InrE)
  moreover from two obtain g5 where "close_task_interactions X (t_task_id task) g4 = (Inr (), g5)"
    and "seq (finish_event (t_task_id task)) (announce_end X task (rd_timing d) (Some (e_event_id ev))
      (do_result p) (task_status_name (do_status p))) g5 = (Inr (), g')" by (rule seq_InrE)
  ultimately show thesis using t' r' unfolding err_def by (intro that)
qed

lemma tasks_lineage: "sound X g \<Longrightarrow> get_task (gw_ledger g) k = Some task \<Longrightarrow> t_lineage_id task \<noteq> []"
  using soundD(1) [of X g] TaskRecord_init_lineage unfolding tasks_ok_def by blast

lemma reduce_done_ends:
  assumes run: "reduce_done X task d ev p g = (Inr (), g')" and ok: "sound X g"
    and task: "get_task (gw_ledger g) (e_task_id ev) = Some task"
    and r: "get_run (gw_ledger g) (e_run_id ev) = Some run"
  shows "task_ended (gw_ledger g') ev p"
proof -
  let ?k = "e_task_id ev" and ?r = "e_run_id ev"
  have id: "t_task_id task = ?k" using task_key [OF soundD(1) [OF ok] task] .
  have rid: "r_run_id run = ?r" using soundD(4) [OF ok] r by (simp add: runs_keyed_def)
  obtain g1 where flush: "flush_task_aggregates X (t_task_id task) g = (Inr (), g1)"
    and rest: "cbind (look (\<lambda>L. get_run L ?r)) (\<lambda>found. case found of
        None \<Rightarrow> ret ()
      | Some run \<Rightarrow> reduce_done_run X task d ev p run) g1 = (Inr (), g')"
    using run unfolding reduce_done_def reduce_done_run_def by (rule seq_InrE)
  have "confined {Aggregates, Deliveries, Markers} (flush_task_aggregates X (t_task_id task))" by (intro frame_intros) simp
  from confinedD [OF this flush] r have r1: "get_run (gw_ledger g1) ?r = Some run"
    by (simp add: writes_only_iff get_run_def)
  from sound_after [OF stepwise_flush_task flush ok] have ok1: "sound X g1" .
  from rest r1 have rest1: "reduce_done_run X task d ev p run g1 = (Inr (), g')" by simp
  from done_run_InrE [OF rest1] obtain n m task' run' g2 g3 g4 g5 where
    t': "TaskRecord_init (task\<lparr>t_status := do_status p, t_active_run_id := None, t_result := do_result p,
      t_error := (if do_status p = TFailed then do_result p else []), t_updated_at_ms := n\<rparr>) = Inr task'"
    and r': "RunRecord_init (run\<lparr>r_status := run_status_of (do_status p), r_ended_at_ms := Some m,
      r_error := (if do_status p = TFailed then do_result p else [])\<rparr>) = Inr run'"
    and save: "commit X (\<lambda>L clk. save_task L clk task') (bump (bump g1)) = (Inr (), g2)"
    and save_r: "commit X (\<lambda>L clk. save_run L clk run' (t_owner_id task)) g2 = (Inr (), g3)"
    and failed: "fail_commands X ?r ''run is terminal'' g3 = (Inr (), g4)"
    and closed: "close_task_interactions X (t_task_id task) g4 = (Inr (), g5)"
    and last: "seq (finish_event (t_task_id task)) (announce_end X task (rd_timing d) (Some (e_event_id ev))
      (do_result p) (task_status_name (do_status p))) g5 = (Inr (), g')" .
  have ok1': "sound X (bump (bump g1))" using ok1 by (auto simp: sound_def ids_known_def bump_def less_Suc_eq)
  have ti: "TaskRecord_init task' = Inr task'" by (rule TaskRecord_init_idem [OF t'])
  have rr: "RunRecord_init run' = Inr run'" using r' RunRecord_init_same [OF r'] by simp
  from sound_after [OF stepwise_save_task [OF ti] save ok1'] have ok2: "sound X g2" .
  from sound_after [OF stepwise_save_run [OF rr] save_r ok2] have ok3: "sound X g3" .
  have "stepwise X {} (fail_commands X ?r ''run is terminal'')" by (intro steps_intros)
  from sound_after [OF this failed ok3] have ok4: "sound X g4" .
  have id': "t_task_id task' = ?k" using TaskRecord_init_fields [OF t'] id by simp
  have task2: "get_task (gw_ledger g2) ?k = Some task'"
    using save id' by (auto simp: save_task_def get_task_def Let_def elim!: commit_InrE split: option.splits)
  have "confined {Runs} (commit X (\<lambda>L clk. save_run L clk run' (t_owner_id task)))" by (intro frame_intros) simp
  from confinedD [OF this save_r] task2 have task3: "get_task (gw_ledger g3) ?k = Some task'"
    by (simp add: writes_only_iff get_task_def)
  have "r_run_id run' = ?r" using RunRecord_init_same [OF r'] rid by simp
  then have run3: "get_run (gw_ledger g3) ?r = Some run'"
    using save_r by (auto simp: save_run_def get_run_def Let_def elim!: commit_InrE split: option.splits)
  have "confined {Commands} (fail_commands X ?r ''run is terminal'')" by (intro frame_intros) simp
  note w = confinedD [OF this failed]
  from w task3 have task4: "get_task (gw_ledger g4) ?k = Some task'" by (simp add: writes_only_iff get_task_def)
  from w run3 have run4: "get_run (gw_ledger g4) ?r = Some run'" by (simp add: writes_only_iff get_run_def)
  note c = close_task_closes [OF closed [unfolded id] ok4 task4]
  from c(1) obtain u where task5: "get_task (gw_ledger g5) ?k = Some (task'\<lparr>t_blocked_actions := [],
    t_blocked_branches := [], t_run_blocked := False, t_updated_at_ms := u\<rparr>)" ..
  have "closed_for (gw_ledger g5) ?r"
    using c(3) [of ?r] fail_commands_closes [OF failed soundD(3) [OF ok3]] by simp
  moreover have "t_status task' = do_status p \<and> t_active_run_id task' = None \<and> t_result task' = do_result p"
    using TaskRecord_init_fields [OF t'] tasks_lineage [OF ok task] by simp
  moreover have "open_for (gw_ledger g5) (task'\<lparr>t_blocked_actions := [], t_blocked_branches := [],
      t_run_blocked := False, t_updated_at_ms := u\<rparr>) = []"
    using c(2) by (simp add: open_for_def)
  moreover have "get_run (gw_ledger g5) ?r = Some run'" using c(4) [of ?r] run4 by simp
  moreover have "r_status run' = run_status_of (do_status p) \<and> r_ended_at_ms run' \<noteq> None"
    using RunRecord_init_same [OF r'] by simp
  ultimately have "task_ended (gw_ledger g5) ev p" using task5 by (simp add: task_ended_def blocked_of_def)
  moreover have f: "confined {Deliveries, Markers, Events} (seq (finish_event (t_task_id task)) (announce_end X task
      (rd_timing d) (Some (e_event_id ev)) (do_result p) (task_status_name (do_status p))))"
    by (intro frame_intros) simp
  ultimately show ?thesis using task_ended_frame confinedD [OF f last] by blast
qed

lemma appended_run:
  assumes "append_event L clk ev = Inr (True, L')"
  shows "\<exists>run. get_run L' (e_run_id ev) = Some run"
  using assms
  by (auto simp: append_event_def bindE_Inr_iff get_run_def add_entry_def split: option.splits if_splits)

text \<open>C7: When a worker's \<open>done\<close> event is taken in, the task and its run have task_ended the way the event
  says: the task has its result and no active run, nothing waits on it any more and nothing blocks it,
  no command to the run is left to send, and the run has an end.  A late command or answer finds
  nothing to act on.\<close>

theorem done_event_ends_the_task:
  assumes fresh: "fresh_ids X"
    and before: "gateway_run X pol f ops (new_gateway empty_ledger) g"
    and taken: "ingest_worker_event X pol f ev g = (Inr True, g')" and done': "e_payload ev = PDone p"
  shows "task_ended (gw_ledger g') ev p"
proof -
  have ok: "sound X g" by (rule sound_run [OF fresh before])
  obtain g1 g2 where append: "commit X (\<lambda>L clk. append_event L clk ev) g = (Inr True, g1)"
    and reduce: "reduce_event X pol f False ev g1 = (Inr (), g2)"
    and mark: "commit X (\<lambda>L clk. mark_event_processed L (e_event_id ev)) g2 = (Inr (), g')"
    using taken by (auto simp: ingest_worker_event_def run_simps elim!: cbind_InrE seq_InrE split: if_splits)
  have "stepwise X {} (commit X (\<lambda>L clk. append_event L clk ev))" by (intro steps_intros)
  from sound_after [OF this append ok] have ok1: "sound X g1" .
  obtain run where run: "get_run (gw_ledger g1) (e_run_id ev) = Some run"
    using append by (auto elim!: commit_InrE dest!: appended_run)
  obtain task d where task: "get_task (gw_ledger g1) (e_task_id ev) = Some task"
    and d: "reduce_done X task d ev p g1 = (Inr (), g2)"
    using reduce done'
    by (auto simp: reduce_event_def lift_res_def run_simps elim!: cbind_InrE
      dest!: owned_task_InrE need_InrE provider_InrE split: sum.splits if_splits)
  have "task_ended (gw_ledger g2) ev p" by (rule reduce_done_ends [OF d ok1 task run])
  moreover have c: "confined {Deliveries, Markers, Events} (commit X (\<lambda>L clk. mark_event_processed L (e_event_id ev)))"
    by (intro frame_intros) simp
  ultimately show ?thesis using task_ended_frame confinedD [OF c mark] by blast
qed

section \<open>A coordination that failed\<close>

lemma coordination_finished:
  assumes c: "get_coordination_job (gw_ledger g) own = Some cur" and own: "j_owner_id job = own"
    and same: "j_request_id cur = j_request_id job" "j_version cur = j_version job" "j_state cur = JCoordinating"
    and ok: "job_ok cur" and run: "finish_coordination X job result err g = (r, g')"
  shows "get_coordination_job (gw_ledger g') own = Some (cur\<lparr>j_state := (if err = [] then JCompleted else JFailed),
    j_result := Some result, j_error := err, j_updated_at_ms := x_clock X (gw_calls g) 0\<rparr>)"
proof -
  let ?j = "cur\<lparr>j_state := (if err \<noteq> [] then JFailed else JCompleted), j_result := Some result, j_error := err,
    j_updated_at_ms := x_clock X (gw_calls g) 0\<rparr>"
  have i: "CoordinationJob_init ?j = Inr ?j" by (rule job_ok_final [OF ok]) simp
  have f: "finish_coordination_job (gw_ledger g) (x_clock X (gw_calls g)) job result err =
      Inr (Some ?j, put_job ?j own (x_clock X (gw_calls g) 1) (gw_ledger g))"
    using c same own i by (simp add: finish_coordination_job_def holds_claim_def get_coordination_job_def)
  define g1 where "g1 = (bump g)\<lparr>gw_ledger := put_job ?j own (x_clock X (gw_calls g) 1) (gw_ledger g)\<rparr>"
  have r1: "deliver_coordination_result X ?j result g1 = (r, g')"
    using run f by (simp add: finish_coordination_def commit_def cbind_def g1_def)
  have "confined {Deliveries, Markers} (deliver_coordination_result X ?j result)"
    unfolding deliver_coordination_result_def by (intro frame_intros) simp_all
  from confinedD [OF this r1] have "l_jobs (gw_ledger g') = l_jobs (gw_ledger g1)" by (simp add: writes_only_iff)
  then have "get_coordination_job (gw_ledger g') own = Some ?j"
    by (simp add: get_coordination_job_def g1_def put_job_def)
  then show ?thesis by (simp split: if_splits)
qed

lemma stale_coordination_finished:
  assumes "\<not> coordination_is_current (gw_ledger g) job"
  shows "gw_ledger (snd (finish_coordination X job result err g)) = gw_ledger g"
proof -
  have "finish_coordination_job (gw_ledger g) (x_clock X (gw_calls g)) job result err = Inr (None, gw_ledger g)"
    using assms
    by (auto simp: finish_coordination_job_def holds_claim_def coordination_is_current_def get_coordination_job_def
      split: option.splits)
  then show ?thesis by (simp add: finish_coordination_def commit_def cbind_def ret_def)
qed

text \<open>C33: A failure of a claimed turn, reported after any further methods of the gateway have run.  If the
  claim still holds, the owner's job ends as rejected, for the reason "coordinator.unavailable", with the
  text of the error, and is marked failed, unless that text is empty: then it is marked completed, with an
  empty error.  The timeout of the model call is such an error, for \<open>str(TimeoutError())\<close> is the empty
  string.  If the claim no longer holds, the ledger stays as it is.\<close>

theorem timed_out_coordination_is_completed:
  assumes fresh: "fresh_ids X"
    and before: "gateway_run X pol f ops (new_gateway empty_ledger) g"
    and claimed: "begin_coordination X pol own g = (Inr (Some (job, turn, ctx)), g1)"
    and between: "gateway_run X pol f ops' g1 g2"
    and failed: "end_coordination X job turn (Inl err) g2 = (r, g3)"
  shows "if coordination_is_current (gw_ledger g2) job
    then \<exists>j result. get_coordination_job (gw_ledger g3) own = Some j \<and> j_request_id j = j_request_id job \<and>
      j_version j = j_version job \<and> j_state j = (if err = [] then JCompleted else JFailed) \<and> j_error j = err \<and>
      j_result j = Some result \<and> tc_disposition result = ''rejected'' \<and>
      tc_reason_key result = ''coordinator.unavailable'' \<and> tc_request_id result = j_request_id job
    else gw_ledger g3 = gw_ledger g2"
proof -
  let ?res = "(control_result (j_request_id job) ''rejected'')\<lparr>tc_reason_key := ''coordinator.unavailable''\<rparr>"
  have finish: "finish_coordination X job ?res err g2 = (r, g3)"
    using failed by (simp add: end_coordination_def finish_coordination_failure_def)
  note step1 = stepwiseD [OF stepwise_begin_job claimed]
  have k: "ids_known X g1" and s01: "ledger_step\<^sup>*\<^sup>* empty_ledger (gw_ledger g1)"
    using step1 run_known [OF fresh before] fresh by (simp_all add: method_step_def) (meson rtranclp_trans)
  have "ledger_step\<^sup>*\<^sup>* (gw_ledger g1) (gw_ledger g2)"
    using run_method_step [OF between] fresh k by (simp add: method_step_def)
  then have ok: "jobs_ok (gw_ledger g)" "jobs_ok (gw_ledger g2)"
    using run_known [OF fresh before] s01 run_ok empty_ledger_ok unfolding ledger_ok_def by (metis rtranclp_trans)+
  have own: "j_owner_id job = own" using begun_job [OF claimed ok(1)] by simp
  show ?thesis
  proof (cases "coordination_is_current (gw_ledger g2) job")
    case True
    then obtain cur where c: "get_coordination_job (gw_ledger g2) own = Some cur" "j_request_id cur = j_request_id job"
      "j_version cur = j_version job" "j_state cur = JCoordinating"
      by (auto simp: coordination_is_current_def own split: option.splits)
    have "job_ok cur" using jobs_okD [OF ok(2)] c(1) by (auto simp: get_coordination_job_def)
    from coordination_finished [OF c(1) own c(2-4) this finish] True c show ?thesis
      by (simp add: control_result_def)
  next
    case False
    from stale_coordination_finished [OF this, of X ?res err] finish False show ?thesis by simp
  qed
qed

end
