(* ===== verification/ControlWitnesses.thy ===== *)
theory ControlWitnesses
  imports ControlProperties ControlEndings Samples
begin

text \<open>
  The properties of the control plane, each applied to a concrete run: a task is started with a tool
  call, dispatched, asks for a permission, and ends.
\<close>

section \<open>A gateway\<close>

definition env1 :: env where
  "env1 = \<lparr>x_clock = (\<lambda>n. tick), x_new_id = (\<lambda>n p. p @ digits n), x_uuid5 = plain_hash,
     x_instance_id = ''g1'', x_providers = [(''codex'', caps1)], x_lean = True,
     x_permission_timeout_ms = 60000, x_max_queued_tasks = 8, x_terminal_task_ttl_ms = 3600000,
     x_max_terminal_tasks = 20, x_recent_task_window_ms = 600000, x_max_realtime_events = 20,
     x_screen_window_ms = 5000, x_send = (\<lambda>n r m. Inr True), x_cancel = (\<lambda>n r c. Inr True),
     x_error_text = (\<lambda>e. [])\<rparr>"

definition context_policy1 :: CoordinatorContextPolicy where
  "context_policy1 = \<lparr>xp_max_active_tasks = 12, xp_max_recent_tasks = 4, xp_max_projects = 8, xp_max_interactions = 12,
     xp_max_record_text_chars = 1000, xp_max_snapshot_chars = 8000\<rparr>"

definition planner1 :: planner where
  "planner1 n context = Inl ''unavailable''"

definition env2 :: env where
  "env2 = env1\<lparr>x_lean := False\<rparr>"

lemma digits_inj: "digits m = digits n \<Longrightarrow> m = n"
  by (metis digits_val_digits of_nat_eq_iff)

lemma fresh_env: "fresh_ids env1" "fresh_ids env2"
  unfolding fresh_ids_def env1_def env2_def using digits_inj by auto

lemma returnedI: "(case x of Inl e \<Rightarrow> False | Inr v \<Rightarrow> True) \<Longrightarrow> x = Inr (fst (projr x), snd (projr x))"
  by (cases x) auto

section \<open>Runs\<close>

text \<open>Once the gateway has started, a task is stored; it is dispatched and its run asks for a permission.\<close>

definition stored1 :: gateway where
  "stored1 = (let g = perform env1 context_policy1 planner1 Start (new_gateway empty_ledger)
     in g\<lparr>gw_ledger := snd (projr (create_task (gw_ledger g) tick project1 task1 contract1))\<rparr>)"

definition dispatched1 :: gateway where
  "dispatched1 = perform env1 context_policy1 planner1 (BeginRun ''t1'' None) stored1"

definition run_a :: RunRecord where
  "run_a = hd (list_runs (gw_ledger dispatched1) None)"

definition attached1 :: gateway where
  "attached1 = perform env1 context_policy1 planner1 (AttachRun ''t1'' run_a []) dispatched1"

definition ask_event :: WorkerEvent where
  "ask_event = permission1\<lparr>e_run_id := r_run_id run_a\<rparr>"

definition asked1 :: gateway where
  "asked1 = perform env1 context_policy1 planner1 (IngestEvent ask_event) attached1"

definition allow_op :: gateway_op where
  "allow_op = TaskResolve ''allow_session'' ''ann'' turn1 (Some ''table'')"

definition allowed1 :: gateway where
  "allowed1 = perform env1 context_policy1 planner1 allow_op asked1"

definition done_event :: WorkerEvent where
  "done_event = ask_event\<lparr>e_event_id := ''e9'', e_seq := 9, e_type := ''done'',
     e_payload := PDone \<lparr>do_status = TCompleted, do_result = ''booked'', do_artifact_refs = [], do_unresolved = []\<rparr>\<rparr>"

definition ops1 :: "gateway_op list" where
  "ops1 = [Start, BeginRun ''t1'' None, AttachRun ''t1'' run_a [], IngestEvent ask_event]"

lemma stored_step:
  "ledger_step (gw_ledger (perform env1 context_policy1 planner1 Start (new_gateway empty_ledger))) (gw_ledger stored1)"
  "l_aggregates (gw_ledger stored1) = l_aggregates (gw_ledger (perform env1 context_policy1 planner1 Start (new_gateway empty_ledger)))"
proof -
  let ?L = "gw_ledger (perform env1 context_policy1 planner1 Start (new_gateway empty_ledger))"
  have "case create_task ?L tick project1 task1 contract1 of Inl e \<Rightarrow> False | Inr v \<Rightarrow> True" by code_simp
  from returnedI [OF this] samples_valid(2) show "ledger_step ?L (gw_ledger stored1)"
    unfolding stored1_def Let_def by (simp) (blast intro: ledger_step.intros task_step.intros)
  show "l_aggregates (gw_ledger stored1) = l_aggregates ?L" by code_simp
qed

lemma stored_gateway:
  "stored1 = (perform env1 context_policy1 planner1 Start (new_gateway empty_ledger))\<lparr>gw_ledger := gw_ledger stored1\<rparr>"
  by (simp add: stored1_def Let_def)

lemma run_from_stored:
  "gateway_run env1 context_policy1 planner1 ops stored1 g \<Longrightarrow>
   gateway_run env1 context_policy1 planner1 (Start # ops) (new_gateway empty_ledger) g"
  by (rule gateway_run.calling, rule gateway_run.outside [OF stored_step]) (simp only: stored_gateway [symmetric])

lemma asked_run: "gateway_run env1 context_policy1 planner1 ops1 (new_gateway empty_ledger) asked1"
  unfolding ops1_def asked1_def attached1_def dispatched1_def by (intro run_from_stored gateway_run.intros)

lemma granted_run: "gateway_run env1 context_policy1 planner1 (ops1 @ [allow_op]) (new_gateway empty_ledger) allowed1"
  unfolding ops1_def allowed1_def asked1_def attached1_def dispatched1_def append_Cons append_Nil
  by (intro run_from_stored gateway_run.intros)

section \<open>The properties\<close>

lemma keeps_ledger_witness:
  "ledger_ok (gw_ledger allowed1) \<and> map t_status (list_tasks (gw_ledger allowed1) None) = [TRunning]"
proof
  show "ledger_ok (gw_ledger allowed1)"
    using gateway_keeps_the_ledger [OF fresh_env(1) granted_run] by simp
  show "map t_status (list_tasks (gw_ledger allowed1) None) = [TRunning]" by code_simp
qed

lemma standing_witness:
  "\<exists>turn ref. TaskResolve ''allow_session'' ''ann'' turn ref \<in> set (ops1 @ [allow_op])"
proof -
  have "''ann'' \<in> gw_standing allowed1" by code_simp
  from standing_grant_is_the_users [OF granted_run this] show ?thesis .
qed

lemma consent_witness:
  "\<exists>task. get_task (gw_ledger allowed1) ''t1'' = Some task \<and> t_active_run_id task = Some ''run3'' \<and>
     ad_outcome (projr (fst (gateway_authorize env1 ''t1'' ''run3'' ''send'' ''k1'' ''send?'' ''action'' True False allowed1)))
       = ''allow''"
proof -
  let ?m = "gateway_authorize env1 ''t1'' ''run3'' ''send'' ''k1'' ''send?'' ''action'' True False allowed1"
  have "case fst ?m of Inl e \<Rightarrow> False | Inr d \<Rightarrow> ad_outcome d = ''allow''" by code_simp
  then obtain d where d: "fst ?m = Inr d" "ad_outcome d = ''allow''" by (rule case_InrE)
  then have run: "?m = (Inr d, snd ?m)" by (metis prod.collapse)
  have "tasks_ok (gw_ledger allowed1)"
    using run_known [OF fresh_env(1) granted_run] run_ok [OF _ empty_ledger_ok] by (simp add: ledger_ok_def)
  from authorized_action_has_consent [OF run d(2) this] d show ?thesis by auto
qed

lemma answered_once_witness:
  "fst (call_tool env1 context_policy1 planner1 allow_op (perform env1 context_policy1 planner1 (IngestEvent done_event) allowed1)) =
     fst (call_tool env1 context_policy1 planner1 allow_op asked1)"
proof -
  have "case fst (call_tool env1 context_policy1 planner1 allow_op asked1) of Inl e \<Rightarrow> False | Inr r \<Rightarrow> tc_disposition r = ''accepted''"
    by code_simp
  then obtain r where r: "fst (call_tool env1 context_policy1 planner1 allow_op asked1) = Inr r" by (rule case_InrE)
  have "snd (call_tool env1 context_policy1 planner1 allow_op asked1) = allowed1" by (simp add: allow_op_def allowed1_def)
  with r have first: "call_tool env1 context_policy1 planner1 allow_op asked1 = (Inr r, allowed1)" by (metis prod.collapse)
  have "gateway_run env1 context_policy1 planner1 [IngestEvent done_event] allowed1
      (perform env1 context_policy1 planner1 (IngestEvent done_event) allowed1)" by (intro gateway_run.intros)
  from tool_call_is_answered_once [OF fresh_env(1) asked_run first this] r show ?thesis by simp
qed

lemma ended_witness:
  "task_ended (gw_ledger (snd (ingest_worker_event env1 context_policy1 planner1 done_event asked1))) done_event
     \<lparr>do_status = TCompleted, do_result = ''booked'', do_artifact_refs = [], do_unresolved = []\<rparr>"
proof -
  have "case fst (ingest_worker_event env1 context_policy1 planner1 done_event asked1) of Inl e \<Rightarrow> False | Inr b \<Rightarrow> b" by code_simp
  then obtain b where b: "fst (ingest_worker_event env1 context_policy1 planner1 done_event asked1) = Inr b" "b" by (rule case_InrE)
  then have run: "ingest_worker_event env1 context_policy1 planner1 done_event asked1 =
      (Inr True, snd (ingest_worker_event env1 context_policy1 planner1 done_event asked1))" by (metis prod.collapse)
  show ?thesis by (rule done_event_ends_the_task [OF fresh_env(1) asked_run run]) (simp add: done_event_def)
qed

lemma current_witness:
  "blocked_of (the (get_task (gw_ledger asked1) ''t1'')) = ([], [''interaction9''], False)"
proof -
  let ?r = "refresh_blocked env1 ''t1'' asked1"
  have "case fst ?r of Inl e \<Rightarrow> False | Inr w \<Rightarrow> True" by code_simp
  then obtain x where "fst ?r = Inr x" by (rule case_InrE)
  then have run: "?r = (Inr (), snd ?r)" by (metis prod.collapse old.unit.exhaust)
  have ok: "tasks_ok (gw_ledger asked1)"
    using run_known [OF fresh_env(1) asked_run] run_ok [OF _ empty_ledger_ok] by (simp add: ledger_ok_def)
  have same: "get_task (gw_ledger (snd ?r)) ''t1'' = get_task (gw_ledger asked1) ''t1''" by code_simp
  have "case get_task (gw_ledger (snd ?r)) ''t1'' of None \<Rightarrow> False | Some t \<Rightarrow> \<not> task_terminal t \<and>
      blocked_by (open_for (gw_ledger (snd ?r)) t) = ([], [''interaction9''], False)" by code_simp
  then obtain t where t: "get_task (gw_ledger (snd ?r)) ''t1'' = Some t" "\<not> task_terminal t"
    "blocked_by (open_for (gw_ledger (snd ?r)) t) = ([], [''interaction9''], False)" by (auto split: option.splits)
  from blocked_state_is_current [OF run ok t(1,2)] t same show ?thesis by simp
qed

definition bad_plan :: CoordinatorPlan where
  "bad_plan = \<lparr>pl_disposition = ''accepted'', pl_speech = [], pl_commands = [CancelTask ''t1''], pl_question = None\<rparr>"

lemma foreign_witness: "\<exists>e. apply_plan env1 bad_plan ''bob'' ''q1'' ''u9'' None asked1 = (Inl e, asked1)"
proof -
  have "\<exists>c \<in> set (pl_commands bad_plan). names_foreign (gw_ledger asked1) ''bob'' c" by code_simp
  from foreign_plan_is_refused [OF this] show ?thesis .
qed

section \<open>A superseded turn\<close>

definition submitted1 :: gateway where
  "submitted1 = perform env2 context_policy1 planner1 (CoordinateTurn turn1) (new_gateway empty_ledger)"

definition begun1 :: "(CoordinationJob \<times> TurnEnvelope \<times> CoordinatorContext) option" where
  "begun1 = projr (fst (begin_coordination env2 context_policy1 ''ann'' submitted1))"

definition planning1 :: gateway where
  "planning1 = snd (begin_coordination env2 context_policy1 ''ann'' submitted1)"

definition again1 :: gateway where
  "again1 = perform env2 context_policy1 planner1 (CoordinateTurn turn2) planning1"

lemma superseded_witness:
  "\<exists>job turn. j_version job = 1 \<and> end_coordination env2 job turn (Inr bad_plan) again1 = (Inr (), again1)"
proof -
  have "case fst (begin_coordination env2 context_policy1 ''ann'' submitted1) of Inl e \<Rightarrow> False
    | Inr x \<Rightarrow> (case x of None \<Rightarrow> False | Some (job, turn, ctx) \<Rightarrow> j_version job = 1)" by code_simp
  then obtain job turn ctx where v: "j_version job = 1"
    and b: "fst (begin_coordination env2 context_policy1 ''ann'' submitted1) = Inr (Some (job, turn, ctx))"
    by (auto split: sum.splits option.splits)
  then have claimed: "begin_coordination env2 context_policy1 ''ann'' submitted1 = (Inr (Some (job, turn, ctx)), planning1)"
    unfolding planning1_def by (metis prod.collapse)
  have before: "gateway_run env2 context_policy1 planner1 [CoordinateTurn turn1] (new_gateway empty_ledger) submitted1"
    unfolding submitted1_def by (intro gateway_run.intros)
  have between: "gateway_run env2 context_policy1 planner1 [CoordinateTurn turn2] planning1 again1"
    unfolding again1_def by (intro gateway_run.intros)
  have "case get_coordination_job (gw_ledger again1) ''ann'' of None \<Rightarrow> False | Some j \<Rightarrow> j_version j = 2" by code_simp
  then obtain newer where "get_coordination_job (gw_ledger again1) ''ann'' = Some newer" "j_version newer = 2"
    by (auto split: option.splits)
  from superseded_plan_is_dropped [OF fresh_env(2) before claimed between this(1) _ gateway_run.none] this(2) v
  show ?thesis by auto
qed

text \<open>The same turn with nothing newer: while the model is asked, the clock expires what is due.\<close>

definition waiting1 :: gateway where
  "waiting1 = perform env2 context_policy1 planner1 (ExpireInteractions None) planning1"

lemma timed_out_witness:
  "\<exists>job turn j. get_coordination_job (gw_ledger (snd (end_coordination env2 job turn (Inl []) waiting1))) ''ann'' = Some j \<and>
     j_version j = 1 \<and> j_state j = JCompleted \<and> j_error j = [] \<and>
     map_option tc_disposition (j_result j) = Some ''rejected''"
proof -
  have "case fst (begin_coordination env2 context_policy1 ''ann'' submitted1) of Inl e \<Rightarrow> False
    | Inr x \<Rightarrow> (case x of None \<Rightarrow> False
        | Some (job, turn, ctx) \<Rightarrow> j_version job = 1 \<and> coordination_is_current (gw_ledger waiting1) job)" by code_simp
  then obtain job turn ctx where v: "j_version job = 1" "coordination_is_current (gw_ledger waiting1) job"
    and b: "fst (begin_coordination env2 context_policy1 ''ann'' submitted1) = Inr (Some (job, turn, ctx))"
    by (auto split: sum.splits option.splits)
  then have claimed: "begin_coordination env2 context_policy1 ''ann'' submitted1 = (Inr (Some (job, turn, ctx)), planning1)"
    unfolding planning1_def by (metis prod.collapse)
  have before: "gateway_run env2 context_policy1 planner1 [CoordinateTurn turn1] (new_gateway empty_ledger) submitted1"
    unfolding submitted1_def by (intro gateway_run.intros)
  have between: "gateway_run env2 context_policy1 planner1 [ExpireInteractions None] planning1 waiting1"
    unfolding waiting1_def by (intro gateway_run.intros)
  obtain r g3 where failed: "end_coordination env2 job turn (Inl []) waiting1 = (r, g3)" by fastforce
  then have g3: "g3 = snd (end_coordination env2 job turn (Inl []) waiting1)" by simp
  from timed_out_coordination_is_completed [OF fresh_env(2) before claimed between failed] v
  obtain j res where "get_coordination_job (gw_ledger g3) ''ann'' = Some j" "j_version j = 1" "j_state j = JCompleted"
    "j_error j = []" "j_result j = Some res" "tc_disposition res = ''rejected''" by auto
  then show ?thesis unfolding g3 by (intro exI [of _ job] exI [of _ turn] exI [of _ j]) simp
qed

end
