(* ===== verification/WorkerTools.thy ===== *)
theory WorkerTools
  imports Contracts JsonText "HOL-Library.List_Lexorder"
begin

text \<open>
  The tools a worker can call (runtime/gnsis_runtime/gnsis_runtime/worker_tools.py): the published
  schemas, the validator that every call passes through, and \<open>WorkerToolSession.dispatch\<close>.

  Arguments are a JSON object, the list of the items of a dict.  In the messages that print a list of
  names, a name is put between quotes as \<open>repr\<close> does for names without quotes and escapes.
\<close>

section \<open>The published schemas\<close>

definition CONTEXT_KINDS :: "string list" where
  "CONTEXT_KINDS = [''artifact'', ''event'', ''realtime'', ''task'', ''turn'']"

definition REALTIME_CONTEXT_KINDS :: "string list" where
  "REALTIME_CONTEXT_KINDS = [''audio_transcript'', ''frontbrain_reply'', ''image'', ''screen'', ''system'',
     ''tool_result'', ''user_text'', ''video_frame'']"

definition CONTEXT_ROLES :: "string list" where
  "CONTEXT_ROLES = [''frontbrain'', ''system'', ''tool'', ''user'']"

definition MEMORY_SCOPES :: "string list" where
  "MEMORY_SCOPES = [''owner'', ''project'']"

definition SHARE_KINDS :: "string list" where
  "SHARE_KINDS = [''correction'', ''important'', ''milestone'']"

text \<open>
  The part of JSON Schema the published schemas use: lengths of strings, enumerations, ranges of
  integers, arrays with an item schema, and objects that are closed or only bounded in size.
\<close>

datatype schema =
    StringOf nat nat
  | StringOrNull nat
  | EnumOf "string list"
  | IntegerOf int int
  | BooleanOf
  | ArrayOf nat bool schema
  | AnyObject nat
  | ClosedObject "string list" "(string \<times> schema) list"

definition MEMORY_SEARCH_TOOL :: schema where
  "MEMORY_SEARCH_TOOL = ClosedObject [''query'']
     [(''query'', StringOf 1 1000), (''scope'', EnumOf MEMORY_SCOPES), (''limit'', IntegerOf 1 20)]"

definition CONTEXT_FETCH_TOOL :: schema where
  "CONTEXT_FETCH_TOOL = ClosedObject []
     [(''refs'', ArrayOf 32 True (StringOf 1 256)),
      (''query'', StringOf 0 1000),
      (''kinds'', ArrayOf (length CONTEXT_KINDS) True (EnumOf CONTEXT_KINDS)),
      (''context_kinds'', ArrayOf (length REALTIME_CONTEXT_KINDS) True (EnumOf REALTIME_CONTEXT_KINDS)),
      (''roles'', ArrayOf (length CONTEXT_ROLES) True (EnumOf CONTEXT_ROLES)),
      (''last_ms'', IntegerOf 1 3600000),
      (''limit'', IntegerOf 1 50),
      (''max_chars'', IntegerOf 256 48000),
      (''cursor'', IntegerOf 0 100000),
      (''include_media'', BooleanOf)]"

definition STATE_PATCH_SCHEMA :: schema where
  "STATE_PATCH_SCHEMA = ClosedObject []
     [(''completed'', ArrayOf 64 False (StringOf 0 512)),
      (''artifacts'', ArrayOf 64 False (AnyObject 32)),
      (''decisions'', ArrayOf 64 False (StringOf 0 512)),
      (''next_step'', StringOrNull 1000)]"

definition SHARE_TOOL :: schema where
  "SHARE_TOOL = ClosedObject [''kind'', ''text'']
     [(''kind'', EnumOf SHARE_KINDS), (''text'', StringOf 1 800), (''state_patch'', STATE_PATCH_SCHEMA)]"

definition worker_tool_schema :: "string \<Rightarrow> schema option" where
  "worker_tool_schema name = map_of [(''memory_search'', MEMORY_SEARCH_TOOL), (''context_fetch'', CONTEXT_FETCH_TOOL),
     (''share'', SHARE_TOOL)] name"

text \<open>What a schema admits; an integer is written without a fraction.\<close>

fun conforms :: "schema \<Rightarrow> json \<Rightarrow> bool" and conforms_field :: "(string \<times> schema) list \<Rightarrow> string \<Rightarrow> json \<Rightarrow> bool" where
  "conforms (StringOf lo hi) v = (case v of JStr s \<Rightarrow> lo \<le> length s \<and> length s \<le> hi | _ \<Rightarrow> False)"
| "conforms (StringOrNull hi) v = (case v of JStr s \<Rightarrow> length s \<le> hi | JNull \<Rightarrow> True | _ \<Rightarrow> False)"
| "conforms (EnumOf names) v = (case v of JStr s \<Rightarrow> s \<in> set names | _ \<Rightarrow> False)"
| "conforms (IntegerOf lo hi) v = (case v of JInt i \<Rightarrow> lo \<le> i \<and> i \<le> hi | _ \<Rightarrow> False)"
| "conforms BooleanOf v = (case v of JBool b \<Rightarrow> True | _ \<Rightarrow> False)"
| "conforms (ArrayOf n uniq s) v = (case v of
     JList xs \<Rightarrow> length xs \<le> n \<and> (uniq \<longrightarrow> distinct xs) \<and> (\<forall>x \<in> set xs. conforms s x) | _ \<Rightarrow> False)"
| "conforms (AnyObject n) v = (case v of JObj kvs \<Rightarrow> length kvs \<le> n | _ \<Rightarrow> False)"
| "conforms (ClosedObject req ps) v = (case v of
     JObj kvs \<Rightarrow> set req \<subseteq> fst ` set kvs \<and> (\<forall>kv \<in> set kvs. conforms_field ps (fst kv) (snd kv)) | _ \<Rightarrow> False)"
| "conforms_field [] k v = False"
| "conforms_field ((n, s) # ps) k v = (if k = n then conforms s v else conforms_field ps k v)"

section \<open>Checks shared by the tools\<close>

text \<open>\<open>arguments.get(k, d)\<close>\<close>

definition arg :: "(string \<times> json) list \<Rightarrow> string \<Rightarrow> json \<Rightarrow> json" where
  "arg kvs k d = (case map_of kvs k of None \<Rightarrow> d | Some v \<Rightarrow> v)"

definition py_names :: "string list \<Rightarrow> string" where
  "py_names names = ''['' @ join_with '', '' (map (\<lambda>n. [CHR 0x27] @ n @ [CHR 0x27]) names) @ '']''"

definition reject_unknown :: "(string \<times> json) list \<Rightarrow> string list \<Rightarrow> string \<Rightarrow> unit res" where
  "reject_unknown kvs allowed name =
     (let unknown = filter (\<lambda>k. k \<notin> set allowed) (remdups (map fst kvs)) in
      if unknown \<noteq> [] then Inl (ValueError (''unexpected '' @ name @ '' fields: '' @ py_names (sort_key u unknown)))
      else Inr ())"

definition bounded_text :: "json \<Rightarrow> string \<Rightarrow> nat \<Rightarrow> string res" where
  "bounded_text v name maximum =
     (case v of
        JStr s \<Rightarrow>
          (if blank s then Inl (ValueError (name @ '' must be a non-empty string''))
           else if length (py_strip s) > maximum
           then Inl (ValueError (name @ '' exceeds '' @ int_str (int maximum) @ '' characters''))
           else Inr (py_strip s))
      | _ \<Rightarrow> Inl (ValueError (name @ '' must be a non-empty string'')))"

definition bounded_int :: "json \<Rightarrow> string \<Rightarrow> int \<Rightarrow> int \<Rightarrow> int res" where
  "bounded_int v name minimum maximum =
     (case v of
        JInt i \<Rightarrow>
          (if minimum \<le> i \<and> i \<le> maximum then Inr i
           else Inl (ValueError (name @ '' must be between '' @ int_str minimum @ '' and '' @ int_str maximum)))
      | _ \<Rightarrow> Inl (TypeError (name @ '' must be an integer'')))"

text \<open>A list or a dict cannot be hashed, so it is not a member of a set but a \<open>TypeError\<close>.\<close>

fun hashable :: "json \<Rightarrow> bool" where
  "hashable (JList _) = False"
| "hashable (JObj _) = False"
| "hashable _ = True"

definition unhashable :: py_error where
  "unhashable = TypeError ''unhashable type''"

definition one_name :: "json \<Rightarrow> string list \<Rightarrow> string \<Rightarrow> string res" where
  "one_name v allowed name =
     (if \<not> hashable v then Inl unhashable
      else case v of
        JStr s \<Rightarrow> if s \<in> set allowed then Inr s
          else Inl (ValueError (name @ '' must be one of '' @ py_names allowed))
      | _ \<Rightarrow> Inl (ValueError (name @ '' must be one of '' @ py_names allowed)))"

text \<open>\<open>len(values) == len(set(values))\<close> under Python's equality.\<close>

fun no_repeats :: "json list \<Rightarrow> bool" where
  "no_repeats [] = True"
| "no_repeats (x # xs) = ((\<forall>y \<in> set xs. \<not> json_eq x y) \<and> no_repeats xs)"

fun str_value :: "json \<Rightarrow> string option" where
  "str_value (JStr s) = Some s"
| "str_value _ = None"

definition unique_enum_values :: "json \<Rightarrow> string \<Rightarrow> string list \<Rightarrow> string list res" where
  "unique_enum_values v name allowed =
     (let at_most = ValueError
        (name @ '' must contain at most '' @ int_str (int (length allowed)) @ '' unique values'') in
      case v of
        JList xs \<Rightarrow>
          (if length xs > length allowed then Inl at_most
           else if \<exists>x \<in> set xs. \<not> hashable x then Inl unhashable
           else if \<not> no_repeats xs then Inl at_most
           else if \<exists>x \<in> set xs. str_value x \<notin> Some ` set allowed
           then Inl (ValueError (name @ '' must be selected from '' @ py_names allowed))
           else Inr (List.map_filter str_value xs))
      | _ \<Rightarrow> Inl (TypeError (name @ '' must be an array'')))"

fun collect :: "('a \<Rightarrow> 'b res) \<Rightarrow> 'a list \<Rightarrow> 'b list res" where
  "collect f [] = Inr []"
| "collect f (x # xs) = bindE (f x) (\<lambda>y. bindE (collect f xs) (\<lambda>ys. Inr (y # ys)))"

section \<open>The three validators\<close>

record MemorySearchArgs =
  ms_query :: string
  ms_scope :: string
  ms_limit :: int

record ContextFetchArgs =
  cf_refs :: "string list"
  cf_query :: string
  cf_kinds :: "string list"
  cf_context_kinds :: "string list"
  cf_roles :: "string list"
  cf_last_ms :: "int option"
  cf_limit :: int
  cf_max_chars :: int
  cf_cursor :: int
  cf_include_media :: bool

record ShareArgs =
  sh_kind :: string
  sh_text :: string
  sh_state_patch :: "(string \<times> json) list"

datatype WorkerCall =
    MemorySearch MemorySearchArgs
  | ContextFetch ContextFetchArgs
  | Share ShareArgs

definition validate_memory_search :: "(string \<times> json) list \<Rightarrow> MemorySearchArgs res" where
  "validate_memory_search kvs =
     bindE (reject_unknown kvs [''query'', ''scope'', ''limit''] ''memory_search'') (\<lambda>_.
     bindE (bounded_text (arg kvs ''query'' JNull) ''query'' 1000) (\<lambda>q.
     bindE (one_name (arg kvs ''scope'' (JStr ''owner'')) MEMORY_SCOPES ''scope'') (\<lambda>s.
     bindE (bounded_int (arg kvs ''limit'' (JInt 8)) ''limit'' 1 20) (\<lambda>n.
     Inr \<lparr>ms_query = q, ms_scope = s, ms_limit = n\<rparr>))))"

definition validate_refs :: "json \<Rightarrow> string list res" where
  "validate_refs v =
     (case v of
        JList xs \<Rightarrow>
          (if length xs > 32 then Inl (ValueError ''refs exceeds 32 items'')
           else bindE (collect (\<lambda>x. bounded_text x ''ref'' 256) xs) (\<lambda>refs.
             if distinct refs then Inr refs else Inl (ValueError ''refs must not contain duplicates'')))
      | _ \<Rightarrow> Inl (TypeError ''refs must be an array''))"

definition validate_query :: "json \<Rightarrow> string res" where
  "validate_query v =
     (case v of
        JStr s \<Rightarrow> if length (py_strip s) > 1000 then Inl (ValueError ''query exceeds 1000 characters'')
          else Inr (py_strip s)
      | _ \<Rightarrow> Inl (TypeError ''query must be a string''))"

definition CONTEXT_FETCH_FIELDS :: "string list" where
  "CONTEXT_FETCH_FIELDS = [''refs'', ''query'', ''kinds'', ''context_kinds'', ''roles'', ''last_ms'', ''limit'',
     ''max_chars'', ''cursor'', ''include_media'']"

definition validate_last_ms :: "json \<Rightarrow> int option res" where
  "validate_last_ms v =
     (if v = JNull then Inr None else bindE (bounded_int v ''last_ms'' 1 3600000) (\<lambda>n. Inr (Some n)))"

definition validate_flag :: "json \<Rightarrow> bool res" where
  "validate_flag v = (case v of JBool b \<Rightarrow> Inr b | _ \<Rightarrow> Inl (TypeError ''include_media must be a boolean''))"

definition validate_context_fetch :: "(string \<times> json) list \<Rightarrow> ContextFetchArgs res" where
  "validate_context_fetch kvs =
     bindE (reject_unknown kvs CONTEXT_FETCH_FIELDS ''context_fetch'') (\<lambda>_.
     bindE (validate_refs (arg kvs ''refs'' (JList []))) (\<lambda>refs.
     bindE (validate_query (arg kvs ''query'' (JStr []))) (\<lambda>q.
     bindE (unique_enum_values (arg kvs ''kinds'' (JList [])) ''kinds'' CONTEXT_KINDS) (\<lambda>kinds.
     bindE (unique_enum_values (arg kvs ''context_kinds'' (JList [])) ''context_kinds'' REALTIME_CONTEXT_KINDS) (\<lambda>cks.
     bindE (unique_enum_values (arg kvs ''roles'' (JList [])) ''roles'' CONTEXT_ROLES) (\<lambda>roles.
     bindE (validate_last_ms (arg kvs ''last_ms'' JNull)) (\<lambda>last_ms.
     bindE (validate_flag (arg kvs ''include_media'' (JBool False))) (\<lambda>include_media.
     bindE (bounded_int (arg kvs ''limit'' (JInt 20)) ''limit'' 1 50) (\<lambda>limit.
     bindE (bounded_int (arg kvs ''max_chars'' (JInt 12000)) ''max_chars'' 256 48000) (\<lambda>max_chars.
     bindE (bounded_int (arg kvs ''cursor'' (JInt 0)) ''cursor'' 0 100000) (\<lambda>cursor.
     Inr \<lparr>cf_refs = refs, cf_query = q, cf_kinds = kinds, cf_context_kinds = cks, cf_roles = roles,
       cf_last_ms = last_ms, cf_limit = limit, cf_max_chars = max_chars, cf_cursor = cursor,
       cf_include_media = include_media\<rparr>)))))))))))"

text \<open>
  \<open>json.dumps(value, ensure_ascii=False, sort_keys=True, separators=(",", ":"))\<close>, with the text of a
  float as a parameter, and the value \<open>json.loads\<close> reads back, in which the items of every object are
  in the order of their keys.
\<close>

definition sorted_json :: "json \<Rightarrow> ustr jsn" where
  "sorted_json v = sort_keys (map_jsn u v)"

definition json_text :: "(rat \<Rightarrow> ustr) \<Rightarrow> json \<Rightarrow> string" where
  "json_text float v = map char_of (dumps float tight (sorted_json v))"

definition json_copy :: "json \<Rightarrow> json" where
  "json_copy v = map_jsn (map char_of) (sorted_json v)"

definition falsy :: "json \<Rightarrow> bool" where
  "falsy v = (case v of JNull \<Rightarrow> True | JBool b \<Rightarrow> \<not> b | JInt i \<Rightarrow> i = 0 | JFloat q \<Rightarrow> q = 0 | JStr s \<Rightarrow> s = []
     | JList xs \<Rightarrow> xs = [] | JObj kvs \<Rightarrow> kvs = [])"

definition array_items :: "json \<Rightarrow> json list" where
  "array_items v = (case v of JList xs \<Rightarrow> xs | _ \<Rightarrow> [])"

definition patch_array_checks :: "(string \<times> json) list \<Rightarrow> string \<Rightarrow> (bool \<times> py_error) list" where
  "patch_array_checks patch k =
     (let v = arg patch k (JList []) in
      [(case v of JList _ \<Rightarrow> False | _ \<Rightarrow> True, TypeError (''state_patch.'' @ k @ '' must be an array'')),
       (length (array_items v) > 64, ValueError (''state_patch.'' @ k @ '' exceeds 64 items''))])"

definition patch_text_checks :: "(string \<times> json) list \<Rightarrow> string \<Rightarrow> (bool \<times> py_error) list" where
  "patch_text_checks patch k = concat (map (\<lambda>v.
     [(str_value v = None, TypeError (''state_patch.'' @ k @ '' items must be strings'')),
      (case v of JStr s \<Rightarrow> length s > 512 | _ \<Rightarrow> False,
        ValueError (''state_patch.'' @ k @ '' items exceed 512 characters''))]) (array_items (arg patch k (JList []))))"

definition patch_artifact_checks :: "(string \<times> json) list \<Rightarrow> (bool \<times> py_error) list" where
  "patch_artifact_checks patch = concat (map (\<lambda>v.
     [(case v of JObj _ \<Rightarrow> False | _ \<Rightarrow> True, TypeError ''state_patch.artifacts items must be objects''),
      (case v of JObj kvs \<Rightarrow> length kvs > 32 | _ \<Rightarrow> False,
        ValueError ''state_patch.artifacts items exceed 32 properties'')]) (array_items (arg patch ''artifacts'' (JList []))))"

definition patch_checks :: "(rat \<Rightarrow> ustr) \<Rightarrow> (string \<times> json) list \<Rightarrow> (bool \<times> py_error) list" where
  "patch_checks float patch =
     concat (map (patch_array_checks patch) [''completed'', ''artifacts'', ''decisions'']) @
     concat (map (patch_text_checks patch) [''completed'', ''decisions'']) @
     patch_artifact_checks patch @
     [(case arg patch ''next_step'' JNull of JNull \<Rightarrow> False | JStr _ \<Rightarrow> False | _ \<Rightarrow> True,
        TypeError ''state_patch.next_step must be a string or null''),
      (case arg patch ''next_step'' JNull of JStr s \<Rightarrow> length s > 1000 | _ \<Rightarrow> False,
        ValueError ''state_patch.next_step exceeds 1000 characters''),
      (length (json_text float (JObj patch)) > 65536, ValueError ''state_patch exceeds 65536 characters'')]"

definition copied_object :: "(string \<times> json) list \<Rightarrow> (string \<times> json) list" where
  "copied_object kvs = (case json_copy (JObj kvs) of JObj xs \<Rightarrow> xs | _ \<Rightarrow> [])"

definition validate_state_patch :: "(rat \<Rightarrow> ustr) \<Rightarrow> json \<Rightarrow> (string \<times> json) list res" where
  "validate_state_patch float v =
     (case (if falsy v then JObj [] else v) of
        JObj patch \<Rightarrow>
          bindE (reject_unknown patch [''completed'', ''artifacts'', ''decisions'', ''next_step''] ''state_patch'') (\<lambda>_.
          validated (raise_first (patch_checks float patch)) (copied_object patch))
      | _ \<Rightarrow> Inl (TypeError ''state_patch must be an object''))"

definition validate_share :: "(rat \<Rightarrow> ustr) \<Rightarrow> (string \<times> json) list \<Rightarrow> ShareArgs res" where
  "validate_share float kvs =
     bindE (reject_unknown kvs [''kind'', ''text'', ''state_patch''] ''share'') (\<lambda>_.
     bindE (one_name (arg kvs ''kind'' JNull) SHARE_KINDS ''kind'') (\<lambda>kind.
     bindE (bounded_text (arg kvs ''text'' JNull) ''text'' 800) (\<lambda>t.
     bindE (validate_state_patch float (arg kvs ''state_patch'' JNull)) (\<lambda>patch.
     Inr \<lparr>sh_kind = kind, sh_text = t, sh_state_patch = patch\<rparr>))))"

definition validate_tool_arguments :: "(rat \<Rightarrow> ustr) \<Rightarrow> string \<Rightarrow> json \<Rightarrow> WorkerCall res" where
  "validate_tool_arguments float name arguments =
     (if name \<notin> {''memory_search'', ''context_fetch'', ''share''}
      then Inl (ValueError (''unknown worker tool: '' @ name))
      else case arguments of
        JObj kvs \<Rightarrow>
          (if name = ''memory_search'' then bindE (validate_memory_search kvs) (\<lambda>a. Inr (MemorySearch a))
           else if name = ''context_fetch'' then bindE (validate_context_fetch kvs) (\<lambda>a. Inr (ContextFetch a))
           else bindE (validate_share float kvs) (\<lambda>a. Inr (Share a)))
      | _ \<Rightarrow> Inl (TypeError (name @ '' arguments must be an object'')))"

text \<open>
  What \<open>WorkerControl\<close> (gateway.py) hands to the validator a second time: the normalized arguments,
  written out again as a dict.
\<close>

definition search_arguments :: "MemorySearchArgs \<Rightarrow> json" where
  "search_arguments a = JObj [(''query'', JStr (ms_query a)), (''scope'', JStr (ms_scope a)), (''limit'', JInt (ms_limit a))]"

definition fetch_arguments :: "ContextFetchArgs \<Rightarrow> json" where
  "fetch_arguments a = JObj
     [(''refs'', JList (map JStr (cf_refs a))), (''query'', JStr (cf_query a)),
      (''kinds'', JList (map JStr (cf_kinds a))), (''context_kinds'', JList (map JStr (cf_context_kinds a))),
      (''roles'', JList (map JStr (cf_roles a))),
      (''last_ms'', case cf_last_ms a of None \<Rightarrow> JNull | Some n \<Rightarrow> JInt n),
      (''limit'', JInt (cf_limit a)), (''max_chars'', JInt (cf_max_chars a)), (''cursor'', JInt (cf_cursor a)),
      (''include_media'', JBool (cf_include_media a))]"

section \<open>What the checks accept\<close>

lemma hd_dropWhile_py: "dropWhile P xs = y # ys \<Longrightarrow> \<not> P y"
  by (metis hd_dropWhile list.distinct(1) list.sel(1))

lemma length_py_strip: "length (py_strip s) \<le> length s"
  unfolding py_strip_def py_rstrip_def
  by (metis length_dropWhile_le length_rev le_trans)

lemma rstrip_keeps_front: "\<not> py_space c \<Longrightarrow> \<exists>t. py_rstrip (c # s) = c # t"
proof -
  assume "\<not> py_space c"
  then show ?thesis by (simp add: py_rstrip_def dropWhile_append3)
qed

lemma py_strip_idem [simp]: "py_strip (py_strip s) = py_strip s"
proof (cases "dropWhile py_space s")
  case Nil
  then have "py_strip s = py_rstrip []" by (simp only: py_strip_def)
  then have empty: "py_strip s = []" by (simp add: py_rstrip_def)
  show ?thesis unfolding empty by (simp add: py_strip_def py_rstrip_def)
next
  case (Cons c r)
  then have c: "\<not> py_space c" by (rule hd_dropWhile_py)
  then obtain t where t: "py_rstrip (c # r) = c # t" using rstrip_keeps_front by blast
  have "py_rstrip (py_rstrip (c # r)) = py_rstrip (c # r)" by (simp add: py_rstrip_def)
  then show ?thesis using c Cons t by (simp add: py_strip_def)
qed

lemma bounded_text_Inr: "bounded_text v name m = Inr t \<longleftrightarrow>
    (\<exists>s. v = JStr s \<and> \<not> blank s \<and> length (py_strip s) \<le> m \<and> t = py_strip s)"
  by (cases v) (auto simp: bounded_text_def)

lemma bounded_int_Inr: "bounded_int v name lo hi = Inr i \<longleftrightarrow> v = JInt i \<and> lo \<le> i \<and> i \<le> hi"
  by (cases v) (auto simp: bounded_int_def)

lemma one_name_Inr: "one_name v allowed name = Inr s \<longleftrightarrow> v = JStr s \<and> s \<in> set allowed"
  by (cases v) (auto simp: one_name_def)

lemma no_repeats_strings [simp]: "no_repeats (map JStr ss) = distinct ss"
  by (induction ss) auto

lemma str_values: "(\<forall>x \<in> set xs. str_value x \<in> Some ` A) \<longleftrightarrow> (\<exists>ss. xs = map JStr ss \<and> set ss \<subseteq> A)"
proof
  assume "\<forall>x \<in> set xs. str_value x \<in> Some ` A"
  then show "\<exists>ss. xs = map JStr ss \<and> set ss \<subseteq> A"
  proof (induction xs)
    case (Cons x xs)
    then obtain ss where "xs = map JStr ss" "set ss \<subseteq> A" by auto
    moreover obtain s where "x = JStr s" "s \<in> A" using Cons.prems by (cases x) auto
    ultimately show ?case by (intro exI [of _ "s # ss"]) simp
  qed simp
qed (auto simp: subset_iff intro!: imageI)

lemma map_filter_strings [simp]: "List.map_filter str_value (map JStr ss) = ss"
  by (induction ss) (simp_all add: List.map_filter_def)

lemma unique_enum_Inr: "unique_enum_values v name allowed = Inr ss \<longleftrightarrow>
    v = JList (map JStr ss) \<and> length ss \<le> length allowed \<and> distinct ss \<and> set ss \<subseteq> set allowed"
proof (cases v)
  case (JList xs)
  have "(\<exists>x \<in> set xs. str_value x \<notin> Some ` set allowed) \<longleftrightarrow> \<not> (\<exists>ts. xs = map JStr ts \<and> set ts \<subseteq> set allowed)"
    using str_values [of xs "set allowed"] by blast
  then show ?thesis using JList by (auto simp: unique_enum_values_def Let_def inj_def)
qed (auto simp: unique_enum_values_def Let_def)

lemma collect_InrD: "collect f xs = Inr ys \<Longrightarrow> length ys = length xs \<and> (\<forall>y \<in> set ys. \<exists>x \<in> set xs. f x = Inr y)"
  by (induction xs arbitrary: ys) (fastforce simp: bindE_Inr_iff)+

lemma collect_map: "(\<And>y. y \<in> set ys \<Longrightarrow> f (c y) = Inr y) \<Longrightarrow> collect f (map c ys) = Inr ys"
  by (induction ys) auto

definition clean_text :: "nat \<Rightarrow> string \<Rightarrow> bool" where
  "clean_text n s \<longleftrightarrow> s \<noteq> [] \<and> length s \<le> n \<and> py_strip s = s"

lemma bounded_text_clean: "bounded_text v name m = Inr t \<Longrightarrow> clean_text m t"
  by (auto simp: bounded_text_Inr clean_text_def blank_def)

lemma clean_text_again: "clean_text m t \<Longrightarrow> bounded_text (JStr t) name m = Inr t"
  by (auto simp: bounded_text_Inr clean_text_def blank_def)

lemma validate_refs_Inr: "validate_refs v = Inr refs \<Longrightarrow>
    length refs \<le> 32 \<and> distinct refs \<and> (\<forall>r \<in> set refs. clean_text 256 r)"
  unfolding validate_refs_def
  by (simp add: bindE_Inr_iff split: jsn.splits if_splits)
    (use bounded_text_clean in \<open>fastforce dest!: collect_InrD\<close>)

lemma refs_again: "length refs \<le> 32 \<Longrightarrow> distinct refs \<Longrightarrow> \<forall>r \<in> set refs. clean_text 256 r \<Longrightarrow>
    validate_refs (JList (map JStr refs)) = Inr refs"
proof -
  assume a: "length refs \<le> 32" "distinct refs" "\<forall>r \<in> set refs. clean_text 256 r"
  have "collect (\<lambda>x. bounded_text x ''ref'' 256) (map JStr refs) = Inr refs"
    using a(3) by (auto intro!: collect_map clean_text_again)
  then show ?thesis using a by (simp add: validate_refs_def)
qed

text \<open>The arguments a tool is called with once they are validated.\<close>

definition search_ok :: "MemorySearchArgs \<Rightarrow> bool" where
  "search_ok a \<longleftrightarrow> clean_text 1000 (ms_query a) \<and> ms_scope a \<in> set MEMORY_SCOPES \<and> 1 \<le> ms_limit a \<and> ms_limit a \<le> 20"

definition fetch_ok :: "ContextFetchArgs \<Rightarrow> bool" where
  "fetch_ok a \<longleftrightarrow>
     length (cf_refs a) \<le> 32 \<and> distinct (cf_refs a) \<and> (\<forall>r \<in> set (cf_refs a). clean_text 256 r) \<and>
     length (cf_query a) \<le> 1000 \<and> py_strip (cf_query a) = cf_query a \<and>
     length (cf_kinds a) \<le> length CONTEXT_KINDS \<and> distinct (cf_kinds a) \<and> set (cf_kinds a) \<subseteq> set CONTEXT_KINDS \<and>
     length (cf_context_kinds a) \<le> length REALTIME_CONTEXT_KINDS \<and> distinct (cf_context_kinds a) \<and>
     set (cf_context_kinds a) \<subseteq> set REALTIME_CONTEXT_KINDS \<and>
     length (cf_roles a) \<le> length CONTEXT_ROLES \<and> distinct (cf_roles a) \<and> set (cf_roles a) \<subseteq> set CONTEXT_ROLES \<and>
     (case cf_last_ms a of None \<Rightarrow> True | Some n \<Rightarrow> 1 \<le> n \<and> n \<le> 3600000) \<and>
     1 \<le> cf_limit a \<and> cf_limit a \<le> 50 \<and> 256 \<le> cf_max_chars a \<and> cf_max_chars a \<le> 48000 \<and>
     0 \<le> cf_cursor a \<and> cf_cursor a \<le> 100000"

lemma validated_search_ok: "validate_memory_search kvs = Inr a \<Longrightarrow> search_ok a"
  by (auto simp: validate_memory_search_def bindE_Inr_iff one_name_Inr bounded_int_Inr search_ok_def
      dest: bounded_text_clean)

lemma validated_fetch_ok: "validate_context_fetch kvs = Inr a \<Longrightarrow> fetch_ok a"
  by (auto simp: validate_context_fetch_def bindE_Inr_iff unique_enum_Inr bounded_int_Inr fetch_ok_def
      validate_query_def validate_last_ms_def dest: validate_refs_Inr split: jsn.splits if_splits)

lemma arg_simps [simp]:
  "arg [] k d = d"
  "arg ((k', v) # kvs) k d = (if k' = k then v else arg kvs k d)"
  by (simp_all add: arg_def)

lemma search_again: "search_ok a \<Longrightarrow> validate_tool_arguments f ''memory_search'' (search_arguments a) = Inr (MemorySearch a)"
  by (cases a) (auto simp: validate_tool_arguments_def search_arguments_def validate_memory_search_def search_ok_def
      reject_unknown_def one_name_def bounded_int_def clean_text_again)

lemma enum_again: "length ss \<le> length allowed \<Longrightarrow> distinct ss \<Longrightarrow> set ss \<subseteq> set allowed \<Longrightarrow>
    unique_enum_values (JList (map JStr ss)) name allowed = Inr ss"
  by (simp add: unique_enum_Inr)

lemma fetch_again: "fetch_ok a \<Longrightarrow> validate_tool_arguments f ''context_fetch'' (fetch_arguments a) = Inr (ContextFetch a)"
  by (cases a, cases "cf_last_ms a")
    (auto simp: validate_tool_arguments_def fetch_arguments_def validate_context_fetch_def fetch_ok_def
      reject_unknown_def CONTEXT_FETCH_FIELDS_def refs_again enum_again validate_query_def validate_last_ms_def
      validate_flag_def bounded_int_def)

section \<open>The validator accepts what the schemas admit\<close>

text \<open>
  What a schema cannot say: a required text is not only white space, references stay different once they
  are stripped, and a state patch is short as JSON.
\<close>

definition not_blank :: "json \<Rightarrow> bool" where
  "not_blank v = (case v of JStr s \<Rightarrow> \<not> blank s | _ \<Rightarrow> True)"

definition object_of :: "json \<Rightarrow> (string \<times> json) list" where
  "object_of v = (case v of JObj kvs \<Rightarrow> kvs | _ \<Rightarrow> [])"

definition tidy :: "(rat \<Rightarrow> ustr) \<Rightarrow> string \<Rightarrow> (string \<times> json) list \<Rightarrow> bool" where
  "tidy float name kvs =
     (if name = ''memory_search'' then not_blank (arg kvs ''query'' JNull)
      else if name = ''context_fetch''
      then (let refs = List.map_filter str_value (array_items (arg kvs ''refs'' (JList []))) in
        list_all (\<lambda>r. \<not> blank r) refs \<and> distinct (map py_strip refs))
      else not_blank (arg kvs ''text'' JNull) \<and>
        length (json_text float (JObj (object_of (arg kvs ''state_patch'' JNull)))) \<le> 65536)"

lemma conforms_field_iff: "conforms_field ps k v \<longleftrightarrow> (\<exists>s. map_of ps k = Some s \<and> conforms s v)"
  by (induction ps) auto

lemma closed_objectD:
  assumes "conforms (ClosedObject req ps) (JObj kvs)"
  shows "set req \<subseteq> fst ` set kvs" and "fst ` set kvs \<subseteq> fst ` set ps"
    and "map_of kvs k = Some v \<Longrightarrow> map_of ps k = Some s \<Longrightarrow> conforms s v"
proof -
  have f: "\<exists>s. map_of ps (fst kv) = Some s \<and> conforms s (snd kv)" if "kv \<in> set kvs" for kv
    using assms that by (simp add: conforms_field_iff)
  show "set req \<subseteq> fst ` set kvs" using assms by simp
  show "fst ` set kvs \<subseteq> fst ` set ps"
  proof
    fix k assume "k \<in> fst ` set kvs"
    then obtain kv where "kv \<in> set kvs" "k = fst kv" by blast
    with f [of kv] obtain s where "map_of ps k = Some s" by blast
    then show "k \<in> fst ` set ps" by (metis domI dom_map_of_conv_image_fst)
  qed
  show "conforms s v" if "map_of kvs k = Some v" "map_of ps k = Some s"
    using f [of "(k, v)"] map_of_SomeD [OF that(1)] that(2) by simp
qed

lemma known_fields: "fst ` set kvs \<subseteq> set allowed \<Longrightarrow> reject_unknown kvs allowed name = Inr ()"
  by (auto simp: reject_unknown_def Let_def filter_empty_conv)

text \<open>An argument of a conforming object: its default or a conforming value.\<close>

lemma arg_conforms:
  assumes "conforms (ClosedObject req ps) (JObj kvs)" "map_of ps k = Some s"
  shows "arg kvs k d = d \<and> k \<notin> set req \<or> conforms s (arg kvs k d)"
proof (cases "map_of kvs k")
  case None
  then have "k \<notin> fst ` set kvs" by (simp add: map_of_eq_None_iff)
  then show ?thesis using None closed_objectD(1) [OF assms(1)] by (auto simp: arg_def)
next
  case (Some v)
  then show ?thesis using closed_objectD(3) [OF assms(1) Some assms(2)] by (simp add: arg_def)
qed

lemma arg_accepts:
  assumes "conforms (ClosedObject req ps) (JObj kvs)" "map_of ps k = Some s"
    and "k \<notin> set req \<Longrightarrow> P d" "\<And>v. v = arg kvs k d \<Longrightarrow> conforms s v \<Longrightarrow> P v"
  shows "P (arg kvs k d)"
  using arg_conforms [OF assms(1,2), of d] assms(3,4) by auto

lemma string_conforms: "conforms (StringOf lo hi) v \<longleftrightarrow> (\<exists>s. v = JStr s \<and> lo \<le> length s \<and> length s \<le> hi)"
  by (cases v) auto

lemma accepts_text:
  assumes "conforms (StringOf lo hi) v" "not_blank v"
  shows "\<exists>t. bounded_text v name hi = Inr t"
proof -
  obtain s where "v = JStr s" "length s \<le> hi" using assms(1) unfolding string_conforms by blast
  then show ?thesis using assms(2) length_py_strip [of s] by (simp add: bounded_text_def not_blank_def)
qed

lemma accepts_int: "conforms (IntegerOf lo hi) v \<Longrightarrow> \<exists>i. bounded_int v name lo hi = Inr i"
  by (cases v) (auto simp: bounded_int_def)

lemma accepts_name: "conforms (EnumOf names) v \<Longrightarrow> \<exists>s. one_name v names name = Inr s"
  by (cases v) (auto simp: one_name_def)

lemma strings_of:
  assumes "\<forall>x \<in> set xs. conforms s x" "\<And>x. conforms s x \<Longrightarrow> \<exists>t. x = JStr t \<and> P t"
  obtains ts where "xs = map JStr ts" "\<forall>t \<in> set ts. P t"
proof -
  have "\<forall>x \<in> set xs. str_value x \<in> Some ` {t. P t}" using assms by fastforce
  then show ?thesis using that unfolding str_values by blast
qed

lemma accepts_names:
  assumes "conforms (ArrayOf (length names) True (EnumOf names)) v"
  shows "\<exists>ss. unique_enum_values v name names = Inr ss"
proof -
  from assms obtain xs where v: "v = JList xs" "length xs \<le> length names" "distinct xs"
    and all: "\<forall>x \<in> set xs. conforms (EnumOf names) x" by (cases v) auto
  obtain ts where "xs = map JStr ts" "\<forall>t \<in> set ts. t \<in> set names"
    by (rule strings_of [OF all, of "\<lambda>t. t \<in> set names"]) (auto split: jsn.splits)
  then show ?thesis using v by (intro exI [of _ ts]) (auto simp: unique_enum_Inr distinct_map)
qed

lemma collect_texts: "\<forall>r \<in> set rs. \<not> blank r \<and> length r \<le> 256 \<Longrightarrow>
    collect (\<lambda>x. bounded_text x ''ref'' 256) (map JStr rs) = Inr (map py_strip rs)"
proof (induction rs)
  case (Cons r rs)
  then have "bounded_text (JStr r) ''ref'' 256 = Inr (py_strip r)"
    using length_py_strip [of r] by (simp add: bounded_text_def)
  with Cons show ?case by simp
qed simp

lemma accepts_refs:
  assumes "conforms (ArrayOf 32 True (StringOf 1 256)) v"
    and "list_all (\<lambda>r. \<not> blank r) (List.map_filter str_value (array_items v))"
    and "distinct (map py_strip (List.map_filter str_value (array_items v)))"
  shows "\<exists>refs. validate_refs v = Inr refs"
proof -
  from assms(1) obtain xs where v: "v = JList xs" "length xs \<le> 32"
    and all: "\<forall>x \<in> set xs. conforms (StringOf 1 256) x" by (cases v) auto
  obtain rs where rs: "xs = map JStr rs" "\<forall>r \<in> set rs. length r \<le> 256"
    by (rule strings_of [OF all, of "\<lambda>r. length r \<le> 256"]) (unfold string_conforms, blast)
  then have "collect (\<lambda>x. bounded_text x ''ref'' 256) xs = Inr (map py_strip rs)"
    using assms(2) v by (auto simp: array_items_def list_all_iff intro!: collect_texts)
  then show ?thesis using v rs assms(3) by (simp add: validate_refs_def array_items_def)
qed

lemma memory_search_accepts:
  assumes "conforms MEMORY_SEARCH_TOOL (JObj kvs)" "not_blank (arg kvs ''query'' JNull)"
  shows "\<exists>a. validate_memory_search kvs = Inr a"
proof -
  note c = assms(1) [unfolded MEMORY_SEARCH_TOOL_def]
  have "\<exists>t. bounded_text (arg kvs ''query'' JNull) ''query'' 1000 = Inr t"
    by (rule arg_accepts [OF c, of _ "StringOf 1 1000"]) (use assms(2) accepts_text in auto)
  moreover have "\<exists>s. one_name (arg kvs ''scope'' (JStr ''owner'')) MEMORY_SCOPES ''scope'' = Inr s"
    by (rule arg_accepts [OF c, of _ "EnumOf MEMORY_SCOPES"])
      (simp, simp add: one_name_def MEMORY_SCOPES_def, rule accepts_name)
  moreover have "\<exists>i. bounded_int (arg kvs ''limit'' (JInt 8)) ''limit'' 1 20 = Inr i"
    by (rule arg_accepts [OF c, of _ "IntegerOf 1 20"]) (simp, simp add: bounded_int_def, rule accepts_int)
  moreover have "reject_unknown kvs [''query'', ''scope'', ''limit''] ''memory_search'' = Inr ()"
    using closed_objectD(2) [OF c] by (intro known_fields) auto
  ultimately show ?thesis by (auto simp: validate_memory_search_def bindE_Inr_iff)
qed

lemma bindE_ok: "\<exists>x. m = Inr x \<Longrightarrow> (\<And>x. \<exists>y. f x = Inr y) \<Longrightarrow> \<exists>y. bindE m f = Inr y"
  by (auto simp: bindE_Inr_iff)

lemma accepts_query: "conforms (StringOf 0 1000) v \<Longrightarrow> \<exists>q. validate_query v = Inr q"
proof -
  assume "conforms (StringOf 0 1000) v"
  then obtain s where "v = JStr s" "length s \<le> 1000" unfolding string_conforms by blast
  then show ?thesis using length_py_strip [of s] by (simp add: validate_query_def)
qed

lemma accepts_last_ms: "conforms (IntegerOf 1 3600000) v \<Longrightarrow> \<exists>n. validate_last_ms v = Inr n"
  by (cases v) (auto simp: validate_last_ms_def bounded_int_def)

lemma accepts_flag: "conforms BooleanOf v \<Longrightarrow> \<exists>b. validate_flag v = Inr b"
  by (cases v) (auto simp: validate_flag_def)

lemma enum_default: "\<exists>ss. unique_enum_values (JList []) name names = Inr ss"
  using enum_again [of "[]" names name] by auto

lemma context_fetch_accepts:
  assumes "conforms CONTEXT_FETCH_TOOL (JObj kvs)" "tidy float ''context_fetch'' kvs"
  shows "\<exists>a. validate_context_fetch kvs = Inr a"
proof -
  note c = assms(1) [unfolded CONTEXT_FETCH_TOOL_def]
  have fields: "\<exists>x. reject_unknown kvs CONTEXT_FETCH_FIELDS ''context_fetch'' = Inr x"
    using closed_objectD(2) [OF c] by (simp add: CONTEXT_FETCH_FIELDS_def known_fields)
  have refs: "\<exists>x. validate_refs (arg kvs ''refs'' (JList [])) = Inr x"
    by (rule arg_accepts [OF c, of _ "ArrayOf 32 True (StringOf 1 256)"])
      (simp, simp add: validate_refs_def, rule accepts_refs, use assms(2) in \<open>simp_all add: tidy_def Let_def\<close>)
  have q: "\<exists>x. validate_query (arg kvs ''query'' (JStr [])) = Inr x"
    by (rule arg_accepts [OF c, of _ "StringOf 0 1000"])
      (simp, simp add: validate_query_def py_strip_def py_rstrip_def, rule accepts_query)
  have kinds: "\<exists>x. unique_enum_values (arg kvs ''kinds'' (JList [])) ''kinds'' CONTEXT_KINDS = Inr x"
    by (rule arg_accepts [OF c, of _ "ArrayOf (length CONTEXT_KINDS) True (EnumOf CONTEXT_KINDS)"])
      (simp, rule enum_default, rule accepts_names)
  have cks: "\<exists>x. unique_enum_values (arg kvs ''context_kinds'' (JList [])) ''context_kinds'' REALTIME_CONTEXT_KINDS = Inr x"
    by (rule arg_accepts [OF c, of _ "ArrayOf (length REALTIME_CONTEXT_KINDS) True (EnumOf REALTIME_CONTEXT_KINDS)"])
      (simp, rule enum_default, rule accepts_names)
  have roles: "\<exists>x. unique_enum_values (arg kvs ''roles'' (JList [])) ''roles'' CONTEXT_ROLES = Inr x"
    by (rule arg_accepts [OF c, of _ "ArrayOf (length CONTEXT_ROLES) True (EnumOf CONTEXT_ROLES)"])
      (simp, rule enum_default, rule accepts_names)
  have last: "\<exists>x. validate_last_ms (arg kvs ''last_ms'' JNull) = Inr x"
    by (rule arg_accepts [OF c, of _ "IntegerOf 1 3600000"]) (simp, simp add: validate_last_ms_def, rule accepts_last_ms)
  have flag: "\<exists>x. validate_flag (arg kvs ''include_media'' (JBool False)) = Inr x"
    by (rule arg_accepts [OF c, of _ BooleanOf])
      (simp, rule exI [of _ False], simp add: validate_flag_def, rule accepts_flag)
  have limit: "\<exists>x. bounded_int (arg kvs ''limit'' (JInt 20)) ''limit'' 1 50 = Inr x"
    by (rule arg_accepts [OF c, of _ "IntegerOf 1 50"]) (simp, simp add: bounded_int_def, rule accepts_int)
  have chars: "\<exists>x. bounded_int (arg kvs ''max_chars'' (JInt 12000)) ''max_chars'' 256 48000 = Inr x"
    by (rule arg_accepts [OF c, of _ "IntegerOf 256 48000"]) (simp, simp add: bounded_int_def, rule accepts_int)
  have cursor: "\<exists>x. bounded_int (arg kvs ''cursor'' (JInt 0)) ''cursor'' 0 100000 = Inr x"
    by (rule arg_accepts [OF c, of _ "IntegerOf 0 100000"]) (simp, simp add: bounded_int_def, rule accepts_int)
  show ?thesis unfolding validate_context_fetch_def
    by (intro bindE_ok fields refs q kinds cks roles last flag limit chars cursor exI) (rule refl)
qed

text \<open>The fields of a state patch.\<close>

lemma patch_field:
  assumes "conforms STATE_PATCH_SCHEMA (JObj patch)"
    and "map_of [(''completed'', StringOf 0 512), (''artifacts'', AnyObject 32), (''decisions'', StringOf 0 512)] k = Some s"
  obtains xs where "arg patch k (JList []) = JList xs" "length xs \<le> 64" "\<forall>x \<in> set xs. conforms s x"
proof -
  note c = assms(1) [unfolded STATE_PATCH_SCHEMA_def]
  have "\<exists>xs. arg patch k (JList []) = JList xs \<and> length xs \<le> 64 \<and> (\<forall>x \<in> set xs. conforms s x)"
    by (rule arg_accepts [OF c, of _ "ArrayOf 64 False s"])
      (use assms(2) in \<open>auto split: if_splits jsn.splits\<close>)
  then show ?thesis using that by blast
qed

lemma array_passes: "arg patch k (JList []) = JList xs \<Longrightarrow> length xs \<le> 64 \<Longrightarrow>
    \<forall>g \<in> set (patch_array_checks patch k). \<not> fst g"
  by (simp add: patch_array_checks_def array_items_def)

lemma texts_pass: "arg patch k (JList []) = JList xs \<Longrightarrow> \<forall>x \<in> set xs. conforms (StringOf 0 512) x \<Longrightarrow>
    \<forall>g \<in> set (patch_text_checks patch k). \<not> fst g"
  by (auto simp: patch_text_checks_def array_items_def string_conforms simp del: conforms.simps)

lemma object_conforms: "conforms (AnyObject n) v \<longleftrightarrow> (\<exists>kvs. v = JObj kvs \<and> length kvs \<le> n)"
  by (cases v) auto

lemma artifacts_pass: "arg patch ''artifacts'' (JList []) = JList xs \<Longrightarrow> \<forall>x \<in> set xs. conforms (AnyObject 32) x \<Longrightarrow>
    \<forall>g \<in> set (patch_artifact_checks patch). \<not> fst g"
  by (auto simp: patch_artifact_checks_def array_items_def object_conforms simp del: conforms.simps)

lemma patch_passes:
  assumes "conforms STATE_PATCH_SCHEMA (JObj patch)" "length (json_text float (JObj patch)) \<le> 65536"
  shows "raise_first (patch_checks float patch) = None"
proof -
  note c = assms(1) [unfolded STATE_PATCH_SCHEMA_def]
  obtain xs where xs: "arg patch ''completed'' (JList []) = JList xs" "length xs \<le> 64" "\<forall>x \<in> set xs. conforms (StringOf 0 512) x"
    by (rule patch_field [OF assms(1), of "''completed''" "StringOf 0 512"]) (simp, blast)
  obtain ys where ys: "arg patch ''artifacts'' (JList []) = JList ys" "length ys \<le> 64" "\<forall>x \<in> set ys. conforms (AnyObject 32) x"
    by (rule patch_field [OF assms(1), of "''artifacts''" "AnyObject 32"]) (simp, blast)
  obtain zs where zs: "arg patch ''decisions'' (JList []) = JList zs" "length zs \<le> 64" "\<forall>x \<in> set zs. conforms (StringOf 0 512) x"
    by (rule patch_field [OF assms(1), of "''decisions''" "StringOf 0 512"]) (simp, blast)
  have next_step: "conforms (StringOrNull 1000) (arg patch ''next_step'' JNull)"
    by (rule arg_accepts [OF c, of _ "StringOrNull 1000"]) simp_all
  show ?thesis unfolding raise_first_None_iff patch_checks_def set_append ball_Un
    using array_passes [OF xs(1,2)] array_passes [OF ys(1,2)] array_passes [OF zs(1,2)]
      texts_pass [OF xs(1,3)] texts_pass [OF zs(1,3)] artifacts_pass [OF ys(1,3)] next_step assms(2)
    by (simp add: ball_Un split: jsn.splits)
qed

lemma state_patch_accepts:
  assumes "v = JNull \<or> conforms STATE_PATCH_SCHEMA v" "length (json_text float (JObj (object_of v))) \<le> 65536"
  shows "\<exists>p. validate_state_patch float v = Inr p"
proof -
  have c: "conforms STATE_PATCH_SCHEMA (JObj (object_of v))"
    using assms(1) by (cases v) (auto simp: object_of_def STATE_PATCH_SCHEMA_def)
  moreover have "reject_unknown (object_of v) [''completed'', ''artifacts'', ''decisions'', ''next_step''] ''state_patch'' = Inr ()"
    using closed_objectD(2) [OF c [unfolded STATE_PATCH_SCHEMA_def]] by (simp add: known_fields)
  moreover have "(if falsy v then JObj [] else v) = JObj (object_of v)"
    using assms(1) by (cases v) (auto simp: object_of_def falsy_def STATE_PATCH_SCHEMA_def)
  ultimately show ?thesis using patch_passes assms(2) by (simp add: validate_state_patch_def)
qed

lemma share_accepts:
  assumes "conforms SHARE_TOOL (JObj kvs)" "tidy float ''share'' kvs"
  shows "\<exists>a. validate_share float kvs = Inr a"
proof -
  note c = assms(1) [unfolded SHARE_TOOL_def]
  have fields: "\<exists>x. reject_unknown kvs [''kind'', ''text'', ''state_patch''] ''share'' = Inr x"
    using closed_objectD(2) [OF c] by (simp add: known_fields)
  have kind: "\<exists>x. one_name (arg kvs ''kind'' JNull) SHARE_KINDS ''kind'' = Inr x"
    by (rule arg_accepts [OF c, of _ "EnumOf SHARE_KINDS"]) (simp, simp, rule accepts_name)
  have t: "\<exists>x. bounded_text (arg kvs ''text'' JNull) ''text'' 800 = Inr x"
    by (rule arg_accepts [OF c, of _ "StringOf 1 800"])
      (simp, simp, use assms(2) accepts_text in \<open>auto simp: tidy_def\<close>)
  have "arg kvs ''state_patch'' JNull = JNull \<or> conforms STATE_PATCH_SCHEMA (arg kvs ''state_patch'' JNull)"
    by (rule arg_accepts [OF c, of _ STATE_PATCH_SCHEMA]) auto
  then have patch: "\<exists>x. validate_state_patch float (arg kvs ''state_patch'' JNull) = Inr x"
    using assms(2) by (intro state_patch_accepts) (auto simp: tidy_def)
  show ?thesis unfolding validate_share_def by (intro bindE_ok fields kind t patch exI) (rule refl)
qed

lemma schema_calls_are_accepted:
  assumes "worker_tool_schema name = Some s" "conforms s (JObj kvs)" "tidy float name kvs"
  shows "\<exists>call. validate_tool_arguments float name (JObj kvs) = Inr call"
proof -
  consider "name = ''memory_search''" "s = MEMORY_SEARCH_TOOL" | "name = ''context_fetch''" "s = CONTEXT_FETCH_TOOL"
    | "name = ''share''" "s = SHARE_TOOL"
    using assms(1) by (auto simp: worker_tool_schema_def split: if_splits)
  then show ?thesis
  proof cases
    case 1
    then show ?thesis using memory_search_accepts [of kvs] assms
      by (auto simp: tidy_def validate_tool_arguments_def bindE_Inr_iff)
  next
    case 2
    then show ?thesis using context_fetch_accepts [of kvs float] assms
      by (auto simp: validate_tool_arguments_def bindE_Inr_iff)
  next
    case 3
    then show ?thesis using share_accepts [of kvs float] assms
      by (auto simp: validate_tool_arguments_def bindE_Inr_iff)
  qed
qed

end
