(* ===== verification/ControlContext.thy ===== *)
theory ControlContext
  imports ControlSteps WorkerTools
begin

text \<open>
  What a worker can read while it runs (gateway.py): artifacts and turns selected for its task, the
  bounded context of its lineage (\<open>context_fetch\<close>) and the deployment's memory (\<open>memory_search\<close>), called
  through \<open>WorkerToolSession\<close> and \<open>WorkerControl\<close>.

  A candidate of \<open>context_fetch\<close> is a dict.  Its ref, kind, time, text and media are fields here; the items
  that depend on the kind are in \<open>cd_details\<close>, as JSON.
\<close>

section \<open>Environment of the worker tools\<close>

record MemoryHit =
  mh_ref :: string
  mh_text :: string
  mh_score :: "rat option"
  mh_metadata :: "(string \<times> json) list"

text \<open>What the memory provider answers; a hit is a \<open>MemoryHit\<close> or any other value.\<close>

datatype raw_hit = HitObject MemoryHit | RawHit json

datatype memory_answer =
    NoMemory
  | MemoryTimeout
  | MemoryFailed string
  | NoHits
  | Hits "raw_hit list"

record worker_env =
  we_float :: "rat \<Rightarrow> ustr"
  we_max_context_media_refs :: int
  we_max_memory_result_chars :: int
  we_memory :: "nat \<Rightarrow> string \<Rightarrow> string \<Rightarrow> string \<Rightarrow> MemorySearchArgs \<Rightarrow> memory_answer"

section \<open>Artifacts and turns selected for a task\<close>

definition record_evidence :: "env \<Rightarrow> string \<Rightarrow> string \<Rightarrow> (string \<times> json) list \<Rightarrow> unit control" where
  "record_evidence X task_id ref facts =
     cbind (owned_task task_id None) (\<lambda>task.
     cbind (now X) (\<lambda>n.
     cbind (lift_res (ArtifactEvidence_init \<lparr>a_ref = ref, a_owner_id = t_owner_id task, a_task_id = task_id,
       a_facts = facts, a_created_at_ms = n\<rparr>)) (\<lambda>artifact.
     commit X (\<lambda>L clk. save_artifact L clk artifact))))"

definition fetch_artifact :: "string \<Rightarrow> string \<Rightarrow> ArtifactEvidence control" where
  "fetch_artifact task_id ref =
     cbind (owned_task task_id None) (\<lambda>task.
     cbind (look (\<lambda>L. get_artifact L ref)) (\<lambda>found.
     cbind (need (Raised (KeyError (''unknown artifact: '' @ ref))) found) (\<lambda>artifact.
     if a_task_id artifact \<noteq> task_id \<and>
        ref \<notin> set (cp_artifact_refs (t_context_plan task)) \<union> set (cp_must_include_refs (t_context_plan task))
     then throw (Raised (PermissionError ''artifact was not selected for this task''))
     else cbind (owned_task (a_task_id artifact) None) (\<lambda>source.
       if a_owner_id artifact \<noteq> t_owner_id task \<or> t_project_id source \<noteq> t_project_id task
       then throw (Raised (PermissionError ''artifact crosses owner or project boundary''))
       else ret artifact))))"

text \<open>\<open>{media.path: media for media in turn.media_refs}\<close>: the last one of a path.\<close>

definition media_at :: "MediaRef list \<Rightarrow> string \<Rightarrow> MediaRef option" where
  "media_at media path = find (\<lambda>m. m_path m = path) (rev media)"

definition compile_source_turn ::
  "TaskRecord \<Rightarrow> TurnEnvelope option \<Rightarrow> BackendCapabilities \<Rightarrow> TurnEnvelope option res" where
  "compile_source_turn task found capabilities =
     (case found of
        None \<Rightarrow> Inr None
      | Some turn \<Rightarrow>
          (let requested = cp_media_refs (t_context_plan task) in
           if requested = [] then bindE (TurnEnvelope_init (turn\<lparr>tu_media_refs := []\<rparr>)) (\<lambda>t. Inr (Some t))
           else if \<exists>p \<in> set requested. media_at (tu_media_refs turn) p = None
           then Inl (RuntimeError (''selected media refs are unavailable: '' @ py_names (sort_key u
             (remdups (filter (\<lambda>p. media_at (tu_media_refs turn) p = None) requested)))))
           else (let selected = List.map_filter (media_at (tu_media_refs turn)) requested;
                     unsupported = filter (\<lambda>m. media_modality (m_kind m) \<notin> set (bc_modalities capabilities)) selected
             in if unsupported \<noteq> []
                then Inl (RuntimeError (''backend does not support selected media: '' @
                  py_names (sort_key u (remdups (map m_kind unsupported)))))
                else bindE (TurnEnvelope_init (turn\<lparr>tu_media_refs := selected\<rparr>)) (\<lambda>t. Inr (Some t)))))"

text \<open>An empty string counts as absent.\<close>

definition or_none :: "string \<Rightarrow> string option" where
  "or_none s = (if s = [] then None else Some s)"

definition fetch_turn :: "env \<Rightarrow> string \<Rightarrow> string \<Rightarrow> string option \<Rightarrow> TurnEnvelope control" where
  "fetch_turn X task_id turn_id voice =
     cbind (owned_task task_id None) (\<lambda>task.
     if turn_id \<noteq> t_source_turn_id task \<and>
        turn_id \<notin> set (cp_event_refs (t_context_plan task)) \<union> set (cp_must_include_refs (t_context_plan task))
     then throw (Raised (PermissionError ''turn was not selected for this task''))
     else cbind (look (\<lambda>L. get_turn L turn_id (Some (t_owner_id task))
         (case or_none (case voice of None \<Rightarrow> [] | Some v \<Rightarrow> v) of
            Some v \<Rightarrow> Some v | None \<Rightarrow> or_none (t_source_voice_session_id task)))) (\<lambda>looked.
       cbind (lift_res looked) (\<lambda>found.
       if found = None then throw (Raised (KeyError (''unknown turn: '' @ turn_id)))
       else cbind (provider X (t_provider_name task)) (\<lambda>capabilities.
         cbind (lift_res (compile_source_turn task found capabilities)) (\<lambda>compiled.
         need (Raised (KeyError (''unknown turn: '' @ turn_id))) compiled)))))"

section \<open>The fence of the worker tools\<close>

definition worker_tool_task :: "env \<Rightarrow> string \<Rightarrow> string \<Rightarrow> string \<Rightarrow> TaskRecord control" where
  "worker_tool_task X task_id run_id tool =
     cbind (owned_task task_id None) (\<lambda>task.
     if t_active_run_id task \<noteq> Some run_id \<or> task_terminal task
     then throw (Raised (PermissionError ''worker tool call targets an inactive run''))
     else cbind (provider X (t_provider_name task)) (\<lambda>capabilities.
       if tool \<notin> set (bc_worker_tools capabilities)
       then throw (Raised (PermissionError (''provider did not declare worker tool: '' @ tool)))
       else ret task))"

section \<open>Candidates\<close>

record candidate =
  cd_ref :: string
  cd_kind :: string
  cd_created_at_ms :: int
  cd_text :: string
  cd_aliases :: "string list"
  cd_details :: "(string \<times> json) list"
  cd_media :: "json list option"
  cd_media_truncated :: bool
  cd_text_truncated :: bool

text \<open>A copy of a JSON object; one whose text is longer than 4096 characters is replaced by its start.\<close>

definition json_mapping :: "(rat \<Rightarrow> ustr) \<Rightarrow> (string \<times> json) list \<Rightarrow> (string \<times> json) list" where
  "json_mapping float kvs =
     (let encoded = json_text float (JObj kvs) in
      if length encoded > 4096 then [(''truncated'', JBool True), (''json_prefix'', JStr (take 4096 encoded))]
      else copied_object kvs)"

definition text_or_null :: "string option \<Rightarrow> json" where
  "text_or_null s = (case s of None \<Rightarrow> JNull | Some t \<Rightarrow> JStr t)"

definition int_or_null :: "int option \<Rightarrow> json" where
  "int_or_null n = (case n of None \<Rightarrow> JNull | Some i \<Rightarrow> JInt i)"

definition media_span :: "int option \<Rightarrow> int option \<Rightarrow> (string \<times> json) list" where
  "media_span s e = (if s = None then [] else [(''start_ms'', int_or_null s), (''end_ms'', int_or_null e)])"

definition media_summary :: "MediaRef list \<Rightarrow> json" where
  "media_summary media =
     (let times = List.map_filter m_timestamp_ms media in
      JObj ([(''count'', JInt (int (length media))),
             (''kinds'', JList (map JStr (sort_key u (remdups (map m_kind media)))))] @
        (if times = [] then []
         else [(''earliest_timestamp_ms'', JInt (Min (set times))), (''latest_timestamp_ms'', JInt (Max (set times)))])))"

definition eligible :: "BackendCapabilities \<Rightarrow> MediaRef list \<Rightarrow> MediaRef list" where
  "eligible capabilities media = filter (\<lambda>m. media_modality (m_kind m) \<in> set (bc_modalities capabilities)) media"

definition media_items :: "MediaRef \<Rightarrow> (string \<times> json) list" where
  "media_items m = [(''kind'', JStr (m_kind m)), (''path'', JStr (m_path m)),
     (''timestamp_ms'', int_or_null (m_timestamp_ms m)), (''mime_type'', text_or_null (m_mime_type m))]"

definition realtime_media :: "(rat \<Rightarrow> ustr) \<Rightarrow> MediaRef \<Rightarrow> json" where
  "realtime_media float m = JObj (media_items m @
     [(''source_path'', text_or_null (m_source_path m)), (''metadata'', JObj (json_mapping float (m_metadata m)))])"

definition turn_media :: "MediaRef \<Rightarrow> json" where
  "turn_media m = JObj (media_items m)"

definition realtime_candidate ::
  "(rat \<Rightarrow> ustr) \<Rightarrow> BackendCapabilities \<Rightarrow> bool \<Rightarrow> ContextEvent \<Rightarrow> candidate" where
  "realtime_candidate float capabilities include_media e =
     (let media = eligible capabilities (ce_media e) in
      \<lparr>cd_ref = ''realtime:'' @ ce_event_id e, cd_kind = ''realtime'', cd_created_at_ms = ce_timestamp_ms e,
       cd_text = ce_text e, cd_aliases = [ce_event_id e, ''realtime:'' @ ce_event_id e],
       cd_details = [(''context_kind'', JStr (ce_kind e)), (''role'', JStr (ce_role e)), (''seq'', JInt (ce_seq e)),
         (''timestamp_ms'', JInt (ce_timestamp_ms e)), (''voice_session_id'', JStr (ce_session_id e)),
         (''metadata'', JObj (json_mapping float (ce_metadata e)))] @
         media_span (ce_start_ms e) (ce_end_ms e) @ [(''media_summary'', media_summary media)],
       cd_media = (if include_media then Some (take 32 (map (realtime_media float) media)) else None),
       cd_media_truncated = (include_media \<and> length media > 32), cd_text_truncated = False\<rparr>)"

definition turn_ref :: "TurnEnvelope \<Rightarrow> string" where
  "turn_ref t = ''turn:'' @ tu_voice_session_id t @ '':'' @ tu_turn_id t"

definition turn_candidate :: "BackendCapabilities \<Rightarrow> bool \<Rightarrow> TurnEnvelope list \<Rightarrow> TurnEnvelope \<Rightarrow> candidate" where
  "turn_candidate capabilities include_media turns t =
     (let media = eligible capabilities (tu_media_refs t);
          only = length (filter (\<lambda>x. tu_turn_id x = tu_turn_id t) turns) = 1 in
      \<lparr>cd_ref = turn_ref t, cd_kind = ''turn'', cd_created_at_ms = tu_created_at_ms t, cd_text = tu_final_asr t,
       cd_aliases = [turn_ref t, receipt_key t] @ (if only then [tu_turn_id t, ''turn:'' @ tu_turn_id t] else []),
       cd_details = [(''voice_session_id'', JStr (tu_voice_session_id t)),
         (''context_revision'', JInt (tu_context_revision t)),
         (''timestamp_ms'', JInt (case tu_timestamp_ms t of None \<Rightarrow> tu_created_at_ms t
            | Some n \<Rightarrow> if n = 0 then tu_created_at_ms t else n))] @
         media_span (tu_start_ms t) (tu_end_ms t) @ [(''media_summary'', media_summary media)],
       cd_media = (if include_media then Some (take 32 (map turn_media media)) else None),
       cd_media_truncated = (include_media \<and> length media > 32), cd_text_truncated = False\<rparr>)"

definition newline :: string where "newline = [CHR 0x0A]"

definition lines_of :: "string list \<Rightarrow> string" where
  "lines_of xs = join_with newline (filter (\<lambda>x. x \<noteq> []) xs)"

definition labelled :: "string \<Rightarrow> string \<Rightarrow> string" where
  "labelled label s = (if s = [] then [] else label @ s)"

definition task_text :: "TaskRecord \<Rightarrow> string" where
  "task_text t = lines_of [''title: '' @ t_title t, ''objective: '' @ t_objective t,
     ''status: '' @ task_status_name (t_status t), labelled ''result: '' (t_result t), labelled ''error: '' (t_error t)]"

definition plain_candidate :: "string \<Rightarrow> string \<Rightarrow> int \<Rightarrow> string \<Rightarrow> string list \<Rightarrow> (string \<times> json) list \<Rightarrow> candidate" where
  "plain_candidate ref kind at_ms t aliases details =
     \<lparr>cd_ref = ref, cd_kind = kind, cd_created_at_ms = at_ms, cd_text = t, cd_aliases = aliases,
      cd_details = details, cd_media = None, cd_media_truncated = False, cd_text_truncated = False\<rparr>"

definition task_candidate :: "TaskRecord \<Rightarrow> candidate" where
  "task_candidate t = plain_candidate (''task:'' @ t_task_id t) ''task'' (t_updated_at_ms t) (task_text t)
     [t_task_id t, ''task:'' @ t_task_id t] [(''status'', JStr (task_status_name (t_status t)))]"

definition artifact_ref :: "ArtifactEvidence \<Rightarrow> string" where
  "artifact_ref a = (if take 9 (a_ref a) = ''artifact:'' then a_ref a else ''artifact:'' @ a_ref a)"

definition artifact_candidate :: "(rat \<Rightarrow> ustr) \<Rightarrow> ArtifactEvidence \<Rightarrow> candidate" where
  "artifact_candidate float a = plain_candidate (artifact_ref a) ''artifact'' (a_created_at_ms a)
     (json_text float (JObj (json_mapping float (a_facts a)))) [a_ref a, artifact_ref a]
     [(''task_id'', JStr (a_task_id a))]"

definition worker_event_text :: "WorkerEvent \<Rightarrow> string" where
  "worker_event_text e = (case e_payload e of
     PUpdate p \<Rightarrow> lines_of [up_summary p,
       (case up_milestone p of None \<Rightarrow> [] | Some m \<Rightarrow> labelled ''milestone: '' m), labelled ''next: '' (up_next_step p)]
   | PInteraction p \<Rightarrow> (let choices = join_with '', '' (ip_choices p) in
       if choices = [] then ip_prompt p else ip_prompt p @ newline @ ''choices: '' @ choices)
   | PDone p \<Rightarrow> lines_of [''status: '' @ task_status_name (do_status p), do_result p,
       labelled (''unresolved:'' @ newline) (join_with newline (do_unresolved p))])"

definition event_candidate :: "WorkerEvent \<Rightarrow> candidate" where
  "event_candidate e = plain_candidate (''event:'' @ e_event_id e) ''event'' (e_created_at_ms e) (worker_event_text e)
     [e_event_id e, ''event:'' @ e_event_id e]
     [(''task_id'', JStr (e_task_id e)), (''event_type'', JStr (e_type e))]"

section \<open>Gathering the context of a lineage\<close>

definition lineage_tasks :: "TaskLedger \<Rightarrow> TaskRecord \<Rightarrow> TaskRecord list" where
  "lineage_tasks L task = filter (\<lambda>t. t_project_id t = t_project_id task \<and> t_lineage_id t = t_lineage_id task)
     (list_tasks L (Some (t_owner_id task)))"

text \<open>The dicts \<open>turns\<close> and \<open>realtime_events\<close>, in the order of insertion.\<close>

type_synonym gathered = "(string \<times> TurnEnvelope) list \<times> (string \<times> ContextEvent) list"

definition add_turn :: "TurnEnvelope option \<Rightarrow> gathered \<Rightarrow> gathered" where
  "add_turn found acc = (case found of None \<Rightarrow> acc
     | Some t \<Rightarrow> (AList.update (receipt_key t) t (fst acc), snd acc))"

definition add_event :: "string \<Rightarrow> ContextEvent option \<Rightarrow> gathered \<Rightarrow> gathered" where
  "add_event session found acc = (case found of None \<Rightarrow> acc
     | Some e \<Rightarrow> if ce_session_id e = session then (fst acc, AList.update (ce_event_id e) e (snd acc)) else acc)"

definition selected_turn :: "TaskLedger \<Rightarrow> string \<Rightarrow> TaskRecord \<Rightarrow> string \<Rightarrow> TurnEnvelope option" where
  "selected_turn L own t ref =
     (let by_id = (case get_turn L ref (Some own) (or_none (t_source_voice_session_id t)) of Inl _ \<Rightarrow> None | Inr x \<Rightarrow> x)
      in case get_turn_by_receipt L ref of None \<Rightarrow> by_id
       | Some x \<Rightarrow> if tu_owner_id x = own then Some x else by_id)"

definition gather_ref :: "TaskLedger \<Rightarrow> string \<Rightarrow> TaskRecord \<Rightarrow> gathered \<Rightarrow> string \<Rightarrow> gathered" where
  "gather_ref L own t acc ref =
     (if take 9 ref = ''realtime:''
      then add_event (t_source_voice_session_id t) (get_realtime_context L (drop 9 ref) (Some own)) acc
      else add_turn (selected_turn L own t ref) acc)"

definition gather_task :: "TaskLedger \<Rightarrow> string \<Rightarrow> TaskRecord \<Rightarrow> gathered \<Rightarrow> gathered res" where
  "gather_task L own t acc =
     bindE (get_turn L (t_source_turn_id t) (Some own) (or_none (t_source_voice_session_id t))) (\<lambda>source.
     Inr (foldl (gather_ref L own t) (add_turn source acc)
       (cp_event_refs (t_context_plan t) @ cp_must_include_refs (t_context_plan t))))"

fun gather_tasks :: "TaskLedger \<Rightarrow> string \<Rightarrow> TaskRecord list \<Rightarrow> gathered \<Rightarrow> gathered res" where
  "gather_tasks L own [] acc = Inr acc"
| "gather_tasks L own (t # ts) acc = bindE (gather_task L own t acc) (gather_tasks L own ts)"

definition gather_command :: "string \<Rightarrow> string set \<Rightarrow> gathered \<Rightarrow> ProviderCommandRecord \<Rightarrow> gathered" where
  "gather_command own ids acc c =
     (if c_task_id c \<notin> ids then acc
      else case wm_source_turn (c_message c) of None \<Rightarrow> acc
        | Some t \<Rightarrow> if tu_owner_id t = own then add_turn (Some t) acc else acc)"

definition context_candidates ::
  "(rat \<Rightarrow> ustr) \<Rightarrow> TaskLedger \<Rightarrow> TaskRecord \<Rightarrow> BackendCapabilities \<Rightarrow> bool \<Rightarrow> candidate list res" where
  "context_candidates float L task capabilities include_media =
     (let own = t_owner_id task; tasks = lineage_tasks L task; ids = t_task_id ` set tasks in
      bindE (gather_tasks L own tasks ([], [])) (\<lambda>acc0.
      let acc = foldl (gather_command own ids) acc0 (list_provider_commands L (Some own) None);
          turns = map snd (fst acc);
          events = sort_key ce_seq (sort_key ce_timestamp_ms (sort_key (\<lambda>e. u (ce_event_id e)) (map snd (snd acc))))
      in Inr (map (realtime_candidate float capabilities include_media) events @
              map (turn_candidate capabilities include_media turns) turns @
              map task_candidate tasks @
              map (artifact_candidate float) (filter (\<lambda>a. a_task_id a \<in> ids) (list_artifacts L (Some own))) @
              concat (map (\<lambda>t. map event_candidate (list_events L (Some (t_task_id t)) None)) tasks))))"

end
