(* ===== verification/ControlFetch.thy ===== *)
theory ControlFetch
  imports ControlContext
begin

text \<open>
  The calls a worker makes on the context of its lineage (gateway.py): selection, scoring and the bounded
  page of \<open>context_fetch\<close>, the bounded hits of \<open>memory_search\<close>, the dispatcher in front of them, and the
  remaining readers of the gateway.
\<close>

section \<open>Scoring a query\<close>

text \<open>
  \<open>str.casefold\<close> on code points below 256.  The micro sign is kept, which changes no comparison: nothing
  else below 256 folds to a Greek letter.
\<close>

definition casefold :: "string \<Rightarrow> string" where
  "casefold s = concat (map (\<lambda>c. let n = of_char c :: nat in
     if (65 \<le> n \<and> n \<le> 90) \<or> (192 \<le> n \<and> n \<le> 222 \<and> n \<noteq> 215) then [char_of (n + 32)]
     else if n = 223 then ''ss'' else [c]) s)"

definition word_char :: "char \<Rightarrow> bool" where
  "word_char c \<longleftrightarrow> (let n = of_char c :: nat in (97 \<le> n \<and> n \<le> 122) \<or> (48 \<le> n \<and> n \<le> 57) \<or> n = 95)"

text \<open>\<open>re.findall\<close> of the runs of word characters; its other alternative has no character below 256.\<close>

fun word_runs :: "string \<Rightarrow> string list" where
  "word_runs [] = []"
| "word_runs (c # s) =
     (if \<not> word_char c then word_runs s
      else case s of
        d # _ \<Rightarrow> if word_char d then (case word_runs s of w # ws \<Rightarrow> (c # w) # ws | [] \<Rightarrow> [[c]]) else [c] # word_runs s
      | [] \<Rightarrow> [[c]])"

definition context_score :: "string \<Rightarrow> candidate \<Rightarrow> int" where
  "context_score query c =
     (let needle = py_strip (casefold query); haystack = casefold (cd_text c) in
      if needle = [] then 1
      else (if sublist needle haystack then 100 else 0) +
        3 * int (length (filter (\<lambda>t. sublist t haystack) (remdups (word_runs needle)))))"

section \<open>Selection\<close>

definition detail :: "candidate \<Rightarrow> string \<Rightarrow> string option" where
  "detail c k = (case map_of (cd_details c) k of Some (JStr s) \<Rightarrow> Some s | _ \<Rightarrow> None)"

definition kind_filter :: "ContextFetchArgs \<Rightarrow> string set" where
  "kind_filter a = (if cf_refs a = [] \<and> cf_query a = [] \<and> cf_kinds a = [] then {''realtime''} else set (cf_kinds a))"

definition selection_name :: "ContextFetchArgs \<Rightarrow> string" where
  "selection_name a =
     (if cf_refs a \<noteq> [] then ''refs'' else if cf_query a \<noteq> [] then ''search''
      else if cf_kinds a \<noteq> [] then ''kinds'' else ''task_start'')"

definition of_kind :: "ContextFetchArgs \<Rightarrow> candidate list \<Rightarrow> candidate list" where
  "of_kind a cs = (if kind_filter a = {} then cs else filter (\<lambda>c. cd_kind c \<in> kind_filter a) cs)"

definition in_timeline :: "ContextFetchArgs \<Rightarrow> TaskRecord \<Rightarrow> candidate \<Rightarrow> bool" where
  "in_timeline a task c \<longleftrightarrow> cd_kind c = ''realtime'' \<and>
     (cf_context_kinds a = [] \<or> detail c ''context_kind'' \<in> Some ` set (cf_context_kinds a)) \<and>
     (cf_roles a = [] \<or> detail c ''role'' \<in> Some ` set (cf_roles a)) \<and>
     (case cf_last_ms a of None \<Rightarrow> True | Some n \<Rightarrow> cd_created_at_ms c \<ge> t_created_at_ms task - n)"

definition narrowed :: "ContextFetchArgs \<Rightarrow> TaskRecord \<Rightarrow> candidate list \<Rightarrow> candidate list" where
  "narrowed a task cs =
     (if cf_context_kinds a \<noteq> [] \<or> cf_roles a \<noteq> [] \<or> cf_last_ms a \<noteq> None
      then filter (in_timeline a task) (of_kind a cs) else of_kind a cs)"

text \<open>The candidates a list of refs names, each once, in the order of the refs.\<close>

fun add_new :: "candidate list \<Rightarrow> candidate list \<Rightarrow> candidate list" where
  "add_new [] acc = acc"
| "add_new (c # cs) acc = add_new cs (if cd_ref c \<in> cd_ref ` set acc then acc else acc @ [c])"

definition matches_of :: "candidate list \<Rightarrow> string \<Rightarrow> candidate list" where
  "matches_of cs ref = filter (\<lambda>c. ref \<in> set (cd_aliases c)) cs"

definition by_refs :: "string list \<Rightarrow> candidate list \<Rightarrow> candidate list" where
  "by_refs refs cs = foldl (\<lambda>acc ref. add_new (matches_of cs ref) acc) [] refs"

text \<open>A sort with \<open>reverse=True\<close> keeps equal elements in their order.\<close>

definition by_score :: "string \<Rightarrow> candidate list \<Rightarrow> candidate list" where
  "by_score query cs = filter (\<lambda>c. context_score query c > 0)
     (sort_key (\<lambda>c. - context_score query c) (sort_key (\<lambda>c. - cd_created_at_ms c) cs))"

definition by_time :: "bool \<Rightarrow> candidate list \<Rightarrow> candidate list" where
  "by_time newest_first cs = sort_key (\<lambda>c. if newest_first then - cd_created_at_ms c else cd_created_at_ms c) cs"

definition ordered :: "ContextFetchArgs \<Rightarrow> candidate list \<Rightarrow> candidate list" where
  "ordered a cs =
     (if cf_refs a \<noteq> [] then by_refs (cf_refs a) cs
      else if cf_query a \<noteq> [] then by_score (cf_query a) cs
      else by_time (kind_filter a \<noteq> {''realtime''}) cs)"

section \<open>One page\<close>

definition available_media :: "int \<Rightarrow> int \<Rightarrow> nat" where
  "available_media max_media used = nat (max (max_media - used) 0)"

definition cut_candidate :: "int \<Rightarrow> nat \<Rightarrow> candidate \<Rightarrow> candidate" where
  "cut_candidate remaining available c = c\<lparr>
     cd_text := take (nat remaining) (cd_text c),
     cd_text_truncated := cd_text_truncated c \<or> int (length (cd_text c)) > remaining,
     cd_media := map_option (take available) (cd_media c),
     cd_media_truncated := cd_media_truncated c \<or>
       (case cd_media c of None \<Rightarrow> False | Some m \<Rightarrow> length m > available)\<rparr>"

definition media_size :: "candidate \<Rightarrow> nat" where
  "media_size c = (case cd_media c of None \<Rightarrow> 0 | Some m \<Rightarrow> length m)"

record page_fill =
  pf_items :: "candidate list"
  pf_chars :: int
  pf_media :: int
  pf_text_truncated :: bool
  pf_media_truncated :: bool

fun fill_page :: "int \<Rightarrow> int \<Rightarrow> page_fill \<Rightarrow> candidate list \<Rightarrow> page_fill" where
  "fill_page max_chars max_media p [] = p"
| "fill_page max_chars max_media p (c # cs) =
     (let remaining = max_chars - pf_chars p in
      if remaining \<le> 0 then p\<lparr>pf_text_truncated := True\<rparr>
      else let d = cut_candidate remaining (available_media max_media (pf_media p)) c in
        fill_page max_chars max_media
          \<lparr>pf_items = pf_items p @ [d], pf_chars = pf_chars p + int (length (cd_text d)),
           pf_media = pf_media p + int (media_size d),
           pf_text_truncated = pf_text_truncated p \<or> int (length (cd_text c)) > remaining,
           pf_media_truncated = pf_media_truncated p \<or> (cd_media c \<noteq> None \<and> cd_media_truncated d)\<rparr> cs)"

definition empty_fill :: page_fill where
  "empty_fill = \<lparr>pf_items = [], pf_chars = 0, pf_media = 0, pf_text_truncated = False, pf_media_truncated = False\<rparr>"

record ContextPage =
  pg_owner_id :: string
  pg_project_id :: string
  pg_task_id :: string
  pg_lineage_id :: string
  pg_selection :: string
  pg_available_kinds :: "(string \<times> int) list"
  pg_results :: "candidate list"
  pg_missing_refs :: "string list"
  pg_content_chars :: int
  pg_media_refs :: int
  pg_media_truncated :: bool
  pg_truncated :: bool
  pg_next_cursor :: "int option"

definition kind_counts :: "candidate list \<Rightarrow> (string \<times> int) list" where
  "kind_counts cs = map (\<lambda>k. (k, int (length (filter (\<lambda>c. cd_kind c = k) cs)))) (from_keys (map cd_kind cs))"

definition context_page :: "int \<Rightarrow> ContextFetchArgs \<Rightarrow> TaskRecord \<Rightarrow> candidate list \<Rightarrow> ContextPage" where
  "context_page max_media a task cs =
     (let selected = narrowed a task cs;
          chosen = ordered a selected;
          page = take (nat (cf_limit a)) (drop (nat (cf_cursor a)) chosen);
          p = fill_page (cf_max_chars a) max_media empty_fill page;
          next_cursor = cf_cursor a + int (length (pf_items p));
          has_more = pf_text_truncated p \<or> next_cursor < int (length chosen)
      in \<lparr>pg_owner_id = t_owner_id task, pg_project_id = t_project_id task, pg_task_id = t_task_id task,
          pg_lineage_id = t_lineage_id task, pg_selection = selection_name a, pg_available_kinds = kind_counts cs,
          pg_results = pf_items p,
          pg_missing_refs = filter (\<lambda>r. matches_of selected r = []) (cf_refs a),
          pg_content_chars = pf_chars p, pg_media_refs = pf_media p, pg_media_truncated = pf_media_truncated p,
          pg_truncated = has_more, pg_next_cursor = (if has_more then Some next_cursor else None)\<rparr>)"

definition context_fetch ::
  "env \<Rightarrow> worker_env \<Rightarrow> string \<Rightarrow> string \<Rightarrow> ContextFetchArgs \<Rightarrow> ContextPage control" where
  "context_fetch X E task_id run_id a =
     cbind (worker_tool_task X task_id run_id ''context_fetch'') (\<lambda>task.
     cbind (provider X (t_provider_name task)) (\<lambda>capabilities.
     cbind (look (\<lambda>L. context_candidates (we_float E) L task capabilities (cf_include_media a))) (\<lambda>gathered.
     cbind (lift_res gathered) (\<lambda>cs. ret (context_page (we_max_context_media_refs E) a task cs)))))"

section \<open>Memory\<close>

text \<open>\<open>MemoryHit.__post_init__\<close> on the values a provider sends; an integer score is the same rational.\<close>

definition score_of :: "json \<Rightarrow> rat option res" where
  "score_of v = (case v of JNull \<Rightarrow> Inr None | JInt i \<Rightarrow> Inr (Some (of_int i)) | JFloat q \<Rightarrow> Inr (Some q)
     | _ \<Rightarrow> Inl (ValueError ''memory hit score must be a finite number''))"

definition MemoryHit_init :: "json \<Rightarrow> json \<Rightarrow> json \<Rightarrow> json \<Rightarrow> MemoryHit res" where
  "MemoryHit_init ref t score metadata =
     (case str_value ref of
        None \<Rightarrow> Inl (ValueError ''memory hit ref must be a non-empty string'')
      | Some r \<Rightarrow> if blank r then Inl (ValueError ''memory hit ref must be a non-empty string'')
        else case str_value t of
          None \<Rightarrow> Inl (ValueError ''memory hit text must be a string'')
        | Some s \<Rightarrow> bindE (score_of score) (\<lambda>q. case metadata of
              JObj m \<Rightarrow> Inr \<lparr>mh_ref = r, mh_text = s, mh_score = q, mh_metadata = m\<rparr>
            | _ \<Rightarrow> Inl (ValueError ''memory hit metadata must be an object'')))"

definition memory_hit :: "raw_hit \<Rightarrow> MemoryHit res" where
  "memory_hit raw = (case raw of
     HitObject h \<Rightarrow> Inr h
   | RawHit (JObj kvs) \<Rightarrow> MemoryHit_init (arg kvs ''ref'' JNull) (arg kvs ''text'' JNull) (arg kvs ''score'' JNull)
       (let m = arg kvs ''metadata'' JNull in if falsy m then JObj [] else m)
   | RawHit _ \<Rightarrow> Inl (TypeError ''memory hit must be MemoryHit or an object''))"

record MemoryItem =
  mi_ref :: string
  mi_text :: string
  mi_metadata :: "(string \<times> json) list"
  mi_score :: "rat option"

record MemoryReply =
  my_status :: string
  my_reason :: string
  my_detail :: string
  my_scope :: string
  my_query :: string
  my_results :: "MemoryItem list"
  my_content_chars :: int
  my_truncated :: bool

definition no_memory :: "string \<Rightarrow> string \<Rightarrow> string \<Rightarrow> string \<Rightarrow> MemoryReply" where
  "no_memory status reason why scope = \<lparr>my_status = status, my_reason = reason, my_detail = why, my_scope = scope,
     my_query = [], my_results = [], my_content_chars = 0, my_truncated = False\<rparr>"

fun fill_hits ::
  "(rat \<Rightarrow> ustr) \<Rightarrow> int \<Rightarrow> MemoryItem list \<times> int \<times> bool \<Rightarrow> raw_hit list \<Rightarrow> (MemoryItem list \<times> int \<times> bool) res" where
  "fill_hits float maximum acc [] = Inr acc"
| "fill_hits float maximum (found, used, clipped) (raw # rest) =
     bindE (memory_hit raw) (\<lambda>hit.
       if maximum - used \<le> 0 then Inr (found, used, True)
       else let t = take (nat (min 4000 (maximum - used))) (mh_text hit) in
         fill_hits float maximum
           (found @ [\<lparr>mi_ref = mh_ref hit, mi_text = t, mi_metadata = json_mapping float (mh_metadata hit),
              mi_score = mh_score hit\<rparr>], used + int (length t), clipped \<or> length t < length (mh_text hit)) rest)"

definition memory_search ::
  "env \<Rightarrow> worker_env \<Rightarrow> string \<Rightarrow> string \<Rightarrow> MemorySearchArgs \<Rightarrow> MemoryReply control" where
  "memory_search X E task_id run_id a =
     cbind (worker_tool_task X task_id run_id ''memory_search'') (\<lambda>task.
     cbind (await (\<lambda>n. Inr (we_memory E n (t_owner_id task) (t_project_id task) (t_task_id task) a))) (\<lambda>answer.
     case answer of
       NoMemory \<Rightarrow> ret (no_memory ''unavailable'' ''memory_provider_not_configured'' [] (ms_scope a))
     | MemoryTimeout \<Rightarrow> ret (no_memory ''error'' ''memory_provider_timeout'' [] (ms_scope a))
     | MemoryFailed e \<Rightarrow> ret (no_memory ''error'' ''memory_provider_failed'' (take 256 e) (ms_scope a))
     | NoHits \<Rightarrow> throw (Raised (TypeError ''memory provider must return a sequence of hits''))
     | Hits raws \<Rightarrow>
         cbind (lift_res (fill_hits (we_float E) (we_max_memory_result_chars E)
           ([], 0, int (length raws) > ms_limit a) (take (nat (ms_limit a)) raws))) (\<lambda>(found, used, clipped).
         ret \<lparr>my_status = ''ok'', my_reason = [], my_detail = [], my_scope = ms_scope a, my_query = ms_query a,
           my_results = found, my_content_chars = used, my_truncated = clipped\<rparr>)))"

section \<open>Dispatch\<close>

definition control_memory_search ::
  "env \<Rightarrow> worker_env \<Rightarrow> string \<Rightarrow> string \<Rightarrow> MemorySearchArgs \<Rightarrow> MemoryReply control" where
  "control_memory_search X E task_id run_id a =
     cbind (lift_res (validate_memory_search (object_of (search_arguments a)))) (memory_search X E task_id run_id)"

definition control_context_fetch ::
  "env \<Rightarrow> worker_env \<Rightarrow> string \<Rightarrow> string \<Rightarrow> ContextFetchArgs \<Rightarrow> ContextPage control" where
  "control_context_fetch X E task_id run_id a =
     cbind (lift_res (validate_context_fetch (object_of (fetch_arguments a)))) (context_fetch X E task_id run_id)"

datatype tool_reply = MemoryReplied MemoryReply | ContextReplied ContextPage | ShareReplied json

definition tool_dispatch ::
  "env \<Rightarrow> worker_env \<Rightarrow> (ShareArgs \<Rightarrow> string \<Rightarrow> json control) \<Rightarrow> string \<Rightarrow> string \<Rightarrow> string \<Rightarrow> json \<Rightarrow> string \<Rightarrow>
   tool_reply control" where
  "tool_dispatch X E share task_id run_id name arguments call_id =
     cbind (lift_res (validate_tool_arguments (we_float E) name arguments)) (\<lambda>call. case call of
       MemorySearch a \<Rightarrow> cbind (control_memory_search X E task_id run_id a) (\<lambda>r. ret (MemoryReplied r))
     | ContextFetch a \<Rightarrow> cbind (control_context_fetch X E task_id run_id a) (\<lambda>r. ret (ContextReplied r))
     | Share a \<Rightarrow> cbind (share a call_id) (\<lambda>r. ret (ShareReplied r)))"

section \<open>Other readers of the gateway\<close>

definition record_realtime_context :: "env \<Rightarrow> string \<Rightarrow> ContextEvent \<Rightarrow> bool control" where
  "record_realtime_context X own event =
     (if own = [] then throw (Raised (ValueError ''realtime context owner_id must not be empty''))
      else if ce_session_id event = [] then throw (Raised (ValueError ''realtime context session_id must not be empty''))
      else commit X (\<lambda>L clk. put_realtime_context L clk own event))"

record TaskSlateEntry =
  ts_name :: string
  ts_status_line :: ustr
  ts_done :: bool

text \<open>The status line of the coordinator's mode is in Chinese: code points 29366, 24577, then a colon.\<close>

definition slate_entry :: "env \<Rightarrow> bool \<Rightarrow> TaskRecord \<Rightarrow> TaskSlateEntry option" where
  "slate_entry X finished t =
     (let name = (if t_name t = [] then t_title t else t_name t) in
      if name = [] then None
      else Some \<lparr>ts_name = name,
        ts_status_line = (if x_lean X then u (coarse_task_status (task_status_name (t_status t)))
          else if t_result t \<noteq> [] then u (t_result t)
          else [29366, 24577, 58] @ u (task_status_name (t_status t))),
        ts_done = finished\<rparr>)"

definition task_slate :: "env \<Rightarrow> string \<Rightarrow> TaskSlateEntry list control" where
  "task_slate X own =
     cbind (look (\<lambda>L. List.map_filter (slate_entry X False)
       (filter (\<lambda>t. t_kind t = ''main'' \<and> \<not> task_terminal t) (list_tasks L (Some own))))) (\<lambda>active.
     cbind (look_now X (\<lambda>L clk. List.map_filter (slate_entry X True)
       (recent_terminal_tasks L clk own (x_recent_task_window_ms X) (x_max_terminal_tasks X)))) (\<lambda>recent.
     ret (active @ recent)))"

text \<open>
  \<open>wait_coordination\<close>: what is known before the wait, \<open>None\<close> when the job is still open, and the answer once
  the job has been signalled.
\<close>

definition superseded_result :: "string \<Rightarrow> TaskControlResult" where
  "superseded_result request_id = (control_result request_id ''accepted'')\<lparr>tc_reason_key := ''coordination.superseded''\<rparr>"

definition known_answer :: "TaskLedger \<Rightarrow> string \<Rightarrow> string \<Rightarrow> TaskControlResult option" where
  "known_answer L own request_id = (case get_coordination_job L own of
       None \<Rightarrow> None
     | Some job \<Rightarrow> if j_request_id job = request_id then j_result job else Some (superseded_result request_id))"

definition awaited_answer :: "TaskLedger \<Rightarrow> string \<Rightarrow> string \<Rightarrow> TaskControlResult" where
  "awaited_answer L own request_id = (case get_coordination_job L own of
       Some job \<Rightarrow> (case j_result job of
           Some r \<Rightarrow> if j_request_id job = request_id then r else superseded_result request_id
         | None \<Rightarrow> superseded_result request_id)
     | None \<Rightarrow> superseded_result request_id)"

text \<open>\<open>coordinate_task_start\<close>: the routed turn it submits, and the answer it makes of the result.\<close>

definition routed_turn :: "env \<Rightarrow> string \<Rightarrow> TurnEnvelope \<Rightarrow> string \<Rightarrow> string option \<Rightarrow> TurnEnvelope control" where
  "routed_turn X own turn name provider_name =
     (if x_lean X then throw (Raised (RuntimeError ''coordinate_task_start() requires coordinator mode''))
      else seq (bound_turn own turn) (cbind (normalized_name name) (\<lambda>normalized.
        lift_res (TurnEnvelope_init (turn\<lparr>tu_frontbrain_action := ''task_start'',
          tu_frontbrain_task_name := normalized,
          tu_runtime_provider_name := py_strip (case provider_name of None \<Rightarrow> [] | Some p \<Rightarrow> p)\<rparr>)))))"

definition started_task :: "TaskLedger \<Rightarrow> string \<Rightarrow> TaskControlResult \<Rightarrow> TaskRecord option" where
  "started_task L own result =
     (if tc_disposition result = ''accepted''
      then (case tc_task_ids result of
          [k] \<Rightarrow> (case get_task L k of
              Some t \<Rightarrow> if t_owner_id t = own then Some t else None | None \<Rightarrow> None)
        | _ \<Rightarrow> None)
      else None)"

definition start_answer :: "TaskLedger \<Rightarrow> string \<Rightarrow> TaskControlResult \<Rightarrow> TaskControlResult res" where
  "start_answer L own result = TaskControlResult_init (case started_task L own result of
       Some t \<Rightarrow> result\<lparr>tc_status := ''ok'', tc_speech := (if t_name t = [] then t_title t else t_name t)\<rparr>
     | None \<Rightarrow> result\<lparr>tc_status := (if tc_disposition result = ''rejected'' then ''unsupported'' else ''invalid_action''),
         tc_speech := []\<rparr>)"

end
