(* ===== verification/ControlReading.thy ===== *)
theory ControlReading
  imports ControlFetch ControlRuns
begin

text \<open>
  What a worker can and cannot read: the context of its own lineage and nothing of another owner, in
  pages within the published bounds that together give every selected candidate once.
\<close>

section \<open>The owner of a stored turn\<close>

definition turns_owned :: "TaskLedger \<Rightarrow> bool" where
  "turns_owned L \<longleftrightarrow> own_keyed receipt_key tu_owner_id (l_turns L)"

lemma insert_turn_owned:
  "own_keyed receipt_key tu_owner_id t \<Longrightarrow> tbl_insert t (receipt_key x) (tu_owner_id x) x n = Inr t' \<Longrightarrow>
    own_keyed receipt_key tu_owner_id t'"
  by (rule own_keyed_insert) auto

lemma put_job_turns [simp]: "l_turns (put_job j own n L) = l_turns L" "l_turns (add_receipt k own r n L) = l_turns L"
  by (simp_all add: put_job_def add_receipt_def)

lemma recover_turns: "recover_jobs clk n js L = Inr L' \<Longrightarrow> l_turns L' = l_turns L"
  by (drule recover_jobs_writes) (simp add: writes_only_iff)

lemma submit_job_turns: "submit_job L clk n turn rid = Inr (x, L') \<Longrightarrow> l_turns L' = l_turns L"
  by (auto simp: submit_job_def Let_def split: sum.splits)

lemma turn_step_owned: "turn_step L L' \<Longrightarrow> turns_owned L \<Longrightarrow> turns_owned L'"
  unfolding turns_owned_def
  by (erule turn_step.cases)
    (auto simp: put_turn_def put_realtime_context_def save_coordinator_session_def save_receipt_def Let_def
      intro: insert_turn_owned split: sum.splits if_splits option.splits)

lemma job_step_owned: "job_step L L' \<Longrightarrow> turns_owned L \<Longrightarrow> turns_owned L'"
  unfolding turns_owned_def
  by (erule job_step.cases)
    (auto simp: submit_coordination_def claim_coordination_job_def finish_coordination_job_def
      release_coordination_job_def recover_coordination_jobs_def Let_def
      dest!: submit_job_turns recover_turns intro: insert_turn_owned split: sum.splits if_splits option.splits)

lemma ledger_step_owned: "ledger_step L L' \<Longrightarrow> turns_owned L \<Longrightarrow> turns_owned L'"
  using step_table(12) [of L L'] turn_step_owned job_step_owned by (auto simp: turns_owned_def)

lemma reachable_turns_owned:
  assumes "reachable L"
  shows "turns_owned L"
proof -
  have "ledger_step\<^sup>*\<^sup>* empty_ledger L" using assms by (simp add: reachable_def)
  then show ?thesis
    by (induction rule: rtranclp_induct) (simp add: turns_owned_def empty_ledger_def, rule ledger_step_owned)
qed

lemma get_turn_owner:
  assumes "turns_owned L" "get_turn L k (Some own) voice = Inr (Some t)"
  shows "tu_owner_id t = own"
proof -
  obtain r where "r \<in> set (take 2 (sort_key (\<lambda>r. - row_updated r)
      (filter (\<lambda>r. tu_turn_id (row_payload r) = k \<and> Some own = Some (row_owner r) \<and>
        (voice = None \<or> voice = Some (tu_voice_session_id (row_payload r)))) (l_turns L))))" "t = row_payload r"
    using assms(2) by (auto simp: get_turn_def Let_def split: list.splits if_splits)
  then have "r \<in> set (l_turns L)" "row_owner r = own" by (auto dest!: in_set_takeD)
  with assms(1) \<open>t = row_payload r\<close> show ?thesis by (auto simp: turns_owned_def own_keyed_def)
qed

section \<open>What is gathered\<close>

definition gathered_ok :: "TaskLedger \<Rightarrow> string \<Rightarrow> string set \<Rightarrow> gathered \<Rightarrow> bool" where
  "gathered_ok L own sessions acc \<longleftrightarrow>
     (\<forall>kt \<in> set (fst acc). tu_owner_id (snd kt) = own) \<and>
     (\<forall>ke \<in> set (snd acc). snd ke \<in> set (list_realtime_context L (Some own)) \<and> ce_session_id (snd ke) \<in> sessions)"

lemma update_all: "P v \<Longrightarrow> \<forall>kv \<in> set kvs. P (snd kv) \<Longrightarrow> \<forall>kv \<in> set (AList.update k v kvs). P (snd kv)"
  by (induction kvs) auto

lemma add_turn_ok:
  assumes "gathered_ok L own S acc" "\<And>t. found = Some t \<Longrightarrow> tu_owner_id t = own"
  shows "gathered_ok L own S (add_turn found acc)"
proof (cases found)
  case (Some t)
  have "\<forall>kt \<in> set (AList.update (receipt_key t) t (fst acc)). tu_owner_id (snd kt) = own"
    by (rule update_all [where P = "\<lambda>t. tu_owner_id t = own"]) (use assms Some in \<open>simp_all add: gathered_ok_def\<close>)
  then show ?thesis using assms(1) Some by (simp add: add_turn_def gathered_ok_def)
qed (simp add: add_turn_def assms(1))

lemma add_event_ok:
  assumes "gathered_ok L own S acc" "s \<in> S" "\<And>e. found = Some e \<Longrightarrow> e \<in> set (list_realtime_context L (Some own))"
  shows "gathered_ok L own S (add_event s found acc)"
proof (cases "\<exists>e. found = Some e \<and> ce_session_id e = s")
  case True
  then obtain e where e: "found = Some e" "ce_session_id e = s" by blast
  have "\<forall>ke \<in> set (AList.update (ce_event_id e) e (snd acc)).
      snd ke \<in> set (list_realtime_context L (Some own)) \<and> ce_session_id (snd ke) \<in> S"
    by (rule update_all [where P = "\<lambda>e. e \<in> set (list_realtime_context L (Some own)) \<and> ce_session_id e \<in> S"])
      (use assms e in \<open>simp_all add: gathered_ok_def\<close>)
  then show ?thesis using assms(1) e by (simp add: add_event_def gathered_ok_def)
next
  case False
  then have "add_event s found acc = acc" by (auto simp: add_event_def split: option.splits)
  then show ?thesis using assms(1) by simp
qed

lemma realtime_listed: "get_realtime_context L k (Some own) = Some e \<Longrightarrow> e \<in> set (list_realtime_context L (Some own))"
  by (auto simp: get_realtime_context_def list_realtime_context_def set_tbl_list dest!: find_SomeD)

lemma selected_turn_owner: "turns_owned L \<Longrightarrow> selected_turn L own t ref = Some x \<Longrightarrow> tu_owner_id x = own"
  by (auto simp: selected_turn_def Let_def dest: get_turn_owner split: option.splits sum.splits if_splits)

lemma gather_ref_ok:
  "turns_owned L \<Longrightarrow> gathered_ok L own S acc \<Longrightarrow> t_source_voice_session_id t \<in> S \<Longrightarrow> gathered_ok L own S (gather_ref L own t acc ref)"
  unfolding gather_ref_def by (auto intro!: add_event_ok add_turn_ok realtime_listed dest: selected_turn_owner)

lemma gather_refs_ok:
  "turns_owned L \<Longrightarrow> gathered_ok L own S acc \<Longrightarrow> t_source_voice_session_id t \<in> S \<Longrightarrow>
    gathered_ok L own S (foldl (gather_ref L own t) acc refs)"
  by (induction refs arbitrary: acc) (simp_all add: gather_ref_ok)

lemma gather_tasks_ok:
  "turns_owned L \<Longrightarrow> gathered_ok L own S acc \<Longrightarrow> \<forall>t \<in> set ts. t_source_voice_session_id t \<in> S \<Longrightarrow>
    gather_tasks L own ts acc = Inr acc' \<Longrightarrow> gathered_ok L own S acc'"
proof (induction ts arbitrary: acc)
  case (Cons t ts)
  then obtain source where source: "get_turn L (t_source_turn_id t) (Some own) (or_none (t_source_voice_session_id t)) = Inr source"
    and rest: "gather_tasks L own ts (foldl (gather_ref L own t) (add_turn source acc)
       (cp_event_refs (t_context_plan t) @ cp_must_include_refs (t_context_plan t))) = Inr acc'"
    by (auto simp: gather_task_def bindE_Inr_iff)
  have "gathered_ok L own S (add_turn source acc)"
    using add_turn_ok [OF Cons.prems(2)] get_turn_owner [OF Cons.prems(1)] source by metis
  then show ?case using Cons.IH [OF Cons.prems(1) gather_refs_ok _ rest] Cons.prems(1,3) by simp
qed simp

lemma gather_commands_ok: "gathered_ok L own S acc \<Longrightarrow> gathered_ok L own S (foldl (gather_command own ids) acc cs)"
proof (induction cs arbitrary: acc)
  case (Cons c cs)
  have "gathered_ok L own S (gather_command own ids acc c)"
    using Cons.prems by (auto simp: gather_command_def intro: add_turn_ok split: option.splits)
  then show ?case using Cons.IH by simp
qed simp

text \<open>Whose a candidate is: a record of the owner, and of the lineage where records carry one.\<close>

definition of_lineage :: "TaskLedger \<Rightarrow> TaskRecord \<Rightarrow> candidate \<Rightarrow> bool" where
  "of_lineage L task c \<longleftrightarrow>
     (\<exists>e. e \<in> set (list_realtime_context L (Some (t_owner_id task))) \<and>
        (\<exists>t. t \<in> set (lineage_tasks L task) \<and> ce_session_id e = t_source_voice_session_id t) \<and>
        cd_kind c = ''realtime'' \<and> cd_ref c = ''realtime:'' @ ce_event_id e \<and> cd_text c = ce_text e) \<or>
     (\<exists>t. tu_owner_id t = t_owner_id task \<and> cd_kind c = ''turn'' \<and> cd_ref c = turn_ref t \<and> cd_text c = tu_final_asr t) \<or>
     (\<exists>t. t \<in> set (lineage_tasks L task) \<and> c = task_candidate t) \<or>
     (\<exists>a t. a \<in> set (list_artifacts L (Some (t_owner_id task))) \<and> t \<in> set (lineage_tasks L task) \<and>
        a_task_id a = t_task_id t \<and> cd_kind c = ''artifact'' \<and> cd_ref c = artifact_ref a) \<or>
     (\<exists>e t. t \<in> set (lineage_tasks L task) \<and> e \<in> set (list_events L (Some (t_task_id t)) None) \<and>
        c = event_candidate e)"

lemma candidates_of_lineage:
  assumes L: "turns_owned L" and cs: "context_candidates f L task caps m = Inr cs" and c: "c \<in> set cs"
  shows "of_lineage L task c"
proof -
  let ?own = "t_owner_id task" and ?ts = "lineage_tasks L task"
  let ?S = "t_source_voice_session_id ` set ?ts"
  from cs obtain acc0 where acc0: "gather_tasks L ?own ?ts ([], []) = Inr acc0"
    by (auto simp: context_candidates_def Let_def bindE_Inr_iff)
  define acc where "acc = foldl (gather_command ?own (t_task_id ` set ?ts)) acc0 (list_provider_commands L (Some ?own) None)"
  have "gathered_ok L ?own ?S acc0" by (rule gather_tasks_ok [OF L _ _ acc0]) (auto simp: gathered_ok_def)
  then have ok: "gathered_ok L ?own ?S acc" unfolding acc_def by (rule gather_commands_ok)
  from cs acc0 have "cs = map (realtime_candidate f caps m)
        (sort_key ce_seq (sort_key ce_timestamp_ms (sort_key (\<lambda>e. u (ce_event_id e)) (map snd (snd acc))))) @
      map (turn_candidate caps m (map snd (fst acc))) (map snd (fst acc)) @ map task_candidate ?ts @
      map (artifact_candidate f) (filter (\<lambda>a. a_task_id a \<in> t_task_id ` set ?ts) (list_artifacts L (Some ?own))) @
      concat (map (\<lambda>t. map event_candidate (list_events L (Some (t_task_id t)) None)) ?ts)"
    by (simp add: context_candidates_def Let_def bindE_Inr_iff flip: acc_def)
  with c have "c \<in> set (map (realtime_candidate f caps m)
        (sort_key ce_seq (sort_key ce_timestamp_ms (sort_key (\<lambda>e. u (ce_event_id e)) (map snd (snd acc)))))) \<or>
      c \<in> set (map (turn_candidate caps m (map snd (fst acc))) (map snd (fst acc))) \<or> c \<in> set (map task_candidate ?ts) \<or>
      c \<in> set (map (artifact_candidate f)
        (filter (\<lambda>a. a_task_id a \<in> t_task_id ` set ?ts) (list_artifacts L (Some ?own)))) \<or>
      c \<in> set (concat (map (\<lambda>t. map event_candidate (list_events L (Some (t_task_id t)) None)) ?ts))"
    by (simp only: set_append Un_iff)
  then consider
      ke where "ke \<in> set (snd acc)" "c = realtime_candidate f caps m (snd ke)"
    | kt where "kt \<in> set (fst acc)" "c = turn_candidate caps m (map snd (fst acc)) (snd kt)"
    | t where "t \<in> set ?ts" "c = task_candidate t"
    | a where "a \<in> set (list_artifacts L (Some ?own))" "a_task_id a \<in> t_task_id ` set ?ts" "c = artifact_candidate f a"
    | e t where "t \<in> set ?ts" "e \<in> set (list_events L (Some (t_task_id t)) None)" "c = event_candidate e"
    unfolding set_map set_sort set_filter set_concat image_image by (elim disjE) auto
  then show ?thesis
  proof cases
    case 1
    then have "snd ke \<in> set (list_realtime_context L (Some ?own))" "ce_session_id (snd ke) \<in> ?S"
      using ok by (auto simp: gathered_ok_def)
    with 1 show ?thesis unfolding of_lineage_def by (auto simp: realtime_candidate_def Let_def)
  next
    case 2
    then have "tu_owner_id (snd kt) = ?own" using ok by (auto simp: gathered_ok_def)
    with 2 show ?thesis unfolding of_lineage_def by (auto simp: turn_candidate_def Let_def)
  next
    case 3
    then show ?thesis unfolding of_lineage_def by blast
  next
    case 4
    then show ?thesis unfolding of_lineage_def by (auto simp: artifact_candidate_def plain_candidate_def)
  next
    case 5
    then show ?thesis unfolding of_lineage_def by blast
  qed
qed

section \<open>Selection keeps to the candidates\<close>

lemma set_add_new: "set (add_new cs acc) \<subseteq> set cs \<union> set acc"
  by (induction cs acc rule: add_new.induct) auto

lemma set_by_refs: "set (foldl (\<lambda>acc ref. add_new (matches_of cs ref) acc) acc refs) \<subseteq> set cs \<union> set acc"
proof (induction refs arbitrary: acc)
  case (Cons ref refs)
  have "set (add_new (matches_of cs ref) acc) \<subseteq> set cs \<union> set acc"
    using set_add_new [of "matches_of cs ref" acc] by (auto simp: matches_of_def)
  then show ?case using Cons [of "add_new (matches_of cs ref) acc"] by auto
qed simp

lemma set_ordered: "set (ordered a cs) \<subseteq> set cs"
  using set_by_refs [of cs "[]"] by (auto simp: ordered_def by_refs_def by_score_def by_time_def)

lemma set_narrowed: "set (narrowed a task cs) \<subseteq> set cs"
  by (auto simp: narrowed_def of_kind_def)

section \<open>One page\<close>

text \<open>An item of a page is a candidate, perhaps with a shorter text and fewer media.\<close>

definition shortens :: "candidate \<Rightarrow> candidate \<Rightarrow> bool" where
  "shortens d c \<longleftrightarrow> cd_ref d = cd_ref c \<and> cd_kind d = cd_kind c \<and> cd_details d = cd_details c \<and>
     cd_text d = take (length (cd_text d)) (cd_text c) \<and> (cd_text d = cd_text c \<or> cd_text_truncated d) \<and>
     (case (cd_media c, cd_media d) of (None, None) \<Rightarrow> True
      | (Some m, Some n) \<Rightarrow> n = take (length n) m \<and> (n = m \<or> cd_media_truncated d) | _ \<Rightarrow> False)"

lemma cut_shortens: "0 < r \<Longrightarrow> shortens (cut_candidate r n c) c"
  by (auto simp: shortens_def cut_candidate_def min_def split: option.splits)

definition chars_of :: "candidate list \<Rightarrow> int" where
  "chars_of items = sum_list (map (\<lambda>d. int (length (cd_text d))) items)"

definition media_of :: "candidate list \<Rightarrow> int" where
  "media_of items = sum_list (map (\<lambda>d. int (media_size d)) items)"

lemma chars_of_snoc: "chars_of (ds @ [d]) = chars_of ds + int (length (cd_text d))"
  by (simp add: chars_of_def)

lemma media_of_snoc: "media_of (ds @ [d]) = media_of ds + int (media_size d)"
  by (simp add: media_of_def)

lemma fill_items:
  "\<exists>items n. pf_items (fill_page mc mm p cs) = pf_items p @ items \<and> n \<le> length cs \<and>
     list_all2 shortens items (take n cs) \<and> (cs \<noteq> [] \<longrightarrow> pf_chars p < mc \<longrightarrow> 0 < n) \<and>
     (\<not> pf_text_truncated (fill_page mc mm p cs) \<longrightarrow> n = length cs \<and> \<not> pf_text_truncated p)"
proof (induction cs arbitrary: p)
  case (Cons c cs)
  show ?case
  proof (cases "mc - pf_chars p \<le> 0")
    case True
    then show ?thesis by (auto simp: Let_def)
  next
    case False
    define d where "d = cut_candidate (mc - pf_chars p) (available_media mm (pf_media p)) c"
    define q where "q = \<lparr>pf_items = pf_items p @ [d], pf_chars = pf_chars p + int (length (cd_text d)),
       pf_media = pf_media p + int (media_size d),
       pf_text_truncated = pf_text_truncated p \<or> int (length (cd_text c)) > mc - pf_chars p,
       pf_media_truncated = pf_media_truncated p \<or> (cd_media c \<noteq> None \<and> cd_media_truncated d)\<rparr>"
    have step: "fill_page mc mm p (c # cs) = fill_page mc mm q cs"
      using False by (simp add: Let_def q_def d_def)
    obtain items n where i: "pf_items (fill_page mc mm q cs) = pf_items q @ items" "n \<le> length cs"
        "list_all2 shortens items (take n cs)"
        "\<not> pf_text_truncated (fill_page mc mm q cs) \<longrightarrow> n = length cs \<and> \<not> pf_text_truncated q"
      using Cons [of q] by blast
    have "shortens d c" unfolding d_def using False by (intro cut_shortens) simp
    then have "list_all2 shortens (d # items) (take (Suc n) (c # cs))" using i(3) by simp
    moreover have "pf_items (fill_page mc mm p (c # cs)) = pf_items p @ d # items"
      using i(1) by (simp only: step) (simp add: q_def)
    moreover have "\<not> pf_text_truncated (fill_page mc mm p (c # cs)) \<longrightarrow> Suc n = length (c # cs) \<and> \<not> pf_text_truncated p"
    proof -
      have "pf_text_truncated p \<Longrightarrow> pf_text_truncated q" by (simp add: q_def)
      then show ?thesis using i(4) unfolding step by auto
    qed
    ultimately show ?thesis using i(2) by (intro exI [of _ "d # items"] exI [of _ "Suc n"]) (auto simp del: fill_page.simps)
  qed
qed simp

lemma fill_from_empty:
  obtains n where "n \<le> length cs" "list_all2 shortens (pf_items (fill_page mc mm empty_fill cs)) (take n cs)"
    "cs \<noteq> [] \<Longrightarrow> 0 < mc \<Longrightarrow> 0 < n" "\<not> pf_text_truncated (fill_page mc mm empty_fill cs) \<Longrightarrow> n = length cs"
proof -
  obtain items n where "pf_items (fill_page mc mm empty_fill cs) = pf_items empty_fill @ items" "n \<le> length cs"
     "list_all2 shortens items (take n cs)" "cs \<noteq> [] \<longrightarrow> pf_chars empty_fill < mc \<longrightarrow> 0 < n"
     "\<not> pf_text_truncated (fill_page mc mm empty_fill cs) \<longrightarrow> n = length cs"
    using fill_items [of mc mm empty_fill cs] by blast
  then show ?thesis using that [of n] by (simp add: empty_fill_def)
qed

lemma cut_chars: "0 \<le> r \<Longrightarrow> int (length (cd_text (cut_candidate r m c))) \<le> r"
  by (simp add: cut_candidate_def min_def le_nat_iff)

lemma cut_media: "0 \<le> k \<Longrightarrow> int (media_size (cut_candidate r (nat k) c)) \<le> k"
  by (cases "cd_media c") (auto simp: cut_candidate_def media_size_def min_def)

text \<open>What the counters of a page are: the sizes of its items, within the limits.\<close>

definition within_page :: "int \<Rightarrow> int \<Rightarrow> page_fill \<Rightarrow> bool" where
  "within_page mc mm p \<longleftrightarrow> pf_chars p = chars_of (pf_items p) \<and> pf_chars p \<le> mc \<and>
     pf_media p = media_of (pf_items p) \<and> pf_media p \<le> mm"

lemma fill_within_page: "within_page mc mm p \<Longrightarrow> within_page mc mm (fill_page mc mm p cs)"
proof (induction cs arbitrary: p)
  case (Cons c cs)
  let ?r = "mc - pf_chars p" and ?k = "available_media mm (pf_media p)"
  let ?d = "cut_candidate ?r ?k c"
  show ?case
  proof (cases "?r \<le> 0")
    case True
    then show ?thesis using Cons.prems by (simp add: Let_def within_page_def)
  next
    case False
    have "int (length (cd_text ?d)) \<le> ?r" using cut_chars False by simp
    moreover have "int (media_size ?d) \<le> mm - pf_media p"
      using cut_media [of "mm - pf_media p"] Cons.prems by (simp add: available_media_def within_page_def)
    ultimately show ?thesis using False Cons.prems
      by (simp add: Let_def) (rule Cons.IH, simp add: within_page_def chars_of_snoc media_of_snoc)
  qed
qed simp

lemma context_page_bounds:
  assumes "fetch_ok a" "0 \<le> mm"
  shows "length (pg_results (context_page mm a task cs)) \<le> nat (cf_limit a)"
    and "pg_content_chars (context_page mm a task cs) = chars_of (pg_results (context_page mm a task cs))"
    and "pg_content_chars (context_page mm a task cs) \<le> cf_max_chars a"
    and "pg_media_refs (context_page mm a task cs) = media_of (pg_results (context_page mm a task cs))"
    and "pg_media_refs (context_page mm a task cs) \<le> mm"
    and "length (pg_missing_refs (context_page mm a task cs)) \<le> length (cf_refs a)"
proof -
  let ?page = "take (nat (cf_limit a)) (drop (nat (cf_cursor a)) (ordered a (narrowed a task cs)))"
  let ?p = "fill_page (cf_max_chars a) mm empty_fill ?page"
  have "within_page (cf_max_chars a) mm ?p"
    using assms by (intro fill_within_page) (simp add: within_page_def empty_fill_def chars_of_def media_of_def fetch_ok_def)
  then have c: "pf_chars ?p = chars_of (pf_items ?p) \<and> pf_chars ?p \<le> cf_max_chars a"
    and m: "pf_media ?p = media_of (pf_items ?p) \<and> pf_media ?p \<le> mm" by (simp_all add: within_page_def)
  obtain n where "n \<le> length ?page" "list_all2 shortens (pf_items ?p) (take n ?page)" by (rule fill_from_empty)
  then have "length (pf_items ?p) \<le> nat (cf_limit a)" by (auto dest: list_all2_lengthD)
  with c m show "length (pg_results (context_page mm a task cs)) \<le> nat (cf_limit a)"
    "pg_content_chars (context_page mm a task cs) = chars_of (pg_results (context_page mm a task cs))"
    "pg_content_chars (context_page mm a task cs) \<le> cf_max_chars a"
    "pg_media_refs (context_page mm a task cs) = media_of (pg_results (context_page mm a task cs))"
    "pg_media_refs (context_page mm a task cs) \<le> mm"
    "length (pg_missing_refs (context_page mm a task cs)) \<le> length (cf_refs a)"
    by (simp_all add: context_page_def Let_def)
qed

section \<open>Reading leaves the gateway as it is\<close>

lemma worker_tool_task_InrE:
  assumes "worker_tool_task X k run_id tool g = (Inr task, g')"
  obtains caps where "g' = g" "get_task (gw_ledger g) k = Some task" "t_active_run_id task = Some run_id"
    "\<not> task_terminal task" "map_of (x_providers X) (t_provider_name task) = Some caps" "tool \<in> set (bc_worker_tools caps)"
  using assms
  by (auto simp: worker_tool_task_def provider_def run_simps need_def
      elim!: cbind_InrE dest!: owned_task_InrE split: if_splits option.splits)

lemma context_fetch_InrE:
  assumes "context_fetch X E k run_id a g = (Inr page, g')"
  obtains task caps cs where "g' = g" "get_task (gw_ledger g) k = Some task" "t_active_run_id task = Some run_id"
    "\<not> task_terminal task" "map_of (x_providers X) (t_provider_name task) = Some caps"
    "''context_fetch'' \<in> set (bc_worker_tools caps)"
    "context_candidates (we_float E) (gw_ledger g) task caps (cf_include_media a) = Inr cs"
    "page = context_page (we_max_context_media_refs E) a task cs"
proof -
  from assms obtain task h where t: "worker_tool_task X k run_id ''context_fetch'' g = (Inr task, h)"
    and rest: "cbind (provider X (t_provider_name task)) (\<lambda>capabilities.
     cbind (look (\<lambda>L. context_candidates (we_float E) L task capabilities (cf_include_media a))) (\<lambda>gathered.
     cbind (lift_res gathered) (\<lambda>cs. ret (context_page (we_max_context_media_refs E) a task cs)))) h = (Inr page, g')"
    unfolding context_fetch_def by (rule cbind_InrE)
  from t obtain caps where c: "h = g" "get_task (gw_ledger g) k = Some task" "t_active_run_id task = Some run_id"
    "\<not> task_terminal task" "map_of (x_providers X) (t_provider_name task) = Some caps"
    "''context_fetch'' \<in> set (bc_worker_tools caps)" by (rule worker_tool_task_InrE)
  from rest c(1,5) have "g' = g \<and> (\<exists>cs. context_candidates (we_float E) (gw_ledger g) task caps (cf_include_media a) = Inr cs \<and>
      page = context_page (we_max_context_media_refs E) a task cs)"
    by (auto simp: provider_def need_def lift_res_def run_simps elim!: cbind_InrE split: sum.splits)
  then show ?thesis using that c by blast
qed

lemma context_fetch_run:
  assumes "get_task (gw_ledger g) k = Some task" "t_active_run_id task = Some run_id"
    "\<not> task_terminal task" "map_of (x_providers X) (t_provider_name task) = Some caps"
    "''context_fetch'' \<in> set (bc_worker_tools caps)"
    "context_candidates (we_float E) (gw_ledger g) task caps (cf_include_media a) = Inr cs"
  shows "context_fetch X E k run_id a g = (Inr (context_page (we_max_context_media_refs E) a task cs), g)"
  using assms
  by (simp add: context_fetch_def worker_tool_task_def owned_task_def provider_def need_def lift_res_def run_simps cbind_def)

section \<open>Walking the pages\<close>

lemma page_part:
  assumes "1 \<le> cf_limit a" "0 < cf_max_chars a" "cf_cursor a = int c"
  obtains n where "n \<le> length (ordered a (narrowed a task cs)) - c"
    "list_all2 shortens (pg_results (context_page mm a task cs)) (take n (drop c (ordered a (narrowed a task cs))))"
    "c < length (ordered a (narrowed a task cs)) \<Longrightarrow> 0 < n"
    "pg_next_cursor (context_page mm a task cs) = None \<Longrightarrow> length (ordered a (narrowed a task cs)) \<le> c + n"
    "\<And>k. pg_next_cursor (context_page mm a task cs) = Some k \<Longrightarrow> k = int (c + n) \<and>
       c < length (ordered a (narrowed a task cs))"
proof -
  let ?chosen = "ordered a (narrowed a task cs)"
  let ?page = "take (nat (cf_limit a)) (drop c ?chosen)"
  let ?p = "fill_page (cf_max_chars a) mm empty_fill ?page"
  obtain n where n: "n \<le> length ?page" "list_all2 shortens (pf_items ?p) (take n ?page)"
    "?page \<noteq> [] \<Longrightarrow> 0 < cf_max_chars a \<Longrightarrow> 0 < n" "\<not> pf_text_truncated ?p \<Longrightarrow> n = length ?page"
    by (rule fill_from_empty) blast
  have len: "length (pf_items ?p) = n" using n(1,2) by (auto dest: list_all2_lengthD)
  have nonempty: "?page \<noteq> [] \<longleftrightarrow> c < length ?chosen" using assms(1) by auto
  have no_page: "\<not> pf_text_truncated ?p" if "\<not> c < length ?chosen"
    using that by (simp add: empty_fill_def)
  have fields: "pg_results (context_page mm a task cs) = pf_items ?p"
    "pg_next_cursor (context_page mm a task cs) =
      (if pf_text_truncated ?p \<or> int c + int n < int (length ?chosen) then Some (int c + int n) else None)"
    using assms(3) len by (simp_all add: context_page_def Let_def)
  show ?thesis
  proof (rule that [of n])
    show "n \<le> length ?chosen - c" using n(1) by simp
    show "list_all2 shortens (pg_results (context_page mm a task cs)) (take n (drop c ?chosen))"
      using n(1,2) fields(1) by (simp add: min_absorb1)
    show "0 < n" if "c < length ?chosen" using n(3) nonempty that assms(2) by simp
    show "length ?chosen \<le> c + n" if "pg_next_cursor (context_page mm a task cs) = None"
      using that fields(2) by (simp split: if_splits)
    show "k = int (c + n) \<and> c < length ?chosen" if some: "pg_next_cursor (context_page mm a task cs) = Some k" for k
    proof
      show "k = int (c + n)" using some fields(2) by (simp split: if_splits)
      show "c < length ?chosen"
      proof (rule ccontr)
        assume end_of: "\<not> c < length ?chosen"
        then have "pg_next_cursor (context_page mm a task cs) = None" unfolding fields(2) using no_page by simp
        then show False using some by simp
      qed
    qed
  qed
qed

text \<open>A worker that follows \<open>next_cursor\<close>, for at most \<open>n\<close> pages.\<close>

fun walk_pages ::
  "env \<Rightarrow> worker_env \<Rightarrow> nat \<Rightarrow> string \<Rightarrow> string \<Rightarrow> ContextFetchArgs \<Rightarrow> gateway \<Rightarrow> candidate list option" where
  "walk_pages X E 0 k run_id a g = None"
| "walk_pages X E (Suc n) k run_id a g =
     (case context_fetch X E k run_id a g of
        (Inl e, g') \<Rightarrow> None
      | (Inr page, g') \<Rightarrow> (case pg_next_cursor page of
           None \<Rightarrow> Some (pg_results page)
         | Some c \<Rightarrow> map_option ((@) (pg_results page)) (walk_pages X E n k run_id (a\<lparr>cf_cursor := c\<rparr>) g')))"

text \<open>The candidates the arguments select, in their order.\<close>

definition selected_candidates :: "env \<Rightarrow> worker_env \<Rightarrow> string \<Rightarrow> ContextFetchArgs \<Rightarrow> gateway \<Rightarrow> candidate list" where
  "selected_candidates X E k a g =
     (case get_task (gw_ledger g) k of
        None \<Rightarrow> []
      | Some task \<Rightarrow> (case map_of (x_providers X) (t_provider_name task) of
          None \<Rightarrow> []
        | Some caps \<Rightarrow> (case context_candidates (we_float E) (gw_ledger g) task caps (cf_include_media a) of
            Inl e \<Rightarrow> []
          | Inr cs \<Rightarrow> ordered a (narrowed a task cs))))"

lemma cursor_irrelevant [simp]:
  "ordered (a\<lparr>cf_cursor := c\<rparr>) cs = ordered a cs" "narrowed (a\<lparr>cf_cursor := c\<rparr>) task cs = narrowed a task cs"
  by (simp_all add: ordered_def narrowed_def of_kind_def kind_filter_def in_timeline_def [abs_def])

lemma walk_covers:
  assumes run: "\<And>c. context_fetch X E k run_id (a\<lparr>cf_cursor := c\<rparr>) g =
      (Inr (context_page mm (a\<lparr>cf_cursor := c\<rparr>) task cs), g)"
    and ok: "1 \<le> cf_limit a" "0 < cf_max_chars a"
  shows "c \<le> length (ordered a (narrowed a task cs)) \<Longrightarrow> length (ordered a (narrowed a task cs)) - c < n \<Longrightarrow>
    \<exists>items. walk_pages X E n k run_id (a\<lparr>cf_cursor := int c\<rparr>) g = Some items \<and>
      list_all2 shortens items (drop c (ordered a (narrowed a task cs)))"
proof (induction n arbitrary: c)
  case (Suc n)
  let ?chosen = "ordered a (narrowed a task cs)"
  let ?page = "context_page mm (a\<lparr>cf_cursor := int c\<rparr>) task cs"
  obtain m where m: "m \<le> length ?chosen - c" "list_all2 shortens (pg_results ?page) (take m (drop c ?chosen))"
    "c < length ?chosen \<Longrightarrow> 0 < m" "pg_next_cursor ?page = None \<Longrightarrow> length ?chosen \<le> c + m"
    "\<And>k. pg_next_cursor ?page = Some k \<Longrightarrow> k = int (c + m) \<and> c < length ?chosen"
    by (rule page_part [of "a\<lparr>cf_cursor := int c\<rparr>" c task cs mm]) (use ok in simp_all)
  show ?case
  proof (cases "pg_next_cursor ?page")
    case None
    then have "take m (drop c ?chosen) = drop c ?chosen" using m(4) by simp
    then show ?thesis using m(2) None by (simp add: run)
  next
    case (Some j)
    then have j: "j = int (c + m)" "c < length ?chosen" using m(5) by auto
    then have "0 < m" using m(3) by simp
    then have fuel: "c + m \<le> length ?chosen" "length ?chosen - (c + m) < n" using Suc.prems m(1) j(2) by linarith+
    then obtain items where items: "walk_pages X E n k run_id (a\<lparr>cf_cursor := int (c + m)\<rparr>) g = Some items"
      "list_all2 shortens items (drop (c + m) ?chosen)"
      using Suc.IH [of "c + m"] fuel by blast
    have "list_all2 shortens (pg_results ?page @ items) (take m (drop c ?chosen) @ drop m (drop c ?chosen))"
      using m(2) items(2) by (intro list_all2_appendI) (simp_all add: add.commute)
    then have "list_all2 shortens (pg_results ?page @ items) (drop c ?chosen)" by (simp only: append_take_drop_id)
    then show ?thesis using Some items(1) j(1) by (simp add: run)
  qed
qed simp

end
