(* ===== verification/WorkerProperties.thy ===== *)
theory WorkerProperties
  imports ControlReading
begin

text \<open>
  The properties of the worker tools and of what they read.
\<close>

section \<open>Context\<close>

lemma rel_mem: "list_all2 P xs ys \<Longrightarrow> x \<in> set xs \<Longrightarrow> \<exists>y \<in> set ys. P x y"
  by (metis in_set_conv_nth list_all2_conv_all_nth)

lemma page_from_candidates:
  assumes "d \<in> set (pg_results (context_page mm a task cs))"
  obtains c where "c \<in> set cs" "shortens d c"
proof -
  let ?page = "take (nat (cf_limit a)) (drop (nat (cf_cursor a)) (ordered a (narrowed a task cs)))"
  obtain n where n: "list_all2 shortens (pf_items (fill_page (cf_max_chars a) mm empty_fill ?page)) (take n ?page)"
    by (rule fill_from_empty)
  have "d \<in> set (pf_items (fill_page (cf_max_chars a) mm empty_fill ?page))"
    using assms by (simp add: context_page_def Let_def)
  from rel_mem [OF n this] obtain c where "c \<in> set (take n ?page)" "shortens d c" by blast
  moreover have "set (take n ?page) \<subseteq> set cs"
    using set_ordered [of a "narrowed a task cs"] set_narrowed [of a task cs] by (auto dest!: in_set_takeD in_set_dropD)
  ultimately show ?thesis using that by blast
qed

text \<open>A worker reads only its own lineage.  In every ledger that the methods can produce, each item that
  \<open>context_fetch\<close> returns is, up to the cutting of its text and media, a record of the owner of the running
  task: a realtime event of a voice session of the lineage, a turn of the owner, a task of the lineage, an
  artifact of such a task, or an event of one.\<close>

theorem worker_context_is_confined:
  assumes "reachable (gw_ledger g)" and run: "context_fetch X E k run_id a g = (Inr page, g')"
    and "d \<in> set (pg_results page)"
  shows "\<exists>task c. get_task (gw_ledger g) k = Some task \<and> t_active_run_id task = Some run_id \<and>
    of_lineage (gw_ledger g) task c \<and> shortens d c"
proof -
  from run obtain task caps cs where t: "get_task (gw_ledger g) k = Some task" "t_active_run_id task = Some run_id"
    and cs: "context_candidates (we_float E) (gw_ledger g) task caps (cf_include_media a) = Inr cs"
    and page: "page = context_page (we_max_context_media_refs E) a task cs" by (rule context_fetch_InrE)
  from assms(3) obtain c where c: "c \<in> set cs" "shortens d c" unfolding page by (rule page_from_candidates)
  from candidates_of_lineage [OF reachable_turns_owned [OF assms(1)] cs c(1)] show ?thesis using t c(2) by blast
qed

text \<open>A worker that follows \<open>next_cursor\<close> from the start gets every selected candidate exactly once and in
  order, cut where the limits say so; one page more than there are candidates is always enough.\<close>

theorem pages_cover_the_selection:
  assumes "context_fetch X E k run_id a g = (Inr page, g')" "fetch_ok a" "cf_cursor a = 0"
  shows "\<exists>items. walk_pages X E (Suc (length (selected_candidates X E k a g))) k run_id a g = Some items \<and>
    list_all2 shortens items (selected_candidates X E k a g)"
proof -
  from assms(1) obtain task caps cs where t: "get_task (gw_ledger g) k = Some task" "t_active_run_id task = Some run_id"
      "\<not> task_terminal task" "map_of (x_providers X) (t_provider_name task) = Some caps"
      "''context_fetch'' \<in> set (bc_worker_tools caps)"
    and cs: "context_candidates (we_float E) (gw_ledger g) task caps (cf_include_media a) = Inr cs"
    by (rule context_fetch_InrE)
  have chosen: "selected_candidates X E k a g = ordered a (narrowed a task cs)"
    using t cs by (simp add: selected_candidates_def)
  have run: "context_fetch X E k run_id (a\<lparr>cf_cursor := c\<rparr>) g =
      (Inr (context_page (we_max_context_media_refs E) (a\<lparr>cf_cursor := c\<rparr>) task cs), g)" for c
    by (rule context_fetch_run [OF t]) (simp add: cs)
  have "a\<lparr>cf_cursor := int 0\<rparr> = a" using assms(3) by simp
  with walk_covers [OF run, of 0 "Suc (length (selected_candidates X E k a g))"] assms(2) show ?thesis
    unfolding chosen by (simp add: fetch_ok_def del: walk_pages.simps)
qed

section \<open>Calls\<close>

lemma dispatch_once:
  "tool_dispatch X E share k run_id name arguments call_id g =
     (case validate_tool_arguments (we_float E) name arguments of
        Inl e \<Rightarrow> (Inl (Raised e), g)
      | Inr (MemorySearch a) \<Rightarrow> cbind (memory_search X E k run_id a) (\<lambda>r. ret (MemoryReplied r)) g
      | Inr (ContextFetch a) \<Rightarrow> cbind (context_fetch X E k run_id a) (\<lambda>r. ret (ContextReplied r)) g
      | Inr (Share a) \<Rightarrow> cbind (share a call_id) (\<lambda>r. ret (ShareReplied r)) g)"
proof (cases "validate_tool_arguments (we_float E) name arguments")
  case (Inl e)
  then show ?thesis by (simp add: tool_dispatch_def lift_res_def cbind_def throw_def)
next
  case (Inr call)
  show ?thesis
  proof (cases call)
    case (MemorySearch a)
    then have "search_ok a" using Inr validated_search_ok
      by (auto simp: validate_tool_arguments_def bindE_Inr_iff split: if_splits jsn.splits)
    then have "validate_memory_search (object_of (search_arguments a)) = Inr a"
      using search_again [of a "we_float E"]
      by (simp add: validate_tool_arguments_def search_arguments_def object_of_def bindE_Inr_iff)
    then show ?thesis using Inr MemorySearch
      by (simp add: tool_dispatch_def control_memory_search_def lift_res_def)
  next
    case (ContextFetch a)
    then have "fetch_ok a" using Inr validated_fetch_ok
      by (auto simp: validate_tool_arguments_def bindE_Inr_iff split: if_splits jsn.splits)
    then have "validate_context_fetch (object_of (fetch_arguments a)) = Inr a"
      using fetch_again [of a "we_float E"]
      by (simp add: validate_tool_arguments_def fetch_arguments_def object_of_def bindE_Inr_iff)
    then show ?thesis using Inr ContextFetch
      by (simp add: tool_dispatch_def control_context_fetch_def lift_res_def)
  next
    case (Share a)
    then show ?thesis using Inr by (simp add: tool_dispatch_def lift_res_def)
  qed
qed

text \<open>Dispatching a call validates its arguments twice, in \<open>ToolDispatcher\<close> and again in \<open>WorkerControl\<close>; the
  second validation of what the first accepted never fails and changes nothing.\<close>

theorem tool_call_is_validated_once:
  "tool_dispatch X E share k run_id name arguments call_id g =
     (case validate_tool_arguments (we_float E) name arguments of
        Inl e \<Rightarrow> (Inl (Raised e), g)
      | Inr (MemorySearch a) \<Rightarrow> cbind (memory_search X E k run_id a) (\<lambda>r. ret (MemoryReplied r)) g
      | Inr (ContextFetch a) \<Rightarrow> cbind (context_fetch X E k run_id a) (\<lambda>r. ret (ContextReplied r)) g
      | Inr (Share a) \<Rightarrow> cbind (share a call_id) (\<lambda>r. ret (ShareReplied r)) g)"
  by (rule dispatch_once)

lemma replied_page:
  assumes "tool_dispatch X E share k run_id name arguments call_id g = (Inr (ContextReplied page), g')"
  obtains a where "fetch_ok a" "context_fetch X E k run_id a g = (Inr page, g')"
proof -
  from assms obtain a where v: "validate_tool_arguments (we_float E) name arguments = Inr (ContextFetch a)"
    and run: "context_fetch X E k run_id a g = (Inr page, g')"
    by (auto simp: dispatch_once run_simps elim!: cbind_InrE split: sum.splits WorkerCall.splits)
  from v have "fetch_ok a" using validated_fetch_ok
    by (auto simp: validate_tool_arguments_def bindE_Inr_iff split: if_splits jsn.splits)
  then show ?thesis using that run by blast
qed

lemma replied_hits:
  assumes "tool_dispatch X E share k run_id name arguments call_id g = (Inr (MemoryReplied r), g')"
  obtains a where "search_ok a" "memory_search X E k run_id a g = (Inr r, g')"
proof -
  from assms obtain a where v: "validate_tool_arguments (we_float E) name arguments = Inr (MemorySearch a)"
    and run: "memory_search X E k run_id a g = (Inr r, g')"
    by (auto simp: dispatch_once run_simps elim!: cbind_InrE split: sum.splits WorkerCall.splits)
  from v have "search_ok a" using validated_search_ok
    by (auto simp: validate_tool_arguments_def bindE_Inr_iff split: if_splits jsn.splits)
  then show ?thesis using that run by blast
qed

text \<open>A dispatched page keeps the published bounds: at most fifty items, the characters and media it
  reports are those of its items, and these stay within 48000 and the configured number.\<close>

theorem dispatched_page_is_bounded:
  assumes "tool_dispatch X E share k run_id name arguments call_id g = (Inr (ContextReplied page), g')"
    and "0 \<le> we_max_context_media_refs E"
  shows "length (pg_results page) \<le> 50 \<and> length (pg_missing_refs page) \<le> 32 \<and>
    pg_content_chars page = chars_of (pg_results page) \<and> pg_content_chars page \<le> 48000 \<and>
    pg_media_refs page = media_of (pg_results page) \<and> pg_media_refs page \<le> we_max_context_media_refs E"
proof -
  from assms(1) obtain a where a: "fetch_ok a" "context_fetch X E k run_id a g = (Inr page, g')" by (rule replied_page)
  from a(2) obtain task cs where "page = context_page (we_max_context_media_refs E) a task cs" by (rule context_fetch_InrE)
  moreover have "1 \<le> cf_limit a" "cf_limit a \<le> 50" "cf_max_chars a \<le> 48000" "length (cf_refs a) \<le> 32"
    using a(1) by (simp_all add: fetch_ok_def)
  moreover from this have "nat (cf_limit a) \<le> 50" by simp
  ultimately show ?thesis using context_page_bounds [OF a(1) assms(2), of task cs] by auto
qed

definition hits_of :: "MemoryItem list \<Rightarrow> int" where
  "hits_of found = sum_list (map (\<lambda>h. int (length (mi_text h))) found)"

lemma fill_hits_bounds:
  "fill_hits float mx (found, used, clipped) raws = Inr (found', used', clipped') \<Longrightarrow>
    used = hits_of found \<Longrightarrow> used \<le> mx \<Longrightarrow> \<forall>h \<in> set found. length (mi_text h) \<le> 4000 \<Longrightarrow>
    used' = hits_of found' \<and> used' \<le> mx \<and> length found' \<le> length found + length raws \<and>
    (\<forall>h \<in> set found'. length (mi_text h) \<le> 4000)"
proof (induction raws arbitrary: found used clipped)
  case (Cons raw rest)
  from Cons.prems(1) obtain hit where hit: "memory_hit raw = Inr hit" by (auto simp: bindE_Inr_iff)
  show ?case
  proof (cases "mx - used \<le> 0")
    case True
    with Cons.prems(1) hit have "found' = found" "used' = used" by simp_all
    with Cons.prems(2-4) show ?thesis by simp
  next
    case False
    define t where "t = take (nat (min 4000 (mx - used))) (mh_text hit)"
    define item where "item = \<lparr>mi_ref = mh_ref hit, mi_text = t, mi_metadata = json_mapping float (mh_metadata hit),
      mi_score = mh_score hit\<rparr>"
    have "length t \<le> nat (min 4000 (mx - used))" by (simp add: t_def)
    then have t: "int (length t) \<le> mx - used" "length t \<le> 4000" using False by linarith+
    have "fill_hits float mx (found @ [item], used + int (length t), clipped \<or> length t < length (mh_text hit)) rest =
        Inr (found', used', clipped')"
      using Cons.prems(1) hit False by (simp add: Let_def item_def t_def)
    from Cons.IH [OF this] Cons.prems(2-4) t show ?thesis by (simp add: hits_of_def item_def)
  qed
qed simp

text \<open>A dispatched memory search keeps its bounds, whatever the memory provider answers: at most twenty
  hits of at most 4000 characters each, within the configured total, which is the one reported.\<close>

theorem memory_answer_is_bounded:
  assumes "tool_dispatch X E share k run_id name arguments call_id g = (Inr (MemoryReplied r), g')"
    and "0 \<le> we_max_memory_result_chars E"
  shows "length (my_results r) \<le> 20 \<and> my_content_chars r = hits_of (my_results r) \<and>
    my_content_chars r \<le> we_max_memory_result_chars E \<and> (\<forall>h. h \<in> set (my_results r) \<longrightarrow> length (mi_text h) \<le> 4000) \<and>
    length (my_detail r) \<le> 256"
proof -
  from assms(1) obtain a where a: "search_ok a" "memory_search X E k run_id a g = (Inr r, g')" by (rule replied_hits)
  show ?thesis
  proof (cases "my_status r = ''ok''")
    case True
    with a(2) obtain raws c where f: "fill_hits (we_float E) (we_max_memory_result_chars E)
        ([], 0, int (length raws) > ms_limit a) (take (nat (ms_limit a)) raws) = Inr (my_results r, my_content_chars r, c)"
        "my_detail r = []"
      by (auto simp: memory_search_def no_memory_def run_simps lift_res_def elim!: cbind_InrE
          split: memory_answer.splits sum.splits)
    have "ms_limit a \<le> 20" "1 \<le> ms_limit a" using a(1) by (simp_all add: search_ok_def)
    then have n: "length (take (nat (ms_limit a)) raws) \<le> 20" by simp
    have b: "my_content_chars r = hits_of (my_results r)" "my_content_chars r \<le> we_max_memory_result_chars E"
      "length (my_results r) \<le> length (take (nat (ms_limit a)) raws)" "\<forall>h \<in> set (my_results r). length (mi_text h) \<le> 4000"
      using fill_hits_bounds [OF f(1)] assms(2) by (simp_all add: hits_of_def)
    from b(3) n have "length (my_results r) \<le> 20" by (rule order_trans)
    with b f(2) show ?thesis by simp
  next
    case False
    with a(2) have "my_results r = [] \<and> my_content_chars r = 0 \<and> length (my_detail r) \<le> 256"
      by (auto simp: memory_search_def no_memory_def run_simps lift_res_def elim!: cbind_InrE
          split: memory_answer.splits sum.splits)
    then show ?thesis using assms(2) by (simp add: hits_of_def)
  qed
qed

section \<open>Evidence and turns\<close>

lemma save_artifact_stored:
  assumes "save_artifact L clk a = Inr (x, L')"
  shows "l_tasks L' = l_tasks L" and "\<exists>b. get_artifact L' (a_ref a) = Some b \<and> a_owner_id b = a_owner_id a \<and>
    a_task_id b = a_task_id a \<and> (b = a \<or> json_eq (JObj (a_facts b)) (JObj (a_facts a)))"
  using assms
  by (auto simp: save_artifact_def get_artifact_def tbl_get_insert split: option.splits if_splits sum.splits)

text \<open>Evidence that was recorded for a task can be fetched for it at once, with equal facts.\<close>

theorem recorded_evidence_is_fetched:
  assumes "record_evidence X k ref facts g = (Inr (), g')"
  shows "\<exists>a. fetch_artifact k ref g' = (Inr a, g') \<and> a_task_id a = k \<and>
    (a_facts a = facts \<or> json_eq (JObj (a_facts a)) (JObj facts))"
proof -
  from assms obtain task n h a where t: "get_task (gw_ledger g) k = Some task"
    and a: "ArtifactEvidence_init \<lparr>a_ref = ref, a_owner_id = t_owner_id task, a_task_id = k,
       a_facts = facts, a_created_at_ms = n\<rparr> = Inr a"
    and c: "commit X (\<lambda>L clk. save_artifact L clk a) h = (Inr (), g')" and h: "gw_ledger h = gw_ledger g"
    by (auto simp: record_evidence_def now_def bump_def lift_res_def run_simps
        elim!: cbind_InrE dest!: owned_task_InrE split: sum.splits)
  from a have f: "a_ref a = ref" "a_owner_id a = t_owner_id task" "a_task_id a = k" "a_facts a = facts"
    by (auto simp: ArtifactEvidence_init_def)
  from c obtain L' where s: "save_artifact (gw_ledger h) (x_clock X (gw_calls h)) a = Inr ((), L')"
    and g': "gw_ledger g' = L'" by (elim commit_InrE) simp
  obtain b where b: "get_artifact (gw_ledger g') ref = Some b" "a_owner_id b = t_owner_id task" "a_task_id b = k"
      "b = a \<or> json_eq (JObj (a_facts b)) (JObj (a_facts a))"
    using save_artifact_stored(2) [OF s] f g' by auto
  have "get_task (gw_ledger g') k = Some task"
    using save_artifact_stored(1) [OF s] t h g' by (simp add: get_task_def)
  then have "fetch_artifact k ref g' = (Inr b, g')"
    using b by (simp add: fetch_artifact_def owned_task_def need_def run_simps cbind_def)
  then show ?thesis using b f by auto
qed

text \<open>A turn that was selected for a task by its event refs cannot be read if the task's selected media
  belong to another turn: \<open>fetch_turn\<close> raises, because it looks for all of them in this one.\<close>

theorem selected_turn_without_media_is_unreadable:
  assumes "get_task (gw_ledger g) k = Some task" "turn_id \<in> set (cp_event_refs (t_context_plan task))"
    and "get_turn (gw_ledger g) turn_id (Some (t_owner_id task)) (or_none (t_source_voice_session_id task)) = Inr (Some turn)"
    and "path \<in> set (cp_media_refs (t_context_plan task))" "path \<notin> m_path ` set (tu_media_refs turn)"
    and "map_of (x_providers X) (t_provider_name task) = Some caps"
  shows "\<exists>why. fetch_turn X k turn_id None g = (Inl (Raised (RuntimeError why)), g)"
proof -
  have "media_at (tu_media_refs turn) path = None"
    using assms(5) by (auto simp: media_at_def find_None_iff)
  then have "\<exists>why. compile_source_turn task (Some turn) caps = Inl (RuntimeError why)"
    using assms(4) by (auto simp: compile_source_turn_def Let_def)
  then show ?thesis using assms
    by (auto simp: fetch_turn_def owned_task_def provider_def need_def lift_res_def or_none_def run_simps cbind_def)
qed

end
