(* ===== verification/WorkerWitnesses.thy ===== *)
theory WorkerWitnesses
  imports WorkerProperties ControlWitnesses
begin

text \<open>
  The properties of what a worker reads, each applied to a concrete call: the task of \<open>ControlWitnesses\<close>
  runs at a provider that declared the two reading tools.
\<close>

definition reading_env :: env where
  "reading_env = env1\<lparr>x_providers := [(''codex'', caps1\<lparr>bc_worker_tools := [''memory_search'', ''context_fetch'']\<rparr>)]\<rparr>"

definition worker_env1 :: worker_env where
  "worker_env1 = \<lparr>we_float = (\<lambda>_. u ''0.0''), we_max_context_media_refs = 8, we_max_memory_result_chars = 6,
     we_memory = (\<lambda>n own p k a. Hits [HitObject \<lparr>mh_ref = ''m1'', mh_text = ''the usual'', mh_score = None, mh_metadata = []\<rparr>])\<rparr>"

definition no_share :: "ShareArgs \<Rightarrow> string \<Rightarrow> json control" where
  "no_share a call_id = ret JNull"

definition fetch1 :: ContextFetchArgs where
  "fetch1 = \<lparr>cf_refs = [], cf_query = [], cf_kinds = [''task'', ''event''], cf_context_kinds = [], cf_roles = [],
     cf_last_ms = None, cf_limit = 1, cf_max_chars = 256, cf_cursor = 0, cf_include_media = False\<rparr>"

definition fetch_call :: json where
  "fetch_call = JObj [(''kinds'', JList [JStr ''task'', JStr ''event'']), (''limit'', JInt 1), (''max_chars'', JInt 256)]"

definition search1 :: MemorySearchArgs where
  "search1 = \<lparr>ms_query = ''order'', ms_scope = ''owner'', ms_limit = 8\<rparr>"

definition search_call :: json where
  "search_call = JObj [(''query'', JStr '' order '')]"

lemma parsed_calls:
  "validate_tool_arguments (we_float worker_env1) ''context_fetch'' fetch_call = Inr (ContextFetch fetch1)"
  "validate_tool_arguments (we_float worker_env1) ''memory_search'' search_call = Inr (MemorySearch search1)"
  "fetch_ok fetch1"
  by code_simp+

lemma asked_reachable: "reachable (gw_ledger asked1)"
  using run_known [OF fresh_env(1) asked_run] by (simp add: reachable_def)

lemma fetched1: "\<exists>page. context_fetch reading_env worker_env1 ''t1'' ''run3'' fetch1 asked1 = (Inr page, asked1) \<and>
  length (pg_results page) = 1 \<and> pg_next_cursor page = Some 1"
proof -
  let ?m = "context_fetch reading_env worker_env1 ''t1'' ''run3'' fetch1 asked1"
  have "case fst ?m of Inl e \<Rightarrow> False | Inr p \<Rightarrow> length (pg_results p) = 1 \<and> pg_next_cursor p = Some 1" by code_simp
  then obtain p where p: "fst ?m = Inr p" "length (pg_results p) = 1" "pg_next_cursor p = Some 1"
    by (auto split: sum.splits)
  have m: "?m = (Inr p, snd ?m)" using p(1) by (metis prod.collapse)
  then have "snd ?m = asked1" by (rule context_fetch_InrE)
  with m p(2,3) show ?thesis by metis
qed

lemma confined_context_witness:
  "\<exists>d task c. get_task (gw_ledger asked1) ''t1'' = Some task \<and> of_lineage (gw_ledger asked1) task c \<and> shortens d c"
proof -
  obtain page where p: "context_fetch reading_env worker_env1 ''t1'' ''run3'' fetch1 asked1 = (Inr page, asked1)"
    "length (pg_results page) = 1" using fetched1 by blast
  then have "hd (pg_results page) \<in> set (pg_results page)" by (cases "pg_results page") simp_all
  from worker_context_is_confined [OF asked_reachable p(1) this] show ?thesis by blast
qed

lemma cover_witness:
  "\<exists>items. list_all2 shortens items (selected_candidates reading_env worker_env1 ''t1'' fetch1 asked1) \<and>
     2 \<le> length items"
proof -
  obtain page where p: "context_fetch reading_env worker_env1 ''t1'' ''run3'' fetch1 asked1 = (Inr page, asked1)"
    using fetched1 by blast
  have "cf_cursor fetch1 = 0" by (simp add: fetch1_def)
  from pages_cover_the_selection [OF p parsed_calls(3) this] obtain items
    where i: "list_all2 shortens items (selected_candidates reading_env worker_env1 ''t1'' fetch1 asked1)" by blast
  have "2 \<le> length (selected_candidates reading_env worker_env1 ''t1'' fetch1 asked1)" by code_simp
  with i show ?thesis by (intro exI [of _ items]) (simp add: list_all2_lengthD)
qed

lemma bounded_page_witness:
  "\<exists>page. fst (tool_dispatch reading_env worker_env1 no_share ''t1'' ''run3'' ''context_fetch'' fetch_call ''c1'' asked1) =
     Inr (ContextReplied page) \<and> length (pg_results page) \<le> 50"
proof -
  obtain page where p: "context_fetch reading_env worker_env1 ''t1'' ''run3'' fetch1 asked1 = (Inr page, asked1)"
    using fetched1 by blast
  have d: "tool_dispatch reading_env worker_env1 no_share ''t1'' ''run3'' ''context_fetch'' fetch_call ''c1'' asked1 =
      (Inr (ContextReplied page), asked1)"
    unfolding tool_call_is_validated_once parsed_calls using p by (simp add: cbind_def ret_def)
  from dispatched_page_is_bounded [OF d] d show ?thesis by (simp add: worker_env1_def)
qed

text \<open>The one hit is cut to the configured six characters.\<close>

lemma memory_witness:
  "\<exists>r. fst (tool_dispatch reading_env worker_env1 no_share ''t1'' ''run3'' ''memory_search'' search_call ''c2'' asked1) =
     Inr (MemoryReplied r) \<and> map mi_text (my_results r) = [''the us''] \<and> my_content_chars r \<le> 6"
proof -
  let ?m = "memory_search reading_env worker_env1 ''t1'' ''run3'' search1 asked1"
  have "case fst ?m of Inl e \<Rightarrow> False | Inr r \<Rightarrow> map mi_text (my_results r) = [''the us'']" by code_simp
  then obtain r where r: "fst ?m = Inr r" "map mi_text (my_results r) = [''the us'']" by (auto split: sum.splits)
  obtain g' where m: "?m = (Inr r, g')" using r(1) by (metis prod.collapse)
  have d: "tool_dispatch reading_env worker_env1 no_share ''t1'' ''run3'' ''memory_search'' search_call ''c2'' asked1 =
      (Inr (MemoryReplied r), g')"
    unfolding tool_call_is_validated_once parsed_calls using m by (simp add: cbind_def ret_def)
  from memory_answer_is_bounded [OF d] d r(2) show ?thesis by (simp add: worker_env1_def)
qed

lemma evidence_witness:
  "\<exists>g' a. record_evidence reading_env ''t1'' ''doc1'' [(''pages'', JInt 3)] asked1 = (Inr (), g') \<and>
     fetch_artifact ''t1'' ''doc1'' g' = (Inr a, g')"
proof -
  let ?m = "record_evidence reading_env ''t1'' ''doc1'' [(''pages'', JInt 3)] asked1"
  have "case fst ?m of Inl e \<Rightarrow> False | Inr x \<Rightarrow> True" by code_simp
  then have m: "?m = (Inr (), snd ?m)" by (auto split: sum.splits intro: prod_eqI)
  from recorded_evidence_is_fetched [OF this] m show ?thesis by blast
qed

text \<open>A task that selected a turn without media, and a picture of another turn.\<close>

definition lost_ledger :: TaskLedger where
  "lost_ledger = (let L = snd (projr (put_turn empty_ledger tick turn1));
       task = task1\<lparr>t_context_plan := plan0\<lparr>cp_event_refs := [''u1''], cp_media_refs := [''shot.png'']\<rparr>\<rparr>
     in L\<lparr>l_tasks := tbl_put (l_tasks L) ''t1'' ''ann'' task 1\<rparr>)"

lemma unreadable_witness:
  "\<exists>why. fst (fetch_turn reading_env ''t1'' ''u1'' None (new_gateway lost_ledger)) = Inl (Raised (RuntimeError why))"
proof -
  let ?g = "new_gateway lost_ledger" and ?t = "task1\<lparr>t_context_plan := plan0\<lparr>cp_event_refs := [''u1''], cp_media_refs := [''shot.png'']\<rparr>\<rparr>"
  have "get_task (gw_ledger ?g) ''t1'' = Some ?t" by code_simp
  moreover have "get_turn (gw_ledger ?g) ''u1'' (Some (t_owner_id ?t)) (or_none (t_source_voice_session_id ?t)) = Inr (Some turn1)"
    by code_simp
  moreover have "map_of (x_providers reading_env) (t_provider_name ?t) = Some (caps1\<lparr>bc_worker_tools := [''memory_search'', ''context_fetch'']\<rparr>)"
    by code_simp
  ultimately show ?thesis
    using selected_turn_without_media_is_unreadable [of ?g "''t1''" ?t "''u1''" turn1 "''shot.png''" reading_env]
    by (auto simp: turn1_def)
qed

end
