(* ===== verification/Spec2Isabelle.thy ===== *)
theory Spec2Isabelle
  imports RunWitnesses ToolWitnesses ApiWitnesses GatewayWitnesses ControlWitnesses WorkerWitnesses
begin

text \<open>
  A verification library for GNSIS.  A live voice session talks to the user through a front model,
  hands work to background agents, and speaks their results when the foreground is quiet.  Behind it a
  service runs coding agents on remote machines, routes their model calls and the calls of customers to
  providers, and keeps the books of what these cost.  Modelled are the durable state of the supervision,
  the gate that decides when a result may be spoken, the text protocol between the front model and its
  tools, the remote executor's life cycle, and the billing side of the service.

  \<^bold>\<open>The runtime\<close> (src/runtime).

  \<^item> \<open>Prelude\<close>, \<open>Table\<close>, \<open>Json\<close>: results as \<open>py_error + 'a\<close> (a Python exception is \<open>Inl\<close>), the few
    string functions the code uses, keyed tables with their lookup-after-update laws, and JSON values.
  \<^item> \<open>Contracts\<close>, \<open>Records\<close>, \<open>Worker\<close>: the data classes of
    gnsis_runtime/gnsis_runtime/coordination.py (and contracts.py, worker_tools.py).  A class is a
    record, its \<open>__post_init__\<close> is the function \<open><Class>_init\<close>, which returns the error or the record the
    constructor leaves.
  \<^item> \<open>Ledger\<close>, \<open>LedgerJobs\<close>, \<open>LedgerTasks\<close>, \<open>LedgerEvents\<close>, \<open>LedgerInteractions\<close>, \<open>LedgerCommands\<close>,
    \<open>LedgerDeliveries\<close>: every method of \<open>TaskLedger\<close> in supervision.py.  The state is the record
    \<open>TaskLedger\<close>, one typed table per entity kind of the SQLite file; a method takes the ledger and the
    clock readings \<open>clk 0, clk 1, \<dots>\<close> in the order the code makes them, and returns the error (the
    transaction rolls back) or its result with the new ledger.
  \<^item> \<open>Engine\<close>: \<open>SupervisionEngine\<close>, \<open>InteractionBroker\<close> and \<open>DeliveryBroker\<close> of supervision.py.
  \<^item> \<open>LedgerSteps\<close>, \<open>LedgerInvariant\<close>: the mutating methods as step relations, one per component, with
    the tables each may write; the invariant of the whole ledger and what any run preserves.
    \<open>session_run\<close> adds \<open>clear\<close>, which empties the ledger.
  \<^item> \<open>Timeline\<close>, \<open>DeliveryGate\<close>: timeline.py and delivery_gate.py, the session's event ring and the
    gate with its output epochs, playback acknowledgements and result life cycle.
  \<^item> \<open>ControlMonad\<close>, \<open>ControlTasks\<close>, \<open>ControlMessages\<close>, \<open>ControlPlan\<close>, \<open>ControlEvents\<close>, \<open>ControlTurns\<close>:
    the control plane, \<open>GNSISGateway\<close> in gateway.py with lean_control.py, on top of the ledger.  Its
    state is the record \<open>gateway\<close>; a method is a function from the gateway to its outcome and the
    gateway it leaves, which an exception keeps as far as it came, because each ledger call is a
    transaction.  The settings, the clock, \<open>new_id\<close> and the answers of the worker runs are the record
    \<open>env\<close>, and \<open>planner\<close> is the Coordinator model; answers are indexed by the call that reads them.
    A method is one step between two awaits of other parties only where the code holds the owner's or
    the task's lock; a coordination is split at its model call.
  \<^item> \<open>ControlSteps\<close>, \<open>ControlFrames\<close>, \<open>ControlRuns\<close>: every method is a sequence of ledger steps, writes
    only some tables, and hands out no standing grants but where the user did; \<open>gateway_run\<close> is any
    order of methods and of ledger calls of other parts.  \<open>ControlProperties\<close> and \<open>ControlEndings\<close> hold
    the properties.
  \<^item> \<open>WorkerTools\<close>: worker_tools.py, the schemas and validators of the tools a worker calls.
    \<open>ControlContext\<close>, \<open>ControlFetch\<close>: the reading methods of \<open>GNSISGateway\<close>, from the candidates of a
    task's lineage to the bounded pages of \<open>context_fetch\<close> and the hits of \<open>memory_search\<close>.
    \<open>ControlReading\<close>, \<open>WorkerProperties\<close>: what a worker can read, and that reading changes nothing.
  \<^item> \<open>JsonText\<close>, \<open>JsonRoundtrip\<close>: texts as lists of code points, \<open>json.dumps\<close> and \<open>json.loads\<close> as the
    code calls them, and that the second reads back what the first prints, floats included where the
    library's text of a float is a literal that reads back as that float (\<open>float_kept\<close>).
  \<^item> \<open>TaskNames\<close>, \<open>ToolProtocol\<close>, \<open>ToolFit\<close>, \<open>ToolValidate\<close>: minicpm_ft/mcpmft/tool_protocol.py.

  \<^bold>\<open>The remote executor\<close> (src/src/gnsis/service/executor).

  \<^item> \<open>ExecutionStore\<close>: store.py and models.py, the record \<open>ExecutionStore\<close> of the tables of runs, memory
    consumptions, model calls and events; every method is one transaction, so one function on the store.
    \<open>StoreOp\<close> lists them for the runs of any length.
  \<^item> \<open>PatchValidation\<close>: validation.py.  \<open>ExecutorEvents\<close>: events.py.  \<open>ExecutorCallbacks\<close>: callbacks.py,
    failures.py, approval.py and the part of the job store they use; the state is \<open>Service\<close>.
  \<^item> \<open>ExecutorApi\<close>: run-token authentication and the OIDC exchange of api.py and oidc.py, cancel.py and
    reconcile.py.

  \<^bold>\<open>The paid service\<close> (src/src/gnsis/service).

  \<^item> \<open>Books\<close>: the tables, the decimal texts, rounding and rates.py; the state is the record \<open>Books\<close>.  A
    call returns \<open>svc_error + 'a\<close>: \<open>Refused\<close> is an error the service reports with a status, \<open>Raises\<close> an
    exception that nothing on the way expects.  The locale \<open>once_only\<close> states what a write that is
    delivered again must do; the stores of usage, transactions and grants interpret it.
  \<^item> \<open>Usage\<close>: usage.py and pricing.py.  \<open>Billing\<close>: billing.py.  \<open>Credits\<close>: beta_credits.py and
    welcome_credits.py.  \<open>SpendLimits\<close>: limits.py.  \<open>VirtualKeys\<close>: virtual_keys.py.  \<open>Payments\<close>:
    stripe_webhook.py and the LiteLLM callback of usage_api.py.
  \<^item> \<open>PublicGateway\<close>: public_gateway.py, a customer's call from its key to its charge.
    \<open>ExecutorGateway\<close>: executor/gateway.py, a call of a remote run, over the execution store and the
    books.
  \<^item> \<open>BooksSteps\<close>: the transactions on the books as one step relation, \<open>books_step\<close>, with the invariant
    \<open>books_ok\<close>; \<open>service_step\<close> restricts what is recorded as usage to what the usage callback and the
    public gateway measure, and every request of theirs is shown to be a run of such steps.
  \<^item> \<open>ServiceProperties\<close>, \<open>GatewayProperties\<close>: the properties of this part, over any run.

  \<open>Samples\<close> and the theories named \<open>Witnesses\<close> hold concrete values on which the hypotheses of the
  properties hold.

  \<^bold>\<open>What the lemmas show.\<close>  Each component has an invariant that its operations preserve, the result of
  each operation on each branch, and its properties.  Across the ledger: any sequence of methods keeps
  the combined invariant, until the ledger is cleared settled deliveries, finished runs and
  terminal tasks stay as they are, and history is only appended.  Across the
  control plane: every run of the gateway leaves a ledger that satisfies this invariant, a tool call is
  answered once, an action without the user's consent is not let through, plans of superseded turns and
  plans about other owners' work are dropped, and a finished event leaves nothing open.  A worker reads
  its own owner's records only, in pages that together give every selected candidate once.  For the
  gate: a result being delivered belongs to the current epoch,
  terminal results are final, late acknowledgements are ignored and lost ones are recovered once.  For
  the protocol: tool calls survive their text, the search for a task name ends, a fitted response fits,
  and the validator admits exactly the documented arguments.  For the executor: nonces, tokens and source
  downloads are used once, budgets bound the model calls, an accepted patch is confined and complete,
  and a reconciliation ends exactly the overdue runs at which no call to GitHub fails with an error that
  the client does not translate.  For the books: in every run each charge has exactly one debit and the
  balance is what was credited less what was charged; charges, events and grants that are repeated
  change nothing; holds never exceed the balance, admitted requests never exceed a blocking limit, and a
  request that is answered or refused leaves no hold.  Some properties state a fault of the code; they
  and the divergences from the documentation are listed in PROJECT.json.

  \<^bold>\<open>Bounds and fuel.\<close>  Two functions carry fuel: \<open>loads\<close> gets twice the length of the text plus one, which
  \<open>loads_has_fuel\<close> shows to be enough, and the cutting loop of \<open>fit_tool_response\<close> has the 200 rounds the
  code gives it.  The search for a free task name is a partial function, shown to return.

  \<^bold>\<open>Outside code.\<close>  The uuid5 hash, SHA-256 and HMAC, the tokenizer, float printing and reading, regular
  expressions, the memory provider, \<open>git apply --check\<close>, the verification of a JWT, GitHub, the model providers, and the
  reading and printing of ISO timestamps are parameters.  Fresh identifiers and random texts are
  arguments.  Wall-clock readings are integers, \<open>time.monotonic()\<close> readings and float rates rationals;
  \<open>Decimal\<close> is an exact rational, without the 28 digits of its context.

  \<^bold>\<open>Not modelled.\<close>  The online loop and the app server, the worker sessions and their event streams,
  the snapshot the Coordinator model is shown, the prompts of the workers, the provider adapters, audio, screen and
  visual code, training and inference, dispatch to GitHub and publication, HTTP routes and pages, the
  agent core, front ends, SDKs and scripts; PROJECT.json lists them with the reasons.
\<close>

end
